(* ===== verification/Prelude.thy ===== *)
theory Prelude
  imports Main "HOL-Library.Word" "HOL-Library.Monad_Syntax"
begin

text \<open>
  What every component shares: the machine integer types, the named theorem collections of
  the development, byte buffers with the little-endian loads and stores of
  \<^verbatim>\<open>crypto/randomx/blake2/endian.h\<close>, checked accesses that fail where C would read or
  write out of bounds, and generic lemmas on words, lists and options.
\<close>

unbundle bit_operations_syntax

type_synonym u8 = "8 word"
type_synonym u16 = "16 word"
type_synonym u32 = "32 word"
type_synonym u64 = "64 word"

type_synonym bytes = "u8 list"

named_theorems length_simps \<open>lengths of the buffers and tables of the model\<close>
named_theorems mem_simps \<open>checked loads and stores\<close>
named_theorems wf_intros \<open>introduction rules for well-formedness invariants\<close>

subsection \<open>Words\<close>

lemma unat_less_exp: "unat (x :: 'a::len word) < 2 ^ LENGTH('a)"
  by (rule unsigned_less)

lemma unat_u8_less: "unat (x :: u8) < 256"
  using unat_less_exp [of x] by simp

lemma unat_u32_less: "unat (x :: u32) < 4294967296"
  using unat_less_exp [of x] by simp

lemma unat_u64_less: "unat (x :: u64) < 18446744073709551616"
  using unat_less_exp [of x] by simp

lemma unat_take_bit: "unat (take_bit k x :: 'a::len word) = unat x mod 2 ^ k"
  by (subst unsigned_take_bit_eq) (simp add: take_bit_eq_mod)

lemma unat_and_le1: "unat (x AND m) \<le> unat (m :: 'a::len word)"
  by (metis word_and_le1 word_le_nat_alt)

lemma unat_and_le2: "unat (x AND m) \<le> unat (x :: 'a::len word)"
  by (metis word_and_le2 word_le_nat_alt)

lemma unat_and_less: "unat (m :: 'a::len word) < n \<Longrightarrow> unat (x AND m) < n"
  using unat_and_le1 [of x m] by simp

lemma unat_ucast_le: "unat (ucast (x :: 'a::len word) :: 'b::len word) \<le> unat x"
  by (simp add: unsigned_ucast_eq take_bit_nat_less_eq_self)

lemma unat_add_mod_pow2:
  assumes "k \<le> LENGTH('a)"
  shows "unat (x + y :: 'a::len word) mod 2 ^ k = (unat x + unat y) mod 2 ^ k"
  using assms by (simp add: unat_word_ariths mod_mod_cancel le_imp_power_dvd)

subsection \<open>Checked arrays\<close>

text \<open>Reading and writing an array cell; \<open>None\<close> where the index is outside the array.\<close>

definition rd :: "'a list \<Rightarrow> nat \<Rightarrow> 'a option" where
  "rd xs i = (if i < length xs then Some (xs ! i) else None)"

definition wr :: "'a list \<Rightarrow> nat \<Rightarrow> 'a \<Rightarrow> 'a list option" where
  "wr xs i v = (if i < length xs then Some (xs[i := v]) else None)"

lemma rd_Some [mem_simps]: "i < length xs \<Longrightarrow> rd xs i = Some (xs ! i)"
  by (simp add: rd_def)

lemma wr_Some [mem_simps]: "i < length xs \<Longrightarrow> wr xs i v = Some (xs[i := v])"
  by (simp add: wr_def)

lemma wr_length: "wr xs i v = Some ys \<Longrightarrow> length ys = length xs"
  by (auto simp: wr_def split: if_splits)

subsection \<open>Computations that succeed\<close>

text \<open>
  \<open>succeeds m P\<close>: the fallible computation \<open>m\<close> returns a result and it satisfies \<open>P\<close> (total
  correctness). The rules run through a \<open>do\<close> block like a Hoare calculus.
\<close>

definition succeeds :: "'a option \<Rightarrow> ('a \<Rightarrow> bool) \<Rightarrow> bool" where
  "succeeds m P \<longleftrightarrow> (\<exists>x. m = Some x \<and> P x)"

lemma succeeds_Some [simp]: "succeeds (Some x) P = P x"
  by (simp add: succeeds_def)

lemma succeeds_None [simp]: "\<not> succeeds None P"
  by (simp add: succeeds_def)

lemma succeeds_bind:
  "succeeds m Q \<Longrightarrow> (\<And>x. m = Some x \<Longrightarrow> Q x \<Longrightarrow> succeeds (f x) P) \<Longrightarrow> succeeds (m \<bind> f) P"
  by (auto simp: succeeds_def)

lemma succeeds_map: "succeeds (map_option g m) P = succeeds m (\<lambda>x. P (g x))"
  by (auto simp: succeeds_def)

lemma succeeds_weaken: "succeeds m Q \<Longrightarrow> (\<And>x. m = Some x \<Longrightarrow> Q x \<Longrightarrow> P x) \<Longrightarrow> succeeds m P"
  by (auto simp: succeeds_def)

lemma succeedsE:
  assumes "succeeds m P"
  obtains x where "m = Some x" "P x"
  using assms by (auto simp: succeeds_def)

subsection \<open>Little-endian byte buffers\<close>

text \<open>
  \<open>le_word\<close> reads a byte list as a little-endian number, \<open>le_bytes n\<close> writes the low
  \<open>n\<close> bytes of a word. \<open>load32\<close>, \<open>load64\<close>, \<open>store32\<close> and \<open>store64\<close> are the functions of
  the same name in \<^verbatim>\<open>endian.h\<close>.
\<close>

fun le_word :: "bytes \<Rightarrow> 'a::len word" where
  "le_word [] = 0"
| "le_word (b # bs) = ucast b OR push_bit 8 (le_word bs)"

fun le_bytes :: "nat \<Rightarrow> 'a::len word \<Rightarrow> bytes" where
  "le_bytes 0 w = []"
| "le_bytes (Suc n) w = ucast w # le_bytes n (drop_bit 8 w)"

definition load32 :: "bytes \<Rightarrow> u32" where
  "load32 p = le_word (take 4 p)"

definition load64 :: "bytes \<Rightarrow> u64" where
  "load64 p = le_word (take 8 p)"

definition store32 :: "u32 \<Rightarrow> bytes" where
  "store32 w = le_bytes 4 w"

definition store64 :: "u64 \<Rightarrow> bytes" where
  "store64 w = le_bytes 8 w"

lemma length_le_bytes [simp, length_simps]: "length (le_bytes n w) = n"
  by (induction n arbitrary: w) auto

lemma length_store32 [simp, length_simps]: "length (store32 w) = 4"
  by (simp add: store32_def)

lemma length_store64 [simp, length_simps]: "length (store64 w) = 8"
  by (simp add: store64_def)

lemma length_concat_store64 [simp]: "length (concat (map store64 ws)) = 8 * length ws"
  by (induction ws) simp_all

lemma bit_le_word:
  "bit (le_word bs :: 'a::len word) n \<longleftrightarrow>
     n < LENGTH('a) \<and> n div 8 < length bs \<and> bit (bs ! (n div 8)) (n mod 8)"
proof (induction bs arbitrary: n)
  case Nil
  then show ?case by simp
next
  case (Cons b bs)
  show ?case
  proof (cases "n < 8")
    case True
    then show ?thesis
      by (auto simp: bit_simps)
  next
    case False
    then have "n div 8 = Suc ((n - 8) div 8)" and "n mod 8 = (n - 8) mod 8"
      by (simp_all add: le_div_geq le_mod_geq)
    moreover have "\<not> bit b n"
      using False bit_imp_le_length [of b n] by auto
    ultimately show ?thesis
      using False by (auto simp: bit_simps Cons.IH)
  qed
qed

lemma nth_le_bytes:
  "i < n \<Longrightarrow> le_bytes n (w :: 'a::len word) ! i = ucast (drop_bit (8 * i) w)"
proof (induction n arbitrary: w i)
  case 0
  then show ?case by simp
next
  case (Suc n)
  then show ?case
    by (cases i) (simp_all add: drop_bit_drop_bit add.commute)
qed

lemma le_word_le_bytes:
  assumes "LENGTH('a) \<le> 8 * n"
  shows "le_word (le_bytes n w) = (w :: 'a::len word)"
proof (rule bit_word_eqI)
  fix k
  assume k: "k < LENGTH('a)"
  then have "k div 8 < n" using assms by auto
  then show "bit (le_word (le_bytes n w) :: 'a word) k = bit w k"
    using k by (auto simp: bit_le_word nth_le_bytes bit_simps)
qed

lemma le_bytes_le_word:
  assumes "8 * length bs \<le> LENGTH('a)"
  shows "le_bytes (length bs) (le_word bs :: 'a::len word) = bs"
proof (rule nth_equalityI)
  show "length (le_bytes (length bs) (le_word bs :: 'a word)) = length bs" by simp
next
  fix i
  assume "i < length (le_bytes (length bs) (le_word bs :: 'a word))"
  then have i: "i < length bs" by simp
  show "le_bytes (length bs) (le_word bs :: 'a word) ! i = bs ! i"
  proof (rule bit_word_eqI)
    fix k
    assume k: "k < LENGTH(8)"
    then have "8 * i + k < LENGTH('a)" using i assms by simp
    then show "bit (le_bytes (length bs) (le_word bs :: 'a word) ! i) k = bit (bs ! i) k"
      using i k by (simp add: nth_le_bytes bit_le_word bit_simps)
  qed
qed

lemma load32_store32 [simp]: "load32 (store32 w @ xs) = w"
  by (simp add: load32_def store32_def le_word_le_bytes)

lemma load64_store64 [simp]: "load64 (store64 w @ xs) = w"
  by (simp add: load64_def store64_def le_word_le_bytes)

lemma load64_store64' [simp]: "load64 (store64 w) = w"
  using load64_store64 [of w "[]"] by simp

subsection \<open>Checked memory\<close>

text \<open>
  Reads and writes of a buffer at an offset. Where the C code would leave the buffer the
  result is \<open>None\<close>, so that memory safety is a theorem and not an assumption.
\<close>

definition get_bytes :: "bytes \<Rightarrow> nat \<Rightarrow> nat \<Rightarrow> bytes option" where
  "get_bytes m off n = (if off + n \<le> length m then Some (take n (drop off m)) else None)"

definition put_bytes :: "bytes \<Rightarrow> nat \<Rightarrow> bytes \<Rightarrow> bytes option" where
  "put_bytes m off bs =
     (if off + length bs \<le> length m
      then Some (take off m @ bs @ drop (off + length bs) m) else None)"

definition load64_at :: "bytes \<Rightarrow> nat \<Rightarrow> u64 option" where
  "load64_at m off = map_option load64 (get_bytes m off 8)"

definition store64_at :: "bytes \<Rightarrow> nat \<Rightarrow> u64 \<Rightarrow> bytes option" where
  "store64_at m off w = put_bytes m off (store64 w)"

lemma get_bytes_Some [mem_simps]: "off + n \<le> length m \<Longrightarrow> get_bytes m off n = Some (take n (drop off m))"
  by (simp add: get_bytes_def)

lemma get_bytes_length: "get_bytes m off n = Some bs \<Longrightarrow> length bs = n"
  by (auto simp: get_bytes_def split: if_splits)

lemma put_bytes_Some [mem_simps]:
  "off + length bs \<le> length m \<Longrightarrow> put_bytes m off bs = Some (take off m @ bs @ drop (off + length bs) m)"
  by (simp add: put_bytes_def)

lemma put_bytes_length: "put_bytes m off bs = Some m' \<Longrightarrow> length m' = length m"
  by (auto simp: put_bytes_def split: if_splits)

lemma load64_at_Some [mem_simps]: "off + 8 \<le> length m \<Longrightarrow> \<exists>w. load64_at m off = Some w"
  by (simp add: load64_at_def get_bytes_def)

lemma store64_at_Some [mem_simps]: "off + 8 \<le> length m \<Longrightarrow> \<exists>m'. store64_at m off w = Some m'"
  by (simp add: store64_at_def put_bytes_def)

lemma store64_at_length: "store64_at m off w = Some m' \<Longrightarrow> length m' = length m"
  by (simp add: store64_at_def put_bytes_length)

lemma load64_at_store64_at:
  "store64_at m off w = Some m' \<Longrightarrow> load64_at m' off = Some w"
  by (auto simp: store64_at_def load64_at_def put_bytes_def get_bytes_def split: if_splits)

end
