(* ===== verification/RxConfig.thy ===== *)
theory RxConfig
  imports Prelude
begin

text \<open>
  The RandomX parameters: \<^verbatim>\<open>crypto/randomx/configuration.h\<close>, \<^verbatim>\<open>randomx.h\<close> (the
  configuration struct) and the configuration part of \<^verbatim>\<open>randomx.cpp\<close> (the constructors
  of the per-coin configurations and \<open>Apply\<close>), with the instruction type enumeration of
  \<^verbatim>\<open>instruction.hpp\<close>. The thirty \<^verbatim>\<open>RANDOMX_FREQ_*\<close> fields are one field that maps an
  instruction type to its frequency. The JIT code templates that \<open>Apply\<close> also patches are
  not modelled.
\<close>

subsection \<open>Compile-time constants\<close>

definition RANDOMX_CACHE_MAX_ACCESSES :: nat where "RANDOMX_CACHE_MAX_ACCESSES = 16"
definition RANDOMX_SUPERSCALAR_MAX_LATENCY :: nat where "RANDOMX_SUPERSCALAR_MAX_LATENCY = 256"
definition RANDOMX_PROGRAM_MAX_SIZE :: nat where "RANDOMX_PROGRAM_MAX_SIZE = 384"
definition RANDOMX_SCRATCHPAD_L3_MAX_SIZE :: nat where "RANDOMX_SCRATCHPAD_L3_MAX_SIZE = 2097152"

definition SuperscalarMaxSize :: nat where
  "SuperscalarMaxSize = 3 * RANDOMX_SUPERSCALAR_MAX_LATENCY + 2"

definition RANDOMX_DATASET_ITEM_SIZE :: nat where "RANDOMX_DATASET_ITEM_SIZE = 64"
definition CacheLineSize :: nat where "CacheLineSize = RANDOMX_DATASET_ITEM_SIZE"
definition ArgonBlockSize :: nat where "ArgonBlockSize = 1024"
definition StoreL3Condition :: nat where "StoreL3Condition = 14"
definition RegistersCount :: nat where "RegistersCount = 8"
definition RegisterCountFlt :: nat where "RegisterCountFlt = RegistersCount div 2"
definition RegisterNeedsDisplacement :: nat where "RegisterNeedsDisplacement = 5"

definition ArgonMemory :: nat where "ArgonMemory = 262144"
definition CacheAccesses :: nat where "CacheAccesses = 8"
definition DatasetBaseSize :: nat where "DatasetBaseSize = 2147483648"
definition DatasetExtraSize :: nat where "DatasetExtraSize = 33554368"
definition JumpBits :: nat where "JumpBits = 8"
definition JumpOffset :: nat where "JumpOffset = 8"

definition CacheLineAlignMask :: u64 where
  "CacheLineAlignMask = (of_nat DatasetBaseSize - 1) AND NOT (of_nat RANDOMX_DATASET_ITEM_SIZE - 1)"

definition DatasetExtraItems :: nat where
  "DatasetExtraItems = DatasetExtraSize div RANDOMX_DATASET_ITEM_SIZE"

definition ConditionMask :: u32 where
  "ConditionMask = push_bit JumpOffset (push_bit JumpBits 1 - 1)"

lemmas rx_const_defs =
  RANDOMX_CACHE_MAX_ACCESSES_def RANDOMX_SUPERSCALAR_MAX_LATENCY_def RANDOMX_PROGRAM_MAX_SIZE_def
  RANDOMX_SCRATCHPAD_L3_MAX_SIZE_def SuperscalarMaxSize_def RANDOMX_DATASET_ITEM_SIZE_def
  CacheLineSize_def ArgonBlockSize_def StoreL3Condition_def RegistersCount_def
  RegisterCountFlt_def RegisterNeedsDisplacement_def ArgonMemory_def CacheAccesses_def
  DatasetBaseSize_def DatasetExtraSize_def JumpBits_def JumpOffset_def DatasetExtraItems_def

subsection \<open>Instruction types\<close>

datatype instr_type =
    IADD_RS | IADD_M | ISUB_R | ISUB_M | IMUL_R | IMUL_M | IMULH_R | IMULH_M | ISMULH_R | ISMULH_M
  | IMUL_RCP | INEG_R | IXOR_R | IXOR_M | IROR_R | IROL_R | ISWAP_R | FSWAP_R | FADD_R | FADD_M
  | FSUB_R | FSUB_M | FSCAL_R | FMUL_R | FDIV_M | FSQRT_R | CBRANCH | CFROUND | ISTORE | NOP

text \<open>The order in which \<open>compileInstruction\<close> and \<open>Apply\<close> run through the types.\<close>

definition instr_types :: "instr_type list" where
  "instr_types =
    [IADD_RS, IADD_M, ISUB_R, ISUB_M, IMUL_R, IMUL_M, IMULH_R, IMULH_M, ISMULH_R, ISMULH_M,
     IMUL_RCP, INEG_R, IXOR_R, IXOR_M, IROR_R, IROL_R, ISWAP_R, FSWAP_R, FADD_R, FADD_M,
     FSUB_R, FSUB_M, FSCAL_R, FMUL_R, FDIV_M, FSQRT_R, CBRANCH, CFROUND, ISTORE, NOP]"

lemma set_instr_types [simp]: "set instr_types = UNIV"
proof -
  have "t \<in> set instr_types" for t
    by (cases t) (simp_all add: instr_types_def)
  then show ?thesis by auto
qed

subsection \<open>The configuration struct\<close>

text \<open>A 128-bit vector is four 32-bit lanes, the lowest first.\<close>

type_synonym v128 = "u32 \<times> u32 \<times> u32 \<times> u32"

definition rx_set_int_vec_i128 :: "u32 \<Rightarrow> u32 \<Rightarrow> u32 \<Rightarrow> u32 \<Rightarrow> v128" where
  "rx_set_int_vec_i128 I3 I2 I1 I0 = (I0, I1, I2, I3)"

record rx_config =
  ArgonIterations :: nat
  ArgonLanes :: nat
  ArgonSalt :: string
  SuperscalarLatency :: nat
  ScratchpadL1_Size :: u32
  ScratchpadL2_Size :: u32
  ScratchpadL3_Size :: u32
  ProgramSize :: nat
  ProgramIterations :: nat
  ProgramCount :: nat
  RANDOMX_FREQ :: "instr_type \<Rightarrow> u32"
  fillAes4Rx4_Key :: "v128 list"
  Tweak_V2_CFROUND :: bool
  Tweak_V2_AES :: bool
  Tweak_V2_PREFETCH :: bool
  Tweak_V2_COMMITMENT :: bool
  AddressMask :: "u32 list"
  ScratchpadL3Mask :: u32
  ScratchpadL3Mask64 :: u32

fun base_freq :: "instr_type \<Rightarrow> u32" where
  "base_freq IADD_RS = 16" | "base_freq IADD_M = 7"
| "base_freq ISUB_R = 16" | "base_freq ISUB_M = 7"
| "base_freq IMUL_R = 16" | "base_freq IMUL_M = 4"
| "base_freq IMULH_R = 4" | "base_freq IMULH_M = 1"
| "base_freq ISMULH_R = 4" | "base_freq ISMULH_M = 1"
| "base_freq IMUL_RCP = 8" | "base_freq INEG_R = 2"
| "base_freq IXOR_R = 15" | "base_freq IXOR_M = 5"
| "base_freq IROR_R = 8" | "base_freq IROL_R = 2"
| "base_freq ISWAP_R = 4" | "base_freq FSWAP_R = 4"
| "base_freq FADD_R = 16" | "base_freq FADD_M = 5"
| "base_freq FSUB_R = 16" | "base_freq FSUB_M = 5"
| "base_freq FSCAL_R = 6" | "base_freq FMUL_R = 32"
| "base_freq FDIV_M = 4" | "base_freq FSQRT_R = 6"
| "base_freq CBRANCH = 25" | "base_freq CFROUND = 1"
| "base_freq ISTORE = 16" | "base_freq NOP = 0"

text \<open>The base class constructor. The masks are zero until \<open>Apply\<close> computes them.\<close>

definition RandomX_ConfigurationBase :: rx_config where
  "RandomX_ConfigurationBase =
    \<lparr> ArgonIterations = 3, ArgonLanes = 1, ArgonSalt = ''RandomX'' @ [char_of (3 :: nat)],
      SuperscalarLatency = 170,
      ScratchpadL1_Size = 16384, ScratchpadL2_Size = 262144, ScratchpadL3_Size = 2097152,
      ProgramSize = 256, ProgramIterations = 2048, ProgramCount = 8,
      RANDOMX_FREQ = base_freq,
      fillAes4Rx4_Key =
        [rx_set_int_vec_i128 0x99e5d23f 0x2f546d2b 0xd1833ddb 0x6421aadd,
         rx_set_int_vec_i128 0xa5dfcde5 0x06f79d53 0xb6913f55 0xb20e3450,
         rx_set_int_vec_i128 0x171c02bf 0x0aa4679f 0x515e7baf 0x5c3ed904,
         rx_set_int_vec_i128 0xd8ded291 0xcd673785 0xe78f5d08 0x85623763,
         rx_set_int_vec_i128 0x229effb4 0x3d518b6d 0xe3d6a7a6 0xb5826f73,
         rx_set_int_vec_i128 0xb272b7d2 0xe9024d4e 0x9c10b3d9 0xc7566bf3,
         rx_set_int_vec_i128 0xf63befa7 0x2ba9660a 0xf765a38b 0xf273c9e7,
         rx_set_int_vec_i128 0xc0b0762d 0x0c06d1fd 0x915839de 0x7a7cd609],
      Tweak_V2_CFROUND = False, Tweak_V2_AES = False, Tweak_V2_PREFETCH = False,
      Tweak_V2_COMMITMENT = False,
      AddressMask = [0, 0, 0, 0], ScratchpadL3Mask = 0, ScratchpadL3Mask64 = 0 \<rparr>"

definition RandomX_ConfigurationMoneroV2 :: rx_config where
  "RandomX_ConfigurationMoneroV2 = RandomX_ConfigurationBase
    \<lparr> ProgramSize := 384, Tweak_V2_CFROUND := True, Tweak_V2_AES := True,
      Tweak_V2_PREFETCH := True, Tweak_V2_COMMITMENT := True \<rparr>"

definition wownero_keys :: "v128 list" where
  "wownero_keys =
    (let k0 = rx_set_int_vec_i128 0xcf359e95 0x141f82b7 0x7ffbe4a6 0xf890465d;
         k1 = rx_set_int_vec_i128 0x6741ffdc 0xbd5c5ac3 0xfee8278a 0x6a55c450;
         k2 = rx_set_int_vec_i128 0x3d324aac 0xa7279ad2 0xd524fde4 0x114c47a4;
         k3 = rx_set_int_vec_i128 0x76f6db08 0x42d3dbd9 0x99a9aeff 0x810c3a2a
     in [k0, k1, k2, k3, k0, k1, k2, k3])"

definition RandomX_ConfigurationWownero :: rx_config where
  "RandomX_ConfigurationWownero = RandomX_ConfigurationBase
    \<lparr> ArgonSalt := ''RandomWOW'' @ [char_of (1 :: nat)], ProgramIterations := 1024, ProgramCount := 16,
      ScratchpadL2_Size := 131072, ScratchpadL3_Size := 1048576,
      RANDOMX_FREQ := base_freq
        (IADD_RS := 25, IROR_R := 10, IROL_R := 0, FSWAP_R := 8, FADD_R := 20, FSUB_R := 20,
         FMUL_R := 20, CBRANCH := 16),
      fillAes4Rx4_Key := wownero_keys \<rparr>"

definition RandomX_ConfigurationArqma :: rx_config where
  "RandomX_ConfigurationArqma = RandomX_ConfigurationBase
    \<lparr> ArgonIterations := 1, ArgonSalt := ''RandomARQ'' @ [char_of (1 :: nat)], ProgramIterations := 1024,
      ProgramCount := 4, ScratchpadL2_Size := 131072, ScratchpadL3_Size := 262144 \<rparr>"

definition RandomX_ConfigurationGraft :: rx_config where
  "RandomX_ConfigurationGraft = RandomX_ConfigurationBase
    \<lparr> ArgonLanes := 2, ArgonSalt := ''RandomX-Graft'' @ [char_of (1 :: nat)], ProgramSize := 280,
      RANDOMX_FREQ := base_freq (IROR_R := 7, IROL_R := 3) \<rparr>"

definition RandomX_ConfigurationSafex :: rx_config where
  "RandomX_ConfigurationSafex =
     RandomX_ConfigurationBase \<lparr> ArgonSalt := ''RandomSFX'' @ [char_of (1 :: nat)] \<rparr>"

definition RandomX_ConfigurationYada :: rx_config where
  "RandomX_ConfigurationYada = RandomX_ConfigurationBase
    \<lparr> ArgonSalt := ''RandomXYadaCoin'' @ [char_of (3 :: nat)], SuperscalarLatency := 150,
      ArgonIterations := 4 \<rparr>"

definition rx_configs :: "rx_config list" where
  "rx_configs =
    [RandomX_ConfigurationBase, RandomX_ConfigurationMoneroV2, RandomX_ConfigurationWownero,
     RandomX_ConfigurationArqma, RandomX_ConfigurationGraft, RandomX_ConfigurationSafex,
     RandomX_ConfigurationYada]"

subsection \<open>Apply\<close>

text \<open>
  The masks and the opcode table. \<open>opcode_table\<close> is the array that the \<^verbatim>\<open>INST_HANDLE\<close>
  macros fill: entry \<open>k\<close> is the instruction type that opcode \<open>k\<close> is handled by.
\<close>

definition scratchpad_mask :: "u32 \<Rightarrow> u32" where
  "scratchpad_mask sz = (sz div 8 - 1) * 8"

definition Apply :: "rx_config \<Rightarrow> rx_config" where
  "Apply cfg =
    (let l1 = scratchpad_mask (ScratchpadL1_Size cfg);
         l2 = scratchpad_mask (ScratchpadL2_Size cfg)
     in cfg \<lparr> AddressMask := [l2, l1, l1, l1],
              ScratchpadL3Mask := ((ScratchpadL3_Size cfg div 8) - 1) * 8,
              ScratchpadL3Mask64 := ((ScratchpadL3_Size cfg div 8) div 8 - 1) * 64 \<rparr>)"

definition opcode_table :: "rx_config \<Rightarrow> instr_type list" where
  "opcode_table cfg = concat (map (\<lambda>t. replicate (unat (RANDOMX_FREQ cfg t)) t) instr_types)"

subsection \<open>What the rest of the code relies on\<close>

text \<open>
  \<open>rx_valid\<close> is what the interpreter needs of a configuration after \<open>Apply\<close>: the
  frequencies cover every opcode, the masks keep an 8-byte (for the last one a 64-byte)
  access inside the scratchpad, the sizes fit the fixed arrays. The checks the C++ has as
  commented-out \<^verbatim>\<open>static_assert\<close>s in \<^verbatim>\<open>common.hpp\<close> are theorems about it below.
\<close>

definition freq_sum :: "rx_config \<Rightarrow> nat" where
  "freq_sum cfg = sum_list (map (\<lambda>t. unat (RANDOMX_FREQ cfg t)) instr_types)"

definition rx_valid :: "rx_config \<Rightarrow> bool" where
  "rx_valid cfg \<longleftrightarrow>
     freq_sum cfg = 256
   \<and> length (AddressMask cfg) = 4
   \<and> (\<forall>m \<in> set (AddressMask cfg). unat m + 8 \<le> unat (ScratchpadL3_Size cfg))
   \<and> unat (ScratchpadL3Mask cfg) + 8 \<le> unat (ScratchpadL3_Size cfg)
   \<and> unat (ScratchpadL3Mask64 cfg) + 64 \<le> unat (ScratchpadL3_Size cfg)
   \<and> unat (ScratchpadL3_Size cfg) \<le> RANDOMX_SCRATCHPAD_L3_MAX_SIZE
   \<and> 256 dvd unat (ScratchpadL3_Size cfg)
   \<and> ProgramSize cfg \<le> RANDOMX_PROGRAM_MAX_SIZE
   \<and> 8 dvd ProgramSize cfg
   \<and> 0 < ProgramCount cfg
   \<and> SuperscalarLatency cfg \<le> RANDOMX_SUPERSCALAR_MAX_LATENCY
   \<and> length (fillAes4Rx4_Key cfg) = 8"

lemma length_opcode_table [length_simps]: "length (opcode_table cfg) = freq_sum cfg"
  by (simp add: opcode_table_def freq_sum_def length_concat o_def)

lemma freq_sum_base:
  "sum_list (map (\<lambda>t. unat (base_freq t)) instr_types) = 256"
  by (simp add: instr_types_def)

lemma rx_config_base_simps [simp]:
  "freq_sum RandomX_ConfigurationBase = 256"
  "freq_sum RandomX_ConfigurationMoneroV2 = 256"
  "freq_sum RandomX_ConfigurationWownero = 256"
  "freq_sum RandomX_ConfigurationArqma = 256"
  "freq_sum RandomX_ConfigurationGraft = 256"
  "freq_sum RandomX_ConfigurationSafex = 256"
  "freq_sum RandomX_ConfigurationYada = 256"
  by (simp_all add: freq_sum_def instr_types_def RandomX_ConfigurationBase_def
      RandomX_ConfigurationMoneroV2_def RandomX_ConfigurationWownero_def
      RandomX_ConfigurationArqma_def RandomX_ConfigurationGraft_def
      RandomX_ConfigurationSafex_def RandomX_ConfigurationYada_def)

lemma freq_sum_Apply [simp]: "freq_sum (Apply cfg) = freq_sum cfg"
  by (simp add: freq_sum_def Apply_def Let_def)

lemma rx_valid_Arqma: "rx_valid (Apply RandomX_ConfigurationArqma)"
  by (simp add: rx_valid_def, simp add: Apply_def scratchpad_mask_def Let_def rx_const_defs
      RandomX_ConfigurationBase_def RandomX_ConfigurationArqma_def)

text \<open>
  Every coin configuration the miner ships is valid once applied: the instruction
  frequencies add up to 256, so that every opcode byte decodes, every scratchpad mask keeps
  its access inside the scratchpad, and program size, scratchpad size and superscalar
  latency fit the statically sized buffers.
\<close>

theorem shipped_configs_valid: "list_all (\<lambda>cfg. rx_valid (Apply cfg)) rx_configs"
  by (simp add: rx_configs_def rx_valid_def, simp add: Apply_def scratchpad_mask_def Let_def rx_const_defs
      RandomX_ConfigurationBase_def wownero_keys_def
      RandomX_ConfigurationMoneroV2_def RandomX_ConfigurationWownero_def
      RandomX_ConfigurationArqma_def RandomX_ConfigurationGraft_def
      RandomX_ConfigurationSafex_def RandomX_ConfigurationYada_def)

end
