(* ===== verification/RxInstr.thy ===== *)
theory RxInstr
  imports RxConfig
begin

text \<open>
  The instruction word of \<^verbatim>\<open>crypto/randomx/instruction.hpp\<close> and the portable integer
  routines the interpreter and the superscalar executor share: sign extension
  (\<^verbatim>\<open>intrin_portable.h\<close>), rotations and high multiplications
  (\<^verbatim>\<open>instructions_portable.cpp\<close>, both the 128-bit version and the 32-bit fallback), and
  the reciprocals of \<^verbatim>\<open>reciprocal.c\<close>. Each optimised routine is proved equal to its
  arithmetic meaning.
\<close>

subsection \<open>The instruction word\<close>

record instruction =
  i_opcode :: u8
  i_dst :: u8
  i_src :: u8
  i_mod :: u8
  i_imm32 :: u32

definition getModMem :: "instruction \<Rightarrow> nat" where
  "getModMem i = unat (i_mod i AND 3)"

definition getModShift :: "instruction \<Rightarrow> nat" where
  "getModShift i = unat (drop_bit 2 (i_mod i) AND 3)"

definition getModCond :: "instruction \<Rightarrow> nat" where
  "getModCond i = unat (drop_bit 4 (i_mod i))"

definition decode_instr :: "bytes \<Rightarrow> instruction" where
  "decode_instr bs =
     \<lparr> i_opcode = bs ! 0, i_dst = bs ! 1, i_src = bs ! 2, i_mod = bs ! 3,
       i_imm32 = load32 (drop 4 bs) \<rparr>"

lemma getModMem_less: "getModMem i < 4"
  unfolding getModMem_def by (rule unat_and_less) simp

lemma getModShift_less: "getModShift i < 4"
  unfolding getModShift_def by (rule unat_and_less) simp

lemma getModCond_less: "getModCond i < 16"
proof -
  show ?thesis
    using unat_u8_less [of "i_mod i"] by (simp add: getModCond_def drop_bit_eq_div unat_div_distrib)
qed

subsection \<open>Sign extension and powers of two\<close>

definition signExtend2sCompl :: "u32 \<Rightarrow> u64" where
  "signExtend2sCompl x = scast x"

definition isZeroOrPowerOf2 :: "u64 \<Rightarrow> bool" where
  "isZeroOrPowerOf2 x \<longleftrightarrow> x AND (x - 1) = 0"

lemma isZeroOrPowerOf2_0 [simp]: "isZeroOrPowerOf2 0"
  by (simp add: isZeroOrPowerOf2_def)

lemma isZeroOrPowerOf2_power:
  assumes "k < 64"
  shows "isZeroOrPowerOf2 (2 ^ k)"
proof -
  have "(2 ^ k :: u64) AND (2 ^ k - 1) = 0"
    using assms by (intro bit_word_eqI) (auto simp: bit_simps simp flip: mask_eq_exp_minus_1)
  then show ?thesis by (simp add: isZeroOrPowerOf2_def)
qed

subsection \<open>Rotations\<close>

definition rotr64 :: "u64 \<Rightarrow> u32 \<Rightarrow> u64" where
  "rotr64 a b = drop_bit (unat b) a OR push_bit (unat (- b AND 63)) a"

definition rotl64 :: "u64 \<Rightarrow> u32 \<Rightarrow> u64" where
  "rotl64 a b = push_bit (unat b) a OR drop_bit (unat (- b AND 63)) a"

lemma unat_neg_and_63:
  assumes "unat b < 64"
  shows "unat (- (b :: u32) AND 63) = (64 - unat b) mod 64"
proof -
  have "- b AND 63 = take_bit 6 (- b)"
    by (simp add: take_bit_eq_mask mask_eq_exp_minus_1)
  then have "unat (- b AND 63) = unat (- b) mod 64"
    using unat_take_bit [of 6 "- b"] by simp
  also have "unat (- b) = (if b = 0 then 0 else 2 ^ 32 - unat b)"
    using unat_sub_if_size [of 0 b] by (simp add: word_size unat_0_iff)
  also have "(if b = 0 then 0 else 2 ^ 32 - unat b) mod 64 = (64 - unat b) mod 64"
  proof (cases "b = 0")
    case False
    then have "0 < unat b" by (simp add: unat_gt_0)
    then have "2 ^ 32 - unat b = (64 - unat b) + 64 * (2 ^ 26 - 1)"
      using assms by simp
    then have "(2 ^ 32 - unat b) mod 64 = (64 - unat b) mod 64"
      by (metis mod_mult_self2)
    then show ?thesis using False by simp
  qed simp
  finally show ?thesis .
qed

lemma bit_rotr64:
  assumes "unat b < 64"
  shows "bit (rotr64 a b) n \<longleftrightarrow> n < 64 \<and> bit a ((n + unat b) mod 64)"
proof (cases "n < 64 \<and> unat b \<noteq> 0")
  case n: True
  then have True: "n < 64" and m0: "(64 - unat b) mod 64 = 64 - unat b"
    by simp_all
  show ?thesis
  proof (cases "n + unat b < 64")
    case small: True
    then show ?thesis
      using True assms m0
      by (auto simp: rotr64_def bit_simps unat_neg_and_63 add.commute)
  next
    case big: False
    then have m: "(n + unat b) mod 64 = n - (64 - unat b)"
      using True assms by (simp add: le_mod_geq)
    have "\<not> bit a (n + unat b)"
      using big bit_imp_le_length [of a "n + unat b"] by auto
    then show ?thesis
      using True big assms m m0
      by (auto simp: rotr64_def bit_simps unat_neg_and_63 add.commute)
  qed
next
  case False
  then show ?thesis
    using bit_imp_le_length [of "rotr64 a b" n] bit_imp_le_length [of a n]
    by (cases "n < 64") (auto simp: rotr64_def unat_0_iff)
qed

lemma bit_rotl64:
  assumes "unat b < 64"
  shows "bit (rotl64 a b) n \<longleftrightarrow> n < 64 \<and> bit a ((n + (64 - unat b)) mod 64)"
proof (cases "n < 64 \<and> unat b \<noteq> 0")
  case n: True
  then have True: "n < 64" and m0: "(64 - unat b) mod 64 = 64 - unat b"
    by simp_all
  show ?thesis
  proof (cases "unat b \<le> n")
    case ge: True
    then have m: "(n + (64 - unat b)) mod 64 = n - unat b"
      using True assms by (simp add: le_mod_geq)
    have "unat b = 0 \<or> \<not> bit a (n + (64 - unat b))"
      using ge bit_imp_le_length [of a "n + (64 - unat b)"] by auto
    then show ?thesis
      using True ge assms m n m0
      by (auto simp: rotl64_def bit_simps unat_neg_and_63 add.commute)
  next
    case False
    then have "(n + (64 - unat b)) mod 64 = n + (64 - unat b)"
      using True assms by simp
    then show ?thesis
      using True False assms m0
      by (auto simp: rotl64_def bit_simps unat_neg_and_63 add.commute)
  qed
next
  case False
  then show ?thesis
    using bit_imp_le_length [of "rotl64 a b" n] bit_imp_le_length [of a n]
    by (cases "n < 64") (auto simp: rotl64_def unat_0_iff)
qed

subsection \<open>High multiplication\<close>

text \<open>
  \<open>mulh_int128\<close> and \<open>smulh_int128\<close> are the versions compiled where a 128-bit integer type
  exists, \<open>mulh_portable\<close> and \<open>smulh_portable\<close> the fallback built from 32-bit halves. Signed
  operands and results are the same 64-bit patterns.
\<close>

definition mulh_int128 :: "u64 \<Rightarrow> u64 \<Rightarrow> u64" where
  "mulh_int128 a b = ucast (drop_bit 64 ((ucast a :: 128 word) * ucast b))"

definition smulh_int128 :: "u64 \<Rightarrow> u64 \<Rightarrow> u64" where
  "smulh_int128 a b = ucast (signed_drop_bit 64 ((scast a :: 128 word) * scast b))"

definition LO :: "u64 \<Rightarrow> u64" where "LO x = x AND 0xffffffff"
definition HI :: "u64 \<Rightarrow> u64" where "HI x = drop_bit 32 x"

definition mulh_portable :: "u64 \<Rightarrow> u64 \<Rightarrow> u64" where
  "mulh_portable a b =
    (let ah = HI a; al = LO a; bh = HI b; bl = LO b;
         x00 = al * bl; x01 = al * bh; x10 = ah * bl; x11 = ah * bh;
         m1 = LO x10 + LO x01 + HI x00;
         m2 = HI x10 + HI x01 + LO x11 + HI m1;
         m3 = HI x11 + HI m2
     in push_bit 32 m3 + LO m2)"

definition smulh_portable :: "u64 \<Rightarrow> u64 \<Rightarrow> u64" where
  "smulh_portable a b =
    (let hi = mulh_portable a b;
         hi = (if a <s 0 then hi - b else hi);
         hi = (if b <s 0 then hi - a else hi)
     in hi)"

lemma unat_HI: "unat (HI x) = unat x div 2 ^ 32"
  by (simp add: HI_def drop_bit_eq_div unat_div_distrib)

lemma unat_LO: "unat (LO x) = unat x mod 2 ^ 32"
proof -
  have "LO x = take_bit 32 x"
    by (simp add: LO_def take_bit_eq_mask mask_eq_exp_minus_1)
  then show ?thesis by (simp add: unat_take_bit)
qed

lemma unat_add_no_overflow:
  "unat a + unat b < 2 ^ 64 \<Longrightarrow> unat (a + b :: u64) = unat a + unat b"
  by (simp add: unat_word_ariths)

lemma unat_mult_no_overflow:
  "unat a * unat b < 2 ^ 64 \<Longrightarrow> unat (a * b :: u64) = unat a * unat b"
  by (simp add: unat_word_ariths)

lemma mulh_int128_arith: "unat (mulh_int128 a b) = unat a * unat b div 2 ^ 64"
proof -
  have "unat a * unat b < 2 ^ 64 * 2 ^ 64"
    by (rule mult_strict_mono) (use unat_less_exp [of a] unat_less_exp [of b] in auto)
  moreover have "take_bit 128 (unat x) = unat x" for x :: u64
    using unat_u64_less [of x] by (simp add: take_bit_nat_eq_self)
  ultimately have p: "unat ((ucast a :: 128 word) * ucast b) = unat a * unat b"
    by (simp add: unat_word_ariths unsigned_ucast_eq)
  have "unat (mulh_int128 a b) = (unat a * unat b div 2 ^ 64) mod 2 ^ 64"
    by (simp add: mulh_int128_def unsigned_ucast_eq take_bit_eq_mod drop_bit_eq_div unat_div_distrib p)
  also have "\<dots> = unat a * unat b div 2 ^ 64"
    using \<open>unat a * unat b < 2 ^ 64 * 2 ^ 64\<close> by (simp add: less_mult_imp_div_less)
  finally show ?thesis .
qed

lemma unat_push_bit_no_overflow:
  "unat x * 2 ^ k < 2 ^ 64 \<Longrightarrow> unat (push_bit k x :: u64) = unat x * 2 ^ k"
  by (subst unsigned_push_bit_eq) (simp add: push_bit_eq_mult take_bit_nat_eq_self)

text \<open>The schoolbook multiplication of two numbers of two 32-bit digits each.\<close>

lemma schoolbook_high:
  fixes al ah bl bh :: nat
  assumes "al < B" "ah < B" "bl < B" "bh < B" and B: "0 < B"
  defines "m1 \<equiv> (ah * bl) mod B + (al * bh) mod B + (al * bl) div B"
  defines "m2 \<equiv> (ah * bl) div B + (al * bh) div B + (ah * bh) mod B + m1 div B"
  shows "(ah * B + al) * (bh * B + bl) div (B * B) = (ah * bh) div B * B + m2"
    and "(ah * bh) div B * B + m2 = ((ah * bh) div B + m2 div B) * B + m2 mod B"
proof -
  let ?p = "ah * bl" and ?q = "al * bh" and ?r = "al * bl" and ?s = "ah * bh"
  have "(ah * B + al) * (bh * B + bl) = ?s * (B * B) + (?p + ?q) * B + ?r"
    by (simp add: algebra_simps)
  also have "?s * (B * B) = (?s div B * B + ?s mod B) * (B * B)"
    by simp
  also have "?p + ?q = (?p div B * B + ?p mod B) + (?q div B * B + ?q mod B)"
    by simp
  also have "?r = ?r div B * B + ?r mod B" by simp
  finally have "(ah * B + al) * (bh * B + bl)
      = (?s div B * B + ?s mod B + ?p div B + ?q div B) * (B * B) + m1 * B + ?r mod B"
    unfolding m1_def by (simp only: algebra_simps)
  also have "m1 * B = (m1 div B * B + m1 mod B) * B" by simp
  finally have e: "(ah * B + al) * (bh * B + bl)
      = (?s div B * B + m2) * (B * B) + (m1 mod B * B + ?r mod B)"
    unfolding m2_def by (simp only: algebra_simps)
  have "m1 mod B * B + ?r mod B < B * B"
  proof -
    have "m1 mod B * B + ?r mod B < m1 mod B * B + B" using B by simp
    also have "\<dots> = (m1 mod B + 1) * B" by simp
    also have "\<dots> \<le> B * B" using B by (intro mult_le_mono1) (simp add: Suc_leI)
    finally show ?thesis .
  qed
  then show "(ah * B + al) * (bh * B + bl) div (B * B) = ?s div B * B + m2"
    unfolding e using B by simp
  show "?s div B * B + m2 = (?s div B + m2 div B) * B + m2 mod B"
    by (simp add: algebra_simps)
qed

lemma mulh_portable_arith: "unat (mulh_portable a b) = unat a * unat b div 2 ^ 64"
proof -
  define B :: nat where "B = 2 ^ 32"
  define al ah bl bh where "al = unat a mod B" and "ah = unat a div B"
    and "bl = unat b mod B" and "bh = unat b div B"
  have BB: "B * B = 2 ^ 64" and B0: "0 < B" by (simp_all add: B_def)
  have lohi: "unat (LO x) = unat x mod B" "unat (HI x) = unat x div B" for x
    by (simp_all only: unat_LO unat_HI B_def)
  have dig: "al < B" "bl < B" "ah < B" "bh < B"
    using unat_u64_less [of a] unat_u64_less [of b]
    by (simp_all add: al_def bl_def ah_def bh_def B_def less_mult_imp_div_less)
  have ab: "unat a = ah * B + al" "unat b = bh * B + bl"
    by (simp_all add: al_def ah_def bl_def bh_def)
  have prod: "x * y \<le> (B - 1) * (B - 1)" if "x < B" "y < B" for x y
    using that by (intro mult_le_mono) auto
  have sq: "(B - 1) * (B - 1) < 2 ^ 64" by (simp add: B_def)
  have x: "unat (LO a * LO b) = al * bl" "unat (LO a * HI b) = al * bh"
    "unat (HI a * LO b) = ah * bl" "unat (HI a * HI b) = ah * bh"
    using prod [of al bl] prod [of al bh] prod [of ah bl] prod [of ah bh] dig sq
    by (simp_all add: unat_mult_no_overflow lohi flip: al_def ah_def bl_def bh_def)
  let ?m1 = "LO (HI a * LO b) + LO (LO a * HI b) + HI (LO a * LO b)"
  let ?m2 = "HI (HI a * LO b) + HI (LO a * HI b) + LO (HI a * HI b) + HI ?m1"
  let ?n1 = "(ah * bl) mod B + (al * bh) mod B + (al * bl) div B"
  let ?n2 = "(ah * bl) div B + (al * bh) div B + (ah * bh) mod B + ?n1 div B"
  have d: "z div B < B" if "z < 2 ^ 64" for z
    using that BB B0 by (simp add: less_mult_imp_div_less)
  have small: "x * y div B < B" if "x < B" "y < B" for x y
    using prod [OF that] sq d by (meson le_less_trans)
  have n1: "?n1 < 3 * B"
    using small [of al bl] dig mod_less_divisor [OF B0, of "ah * bl"]
      mod_less_divisor [OF B0, of "al * bh"] by linarith
  have m1: "unat ?m1 = ?n1"
  proof -
    have "?n1 < 2 ^ 64" using n1 by (simp add: B_def)
    then show ?thesis using x by (simp add: unat_add_no_overflow lohi)
  qed
  have n2: "?n2 < 4 * B"
  proof -
    have "?n1 div B < 3" using n1 by (rule less_mult_imp_div_less)
    moreover have "3 \<le> B" by (simp add: B_def)
    ultimately show ?thesis
      using small [of ah bl] small [of al bh] dig mod_less_divisor [OF B0, of "ah * bh"] by linarith
  qed
  have m2: "unat ?m2 = ?n2"
  proof -
    have "?n2 < 2 ^ 64" using n2 by (simp add: B_def)
    then show ?thesis using x m1 by (simp add: unat_add_no_overflow lohi)
  qed
  let ?h = "(ah * bh) div B"
  let ?m3 = "HI (HI a * HI b) + HI ?m2"
  note school = schoolbook_high [OF dig(1) dig(3) dig(2) dig(4) B0]
  have val: "unat a * unat b div 2 ^ 64 = (?h + ?n2 div B) * B + ?n2 mod B"
    unfolding ab using school BB by simp
  have lt: "unat a * unat b div 2 ^ 64 < 2 ^ 64"
    using unat_u64_less [of a] unat_u64_less [of b]
    by (intro less_mult_imp_div_less mult_strict_mono) simp_all
  have m3: "unat ?m3 = ?h + ?n2 div B"
  proof -
    have "?h + ?n2 div B \<le> (?h + ?n2 div B) * B + ?n2 mod B" using B0 by (simp add: trans_le_add1)
    then have "?h + ?n2 div B < 2 ^ 64" using lt val by simp
    then show ?thesis using x m2 by (simp add: unat_add_no_overflow lohi)
  qed
  have p3: "unat (push_bit 32 ?m3) = (?h + ?n2 div B) * B"
  proof -
    have "(?h + ?n2 div B) * B < 2 ^ 64" using lt val by simp
    then show ?thesis
      using unat_push_bit_no_overflow [of ?m3 32] by (simp only: m3 B_def [symmetric])
  qed
  have "unat (push_bit 32 ?m3 + LO ?m2) = (?h + ?n2 div B) * B + ?n2 mod B"
  proof -
    have "unat (LO ?m2) = ?n2 mod B" by (simp only: lohi m2)
    then show ?thesis
      using unat_add_no_overflow [of "push_bit 32 ?m3" "LO ?m2"] lt val p3 by (simp only:)
  qed
  then show ?thesis by (simp only: mulh_portable_def Let_def val)
qed

lemma mulh_portable_int128: "mulh_portable a b = mulh_int128 a b"
  by (rule word_unat_eq_iff [THEN iffD2]) (simp add: mulh_portable_arith mulh_int128_arith)

lemma word_of_int_mulh: "mulh_int128 a b = word_of_int (uint a * uint b div 2 ^ 64)"
proof -
  have "int (unat (mulh_int128 a b)) = uint a * uint b div 2 ^ 64"
    by (simp add: mulh_int128_arith zdiv_int)
  then show ?thesis by (metis uint_nat word_of_int_uint)
qed

lemma ucast_scast_128: "(ucast (w :: 128 word) :: u64) = scast w"
  by (simp add: down_cast_same is_down)

lemma word_of_int_smulh: "smulh_int128 a b = word_of_int (sint a * sint b div 2 ^ 64)"
proof -
  have bnd: "- (2 ^ 63) \<le> sint x \<and> sint x < 2 ^ 63" for x :: u64
    using sint_ge [of x] sint_lt [of x] by simp
  have abs: "\<bar>sint x\<bar> \<le> 2 ^ 63" for x :: u64 using bnd [of x] by (simp add: abs_le_iff)
  have "\<bar>sint a * sint b\<bar> \<le> 2 ^ 63 * 2 ^ 63"
    unfolding abs_mult by (rule mult_mono) (use abs in auto)
  then have rng: "- (2 ^ 127) \<le> sint a * sint b" "sint a * sint b < 2 ^ 127" by auto
  have "sint ((scast a :: 128 word) * scast b) = sint a * sint b"
  proof -
    have "(scast a :: 128 word) * scast b = word_of_int (sint a * sint b)"
      by (simp only: scast_eq of_int_mult)
    moreover have "sint (word_of_int (sint a * sint b) :: 128 word) = signed_take_bit 127 (sint a * sint b)"
      by (simp only: signed_of_int) simp
    moreover have "signed_take_bit 127 (sint a * sint b) = sint a * sint b"
      by (rule signed_take_bit_int_eq_self) (fact rng)+
    ultimately show ?thesis by (simp only:)
  qed
  then have "sint (signed_drop_bit 64 ((scast a :: 128 word) * scast b)) = sint a * sint b div 2 ^ 64"
    by (simp only: sint_signed_drop_bit_eq) (simp add: drop_bit_eq_div)
  then have "ucast (signed_drop_bit 64 ((scast a :: 128 word) * scast b))
      = (word_of_int (sint a * sint b div 2 ^ 64) :: u64)"
    by (metis ucast_scast_128 scast_eq)
  then show ?thesis by (simp add: smulh_int128_def)
qed

lemma uint_sint_neg: "uint (x :: u64) = sint x + (if x <s 0 then 2 ^ 64 else 0)"
proof -
  have "uint x = sint x mod 2 ^ 64"
    using uint_sint [of x] by (simp add: take_bit_eq_mod)
  moreover have "- (2 ^ 63) \<le> sint x" "sint x < 2 ^ 63"
    using sint_ge [of x] sint_lt [of x] by simp_all
  moreover have "x <s 0 \<longleftrightarrow> sint x < 0" by (simp add: word_sless_alt)
  moreover have "sint x mod 2 ^ 64 = (sint x + 2 ^ 64) mod 2 ^ 64"
    by (rule mod_add_self2 [symmetric])
  ultimately show ?thesis
    by (cases "sint x < 0") (simp_all del: mod_add_self2)
qed

lemma smulh_portable_int128: "smulh_portable a b = smulh_int128 a b"
proof -
  define ka kb :: int where "ka = (if a <s 0 then 1 else 0)" and "kb = (if b <s 0 then 1 else 0)"
  have ua: "uint a = sint a + ka * 2 ^ 64" and ub: "uint b = sint b + kb * 2 ^ 64"
    by (simp_all add: uint_sint_neg ka_def kb_def)
  have "uint a * uint b = sint a * sint b + (ka * sint b + kb * sint a + ka * kb * 2 ^ 64) * 2 ^ 64"
    unfolding ua ub by (simp add: algebra_simps)
  then have "uint a * uint b div 2 ^ 64
      = ka * sint b + kb * sint a + ka * kb * 2 ^ 64 + sint a * sint b div 2 ^ 64"
    by simp
  then have "mulh_int128 a b
      = word_of_int ka * b + word_of_int kb * a + word_of_int (ka * kb * 2 ^ 64) + smulh_int128 a b"
    by (simp add: word_of_int_mulh word_of_int_smulh)
  moreover have "(word_of_int (ka * kb * 2 ^ 64) :: u64) = 0"
  proof -
    have "(2 :: u64) ^ 64 = 0" by (simp only: exp_eq_zero_iff) simp
    then show ?thesis by (simp only: of_int_mult of_int_power of_int_numeral mult_zero_right)
  qed
  ultimately show ?thesis
    by (simp add: smulh_portable_def mulh_portable_int128 ka_def kb_def)
qed

text \<open>The interpreter uses the 128-bit versions, the fallbacks are equal to them.\<close>

text \<open>
  The 32-bit fallbacks of the high multiplications compute what the 128-bit versions
  compute, which is the high half of the exact product, unsigned and signed.
\<close>

theorem high_multiplications:
  "mulh_portable a b = mulh_int128 a b \<and> smulh_portable a b = smulh_int128 a b \<and>
   unat (mulh_int128 a b) = unat a * unat b div 2 ^ 64 \<and>
   smulh_int128 a b = word_of_int (sint a * sint b div 2 ^ 64)"
  by (simp only: mulh_portable_int128 smulh_portable_int128 mulh_int128_arith word_of_int_smulh simp_thms)

definition mulh :: "u64 \<Rightarrow> u64 \<Rightarrow> u64" where "mulh = mulh_int128"
definition smulh :: "u64 \<Rightarrow> u64 \<Rightarrow> u64" where "smulh = smulh_int128"

subsection \<open>Reciprocals\<close>

function rcp_bsr :: "u64 \<Rightarrow> nat \<Rightarrow> nat" where
  "rcp_bsr d n = (if d > 0 then rcp_bsr (drop_bit 1 d) (Suc n) else n)"
  by pat_completeness auto
termination
  by (relation "measure (\<lambda>(d, n). unat d)")
    (auto simp: drop_bit_eq_div unat_div_distrib word_greater_zero_iff unat_gt_0 intro!: div_less_dividend)

declare rcp_bsr.simps [simp del]

fun rcp_loop :: "nat \<Rightarrow> u64 \<Rightarrow> u64 \<Rightarrow> u64 \<Rightarrow> u64" where
  "rcp_loop 0 d q r = q"
| "rcp_loop (Suc n) d q r =
     (if d - r \<le> r
      then rcp_loop n d (q * 2 + 1) (r * 2 - d)
      else rcp_loop n d (q * 2) (r * 2))"

definition randomx_reciprocal :: "u64 \<Rightarrow> u64" where
  "randomx_reciprocal divisor =
     (let p2exp63 = push_bit 63 1 :: u64
      in rcp_loop (rcp_bsr divisor 0) divisor (p2exp63 div divisor) (p2exp63 mod divisor))"

text \<open>\<^verbatim>\<open>__builtin_clzll\<close>: the number of leading zero bits, for a non-zero argument.\<close>

definition clzll :: "u64 \<Rightarrow> nat" where
  "clzll x = length (takeWhile (\<lambda>k. \<not> bit x k) (rev [0..<64]))"

definition randomx_reciprocal_fast :: "u64 \<Rightarrow> u64" where
  "randomx_reciprocal_fast divisor =
     (let q = push_bit 63 1 div divisor; r = push_bit 63 1 mod divisor;
          shift = 64 - clzll divisor
      in push_bit shift q + push_bit shift r div divisor)"

lemma rcp_bsr_add: "rcp_bsr x (Suc n) = Suc (rcp_bsr x n)"
  by (induction x n rule: rcp_bsr.induct) (subst (1 2) rcp_bsr.simps, simp)

lemma rcp_bsr_bounds:
  "x \<noteq> 0 \<Longrightarrow> 0 < rcp_bsr x 0 \<and> 2 ^ (rcp_bsr x 0 - 1) \<le> unat x \<and> unat x < 2 ^ rcp_bsr x 0"
proof (induction "unat x" arbitrary: x rule: less_induct)
  case less
  have step: "rcp_bsr x 0 = Suc (rcp_bsr (drop_bit 1 x) 0)"
    using less.prems by (subst rcp_bsr.simps) (simp add: rcp_bsr_add word_greater_zero_iff del: drop_bit_Suc)
  have d: "unat (drop_bit 1 x) = unat x div 2"
    by (simp add: drop_bit_eq_div unat_div_distrib)
  show ?case
  proof (cases "drop_bit 1 x = 0")
    case True
    then have "unat x div 2 = 0" using d by (metis unat_0)
    moreover have "unat x \<noteq> 0" using less.prems by (simp add: unat_0_iff)
    ultimately have "unat x = 1" by linarith
    moreover have "rcp_bsr (drop_bit 1 x) 0 = 0"
      using True by (subst rcp_bsr.simps) simp
    ultimately show ?thesis using step by simp
  next
    case False
    have "unat (drop_bit 1 x) < unat x"
      using d less.prems by (simp add: unat_gt_0)
    from less.hyps [OF this False] d step show ?thesis
      by (cases "rcp_bsr (drop_bit 1 x) 0") (auto simp: field_simps)
  qed
qed

text \<open>
  The shift-subtract loop is a long division: it carries \<open>N = q * d + r\<close> with \<open>r < d\<close> and
  doubles \<open>N\<close> in every round, as long as the quotient stays below \<open>2 ^ 64\<close>.
\<close>

lemma rcp_loop_division:
  "unat r < unat d \<Longrightarrow> unat q * unat d + unat r = N \<Longrightarrow> N * 2 ^ n < 2 ^ 64 * unat d \<Longrightarrow>
   unat (rcp_loop n d q r) = N * 2 ^ n div unat d"
proof (induction n arbitrary: q r N)
  case 0
  then have "N div unat d = unat q"
    by (metis div_mult_self3 div_less add_0_right not_less0)
  then show ?case by simp
next
  case (Suc n)
  have dr: "unat (d - r) = unat d - unat r"
    using Suc.prems(1) by (simp add: unat_sub word_le_nat_alt)
  have N2: "2 * N * 2 ^ n < 2 ^ 64 * unat d"
    using Suc.prems(3) by (simp add: ac_simps)
  have N2': "2 * N < 2 ^ 64 * unat d"
    using N2 by (rule le_less_trans [rotated]) simp
  show ?case
  proof (cases "d - r \<le> r")
    case True
    then have le: "unat d \<le> 2 * unat r" using dr by (simp add: word_le_nat_alt)
    have e: "r * 2 - d = r - (d - r)" by simp
    have r': "unat (r * 2 - d) = 2 * unat r - unat d"
      unfolding e unat_sub [OF True] dr using Suc.prems(1) by arith
    have "(2 * unat q + 1) * unat d \<le> 2 * N"
      using Suc.prems(2) le by (simp add: algebra_simps)
    then have "(2 * unat q + 1) * unat d < 2 ^ 64 * unat d" using N2' by (rule le_less_trans)
    then have qb: "2 * unat q + 1 < 2 ^ 64" by (simp only: mult_less_cancel2)
    have "unat (q * 2) = unat q * 2"
      using unat_mult_no_overflow [of q 2] qb by simp
    then have q': "unat (q * 2 + 1) = 2 * unat q + 1"
      using unat_add_no_overflow [of "q * 2" 1] qb by simp
    have inv: "unat (q * 2 + 1) * unat d + unat (r * 2 - d) = 2 * N"
      using q' r' le Suc.prems(2) by (simp add: algebra_simps)
    have "unat (rcp_loop n d (q * 2 + 1) (r * 2 - d)) = 2 * N * 2 ^ n div unat d"
      by (rule Suc.IH [OF _ inv N2]) (use r' le Suc.prems(1) in simp)
    then show ?thesis using True by (simp add: ac_simps)
  next
    case False
    then have lt: "2 * unat r < unat d" using dr Suc.prems(1) by (simp add: word_le_nat_alt)
    have r': "unat (r * 2) = 2 * unat r"
      using unat_mult_no_overflow [of r 2] lt unat_u64_less [of d] by simp
    have "2 * unat q * unat d \<le> 2 * N" using Suc.prems(2) by simp
    then have "2 * unat q * unat d < 2 ^ 64 * unat d" using N2' by (rule le_less_trans)
    then have qb: "2 * unat q < 2 ^ 64" by (simp only: mult_less_cancel2)
    have q': "unat (q * 2) = 2 * unat q"
      using unat_mult_no_overflow [of q 2] qb by simp
    have inv: "unat (q * 2) * unat d + unat (r * 2) = 2 * N"
      using q' r' Suc.prems(2) by simp
    have "unat (rcp_loop n d (q * 2) (r * 2)) = 2 * N * 2 ^ n div unat d"
      by (rule Suc.IH [OF _ inv N2]) (use r' lt in simp)
    then show ?thesis using False by (simp add: ac_simps)
  qed
qed

lemma not_power2_strict:
  assumes "\<not> isZeroOrPowerOf2 d"
  shows "2 ^ (rcp_bsr d 0 - 1) < unat d"
proof -
  have d0: "d \<noteq> 0" using assms by auto
  note b = rcp_bsr_bounds [OF d0]
  have "unat d \<noteq> 2 ^ (rcp_bsr d 0 - 1)"
  proof
    assume e: "unat d = 2 ^ (rcp_bsr d 0 - 1)"
    then have "(2 :: nat) ^ (rcp_bsr d 0 - 1) < 2 ^ 64" using unat_less_exp [of d] by simp
    then have k: "rcp_bsr d 0 - 1 < 64" by (rule power_less_imp_less_exp [rotated]) simp
    have "d = of_nat (unat d)" by simp
    also have "\<dots> = 2 ^ (rcp_bsr d 0 - 1)" unfolding e by simp
    finally show False using isZeroOrPowerOf2_power [OF k] assms by simp
  qed
  then show ?thesis using b by linarith
qed

lemma reciprocal_fits:
  assumes "\<not> isZeroOrPowerOf2 d"
  shows "2 ^ 63 * 2 ^ rcp_bsr d 0 < (2 :: nat) ^ 64 * unat d"
proof -
  have "d \<noteq> 0" using assms by auto
  then have "(2 :: nat) ^ rcp_bsr d 0 = 2 * 2 ^ (rcp_bsr d 0 - 1)"
    using rcp_bsr_bounds [of d] by (metis power_eq_if less_numeral_extra(3))
  then show ?thesis using not_power2_strict [OF assms] by simp
qed

lemma unat_p2exp63: "unat (push_bit 63 1 :: u64) = 2 ^ 63"
  by simp

lemma reciprocal_division:
  assumes "\<not> isZeroOrPowerOf2 d"
  shows "unat (randomx_reciprocal d) = 2 ^ (63 + rcp_bsr d 0) div unat d"
    and "2 ^ 63 \<le> unat (randomx_reciprocal d)"
proof -
  have d0: "d \<noteq> 0" using assms by auto
  then have pos: "0 < unat d" by (simp add: unat_gt_0)
  have "unat (rcp_loop (rcp_bsr d 0) d (push_bit 63 1 div d) (push_bit 63 1 mod d))
      = 2 ^ 63 * 2 ^ rcp_bsr d 0 div unat d"
  proof (rule rcp_loop_division [OF _ _ reciprocal_fits [OF assms]])
    show "unat (push_bit 63 1 mod d) < unat d"
      using pos by (simp only: unat_mod_distrib mod_less_divisor)
    show "unat (push_bit 63 1 div d) * unat d + unat (push_bit 63 1 mod d) = 2 ^ 63"
      by (simp only: unat_mod_distrib unat_div_distrib div_mult_mod_eq unat_p2exp63)
  qed
  then show *: "unat (randomx_reciprocal d) = 2 ^ (63 + rcp_bsr d 0) div unat d"
    by (simp only: randomx_reciprocal_def Let_def power_add)
  have "2 ^ 63 * unat d \<le> 2 ^ (63 + rcp_bsr d 0)"
    using rcp_bsr_bounds [OF d0] by (simp add: power_add)
  then show "2 ^ 63 \<le> unat (randomx_reciprocal d)"
    unfolding * using pos by (simp add: less_eq_div_iff_mult_less_eq)
qed

text \<open>
  The fast path counts leading zeros instead of looping and divides once more; for the 32-bit
  divisors the callers pass it agrees with the loop.
\<close>

lemma clzll_rcp_bsr:
  assumes "x \<noteq> 0"
  shows "64 - clzll x = rcp_bsr x 0"
proof -
  let ?k = "rcp_bsr x 0"
  note b = rcp_bsr_bounds [OF assms]
  have "(2 :: nat) ^ (?k - 1) < 2 ^ 64" using b unat_less_exp [of x] by simp
  then have "?k - 1 < 64" by (rule power_less_imp_less_exp [rotated]) simp
  then have k: "0 < ?k" "?k \<le> 64" using b by auto
  have top: "bit x (?k - 1)"
  proof -
    have "unat x div 2 ^ (?k - 1) = 1"
    proof -
      have "(2 :: nat) ^ ?k = 2 * 2 ^ (?k - 1)" using k by (cases ?k) auto
      then show ?thesis using b by (intro div_nat_eqI) auto
    qed
    then have "bit (unat x) (?k - 1)" by (simp add: bit_iff_odd)
    then show ?thesis by (simp add: bit_unsigned_iff)
  qed
  have high: "\<not> bit x j" if "?k \<le> j" for j
  proof -
    have "(2 :: nat) ^ ?k \<le> 2 ^ j" using that by simp
    then have "unat x < 2 ^ j" using b by linarith
    then have "\<not> bit (unat x) j" by (simp add: bit_iff_odd)
    then show ?thesis by (auto simp: bit_unsigned_iff dest: bit_imp_le_length)
  qed
  have "[0..<64] = [0..<?k - 1] @ (?k - 1) # [?k..<64]"
    using k upt_add_eq_append [of 0 "?k - 1" "64 - (?k - 1)"] upt_conv_Cons [of "?k - 1" 64] by simp
  then have "rev [0..<64] = rev [?k..<64] @ (?k - 1) # rev [0..<?k - 1]" by simp
  moreover have "takeWhile (\<lambda>k. \<not> bit x k) (rev [?k..<64] @ (?k - 1) # rev [0..<?k - 1])
      = rev [?k..<64]"
    by (subst takeWhile_append2) (use top high in auto)
  ultimately have "takeWhile (\<lambda>k. \<not> bit x k) (rev [0..<64]) = rev [?k..<64]"
    by (simp only:)
  then show ?thesis using k by (simp add: clzll_def)
qed

lemma div_shifted_add:
  "(q * d + r) * m div d = q * m + r * m div (d :: nat)" if "0 < d"
proof -
  have "(q * d + r) * m = r * m + (q * m) * d" by (simp add: algebra_simps)
  then show ?thesis using that by (simp only: div_mult_self1 add.commute)
qed

text \<open>
  The shift-subtract loop of \<open>randomx_reciprocal\<close> computes, for every divisor that is
  neither zero nor a power of two, the rounded down quotient of the largest power of two that
  still fits into 64 bits, and the result uses all 64 bits.
\<close>

theorem randomx_reciprocal_correct:
  assumes "\<not> isZeroOrPowerOf2 d"
  shows "unat (randomx_reciprocal d) = 2 ^ (63 + rcp_bsr d 0) div unat d \<and>
    2 ^ 63 \<le> unat (randomx_reciprocal d)"
  using reciprocal_division [OF assms] by blast

lemma three_no_power: "\<not> isZeroOrPowerOf2 3"
  by (simp add: isZeroOrPowerOf2_def)

theorem randomx_reciprocal_correct_witness:
  "unat (randomx_reciprocal 3) = 2 ^ (63 + rcp_bsr 3 0) div unat (3 :: u64) \<and>
   2 ^ 63 \<le> unat (randomx_reciprocal 3)"
  by (rule randomx_reciprocal_correct [OF three_no_power])

text \<open>
  The branch-free variant that counts leading zeros agrees with the loop on every 32-bit
  divisor that is neither zero nor a power of two.
\<close>

theorem randomx_reciprocal_fast_correct:
  assumes "\<not> isZeroOrPowerOf2 d" and "unat d < 2 ^ 32"
  shows "randomx_reciprocal_fast d = randomx_reciprocal d"
proof -
  let ?k = "rcp_bsr d 0" and ?q = "push_bit 63 1 div d" and ?r = "push_bit 63 1 mod d"
  have d0: "d \<noteq> 0" using assms(1) by auto
  then have pos: "0 < unat d" by (simp add: unat_gt_0)
  note b = rcp_bsr_bounds [OF d0]
  have N: "unat ?q * unat d + unat ?r = 2 ^ 63"
    by (simp only: unat_mod_distrib unat_div_distrib div_mult_mod_eq unat_p2exp63)
  have rl: "unat ?r < unat d" using pos by (simp only: unat_mod_distrib mod_less_divisor)
  have "(2 :: nat) ^ (?k - 1) < 2 ^ 32" using b assms(2) by linarith
  then have "?k - 1 < 32" by (rule power_less_imp_less_exp [rotated]) simp
  then have k: "?k \<le> 32" by simp
  have "unat ?r * 2 ^ ?k < 2 ^ 32 * 2 ^ 32"
  proof (rule mult_less_le_imp_less)
    show "unat ?r < 2 ^ 32" using rl assms(2) by linarith
    show "(2 :: nat) ^ ?k \<le> 2 ^ 32" using k by (simp only: power_increasing one_le_numeral)
  qed auto
  then have rs: "unat (push_bit ?k ?r) = unat ?r * 2 ^ ?k"
    by (simp add: unat_push_bit_no_overflow del: unat_mod_distrib)
  have total: "(unat ?q * unat d + unat ?r) * 2 ^ ?k div unat d
      = unat ?q * 2 ^ ?k + unat ?r * 2 ^ ?k div unat d"
    by (rule div_shifted_add [OF pos])
  have lt: "2 ^ 63 * 2 ^ ?k div unat d < 2 ^ 64"
    using reciprocal_fits [OF assms(1)] pos by (simp only: div_less_iff_less_mult)
  have sum: "unat ?q * 2 ^ ?k + unat ?r * 2 ^ ?k div unat d < 2 ^ 64"
    using total lt unfolding N by linarith
  have qs: "unat (push_bit ?k ?q) = unat ?q * 2 ^ ?k"
    using sum by (intro unat_push_bit_no_overflow) simp
  have "unat (push_bit ?k ?q + push_bit ?k ?r div d)
      = unat ?q * 2 ^ ?k + unat ?r * 2 ^ ?k div unat d"
    using sum unat_add_no_overflow [of "push_bit ?k ?q" "push_bit ?k ?r div d"]
    by (simp only: unat_div_distrib qs rs)
  also have "\<dots> = 2 ^ (63 + ?k) div unat d"
    using total unfolding N by (simp only: power_add)
  finally have "unat (randomx_reciprocal_fast d) = unat (randomx_reciprocal d)"
    unfolding randomx_reciprocal_fast_def Let_def clzll_rcp_bsr [OF d0]
    using reciprocal_division(1) [OF assms(1)] by (simp only:)
  then show ?thesis by (rule word_unat_eq_iff [THEN iffD2])
qed

theorem randomx_reciprocal_fast_correct_witness:
  "randomx_reciprocal_fast 3 = randomx_reciprocal 3"
  by (rule randomx_reciprocal_fast_correct [OF three_no_power]) simp

end
