(* ===== verification/Bytecode.thy ===== *)
theory Bytecode
  imports RxInstr
begin

text \<open>
  The bytecode machine of \<^verbatim>\<open>crypto/randomx/bytecode_machine.cpp\<close> and
  \<^verbatim>\<open>bytecode_machine.hpp\<close>: decoding of an instruction word (\<open>compileInstruction\<close>, one
  \<open>gen_\<close> function per branch of its opcode chain), the interpreter of the decoded bytecode
  (one \<open>exe_\<close> function per instruction) and its loop. Scratchpad and register accesses are
  checked: a result \<open>None\<close> is an access outside an array, a read of the wrong member of a
  union or \<^verbatim>\<open>UNREACHABLE\<close>. Double precision arithmetic is a parameter (\<open>fpu\<close>); moves,
  swaps and bit operations on vectors and the exact conversion from integers are defined.
\<close>

subsection \<open>Registers, decoded instructions and machine states\<close>

text \<open>A vector of two doubles is the pair of their bit patterns, the low one first.\<close>

type_synonym f128 = "u64 \<times> u64"

datatype rounding = RoundToNearest | RoundDown | RoundUp | RoundToZero

text \<open>The double precision operations of the processor, on bit patterns.\<close>

record fpu =
  fp_add :: "rounding \<Rightarrow> u64 \<Rightarrow> u64 \<Rightarrow> u64"
  fp_sub :: "rounding \<Rightarrow> u64 \<Rightarrow> u64 \<Rightarrow> u64"
  fp_mul :: "rounding \<Rightarrow> u64 \<Rightarrow> u64 \<Rightarrow> u64"
  fp_div :: "rounding \<Rightarrow> u64 \<Rightarrow> u64 \<Rightarrow> u64"
  fp_sqrt :: "rounding \<Rightarrow> u64 \<Rightarrow> u64"

text \<open>\<open>DstR k\<close> is a pointer to \<open>nreg->r[k]\<close>, \<open>SrcImm\<close> one to the instruction's own \<open>imm\<close>.\<close>

datatype dst_ptr = DstR nat | DstF nat | DstE nat
datatype src_ptr = SrcR nat | SrcA nat | SrcZero | SrcImm

text \<open>\<open>b_ts\<close> is the union of \<open>int16_t target\<close> and \<open>uint16_t shift\<close>.\<close>

record InstructionByteCode =
  b_dst :: dst_ptr
  b_src :: src_ptr
  b_imm :: u64
  b_type :: instr_type
  b_ts :: u16
  memMask :: u32

record ProgramConfiguration =
  eMask :: "u64 list"
  readReg0 :: u32
  readReg1 :: u32
  readReg2 :: u32
  readReg3 :: u32

record NativeRegisterFile =
  n_r :: "u64 list"
  n_f :: "f128 list"
  n_e :: "f128 list"
  n_a :: "f128 list"

record machine = NativeRegisterFile +
  scratch :: bytes
  rmode :: rounding

subsection \<open>Decoding\<close>

definition reg8 :: "u8 \<Rightarrow> nat" where "reg8 b = unat b mod RegistersCount"
definition reg4 :: "u8 \<Rightarrow> nat" where "reg4 b = unat b mod RegisterCountFlt"

lemma reg8_less [simp]: "reg8 b < 8"
  by (simp add: reg8_def RegistersCount_def)

lemma reg4_less [simp]: "reg4 b < 4"
  by (simp add: reg4_def RegisterCountFlt_def RegistersCount_def)

text \<open>
  What the branches share: the source operand of a register instruction (the immediate when
  source and destination are the same register) and of a memory instruction (the fixed L3
  address in that case). Fields a branch does not assign keep their value.
\<close>

definition gen_reg_src :: "u64 \<Rightarrow> nat \<Rightarrow> nat \<Rightarrow> InstructionByteCode \<Rightarrow> InstructionByteCode" where
  "gen_reg_src im d s ibc =
     (if s \<noteq> d then ibc \<lparr> b_src := SrcR s \<rparr> else ibc \<lparr> b_imm := im, b_src := SrcImm \<rparr>)"

definition gen_mem_src :: "rx_config \<Rightarrow> instruction \<Rightarrow> nat \<Rightarrow> nat \<Rightarrow> InstructionByteCode \<Rightarrow> InstructionByteCode" where
  "gen_mem_src cfg instr d s ibc =
    (let ibc = ibc \<lparr> b_imm := signExtend2sCompl (i_imm32 instr) \<rparr>
     in if s \<noteq> d then ibc \<lparr> b_src := SrcR s, memMask := AddressMask cfg ! getModMem instr \<rparr>
        else ibc \<lparr> b_src := SrcZero, memMask := ScratchpadL3Mask cfg \<rparr>)"

type_synonym gen = "instruction \<Rightarrow> nat \<Rightarrow> InstructionByteCode \<Rightarrow> int list \<Rightarrow> InstructionByteCode \<times> int list"

definition gen_IADD_RS :: gen where
  "gen_IADD_RS instr i ibc usage =
    (let d = reg8 (i_dst instr); s = reg8 (i_src instr);
         ibc = ibc \<lparr> b_type := IADD_RS, b_dst := DstR d, b_src := SrcR s,
                     b_ts := of_nat (getModShift instr) \<rparr>
     in (if d \<noteq> RegisterNeedsDisplacement
         then ibc \<lparr> b_imm := 0 \<rparr> else ibc \<lparr> b_imm := signExtend2sCompl (i_imm32 instr) \<rparr>,
         usage[d := int i]))"

definition gen_IADD_M :: "rx_config \<Rightarrow> gen" where
  "gen_IADD_M cfg instr i ibc usage =
    (let d = reg8 (i_dst instr); s = reg8 (i_src instr)
     in (gen_mem_src cfg instr d s (ibc \<lparr> b_type := IADD_M, b_dst := DstR d \<rparr>), usage[d := int i]))"

definition gen_ISUB_R :: gen where
  "gen_ISUB_R instr i ibc usage =
    (let d = reg8 (i_dst instr); s = reg8 (i_src instr)
     in (gen_reg_src (signExtend2sCompl (i_imm32 instr)) d s (ibc \<lparr> b_type := ISUB_R, b_dst := DstR d \<rparr>),
         usage[d := int i]))"

definition gen_ISUB_M :: "rx_config \<Rightarrow> gen" where
  "gen_ISUB_M cfg instr i ibc usage =
    (let d = reg8 (i_dst instr); s = reg8 (i_src instr)
     in (gen_mem_src cfg instr d s (ibc \<lparr> b_type := ISUB_M, b_dst := DstR d \<rparr>), usage[d := int i]))"

definition gen_IMUL_R :: gen where
  "gen_IMUL_R instr i ibc usage =
    (let d = reg8 (i_dst instr); s = reg8 (i_src instr)
     in (gen_reg_src (signExtend2sCompl (i_imm32 instr)) d s (ibc \<lparr> b_type := IMUL_R, b_dst := DstR d \<rparr>),
         usage[d := int i]))"

definition gen_IMUL_M :: "rx_config \<Rightarrow> gen" where
  "gen_IMUL_M cfg instr i ibc usage =
    (let d = reg8 (i_dst instr); s = reg8 (i_src instr)
     in (gen_mem_src cfg instr d s (ibc \<lparr> b_type := IMUL_M, b_dst := DstR d \<rparr>), usage[d := int i]))"

definition gen_IMULH_R :: gen where
  "gen_IMULH_R instr i ibc usage =
    (let d = reg8 (i_dst instr); s = reg8 (i_src instr)
     in (ibc \<lparr> b_type := IMULH_R, b_dst := DstR d, b_src := SrcR s \<rparr>, usage[d := int i]))"

definition gen_IMULH_M :: "rx_config \<Rightarrow> gen" where
  "gen_IMULH_M cfg instr i ibc usage =
    (let d = reg8 (i_dst instr); s = reg8 (i_src instr)
     in (gen_mem_src cfg instr d s (ibc \<lparr> b_type := IMULH_M, b_dst := DstR d \<rparr>), usage[d := int i]))"

definition gen_ISMULH_R :: gen where
  "gen_ISMULH_R instr i ibc usage =
    (let d = reg8 (i_dst instr); s = reg8 (i_src instr)
     in (ibc \<lparr> b_type := ISMULH_R, b_dst := DstR d, b_src := SrcR s \<rparr>, usage[d := int i]))"

definition gen_ISMULH_M :: "rx_config \<Rightarrow> gen" where
  "gen_ISMULH_M cfg instr i ibc usage =
    (let d = reg8 (i_dst instr); s = reg8 (i_src instr)
     in (gen_mem_src cfg instr d s (ibc \<lparr> b_type := ISMULH_M, b_dst := DstR d \<rparr>), usage[d := int i]))"

definition gen_IMUL_RCP :: gen where
  "gen_IMUL_RCP instr i ibc usage =
    (let divisor = ucast (i_imm32 instr) :: u64
     in if \<not> isZeroOrPowerOf2 divisor
        then (let d = reg8 (i_dst instr)
              in (ibc \<lparr> b_type := IMUL_R, b_dst := DstR d, b_imm := randomx_reciprocal divisor,
                        b_src := SrcImm \<rparr>, usage[d := int i]))
        else (ibc \<lparr> b_type := NOP \<rparr>, usage))"

definition gen_INEG_R :: gen where
  "gen_INEG_R instr i ibc usage =
    (let d = reg8 (i_dst instr)
     in (ibc \<lparr> b_type := INEG_R, b_dst := DstR d \<rparr>, usage[d := int i]))"

definition gen_IXOR_R :: gen where
  "gen_IXOR_R instr i ibc usage =
    (let d = reg8 (i_dst instr); s = reg8 (i_src instr)
     in (gen_reg_src (signExtend2sCompl (i_imm32 instr)) d s (ibc \<lparr> b_type := IXOR_R, b_dst := DstR d \<rparr>),
         usage[d := int i]))"

definition gen_IXOR_M :: "rx_config \<Rightarrow> gen" where
  "gen_IXOR_M cfg instr i ibc usage =
    (let d = reg8 (i_dst instr); s = reg8 (i_src instr)
     in (gen_mem_src cfg instr d s (ibc \<lparr> b_type := IXOR_M, b_dst := DstR d \<rparr>), usage[d := int i]))"

definition gen_IROR_R :: gen where
  "gen_IROR_R instr i ibc usage =
    (let d = reg8 (i_dst instr); s = reg8 (i_src instr)
     in (gen_reg_src (ucast (i_imm32 instr)) d s (ibc \<lparr> b_type := IROR_R, b_dst := DstR d \<rparr>),
         usage[d := int i]))"

definition gen_IROL_R :: gen where
  "gen_IROL_R instr i ibc usage =
    (let d = reg8 (i_dst instr); s = reg8 (i_src instr)
     in (gen_reg_src (ucast (i_imm32 instr)) d s (ibc \<lparr> b_type := IROL_R, b_dst := DstR d \<rparr>),
         usage[d := int i]))"

definition gen_ISWAP_R :: gen where
  "gen_ISWAP_R instr i ibc usage =
    (let d = reg8 (i_dst instr); s = reg8 (i_src instr)
     in if s \<noteq> d
        then (ibc \<lparr> b_dst := DstR d, b_src := SrcR s, b_type := ISWAP_R \<rparr>, usage[d := int i, s := int i])
        else (ibc \<lparr> b_type := NOP \<rparr>, usage))"

definition gen_FSWAP_R :: gen where
  "gen_FSWAP_R instr i ibc usage =
    (let d = reg8 (i_dst instr); ibc = ibc \<lparr> b_type := FSWAP_R \<rparr>
     in (if d < RegisterCountFlt then ibc \<lparr> b_dst := DstF d \<rparr>
         else ibc \<lparr> b_dst := DstE (d - RegisterCountFlt) \<rparr>, usage))"

definition gen_FADD_R :: gen where
  "gen_FADD_R instr i ibc usage =
    (let d = reg4 (i_dst instr); s = reg4 (i_src instr)
     in (ibc \<lparr> b_type := FADD_R, b_dst := DstF d, b_src := SrcA s \<rparr>, usage))"

definition gen_FADD_M :: "rx_config \<Rightarrow> gen" where
  "gen_FADD_M cfg instr i ibc usage =
    (let d = reg4 (i_dst instr); s = reg8 (i_src instr)
     in (ibc \<lparr> b_type := FADD_M, b_dst := DstF d, b_src := SrcR s,
               memMask := AddressMask cfg ! getModMem instr,
               b_imm := signExtend2sCompl (i_imm32 instr) \<rparr>, usage))"

definition gen_FSUB_R :: gen where
  "gen_FSUB_R instr i ibc usage =
    (let d = reg4 (i_dst instr); s = reg4 (i_src instr)
     in (ibc \<lparr> b_type := FSUB_R, b_dst := DstF d, b_src := SrcA s \<rparr>, usage))"

definition gen_FSUB_M :: "rx_config \<Rightarrow> gen" where
  "gen_FSUB_M cfg instr i ibc usage =
    (let d = reg4 (i_dst instr); s = reg8 (i_src instr)
     in (ibc \<lparr> b_type := FSUB_M, b_dst := DstF d, b_src := SrcR s,
               memMask := AddressMask cfg ! getModMem instr,
               b_imm := signExtend2sCompl (i_imm32 instr) \<rparr>, usage))"

definition gen_FSCAL_R :: gen where
  "gen_FSCAL_R instr i ibc usage =
    (let d = reg4 (i_dst instr) in (ibc \<lparr> b_dst := DstF d, b_type := FSCAL_R \<rparr>, usage))"

definition gen_FMUL_R :: gen where
  "gen_FMUL_R instr i ibc usage =
    (let d = reg4 (i_dst instr); s = reg4 (i_src instr)
     in (ibc \<lparr> b_type := FMUL_R, b_dst := DstE d, b_src := SrcA s \<rparr>, usage))"

definition gen_FDIV_M :: "rx_config \<Rightarrow> gen" where
  "gen_FDIV_M cfg instr i ibc usage =
    (let d = reg4 (i_dst instr); s = reg8 (i_src instr)
     in (ibc \<lparr> b_type := FDIV_M, b_dst := DstE d, b_src := SrcR s,
               memMask := AddressMask cfg ! getModMem instr,
               b_imm := signExtend2sCompl (i_imm32 instr) \<rparr>, usage))"

definition gen_FSQRT_R :: gen where
  "gen_FSQRT_R instr i ibc usage =
    (let d = reg4 (i_dst instr) in (ibc \<lparr> b_type := FSQRT_R, b_dst := DstE d \<rparr>, usage))"

definition gen_CBRANCH :: gen where
  "gen_CBRANCH instr i ibc usage =
    (let creg = reg8 (i_dst instr); shift = getModCond instr;
         im = signExtend2sCompl (i_imm32 instr) OR push_bit shift (push_bit JumpOffset 1);
         im = im AND NOT (push_bit shift (push_bit (JumpOffset - 1) 1))
     in (ibc \<lparr> b_type := CBRANCH, b_dst := DstR creg, b_ts := word_of_int (usage ! creg), b_imm := im,
               memMask := push_bit shift ConditionMask \<rparr>,
         replicate RegistersCount (int i)))"

definition gen_CFROUND :: gen where
  "gen_CFROUND instr i ibc usage =
    (let s = reg8 (i_src instr)
     in (ibc \<lparr> b_src := SrcR s, b_type := CFROUND, b_imm := ucast (i_imm32 instr AND 63) \<rparr>, usage))"

definition gen_ISTORE :: "rx_config \<Rightarrow> gen" where
  "gen_ISTORE cfg instr i ibc usage =
    (let d = reg8 (i_dst instr); s = reg8 (i_src instr)
     in (ibc \<lparr> b_type := ISTORE, b_dst := DstR d, b_src := SrcR s,
               b_imm := signExtend2sCompl (i_imm32 instr),
               memMask := if getModCond instr < StoreL3Condition
                          then AddressMask cfg ! getModMem instr else ScratchpadL3Mask cfg \<rparr>, usage))"

definition gen_NOP :: gen where
  "gen_NOP instr i ibc usage = (ibc \<lparr> b_type := NOP \<rparr>, usage)"

text \<open>
  The chain of comparisons: a type is chosen when the remaining opcode is below its
  frequency, otherwise the frequency is subtracted. The end of the chain is
  \<^verbatim>\<open>UNREACHABLE\<close>.
\<close>

fun pick_type :: "(instr_type \<Rightarrow> u32) \<Rightarrow> u32 \<Rightarrow> instr_type list \<Rightarrow> instr_type option" where
  "pick_type freq opcode [] = None"
| "pick_type freq opcode (t # ts) =
     (if opcode < freq t then Some t else pick_type freq (opcode - freq t) ts)"

fun gen_for :: "rx_config \<Rightarrow> instr_type \<Rightarrow> gen" where
  "gen_for cfg IADD_RS = gen_IADD_RS" | "gen_for cfg IADD_M = gen_IADD_M cfg"
| "gen_for cfg ISUB_R = gen_ISUB_R" | "gen_for cfg ISUB_M = gen_ISUB_M cfg"
| "gen_for cfg IMUL_R = gen_IMUL_R" | "gen_for cfg IMUL_M = gen_IMUL_M cfg"
| "gen_for cfg IMULH_R = gen_IMULH_R" | "gen_for cfg IMULH_M = gen_IMULH_M cfg"
| "gen_for cfg ISMULH_R = gen_ISMULH_R" | "gen_for cfg ISMULH_M = gen_ISMULH_M cfg"
| "gen_for cfg IMUL_RCP = gen_IMUL_RCP" | "gen_for cfg INEG_R = gen_INEG_R"
| "gen_for cfg IXOR_R = gen_IXOR_R" | "gen_for cfg IXOR_M = gen_IXOR_M cfg"
| "gen_for cfg IROR_R = gen_IROR_R" | "gen_for cfg IROL_R = gen_IROL_R"
| "gen_for cfg ISWAP_R = gen_ISWAP_R" | "gen_for cfg FSWAP_R = gen_FSWAP_R"
| "gen_for cfg FADD_R = gen_FADD_R" | "gen_for cfg FADD_M = gen_FADD_M cfg"
| "gen_for cfg FSUB_R = gen_FSUB_R" | "gen_for cfg FSUB_M = gen_FSUB_M cfg"
| "gen_for cfg FSCAL_R = gen_FSCAL_R" | "gen_for cfg FMUL_R = gen_FMUL_R"
| "gen_for cfg FDIV_M = gen_FDIV_M cfg" | "gen_for cfg FSQRT_R = gen_FSQRT_R"
| "gen_for cfg CBRANCH = gen_CBRANCH" | "gen_for cfg CFROUND = gen_CFROUND"
| "gen_for cfg ISTORE = gen_ISTORE cfg" | "gen_for cfg NOP = gen_NOP"

definition compileInstruction ::
  "rx_config \<Rightarrow> instruction \<Rightarrow> nat \<Rightarrow> InstructionByteCode \<Rightarrow> int list \<Rightarrow>
   (InstructionByteCode \<times> int list) option" where
  "compileInstruction cfg instr i ibc usage =
     map_option (\<lambda>t. gen_for cfg t instr i ibc usage)
       (pick_type (RANDOMX_FREQ cfg) (ucast (i_opcode instr)) instr_types)"

text \<open>\<open>beginCompilation\<close> and the loop of \<open>compileProgram\<close>, over the previous bytecode.\<close>

definition beginCompilation :: "int list" where
  "beginCompilation = replicate RegistersCount (- 1)"

fun compile_from ::
  "rx_config \<Rightarrow> nat \<Rightarrow> instruction list \<Rightarrow> InstructionByteCode list \<Rightarrow> int list \<Rightarrow>
   (InstructionByteCode list \<times> int list) option" where
  "compile_from cfg i (instr # prog) (ibc # bc) usage =
     do { (ibc', usage') \<leftarrow> compileInstruction cfg instr i ibc usage;
          (bc', usage'') \<leftarrow> compile_from cfg (Suc i) prog bc usage';
          Some (ibc' # bc', usage'') }"
| "compile_from cfg i _ _ usage = Some ([], usage)"

definition compileProgram ::
  "rx_config \<Rightarrow> instruction list \<Rightarrow> InstructionByteCode list \<Rightarrow> InstructionByteCode list option" where
  "compileProgram cfg prog bc =
     map_option fst (compile_from cfg 0 (take (ProgramSize cfg) prog) (take (ProgramSize cfg) bc)
       beginCompilation)"

subsection \<open>Vector operations\<close>

text \<open>
  \<open>rx_cvt_packed_int_vec_f128\<close> converts two packed signed 32-bit integers; every such integer
  is a double, so the conversion does not round.
\<close>

definition i32_to_f64 :: "u32 \<Rightarrow> u64" where
  "i32_to_f64 x =
    (if x = 0 then 0
     else let m = nat \<bar>sint x\<bar>; len = rcp_bsr (of_nat m) 0;
              sign = (if x <s 0 then push_bit 63 1 else 0)
          in sign OR push_bit 52 (of_nat (1022 + len)) OR
             (push_bit (53 - len) (of_nat m) AND mask 52))"

definition rx_cvt_packed_int_vec_f128 :: "bytes \<Rightarrow> f128" where
  "rx_cvt_packed_int_vec_f128 bs = (i32_to_f64 (load32 bs), i32_to_f64 (load32 (drop 4 bs)))"

definition rx_swap_vec_f128 :: "f128 \<Rightarrow> f128" where
  "rx_swap_vec_f128 v = (snd v, fst v)"

definition vec_map2 :: "(u64 \<Rightarrow> u64 \<Rightarrow> u64) \<Rightarrow> f128 \<Rightarrow> f128 \<Rightarrow> f128" where
  "vec_map2 g v w = (g (fst v) (fst w), g (snd v) (snd w))"

definition rx_xor_vec_f128 :: "f128 \<Rightarrow> f128 \<Rightarrow> f128" where
  "rx_xor_vec_f128 = vec_map2 (XOR)"

definition dynamicMantissaMask :: u64 where "dynamicMantissaMask = push_bit 56 1 - 1"

definition maskRegisterExponentMantissa :: "ProgramConfiguration \<Rightarrow> f128 \<Rightarrow> f128" where
  "maskRegisterExponentMantissa pcfg x =
     vec_map2 (OR) (vec_map2 (AND) x (dynamicMantissaMask, dynamicMantissaMask))
       (eMask pcfg ! 0, eMask pcfg ! 1)"

subsection \<open>Operands\<close>

definition get_idst :: "InstructionByteCode \<Rightarrow> machine \<Rightarrow> u64 option" where
  "get_idst ibc st = (case b_dst ibc of DstR k \<Rightarrow> rd (n_r st) k | _ \<Rightarrow> None)"

definition set_idst :: "InstructionByteCode \<Rightarrow> u64 \<Rightarrow> machine \<Rightarrow> machine option" where
  "set_idst ibc v st =
    (case b_dst ibc of
       DstR k \<Rightarrow> map_option (\<lambda>r. st \<lparr> n_r := r \<rparr>) (wr (n_r st) k v)
     | _ \<Rightarrow> None)"

definition get_isrc :: "InstructionByteCode \<Rightarrow> machine \<Rightarrow> u64 option" where
  "get_isrc ibc st =
    (case b_src ibc of
       SrcR k \<Rightarrow> rd (n_r st) k
     | SrcZero \<Rightarrow> Some 0
     | SrcImm \<Rightarrow> Some (b_imm ibc)
     | SrcA k \<Rightarrow> None)"

definition set_isrc :: "InstructionByteCode \<Rightarrow> u64 \<Rightarrow> machine \<Rightarrow> machine option" where
  "set_isrc ibc v st =
    (case b_src ibc of
       SrcR k \<Rightarrow> map_option (\<lambda>r. st \<lparr> n_r := r \<rparr>) (wr (n_r st) k v)
     | _ \<Rightarrow> None)"

definition get_fdst :: "InstructionByteCode \<Rightarrow> machine \<Rightarrow> f128 option" where
  "get_fdst ibc st =
    (case b_dst ibc of DstF k \<Rightarrow> rd (n_f st) k | DstE k \<Rightarrow> rd (n_e st) k | DstR k \<Rightarrow> None)"

definition set_fdst :: "InstructionByteCode \<Rightarrow> f128 \<Rightarrow> machine \<Rightarrow> machine option" where
  "set_fdst ibc v st =
    (case b_dst ibc of
       DstF k \<Rightarrow> map_option (\<lambda>x. st \<lparr> n_f := x \<rparr>) (wr (n_f st) k v)
     | DstE k \<Rightarrow> map_option (\<lambda>x. st \<lparr> n_e := x \<rparr>) (wr (n_e st) k v)
     | DstR k \<Rightarrow> None)"

definition get_fsrc :: "InstructionByteCode \<Rightarrow> machine \<Rightarrow> f128 option" where
  "get_fsrc ibc st = (case b_src ibc of SrcA k \<Rightarrow> rd (n_a st) k | _ \<Rightarrow> None)"

definition getScratchpadAddress :: "InstructionByteCode \<Rightarrow> machine \<Rightarrow> nat option" where
  "getScratchpadAddress ibc st =
     map_option (\<lambda>s. unat (ucast ((s + b_imm ibc) AND ucast (memMask ibc)) :: u32)) (get_isrc ibc st)"

definition load_mem :: "InstructionByteCode \<Rightarrow> machine \<Rightarrow> u64 option" where
  "load_mem ibc st = do { a \<leftarrow> getScratchpadAddress ibc st; load64_at (scratch st) a }"

definition load_fmem :: "InstructionByteCode \<Rightarrow> machine \<Rightarrow> f128 option" where
  "load_fmem ibc st =
     do { a \<leftarrow> getScratchpadAddress ibc st;
          bs \<leftarrow> get_bytes (scratch st) a 8;
          Some (rx_cvt_packed_int_vec_f128 bs) }"

subsection \<open>The instructions\<close>

type_synonym exe = "InstructionByteCode \<Rightarrow> machine \<Rightarrow> machine option"

definition exe_IADD_RS :: exe where
  "exe_IADD_RS ibc st =
     do { d \<leftarrow> get_idst ibc st; s \<leftarrow> get_isrc ibc st;
          set_idst ibc (d + (push_bit (unat (b_ts ibc)) s + b_imm ibc)) st }"

definition exe_IADD_M :: exe where
  "exe_IADD_M ibc st = do { d \<leftarrow> get_idst ibc st; v \<leftarrow> load_mem ibc st; set_idst ibc (d + v) st }"

definition exe_ISUB_R :: exe where
  "exe_ISUB_R ibc st = do { d \<leftarrow> get_idst ibc st; s \<leftarrow> get_isrc ibc st; set_idst ibc (d - s) st }"

definition exe_ISUB_M :: exe where
  "exe_ISUB_M ibc st = do { d \<leftarrow> get_idst ibc st; v \<leftarrow> load_mem ibc st; set_idst ibc (d - v) st }"

definition exe_IMUL_R :: exe where
  "exe_IMUL_R ibc st = do { d \<leftarrow> get_idst ibc st; s \<leftarrow> get_isrc ibc st; set_idst ibc (d * s) st }"

definition exe_IMUL_M :: exe where
  "exe_IMUL_M ibc st = do { d \<leftarrow> get_idst ibc st; v \<leftarrow> load_mem ibc st; set_idst ibc (d * v) st }"

definition exe_IMULH_R :: exe where
  "exe_IMULH_R ibc st =
     do { d \<leftarrow> get_idst ibc st; s \<leftarrow> get_isrc ibc st; set_idst ibc (mulh d s) st }"

definition exe_IMULH_M :: exe where
  "exe_IMULH_M ibc st =
     do { d \<leftarrow> get_idst ibc st; v \<leftarrow> load_mem ibc st; set_idst ibc (mulh d v) st }"

definition exe_ISMULH_R :: exe where
  "exe_ISMULH_R ibc st =
     do { d \<leftarrow> get_idst ibc st; s \<leftarrow> get_isrc ibc st; set_idst ibc (smulh d s) st }"

definition exe_ISMULH_M :: exe where
  "exe_ISMULH_M ibc st =
     do { d \<leftarrow> get_idst ibc st; v \<leftarrow> load_mem ibc st; set_idst ibc (smulh d v) st }"

definition exe_INEG_R :: exe where
  "exe_INEG_R ibc st = do { d \<leftarrow> get_idst ibc st; set_idst ibc (NOT d + 1) st }"

definition exe_IXOR_R :: exe where
  "exe_IXOR_R ibc st = do { d \<leftarrow> get_idst ibc st; s \<leftarrow> get_isrc ibc st; set_idst ibc (d XOR s) st }"

definition exe_IXOR_M :: exe where
  "exe_IXOR_M ibc st = do { d \<leftarrow> get_idst ibc st; v \<leftarrow> load_mem ibc st; set_idst ibc (d XOR v) st }"

definition exe_IROR_R :: exe where
  "exe_IROR_R ibc st =
     do { d \<leftarrow> get_idst ibc st; s \<leftarrow> get_isrc ibc st; set_idst ibc (rotr64 d (ucast (s AND 63))) st }"

definition exe_IROL_R :: exe where
  "exe_IROL_R ibc st =
     do { d \<leftarrow> get_idst ibc st; s \<leftarrow> get_isrc ibc st; set_idst ibc (rotl64 d (ucast (s AND 63))) st }"

definition exe_ISWAP_R :: exe where
  "exe_ISWAP_R ibc st =
     do { temp \<leftarrow> get_isrc ibc st; d \<leftarrow> get_idst ibc st;
          st \<leftarrow> set_isrc ibc d st; set_idst ibc temp st }"

definition exe_FSWAP_R :: exe where
  "exe_FSWAP_R ibc st = do { d \<leftarrow> get_fdst ibc st; set_fdst ibc (rx_swap_vec_f128 d) st }"

definition exe_FADD_R :: "fpu \<Rightarrow> exe" where
  "exe_FADD_R fp ibc st =
     do { d \<leftarrow> get_fdst ibc st; s \<leftarrow> get_fsrc ibc st;
          set_fdst ibc (vec_map2 (fp_add fp (rmode st)) d s) st }"

definition exe_FADD_M :: "fpu \<Rightarrow> exe" where
  "exe_FADD_M fp ibc st =
     do { s \<leftarrow> load_fmem ibc st; d \<leftarrow> get_fdst ibc st;
          set_fdst ibc (vec_map2 (fp_add fp (rmode st)) d s) st }"

definition exe_FSUB_R :: "fpu \<Rightarrow> exe" where
  "exe_FSUB_R fp ibc st =
     do { d \<leftarrow> get_fdst ibc st; s \<leftarrow> get_fsrc ibc st;
          set_fdst ibc (vec_map2 (fp_sub fp (rmode st)) d s) st }"

definition exe_FSUB_M :: "fpu \<Rightarrow> exe" where
  "exe_FSUB_M fp ibc st =
     do { s \<leftarrow> load_fmem ibc st; d \<leftarrow> get_fdst ibc st;
          set_fdst ibc (vec_map2 (fp_sub fp (rmode st)) d s) st }"

definition exe_FSCAL_R :: exe where
  "exe_FSCAL_R ibc st =
     do { d \<leftarrow> get_fdst ibc st;
          set_fdst ibc (rx_xor_vec_f128 d (0x80F0000000000000, 0x80F0000000000000)) st }"

definition exe_FMUL_R :: "fpu \<Rightarrow> exe" where
  "exe_FMUL_R fp ibc st =
     do { d \<leftarrow> get_fdst ibc st; s \<leftarrow> get_fsrc ibc st;
          set_fdst ibc (vec_map2 (fp_mul fp (rmode st)) d s) st }"

definition exe_FDIV_M :: "fpu \<Rightarrow> ProgramConfiguration \<Rightarrow> exe" where
  "exe_FDIV_M fp pcfg ibc st =
     do { x \<leftarrow> load_fmem ibc st; d \<leftarrow> get_fdst ibc st;
          set_fdst ibc (vec_map2 (fp_div fp (rmode st)) d (maskRegisterExponentMantissa pcfg x)) st }"

definition exe_FSQRT_R :: "fpu \<Rightarrow> exe" where
  "exe_FSQRT_R fp ibc st =
     do { d \<leftarrow> get_fdst ibc st;
          set_fdst ibc (fp_sqrt fp (rmode st) (fst d), fp_sqrt fp (rmode st) (snd d)) st }"

text \<open>The branch also returns the new program counter.\<close>

definition exe_CBRANCH :: "InstructionByteCode \<Rightarrow> int \<Rightarrow> machine \<Rightarrow> (int \<times> machine) option" where
  "exe_CBRANCH ibc pc st =
     do { d \<leftarrow> get_idst ibc st;
          st \<leftarrow> set_idst ibc (d + b_imm ibc) st;
          d' \<leftarrow> get_idst ibc st;
          Some (if d' AND ucast (memMask ibc) = 0 then sint (b_ts ibc) else pc, st) }"

text \<open>\<open>rx_set_rounding_mode\<close> of \<^verbatim>\<open>instructions_portable.cpp\<close>.\<close>

definition rx_set_rounding_mode :: "u64 \<Rightarrow> rounding" where
  "rx_set_rounding_mode mode =
    (let m = mode AND 3
     in if m = 1 then RoundDown else if m = 2 then RoundUp else if m = 3 then RoundToZero
        else RoundToNearest)"

definition exe_CFROUND :: "rx_config \<Rightarrow> exe" where
  "exe_CFROUND cfg ibc st =
     do { s \<leftarrow> get_isrc ibc st;
          let isrc = rotr64 s (ucast (b_imm ibc));
          Some (if \<not> Tweak_V2_CFROUND cfg \<or> isrc AND 60 = 0
                then st \<lparr> rmode := rx_set_rounding_mode (isrc mod 4) \<rparr> else st) }"

definition exe_ISTORE :: exe where
  "exe_ISTORE ibc st =
     do { d \<leftarrow> get_idst ibc st; s \<leftarrow> get_isrc ibc st;
          m \<leftarrow> store64_at (scratch st) (unat ((d + b_imm ibc) AND ucast (memMask ibc))) s;
          Some (st \<lparr> scratch := m \<rparr>) }"

definition executeInstruction ::
  "rx_config \<Rightarrow> fpu \<Rightarrow> ProgramConfiguration \<Rightarrow> InstructionByteCode \<Rightarrow> int \<Rightarrow> machine \<Rightarrow>
   (int \<times> machine) option" where
  "executeInstruction cfg fp pcfg ibc pc st =
    (let next = map_option (Pair pc)
     in case b_type ibc of
       IADD_RS \<Rightarrow> next (exe_IADD_RS ibc st) | IADD_M \<Rightarrow> next (exe_IADD_M ibc st)
     | ISUB_R \<Rightarrow> next (exe_ISUB_R ibc st) | ISUB_M \<Rightarrow> next (exe_ISUB_M ibc st)
     | IMUL_R \<Rightarrow> next (exe_IMUL_R ibc st) | IMUL_M \<Rightarrow> next (exe_IMUL_M ibc st)
     | IMULH_R \<Rightarrow> next (exe_IMULH_R ibc st) | IMULH_M \<Rightarrow> next (exe_IMULH_M ibc st)
     | ISMULH_R \<Rightarrow> next (exe_ISMULH_R ibc st) | ISMULH_M \<Rightarrow> next (exe_ISMULH_M ibc st)
     | INEG_R \<Rightarrow> next (exe_INEG_R ibc st)
     | IXOR_R \<Rightarrow> next (exe_IXOR_R ibc st) | IXOR_M \<Rightarrow> next (exe_IXOR_M ibc st)
     | IROR_R \<Rightarrow> next (exe_IROR_R ibc st) | IROL_R \<Rightarrow> next (exe_IROL_R ibc st)
     | ISWAP_R \<Rightarrow> next (exe_ISWAP_R ibc st) | FSWAP_R \<Rightarrow> next (exe_FSWAP_R ibc st)
     | FADD_R \<Rightarrow> next (exe_FADD_R fp ibc st) | FADD_M \<Rightarrow> next (exe_FADD_M fp ibc st)
     | FSUB_R \<Rightarrow> next (exe_FSUB_R fp ibc st) | FSUB_M \<Rightarrow> next (exe_FSUB_M fp ibc st)
     | FSCAL_R \<Rightarrow> next (exe_FSCAL_R ibc st) | FMUL_R \<Rightarrow> next (exe_FMUL_R fp ibc st)
     | FDIV_M \<Rightarrow> next (exe_FDIV_M fp pcfg ibc st) | FSQRT_R \<Rightarrow> next (exe_FSQRT_R fp ibc st)
     | CBRANCH \<Rightarrow> exe_CBRANCH ibc pc st
     | CFROUND \<Rightarrow> next (exe_CFROUND cfg ibc st) | ISTORE \<Rightarrow> next (exe_ISTORE ibc st)
     | NOP \<Rightarrow> Some (pc, st)
     | IMUL_RCP \<Rightarrow> None)"

subsection \<open>The interpreter loop\<close>

text \<open>
  \<open>executeBytecode\<close> runs until the program counter leaves the program. A jump may go
  backwards, so the model takes fuel, one unit per executed instruction.
\<close>

datatype 'a outcome = Timeout | Fault | Done 'a

fun exec_from ::
  "rx_config \<Rightarrow> fpu \<Rightarrow> ProgramConfiguration \<Rightarrow> InstructionByteCode list \<Rightarrow> nat \<Rightarrow> int \<Rightarrow>
   machine \<Rightarrow> machine outcome" where
  "exec_from cfg fp pcfg bc fuel pc st =
    (if pc \<ge> int (ProgramSize cfg) then Done st
     else case fuel of
       0 \<Rightarrow> Timeout
     | Suc fuel' \<Rightarrow>
         (if 0 \<le> pc \<and> nat pc < length bc
          then case executeInstruction cfg fp pcfg (bc ! nat pc) pc st of
                 None \<Rightarrow> Fault
               | Some (pc', st') \<Rightarrow> exec_from cfg fp pcfg bc fuel' (pc' + 1) st'
          else Fault))"

declare exec_from.simps [simp del]

definition executeBytecode ::
  "rx_config \<Rightarrow> fpu \<Rightarrow> ProgramConfiguration \<Rightarrow> InstructionByteCode list \<Rightarrow> nat \<Rightarrow> machine \<Rightarrow>
   machine outcome" where
  "executeBytecode cfg fp pcfg bc fuel st = exec_from cfg fp pcfg bc fuel 0 st"

end
