(* ===== verification/BytecodeTermination.thy ===== *)
theory BytecodeTermination
  imports BytecodeSafety
begin

text \<open>
  Termination of the interpreter. A branch adds a constant to its register and jumps back when
  eight bits of it are zero. The compiler sets the lowest of those bits of the constant and
  clears the bit below, which bounds the number of consecutive jumps by two; the branch
  targets never reach over an earlier branch, so the loops do not nest.
\<close>

subsection \<open>At most two consecutive jumps\<close>

lemma and_push_mask_zero:
  assumes "b < 24"
  shows "(x :: u64) AND ucast (push_bit b (255 :: u32)) = 0 \<longleftrightarrow> unat x mod 2 ^ (b + 8) < 2 ^ b"
proof -
  have 255: "(255 :: u32) = mask 8" by (simp add: mask_eq_exp_minus_1)
  have m: "(ucast (push_bit b (255 :: u32)) :: u64) = push_bit b (mask 8)"
    unfolding 255
    by (rule bit_word_eqI) (use assms in \<open>simp add: bit_unsigned_iff bit_push_bit_iff bit_mask_iff, linarith\<close>)
  have "x AND push_bit b (mask 8) = push_bit b (take_bit 8 (drop_bit b x))"
    by (rule bit_word_eqI) (auto simp: bit_and_iff bit_push_bit_iff bit_mask_iff bit_take_bit_iff bit_drop_bit_eq)
  moreover have "push_bit b (take_bit 8 (drop_bit b x)) = 0 \<longleftrightarrow> take_bit 8 (drop_bit b x) = 0"
  proof
    assume "push_bit b (take_bit 8 (drop_bit b x)) = 0"
    then have "drop_bit b (push_bit b (take_bit 8 (drop_bit b x))) = 0" by simp
    moreover have "drop_bit b (push_bit b (take_bit 8 (drop_bit b x))) = take_bit 8 (drop_bit b x)"
      by (rule bit_word_eqI)
        (use assms in \<open>auto simp: bit_push_bit_iff bit_take_bit_iff bit_drop_bit_eq\<close>)
    ultimately show "take_bit 8 (drop_bit b x) = 0" by simp
  qed simp
  moreover have "take_bit 8 (drop_bit b x) = 0 \<longleftrightarrow> unat x div 2 ^ b mod 256 = 0"
  proof -
    have "take_bit 8 (drop_bit b x) = 0 \<longleftrightarrow> unat (take_bit 8 (drop_bit b x)) = 0"
      by (simp only: unat_0_iff)
    also have "unat (take_bit 8 (drop_bit b x)) = unat x div 2 ^ b mod 256"
      unfolding unat_take_bit unat_drop_bit_eq by (simp add: drop_bit_eq_div)
    finally show ?thesis .
  qed
  moreover have "unat x div 2 ^ b mod 256 = unat x mod 2 ^ (b + 8) div 2 ^ b"
    using div_exp_mod_exp_eq [of "unat x" b 8] by (simp add: add.commute)
  ultimately show ?thesis
    unfolding m by (simp add: div_eq_0_iff)
qed

lemma third_jump_impossible:
  fixes L a x1 x2 x3 :: nat
  assumes "0 < L" "a = q * L + al" "1 \<le> q" "q < 256" "2 * al < L"
    and "x2 = (x1 + a) mod (256 * L)" "x3 = (x2 + a) mod (256 * L)"
    and "x1 < L" "x2 < L"
  shows "\<not> x3 < L"
proof -
  have qL: "L \<le> q * L" using assms(3) by simp
  have aM: "a < 256 * L"
  proof -
    have "q * L \<le> 255 * L" using assms(4) by (intro mult_le_mono1) simp
    then show ?thesis using assms(1,2,5) by linarith
  qed
  have "256 * L \<le> x1 + a"
  proof (rule ccontr)
    assume "\<not> 256 * L \<le> x1 + a"
    then have "x2 = x1 + a" using assms(6) by simp
    then show False using assms(2,9) qL by linarith
  qed
  then have x2: "x2 = x1 + a - 256 * L"
    using assms(6,8) aM by (simp add: le_mod_geq)
  have "q = 255"
  proof (rule ccontr)
    assume "q \<noteq> 255"
    then have "q * L \<le> 254 * L" using assms(4) by (intro mult_le_mono1) simp
    then show False using \<open>256 * L \<le> x1 + a\<close> assms(2,5,8) by linarith
  qed
  then have "a = 255 * L + al" using assms(2) by simp
  then have "x2 + a < 256 * L" "L \<le> x2 + a" using x2 assms(1,5,8) by linarith+
  then show ?thesis using assms(7) by simp
qed

lemma no_third_jump:
  assumes ok: "branch_imm_ok im m"
    and j1: "(x :: u64) AND ucast m = 0" and j2: "(x + im) AND ucast m = 0"
  shows "(x + im + im) AND ucast m \<noteq> 0"
proof -
  obtain b where b: "8 \<le> b" "b < 24" and m: "m = push_bit b 255"
    and bit: "bit im b" "\<not> bit im (b - 1)"
    using ok by (auto simp: branch_imm_ok_def)
  let ?L = "2 ^ b :: nat" and ?M = "2 ^ (b + 8) :: nat"
  have M256: "?M = 256 * ?L" by (simp add: power_add)
  have bn: "bit (unat im) k = bit im k" for k
    by (auto simp: bit_unsigned_iff dest: bit_imp_le_length)
  have oddq: "odd (unat im div ?L)" using bit(1) bn [of b] by (simp add: bit_iff_odd)
  have "unat im mod ?M div ?L = unat im div ?L mod 256"
    using div_exp_mod_exp_eq [of "unat im" b 8] by (simp add: add.commute)
  moreover have "odd (unat im div ?L mod 256)" using oddq by (simp add: odd_iff_mod_2_eq_one mod_mod_cancel)
  ultimately have q1: "1 \<le> unat im mod ?M div ?L" "unat im mod ?M div ?L < 256"
    by (auto simp: odd_pos Suc_leI)
  have "unat im mod ?L < 2 ^ (b - 1)"
  proof -
    have "?L = 2 ^ (b - 1) * 2" using b by (cases b) auto
    then have "unat im mod ?L = unat im mod 2 ^ (b - 1) + 2 ^ (b - 1) * (unat im div 2 ^ (b - 1) mod 2)"
      by (simp add: mod_mult2_eq)
    moreover have "unat im div 2 ^ (b - 1) mod 2 = 0"
      using bit(2) bn [of "b - 1"] by (simp add: bit_iff_odd even_iff_mod_2_eq_zero)
    ultimately show ?thesis by simp
  qed
  moreover have "unat im mod ?M mod ?L = unat im mod ?L"
    by (rule mod_mod_cancel) (simp add: le_imp_power_dvd)
  moreover have "?L = 2 * 2 ^ (b - 1)" using b by (cases b) auto
  ultimately have al: "2 * (unat im mod ?M mod ?L) < ?L" by linarith
  have step: "unat (y + im) mod ?M = (unat y mod ?M + unat im mod ?M) mod (256 * ?L)" for y
    using unat_add_mod_pow2 [of "b + 8" y im] b M256 by (simp add: mod_simps)
  show ?thesis
  proof
    assume "(x + im + im) AND ucast m = 0"
    then have "unat (x + im + im) mod ?M < ?L"
      using and_push_mask_zero [OF b(2)] by (simp add: m)
    moreover have "\<not> unat (x + im + im) mod ?M < ?L"
    proof (rule third_jump_impossible [OF _ _ q1 al step step])
      show "unat im mod ?M = unat im mod ?M div ?L * ?L + unat im mod ?M mod ?L"
        by (rule div_mult_mod_eq [symmetric])
      show "unat x mod ?M < ?L" "unat (x + im) mod ?M < ?L"
        using j1 j2 and_push_mask_zero [OF b(2)] by (simp_all add: m)
    qed simp
    ultimately show False by blast
  qed
qed

subsection \<open>Running from one branch to the next\<close>

text \<open>
  \<open>reaches c p st q st'\<close>: executing \<open>c\<close> instructions leads from \<open>st\<close> at \<open>p\<close> to \<open>st'\<close> at
  \<open>q\<close>, whatever fuel remains.
\<close>

definition reaches ::
  "rx_config \<Rightarrow> fpu \<Rightarrow> ProgramConfiguration \<Rightarrow> InstructionByteCode list \<Rightarrow> nat \<Rightarrow> nat \<Rightarrow> machine \<Rightarrow>
   nat \<Rightarrow> machine \<Rightarrow> bool" where
  "reaches cfg fp pcfg bc c p st q st' \<longleftrightarrow>
     (\<forall>fuel. exec_from cfg fp pcfg bc (fuel + c) (int p) st = exec_from cfg fp pcfg bc fuel (int q) st')"

lemma reaches_refl: "reaches cfg fp pcfg bc 0 p st p st"
  by (simp add: reaches_def)

lemma reaches_trans:
  "reaches cfg fp pcfg bc c p st q st' \<Longrightarrow> reaches cfg fp pcfg bc d q st' r st'' \<Longrightarrow>
   reaches cfg fp pcfg bc (c + d) p st r st''"
  unfolding reaches_def by (metis add.commute add.left_commute)

lemma reaches_step:
  assumes "p < ProgramSize cfg" "ProgramSize cfg = length bc"
    and "executeInstruction cfg fp pcfg (bc ! p) (int p) st = Some (pc', st')" "pc' + 1 = int q"
  shows "reaches cfg fp pcfg bc 1 p st q st'"
  using assms by (simp add: reaches_def exec_from.simps [of _ _ _ _ "Suc _" "int p"])

lemma reaches_straight:
  assumes wf: "bc_wf cfg bc" and n: "ProgramSize cfg = length bc"
  shows "p + d \<le> length bc \<Longrightarrow> (\<forall>j. p \<le> j \<and> j < p + d \<longrightarrow> b_type (bc ! j) \<noteq> CBRANCH) \<Longrightarrow> st_ok cfg st \<Longrightarrow>
    \<exists>st'. reaches cfg fp pcfg bc d p st (p + d) st' \<and>
      frame cfg (\<lambda>k. \<exists>j. p \<le> j \<and> j < p + d \<and> writes_reg (bc ! j) k) st st'"
proof (induction d arbitrary: p st)
  case 0
  then show ?case using reaches_refl frame_refl by fastforce
next
  case (Suc d)
  have "ibc_ok cfg (bc ! p)" "b_type (bc ! p) \<noteq> CBRANCH"
    using wf Suc.prems by (auto simp: bc_wf_def)
  from executeInstruction_ok [OF this(1) Suc.prems(3) this(2), of fp pcfg "int p"]
  obtain st1 where e: "executeInstruction cfg fp pcfg (bc ! p) (int p) st = Some (int p, st1)"
    and f1: "frame cfg (writes_reg (bc ! p)) st st1"
    by (auto elim!: succeedsE)
  have r1: "reaches cfg fp pcfg bc 1 p st (Suc p) st1"
    by (rule reaches_step [OF _ n e]) (use Suc.prems n in auto)
  from f1 have "st_ok cfg st1" by (simp add: frame_def)
  with Suc.IH [of "Suc p" st1] Suc.prems
  obtain st' where r2: "reaches cfg fp pcfg bc d (Suc p) st1 (Suc p + d) st'"
    and f2: "frame cfg (\<lambda>k. \<exists>j. Suc p \<le> j \<and> j < Suc p + d \<and> writes_reg (bc ! j) k) st1 st'"
    by auto
  have "frame cfg (\<lambda>k. \<exists>j. p \<le> j \<and> j < p + Suc d \<and> writes_reg (bc ! j) k) st st'"
    using f1 f2 unfolding frame_def by (metis Suc_leD add_Suc add_Suc_right le_refl less_add_Suc1)
  moreover have "reaches cfg fp pcfg bc (Suc d) p st (p + Suc d) st'"
    using reaches_trans [OF r1 r2] by simp
  ultimately show ?case by blast
qed

lemma reaches_branch:
  assumes wf: "bc_wf cfg bc" and n: "ProgramSize cfg = length bc" and i: "i < length bc"
    and br: "b_type (bc ! i) = CBRANCH" "b_dst (bc ! i) = DstR k" and st: "st_ok cfg st"
  obtains st' where "st_ok cfg st'" "n_r st' ! k = n_r st ! k + b_imm (bc ! i)"
    "reaches cfg fp pcfg bc 1 i st
       (if n_r st' ! k AND ucast (memMask (bc ! i)) = 0 then nat (sint (b_ts (bc ! i)) + 1) else Suc i) st'"
proof -
  have "ibc_ok cfg (bc ! i)" "branch_ok bc i" using wf i by (auto simp: bc_wf_def)
  then have k: "k < 8" and t: "- 1 \<le> sint (b_ts (bc ! i))"
    using br by (auto simp: ibc_ok_def branch_ok_def)
  let ?st = "st \<lparr> n_r := (n_r st) [k := n_r st ! k + b_imm (bc ! i)] \<rparr>"
  have len: "length (n_r st) = 8" using st by (simp add: st_ok_def)
  have e: "executeInstruction cfg fp pcfg (bc ! i) (int i) st = Some
      (if n_r ?st ! k AND ucast (memMask (bc ! i)) = 0 then sint (b_ts (bc ! i)) else int i, ?st)"
    using br k len by (simp add: executeInstruction_def exe_CBRANCH_def get_idst_def set_idst_def mem_simps)
  show ?thesis
  proof (rule that [of ?st])
    show "st_ok cfg ?st" using st by (simp add: st_ok_def)
    show "n_r ?st ! k = n_r st ! k + b_imm (bc ! i)" using k len by simp
    show "reaches cfg fp pcfg bc 1 i st (if n_r ?st ! k AND ucast (memMask (bc ! i)) = 0
        then nat (sint (b_ts (bc ! i)) + 1) else Suc i) ?st"
      by (rule reaches_step [OF _ n e]) (use i n t in auto)
  qed
qed

text \<open>Where a branch sends control: the first instruction of its loop.\<close>

definition loop_head :: "InstructionByteCode \<Rightarrow> nat" where
  "loop_head ibc = nat (sint (b_ts ibc) + 1)"

lemma loop_body:
  assumes wf: "bc_wf cfg bc" and i: "i < length bc"
    and br: "b_type (bc ! i) = CBRANCH" "b_dst (bc ! i) = DstR k"
  shows "k < 8" "loop_head (bc ! i) \<le> i" "branch_imm_ok (b_imm (bc ! i)) (memMask (bc ! i))"
    "loop_head (bc ! i) \<le> j \<Longrightarrow> j < i \<Longrightarrow> \<not> writes_reg (bc ! j) k \<and> b_type (bc ! j) \<noteq> CBRANCH"
proof -
  have ok: "ibc_ok cfg (bc ! i)" "branch_ok bc i" using wf i by (auto simp: bc_wf_def)
  from ok(1) br show "branch_imm_ok (b_imm (bc ! i)) (memMask (bc ! i))" by (simp add: ibc_ok_def)
  show "k < 8" "loop_head (bc ! i) \<le> i" using ok(2) br by (auto simp: branch_ok_def loop_head_def)
  show "\<not> writes_reg (bc ! j) k \<and> b_type (bc ! j) \<noteq> CBRANCH"
    if "loop_head (bc ! i) \<le> j" "j < i"
    using ok(2) br that by (auto simp: branch_ok_def loop_head_def nat_le_iff)
qed

text \<open>One turn of a loop: its body and its branch. Only the branch changes the register.\<close>

lemma reaches_turn:
  assumes wf: "bc_wf cfg bc" and n: "ProgramSize cfg = length bc" and i: "i < length bc"
    and br: "b_type (bc ! i) = CBRANCH" "b_dst (bc ! i) = DstR k" and st: "st_ok cfg st"
  obtains st' where "st_ok cfg st'" "n_r st' ! k = n_r st ! k + b_imm (bc ! i)"
    "reaches cfg fp pcfg bc (i - loop_head (bc ! i) + 1) (loop_head (bc ! i)) st
       (if n_r st' ! k AND ucast (memMask (bc ! i)) = 0 then loop_head (bc ! i) else Suc i) st'"
proof -
  note lb = loop_body [OF wf i br]
  have "\<forall>j. loop_head (bc ! i) \<le> j \<and> j < loop_head (bc ! i) + (i - loop_head (bc ! i)) \<longrightarrow>
      b_type (bc ! j) \<noteq> CBRANCH" using lb(2,4) by auto
  from reaches_straight [OF wf n _ this st, of fp pcfg] lb(2) i
  obtain st1 where r1: "reaches cfg fp pcfg bc (i - loop_head (bc ! i)) (loop_head (bc ! i)) st i st1"
    and f: "frame cfg (\<lambda>k. \<exists>j. loop_head (bc ! i) \<le> j \<and> j < i \<and> writes_reg (bc ! j) k) st st1"
    by auto
  from f have st1: "st_ok cfg st1" by (simp add: frame_def)
  have "\<not> (\<exists>j. loop_head (bc ! i) \<le> j \<and> j < i \<and> writes_reg (bc ! j) k)" using lb(4) by blast
  with f lb(1) have reg: "n_r st1 ! k = n_r st ! k" unfolding frame_def by blast
  obtain st' where st': "st_ok cfg st'"
    "n_r st' ! k = n_r st1 ! k + b_imm (bc ! i)"
    "reaches cfg fp pcfg bc 1 i st1
       (if n_r st' ! k AND ucast (memMask (bc ! i)) = 0 then loop_head (bc ! i) else Suc i) st'"
    using reaches_branch [OF wf n i br st1, of fp pcfg] unfolding loop_head_def by blast
  show ?thesis
    by (rule that [OF st'(1) _ reaches_trans [OF r1 st'(3)]]) (simp add: st'(2) reg)
qed

lemma reaches_exit:
  assumes wf: "bc_wf cfg bc" and n: "ProgramSize cfg = length bc" and i: "i < length bc"
    and br: "b_type (bc ! i) = CBRANCH" "b_dst (bc ! i) = DstR k" and st: "st_ok cfg st"
  shows "\<exists>c st'. c \<le> 1 + 2 * (i - loop_head (bc ! i) + 1) \<and> st_ok cfg st' \<and>
    reaches cfg fp pcfg bc c i st (Suc i) st'"
proof -
  let ?w = "i - loop_head (bc ! i) + 1" and ?m = "ucast (memMask (bc ! i)) :: u64"
  obtain st1 where s1: "st_ok cfg st1" "n_r st1 ! k = n_r st ! k + b_imm (bc ! i)"
    "reaches cfg fp pcfg bc 1 i st (if n_r st1 ! k AND ?m = 0 then loop_head (bc ! i) else Suc i) st1"
    using reaches_branch [OF wf n i br st, of fp pcfg] unfolding loop_head_def by blast
  obtain st2 where s2: "st_ok cfg st2" "n_r st2 ! k = n_r st1 ! k + b_imm (bc ! i)"
    "reaches cfg fp pcfg bc ?w (loop_head (bc ! i)) st1
       (if n_r st2 ! k AND ?m = 0 then loop_head (bc ! i) else Suc i) st2"
    using reaches_turn [OF wf n i br s1(1), of fp pcfg] by blast
  obtain st3 where s3: "st_ok cfg st3" "n_r st3 ! k = n_r st2 ! k + b_imm (bc ! i)"
    "reaches cfg fp pcfg bc ?w (loop_head (bc ! i)) st2
       (if n_r st3 ! k AND ?m = 0 then loop_head (bc ! i) else Suc i) st3"
    using reaches_turn [OF wf n i br s2(1), of fp pcfg] by blast
  show ?thesis
  proof (cases "n_r st1 ! k AND ?m = 0")
    case False
    then have "reaches cfg fp pcfg bc 1 i st (Suc i) st1" using s1(3) by simp
    then show ?thesis using s1(1) by (intro exI [of _ 1] exI [of _ st1]) simp
  next
    case j1: True
    then have r1: "reaches cfg fp pcfg bc 1 i st (loop_head (bc ! i)) st1" using s1(3) by simp
    show ?thesis
    proof (cases "n_r st2 ! k AND ?m = 0")
      case False
      then have "reaches cfg fp pcfg bc (1 + ?w) i st (Suc i) st2"
        using reaches_trans [OF r1] s2(3) by simp
      then show ?thesis using s2(1) by (intro exI [of _ "1 + ?w"] exI [of _ st2]) simp
    next
      case j2: True
      have "n_r st3 ! k AND ?m \<noteq> 0"
        unfolding s3(2) s2(2)
        by (rule no_third_jump [OF loop_body(3) [OF wf i br] j1]) (use j2 s2(2) in simp)
      then have r3: "reaches cfg fp pcfg bc ?w (loop_head (bc ! i)) st2 (Suc i) st3"
        using s3(3) by simp
      have r2: "reaches cfg fp pcfg bc ?w (loop_head (bc ! i)) st1 (loop_head (bc ! i)) st2"
        using s2(3) j2 by simp
      have "reaches cfg fp pcfg bc (1 + ?w + ?w) i st (Suc i) st3"
        by (rule reaches_trans [OF reaches_trans [OF r1 r2] r3])
      then show ?thesis using s3(1) by (intro exI [of _ "1 + ?w + ?w"] exI [of _ st3]) simp
    qed
  qed
qed

subsection \<open>The whole program\<close>

text \<open>An entry is the start of the program or the instruction behind a branch.\<close>

definition entry :: "InstructionByteCode list \<Rightarrow> nat \<Rightarrow> bool" where
  "entry bc p \<longleftrightarrow> p = 0 \<or> b_type (bc ! (p - 1)) = CBRANCH"

lemma loop_head_entry:
  assumes wf: "bc_wf cfg bc" and "i < length bc" "b_type (bc ! i) = CBRANCH" "b_dst (bc ! i) = DstR k"
    and "entry bc p" "p \<le> i"
  shows "p \<le> loop_head (bc ! i)"
proof (rule ccontr)
  assume "\<not> p \<le> loop_head (bc ! i)"
  then have "loop_head (bc ! i) \<le> p - 1" "p - 1 < i" using assms(6) by auto
  with loop_body(4) [OF assms(1-4)] have "b_type (bc ! (p - 1)) \<noteq> CBRANCH" by blast
  then show False using assms(5) \<open>\<not> p \<le> _\<close> by (auto simp: entry_def)
qed

lemma runs_to_end:
  assumes wf: "bc_wf cfg bc" and n: "ProgramSize cfg = length bc"
  shows "entry bc p \<Longrightarrow> p \<le> length bc \<Longrightarrow> st_ok cfg st \<Longrightarrow>
    \<exists>c st'. c \<le> 3 * (length bc - p) \<and> st_ok cfg st' \<and> reaches cfg fp pcfg bc c p st (length bc) st'"
proof (induction "length bc - p" arbitrary: p st rule: less_induct)
  case less
  show ?case
  proof (cases "\<exists>i. p \<le> i \<and> i < length bc \<and> b_type (bc ! i) = CBRANCH")
    case False
    from reaches_straight [OF wf n, of p "length bc - p" st fp pcfg] False less.prems
    obtain st' where "reaches cfg fp pcfg bc (length bc - p) p st (length bc) st'" "st_ok cfg st'"
      by (auto simp: frame_def)
    then show ?thesis by (intro exI [of _ "length bc - p"] exI [of _ st']) simp
  next
    case True
    define i where "i = (LEAST i. p \<le> i \<and> i < length bc \<and> b_type (bc ! i) = CBRANCH)"
    have i: "p \<le> i" "i < length bc" "b_type (bc ! i) = CBRANCH"
      unfolding i_def using LeastI_ex [OF True] by blast+
    have min: "b_type (bc ! j) \<noteq> CBRANCH" if "p \<le> j" "j < i" for j
      using not_less_Least [of j] that i(2) unfolding i_def by fastforce
    have "ibc_ok cfg (bc ! i)" using wf i by (auto simp: bc_wf_def)
    then obtain k where k: "b_dst (bc ! i) = DstR k"
      using i(3) by (cases "b_dst (bc ! i)") (auto simp: ibc_ok_def)
    from reaches_straight [OF wf n, of p "i - p" st fp pcfg] min i less.prems
    obtain st1 where r1: "reaches cfg fp pcfg bc (i - p) p st i st1" and st1: "st_ok cfg st1"
      by (auto simp: frame_def)
    from reaches_exit [OF wf n i(2,3) k st1]
    obtain c2 st2 where c2: "c2 \<le> 1 + 2 * (i - loop_head (bc ! i) + 1)" and st2: "st_ok cfg st2"
      and r2: "reaches cfg fp pcfg bc c2 i st1 (Suc i) st2" by blast
    have "entry bc (Suc i)" using i by (simp add: entry_def)
    moreover have "length bc - Suc i < length bc - p" using i by linarith
    ultimately
    obtain c3 st3 where c3: "c3 \<le> 3 * (length bc - Suc i)" and st3: "st_ok cfg st3"
      and r3: "reaches cfg fp pcfg bc c3 (Suc i) st2 (length bc) st3"
      using less.hyps [OF _ _ _ st2] i by (metis Suc_leI)
    have "p \<le> loop_head (bc ! i)" by (rule loop_head_entry [OF wf i(2,3) k less.prems(1) i(1)])
    then have "i - loop_head (bc ! i) \<le> i - p" by (rule diff_le_mono2)
    then have "c2 \<le> 3 + 2 * (i - p)" using c2 by presburger
    then have "(i - p) + c2 + c3 \<le> 3 * (i - p) + 3 + 3 * (length bc - Suc i)" using c3 by linarith
    also have "\<dots> = 3 * (length bc - p)" using i by (simp add: algebra_simps)
    finally have "(i - p) + c2 + c3 \<le> 3 * (length bc - p)" .
    with reaches_trans [OF reaches_trans [OF r1 r2] r3] st3 show ?thesis by blast
  qed
qed

lemma executeBytecode_done:
  assumes "bc_wf cfg bc" "ProgramSize cfg = length bc" "st_ok cfg st"
  shows "\<exists>st'. st_ok cfg st' \<and>
    (\<forall>fuel \<ge> 3 * ProgramSize cfg. executeBytecode cfg fp pcfg bc fuel st = Done st')"
proof -
  obtain c st' where c: "c \<le> 3 * length bc" and st': "st_ok cfg st'"
    and r: "reaches cfg fp pcfg bc c 0 st (length bc) st'"
    using runs_to_end [OF assms(1,2), of 0 st fp pcfg] assms(3) by (auto simp: entry_def)
  have "executeBytecode cfg fp pcfg bc fuel st = Done st'" if "3 * ProgramSize cfg \<le> fuel" for fuel
  proof -
    have "exec_from cfg fp pcfg bc ((fuel - c) + c) (int 0) st
        = exec_from cfg fp pcfg bc (fuel - c) (int (length bc)) st'"
      using r unfolding reaches_def by blast
    then show ?thesis
      using c that assms(2) by (simp add: executeBytecode_def exec_from.simps [of _ _ _ _ _ "int (length bc)"])
  qed
  then show ?thesis using st' by blast
qed

text \<open>
  C1. Every program terminates without a fault: whatever the instruction words, the registers
  and the scratchpad are, a valid configuration compiles them and executes at most three
  times the program's length, with no access outside the scratchpad or the register file and
  with the shape of the machine kept.
\<close>

theorem executeBytecode_terminates:
  assumes "rx_valid cfg" "ProgramSize cfg \<le> length prog" "ProgramSize cfg \<le> length bc" "st_ok cfg st"
  shows "\<exists>bc' st'. compileProgram cfg prog bc = Some bc' \<and> st_ok cfg st' \<and>
    (\<forall>fuel \<ge> 3 * ProgramSize cfg. executeBytecode cfg fp pcfg bc' fuel st = Done st')"
proof -
  obtain bc' where "compileProgram cfg prog bc = Some bc'" "ProgramSize cfg = length bc'" "bc_wf cfg bc'"
    using compileProgram_wf [OF assms(1-3)] by auto
  then show ?thesis using executeBytecode_done [OF _ _ assms(4)] by blast
qed

text \<open>An all-zero scratchpad and register file, for the smallest shipped configuration.\<close>

definition zero_machine :: "rx_config \<Rightarrow> machine" where
  "zero_machine cfg = \<lparr> n_r = replicate 8 0, n_f = replicate 4 (0, 0), n_e = replicate 4 (0, 0),
     n_a = replicate 4 (0, 0), scratch = replicate (unat (ScratchpadL3_Size cfg)) 0,
     rmode = RoundToNearest \<rparr>"

definition nop_code :: InstructionByteCode where
  "nop_code = \<lparr> b_dst = DstR 0, b_src = SrcZero, b_imm = 0, b_type = NOP, b_ts = 0, memMask = 0 \<rparr>"

definition cbranch_prog :: "instruction list" where
  "cbranch_prog = replicate 256 \<lparr> i_opcode = 230, i_dst = 1, i_src = 2, i_mod = 48, i_imm32 = 0xffffffff \<rparr>"

lemma ProgramSize_Arqma: "ProgramSize (Apply RandomX_ConfigurationArqma) = 256"
  by (simp add: Apply_def Let_def RandomX_ConfigurationArqma_def RandomX_ConfigurationBase_def)

theorem executeBytecode_terminates_witness:
  "\<exists>bc' st'. compileProgram (Apply RandomX_ConfigurationArqma) cbranch_prog (replicate 384 nop_code) = Some bc' \<and>
     st_ok (Apply RandomX_ConfigurationArqma) st' \<and>
     (\<forall>fuel \<ge> 3 * ProgramSize (Apply RandomX_ConfigurationArqma).
        executeBytecode (Apply RandomX_ConfigurationArqma)
          \<lparr> fp_add = (\<lambda>m x y. x), fp_sub = (\<lambda>m x y. x), fp_mul = (\<lambda>m x y. x),
            fp_div = (\<lambda>m x y. x), fp_sqrt = (\<lambda>m x. x) \<rparr>
          \<lparr> eMask = [0, 0], readReg0 = 0, readReg1 = 2, readReg2 = 4, readReg3 = 6 \<rparr>
          bc' fuel (zero_machine (Apply RandomX_ConfigurationArqma)) = Done st')"
  by (rule executeBytecode_terminates)
    (simp_all add: rx_valid_Arqma ProgramSize_Arqma cbranch_prog_def zero_machine_def st_ok_def)

text \<open>
  Branch targets: in a compiled program the target of a branch at \<open>i\<close> is the index of an
  earlier instruction (or -1), and no instruction between it and the branch writes the branch
  register or is itself a branch, so that loops never nest or overlap.
\<close>

theorem compiled_branch_targets:
  assumes "rx_valid cfg" "ProgramSize cfg \<le> length prog" "ProgramSize cfg \<le> length bc"
  shows "\<exists>bc'. compileProgram cfg prog bc = Some bc' \<and> length bc' = ProgramSize cfg \<and>
    list_all (\<lambda>i. b_type (bc' ! i) = CBRANCH \<longrightarrow>
      - 1 \<le> sint (b_ts (bc' ! i)) \<and> sint (b_ts (bc' ! i)) < int i \<and>
      (\<exists>k < 8. b_dst (bc' ! i) = DstR k \<and>
        list_all (\<lambda>j. \<not> writes_reg (bc' ! j) k \<and> b_type (bc' ! j) \<noteq> CBRANCH)
          [nat (sint (b_ts (bc' ! i)) + 1)..<i])) [0..<length bc']"
proof -
  obtain bc' where bc: "compileProgram cfg prog bc = Some bc'" "length bc' = ProgramSize cfg"
    and wf: "bc_wf cfg bc'" using compileProgram_wf [OF assms] by blast
  have "branch_ok bc' i" if "i < length bc'" for i using wf that by (simp add: bc_wf_def)
  then show ?thesis
    using bc by (intro exI [of _ bc'] conjI) (fastforce simp: list_all_iff branch_ok_def nat_le_iff)+
qed

theorem compiled_branch_targets_witness:
  "\<exists>bc'. compileProgram (Apply RandomX_ConfigurationArqma) cbranch_prog (replicate 384 nop_code) = Some bc' \<and>
    length bc' = ProgramSize (Apply RandomX_ConfigurationArqma) \<and>
    list_all (\<lambda>i. b_type (bc' ! i) = CBRANCH \<longrightarrow>
      - 1 \<le> sint (b_ts (bc' ! i)) \<and> sint (b_ts (bc' ! i)) < int i \<and>
      (\<exists>k < 8. b_dst (bc' ! i) = DstR k \<and>
        list_all (\<lambda>j. \<not> writes_reg (bc' ! j) k \<and> b_type (bc' ! j) \<noteq> CBRANCH)
          [nat (sint (b_ts (bc' ! i)) + 1)..<i])) [0..<length bc']"
  by (rule compiled_branch_targets)
    (simp_all add: rx_valid_Arqma ProgramSize_Arqma cbranch_prog_def)

end
