(* ===== verification/Blake2b.thy ===== *)
theory Blake2b
  imports Prelude
begin

text \<open>
  The Blake2b implementation of \<^verbatim>\<open>crypto/randomx/blake2/blake2b.c\<close> (portable compression
  function) with its streaming interface, and \<open>rxa2_blake2b_long\<close>, the variable length hash
  built on it. A return value of -1 is \<open>None\<close>. The abstract state of a hash in progress is
  the chaining value with the bytes not compressed yet; the streaming functions are proved to
  refine operations on it, so that how the input is cut into updates does not matter.
\<close>

subsection \<open>Constants and compression\<close>

definition BLAKE2B_BLOCKBYTES :: nat where "BLAKE2B_BLOCKBYTES = 128"
definition BLAKE2B_OUTBYTES :: nat where "BLAKE2B_OUTBYTES = 64"
definition BLAKE2B_KEYBYTES :: nat where "BLAKE2B_KEYBYTES = 64"

lemmas blake2b_consts = BLAKE2B_BLOCKBYTES_def BLAKE2B_OUTBYTES_def BLAKE2B_KEYBYTES_def

definition blake2b_IV :: "u64 list" where
  "blake2b_IV =
    [0x6a09e667f3bcc908, 0xbb67ae8584caa73b, 0x3c6ef372fe94f82b, 0xa54ff53a5f1d36f1,
     0x510e527fade682d1, 0x9b05688c2b3e6c1f, 0x1f83d9abfb41bd6b, 0x5be0cd19137e2179]"

definition blake2b_sigma :: "nat list list" where
  "blake2b_sigma =
    [[0, 1, 2, 3, 4, 5, 6, 7, 8, 9, 10, 11, 12, 13, 14, 15],
     [14, 10, 4, 8, 9, 15, 13, 6, 1, 12, 0, 2, 11, 7, 5, 3],
     [11, 8, 12, 0, 5, 2, 15, 13, 10, 14, 3, 6, 7, 1, 9, 4],
     [7, 9, 3, 1, 13, 12, 11, 14, 2, 6, 5, 10, 4, 0, 15, 8],
     [9, 0, 5, 7, 2, 4, 10, 15, 14, 1, 11, 12, 6, 8, 3, 13],
     [2, 12, 6, 10, 0, 11, 8, 3, 4, 13, 7, 5, 15, 14, 1, 9],
     [12, 5, 1, 15, 14, 13, 4, 10, 0, 7, 6, 3, 9, 2, 8, 11],
     [13, 11, 7, 14, 12, 1, 3, 9, 5, 0, 15, 4, 8, 6, 2, 10],
     [6, 15, 14, 9, 11, 3, 0, 8, 12, 2, 13, 7, 1, 4, 10, 5],
     [10, 2, 8, 4, 7, 6, 1, 5, 15, 11, 9, 14, 3, 12, 13, 0],
     [0, 1, 2, 3, 4, 5, 6, 7, 8, 9, 10, 11, 12, 13, 14, 15],
     [14, 10, 4, 8, 9, 15, 13, 6, 1, 12, 0, 2, 11, 7, 5, 3]]"

record blake2b_state =
  b2_h :: "u64 list"
  b2_t0 :: u64
  b2_t1 :: u64
  b2_f0 :: u64
  b2_f1 :: u64
  b2_buf :: bytes
  b2_buflen :: nat
  b2_outlen :: nat
  b2_last_node :: bool

definition blake_rotr64 :: "u64 \<Rightarrow> nat \<Rightarrow> u64" where
  "blake_rotr64 w c = drop_bit c w OR push_bit (64 - c) w"

text \<open>The \<open>G\<close> and \<open>ROUND\<close> macros.\<close>

definition blake2b_G ::
  "u64 list \<Rightarrow> nat \<Rightarrow> nat \<Rightarrow> nat \<Rightarrow> nat \<Rightarrow> nat \<Rightarrow> nat \<Rightarrow> u64 list \<Rightarrow> u64 list" where
  "blake2b_G m r i ia ib ic ix v =
    (let a = v ! ia + v ! ib + m ! (blake2b_sigma ! r ! (2 * i));
         d = blake_rotr64 (v ! ix XOR a) 32;
         c = v ! ic + d;
         b = blake_rotr64 (v ! ib XOR c) 24;
         a = a + b + m ! (blake2b_sigma ! r ! (2 * i + 1));
         d = blake_rotr64 (d XOR a) 16;
         c = c + d;
         b = blake_rotr64 (b XOR c) 63
     in v[ia := a, ib := b, ic := c, ix := d])"

definition blake2b_ROUND :: "u64 list \<Rightarrow> nat \<Rightarrow> u64 list \<Rightarrow> u64 list" where
  "blake2b_ROUND m r v =
    (let v = blake2b_G m r 0 0 4 8 12 v;
         v = blake2b_G m r 1 1 5 9 13 v;
         v = blake2b_G m r 2 2 6 10 14 v;
         v = blake2b_G m r 3 3 7 11 15 v;
         v = blake2b_G m r 4 0 5 10 15 v;
         v = blake2b_G m r 5 1 6 11 12 v;
         v = blake2b_G m r 6 2 7 8 13 v;
         v = blake2b_G m r 7 3 4 9 14 v
     in v)"

definition load_words :: "nat \<Rightarrow> bytes \<Rightarrow> u64 list" where
  "load_words n p = map (\<lambda>i. load64 (drop (8 * i) p)) [0..<n]"

text \<open>The new chaining value from the old one, the counter and the finalisation flags.\<close>

definition blake2b_mix :: "u64 list \<Rightarrow> u64 \<Rightarrow> u64 \<Rightarrow> u64 \<Rightarrow> u64 \<Rightarrow> bytes \<Rightarrow> u64 list" where
  "blake2b_mix hs tlo thi flo fhi block =
    (let m = load_words 16 block;
         v = take 8 hs @
             [blake2b_IV ! 0, blake2b_IV ! 1, blake2b_IV ! 2, blake2b_IV ! 3,
              blake2b_IV ! 4 XOR tlo, blake2b_IV ! 5 XOR thi,
              blake2b_IV ! 6 XOR flo, blake2b_IV ! 7 XOR fhi];
         v = fold (blake2b_ROUND m) [0..<12] v
     in map (\<lambda>i. hs ! i XOR v ! i XOR v ! (i + 8)) [0..<8])"

definition rx_blake2b_compress :: "blake2b_state \<Rightarrow> bytes \<Rightarrow> blake2b_state" where
  "rx_blake2b_compress S block =
     S \<lparr> b2_h := blake2b_mix (b2_h S) (b2_t0 S) (b2_t1 S) (b2_f0 S) (b2_f1 S) block \<rparr>"

lemma length_blake2b_mix [simp, length_simps]: "length (blake2b_mix hs tlo thi flo fhi block) = 8"
  by (simp add: blake2b_mix_def Let_def del: upt_rec_numeral)

subsection \<open>The streaming interface\<close>

definition blake2b_set_lastblock :: "blake2b_state \<Rightarrow> blake2b_state" where
  "blake2b_set_lastblock S =
    (let S = (if b2_last_node S then S \<lparr> b2_f1 := - 1 \<rparr> else S) in S \<lparr> b2_f0 := - 1 \<rparr>)"

definition blake2b_increment_counter :: "u64 \<Rightarrow> blake2b_state \<Rightarrow> blake2b_state" where
  "blake2b_increment_counter inc S =
    (let t = b2_t0 S + inc in S \<lparr> b2_t0 := t, b2_t1 := b2_t1 S + (if t < inc then 1 else 0) \<rparr>)"

definition blake2b_init0 :: blake2b_state where
  "blake2b_init0 = \<lparr> b2_h = blake2b_IV, b2_t0 = 0, b2_t1 = 0, b2_f0 = 0, b2_f1 = 0,
     b2_buf = replicate BLAKE2B_BLOCKBYTES 0, b2_buflen = 0, b2_outlen = 0, b2_last_node = False \<rparr>"

text \<open>The parameter block: digest length, key length, fanout 1, depth 1, and zeros.\<close>

definition blake2b_param :: "nat \<Rightarrow> nat \<Rightarrow> bytes" where
  "blake2b_param digest_length key_length =
     [of_nat digest_length, of_nat key_length, 1, 1] @ replicate 60 0"

definition rx_blake2b_init_param :: "nat \<Rightarrow> nat \<Rightarrow> blake2b_state" where
  "rx_blake2b_init_param digest_length key_length =
    (let P = blake2b_param digest_length key_length
     in blake2b_init0 \<lparr> b2_h := map2 (XOR) blake2b_IV (load_words 8 P),
                        b2_outlen := unat (of_nat digest_length :: u8) \<rparr>)"

definition rx_blake2b_init :: "nat \<Rightarrow> blake2b_state option" where
  "rx_blake2b_init n =
    (if n = 0 \<or> n > BLAKE2B_OUTBYTES then None else Some (rx_blake2b_init_param n 0))"

text \<open>The loop over whole blocks of the input; at least one byte is left for the buffer.\<close>

function update_blocks :: "blake2b_state \<Rightarrow> bytes \<Rightarrow> blake2b_state \<times> bytes" where
  "update_blocks S pin =
    (if length pin > BLAKE2B_BLOCKBYTES
     then update_blocks
            (rx_blake2b_compress (blake2b_increment_counter (of_nat BLAKE2B_BLOCKBYTES) S)
               (take BLAKE2B_BLOCKBYTES pin))
            (drop BLAKE2B_BLOCKBYTES pin)
     else (S, pin))"
  by pat_completeness auto
termination by (relation "measure (\<lambda>(S, pin). length pin)") (auto simp: blake2b_consts)

declare update_blocks.simps [simp del]

text \<open>\<open>memcpy (&b2_buf[off], src, length src)\<close> into an array.\<close>

definition overwrite :: "bytes \<Rightarrow> nat \<Rightarrow> bytes \<Rightarrow> bytes" where
  "overwrite b off src = take off b @ src @ drop (off + length src) b"

definition rx_blake2b_update :: "blake2b_state \<Rightarrow> bytes \<Rightarrow> blake2b_state option" where
  "rx_blake2b_update S pin =
    (if pin = [] then Some S
     else if b2_f0 S \<noteq> 0 then None
     else
       let (S, pin) =
         (if b2_buflen S + length pin > BLAKE2B_BLOCKBYTES
          then let left = b2_buflen S; fill = BLAKE2B_BLOCKBYTES - left;
                   S = S \<lparr> b2_buf := overwrite (b2_buf S) left (take fill pin) \<rparr>;
                   S = blake2b_increment_counter (of_nat BLAKE2B_BLOCKBYTES) S;
                   S = rx_blake2b_compress S (b2_buf S);
                   S = S \<lparr> b2_buflen := 0 \<rparr>
               in update_blocks S (drop fill pin)
          else (S, pin))
       in Some (S \<lparr> b2_buf := overwrite (b2_buf S) (b2_buflen S) pin, b2_buflen := b2_buflen S + length pin \<rparr>))"

definition rx_blake2b_final :: "blake2b_state \<Rightarrow> nat \<Rightarrow> bytes option" where
  "rx_blake2b_final S n =
    (if n < b2_outlen S \<or> b2_f0 S \<noteq> 0 then None
     else
       let S = blake2b_increment_counter (of_nat (b2_buflen S)) S;
           S = blake2b_set_lastblock S;
           S = S \<lparr> b2_buf := overwrite (b2_buf S) (b2_buflen S) (replicate (BLAKE2B_BLOCKBYTES - b2_buflen S) 0) \<rparr>;
           S = rx_blake2b_compress S (b2_buf S)
       in Some (take (b2_outlen S) (concat (map store64 (b2_h S)))))"

definition rx_blake2b :: "nat \<Rightarrow> bytes \<Rightarrow> bytes option" where
  "rx_blake2b n pin =
     do { S \<leftarrow> rx_blake2b_init n; S \<leftarrow> rx_blake2b_update S pin; rx_blake2b_final S n }"

definition rx_blake2b_init_key :: "nat \<Rightarrow> bytes \<Rightarrow> blake2b_state option" where
  "rx_blake2b_init_key n key =
    (if n = 0 \<or> n > BLAKE2B_OUTBYTES \<or> key = [] \<or> length key > BLAKE2B_KEYBYTES then None
     else rx_blake2b_update (rx_blake2b_init_param n (length key))
            (overwrite (replicate BLAKE2B_BLOCKBYTES 0) 0 key))"

subsection \<open>The long hash\<close>

function blake2b_long_loop :: "nat \<Rightarrow> bytes \<Rightarrow> bytes \<Rightarrow> bytes option" where
  "blake2b_long_loop toproduce out_buffer out =
    (if toproduce > BLAKE2B_OUTBYTES
     then case rx_blake2b BLAKE2B_OUTBYTES out_buffer of
            None \<Rightarrow> None
          | Some ob \<Rightarrow> blake2b_long_loop (toproduce - BLAKE2B_OUTBYTES div 2) ob
                        (out @ take (BLAKE2B_OUTBYTES div 2) ob)
     else map_option (\<lambda>ob. out @ take toproduce ob) (rx_blake2b toproduce out_buffer))"
  by pat_completeness auto
termination by (relation "measure (\<lambda>(n, _). n)") (auto simp: blake2b_consts)

declare blake2b_long_loop.simps [simp del]

definition rxa2_blake2b_long :: "nat \<Rightarrow> bytes \<Rightarrow> bytes option" where
  "rxa2_blake2b_long n pin =
    (if n > 2 ^ 32 - 1 then None
     else
       let outlen_bytes = store32 (of_nat n);
           first = (\<lambda>len. do { S \<leftarrow> rx_blake2b_init len; S \<leftarrow> rx_blake2b_update S outlen_bytes;
                            S \<leftarrow> rx_blake2b_update S pin; rx_blake2b_final S len })
       in if n \<le> BLAKE2B_OUTBYTES then first n
          else do { ob \<leftarrow> first BLAKE2B_OUTBYTES;
                    blake2b_long_loop (n - BLAKE2B_OUTBYTES div 2) ob
                      (take (BLAKE2B_OUTBYTES div 2) ob) })"

subsection \<open>Well-formed states\<close>

definition blake_wf :: "blake2b_state \<Rightarrow> bool" where
  "blake_wf S \<longleftrightarrow> length (b2_h S) = 8 \<and> length (b2_buf S) = BLAKE2B_BLOCKBYTES \<and>
     b2_buflen S \<le> BLAKE2B_BLOCKBYTES \<and> b2_f0 S = 0 \<and> 0 < b2_outlen S \<and> b2_outlen S \<le> BLAKE2B_OUTBYTES"

lemma length_blake2b_IV [simp, length_simps]: "length blake2b_IV = 8"
  by (simp add: blake2b_IV_def)

lemma length_load_words [simp, length_simps]: "length (load_words n p) = n"
  by (simp add: load_words_def)

lemma length_overwrite [simp, length_simps]:
  "off + length src \<le> length b \<Longrightarrow> length (overwrite b off src) = length b"
  by (simp add: overwrite_def)

lemma take_overwrite:
  "off \<le> length b \<Longrightarrow> take (off + length src) (overwrite b off src) = take off b @ src"
  by (simp add: overwrite_def min_def)

lemma overwrite_full:
  "off + length src = length b \<Longrightarrow> overwrite b off src = take off b @ src"
  by (simp add: overwrite_def)

lemma compress_fields [simp]:
  "b2_t0 (rx_blake2b_compress S b) = b2_t0 S" "b2_t1 (rx_blake2b_compress S b) = b2_t1 S"
  "b2_f0 (rx_blake2b_compress S b) = b2_f0 S" "b2_f1 (rx_blake2b_compress S b) = b2_f1 S"
  "b2_buf (rx_blake2b_compress S b) = b2_buf S" "b2_buflen (rx_blake2b_compress S b) = b2_buflen S"
  "b2_outlen (rx_blake2b_compress S b) = b2_outlen S" "b2_last_node (rx_blake2b_compress S b) = b2_last_node S"
  "length (b2_h (rx_blake2b_compress S b)) = 8"
  by (simp_all add: rx_blake2b_compress_def)

lemma counter_fields [simp]:
  "b2_h (blake2b_increment_counter n S) = b2_h S" "b2_f0 (blake2b_increment_counter n S) = b2_f0 S"
  "b2_f1 (blake2b_increment_counter n S) = b2_f1 S" "b2_buf (blake2b_increment_counter n S) = b2_buf S"
  "b2_buflen (blake2b_increment_counter n S) = b2_buflen S"
  "b2_outlen (blake2b_increment_counter n S) = b2_outlen S"
  "b2_last_node (blake2b_increment_counter n S) = b2_last_node S"
  by (simp_all add: blake2b_increment_counter_def Let_def)

lemma lastblock_fields [simp]:
  "b2_h (blake2b_set_lastblock S) = b2_h S" "b2_buf (blake2b_set_lastblock S) = b2_buf S"
  "b2_buflen (blake2b_set_lastblock S) = b2_buflen S" "b2_outlen (blake2b_set_lastblock S) = b2_outlen S"
  by (simp_all add: blake2b_set_lastblock_def Let_def)

subsection \<open>Abstraction\<close>

text \<open>
  \<open>core\<close> is the hash in progress without its buffer, \<open>pending\<close> the buffered bytes. What the
  buffer holds behind \<open>buflen\<close> is left over from earlier blocks and never read.
\<close>

definition core :: "blake2b_state \<Rightarrow> blake2b_state" where
  "core S = S \<lparr> b2_buf := [], b2_buflen := 0 \<rparr>"

definition pending :: "blake2b_state \<Rightarrow> bytes" where
  "pending S = take (b2_buflen S) (b2_buf S)"

lemma core_simps [simp]:
  "core (S \<lparr> b2_buf := b \<rparr>) = core S" "core (S \<lparr> b2_buflen := n \<rparr>) = core S"
  "core (rx_blake2b_compress S blk) = rx_blake2b_compress (core S) blk"
  "core (blake2b_increment_counter inc S) = blake2b_increment_counter inc (core S)"
  "core (blake2b_set_lastblock S) = blake2b_set_lastblock (core S)"
  "b2_h (core S) = b2_h S" "b2_f0 (core S) = b2_f0 S" "b2_outlen (core S) = b2_outlen S"
  by (simp_all add: core_def rx_blake2b_compress_def blake2b_increment_counter_def
      blake2b_set_lastblock_def Let_def)

lemma update_blocks_core:
  "update_blocks S pin = (S', rest) \<Longrightarrow>
   update_blocks (core S) pin = (core S', rest) \<and> length rest \<le> BLAKE2B_BLOCKBYTES
   \<and> b2_buf S' = b2_buf S \<and> b2_buflen S' = b2_buflen S \<and> b2_f0 S' = b2_f0 S
   \<and> b2_outlen S' = b2_outlen S \<and> (length (b2_h S) = 8 \<longrightarrow> length (b2_h S') = 8)"
proof (induction S pin arbitrary: S' rest rule: update_blocks.induct)
  case (1 S pin)
  show ?case
  proof (cases "length pin > BLAKE2B_BLOCKBYTES")
    case True
    then have "update_blocks (rx_blake2b_compress (blake2b_increment_counter (of_nat BLAKE2B_BLOCKBYTES) S)
        (take BLAKE2B_BLOCKBYTES pin)) (drop BLAKE2B_BLOCKBYTES pin) = (S', rest)"
      using "1.prems" by (simp add: update_blocks.simps [of S pin])
    from "1.IH" [OF True this] True show ?thesis
      by (simp add: update_blocks.simps [of "core S" pin])
  next
    case False
    then have "S' = S" "rest = pin" using "1.prems" by (simp_all add: update_blocks.simps [of S pin])
    then show ?thesis using False by (simp add: update_blocks.simps [of "core S" pin])
  qed
qed

lemma update_blocks_small [simp]:
  "length pin \<le> BLAKE2B_BLOCKBYTES \<Longrightarrow> update_blocks S pin = (S, pin)"
  by (simp add: update_blocks.simps)

text \<open>Compressing whole blocks early does not change what is computed.\<close>

lemma update_blocks_append:
  "update_blocks C xs = (C1, p) \<Longrightarrow> update_blocks C1 (p @ ys) = update_blocks C (xs @ ys)"
proof (induction C xs arbitrary: C1 p rule: update_blocks.induct)
  case (1 C xs)
  show ?case
  proof (cases "length xs > BLAKE2B_BLOCKBYTES")
    case True
    then show ?thesis
      using "1.IH" [OF True, of C1 p] "1.prems"
      by (simp add: update_blocks.simps [of C xs] update_blocks.simps [of C "xs @ ys"])
  next
    case False
    with "1.prems" show ?thesis by simp
  qed
qed

lemma pending_overwrite:
  "b2_buflen S + length pin \<le> length (b2_buf S) \<Longrightarrow>
   pending (S \<lparr> b2_buf := overwrite (b2_buf S) (b2_buflen S) pin, b2_buflen := b2_buflen S + length pin \<rparr>)
   = pending S @ pin"
  by (simp add: pending_def take_overwrite)

lemma update_refines:
  assumes "blake_wf S"
  shows "succeeds (rx_blake2b_update S pin) (\<lambda>S'. blake_wf S' \<and>
    update_blocks (core S) (pending S @ pin) = (core S', pending S'))"
proof (cases "pin = []")
  case True
  then show ?thesis using assms by (simp add: rx_blake2b_update_def pending_def blake_wf_def)
next
  case ne: False
  note wf = assms [unfolded blake_wf_def]
  show ?thesis
  proof (cases "b2_buflen S + length pin > BLAKE2B_BLOCKBYTES")
    case False
    then show ?thesis
      using ne wf
      by (auto simp: rx_blake2b_update_def blake_wf_def pending_overwrite) (simp add: pending_def)
  next
    case True
    let ?fill = "BLAKE2B_BLOCKBYTES - b2_buflen S"
    let ?block = "overwrite (b2_buf S) (b2_buflen S) (take ?fill pin)"
    let ?S1 = "rx_blake2b_compress (blake2b_increment_counter (of_nat BLAKE2B_BLOCKBYTES)
      (S \<lparr> b2_buf := ?block \<rparr>)) ?block \<lparr> b2_buflen := 0 \<rparr>"
    have len: "b2_buflen S + length (take ?fill pin) = length (b2_buf S)" using wf True by simp
    have block: "?block = take BLAKE2B_BLOCKBYTES (pending S @ pin)"
      and rest: "drop ?fill pin = drop BLAKE2B_BLOCKBYTES (pending S @ pin)"
      using wf by (simp_all add: overwrite_full [OF len] pending_def)
    obtain S2 r where u: "update_blocks ?S1 (drop ?fill pin) = (S2, r)" by fastforce
    note S2 = update_blocks_core [OF u]
    have "update_blocks (core S) (pending S @ pin) = update_blocks (core ?S1) (drop ?fill pin)"
      using True wf unfolding rest
      by (subst update_blocks.simps) (simp add: pending_def overwrite_full [OF len])
    then have abs: "update_blocks (core S) (pending S @ pin) = (core S2, r)" using S2 by simp
    have res: "rx_blake2b_update S pin
        = Some (S2 \<lparr> b2_buf := overwrite (b2_buf S2) (b2_buflen S2) r, b2_buflen := b2_buflen S2 + length r \<rparr>)"
      using ne wf True u by (simp add: rx_blake2b_update_def Let_def)
    have buf2: "b2_buflen S2 = 0" "length (b2_buf S2) = BLAKE2B_BLOCKBYTES" "length r \<le> BLAKE2B_BLOCKBYTES"
      using S2 wf len by simp_all
    have "pending (S2 \<lparr> b2_buf := overwrite (b2_buf S2) (b2_buflen S2) r, b2_buflen := b2_buflen S2 + length r \<rparr>) = r"
      using buf2 by (subst pending_overwrite) (simp_all add: pending_def)
    then show ?thesis using abs S2 wf buf2 unfolding res by (simp add: blake_wf_def)
  qed
qed

text \<open>Finalisation reads the abstract state only.\<close>

definition final_abs :: "blake2b_state \<Rightarrow> bytes \<Rightarrow> bytes" where
  "final_abs C p =
    (let C = blake2b_set_lastblock (blake2b_increment_counter (of_nat (length p)) C)
     in take (b2_outlen C) (concat (map store64
          (b2_h (rx_blake2b_compress C (p @ replicate (BLAKE2B_BLOCKBYTES - length p) 0))))))"

lemma compress_core_h: "b2_h (rx_blake2b_compress S blk) = b2_h (rx_blake2b_compress (core S) blk)"
  by (metis core_simps(3,6))

lemma final_refines:
  assumes "blake_wf S"
  shows "rx_blake2b_final S n = (if n < b2_outlen S then None else Some (final_abs (core S) (pending S)))"
proof -
  have "overwrite (b2_buf S) (b2_buflen S) (replicate (BLAKE2B_BLOCKBYTES - b2_buflen S) 0)
      = pending S @ replicate (BLAKE2B_BLOCKBYTES - length (pending S)) 0"
    using assms by (subst overwrite_full) (auto simp: blake_wf_def pending_def)
  moreover have "length (pending S) = b2_buflen S"
    using assms by (simp add: blake_wf_def pending_def)
  ultimately show ?thesis
    using assms
    by (simp add: rx_blake2b_final_def final_abs_def Let_def blake_wf_def
        compress_core_h [of "blake2b_set_lastblock (blake2b_increment_counter _ _)\<lparr>b2_buf := _\<rparr>"]
        core_def [of "core _", symmetric])
qed

text \<open>
  Streaming: feeding the input in two pieces gives the digest of the concatenation, for
  every state of a hash in progress and wherever the cut is (also inside a block, and with
  empty pieces).
\<close>

theorem blake2b_update_append:
  assumes "blake_wf S"
  shows "rx_blake2b_update S xs \<bind> (\<lambda>S. rx_blake2b_update S ys) \<bind> (\<lambda>S. rx_blake2b_final S n)
       = rx_blake2b_update S (xs @ ys) \<bind> (\<lambda>S. rx_blake2b_final S n)"
proof -
  obtain S1 where S1: "rx_blake2b_update S xs = Some S1" "blake_wf S1"
    "update_blocks (core S) (pending S @ xs) = (core S1, pending S1)"
    using update_refines [OF assms, of xs] by (auto elim: succeedsE)
  obtain S2 where S2: "rx_blake2b_update S1 ys = Some S2" "blake_wf S2"
    "update_blocks (core S1) (pending S1 @ ys) = (core S2, pending S2)"
    using update_refines [OF S1(2), of ys] by (auto elim: succeedsE)
  obtain S3 where S3: "rx_blake2b_update S (xs @ ys) = Some S3" "blake_wf S3"
    "update_blocks (core S) (pending S @ xs @ ys) = (core S3, pending S3)"
    using update_refines [OF assms, of "xs @ ys"] by (auto elim: succeedsE)
  have eq: "core S3 = core S2" "pending S3 = pending S2"
    using update_blocks_append [OF S1(3), of ys] S2(3) S3(3) by simp_all
  then have "b2_outlen S3 = b2_outlen S2" by (metis core_simps(8))
  then show ?thesis
    using eq by (simp add: S1 S2 S3 final_refines)
qed

lemma init_wf:
  assumes "0 < n" "n \<le> BLAKE2B_OUTBYTES"
  shows "blake_wf (rx_blake2b_init_param n k)" "b2_outlen (rx_blake2b_init_param n k) = n"
proof -
  have "n < 256" using assms by (simp add: blake2b_consts)
  then have "unat (of_nat n :: u8) = n" by (simp add: unat_of_nat)
  then show "blake_wf (rx_blake2b_init_param n k)" "b2_outlen (rx_blake2b_init_param n k) = n"
    using assms by (simp_all add: blake_wf_def rx_blake2b_init_param_def blake2b_init0_def Let_def)
qed

theorem blake2b_update_append_witness:
  "rx_blake2b_update (rx_blake2b_init_param 32 0) [1, 2, 3]
     \<bind> (\<lambda>S. rx_blake2b_update S (replicate 200 7)) \<bind> (\<lambda>S. rx_blake2b_final S 32)
   = rx_blake2b_update (rx_blake2b_init_param 32 0) ([1, 2, 3] @ replicate 200 7)
     \<bind> (\<lambda>S. rx_blake2b_final S 32)"
  by (rule blake2b_update_append) (simp add: init_wf blake2b_consts)

subsection \<open>The one-shot hash against the definition of Blake2b\<close>

text \<open>
  The hash as RFC 7693 states it: every block but the last is mixed with the number of bytes
  up to its end as a 128-bit counter, the last one is padded with zeros and flagged.
\<close>

definition blake_ref_F :: "u64 list \<Rightarrow> nat \<Rightarrow> bool \<Rightarrow> bytes \<Rightarrow> u64 list" where
  "blake_ref_F hs n fin blk =
     blake2b_mix hs (of_nat n) (of_nat (n div 2 ^ 64)) (if fin then - 1 else 0) 0 blk"

function blake_ref :: "u64 list \<Rightarrow> nat \<Rightarrow> bytes \<Rightarrow> u64 list" where
  "blake_ref hs n msg =
    (if length msg > 128
     then blake_ref (blake_ref_F hs (n + 128) False (take 128 msg)) (n + 128) (drop 128 msg)
     else blake_ref_F hs (n + length msg) True (msg @ replicate (128 - length msg) 0))"
  by pat_completeness auto
termination by (relation "measure (\<lambda>(hs, n, msg). length msg)") auto

declare blake_ref.simps [simp del]

definition blake2b_reference :: "nat \<Rightarrow> bytes \<Rightarrow> bytes" where
  "blake2b_reference n msg =
     take n (concat (map store64 (blake_ref (map2 (XOR) blake2b_IV (load_words 8 (blake2b_param n 0))) 0 msg)))"

text \<open>The pair of 64-bit counters is the 128-bit byte count.\<close>

lemma counter_carry:
  assumes "inc < 2 ^ 64"
  shows "(of_nat n + of_nat inc < (of_nat inc :: u64)) = (2 ^ 64 \<le> n mod 2 ^ 64 + inc)"
proof -
  have i: "unat (of_nat inc :: u64) = inc" using assms by (simp add: unat_of_nat)
  have s: "unat (of_nat n + of_nat inc :: u64) = (n mod 2 ^ 64 + inc) mod 2 ^ 64"
    by (simp add: unat_of_nat mod_simps flip: of_nat_add)
  show ?thesis
  proof (cases "2 ^ 64 \<le> n mod 2 ^ 64 + inc")
    case True
    have "n mod 2 ^ 64 < 2 ^ 64" by simp
    then have "(n mod 2 ^ 64 + inc) mod 2 ^ 64 < inc"
      using True assms by (simp only: le_mod_geq) auto
    then show ?thesis using True by (simp only: word_less_nat_alt i s)
  next
    case False
    then have "(n mod 2 ^ 64 + inc) mod 2 ^ 64 = n mod 2 ^ 64 + inc" by simp
    then show ?thesis using False by (simp only: word_less_nat_alt i s) simp
  qed
qed

lemma counter_advance:
  assumes "inc < 2 ^ 64" "b2_t0 C = of_nat n" "b2_t1 C = of_nat (n div 2 ^ 64)"
  shows "b2_t0 (blake2b_increment_counter (of_nat inc) C) = of_nat (n + inc)"
    "b2_t1 (blake2b_increment_counter (of_nat inc) C) = of_nat ((n + inc) div 2 ^ 64)"
proof -
  show "b2_t0 (blake2b_increment_counter (of_nat inc) C) = of_nat (n + inc)"
    using assms(2) by (simp add: blake2b_increment_counter_def Let_def)
  have "(n + inc) div 2 ^ 64 = n div 2 ^ 64 + (n mod 2 ^ 64 + inc) div 2 ^ 64"
    using div_add1_eq [of n inc "2 ^ 64"] assms(1) by simp
  also have "(n mod 2 ^ 64 + inc) div 2 ^ 64 = (if 2 ^ 64 \<le> n mod 2 ^ 64 + inc then 1 else 0)"
  proof (cases "2 ^ 64 \<le> n mod 2 ^ 64 + inc")
    case True
    have "n mod 2 ^ 64 < 2 ^ 64" by simp
    then have "(n mod 2 ^ 64 + inc) div 2 ^ 64 = 1"
      using True assms(1) by (intro div_nat_eqI) auto
    then show ?thesis using True by simp
  qed simp
  finally show "b2_t1 (blake2b_increment_counter (of_nat inc) C) = of_nat ((n + inc) div 2 ^ 64)"
    using assms counter_carry [OF assms(1), of n]
    by (simp add: blake2b_increment_counter_def Let_def)
qed

lemma update_blocks_ref:
  "update_blocks C msg = (C', p) \<Longrightarrow> b2_t0 C = of_nat n \<Longrightarrow> b2_t1 C = of_nat (n div 2 ^ 64) \<Longrightarrow>
   b2_f0 C = 0 \<Longrightarrow> b2_f1 C = 0 \<Longrightarrow> \<not> b2_last_node C \<Longrightarrow>
   final_abs C' p = take (b2_outlen C) (concat (map store64 (blake_ref (b2_h C) n msg)))"
proof (induction C msg arbitrary: n rule: update_blocks.induct)
  case (1 C msg)
  let ?C = "blake2b_increment_counter (of_nat BLAKE2B_BLOCKBYTES) C"
  show ?case
  proof (cases "length msg > BLAKE2B_BLOCKBYTES")
    case True
    have u: "update_blocks (rx_blake2b_compress ?C (take BLAKE2B_BLOCKBYTES msg))
        (drop BLAKE2B_BLOCKBYTES msg) = (C', p)"
      using "1.prems"(1) True by (simp add: update_blocks.simps [of C msg])
    note t = counter_advance [OF _ "1.prems"(2,3), of BLAKE2B_BLOCKBYTES]
    have "b2_h (rx_blake2b_compress ?C (take BLAKE2B_BLOCKBYTES msg))
        = blake_ref_F (b2_h C) (n + 128) False (take 128 msg)"
      using t "1.prems" by (simp add: rx_blake2b_compress_def blake_ref_F_def BLAKE2B_BLOCKBYTES_def)
    then show ?thesis
      using "1.IH" [OF True u, of "n + 128"] t "1.prems" True
      by (simp add: blake_ref.simps [of _ _ msg] BLAKE2B_BLOCKBYTES_def)
  next
    case False
    then have C': "C' = C" "p = msg" using "1.prems"(1) by (simp_all add: update_blocks.simps [of C msg])
    have "length msg < 2 ^ 64" using False by (simp add: BLAKE2B_BLOCKBYTES_def)
    note t = counter_advance [OF this "1.prems"(2,3)]
    show ?thesis
      using False t "1.prems"
      by (simp add: C' final_abs_def Let_def blake_ref.simps [of _ _ msg] blake_ref_F_def
          rx_blake2b_compress_def blake2b_set_lastblock_def BLAKE2B_BLOCKBYTES_def)
  qed
qed

lemma rx_blake2b_eq:
  assumes "0 < n" "n \<le> BLAKE2B_OUTBYTES"
  shows "rx_blake2b n msg = Some (blake2b_reference n msg)"
proof -
  let ?S = "rx_blake2b_init_param n 0"
  note wf = init_wf [OF assms, of 0]
  obtain S1 where S1: "rx_blake2b_update ?S msg = Some S1" "blake_wf S1"
    "update_blocks (core ?S) (pending ?S @ msg) = (core S1, pending S1)"
    using update_refines [OF wf(1), of msg] by (auto elim: succeedsE)
  have "pending ?S = []"
    by (simp add: pending_def rx_blake2b_init_param_def blake2b_init0_def Let_def)
  then have u: "update_blocks (core ?S) msg = (core S1, pending S1)" using S1(3) by simp
  have o: "b2_outlen S1 = n"
    using update_blocks_core [OF u] wf(2) by simp
  have "final_abs (core S1) (pending S1) = blake2b_reference n msg"
    unfolding blake2b_reference_def
    by (subst update_blocks_ref [OF u, of 0])
      (use wf(2) in \<open>simp_all add: core_def rx_blake2b_init_param_def blake2b_init0_def Let_def\<close>)
  then show ?thesis
    using assms S1 o by (simp add: rx_blake2b_def rx_blake2b_init_def final_refines)
qed


lemma length_blake_ref [simp]: "length (blake_ref hs n msg) = 8"
  by (induction hs n msg rule: blake_ref.induct) (simp add: blake_ref.simps blake_ref_F_def)

lemma length_blake2b_reference [simp, length_simps]:
  "n \<le> 64 \<Longrightarrow> length (blake2b_reference n msg) = n"
  by (simp add: blake2b_reference_def)

lemma blake2b_long_loop_length:
  "0 < n \<Longrightarrow> succeeds (blake2b_long_loop n ob out) (\<lambda>res. length res = length out + n)"
proof (induction n ob out rule: blake2b_long_loop.induct)
  case (1 n ob out)
  show ?case
  proof (cases "n > BLAKE2B_OUTBYTES")
    case True
    have "rx_blake2b BLAKE2B_OUTBYTES ob = Some (blake2b_reference BLAKE2B_OUTBYTES ob)"
      by (rule rx_blake2b_eq) (simp_all add: blake2b_consts)
    from "1.IH" [OF True this] this show ?thesis
      using True by (subst blake2b_long_loop.simps) (simp add: blake2b_consts)
  next
    case False
    then have "rx_blake2b n ob = Some (blake2b_reference n ob)"
      using "1.prems" by (intro rx_blake2b_eq) simp_all
    then show ?thesis
      using False by (subst blake2b_long_loop.simps) (simp add: blake2b_consts)
  qed
qed

lemma two_updates_final:
  assumes "0 < n" "n \<le> BLAKE2B_OUTBYTES"
  shows "do { S \<leftarrow> rx_blake2b_init n; S \<leftarrow> rx_blake2b_update S xs; S \<leftarrow> rx_blake2b_update S ys;
              rx_blake2b_final S n } = Some (blake2b_reference n (xs @ ys))"
proof -
  let ?S = "rx_blake2b_init_param n 0"
  note wf = init_wf [OF assms, of 0]
  obtain S1 where S1: "rx_blake2b_update ?S xs = Some S1" "blake_wf S1"
    "update_blocks (core ?S) (pending ?S @ xs) = (core S1, pending S1)"
    using update_refines [OF wf(1), of xs] by (auto elim: succeedsE)
  obtain S2 where S2: "rx_blake2b_update S1 ys = Some S2" "blake_wf S2"
    "update_blocks (core S1) (pending S1 @ ys) = (core S2, pending S2)"
    using update_refines [OF S1(2), of ys] by (auto elim: succeedsE)
  obtain S3 where S3: "rx_blake2b_update ?S (xs @ ys) = Some S3" "blake_wf S3"
    "update_blocks (core ?S) (pending ?S @ xs @ ys) = (core S3, pending S3)"
    using update_refines [OF wf(1), of "xs @ ys"] by (auto elim: succeedsE)
  have eq: "core S3 = core S2" "pending S3 = pending S2"
    using update_blocks_append [OF S1(3), of ys] S2(3) S3(3) by simp_all
  then have "b2_outlen S3 = b2_outlen S2" by (metis core_simps(8))
  then have "rx_blake2b_final S2 n = rx_blake2b_final S3 n"
    using eq S2 S3 by (simp add: final_refines)
  moreover have "rx_blake2b_final S3 n = Some (blake2b_reference n (xs @ ys))"
    using rx_blake2b_eq [OF assms, of "xs @ ys"] assms S3(1)
    by (simp add: rx_blake2b_def rx_blake2b_init_def)
  ultimately show ?thesis
    using assms S1(1) S2(1) by (simp add: rx_blake2b_init_def)
qed

text \<open>
  The variable length hash of Argon2 returns exactly the number of bytes asked for, for
  every length from 1 up to the 32-bit limit, and fails on every other length; up to 64 bytes
  it is Blake2b of the length prefix and the input.
\<close>

theorem rxa2_blake2b_long_correct:
  "case rxa2_blake2b_long n msg of
     None \<Rightarrow> n = 0 \<or> n \<ge> 2 ^ 32
   | Some out \<Rightarrow> 0 < n \<and> n < 2 ^ 32 \<and> length out = n \<and>
       (n > 64 \<or> out = blake2b_reference n (store32 (of_nat n) @ msg))"
proof (cases "n = 0 \<or> n \<ge> 2 ^ 32")
  case True
  then show ?thesis by (auto simp: rxa2_blake2b_long_def rx_blake2b_init_def Let_def)
next
  case False
  show ?thesis
  proof (cases "n \<le> 64")
    case True
    then have "rxa2_blake2b_long n msg = Some (blake2b_reference n (store32 (of_nat n) @ msg))"
      using False two_updates_final [of n "store32 (of_nat n)" msg]
      by (simp add: rxa2_blake2b_long_def Let_def BLAKE2B_OUTBYTES_def)
    then show ?thesis using True False by simp
  next
    case big: False
    let ?ob = "blake2b_reference 64 (store32 (of_nat n) @ msg)"
    have "rxa2_blake2b_long n msg = blake2b_long_loop (n - 32) ?ob (take 32 ?ob)"
      using False big two_updates_final [of 64 "store32 (of_nat n)" msg]
      by (simp add: rxa2_blake2b_long_def Let_def BLAKE2B_OUTBYTES_def flip: bind_assoc)
    moreover have "succeeds (blake2b_long_loop (n - 32) ?ob (take 32 ?ob))
        (\<lambda>res. length res = length (take 32 ?ob) + (n - 32))"
      using big by (intro blake2b_long_loop_length) simp
    ultimately show ?thesis using False big by (auto elim!: succeedsE)
  qed
qed

end
