(* ===== verification/Superscalar.thy ===== *)
theory Superscalar
  imports RxInstr Blake2b
begin

text \<open>
  The pseudo-random byte source of \<^verbatim>\<open>blake2_generator.cpp\<close> and the generator and executor
  of superscalar programs, \<^verbatim>\<open>superscalar.cpp\<close>: the macro-op and decoder tables, the
  selection of instructions and registers, the port scheduler, the generator's nested loops and
  \<open>executeSuperscalar\<close>. The two rejection loops that draw an immediate until it is acceptable
  may in principle never stop, so they are partial functions and \<open>None\<close> means that a loop
  does not return. The floating point statistic \<open>ipc\<close> and the trace output are left out.
\<close>

subsection \<open>The byte source\<close>

definition maxSeedSize :: nat where "maxSeedSize = 60"

record Blake2Generator =
  g_data :: bytes
  g_index :: nat

definition new_generator :: "bytes \<Rightarrow> u32 \<Rightarrow> Blake2Generator" where
  "new_generator seed nonce =
    (let data = overwrite (replicate 64 0) 0 (take maxSeedSize seed)
     in \<lparr> g_data = overwrite data maxSeedSize (store32 nonce), g_index = 64 \<rparr>)"

definition checkData :: "nat \<Rightarrow> Blake2Generator \<Rightarrow> Blake2Generator" where
  "checkData bytesNeeded g =
    (if g_index g + bytesNeeded > length (g_data g)
     then \<lparr> g_data = (case rx_blake2b (length (g_data g)) (g_data g) of Some d \<Rightarrow> d | None \<Rightarrow> g_data g),
            g_index = 0 \<rparr>
     else g)"

definition getByte :: "Blake2Generator \<Rightarrow> u8 \<times> Blake2Generator" where
  "getByte g = (let g = checkData 1 g in (g_data g ! g_index g, g \<lparr> g_index := g_index g + 1 \<rparr>))"

definition getUInt32 :: "Blake2Generator \<Rightarrow> u32 \<times> Blake2Generator" where
  "getUInt32 g =
    (let g = checkData 4 g in (load32 (drop (g_index g) (g_data g)), g \<lparr> g_index := g_index g + 4 \<rparr>))"

subsection \<open>Instruction types and macro-ops\<close>

datatype ss_type = SS_ISUB_R | SS_IXOR_R | SS_IADD_RS | SS_IMUL_R | SS_IROR_C | SS_IADD_C7
  | SS_IXOR_C7 | SS_IADD_C8 | SS_IXOR_C8 | SS_IADD_C9 | SS_IXOR_C9 | SS_IMULH_R | SS_ISMULH_R
  | SS_IMUL_RCP | SS_INVALID

definition ss_types :: "ss_type list" where
  "ss_types = [SS_ISUB_R, SS_IXOR_R, SS_IADD_RS, SS_IMUL_R, SS_IROR_C, SS_IADD_C7, SS_IXOR_C7,
     SS_IADD_C8, SS_IXOR_C8, SS_IADD_C9, SS_IXOR_C9, SS_IMULH_R, SS_ISMULH_R, SS_IMUL_RCP]"

text \<open>The enumeration value as it is stored in the opcode byte, and the cast back.\<close>

fun ss_code :: "ss_type \<Rightarrow> u8" where
  "ss_code SS_ISUB_R = 0" | "ss_code SS_IXOR_R = 1" | "ss_code SS_IADD_RS = 2"
| "ss_code SS_IMUL_R = 3" | "ss_code SS_IROR_C = 4" | "ss_code SS_IADD_C7 = 5"
| "ss_code SS_IXOR_C7 = 6" | "ss_code SS_IADD_C8 = 7" | "ss_code SS_IXOR_C8 = 8"
| "ss_code SS_IADD_C9 = 9" | "ss_code SS_IXOR_C9 = 10" | "ss_code SS_IMULH_R = 11"
| "ss_code SS_ISMULH_R = 12" | "ss_code SS_IMUL_RCP = 13" | "ss_code SS_INVALID = 255"

definition ss_of_code :: "u8 \<Rightarrow> ss_type option" where
  "ss_of_code b = (if unat b < 14 then Some (ss_types ! unat b) else None)"

definition isMultiplication :: "ss_type \<Rightarrow> bool" where
  "isMultiplication t \<longleftrightarrow> t = SS_IMUL_R \<or> t = SS_IMULH_R \<or> t = SS_ISMULH_R \<or> t = SS_IMUL_RCP"

type_synonym port = u8

definition P_Null :: port where "P_Null = 0"
definition P0 :: port where "P0 = 1"
definition P1 :: port where "P1 = 2"
definition P5 :: port where "P5 = 4"
definition P01 :: port where "P01 = P0 OR P1"
definition P05 :: port where "P05 = P0 OR P5"
definition P015 :: port where "P015 = P0 OR P1 OR P5"

lemmas port_defs = P_Null_def P0_def P1_def P5_def P01_def P05_def P015_def

record MacroOp =
  m_size :: nat
  m_latency :: int
  m_uop1 :: port
  m_uop2 :: port
  m_dependent :: bool

definition mop :: "nat \<Rightarrow> int \<Rightarrow> port \<Rightarrow> port \<Rightarrow> MacroOp" where
  "mop sz latency uop1 uop2 =
     \<lparr> m_size = sz, m_latency = latency, m_uop1 = uop1, m_uop2 = uop2, m_dependent = False \<rparr>"

definition isSimple :: "MacroOp \<Rightarrow> bool" where "isSimple m \<longleftrightarrow> m_uop2 m = P_Null"
definition isEliminated :: "MacroOp \<Rightarrow> bool" where "isEliminated m \<longleftrightarrow> m_uop1 m = P_Null"

definition Sub_rr :: MacroOp where "Sub_rr = mop 3 1 P015 P_Null"
definition Xor_rr :: MacroOp where "Xor_rr = mop 3 1 P015 P_Null"
definition Imul_r :: MacroOp where "Imul_r = mop 3 4 P1 P5"
definition Mul_r :: MacroOp where "Mul_r = mop 3 4 P1 P5"
definition Mov_rr :: MacroOp where "Mov_rr = mop 3 0 P_Null P_Null"
definition Lea_sib :: MacroOp where "Lea_sib = mop 4 1 P01 P_Null"
definition Imul_rr :: MacroOp where "Imul_rr = mop 4 3 P1 P_Null"
definition Ror_ri :: MacroOp where "Ror_ri = mop 4 1 P05 P_Null"
definition Add_ri :: MacroOp where "Add_ri = mop 7 1 P015 P_Null"
definition Xor_ri :: MacroOp where "Xor_ri = mop 7 1 P015 P_Null"
definition Mov_ri64 :: MacroOp where "Mov_ri64 = mop 10 1 P015 P_Null"

definition IMULH_R_ops_array :: "MacroOp list" where "IMULH_R_ops_array = [Mov_rr, Mul_r, Mov_rr]"
definition ISMULH_R_ops_array :: "MacroOp list" where "ISMULH_R_ops_array = [Mov_rr, Imul_r, Mov_rr]"
definition IMUL_RCP_ops_array :: "MacroOp list" where
  "IMUL_RCP_ops_array = [Mov_ri64, Imul_rr \<lparr> m_dependent := True \<rparr>]"

lemmas mop_defs = Sub_rr_def Xor_rr_def Imul_r_def Mul_r_def Mov_rr_def Lea_sib_def Imul_rr_def
  Ror_ri_def Add_ri_def Xor_ri_def Mov_ri64_def IMULH_R_ops_array_def ISMULH_R_ops_array_def
  IMUL_RCP_ops_array_def mop_def

record SsInfo =
  si_type :: ss_type
  si_ops :: "MacroOp list"
  si_latency :: int
  si_resultOp :: int
  si_dstOp :: int
  si_srcOp :: int

definition info1 :: "ss_type \<Rightarrow> MacroOp \<Rightarrow> int \<Rightarrow> SsInfo" where
  "info1 t op srcOp = \<lparr> si_type = t, si_ops = [op], si_latency = m_latency op,
     si_resultOp = 0, si_dstOp = 0, si_srcOp = srcOp \<rparr>"

definition infoN :: "ss_type \<Rightarrow> MacroOp list \<Rightarrow> int \<Rightarrow> int \<Rightarrow> int \<Rightarrow> SsInfo" where
  "infoN t ops resultOp dstOp srcOp = \<lparr> si_type = t, si_ops = ops,
     si_latency = sum_list (map m_latency ops),
     si_resultOp = resultOp, si_dstOp = dstOp, si_srcOp = srcOp \<rparr>"

text \<open>The static \<open>SuperscalarInstructionInfo\<close> objects; \<open>SS_INVALID\<close> stands for \<open>NOP\<close>.\<close>

fun ss_info :: "ss_type \<Rightarrow> SsInfo" where
  "ss_info SS_ISUB_R = info1 SS_ISUB_R Sub_rr 0"
| "ss_info SS_IXOR_R = info1 SS_IXOR_R Xor_rr 0"
| "ss_info SS_IADD_RS = info1 SS_IADD_RS Lea_sib 0"
| "ss_info SS_IMUL_R = info1 SS_IMUL_R Imul_rr 0"
| "ss_info SS_IROR_C = info1 SS_IROR_C Ror_ri (- 1)"
| "ss_info SS_IADD_C7 = info1 SS_IADD_C7 Add_ri (- 1)"
| "ss_info SS_IXOR_C7 = info1 SS_IXOR_C7 Xor_ri (- 1)"
| "ss_info SS_IADD_C8 = info1 SS_IADD_C8 Add_ri (- 1)"
| "ss_info SS_IXOR_C8 = info1 SS_IXOR_C8 Xor_ri (- 1)"
| "ss_info SS_IADD_C9 = info1 SS_IADD_C9 Add_ri (- 1)"
| "ss_info SS_IXOR_C9 = info1 SS_IXOR_C9 Xor_ri (- 1)"
| "ss_info SS_IMULH_R = infoN SS_IMULH_R IMULH_R_ops_array 1 0 1"
| "ss_info SS_ISMULH_R = infoN SS_ISMULH_R ISMULH_R_ops_array 1 0 1"
| "ss_info SS_IMUL_RCP = infoN SS_IMUL_RCP IMUL_RCP_ops_array 1 1 (- 1)"
| "ss_info SS_INVALID = \<lparr> si_type = SS_INVALID, si_ops = [], si_latency = 0, si_resultOp = 0,
     si_dstOp = 0, si_srcOp = 0 \<rparr>"

subsection \<open>Decoder buffers\<close>

record DecoderBuffer =
  db_index :: int
  db_counts :: "nat list"

definition decodeBuffer484 :: DecoderBuffer where "decodeBuffer484 = \<lparr> db_index = 0, db_counts = [4, 8, 4] \<rparr>"
definition decodeBuffer7333 :: DecoderBuffer where "decodeBuffer7333 = \<lparr> db_index = 1, db_counts = [7, 3, 3, 3] \<rparr>"
definition decodeBuffer3733 :: DecoderBuffer where "decodeBuffer3733 = \<lparr> db_index = 2, db_counts = [3, 7, 3, 3] \<rparr>"
definition decodeBuffer493 :: DecoderBuffer where "decodeBuffer493 = \<lparr> db_index = 3, db_counts = [4, 9, 3] \<rparr>"
definition decodeBuffer4444 :: DecoderBuffer where "decodeBuffer4444 = \<lparr> db_index = 4, db_counts = [4, 4, 4, 4] \<rparr>"
definition decodeBuffer3310 :: DecoderBuffer where "decodeBuffer3310 = \<lparr> db_index = 5, db_counts = [3, 3, 10] \<rparr>"

definition decodeBuffers :: "DecoderBuffer list" where
  "decodeBuffers = [decodeBuffer484, decodeBuffer7333, decodeBuffer3733, decodeBuffer493]"

lemmas buffer_defs = decodeBuffer484_def decodeBuffer7333_def decodeBuffer3733_def
  decodeBuffer493_def decodeBuffer4444_def decodeBuffer3310_def decodeBuffers_def

definition fetchNextDefault :: "Blake2Generator \<Rightarrow> DecoderBuffer \<times> Blake2Generator" where
  "fetchNextDefault gen = (let (b, gen) = getByte gen in (decodeBuffers ! unat (b AND 3), gen))"

definition fetchNext :: "ss_type \<Rightarrow> int \<Rightarrow> int \<Rightarrow> Blake2Generator \<Rightarrow> DecoderBuffer \<times> Blake2Generator" where
  "fetchNext instrType cycle mulCount gen =
    (if instrType = SS_IMULH_R \<or> instrType = SS_ISMULH_R then (decodeBuffer3310, gen)
     else if mulCount < cycle + 1 then (decodeBuffer4444, gen)
     else if instrType = SS_IMUL_RCP
     then (let (b, gen) = getByte gen in (if b AND 1 \<noteq> 0 then decodeBuffer484 else decodeBuffer493, gen))
     else fetchNextDefault gen)"

subsection \<open>Register selection\<close>

definition selectRegister :: "nat list \<Rightarrow> Blake2Generator \<Rightarrow> (nat \<times> Blake2Generator) option" where
  "selectRegister availableRegisters gen =
    (if length availableRegisters = 0 then None
     else if length availableRegisters > 1
     then (let (x, gen) = getUInt32 gen
           in Some (availableRegisters ! (unat x mod length availableRegisters), gen))
     else Some (availableRegisters ! 0, gen))"

record RegisterInfo =
  ri_latency :: int
  ri_lastOpGroup :: ss_type
  ri_lastOpPar :: int

definition new_RegisterInfo :: RegisterInfo where
  "new_RegisterInfo = \<lparr> ri_latency = 0, ri_lastOpGroup = SS_INVALID, ri_lastOpPar = - 1 \<rparr>"

record SsInstr =
  sc_info :: SsInfo
  sc_src :: int
  sc_dst :: int
  sc_mod :: int
  sc_imm32 :: u32
  sc_opGroup :: ss_type
  sc_opGroupPar :: int
  sc_canReuse :: bool
  sc_groupParIsSource :: bool

definition SsInstr_Null :: SsInstr where
  "SsInstr_Null = \<lparr> sc_info = ss_info SS_INVALID, sc_src = - 1, sc_dst = - 1, sc_mod = 0, sc_imm32 = 0,
     sc_opGroup = SS_INVALID, sc_opGroupPar = 0, sc_canReuse = False, sc_groupParIsSource = False \<rparr>"

abbreviation sc_type :: "SsInstr \<Rightarrow> ss_type" where "sc_type c \<equiv> si_type (sc_info c)"

definition sc_ops :: "SsInstr \<Rightarrow> nat" where "sc_ops c = length (si_ops (sc_info c))"

definition toInstr :: "SsInstr \<Rightarrow> instruction" where
  "toInstr c = \<lparr> i_opcode = ss_code (sc_type c), i_dst = word_of_int (sc_dst c),
     i_src = word_of_int (if sc_src c \<ge> 0 then sc_src c else sc_dst c),
     i_mod = word_of_int (sc_mod c), i_imm32 = sc_imm32 c \<rparr>"

definition sc_reset :: "SsInstr \<Rightarrow> SsInstr" where
  "sc_reset c = c \<lparr> sc_src := - 1, sc_dst := - 1, sc_canReuse := False, sc_groupParIsSource := False \<rparr>"

definition dst_allowed :: "SsInstr \<Rightarrow> int \<Rightarrow> bool \<Rightarrow> RegisterInfo list \<Rightarrow> nat \<Rightarrow> bool" where
  "dst_allowed c cycle allowChainedMul registers i \<longleftrightarrow>
     ri_latency (registers ! i) \<le> cycle
   \<and> (sc_canReuse c \<or> int i \<noteq> sc_src c)
   \<and> (allowChainedMul \<or> sc_opGroup c \<noteq> SS_IMUL_R \<or> ri_lastOpGroup (registers ! i) \<noteq> SS_IMUL_R)
   \<and> (ri_lastOpGroup (registers ! i) \<noteq> sc_opGroup c \<or> ri_lastOpPar (registers ! i) \<noteq> sc_opGroupPar c)
   \<and> (sc_type c \<noteq> SS_IADD_RS \<or> i \<noteq> RegisterNeedsDisplacement)"

definition selectDestination ::
  "SsInstr \<Rightarrow> int \<Rightarrow> bool \<Rightarrow> RegisterInfo list \<Rightarrow> Blake2Generator \<Rightarrow> (SsInstr \<times> Blake2Generator) option" where
  "selectDestination c cycle allowChainedMul registers gen =
     map_option (\<lambda>(r, gen). (c \<lparr> sc_dst := int r \<rparr>, gen))
       (selectRegister (filter (dst_allowed c cycle allowChainedMul registers) [0..<8]) gen)"

definition selectSource ::
  "SsInstr \<Rightarrow> int \<Rightarrow> RegisterInfo list \<Rightarrow> Blake2Generator \<Rightarrow> (SsInstr \<times> Blake2Generator) option" where
  "selectSource c cycle registers gen =
    (let av = filter (\<lambda>i. ri_latency (registers ! i) \<le> cycle) [0..<8]
     in if length av = 2 \<and> sc_type c = SS_IADD_RS
           \<and> (av ! 0 = RegisterNeedsDisplacement \<or> av ! 1 = RegisterNeedsDisplacement)
        then Some (c \<lparr> sc_src := int RegisterNeedsDisplacement,
                       sc_opGroupPar := int RegisterNeedsDisplacement \<rparr>, gen)
        else map_option (\<lambda>(r, gen).
               (let c = c \<lparr> sc_src := int r \<rparr>
                in if sc_groupParIsSource c then c \<lparr> sc_opGroupPar := int r \<rparr> else c, gen))
             (selectRegister av gen))"

subsection \<open>Instruction creation\<close>

partial_function (option) draw_rotation :: "Blake2Generator \<Rightarrow> (u32 \<times> Blake2Generator) option" where
  "draw_rotation gen =
    (if ucast (fst (getByte gen)) AND (63 :: u32) = 0 then draw_rotation (snd (getByte gen))
     else Some (ucast (fst (getByte gen)) AND 63, snd (getByte gen)))"

partial_function (option) draw_divisor :: "Blake2Generator \<Rightarrow> (u32 \<times> Blake2Generator) option" where
  "draw_divisor gen =
    (if isZeroOrPowerOf2 (ucast (fst (getUInt32 gen))) then draw_divisor (snd (getUInt32 gen))
     else Some (getUInt32 gen))"

definition create :: "ss_type \<Rightarrow> SsInstr \<Rightarrow> Blake2Generator \<Rightarrow> (SsInstr \<times> Blake2Generator) option" where
  "create t c gen =
    (let c = sc_reset (c \<lparr> sc_info := ss_info t \<rparr>) in
     case t of
       SS_ISUB_R \<Rightarrow> Some (c \<lparr> sc_mod := 0, sc_imm32 := 0, sc_opGroup := SS_IADD_RS, sc_groupParIsSource := True \<rparr>, gen)
     | SS_IXOR_R \<Rightarrow> Some (c \<lparr> sc_mod := 0, sc_imm32 := 0, sc_opGroup := SS_IXOR_R, sc_groupParIsSource := True \<rparr>, gen)
     | SS_IADD_RS \<Rightarrow>
         (let (b, gen) = getByte gen
          in Some (c \<lparr> sc_mod := uint b, sc_imm32 := 0, sc_opGroup := SS_IADD_RS, sc_groupParIsSource := True \<rparr>, gen))
     | SS_IMUL_R \<Rightarrow> Some (c \<lparr> sc_mod := 0, sc_imm32 := 0, sc_opGroup := SS_IMUL_R, sc_groupParIsSource := True \<rparr>, gen)
     | SS_IROR_C \<Rightarrow>
         do { (im, gen) \<leftarrow> draw_rotation gen;
              Some (c \<lparr> sc_mod := 0, sc_imm32 := im, sc_opGroup := SS_IROR_C, sc_opGroupPar := - 1 \<rparr>, gen) }
     | SS_IMULH_R \<Rightarrow>
         (let (x, gen) = getUInt32 gen
          in Some (c \<lparr> sc_canReuse := True, sc_mod := 0, sc_imm32 := 0, sc_opGroup := SS_IMULH_R, sc_opGroupPar := sint x \<rparr>, gen))
     | SS_ISMULH_R \<Rightarrow>
         (let (x, gen) = getUInt32 gen
          in Some (c \<lparr> sc_canReuse := True, sc_mod := 0, sc_imm32 := 0, sc_opGroup := SS_ISMULH_R, sc_opGroupPar := sint x \<rparr>, gen))
     | SS_IMUL_RCP \<Rightarrow>
         do { (im, gen) \<leftarrow> draw_divisor gen;
              Some (c \<lparr> sc_mod := 0, sc_imm32 := im, sc_opGroup := SS_IMUL_RCP, sc_opGroupPar := - 1 \<rparr>, gen) }
     | SS_INVALID \<Rightarrow> Some (c, gen)
     | _ \<Rightarrow>
         (let (x, gen) = getUInt32 gen;
              grp = (if t \<in> {SS_IADD_C7, SS_IADD_C8, SS_IADD_C9} then SS_IADD_C7 else SS_IXOR_C7)
          in Some (c \<lparr> sc_mod := 0, sc_imm32 := x, sc_opGroup := grp, sc_opGroupPar := - 1 \<rparr>, gen)))"

definition slot_3 :: "ss_type list" where "slot_3 = [SS_ISUB_R, SS_IXOR_R]"
definition slot_3L :: "ss_type list" where "slot_3L = [SS_ISUB_R, SS_IXOR_R, SS_IMULH_R, SS_ISMULH_R]"
definition slot_4 :: "ss_type list" where "slot_4 = [SS_IROR_C, SS_IADD_RS]"
definition slot_7 :: "ss_type list" where "slot_7 = [SS_IXOR_C7, SS_IADD_C7]"
definition slot_8 :: "ss_type list" where "slot_8 = [SS_IXOR_C8, SS_IADD_C8]"
definition slot_9 :: "ss_type list" where "slot_9 = [SS_IXOR_C9, SS_IADD_C9]"
definition slot_10 :: ss_type where "slot_10 = SS_IMUL_RCP"

lemmas slot_defs = slot_3_def slot_3L_def slot_4_def slot_7_def slot_8_def slot_9_def slot_10_def

text \<open>
  Which instruction goes into a slot; a slot of another size is \<^verbatim>\<open>UNREACHABLE\<close>. The choice
  consumes a byte where the table has more than one entry.
\<close>

definition slot_type ::
  "nat \<Rightarrow> int \<Rightarrow> bool \<Rightarrow> Blake2Generator \<Rightarrow> (ss_type \<times> Blake2Generator) option" where
  "slot_type slotSize fetchType isLast gen =
    (let (b, gen') = getByte gen in
     if slotSize = 3 then
       (if isLast then Some (slot_3L ! unat (b AND 3), gen') else Some (slot_3 ! unat (b AND 1), gen'))
     else if slotSize = 4 then
       (if fetchType = 4 \<and> \<not> isLast then Some (SS_IMUL_R, gen) else Some (slot_4 ! unat (b AND 1), gen'))
     else if slotSize = 7 then Some (slot_7 ! unat (b AND 1), gen')
     else if slotSize = 8 then Some (slot_8 ! unat (b AND 1), gen')
     else if slotSize = 9 then Some (slot_9 ! unat (b AND 1), gen')
     else if slotSize = 10 then Some (slot_10, gen)
     else None)"

definition createForSlot ::
  "SsInstr \<Rightarrow> Blake2Generator \<Rightarrow> nat \<Rightarrow> int \<Rightarrow> bool \<Rightarrow> (SsInstr \<times> Blake2Generator) option" where
  "createForSlot c gen slotSize fetchType isLast =
     do { (t, gen) \<leftarrow> slot_type slotSize fetchType isLast gen; create t c gen }"

subsection \<open>The port scheduler\<close>

definition CYCLE_MAP_SIZE :: nat where "CYCLE_MAP_SIZE = RANDOMX_SUPERSCALAR_MAX_LATENCY + 4"
definition LOOK_FORWARD_CYCLES :: nat where "LOOK_FORWARD_CYCLES = 4"
definition MAX_THROWAWAY_COUNT :: nat where "MAX_THROWAWAY_COUNT = 256"

text \<open>\<open>portBusy[cycle][k]\<close>: the micro-op on port P0, P1 or P5 (\<open>k\<close> = 0, 1, 2), or 0.\<close>

type_synonym port_map = "port list list"

definition occupy :: "bool \<Rightarrow> port_map \<Rightarrow> int \<Rightarrow> nat \<Rightarrow> port \<Rightarrow> port_map" where
  "occupy commit busy cycle k uop =
     (if commit then busy[nat cycle := (busy ! nat cycle)[k := uop]] else busy)"

function scheduleUop :: "rx_config \<Rightarrow> bool \<Rightarrow> port \<Rightarrow> port_map \<Rightarrow> int \<Rightarrow> int \<times> port_map" where
  "scheduleUop cfg commit uop busy cycle =
    (if cycle < int (SuperscalarLatency cfg) + 4
     then if uop AND P5 \<noteq> 0 \<and> busy ! nat cycle ! 2 = 0 then (cycle, occupy commit busy cycle 2 uop)
          else if uop AND P0 \<noteq> 0 \<and> busy ! nat cycle ! 0 = 0 then (cycle, occupy commit busy cycle 0 uop)
          else if uop AND P1 \<noteq> 0 \<and> busy ! nat cycle ! 1 = 0 then (cycle, occupy commit busy cycle 1 uop)
          else scheduleUop cfg commit uop busy (cycle + 1)
     else (- 1, busy))"
  by pat_completeness auto
termination
  by (relation "measure (\<lambda>(cfg, commit, uop, busy, cycle). nat (int (SuperscalarLatency cfg) + 4 - cycle))") auto

declare scheduleUop.simps [simp del]

text \<open>Two micro-ops are placed in the first cycle in which each of them could start.\<close>

function schedule_pair :: "rx_config \<Rightarrow> bool \<Rightarrow> MacroOp \<Rightarrow> port_map \<Rightarrow> int \<Rightarrow> int \<times> port_map" where
  "schedule_pair cfg commit m busy cycle =
    (if cycle < int (SuperscalarLatency cfg) + 4
     then let cycle1 = fst (scheduleUop cfg False (m_uop1 m) busy cycle);
              cycle2 = fst (scheduleUop cfg False (m_uop2 m) busy cycle)
          in if cycle1 \<ge> 0 \<and> cycle1 = cycle2
             then (cycle1,
                   if commit
                   then snd (scheduleUop cfg True (m_uop2 m)
                          (snd (scheduleUop cfg True (m_uop1 m) busy cycle1)) cycle2)
                   else busy)
             else schedule_pair cfg commit m busy (cycle + 1)
     else (- 1, busy))"
  by pat_completeness auto
termination
  by (relation "measure (\<lambda>(cfg, commit, m, busy, cycle). nat (int (SuperscalarLatency cfg) + 4 - cycle))") auto

declare schedule_pair.simps [simp del]

definition scheduleMop :: "rx_config \<Rightarrow> bool \<Rightarrow> MacroOp \<Rightarrow> port_map \<Rightarrow> int \<Rightarrow> int \<Rightarrow> int \<times> port_map" where
  "scheduleMop cfg commit m busy cycle depCycle =
    (let cycle = (if m_dependent m then if cycle > depCycle then cycle else depCycle else cycle)
     in if isEliminated m then (cycle, busy)
        else if isSimple m then scheduleUop cfg commit (m_uop1 m) busy cycle
        else schedule_pair cfg commit m busy cycle)"

subsection \<open>The generator\<close>

record ss_state =
  x_portBusy :: port_map
  x_registers :: "RegisterInfo list"
  x_cur :: SsInstr
  x_macroOpIndex :: nat
  x_codeSize :: nat
  x_macroOpCount :: nat
  x_cycle :: int
  x_depCycle :: int
  x_retireCycle :: int
  x_portsSaturated :: bool
  x_prog :: "instruction list"
  x_mulCount :: nat
  x_throwAwayCount :: nat
  x_gen :: Blake2Generator

text \<open>The program size is the length of \<open>x_prog\<close>; its limit:\<close>

definition ss_limit :: "rx_config \<Rightarrow> nat" where
  "ss_limit cfg = 3 * SuperscalarLatency cfg + 2"

text \<open>
  One turn of the slot loop ends in one of three ways: a macro-op was issued, the current
  instruction was thrown away (\<^verbatim>\<open>continue\<close>), or the buffer is left (\<^verbatim>\<open>break\<close>).
\<close>

datatype 'a slot_result = Issued 'a | Thrown 'a | Stopped 'a

definition give_up :: "ss_state \<Rightarrow> ss_state slot_result" where
  "give_up st =
    (if x_throwAwayCount st < MAX_THROWAWAY_COUNT
     then Thrown (st \<lparr> x_throwAwayCount := x_throwAwayCount st + 1, x_macroOpIndex := sc_ops (x_cur st) \<rparr>)
     else Stopped (st \<lparr> x_cur := SsInstr_Null \<rparr>))"

text \<open>Look for a register now or in one of the next cycles.\<close>

fun source_loop :: "nat \<Rightarrow> ss_state \<Rightarrow> int \<Rightarrow> bool \<times> ss_state \<times> int" where
  "source_loop 0 st sc = (False, st, sc)"
| "source_loop (Suc n) st sc =
    (case selectSource (x_cur st) sc (x_registers st) (x_gen st) of
       Some (c, gen) \<Rightarrow> (True, st \<lparr> x_cur := c, x_gen := gen \<rparr>, sc)
     | None \<Rightarrow> source_loop n (st \<lparr> x_cycle := x_cycle st + 1 \<rparr>) (sc + 1))"

fun dest_loop :: "nat \<Rightarrow> ss_state \<Rightarrow> int \<Rightarrow> bool \<times> ss_state \<times> int" where
  "dest_loop 0 st sc = (False, st, sc)"
| "dest_loop (Suc n) st sc =
    (case selectDestination (x_cur st) sc (x_throwAwayCount st > 0) (x_registers st) (x_gen st) of
       Some (c, gen) \<Rightarrow> (True, st \<lparr> x_cur := c, x_gen := gen \<rparr>, sc)
     | None \<Rightarrow> dest_loop n (st \<lparr> x_cycle := x_cycle st + 1 \<rparr>) (sc + 1))"

text \<open>The macro-op has its operands: reserve the ports and record the result.\<close>

definition retire :: "rx_config \<Rightarrow> int \<Rightarrow> MacroOp \<Rightarrow> ss_state \<Rightarrow> int \<Rightarrow> ss_state slot_result" where
  "retire cfg topCycle m st sc =
    (let st = st \<lparr> x_throwAwayCount := 0 \<rparr>;
         (sc, busy) = scheduleMop cfg True m (x_portBusy st) sc sc;
         st = st \<lparr> x_portBusy := busy \<rparr>
     in if sc < 0 then Stopped (st \<lparr> x_portsSaturated := True \<rparr>)
        else
          let st = st \<lparr> x_depCycle := sc + m_latency m \<rparr>;
              c = x_cur st;
              st = (if int (x_macroOpIndex st) = si_resultOp (sc_info c)
                    then st \<lparr> x_retireCycle := x_depCycle st,
                              x_registers := (x_registers st)[nat (sc_dst c) :=
                                \<lparr> ri_latency = x_depCycle st, ri_lastOpGroup = sc_opGroup c,
                                  ri_lastOpPar = sc_opGroupPar c \<rparr>] \<rparr>
                    else st);
              st = st \<lparr> x_codeSize := x_codeSize st + m_size m,
                        x_macroOpIndex := x_macroOpIndex st + 1,
                        x_macroOpCount := x_macroOpCount st + 1 \<rparr>;
              st = (if sc \<ge> int (SuperscalarLatency cfg) then st \<lparr> x_portsSaturated := True \<rparr> else st);
              st = st \<lparr> x_cycle := topCycle \<rparr>;
              st = (if x_macroOpIndex st \<ge> sc_ops c
                    then st \<lparr> x_prog := x_prog st @ [toInstr c],
                              x_mulCount := x_mulCount st + (if isMultiplication (sc_type c) then 1 else 0) \<rparr>
                    else st)
          in Issued st)"

definition issue :: "rx_config \<Rightarrow> int \<Rightarrow> ss_state \<Rightarrow> ss_state slot_result" where
  "issue cfg topCycle st =
    (let m = si_ops (sc_info (x_cur st)) ! x_macroOpIndex st;
         sc = fst (scheduleMop cfg False m (x_portBusy st) (x_cycle st) (x_depCycle st))
     in if sc < 0 then Stopped (st \<lparr> x_portsSaturated := True \<rparr>)
        else
          let (src_ok, st, sc) =
                (if int (x_macroOpIndex st) = si_srcOp (sc_info (x_cur st))
                 then source_loop LOOK_FORWARD_CYCLES st sc else (True, st, sc))
          in if \<not> src_ok then give_up st
             else
               let (dst_ok, st, sc) =
                     (if int (x_macroOpIndex st) = si_dstOp (sc_info (x_cur st))
                      then dest_loop LOOK_FORWARD_CYCLES st sc else (True, st, sc))
               in if \<not> dst_ok then give_up st else retire cfg topCycle m st sc)"

definition slot_step :: "rx_config \<Rightarrow> DecoderBuffer \<Rightarrow> nat \<Rightarrow> ss_state \<Rightarrow> ss_state slot_result option" where
  "slot_step cfg b bufferIndex st =
    (if x_macroOpIndex st \<ge> sc_ops (x_cur st)
     then if x_portsSaturated st \<or> length (x_prog st) \<ge> ss_limit cfg then Some (Stopped st)
          else do { (c, gen) \<leftarrow> createForSlot (x_cur st) (x_gen st) (db_counts b ! bufferIndex) (db_index b)
                                  (length (db_counts b) = bufferIndex + 1);
                    Some (issue cfg (x_cycle st) (st \<lparr> x_cur := c, x_gen := gen, x_macroOpIndex := 0 \<rparr>)) }
     else Some (issue cfg (x_cycle st) st))"

text \<open>Throwing away counts up to \<open>MAX_THROWAWAY_COUNT\<close>, which bounds the slot loop.\<close>

lemma source_loop_count: "source_loop n st sc = (ok, st', sc') \<Longrightarrow> x_throwAwayCount st' = x_throwAwayCount st"
  by (induction n st sc rule: source_loop.induct) (auto split: option.splits prod.splits)

lemma dest_loop_count: "dest_loop n st sc = (ok, st', sc') \<Longrightarrow> x_throwAwayCount st' = x_throwAwayCount st"
  by (induction n st sc rule: dest_loop.induct) (auto split: option.splits prod.splits)

lemma retire_not_Thrown: "retire cfg t m st sc \<noteq> Thrown st'"
  by (simp add: retire_def Let_def split: prod.splits)

lemma give_up_Thrown:
  "give_up st = Thrown st' \<Longrightarrow> x_throwAwayCount st < 256 \<and> x_throwAwayCount st' = Suc (x_throwAwayCount st)"
  by (auto simp: give_up_def MAX_THROWAWAY_COUNT_def split: if_splits)

lemma issue_Thrown:
  assumes "issue cfg t st = Thrown st'"
  shows "x_throwAwayCount st < 256 \<and> x_throwAwayCount st' = Suc (x_throwAwayCount st)"
  using assms
  by (auto simp: issue_def Let_def retire_not_Thrown split: if_splits prod.splits
      dest!: give_up_Thrown source_loop_count dest_loop_count)

lemma slot_step_Thrown:
  assumes "slot_step cfg b i st = Some (Thrown st')"
  shows "x_throwAwayCount st < 256 \<and> x_throwAwayCount st' = Suc (x_throwAwayCount st)"
  using assms by (auto simp: slot_step_def split: if_splits bind_splits dest!: issue_Thrown)

function slot_loop :: "rx_config \<Rightarrow> DecoderBuffer \<Rightarrow> nat \<Rightarrow> ss_state \<Rightarrow> ss_state option" where
  "slot_loop cfg b bufferIndex st =
    (if bufferIndex < length (db_counts b)
     then case slot_step cfg b bufferIndex st of
            None \<Rightarrow> None
          | Some (Issued st') \<Rightarrow> slot_loop cfg b (bufferIndex + 1) st'
          | Some (Thrown st') \<Rightarrow> slot_loop cfg b bufferIndex st'
          | Some (Stopped st') \<Rightarrow> Some st'
     else Some st)"
  by pat_completeness auto
termination
  by (relation "measures [\<lambda>(cfg, b, i, st). length (db_counts b) - i,
                          \<lambda>(cfg, b, i, st). 256 - x_throwAwayCount st]")
    (auto dest: slot_step_Thrown)

declare slot_loop.simps [simp del]

text \<open>The loop over the decode cycles.\<close>

function decode_loop :: "rx_config \<Rightarrow> nat \<Rightarrow> ss_state \<Rightarrow> (nat \<times> ss_state) option" where
  "decode_loop cfg decodeCycle st =
    (if decodeCycle < SuperscalarLatency cfg \<and> \<not> x_portsSaturated st \<and> length (x_prog st) < ss_limit cfg
     then case slot_loop cfg
                 (fst (fetchNext (sc_type (x_cur st)) (int decodeCycle) (int (x_mulCount st)) (x_gen st))) 0
                 (st \<lparr> x_gen := snd (fetchNext (sc_type (x_cur st)) (int decodeCycle) (int (x_mulCount st)) (x_gen st)) \<rparr>) of
            None \<Rightarrow> None
          | Some st' \<Rightarrow> decode_loop cfg (decodeCycle + 1) (st' \<lparr> x_cycle := x_cycle st' + 1 \<rparr>)
     else Some (decodeCycle, st))"
  by pat_completeness auto
termination
  by (relation "measure (\<lambda>(cfg, d, st). SuperscalarLatency cfg - d)") auto

declare decode_loop.simps [simp del]

record SuperscalarProgram =
  programBuffer :: "instruction list"
  addrReg :: nat
  sp_codeSize :: nat
  macroOps :: nat
  decodeCycles :: nat
  cpuLatency :: int
  asicLatency :: int
  sp_mulCount :: nat
  cpuLatencies :: "int list"
  asicLatencies :: "int list"

definition ss_initial :: "Blake2Generator \<Rightarrow> ss_state" where
  "ss_initial gen =
    \<lparr> x_portBusy = replicate CYCLE_MAP_SIZE [P_Null, P_Null, P_Null],
      x_registers = replicate 8 new_RegisterInfo, x_cur = SsInstr_Null, x_macroOpIndex = 0,
      x_codeSize = 0, x_macroOpCount = 0, x_cycle = 0, x_depCycle = 0, x_retireCycle = 0,
      x_portsSaturated = False, x_prog = [], x_mulCount = 0, x_throwAwayCount = 0, x_gen = gen \<rparr>"

text \<open>The latency on an idealised machine: one cycle per operation, unlimited parallelism.\<close>

definition asic_step :: "instruction \<Rightarrow> int list \<Rightarrow> int list" where
  "asic_step instr lat =
    (let d = unat (i_dst instr); s = unat (i_src instr);
         latDst = lat ! d + 1; latSrc = (if d \<noteq> s then lat ! s + 1 else 0)
     in lat[d := if latDst > latSrc then latDst else latSrc])"

definition asic_latencies :: "instruction list \<Rightarrow> int list" where
  "asic_latencies prog = fold asic_step prog (replicate 8 0)"

definition max_latency :: "int list \<Rightarrow> int \<times> nat" where
  "max_latency lat = fold (\<lambda>i (m, r). if lat ! i > m then (lat ! i, i) else (m, r)) [0..<8] (0, 0)"

definition generateSuperscalar ::
  "rx_config \<Rightarrow> Blake2Generator \<Rightarrow> (SuperscalarProgram \<times> Blake2Generator) option" where
  "generateSuperscalar cfg gen =
    (case decode_loop cfg 0 (ss_initial gen) of
       None \<Rightarrow> None
     | Some (decodeCycle, st) \<Rightarrow>
         (let lat = asic_latencies (x_prog st); (asicMax, addressReg) = max_latency lat
          in Some (\<lparr> programBuffer = x_prog st, addrReg = addressReg, sp_codeSize = x_codeSize st,
                     macroOps = x_macroOpCount st, decodeCycles = decodeCycle,
                     cpuLatency = x_retireCycle st, asicLatency = asicMax,
                     sp_mulCount = x_mulCount st, cpuLatencies = map ri_latency (x_registers st),
                     asicLatencies = lat \<rparr>, x_gen st)))"

subsection \<open>Execution\<close>

text \<open>One instruction on the eight registers; \<open>None\<close> is a register out of range or an opcode
  without a case.\<close>

definition ss_exec :: "instruction \<Rightarrow> u64 list \<Rightarrow> u64 list option" where
  "ss_exec instr r =
    do { t \<leftarrow> ss_of_code (i_opcode instr);
         d \<leftarrow> rd r (unat (i_dst instr));
         s \<leftarrow> rd r (unat (i_src instr));
         let im = i_imm32 instr;
         let res = (case t of
             SS_ISUB_R \<Rightarrow> d - s
           | SS_IXOR_R \<Rightarrow> d XOR s
           | SS_IADD_RS \<Rightarrow> d + push_bit (getModShift instr) s
           | SS_IMUL_R \<Rightarrow> d * s
           | SS_IROR_C \<Rightarrow> rotr64 d im
           | SS_IADD_C7 \<Rightarrow> d + signExtend2sCompl im
           | SS_IADD_C8 \<Rightarrow> d + signExtend2sCompl im
           | SS_IADD_C9 \<Rightarrow> d + signExtend2sCompl im
           | SS_IXOR_C7 \<Rightarrow> d XOR signExtend2sCompl im
           | SS_IXOR_C8 \<Rightarrow> d XOR signExtend2sCompl im
           | SS_IXOR_C9 \<Rightarrow> d XOR signExtend2sCompl im
           | SS_IMULH_R \<Rightarrow> mulh d s
           | SS_ISMULH_R \<Rightarrow> smulh d s
           | SS_IMUL_RCP \<Rightarrow> d * randomx_reciprocal (ucast im)
           | SS_INVALID \<Rightarrow> d);
         wr r (unat (i_dst instr)) res }"

fun ss_exec_list :: "instruction list \<Rightarrow> u64 list \<Rightarrow> u64 list option" where
  "ss_exec_list [] r = Some r"
| "ss_exec_list (i # is) r = do { r \<leftarrow> ss_exec i r; ss_exec_list is r }"

definition executeSuperscalar :: "u64 list \<Rightarrow> SuperscalarProgram \<Rightarrow> u64 list option" where
  "executeSuperscalar r prog = ss_exec_list (programBuffer prog) r"

end
