(* ===== verification/SuperscalarProps.thy ===== *)
theory SuperscalarProps
  imports Superscalar
begin

text \<open>
  What every generated superscalar program satisfies: its size fits the static buffer, its
  registers exist, no instruction is one of those the generator must avoid, and its execution
  is defined. The invariant of the generator's loops follows the instruction under
  construction from its creation until it is added to the program.
\<close>

subsection \<open>Acceptable instructions\<close>

definition ss_instr_ok :: "instruction \<Rightarrow> bool" where
  "ss_instr_ok i \<longleftrightarrow>
    (case ss_of_code (i_opcode i) of
       None \<Rightarrow> False
     | Some t \<Rightarrow>
         unat (i_dst i) < 8 \<and> unat (i_src i) < 8
       \<and> (t = SS_IADD_RS \<longrightarrow> unat (i_dst i) \<noteq> RegisterNeedsDisplacement)
       \<and> (t \<in> {SS_ISUB_R, SS_IXOR_R, SS_IADD_RS, SS_IMUL_R} \<longrightarrow> i_src i \<noteq> i_dst i)
       \<and> (t = SS_IROR_C \<longrightarrow> i_imm32 i \<noteq> 0 \<and> unat (i_imm32 i) < 64)
       \<and> (t = SS_IMUL_RCP \<longrightarrow> \<not> isZeroOrPowerOf2 (ucast (i_imm32 i))))"

definition ss_is_mul :: "instruction \<Rightarrow> bool" where
  "ss_is_mul i \<longleftrightarrow> (case ss_of_code (i_opcode i) of None \<Rightarrow> False | Some t \<Rightarrow> isMultiplication t)"

lemma ss_of_code_ss_code [simp]: "t \<noteq> SS_INVALID \<Longrightarrow> ss_of_code (ss_code t) = Some t"
  by (cases t) (simp_all add: ss_of_code_def ss_types_def)

lemma si_type_ss_info [simp]: "si_type (ss_info t) = t"
  by (cases t) (simp_all add: info1_def infoN_def)

subsection \<open>The instruction under construction\<close>

definition cur_base :: "SsInstr \<Rightarrow> bool" where
  "cur_base c \<longleftrightarrow>
     sc_type c \<noteq> SS_INVALID \<and> sc_info c = ss_info (sc_type c)
   \<and> - 1 \<le> sc_src c \<and> sc_src c < 8
   \<and> sc_canReuse c = (sc_type c \<in> {SS_IMULH_R, SS_ISMULH_R})
   \<and> (si_srcOp (sc_info c) = - 1 \<longrightarrow> sc_src c = - 1)
   \<and> (sc_type c = SS_IROR_C \<longrightarrow> sc_imm32 c \<noteq> 0 \<and> unat (sc_imm32 c) < 64)
   \<and> (sc_type c = SS_IMUL_RCP \<longrightarrow> \<not> isZeroOrPowerOf2 (ucast (sc_imm32 c)))"

text \<open>The operands that must have been chosen once the first \<open>n\<close> macro-ops are issued.\<close>

definition src_chosen :: "SsInstr \<Rightarrow> nat \<Rightarrow> bool" where
  "src_chosen c n \<longleftrightarrow> (0 \<le> si_srcOp (sc_info c) \<and> si_srcOp (sc_info c) < int n \<longrightarrow> 0 \<le> sc_src c)"

definition dst_chosen :: "SsInstr \<Rightarrow> nat \<Rightarrow> bool" where
  "dst_chosen c n \<longleftrightarrow> (si_dstOp (sc_info c) < int n \<longrightarrow>
     0 \<le> sc_dst c \<and> sc_dst c < 8 \<and> (sc_type c = SS_IADD_RS \<longrightarrow> sc_dst c \<noteq> int RegisterNeedsDisplacement)
   \<and> (sc_canReuse c \<or> sc_dst c \<noteq> sc_src c))"

lemma word8_of_small: "0 \<le> x \<Longrightarrow> x < 8 \<Longrightarrow> unat (word_of_int x :: u8) = nat x"
  by (simp add: unat_eq_nat_uint uint_word_of_int)

lemma toInstr_ok:
  assumes b: "cur_base c" and s: "src_chosen c (sc_ops c)" and d: "dst_chosen c (sc_ops c)"
  shows "ss_instr_ok (toInstr c)" and "ss_is_mul (toInstr c) = isMultiplication (sc_type c)"
proof -
  from b have info: "sc_info c = ss_info (sc_type c)" and t: "sc_type c \<noteq> SS_INVALID"
    by (auto simp: cur_base_def)
  then show "ss_is_mul (toInstr c) = isMultiplication (sc_type c)"
    by (simp add: ss_is_mul_def toInstr_def)
  have "si_dstOp (sc_info c) < int (sc_ops c)"
    by (subst info, subst sc_ops_def, subst info)
      (use t in \<open>cases "sc_type c"; simp add: info1_def infoN_def mop_defs\<close>)
  then have D: "0 \<le> sc_dst c" "sc_dst c < 8" "sc_type c = SS_IADD_RS \<longrightarrow> sc_dst c \<noteq> 5"
    "sc_canReuse c \<or> sc_dst c \<noteq> sc_src c"
    using d by (auto simp: dst_chosen_def RegisterNeedsDisplacement_def)
  have S: "sc_type c \<in> {SS_ISUB_R, SS_IXOR_R, SS_IADD_RS, SS_IMUL_R} \<longrightarrow> 0 \<le> sc_src c"
  proof
    assume "sc_type c \<in> {SS_ISUB_R, SS_IXOR_R, SS_IADD_RS, SS_IMUL_R}"
    then have "si_srcOp (ss_info (sc_type c)) = 0" "length (si_ops (ss_info (sc_type c))) = 1"
      by (auto simp: info1_def)
    then show "0 \<le> sc_src c" using s info by (simp add: src_chosen_def sc_ops_def)
  qed
  have U: "unat (word_of_int (sc_dst c) :: u8) = nat (sc_dst c)" using D by (simp add: word8_of_small)
  have V: "unat (word_of_int (if sc_src c \<ge> 0 then sc_src c else sc_dst c) :: u8)
      = nat (if sc_src c \<ge> 0 then sc_src c else sc_dst c)"
    using D b by (simp add: word8_of_small cur_base_def)
  have ne: "i_src (toInstr c) \<noteq> i_dst (toInstr c)"
    if type: "sc_type c \<in> {SS_ISUB_R, SS_IXOR_R, SS_IADD_RS, SS_IMUL_R}"
  proof
    assume eq: "i_src (toInstr c) = i_dst (toInstr c)"
    have s0: "0 \<le> sc_src c" using S type by blast
    have "sc_canReuse c = (sc_type c \<in> {SS_IMULH_R, SS_ISMULH_R})" using b by (simp only: cur_base_def)
    then have "\<not> sc_canReuse c" using type by fastforce
    then have "sc_dst c \<noteq> sc_src c" using D(4) by blast
    moreover have "nat (sc_src c) = nat (sc_dst c)"
      using eq U V s0 by (simp add: toInstr_def)
    ultimately show False using s0 D(1) by simp
  qed
  have opc: "ss_of_code (i_opcode (toInstr c)) = Some (sc_type c)"
    using t by (simp add: toInstr_def)
  have "unat (i_dst (toInstr c)) < 8" "unat (i_src (toInstr c)) < 8"
    using D b by (auto simp: toInstr_def U V cur_base_def nat_less_iff)
  moreover have "sc_type c = SS_IADD_RS \<longrightarrow> unat (i_dst (toInstr c)) \<noteq> RegisterNeedsDisplacement"
    using D by (auto simp: toInstr_def U RegisterNeedsDisplacement_def nat_eq_iff)
  moreover note ne
  ultimately show "ss_instr_ok (toInstr c)"
    using b unfolding ss_instr_ok_def opc option.case cur_base_def
    by (simp only: toInstr_def instruction.select_convs simp_thms) blast
qed

subsection \<open>Selection\<close>

lemma selectRegister_mem: "selectRegister av g = Some (r, g') \<Longrightarrow> r \<in> set av"
  by (auto simp: selectRegister_def split: if_splits prod.splits)

lemma selectSource_facts:
  assumes "selectSource c sc regs g = Some (c', g')"
  shows "sc_info c' = sc_info c" "sc_dst c' = sc_dst c" "sc_imm32 c' = sc_imm32 c"
    "sc_canReuse c' = sc_canReuse c" "0 \<le> sc_src c'" "sc_src c' < 8"
  using assms
  by (auto simp: selectSource_def Let_def RegisterNeedsDisplacement_def split: if_splits
      dest!: selectRegister_mem)

lemma selectDestination_facts:
  assumes "selectDestination c sc m regs g = Some (c', g')"
  shows "sc_info c' = sc_info c" "sc_src c' = sc_src c" "sc_imm32 c' = sc_imm32 c"
    "sc_canReuse c' = sc_canReuse c" "0 \<le> sc_dst c'" "sc_dst c' < 8"
    "sc_type c = SS_IADD_RS \<longrightarrow> sc_dst c' \<noteq> int RegisterNeedsDisplacement"
    "sc_canReuse c \<or> sc_dst c' \<noteq> sc_src c"
  using assms
  by (auto simp: selectDestination_def dst_allowed_def dest!: selectRegister_mem)

lemma source_loop_facts:
  "source_loop n st sc = (ok, st', sc') \<Longrightarrow>
   \<exists>c gen cyc. st' = st \<lparr> x_cur := c, x_gen := gen, x_cycle := cyc \<rparr> \<and>
     (if ok then \<exists>sc0 g0. selectSource (x_cur st) sc0 (x_registers st) g0 = Some (c, gen)
      else c = x_cur st)"
proof (induction n st sc rule: source_loop.induct)
  case (1 st sc)
  then show ?case by (auto intro!: exI [of _ "x_cur st"] exI [of _ "x_gen st"] exI [of _ "x_cycle st"])
next
  case (2 n st sc)
  show ?case
  proof (cases "selectSource (x_cur st) sc (x_registers st) (x_gen st)")
    case None
    with "2.IH" [OF None] "2.prems" show ?thesis by (cases ok) fastforce+
  next
    case (Some p)
    obtain c gen where p: "p = (c, gen)" by (cases p)
    have "st \<lparr> x_cur := c, x_gen := gen \<rparr> = st \<lparr> x_cur := c, x_gen := gen, x_cycle := x_cycle st \<rparr>"
      by simp
    then have "st' = st \<lparr> x_cur := c, x_gen := gen, x_cycle := x_cycle st \<rparr>" "ok"
      using "2.prems" Some p by auto
    then show ?thesis using Some p by fastforce
  qed
qed

lemma dest_loop_facts:
  "dest_loop n st sc = (ok, st', sc') \<Longrightarrow>
   \<exists>c gen cyc. st' = st \<lparr> x_cur := c, x_gen := gen, x_cycle := cyc \<rparr> \<and>
     (if ok then \<exists>sc0 m g0. selectDestination (x_cur st) sc0 m (x_registers st) g0 = Some (c, gen)
      else c = x_cur st)"
proof (induction n st sc rule: dest_loop.induct)
  case (1 st sc)
  then show ?case by (auto intro!: exI [of _ "x_cur st"] exI [of _ "x_gen st"] exI [of _ "x_cycle st"])
next
  case (2 n st sc)
  show ?case
  proof (cases "selectDestination (x_cur st) sc (x_throwAwayCount st > 0) (x_registers st) (x_gen st)")
    case None
    with "2.IH" [OF None] "2.prems" show ?thesis by (cases ok) fastforce+
  next
    case (Some p)
    obtain c gen where p: "p = (c, gen)" by (cases p)
    have "st \<lparr> x_cur := c, x_gen := gen \<rparr> = st \<lparr> x_cur := c, x_gen := gen, x_cycle := x_cycle st \<rparr>"
      by simp
    then have "st' = st \<lparr> x_cur := c, x_gen := gen, x_cycle := x_cycle st \<rparr>" "ok"
      using "2.prems" Some p by auto
    then show ?thesis using Some p by fastforce
  qed
qed

subsection \<open>Creation\<close>

lemma draw_rotation_range: "draw_rotation g = Some r \<Longrightarrow> fst r \<noteq> 0 \<and> unat (fst r) < 64"
proof (erule draw_rotation.raw_induct [where P = "\<lambda>_ r. fst r \<noteq> 0 \<and> unat (fst r) < 64", rotated])
  fix f g and r :: "u32 \<times> Blake2Generator"
  assume IH: "\<And>g r. f g = Some r \<Longrightarrow> fst r \<noteq> 0 \<and> unat (fst r) < 64"
    and step: "(if ucast (fst (getByte g)) AND (63 :: u32) = 0 then f (snd (getByte g))
      else Some (ucast (fst (getByte g)) AND 63, snd (getByte g))) = Some r"
  have "unat (x AND (63 :: u32)) < 64" for x by (rule unat_and_less) simp
  then show "fst r \<noteq> 0 \<and> unat (fst r) < 64"
    using step IH by (auto split: if_splits)
qed

lemma draw_divisor_range: "draw_divisor g = Some r \<Longrightarrow> \<not> isZeroOrPowerOf2 (ucast (fst r))"
proof (erule draw_divisor.raw_induct [where P = "\<lambda>_ r. \<not> isZeroOrPowerOf2 (ucast (fst r))", rotated])
  fix f g r
  assume IH: "\<And>g r. f g = Some r \<Longrightarrow> \<not> isZeroOrPowerOf2 (ucast (fst r))"
    and step: "(if isZeroOrPowerOf2 (ucast (fst (getUInt32 g))) then f (snd (getUInt32 g))
      else Some (getUInt32 g)) = Some r"
  show "\<not> isZeroOrPowerOf2 (ucast (fst r))"
  proof (cases "isZeroOrPowerOf2 (ucast (fst (getUInt32 g)))")
    case True
    then have "f (snd (getUInt32 g)) = Some r" using step by simp
    then show ?thesis by (rule IH)
  next
    case False
    then have "r = getUInt32 g" using step by simp
    then show ?thesis using False by simp
  qed
qed

lemma create_ok:
  assumes "create t c g = Some (c', g')" "t \<noteq> SS_INVALID"
  shows "cur_base c' \<and> src_chosen c' 0 \<and> dst_chosen c' 0 \<and> 0 < sc_ops c'"
  using assms
  by (cases t) (auto simp: create_def sc_reset_def cur_base_def src_chosen_def dst_chosen_def sc_ops_def
      Let_def info1_def infoN_def mop_defs split: prod.splits bind_splits
      dest!: draw_rotation_range draw_divisor_range)

subsection \<open>The invariant of the loops\<close>

definition ss_inv :: "rx_config \<Rightarrow> ss_state \<Rightarrow> bool" where
  "ss_inv cfg st \<longleftrightarrow>
     length (x_registers st) = 8
   \<and> list_all ss_instr_ok (x_prog st)
   \<and> length (x_prog st) \<le> ss_limit cfg
   \<and> x_mulCount st = length (filter ss_is_mul (x_prog st))
   \<and> (x_macroOpIndex st < sc_ops (x_cur st) \<longrightarrow>
        length (x_prog st) < ss_limit cfg \<and> cur_base (x_cur st)
      \<and> src_chosen (x_cur st) (x_macroOpIndex st) \<and> dst_chosen (x_cur st) (x_macroOpIndex st))"

fun result_state :: "'a slot_result \<Rightarrow> 'a" where
  "result_state (Issued st) = st" | "result_state (Thrown st) = st" | "result_state (Stopped st) = st"

lemma sc_ops_cong: "sc_info c' = sc_info c \<Longrightarrow> sc_ops c' = sc_ops c"
  by (simp add: sc_ops_def)

text \<open>Choosing an operand at macro-op \<open>n\<close> prepares the instruction for macro-op \<open>n + 1\<close>.\<close>

lemma source_choice:
  assumes b: "cur_base c" and s: "src_chosen c n" and d: "dst_chosen c n"
    and at: "int n = si_srcOp (sc_info c)"
    and sel: "selectSource c sc regs g = Some (c', g')"
  shows "cur_base c'" "src_chosen c' (Suc n)" "dst_chosen c' n" "sc_info c' = sc_info c"
proof -
  note f = selectSource_facts [OF sel]
  show i: "sc_info c' = sc_info c" by (rule f)
  show "cur_base c'" using b at f by (simp add: cur_base_def)
  show "src_chosen c' (Suc n)" using f by (simp add: src_chosen_def)
  have "sc_canReuse c" if "si_dstOp (sc_info c) < int n"
  proof -
    have info: "sc_info c = ss_info (sc_type c)" and
      r: "sc_canReuse c = (sc_type c \<in> {SS_IMULH_R, SS_ISMULH_R})" using b by (simp_all only: cur_base_def)
    have "si_dstOp (ss_info (sc_type c)) < si_srcOp (ss_info (sc_type c))" using that at info by simp
    then have "sc_type c \<in> {SS_IMULH_R, SS_ISMULH_R}"
      by (cases "sc_type c") (simp_all add: info1_def infoN_def)
    then show ?thesis using r by blast
  qed
  then show "dst_chosen c' n" using d f unfolding dst_chosen_def i by metis
qed

lemma dest_choice:
  assumes b: "cur_base c" and s: "src_chosen c n"
    and sel: "selectDestination c sc m regs g = Some (c', g')"
  shows "cur_base c'" "src_chosen c' n" "dst_chosen c' k" "sc_info c' = sc_info c"
proof -
  note f = selectDestination_facts [OF sel]
  show i: "sc_info c' = sc_info c" by (rule f)
  show "cur_base c'" using b f by (simp add: cur_base_def)
  show "src_chosen c' n" using s f by (simp add: src_chosen_def)
  show "dst_chosen c' k" using f by (simp add: dst_chosen_def)
qed

lemma give_up_inv:
  assumes "length (x_registers st) = 8" "list_all ss_instr_ok (x_prog st)"
    "length (x_prog st) \<le> ss_limit cfg" "x_mulCount st = length (filter ss_is_mul (x_prog st))"
  shows "ss_inv cfg (result_state (give_up st))"
  using assms by (simp add: give_up_def ss_inv_def SsInstr_Null_def sc_ops_def)

lemma retire_inv:
  assumes inv: "ss_inv cfg st" and idx: "x_macroOpIndex st < sc_ops (x_cur st)"
    and b: "cur_base (x_cur st)" and s: "src_chosen (x_cur st) (Suc (x_macroOpIndex st))"
    and d: "dst_chosen (x_cur st) (Suc (x_macroOpIndex st))"
  shows "ss_inv cfg (result_state (retire cfg tc m st sc))"
proof -
  obtain sc' busy where sch: "scheduleMop cfg True m (x_portBusy st) sc sc = (sc', busy)" by fastforce
  have lim: "length (x_prog st) < ss_limit cfg" using inv idx by (simp add: ss_inv_def)
  show ?thesis
  proof (cases "Suc (x_macroOpIndex st) < sc_ops (x_cur st)")
    case True
    then show ?thesis
      using inv b s d lim by (simp add: retire_def sch Let_def ss_inv_def src_chosen_def dst_chosen_def)
  next
    case False
    then have lst: "Suc (x_macroOpIndex st) = sc_ops (x_cur st)" using idx by simp
    note t = toInstr_ok [OF b s [unfolded lst] d [unfolded lst]]
    show ?thesis
      using inv lim idx t lst by (simp add: retire_def sch Let_def ss_inv_def)
  qed
qed

lemma issue_inv:
  assumes inv: "ss_inv cfg st" and idx: "x_macroOpIndex st < sc_ops (x_cur st)"
  shows "ss_inv cfg (result_state (issue cfg tc st))"
proof -
  let ?n = "x_macroOpIndex st"
  let ?m = "si_ops (sc_info (x_cur st)) ! ?n"
  let ?sc = "fst (scheduleMop cfg False ?m (x_portBusy st) (x_cycle st) (x_depCycle st))"
  have base: "cur_base (x_cur st)" "src_chosen (x_cur st) ?n" "dst_chosen (x_cur st) ?n"
    using inv idx by (simp_all add: ss_inv_def)
  obtain ok1 st1 sc1 where p1: "(if int ?n = si_srcOp (sc_info (x_cur st))
      then source_loop LOOK_FORWARD_CYCLES st ?sc else (True, st, ?sc)) = (ok1, st1, sc1)"
    by (metis prod_cases3)
  have st1: "\<exists>c gen cyc. st1 = st \<lparr> x_cur := c, x_gen := gen, x_cycle := cyc \<rparr> \<and>
      sc_info c = sc_info (x_cur st) \<and> (ok1 \<longrightarrow> cur_base c \<and> src_chosen c (Suc ?n) \<and> dst_chosen c ?n)"
  proof (cases "int ?n = si_srcOp (sc_info (x_cur st))")
    case True
    then have "source_loop LOOK_FORWARD_CYCLES st ?sc = (ok1, st1, sc1)" using p1 by simp
    from source_loop_facts [OF this] obtain c gen cyc where
      e: "st1 = st \<lparr> x_cur := c, x_gen := gen, x_cycle := cyc \<rparr>" and
      f: "if ok1 then \<exists>sc0 g0. selectSource (x_cur st) sc0 (x_registers st) g0 = Some (c, gen)
        else c = x_cur st" by blast
    show ?thesis
    proof (cases ok1)
      case True
      then obtain sc0 g0 where "selectSource (x_cur st) sc0 (x_registers st) g0 = Some (c, gen)"
        using f by auto
      from source_choice [OF base \<open>int ?n = _\<close> this] e show ?thesis by blast
    next
      case False
      then have "c = x_cur st" using f by simp
      then show ?thesis using e False by metis
    qed
  next
    case False
    then have eq: "st1 = st" "ok1" using p1 by auto
    have "st = st \<lparr> x_cur := x_cur st, x_gen := x_gen st, x_cycle := x_cycle st \<rparr>" by simp
    moreover have "src_chosen (x_cur st) (Suc ?n)" using base(2) False by (auto simp: src_chosen_def)
    ultimately show ?thesis unfolding eq using base by metis
  qed
  then obtain c gen cyc where e1: "st1 = st \<lparr> x_cur := c, x_gen := gen, x_cycle := cyc \<rparr>"
    and i1: "sc_info c = sc_info (x_cur st)"
    and c1: "ok1 \<longrightarrow> cur_base c \<and> src_chosen c (Suc ?n) \<and> dst_chosen c ?n" by blast
  obtain ok2 st2 sc2 where p2: "(if int (x_macroOpIndex st1) = si_dstOp (sc_info (x_cur st1))
      then dest_loop LOOK_FORWARD_CYCLES st1 sc1 else (True, st1, sc1)) = (ok2, st2, sc2)"
    by (metis prod_cases3)
  have st2: "\<exists>c gen cyc. st2 = st \<lparr> x_cur := c, x_gen := gen, x_cycle := cyc \<rparr> \<and>
      sc_info c = sc_info (x_cur st) \<and>
      (ok1 \<and> ok2 \<longrightarrow> cur_base c \<and> src_chosen c (Suc ?n) \<and> dst_chosen c (Suc ?n))"
  proof (cases "int (x_macroOpIndex st1) = si_dstOp (sc_info (x_cur st1))")
    case True
    then have "dest_loop LOOK_FORWARD_CYCLES st1 sc1 = (ok2, st2, sc2)" using p2 by simp
    from dest_loop_facts [OF this] obtain c' gen' cyc' where
      e: "st2 = st1 \<lparr> x_cur := c', x_gen := gen', x_cycle := cyc' \<rparr>" and
      f: "if ok2 then \<exists>sc0 m g0. selectDestination (x_cur st1) sc0 m (x_registers st1) g0 = Some (c', gen')
        else c' = x_cur st1" by blast
    have e': "st2 = st \<lparr> x_cur := c', x_gen := gen', x_cycle := cyc' \<rparr>" using e e1 by simp
    show ?thesis
    proof (cases "ok1 \<and> ok2")
      case True
      then obtain sc0 m g0 where sel: "selectDestination c sc0 m (x_registers st1) g0 = Some (c', gen')"
        using f e1 by auto
      have c: "cur_base c" "src_chosen c (Suc ?n)" using c1 True by auto
      have "sc_info c' = sc_info (x_cur st)" using dest_choice(4) [OF c sel] i1 by simp
      then show ?thesis using dest_choice(1-3) [OF c sel] e' by blast
    next
      case False
      have "sc_info c' = sc_info c"
      proof (cases ok2)
        case True
        then obtain sc0 m g0 where "selectDestination c sc0 m (x_registers st1) g0 = Some (c', gen')"
          using f e1 by auto
        then show ?thesis by (rule selectDestination_facts)
      qed (use f e1 in simp)
      then show ?thesis using e' i1 False by auto
    qed
  next
    case False
    then have "st2 = st1" "int ?n \<noteq> si_dstOp (sc_info c)" using p2 e1 by auto
    moreover from this have "dst_chosen c ?n \<Longrightarrow> dst_chosen c (Suc ?n)" by (auto simp: dst_chosen_def)
    ultimately show ?thesis using e1 i1 c1 by blast
  qed
  then obtain c' gen' cyc' where e2: "st2 = st \<lparr> x_cur := c', x_gen := gen', x_cycle := cyc' \<rparr>"
    and i2: "sc_info c' = sc_info (x_cur st)"
    and c2: "ok1 \<and> ok2 \<longrightarrow> cur_base c' \<and> src_chosen c' (Suc ?n) \<and> dst_chosen c' (Suc ?n)" by blast
  have giveup: "ss_inv cfg (result_state (give_up (st \<lparr> x_cur := d, x_gen := g, x_cycle := cy \<rparr>)))" for d g cy
    by (rule give_up_inv) (use inv in \<open>simp_all add: ss_inv_def\<close>)
  show ?thesis
  proof (cases "?sc < 0")
    case True
    then show ?thesis using inv by (simp add: issue_def Let_def ss_inv_def)
  next
    case False
    then have res: "issue cfg tc st = (if \<not> ok1 then give_up st1 else if \<not> ok2 then give_up st2
        else retire cfg tc ?m st2 sc2)"
      unfolding issue_def Let_def p1 using p2 by simp
    show ?thesis
    proof (cases "ok1 \<and> ok2")
      case True
      have "ss_inv cfg st2" using inv c2 True idx i2 e1 e2
        by (simp add: ss_inv_def src_chosen_def dst_chosen_def sc_ops_cong [OF i2])
      then have "ss_inv cfg (result_state (retire cfg tc ?m st2 sc2))"
        by (rule retire_inv) (use e2 c2 True idx sc_ops_cong [OF i2] in simp_all)
      then show ?thesis using res True by simp
    next
      case False
      then show ?thesis using res giveup e1 e2 by auto
    qed
  qed
qed

lemma slot_type_valid:
  "slot_type sz ft l g = Some (t, g') \<Longrightarrow> t \<noteq> SS_INVALID"
proof -
  have 3: "unat (b AND 3) \<in> {0, 1, 2, 3}" and 1: "unat (b AND 1) \<in> {0, 1}" for b :: u8
    using unat_and_le1 [of b 3] unat_and_le1 [of b 1] by auto
  assume "slot_type sz ft l g = Some (t, g')"
  then show ?thesis
    using 3 [of "fst (getByte g)"] 1 [of "fst (getByte g)"]
    by (auto simp: slot_type_def slot_defs split: if_splits prod.splits)
qed

lemma slot_step_inv:
  assumes inv: "ss_inv cfg st" and res: "slot_step cfg b i st = Some r"
  shows "ss_inv cfg (result_state r)"
proof (cases "x_macroOpIndex st \<ge> sc_ops (x_cur st)")
  case True
  show ?thesis
  proof (cases "x_portsSaturated st \<or> length (x_prog st) \<ge> ss_limit cfg")
    case True
    then show ?thesis using res inv \<open>sc_ops (x_cur st) \<le> _\<close> by (auto simp: slot_step_def)
  next
    case False
    then obtain c gen where c: "createForSlot (x_cur st) (x_gen st) (db_counts b ! i) (db_index b)
        (length (db_counts b) = i + 1) = Some (c, gen)"
      and r: "r = issue cfg (x_cycle st) (st \<lparr> x_cur := c, x_gen := gen, x_macroOpIndex := 0 \<rparr>)"
      using res True by (auto simp: slot_step_def split: bind_splits)
    then obtain t g where "slot_type (db_counts b ! i) (db_index b) (length (db_counts b) = i + 1)
        (x_gen st) = Some (t, g)" "create t (x_cur st) g = Some (c, gen)"
      by (auto simp: createForSlot_def split: bind_splits)
    then have "cur_base c \<and> src_chosen c 0 \<and> dst_chosen c 0 \<and> 0 < sc_ops c"
      using create_ok slot_type_valid by blast
    then show ?thesis unfolding r
      by (intro issue_inv) (use inv False in \<open>simp_all add: ss_inv_def\<close>)
  qed
next
  case False
  then show ?thesis using res issue_inv [OF inv] by (auto simp: slot_step_def)
qed

lemma slot_loop_inv: "slot_loop cfg b i st = Some st' \<Longrightarrow> ss_inv cfg st \<Longrightarrow> ss_inv cfg st'"
proof (induction cfg b i st rule: slot_loop.induct)
  case (1 cfg b i st)
  show ?case
  proof (cases "i < length (db_counts b)")
    case False
    then show ?thesis using "1.prems" by (simp add: slot_loop.simps [of cfg b i st])
  next
    case True
    then obtain r where r: "slot_step cfg b i st = Some r"
      using "1.prems" by (cases "slot_step cfg b i st") (auto simp: slot_loop.simps [of cfg b i st])
    have inv: "ss_inv cfg (result_state r)" by (rule slot_step_inv [OF "1.prems"(2) r])
    show ?thesis
      using "1.IH" [OF True r] "1.prems"(1) inv True r
      by (cases r) (auto simp: slot_loop.simps [of cfg b i st])
  qed
qed

lemma decode_loop_inv:
  "decode_loop cfg d st = Some (d', st') \<Longrightarrow> ss_inv cfg st \<Longrightarrow> ss_inv cfg st'"
proof (induction cfg d st rule: decode_loop.induct)
  case (1 cfg d st)
  show ?case
  proof (cases "d < SuperscalarLatency cfg \<and> \<not> x_portsSaturated st \<and> length (x_prog st) < ss_limit cfg")
    case False
    then show ?thesis using "1.prems" by (simp add: decode_loop.simps [of cfg d st] split: if_splits)
  next
    case True
    let ?b = "fetchNext (sc_type (x_cur st)) (int d) (int (x_mulCount st)) (x_gen st)"
    obtain st1 where s: "slot_loop cfg (fst ?b) 0 (st \<lparr> x_gen := snd ?b \<rparr>) = Some st1"
      and rest: "decode_loop cfg (d + 1) (st1 \<lparr> x_cycle := x_cycle st1 + 1 \<rparr>) = Some (d', st')"
      using "1.prems"(1) True by (auto simp: decode_loop.simps [of cfg d st] split: option.splits)
    have "ss_inv cfg st1"
      by (rule slot_loop_inv [OF s]) (use "1.prems"(2) in \<open>simp add: ss_inv_def\<close>)
    then have "ss_inv cfg (st1 \<lparr> x_cycle := x_cycle st1 + 1 \<rparr>)" by (simp add: ss_inv_def)
    then show ?thesis by (rule "1.IH" [OF True s rest])
  qed
qed

lemma ss_inv_initial: "ss_inv cfg (ss_initial gen)"
  by (simp add: ss_inv_def ss_initial_def SsInstr_Null_def sc_ops_def)

lemma generate_inv:
  assumes "generateSuperscalar cfg gen = Some (sp, gen')"
  obtains st d where "ss_inv cfg st" "programBuffer sp = x_prog st" "sp_mulCount sp = x_mulCount st"
    "addrReg sp = snd (max_latency (asic_latencies (x_prog st)))" "gen' = x_gen st"
    "asicLatencies sp = asic_latencies (x_prog st)"
    "asicLatency sp = fst (max_latency (asic_latencies (x_prog st)))"
    "decode_loop cfg 0 (ss_initial gen) = Some (d, st)"
proof -
  obtain d st where d: "decode_loop cfg 0 (ss_initial gen) = Some (d, st)"
    using assms by (auto simp: generateSuperscalar_def split: option.splits)
  have "ss_inv cfg st" by (rule decode_loop_inv [OF d ss_inv_initial])
  then show ?thesis
    using assms d by (intro that) (auto simp: generateSuperscalar_def Let_def split: prod.splits)
qed

end
