(* ===== verification/SuperscalarExample.thy ===== *)
theory SuperscalarExample
  imports SuperscalarProps
begin

text \<open>
  A run of the superscalar generator evaluated step by step: with a latency limit of one cycle
  and fixed generator output it issues two multiplications, the second of which saturates the
  ports. It is the concrete input of the witnesses about generated programs.
\<close>

definition ex_config :: rx_config where
  "ex_config = RandomX_ConfigurationBase \<lparr> SuperscalarLatency := 1 \<rparr>"

definition ex_gen :: "nat \<Rightarrow> Blake2Generator" where
  "ex_gen i = \<lparr> g_data = [5, 0, 0, 0, 1, 0, 0, 0, 7, 0, 0, 0, 3, 0, 0, 0] @ replicate 48 9, g_index = i \<rparr>"

definition ex_imul :: "int \<Rightarrow> int \<Rightarrow> int \<Rightarrow> SsInstr" where
  "ex_imul s d p = \<lparr> sc_info = ss_info SS_IMUL_R, sc_src = s, sc_dst = d, sc_mod = 0, sc_imm32 = 0,
     sc_opGroup = SS_IMUL_R, sc_opGroupPar = p, sc_canReuse = False, sc_groupParIsSource = True \<rparr>"

definition ex_ri :: "int \<Rightarrow> int \<Rightarrow> RegisterInfo" where
  "ex_ri l p = \<lparr> ri_latency = l, ri_lastOpGroup = SS_IMUL_R, ri_lastOpPar = p \<rparr>"

definition ex_instr :: "u8 \<Rightarrow> u8 \<Rightarrow> instruction" where
  "ex_instr d s = \<lparr> i_opcode = 3, i_dst = d, i_src = s, i_mod = 0, i_imm32 = 0 \<rparr>"

definition ex_busy :: port_map where
  "ex_busy = replicate CYCLE_MAP_SIZE [P_Null, P_Null, P_Null]"

definition ex_regs :: "RegisterInfo list" where
  "ex_regs = replicate 8 new_RegisterInfo"

definition ex_state ::
  "port_map \<Rightarrow> RegisterInfo list \<Rightarrow> SsInstr \<Rightarrow> nat \<Rightarrow> instruction list \<Rightarrow> int \<Rightarrow> bool \<Rightarrow> ss_state" where
  "ex_state busy regs c idx prog dep sat =
    \<lparr> x_portBusy = busy, x_registers = regs, x_cur = c, x_macroOpIndex = idx,
      x_codeSize = 4 * length prog, x_macroOpCount = length prog, x_cycle = 0, x_depCycle = dep,
      x_retireCycle = dep, x_portsSaturated = sat, x_prog = prog, x_mulCount = length prog,
      x_throwAwayCount = 0, x_gen = ex_gen (8 * length prog) \<rparr>"

lemma ex_latency: "SuperscalarLatency ex_config = 1"
  by (simp add: ex_config_def)

lemma ex_imul_simps [simp]:
  "sc_info (ex_imul s d p) = info1 SS_IMUL_R Imul_rr 0" "sc_dst (ex_imul s d p) = d"
  "sc_src (ex_imul s d p) = s" "sc_opGroup (ex_imul s d p) = SS_IMUL_R" "sc_opGroupPar (ex_imul s d p) = p"
  "sc_canReuse (ex_imul s d p) = False" "sc_groupParIsSource (ex_imul s d p) = True"
  "sc_ops (ex_imul s d p) = 1" "sc_mod (ex_imul s d p) = 0" "sc_imm32 (ex_imul s d p) = 0"
  "ex_imul s d p \<lparr> sc_src := a \<rparr> = ex_imul a d p" "ex_imul s d p \<lparr> sc_dst := a \<rparr> = ex_imul s a p"
  "ex_imul s d p \<lparr> sc_opGroupPar := a \<rparr> = ex_imul s d a"
  by (simp_all add: ex_imul_def sc_ops_def info1_def)

lemma info1_simps [simp]:
  "si_type (info1 t m s) = t" "si_ops (info1 t m s) = [m]" "si_srcOp (info1 t m s) = s"
  "si_dstOp (info1 t m s) = 0" "si_resultOp (info1 t m s) = 0"
  by (simp_all add: info1_def)

lemma ex_words: "getUInt32 (ex_gen 0) = (5, ex_gen 4)" "getUInt32 (ex_gen 4) = (1, ex_gen 8)"
  "getUInt32 (ex_gen 8) = (7, ex_gen 12)" "getUInt32 (ex_gen 12) = (3, ex_gen 16)"
  by (simp_all add: ex_gen_def getUInt32_def load32_def checkData_def Let_def)

lemma ex_upt: "[0..<8] = [0, 1, 2, 3, 4, 5, 6, 7 :: nat]"
  by (simp add: upt_rec)

lemma ex_ready:
  "filter (\<lambda>i. ri_latency (ex_regs ! i) \<le> 0) [0..<8] = [0, 1, 2, 3, 4, 5, 6, 7]"
  "filter (\<lambda>i. ri_latency (ex_regs[Suc 0 := ex_ri 3 5] ! i) \<le> 1) [0..<8] = [0, 2, 3, 4, 5, 6, 7]"
  by (simp_all add: ex_upt ex_regs_def new_RegisterInfo_def ex_ri_def)

lemma ex_free:
  "filter (dst_allowed (ex_imul 5 (- 1) 5) 0 False ex_regs) [0..<8] = [0, 1, 2, 3, 4, 6, 7]"
  "filter (dst_allowed (ex_imul 0 (- 1) 0) 1 False (ex_regs[Suc 0 := ex_ri 3 5])) [0..<8]
     = [2, 3, 4, 5, 6, 7]"
  by (simp_all add: ex_upt dst_allowed_def ex_regs_def new_RegisterInfo_def ex_ri_def)

lemma ex_source:
  "selectSource (ex_imul (- 1) (- 1) 0) 0 ex_regs (ex_gen 0) = Some (ex_imul 5 (- 1) 5, ex_gen 4)"
  "selectSource (ex_imul (- 1) (- 1) 5) 1 (ex_regs[Suc 0 := ex_ri 3 5]) (ex_gen 8)
     = Some (ex_imul 0 (- 1) 0, ex_gen 12)"
  unfolding selectSource_def ex_ready by (simp_all add: selectRegister_def ex_words)

lemma ex_dest:
  "selectDestination (ex_imul 5 (- 1) 5) 0 False ex_regs (ex_gen 4) = Some (ex_imul 5 1 5, ex_gen 8)"
  "selectDestination (ex_imul 0 (- 1) 0) 1 False (ex_regs[Suc 0 := ex_ri 3 5]) (ex_gen 12)
     = Some (ex_imul 0 5 0, ex_gen 16)"
  unfolding selectDestination_def ex_free by (simp_all add: selectRegister_def ex_words)

lemma source_loop_Some:
  "selectSource (x_cur st) sc (x_registers st) (x_gen st) = Some (c, g) \<Longrightarrow>
   source_loop LOOK_FORWARD_CYCLES st sc = (True, st \<lparr> x_cur := c, x_gen := g \<rparr>, sc)"
  by (simp add: LOOK_FORWARD_CYCLES_def eval_nat_numeral)

lemma dest_loop_Some:
  "selectDestination (x_cur st) sc (x_throwAwayCount st > 0) (x_registers st) (x_gen st) = Some (c, g) \<Longrightarrow>
   dest_loop LOOK_FORWARD_CYCLES st sc = (True, st \<lparr> x_cur := c, x_gen := g \<rparr>, sc)"
  by (simp add: LOOK_FORWARD_CYCLES_def eval_nat_numeral)

lemma ex_schedule:
  "scheduleMop ex_config False Imul_rr ex_busy 0 d = (0, ex_busy)"
  "scheduleMop ex_config True Imul_rr ex_busy 0 d = (0, ex_busy[0 := [0, 2, 0]])"
  "scheduleMop ex_config False Imul_rr (ex_busy[0 := [0, 2, 0]]) 0 d = (1, ex_busy[0 := [0, 2, 0]])"
  "scheduleMop ex_config True Imul_rr (ex_busy[0 := [0, 2, 0]]) 1 d
     = (1, ex_busy[0 := [0, 2, 0], Suc 0 := [0, 2, 0]])"
  by (simp_all add: scheduleMop_def isEliminated_def isSimple_def mop_defs scheduleUop.simps port_defs
      ex_latency occupy_def ex_busy_def CYCLE_MAP_SIZE_def RANDOMX_SUPERSCALAR_MAX_LATENCY_def Let_def)

lemma Imul_rr_latency: "m_latency Imul_rr = 3" "m_size Imul_rr = 4"
  by (simp_all add: mop_defs)

lemma ex_issue1:
  "issue ex_config 0 (ex_state ex_busy ex_regs (ex_imul (- 1) (- 1) 0) 0 [] 0 False)
   = Issued (ex_state (ex_busy[0 := [0, 2, 0]]) (ex_regs[Suc 0 := ex_ri 3 5]) (ex_imul 5 1 5) 1
       [ex_instr 1 5] 3 False)"
  by (simp add: issue_def ex_state_def Let_def source_loop_Some dest_loop_Some ex_source ex_dest
      ex_schedule retire_def ex_latency isMultiplication_def toInstr_def ex_instr_def
      ex_ri_def [symmetric] Imul_rr_latency)

lemma ex_issue2:
  "issue ex_config 0 (ex_state (ex_busy[0 := [0, 2, 0]]) (ex_regs[Suc 0 := ex_ri 3 5]) (ex_imul (- 1) (- 1) 5) 0
       [ex_instr 1 5] 3 False)
   = Issued (ex_state (ex_busy[0 := [0, 2, 0], Suc 0 := [0, 2, 0]]) (ex_regs[Suc 0 := ex_ri 3 5, 5 := ex_ri 4 0])
       (ex_imul 0 5 0) 1 [ex_instr 1 5, ex_instr 5 0] 4 True)"
  by (simp add: issue_def ex_state_def Let_def source_loop_Some dest_loop_Some ex_source ex_dest
      ex_schedule retire_def ex_latency isMultiplication_def toInstr_def ex_instr_def
      ex_ri_def [symmetric] Imul_rr_latency)

lemma ex_create:
  "createForSlot SsInstr_Null g 4 4 False = Some (ex_imul (- 1) (- 1) 0, g)"
  "createForSlot (ex_imul s d p) g 4 4 False = Some (ex_imul (- 1) (- 1) p, g)"
  by (simp_all add: createForSlot_def slot_type_def create_def sc_reset_def SsInstr_Null_def split_def ex_imul_def)

lemma ex_initial: "ss_initial (ex_gen 0) = ex_state ex_busy ex_regs SsInstr_Null 0 [] 0 False"
  by (simp add: ss_initial_def ex_state_def ex_busy_def ex_regs_def)

lemma ex_state_simps [simp]:
  "x_cur (ex_state b r c i p d t) = c" "x_gen (ex_state b r c i p d t) = ex_gen (8 * length p)"
  "x_macroOpIndex (ex_state b r c i p d t) = i" "x_prog (ex_state b r c i p d t) = p"
  "x_portsSaturated (ex_state b r c i p d t) = t" "x_cycle (ex_state b r c i p d t) = 0"
  "x_mulCount (ex_state b r c i p d t) = length p"
  "ex_state b r c i p d t \<lparr> x_cur := c', x_gen := ex_gen (8 * length p), x_macroOpIndex := i' \<rparr>
     = ex_state b r c' i' p d t"
  "ex_state b r c i p d t \<lparr> x_gen := ex_gen (8 * length p) \<rparr> = ex_state b r c i p d t"
  by (simp_all add: ex_state_def)

lemma ex_step1:
  "slot_step ex_config decodeBuffer4444 0 (ex_state ex_busy ex_regs SsInstr_Null 0 [] 0 False)
   = Some (Issued (ex_state (ex_busy[0 := [0, 2, 0]]) (ex_regs[Suc 0 := ex_ri 3 5]) (ex_imul 5 1 5) 1
       [ex_instr 1 5] 3 False))"
  using ex_issue1 ex_state_simps(8) [where p = "[]"]
  by (simp add: slot_step_def decodeBuffer4444_def ex_create ss_limit_def ex_latency)
    (simp add: sc_ops_def SsInstr_Null_def)

lemma ex_step2:
  "slot_step ex_config decodeBuffer4444 1
     (ex_state (ex_busy[0 := [0, 2, 0]]) (ex_regs[Suc 0 := ex_ri 3 5]) (ex_imul 5 1 5) 1
       [ex_instr 1 5] 3 False)
   = Some (Issued (ex_state (ex_busy[0 := [0, 2, 0], Suc 0 := [0, 2, 0]])
       (ex_regs[Suc 0 := ex_ri 3 5, 5 := ex_ri 4 0]) (ex_imul 0 5 0) 1 [ex_instr 1 5, ex_instr 5 0] 4 True))"
  using ex_issue2 ex_state_simps(8) [where p = "[ex_instr 1 5]"]
  by (simp add: slot_step_def decodeBuffer4444_def ex_create ss_limit_def ex_latency)

lemma ex_step3:
  "slot_step ex_config decodeBuffer4444 2 (ex_state b r (ex_imul s d p) 1 prog dep True)
   = Some (Stopped (ex_state b r (ex_imul s d p) 1 prog dep True))"
  by (simp add: slot_step_def)

definition ex_final :: ss_state where
  "ex_final = ex_state (ex_busy[0 := [0, 2, 0], Suc 0 := [0, 2, 0]])
     (ex_regs[Suc 0 := ex_ri 3 5, 5 := ex_ri 4 0]) (ex_imul 0 5 0) 1 [ex_instr 1 5, ex_instr 5 0] 4 True"

lemma ex_slot_loop:
  "slot_loop ex_config decodeBuffer4444 0 (ex_state ex_busy ex_regs SsInstr_Null 0 [] 0 False) = Some ex_final"
proof -
  have n: "length (db_counts decodeBuffer4444) = 4" by (simp add: decodeBuffer4444_def)
  have 2: "slot_loop ex_config decodeBuffer4444 2 ex_final = Some ex_final"
    by (subst slot_loop.simps) (simp add: n ex_final_def ex_step3 [simplified])
  have 1: "slot_loop ex_config decodeBuffer4444 1
      (ex_state (ex_busy[0 := [0, 2, 0]]) (ex_regs[Suc 0 := ex_ri 3 5]) (ex_imul 5 1 5) 1
        [ex_instr 1 5] 3 False) = Some ex_final"
    using 2 by (subst slot_loop.simps) (simp add: n ex_step2 [simplified] ex_final_def numeral_2_eq_2)
  show ?thesis
    using 1 by (subst slot_loop.simps) (simp add: n ex_step1)
qed

definition ex_program :: SuperscalarProgram where
  "ex_program = \<lparr> programBuffer = [ex_instr 1 5, ex_instr 5 0], addrReg = 1, sp_codeSize = 8, macroOps = 2,
     decodeCycles = 1, cpuLatency = 4, asicLatency = 1, sp_mulCount = 2,
     cpuLatencies = [0, 3, 0, 0, 0, 4, 0, 0], asicLatencies = [0, 1, 0, 0, 0, 1, 0, 0] \<rparr>"

lemma ex_replicate8: "replicate 8 x = [x, x, x, x, x, x, x, x]"
  by (simp add: eval_nat_numeral)

lemma ex_generate: "generateSuperscalar ex_config (ex_gen 0) = Some (ex_program, ex_gen 16)"
proof -
  have s: "slot_loop ex_config decodeBuffer4444 0
      (ex_state ex_busy ex_regs SsInstr_Null 0 [] 0 False \<lparr> x_gen := ex_gen 0 \<rparr>) = Some ex_final"
    using ex_slot_loop by (simp add: ex_state_def)
  have "decode_loop ex_config 0 (ss_initial (ex_gen 0)) = Some (1, ex_final \<lparr> x_cycle := 1 \<rparr>)"
    unfolding ex_initial
    by (subst decode_loop.simps) (simp add: ex_latency ss_limit_def fetchNext_def s,
        simp add: fetchNext_def SsInstr_Null_def s decode_loop.simps [of _ "Suc 0"] ex_latency ex_final_def)
  moreover have "asic_latencies [ex_instr 1 5, ex_instr 5 0] = [0, 1, 0, 0, 0, 1, 0, 0]"
    by (simp add: asic_latencies_def asic_step_def ex_instr_def ex_replicate8 Let_def)
  moreover have "max_latency [0, 1, 0, 0, 0, 1, 0, 0] = (1, 1)"
    by (simp add: max_latency_def ex_upt)
  ultimately show ?thesis
    by (simp add: generateSuperscalar_def ex_final_def ex_program_def)
      (simp add: ex_state_def ex_regs_def new_RegisterInfo_def ex_ri_def ex_replicate8)
qed

end
