(* ===== verification/SuperscalarSpec.thy ===== *)
theory SuperscalarSpec
  imports SuperscalarExample
begin

text \<open>
  The contract of the superscalar generator and executor: bounds and shape of every generated
  program, totality of its execution, the choice of the address register, and the only way in
  which the generator could fail to return.
\<close>

subsection \<open>Generated programs\<close>

text \<open>
  A generated program has at most three instructions per cycle of the latency limit and
  two more, which for every admissible limit is within the fixed buffer of
  \<open>SuperscalarMaxSize\<close> instructions.
\<close>

theorem generateSuperscalar_size:
  assumes "generateSuperscalar cfg gen = Some (sp, gen')"
    and "SuperscalarLatency cfg \<le> RANDOMX_SUPERSCALAR_MAX_LATENCY"
  shows "length (programBuffer sp) \<le> 3 * SuperscalarLatency cfg + 2 \<and>
    length (programBuffer sp) \<le> SuperscalarMaxSize"
proof -
  from generate_inv [OF assms(1)] have "length (programBuffer sp) \<le> 3 * SuperscalarLatency cfg + 2"
    by (metis ss_inv_def ss_limit_def)
  then show ?thesis using assms(2) by (simp add: rx_const_defs)
qed

theorem generateSuperscalar_size_witness:
  "\<exists>sp gen'. generateSuperscalar ex_config (ex_gen 0) = Some (sp, gen') \<and>
     length (programBuffer sp) \<le> 3 * SuperscalarLatency ex_config + 2 \<and>
     length (programBuffer sp) \<le> SuperscalarMaxSize"
  using generateSuperscalar_size [OF ex_generate] ex_generate
  by (simp add: ex_latency rx_const_defs)

text \<open>
  C31. Every instruction of a generated program decodes, names existing registers and is none
  of those the generator must avoid: r5 is never the destination of \<open>IADD_RS\<close>, source and
  destination of the register instructions differ, rotations are by 1 to 63, and the divisors
  of \<open>IMUL_RCP\<close> are neither zero nor powers of two. The multiplication count is exact.
\<close>

theorem generateSuperscalar_instructions:
  assumes "generateSuperscalar cfg gen = Some (sp, gen')"
  shows "list_all ss_instr_ok (programBuffer sp) \<and>
    sp_mulCount sp = length (filter ss_is_mul (programBuffer sp))"
proof -
  obtain st where "ss_inv cfg st" "programBuffer sp = x_prog st" "sp_mulCount sp = x_mulCount st"
    using generate_inv [OF assms] by metis
  then show ?thesis by (simp add: ss_inv_def)
qed

theorem generateSuperscalar_instructions_witness:
  "\<exists>sp gen'. generateSuperscalar ex_config (ex_gen 0) = Some (sp, gen') \<and>
     list_all ss_instr_ok (programBuffer sp) \<and>
     sp_mulCount sp = length (filter ss_is_mul (programBuffer sp))"
  using generateSuperscalar_instructions [OF ex_generate] ex_generate by blast

subsection \<open>Execution of generated programs\<close>

lemma ss_exec_ok:
  assumes "ss_instr_ok i" "length r = 8"
  shows "succeeds (ss_exec i r) (\<lambda>r'. length r' = 8)"
  using assms
  by (auto simp: ss_instr_ok_def ss_exec_def rd_def wr_def succeeds_def Let_def split: option.splits)

lemma ss_exec_list_ok:
  "list_all ss_instr_ok is \<Longrightarrow> length r = 8 \<Longrightarrow> succeeds (ss_exec_list is r) (\<lambda>r'. length r' = 8)"
proof (induction "is" arbitrary: r)
  case Nil
  then show ?case by simp
next
  case (Cons i "is")
  show ?case
    using Cons by (auto intro!: succeeds_bind [OF ss_exec_ok])
qed

lemma generated_program_runs:
  assumes "generateSuperscalar cfg gen = Some (sp, gen')" "length r = 8"
  shows "succeeds (executeSuperscalar r sp) (\<lambda>r'. length r' = 8)"
proof -
  obtain st where "ss_inv cfg st" "programBuffer sp = x_prog st"
    using generate_inv [OF assms(1)] by metis
  then show ?thesis
    using assms(2) unfolding executeSuperscalar_def
    by (intro ss_exec_list_ok) (simp_all add: ss_inv_def)
qed

text \<open>
  Executing a generated program on eight registers is always defined: the
  \<^verbatim>\<open>UNREACHABLE\<close> of the interpreter's switch is not reached, no register index is out of
  range, and there are eight registers afterwards.
\<close>

theorem executeSuperscalar_total:
  assumes "generateSuperscalar cfg gen = Some (sp, gen')" "length r = 8"
  shows "\<exists>r'. executeSuperscalar r sp = Some r' \<and> length r' = 8"
  using generated_program_runs [OF assms] by (auto simp: succeeds_def)

theorem executeSuperscalar_total_witness:
  "\<exists>r'. executeSuperscalar [1, 2, 3, 4, 5, 6, 7, 8] ex_program = Some r' \<and> length r' = 8"
  by (rule executeSuperscalar_total [OF ex_generate]) simp

subsection \<open>The address register\<close>

lemma length_asic_latencies [simp]: "length (asic_latencies prog) = 8"
proof -
  have "length (fold asic_step prog lat) = length lat" for lat
    by (induction prog arbitrary: lat) (simp_all add: asic_step_def Let_def)
  then show ?thesis by (simp add: asic_latencies_def)
qed

lemma asic_step_nonneg:
  assumes "unat (i_dst i) < 8" "unat (i_src i) < 8" "length lat = 8" "\<forall>k < 8. 0 \<le> lat ! k"
  shows "\<forall>k < 8. 0 \<le> asic_step i lat ! k"
  using assms by (auto simp: asic_step_def Let_def nth_list_update)

lemma asic_latencies_nonneg:
  assumes "list_all ss_instr_ok prog"
  shows "\<forall>k < 8. 0 \<le> asic_latencies prog ! k"
proof -
  have "\<forall>k < 8. 0 \<le> fold asic_step prog lat ! k" if "length lat = 8" "\<forall>k < 8. 0 \<le> lat ! k" for lat
    using assms that
  proof (induction prog arbitrary: lat)
    case Nil
    then show ?case by simp
  next
    case (Cons i prog)
    have "unat (i_dst i) < 8" "unat (i_src i) < 8"
      using Cons.prems(1) by (auto simp: ss_instr_ok_def split: option.splits)
    from asic_step_nonneg [OF this Cons.prems(2,3)] Cons show ?case
      by (simp add: asic_step_def Let_def)
  qed
  then show ?thesis by (simp add: asic_latencies_def)
qed

lemma max_latency_spec:
  assumes nonneg: "\<forall>k < 8. 0 \<le> lat ! k" and res: "max_latency lat = (m, r)"
  shows "r < 8 \<and> lat ! r = m \<and> (\<forall>k < 8. lat ! k \<le> m) \<and> (\<forall>k < r. lat ! k < m)"
proof -
  define f where "f = (\<lambda>i (m, r). if lat ! i > m then (lat ! i, i) else (m :: int, r :: nat))"
  have "\<exists>m r. fold f [0..<n] (0, 0) = (m, r) \<and>
      (if m = 0 then r = 0 \<and> (\<forall>k < n. lat ! k \<le> 0)
       else 0 < m \<and> r < n \<and> lat ! r = m \<and> (\<forall>k < n. lat ! k \<le> m) \<and> (\<forall>k < r. lat ! k < m))"
    if "n \<le> 8" for n
    using that
  proof (induction n)
    case 0
    then show ?case by simp
  next
    case (Suc n)
    then obtain m r where "fold f [0..<n] (0, 0) = (m, r)" and
      inv: "if m = 0 then r = 0 \<and> (\<forall>k < n. lat ! k \<le> 0)
        else 0 < m \<and> r < n \<and> lat ! r = m \<and> (\<forall>k < n. lat ! k \<le> m) \<and> (\<forall>k < r. lat ! k < m)"
      by auto
    then have e: "fold f [0..<Suc n] (0, 0) = (if lat ! n > m then (lat ! n, n) else (m, r))"
      by (simp add: f_def)
    show ?case
    proof (cases "lat ! n > m")
      case True
      then show ?thesis using e inv by (auto simp: less_Suc_eq split: if_splits)
    next
      case False
      then show ?thesis using e inv by (auto simp: less_Suc_eq split: if_splits)
    qed
  qed
  from this [of 8] res [unfolded max_latency_def] show ?thesis
    using nonneg unfolding f_def by (fastforce split: if_splits)
qed

text \<open>
  The address register of a generated program, from which the next cache line is
  chosen, is the first register whose idealised latency is the maximum.
\<close>

theorem generateSuperscalar_address_register:
  assumes "generateSuperscalar cfg gen = Some (sp, gen')"
  shows "addrReg sp < 8 \<and> asicLatencies sp ! addrReg sp = asicLatency sp \<and>
    list_all (\<lambda>l. l \<le> asicLatency sp) (asicLatencies sp) \<and>
    list_all (\<lambda>l. l < asicLatency sp) (take (addrReg sp) (asicLatencies sp))"
proof -
  obtain st where inv: "ss_inv cfg st"
    and a: "addrReg sp = snd (max_latency (asic_latencies (x_prog st)))"
      "asicLatencies sp = asic_latencies (x_prog st)"
      "asicLatency sp = fst (max_latency (asic_latencies (x_prog st)))"
    using generate_inv [OF assms] by metis
  have "\<forall>k < 8. 0 \<le> asic_latencies (x_prog st) ! k"
    by (rule asic_latencies_nonneg) (use inv in \<open>simp add: ss_inv_def\<close>)
  from max_latency_spec [OF this, of "asicLatency sp" "addrReg sp"] a
  show ?thesis by (simp add: list_all_length)
qed

theorem generateSuperscalar_address_register_witness:
  "addrReg ex_program < 8 \<and> asicLatencies ex_program ! addrReg ex_program = asicLatency ex_program \<and>
   list_all (\<lambda>l. l \<le> asicLatency ex_program) (asicLatencies ex_program) \<and>
   list_all (\<lambda>l. l < asicLatency ex_program) (take (addrReg ex_program) (asicLatencies ex_program))"
  by (rule generateSuperscalar_address_register [OF ex_generate])

subsection \<open>The generator returns\<close>

text \<open>The states the byte source goes through.\<close>

inductive gen_step :: "Blake2Generator \<Rightarrow> Blake2Generator \<Rightarrow> bool" where
  gen_byte: "gen_step g (snd (getByte g))"
| gen_word: "gen_step g (snd (getUInt32 g))"

abbreviation gen_reach :: "Blake2Generator \<Rightarrow> Blake2Generator \<Rightarrow> bool" where
  "gen_reach \<equiv> gen_step\<^sup>*\<^sup>*"

lemma gen_reach_byte [simp, intro]: "gen_reach g (snd (getByte g))"
  by (rule r_into_rtranclp) (rule gen_byte)

lemma gen_reach_word [simp, intro]: "gen_reach g (snd (getUInt32 g))"
  by (rule r_into_rtranclp) (rule gen_word)

text \<open>
  A byte source is stuck when every further byte is a multiple of 64, or every further word
  is zero or a power of two.
\<close>

definition gen_stuck :: "Blake2Generator \<Rightarrow> bool" where
  "gen_stuck g \<longleftrightarrow>
     (\<forall>n. ucast (fst (getByte (((\<lambda>g. snd (getByte g)) ^^ n) g))) AND (63 :: u32) = 0)
   \<or> (\<forall>n. isZeroOrPowerOf2 (ucast (fst (getUInt32 (((\<lambda>g. snd (getUInt32 g)) ^^ n) g)))))"

lemma draw_rotation_None:
  assumes "draw_rotation g = None"
  shows "ucast (fst (getByte (((\<lambda>g. snd (getByte g)) ^^ n) g))) AND (63 :: u32) = 0"
  using assms
proof (induction n arbitrary: g)
  case 0
  then show ?case by (subst (asm) draw_rotation.simps) (simp split: if_splits)
next
  case (Suc n)
  have "draw_rotation (snd (getByte g)) = None"
    using Suc.prems by (subst (asm) draw_rotation.simps) (simp split: if_splits)
  from Suc.IH [OF this] show ?case by (simp only: funpow_Suc_right o_def)
qed

lemma draw_divisor_None:
  assumes "draw_divisor g = None"
  shows "isZeroOrPowerOf2 (ucast (fst (getUInt32 (((\<lambda>g. snd (getUInt32 g)) ^^ n) g))))"
  using assms
proof (induction n arbitrary: g)
  case 0
  then show ?case by (subst (asm) draw_divisor.simps) (simp split: if_splits)
next
  case (Suc n)
  have "draw_divisor (snd (getUInt32 g)) = None"
    using Suc.prems by (subst (asm) draw_divisor.simps) (simp split: if_splits)
  from Suc.IH [OF this] show ?case by (simp only: funpow_Suc_right o_def)
qed

lemma draw_rotation_reach: "draw_rotation g = Some r \<Longrightarrow> gen_reach g (snd r)"
proof (erule draw_rotation.raw_induct [where P = "\<lambda>g r. gen_reach g (snd r)", rotated])
  fix f g and r :: "u32 \<times> Blake2Generator"
  assume IH: "\<And>g r. f g = Some r \<Longrightarrow> gen_reach g (snd r)"
    and step: "(if ucast (fst (getByte g)) AND (63 :: u32) = 0 then f (snd (getByte g))
      else Some (ucast (fst (getByte g)) AND 63, snd (getByte g))) = Some r"
  show "gen_reach g (snd r)"
  proof (cases "ucast (fst (getByte g)) AND (63 :: u32) = 0")
    case True
    then have "gen_reach (snd (getByte g)) (snd r)" using step IH by simp
    then show ?thesis by (rule rtranclp_trans [OF gen_reach_byte])
  next
    case False
    then show ?thesis using step by auto
  qed
qed

lemma draw_divisor_reach: "draw_divisor g = Some r \<Longrightarrow> gen_reach g (snd r)"
proof (erule draw_divisor.raw_induct [where P = "\<lambda>g r. gen_reach g (snd r)", rotated])
  fix f g r
  assume IH: "\<And>g r. f g = Some r \<Longrightarrow> gen_reach g (snd r)"
    and step: "(if isZeroOrPowerOf2 (ucast (fst (getUInt32 g))) then f (snd (getUInt32 g))
      else Some (getUInt32 g)) = Some r"
  show "gen_reach g (snd r)"
  proof (cases "isZeroOrPowerOf2 (ucast (fst (getUInt32 g)))")
    case True
    then have "gen_reach (snd (getUInt32 g)) (snd r)" using step IH by simp
    then show ?thesis by (rule rtranclp_trans [OF gen_reach_word])
  next
    case False
    then show ?thesis using step by auto
  qed
qed

lemma selectRegister_reach: "selectRegister av g = Some (r, g') \<Longrightarrow> gen_reach g g'"
  by (auto simp: selectRegister_def split_def Let_def split: if_splits)

lemma source_loop_reach: "source_loop n st sc = (ok, st', sc') \<Longrightarrow> gen_reach (x_gen st) (x_gen st')"
  by (induction n st sc rule: source_loop.induct)
    (auto simp: selectSource_def Let_def split: option.splits if_splits dest!: selectRegister_reach)

lemma dest_loop_reach: "dest_loop n st sc = (ok, st', sc') \<Longrightarrow> gen_reach (x_gen st) (x_gen st')"
  by (induction n st sc rule: dest_loop.induct)
    (auto simp: selectDestination_def split: option.splits dest!: selectRegister_reach)

lemma give_up_gen: "x_gen (result_state (give_up st)) = x_gen st"
  by (simp add: give_up_def)

lemma retire_gen: "x_gen (result_state (retire cfg tc m st sc)) = x_gen st"
  by (simp add: retire_def Let_def split: prod.splits)

lemma issue_reach: "gen_reach (x_gen st) (x_gen (result_state (issue cfg tc st)))"
  by (auto simp: issue_def Let_def give_up_gen retire_gen split: prod.splits if_splits
      dest!: source_loop_reach dest_loop_reach intro: rtranclp_trans)

lemma create_reach: "create t c g = Some (c', g') \<Longrightarrow> gen_reach g g'"
  by (cases t) (auto simp: create_def Let_def split_def split: bind_splits
      dest!: draw_rotation_reach draw_divisor_reach)

lemma create_None: "create t c g = None \<Longrightarrow> gen_stuck g"
  by (cases t) (auto simp: create_def Let_def split_def gen_stuck_def split: bind_splits
      dest: draw_rotation_None draw_divisor_None)

lemma slot_type_reach: "slot_type sz ft l g = Some (t, g') \<Longrightarrow> gen_reach g g'"
  by (auto simp: slot_type_def split_def Let_def split: if_splits)

definition slots_known :: "DecoderBuffer \<Rightarrow> bool" where
  "slots_known b \<longleftrightarrow> set (db_counts b) \<subseteq> {3, 4, 7, 8, 9, 10}"

lemma fetchNext_known: "slots_known (fst (fetchNext t c m g))"
proof -
  have 3: "unat (b AND 3) \<in> {0, 1, 2, 3}" for b :: u8
    using unat_and_le1 [of b 3] by auto
  show ?thesis
    using 3 [of "fst (getByte g)"]
    by (auto simp: fetchNext_def fetchNextDefault_def slots_known_def buffer_defs split_def Let_def)
qed

lemma fetchNext_reach: "gen_reach g (snd (fetchNext t c m g))"
  by (auto simp: fetchNext_def fetchNextDefault_def split_def Let_def)

lemma slot_type_known: "sz \<in> {3, 4, 7, 8, 9, 10} \<Longrightarrow> slot_type sz ft l g \<noteq> None"
  by (auto simp: slot_type_def split_def Let_def)

lemma slot_step_reach:
  assumes "slot_step cfg b i st = Some r"
  shows "gen_reach (x_gen st) (x_gen (result_state r))"
proof -
  have "gen_reach (x_gen st) g" if "createForSlot c (x_gen st) sz ft l = Some (c', g)" for c sz ft l c' g
    using that by (auto simp: createForSlot_def split: bind_splits
        dest!: slot_type_reach create_reach intro: rtranclp_trans)
  note cr = this
  show ?thesis
  proof (cases "x_macroOpIndex st \<ge> sc_ops (x_cur st)")
    case False
    then have "r = issue cfg (x_cycle st) st" using assms by (simp add: slot_step_def)
    then show ?thesis by (simp add: issue_reach)
  next
    case idx: True
    show ?thesis
    proof (cases "x_portsSaturated st \<or> length (x_prog st) \<ge> ss_limit cfg")
      case True
      then have "r = Stopped st" using assms idx by (auto simp: slot_step_def)
      then show ?thesis by simp
    next
      case False
      then obtain c g where c: "createForSlot (x_cur st) (x_gen st) (db_counts b ! i) (db_index b)
          (length (db_counts b) = i + 1) = Some (c, g)"
        and r: "r = issue cfg (x_cycle st) (st \<lparr> x_cur := c, x_gen := g, x_macroOpIndex := 0 \<rparr>)"
        using assms idx by (auto simp: slot_step_def split: bind_splits)
      have "gen_reach g (x_gen (result_state r))"
        using issue_reach [of "st \<lparr> x_cur := c, x_gen := g, x_macroOpIndex := 0 \<rparr>"] r by simp
      then show ?thesis by (rule rtranclp_trans [OF cr [OF c]])
    qed
  qed
qed

lemma slot_step_None:
  assumes "slot_step cfg b i st = None" "slots_known b" "i < length (db_counts b)"
  shows "\<exists>g. gen_reach (x_gen st) g \<and> gen_stuck g"
proof -
  have "createForSlot (x_cur st) (x_gen st) (db_counts b ! i) (db_index b)
      (length (db_counts b) = i + 1) = None"
    using assms(1) by (auto simp: slot_step_def split: if_splits bind_splits)
  moreover have "slot_type (db_counts b ! i) (db_index b) (length (db_counts b) = i + 1) (x_gen st) \<noteq> None"
    using assms(2) nth_mem [OF assms(3)] unfolding slots_known_def by (intro slot_type_known) blast
  ultimately obtain t g where "slot_type (db_counts b ! i) (db_index b)
      (length (db_counts b) = i + 1) (x_gen st) = Some (t, g)" "create t (x_cur st) g = None"
    by (auto simp: createForSlot_def split: bind_splits)
  then show ?thesis using slot_type_reach create_None by blast
qed

lemma slot_loop_reach:
  "slots_known b \<Longrightarrow>
   (case slot_loop cfg b i st of
      None \<Rightarrow> \<exists>g. gen_reach (x_gen st) g \<and> gen_stuck g
    | Some st' \<Rightarrow> gen_reach (x_gen st) (x_gen st'))"
proof (induction cfg b i st rule: slot_loop.induct)
  case (1 cfg b i st)
  show ?case
  proof (cases "i < length (db_counts b)")
    case False
    then show ?thesis by (simp add: slot_loop.simps [of cfg b i st])
  next
    case True
    show ?thesis
    proof (cases "slot_step cfg b i st")
      case None
      then show ?thesis
        using True slot_step_None [OF None "1.prems" True] by (simp add: slot_loop.simps [of cfg b i st])
    next
      case (Some r)
      note reach = slot_step_reach [OF Some]
      show ?thesis
      proof (cases r)
        case (Stopped st1)
        then show ?thesis using True Some reach by (simp add: slot_loop.simps [of cfg b i st])
      next
        case (Issued st1)
        with "1.IH"(1) [OF True Some Issued "1.prems"] True Some reach show ?thesis
          by (auto simp: slot_loop.simps [of cfg b i st] split: option.splits intro: rtranclp_trans)
      next
        case (Thrown st1)
        with "1.IH"(2) [OF True Some Thrown "1.prems"] True Some reach show ?thesis
          by (auto simp: slot_loop.simps [of cfg b i st] split: option.splits intro: rtranclp_trans)
      qed
    qed
  qed
qed

lemma decode_loop_returns:
  "decode_loop cfg d st = None \<Longrightarrow> \<exists>g. gen_reach (x_gen st) g \<and> gen_stuck g"
proof (induction cfg d st rule: decode_loop.induct)
  case (1 cfg d st)
  then have c: "d < SuperscalarLatency cfg \<and> \<not> x_portsSaturated st \<and> length (x_prog st) < ss_limit cfg"
    by (subst (asm) decode_loop.simps) (simp split: if_splits)
  let ?b = "fetchNext (sc_type (x_cur st)) (int d) (int (x_mulCount st)) (x_gen st)"
  have sl: "case slot_loop cfg (fst ?b) 0 (st \<lparr> x_gen := snd ?b \<rparr>) of
      None \<Rightarrow> \<exists>g. gen_reach (snd ?b) g \<and> gen_stuck g
    | Some st' \<Rightarrow> gen_reach (snd ?b) (x_gen st')"
    using slot_loop_reach [of "fst ?b" "st \<lparr> x_gen := snd ?b \<rparr>" cfg 0, OF fetchNext_known]
    by (simp split: option.splits)
  have f: "gen_reach (x_gen st) (snd ?b)" by (rule fetchNext_reach)
  show ?case
  proof (cases "slot_loop cfg (fst ?b) 0 (st \<lparr> x_gen := snd ?b \<rparr>)")
    case None
    then show ?thesis using sl f by (auto intro: rtranclp_trans)
  next
    case (Some st1)
    then have "decode_loop cfg (d + 1) (st1 \<lparr> x_cycle := x_cycle st1 + 1 \<rparr>) = None"
      using "1.prems" c by (subst (asm) decode_loop.simps) simp
    from "1.IH" [OF c Some this] show ?thesis using Some sl f by (auto intro: rtranclp_trans)
  qed
qed

text \<open>
  C32. The generator returns, for every configuration and seed, unless its byte source
  reaches a state from which every further byte is a multiple of 64 or every further word is
  zero or a power of two: all other loops (slots, throw-aways, decode cycles, scheduling) are
  bounded.
\<close>

theorem generateSuperscalar_returns:
  "(\<exists>sp gen'. generateSuperscalar cfg gen = Some (sp, gen')) \<or>
   (\<exists>g. gen_reach gen g \<and> gen_stuck g)"
proof (cases "decode_loop cfg 0 (ss_initial gen)")
  case None
  from decode_loop_returns [OF this] show ?thesis by (simp add: ss_initial_def)
next
  case (Some p)
  then show ?thesis by (cases p) (simp add: generateSuperscalar_def Let_def split: prod.splits)
qed

end
