(* ===== verification/Dataset.thy ===== *)
theory Dataset
  imports Superscalar
begin

text \<open>
  The cache and the dataset, \<^verbatim>\<open>dataset.cpp\<close> with the entry points of \<^verbatim>\<open>randomx.cpp\<close> that
  call it: filling the cache (the memory-hard Argon2d fill of the vendored
  \<^verbatim>\<open>3rdparty/argon2\<close> is a parameter), computing one 64-byte dataset item from the cache, and
  filling a range of the dataset. Reads of the cache and writes of the dataset are checked.
\<close>

subsection \<open>The cache\<close>

record randomx_cache =
  cache_memory :: bytes
  programs :: "SuperscalarProgram list"

record argon2_context =
  a_pwd :: bytes
  a_salt :: string
  a_t_cost :: nat
  a_m_cost :: nat
  a_lanes :: nat
  a_threads :: nat

fun generate_programs ::
  "rx_config \<Rightarrow> nat \<Rightarrow> Blake2Generator \<Rightarrow> (SuperscalarProgram list \<times> Blake2Generator) option" where
  "generate_programs cfg 0 gen = Some ([], gen)"
| "generate_programs cfg (Suc n) gen =
     do { (p, gen) \<leftarrow> generateSuperscalar cfg gen;
          (ps, gen) \<leftarrow> generate_programs cfg n gen;
          Some (p # ps, gen) }"

definition initCache ::
  "rx_config \<Rightarrow> (argon2_context \<Rightarrow> nat \<Rightarrow> bytes) \<Rightarrow> bytes \<Rightarrow> randomx_cache option" where
  "initCache cfg argon2_ctx_mem key =
    (let context = \<lparr> a_pwd = key, a_salt = ArgonSalt cfg, a_t_cost = ArgonIterations cfg,
                     a_m_cost = ArgonMemory, a_lanes = ArgonLanes cfg, a_threads = 1 \<rparr>;
         memory = argon2_ctx_mem context (ArgonMemory * 1024)
     in map_option (\<lambda>(ps, _). \<lparr> cache_memory = memory, programs = ps \<rparr>)
          (generate_programs cfg CacheAccesses (new_generator key 0)))"

subsection \<open>One dataset item\<close>

definition superscalarMul0 :: u64 where "superscalarMul0 = 6364136223846793005"

definition superscalarAdd :: "u64 list" where
  "superscalarAdd =
    [9298411001130361340, 12065312585734608966, 9306329213124626780, 5281919268842080866,
     10536153434571861004, 3398623926847679864, 9549104520008361294]"

definition getMixBlock :: "u64 \<Rightarrow> nat" where
  "getMixBlock registerValue =
    (let msk = of_nat (ArgonMemory * ArgonBlockSize div CacheLineSize) - 1 :: u32
     in unat ((registerValue AND ucast msk) * of_nat CacheLineSize))"

text \<open>\<open>xor_line m off r\<close>: the 64 bytes of memory at \<open>off\<close>, as eight words, into the registers.\<close>

definition xor_line :: "bytes \<Rightarrow> nat \<Rightarrow> u64 list \<Rightarrow> u64 list option" where
  "xor_line m off r =
     map_option (\<lambda>line. map2 (XOR) r (map (\<lambda>q. load64 (drop (8 * q) line)) [0..<8])) (get_bytes m off 64)"

fun item_loop :: "bytes \<Rightarrow> SuperscalarProgram list \<Rightarrow> u64 \<Rightarrow> u64 list \<Rightarrow> u64 list option" where
  "item_loop m [] registerValue rl = Some rl"
| "item_loop m (prog # ps) registerValue rl =
     do { let mixBlock = getMixBlock registerValue;
          rl \<leftarrow> executeSuperscalar rl prog;
          rl \<leftarrow> xor_line m mixBlock rl;
          registerValue \<leftarrow> rd rl (addrReg prog);
          item_loop m ps registerValue rl }"

definition item_registers :: "u64 \<Rightarrow> u64 list" where
  "item_registers itemNumber =
    (let r0 = (itemNumber + 1) * superscalarMul0 in r0 # map (\<lambda>c. r0 XOR c) superscalarAdd)"

definition initDatasetItem :: "randomx_cache \<Rightarrow> u64 \<Rightarrow> bytes option" where
  "initDatasetItem cache itemNumber =
     map_option (\<lambda>rl. concat (map store64 rl))
       (if CacheAccesses \<le> length (programs cache)
        then item_loop (cache_memory cache) (take CacheAccesses (programs cache)) itemNumber
               (item_registers itemNumber)
        else None)"

subsection \<open>A range of the dataset\<close>

lemma unat_next: "i < e \<Longrightarrow> unat (i + 1) = Suc (unat (i :: 'a::len word))"
proof -
  assume "i < e"
  then have "unat i < unat e" by (simp add: word_less_nat_alt)
  then have "unat i + 1 < 2 ^ LENGTH('a)"
    using unat_less_exp [of e] by linarith
  then show ?thesis by (simp add: unat_word_ariths)
qed

text \<open>\<open>off\<close> is the \<open>dataset\<close> pointer, an offset into the dataset memory.\<close>

function initDataset_from :: "randomx_cache \<Rightarrow> bytes \<Rightarrow> nat \<Rightarrow> u32 \<Rightarrow> u32 \<Rightarrow> bytes option" where
  "initDataset_from cache dataset off itemNumber endItem =
    (if itemNumber < endItem
     then case initDatasetItem cache (ucast itemNumber) of
            None \<Rightarrow> None
          | Some line \<Rightarrow>
              (case put_bytes dataset off line of
                 None \<Rightarrow> None
               | Some dataset' \<Rightarrow>
                   initDataset_from cache dataset' (off + CacheLineSize) (itemNumber + 1) endItem)
     else Some dataset)"
  by pat_completeness auto
termination
  by (relation "measure (\<lambda>(_, _, _, i, e). unat e - unat i)")
    (auto simp: unat_next word_less_nat_alt)

declare initDataset_from.simps [simp del]

definition initDataset :: "randomx_cache \<Rightarrow> bytes \<Rightarrow> nat \<Rightarrow> u32 \<Rightarrow> u32 \<Rightarrow> bytes option" where
  "initDataset cache dataset off startItem endItem = initDataset_from cache dataset off startItem endItem"

text \<open>
  The entry points: number of items, size of the dataset memory, and the range check (an
  \<^verbatim>\<open>assert\<close> in the code) with the pointer arithmetic of \<open>randomx_init_dataset\<close>.
\<close>

definition randomx_dataset_item_count :: nat where
  "randomx_dataset_item_count = (DatasetBaseSize + DatasetExtraSize) div RANDOMX_DATASET_ITEM_SIZE"

definition dataset_size :: nat where
  "dataset_size = randomx_dataset_item_count * CacheLineSize"

definition randomx_init_dataset :: "bytes \<Rightarrow> randomx_cache \<Rightarrow> nat \<Rightarrow> nat \<Rightarrow> bytes option" where
  "randomx_init_dataset memory cache startItem itemCount =
    (if startItem < randomx_dataset_item_count \<and> itemCount \<le> randomx_dataset_item_count
        \<and> startItem + itemCount \<le> randomx_dataset_item_count
     then initDataset cache memory (startItem * CacheLineSize) (of_nat startItem)
            (of_nat (startItem + itemCount))
     else None)"

subsection \<open>Caches that are ready\<close>

definition cache_ok :: "randomx_cache \<Rightarrow> bool" where
  "cache_ok cache \<longleftrightarrow>
     length (cache_memory cache) = ArgonMemory * ArgonBlockSize
   \<and> CacheAccesses \<le> length (programs cache)
   \<and> list_all (\<lambda>p. addrReg p < 8 \<and> (\<forall>r. length r = 8 \<longrightarrow>
        succeeds (executeSuperscalar r p) (\<lambda>r'. length r' = 8))) (programs cache)"

lemma getMixBlock_eq: "getMixBlock v = unat (v AND 0x3fffff) * 64" and mix_index_less: "unat (v AND (0x3fffff :: u64)) < 0x400000"
proof -
  show less: "unat (v AND (0x3fffff :: u64)) < 0x400000" by (rule unat_and_less) simp
  then have "unat ((v AND 0x3fffff) * 64 :: u64) = unat (v AND (0x3fffff :: u64)) * 64"
    by (simp add: unat_word_ariths)
  then show "getMixBlock v = unat (v AND 0x3fffff) * 64"
    by (simp add: getMixBlock_def rx_const_defs)
qed

lemma getMixBlock_bound: "getMixBlock v + 64 \<le> ArgonMemory * ArgonBlockSize"
  using mix_index_less [of v] by (simp add: getMixBlock_eq rx_const_defs)

lemma xor_line_ok:
  "off + 64 \<le> length m \<Longrightarrow> length r = 8 \<Longrightarrow> succeeds (xor_line m off r) (\<lambda>r'. length r' = 8)"
  by (simp add: xor_line_def succeeds_map get_bytes_Some)

lemma item_loop_ok:
  assumes "length m = ArgonMemory * ArgonBlockSize"
  shows "list_all (\<lambda>p. addrReg p < 8 \<and> (\<forall>r. length r = 8 \<longrightarrow>
      succeeds (executeSuperscalar r p) (\<lambda>r'. length r' = 8))) ps \<Longrightarrow> length rl = 8 \<Longrightarrow>
    succeeds (item_loop m ps v rl) (\<lambda>rl'. length rl' = 8)"
proof (induction ps arbitrary: v rl)
  case Nil
  then show ?case by simp
next
  case (Cons p ps)
  then have p: "addrReg p < 8" "succeeds (executeSuperscalar rl p) (\<lambda>r'. length r' = 8)" by simp_all
  show ?case
    unfolding item_loop.simps Let_def
  proof (rule succeeds_bind [OF p(2)])
    fix r1 :: "u64 list"
    assume "length r1 = 8"
    then have x: "succeeds (xor_line m (getMixBlock v) r1) (\<lambda>r'. length r' = 8)"
      using getMixBlock_bound [of v] assms by (intro xor_line_ok) simp_all
    show "succeeds (xor_line m (getMixBlock v) r1 \<bind>
        (\<lambda>rl. rd rl (addrReg p) \<bind> (\<lambda>v. item_loop m ps v rl))) (\<lambda>rl'. length rl' = 8)"
      using p(1) Cons by (auto intro!: succeeds_bind [OF x] simp: rd_Some)
  qed
qed

lemma length_item_registers [simp]: "length (item_registers i) = 8"
  by (simp add: item_registers_def superscalarAdd_def Let_def)

lemma initDatasetItem_ok:
  assumes "cache_ok cache"
  shows "succeeds (initDatasetItem cache i) (\<lambda>line. length line = 64)"
proof -
  have "succeeds (item_loop (cache_memory cache) (take CacheAccesses (programs cache)) i (item_registers i))
      (\<lambda>rl. length rl = 8)"
    using assms by (intro item_loop_ok) (auto simp: cache_ok_def list_all_iff dest: in_set_takeD)
  then show ?thesis
    using assms by (auto simp: initDatasetItem_def cache_ok_def succeeds_map elim: succeeds_weaken)
qed

end
