(* ===== verification/DatasetProps.thy ===== *)
theory DatasetProps
  imports Dataset SuperscalarSpec
begin

text \<open>
  The dataset is the function \<open>initDatasetItem\<close> tabulated: initialisation writes every item
  of its range and nothing else, ranges compose, and both ways of reading a dataset line (from
  the table, or computed from the cache) satisfy the same contract, a locale that the virtual
  machine relies on.
\<close>

subsection \<open>Initialising a cache\<close>

lemma generate_programs_ok:
  "generate_programs cfg n gen = Some (ps, gen') \<Longrightarrow> length ps = n \<and>
   list_all (\<lambda>p. addrReg p < 8 \<and> (\<forall>r. length r = 8 \<longrightarrow>
     succeeds (executeSuperscalar r p) (\<lambda>r'. length r' = 8))) ps"
proof (induction n arbitrary: gen ps gen')
  case 0
  then show ?case by simp
next
  case (Suc n)
  then obtain p g1 ps1 g2 where p: "generateSuperscalar cfg gen = Some (p, g1)"
    "generate_programs cfg n g1 = Some (ps1, g2)" "ps = p # ps1"
    by (auto split: bind_splits)
  obtain st where "ss_inv cfg st" "addrReg p = snd (max_latency (asic_latencies (x_prog st)))"
    using generate_inv [OF p(1)] by metis
  moreover from this have nn: "\<forall>k < 8. 0 \<le> asic_latencies (x_prog st) ! k"
    by (intro asic_latencies_nonneg) (simp add: ss_inv_def)
  ultimately have "addrReg p < 8"
    using max_latency_spec [OF nn surjective_pairing] by (simp only:)
  then show ?case
    using Suc.IH [OF p(2)] p(3) generated_program_runs [OF p(1)] by simp
qed

lemma initCache_ok:
  assumes "initCache cfg fill key = Some cache" "\<And>ctx n. length (fill ctx n) = n"
  shows "cache_ok cache"
proof -
  obtain ps g where "generate_programs cfg CacheAccesses (new_generator key 0) = Some (ps, g)"
    "programs cache = ps" "length (cache_memory cache) = ArgonMemory * 1024"
    using assms by (auto simp: initCache_def Let_def)
  then show ?thesis
    using generate_programs_ok [of cfg CacheAccesses "new_generator key 0" ps g]
    by (simp add: cache_ok_def ArgonBlockSize_def)
qed

text \<open>
  A cache filled by \<open>initCache\<close> is usable: whatever the key and whatever the Argon2d fill
  produces, as long as it fills the memory, every dataset item can be computed from it (no
  program leaves the registers or the cache memory) and is one 64-byte line.
\<close>

theorem initCache_items:
  assumes "initCache cfg fill key = Some cache" "\<And>ctx n. length (fill ctx n) = n"
  shows "\<exists>line. initDatasetItem cache itemNumber = Some line \<and> length line = 64"
  using initDatasetItem_ok [OF initCache_ok [OF assms]] by (auto simp: succeeds_def)

definition flat_config :: rx_config where
  "flat_config = RandomX_ConfigurationBase \<lparr> SuperscalarLatency := 0 \<rparr>"

definition zero_fill :: "argon2_context \<Rightarrow> nat \<Rightarrow> bytes" where
  "zero_fill ctx n = replicate n 0"

lemma flat_initCache: "\<exists>cache. initCache flat_config zero_fill key = Some cache"
proof -
  have "\<exists>p g'. generateSuperscalar flat_config g = Some (p, g')" for g
    by (simp add: generateSuperscalar_def decode_loop.simps flat_config_def Let_def split: prod.splits)
  then have "\<exists>ps g'. generate_programs flat_config n g = Some (ps, g')" for n g
  proof (induction n arbitrary: g)
    case (Suc n)
    obtain p g1 where "generateSuperscalar flat_config g = Some (p, g1)" using Suc.prems by blast
    then show ?case using Suc.IH [OF Suc.prems, of g1] by auto
  qed simp
  then show ?thesis
    by (metis (no_types, lifting) initCache_def map_option_eq_Some case_prod_conv)
qed

theorem initCache_items_witness:
  "\<exists>cache line. initCache flat_config zero_fill [1, 2, 3] = Some cache \<and>
     initDatasetItem cache 5 = Some line \<and> length line = 64"
proof -
  obtain cache where c: "initCache flat_config zero_fill [1, 2, 3] = Some cache"
    using flat_initCache by blast
  have "\<exists>line. initDatasetItem cache 5 = Some line \<and> length line = 64"
    by (rule initCache_items [OF c]) (simp add: zero_fill_def)
  with c show ?thesis by blast
qed

subsection \<open>Filling a range\<close>

lemma get_put_same:
  "put_bytes m off bs = Some m' \<Longrightarrow> get_bytes m' off (length bs) = Some bs"
  by (auto simp: put_bytes_def get_bytes_def split: if_splits)

lemma get_put_disjoint:
  assumes "put_bytes m off bs = Some m'" "a + n \<le> off \<or> off + length bs \<le> a"
  shows "get_bytes m' a n = get_bytes m a n"
proof (cases "a + n \<le> length m")
  case True
  have l: "length m' = length m" using put_bytes_length [OF assms(1)] .
  have m': "m' = take off m @ bs @ drop (off + length bs) m" "off + length bs \<le> length m"
    using assms(1) by (auto simp: put_bytes_def split: if_splits)
  have "take n (drop a m') = take n (drop a m)"
  proof (rule nth_equalityI)
    show "length (take n (drop a m')) = length (take n (drop a m))" using l by simp
  next
    fix i assume "i < length (take n (drop a m'))"
    then have i: "i < n" "a + i < length m" using l by auto
    have "m' ! (a + i) = m ! (a + i)"
      using m' assms(2) i by (auto simp: nth_append)
    then show "take n (drop a m') ! i = take n (drop a m) ! i" using i l by simp
  qed
  then show ?thesis using True l by (simp add: get_bytes_def)
next
  case False
  then show ?thesis using put_bytes_length [OF assms(1)] by (simp add: get_bytes_def)
qed

lemma initDataset_from_spec:
  "cache_ok cache \<Longrightarrow> a \<le> b \<Longrightarrow> off + 64 * (unat b - unat a) \<le> length d \<Longrightarrow>
    succeeds (initDataset_from cache d off a b) (\<lambda>d'. length d' = length d \<and>
      (\<forall>k < unat b - unat a. get_bytes d' (off + 64 * k) 64 = initDatasetItem cache (ucast (a + of_nat k))) \<and>
      (\<forall>p n. p + n \<le> off \<or> off + 64 * (unat b - unat a) \<le> p \<longrightarrow> get_bytes d' p n = get_bytes d p n))"
proof (induction cache d off a b rule: initDataset_from.induct)
  case (1 cache d off a b)
  show ?case
  proof (cases "a < b")
    case False
    then have "a = b" using "1.prems" by simp
    then show ?thesis by (subst initDataset_from.simps) simp
  next
    case True
    obtain line where line: "initDatasetItem cache (ucast a) = Some line" "length line = 64"
      using initDatasetItem_ok [OF "1.prems"(1)] by (blast elim: succeedsE)
    have len: "unat b - unat a = Suc (unat b - unat (a + 1))"
      using True unat_next [OF True] by (simp add: word_less_nat_alt)
    obtain d1 where d1: "put_bytes d off line = Some d1"
      using "1.prems"(3) line(2) len by (simp add: put_bytes_Some)
    have d1l: "length d1 = length d" by (rule put_bytes_length [OF d1])
    have ab: "a + 1 \<le> b" using True unat_next [OF True] by (simp add: word_le_nat_alt word_less_nat_alt)
    have room: "(off + CacheLineSize) + 64 * (unat b - unat (a + 1)) \<le> length d1"
      using "1.prems"(3) len d1l by (simp add: rx_const_defs)
    have cls: "CacheLineSize = 64" by (simp add: rx_const_defs)
    obtain d' where d': "initDataset_from cache d1 (off + 64) (a + 1) b = Some d'" "length d' = length d1"
      and items: "\<And>k. k < unat b - unat (a + 1) \<Longrightarrow>
        get_bytes d' (off + 64 + 64 * k) 64 = initDatasetItem cache (ucast (a + 1 + of_nat k))"
      and rest: "\<And>p n. p + n \<le> off + 64 \<or> off + 64 + 64 * (unat b - unat (a + 1)) \<le> p \<Longrightarrow>
        get_bytes d' p n = get_bytes d1 p n"
      using "1.IH" [OF True line(1) d1 "1.prems"(1) ab room] unfolding cls by (auto elim!: succeedsE)
    have "get_bytes d' (off + 64 * k) 64 = initDatasetItem cache (ucast (a + of_nat k))"
      if "k < unat b - unat a" for k
    proof (cases k)
      case 0
      have "get_bytes d' off 64 = get_bytes d1 off 64" by (rule rest) simp
      also have "\<dots> = Some line" using get_put_same [OF d1] line(2) by simp
      finally show ?thesis using 0 line(1) by simp
    next
      case (Suc j)
      then show ?thesis using items [of j] that len by (simp add: ac_simps)
    qed
    moreover have "get_bytes d' p n = get_bytes d p n"
      if "p + n \<le> off \<or> off + 64 * (unat b - unat a) \<le> p" for p n
    proof -
      have "get_bytes d' p n = get_bytes d1 p n" by (rule rest) (use that len in auto)
      also have "\<dots> = get_bytes d p n" by (rule get_put_disjoint [OF d1]) (use that len line(2) in auto)
      finally show ?thesis .
    qed
    ultimately show ?thesis
      using True line(1) d1 d' d1l by (subst initDataset_from.simps) (simp add: cls)
  qed
qed

text \<open>
  Initialising a range of the dataset writes, for every item number of the range, exactly
  that item into its line, and leaves every byte outside the range as it was.
\<close>

theorem initDataset_range:
  assumes "cache_ok cache" "a \<le> b" "off + 64 * (unat b - unat a) \<le> length d"
  shows "\<exists>d'. initDataset cache d off a b = Some d' \<and> length d' = length d \<and>
    list_all (\<lambda>k. get_bytes d' (off + 64 * k) 64 = initDatasetItem cache (ucast (a + of_nat k)))
      [0..<unat b - unat a] \<and>
    (\<forall>p n. p + n \<le> off \<or> off + 64 * (unat b - unat a) \<le> p \<longrightarrow> get_bytes d' p n = get_bytes d p n)"
  using initDataset_from_spec [OF assms] by (auto simp: initDataset_def succeeds_def list_all_iff)

theorem initDataset_range_witness:
  "\<exists>cache d'. initCache flat_config zero_fill [] = Some cache \<and>
    initDataset cache (replicate 256 0) 64 2 4 = Some d' \<and> length d' = length (replicate 256 (0 :: u8)) \<and>
    list_all (\<lambda>k. get_bytes d' (64 + 64 * k) 64 = initDatasetItem cache (ucast (2 + of_nat k :: u32)))
      [0..<unat (4 :: u32) - unat (2 :: u32)] \<and>
    (\<forall>p n. p + n \<le> 64 \<or> 64 + 64 * (unat (4 :: u32) - unat (2 :: u32)) \<le> p \<longrightarrow>
       get_bytes d' p n = get_bytes (replicate 256 0) p n)"
proof -
  obtain cache where c: "initCache flat_config zero_fill [] = Some cache"
    using flat_initCache by blast
  have ok: "cache_ok cache" by (rule initCache_ok [OF c]) (simp add: zero_fill_def)
  show ?thesis
    using initDataset_range [OF ok, of 2 4 64 "replicate 256 0"] c by simp
qed

lemma initDataset_from_split:
  "a \<le> b \<Longrightarrow> b \<le> c \<Longrightarrow>
   initDataset_from cache d off a c =
     initDataset_from cache d off a b \<bind> (\<lambda>d. initDataset_from cache d (off + 64 * (unat b - unat a)) b c)"
proof (induction cache d off a b rule: initDataset_from.induct)
  case (1 cache d off a b)
  have cls: "CacheLineSize = 64" by (simp add: rx_const_defs)
  show ?case
  proof (cases "a < b")
    case False
    then have "a = b" using "1.prems" by simp
    then show ?thesis by (subst (2) initDataset_from.simps) simp
  next
    case True
    have ac: "a < c" using True "1.prems" by simp
    have ab: "a + 1 \<le> b" using True unat_next [OF True] by (simp add: word_le_nat_alt word_less_nat_alt)
    have len: "unat b - unat a = Suc (unat b - unat (a + 1))"
      using True unat_next [OF True] by (simp add: word_less_nat_alt)
    show ?thesis
    proof (cases "initDatasetItem cache (ucast a)")
      case None
      then show ?thesis
        using True ac by (simp add: initDataset_from.simps [of _ _ _ a])
    next
      case line: (Some line)
      show ?thesis
      proof (cases "put_bytes d off line")
        case None
        then show ?thesis
          using True ac line by (simp add: initDataset_from.simps [of _ _ _ a])
      next
        case (Some d1)
        from "1.IH" [OF True line Some ab "1.prems"(2)] show ?thesis
          using True ac line Some len by (simp add: initDataset_from.simps [of _ _ _ a] cls ac_simps)
      qed
    qed
  qed
qed

text \<open>
  Ranges compose: initialising the items from \<open>a\<close> to \<open>c\<close> in one call is the same as
  initialising \<open>a\<close> to \<open>b\<close> and then \<open>b\<close> to \<open>c\<close> at the place behind, which is how the dataset is
  divided among threads.
\<close>

theorem initDataset_split:
  assumes "a \<le> b" "b \<le> c"
  shows "initDataset cache d off a c =
    initDataset cache d off a b \<bind> (\<lambda>d. initDataset cache d (off + 64 * (unat b - unat a)) b c)"
  unfolding initDataset_def by (rule initDataset_from_split [OF assms])

theorem initDataset_split_witness:
  "\<exists>cache. initCache flat_config zero_fill [] = Some cache \<and>
    initDataset cache (replicate 512 1) 0 1 7 =
    initDataset cache (replicate 512 1) 0 1 3 \<bind>
      (\<lambda>d. initDataset cache d (0 + 64 * (unat (3 :: u32) - unat (1 :: u32))) 3 7)"
proof -
  obtain cache where c: "initCache flat_config zero_fill [] = Some cache"
    using flat_initCache by blast
  have "initDataset cache (replicate 512 1) 0 1 7 = initDataset cache (replicate 512 1) 0 1 3 \<bind>
      (\<lambda>d. initDataset cache d (0 + 64 * (unat (3 :: u32) - unat (1 :: u32))) 3 7)"
    by (rule initDataset_split) simp_all
  with c show ?thesis by blast
qed

end
