(* ===== verification/SoftAes.thy ===== *)
theory SoftAes
  imports RxConfig
begin

text \<open>
  The software AES rounds of \<^verbatim>\<open>soft_aes.cpp\<close> and \<^verbatim>\<open>soft_aes.h\<close>: the computation of the
  substitution box and of the lookup tables at start-up, and the two table driven
  implementations of an encryption and a decryption round. Both are proved to be the AES
  round: substitution, row shift, column mix and key addition.
\<close>

subsection \<open>Table construction\<close>

text \<open>Multiplication in \<open>GF(2^8)\<close>; \<open>n\<close> counts the bits left, \<open>k = 2 ^ (8 - n)\<close>.\<close>

fun mul_gf2_loop :: "nat \<Rightarrow> u32 \<Rightarrow> u32 \<Rightarrow> u32 \<Rightarrow> u32 \<Rightarrow> u32" where
  "mul_gf2_loop 0 i j k s = s"
| "mul_gf2_loop (Suc n) i j k s =
    (if j = 0 then s
     else let s' = (if j AND k \<noteq> 0 then s XOR i else s);
              j' = (if j AND k \<noteq> 0 then j XOR k else j);
              i' = push_bit 1 i;
              i'' = (if i' AND 0x100 \<noteq> 0 then i' XOR 0x11B else i')
          in mul_gf2_loop n i'' j' (push_bit 1 k) s')"

definition mul_gf2 :: "u32 \<Rightarrow> u32 \<Rightarrow> u32" where
  "mul_gf2 b c = mul_gf2_loop 8 b c 1 0"

definition rotl8 :: "u8 \<Rightarrow> nat \<Rightarrow> u8" where
  "rotl8 x shift = push_bit shift x OR drop_bit (8 - shift) x"

definition sbox_next_p :: "u8 \<Rightarrow> u8" where
  "sbox_next_p p = p XOR push_bit 1 p XOR (if p AND 0x80 \<noteq> 0 then 0x1B else 0)"

definition sbox_next_q :: "u8 \<Rightarrow> u8" where
  "sbox_next_q q =
    (let q = q XOR push_bit 1 q; q = q XOR push_bit 2 q; q = q XOR push_bit 4 q
     in q XOR (if q AND 0x80 \<noteq> 0 then 0x09 else 0))"

definition sbox_value :: "u8 \<Rightarrow> u8" where
  "sbox_value q = q XOR rotl8 q 1 XOR rotl8 q 2 XOR rotl8 q 3 XOR rotl8 q 4 XOR 0x63"

text \<open>The \<open>do ... while (p != 1)\<close> loop; it ends when the powers of the generator have come round.\<close>

partial_function (option) sbox_loop ::
  "u8 \<Rightarrow> u8 \<Rightarrow> u8 list \<Rightarrow> u8 list \<Rightarrow> (u8 list \<times> u8 list) option" where
  "sbox_loop p q sbox sbox_reverse =
    (let p = sbox_next_p p; q = sbox_next_q q; value = sbox_value q;
         sbox = sbox[unat p := value]; sbox_reverse = sbox_reverse[unat value := p]
     in if p \<noteq> 1 then sbox_loop p q sbox sbox_reverse else Some (sbox, sbox_reverse))"

definition sboxes :: "(u8 list \<times> u8 list) option" where
  "sboxes = map_option (\<lambda>(sbox, sbox_reverse). (sbox[0 := 0x63], sbox_reverse[0x63 := 0]))
     (sbox_loop 1 1 (replicate 256 0) (replicate 256 0))"

record aes_tables =
  lutEnc :: "u32 list list"
  lutDec :: "u32 list list"

text \<open>The union of a word and its four bytes, the byte rotation, and the four tables of one kind.\<close>

definition rotl32_8 :: "u32 \<Rightarrow> u32" where
  "rotl32_8 w = push_bit 8 w OR drop_bit 24 w"

definition enc_word :: "u8 \<Rightarrow> u32" where
  "enc_word s = le_word [ucast (mul_gf2 (ucast s) 2), s, s, ucast (mul_gf2 (ucast s) 3)]"

definition dec_word :: "u8 \<Rightarrow> u32" where
  "dec_word s = le_word [ucast (mul_gf2 (ucast s) 0xe), ucast (mul_gf2 (ucast s) 0x9),
     ucast (mul_gf2 (ucast s) 0xd), ucast (mul_gf2 (ucast s) 0xb)]"

definition four_tables :: "(u8 \<Rightarrow> u32) \<Rightarrow> u8 list \<Rightarrow> u32 list list" where
  "four_tables g box =
     [map g box, map (\<lambda>s. rotl32_8 (g s)) box, map (\<lambda>s. rotl32_8 (rotl32_8 (g s))) box,
      map (\<lambda>s. rotl32_8 (rotl32_8 (rotl32_8 (g s)))) box]"

definition make_tables :: "u8 list \<Rightarrow> u8 list \<Rightarrow> aes_tables" where
  "make_tables sbox sbox_reverse =
     \<lparr> lutEnc = four_tables enc_word sbox, lutDec = four_tables dec_word sbox_reverse \<rparr>"

definition SAESInitializer :: "aes_tables option" where
  "SAESInitializer = map_option (\<lambda>(sbox, sbox_reverse). make_tables sbox sbox_reverse) sboxes"

subsection \<open>Vectors\<close>

fun rx_xor_vec_i128 :: "v128 \<Rightarrow> v128 \<Rightarrow> v128" where
  "rx_xor_vec_i128 (a0, a1, a2, a3) (b0, b1, b2, b3) = (a0 XOR b0, a1 XOR b1, a2 XOR b2, a3 XOR b3)"

fun rx_and_vec_i128 :: "v128 \<Rightarrow> v128 \<Rightarrow> v128" where
  "rx_and_vec_i128 (a0, a1, a2, a3) (b0, b1, b2, b3) = (a0 AND b0, a1 AND b1, a2 AND b2, a3 AND b3)"

fun rx_store_vec_i128 :: "v128 \<Rightarrow> bytes" where
  "rx_store_vec_i128 (a0, a1, a2, a3) = store32 a0 @ store32 a1 @ store32 a2 @ store32 a3"

definition rx_load_vec_i128 :: "bytes \<Rightarrow> v128" where
  "rx_load_vec_i128 bs = (load32 bs, load32 (drop 4 bs), load32 (drop 8 bs), load32 (drop 12 bs))"

lemma length_rx_store_vec_i128 [simp, length_simps]: "length (rx_store_vec_i128 v) = 16"
  by (cases v) simp

lemma rx_load_store_vec [simp]: "rx_load_vec_i128 (rx_store_vec_i128 v @ xs) = v"
proof (cases v)
  case (fields a b c d)
  have "drop 4 (store32 a @ ys) = ys" "drop 8 (store32 a @ store32 b @ ys) = ys"
    "drop 12 (store32 a @ store32 b @ store32 c @ ys) = ys" for ys
    by simp_all
  then show ?thesis unfolding fields by (simp add: rx_load_vec_i128_def del: drop_append)
qed

subsection \<open>The rounds\<close>

definition lut :: "u32 list list \<Rightarrow> nat \<Rightarrow> u8 \<Rightarrow> u32" where
  "lut T k b = T ! k ! unat b"

definition aesenc_1 :: "aes_tables \<Rightarrow> v128 \<Rightarrow> v128 \<Rightarrow> v128" where
  "aesenc_1 T inp key =
    (let s = rx_store_vec_i128 inp; L = lut (lutEnc T);
         s0 = L 0 (s ! 0) XOR L 1 (s ! 5) XOR L 2 (s ! 10) XOR L 3 (s ! 15);
         s1 = L 0 (s ! 4) XOR L 1 (s ! 9) XOR L 2 (s ! 14) XOR L 3 (s ! 3);
         s2 = L 0 (s ! 8) XOR L 1 (s ! 13) XOR L 2 (s ! 2) XOR L 3 (s ! 7);
         s3 = L 0 (s ! 12) XOR L 1 (s ! 1) XOR L 2 (s ! 6) XOR L 3 (s ! 11)
     in rx_xor_vec_i128 (rx_set_int_vec_i128 s3 s2 s1 s0) key)"

definition aesdec_1 :: "aes_tables \<Rightarrow> v128 \<Rightarrow> v128 \<Rightarrow> v128" where
  "aesdec_1 T inp key =
    (let s = rx_store_vec_i128 inp; L = lut (lutDec T);
         s0 = L 0 (s ! 0) XOR L 1 (s ! 13) XOR L 2 (s ! 10) XOR L 3 (s ! 7);
         s1 = L 0 (s ! 4) XOR L 1 (s ! 1) XOR L 2 (s ! 14) XOR L 3 (s ! 11);
         s2 = L 0 (s ! 8) XOR L 1 (s ! 5) XOR L 2 (s ! 2) XOR L 3 (s ! 15);
         s3 = L 0 (s ! 12) XOR L 1 (s ! 9) XOR L 2 (s ! 6) XOR L 3 (s ! 3)
     in rx_xor_vec_i128 (rx_set_int_vec_i128 s3 s2 s1 s0) key)"

text \<open>The second version extracts the bytes with shifts and masks.\<close>

definition lutw :: "u32 list list \<Rightarrow> nat \<Rightarrow> u32 \<Rightarrow> u32" where
  "lutw T k w = T ! k ! unat w"

definition aesenc_2 :: "aes_tables \<Rightarrow> v128 \<Rightarrow> v128 \<Rightarrow> v128" where
  "aesenc_2 T inp key =
    (let (s3, s2, s1, s0) = inp; L = lutw (lutEnc T)
     in rx_xor_vec_i128 (rx_set_int_vec_i128
       (L 0 (s0 AND 0xff) XOR L 1 (drop_bit 8 s3 AND 0xff) XOR L 2 (drop_bit 16 s2 AND 0xff) XOR L 3 (drop_bit 24 s1))
       (L 0 (s1 AND 0xff) XOR L 1 (drop_bit 8 s0 AND 0xff) XOR L 2 (drop_bit 16 s3 AND 0xff) XOR L 3 (drop_bit 24 s2))
       (L 0 (s2 AND 0xff) XOR L 1 (drop_bit 8 s1 AND 0xff) XOR L 2 (drop_bit 16 s0 AND 0xff) XOR L 3 (drop_bit 24 s3))
       (L 0 (s3 AND 0xff) XOR L 1 (drop_bit 8 s2 AND 0xff) XOR L 2 (drop_bit 16 s1 AND 0xff) XOR L 3 (drop_bit 24 s0)))
      key)"

definition aesdec_2 :: "aes_tables \<Rightarrow> v128 \<Rightarrow> v128 \<Rightarrow> v128" where
  "aesdec_2 T inp key =
    (let (s3, s2, s1, s0) = inp; L = lutw (lutDec T)
     in rx_xor_vec_i128 (rx_set_int_vec_i128
       (L 0 (s0 AND 0xff) XOR L 1 (drop_bit 8 s1 AND 0xff) XOR L 2 (drop_bit 16 s2 AND 0xff) XOR L 3 (drop_bit 24 s3))
       (L 0 (s1 AND 0xff) XOR L 1 (drop_bit 8 s2 AND 0xff) XOR L 2 (drop_bit 16 s3 AND 0xff) XOR L 3 (drop_bit 24 s0))
       (L 0 (s2 AND 0xff) XOR L 1 (drop_bit 8 s3 AND 0xff) XOR L 2 (drop_bit 16 s0 AND 0xff) XOR L 3 (drop_bit 24 s1))
       (L 0 (s3 AND 0xff) XOR L 1 (drop_bit 8 s0 AND 0xff) XOR L 2 (drop_bit 16 s1 AND 0xff) XOR L 3 (drop_bit 24 s2)))
      key)"

text \<open>An implementation of the two rounds: one of the two above, or the processor's.\<close>

record aes_impl =
  aesenc :: "v128 \<Rightarrow> v128 \<Rightarrow> v128"
  aesdec :: "v128 \<Rightarrow> v128 \<Rightarrow> v128"

definition soft_aes_1 :: "aes_tables \<Rightarrow> aes_impl" where
  "soft_aes_1 T = \<lparr> aesenc = aesenc_1 T, aesdec = aesdec_1 T \<rparr>"

definition soft_aes_2 :: "aes_tables \<Rightarrow> aes_impl" where
  "soft_aes_2 T = \<lparr> aesenc = aesenc_2 T, aesdec = aesdec_2 T \<rparr>"

subsection \<open>Both versions agree\<close>

lemma store32_bytes: "store32 w = [ucast w, ucast (drop_bit 8 w), ucast (drop_bit 16 w), ucast (drop_bit 24 w)]"
  by (simp add: store32_def eval_nat_numeral drop_bit_drop_bit)

lemma unat_low_byte: "unat (ucast (w :: u32) :: u8) = unat (w AND 0xff)"
proof -
  have "w AND 0xff = take_bit 8 w" by (simp add: take_bit_eq_mask mask_eq_exp_minus_1)
  then show ?thesis by (simp add: unsigned_ucast_eq unsigned_take_bit_eq)
qed

lemma unat_high_byte: "unat (ucast (drop_bit 24 (w :: u32)) :: u8) = unat (drop_bit 24 w)"
proof -
  have "drop_bit 24 w AND 0xff = drop_bit 24 w"
  proof -
    have "drop_bit 24 w AND mask 8 = drop_bit 24 w"
      by (rule bit_word_eqI) (auto simp: bit_and_iff bit_drop_bit_eq bit_mask_iff dest: bit_imp_le_length)
    then show ?thesis by (simp add: mask_eq_exp_minus_1)
  qed
  then show ?thesis by (simp only: unat_low_byte)
qed

lemma lutw_byte:
  "lutw T k (w AND 0xff) = lut T k (ucast w)"
  "lutw T k (drop_bit 24 w) = lut T k (ucast (drop_bit 24 w))"
proof -
  show "lutw T k (w AND 0xff) = lut T k (ucast w)" by (simp only: lut_def lutw_def unat_low_byte)
  show "lutw T k (drop_bit 24 w) = lut T k (ucast (drop_bit 24 w))"
    by (simp only: lut_def lutw_def unat_high_byte)
qed

text \<open>The bytes of a stored vector are the bytes of its words.\<close>

lemma nth_rx_store_vec_i128:
  "rx_store_vec_i128 (a, b, c, d) ! 0 = ucast a"
  "rx_store_vec_i128 (a, b, c, d) ! Suc 0 = ucast (drop_bit 8 a)"
  "rx_store_vec_i128 (a, b, c, d) ! 1 = ucast (drop_bit 8 a)"
  "rx_store_vec_i128 (a, b, c, d) ! 2 = ucast (drop_bit 16 a)"
  "rx_store_vec_i128 (a, b, c, d) ! 3 = ucast (drop_bit 24 a)"
  "rx_store_vec_i128 (a, b, c, d) ! 4 = ucast b"
  "rx_store_vec_i128 (a, b, c, d) ! 5 = ucast (drop_bit 8 b)"
  "rx_store_vec_i128 (a, b, c, d) ! 6 = ucast (drop_bit 16 b)"
  "rx_store_vec_i128 (a, b, c, d) ! 7 = ucast (drop_bit 24 b)"
  "rx_store_vec_i128 (a, b, c, d) ! 8 = ucast c"
  "rx_store_vec_i128 (a, b, c, d) ! 9 = ucast (drop_bit 8 c)"
  "rx_store_vec_i128 (a, b, c, d) ! 10 = ucast (drop_bit 16 c)"
  "rx_store_vec_i128 (a, b, c, d) ! 11 = ucast (drop_bit 24 c)"
  "rx_store_vec_i128 (a, b, c, d) ! 12 = ucast d"
  "rx_store_vec_i128 (a, b, c, d) ! 13 = ucast (drop_bit 8 d)"
  "rx_store_vec_i128 (a, b, c, d) ! 14 = ucast (drop_bit 16 d)"
  "rx_store_vec_i128 (a, b, c, d) ! 15 = ucast (drop_bit 24 d)"
  by (simp_all add: store32_bytes)

lemma aesenc_2_eq: "aesenc_2 T inp key = aesenc_1 T inp key"
  by (cases inp) (simp only: aesenc_1_def aesenc_2_def Let_def nth_rx_store_vec_i128 lutw_byte prod.case)

lemma aesdec_2_eq: "aesdec_2 T inp key = aesdec_1 T inp key"
  by (cases inp) (simp only: aesdec_1_def aesdec_2_def Let_def nth_rx_store_vec_i128 lutw_byte prod.case)

text \<open> The two table driven implementations of the rounds compute the same function,
  for any tables: selecting \<^verbatim>\<open>aesenc<2>\<close> in place of \<^verbatim>\<open>aesenc<1>\<close> changes the speed only.\<close>

theorem soft_aes_versions_agree: "soft_aes_2 T = soft_aes_1 T"
  by (simp add: soft_aes_1_def soft_aes_2_def fun_eq_iff aesenc_2_eq aesdec_2_eq)

subsection \<open>The round of the standard\<close>

text \<open>
  The reference is the round of AES on a state of sixteen bytes, column by column: multiplication
  by the polynomial \<open>x\<close>, the four steps, and their inverses.
\<close>

definition xtime :: "u8 \<Rightarrow> u8" where
  "xtime a = push_bit 1 a XOR (if bit a 7 then 0x1B else 0)"

definition x3 :: "u8 \<Rightarrow> u8" where "x3 a = xtime a XOR a"
definition x9 :: "u8 \<Rightarrow> u8" where "x9 a = xtime (xtime (xtime a)) XOR a"
definition xb :: "u8 \<Rightarrow> u8" where "xb a = xtime (xtime (xtime a)) XOR xtime a XOR a"
definition xd :: "u8 \<Rightarrow> u8" where "xd a = xtime (xtime (xtime a)) XOR xtime (xtime a) XOR a"
definition xe :: "u8 \<Rightarrow> u8" where "xe a = xtime (xtime (xtime a)) XOR xtime (xtime a) XOR xtime a"

definition sub_bytes :: "u8 list \<Rightarrow> bytes \<Rightarrow> bytes" where
  "sub_bytes box s = map (\<lambda>b. box ! unat b) s"

definition shift_rows :: "nat \<Rightarrow> bytes \<Rightarrow> bytes" where
  "shift_rows k s = map (\<lambda>i. s ! ((i + 4 * k * (i mod 4)) mod 16)) [0..<16]"

fun mix_columns :: "bytes \<Rightarrow> bytes" where
  "mix_columns (a # b # c # d # s) =
     [xtime a XOR x3 b XOR c XOR d, a XOR xtime b XOR x3 c XOR d,
      a XOR b XOR xtime c XOR x3 d, x3 a XOR b XOR c XOR xtime d] @ mix_columns s"
| "mix_columns _ = []"

fun inv_mix_columns :: "bytes \<Rightarrow> bytes" where
  "inv_mix_columns (a # b # c # d # s) =
     [xe a XOR xb b XOR xd c XOR x9 d, x9 a XOR xe b XOR xb c XOR xd d,
      xd a XOR x9 b XOR xe c XOR xb d, xb a XOR xd b XOR x9 c XOR xe d] @ inv_mix_columns s"
| "inv_mix_columns _ = []"

definition aes_round :: "u8 list \<Rightarrow> bytes \<Rightarrow> bytes \<Rightarrow> bytes" where
  "aes_round sbox s key = map2 (XOR) (mix_columns (shift_rows 1 (sub_bytes sbox s))) key"

definition inv_aes_round :: "u8 list \<Rightarrow> bytes \<Rightarrow> bytes \<Rightarrow> bytes" where
  "inv_aes_round sbox_reverse s key =
     map2 (XOR) (inv_mix_columns (sub_bytes sbox_reverse (shift_rows 3 s))) key"

subsection \<open>The multiplication of the tables\<close>

definition gf2_step :: "u32 \<Rightarrow> u32" where
  "gf2_step i = (let i' = push_bit 1 i in if i' AND 0x100 \<noteq> 0 then i' XOR 0x11B else i')"

lemma and_0x100: "(w AND 0x100 \<noteq> (0 :: u32)) \<longleftrightarrow> bit w 8"
proof -
  have "w AND push_bit 8 1 = push_bit 8 (of_bool (bit w 8))"
    by (rule bit_word_eqI) (auto simp del: push_bit_of_1 simp: bit_and_iff bit_push_bit_iff bit_1_iff)
  then show ?thesis by simp
qed


lemma gf2_step_bytes:
  "list_all (\<lambda>n. gf2_step (ucast (word_of_int n :: u8)) = ucast (xtime (word_of_int n))) [0..255]"
  by code_simp

lemma gf2_step_byte: "gf2_step (ucast (a :: u8)) = ucast (xtime a)"
proof -
  have "uint a \<in> set [0..255]" using uint_lt2p [of a] by simp
  then show ?thesis using gf2_step_bytes unfolding list_all_iff by (metis word_of_int_uint)
qed

lemma mul_gf2_loop_step:
  "mul_gf2_loop (numeral n) i j k t =
    (if j = 0 then t
     else mul_gf2_loop (pred_numeral n) (gf2_step i) (if j AND k \<noteq> 0 then j XOR k else j) (push_bit 1 k)
            (if j AND k \<noteq> 0 then t XOR i else t))"
  by (simp add: gf2_step_def Let_def numeral_eq_Suc)

lemma mul_gf2_bytes:
  fixes s :: u8
  shows "ucast (mul_gf2 (ucast s) 2) = xtime s"
    "ucast (mul_gf2 (ucast s) 3) = x3 s"
    "ucast (mul_gf2 (ucast s) 0x9) = x9 s"
    "ucast (mul_gf2 (ucast s) 0xb) = xb s"
    "ucast (mul_gf2 (ucast s) 0xd) = xd s"
    "ucast (mul_gf2 (ucast s) 0xe) = xe s"
proof -
  have xor: "(ucast (a XOR b :: u32) :: u8) = ucast a XOR ucast b" for a b
    by (rule bit_word_eqI) (simp add: bit_simps)
  have u: "(ucast (ucast x :: u32) :: u8) = x" for x :: u8 by (rule bit_word_eqI) (simp add: bit_simps)
  note e = mul_gf2_def mul_gf2_loop_step gf2_step_byte xor u x3_def x9_def xb_def xd_def xe_def
  show "ucast (mul_gf2 (ucast s) 2) = xtime s"
    "ucast (mul_gf2 (ucast s) 3) = x3 s"
    "ucast (mul_gf2 (ucast s) 0x9) = x9 s"
    "ucast (mul_gf2 (ucast s) 0xb) = xb s"
    "ucast (mul_gf2 (ucast s) 0xd) = xd s"
    "ucast (mul_gf2 (ucast s) 0xe) = xe s"
    apply (simp_all add: e del: mul_gf2_loop.simps(2))
    apply (simp_all only: ac_simps)
    done
qed

subsection \<open>The table driven rounds are the AES round\<close>

lemma rotl32_8_bytes: "rotl32_8 (le_word [a, b, c, d]) = le_word [d, a, b, c]"
proof (rule bit_word_eqI)
  fix n assume n: "n < LENGTH(32)"
  have "bit (rotl32_8 w) n = (if n < 8 then bit w (n + 24) else bit w (n - 8))" for w
    using n by (auto simp: rotl32_8_def add.commute bit_or_iff bit_push_bit_iff bit_drop_bit_eq dest: bit_imp_le_length)
  then show "bit (rotl32_8 (le_word [a, b, c, d])) n = bit (le_word [d, a, b, c] :: u32) n"
    using n by (cases "n < 8") (auto simp del: le_word.simps simp: bit_le_word nth_Cons' div_less le_div_geq le_mod_geq)
qed

lemma store32_xor: "store32 (a XOR b) = map2 (XOR) (store32 a) (store32 b)"
  by (simp add: store32_bytes bit_eq_iff bit_simps)

lemma store32_le_word [simp]: "store32 (le_word [a, b, c, d]) = [a, b, c, d]"
  using le_bytes_le_word [of "[a, b, c, d]", where 'a = 32] by (simp only: store32_def length_Cons list.size) (simp add: eval_nat_numeral del: le_word.simps le_bytes.simps)

lemma length_sub_bytes [simp, length_simps]: "length (sub_bytes box s) = length s"
  by (simp add: sub_bytes_def)

lemma shift_rows_16:
  "shift_rows 1 [a0, a1, a2, a3, a4, a5, a6, a7, a8, a9, a10, a11, a12, a13, a14, a15] =
     [a0, a5, a10, a15, a4, a9, a14, a3, a8, a13, a2, a7, a12, a1, a6, a11]"
  "shift_rows 3 [a0, a1, a2, a3, a4, a5, a6, a7, a8, a9, a10, a11, a12, a13, a14, a15] =
     [a0, a13, a10, a7, a4, a1, a14, a11, a8, a5, a2, a15, a12, a9, a6, a3]"
  by (simp_all add: shift_rows_def upt_rec)

lemma four_tables_lut:
  assumes "length box = 256"
  shows "lut (four_tables g box) 0 b = g (box ! unat b)"
    "lut (four_tables g box) 1 b = rotl32_8 (g (box ! unat b))"
    "lut (four_tables g box) 2 b = rotl32_8 (rotl32_8 (g (box ! unat b)))"
    "lut (four_tables g box) 3 b = rotl32_8 (rotl32_8 (rotl32_8 (g (box ! unat b))))"
proof -
  have "unat b < length box" using unat_u8_less [of b] assms by simp
  then show "lut (four_tables g box) 0 b = g (box ! unat b)"
    "lut (four_tables g box) 1 b = rotl32_8 (g (box ! unat b))"
    "lut (four_tables g box) 2 b = rotl32_8 (rotl32_8 (g (box ! unat b)))"
    "lut (four_tables g box) 3 b = rotl32_8 (rotl32_8 (rotl32_8 (g (box ! unat b))))"
    by (simp_all add: lut_def four_tables_def)
qed

lemma enc_word_bytes: "enc_word s = le_word [xtime s, s, s, x3 s]"
  by (simp only: enc_word_def mul_gf2_bytes)

lemma dec_word_bytes: "dec_word s = le_word [xe s, x9 s, xd s, xb s]"
  by (simp only: dec_word_def mul_gf2_bytes)

lemma rx_store_set_xor:
  "rx_store_vec_i128 (rx_xor_vec_i128 (rx_set_int_vec_i128 s3 s2 s1 s0) key) =
     map2 (XOR) (store32 s0 @ store32 s1 @ store32 s2 @ store32 s3) (rx_store_vec_i128 key)"
  by (cases key) (simp add: rx_set_int_vec_i128_def store32_xor zip_append)

lemma list16_exists:
  assumes "length s = 16"
  obtains a0 a1 a2 a3 a4 a5 a6 a7 a8 a9 a10 a11 a12 a13 a14 a15
  where "s = [a0, a1, a2, a3, a4, a5, a6, a7, a8, a9, a10, a11, a12, a13, a14, a15]"
  using assms by (auto simp: length_Suc_conv numeral_eq_Suc)

lemma aesenc_1_bytes:
  assumes "length sbox = 256"
  shows "rx_store_vec_i128 (aesenc_1 (make_tables sbox sbr) inp key) =
    aes_round sbox (rx_store_vec_i128 inp) (rx_store_vec_i128 key)"
proof -
  obtain a0 a1 a2 a3 a4 a5 a6 a7 a8 a9 a10 a11 a12 a13 a14 a15
    where s: "rx_store_vec_i128 inp = [a0, a1, a2, a3, a4, a5, a6, a7, a8, a9, a10, a11, a12, a13, a14, a15]"
    by (rule list16_exists [of "rx_store_vec_i128 inp"]) simp
  show ?thesis
    unfolding aesenc_1_def aes_round_def Let_def rx_store_set_xor s make_tables_def aes_tables.simps
      four_tables_lut [OF assms] enc_word_bytes rotl32_8_bytes store32_xor store32_le_word
    by (simp add: sub_bytes_def shift_rows_16 [unfolded One_nat_def] ac_simps)
qed

lemma aesdec_1_bytes:
  assumes "length sbr = 256"
  shows "rx_store_vec_i128 (aesdec_1 (make_tables sbox sbr) inp key) =
    inv_aes_round sbr (rx_store_vec_i128 inp) (rx_store_vec_i128 key)"
proof -
  obtain a0 a1 a2 a3 a4 a5 a6 a7 a8 a9 a10 a11 a12 a13 a14 a15
    where s: "rx_store_vec_i128 inp = [a0, a1, a2, a3, a4, a5, a6, a7, a8, a9, a10, a11, a12, a13, a14, a15]"
    by (rule list16_exists [of "rx_store_vec_i128 inp"]) simp
  show ?thesis
    unfolding aesdec_1_def inv_aes_round_def Let_def rx_store_set_xor s make_tables_def aes_tables.simps
      four_tables_lut [OF assms] dec_word_bytes rotl32_8_bytes store32_xor store32_le_word
    by (simp add: sub_bytes_def shift_rows_16 ac_simps)
qed



end
