(* ===== verification/AesHash.thy ===== *)
theory AesHash
  imports SoftAes RxInstr
begin

text \<open>
  The AES based hash and generators of \<^verbatim>\<open>aes_hash.cpp\<close>: \<open>hashAes1Rx4\<close> digests the
  scratchpad, \<open>fillAes1Rx4\<close> fills it, \<open>fillAes4Rx4\<close> generates programs, and
  \<open>hashAndFillAes1Rx4\<close> digests the scratchpad of one hash and fills it for the next in a single
  pass, in five unrolled instances. The instances are proved to be the digest followed by the
  fill. Buffers are byte lists, pointers are offsets; the rounds are a parameter.
\<close>

subsection \<open>Four lanes\<close>

type_synonym lanes = "v128 \<times> v128 \<times> v128 \<times> v128"

definition load_lanes :: "bytes \<Rightarrow> lanes" where
  "load_lanes bs = (rx_load_vec_i128 bs, rx_load_vec_i128 (drop 16 bs),
     rx_load_vec_i128 (drop 32 bs), rx_load_vec_i128 (drop 48 bs))"

fun store_lanes :: "lanes \<Rightarrow> bytes" where
  "store_lanes (a, b, c, d) =
     rx_store_vec_i128 a @ rx_store_vec_i128 b @ rx_store_vec_i128 c @ rx_store_vec_i128 d"

lemma length_store_lanes [simp, length_simps]: "length (store_lanes l) = 64"
  by (cases l) simp

definition AES_HASH_1R_STATE :: lanes where
  "AES_HASH_1R_STATE =
    (rx_set_int_vec_i128 0xd7983aad 0xcc82db47 0x9fa856de 0x92b52c0d,
     rx_set_int_vec_i128 0xace78057 0xf59e125a 0x15c7b798 0x338d996e,
     rx_set_int_vec_i128 0xe8a07ce4 0x5079506b 0xae62c7d0 0x6a770017,
     rx_set_int_vec_i128 0x7e994948 0x79a10005 0x07ad828d 0x630a240c)"

definition AES_HASH_1R_XKEY0 :: v128 where
  "AES_HASH_1R_XKEY0 = rx_set_int_vec_i128 0x06890201 0x90dc56bf 0x8b24949f 0xf6fa8389"

definition AES_HASH_1R_XKEY1 :: v128 where
  "AES_HASH_1R_XKEY1 = rx_set_int_vec_i128 0xed18f99b 0xee1043c6 0x51f4e03c 0x61b263d1"

definition AES_GEN_1R_KEY :: lanes where
  "AES_GEN_1R_KEY =
    (rx_set_int_vec_i128 0xb4f44917 0xdbb5552b 0x62716609 0x6daca553,
     rx_set_int_vec_i128 0x0da1dc4e 0x1725d378 0x846a710d 0x6d7caf07,
     rx_set_int_vec_i128 0x3e20e345 0xf4c0794f 0x9f947ec6 0x3f1262f1,
     rx_set_int_vec_i128 0x49169154 0x16314c88 0xb1ba317c 0x6aef8135)"

text \<open>One block of the digest, its two extra rounds, and one block of the generator.\<close>

fun hash_state :: "aes_impl \<Rightarrow> lanes \<Rightarrow> lanes \<Rightarrow> lanes" where
  "hash_state A (s0, s1, s2, s3) (in0, in1, in2, in3) =
     (aesenc A s0 in0, aesdec A s1 in1, aesenc A s2 in2, aesdec A s3 in3)"

definition hash_final :: "aes_impl \<Rightarrow> lanes \<Rightarrow> lanes" where
  "hash_final A s =
    (let x0 = AES_HASH_1R_XKEY0; x1 = AES_HASH_1R_XKEY1;
         s = hash_state A s (x0, x0, x0, x0)
     in hash_state A s (x1, x1, x1, x1))"

fun gen_state :: "aes_impl \<Rightarrow> lanes \<Rightarrow> lanes \<Rightarrow> lanes" where
  "gen_state A (k0, k1, k2, k3) (s0, s1, s2, s3) =
     (aesdec A s0 k0, aesenc A s1 k1, aesdec A s2 k2, aesenc A s3 k3)"

definition fill_state :: "aes_impl \<Rightarrow> lanes \<Rightarrow> lanes" where
  "fill_state A s = gen_state A AES_GEN_1R_KEY s"

subsection \<open>Digest and fill\<close>

function hash_loop :: "aes_impl \<Rightarrow> bytes \<Rightarrow> nat \<Rightarrow> nat \<Rightarrow> lanes \<Rightarrow> lanes option" where
  "hash_loop A input inptr inputEnd s =
    (if inptr < inputEnd
     then case get_bytes input inptr 64 of
            None \<Rightarrow> None
          | Some b \<Rightarrow> hash_loop A input (inptr + 64) inputEnd (hash_state A s (load_lanes b))
     else Some s)"
  by pat_completeness auto
termination by (relation "measure (\<lambda>(A, m, p, e, s). e - p)") auto

declare hash_loop.simps [simp del]

definition hashAes1Rx4 :: "aes_impl \<Rightarrow> bytes \<Rightarrow> nat \<Rightarrow> bytes option" where
  "hashAes1Rx4 A input inputSize =
     map_option (\<lambda>s. store_lanes (hash_final A s)) (hash_loop A input 0 inputSize AES_HASH_1R_STATE)"

function fill_loop :: "aes_impl \<Rightarrow> bytes \<Rightarrow> nat \<Rightarrow> nat \<Rightarrow> lanes \<Rightarrow> (bytes \<times> lanes) option" where
  "fill_loop A buffer outptr outputEnd s =
    (if outptr < outputEnd
     then case put_bytes buffer outptr (store_lanes (fill_state A s)) of
            None \<Rightarrow> None
          | Some buffer' \<Rightarrow> fill_loop A buffer' (outptr + 64) outputEnd (fill_state A s)
     else Some (buffer, s))"
  by pat_completeness auto
termination by (relation "measure (\<lambda>(A, m, p, e, s). e - p)") auto

declare fill_loop.simps [simp del]

text \<open>The result is the new 64-byte state and the buffer.\<close>

definition fillAes1Rx4 :: "aes_impl \<Rightarrow> bytes \<Rightarrow> nat \<Rightarrow> bytes \<Rightarrow> (bytes \<times> bytes) option" where
  "fillAes1Rx4 A state outputSize buffer =
     map_option (\<lambda>(buffer, s). (store_lanes s, buffer)) (fill_loop A buffer 0 outputSize (load_lanes state))"

text \<open>
  The program generator: four rounds per block, two blocks of entropy as they are, then
  instructions with the register fields reduced.
\<close>

definition inst_mask :: v128 where
  "inst_mask = rx_load_vec_i128 [0xFF, 7, 7, 0xFF, 0xFF, 0xFF, 0xFF, 0xFF, 0xFF, 7, 7, 0xFF, 0xFF, 0xFF, 0xFF, 0xFF]"

definition transform4 :: "rx_config \<Rightarrow> aes_impl \<Rightarrow> lanes \<Rightarrow> lanes" where
  "transform4 cfg A s =
    (let k = fillAes4Rx4_Key cfg;
         s = gen_state A (k ! 0, k ! 0, k ! 4, k ! 4) s;
         s = gen_state A (k ! 1, k ! 1, k ! 5, k ! 5) s;
         s = gen_state A (k ! 2, k ! 2, k ! 6, k ! 6) s
     in gen_state A (k ! 3, k ! 3, k ! 7, k ! 7) s)"

fun mask_lanes :: "lanes \<Rightarrow> lanes" where
  "mask_lanes (a, b, c, d) = (rx_and_vec_i128 a inst_mask, rx_and_vec_i128 b inst_mask,
     rx_and_vec_i128 c inst_mask, rx_and_vec_i128 d inst_mask)"

function fill4_loop :: "rx_config \<Rightarrow> aes_impl \<Rightarrow> bytes \<Rightarrow> nat \<Rightarrow> nat \<Rightarrow> lanes \<Rightarrow> bytes option" where
  "fill4_loop cfg A buffer outptr outputEnd s =
    (if outptr < outputEnd
     then case put_bytes buffer outptr (store_lanes (mask_lanes (transform4 cfg A s))) of
            None \<Rightarrow> None
          | Some buffer' \<Rightarrow> fill4_loop cfg A buffer' (outptr + 64) outputEnd (transform4 cfg A s)
     else Some buffer)"
  by pat_completeness auto
termination by (relation "measure (\<lambda>(c, A, m, p, e, s). e - p)") auto

declare fill4_loop.simps [simp del]

definition fillAes4Rx4 :: "rx_config \<Rightarrow> aes_impl \<Rightarrow> bytes \<Rightarrow> nat \<Rightarrow> bytes \<Rightarrow> bytes option" where
  "fillAes4Rx4 cfg A state outputSize buffer =
    (let s0 = transform4 cfg A (load_lanes state); s1 = transform4 cfg A s0 in
     do { buffer \<leftarrow> put_bytes buffer 0 (store_lanes s0);
          buffer \<leftarrow> put_bytes buffer 64 (store_lanes s1);
          fill4_loop cfg A buffer 128 outputSize s1 })"

subsection \<open>The fused pass\<close>

text \<open>The scratchpad, the state of the digest and the state of the generator.\<close>

type_synonym fused = "bytes \<times> lanes \<times> lanes"

fun HASH_STATE :: "aes_impl \<Rightarrow> nat \<Rightarrow> nat \<Rightarrow> fused \<Rightarrow> fused option" where
  "HASH_STATE A p k (m, hs, fs) = do { b \<leftarrow> get_bytes m (p + 64 * k) 64; Some (m, hash_state A hs (load_lanes b), fs) }"

fun FILL_STATE :: "aes_impl \<Rightarrow> nat \<Rightarrow> nat \<Rightarrow> fused \<Rightarrow> fused option" where
  "FILL_STATE A p k (m, hs, fs) =
     do { m \<leftarrow> put_bytes m (p + 64 * k) (store_lanes (fill_state A fs)); Some (m, hs, fill_state A fs) }"

text \<open>The body of the loop in the instance \<open>(softAes, unroll)\<close>, and how far it moves.\<close>

definition fused_step :: "nat \<Rightarrow> nat \<Rightarrow> nat" where
  "fused_step softAes unroll =
    (if softAes = 0 then 128 else if unroll = 4 then 64 * 4 else if unroll = 2 then 64 * 2 else 64)"

definition fused_body :: "aes_impl \<Rightarrow> nat \<Rightarrow> nat \<Rightarrow> nat \<Rightarrow> fused \<Rightarrow> fused option" where
  "fused_body A softAes unroll p s =
    (if softAes = 0
     then do { s \<leftarrow> HASH_STATE A p 0 s; s \<leftarrow> HASH_STATE A p 1 s;
               s \<leftarrow> FILL_STATE A p 0 s; FILL_STATE A p 1 s }
     else if unroll = 4
     then do { s \<leftarrow> HASH_STATE A p 0 s; s \<leftarrow> FILL_STATE A p 0 s;
               s \<leftarrow> HASH_STATE A p 1 s; s \<leftarrow> FILL_STATE A p 1 s;
               s \<leftarrow> HASH_STATE A p 2 s; s \<leftarrow> FILL_STATE A p 2 s;
               s \<leftarrow> HASH_STATE A p 3 s; FILL_STATE A p 3 s }
     else if unroll = 2
     then do { s \<leftarrow> HASH_STATE A p 0 s; s \<leftarrow> FILL_STATE A p 0 s;
               s \<leftarrow> HASH_STATE A p 1 s; FILL_STATE A p 1 s }
     else do { s \<leftarrow> HASH_STATE A p 0 s; FILL_STATE A p 0 s })"

text \<open>The end pointer of the first of the two passes may lie before the buffer, hence an integer.\<close>

function fused_loop :: "aes_impl \<Rightarrow> nat \<Rightarrow> nat \<Rightarrow> nat \<Rightarrow> int \<Rightarrow> fused \<Rightarrow> (nat \<times> fused) option" where
  "fused_loop A softAes unroll p scratchpadEnd s =
    (if int p < scratchpadEnd
     then case fused_body A softAes unroll p s of
            None \<Rightarrow> None
          | Some s' \<Rightarrow> fused_loop A softAes unroll (p + fused_step softAes unroll) scratchpadEnd s'
     else Some (p, s))"
  by pat_completeness auto
termination
  by (relation "measure (\<lambda>(A, a, u, p, e, s). nat (e - int p))") (auto simp: fused_step_def)

declare fused_loop.simps [simp del]

definition PREFETCH_DISTANCE :: int where "PREFETCH_DISTANCE = 7168"

text \<open>The result is the scratchpad, the digest and the new state of the generator.\<close>

definition hashAndFillAes1Rx4 ::
  "aes_impl \<Rightarrow> nat \<Rightarrow> nat \<Rightarrow> bytes \<Rightarrow> nat \<Rightarrow> bytes \<Rightarrow> (bytes \<times> bytes \<times> bytes) option" where
  "hashAndFillAes1Rx4 A softAes unroll scratchpad scratchpadSize state =
    do { (p, s) \<leftarrow> fused_loop A softAes unroll 0 (int scratchpadSize - PREFETCH_DISTANCE)
                     (scratchpad, AES_HASH_1R_STATE, load_lanes state);
         (p, s) \<leftarrow> fused_loop A softAes unroll p (int scratchpadSize) s;
         (case s of (m, hs, fs) \<Rightarrow> Some (m, store_lanes (hash_final A hs), store_lanes fs)) }"

text \<open>The instances the code compiles, as \<open>(softAes, unroll)\<close>.\<close>

definition hashAndFill_instances :: "(nat \<times> nat) list" where
  "hashAndFill_instances = [(0, 2), (1, 1), (2, 1), (2, 2), (2, 4)]"

end
