(* ===== verification/AesHashProps.thy ===== *)
theory AesHashProps
  imports AesHash
begin

text \<open>
  The fused pass over the scratchpad is the digest of the old contents followed by the fill. Both
  loops are first put in closed form, as functions that process a number of blocks; the bodies of
  the instances are shown to process two, four or one block of both.
\<close>

subsection \<open>Blocks\<close>

definition block :: "bytes \<Rightarrow> nat \<Rightarrow> lanes" where
  "block m p = load_lanes (take 64 (drop p m))"

definition upd :: "bytes \<Rightarrow> nat \<Rightarrow> bytes \<Rightarrow> bytes" where
  "upd m p bs = take p m @ bs @ drop (p + length bs) m"

lemma length_upd [simp]: "p + length bs \<le> length m \<Longrightarrow> length (upd m p bs) = length m"
  by (simp add: upd_def)

lemma put_bytes_upd: "p + length bs \<le> length m \<Longrightarrow> put_bytes m p bs = Some (upd m p bs)"
  by (simp add: put_bytes_def upd_def)

lemma block_upd: "p + length bs \<le> q \<Longrightarrow> p + length bs \<le> length m \<Longrightarrow> block (upd m p bs) q = block m q"
  by (simp add: block_def upd_def drop_append)

primrec hash_blocks :: "aes_impl \<Rightarrow> bytes \<Rightarrow> nat \<Rightarrow> nat \<Rightarrow> lanes \<Rightarrow> lanes" where
  "hash_blocks A m 0 p s = s"
| "hash_blocks A m (Suc n) p s = hash_blocks A m n (p + 64) (hash_state A s (block m p))"

primrec fill_blocks :: "aes_impl \<Rightarrow> nat \<Rightarrow> nat \<Rightarrow> bytes \<times> lanes \<Rightarrow> bytes \<times> lanes" where
  "fill_blocks A 0 p s = s"
| "fill_blocks A (Suc n) p s =
     fill_blocks A n (p + 64) (upd (fst s) p (store_lanes (fill_state A (snd s))), fill_state A (snd s))"

lemma hash_blocks_add: "hash_blocks A m (k + n) p s = hash_blocks A m n (p + 64 * k) (hash_blocks A m k p s)"
  by (induction k arbitrary: p s) (simp_all add: add.assoc)

lemma fill_blocks_add: "fill_blocks A (k + n) p s = fill_blocks A n (p + 64 * k) (fill_blocks A k p s)"
  by (induction k arbitrary: p s) (simp_all add: add.assoc)

lemma length_fill_blocks:
  "p + 64 * n \<le> length (fst s) \<Longrightarrow> length (fst (fill_blocks A n p s)) = length (fst s)"
  by (induction n arbitrary: p s) simp_all

lemma block_fill_blocks:
  "p + 64 * n \<le> q \<Longrightarrow> p + 64 * n \<le> length (fst s) \<Longrightarrow> block (fst (fill_blocks A n p s)) q = block (fst s) q"
  by (induction n arbitrary: p s) (simp_all add: block_upd)

lemma hash_blocks_cong:
  "(\<And>q. p \<le> q \<Longrightarrow> block m q = block m' q) \<Longrightarrow> hash_blocks A m n p s = hash_blocks A m' n p s"
  by (induction n arbitrary: p s) simp_all

lemma hash_blocks_fill_blocks:
  assumes "p + 64 * k \<le> q" "p + 64 * k \<le> length (fst fs)"
  shows "hash_blocks A (fst (fill_blocks A k p fs)) n q s = hash_blocks A (fst fs) n q s"
  using assms by (intro hash_blocks_cong) (simp add: block_fill_blocks)

lemma hash_loop_blocks:
  "p + 64 * n \<le> length m \<Longrightarrow> hash_loop A m p (p + 64 * n) s = Some (hash_blocks A m n p s)"
proof (induction n arbitrary: p s)
  case 0
  then show ?case by (simp add: hash_loop.simps)
next
  case (Suc n)
  have "hash_loop A m (p + 64) (p + 64 + 64 * n) (hash_state A s (block m p))
      = Some (hash_blocks A m n (p + 64) (hash_state A s (block m p)))"
    using Suc.prems by (intro Suc.IH) simp
  then show ?case using Suc.prems
    by (subst hash_loop.simps) (simp add: get_bytes_def block_def ac_simps)
qed

lemma fill_loop_blocks:
  "p + 64 * n \<le> length m \<Longrightarrow> fill_loop A m p (p + 64 * n) s = Some (fill_blocks A n p (m, s))"
proof (induction n arbitrary: p m s)
  case 0
  then show ?case by (simp add: fill_loop.simps)
next
  case (Suc n)
  let ?m = "upd m p (store_lanes (fill_state A s))"
  have "fill_loop A ?m (p + 64) (p + 64 + 64 * n) (fill_state A s)
      = Some (fill_blocks A n (p + 64) (?m, fill_state A s))"
    using Suc.prems by (intro Suc.IH) simp
  then show ?case using Suc.prems
    by (subst fill_loop.simps) (simp add: put_bytes_upd ac_simps)
qed

subsection \<open>The bodies\<close>

definition both :: "aes_impl \<Rightarrow> nat \<Rightarrow> nat \<Rightarrow> fused \<Rightarrow> fused" where
  "both A n p s = (case s of (m, hs, fs) \<Rightarrow>
     (fst (fill_blocks A n p (m, fs)), hash_blocks A m n p hs, snd (fill_blocks A n p (m, fs))))"

lemma both_0: "both A 0 p s = s"
  by (cases s) (simp add: both_def)

lemma both_add:
  assumes "p + 64 * k \<le> length (fst s)"
  shows "both A (k + n) p s = both A n (p + 64 * k) (both A k p s)"
  using assms
  by (cases s) (simp add: both_def fill_blocks_add hash_blocks_add hash_blocks_fill_blocks)

lemma length_both [simp]: "p + 64 * n \<le> length (fst s) \<Longrightarrow> length (fst (both A n p s)) = length (fst s)"
  by (cases s) (simp add: both_def length_fill_blocks)

lemma one_block:
  assumes "p + 64 * Suc k \<le> length (fst s)"
  shows "do { s \<leftarrow> HASH_STATE A p k s; FILL_STATE A p k s } = Some (both A 1 (p + 64 * k) s)"
  using assms
  by (cases s) (simp add: get_bytes_def put_bytes_upd both_def block_def)

lemma one_block_bind:
  assumes "p + 64 * Suc k \<le> length (fst s)"
  shows "do { s \<leftarrow> HASH_STATE A p k s; s \<leftarrow> FILL_STATE A p k s; g s } = g (both A 1 (p + 64 * k) s)"
proof -
  have "do { s \<leftarrow> HASH_STATE A p k s; s \<leftarrow> FILL_STATE A p k s; g s }
      = (do { s \<leftarrow> HASH_STATE A p k s; FILL_STATE A p k s }) \<bind> g"
    by (simp add: bind_assoc)
  then show ?thesis by (simp only: one_block [OF assms] Option.bind.simps)
qed

lemma two_blocks_together:
  assumes "p + 128 \<le> length m"
  shows "do { s \<leftarrow> HASH_STATE A p 0 (m, hs, fs); s \<leftarrow> HASH_STATE A p 1 s;
              s \<leftarrow> FILL_STATE A p 0 s; FILL_STATE A p 1 s }
    = Some (both A 2 p (m, hs, fs))"
  using assms
  by (simp add: get_bytes_def put_bytes_upd both_def block_def numeral_2_eq_2)

lemma both_chain:
  assumes "p + 64 * (k + n) \<le> length (fst s)"
  shows "both A n (p + 64 * k) (both A k p s) = both A (k + n) p s"
  using assms by (simp add: both_add)

lemma fused_body_both:
  assumes "p + fused_step a u \<le> length (fst s)"
  shows "fused_body A a u p s = Some (both A (fused_step a u div 64) p s)"
proof -
  obtain m hs fs where s: "s = (m, hs, fs)" by (cases s)
  consider "a = 0" | "a \<noteq> 0" "u = 4" | "a \<noteq> 0" "u = 2" | "a \<noteq> 0" "u \<noteq> 4" "u \<noteq> 2" by blast
  then show ?thesis
  proof cases
    case 1
    then show ?thesis using assms two_blocks_together [of p m A hs fs]
      by (simp add: fused_body_def fused_step_def s)
  next
    case 2
    have "both A 1 (p + 64 * 3) (both A 1 (p + 64 * 2) (both A 1 (p + 64 * 1) (both A 1 (p + 64 * 0) s)))
        = both A 4 p s"
      using 2 assms both_chain [of p 1 1 s A] both_chain [of p 2 1 s A] both_chain [of p 3 1 s A]
      by (simp add: fused_step_def del: One_nat_def)
    moreover have "fused_body A a u p s
        = Some (both A 1 (p + 64 * 3) (both A 1 (p + 64 * 2) (both A 1 (p + 64 * 1) (both A 1 (p + 64 * 0) s))))"
      using 2 assms by (simp add: fused_body_def one_block_bind one_block fused_step_def
        del: HASH_STATE.simps FILL_STATE.simps)
    ultimately show ?thesis using 2 by (simp add: fused_step_def)
  next
    case 3
    have "both A 1 (p + 64 * 1) (both A 1 (p + 64 * 0) s) = both A 2 p s"
      using 3 assms both_chain [of p 1 1 s A] by (simp add: fused_step_def numeral_2_eq_2)
    moreover have "fused_body A a u p s = Some (both A 1 (p + 64 * 1) (both A 1 (p + 64 * 0) s))"
      using 3 assms by (simp add: fused_body_def one_block_bind one_block fused_step_def
        del: HASH_STATE.simps FILL_STATE.simps)
    ultimately show ?thesis using 3 by (simp add: fused_step_def)
  next
    case 4
    then show ?thesis using assms by (simp add: fused_body_def one_block fused_step_def
        del: HASH_STATE.simps FILL_STATE.simps)
  qed
qed

subsection \<open>The whole pass\<close>

lemma fused_loop_compose:
  assumes "e \<le> e'"
  shows "fused_loop A a u p e' s =
    do { (p, s) \<leftarrow> fused_loop A a u p e s; fused_loop A a u p e' s }"
  using assms
proof (induction A a u p e s rule: fused_loop.induct)
  case (1 A a u p e s)
  show ?case
  proof (cases "int p < e")
    case True
    then have "int p < e'" using "1.prems" by simp
    then show ?thesis using True "1.IH" [OF True _ "1.prems"]
      by (simp add: fused_loop.simps [of A a u p e s] fused_loop.simps [of A a u p e' s] split: option.splits)
  next
    case False
    then show ?thesis by (simp add: fused_loop.simps [of A a u p e s])
  qed
qed

lemma fused_step_pos [simp]: "0 < fused_step a u"
  by (simp add: fused_step_def)

lemma fused_step_blocks: "64 * (fused_step a u div 64) = fused_step a u"
  by (simp add: fused_step_def)

lemma fused_loop_both:
  assumes "p + fused_step a u * n \<le> length (fst s)"
  shows "fused_loop A a u p (int (p + fused_step a u * n)) s =
    Some (p + fused_step a u * n, both A (fused_step a u div 64 * n) p s)"
  using assms
proof (induction n arbitrary: p s)
  case 0
  then show ?case by (simp add: fused_loop.simps both_0)
next
  case (Suc n)
  let ?t = "fused_step a u"
  have le: "p + ?t \<le> length (fst s)" using Suc.prems by (simp add: algebra_simps)
  have len: "p + 64 * (?t div 64) \<le> length (fst s)" using le by (simp only: fused_step_blocks)
  have "fused_loop A a u (p + ?t) (int (p + ?t + ?t * n)) (both A (?t div 64) p s)
      = Some (p + ?t + ?t * n, both A (?t div 64 * n) (p + ?t) (both A (?t div 64) p s))"
    using Suc.prems len by (intro Suc.IH) (simp add: algebra_simps)
  moreover have "both A (?t div 64 * n) (p + ?t) (both A (?t div 64) p s) = both A (?t div 64 * Suc n) p s"
    using both_add [OF len, of A "?t div 64 * n"] by (simp add: fused_step_blocks)
  moreover have "int p < int (p + ?t * Suc n)" by (simp only: of_nat_less_iff) simp
  ultimately show ?case using fused_body_both [OF le, of A]
    by (subst fused_loop.simps) (simp only: if_True option.case add.assoc mult_Suc_right)
qed

lemma hash_fill_both:
  assumes "64 * n \<le> length m"
  shows "hashAes1Rx4 A m (64 * n) = Some (store_lanes (hash_final A (hash_blocks A m n 0 AES_HASH_1R_STATE)))"
    "fillAes1Rx4 A state (64 * n) m =
      Some (store_lanes (snd (fill_blocks A n 0 (m, load_lanes state))), fst (fill_blocks A n 0 (m, load_lanes state)))"
  using assms hash_loop_blocks [of 0 n m A AES_HASH_1R_STATE] fill_loop_blocks [of 0 n m A "load_lanes state"]
  by (simp_all add: hashAes1Rx4_def fillAes1Rx4_def split: prod.split)

lemma hashAndFill_correct:
  assumes "fused_step a u dvd sz" "sz \<le> length sp"
  shows "\<exists>hash state' sp'. hashAes1Rx4 A sp sz = Some hash \<and> fillAes1Rx4 A state sz sp = Some (state', sp')
    \<and> hashAndFillAes1Rx4 A a u sp sz state = Some (sp', hash, state') \<and> length sp' = length sp"
proof -
  obtain n where n: "sz = fused_step a u * n" using assms(1) by (elim dvdE)
  let ?k = "fused_step a u div 64 * n"
  have k: "sz = 64 * ?k" using n fused_step_blocks [of a u] by (metis mult.assoc)
  let ?s = "(sp, AES_HASH_1R_STATE, load_lanes state)"
  have "fused_loop A a u 0 (int sz) ?s = Some (sz, both A ?k 0 ?s)"
    using fused_loop_both [of 0 a u n ?s A] assms n by simp
  moreover have "fused_loop A a u 0 (int sz) ?s =
    do { (p, s) \<leftarrow> fused_loop A a u 0 (int sz - PREFETCH_DISTANCE) ?s; fused_loop A a u p (int sz) s }"
    by (rule fused_loop_compose) (simp add: PREFETCH_DISTANCE_def)
  ultimately have e: "do { (p, s) \<leftarrow> fused_loop A a u 0 (int sz - PREFETCH_DISTANCE) ?s; fused_loop A a u p (int sz) s }
    = Some (sz, both A ?k 0 ?s)" by simp
  obtain p1 s1 where l1: "fused_loop A a u 0 (int sz - PREFETCH_DISTANCE) ?s = Some (p1, s1)"
    and l2: "fused_loop A a u p1 (int sz) s1 = Some (sz, both A ?k 0 ?s)"
    using e by (auto split: bind_splits)
  have "hashAndFillAes1Rx4 A a u sp sz state =
    (case both A ?k 0 ?s of (m, hs, fs) \<Rightarrow> Some (m, store_lanes (hash_final A hs), store_lanes fs))"
    unfolding hashAndFillAes1Rx4_def l1 by (simp only: Option.bind.simps prod.case l2)
  then show ?thesis
    using hash_fill_both [of ?k sp A] length_fill_blocks [of 0 ?k "(sp, load_lanes state)" A] assms(2) k
    by (auto simp: both_def)
qed

text \<open>C33.  The fused pass over the scratchpad, in every instance the code compiles, returns the
  digest of the old contents and leaves the scratchpad and the generator state as a fill does,
  for every scratchpad whose size is a multiple of the unrolled step.\<close>

theorem hashAndFill_is_hash_then_fill:
  assumes "(softAes, unroll) \<in> set hashAndFill_instances"
    and "fused_step softAes unroll dvd scratchpadSize" "scratchpadSize \<le> length scratchpad"
  shows "\<exists>hash state' scratchpad'. hashAes1Rx4 A scratchpad scratchpadSize = Some hash
    \<and> fillAes1Rx4 A state scratchpadSize scratchpad = Some (state', scratchpad')
    \<and> hashAndFillAes1Rx4 A softAes unroll scratchpad scratchpadSize state = Some (scratchpad', hash, state')"
  using hashAndFill_correct [OF assms(2,3)] by blast

theorem hashAndFill_is_hash_then_fill_witness:
  "\<exists>hash state' scratchpad'.
    hashAndFillAes1Rx4 (soft_aes_2 (make_tables [] [])) 2 4 (replicate 512 7) 512 (replicate 64 1) =
      Some (scratchpad', hash, state')"
  using hashAndFill_is_hash_then_fill [of 2 4 512 "replicate 512 7" "soft_aes_2 (make_tables [] [])" "replicate 64 1"]
  by (auto simp: hashAndFill_instances_def fused_step_def)

subsection \<open>Generated programs\<close>

text \<open>The register fields of an instruction word, its second and third byte, are below eight.\<close>

definition reg_byte_ok :: "nat \<Rightarrow> u8 \<Rightarrow> bool" where
  "reg_byte_ok i b \<longleftrightarrow> i mod 8 \<in> {1, 2} \<longrightarrow> unat b < 8"

lemma and_7_less: "unat ((b :: u8) AND 7) < 8"
proof -
  have "(7 :: u8) = mask 3" by (simp add: mask_eq_exp_minus_1)
  then have "b AND 7 = take_bit 3 b" by (simp only: take_bit_eq_mask)
  then have "unat (b AND 7) = take_bit 3 (unat b)" by (simp add: unsigned_take_bit_eq)
  then show ?thesis by (simp add: take_bit_eq_mod)
qed

lemma store32_and: "store32 (a AND b) = map2 (AND) (store32 a) (store32 b)"
  by (simp add: store32_bytes bit_eq_iff bit_simps)

definition inst_mask_bytes :: bytes where
  "inst_mask_bytes = [0xFF, 7, 7, 0xFF, 0xFF, 0xFF, 0xFF, 0xFF, 0xFF, 7, 7, 0xFF, 0xFF, 0xFF, 0xFF, 0xFF]"

lemma length_inst_mask_bytes [simp]: "length inst_mask_bytes = 16"
  by (simp add: inst_mask_bytes_def)

lemma store_masked:
  "rx_store_vec_i128 (rx_and_vec_i128 v inst_mask) = map2 (AND) (rx_store_vec_i128 v) inst_mask_bytes"
proof -
  have e: "inst_mask = (le_word [0xFF, 7, 7, 0xFF], le_word [0xFF, 0xFF, 0xFF, 0xFF],
      le_word [0xFF, 7, 7, 0xFF], le_word [0xFF, 0xFF, 0xFF, 0xFF])"
    by (simp add: inst_mask_def rx_load_vec_i128_def load32_def)
  obtain a b c d where v: "v = (a, b, c, d)" by (cases v)
  show ?thesis
    unfolding v e rx_and_vec_i128.simps rx_store_vec_i128.simps store32_and store32_le_word
    by (simp add: store32_bytes inst_mask_bytes_def)
qed

lemma reg_byte_ok_mask:
  assumes "length bs = 16" "i < 16"
  shows "reg_byte_ok i (map2 (AND) bs inst_mask_bytes ! i)"
proof -
  have "i \<in> {0, 1, 2, 3, 4, 5, 6, 7, 8, 9, 10, 11, 12, 13, 14, 15}"
    using assms(2) by (simp only: insert_iff empty_iff) presburger
  then show ?thesis using assms(1)
    by (auto simp: reg_byte_ok_def inst_mask_bytes_def and_7_less)
qed

lemma reg_byte_ok_lanes:
  assumes "i < 64"
  shows "reg_byte_ok i (store_lanes (mask_lanes s) ! i)"
proof -
  obtain a b c d where s: "s = (a, b, c, d)" by (cases s)
  have shift: "reg_byte_ok (i - 16 * k) x = reg_byte_ok i x" if "16 * k \<le> i" for k x
  proof -
    have "i = (i - 16 * k) + 8 * (2 * k)" using that by simp
    then have "i mod 8 = (i - 16 * k) mod 8" by (metis mod_mult_self2)
    then show ?thesis by (simp add: reg_byte_ok_def)
  qed
  consider "i < 16" | "16 \<le> i" "i < 32" | "32 \<le> i" "i < 48" | "48 \<le> i" using assms by linarith
  then show ?thesis
  proof cases
    case 1
    then show ?thesis using reg_byte_ok_mask [of "rx_store_vec_i128 a" i]
      by (simp add: s store_masked nth_append)
  next
    case 2
    then have "i - 16 < 16" by linarith
    then show ?thesis using 2 shift [of 1] reg_byte_ok_mask [of "rx_store_vec_i128 b" "i - 16"]
      by (simp add: s store_masked nth_append)
  next
    case 3
    then have "i - 32 < 16" "\<not> i - 16 < 16" by linarith+
    then show ?thesis using 3 shift [of 2] reg_byte_ok_mask [of "rx_store_vec_i128 c" "i - 32"]
      by (simp add: s store_masked nth_append)
  next
    case 4
    then have "i - 48 < 16" "\<not> i - 16 < 16" "\<not> i - 32 < 16" using assms by linarith+
    then show ?thesis using 4 shift [of 3] reg_byte_ok_mask [of "rx_store_vec_i128 d" "i - 48"]
      by (simp add: s store_masked nth_append)
  qed
qed

lemma nth_upd:
  "p + length bs \<le> length m \<Longrightarrow> i < length m \<Longrightarrow>
    upd m p bs ! i = (if p \<le> i \<and> i < p + length bs then bs ! (i - p) else m ! i)"
  by (auto simp: upd_def nth_append)

lemma reg_byte_ok_shift: "8 dvd p \<Longrightarrow> p \<le> i \<Longrightarrow> reg_byte_ok (i - p) x = reg_byte_ok i x"
  by (auto simp: reg_byte_ok_def elim!: dvdE) (metis le_add_diff_inverse mod_mult_self4)+

lemma fill4_loop_ok:
  assumes "p + 64 * n \<le> length m" "8 dvd p"
  shows "succeeds (fill4_loop cfg A m p (p + 64 * n) s) (\<lambda>m'. length m' = length m
    \<and> (\<forall>i < p. m' ! i = m ! i) \<and> (\<forall>i. p \<le> i \<and> i < p + 64 * n \<longrightarrow> reg_byte_ok i (m' ! i)))"
  using assms
proof (induction n arbitrary: p m s)
  case 0
  then show ?case by (auto simp: fill4_loop.simps)
next
  case (Suc n)
  let ?bs = "store_lanes (mask_lanes (transform4 cfg A s))"
  let ?m = "upd m p ?bs"
  have "succeeds (fill4_loop cfg A ?m (p + 64) (p + 64 + 64 * n) (transform4 cfg A s)) (\<lambda>m'. length m' = length ?m
    \<and> (\<forall>i < p + 64. m' ! i = ?m ! i) \<and> (\<forall>i. p + 64 \<le> i \<and> i < p + 64 + 64 * n \<longrightarrow> reg_byte_ok i (m' ! i)))"
    using Suc.prems by (intro Suc.IH) auto
  moreover have "reg_byte_ok i (?m ! i)" if "p \<le> i" "i < p + 64" for i
    using Suc.prems that reg_byte_ok_lanes [of "i - p"] reg_byte_ok_shift [of p i] by (simp add: nth_upd)
  moreover have "?m ! i = m ! i" if "i < p" for i
    using Suc.prems that by (simp add: nth_upd)
  ultimately have "succeeds (fill4_loop cfg A ?m (p + 64) (p + 64 + 64 * n) (transform4 cfg A s)) (\<lambda>m'. length m' = length m
    \<and> (\<forall>i < p. m' ! i = m ! i) \<and> (\<forall>i. p \<le> i \<and> i < p + 64 + 64 * n \<longrightarrow> reg_byte_ok i (m' ! i)))"
    using Suc.prems by (elim succeeds_weaken) (metis length_store_lanes length_upd linorder_not_le trans_less_add1 Suc_leI add_leD1 length_upd mult_Suc_right add.assoc)
  then show ?case using Suc.prems
    by (subst fill4_loop.simps) (simp add: put_bytes_upd ac_simps)
qed

lemma upd_0: "length bs \<le> length m \<Longrightarrow> upd m 0 bs = bs @ drop (length bs) m"
  by (simp add: upd_def)

lemma fillAes4Rx4_ok:
  assumes "128 + 64 * n \<le> length buffer"
  shows "succeeds (fillAes4Rx4 cfg A state (128 + 64 * n) buffer) (\<lambda>buf. length buf = length buffer
    \<and> take 128 buf = store_lanes (transform4 cfg A (load_lanes state))
        @ store_lanes (transform4 cfg A (transform4 cfg A (load_lanes state)))
    \<and> (\<forall>i. 128 \<le> i \<and> i < 128 + 64 * n \<longrightarrow> reg_byte_ok i (buf ! i)))"
proof -
  let ?s0 = "transform4 cfg A (load_lanes state)" and ?s1 = "transform4 cfg A (transform4 cfg A (load_lanes state))"
  let ?b = "store_lanes ?s0 @ store_lanes ?s1 @ drop 128 buffer"
  have "fillAes4Rx4 cfg A state (128 + 64 * n) buffer = fill4_loop cfg A ?b 128 (128 + 64 * n) ?s1"
    using assms by (simp add: fillAes4Rx4_def Let_def put_bytes_def)
  moreover have "take 128 buf = store_lanes ?s0 @ store_lanes ?s1"
    if "length buf = length ?b" "\<forall>i < 128. buf ! i = ?b ! i" for buf
  proof -
    have "take 128 buf = take 128 ?b"
      using that assms by (intro nth_equalityI) (simp_all only: length_take nth_take min_less_iff_conj)
    then show ?thesis by simp
  qed
  ultimately show ?thesis
    using fill4_loop_ok [of 128 n ?b cfg A ?s1] assms by (auto elim!: succeeds_weaken)
qed

lemma decode_instr_regs:
  assumes "\<forall>j < 8. reg_byte_ok j (bs ! j)"
  shows "unat (i_dst (decode_instr bs)) < 8 \<and> unat (i_src (decode_instr bs)) < 8"
  using assms [rule_format, of 1] assms [rule_format, of 2]
  by (simp add: decode_instr_def reg_byte_ok_def)

text \<open> The program generator fills its buffer with two blocks of plain generator output, the
  entropy of the program, followed by instruction words whose register fields are all below
  eight; the compilers for real processors index register tables with those fields.\<close>

theorem fillAes4Rx4_registers:
  assumes "128 + 64 * n \<le> length buffer"
  shows "\<exists>buf. fillAes4Rx4 cfg A state (128 + 64 * n) buffer = Some buf \<and> length buf = length buffer
    \<and> take 128 buf = store_lanes (transform4 cfg A (load_lanes state))
        @ store_lanes (transform4 cfg A (transform4 cfg A (load_lanes state)))
    \<and> (\<forall>i < 8 * n. unat (i_dst (decode_instr (take 8 (drop (128 + 8 * i) buf)))) < 8
          \<and> unat (i_src (decode_instr (take 8 (drop (128 + 8 * i) buf)))) < 8)"
proof -
  from fillAes4Rx4_ok [OF assms, of cfg A state] obtain buf where b: "fillAes4Rx4 cfg A state (128 + 64 * n) buffer = Some buf"
    "length buf = length buffer"
    "take 128 buf = store_lanes (transform4 cfg A (load_lanes state))
        @ store_lanes (transform4 cfg A (transform4 cfg A (load_lanes state)))"
    "\<forall>i. 128 \<le> i \<and> i < 128 + 64 * n \<longrightarrow> reg_byte_ok i (buf ! i)"
    by (elim succeedsE) blast
  have "\<forall>j < 8. reg_byte_ok j (take 8 (drop (128 + 8 * i) buf) ! j)" if i: "i < 8 * n" for i
  proof (intro allI impI)
    fix j :: nat assume j: "j < 8"
    have "reg_byte_ok (128 + 8 * i + j) (buf ! (128 + 8 * i + j))" using b(4) i j by simp
    then show "reg_byte_ok j (take 8 (drop (128 + 8 * i) buf) ! j)"
      using i j b(2) assms reg_byte_ok_shift [of "128 + 8 * i" "128 + 8 * i + j"] by simp
  qed
  then show ?thesis using b decode_instr_regs by blast
qed

theorem fillAes4Rx4_registers_witness:
  "\<exists>buf. fillAes4Rx4 RandomX_ConfigurationBase (soft_aes_1 (make_tables [] [])) (replicate 64 1) 192 (replicate 200 0)
      = Some buf
    \<and> unat (i_dst (decode_instr (take 8 (drop 136 buf)))) < 8"
  using fillAes4Rx4_registers [of 1 "replicate 200 0" RandomX_ConfigurationBase "soft_aes_1 (make_tables [] [])" "replicate 64 1"]
  by (auto dest: spec [of _ 1])

end
