(* ===== verification/Vm.thy ===== *)
theory Vm
  imports BytecodeTermination DatasetProps AesHashProps Blake2b
begin

text \<open>
  The virtual machine: \<^verbatim>\<open>virtual_machine.cpp\<close>, the interpreted machines of
  \<^verbatim>\<open>vm_interpreted.cpp\<close> (full dataset) and \<^verbatim>\<open>vm_interpreted_light.cpp\<close> (dataset items computed
  from the cache), and the hash functions of \<^verbatim>\<open>randomx.cpp\<close> built on them. The way the machine
  reads the dataset is a parameter of \<open>execute\<close> (a virtual method in the code), with the two
  methods as instances. The interpreter gets the fuel that \<open>executeBytecode_terminates\<close> shows to
  be enough.
\<close>

subsection \<open>State\<close>

record RegisterFile =
  reg_r :: "u64 list"
  reg_f :: "f128 list"
  reg_e :: "f128 list"
  reg_a :: "f128 list"

definition f128_bytes :: "f128 \<Rightarrow> bytes" where
  "f128_bytes v = store64 (fst v) @ store64 (snd v)"

definition f128_of_bytes :: "bytes \<Rightarrow> f128" where
  "f128_of_bytes bs = (load64 bs, load64 (drop 8 bs))"

definition register_file_bytes :: "RegisterFile \<Rightarrow> bytes" where
  "register_file_bytes R = concat (map store64 (reg_r R)) @ concat (map f128_bytes (reg_f R))
     @ concat (map f128_bytes (reg_e R)) @ concat (map f128_bytes (reg_a R))"

text \<open>\<open>v_rmode\<close> is the rounding mode of the processor, \<open>v_program\<close> the bytes of the program buffer.\<close>

record randomx_vm =
  v_program :: bytes
  v_reg :: RegisterFile
  v_config :: ProgramConfiguration
  v_mx :: u32
  v_ma :: u32
  v_scratchpad :: bytes
  v_datasetOffset :: u64
  v_bytecode :: "InstructionByteCode list"
  v_rmode :: rounding

subsection \<open>Program configuration\<close>

definition getEntropy :: "bytes \<Rightarrow> nat \<Rightarrow> u64" where
  "getEntropy program i = load64 (drop (8 * i) program)"

definition program_instructions :: "bytes \<Rightarrow> instruction list" where
  "program_instructions program =
     map (\<lambda>pc. decode_instr (take 8 (drop (128 + 8 * pc) program))) [0..<RANDOMX_PROGRAM_MAX_SIZE]"

definition getSmallPositiveFloatBits :: "u64 \<Rightarrow> u64" where
  "getSmallPositiveFloatBits entropy =
    (let exponent = drop_bit 59 entropy; mantissa = entropy AND (push_bit 52 1 - 1);
         exponent = exponent + 1023;
         exponent = exponent AND (push_bit 11 1 - 1);
         exponent = push_bit 52 exponent
     in exponent OR mantissa)"

definition getStaticExponent :: "u64 \<Rightarrow> u64" where
  "getStaticExponent entropy =
    (let exponent = 0x300 OR push_bit 4 (drop_bit (64 - 4) entropy) in push_bit 52 exponent)"

definition getFloatMask :: "u64 \<Rightarrow> u64" where
  "getFloatMask entropy = (entropy AND (push_bit 22 1 - 1)) OR getStaticExponent entropy"

definition initialize :: "randomx_vm \<Rightarrow> randomx_vm" where
  "initialize vm =
    (let E = getEntropy (v_program vm); fl = (\<lambda>i. getSmallPositiveFloatBits (E i));
         regs = E 12
     in vm \<lparr> v_reg := v_reg vm \<lparr> reg_a := [(fl 0, fl 1), (fl 2, fl 3), (fl 4, fl 5), (fl 6, fl 7)] \<rparr>,
             v_ma := ucast (E 8 AND CacheLineAlignMask),
             v_mx := ucast (E 10),
             v_config := \<lparr> eMask = [getFloatMask (E 14), getFloatMask (E 15)],
                           readReg0 = 0 + ucast (regs AND 1),
                           readReg1 = 2 + ucast (drop_bit 1 regs AND 1),
                           readReg2 = 4 + ucast (drop_bit 2 regs AND 1),
                           readReg3 = 6 + ucast (drop_bit 3 regs AND 1) \<rparr>,
             v_datasetOffset := (E 13 mod (of_nat DatasetExtraItems + 1)) * of_nat CacheLineSize \<rparr>)"

subsection \<open>One iteration of the main loop\<close>

type_synonym dataset_read = "u64 \<Rightarrow> u64 list \<Rightarrow> u64 list option"

record loop_state =
  l_machine :: machine
  l_mx :: u32
  l_ma :: u32
  l_spAddr0 :: u32
  l_spAddr1 :: u32

text \<open>Four vectors of packed integers from the scratchpad, and stores of the registers.\<close>

definition load_packed :: "bytes \<Rightarrow> nat \<Rightarrow> f128 list option" where
  "load_packed m off =
     map_option (\<lambda>bs. map (\<lambda>i. rx_cvt_packed_int_vec_f128 (drop (8 * i) bs)) [0..<4]) (get_bytes m off 32)"

definition store_r :: "bytes \<Rightarrow> nat \<Rightarrow> u64 list \<Rightarrow> bytes option" where
  "store_r m off r = put_bytes m off (concat (map store64 r))"

definition store_f :: "bytes \<Rightarrow> nat \<Rightarrow> f128 list \<Rightarrow> bytes option" where
  "store_f m off f = put_bytes m off (concat (map f128_bytes f))"

text \<open>The interpreter of \<open>Bytecode\<close>, with the fuel that is always enough.\<close>

definition run_bytecode ::
  "rx_config \<Rightarrow> fpu \<Rightarrow> ProgramConfiguration \<Rightarrow> InstructionByteCode list \<Rightarrow> machine \<Rightarrow> machine option" where
  "run_bytecode cfg fp pcfg bc st =
    (case executeBytecode cfg fp pcfg bc (3 * ProgramSize cfg) st of Done st' \<Rightarrow> Some st' | _ \<Rightarrow> None)"

definition iteration ::
  "rx_config \<Rightarrow> fpu \<Rightarrow> dataset_read \<Rightarrow> ProgramConfiguration \<Rightarrow> u64 \<Rightarrow> InstructionByteCode list \<Rightarrow>
   loop_state \<Rightarrow> loop_state option" where
  "iteration cfg fp datasetRead pcfg datasetOffset bc L =
    (let st = l_machine L in
     do { r0 \<leftarrow> rd (n_r st) (unat (readReg0 pcfg)); r1 \<leftarrow> rd (n_r st) (unat (readReg1 pcfg));
          let spMix = r0 XOR r1;
          let spAddr0 = (l_spAddr0 L XOR ucast spMix) AND ScratchpadL3Mask64 cfg;
          let spAddr1 = (l_spAddr1 L XOR ucast (drop_bit 32 spMix)) AND ScratchpadL3Mask64 cfg;
          r \<leftarrow> xor_line (scratch st) (unat spAddr0) (n_r st);
          f \<leftarrow> load_packed (scratch st) (unat spAddr1);
          e \<leftarrow> load_packed (scratch st) (unat spAddr1 + 32);
          st \<leftarrow> run_bytecode cfg fp pcfg bc
                 (st \<lparr> n_r := r, n_f := f, n_e := map (maskRegisterExponentMantissa pcfg) e \<rparr>);
          let readPtr = datasetOffset + (ucast (l_ma L) AND CacheLineAlignMask);
          r2 \<leftarrow> rd (n_r st) (unat (readReg2 pcfg)); r3 \<leftarrow> rd (n_r st) (unat (readReg3 pcfg));
          let mp = ucast (r2 XOR r3);
          let ma = (if Tweak_V2_PREFETCH cfg then l_ma L XOR mp else l_ma L);
          let mx = (if Tweak_V2_PREFETCH cfg then l_mx L else l_mx L XOR mp);
          r \<leftarrow> datasetRead readPtr (n_r st);
          m \<leftarrow> store_r (scratch st) (unat spAddr1) r;
          let f = map2 rx_xor_vec_f128 (n_f st) (n_e st);
          m \<leftarrow> store_f m (unat spAddr0) f;
          Some \<lparr> l_machine = st \<lparr> n_r := r, n_f := f, scratch := m \<rparr>,
                 l_mx = ma, l_ma = mx, l_spAddr0 = 0, l_spAddr1 = 0 \<rparr> })"

primrec iterations ::
  "rx_config \<Rightarrow> fpu \<Rightarrow> dataset_read \<Rightarrow> ProgramConfiguration \<Rightarrow> u64 \<Rightarrow> InstructionByteCode list \<Rightarrow>
   nat \<Rightarrow> loop_state \<Rightarrow> loop_state option" where
  "iterations cfg fp dr pcfg off bc 0 L = Some L"
| "iterations cfg fp dr pcfg off bc (Suc n) L =
     do { L \<leftarrow> iteration cfg fp dr pcfg off bc L; iterations cfg fp dr pcfg off bc n L }"

definition execute :: "rx_config \<Rightarrow> fpu \<Rightarrow> dataset_read \<Rightarrow> randomx_vm \<Rightarrow> randomx_vm option" where
  "execute cfg fp datasetRead vm =
    do { bc \<leftarrow> compileProgram cfg (program_instructions (v_program vm)) (v_bytecode vm);
         let st = \<lparr> n_r = replicate 8 0, n_f = replicate 4 (0, 0), n_e = replicate 4 (0, 0),
                    n_a = reg_a (v_reg vm), scratch = v_scratchpad vm, rmode = v_rmode vm \<rparr>;
         L \<leftarrow> iterations cfg fp datasetRead (v_config vm) (v_datasetOffset vm) bc (ProgramIterations cfg)
                \<lparr> l_machine = st, l_mx = v_mx vm, l_ma = v_ma vm, l_spAddr0 = v_mx vm, l_spAddr1 = v_ma vm \<rparr>;
         let st = l_machine L;
         Some (vm \<lparr> v_reg := v_reg vm \<lparr> reg_r := n_r st, reg_f := n_f st, reg_e := n_e st \<rparr>,
                    v_mx := l_mx L, v_ma := l_ma L, v_scratchpad := scratch st, v_rmode := rmode st,
                    v_bytecode := bc @ drop (length bc) (v_bytecode vm) \<rparr>) }"

subsection \<open>The two ways to read the dataset\<close>

definition datasetRead_full :: "bytes \<Rightarrow> dataset_read" where
  "datasetRead_full memory address r = xor_line memory (unat address) r"

definition datasetRead_light :: "randomx_cache \<Rightarrow> dataset_read" where
  "datasetRead_light cache address r =
    (let itemNumber = ucast (address div of_nat CacheLineSize) :: u32
     in do { line \<leftarrow> initDatasetItem cache (ucast itemNumber); xor_line line 0 r })"

subsection \<open>Hashing\<close>

text \<open>
  The rounds and the instance of the fused pass a machine uses: \<^verbatim>\<open>VmBase<softAes>\<close>, with the
  function pointer \<^verbatim>\<open>softAESImpl\<close> for the software machines.
\<close>

record vm_impl =
  im_aes :: aes_impl
  im_instance :: "nat \<times> nat"
  im_fpu :: fpu

definition generateProgram :: "rx_config \<Rightarrow> vm_impl \<Rightarrow> bytes \<Rightarrow> randomx_vm \<Rightarrow> randomx_vm option" where
  "generateProgram cfg I seed vm =
     map_option (\<lambda>p. vm \<lparr> v_program := p \<rparr>)
       (fillAes4Rx4 cfg (im_aes I) seed (128 + ProgramSize cfg * 8) (v_program vm))"

definition vm_run :: "rx_config \<Rightarrow> vm_impl \<Rightarrow> dataset_read \<Rightarrow> bytes \<Rightarrow> randomx_vm \<Rightarrow> randomx_vm option" where
  "vm_run cfg I dr seed vm =
     do { vm \<leftarrow> generateProgram cfg I seed vm; execute cfg (im_fpu I) dr (initialize vm) }"

text \<open>The seed of \<open>initScratchpad\<close> is overwritten with the state of the generator.\<close>

definition initScratchpad :: "rx_config \<Rightarrow> vm_impl \<Rightarrow> bytes \<Rightarrow> randomx_vm \<Rightarrow> (bytes \<times> randomx_vm) option" where
  "initScratchpad cfg I seed vm =
     map_option (\<lambda>(seed, sp). (seed, vm \<lparr> v_scratchpad := sp \<rparr>))
       (fillAes1Rx4 (im_aes I) seed (unat (ScratchpadL3_Size cfg)) (v_scratchpad vm))"

definition set_reg_a :: "bytes \<Rightarrow> randomx_vm \<Rightarrow> randomx_vm" where
  "set_reg_a h vm = vm \<lparr> v_reg := v_reg vm \<lparr> reg_a := map (\<lambda>i. f128_of_bytes (drop (16 * i) h)) [0..<4] \<rparr> \<rparr>"

definition getFinalResult :: "rx_config \<Rightarrow> vm_impl \<Rightarrow> randomx_vm \<Rightarrow> (bytes \<times> randomx_vm) option" where
  "getFinalResult cfg I vm =
     do { h \<leftarrow> hashAes1Rx4 (im_aes I) (v_scratchpad vm) (unat (ScratchpadL3_Size cfg));
          let vm = set_reg_a h vm;
          out \<leftarrow> rx_blake2b 32 (register_file_bytes (v_reg vm));
          Some (out, vm) }"

definition hashAndFill :: "rx_config \<Rightarrow> vm_impl \<Rightarrow> bytes \<Rightarrow> randomx_vm \<Rightarrow> (bytes \<times> bytes \<times> randomx_vm) option" where
  "hashAndFill cfg I state vm =
     do { (sp, h, state) \<leftarrow> hashAndFillAes1Rx4 (im_aes I) (fst (im_instance I)) (snd (im_instance I))
                              (v_scratchpad vm) (unat (ScratchpadL3_Size cfg)) state;
          let vm = set_reg_a h (vm \<lparr> v_scratchpad := sp \<rparr>);
          out \<leftarrow> rx_blake2b 32 (register_file_bytes (v_reg vm));
          Some (out, state, vm) }"

definition resetRoundingMode :: "randomx_vm \<Rightarrow> randomx_vm" where
  "resetRoundingMode vm = vm \<lparr> v_rmode := RoundToNearest \<rparr>"

text \<open>The chain of programs: run, and seed the next program with the digest of the registers.\<close>

primrec chain ::
  "rx_config \<Rightarrow> vm_impl \<Rightarrow> dataset_read \<Rightarrow> nat \<Rightarrow> bytes \<Rightarrow> randomx_vm \<Rightarrow> (bytes \<times> randomx_vm) option" where
  "chain cfg I dr 0 tempHash vm = Some (tempHash, vm)"
| "chain cfg I dr (Suc n) tempHash vm =
     do { vm \<leftarrow> vm_run cfg I dr tempHash vm;
          tempHash \<leftarrow> rx_blake2b 64 (register_file_bytes (v_reg vm));
          chain cfg I dr n tempHash vm }"

definition all_programs ::
  "rx_config \<Rightarrow> vm_impl \<Rightarrow> dataset_read \<Rightarrow> bytes \<Rightarrow> randomx_vm \<Rightarrow> randomx_vm option" where
  "all_programs cfg I dr tempHash vm =
     do { (tempHash, vm) \<leftarrow> chain cfg I dr (ProgramCount cfg - 1) tempHash (resetRoundingMode vm);
          vm_run cfg I dr tempHash vm }"

definition randomx_calculate_hash ::
  "rx_config \<Rightarrow> vm_impl \<Rightarrow> dataset_read \<Rightarrow> bytes \<Rightarrow> randomx_vm \<Rightarrow> (bytes \<times> randomx_vm) option" where
  "randomx_calculate_hash cfg I dr inp vm =
     do { tempHash \<leftarrow> rx_blake2b 64 inp;
          (tempHash, vm) \<leftarrow> initScratchpad cfg I tempHash vm;
          vm \<leftarrow> all_programs cfg I dr tempHash vm;
          getFinalResult cfg I vm }"

definition randomx_calculate_hash_first ::
  "rx_config \<Rightarrow> vm_impl \<Rightarrow> bytes \<Rightarrow> randomx_vm \<Rightarrow> (bytes \<times> randomx_vm) option" where
  "randomx_calculate_hash_first cfg I inp vm =
     do { tempHash \<leftarrow> rx_blake2b 64 inp; initScratchpad cfg I tempHash vm }"

definition randomx_calculate_hash_next ::
  "rx_config \<Rightarrow> vm_impl \<Rightarrow> dataset_read \<Rightarrow> bytes \<Rightarrow> bytes \<Rightarrow> randomx_vm \<Rightarrow> (bytes \<times> bytes \<times> randomx_vm) option" where
  "randomx_calculate_hash_next cfg I dr tempHash nextInput vm =
     do { vm \<leftarrow> all_programs cfg I dr tempHash vm;
          tempHash \<leftarrow> rx_blake2b 64 nextInput;
          hashAndFill cfg I tempHash vm }"

definition randomx_calculate_commitment :: "bytes \<Rightarrow> bytes \<Rightarrow> bytes option" where
  "randomx_calculate_commitment inp hash_in = rx_blake2b 32 (inp @ take 32 hash_in)"

end
