(* ===== verification/VmProps.thy ===== *)
theory VmProps
  imports Vm
begin

text \<open>
  The virtual machine computes a hash for every input: \<open>dataset_view\<close> is the contract between
  the machine and the dataset, under which one iteration, one program and one hash never leave
  the scratchpad, the registers, the program buffer or the dataset. Both ways to read the
  dataset satisfy it, and they agree on an initialised dataset. The pipelined hash functions are
  the plain one, shifted by one input.
\<close>

subsection \<open>Shapes\<close>

definition pcfg_ok :: "ProgramConfiguration \<Rightarrow> bool" where
  "pcfg_ok pcfg \<longleftrightarrow> unat (readReg0 pcfg) < 8 \<and> unat (readReg1 pcfg) < 8
     \<and> unat (readReg2 pcfg) < 8 \<and> unat (readReg3 pcfg) < 8"

definition offset_ok :: "u64 \<Rightarrow> bool" where
  "offset_ok off \<longleftrightarrow> 64 dvd unat off \<and> unat off \<le> DatasetExtraSize"

text \<open>Addresses of a whole line of the dataset.\<close>

definition line_address :: "u64 \<Rightarrow> bool" where
  "line_address a \<longleftrightarrow> 64 dvd unat a \<and> unat a + 64 \<le> dataset_size"

definition vm_ok :: "rx_config \<Rightarrow> randomx_vm \<Rightarrow> bool" where
  "vm_ok cfg vm \<longleftrightarrow> length (v_program vm) = 128 + 8 * RANDOMX_PROGRAM_MAX_SIZE
     \<and> length (v_bytecode vm) = RANDOMX_PROGRAM_MAX_SIZE
     \<and> length (v_scratchpad vm) = unat (ScratchpadL3_Size cfg)"

lemma align_mask:
  "64 dvd unat (x AND CacheLineAlignMask :: u64)" "unat (x AND CacheLineAlignMask :: u64) \<le> 2147483584"
proof -
  have m: "CacheLineAlignMask = (0x7FFFFFC0 :: u64)" by (simp add: CacheLineAlignMask_def rx_const_defs)
  have "take_bit 6 (x AND 0x7FFFFFC0) = x AND take_bit 6 (0x7FFFFFC0 :: u64)"
    by (rule bit_word_eqI) (auto simp: bit_simps)
  also have "\<dots> = 0" by simp
  finally have "take_bit 6 (unat (x AND 0x7FFFFFC0 :: u64)) = 0"
    by (metis unsigned_0 unsigned_take_bit_eq)
  then show "64 dvd unat (x AND CacheLineAlignMask :: u64)"
    by (simp add: m take_bit_eq_mod dvd_eq_mod_eq_0)
  show "unat (x AND CacheLineAlignMask :: u64) \<le> 2147483584"
    unfolding m using unat_and_le1 [where x = x and m = "0x7FFFFFC0"] by simp
qed

lemma dataset_size_eq: "dataset_size = 2181038016"
  by (simp add: dataset_size_def randomx_dataset_item_count_def rx_const_defs)

lemma readPtr_ok:
  assumes "offset_ok off"
  shows "line_address (off + (x AND CacheLineAlignMask))"
proof -
  have b: "unat off \<le> 33554368" using assms by (simp add: offset_ok_def rx_const_defs)
  have "unat (off + (x AND CacheLineAlignMask)) = unat off + unat (x AND CacheLineAlignMask)"
    using b align_mask(2) [of x] by (intro unat_add_no_overflow) simp
  then show ?thesis using b assms align_mask [of x]
    by (simp add: line_address_def dataset_size_eq offset_ok_def)
qed

text \<open>The effect of \<open>initialize\<close>: register numbers, dataset offset and first address in range.\<close>

lemma initialize_ok:
  "pcfg_ok (v_config (initialize vm))" "offset_ok (v_datasetOffset (initialize vm))"
  "length (reg_a (v_reg (initialize vm))) = 4"
  "vm_ok cfg (initialize vm) = vm_ok cfg vm"
proof -
  have b: "unat (ucast (w AND 1 :: u64) :: u32) \<le> 1" for w :: u64
    using unat_and_le1 [where x = w and m = 1] unat_ucast_le [of "w AND 1", where 'b = 32] by simp
  have add: "unat (k + ucast (w AND 1 :: u64) :: u32) \<le> unat k + 1" for w :: u64 and k :: u32
    using b [of w] by (simp add: unat_word_ariths)
  show "pcfg_ok (v_config (initialize vm))"
    using b [of "getEntropy (v_program vm) 12"] add [of 2 "drop_bit 1 (getEntropy (v_program vm) 12)"]
      add [of 4 "drop_bit 2 (getEntropy (v_program vm) 12)"] add [of 6 "drop_bit 3 (getEntropy (v_program vm) 12)"]
    by (simp add: pcfg_ok_def initialize_def Let_def)
  have "unat (getEntropy (v_program vm) 13 mod 524288) \<le> 524287"
    by (simp add: unat_mod less_Suc_eq_le [symmetric])
  then show "offset_ok (v_datasetOffset (initialize vm))"
    by (simp add: offset_ok_def initialize_def Let_def rx_const_defs unat_mult_no_overflow)
  show "length (reg_a (v_reg (initialize vm))) = 4" "vm_ok cfg (initialize vm) = vm_ok cfg vm"
    by (simp_all add: initialize_def vm_ok_def Let_def)
qed

lemma length_concat_f128_bytes [simp]: "length (concat (map f128_bytes vs)) = 16 * length vs"
  by (induction vs) (simp_all add: f128_bytes_def)

lemma load_packed_ok: "off + 32 \<le> length m \<Longrightarrow> succeeds (load_packed m off) (\<lambda>f. length f = 4)"
  by (simp add: load_packed_def get_bytes_Some)

lemma put_bytes_ok: "off + length bs \<le> length m \<Longrightarrow> succeeds (put_bytes m off bs) (\<lambda>m'. length m' = length m)"
  by (simp add: put_bytes_def)

lemma succeeds_bindI: "succeeds m Q \<Longrightarrow> (\<And>x. Q x \<Longrightarrow> succeeds (f x) P) \<Longrightarrow> succeeds (m \<bind> f) P"
  by (auto simp: succeeds_def)

lemma rd_ok: "i < length xs \<Longrightarrow> succeeds (rd xs i) (\<lambda>_. True)"
  by (simp add: rd_def)

lemma run_bytecode_ok:
  assumes "bc_wf cfg bc" "ProgramSize cfg = length bc" "st_ok cfg st"
  shows "succeeds (run_bytecode cfg fp pcfg bc st) (st_ok cfg)"
  using executeBytecode_done [OF assms, of fp pcfg] by (auto simp: run_bytecode_def)

text \<open>The scratchpad addresses of an iteration leave room for a line.\<close>

lemma masked_line:
  assumes "rx_valid cfg"
  shows "unat (x AND ScratchpadL3Mask64 cfg) + 64 \<le> unat (ScratchpadL3_Size cfg)"
  using assms unat_and_le1 [where x = x and m = "ScratchpadL3Mask64 cfg"] by (simp add: rx_valid_def)

text \<open>Buffers: the program generator, the fill and the digest of the scratchpad.\<close>

lemma generateProgram_ok:
  assumes "rx_valid cfg" "vm_ok cfg vm"
  shows "succeeds (generateProgram cfg I seed vm) (vm_ok cfg)"
proof -
  obtain n where n: "ProgramSize cfg = 8 * n" and "ProgramSize cfg \<le> 384"
    using assms(1) by (auto simp: rx_valid_def RANDOMX_PROGRAM_MAX_SIZE_def elim!: dvdE)
  then have "128 + 64 * n \<le> length (v_program vm)"
    using assms(2) by (simp add: vm_ok_def RANDOMX_PROGRAM_MAX_SIZE_def)
  from fillAes4Rx4_ok [OF this, of cfg "im_aes I" seed] show ?thesis
    using assms(2) n by (auto simp: generateProgram_def succeeds_map vm_ok_def ac_simps elim!: succeeds_weaken)
qed

lemma scratchpad_blocks:
  assumes "rx_valid cfg"
  obtains n where "unat (ScratchpadL3_Size cfg) = 64 * (4 * n)"
  using assms by (auto simp: rx_valid_def elim!: dvdE)

lemma fillAes1Rx4_ok:
  assumes "rx_valid cfg" "length m = unat (ScratchpadL3_Size cfg)"
  shows "succeeds (fillAes1Rx4 A state (unat (ScratchpadL3_Size cfg)) m) (\<lambda>(s, m'). length m' = length m)"
proof -
  obtain n where n: "unat (ScratchpadL3_Size cfg) = 64 * (4 * n)" by (rule scratchpad_blocks [OF assms(1)])
  show ?thesis unfolding n using assms(2) n
    by (subst hash_fill_both) (simp_all add: length_fill_blocks)
qed

lemma hashAes1Rx4_ok:
  assumes "rx_valid cfg" "length m = unat (ScratchpadL3_Size cfg)"
  shows "succeeds (hashAes1Rx4 A m (unat (ScratchpadL3_Size cfg))) (\<lambda>h. length h = 64)"
proof -
  obtain n where n: "unat (ScratchpadL3_Size cfg) = 64 * (4 * n)" by (rule scratchpad_blocks [OF assms(1)])
  show ?thesis unfolding n using assms(2) n by (subst hash_fill_both) simp_all
qed

lemma initScratchpad_ok:
  assumes "rx_valid cfg" "vm_ok cfg vm"
  shows "succeeds (initScratchpad cfg I seed vm) (\<lambda>(s, vm'). vm_ok cfg vm')"
  using fillAes1Rx4_ok [OF assms(1), of "v_scratchpad vm" "im_aes I" seed] assms(2)
  by (auto simp: initScratchpad_def succeeds_map vm_ok_def elim!: succeeds_weaken)

lemma blake2b_ok: "0 < n \<Longrightarrow> n \<le> 64 \<Longrightarrow> succeeds (rx_blake2b n m) (\<lambda>h. length h = n)"
  by (simp add: rx_blake2b_eq BLAKE2B_OUTBYTES_def)

lemma getFinalResult_ok:
  assumes "rx_valid cfg" "vm_ok cfg vm"
  shows "succeeds (getFinalResult cfg I vm) (\<lambda>(out, vm'). length out = 32 \<and> vm_ok cfg vm')"
  unfolding getFinalResult_def Let_def
  using assms
  by (auto simp: vm_ok_def set_reg_a_def intro!: succeeds_bindI [OF hashAes1Rx4_ok] succeeds_bindI [OF blake2b_ok])

subsection \<open>The contract with the dataset\<close>

locale dataset_view =
  fixes ready :: "'m \<Rightarrow> bool" and dread :: "'m \<Rightarrow> dataset_read"
  assumes dread_ok:
    "ready m \<Longrightarrow> line_address a \<Longrightarrow> length r = 8 \<Longrightarrow> succeeds (dread m a r) (\<lambda>r'. length r' = 8)"
begin

lemma iteration_ok:
  assumes v: "rx_valid cfg" and m: "ready m" and bc: "bc_wf cfg bc" "ProgramSize cfg = length bc"
    and p: "pcfg_ok pcfg" "offset_ok off" and st: "st_ok cfg (l_machine L)"
  shows "succeeds (iteration cfg fp (dread m) pcfg off bc L) (\<lambda>L'. st_ok cfg (l_machine L'))"
proof -
  let ?S = "unat (ScratchpadL3_Size cfg)"
  have len: "length (n_r (l_machine L)) = 8" "length (scratch (l_machine L)) = ?S"
    using st by (simp_all add: st_ok_def)
  have a: "unat (x AND ScratchpadL3Mask64 cfg) + 64 \<le> ?S" for x by (rule masked_line [OF v])
  have a32: "unat (x AND ScratchpadL3Mask64 cfg) + 32 \<le> ?S" "unat (x AND ScratchpadL3Mask64 cfg) + 32 + 32 \<le> ?S"
    for x using a [of x] by simp_all
  have reg: "length r = 8 \<Longrightarrow> unat k < 8 \<Longrightarrow> succeeds (rd r (unat k)) (\<lambda>_. True)" for r :: "u64 list" and k :: u32
    by (rule rd_ok) simp
  have regs: "unat (readReg0 pcfg) < 8" "unat (readReg1 pcfg) < 8" "unat (readReg2 pcfg) < 8" "unat (readReg3 pcfg) < 8"
    using p(1) by (simp_all add: pcfg_ok_def)
  have store: "succeeds (put_bytes m (unat (x AND ScratchpadL3Mask64 cfg)) bs) (\<lambda>m'. length m' = ?S)"
    if "length m = ?S" "length bs = 64" for m :: bytes and x bs
    using put_bytes_ok [of "unat (x AND ScratchpadL3Mask64 cfg)" bs m] a [of x] that by simp
  show ?thesis
    unfolding iteration_def Let_def store_r_def store_f_def
    apply (rule succeeds_bindI [OF reg], rule len(1), rule regs)
    apply (rule succeeds_bindI [OF reg], rule len(1), rule regs)
    apply (rule succeeds_bindI [OF xor_line_ok], simp only: len a, rule len(1))
    apply (rule succeeds_bindI [OF load_packed_ok], simp only: len a32)
    apply (rule succeeds_bindI [OF load_packed_ok], simp only: len a32)
    apply (rule succeeds_bindI [OF run_bytecode_ok [OF bc]])
    using st apply (simp add: st_ok_def)
    apply (rule succeeds_bindI [OF reg], simp add: st_ok_def, rule regs)
    apply (rule succeeds_bindI [OF reg], simp add: st_ok_def, rule regs)
    apply (rule succeeds_bindI [OF dread_ok [OF m readPtr_ok [OF p(2)]]], simp add: st_ok_def)
    apply (rule succeeds_bindI [OF store], simp add: st_ok_def, simp)
    apply (rule succeeds_bindI [OF store], assumption, simp add: st_ok_def del: map_map)
    apply (simp add: st_ok_def)
    done
qed

lemma iterations_ok:
  assumes "rx_valid cfg" "ready m" "bc_wf cfg bc" "ProgramSize cfg = length bc" "pcfg_ok pcfg" "offset_ok off"
  shows "st_ok cfg (l_machine L) \<Longrightarrow>
    succeeds (iterations cfg fp (dread m) pcfg off bc n L) (\<lambda>L'. st_ok cfg (l_machine L'))"
  by (induction n arbitrary: L) (auto intro!: succeeds_bindI [OF iteration_ok [OF assms]])

lemma execute_ok:
  assumes v: "rx_valid cfg" and m: "ready m" and vm: "vm_ok cfg vm" "length (reg_a (v_reg vm)) = 4"
    and p: "pcfg_ok (v_config vm)" "offset_ok (v_datasetOffset vm)"
  shows "succeeds (execute cfg fp (dread m) vm) (vm_ok cfg)"
proof -
  have sz: "ProgramSize cfg \<le> length (program_instructions (v_program vm))" "ProgramSize cfg \<le> length (v_bytecode vm)"
    using v vm by (simp_all add: program_instructions_def vm_ok_def rx_valid_def)
  obtain bc where bc: "compileProgram cfg (program_instructions (v_program vm)) (v_bytecode vm) = Some bc"
    "ProgramSize cfg = length bc" "bc_wf cfg bc"
    using compileProgram_wf [OF v sz] by auto
  show ?thesis
    unfolding execute_def Let_def bc(1) Option.bind.simps
    apply (rule succeeds_bindI [OF iterations_ok [OF v m bc(3,2) p]])
    using vm sz bc(2) by (simp_all add: st_ok_def vm_ok_def)
qed

lemma vm_run_ok:
  assumes "rx_valid cfg" "ready m" "vm_ok cfg vm"
  shows "succeeds (vm_run cfg I (dread m) seed vm) (vm_ok cfg)"
  unfolding vm_run_def
  by (rule succeeds_bindI [OF generateProgram_ok [OF assms(1,3)]])
    (auto intro!: execute_ok assms simp: initialize_ok)

lemma chain_ok:
  assumes "rx_valid cfg" "ready m"
  shows "vm_ok cfg vm \<Longrightarrow> succeeds (chain cfg I (dread m) n seed vm) (\<lambda>(s, vm'). vm_ok cfg vm')"
proof (induction n arbitrary: seed vm)
  case (Suc n)
  then show ?case
    by (auto intro!: succeeds_bindI [OF vm_run_ok [OF assms]] succeeds_bindI [OF blake2b_ok])
qed simp

lemma all_programs_ok:
  assumes "rx_valid cfg" "ready m" "vm_ok cfg vm"
  shows "succeeds (all_programs cfg I (dread m) seed vm) (vm_ok cfg)"
proof -
  have "vm_ok cfg (resetRoundingMode vm)" using assms(3) by (simp add: vm_ok_def resetRoundingMode_def)
  then show ?thesis unfolding all_programs_def
    by (rule succeeds_bindI [OF chain_ok [OF assms(1,2)]]) (auto intro!: vm_run_ok assms(1,2))
qed

lemma calculate_hash_ok:
  assumes "rx_valid cfg" "ready m" "vm_ok cfg vm"
  shows "succeeds (randomx_calculate_hash cfg I (dread m) inp vm) (\<lambda>(out, vm'). length out = 32 \<and> vm_ok cfg vm')"
  unfolding randomx_calculate_hash_def
  apply (rule succeeds_bindI [OF blake2b_ok], simp, simp)
  apply (rule succeeds_bindI [OF initScratchpad_ok [OF assms(1,3)]])
  apply (clarsimp)
  apply (rule succeeds_bindI [OF all_programs_ok [OF assms(1,2)]], assumption)
  by (rule getFinalResult_ok [OF assms(1)])

text \<open>One step of the pipelined interface is the end of one hash and the start of the next.\<close>

lemma hashAndFill_split:
  assumes v: "rx_valid cfg" and vm: "vm_ok cfg vm" and i: "im_instance I \<in> set hashAndFill_instances"
  shows "hashAndFill cfg I t vm = do { (out, vm) \<leftarrow> getFinalResult cfg I vm;
      (t, vm) \<leftarrow> initScratchpad cfg I t vm; Some (out, t, vm) }"
proof -
  let ?S = "unat (ScratchpadL3_Size cfg)"
  have "fused_step (fst (im_instance I)) (snd (im_instance I)) dvd 256" by (simp add: fused_step_def)
  then have "fused_step (fst (im_instance I)) (snd (im_instance I)) dvd ?S" "?S \<le> length (v_scratchpad vm)"
    using v vm by (auto simp: rx_valid_def vm_ok_def intro: dvd_trans)
  from hashAndFill_correct [OF this, of "im_aes I" t] obtain h t' sp' where
    "hashAes1Rx4 (im_aes I) (v_scratchpad vm) ?S = Some h"
    "fillAes1Rx4 (im_aes I) t ?S (v_scratchpad vm) = Some (t', sp')"
    "hashAndFillAes1Rx4 (im_aes I) (fst (im_instance I)) (snd (im_instance I)) (v_scratchpad vm) ?S t = Some (sp', h, t')"
    by blast
  then show ?thesis
    by (simp add: hashAndFill_def getFinalResult_def initScratchpad_def set_reg_a_def Let_def
        split: Option.bind_split)
qed

lemma next_split:
  assumes "rx_valid cfg" "ready m" "vm_ok cfg vm" "im_instance I \<in> set hashAndFill_instances"
  shows "randomx_calculate_hash_next cfg I (dread m) t inp vm =
    do { vm \<leftarrow> all_programs cfg I (dread m) t vm; (out, vm) \<leftarrow> getFinalResult cfg I vm;
         (t, vm) \<leftarrow> randomx_calculate_hash_first cfg I inp vm; Some (out, t, vm) }"
proof -
  obtain vm2 where vm2: "all_programs cfg I (dread m) t vm = Some vm2" "vm_ok cfg vm2"
    using all_programs_ok [OF assms(1-3), of I t] by (elim succeedsE)
  obtain t2 where "rx_blake2b 64 inp = Some t2"
    using blake2b_ok [of 64 inp] by (auto elim: succeedsE)
  then show ?thesis using vm2 hashAndFill_split [OF assms(1) vm2(2) assms(4)]
    by (simp add: randomx_calculate_hash_next_def randomx_calculate_hash_first_def)
qed

end

text \<open>The sequence of calls a worker makes, and the plain calls it replaces.\<close>

primrec pipelined_hashes ::
  "rx_config \<Rightarrow> vm_impl \<Rightarrow> dataset_read \<Rightarrow> bytes \<Rightarrow> bytes list \<Rightarrow> randomx_vm \<Rightarrow>
   (bytes list \<times> bytes \<times> randomx_vm) option" where
  "pipelined_hashes cfg I dr t [] vm = Some ([], t, vm)"
| "pipelined_hashes cfg I dr t (x # xs) vm =
     do { (out, t, vm) \<leftarrow> randomx_calculate_hash_next cfg I dr t x vm;
          (outs, t, vm) \<leftarrow> pipelined_hashes cfg I dr t xs vm;
          Some (out # outs, t, vm) }"

primrec plain_hashes ::
  "rx_config \<Rightarrow> vm_impl \<Rightarrow> dataset_read \<Rightarrow> bytes list \<Rightarrow> randomx_vm \<Rightarrow> (bytes list \<times> randomx_vm) option" where
  "plain_hashes cfg I dr [] vm = Some ([], vm)"
| "plain_hashes cfg I dr (x # xs) vm =
     do { (out, vm) \<leftarrow> randomx_calculate_hash cfg I dr x vm;
          (outs, vm) \<leftarrow> plain_hashes cfg I dr xs vm;
          Some (out # outs, vm) }"

lemma calculate_hash_first_split:
  "randomx_calculate_hash cfg I dr inp vm =
    do { (t, vm) \<leftarrow> randomx_calculate_hash_first cfg I inp vm;
         vm \<leftarrow> all_programs cfg I dr t vm; getFinalResult cfg I vm }"
  by (simp add: randomx_calculate_hash_def randomx_calculate_hash_first_def split: Option.bind_split)

lemma calculate_hash_first_ok:
  assumes "rx_valid cfg" "vm_ok cfg vm"
  shows "succeeds (randomx_calculate_hash_first cfg I inp vm) (\<lambda>(t, vm'). vm_ok cfg vm')"
  unfolding randomx_calculate_hash_first_def
  by (rule succeeds_bindI [OF blake2b_ok]) (auto intro: initScratchpad_ok assms)

context dataset_view
begin

lemma pipelined_hashes_eq:
  assumes v: "rx_valid cfg" "ready m" "im_instance I \<in> set hashAndFill_instances"
  shows "vm_ok cfg vm \<Longrightarrow>
    do { (t, vm) \<leftarrow> randomx_calculate_hash_first cfg I x vm; pipelined_hashes cfg I (dread m) t xs vm } =
    do { (outs, vm) \<leftarrow> plain_hashes cfg I (dread m) (butlast (x # xs)) vm;
         (t, vm) \<leftarrow> randomx_calculate_hash_first cfg I (last (x # xs)) vm; Some (outs, t, vm) }"
proof (induction xs arbitrary: x vm)
  case Nil
  then show ?case by (simp split: Option.bind_split)
next
  case (Cons y ys)
  obtain t vm1 where f: "randomx_calculate_hash_first cfg I x vm = Some (t, vm1)" "vm_ok cfg vm1"
    using calculate_hash_first_ok [OF v(1) Cons.prems, of I x] by (auto elim!: succeedsE)
  obtain vm2 where p: "all_programs cfg I (dread m) t vm1 = Some vm2" "vm_ok cfg vm2"
    using all_programs_ok [OF v(1,2) f(2), of I t] by (elim succeedsE)
  obtain out vm3 where r: "getFinalResult cfg I vm2 = Some (out, vm3)" "vm_ok cfg vm3"
    using getFinalResult_ok [OF v(1) p(2), of I] by (auto elim!: succeedsE)
  have ih: "do { (t, vm) \<leftarrow> randomx_calculate_hash_first cfg I y vm3; pipelined_hashes cfg I (dread m) t ys vm } =
    do { (outs, vm) \<leftarrow> plain_hashes cfg I (dread m) (butlast (y # ys)) vm3;
         (t, vm) \<leftarrow> randomx_calculate_hash_first cfg I (last (y # ys)) vm; Some (outs, t, vm) }"
    by (rule Cons.IH [OF r(2)])
  have n: "randomx_calculate_hash_next cfg I (dread m) t y vm1 =
    do { (t, vm) \<leftarrow> randomx_calculate_hash_first cfg I y vm3; Some (out, t, vm) }"
    using next_split [OF v(1,2) f(2) v(3), of t y] p(1) r(1) by simp
  have "do { (t, vm) \<leftarrow> randomx_calculate_hash_first cfg I x vm; pipelined_hashes cfg I (dread m) t (y # ys) vm }
    = do { (outs, t, vm) \<leftarrow> (do { (t, vm) \<leftarrow> randomx_calculate_hash_first cfg I y vm3;
             pipelined_hashes cfg I (dread m) t ys vm }); Some (out # outs, t, vm) }"
    by (simp add: f(1) n split: Option.bind_split)
  also have "\<dots> = do { (outs, vm) \<leftarrow> plain_hashes cfg I (dread m) (butlast (x # y # ys)) vm;
         (t, vm) \<leftarrow> randomx_calculate_hash_first cfg I (last (x # y # ys)) vm; Some (outs, t, vm) }"
    unfolding ih
    by (simp add: calculate_hash_first_split f(1) p(1) r(1) split: Option.bind_split)
  finally show ?case .
qed

end

subsection \<open>Both machines satisfy the contract\<close>

interpretation full: dataset_view "\<lambda>memory. dataset_size \<le> length memory" datasetRead_full
  by unfold_locales (auto simp: datasetRead_full_def line_address_def intro: xor_line_ok)

interpretation light: dataset_view cache_ok datasetRead_light
  by unfold_locales
    (auto simp: datasetRead_light_def Let_def intro!: succeeds_bindI [OF initDatasetItem_ok] xor_line_ok)

end
