(* ===== verification/VmSpec.thy ===== *)
theory VmSpec
  imports VmProps
begin

text \<open>
  The properties of the virtual machine as theorems about the model's own definitions: hashing is
  total, the full and the light machine agree, the pipelined calls are the plain ones, dataset
  reads stay inside the dataset, and the floating point registers are set up so that no
  operation of a program meets a NaN, an infinity or a zero divisor.
\<close>

subsection \<open>The two machines agree\<close>

definition dataset_of :: "randomx_cache \<Rightarrow> bytes \<Rightarrow> bool" where
  "dataset_of cache memory \<longleftrightarrow> dataset_size \<le> length memory \<and>
     (\<forall>i < randomx_dataset_item_count. get_bytes memory (64 * i) 64 = initDatasetItem cache (of_nat i))"

lemma randomx_init_dataset_of:
  assumes "cache_ok cache" "dataset_size \<le> length memory"
  shows "succeeds (randomx_init_dataset memory cache 0 randomx_dataset_item_count) (dataset_of cache)"
proof -
  have c: "randomx_dataset_item_count = 34078719"
    by (simp add: randomx_dataset_item_count_def rx_const_defs)
  have "succeeds (initDataset_from cache memory 0 0 34078719) (\<lambda>d. length d = length memory \<and>
      (\<forall>k < 34078719. get_bytes d (64 * k) 64 = initDatasetItem cache (ucast (of_nat k :: u32))))"
    using initDataset_from_spec [OF assms(1), of 0 34078719 0 memory] assms(2)
    by (auto simp: dataset_size_eq elim!: succeeds_weaken)
  moreover have "ucast (of_nat k :: u32) = (of_nat k :: u64)" if "k < 34078719" for k
    using that by (simp add: unsigned_of_nat take_bit_eq_mod word_unat_eq_iff)
  ultimately show ?thesis using assms(2)
    by (auto simp: randomx_init_dataset_def initDataset_def c dataset_of_def elim!: succeeds_weaken)
qed

lemma datasetRead_agree:
  assumes d: "dataset_of cache memory" and a: "line_address a"
  shows "datasetRead_full memory a r = datasetRead_light cache a r"
proof -
  have b: "unat a + 64 \<le> 2181038016" "64 dvd unat a" using a by (simp_all add: line_address_def dataset_size_eq)
  have q: "unat (a div 64) = unat a div 64" by (simp add: unat_div)
  then have less: "unat (a div 64) < 34078719" using b(1) by simp
  have "unat (ucast (ucast (a div 64) :: u32) :: u64) = unat (a div 64)"
    using less by (simp only: unsigned_ucast_eq take_bit_eq_mod) (simp add: unat_mod)
  then have i: "ucast (ucast (a div 64) :: u32) = (a div 64)" by (simp only: word_unat_eq_iff)
  have n: "a div 64 = of_nat (unat a div 64)" by (simp add: q [symmetric])
  have "unat a div 64 < randomx_dataset_item_count"
    using b(1) by (simp add: randomx_dataset_item_count_def rx_const_defs)
  then have l: "get_bytes memory (64 * (unat a div 64)) 64 = initDatasetItem cache (a div 64)"
    using d by (simp add: dataset_of_def n [symmetric])
  have e: "64 * (unat a div 64) = unat a" using b(2) by simp
  have "get_bytes memory (unat a) 64 \<noteq> None" using d b(1) by (simp add: dataset_of_def dataset_size_eq get_bytes_def)
  then obtain line where line: "get_bytes memory (unat a) 64 = Some line" by blast
  then have "length line = 64" by (rule get_bytes_length)
  then have "get_bytes line 0 64 = Some line" by (simp add: get_bytes_def)
  moreover have "initDatasetItem cache (a div 64) = Some line" using l line by (simp add: e)
  moreover have "of_nat CacheLineSize = (64 :: u64)" by (simp add: rx_const_defs)
  ultimately show ?thesis using line
    by (simp add: datasetRead_full_def datasetRead_light_def xor_line_def Let_def i)
qed

text \<open>A machine reads the dataset at line addresses only, so ways to read that agree there are the same.\<close>

lemma iteration_cong:
  assumes "\<And>a r. line_address a \<Longrightarrow> dr a r = dr' a r" "offset_ok off"
  shows "iteration cfg fp dr pcfg off bc L = iteration cfg fp dr' pcfg off bc L"
  unfolding iteration_def Let_def using assms(1) [OF readPtr_ok [OF assms(2)]] by simp

lemma execute_cong:
  assumes "\<And>a r. line_address a \<Longrightarrow> dr a r = dr' a r" "offset_ok (v_datasetOffset vm)"
  shows "execute cfg fp dr vm = execute cfg fp dr' vm"
proof -
  have "iterations cfg fp dr pcfg (v_datasetOffset vm) bc n L = iterations cfg fp dr' pcfg (v_datasetOffset vm) bc n L"
    for pcfg bc n L
    by (induction n arbitrary: L) (simp_all add: iteration_cong [OF assms])
  then show ?thesis by (simp add: execute_def)
qed

lemma vm_run_cong:
  assumes "\<And>a r. line_address a \<Longrightarrow> dr a r = dr' a r"
  shows "vm_run cfg I dr seed vm = vm_run cfg I dr' seed vm"
  using execute_cong [of dr dr', OF assms initialize_ok(2)] by (simp add: vm_run_def)

lemma calculate_hash_cong:
  assumes "\<And>a r. line_address a \<Longrightarrow> dr a r = dr' a r"
  shows "randomx_calculate_hash cfg I dr inp vm = randomx_calculate_hash cfg I dr' inp vm"
proof -
  note run = vm_run_cong [of dr dr', OF assms]
  have "chain cfg I dr n seed vm = chain cfg I dr' n seed vm" for n seed vm
    by (induction n arbitrary: seed vm) (simp_all add: run)
  then show ?thesis by (simp add: randomx_calculate_hash_def all_programs_def run)
qed

subsection \<open>Properties of hashing\<close>

text \<open>A machine with zeroed buffers, for the examples.\<close>

definition zero_vm :: "rx_config \<Rightarrow> randomx_vm" where
  "zero_vm cfg = \<lparr> v_program = replicate (128 + 8 * RANDOMX_PROGRAM_MAX_SIZE) 0,
     v_reg = \<lparr> reg_r = replicate 8 0, reg_f = replicate 4 (0, 0), reg_e = replicate 4 (0, 0), reg_a = replicate 4 (0, 0) \<rparr>,
     v_config = \<lparr> eMask = [0, 0], readReg0 = 0, readReg1 = 2, readReg2 = 4, readReg3 = 6 \<rparr>,
     v_mx = 0, v_ma = 0, v_scratchpad = replicate (unat (ScratchpadL3_Size cfg)) 0, v_datasetOffset = 0,
     v_bytecode = replicate RANDOMX_PROGRAM_MAX_SIZE nop_code, v_rmode = RoundToNearest \<rparr>"

definition example_impl :: vm_impl where
  "example_impl = \<lparr> im_aes = soft_aes_2 (make_tables [] []), im_instance = (2, 4),
     im_fpu = \<lparr> fp_add = (\<lambda>m x y. x), fp_sub = (\<lambda>m x y. x), fp_mul = (\<lambda>m x y. x),
                fp_div = (\<lambda>m x y. x), fp_sqrt = (\<lambda>m x. x) \<rparr> \<rparr>"

lemma zero_vm_ok: "vm_ok cfg (zero_vm cfg)"
  by (simp add: vm_ok_def zero_vm_def)

lemma flat_cache: "\<exists>cache. cache_ok cache"
proof -
  obtain cache where "initCache flat_config zero_fill [] = Some cache" using flat_initCache by blast
  then have "cache_ok cache" by (rule initCache_ok) (simp add: zero_fill_def)
  then show ?thesis ..
qed

text \<open>C5.  Hashing is total: for a valid configuration and a machine with its buffers, every input
  has a 32-byte hash, on the full dataset and on the cache alone; no access leaves the
  scratchpad, the program buffer, the register file, the dataset or the cache, no loop of a
  program runs for ever, and the machine is ready for the next input.\<close>

theorem randomx_calculate_hash_total:
  assumes "rx_valid cfg" "vm_ok cfg vm" "dataset_size \<le> length memory" "cache_ok cache"
  shows "(\<exists>out vm'. randomx_calculate_hash cfg I (datasetRead_full memory) inp vm = Some (out, vm')
      \<and> length out = 32 \<and> vm_ok cfg vm') \<and>
    (\<exists>out vm'. randomx_calculate_hash cfg I (datasetRead_light cache) inp vm = Some (out, vm')
      \<and> length out = 32 \<and> vm_ok cfg vm')"
  using full.calculate_hash_ok [OF assms(1,3,2), of I inp] light.calculate_hash_ok [OF assms(1,4,2), of I inp]
  by (auto elim!: succeedsE)

theorem randomx_calculate_hash_total_witness:
  "\<exists>cache out vm'. cache_ok cache \<and>
    randomx_calculate_hash (Apply RandomX_ConfigurationArqma) example_impl (datasetRead_light cache) [1, 2, 3]
      (zero_vm (Apply RandomX_ConfigurationArqma)) = Some (out, vm') \<and> length out = 32"
proof -
  obtain cache where "cache_ok cache" using flat_cache by blast
  then show ?thesis
    using randomx_calculate_hash_total [OF rx_valid_Arqma zero_vm_ok, of "replicate dataset_size 0" cache example_impl "[1, 2, 3]"]
    by auto
qed

text \<open>C7.  The light machine, which computes dataset items from the cache as it needs them, and the
  full machine on a dataset filled from that cache compute the same hash of every input, and
  end in the same state.\<close>

theorem full_and_light_agree:
  assumes "cache_ok cache" "dataset_size \<le> length memory"
    and "randomx_init_dataset memory cache 0 randomx_dataset_item_count = Some dataset"
  shows "randomx_calculate_hash cfg I (datasetRead_full dataset) inp vm =
    randomx_calculate_hash cfg I (datasetRead_light cache) inp vm"
proof -
  have "dataset_of cache dataset" using randomx_init_dataset_of [OF assms(1,2)] assms(3) by simp
  then show ?thesis by (intro calculate_hash_cong datasetRead_agree)
qed

theorem full_and_light_agree_witness:
  "\<exists>cache dataset. cache_ok cache \<and>
    randomx_init_dataset (replicate dataset_size 0) cache 0 randomx_dataset_item_count = Some dataset \<and>
    randomx_calculate_hash (Apply RandomX_ConfigurationArqma) example_impl (datasetRead_full dataset) [7]
      (zero_vm (Apply RandomX_ConfigurationArqma)) =
    randomx_calculate_hash (Apply RandomX_ConfigurationArqma) example_impl (datasetRead_light cache) [7]
      (zero_vm (Apply RandomX_ConfigurationArqma))"
proof -
  obtain cache where c: "cache_ok cache" using flat_cache by blast
  obtain dataset where d: "randomx_init_dataset (replicate dataset_size 0) cache 0 randomx_dataset_item_count = Some dataset"
    using randomx_init_dataset_of [OF c, of "replicate dataset_size 0"] by (auto elim: succeedsE)
  show ?thesis using c d full_and_light_agree [OF c _ d] by auto
qed

text \<open>C9.  Pipelining is invisible: starting a first input and then handing in the next input at
  each call, which fuses the end of one hash with the start of the next, yields exactly the
  hashes that separate calls yield, and leaves the machine as they do.\<close>

theorem pipelined_hashes_are_plain_hashes:
  assumes "rx_valid cfg" "vm_ok cfg vm" "dataset_size \<le> length memory"
    and "im_instance I \<in> set hashAndFill_instances"
  shows "do { (t, vm) \<leftarrow> randomx_calculate_hash_first cfg I x vm;
              pipelined_hashes cfg I (datasetRead_full memory) t xs vm } =
    do { (outs, vm) \<leftarrow> plain_hashes cfg I (datasetRead_full memory) (butlast (x # xs)) vm;
         (t, vm) \<leftarrow> randomx_calculate_hash_first cfg I (last (x # xs)) vm; Some (outs, t, vm) }"
  by (rule full.pipelined_hashes_eq [OF assms(1,3,4,2)])

theorem pipelined_hashes_are_plain_hashes_witness:
  "do { (t, vm) \<leftarrow> randomx_calculate_hash_first (Apply RandomX_ConfigurationArqma) example_impl [1]
            (zero_vm (Apply RandomX_ConfigurationArqma));
        pipelined_hashes (Apply RandomX_ConfigurationArqma) example_impl
          (datasetRead_full (replicate dataset_size 0)) t [[2], [3]] vm } =
    do { (outs, vm) \<leftarrow> plain_hashes (Apply RandomX_ConfigurationArqma) example_impl
            (datasetRead_full (replicate dataset_size 0)) (butlast [[1], [2], [3]])
            (zero_vm (Apply RandomX_ConfigurationArqma));
         (t, vm) \<leftarrow> randomx_calculate_hash_first (Apply RandomX_ConfigurationArqma) example_impl
            (last [[1], [2], [3]]) vm; Some (outs, t, vm) }"
  by (rule pipelined_hashes_are_plain_hashes [OF rx_valid_Arqma zero_vm_ok])
    (simp_all add: example_impl_def hashAndFill_instances_def)

text \<open> Every address at which an initialised machine reads the dataset, whatever entropy the
  program has and whatever the address register holds, is the address of a whole line of the
  dataset.\<close>

theorem dataset_reads_in_range:
  "unat (v_datasetOffset (initialize vm) + (ucast (ma :: u32) AND CacheLineAlignMask)) + 64 \<le> dataset_size \<and>
   64 dvd unat (v_datasetOffset (initialize vm) + (ucast ma AND CacheLineAlignMask))"
  using readPtr_ok [OF initialize_ok(2), of vm "ucast ma"] by (simp add: line_address_def)

subsection \<open>Floating point registers\<close>

text \<open>Sign and exponent of a double, its upper twelve bits.\<close>

definition sign_exponent :: "u64 \<Rightarrow> u64" where
  "sign_exponent w = drop_bit 52 w"

lemma sign_exponent_or [simp]: "sign_exponent (a OR b) = sign_exponent a OR sign_exponent b"
  by (simp add: sign_exponent_def)

lemma sign_exponent_push: "sign_exponent (push_bit 52 y) = take_bit 12 y"
  unfolding sign_exponent_def by (rule bit_word_eqI) (auto simp: bit_simps)

lemma sign_exponent_mask: "n \<le> 52 \<Longrightarrow> sign_exponent (x AND mask n) = 0"
  unfolding sign_exponent_def by (rule bit_word_eqI) (auto simp: bit_simps)

lemma sign_exponent_take: "n \<le> 52 \<Longrightarrow> sign_exponent (take_bit n x) = 0"
  using sign_exponent_mask by (simp add: take_bit_eq_mask)

lemma pow_minus_1: "push_bit n 1 - 1 = (mask n :: u64)"
  by (simp add: mask_eq_exp_minus_1 push_bit_of_1)

lemma unat_top_bits: "unat (drop_bit n (w :: u64)) < 2 ^ (64 - n)" if "n \<le> 64"
proof -
  have "drop_bit n w = take_bit (64 - n) (drop_bit n w)"
    by (rule bit_word_eqI) (auto simp: bit_simps dest: bit_imp_le_length)
  then have "unat (drop_bit n w) = take_bit (64 - n) (unat (drop_bit n w))"
    by (metis unsigned_take_bit_eq)
  then show ?thesis by (metis take_bit_nat_less_exp)
qed

lemma small_positive_exponent:
  "1023 \<le> unat (sign_exponent (getSmallPositiveFloatBits w)) \<and> unat (sign_exponent (getSmallPositiveFloatBits w)) \<le> 1054"
proof -
  have b: "unat (drop_bit 59 w) < 32" using unat_top_bits [of 59 w] by simp
  then have u: "unat (drop_bit 59 w + 1023) = unat (drop_bit 59 w) + 1023" by (simp add: unat_word_ariths)
  have "sign_exponent (getSmallPositiveFloatBits w) = take_bit 12 (take_bit 11 (drop_bit 59 w + 1023))"
    by (simp only: getSmallPositiveFloatBits_def Let_def sign_exponent_or sign_exponent_push pow_minus_1
        sign_exponent_take [OF order_refl] take_bit_eq_mask [symmetric] or.right_neutral)
  also have "\<dots> = take_bit 11 (drop_bit 59 w + 1023)" by simp
  finally have "unat (sign_exponent (getSmallPositiveFloatBits w)) = take_bit 11 (unat (drop_bit 59 w) + 1023)"
    using u by (simp add: unsigned_take_bit_eq)
  also have "\<dots> = unat (drop_bit 59 w) + 1023" using b by (simp add: take_bit_eq_mod)
  finally show ?thesis using b by simp
qed

lemma float_mask_exponent:
  fixes x w :: u64
  defines "v \<equiv> (x AND dynamicMantissaMask) OR getFloatMask w"
  shows "0x300 \<le> unat (sign_exponent v) \<and> unat (sign_exponent v) \<le> 0x3FF"
proof -
  let ?s = "push_bit 4 (drop_bit 60 w)"
  have m: "sign_exponent (getFloatMask w) = take_bit 12 (0x300 OR ?s)"
    using sign_exponent_mask [of 22 w]
    by (simp only: getFloatMask_def getStaticExponent_def Let_def sign_exponent_or sign_exponent_push pow_minus_1) simp
  have s: "sign_exponent v = sign_exponent (x AND mask 56) OR take_bit 12 (0x300 OR ?s)"
    by (simp only: v_def m dynamicMantissaMask_def pow_minus_1 sign_exponent_or)
  have t: "(0x300 :: u64) = take_bit 10 0x300" by simp
  have "sign_exponent (x AND mask 56) OR take_bit 12 (take_bit 10 c OR ?s)
      = take_bit 10 (sign_exponent (x AND mask 56) OR take_bit 12 (take_bit 10 c OR ?s))" for c
    unfolding sign_exponent_def
    by (rule bit_word_eqI) (auto simp: bit_simps dest: bit_imp_le_length)
  from this [of "0x300"] have "sign_exponent v = take_bit 10 (sign_exponent v)" by (simp only: s t [symmetric])
  then have "unat (sign_exponent v) < 2 ^ 10" by (metis take_bit_nat_less_exp unsigned_take_bit_eq)
  moreover have "0x300 \<le> unat (sign_exponent v)"
  proof -
    have "sign_exponent v OR 0x300 = sign_exponent v" unfolding s by (simp add: ac_simps take_bit_or)
    then have e: "uint (0x300 :: u64) OR uint (sign_exponent v) = uint (sign_exponent v)"
      by (simp only: unsigned_or_eq [symmetric] or.commute)
    have "0 \<le> uint (sign_exponent v)" by (rule unsigned_greater_eq)
    then have "uint (0x300 :: u64) \<le> uint (0x300 :: u64) OR uint (sign_exponent v)" by (rule or_greater_eq)
    then have "uint (0x300 :: u64) \<le> uint (sign_exponent v)" by (simp only: e)
    then have "(0x300 :: u64) \<le> sign_exponent v" by (simp only: word_le_def)
    then show ?thesis by (simp only: word_le_nat_alt) simp
  qed
  ultimately show ?thesis by simp
qed

text \<open> Whatever the entropy of a program, the constants of the additive registers are normal
  positive doubles between 1 and \<open>2 ^ 32\<close>, and the multiplicative registers are loaded with
  positive normal doubles with exponent fields between \<open>0x300\<close> and \<open>0x3FF\<close>, whatever the
  scratchpad holds: no division by zero, no square root of a negative number, no NaN.\<close>

theorem float_registers_normal:
  "list_all (\<lambda>v. 1023 \<le> unat (sign_exponent (fst v)) \<and> unat (sign_exponent (fst v)) \<le> 1023 + 31 \<and>
      1023 \<le> unat (sign_exponent (snd v)) \<and> unat (sign_exponent (snd v)) \<le> 1023 + 31)
    (reg_a (v_reg (initialize vm))) \<and>
   (let v = maskRegisterExponentMantissa (v_config (initialize vm)) x
    in 0x300 \<le> unat (sign_exponent (fst v)) \<and> unat (sign_exponent (fst v)) \<le> 0x3FF \<and>
       0x300 \<le> unat (sign_exponent (snd v)) \<and> unat (sign_exponent (snd v)) \<le> 0x3FF)"
  using small_positive_exponent float_mask_exponent
  by (simp add: initialize_def Let_def maskRegisterExponentMantissa_def vec_map2_def del: sign_exponent_or)

end
