(* ===== verification/VmFunction.thy ===== *)
theory VmFunction
  imports VmSpec
begin

text \<open>
  The hash is a function of the input. A machine is reused for every nonce, and neither the
  compiler nor the program generator clears what it does not write: bytecode fields a branch
  does not assign keep the values of the previous program. This theory shows that no instruction
  reads such a field and that everything else is overwritten, so the hash does not depend on
  what the machine computed before.
\<close>

subsection \<open>The fields an instruction reads\<close>

definition mem_type :: "instr_type \<Rightarrow> bool" where
  "mem_type t \<longleftrightarrow> t \<in> {IADD_M, ISUB_M, IMUL_M, IMULH_M, ISMULH_M, IXOR_M, FADD_M, FSUB_M, FDIV_M, ISTORE}"

definition reads_src :: "instr_type \<Rightarrow> bool" where
  "reads_src t \<longleftrightarrow> t \<notin> {INEG_R, FSWAP_R, FSCAL_R, FSQRT_R, CBRANCH, NOP}"

definition reads_imm :: "InstructionByteCode \<Rightarrow> bool" where
  "reads_imm ibc \<longleftrightarrow> mem_type (b_type ibc) \<or> b_type ibc \<in> {IADD_RS, CBRANCH, CFROUND}
     \<or> (b_src ibc = SrcImm \<and> reads_src (b_type ibc))"

definition norm :: "InstructionByteCode \<Rightarrow> InstructionByteCode" where
  "norm ibc = (let t = b_type ibc in
     ibc \<lparr> b_dst := if t \<in> {NOP, CFROUND} then DstR 0 else b_dst ibc,
           b_src := if reads_src t then b_src ibc else SrcZero,
           b_imm := if reads_imm ibc then b_imm ibc else 0,
           b_ts := if t \<in> {IADD_RS, CBRANCH} then b_ts ibc else 0,
           memMask := if mem_type t \<or> t = CBRANCH then memMask ibc else 0 \<rparr>)"

lemmas operand_defs = get_idst_def set_idst_def get_isrc_def set_isrc_def get_fdst_def set_fdst_def
  get_fsrc_def load_mem_def load_fmem_def getScratchpadAddress_def

lemma executeInstruction_norm:
  "executeInstruction cfg fp pcfg (norm ibc) pc st = executeInstruction cfg fp pcfg ibc pc st"
  by (cases "b_type ibc"; cases "b_src ibc")
    (simp_all add: norm_def Let_def reads_imm_def reads_src_def mem_type_def executeInstruction_def
      exe_defs exe_ISWAP_R_def exe_CBRANCH_def exe_CFROUND_def exe_ISTORE_def operand_defs cong: if_cong)

lemma norm_simps:
  "b_type (norm x) = b_type x" "b_dst (norm x) = (if b_type x = NOP \<or> b_type x = CFROUND then DstR 0 else b_dst x)"
  "b_src (norm x) = (if reads_src (b_type x) then b_src x else SrcZero)"
  "b_imm (norm x) = (if mem_type (b_type x) \<or> b_type x \<in> {IADD_RS, CBRANCH, CFROUND}
     \<or> (b_src x = SrcImm \<and> reads_src (b_type x)) then b_imm x else 0)"
  "b_ts (norm x) = (if b_type x = IADD_RS \<or> b_type x = CBRANCH then b_ts x else 0)"
  "memMask (norm x) = (if mem_type (b_type x) \<or> b_type x = CBRANCH then memMask x else 0)"
  by (simp_all add: norm_def Let_def reads_imm_def)

lemma norm_eqI:
  "b_type x = b_type y \<Longrightarrow> b_dst (norm x) = b_dst (norm y) \<Longrightarrow> b_src (norm x) = b_src (norm y) \<Longrightarrow>
   b_imm (norm x) = b_imm (norm y) \<Longrightarrow> b_ts (norm x) = b_ts (norm y) \<Longrightarrow> memMask (norm x) = memMask (norm y) \<Longrightarrow>
   norm x = norm y"
  by (rule InstructionByteCode.equality) (simp_all add: norm_simps(1))

lemma norm_reg_src:
  assumes "t \<in> {ISUB_R, IMUL_R, IXOR_R, IROR_R, IROL_R}"
  shows "norm (gen_reg_src im d s (ibc \<lparr> b_type := t, b_dst := p \<rparr>)) =
    norm (gen_reg_src im d s (ibc' \<lparr> b_type := t, b_dst := p \<rparr>))"
  using assms by (intro norm_eqI) (auto simp: norm_simps gen_reg_src_def reads_src_def mem_type_def)

lemma norm_mem_src:
  assumes "t \<in> {IADD_M, ISUB_M, IMUL_M, IMULH_M, ISMULH_M, IXOR_M}"
  shows "norm (gen_mem_src cfg instr d s (ibc \<lparr> b_type := t, b_dst := p \<rparr>)) =
    norm (gen_mem_src cfg instr d s (ibc' \<lparr> b_type := t, b_dst := p \<rparr>))"
  using assms by (intro norm_eqI) (auto simp: norm_simps gen_mem_src_def Let_def reads_src_def mem_type_def)

lemma gen_for_norm:
  "norm (fst (gen_for cfg t instr i ibc usage)) = norm (fst (gen_for cfg t instr i ibc' usage))"
proof (cases "t \<in> {ISUB_R, IMUL_R, IXOR_R, IROR_R, IROL_R, IADD_M, ISUB_M, IMUL_M, IMULH_M, ISMULH_M, IXOR_M}")
  case True
  then show ?thesis
    by (auto simp: gen_ISUB_R_def gen_IMUL_R_def gen_IXOR_R_def gen_IROR_R_def gen_IROL_R_def
        gen_IADD_M_def gen_ISUB_M_def gen_IMUL_M_def gen_IMULH_M_def gen_ISMULH_M_def gen_IXOR_M_def
        Let_def intro!: norm_reg_src norm_mem_src)
next
  case False
  have "norm (fst (gen_IADD_RS instr i ibc usage)) = norm (fst (gen_IADD_RS instr i ibc' usage))"
    by (cases "reg8 (i_dst instr) = RegisterNeedsDisplacement"; intro norm_eqI;
        simp add: norm_simps gen_IADD_RS_def Let_def reads_src_def mem_type_def)
  moreover have "norm (fst (gen_IMUL_RCP instr i ibc usage)) = norm (fst (gen_IMUL_RCP instr i ibc' usage))"
    by (cases "isZeroOrPowerOf2 (ucast (i_imm32 instr) :: u64)"; intro norm_eqI;
        simp add: norm_simps gen_IMUL_RCP_def Let_def reads_src_def mem_type_def)
  moreover have "norm (fst (gen_ISWAP_R instr i ibc usage)) = norm (fst (gen_ISWAP_R instr i ibc' usage))"
    by (cases "reg8 (i_src instr) = reg8 (i_dst instr)"; intro norm_eqI;
        simp add: norm_simps gen_ISWAP_R_def Let_def reads_src_def mem_type_def)
  moreover have "norm (fst (gen_FSWAP_R instr i ibc usage)) = norm (fst (gen_FSWAP_R instr i ibc' usage))"
    by (cases "reg8 (i_dst instr) < RegisterCountFlt"; intro norm_eqI;
        simp add: norm_simps gen_FSWAP_R_def Let_def reads_src_def mem_type_def)
  ultimately show ?thesis
    using False
    by (cases t; simp; intro norm_eqI; simp add: norm_simps gen_defs gen_CBRANCH_def Let_def
      reads_src_def mem_type_def split del: if_split)
qed

lemma gen_for_usage: "snd (gen_for cfg t instr i ibc usage) = snd (gen_for cfg t instr i ibc' usage)"
  by (cases t) (simp_all add: gen_defs gen_CBRANCH_def Let_def)


subsection \<open>Programs\<close>

text \<open>Bytecode that agrees on the fields that are read runs alike.\<close>

lemma compileInstruction_norm:
  "map_option (\<lambda>(x, u). (norm x, u)) (compileInstruction cfg instr i ibc usage) =
   map_option (\<lambda>(x, u). (norm x, u)) (compileInstruction cfg instr i ibc' usage)"
  using gen_for_norm [of cfg _ instr i ibc usage ibc'] gen_for_usage [of cfg _ instr i ibc usage ibc']
  by (cases "pick_type (RANDOMX_FREQ cfg) (ucast (i_opcode instr)) instr_types")
    (simp_all add: compileInstruction_def case_prod_unfold)

lemma compile_from_norm:
  assumes "length bc = length bc'"
  shows "map_option (\<lambda>(xs, u). (map norm xs, u)) (compile_from cfg i prog bc usage) =
    map_option (\<lambda>(xs, u). (map norm xs, u)) (compile_from cfg i prog bc' usage)"
  using assms
proof (induction cfg i prog bc usage arbitrary: bc' rule: compile_from.induct)
  case (1 cfg i instr prog ibc bc usage)
  then obtain ibc' cs where bc': "bc' = ibc' # cs" "length bc = length cs"
    by (cases bc') auto
  note one = compileInstruction_norm [of cfg instr i ibc usage ibc']
  show ?case
  proof (cases "compileInstruction cfg instr i ibc usage")
    case None
    then show ?thesis using one by (simp add: bc')
  next
    case (Some r)
    obtain x u where r: "r = (x, u)" by (cases r)
    obtain y where y: "compileInstruction cfg instr i ibc' usage = Some (y, u)" "norm x = norm y"
      using one by (cases "compileInstruction cfg instr i ibc' usage") (auto simp: Some r)
    have "map_option (\<lambda>(xs, u). (map norm xs, u)) (compile_from cfg (Suc i) prog bc u) =
      map_option (\<lambda>(xs, u). (map norm xs, u)) (compile_from cfg (Suc i) prog cs u)"
      by (rule 1(1) [OF Some [unfolded r] refl bc'(2)])
    then show ?thesis
      using y by (cases "compile_from cfg (Suc i) prog bc u"; cases "compile_from cfg (Suc i) prog cs u")
        (auto simp: bc' Some r)
  qed
qed (auto simp: neq_Nil_conv split: list.splits)

lemma compileProgram_norm:
  assumes "take (ProgramSize cfg) prog = take (ProgramSize cfg) prog'" "length bc = length bc'"
  shows "map_option (map norm) (compileProgram cfg prog bc) = map_option (map norm) (compileProgram cfg prog' bc')"
proof -
  have "map_option (map norm \<circ> fst) x = map_option fst (map_option (\<lambda>(xs, u). (map norm xs, u)) x)"
    for x :: "(InstructionByteCode list \<times> int list) option"
    by (simp add: option.map_comp comp_def case_prod_unfold)
  then show ?thesis
    using compile_from_norm [of "take (ProgramSize cfg) bc" "take (ProgramSize cfg) bc'" cfg 0
        "take (ProgramSize cfg) prog" beginCompilation] assms
    by (simp add: compileProgram_def option.map_comp) (simp flip: option.map_comp)
qed

lemma exec_from_norm:
  assumes "map norm bc = map norm bc'"
  shows "exec_from cfg fp pcfg bc fuel pc st = exec_from cfg fp pcfg bc' fuel pc st"
proof (induction fuel arbitrary: pc st)
  case 0
  then show ?case by (simp add: exec_from.simps)
next
  case (Suc fuel)
  have len: "length bc = length bc'" using assms by (metis length_map)
  have "executeInstruction cfg fp pcfg (bc ! k) = executeInstruction cfg fp pcfg (bc' ! k)"
    if "k < length bc" for k
    using that assms len executeInstruction_norm [of cfg fp pcfg "bc ! k"]
      executeInstruction_norm [of cfg fp pcfg "bc' ! k"] nth_map [of k bc norm] nth_map [of k bc' norm]
    by (metis ext)
  then show ?case
    using Suc.IH len
    by (subst (1 2) exec_from.simps) (simp split: option.split prod.split)
qed

lemma iterations_norm:
  assumes "map norm bc = map norm bc'"
  shows "iterations cfg fp dr pcfg off bc n L = iterations cfg fp dr pcfg off bc' n L"
proof (induction n arbitrary: L)
  case (Suc n)
  have "run_bytecode cfg fp pcfg bc = run_bytecode cfg fp pcfg bc'"
    by (simp add: fun_eq_iff run_bytecode_def executeBytecode_def exec_from_norm [OF assms])
  then have "iteration cfg fp dr pcfg off bc = iteration cfg fp dr pcfg off bc'"
    by (simp add: fun_eq_iff iteration_def)
  then show ?case using Suc by simp
qed simp

subsection \<open>Buffers that are overwritten\<close>

lemma fill_blocks_prefix:
  assumes "length m = length m'" "take p m = take p m'" "p + 64 * n \<le> length m"
  shows "take (p + 64 * n) (fst (fill_blocks A n p (m, s))) = take (p + 64 * n) (fst (fill_blocks A n p (m', s)))
    \<and> snd (fill_blocks A n p (m, s)) = snd (fill_blocks A n p (m', s))"
  using assms
proof (induction n arbitrary: p m m' s)
  case (Suc n)
  let ?u = "\<lambda>m. upd m p (store_lanes (fill_state A s))"
  have "take (p + 64) (?u m) = take (p + 64) (?u m')"
    using Suc.prems by (simp add: upd_def)
  then show ?case
    using Suc.IH [of "?u m" "?u m'" "p + 64" "fill_state A s"] Suc.prems by (simp add: add.assoc)
qed simp

lemma fill4_loop_prefix:
  assumes "length m = length m'" "take p m = take p m'" "p + 64 * n \<le> length m"
  shows "\<exists>r r'. fill4_loop cfg A m p (p + 64 * n) s = Some r \<and> fill4_loop cfg A m' p (p + 64 * n) s = Some r'
    \<and> take (p + 64 * n) r = take (p + 64 * n) r'"
  using assms
proof (induction n arbitrary: p m m' s)
  case 0
  then show ?case by (simp add: fill4_loop.simps)
next
  case (Suc n)
  let ?u = "\<lambda>m. upd m p (store_lanes (mask_lanes (transform4 cfg A s)))"
  have "take (p + 64) (?u m) = take (p + 64) (?u m')"
    using Suc.prems by (simp add: upd_def)
  then obtain r r' where
    "fill4_loop cfg A (?u m) (p + 64) (p + 64 + 64 * n) (transform4 cfg A s) = Some r"
    "fill4_loop cfg A (?u m') (p + 64) (p + 64 + 64 * n) (transform4 cfg A s) = Some r'"
    "take (p + 64 + 64 * n) r = take (p + 64 + 64 * n) r'"
    using Suc.IH [of "?u m" "?u m'" "p + 64" "transform4 cfg A s"] Suc.prems by auto
  then show ?case
    using Suc.prems by (subst (1 2) fill4_loop.simps) (simp add: put_bytes_upd ac_simps)
qed

lemma fillAes4Rx4_prefix:
  assumes "length m = length m'" "128 + 64 * n \<le> length m"
  shows "\<exists>r r'. fillAes4Rx4 cfg A s (128 + 64 * n) m = Some r \<and> fillAes4Rx4 cfg A s (128 + 64 * n) m' = Some r'
    \<and> take (128 + 64 * n) r = take (128 + 64 * n) r'"
proof -
  let ?s0 = "transform4 cfg A (load_lanes s)" and ?s1 = "transform4 cfg A (transform4 cfg A (load_lanes s))"
  let ?b = "\<lambda>m :: bytes. store_lanes ?s0 @ store_lanes ?s1 @ drop 128 m"
  have "fillAes4Rx4 cfg A s (128 + 64 * n) m = fill4_loop cfg A (?b m) 128 (128 + 64 * n) ?s1"
    if "128 + 64 * n \<le> length m" for m
    using that by (simp add: fillAes4Rx4_def Let_def put_bytes_def)
  then show ?thesis
    using fill4_loop_prefix [of "?b m" "?b m'" 128 n cfg A ?s1] assms by simp
qed

lemma take_8_drop_prefix:
  "take n p = take n p' \<Longrightarrow> k + 8 \<le> n \<Longrightarrow> take 8 (drop k p) = take 8 (drop k p')"
  by (drule arg_cong [where f = "take (8 + k)"]) (simp add: take_drop min.absorb1 add.commute)

lemma getEntropy_prefix: "take 128 p = take 128 p' \<Longrightarrow> i < 16 \<Longrightarrow> getEntropy p i = getEntropy p' i"
  using take_8_drop_prefix [of 128 p p' "8 * i"] by (simp add: getEntropy_def load64_def)

lemma program_instructions_prefix:
  assumes "take (128 + 8 * n) p = take (128 + 8 * n) p'"
  shows "take n (program_instructions p) = take n (program_instructions p')"
proof -
  have "take 8 (drop (128 + 8 * pc) p) = take 8 (drop (128 + 8 * pc) p')" if "pc < n" for pc
    using that by (intro take_8_drop_prefix [OF assms]) simp
  moreover have "take n [0..<m] = [0..<min n m]" for m
    by (cases "n \<le> m") (simp_all add: take_upt min_def)
  ultimately show ?thesis
    by (auto simp: program_instructions_def take_map intro!: list.map_cong0)
qed

subsection \<open>Machines that differ in what was left over\<close>

definition vm_similar :: "rx_config \<Rightarrow> randomx_vm \<Rightarrow> randomx_vm \<Rightarrow> bool" where
  "vm_similar cfg a b \<longleftrightarrow> vm_ok cfg a \<and> vm_ok cfg b \<and>
     v_scratchpad a = v_scratchpad b \<and> v_rmode a = v_rmode b"

definition both_give :: "'a option \<Rightarrow> 'a option \<Rightarrow> ('a \<Rightarrow> 'a \<Rightarrow> bool) \<Rightarrow> bool" where
  "both_give x y Q \<longleftrightarrow> (\<exists>a b. x = Some a \<and> y = Some b \<and> Q a b)"

lemma both_give_bind:
  "both_give x y Q \<Longrightarrow> (\<And>a b. Q a b \<Longrightarrow> both_give (f a) (g b) P) \<Longrightarrow> both_give (x \<bind> f) (y \<bind> g) P"
  by (auto simp: both_give_def)

lemma both_give_weaken: "both_give x y Q \<Longrightarrow> (\<And>a b. Q a b \<Longrightarrow> P a b) \<Longrightarrow> both_give x y P"
  by (auto simp: both_give_def)

lemma both_give_Some [simp]: "both_give (Some a) (Some b) Q = Q a b"
  by (simp add: both_give_def)

lemma generateProgram_similar:
  assumes v: "rx_valid cfg" and s: "vm_similar cfg a b"
  shows "both_give (generateProgram cfg I seed a) (generateProgram cfg I seed b) (\<lambda>a' b'.
    vm_similar cfg a' b' \<and>
    take (128 + 8 * ProgramSize cfg) (v_program a') = take (128 + 8 * ProgramSize cfg) (v_program b'))"
proof -
  obtain n where n: "ProgramSize cfg = 8 * n" and "ProgramSize cfg \<le> 384"
    using v by (auto simp: rx_valid_def RANDOMX_PROGRAM_MAX_SIZE_def elim!: dvdE)
  then have len: "length (v_program a) = length (v_program b)" "128 + 64 * n \<le> length (v_program a)"
    using s by (simp_all add: vm_similar_def vm_ok_def RANDOMX_PROGRAM_MAX_SIZE_def)
  obtain r r' where r: "fillAes4Rx4 cfg (im_aes I) seed (128 + 64 * n) (v_program a) = Some r"
      "fillAes4Rx4 cfg (im_aes I) seed (128 + 64 * n) (v_program b) = Some r'"
      "take (128 + 64 * n) r = take (128 + 64 * n) r'"
    using fillAes4Rx4_prefix [OF len] by blast
  have "length r = length (v_program a)" "length r' = length (v_program b)"
    using fillAes4Rx4_ok [OF len(2), of cfg "im_aes I" seed] len
      fillAes4Rx4_ok [of n "v_program b" cfg "im_aes I" seed] r(1,2) by simp_all
  then show ?thesis
    using r s n by (simp add: generateProgram_def vm_similar_def vm_ok_def ac_simps)
qed

lemma initialize_similar:
  assumes "vm_similar cfg a b" "take (128 + 8 * n) (v_program a) = take (128 + 8 * n) (v_program b)"
  shows "vm_similar cfg (initialize a) (initialize b)"
    "reg_a (v_reg (initialize a)) = reg_a (v_reg (initialize b))"
    "v_config (initialize a) = v_config (initialize b)"
    "v_datasetOffset (initialize a) = v_datasetOffset (initialize b)"
    "v_mx (initialize a) = v_mx (initialize b)" "v_ma (initialize a) = v_ma (initialize b)"
    "v_program (initialize a) = v_program a" "v_program (initialize b) = v_program b"
proof -
  have "take 128 (v_program a) = take 128 (v_program b)"
    using assms(2) by (metis min.absorb1 take_take le_add1)
  note E = getEntropy_prefix [OF this]
  show "vm_similar cfg (initialize a) (initialize b)"
    using assms(1) by (simp add: vm_similar_def initialize_ok) (simp add: initialize_def Let_def)
  show "reg_a (v_reg (initialize a)) = reg_a (v_reg (initialize b))"
    "v_config (initialize a) = v_config (initialize b)"
    "v_datasetOffset (initialize a) = v_datasetOffset (initialize b)"
    "v_mx (initialize a) = v_mx (initialize b)" "v_ma (initialize a) = v_ma (initialize b)"
    "v_program (initialize a) = v_program a" "v_program (initialize b) = v_program b"
    by (simp_all add: initialize_def Let_def E)
qed

context dataset_view
begin

lemma execute_similar:
  assumes v: "rx_valid cfg" and m: "ready m" and s: "vm_similar cfg a b"
    and prog: "take (128 + 8 * ProgramSize cfg) (v_program a) = take (128 + 8 * ProgramSize cfg) (v_program b)"
    and eq: "reg_a (v_reg a) = reg_a (v_reg b)" "v_config a = v_config b"
      "v_datasetOffset a = v_datasetOffset b" "v_mx a = v_mx b" "v_ma a = v_ma b"
    and ok: "length (reg_a (v_reg a)) = 4" "pcfg_ok (v_config a)" "offset_ok (v_datasetOffset a)"
  shows "both_give (execute cfg fp (dread m) a) (execute cfg fp (dread m) b)
    (\<lambda>a' b'. vm_similar cfg a' b' \<and> v_reg a' = v_reg b')"
proof -
  have oka: "vm_ok cfg a" and okb: "vm_ok cfg b" using s by (simp_all add: vm_similar_def)
  obtain a' where a': "execute cfg fp (dread m) a = Some a'" "vm_ok cfg a'"
    using execute_ok [OF v m oka ok, of fp] by (elim succeedsE)
  obtain b' where b': "execute cfg fp (dread m) b = Some b'" "vm_ok cfg b'"
    using execute_ok [OF v m okb, of fp] ok eq by (auto elim!: succeedsE)
  have "map_option (map norm) (compileProgram cfg (program_instructions (v_program a)) (v_bytecode a)) =
      map_option (map norm) (compileProgram cfg (program_instructions (v_program b)) (v_bytecode b))"
    using oka okb by (intro compileProgram_norm program_instructions_prefix prog) (simp add: vm_ok_def)
  then obtain bc bc' where bc: "compileProgram cfg (program_instructions (v_program a)) (v_bytecode a) = Some bc"
      "compileProgram cfg (program_instructions (v_program b)) (v_bytecode b) = Some bc'"
      "map norm bc = map norm bc'"
    using a'(1) b'(1) by (auto simp: execute_def split: bind_splits)
  show ?thesis
    using a' b' s unfolding both_give_def vm_similar_def
    by (auto simp: execute_def Let_def bc(1,2) iterations_norm [OF bc(3)] eq split: bind_splits)
qed

lemma vm_run_similar:
  assumes "rx_valid cfg" "ready m" "vm_similar cfg a b"
  shows "both_give (vm_run cfg I (dread m) seed a) (vm_run cfg I (dread m) seed b)
    (\<lambda>a' b'. vm_similar cfg a' b' \<and> v_reg a' = v_reg b')"
  unfolding vm_run_def
proof (rule both_give_bind [OF generateProgram_similar [OF assms(1,3)]], elim conjE)
  fix a' b'
  assume s: "vm_similar cfg a' b'"
    and p: "take (128 + 8 * ProgramSize cfg) (v_program a') = take (128 + 8 * ProgramSize cfg) (v_program b')"
  note i = initialize_similar [OF s p]
  show "both_give (execute cfg (im_fpu I) (dread m) (initialize a')) (execute cfg (im_fpu I) (dread m) (initialize b'))
    (\<lambda>a' b'. vm_similar cfg a' b' \<and> v_reg a' = v_reg b')"
    using i p by (intro execute_similar [OF assms(1,2) i(1)]) (simp_all add: initialize_ok)
qed

lemma chain_similar:
  assumes "rx_valid cfg" "ready m"
  shows "vm_similar cfg a b \<Longrightarrow> both_give (chain cfg I (dread m) n seed a) (chain cfg I (dread m) n seed b)
    (\<lambda>(s, a') (s', b'). s = s' \<and> vm_similar cfg a' b')"
proof (induction n arbitrary: seed a b)
  case (Suc n)
  show ?case
    unfolding chain.simps
  proof (rule both_give_bind [OF vm_run_similar [OF assms Suc.prems]], elim conjE)
    fix a' b'
    assume s: "vm_similar cfg a' b'" and r: "v_reg a' = v_reg b'"
    obtain h where h: "rx_blake2b 64 (register_file_bytes (v_reg b')) = Some h"
      using blake2b_ok [of 64] by (auto elim: succeedsE)
    show "both_give (rx_blake2b 64 (register_file_bytes (v_reg a')) \<bind> (\<lambda>h. chain cfg I (dread m) n h a'))
      (rx_blake2b 64 (register_file_bytes (v_reg b')) \<bind> (\<lambda>h. chain cfg I (dread m) n h b'))
      (\<lambda>(s, a') (s', b'). s = s' \<and> vm_similar cfg a' b')"
      using Suc.IH [OF s, of h] by (simp add: r h)
  qed
qed simp

lemma all_programs_similar:
  assumes "rx_valid cfg" "ready m" "vm_ok cfg a" "vm_ok cfg b" "v_scratchpad a = v_scratchpad b"
  shows "both_give (all_programs cfg I (dread m) seed a) (all_programs cfg I (dread m) seed b)
    (\<lambda>a' b'. vm_similar cfg a' b' \<and> v_reg a' = v_reg b')"
proof -
  have "vm_similar cfg (resetRoundingMode a) (resetRoundingMode b)"
    using assms(3-5) by (simp add: vm_similar_def resetRoundingMode_def vm_ok_def)
  from chain_similar [OF assms(1,2) this] show ?thesis
    unfolding all_programs_def
    by (rule both_give_bind) (auto intro: vm_run_similar [OF assms(1,2)])
qed

lemma hash_of_similar:
  assumes "rx_valid cfg" "ready m" "vm_ok cfg a" "vm_ok cfg b"
  shows "both_give (randomx_calculate_hash cfg I (dread m) x a) (randomx_calculate_hash cfg I (dread m) x b)
    (\<lambda>(h, a') (h', b'). h = h')"
proof -
  obtain t where t: "rx_blake2b 64 x = Some t"
    using blake2b_ok [of 64] by (auto elim: succeedsE)
  obtain n where n: "unat (ScratchpadL3_Size cfg) = 64 * (4 * n)" by (rule scratchpad_blocks [OF assms(1)])
  have init: "both_give (initScratchpad cfg I t a) (initScratchpad cfg I t b)
    (\<lambda>(s, a') (s', b'). s = s' \<and> vm_ok cfg a' \<and> vm_ok cfg b' \<and> v_scratchpad a' = v_scratchpad b')"
    using assms(3,4) n hash_fill_both(2) [of "4 * n" "v_scratchpad a"] hash_fill_both(2) [of "4 * n" "v_scratchpad b"]
      fill_blocks_prefix [of "v_scratchpad a" "v_scratchpad b" 0 "4 * n" "im_aes I" "load_lanes t"]
      length_fill_blocks [of 0 "4 * n" "(v_scratchpad a, load_lanes t)" "im_aes I"]
      length_fill_blocks [of 0 "4 * n" "(v_scratchpad b, load_lanes t)" "im_aes I"]
    by (simp add: initScratchpad_def vm_ok_def)
  show ?thesis
    unfolding randomx_calculate_hash_def t Option.bind.simps
  proof (rule both_give_bind [OF init], clarsimp)
    fix s a' b'
    assume *: "vm_ok cfg a'" "vm_ok cfg b'" "v_scratchpad a' = v_scratchpad b'"
    show "both_give (all_programs cfg I (dread m) s a' \<bind> getFinalResult cfg I)
      (all_programs cfg I (dread m) s b' \<bind> getFinalResult cfg I) (\<lambda>(h, a') (h', b'). h = h')"
    proof (rule both_give_bind [OF all_programs_similar [OF assms(1,2) *]], elim conjE)
      fix c d
      assume s: "vm_similar cfg c d" and r: "v_reg c = v_reg d"
      then obtain rc rd where "getFinalResult cfg I c = Some rc" "getFinalResult cfg I d = Some rd"
        using getFinalResult_ok [OF assms(1), of c I] getFinalResult_ok [OF assms(1), of d I]
        by (auto simp: vm_similar_def elim!: succeedsE)
      then show "both_give (getFinalResult cfg I c) (getFinalResult cfg I d) (\<lambda>(h, a') (h', b'). h = h')"
        using s r by (auto simp: getFinalResult_def vm_similar_def set_reg_a_def both_give_def split: bind_splits)
    qed
  qed
qed

end

text \<open>
  C6. The hash of an input does not depend on what the machine did before: two machines with
  buffers of the right size, whatever their registers, scratchpad, program buffer, compiled
  bytecode and rounding mode hold, compute the same hash of the same input.
\<close>

theorem hash_is_function_of_input:
  assumes "rx_valid cfg" "vm_ok cfg a" "vm_ok cfg b" "cache_ok cache" "dataset_size \<le> length memory"
  shows "(\<exists>h a' b'. randomx_calculate_hash cfg I (datasetRead_light cache) x a = Some (h, a') \<and>
      randomx_calculate_hash cfg I (datasetRead_light cache) x b = Some (h, b')) \<and>
    (\<exists>h a' b'. randomx_calculate_hash cfg I (datasetRead_full memory) x a = Some (h, a') \<and>
      randomx_calculate_hash cfg I (datasetRead_full memory) x b = Some (h, b'))"
  using light.hash_of_similar [OF assms(1,4,2,3), of I x] full.hash_of_similar [OF assms(1,5,2,3), of I x]
  by (auto simp: both_give_def)

theorem hash_is_function_of_input_witness:
  "\<exists>cache h a' b'. cache_ok cache \<and>
    randomx_calculate_hash (Apply RandomX_ConfigurationArqma) example_impl (datasetRead_light cache) [1, 2]
      (zero_vm (Apply RandomX_ConfigurationArqma)) = Some (h, a') \<and>
    randomx_calculate_hash (Apply RandomX_ConfigurationArqma) example_impl (datasetRead_light cache) [1, 2]
      (zero_vm (Apply RandomX_ConfigurationArqma) \<lparr> v_rmode := RoundUp, v_mx := 7,
         v_program := replicate (128 + 8 * RANDOMX_PROGRAM_MAX_SIZE) 0xAB \<rparr>) = Some (h, b')"
proof -
  obtain cache where "cache_ok cache" using flat_cache by blast
  moreover have "vm_ok cfg (zero_vm cfg \<lparr> v_rmode := RoundUp, v_mx := 7,
         v_program := replicate (128 + 8 * RANDOMX_PROGRAM_MAX_SIZE) 0xAB \<rparr>)" for cfg
    by (simp add: vm_ok_def zero_vm_def)
  ultimately show ?thesis
    using hash_is_function_of_input [OF rx_valid_Arqma zero_vm_ok, of _ cache "replicate dataset_size 0"
        example_impl "[1, 2]"] by auto
qed

end
