(* ===== verification/Nonce.thy ===== *)
theory Nonce
  imports Prelude
begin

text \<open>
  The nonce allocator of \<^verbatim>\<open>crypto/common/Nonce.h\<close> and \<^verbatim>\<open>Nonce.cpp\<close>: the atomic pause flag,
  the job sequence numbers and the 64-bit counters the workers reserve nonce ranges from.
  The static members are a record; \<open>next\<close> is given twice over the same decision function:
  as the call of a single thread, and as a step relation in which the calls of any number of
  threads interleave at the granularity of the atomic operations.
\<close>

subsection \<open>The state and its simple operations\<close>

text \<open>\<open>enum Backend { CPU, MAX }\<close>: the arrays have \<open>MAX = 1\<close> cells.\<close>

definition Backend_CPU :: nat where "Backend_CPU = 0"
definition Backend_MAX :: nat where "Backend_MAX = 1"

record nonce_state =
  m_paused :: bool
  m_sequence :: "u64 list"
  m_nonces :: "u64 list"

definition nonce_initial :: nonce_state where
  "nonce_initial = \<lparr> m_paused = True, m_sequence = replicate Backend_MAX 1,
    m_nonces = replicate Backend_MAX 0 \<rparr>"

definition nonce_wf :: "nonce_state \<Rightarrow> bool" where
  "nonce_wf s \<longleftrightarrow> length (m_sequence s) = Backend_MAX \<and> length (m_nonces s) = Backend_MAX"

definition nonce_isOutdated :: "nat \<Rightarrow> u64 \<Rightarrow> nonce_state \<Rightarrow> bool option" where
  "nonce_isOutdated backend sequence s =
     do { q \<leftarrow> rd (m_sequence s) backend; Some (q \<noteq> sequence) }"

definition nonce_isPaused :: "nonce_state \<Rightarrow> bool" where
  "nonce_isPaused s = m_paused s"

definition nonce_sequence :: "nat \<Rightarrow> nonce_state \<Rightarrow> u64 option" where
  "nonce_sequence backend s = rd (m_sequence s) backend"

definition nonce_pause :: "bool \<Rightarrow> nonce_state \<Rightarrow> nonce_state" where
  "nonce_pause p s = s\<lparr>m_paused := p\<rparr>"

definition nonce_reset :: "nat \<Rightarrow> nonce_state \<Rightarrow> nonce_state option" where
  "nonce_reset index s =
     do { ns \<leftarrow> wr (m_nonces s) index 0; Some (s\<lparr>m_nonces := ns\<rparr>) }"

definition nonce_stop_backend :: "nat \<Rightarrow> nonce_state \<Rightarrow> nonce_state option" where
  "nonce_stop_backend backend s =
     do { qs \<leftarrow> wr (m_sequence s) backend 0; Some (s\<lparr>m_sequence := qs\<rparr>) }"

definition nonce_touch_backend :: "nat \<Rightarrow> nonce_state \<Rightarrow> nonce_state option" where
  "nonce_touch_backend backend s =
     do { q \<leftarrow> rd (m_sequence s) backend;
          Some (s\<lparr>m_sequence := (m_sequence s)[backend := q + 1]\<rparr>) }"

definition nonce_stop :: "nonce_state \<Rightarrow> nonce_state" where
  "nonce_stop s = (nonce_pause False s)\<lparr>m_sequence := map (\<lambda>_. 0) (m_sequence s)\<rparr>"

definition nonce_touch :: "nonce_state \<Rightarrow> nonce_state" where
  "nonce_touch s = s\<lparr>m_sequence := map (\<lambda>q. q + 1) (m_sequence s)\<rparr>"

subsection \<open>Reserving a range\<close>

text \<open>\<open>m_nonces[index].fetch_add(n)\<close>: the old value, and the counter advanced modulo \<open>2^64\<close>.\<close>

definition nonce_fetch_add :: "nat \<Rightarrow> u32 \<Rightarrow> nonce_state \<Rightarrow> (u64 \<times> nonce_state) option" where
  "nonce_fetch_add index n s =
     do { c \<leftarrow> rd (m_nonces s) index;
          Some (c, s\<lparr>m_nonces := (m_nonces s)[index := c + ucast n]\<rparr>) }"

text \<open>What one turn of the loop does with a fetched counter, and whether it pauses the workers.\<close>

datatype nonce_turn = Exhausted bool | Take bool | Refetch

definition nonce_turn_of :: "u64 \<Rightarrow> u32 \<Rightarrow> u64 \<Rightarrow> nonce_turn" where
  "nonce_turn_of msk reserveCount counter =
     (if msk < counter then Exhausted False
      else if msk - counter \<le> ucast (reserveCount - 1) then
        (if msk - counter < ucast (reserveCount - 1) then Exhausted True else Take True)
      else if 0xFFFFFFFF - (ucast (ucast counter :: u32) :: u64) < ucast (reserveCount - 1)
      then Refetch
      else Take False)"

definition nonce_pause_if :: "bool \<Rightarrow> nonce_state \<Rightarrow> nonce_state" where
  "nonce_pause_if p s = (if p then nonce_pause True s else s)"

text \<open>The two 32-bit words at the nonce's address, low word first.\<close>

type_synonym nonce_words = "u32 \<times> u32"

definition nonce_write :: "u64 \<Rightarrow> u64 \<Rightarrow> nonce_words \<Rightarrow> nonce_words" where
  "nonce_write msk counter n =
     (ucast ((ucast (fst n) AND NOT msk) OR counter),
      if 0xFFFFFFFF < msk
      then ucast ((ucast (snd n) AND drop_bit 32 (NOT msk)) OR drop_bit 32 counter)
      else snd n)"

partial_function (option) nonce_loop ::
  "nat \<Rightarrow> u32 \<Rightarrow> u64 \<Rightarrow> nonce_words \<Rightarrow> u64 \<Rightarrow> nonce_state
    \<Rightarrow> (bool \<times> nonce_words \<times> nonce_state) option" where
  "nonce_loop index reserveCount msk n counter s =
     (case nonce_turn_of msk reserveCount counter of
        Exhausted p \<Rightarrow> Some (False, n, nonce_pause_if p s)
      | Take p \<Rightarrow> Some (True, nonce_write msk counter n, nonce_pause_if p s)
      | Refetch \<Rightarrow>
          do { (c, s') \<leftarrow> nonce_fetch_add index reserveCount s;
               nonce_loop index reserveCount msk n c s' })"

definition nonce_mask63 :: "u64 \<Rightarrow> u64" where
  "nonce_mask63 msk = msk AND 0x7FFFFFFFFFFFFFFF"

definition nonce_rejects :: "u64 \<Rightarrow> u32 \<Rightarrow> bool" where
  "nonce_rejects msk reserveCount \<longleftrightarrow> reserveCount = 0 \<or> msk < ucast (reserveCount - 1)"

definition nonce_next ::
  "nat \<Rightarrow> nonce_words \<Rightarrow> u32 \<Rightarrow> u64 \<Rightarrow> nonce_state \<Rightarrow> (bool \<times> nonce_words \<times> nonce_state) option"
where
  "nonce_next index n reserveCount mask0 s =
     (let msk = nonce_mask63 mask0 in
      if nonce_rejects msk reserveCount then Some (False, n, s)
      else do { (counter, s') \<leftarrow> nonce_fetch_add index reserveCount s;
                nonce_loop index reserveCount msk n counter s' })"

subsection \<open>Interleaved calls\<close>

text \<open>
  A call in progress holds its request and the counter it fetched. The state of all threads
  adds what the specification talks about and the program does not store: the current epoch
  (the number of resets), how much was fetched in it and the most that was fetched in any,
  the reservations made and the ranges granted, each with its epoch, newest first.
\<close>

type_synonym reservation = "nat \<times> u64 \<times> u32"

datatype call_state = Idle | Looping u64 reservation

record alloc_state =
  al_nonce :: nonce_state
  al_pc :: "nat \<Rightarrow> call_state"
  al_epoch :: nat
  al_fetched :: nat
  al_peak :: nat
  al_reserved :: "reservation list"
  al_granted :: "reservation list"

definition alloc_initial :: alloc_state where
  "alloc_initial = \<lparr> al_nonce = nonce_initial, al_pc = (\<lambda>_. Idle), al_epoch = 0,
    al_fetched = 0, al_peak = 0, al_reserved = [], al_granted = [] \<rparr>"

definition alloc_reserve :: "nat \<Rightarrow> u64 \<Rightarrow> u32 \<Rightarrow> u64 \<Rightarrow> nonce_state \<Rightarrow> alloc_state \<Rightarrow> alloc_state"
where
  "alloc_reserve t msk rc c nn s =
     s\<lparr> al_nonce := nn,
        al_pc := (al_pc s)(t := Looping msk (al_epoch s, c, rc)),
        al_fetched := al_fetched s + unat rc,
        al_peak := max (al_peak s) (al_fetched s + unat rc),
        al_reserved := (al_epoch s, c, rc) # al_reserved s \<rparr>"

definition alloc_finish :: "nat \<Rightarrow> bool \<Rightarrow> alloc_state \<Rightarrow> alloc_state" where
  "alloc_finish t p s =
     s\<lparr> al_nonce := nonce_pause_if p (al_nonce s), al_pc := (al_pc s)(t := Idle) \<rparr>"

inductive alloc_step :: "alloc_state \<Rightarrow> alloc_state \<Rightarrow> bool" where
  Call: "al_pc s t = Idle \<Longrightarrow> msk = nonce_mask63 mask0 \<Longrightarrow> \<not> nonce_rejects msk rc \<Longrightarrow>
    nonce_fetch_add Backend_CPU rc (al_nonce s) = Some (c, nn) \<Longrightarrow>
    alloc_step s (alloc_reserve t msk rc c nn s)"
| Again: "al_pc s t = Looping msk (e, c0, rc) \<Longrightarrow> nonce_turn_of msk rc c0 = Refetch \<Longrightarrow>
    nonce_fetch_add Backend_CPU rc (al_nonce s) = Some (c, nn) \<Longrightarrow>
    alloc_step s (alloc_reserve t msk rc c nn s)"
| Fail: "al_pc s t = Looping msk (e, c, rc) \<Longrightarrow> nonce_turn_of msk rc c = Exhausted p \<Longrightarrow>
    alloc_step s (alloc_finish t p s)"
| Grant: "al_pc s t = Looping msk (e, c, rc) \<Longrightarrow> nonce_turn_of msk rc c = Take p \<Longrightarrow>
    alloc_step s ((alloc_finish t p s)\<lparr>al_granted := (e, c, rc) # al_granted s\<rparr>)"
| Reset: "nonce_reset Backend_CPU (al_nonce s) = Some nn \<Longrightarrow>
    alloc_step s (s\<lparr>al_nonce := nn, al_epoch := Suc (al_epoch s), al_fetched := 0\<rparr>)"
| Pause: "alloc_step s (s\<lparr>al_nonce := nonce_pause p (al_nonce s)\<rparr>)"
| Touch: "alloc_step s (s\<lparr>al_nonce := nonce_touch (al_nonce s)\<rparr>)"
| Stop: "alloc_step s (s\<lparr>al_nonce := nonce_stop (al_nonce s)\<rparr>)"

inductive alloc_reachable :: "alloc_state \<Rightarrow> bool" where
  init: "alloc_reachable alloc_initial"
| step: "alloc_reachable s \<Longrightarrow> alloc_step s s' \<Longrightarrow> alloc_reachable s'"

end
