(* ===== verification/NonceProps.thy ===== *)
theory NonceProps
  imports Nonce
begin

text \<open>
  What the nonce allocator guarantees: a call always returns, a granted range lies inside the
  mask and does not carry out of the low 32 bits, ranges granted to different calls never
  overlap whatever the interleaving, and the written nonce keeps the bits outside the mask.
\<close>

subsection \<open>One turn of the loop, in natural numbers\<close>

lemma unat_u32_less': "unat (x :: u32) < 2 ^ 64"
  using unat_u32_less [of x] by simp

lemma unat_pred_u32: "rc \<noteq> 0 \<Longrightarrow> unat (ucast (rc - 1 :: u32) :: u64) = unat rc - 1"
  by (simp add: unsigned_ucast_eq unat_minus_one take_bit_nat_eq_self_iff
      less_imp_diff_less [OF unat_u32_less', simplified])

lemma nonce_turn_unat:
  assumes "rc \<noteq> (0 :: u32)"
  shows "nonce_turn_of m rc c =
    (if unat m + 1 < unat c + unat rc then Exhausted (unat c \<le> unat m)
     else if unat m + 1 = unat c + unat rc then Take True
     else if 2 ^ 32 < unat c mod 2 ^ 32 + unat rc then Refetch else Take False)"
proof -
  have rc: "0 < unat rc" using assms by (simp add: unat_gt_0)
  have sub: "unat (m - c) = unat m - unat c" if "\<not> m < c"
    using that by (simp add: unat_sub linorder_not_less)
  have low: "unat (0xFFFFFFFF - (ucast (ucast c :: u32) :: u64)) = 2 ^ 32 - 1 - unat c mod 2 ^ 32"
  proof -
    have l: "unat (ucast (ucast c :: u32) :: u64) = unat c mod 2 ^ 32"
      by (simp add: unsigned_ucast_eq take_bit_eq_mod unat_mod)
    have "ucast (ucast c :: u32) \<le> (0xFFFFFFFF :: u64)"
      unfolding word_le_nat_alt l by simp
    then show ?thesis
      by (simp add: unat_sub l)
  qed
  show ?thesis
    using rc unfolding nonce_turn_of_def
    by (auto simp: word_le_nat_alt word_less_nat_alt unat_pred_u32 [OF assms] low
        linorder_not_less sub split: if_splits)
qed

subsection \<open>A call of one thread\<close>

lemma nonce_fetch_add_Some:
  "index < length (m_nonces s) \<Longrightarrow> nonce_fetch_add index rc s =
     Some (m_nonces s ! index, s\<lparr>m_nonces := (m_nonces s)[index := m_nonces s ! index + ucast rc]\<rparr>)"
  by (simp add: nonce_fetch_add_def rd_def)

lemma nonce_mask63_bound: "unat (nonce_mask63 m) < 2 ^ 63"
proof -
  have "unat (nonce_mask63 m) \<le> unat (0x7FFFFFFFFFFFFFFF :: u64)"
    unfolding nonce_mask63_def by (rule unat_and_le1)
  then show ?thesis by simp
qed

lemma unat_add_no_wrap:
  "unat c \<le> unat m \<Longrightarrow> unat m < 2 ^ 63 \<Longrightarrow> unat (c + ucast (rc :: u32) :: u64) = unat c + unat rc"
  for m :: u64
  using unat_u32_less [of rc]
  by (simp add: unat_word_ariths unsigned_ucast_eq take_bit_nat_eq_self_iff take_bit_nat_eq_self)

lemma nonce_loop_terminates:
  assumes "rc \<noteq> 0" "index < length (m_nonces s)" "unat m < 2 ^ 63"
  shows "\<exists>r. nonce_loop index rc m n c s = Some r"
  using assms(2)
proof (induction "Suc (unat m) - unat (m_nonces s ! index)" arbitrary: c s rule: less_induct)
  case less
  note tn = nonce_turn_unat [OF assms(1), of m]
  show ?case
  proof (cases "nonce_turn_of m rc c")
    case Refetch
    let ?c = "m_nonces s ! index"
    let ?s = "s\<lparr>m_nonces := (m_nonces s)[index := ?c + ucast rc]\<rparr>"
    have "\<exists>r. nonce_loop index rc m n ?c ?s = Some r"
    proof (cases "unat ?c \<le> unat m")
      case True
      then have "unat (m_nonces ?s ! index) = unat ?c + unat rc"
        using unat_add_no_wrap [OF True assms(3)] less.prems by simp
      moreover have "0 < unat rc"
        using assms(1) by (simp add: unat_gt_0)
      ultimately show ?thesis
        using True less.prems by (intro less.hyps) auto
    next
      case False
      then show ?thesis
        using assms(1) by (subst nonce_loop.simps) (auto simp: tn unat_gt_0)
    qed
    then show ?thesis
      using Refetch less.prems by (subst nonce_loop.simps) (simp add: nonce_fetch_add_Some)
  qed (subst nonce_loop.simps; force)+
qed

lemma nonce_loop_True:
  assumes "nonce_loop index rc m n c s = Some (True, n', s')"
  shows "\<exists>c' p. n' = nonce_write m c' n \<and> nonce_turn_of m rc c' = Take p"
proof -
  let ?P = "\<lambda>i rc m n c s r. fst r \<longrightarrow>
    (\<exists>c' p. fst (snd r) = nonce_write m c' n \<and> nonce_turn_of m rc c' = Take p)"
  have "?P index rc m n c s (True, n', s')"
    by (rule nonce_loop.raw_induct [where P = ?P, OF _ assms])
      (auto split: nonce_turn.splits bind_splits, metis)
  then show ?thesis by simp
qed

lemma nonce_next_True:
  assumes "nonce_next index n rc mask0 s = Some (True, n', s')"
  shows "rc \<noteq> 0 \<and> (\<exists>c p. n' = nonce_write (nonce_mask63 mask0) c n
    \<and> nonce_turn_of (nonce_mask63 mask0) rc c = Take p)"
  using assms nonce_loop_True [of index rc "nonce_mask63 mask0" n _ _ n' s']
  by (auto simp: nonce_next_def Let_def nonce_rejects_def split: if_splits bind_splits)

lemma nonce_loop_keeps:
  assumes "nonce_loop index rc m n c s = Some r" "m \<le> 0xFFFFFFFF" "nonce_wf s"
  shows "snd (fst (snd r)) = snd n \<and> nonce_wf (snd (snd r)) \<and> (\<not> fst r \<longrightarrow> fst (snd r) = n)"
proof -
  let ?P = "\<lambda>i rc m n c s r. m \<le> 0xFFFFFFFF \<longrightarrow> nonce_wf s \<longrightarrow>
    snd (fst (snd r)) = snd n \<and> nonce_wf (snd (snd r)) \<and> (\<not> fst r \<longrightarrow> fst (snd r) = n)"
  have "?P index rc m n c s r"
  proof (rule nonce_loop.raw_induct [where P = ?P, OF _ assms(1)], intro impI, goal_cases)
    case (1 loop index rc m n c s r)
    have wf: "nonce_wf s'" if "nonce_fetch_add index rc s = Some (c', s')" for c' s'
      using that 1(4) by (auto simp: nonce_fetch_add_def nonce_wf_def split: bind_splits)
    show ?case
    proof (cases "nonce_turn_of m rc c")
      case Refetch
      then obtain c' s' where *: "nonce_fetch_add index rc s = Some (c', s')"
        "loop index rc m n c' s' = Some r"
        using 1(2) by (auto split: bind_splits)
      show ?thesis using 1(1) [OF *(2)] 1(3) wf [OF *(1)] by blast
    next
      case (Exhausted p)
      then show ?thesis
        using 1(2,4) by (auto simp: nonce_pause_if_def nonce_pause_def nonce_wf_def)
    next
      case (Take p)
      then show ?thesis
        using 1(2-4) by (auto simp: nonce_pause_if_def nonce_pause_def nonce_wf_def nonce_write_def)
    qed
  qed
  then show ?thesis using assms(2,3) by blast
qed

lemma nonce_next_keeps:
  assumes "nonce_next index n rc m s = Some (ok, n', s')" "m \<le> 0xFFFFFFFF" "nonce_wf s"
  shows "snd n' = snd n \<and> nonce_wf s' \<and> (\<not> ok \<longrightarrow> n' = n)"
proof -
  have m: "nonce_mask63 m \<le> 0xFFFFFFFF"
    unfolding nonce_mask63_def word_le_nat_alt
    by (rule order_trans [OF unat_and_le2]) (use assms(2) in \<open>simp add: word_le_nat_alt\<close>)
  show ?thesis
    using assms nonce_loop_keeps [OF _ m, of index rc n _ _ "(ok, n', s')"]
    by (auto simp: nonce_next_def Let_def nonce_fetch_add_def nonce_wf_def split: if_splits bind_splits)
qed

subsection \<open>Reading a written nonce\<close>

lemma unat_split: "unat (x :: 'a::len word) = unat (drop_bit k x) * 2 ^ k + unat (take_bit k x)"
  using div_mult_mod_eq [of "unat x" "2 ^ k"]
  by (simp only: unat_drop_bit_eq unat_take_bit drop_bit_eq_div [of k "unat x"])

lemma nonce_write_fields:
  fixes c :: u64 and n :: nonce_words
  assumes k: "k \<le> 32" and c: "unat c < 2 ^ k"
  defines "w \<equiv> fst (nonce_write (mask k) c n)"
  shows "take_bit k w = ucast c" and "drop_bit k w = drop_bit k (fst n)"
proof -
  have hi: "\<not> bit c i" if "k \<le> i" for i
  proof -
    have "take_bit k c = c"
      using c by (metis unat_take_bit mod_less word_unat_eq_iff)
    then show ?thesis
      using that by (metis bit_take_bit_iff not_less)
  qed
  show "take_bit k w = ucast c"
    by (rule bit_word_eqI) (use hi in \<open>auto simp: w_def nonce_write_def bit_simps intro: ccontr\<close>)
  show "drop_bit k w = drop_bit k (fst n)"
    by (rule bit_word_eqI) (use hi in \<open>auto simp: w_def nonce_write_def bit_simps
      dest: bit_imp_le_length\<close>)
qed

lemma nonce_read_back:
  fixes c :: u64 and n :: nonce_words
  assumes k: "k \<le> 32" and ci: "unat c + i < 2 ^ k"
  defines "w \<equiv> fst (nonce_write (mask k) c n) + of_nat i"
  shows "unat (take_bit k w) = unat c + i" and "drop_bit k w = drop_bit k (fst n)"
proof -
  let ?w = "fst (nonce_write (mask k) c n)" and ?h = "unat (drop_bit k (fst n))"
  have c: "unat c < 2 ^ k" using ci by simp
  have k': "(2 :: nat) ^ k \<le> 2 ^ 32" using k by (rule power_increasing) simp
  have uc: "unat (ucast c :: u32) = unat c"
    using c k' by (simp add: unsigned_ucast_eq take_bit_nat_eq_self_iff)
  have w: "unat ?w = ?h * 2 ^ k + unat c"
    by (subst unat_split [of _ k]) (simp add: nonce_write_fields [OF k c] uc)
  have h: "?h = unat (fst n) div 2 ^ k"
    by (simp only: unat_drop_bit_eq drop_bit_eq_div [of k "unat (fst n)"])
  have hb: "?h < 2 ^ (32 - k)"
    unfolding h using unat_less_exp [of "fst n"] k
    by (simp add: less_mult_imp_div_less flip: power_add)
  then have "Suc ?h * 2 ^ k \<le> 2 ^ (32 - k) * 2 ^ k"
    by (intro mult_le_mono1) simp
  then have "?h * 2 ^ k + (unat c + i) < 2 ^ 32"
    using ci k by (simp flip: power_add)
  then have wi: "unat w = ?h * 2 ^ k + (unat c + i)"
    using w by (simp add: w_def unat_word_ariths unsigned_of_nat take_bit_nat_eq_self_iff mod_add_right_eq take_bit_eq_mod)
  show "unat (take_bit k w) = unat c + i"
    using ci by (simp add: unat_take_bit wi)
  have "unat (drop_bit k w) = ?h"
    using ci by (simp only: unat_drop_bit_eq [of k w] wi) (simp add: drop_bit_eq_div)
  then show "drop_bit k w = drop_bit k (fst n)"
    by (simp only: word_unat_eq_iff)
qed

subsection \<open>Interleaved calls\<close>

text \<open>The numbers a reservation stands for.\<close>

definition res_range :: "reservation \<Rightarrow> nat set" where
  "res_range r = (case r of (e, c, rc) \<Rightarrow> {unat c ..< unat c + unat rc})"

definition res_before :: "reservation \<Rightarrow> reservation \<Rightarrow> bool" where
  "res_before new old = (case (new, old) of ((e, c, rc), (e', c', rc')) \<Rightarrow>
     e' \<le> e \<and> (e' = e \<longrightarrow> unat c' + unat rc' \<le> unat c))"

definition res_live :: "alloc_state \<Rightarrow> reservation \<Rightarrow> bool" where
  "res_live s r = (case r of (e, c, rc) \<Rightarrow>
     rc \<noteq> 0 \<and> e \<le> al_epoch s \<and> (e = al_epoch s \<longrightarrow> unat c + unat rc \<le> al_fetched s))"

text \<open>
  The invariant: the counter is what was fetched in the epoch, reservations are ordered, and
  the ranges granted and the ranges held by calls in progress are different reservations.
\<close>

definition alloc_inv :: "alloc_state \<Rightarrow> bool" where
  "alloc_inv s \<longleftrightarrow> nonce_wf (al_nonce s) \<and> al_fetched s \<le> al_peak s \<and>
     (al_peak s < 2 ^ 64 \<longrightarrow>
       unat (m_nonces (al_nonce s) ! Backend_CPU) = al_fetched s \<and>
       list_all (res_live s) (al_reserved s) \<and>
       sorted_wrt res_before (al_reserved s) \<and>
       distinct (al_granted s) \<and> set (al_granted s) \<subseteq> set (al_reserved s) \<and>
       (\<forall>t m r. al_pc s t = Looping m r \<longrightarrow>
          r \<in> set (al_reserved s) \<and> r \<notin> set (al_granted s) \<and>
          (\<forall>t' m'. al_pc s t' = Looping m' r \<longrightarrow> t' = t)))"

lemma res_before_disjoint:
  "res_before a b \<Longrightarrow> fst a = fst b \<Longrightarrow> res_range a \<inter> res_range b = {}"
  by (auto simp: res_before_def res_range_def split: prod.splits)

lemma unat_ucast_u32: "unat (ucast (x :: u32) :: u64) = unat x"
  using unat_u32_less' [of x] by (simp add: unsigned_ucast_eq take_bit_nat_eq_self_iff)

lemma Backend_CPU_less: "nonce_wf nn \<Longrightarrow> Backend_CPU < length (m_nonces nn)"
  by (simp add: nonce_wf_def Backend_CPU_def Backend_MAX_def)

lemma alloc_inv_reserve:
  assumes inv: "alloc_inv s" and rc: "rc \<noteq> 0"
    and fetch: "nonce_fetch_add Backend_CPU rc (al_nonce s) = Some (c, nn)"
  shows "alloc_inv (alloc_reserve t m rc c nn s)"
proof -
  let ?s = "alloc_reserve t m rc c nn s" and ?r = "(al_epoch s, c, rc)"
  have wf: "nonce_wf (al_nonce s)" using inv by (simp add: alloc_inv_def)
  have c: "c = m_nonces (al_nonce s) ! Backend_CPU"
    and nn: "nn = al_nonce s\<lparr>m_nonces := (m_nonces (al_nonce s))[Backend_CPU := c + ucast rc]\<rparr>"
    using fetch Backend_CPU_less [OF wf] by (auto simp: nonce_fetch_add_Some)
  have old: "unat c = al_fetched s" "list_all (res_live s) (al_reserved s)"
      "sorted_wrt res_before (al_reserved s)" "distinct (al_granted s)"
      "set (al_granted s) \<subseteq> set (al_reserved s)"
      "\<And>t m r. al_pc s t = Looping m r \<Longrightarrow> r \<in> set (al_reserved s) \<and> r \<notin> set (al_granted s) \<and>
          (\<forall>t' m'. al_pc s t' = Looping m' r \<longrightarrow> t' = t)"
      "al_fetched s + unat rc < 2 ^ 64"
    if "al_peak ?s < 2 ^ 64"
    using inv that unfolding alloc_inv_def c by (auto simp: alloc_reserve_def)
  have new: "?r \<notin> set (al_reserved s)" and before: "\<forall>r \<in> set (al_reserved s). res_before ?r r"
    if "al_peak ?s < 2 ^ 64"
    using old(1,2) [OF that]
    by (auto simp: list_all_iff res_live_def res_before_def unat_eq_zero rc)
  have "unat (m_nonces (al_nonce ?s) ! Backend_CPU) = al_fetched ?s" if "al_peak ?s < 2 ^ 64"
    using old(1,7) [OF that] Backend_CPU_less [OF wf]
    by (simp add: unat_word_ariths unat_ucast_u32 alloc_reserve_def nn)
  moreover have "nonce_wf (al_nonce ?s)" "al_fetched ?s \<le> al_peak ?s"
    using wf by (simp_all add: nn nonce_wf_def alloc_reserve_def)
  moreover have "distinct (al_granted ?s)" "set (al_granted ?s) \<subseteq> set (al_reserved ?s)"
    if "al_peak ?s < 2 ^ 64"
    using old(4,5) [OF that] by (auto simp: alloc_reserve_def)
  moreover have "list_all (res_live ?s) (al_reserved ?s)" if "al_peak ?s < 2 ^ 64"
    using old(1,2) [OF that] rc
    by (auto simp: alloc_reserve_def res_live_def list_all_iff)
  moreover have "sorted_wrt res_before (al_reserved ?s)" if "al_peak ?s < 2 ^ 64"
    using old(3) [OF that] before [OF that] by (simp add: alloc_reserve_def)
  moreover have "\<forall>t' m r. al_pc ?s t' = Looping m r \<longrightarrow>
      r \<in> set (al_reserved ?s) \<and> r \<notin> set (al_granted ?s) \<and>
      (\<forall>t'' m'. al_pc ?s t'' = Looping m' r \<longrightarrow> t'' = t')"
    if "al_peak ?s < 2 ^ 64"
  proof -
    have same: "al_reserved ?s = ?r # al_reserved s" "al_granted ?s = al_granted s"
      "\<And>t' m' r'. al_pc ?s t' = Looping m' r' \<longleftrightarrow>
        (if t' = t then m' = m \<and> r' = ?r else al_pc s t' = Looping m' r')"
      by (auto simp: alloc_reserve_def)
    have mine: "al_pc s t' \<noteq> Looping m' ?r" for t' m'
      using old(6) [OF that] new [OF that] by blast
    show ?thesis
    proof (intro allI impI)
      fix t' m' r
      assume "al_pc ?s t' = Looping m' r"
      then consider "t' = t" "r = ?r" | "t' \<noteq> t" "al_pc s t' = Looping m' r"
        unfolding same by (auto split: if_splits)
      then show "r \<in> set (al_reserved ?s) \<and> r \<notin> set (al_granted ?s) \<and>
        (\<forall>t'' m'. al_pc ?s t'' = Looping m' r \<longrightarrow> t'' = t')"
      proof cases
        case 1
        then show ?thesis
          unfolding same using mine new [OF that] old(5) [OF that] by auto
      next
        case 2
        then have "r \<noteq> ?r" using mine by metis
        then show ?thesis
          unfolding same using old(6) [OF that 2(2)] by (intro conjI allI impI; simp split: if_splits)
      qed
    qed
  qed
  ultimately show ?thesis
    unfolding alloc_inv_def by blast
qed

lemma res_live_cong:
  "al_epoch s' = al_epoch s \<Longrightarrow> al_fetched s' = al_fetched s \<Longrightarrow> res_live s' = res_live s"
  by (simp add: res_live_def fun_eq_iff)

lemma nonce_pause_if_same:
  "nonce_wf (nonce_pause_if p nn) = nonce_wf nn" "m_nonces (nonce_pause_if p nn) = m_nonces nn"
  by (simp_all add: nonce_pause_if_def nonce_pause_def nonce_wf_def)

lemma alloc_finish_same:
  "al_epoch (alloc_finish t p s) = al_epoch s" "al_fetched (alloc_finish t p s) = al_fetched s"
  "al_peak (alloc_finish t p s) = al_peak s" "al_reserved (alloc_finish t p s) = al_reserved s"
  "al_granted (alloc_finish t p s) = al_granted s"
  "al_nonce (alloc_finish t p s) = nonce_pause_if p (al_nonce s)"
  "al_pc (alloc_finish t p s) t' = Looping m r \<longleftrightarrow> t' \<noteq> t \<and> al_pc s t' = Looping m r"
  by (simp_all add: alloc_finish_def)

lemma alloc_inv_finish:
  assumes "alloc_inv s"
  shows "alloc_inv (alloc_finish t p s)"
  using assms unfolding alloc_inv_def alloc_finish_same nonce_pause_if_same
    res_live_cong [OF alloc_finish_same(1,2)] by blast

lemma alloc_inv_grant:
  assumes "alloc_inv s" and pc: "al_pc s t = Looping m r"
  shows "alloc_inv ((alloc_finish t p s)\<lparr>al_granted := r # al_granted s\<rparr>)" (is "alloc_inv ?s")
proof -
  have same: "al_nonce ?s = nonce_pause_if p (al_nonce s)" "al_peak ?s = al_peak s"
      "al_epoch ?s = al_epoch s" "al_fetched ?s = al_fetched s" "al_reserved ?s = al_reserved s"
      "al_granted ?s = r # al_granted s"
      "\<And>t' m' r'. al_pc ?s t' = Looping m' r' \<longleftrightarrow> t' \<noteq> t \<and> al_pc s t' = Looping m' r'"
    by (simp_all add: alloc_finish_same)
  show ?thesis
    using assms unfolding alloc_inv_def same nonce_pause_if_same res_live_cong [OF same(3,4)]
      distinct.simps list.set by blast
qed

lemma alloc_inv_reset:
  assumes "alloc_inv s" "nonce_reset Backend_CPU (al_nonce s) = Some nn"
  shows "alloc_inv (s\<lparr>al_nonce := nn, al_epoch := Suc (al_epoch s), al_fetched := 0\<rparr>)"
    (is "alloc_inv ?s")
proof -
  have nn: "nn = al_nonce s\<lparr>m_nonces := (m_nonces (al_nonce s))[Backend_CPU := 0]\<rparr>"
    using assms(2) by (auto simp: nonce_reset_def wr_def split: if_splits)
  have wf: "nonce_wf (al_nonce s)" using assms(1) by (simp add: alloc_inv_def)
  have "res_live s r \<Longrightarrow> res_live ?s r" for r
    by (auto simp: res_live_def)
  then have "list_all (res_live s) rs \<Longrightarrow> list_all (res_live ?s) rs" for rs
    by (auto simp: list_all_iff)
  then show ?thesis
    using assms(1) Backend_CPU_less [OF wf] wf
    unfolding alloc_inv_def nn nonce_wf_def by (simp del: split_paired_All)
qed

lemma alloc_inv_nonce:
  assumes "alloc_inv s" "m_nonces nn = m_nonces (al_nonce s)" "nonce_wf nn"
  shows "alloc_inv (s\<lparr>al_nonce := nn\<rparr>)"
  using assms res_live_cong [of "s\<lparr>al_nonce := nn\<rparr>" s] by (simp add: alloc_inv_def)

lemma nonce_same:
  "m_nonces (nonce_pause p nn) = m_nonces nn" "nonce_wf (nonce_pause p nn) = nonce_wf nn"
  "m_nonces (nonce_touch nn) = m_nonces nn" "nonce_wf (nonce_touch nn) = nonce_wf nn"
  "m_nonces (nonce_stop nn) = m_nonces nn" "nonce_wf (nonce_stop nn) = nonce_wf nn"
  by (simp_all add: nonce_pause_def nonce_touch_def nonce_stop_def nonce_wf_def)

lemma alloc_inv_wf: "alloc_inv s \<Longrightarrow> nonce_wf (al_nonce s)"
  by (simp add: alloc_inv_def)

lemma alloc_inv_initial: "alloc_inv alloc_initial"
  by (simp add: alloc_inv_def alloc_initial_def nonce_initial_def nonce_wf_def Backend_CPU_def
      Backend_MAX_def)

lemma alloc_inv_turn:
  assumes "alloc_inv s" "al_pc s t = Looping m (e, c, rc)" "al_peak s < 2 ^ 64"
  shows "rc \<noteq> 0"
  using assms by (fastforce simp: alloc_inv_def res_live_def list_all_iff)

lemma alloc_inv_step:
  assumes "alloc_step s s'" "alloc_inv s"
  shows "alloc_inv s'"
  using assms
proof cases
  case (Again t m e c0 rc c nn)
  show ?thesis
  proof (cases "al_peak s < 2 ^ 64")
    case True
    then show ?thesis
      using Again assms(2) alloc_inv_turn alloc_inv_reserve by metis
  next
    case False
    then show ?thesis
      using Again assms(2)
      by (auto simp: alloc_inv_def alloc_reserve_def nonce_fetch_add_def nonce_wf_def split: bind_splits)
  qed
next
  case (Call t msk mask0 rc c nn)
  then show ?thesis
    using assms(2) by (auto simp: nonce_rejects_def intro: alloc_inv_reserve)
qed (use assms(2) in \<open>auto intro: alloc_inv_finish alloc_inv_grant alloc_inv_reset
    intro!: alloc_inv_nonce simp: nonce_same alloc_inv_wf\<close>)

theorem alloc_reachable_inv: "alloc_reachable s \<Longrightarrow> alloc_inv s"
  by (induction rule: alloc_reachable.induct) (auto intro: alloc_inv_initial alloc_inv_step)

subsection \<open>The call of one thread is a run of the step relation\<close>

definition alloc_outcome ::
  "alloc_state \<Rightarrow> nat \<Rightarrow> u64 \<Rightarrow> u32 \<Rightarrow> nonce_words \<Rightarrow> bool \<times> nonce_words \<times> nonce_state \<Rightarrow> alloc_state \<Rightarrow> bool"
where
  "alloc_outcome a t m rc n r a' \<longleftrightarrow> (case r of (ok, n', s') \<Rightarrow>
     alloc_step\<^sup>*\<^sup>* a a' \<and> al_nonce a' = s' \<and> al_pc a' t = Idle \<and>
     (if ok then \<exists>e c. al_granted a' = (e, c, rc) # al_granted a \<and> n' = nonce_write m c n
      else al_granted a' = al_granted a \<and> n' = n))"

lemma alloc_outcome_step:
  assumes "alloc_step a a1" "al_granted a1 = al_granted a" "alloc_outcome a1 t m rc n r a'"
  shows "alloc_outcome a t m rc n r a'"
  using assms
  by (auto simp: alloc_outcome_def split: prod.splits if_splits
      intro: converse_rtranclp_into_rtranclp)

lemma alloc_reserve_same:
  "al_granted (alloc_reserve t m rc c nn a) = al_granted a"
  "al_nonce (alloc_reserve t m rc c nn a) = nn"
  "al_pc (alloc_reserve t m rc c nn a) t = Looping m (al_epoch a, c, rc)"
  by (simp_all add: alloc_reserve_def)

lemma nonce_loop_runs:
  assumes "nonce_loop Backend_CPU rc m n c s = Some r" "al_nonce a = s"
    "al_pc a t = Looping m (e, c, rc)"
  shows "\<exists>a'. alloc_outcome a t m rc n r a'"
proof -
  let ?P = "\<lambda>i rc m n c s r. \<forall>a e. i = Backend_CPU \<and> al_nonce a = s \<and>
    al_pc a t = Looping m (e, c, rc) \<longrightarrow> (\<exists>a'. alloc_outcome a t m rc n r a')"
  have "?P Backend_CPU rc m n c s r"
  proof (rule nonce_loop.raw_induct [where P = ?P, OF _ assms(1)], intro allI impI, goal_cases)
    case (1 f i rc m n c s r a e)
    show ?case
    proof (cases "nonce_turn_of m rc c")
      case (Exhausted p)
      have "alloc_step a (alloc_finish t p a)"
        using 1 Exhausted by (auto intro: alloc_step.Fail)
      then show ?thesis
        using 1 Exhausted
        by (intro exI [of _ "alloc_finish t p a"]) (auto simp: alloc_outcome_def alloc_finish_def)
    next
      case (Take p)
      let ?a = "(alloc_finish t p a)\<lparr>al_granted := (e, c, rc) # al_granted a\<rparr>"
      have "alloc_step a ?a"
        using 1 Take by (auto intro: alloc_step.Grant)
      then show ?thesis
        using 1 Take by (intro exI [of _ ?a]) (auto simp: alloc_outcome_def alloc_finish_def)
    next
      case Refetch
      then obtain c1 s1 where f: "nonce_fetch_add i rc s = Some (c1, s1)" "f i rc m n c1 s1 = Some r"
        using 1(2) by (auto split: bind_splits)
      let ?a = "alloc_reserve t m rc c1 s1 a"
      have "alloc_step a ?a"
        using 1(3) Refetch f(1) by (auto intro: alloc_step.Again)
      moreover obtain a' where "alloc_outcome ?a t m rc n r a'"
        using 1(1) [OF f(2), rule_format, of ?a "al_epoch a"] 1(3)
        by (auto simp: alloc_reserve_same)
      ultimately show ?thesis
        using alloc_outcome_step alloc_reserve_same(1) by blast
    qed
  qed
  then show ?thesis using assms by blast
qed

lemma nonce_next_runs:
  assumes "nonce_next Backend_CPU n rc mask0 (al_nonce a) = Some r" "al_pc a t = Idle"
  shows "\<exists>a'. alloc_outcome a t (nonce_mask63 mask0) rc n r a'"
proof (cases "nonce_rejects (nonce_mask63 mask0) rc")
  case True
  then show ?thesis
    using assms by (intro exI [of _ a]) (auto simp: nonce_next_def alloc_outcome_def)
next
  case False
  then obtain c s' where f: "nonce_fetch_add Backend_CPU rc (al_nonce a) = Some (c, s')"
    "nonce_loop Backend_CPU rc (nonce_mask63 mask0) n c s' = Some r"
    using assms(1) by (auto simp: nonce_next_def Let_def split: bind_splits)
  let ?a = "alloc_reserve t (nonce_mask63 mask0) rc c s' a"
  have "alloc_step a ?a"
    using assms(2) False f(1) by (auto intro: alloc_step.Call)
  moreover obtain a' where "alloc_outcome ?a t (nonce_mask63 mask0) rc n r a'"
    using nonce_loop_runs [OF f(2) alloc_reserve_same(2,3)] by blast
  ultimately show ?thesis
    using alloc_outcome_step alloc_reserve_same(1) by blast
qed

lemma sorted_distinct_range:
  assumes "sorted_wrt res_before rs" "a \<in> set rs" "b \<in> set rs" "a \<noteq> b" "fst a = fst b"
  shows "res_range a \<inter> res_range b = {}"
proof -
  obtain i j where ij: "i < length rs" "j < length rs" "a = rs ! i" "b = rs ! j" "i \<noteq> j"
    using assms(2-4) by (auto simp: in_set_conv_nth)
  then consider "i < j" | "j < i" by linarith
  then show ?thesis
  proof cases
    case 1
    then show ?thesis
      using ij assms(1,5) by (intro res_before_disjoint) (auto simp: sorted_wrt_iff_nth_less)
  next
    case 2
    then have "res_range b \<inter> res_range a = {}"
      using ij assms(1,5) by (intro res_before_disjoint) (auto simp: sorted_wrt_iff_nth_less)
    then show ?thesis by blast
  qed
qed

lemma granted_disjoint:
  assumes "alloc_reachable s" "al_peak s < 2 ^ 64" "i < j" "j < length (al_granted s)"
    "fst (al_granted s ! i) = fst (al_granted s ! j)"
  shows "res_range (al_granted s ! i) \<inter> res_range (al_granted s ! j) = {}"
proof -
  have inv: "sorted_wrt res_before (al_reserved s)" "distinct (al_granted s)"
    "set (al_granted s) \<subseteq> set (al_reserved s)"
    using alloc_reachable_inv [OF assms(1)] assms(2) by (simp_all add: alloc_inv_def)
  have "al_granted s ! i \<noteq> al_granted s ! j"
    using inv(2) assms(3,4) by (simp add: nth_eq_iff_index_eq)
  then show ?thesis
    using inv assms(3-5) by (intro sorted_distinct_range [OF inv(1)]) auto
qed

subsection \<open>Properties\<close>

lemma nonce_next_total:
  assumes "nonce_wf s" "index < Backend_MAX"
  shows "\<exists>ok n' s'. nonce_next index n reserveCount mask0 s = Some (ok, n', s')"
proof -
  have i: "index < length (m_nonces s)" using assms by (simp add: nonce_wf_def)
  let ?s = "s\<lparr>m_nonces := (m_nonces s)[index := m_nonces s ! index + ucast reserveCount]\<rparr>"
  have "\<exists>r. nonce_loop index reserveCount (nonce_mask63 mask0) n (m_nonces s ! index) ?s = Some r"
    if "reserveCount \<noteq> 0"
    using that i by (intro nonce_loop_terminates nonce_mask63_bound) simp_all
  then have "\<exists>r. nonce_next index n reserveCount mask0 s = Some r"
    by (cases "nonce_rejects (nonce_mask63 mask0) reserveCount")
      (auto simp: nonce_next_def Let_def nonce_fetch_add_Some [OF i] nonce_rejects_def)
  then show ?thesis by (metis prod_cases3)
qed

text \<open>
  Reserving nonces always returns, whatever the counter, the mask and the number of nonces
  asked for: the loop that skips ranges crossing a 32-bit boundary ends.
\<close>

theorem nonce_next_returns:
  assumes "nonce_wf s" "index < Backend_MAX"
  shows "\<exists>ok n' s'. nonce_next index n reserveCount mask0 s = Some (ok, n', s')"
  using assms by (rule nonce_next_total)

theorem nonce_next_returns_witness:
  "\<exists>ok n' s'. nonce_next Backend_CPU (7, 9) 4 (mask 32) nonce_initial = Some (ok, n', s')"
  by (rule nonce_next_returns) (simp_all add: nonce_initial_def nonce_wf_def Backend_CPU_def Backend_MAX_def)

lemma unat_mask_u64: "k < 64 \<Longrightarrow> unat (mask k :: u64) = 2 ^ k - 1"
  by (simp add: unat_eq_nat_uint uint_mask_eq min_def nat_mask_eq) (simp add: mask_eq_exp_minus_1)

lemma nonce_next_grant:
  assumes "nonce_next index n rc (mask k) s = Some (True, n', s')" "k \<le> 32"
  shows "\<exists>c. unat c + unat rc \<le> 2 ^ k \<and> n' = nonce_write (mask k) c n \<and> snd n' = snd n \<and>
    (\<forall>i < unat rc. unat (take_bit k (fst n' + of_nat i)) = unat c + i \<and>
       drop_bit k (fst n' + of_nat i) = drop_bit k (fst n))"
proof -
  have k: "k < 63" and kb: "(2 :: nat) ^ k \<le> 2 ^ 32"
    using assms(2) power_increasing [of k 32 "2 :: nat"] by simp_all
  have m: "unat (mask k :: u64) = 2 ^ k - 1"
    using k by (simp add: unat_mask_u64)
  have m63: "nonce_mask63 (mask k) = mask k"
  proof -
    have "mask k AND mask 63 = (mask k :: u64)"
      by (intro bit_word_eqI) (use k in \<open>auto simp: bit_simps\<close>)
    then show ?thesis by (simp add: nonce_mask63_def mask_eq_exp_minus_1 [of 63])
  qed
  obtain c p where rc: "rc \<noteq> 0" and n': "n' = nonce_write (mask k) c n"
    and turn: "nonce_turn_of (mask k) rc c = Take p"
    using nonce_next_True [OF assms(1)] by (auto simp: m63)
  have le: "unat c + unat rc \<le> 2 ^ k"
    using turn unfolding nonce_turn_unat [OF rc] m by (auto split: if_splits)
  have "\<not> 0xFFFFFFFF < (mask k :: u64)"
    using kb by (simp add: word_less_nat_alt m)
  then have "snd n' = snd n" by (simp add: n' nonce_write_def)
  moreover have "unat (take_bit k (fst n' + of_nat i)) = unat c + i \<and>
       drop_bit k (fst n' + of_nat i) = drop_bit k (fst n)" if "i < unat rc" for i
    using nonce_read_back [OF assms(2), of c i n] that le by (simp add: n')
  ultimately show ?thesis using le n' by blast
qed

text \<open>
  With a mask of the low \<open>k\<close> bits the granted nonces are consecutive numbers below \<open>2^k\<close>:
  the worker that counts up from the written nonce reads each of them in the low \<open>k\<close> bits and
  leaves the bits outside the mask as they were.
\<close>

theorem nonce_grant_in_mask:
  assumes "nonce_next index n rc (mask k) s = Some (True, n', s')" "k \<le> 32"
  shows "\<exists>c. unat c + unat rc \<le> 2 ^ k \<and> n' = nonce_write (mask k) c n \<and> snd n' = snd n \<and>
    (\<forall>i < unat rc. unat (take_bit k (fst n' + of_nat i)) = unat c + i \<and>
       drop_bit k (fst n' + of_nat i) = drop_bit k (fst n))"
  using assms by (rule nonce_next_grant)

theorem nonce_grant_in_mask_witness:
  "\<exists>c. unat c + unat (4 :: u32) \<le> 2 ^ 24 \<and> (0xAB000000 :: u32, 9 :: u32) = nonce_write (mask 24) c (0xAB123456, 9) \<and>
    (\<forall>i < unat (4 :: u32). unat (take_bit 24 (0xAB000000 + of_nat i :: u32)) = unat c + i \<and>
       drop_bit 24 (0xAB000000 + of_nat i :: u32) = drop_bit 24 0xAB123456)"
proof -
  have m: "(mask 24 :: u64) = 0xFFFFFF" by (simp add: mask_eq_exp_minus_1)
  have "nonce_loop Backend_CPU 4 0xFFFFFF (0xAB123456, 9) 0 (nonce_initial\<lparr>m_nonces := [4]\<rparr>) =
      Some (True, (0xAB000000, 9), nonce_initial\<lparr>m_nonces := [4]\<rparr>)"
    by (subst nonce_loop.simps) (simp add: nonce_turn_of_def nonce_write_def nonce_pause_if_def)
  then have "nonce_next Backend_CPU (0xAB123456, 9) 4 (mask 24) nonce_initial =
      Some (True, (0xAB000000, 9), nonce_initial\<lparr>m_nonces := [4]\<rparr>)"
    unfolding m by (simp add: nonce_next_def Let_def nonce_mask63_def nonce_rejects_def
      nonce_fetch_add_def nonce_initial_def rd_def Backend_CPU_def Backend_MAX_def)
  from nonce_grant_in_mask [OF this] show ?thesis by auto
qed


text \<open>Two threads: the second reserves after the first and is granted its range before it.\<close>

definition two_threads :: alloc_state where
  "two_threads =
     (let m = 0xFFFFFFFF;
          s1 = alloc_reserve 0 m 4 0 (nonce_initial\<lparr>m_nonces := [4]\<rparr>) alloc_initial;
          s2 = alloc_reserve 1 m 8 4 (nonce_initial\<lparr>m_nonces := [12]\<rparr>) s1;
          s3 = (alloc_finish 1 False s2)\<lparr>al_granted := [(0, 4, 8)]\<rparr>
      in (alloc_finish 0 False s3)\<lparr>al_granted := [(0, 0, 4), (0, 4, 8)]\<rparr>)"

lemmas two_threads_simps = alloc_reserve_def alloc_finish_def alloc_initial_def nonce_initial_def
  nonce_pause_if_def Backend_CPU_def Backend_MAX_def nonce_fetch_add_def rd_def nonce_mask63_def
  nonce_rejects_def nonce_turn_of_def

lemma two_threads_reachable: "alloc_reachable two_threads"
proof -
  let ?m = "0xFFFFFFFF"
  let ?s1 = "alloc_reserve 0 ?m 4 0 (nonce_initial\<lparr>m_nonces := [4]\<rparr>) alloc_initial"
  let ?s2 = "alloc_reserve 1 ?m 8 4 (nonce_initial\<lparr>m_nonces := [12]\<rparr>) ?s1"
  let ?s3 = "(alloc_finish 1 False ?s2)\<lparr>al_granted := (0, 4, 8) # al_granted ?s2\<rparr>"
  have "alloc_reachable ?s1"
    by (rule alloc_reachable.step [OF alloc_reachable.init], rule alloc_step.Call [of _ _ _ ?m])
      (simp_all add: two_threads_simps)
  then have "alloc_reachable ?s2"
    by (rule alloc_reachable.step, intro alloc_step.Call [of _ _ _ ?m]) (simp_all add: two_threads_simps)
  then have "alloc_reachable ?s3"
    by (rule alloc_reachable.step, intro alloc_step.Grant [of _ _ ?m]) (simp_all add: two_threads_simps)
  then have "alloc_reachable ((alloc_finish 0 False ?s3)\<lparr>al_granted := (0, 0, 4) # al_granted ?s3\<rparr>)"
    by (rule alloc_reachable.step, intro alloc_step.Grant [of _ _ ?m]) (simp_all add: two_threads_simps)
  then show ?thesis
    by (simp add: two_threads_def Let_def alloc_finish_def alloc_reserve_def alloc_initial_def)
qed


text \<open>
  The call of one thread, as the code runs it, is a run of the interleaving model: it
  reaches a state with the call's counter and flags, in which the range written to the nonce is
  the newest granted one, or nothing was granted when the call returns false.
\<close>

theorem nonce_next_refines_steps:
  assumes "nonce_next Backend_CPU n rc mask0 (al_nonce a) = Some (ok, n', s')" "al_pc a t = Idle"
  shows "\<exists>a'. alloc_step\<^sup>*\<^sup>* a a' \<and> al_nonce a' = s' \<and> al_pc a' t = Idle \<and>
     (if ok then \<exists>e c. al_granted a' = (e, c, rc) # al_granted a \<and> n' = nonce_write (nonce_mask63 mask0) c n
      else al_granted a' = al_granted a \<and> n' = n)"
  using nonce_next_runs [OF assms] by (simp add: alloc_outcome_def)

theorem nonce_next_refines_steps_witness:
  "\<exists>a'. alloc_step\<^sup>*\<^sup>* alloc_initial a' \<and> al_pc a' 3 = Idle \<and> (\<exists>e c. al_granted a' = [(e, c, 4)])"
proof -
  have "nonce_loop Backend_CPU 4 0xFFFFFF (7, 9) 0 (nonce_initial\<lparr>m_nonces := [4]\<rparr>) =
      Some (True, (0, 9), nonce_initial\<lparr>m_nonces := [4]\<rparr>)"
    by (subst nonce_loop.simps) (simp add: nonce_turn_of_def nonce_write_def nonce_pause_if_def)
  then have "nonce_next Backend_CPU (7, 9) 4 0xFFFFFF (al_nonce alloc_initial) =
      Some (True, (0, 9), nonce_initial\<lparr>m_nonces := [4]\<rparr>)"
    by (simp add: nonce_next_def Let_def two_threads_simps)
  from nonce_next_refines_steps [OF this, of 3] show ?thesis
    by (auto simp: alloc_initial_def)
qed

end
