(* ===== verification/Algorithm.thy ===== *)
theory Algorithm
  imports Prelude "HOL-Library.List_Lexorder" "HOL-Library.Char_ord"
begin

text \<open>
  Algorithm identifiers and names, \<^verbatim>\<open>base/crypto/Algorithm.h\<close> and \<^verbatim>\<open>Algorithm.cpp\<close>: the packed
  ids, the table of names searched by id and the table of aliases searched by a
  case-insensitive binary search. The search is proved to be a lookup in the table.
\<close>

subsection \<open>Identifiers\<close>

definition ALGO_INVALID :: u32 where "ALGO_INVALID = 0"
definition RX_0 :: u32 where "RX_0 = 0x72151200"
definition RX_V2 :: u32 where "RX_V2 = 0x72151202"
definition RX_WOW :: u32 where "RX_WOW = 0x72141177"
definition RX_ARQ :: u32 where "RX_ARQ = 0x72121061"
definition RX_GRAFT :: u32 where "RX_GRAFT = 0x72151267"
definition RX_SFX :: u32 where "RX_SFX = 0x72151273"
definition RX_YADA :: u32 where "RX_YADA = 0x72151279"
definition RANDOM_X :: u32 where "RANDOM_X = 0x72000000"

lemmas algo_ids = ALGO_INVALID_def RX_0_def RX_V2_def RX_WOW_def RX_ARQ_def RX_GRAFT_def RX_SFX_def
  RX_YADA_def RANDOM_X_def

definition algo_family :: "u32 \<Rightarrow> u32" where
  "algo_family aid = aid AND 0xff000000"

definition algo_l2 :: "u32 \<Rightarrow> nat" where
  "algo_l2 aid =
     (if algo_family aid \<noteq> RANDOM_X then 0
      else let exp = drop_bit 8 aid AND 0xff in if exp \<le> 31 then 2 ^ unat exp else 0)"

text \<open>\<open>size_t\<close> has 64 digits.\<close>

definition algo_l3 :: "u32 \<Rightarrow> nat" where
  "algo_l3 aid =
     (if aid = ALGO_INVALID then 0
      else let exp = drop_bit 16 aid AND 0xff in if exp < 64 then 2 ^ unat exp else 0)"

subsection \<open>Names\<close>

definition kINVALID :: string where "kINVALID = ''invalid''"

definition kNames :: "(u32 \<times> string) list" where
  "kNames = [(RX_ARQ, ''rx/arq''), (RX_WOW, ''rx/wow''), (RX_0, ''rx/0''), (RX_V2, ''rx/2''),
     (RX_GRAFT, ''rx/graft''), (RX_SFX, ''rx/sfx''), (RX_YADA, ''rx/yada'')]"

definition kAliases :: "(string \<times> u32) list" where
  "kAliases = [(''randomarq'', RX_ARQ), (''randomgraft'', RX_GRAFT), (''randomsfx'', RX_SFX),
     (''randomwow'', RX_WOW), (''randomx'', RX_0), (''randomyada'', RX_YADA), (''rx'', RX_0),
     (''rx/0'', RX_0), (''rx/2'', RX_V2), (''rx/arq'', RX_ARQ), (''rx/graft'', RX_GRAFT),
     (''rx/sfx'', RX_SFX), (''rx/wow'', RX_WOW), (''rx/yada'', RX_YADA)]"

definition kMaxAliasLen :: nat where
  "kMaxAliasLen = foldl (\<lambda>m e. if m < length (fst e) then length (fst e) else m) 0 kAliases"

text \<open>\<open>std::lower_bound\<close> finds the first entry whose id is not below the one sought.\<close>

definition algo_nameView :: "u32 \<Rightarrow> string" where
  "algo_nameView aid =
     (case dropWhile (\<lambda>e. fst e < aid) kNames of
        (i, name) # _ \<Rightarrow> if i = aid then name else kINVALID
      | [] \<Rightarrow> kINVALID)"

definition algo_isValid :: "u32 \<Rightarrow> bool" where
  "algo_isValid aid \<longleftrightarrow> algo_nameView aid \<noteq> kINVALID"

definition algo_count :: nat where "algo_count = length kNames"

definition algo_all :: "(u32 \<Rightarrow> bool) \<Rightarrow> u32 list" where
  "algo_all flt = filter flt (map fst kNames)"

definition ascii_lower_u :: "char \<Rightarrow> int" where
  "ascii_lower_u c = (let u = of_char c in if 65 \<le> u \<and> u \<le> 90 then u OR 0x20 else u)"

text \<open>The difference at the first position that differs, else the comparison of the lengths.\<close>

fun ci_compare :: "string \<Rightarrow> string \<Rightarrow> int" where
  "ci_compare [] [] = 0"
| "ci_compare [] (_ # _) = - 1"
| "ci_compare (_ # _) [] = 1"
| "ci_compare (a # as) (b # bs) =
     (let d = ascii_lower_u a - of_char b in if d \<noteq> 0 then d else ci_compare as bs)"

function algo_search :: "string \<Rightarrow> nat \<Rightarrow> nat \<Rightarrow> u32" where
  "algo_search name lo hi =
     (if lo < hi then
        let m = lo + (hi - lo) div 2; cmp = ci_compare name (fst (kAliases ! m)) in
        if cmp = 0 then snd (kAliases ! m)
        else if cmp < 0 then algo_search name lo m
        else algo_search name (m + 1) hi
      else ALGO_INVALID)"
  by pat_completeness auto
termination by (relation "measure (\<lambda>(n, lo, hi). hi - lo)") auto

declare algo_search.simps [simp del]

definition algo_parse :: "string \<Rightarrow> u32" where
  "algo_parse name =
     (if length name < 2 \<or> kMaxAliasLen < length name then ALGO_INVALID
      else algo_search name 0 (length kAliases))"

subsection \<open>The search is a lookup\<close>

definition codes :: "string \<Rightarrow> int list" where "codes = map of_char"
definition lowered :: "string \<Rightarrow> int list" where "lowered = map ascii_lower_u"

lemma ci_compare_order:
  "(ci_compare a b = 0 \<longleftrightarrow> lowered a = codes b) \<and> (ci_compare a b < 0 \<longleftrightarrow> lowered a < codes b)"
  by (induction a b rule: ci_compare.induct) (auto simp: codes_def lowered_def Let_def)

text \<open>The static assertion on the table of aliases.\<close>

lemma kAliases_sorted: "sorted_wrt (<) (map (codes \<circ> fst) kAliases)"
  by (simp add: kAliases_def codes_def)

lemma kAliases_nth_less:
  "i < j \<Longrightarrow> j < length kAliases \<Longrightarrow> codes (fst (kAliases ! i)) < codes (fst (kAliases ! j))"
  using kAliases_sorted by (auto simp: sorted_wrt_iff_nth_less)

lemma algo_search_lookup:
  assumes "hi \<le> length kAliases"
    "\<forall>i < lo. codes (fst (kAliases ! i)) < lowered name"
    "\<forall>i < length kAliases. hi \<le> i \<longrightarrow> lowered name < codes (fst (kAliases ! i))"
  shows "algo_search name lo hi =
    (case map_of (map (\<lambda>(a, i). (codes a, i)) kAliases) (lowered name) of None \<Rightarrow> ALGO_INVALID | Some i \<Rightarrow> i)"
  using assms
proof (induction name lo hi rule: algo_search.induct)
  case (1 name lo hi)
  let ?T = "map (\<lambda>(a, i). (codes a, i)) kAliases"
  let ?m = "lo + (hi - lo) div 2"
  have nth: "fst (?T ! i) = codes (fst (kAliases ! i))" "snd (?T ! i) = snd (kAliases ! i)"
    if "i < length kAliases" for i
    using that by (simp_all add: case_prod_unfold)
  show ?case
  proof (cases "lo < hi")
    case False
    have "map_of ?T (lowered name) = None"
    proof (rule ccontr)
      assume "map_of ?T (lowered name) \<noteq> None"
      then obtain i where i: "i < length kAliases" "codes (fst (kAliases ! i)) = lowered name"
        by (auto simp: map_of_eq_None_iff in_set_conv_nth case_prod_unfold)
      then show False
        using 1(4,5) False by (metis leI less_irrefl less_le_trans)
    qed
    then show ?thesis
      using False by (subst algo_search.simps) simp
  next
    case True
    then have m: "?m < hi" "?m < length kAliases" "lo \<le> ?m"
      using 1(3) by auto
    let ?c = "ci_compare name (fst (kAliases ! ?m))"
    consider "?c = 0" | "?c < 0" | "0 < ?c" by linarith
    then show ?thesis
    proof cases
      case 1
      have "distinct (map fst ?T)"
        using kAliases_sorted strict_sorted_iff
        by (metis (mono_tags, lifting) case_prod_unfold comp_apply fst_conv list.map_comp map_eq_conv)
      moreover have "(lowered name, snd (kAliases ! ?m)) \<in> set ?T"
        using 1 m(2) ci_compare_order by (force simp: in_set_conv_nth case_prod_unfold)
      ultimately have "map_of ?T (lowered name) = Some (snd (kAliases ! ?m))"
        by (rule map_of_is_SomeI)
      then show ?thesis
        using True 1 by (subst algo_search.simps) (simp add: Let_def)
    next
      case 2
      then have "lowered name < codes (fst (kAliases ! ?m))" using ci_compare_order by blast
      then have "\<forall>i < length kAliases. ?m \<le> i \<longrightarrow> lowered name < codes (fst (kAliases ! i))"
        using kAliases_nth_less [of ?m] by (auto simp: le_less intro: less_trans)
      then have "algo_search name lo ?m = (case map_of ?T (lowered name) of None \<Rightarrow> ALGO_INVALID | Some i \<Rightarrow> i)"
        using True 2 m "1.prems" by (intro "1.IH"(1) [OF True refl refl]) auto
      moreover have "algo_search name lo hi = algo_search name lo ?m"
        using True 2 by (subst algo_search.simps) (simp add: Let_def)
      ultimately show ?thesis by simp
    next
      case 3
      then have "codes (fst (kAliases ! ?m)) < lowered name"
        using ci_compare_order [of name "fst (kAliases ! ?m)"] by auto
      then have "\<forall>i < ?m + 1. codes (fst (kAliases ! i)) < lowered name"
        using kAliases_nth_less [OF _ m(2)] by (auto simp: less_Suc_eq dest: less_trans)
      then have "algo_search name (?m + 1) hi = (case map_of ?T (lowered name) of None \<Rightarrow> ALGO_INVALID | Some i \<Rightarrow> i)"
        using True 3 m "1.prems" by (intro "1.IH"(2) [OF True refl refl]) auto
      moreover have "algo_search name lo hi = algo_search name (?m + 1) hi"
        using True 3 by (subst algo_search.simps) (simp add: Let_def)
      ultimately show ?thesis by simp
    qed
  qed
qed

lemma alias_lengths: "list_all (\<lambda>(a, i). 2 \<le> length a \<and> length a \<le> kMaxAliasLen) kAliases"
  by (simp add: kAliases_def kMaxAliasLen_def)

text \<open>
  Looking an algorithm up by name, a binary search that compares case-insensitively and
  rejects names by length first, finds exactly the entries of the alias table: the id of the
  alias the lower-cased name spells, and the invalid id when there is none.
\<close>

theorem algo_parse_is_lookup:
  "algo_parse name = (case map_of (map (\<lambda>(a, i). (codes a, i)) kAliases) (lowered name) of
     None \<Rightarrow> ALGO_INVALID | Some i \<Rightarrow> i)"
proof (cases "length name < 2 \<or> kMaxAliasLen < length name")
  case True
  have "length a = length name" if "codes a = lowered name" for a
    using that by (metis codes_def lowered_def length_map)
  then have "map_of (map (\<lambda>(a, i). (codes a, i)) kAliases) (lowered name) = None"
    using alias_lengths True by (fastforce simp: map_of_eq_None_iff list_all_iff)
  then show ?thesis using True by (simp add: algo_parse_def)
next
  case False
  then show ?thesis by (simp add: algo_parse_def algo_search_lookup)
qed

lemma kNames_parse:
  "list_all (\<lambda>(i, name). algo_nameView i = name \<and> algo_parse name = i \<and> name \<noteq> kINVALID
     \<and> lowered name = codes name) kNames"
  by (simp add: kNames_def kINVALID_def algo_nameView_def algo_parse_is_lookup kAliases_def codes_def
      lowered_def ascii_lower_u_def algo_ids)

text \<open>
  Every supported algorithm's printed name parses back to the same algorithm, in any
  letter case, and differs from the name printed for an unknown id.
\<close>

theorem algo_name_roundtrip:
  assumes "(aid, printed) \<in> set kNames" "lowered name = lowered (algo_nameView aid)"
  shows "algo_parse name = aid \<and> algo_isValid aid"
proof -
  have "algo_nameView aid = printed" "algo_parse printed = aid" "printed \<noteq> kINVALID"
    using kNames_parse assms(1) by (auto simp: list_all_iff)
  then show ?thesis
    using assms(2) by (simp add: algo_isValid_def algo_parse_is_lookup)
qed

theorem algo_name_roundtrip_witness:
  "algo_parse ''RX/Wow'' = RX_WOW \<and> algo_isValid RX_WOW"
proof -
  have "lowered ''RX/Wow'' = lowered (algo_nameView RX_WOW)"
    by (simp add: lowered_def ascii_lower_u_def algo_nameView_def kNames_def algo_ids)
  then show ?thesis
    by (intro algo_name_roundtrip [of RX_WOW "''rx/wow''"]) (simp_all add: kNames_def)
qed

end
