(* ===== verification/BlobReader.thy ===== *)
theory BlobReader
  imports Prelude
begin

text \<open>
  The binary reader of \<^verbatim>\<open>base/tools/cryptonote/BlobReader.h\<close>. Positions and sizes are 64-bit
  words, as \<open>size_t\<close> is, and the bounds test \<open>m_index + n > m_size\<close> adds modulo \<open>2^64\<close>; the
  test is a parameter of the reading functions, so that the test the code makes and the one it
  means can be compared. Reading a byte that is not in the buffer and shifting by 64 or more are
  errors of their own.
\<close>

subsection \<open>Results\<close>

text \<open>
  \<open>OutOfRange\<close> is the exception the reader throws (or the false it returns), \<open>Refused\<close> a
  \<open>return false\<close> of its caller, \<open>NoMemory\<close> a failed allocation; \<open>BadAccess\<close> and \<open>BadShift\<close> are
  undefined behaviour: an access outside a buffer and a shift by the width or more.
\<close>

datatype read_error = OutOfRange | Refused | NoMemory | BadAccess | BadShift

type_synonym 'a result = "read_error + 'a"

fun bindR :: "'a result \<Rightarrow> ('a \<Rightarrow> 'b result) \<Rightarrow> 'b result" where
  "bindR (Inl e) f = Inl e"
| "bindR (Inr x) f = f x"

definition require :: "bool \<Rightarrow> 'a result \<Rightarrow> 'a result" where
  "require b r = (if b then r else Inl Refused)"

lemma bindR_Inr_iff: "bindR m f = Inr y \<longleftrightarrow> (\<exists>x. m = Inr x \<and> f x = Inr y)"
  by (cases m) auto

lemma bindR_Inl_iff: "bindR m f = Inl e \<longleftrightarrow> m = Inl e \<or> (\<exists>x. m = Inr x \<and> f x = Inl e)"
  by (cases m) auto

lemma require_iff:
  "require b r = Inr y \<longleftrightarrow> b \<and> r = Inr y" "require b r = Inl e \<longleftrightarrow> (if b then r = Inl e else e = Refused)"
  by (auto simp: require_def)

subsection \<open>The reader\<close>

text \<open>\<open>r_data\<close> is the memory from the data pointer to the end of the buffer it points into.\<close>

record reader =
  r_size :: u64
  r_data :: bytes
  r_index :: u64

definition new_reader :: "bytes \<Rightarrow> u64 \<Rightarrow> reader" where
  "new_reader data sz = \<lparr> r_size = sz, r_data = data, r_index = 0 \<rparr>"

definition br_remaining :: "reader \<Rightarrow> u64" where
  "br_remaining r = r_size r - r_index r"

text \<open>The bounds test of the code, and the test on the numbers themselves.\<close>

type_synonym bounds_test = "u64 \<Rightarrow> u64 \<Rightarrow> u64 \<Rightarrow> bool"

definition exceeds_wrapping :: bounds_test where
  "exceeds_wrapping index n sz \<longleftrightarrow> sz < index + n"

definition exceeds_exact :: bounds_test where
  "exceeds_exact index n sz \<longleftrightarrow> unat sz < unat index + unat n"

definition br_skip :: "bounds_test \<Rightarrow> u64 \<Rightarrow> reader \<Rightarrow> reader result" where
  "br_skip ex n r =
     (if ex (r_index r) n (r_size r) then Inl OutOfRange else Inr (r\<lparr>r_index := r_index r + n\<rparr>))"

text \<open>An array of \<open>n\<close> bytes, copied.\<close>

definition br_array :: "bounds_test \<Rightarrow> nat \<Rightarrow> reader \<Rightarrow> (bytes \<times> reader) result" where
  "br_array ex n r =
     (if ex (r_index r) (of_nat n) (r_size r) then Inl OutOfRange
      else case get_bytes (r_data r) (unat (r_index r)) n of
        None \<Rightarrow> Inl BadAccess
      | Some bs \<Rightarrow> Inr (bs, r\<lparr>r_index := r_index r + of_nat n\<rparr>))"

text \<open>A span: the position of its first byte in the reader's memory, and its length.\<close>

type_synonym span = "u64 \<times> u64"

definition br_span :: "bounds_test \<Rightarrow> u64 \<Rightarrow> reader \<Rightarrow> (span \<times> reader) result" where
  "br_span ex n r =
     (if ex (r_index r) n (r_size r) then Inl OutOfRange
      else Inr ((r_index r, n), r\<lparr>r_index := r_index r + n\<rparr>))"

definition br_byte :: "reader \<Rightarrow> (u8 \<times> reader) result" where
  "br_byte r =
     (if r_size r \<le> r_index r then Inl OutOfRange
      else if unat (r_index r) < length (r_data r)
      then Inr (r_data r ! unat (r_index r), r\<lparr>r_index := r_index r + 1\<rparr>)
      else Inl BadAccess)"

function br_varint_loop :: "u64 \<Rightarrow> nat \<Rightarrow> reader \<Rightarrow> (u64 \<times> reader) result" where
  "br_varint_loop acc shift r =
     (case br_byte r of
        Inl e \<Rightarrow> Inl e
      | Inr (t, r') \<Rightarrow>
          if 64 \<le> shift then Inl BadShift
          else let acc' = acc OR push_bit shift (ucast (t AND 0x7F)) in
            if t AND 0x80 \<noteq> 0 then br_varint_loop acc' (shift + 7) r' else Inr (acc', r'))"
  by pat_completeness auto
termination by (relation "measure (\<lambda>(a, s, r). 71 - s)") auto

declare br_varint_loop.simps [simp del]

definition br_varint :: "reader \<Rightarrow> (u64 \<times> reader) result" where
  "br_varint r = br_varint_loop 0 0 r"

subsection \<open>Readers inside their buffer\<close>

definition reader_ok :: "reader \<Rightarrow> bool" where
  "reader_ok r \<longleftrightarrow> r_index r \<le> r_size r \<and> unat (r_size r) \<le> length (r_data r)"

text \<open>Reading moves the position forward in the same memory.\<close>

definition advances :: "reader \<Rightarrow> reader \<Rightarrow> bool" where
  "advances r r' \<longleftrightarrow> r_size r' = r_size r \<and> r_data r' = r_data r \<and> r_index r \<le> r_index r'"

lemma advances_refl [simp]: "advances r r"
  by (simp add: advances_def)

lemma advances_trans: "advances r r' \<Longrightarrow> advances r' r'' \<Longrightarrow> advances r r''"
  by (auto simp: advances_def)

text \<open>
  \<open>safe m P\<close>: the computation makes no access outside a buffer, and its result satisfies \<open>P\<close>.
\<close>

definition safe :: "'a result \<Rightarrow> ('a \<Rightarrow> bool) \<Rightarrow> bool" where
  "safe m P \<longleftrightarrow> (case m of Inl e \<Rightarrow> e \<noteq> BadAccess | Inr x \<Rightarrow> P x)"

lemma safe_simps [simp]: "safe (Inr x) P = P x" "safe (Inl e) P = (e \<noteq> BadAccess)"
  by (simp_all add: safe_def)

lemma safe_bindR: "safe m Q \<Longrightarrow> (\<And>x. Q x \<Longrightarrow> safe (f x) P) \<Longrightarrow> safe (bindR m f) P"
  by (cases m) auto

lemma safe_require: "(b \<Longrightarrow> safe m P) \<Longrightarrow> safe (require b m) P"
  by (simp add: require_def)

lemma safe_weaken: "safe m Q \<Longrightarrow> (\<And>x. Q x \<Longrightarrow> P x) \<Longrightarrow> safe m P"
  by (cases m) auto

lemma unat_add_index:
  "unat i + unat n \<le> unat s \<Longrightarrow> unat (i + n) = unat i + unat n" for i n s :: u64
  using unat_u64_less [of s] by (simp add: unat_word_ariths)

lemma br_skip_safe:
  "reader_ok r \<Longrightarrow> safe (br_skip exceeds_exact n r) (\<lambda>r'. reader_ok r' \<and> advances r r' \<and> r_index r' = r_index r + n)"
  using unat_add_index [of "r_index r" n "r_size r"]
  by (auto simp: br_skip_def exceeds_exact_def reader_ok_def advances_def word_le_nat_alt)

lemma br_span_safe:
  "reader_ok r \<Longrightarrow> safe (br_span exceeds_exact n r) (\<lambda>(s, r'). reader_ok r' \<and> advances r r' \<and>
     s = (r_index r, n) \<and> unat (r_index r) + unat n = unat (r_index r'))"
  using unat_add_index [of "r_index r" n "r_size r"]
  by (auto simp: br_span_def exceeds_exact_def reader_ok_def advances_def word_le_nat_alt)

lemma br_array_safe:
  "reader_ok r \<Longrightarrow> n < 2 ^ 64 \<Longrightarrow> safe (br_array exceeds_exact n r) (\<lambda>(bs, r'). reader_ok r' \<and> advances r r' \<and>
     length bs = n \<and> unat (r_index r') = unat (r_index r) + n)"
  using unat_add_index [of "r_index r" "of_nat n" "r_size r"]
  by (auto simp: br_array_def exceeds_exact_def reader_ok_def advances_def word_le_nat_alt unsigned_of_nat
      take_bit_nat_eq_self get_bytes_def)

lemma br_byte_safe:
  assumes "reader_ok r"
  shows "safe (br_byte r) (\<lambda>(b, r'). reader_ok r' \<and> advances r r' \<and>
     b = r_data r ! unat (r_index r) \<and> unat (r_index r') = Suc (unat (r_index r)))"
proof -
  have "unat (r_index r + 1) = Suc (unat (r_index r))" if "r_index r < r_size r"
    using that unat_add_index [of "r_index r" 1 "r_size r"] by (simp add: word_less_nat_alt)
  then show ?thesis
    using assms by (auto simp: br_byte_def reader_ok_def advances_def word_le_nat_alt word_less_nat_alt)
qed

lemma br_varint_loop_safe:
  "reader_ok r \<Longrightarrow> safe (br_varint_loop acc shift r) (\<lambda>(v, r'). reader_ok r' \<and> advances r r' \<and>
     unat (r_index r) < unat (r_index r'))"
proof (induction acc shift r rule: br_varint_loop.induct)
  case (1 acc shift r)
  show ?case
  proof (cases "br_byte r")
    case (Inl e)
    then show ?thesis
      using br_byte_safe [OF 1(2)] by (subst br_varint_loop.simps) simp
  next
    case (Inr x)
    then obtain t r' where x: "br_byte r = Inr (t, r')" by (cases x) auto
    then have "reader_ok r'" "advances r r'" "unat (r_index r') = Suc (unat (r_index r))"
      using br_byte_safe [OF 1(2)] by simp_all
    then show ?thesis
      using 1(1) [OF x refl] by (subst br_varint_loop.simps) (auto simp: x Let_def intro: advances_trans
          elim!: safe_weaken)
  qed
qed

lemma br_varint_safe:
  "reader_ok r \<Longrightarrow> safe (br_varint r) (\<lambda>(v, r'). reader_ok r' \<and> advances r r' \<and>
     unat (r_index r) < unat (r_index r'))"
  by (simp add: br_varint_def br_varint_loop_safe)

subsection \<open>Variable-length integers\<close>

text \<open>The writer, the loop at the end of \<open>BlockTemplate::generateHashingBlob\<close>.\<close>

function put_varint :: "u64 \<Rightarrow> bytes" where
  "put_varint k = (if 0x80 \<le> k then ((ucast k AND 0x7F) OR 0x80) # put_varint (drop_bit 7 k) else [ucast k])"
  by pat_completeness auto
termination
proof (relation "measure unat")
  fix k :: u64
  assume "0x80 \<le> k"
  then have "0x80 \<le> unat k" by (simp add: word_le_nat_alt)
  then show "(drop_bit 7 k, k) \<in> measure unat"
    by (simp add: unat_drop_bit_eq drop_bit_eq_div [of 7 "unat k"] del: drop_bit_numeral_minus_bit1)
qed simp

declare put_varint.simps [simp del]

lemma put_varint_step:
  "128 \<le> unat k \<Longrightarrow> put_varint k = ((ucast k AND 0x7F) OR 0x80) # put_varint (drop_bit 7 k)"
  "unat k < 128 \<Longrightarrow> put_varint k = [ucast k]"
  by (subst put_varint.simps; simp add: word_le_nat_alt)+

lemma put_varint_pos: "0 < length (put_varint k)"
  by (subst put_varint.simps) simp

lemma put_varint_length: "0 < m \<Longrightarrow> unat k < 2 ^ (7 * m) \<Longrightarrow> length (put_varint k) \<le> m"
proof (induction m arbitrary: k)
  case (Suc m)
  show ?case
  proof (cases "unat k < 128")
    case False
    then have "0 < m" using Suc.prems(2) by (cases m) auto
    moreover have "unat (drop_bit 7 k) < 2 ^ (7 * m)"
      using Suc.prems(2)
      by (simp only: unat_drop_bit_eq drop_bit_eq_div [of 7 "unat k"])
        (simp add: less_mult_imp_div_less power_add)
    ultimately show ?thesis
      using Suc.IH False by (simp add: put_varint_step(1))
  qed (simp add: put_varint_step(2))
qed simp

text \<open>The bytes \<open>bs\<close> are next in the reader, inside its bounds.\<close>

definition next_bytes :: "reader \<Rightarrow> bytes \<Rightarrow> bool" where
  "next_bytes r bs \<longleftrightarrow> take (length bs) (drop (unat (r_index r)) (r_data r)) = bs \<and>
     unat (r_index r) + length bs \<le> unat (r_size r) \<and> unat (r_size r) \<le> length (r_data r)"

lemma next_bytes_Cons:
  assumes "next_bytes r (b # bs)"
  shows "br_byte r = Inr (b, r\<lparr>r_index := r_index r + 1\<rparr>)" "next_bytes (r\<lparr>r_index := r_index r + 1\<rparr>) bs"
proof -
  let ?i = "unat (r_index r)"
  have b: "?i + Suc (length bs) \<le> unat (r_size r)" "unat (r_size r) \<le> length (r_data r)"
    and t: "take (Suc (length bs)) (drop ?i (r_data r)) = b # bs"
    using assms by (simp_all add: next_bytes_def)
  have "drop ?i (r_data r) = r_data r ! ?i # drop (Suc ?i) (r_data r)"
    using b by (simp add: Cons_nth_drop_Suc)
  with t have bs: "r_data r ! ?i = b" "take (length bs) (drop (Suc ?i) (r_data r)) = bs"
    by simp_all
  have i1: "unat (r_index r + 1) = Suc ?i"
    using unat_add_index [of "r_index r" 1 "r_size r"] b by simp
  show "br_byte r = Inr (b, r\<lparr>r_index := r_index r + 1\<rparr>)"
    using b bs(1) by (simp add: br_byte_def word_le_nat_alt)
  show "next_bytes (r\<lparr>r_index := r_index r + 1\<rparr>) bs"
    using b bs(2) by (simp add: next_bytes_def i1)
qed

lemma bit_0x80: "bit (0x80 :: 'a::len word) n \<longleftrightarrow> n < LENGTH('a) \<and> n = 7"
proof -
  have "(0x80 :: 'a word) = 2 ^ 7" by simp
  then show ?thesis by (simp only: bit_exp_iff) (auto simp: possible_bit_def)
qed

lemma bit_0x7F: "bit (0x7F :: 'a::len word) n \<longleftrightarrow> n < LENGTH('a) \<and> n < 7"
proof -
  have "(0x7F :: 'a word) = mask 7" by (simp add: mask_eq_exp_minus_1)
  then show ?thesis by (simp only: bit_mask_iff) (auto simp: possible_bit_def)
qed

lemma bit_128_int: "bit (128 :: int) n \<longleftrightarrow> n = 7"
proof -
  have "(128 :: int) = 2 ^ 7" by simp
  then show ?thesis by (simp only: bit_exp_iff) (auto simp: possible_bit_def)
qed

lemma bit_127_int: "bit (127 :: int) n \<longleftrightarrow> n < 7"
proof -
  have "(127 :: int) = mask 7" by (simp add: mask_eq_exp_minus_1)
  then show ?thesis by (simp only: bit_mask_iff) (auto simp: possible_bit_def)
qed

lemmas varint_bits = bit_simps bit_0x80 bit_0x7F bit_128_int bit_127_int

lemma varint_split: "(ucast (((ucast (k :: u64) AND 0x7F) OR 0x80 :: u8) AND 0x7F) :: u64) = take_bit 7 k"
  by (rule bit_word_eqI) (auto simp: varint_bits)

lemma varint_cont: "((ucast (k :: u64) AND 0x7F) OR 0x80 :: u8) AND 0x80 \<noteq> 0"
proof -
  have "bit (((ucast k AND 0x7F) OR 0x80 :: u8) AND 0x80) 7"
    by (simp add: varint_bits)
  then show ?thesis by (metis bit_0_eq bot_apply bot_bool_def)
qed

lemma varint_last:
  assumes "unat (k :: u64) < 128"
  shows "(ucast (ucast k AND 0x7F :: u8) :: u64) = k" "(ucast k :: u8) AND 0x80 = 0"
proof -
  have k: "take_bit 7 k = k"
    using assms unat_take_bit [of 7 k] by (simp add: word_unat_eq_iff)
  have "ucast (ucast k AND 0x7F :: u8) = take_bit 7 k"
    by (rule bit_word_eqI) (auto simp: varint_bits)
  then show "(ucast (ucast k AND 0x7F :: u8) :: u64) = k" using k by simp
  have "\<not> bit k 7"
    using k by (metis bit_take_bit_iff less_irrefl)
  then show "(ucast k :: u8) AND 0x80 = 0"
    by (intro bit_word_eqI) (auto simp: varint_bits)
qed

lemma br_varint_loop_put:
  assumes "unat k < 2 ^ (64 - shift)" "shift < 64" "next_bytes r (put_varint k)"
  shows "br_varint_loop acc shift r =
    Inr (acc OR push_bit shift k, r\<lparr>r_index := r_index r + of_nat (length (put_varint k))\<rparr>)"
  using assms
proof (induction k arbitrary: acc shift r rule: put_varint.induct)
  case (1 k)
  show ?case
  proof (cases "unat k < 128")
    case True
    have nb: "next_bytes r [ucast k]"
      using 1(4) True by (simp add: put_varint_step(2))
    show ?thesis
      using True 1(3) by (subst br_varint_loop.simps)
        (simp add: next_bytes_Cons [OF nb] varint_last put_varint_step(2) Let_def)
  next
    case False
    then have big: "128 \<le> unat k" by simp
    let ?r = "r\<lparr>r_index := r_index r + 1\<rparr>" and ?k = "drop_bit 7 k"
    have nb: "next_bytes r (((ucast k AND 0x7F) OR 0x80) # put_varint ?k)"
      using 1(4) by (simp add: put_varint_step(1) [OF big])
    have "(2 :: nat) ^ 7 < 2 ^ (64 - shift)"
      using 1(2) big by simp
    then have s: "shift + 7 < 64"
      using power_less_imp_less_exp [of "2 :: nat" 7 "64 - shift"] by simp
    have "unat ?k < 2 ^ (64 - (shift + 7))"
    proof -
      have "(2 :: nat) ^ (64 - shift) = 2 ^ (64 - (shift + 7)) * 2 ^ 7"
      proof -
        have "64 - shift = (64 - (shift + 7)) + 7" using s by simp
        then show ?thesis by (simp only: power_add)
      qed
      then have "unat k < 2 ^ (64 - (shift + 7)) * 2 ^ 7" using 1(2) by simp
      then show ?thesis
        by (simp only: unat_drop_bit_eq drop_bit_eq_div [of 7 "unat k"] less_mult_imp_div_less)
    qed
    from 1(1) [OF _ this s next_bytes_Cons(2) [OF nb]] big
    have "br_varint_loop (acc OR push_bit shift (take_bit 7 k)) (shift + 7) ?r =
      Inr ((acc OR push_bit shift (take_bit 7 k)) OR push_bit (shift + 7) ?k,
        ?r\<lparr>r_index := r_index ?r + of_nat (length (put_varint ?k))\<rparr>)"
      by (simp add: word_le_nat_alt)
    moreover have "(acc OR push_bit shift (take_bit 7 k)) OR push_bit (shift + 7) ?k = acc OR push_bit shift k"
    proof (rule bit_word_eqI)
      fix n
      have "n - (shift + 7) + 7 = n - shift" if "\<not> n - shift < 7"
        using that by simp
      then show "bit ((acc OR push_bit shift (take_bit 7 k)) OR push_bit (shift + 7) ?k) n =
        bit (acc OR push_bit shift k) n"
        by (cases "n - shift < 7") (auto simp: bit_simps add.commute)
    qed
    ultimately show ?thesis
      unfolding br_varint_loop.simps [of acc shift r] next_bytes_Cons(1) [OF nb] sum.case prod.case Let_def
        varint_split put_varint_step(1) [OF big]
      using 1(3) varint_cont [of k] by (simp add: add.assoc add.commute)
  qed
qed

lemma br_varint_next:
  "next_bytes r (put_varint k) \<Longrightarrow> br_varint r = Inr (k, r\<lparr>r_index := r_index r + of_nat (length (put_varint k))\<rparr>)"
  using br_varint_loop_put [of k 0 r 0] unat_u64_less [of k] by (simp add: br_varint_def)

text \<open>
  A 64-bit number written as a variable-length integer is read back, wherever it stands in
  a buffer, and the position moves to just after it.
\<close>

theorem varint_roundtrip:
  assumes "next_bytes r (put_varint k)"
  shows "br_varint r = Inr (k, r\<lparr>r_index := r_index r + of_nat (length (put_varint k))\<rparr>)"
  by (rule br_varint_next [OF assms])

theorem varint_roundtrip_witness:
  "br_varint (new_reader (0x55 # put_varint 300 @ [1]) 4 \<lparr>r_index := 1\<rparr>) =
     Inr (300, new_reader (0x55 # put_varint 300 @ [1]) 4 \<lparr>r_index := 1 + of_nat (length (put_varint 300))\<rparr>)"
proof -
  have v: "put_varint 300 = [0xAC, 2]"
    by (simp add: put_varint_step)
  show ?thesis
    using varint_roundtrip [of "new_reader (0x55 # put_varint 300 @ [1]) 4 \<lparr>r_index := 1\<rparr>" 300]
    by (simp add: next_bytes_def new_reader_def v)
qed

end
