(* ===== verification/KeccakProps.thy ===== *)
theory KeccakProps
  imports Keccak
begin

text \<open>
  The reference definition of Keccak and the proof that the code computes it.
\<close>

subsection \<open>The steps of the standard\<close>

text \<open>A lane \<open>A[x, y]\<close> is at index \<open>x + 5 y\<close>; coordinates are taken modulo 5.\<close>

definition lane :: "u64 list \<Rightarrow> nat \<Rightarrow> nat \<Rightarrow> u64" where
  "lane A x y = A ! (x mod 5 + 5 * (y mod 5))"

definition of_lanes :: "(nat \<Rightarrow> nat \<Rightarrow> u64) \<Rightarrow> u64 list" where
  "of_lanes f = map (\<lambda>i. f (i mod 5) (i div 5)) [0..<25]"

definition theta :: "u64 list \<Rightarrow> u64 list" where
  "theta A =
    (let C = (\<lambda>x. lane A x 0 XOR lane A x 1 XOR lane A x 2 XOR lane A x 3 XOR lane A x 4)
     in of_lanes (\<lambda>x y. lane A x y XOR (C (x + 4) XOR word_rotl 1 (C (x + 1)))))"

text \<open>The walk \<open>(x, y) := (y, 2 x + 3 y)\<close> from \<open>(1, 0)\<close>; step \<open>t\<close> rotates by \<open>(t + 1)(t + 2) / 2\<close>.\<close>

fun walk :: "nat \<Rightarrow> nat \<times> nat" where
  "walk 0 = (1, 0)"
| "walk (Suc t) = (case walk t of (x, y) \<Rightarrow> (y, (2 * x + 3 * y) mod 5))"

definition rho_offset :: "nat \<Rightarrow> nat \<Rightarrow> nat" where
  "rho_offset x y = (case find (\<lambda>t. walk t = (x, y)) [0..<24] of
     None \<Rightarrow> 0 | Some t \<Rightarrow> (t + 1) * (t + 2) div 2 mod 64)"

definition rho :: "u64 list \<Rightarrow> u64 list" where
  "rho A = of_lanes (\<lambda>x y. word_rotl (rho_offset x y) (lane A x y))"

definition pi :: "u64 list \<Rightarrow> u64 list" where
  "pi A = of_lanes (\<lambda>x y. lane A (x + 3 * y) x)"

definition chi :: "u64 list \<Rightarrow> u64 list" where
  "chi A = of_lanes (\<lambda>x y. lane A x y XOR (NOT (lane A (x + 1) y) AND lane A (x + 2) y))"

lemma length_25: "length (st :: u64 list) = 25 \<Longrightarrow>
  \<exists>a0 a1 a2 a3 a4 a5 a6 a7 a8 a9 b0 b1 b2 b3 b4 b5 b6 b7 b8 b9 c0 c1 c2 c3 c4.
   st = [a0, a1, a2, a3, a4, a5, a6, a7, a8, a9, b0, b1, b2, b3, b4, b5, b6, b7, b8, b9, c0, c1, c2, c3, c4]"
  by (auto simp: length_Suc_conv numeral_eq_Suc)

lemma rotate_index: "(n :: nat) < 64 \<Longrightarrow> 0 < y \<Longrightarrow> y < 64 \<Longrightarrow>
    (n + 64 - y) mod 64 = (if y \<le> n then n - y else 64 + n - y)"
  by (cases "y \<le> n") (simp_all add: le_mod_geq ac_simps)

lemma ROTL64_eq: "0 < y \<Longrightarrow> y < 64 \<Longrightarrow> ROTL64 x y = word_rotl y x"
  by (rule bit_word_eqI)
    (auto simp: ROTL64_def bit_simps rotate_index not_le dest: bit_imp_le_length)

lemma upt_25: "[0..<25] = [0, 1, 2, 3, 4, 5, 6, 7, 8, 9, 10, 11, 12, 13, 14, 15, 16, 17, 18, 19, 20, 21, 22, 23, 24]"
  by (simp add: upt_rec)

lemma theta_eq:
  assumes "length st = 25"
  shows "keccak_theta st = theta st"
proof -
  obtain a0 a1 a2 a3 a4 a5 a6 a7 a8 a9 b0 b1 b2 b3 b4 b5 b6 b7 b8 b9 c0 c1 c2 c3 c4 where
    st: "st = [a0, a1, a2, a3, a4, a5, a6, a7, a8, a9, b0, b1, b2, b3, b4, b5, b6, b7, b8, b9, c0, c1, c2, c3, c4]"
    using length_25 [OF assms] by (elim exE)
  show ?thesis
    unfolding st
    by (simp add: keccak_theta_def theta_def Let_def keccak_X_def xor_at_def keccak_bc_def lane_def
        of_lanes_def upt_25 ROTL64_eq)
qed

lemma rho_offsets:
  "rho_offset 0 0 = 0" "rho_offset (Suc 0) 0 = 1" "rho_offset 2 0 = 62" "rho_offset 3 0 = 28" "rho_offset 4 0 = 27"
  "rho_offset 0 (Suc 0) = 36" "rho_offset (Suc 0) (Suc 0) = 44" "rho_offset 2 (Suc 0) = 6" "rho_offset 3 (Suc 0) = 55" "rho_offset 4 (Suc 0) = 20"
  "rho_offset 0 2 = 3" "rho_offset (Suc 0) 2 = 10" "rho_offset 2 2 = 43" "rho_offset 3 2 = 25" "rho_offset 4 2 = 39"
  "rho_offset 0 3 = 41" "rho_offset (Suc 0) 3 = 45" "rho_offset 2 3 = 15" "rho_offset 3 3 = 21" "rho_offset 4 3 = 8"
  "rho_offset 0 4 = 18" "rho_offset (Suc 0) 4 = 2" "rho_offset 2 4 = 61" "rho_offset 3 4 = 56" "rho_offset 4 4 = 14"
  by code_simp+

lemma word_rotl_0: "word_rotl 0 x = (x :: u64)"
  by (rule bit_word_eqI) (auto simp: bit_simps)

lemma rho_pi_eq:
  assumes "length st = 25"
  shows "keccak_rho_pi st = pi (rho st)"
proof -
  obtain a0 a1 a2 a3 a4 a5 a6 a7 a8 a9 b0 b1 b2 b3 b4 b5 b6 b7 b8 b9 c0 c1 c2 c3 c4 where
    st: "st = [a0, a1, a2, a3, a4, a5, a6, a7, a8, a9, b0, b1, b2, b3, b4, b5, b6, b7, b8, b9, c0, c1, c2, c3, c4]"
    using length_25 [OF assms] by (elim exE)
  have rho: "rho st = [a0, word_rotl 1 a1, word_rotl 62 a2, word_rotl 28 a3, word_rotl 27 a4,
      word_rotl 36 a5, word_rotl 44 a6, word_rotl 6 a7, word_rotl 55 a8, word_rotl 20 a9,
      word_rotl 3 b0, word_rotl 10 b1, word_rotl 43 b2, word_rotl 25 b3, word_rotl 39 b4,
      word_rotl 41 b5, word_rotl 45 b6, word_rotl 15 b7, word_rotl 21 b8, word_rotl 8 b9,
      word_rotl 18 c0, word_rotl 2 c1, word_rotl 61 c2, word_rotl 56 c3, word_rotl 14 c4]"
    unfolding st by (simp add: rho_def of_lanes_def upt_25 lane_def rho_offsets word_rotl_0)
  show ?thesis
    unfolding rho by (simp add: st keccak_rho_pi_def rho_pi_moves_def pi_def of_lanes_def upt_25 lane_def
        ROTL64_eq)
qed

lemma chi_eq:
  assumes "length st = 25"
  shows "keccak_chi st = chi st"
proof -
  obtain a0 a1 a2 a3 a4 a5 a6 a7 a8 a9 b0 b1 b2 b3 b4 b5 b6 b7 b8 b9 c0 c1 c2 c3 c4 where
    st: "st = [a0, a1, a2, a3, a4, a5, a6, a7, a8, a9, b0, b1, b2, b3, b4, b5, b6, b7, b8, b9, c0, c1, c2, c3, c4]"
    using length_25 [OF assms] by (elim exE)
  show ?thesis
    unfolding st by (simp add: keccak_chi_def keccak_chi_row_def keccak_chi_last_def xor_at_def Let_def
        chi_def of_lanes_def upt_25 lane_def)
qed

text \<open>The round constants come from a linear feedback shift register.\<close>

definition lfsr_step :: "int \<Rightarrow> int" where
  "lfsr_step s = (if 128 \<le> s then (2 * s - 256) XOR 0x71 else 2 * s)"

text \<open>Bit \<open>2 ^ j - 1\<close> of a constant, for \<open>j < 7\<close>, is the next bit of the register.\<close>

primrec constant_value :: "nat list \<Rightarrow> int \<Rightarrow> int" where
  "constant_value [] s = 0"
| "constant_value (e # es) s = (if odd s then 2 ^ e else 0) + constant_value es (lfsr_step s)"

definition lfsr_step7 :: "int \<Rightarrow> int" where
  "lfsr_step7 s = (lfsr_step ^^ 7) s"

primrec constants_from :: "nat \<Rightarrow> int \<Rightarrow> u64 list" where
  "constants_from 0 s = []"
| "constants_from (Suc n) s =
     word_of_int (constant_value [0, 1, 3, 7, 15, 31, 63] s) # constants_from n (lfsr_step7 s)"

definition round_constant :: "nat \<Rightarrow> u64" where
  "round_constant i = constants_from 24 1 ! i"

lemma constants_from_numeral:
  "constants_from (numeral k) s =
     word_of_int (constant_value [0, 1, 3, 7, 15, 31, 63] s) # constants_from (pred_numeral k) (lfsr_step7 s)"
  by (simp add: numeral_eq_Suc)

lemma lfsr_step7_eq:
  "lfsr_step7 s = lfsr_step (lfsr_step (lfsr_step (lfsr_step (lfsr_step (lfsr_step (lfsr_step s))))))"
  by (simp add: lfsr_step7_def eval_nat_numeral)

lemma round_constants: "constants_from 24 1 = keccakf_rndc"
  by (simp add: keccakf_rndc_def constants_from_numeral lfsr_step_def lfsr_step7_eq)

definition keccak_f_round :: "nat \<Rightarrow> u64 list \<Rightarrow> u64 list" where
  "keccak_f_round i A = of_lanes (\<lambda>x y. lane (chi (pi (rho (theta A)))) x y XOR
     (if x = 0 \<and> y = 0 then round_constant i else 0))"

definition keccak_f :: "nat \<Rightarrow> u64 list \<Rightarrow> u64 list" where
  "keccak_f n A = fold keccak_f_round [0..<n] A"

lemma length_of_lanes [simp]: "length (of_lanes f) = 25"
  by (simp add: of_lanes_def)

lemma length_steps [simp]:
  "length (theta A) = 25" "length (rho A) = 25" "length (pi A) = 25" "length (chi A) = 25"
  by (simp_all add: theta_def rho_def pi_def chi_def Let_def)

lemma of_lanes_lane: "length A = 25 \<Longrightarrow> of_lanes (lane A) = A"
  by (rule nth_equalityI) (auto simp: of_lanes_def lane_def)

lemma keccak_round_eq:
  assumes "length st = 25" "i < 24"
  shows "keccak_round i st = keccak_f_round i st"
proof -
  let ?B = "chi (pi (rho (theta st)))"
  have "keccakf_rndc ! i = round_constant i"
    by (simp add: round_constant_def round_constants)
  moreover have "?B[0 := ?B ! 0 XOR c] = of_lanes (\<lambda>x y. lane ?B x y XOR (if x = 0 \<and> y = 0 then c else 0))" for c
    by (rule nth_equalityI) (auto simp: of_lanes_def lane_def nth_list_update)
  ultimately show ?thesis
    using assms(1) by (simp add: keccak_round_def keccak_f_round_def theta_eq rho_pi_eq chi_eq xor_at_def)
qed

lemma keccakf_eq:
  assumes "length st = 25" "n \<le> 24"
  shows "keccakf st n = keccak_f n st \<and> length (keccak_f n st) = 25"
  using assms(2)
proof (induction n)
  case 0
  then show ?case using assms(1) by (simp add: keccakf_def keccak_f_def)
next
  case (Suc n)
  then show ?case
    by (simp add: keccakf_def keccak_f_def keccak_round_eq) (simp add: keccak_f_round_def)
qed

subsection \<open>The sponge\<close>

text \<open>The original padding: a 1 bit, zeros, a final 1 bit, up to a multiple of the rate.\<close>

definition pad_bytes :: "nat \<Rightarrow> nat \<Rightarrow> bytes" where
  "pad_bytes r n = (let q = r - n mod r in
     if q = 1 then [0x81] else [0x01] @ replicate (q - 2) 0 @ [0x80])"

definition xor_block :: "nat \<Rightarrow> bytes \<Rightarrow> u64 list \<Rightarrow> u64 list" where
  "xor_block r block A =
     map (\<lambda>i. if i < r div 8 then A ! i XOR load64 (take 8 (drop (8 * i) block)) else A ! i) [0..<25]"

function absorb :: "nat \<Rightarrow> bytes \<Rightarrow> u64 list \<Rightarrow> u64 list" where
  "absorb r bs A =
     (if 0 < r \<and> r \<le> length bs then absorb r (drop r bs) (keccak_f 24 (xor_block r (take r bs) A)) else A)"
  by pat_completeness auto
termination by (relation "measure (\<lambda>(r, bs, A). length bs)") auto

declare absorb.simps [simp del]

definition sponge :: "nat \<Rightarrow> bytes \<Rightarrow> nat \<Rightarrow> bytes" where
  "sponge r msg n =
     take n (concat (map store64 (absorb r (msg @ pad_bytes r (length msg)) (replicate 25 0))))"

lemma fold_xor_at:
  assumes "length A = 25" "n \<le> 25"
  shows "fold (\<lambda>i. xor_at i (g i)) [0..<n] A = map (\<lambda>i. if i < n then A ! i XOR g i else A ! i) [0..<25]"
  using assms(2)
proof (induction n)
  case 0
  then show ?case using assms(1) map_nth [of A] by simp
next
  case (Suc n)
  then have "fold (\<lambda>i. xor_at i (g i)) [0..<Suc n] A =
      xor_at n (g n) (map (\<lambda>i. if i < n then A ! i XOR g i else A ! i) [0..<25])"
    by simp
  also have "\<dots> = map (\<lambda>i. if i < Suc n then A ! i XOR g i else A ! i) [0..<25]"
    using Suc.prems by (intro nth_equalityI) (auto simp: xor_at_def nth_list_update less_Suc_eq)
  finally show ?case .
qed

lemma absorb_eq:
  assumes "length A = 25" "r div 8 \<le> 25" "r \<le> length block"
  shows "keccak_absorb (r div 8) block A = xor_block r (take r block) A"
proof -
  have "load64 (drop (8 * i) block) = load64 (take 8 (drop (8 * i) (take r block)))" if "i < r div 8" for i
  proof -
    have "take 8 (drop (8 * i) (take r block)) = take 8 (drop (8 * i) block)"
      using that by (simp add: drop_take min_def)
    then show ?thesis by (simp add: load64_def)
  qed
  then show ?thesis
    using assms by (simp add: keccak_absorb_def fold_xor_at xor_block_def)
qed

lemma length_xor_block [simp]: "length (xor_block r b A) = 25"
  by (simp add: xor_block_def)

lemma pad_bytes_drop: "r \<le> n \<Longrightarrow> pad_bytes r n = pad_bytes r (n - r)"
  by (simp add: pad_bytes_def le_mod_geq)

lemma keccak_pad_eq:
  assumes "length rest < r"
  shows "keccak_pad r rest = rest @ pad_bytes r (length rest)" and "length (keccak_pad r rest) = r"
proof -
  show "length (keccak_pad r rest) = r"
    using assms by (simp add: keccak_pad_def Let_def)
  show "keccak_pad r rest = rest @ pad_bytes r (length rest)"
  proof (cases "Suc (length rest) = r")
    case True
    then show ?thesis
      by (auto simp: keccak_pad_def pad_bytes_def Let_def nth_append)
  next
    case False
    define k where "k = r - length rest - 2"
    have k: "r = length rest + Suc (Suc k)"
      using False assms by (simp add: k_def)
    have "(replicate (Suc k) 0)[k := 0x80] = replicate k 0 @ [0x80 :: u8]"
      by (induction k) simp_all
    moreover have "replicate (Suc k) (0 :: u8) ! k = 0"
      by (simp del: replicate.simps)
    ultimately show ?thesis
      by (simp del: replicate.simps add: keccak_pad_def pad_bytes_def Let_def k nth_append list_update_append)
  qed
qed

lemma keccak_blocks_absorb:
  assumes "0 < r" "r div 8 \<le> 25" "length A = 25"
  shows "case keccak_blocks r inp A of (rest, st) \<Rightarrow>
    keccakf (keccak_absorb (r div 8) (keccak_pad r rest) st) KECCAK_ROUNDS =
      absorb r (inp @ pad_bytes r (length inp)) A"
  using assms
proof (induction r inp A rule: keccak_blocks.induct)
  case (1 r inp A)
  show ?case
  proof (cases "r \<le> length inp")
    case True
    let ?A = "keccakf (keccak_absorb (r div 8) inp A) KECCAK_ROUNDS"
    have eq: "?A = keccak_f 24 (xor_block r (take r inp) A)" "length ?A = 25"
      using keccakf_eq [of "xor_block r (take r inp) A" 24] 1(2-4) True
      by (simp_all add: absorb_eq KECCAK_ROUNDS_def)
    have "absorb r (inp @ pad_bytes r (length inp)) A =
        absorb r (drop r inp @ pad_bytes r (length (drop r inp))) ?A"
      using True 1(2) by (subst absorb.simps) (simp add: eq(1) pad_bytes_drop)
    then show ?thesis
      using True 1(1) [OF _ 1(2,3) eq(2)] 1(2) by (subst keccak_blocks.simps) simp
  next
    case False
    let ?P = "keccak_pad r inp"
    have P: "?P = inp @ pad_bytes r (length inp)" "length ?P = r"
      using keccak_pad_eq False by simp_all
    have "absorb r ?P A = keccak_f 24 (xor_block r ?P A)"
      using P(2) 1(2) by (subst absorb.simps, subst absorb.simps) simp
    then show ?thesis
      using False keccakf_eq [of "xor_block r ?P A" 24] 1(2-4) P(2)
      by (subst keccak_blocks.simps) (simp add: absorb_eq KECCAK_ROUNDS_def P(1) [symmetric])
  qed
qed

lemma keccak_eq_sponge:
  assumes "keccak_rsiz mdlen = int r" "0 < r" "r \<le> 144" "mdlen \<le> 200"
  shows "keccak inp mdlen = Some (sponge r inp mdlen)"
proof -
  have "r div 8 \<le> 25"
    using div_le_mono [OF assms(3), of 8] by simp
  then show ?thesis
    using keccak_blocks_absorb [of r "replicate 25 0" inp] assms
    by (simp add: keccak_def sponge_def split: prod.splits)
qed

lemma keccak_rates: "keccak_rsiz 32 = int 136" "keccak_rsiz 200 = int 136"
  by (simp_all add: keccak_rsiz_def HASH_DATA_AREA_def)

lemma length_keccak_f [simp]: "length A = 25 \<Longrightarrow> length (keccak_f n A) = 25"
  by (induction n) (simp_all add: keccak_f_def keccak_f_round_def)

lemma length_absorb: "length A = 25 \<Longrightarrow> length (absorb r bs A) = 25"
  by (induction r bs A rule: absorb.induct) (subst absorb.simps; simp)

lemma length_sponge: "n \<le> 200 \<Longrightarrow> length (sponge r inp n) = n"
  by (simp add: sponge_def length_absorb)

text \<open>
  The in-place, unrolled permutation is Keccak-f: any number of rounds up to 24 on any
  state gives what the definition of the standard gives, lane by lane, with its rotation
  offsets and its shift-register round constants.
\<close>

theorem keccakf_is_keccak_f:
  assumes "length st = 25" "rounds \<le> 24"
  shows "keccakf st rounds = keccak_f rounds st"
  using keccakf_eq [OF assms] by blast

theorem keccakf_is_keccak_f_witness:
  "keccakf (replicate 25 7) 24 = keccak_f 24 (replicate 25 7)"
  by (rule keccakf_is_keccak_f) simp_all

text \<open>
  C38. \<open>keccak\<close> is the sponge at rate 136 on the padded message, for the two digest lengths the
  program uses, 32 bytes and the whole 200-byte state; it returns that many bytes for every
  message and never writes outside its block buffer.
\<close>

theorem keccak_is_sponge:
  "keccak inp 32 = Some (sponge 136 inp 32) \<and> keccak_state inp = Some (sponge 136 inp 200) \<and>
   length (sponge 136 inp 32) = 32 \<and> length (sponge 136 inp 200) = 200"
  using keccak_eq_sponge [OF keccak_rates(1)] keccak_eq_sponge [OF keccak_rates(2)]
  by (simp add: keccak_state_def length_sponge)

end
