(* ===== verification/Cvt.thy ===== *)
theory Cvt
  imports Prelude
begin

text \<open>
  Hexadecimal text, \<^verbatim>\<open>base/tools/Cvt.cpp\<close>: the branch-free encoder and decoder, on characters
  read as unsigned bytes, and the entry points built on them. The decoder is called with no
  ignored characters and no output pointers, as every caller in the file does. The lemmas say
  which digits it accepts, that it accepts exactly even non-empty digit strings that fit, and
  that decoding inverts encoding.
\<close>

subsection \<open>Encoding\<close>

definition hex_digit :: "u32 \<Rightarrow> u8" where
  "hex_digit c = ucast (87 + c + (drop_bit 8 (c - 10) AND NOT 38))"

text \<open>\<open>x\<close> packs both characters of a byte: the high nibble's in its low byte.\<close>

definition bin2hex_byte :: "u8 \<Rightarrow> bytes" where
  "bin2hex_byte v =
     (let c = ucast (v AND 0xf) :: u32; b = ucast (drop_bit 4 v) :: u32;
          x = push_bit 8 (ucast (hex_digit c) :: u32) OR ucast (hex_digit b)
      in [ucast x, ucast (drop_bit 8 x)])"

definition SIZE_MAX :: nat where "SIZE_MAX = 2 ^ 64 - 1"

text \<open>The text written, and whether a terminating zero follows it.\<close>

definition cvt_bin2hex :: "nat \<Rightarrow> bytes \<Rightarrow> (bytes \<times> bool) option" where
  "cvt_bin2hex hex_maxlen bin =
     (if SIZE_MAX div 2 \<le> length bin \<or> hex_maxlen < length bin * 2 then None
      else Some (concat (map bin2hex_byte bin), length bin * 2 < hex_maxlen))"

text \<open>\<open>String toHex(in, size)\<close>; the empty string stands for the null string.\<close>

definition Cvt_toHex :: "bytes \<Rightarrow> bytes" where
  "Cvt_toHex inp =
     (if inp = [] then []
      else case cvt_bin2hex (length inp * 2 + 1) inp of
        None \<Rightarrow> [] | Some (hex, terminated) \<Rightarrow> hex)"

subsection \<open>Decoding\<close>

definition hex_c_num :: "u8 \<Rightarrow> u8" where
  "hex_c_num c = c XOR 48"

definition hex_c_num0 :: "u8 \<Rightarrow> u8" where
  "hex_c_num0 c = ucast (drop_bit 8 ((ucast (hex_c_num c) :: u32) - 10))"

definition hex_c_alpha :: "u8 \<Rightarrow> u8" where
  "hex_c_alpha c = ucast (((ucast c :: u32) AND NOT 32) - 55)"

definition hex_c_alpha0 :: "u8 \<Rightarrow> u8" where
  "hex_c_alpha0 c = (let a = ucast (hex_c_alpha c) :: u32 in ucast (drop_bit 8 ((a - 10) XOR (a - 16))))"

definition hex_c_val :: "u8 \<Rightarrow> u8" where
  "hex_c_val c = (hex_c_num0 c AND hex_c_num c) OR (hex_c_alpha0 c AND hex_c_alpha c)"

text \<open>
  The loop: \<open>state\<close> is 0 before a high digit and 255 before a low one; \<open>None\<close> is a write
  outside \<open>bin\<close>. The result is the buffer, \<open>ret\<close>, the final \<open>state\<close> and the unread text.
\<close>

fun hex2bin_loop :: "nat \<Rightarrow> bytes \<Rightarrow> u8 \<Rightarrow> u8 \<Rightarrow> nat \<Rightarrow> bytes \<Rightarrow> (bytes \<times> int \<times> u8 \<times> bytes) option" where
  "hex2bin_loop bin_maxlen [] state c_acc bin_pos bin = Some (bin, 0, state, [])"
| "hex2bin_loop bin_maxlen (c # hex) state c_acc bin_pos bin =
     (if hex_c_num0 c OR hex_c_alpha0 c = 0 then Some (bin, 0, state, c # hex)
      else if bin_maxlen \<le> bin_pos then Some (bin, - 1, state, c # hex)
      else if state = 0 then
        hex2bin_loop bin_maxlen hex (NOT state) (hex_c_val c * 16) bin_pos bin
      else do { bin' \<leftarrow> wr bin bin_pos (c_acc OR hex_c_val c);
                hex2bin_loop bin_maxlen hex (NOT state) c_acc (Suc bin_pos) bin' })"

text \<open>
  An odd number of digits steps \<open>hex_pos\<close> back, so the text never counts as read to its end;
  \<open>ret\<close> is 0 exactly for a complete decoding.
\<close>

definition cvt_hex2bin :: "nat \<Rightarrow> bytes \<Rightarrow> bytes \<Rightarrow> (bytes \<times> int) option" where
  "cvt_hex2bin bin_maxlen hex bin =
     do { (bin, ret, state, rest) \<leftarrow> hex2bin_loop bin_maxlen hex 0 0 0 bin;
          let ret = (if state \<noteq> 0 then - 1 else ret);
          Some (bin, if rest \<noteq> [] then - 1 else ret) }"

definition buf_resize :: "bytes \<Rightarrow> nat \<Rightarrow> bytes" where
  "buf_resize buf n = take n buf @ replicate (n - length buf) 0"

definition fromHexImpl :: "bytes \<Rightarrow> bytes \<Rightarrow> (bool \<times> bytes) option" where
  "fromHexImpl buf inp =
     (if inp = [] then Some (False, buf)
      else do { let buf = buf_resize buf (length inp div 2);
                (buf, ret) \<leftarrow> cvt_hex2bin (length buf) inp buf;
                Some (ret = 0, buf) })"

text \<open>\<open>fromHex(bin, bin_maxlen, hex, hex_len)\<close> decodes over an existing buffer.\<close>

definition Cvt_fromHex_into :: "bytes \<Rightarrow> bytes \<Rightarrow> (bool \<times> bytes) option" where
  "Cvt_fromHex_into bin hex =
     (if hex = [] then Some (False, bin)
      else do { (bin, ret) \<leftarrow> cvt_hex2bin (length bin) hex bin; Some (ret = 0, bin) })"

definition Cvt_fromHex :: "bytes \<Rightarrow> bytes option" where
  "Cvt_fromHex inp = do { (ok, buf) \<leftarrow> fromHexImpl [] inp; Some (if ok then buf else []) }"

lemma hex2bin_loop_length:
  "hex2bin_loop m hex st acc pos bin = Some (bin', r) \<Longrightarrow> length bin' = length bin"
  by (induction m hex st acc pos bin rule: hex2bin_loop.induct)
    (auto split: if_splits bind_splits simp: wr_def)

lemma Cvt_fromHex_into_length: "Cvt_fromHex_into bin hex = Some (ok, bin') \<Longrightarrow> length bin' = length bin"
  by (auto simp: Cvt_fromHex_into_def cvt_hex2bin_def Let_def dest: hex2bin_loop_length
      split: if_splits bind_splits)

subsection \<open>The digits\<close>

text \<open>What the characters mean, independently of the code.\<close>

definition hex_value :: "u8 \<Rightarrow> nat option" where
  "hex_value c =
     (if 48 \<le> c \<and> c \<le> 57 then Some (unat c - 48)
      else if 97 \<le> c \<and> c \<le> 102 then Some (unat c - 87)
      else if 65 \<le> c \<and> c \<le> 70 then Some (unat c - 55)
      else None)"

definition hex_digit_ok :: "u8 \<Rightarrow> bool" where
  "hex_digit_ok c \<longleftrightarrow>
     (case hex_value c of
        None \<Rightarrow> hex_c_num0 c OR hex_c_alpha0 c = 0
      | Some v \<Rightarrow> hex_c_num0 c OR hex_c_alpha0 c \<noteq> 0 \<and> hex_c_val c = word_of_nat v)"

lemma all_bytes: "list_all (\<lambda>i. P (word_of_int i)) [0..255] \<Longrightarrow> P (c :: u8)"
proof -
  assume a: "list_all (\<lambda>i. P (word_of_int i)) [0..255]"
  have "uint c \<in> set [0..255]"
    using uint_bounded [of c] uint_nonnegative [of c] by simp
  then show "P c"
    using a by (metis list_all_iff word_of_int_uint)
qed

lemma hex_digit_ok: "hex_digit_ok c"
  by (rule all_bytes) code_simp

lemma hex_digit_reject: "hex_c_num0 c OR hex_c_alpha0 c = 0 \<longleftrightarrow> hex_value c = None"
  using hex_digit_ok [of c] by (auto simp: hex_digit_ok_def split: option.splits)

lemma hex_c_val_eq: "hex_value c = Some v \<Longrightarrow> hex_c_val c = word_of_nat v"
  using hex_digit_ok [of c] by (simp add: hex_digit_ok_def)

subsection \<open>Decoding against its specification\<close>

fun hex_decode :: "bytes \<Rightarrow> bytes option" where
  "hex_decode [] = Some []"
| "hex_decode [c] = None"
| "hex_decode (c # d # cs) =
     do { v \<leftarrow> hex_value c; w \<leftarrow> hex_value d; bs \<leftarrow> hex_decode cs;
          Some (word_of_nat (16 * v + w) # bs) }"

lemma hex_value_less: "hex_value c = Some v \<Longrightarrow> v < 16"
  by (auto simp: hex_value_def word_le_nat_alt split: if_splits)

lemma nibbles_table:
  "list_all (\<lambda>v. list_all (\<lambda>w. (word_of_nat v * 16 OR word_of_nat w :: u8) = word_of_nat (16 * v + w))
     [0..<16]) [0..<16]"
  by code_simp

lemma nibbles_join:
  "v < 16 \<Longrightarrow> w < 16 \<Longrightarrow> (word_of_nat v * 16 OR word_of_nat w :: u8) = word_of_nat (16 * v + w)"
  using nibbles_table unfolding list_all_iff by (metis atLeastLessThan_upt atLeastLessThan_iff zero_le)

lemma hex_decode_length: "hex_decode cs = Some bs \<Longrightarrow> length cs = 2 * length bs"
  by (induction cs arbitrary: bs rule: hex_decode.induct) (auto split: bind_splits)

definition hex2bin_complete :: "bytes \<times> int \<times> u8 \<times> bytes \<Rightarrow> bool" where
  "hex2bin_complete r = (case r of (bin, ret, st, rest) \<Rightarrow> ret = 0 \<and> st = 0 \<and> rest = [])"

lemma hex2bin_loop_spec:
  assumes "pos \<le> length bin"
  shows "\<exists>r. hex2bin_loop (length bin) hex 0 acc pos bin = Some r \<and>
    (if \<exists>bs. hex_decode hex = Some bs \<and> pos + length bs \<le> length bin
     then hex2bin_complete r \<and> fst r = take pos bin @ the (hex_decode hex) @
       drop (pos + length (the (hex_decode hex))) bin
     else \<not> hex2bin_complete r)"
  using assms
proof (induction hex arbitrary: pos bin acc rule: hex_decode.induct)
  case 1
  then show ?case by (simp add: hex2bin_complete_def)
next
  case (2 c)
  then show ?case by (auto simp: hex2bin_complete_def)
next
  case (3 c d cs)
  show ?case
  proof (cases "hex_value c = None \<or> length bin \<le> pos \<or> hex_value d = None")
    case True
    then show ?thesis
      by (cases "hex_value c"; cases "hex_value d"; cases "length bin \<le> pos")
        (auto simp: hex2bin_complete_def hex_digit_reject split: bind_splits)
  next
    case False
    then obtain v w where vw: "hex_value c = Some v" "hex_value d = Some w" and pos: "pos < length bin"
      by auto
    let ?b = "word_of_nat (16 * v + w) :: u8"
    have val: "hex_c_val c * 16 OR hex_c_val d = ?b"
      using vw hex_value_less by (simp add: hex_c_val_eq nibbles_join)
    have run: "hex2bin_loop (length bin) (c # d # cs) 0 acc pos bin =
        hex2bin_loop (length (bin[pos := ?b])) cs 0 (hex_c_val c * 16) (Suc pos) (bin[pos := ?b])"
      using pos vw val by (simp add: hex_digit_reject wr_def)
    show ?thesis
      unfolding run using 3(1) [OF vw, of "Suc pos" "bin[pos := ?b]" "hex_c_val c * 16"] pos vw
      by (auto simp: take_Suc_conv_app_nth split: if_splits bind_splits)
  qed
qed

lemma cvt_hex2bin_spec:
  "\<exists>bin' ret. cvt_hex2bin (length bin) hex bin = Some (bin', ret) \<and>
    (ret = 0 \<longleftrightarrow> (\<exists>bs. hex_decode hex = Some bs \<and> length bs \<le> length bin)) \<and>
    (ret = 0 \<longrightarrow> bin' = the (hex_decode hex) @ drop (length (the (hex_decode hex))) bin)"
  using hex2bin_loop_spec [of 0 bin hex 0]
  by (auto simp: cvt_hex2bin_def hex2bin_complete_def split: if_splits prod.splits)

lemma fromHexImpl_spec:
  assumes "inp \<noteq> []"
  shows "\<exists>out. fromHexImpl buf inp = Some (hex_decode inp \<noteq> None, out) \<and>
    (\<forall>bs. hex_decode inp = Some bs \<longrightarrow> out = bs)"
proof -
  let ?b = "buf_resize buf (length inp div 2)"
  have len: "length ?b = length inp div 2" by (simp add: buf_resize_def)
  have fits: "length bs = length inp div 2" if "hex_decode inp = Some bs" for bs
    using hex_decode_length [OF that] by simp
  show ?thesis
    using cvt_hex2bin_spec [of ?b inp] assms fits len
    by (cases "hex_decode inp") (auto simp: fromHexImpl_def Let_def)
qed

lemma Cvt_fromHex_eq:
  "inp \<noteq> [] \<Longrightarrow> Cvt_fromHex inp = Some (case hex_decode inp of None \<Rightarrow> [] | Some bs \<Rightarrow> bs)"
  using fromHexImpl_spec [of inp "[]"] by (auto simp: Cvt_fromHex_def split: option.splits)

text \<open>Decoding in place leaves the bytes after the decoded ones alone.\<close>

lemma Cvt_fromHex_into_spec:
  assumes "hex \<noteq> []" "hex_decode hex = Some bs" "length bs \<le> length bin"
  shows "Cvt_fromHex_into bin hex = Some (True, bs @ drop (length bs) bin)"
  using cvt_hex2bin_spec [of bin hex] assms by (auto simp: Cvt_fromHex_into_def)

lemma Cvt_fromHex_into_total: "\<exists>ok bin'. Cvt_fromHex_into bin hex = Some (ok, bin')"
  using cvt_hex2bin_spec [of bin hex] by (auto simp: Cvt_fromHex_into_def)

lemma Cvt_fromHex_into_True:
  assumes "Cvt_fromHex_into bin hex = Some (True, bin')"
  shows "hex \<noteq> [] \<and> (\<exists>bs. hex_decode hex = Some bs \<and> length bs \<le> length bin \<and>
    bin' = bs @ drop (length bs) bin)"
  using cvt_hex2bin_spec [of bin hex] assms
  by (auto simp: Cvt_fromHex_into_def split: if_splits bind_splits)

subsection \<open>Encoding\<close>

lemma bin2hex_byte_eq:
  "bin2hex_byte v = [hex_digit (ucast (drop_bit 4 v)), hex_digit (ucast (v AND 0xf))]"
proof -
  have "ucast (push_bit 8 (ucast (c :: u8) :: u32) OR ucast (b :: u8)) = b"
    "ucast (drop_bit 8 (push_bit 8 (ucast c :: u32) OR ucast b)) = c" for b c
    by (rule bit_word_eqI; auto simp: bit_simps dest: bit_imp_le_length)+
  then show ?thesis
    by (simp only: bin2hex_byte_def Let_def)
qed

lemma hex_digit_table:
  "list_all (\<lambda>n. hex_value (hex_digit (word_of_nat n)) = Some n) [0..<16]"
  by code_simp

lemma hex_value_digit: "unat (c :: u32) < 16 \<Longrightarrow> hex_value (hex_digit c) = Some (unat c)"
proof -
  assume "unat c < 16"
  then have "hex_value (hex_digit (word_of_nat (unat c))) = Some (unat c)"
    using hex_digit_table by (simp only: list_all_iff set_upt atLeastLessThan_iff zero_le simp_thms Ball_def)
  then show ?thesis by simp
qed

lemma bin2hex_byte_digits:
  "\<exists>a b. bin2hex_byte v = [a, b] \<and> hex_value a = Some (unat v div 16) \<and>
     hex_value b = Some (unat v mod 16)"
proof -
  have "unat (ucast (drop_bit 4 v) :: u32) = unat v div 16"
    using unat_u8_less [of v]
    by (simp add: unsigned_ucast_eq unat_drop_bit_eq drop_bit_eq_div [of 4 "unat v"]
        take_bit_nat_eq_self_iff less_imp_diff_less div_less)
  moreover have "unat (ucast (v AND 0xf) :: u32) = unat v mod 16"
  proof -
    have "v AND 0xf = take_bit 4 v"
      by (simp add: take_bit_eq_mask mask_eq_exp_minus_1)
    then show ?thesis
      using unat_take_bit [of 4 v] by (simp add: unsigned_ucast_eq take_bit_nat_eq_self_iff)
  qed
  moreover have "unat v div 16 < 16"
    using unat_u8_less [of v] by simp
  ultimately show ?thesis
    by (simp add: bin2hex_byte_eq hex_value_digit)
qed

lemma hex_decode_bin2hex: "hex_decode (concat (map bin2hex_byte xs)) = Some xs"
proof (induction xs)
  case (Cons v xs)
  obtain a b where "bin2hex_byte v = [a, b]" "hex_value a = Some (unat v div 16)"
    "hex_value b = Some (unat v mod 16)"
    using bin2hex_byte_digits by blast
  moreover have v: "(word_of_nat (16 * (unat v div 16) + unat v mod 16) :: u8) = v"
    by (simp only: mult_div_mod_eq) simp
  ultimately show ?case
    using Cons by (simp del: of_nat_add of_nat_mult)
qed simp

lemma hex_decode_toHex:
  assumes "xs \<noteq> []" "2 * length xs < 2 ^ 64 - 2"
  shows "hex_decode (Cvt_toHex xs) = Some xs" and "Cvt_toHex xs \<noteq> []"
proof -
  have "Cvt_toHex xs = concat (map bin2hex_byte xs)"
    using assms by (simp add: Cvt_toHex_def cvt_bin2hex_def SIZE_MAX_def)
  then show "hex_decode (Cvt_toHex xs) = Some xs" by (simp only: hex_decode_bin2hex)
  then show "Cvt_toHex xs \<noteq> []" using assms(1) by auto
qed

text \<open>
  Decoding the hexadecimal text of any non-empty buffer gives the buffer back.
\<close>

theorem hex_roundtrip:
  assumes "xs \<noteq> []" "2 * length xs < 2 ^ 64 - 2"
  shows "Cvt_fromHex (Cvt_toHex xs) = Some xs"
  using hex_decode_toHex [OF assms] by (simp add: Cvt_fromHex_eq)

theorem hex_roundtrip_witness: "Cvt_fromHex (Cvt_toHex [0, 255, 0x1c]) = Some [0, 255, 0x1c]"
  by (rule hex_roundtrip) simp_all

text \<open>
  The branch-free decoder accepts exactly the even-length texts of hexadecimal digits and
  then returns the bytes they spell, whatever the destination buffer held; every other text is
  refused with the error result, without a write outside the buffer.
\<close>

theorem hex_decoder_is_specification:
  assumes "inp \<noteq> []"
  shows "\<exists>out. fromHexImpl buf inp = Some (hex_decode inp \<noteq> None, out) \<and>
    (\<forall>bs. hex_decode inp = Some bs \<longrightarrow> out = bs)"
  by (rule fromHexImpl_spec [OF assms])

theorem hex_decoder_is_specification_witness:
  "\<exists>out. fromHexImpl [7] [97, 70, 48, 57] = Some (hex_decode [97, 70, 48, 57] \<noteq> None, out) \<and>
    (\<forall>bs. hex_decode [97, 70, 48, 57] = Some bs \<longrightarrow> out = bs)"
  by (rule hex_decoder_is_specification) simp

end
