(* ===== verification/BlockTemplate.thy ===== *)
theory BlockTemplate
  imports BlobReader KeccakProps Cvt
begin

text \<open>
  Block templates, \<^verbatim>\<open>base/tools/cryptonote/BlockTemplate.h\<close> and \<^verbatim>\<open>BlockTemplate.cpp\<close>: parsing a
  template, the hash of the miner transaction, the Merkle tree with the branch of the miner
  transaction, and the hashing blob. The bounds test of the reader is a parameter of the parser
  (\<open>exceeds_wrapping\<close> is the code's). The loop over the extra field may run for ever, so the
  parser is partial: \<open>None\<close> is a parse that does not return. Allocating more than \<open>max_alloc\<close>
  bytes throws.
\<close>

definition kHashSize :: nat where "kHashSize = 32"
definition kKeySize :: nat where "kKeySize = 32"
definition kNonceSize :: nat where "kNonceSize = 4"
definition kSignatureSize :: nat where "kSignatureSize = 64"
definition kMinSize :: nat where "kMinSize = 76"

lemmas template_consts = kHashSize_def kKeySize_def kNonceSize_def kSignatureSize_def kMinSize_def

datatype coin = COIN_INVALID | MONERO | ARQMA | GRAFT | WOWNERO | ZEPHYR | TOWNFORGE | YADA

subsection \<open>State\<close>

text \<open>The array \<open>m_offsets\<close> has a field per value of \<open>enum Offset\<close>.\<close>

record template =
  t_blob :: bytes
  t_coin :: coin
  o_nonce :: u32
  o_miner_tx_prefix :: u32
  o_miner_tx_prefix_end :: u32
  o_eph_public_key :: u32
  o_tx_extra :: u32
  o_tx_pubkey :: u32
  o_tx_extra_nonce :: u32
  o_tx_extra_merge_mining_tag :: u32
  t_version :: "u8 \<times> u8"
  t_timestamp :: u64
  t_prevId :: span
  t_minerSignature :: span
  t_vote :: bytes
  t_txVersion :: u64
  t_unlockTime :: u64
  t_numInputs :: u64
  t_inputType :: u8
  t_height :: u64
  t_numOutputs :: u64
  t_amount :: u64
  t_outputType :: u8
  t_ephPublicKey :: span
  t_viewTag :: u8
  t_extraSize :: u64
  t_txExtraNonce :: span
  t_txMergeMiningTag :: span
  t_numHashes :: u64
  t_hashes :: bytes
  t_minerTxMerkleTreeBranch :: bytes
  t_minerTxMerkleTreePath :: u32
  t_rootHash :: bytes
  t_carrotViewTag :: bytes
  t_janusAnchor :: bytes
  t_FCMPTreeLayers :: u8
  t_FCMPTreeRoot :: bytes

definition new_template :: template where
  "new_template = \<lparr> t_blob = [], t_coin = COIN_INVALID, o_nonce = 0, o_miner_tx_prefix = 0,
     o_miner_tx_prefix_end = 0, o_eph_public_key = 0, o_tx_extra = 0, o_tx_pubkey = 0,
     o_tx_extra_nonce = 0, o_tx_extra_merge_mining_tag = 0, t_version = (0, 0), t_timestamp = 0,
     t_prevId = (0, 0), t_minerSignature = (0, 0), t_vote = replicate 2 0, t_txVersion = 0,
     t_unlockTime = 0, t_numInputs = 0, t_inputType = 0, t_height = 0, t_numOutputs = 0, t_amount = 0,
     t_outputType = 0, t_ephPublicKey = (0, 0), t_viewTag = 0, t_extraSize = 0, t_txExtraNonce = (0, 0),
     t_txMergeMiningTag = (0, 0), t_numHashes = 0, t_hashes = [], t_minerTxMerkleTreeBranch = [],
     t_minerTxMerkleTreePath = 0, t_rootHash = replicate 32 0, t_carrotViewTag = replicate 3 0,
     t_janusAnchor = replicate 16 0, t_FCMPTreeLayers = 0, t_FCMPTreeRoot = replicate 32 0 \<rparr>"

definition majorVersion :: "template \<Rightarrow> u8" where
  "majorVersion t = fst (t_version t)"

text \<open>\<open>setOffset\<close> stores the low 32 bits.\<close>

definition off32 :: "u64 \<Rightarrow> u32" where
  "off32 v = ucast v"

subsection \<open>Hashes\<close>

text \<open>\<open>keccak(in, n, md, kHashSize)\<close>, which always succeeds.\<close>

definition khash :: "bytes \<Rightarrow> bytes" where
  "khash inp = the (keccak inp kHashSize)"

definition known_second_hash :: bytes where
  "known_second_hash = [188,54,120,158,122,30,40,20,54,70,66,41,130,143,129,125,102,18,247,180,119,
     214,101,145,255,150,169,224,100,188,201,138]"

definition calculateMinerTxHash :: "bytes \<Rightarrow> bytes" where
  "calculateMinerTxHash prefix = khash (khash prefix @ known_second_hash @ replicate kHashSize 0)"

text \<open>Entry \<open>i\<close> of a buffer of hashes.\<close>

definition hash_at :: "bytes \<Rightarrow> nat \<Rightarrow> bytes option" where
  "hash_at h i = get_bytes h (kHashSize * i) kHashSize"

text \<open>One level: \<open>t\<close> is the side of the running hash.\<close>

definition root_step :: "u32 \<Rightarrow> bytes \<Rightarrow> bytes \<Rightarrow> bytes" where
  "root_step t branch h = khash (if t = 0 then h @ branch else branch @ h)"

text \<open>A shift of the 32-bit path by 32 or more is undefined.\<close>

function root_loop :: "nat \<Rightarrow> nat \<Rightarrow> bytes \<Rightarrow> u32 \<Rightarrow> bytes \<Rightarrow> bytes option" where
  "root_loop d depth branch path h =
     (if d < depth then
        if 32 \<le> depth - d - 1 then None
        else case hash_at branch d of
            None \<Rightarrow> None
          | Some b \<Rightarrow>
              root_loop (Suc d) depth branch path (root_step (drop_bit (depth - d - 1) path AND 1) b h)
      else Some h)"
  by pat_completeness auto
termination by (relation "measure (\<lambda>(d, depth, b, p, h). depth - d)") auto

declare root_loop.simps [simp del]

definition calculateRootHash :: "bytes \<Rightarrow> bytes \<Rightarrow> u32 \<Rightarrow> bytes option" where
  "calculateRootHash prefix branch path =
     root_loop 0 (length branch div kHashSize) branch path (calculateMinerTxHash prefix)"

subsection \<open>The Merkle tree\<close>

text \<open>The hash followed through the levels, the branch collected and the path.\<close>

type_synonym proof_state = "bytes \<times> bytes \<times> u32"

text \<open>\<open>do cnt <<= 1; while (cnt <= count); cnt >>= 1\<close>.\<close>

function tree_cnt_loop :: "nat \<Rightarrow> nat \<Rightarrow> nat" where
  "tree_cnt_loop cnt count = (if 0 < cnt \<and> 2 * cnt \<le> count then tree_cnt_loop (2 * cnt) count else 2 * cnt)"
  by pat_completeness auto
termination by (relation "measure (\<lambda>(cnt, count). count - cnt)") auto

declare tree_cnt_loop.simps [simp del]

definition tree_cnt :: "nat \<Rightarrow> nat" where
  "tree_cnt count = tree_cnt_loop 1 count div 2"

text \<open>The first pass hashes pairs of leaves from \<open>k\<close> on; a match sets the path to 1 or leaves it.\<close>

function first_pass ::
  "bytes \<Rightarrow> nat \<Rightarrow> nat \<Rightarrow> nat \<Rightarrow> bytes \<times> proof_state \<Rightarrow> (bytes \<times> proof_state) option" where
  "first_pass h cnt i j (ints, h2, branch, path) =
     (if j < cnt then
        do { a \<leftarrow> hash_at h i; b \<leftarrow> hash_at h (i + 1);
             let n = khash (a @ b);
             ints \<leftarrow> put_bytes ints (kHashSize * j) n;
             first_pass h cnt (i + 2) (Suc j)
               (ints, if a = h2 then (n, branch @ b, path)
                      else if b = h2 then (n, branch @ a, 1)
                      else (h2, branch, path)) }
      else Some (ints, h2, branch, path))"
  by pat_completeness auto
termination by (relation "measure (\<lambda>(h, cnt, i, j, s). cnt - j)") auto

declare first_pass.simps [simp del]

text \<open>A later pass, in place: pairs of \<open>ints\<close> are hashed into its first half.\<close>

function next_pass :: "nat \<Rightarrow> nat \<Rightarrow> nat \<Rightarrow> bytes \<times> proof_state \<Rightarrow> (bytes \<times> proof_state) option" where
  "next_pass cnt i j (ints, h2, branch, path) =
     (if j < cnt then
        do { a \<leftarrow> hash_at ints i; b \<leftarrow> hash_at ints (i + 1);
             let n = khash (a @ b);
             ints \<leftarrow> put_bytes ints (kHashSize * j) n;
             next_pass cnt (i + 2) (Suc j)
               (ints, if a = h2 then (n, branch @ b, push_bit 1 path)
                      else if b = h2 then (n, branch @ a, push_bit 1 path OR 1)
                      else (h2, branch, path)) }
      else Some (ints, h2, branch, path))"
  by pat_completeness auto
termination by (relation "measure (\<lambda>(cnt, i, j, s). cnt - j)") auto

declare next_pass.simps [simp del]

function passes :: "nat \<Rightarrow> bytes \<times> proof_state \<Rightarrow> (bytes \<times> proof_state) option" where
  "passes cnt s =
     (if 2 \<le> cnt then
        case next_pass (cnt div 2) 0 0 s of None \<Rightarrow> None | Some s' \<Rightarrow> passes (cnt div 2) s'
      else Some s)"
  by pat_completeness auto
termination by (relation "measure fst") auto

declare passes.simps [simp del]

text \<open>Branch, path and root of the tree over the hashes in \<open>h\<close>, for the leaf at \<open>index\<close>.\<close>

definition merkle_tree :: "bytes \<Rightarrow> nat \<Rightarrow> (bytes \<times> u32 \<times> bytes) option" where
  "merkle_tree h index =
     (let count = length h div kHashSize in
      if count = 1 then do { r \<leftarrow> hash_at h 0; Some ([], 0, r) }
      else if count = 2 then
        do { a \<leftarrow> hash_at h 0; b \<leftarrow> hash_at h 1; s \<leftarrow> hash_at h (index XOR 1);
             Some (s, of_nat index, khash (a @ b)) }
      else
        do { h2 \<leftarrow> hash_at h index;
             let cnt = tree_cnt count;
             let k = cnt * 2 - count;
             leaves \<leftarrow> get_bytes h 0 (k * kHashSize);
             ints \<leftarrow> put_bytes (replicate (cnt * kHashSize) 0) 0 leaves;
             s \<leftarrow> first_pass h cnt k k (ints, h2, [], 0);
             (ints, h2, branch, path) \<leftarrow> passes cnt s;
             root \<leftarrow> hash_at ints 0;
             Some (branch, path, root) })"

definition calculateMerkleTreeHash :: "nat \<Rightarrow> template \<Rightarrow> template option" where
  "calculateMerkleTreeHash index t =
     do { (branch, path, root) \<leftarrow> merkle_tree (t_hashes t) index;
          Some (t\<lparr>t_minerTxMerkleTreeBranch := branch, t_minerTxMerkleTreePath := path, t_rootHash := root\<rparr>) }"

end
