(* ===== verification/MerkleTree.thy ===== *)
theory MerkleTree
  imports BlockTemplate
begin

text \<open>
  The Merkle tree of a template: the root is computed for every non-empty list of hashes, and
  folding the branch onto the leaf gives the same root.
\<close>

subsection \<open>The buffers of hashes\<close>

definition hashes :: "nat \<Rightarrow> bytes \<Rightarrow> bool" where
  "hashes n h \<longleftrightarrow> length h = kHashSize * n"

lemma khash_length [simp]: "length (khash m) = kHashSize"
  using keccak_eq_sponge [OF keccak_rates(1)] by (simp add: khash_def kHashSize_def length_sponge)

lemma hash_at_Some: "hashes n h \<Longrightarrow> i < n \<Longrightarrow> \<exists>a. hash_at h i = Some a \<and> length a = kHashSize"
  by (auto simp: hashes_def hash_at_def get_bytes_def kHashSize_def)

lemma hash_at_length: "hash_at h i = Some a \<Longrightarrow> length a = kHashSize"
  by (auto simp: hash_at_def get_bytes_def split: if_splits)

lemma hash_at_append: "hashes n h \<Longrightarrow> i < n \<Longrightarrow> hash_at (h @ b) i = hash_at h i"
  by (auto simp: hashes_def hash_at_def get_bytes_def kHashSize_def)

lemma hash_at_snoc: "hashes n h \<Longrightarrow> length b = kHashSize \<Longrightarrow> hash_at (h @ b) n = Some b"
  by (auto simp: hashes_def hash_at_def get_bytes_def kHashSize_def)

lemma put_hash_at:
  assumes "hashes n h" "j < n" "length b = kHashSize"
  obtains h' where "put_bytes h (kHashSize * j) b = Some h'" "hashes n h'"
    "\<And>p. p < n \<Longrightarrow> hash_at h' p = (if p = j then Some b else hash_at h p)"
proof -
  let ?h = "take (kHashSize * j) h @ b @ drop (kHashSize * j + length b) h"
  have le: "kHashSize * j + kHashSize \<le> length h"
    using assms(1,2) by (simp add: hashes_def kHashSize_def)
  have "hashes n ?h"
    using assms(1,3) le by (simp add: hashes_def)
  moreover have "hash_at ?h p = (if p = j then Some b else hash_at h p)" if "p < n" for p
  proof -
    consider "p < j" | "p = j" | "j < p" by linarith
    then show ?thesis
    proof cases
      case 1
      then have "kHashSize \<le> kHashSize * j - kHashSize * p" "kHashSize \<le> length h - kHashSize * p"
        using le by (simp_all add: kHashSize_def)
      then show ?thesis
        using 1 le assms(3) by (simp add: hash_at_def get_bytes_def drop_take min_def) (auto simp: kHashSize_def)
    next
      case 2
      then show ?thesis
        using le assms(3) by (simp add: hash_at_def get_bytes_def min_def) (simp add: kHashSize_def)
    next
      case 3
      then have "kHashSize * j + kHashSize \<le> kHashSize * p" "kHashSize * p + kHashSize \<le> length h"
        using assms(1) that by (simp_all add: kHashSize_def hashes_def)
      then show ?thesis
        using 3 le assms(3) by (simp add: hash_at_def get_bytes_def min_def) (auto simp: kHashSize_def)
    qed
  qed
  ultimately show thesis
    using that [of ?h] le assms(3) by (simp add: put_bytes_def)
qed

subsection \<open>Folding a branch\<close>

lemma root_loop_snoc:
  assumes "root_loop d depth br p h = Some h2" "hashes depth br" "length b = kHashSize" "depth < 32"
    "drop_bit 1 q = p" "d \<le> depth"
  shows "root_loop d (Suc depth) (br @ b) q h = Some (root_step (q AND 1) b h2)"
  using assms
proof (induction d depth br p h rule: root_loop.induct)
  case (1 d depth br p h)
  show ?case
  proof (cases "d < depth")
    case False
    then show ?thesis
      using 1(2-7) hash_at_snoc [OF 1(3,4)]
      by (subst root_loop.simps, subst root_loop.simps) (simp add: root_loop.simps [of d depth])
  next
    case True
    obtain c where c: "hash_at br d = Some c" using hash_at_Some [OF 1(3) True] by blast
    have bits: "drop_bit (depth - d) q = drop_bit (depth - Suc d) p"
      using Suc_diff_Suc [OF True] by (simp add: drop_bit_drop_bit flip: 1(6))
    have small: "\<not> 32 \<le> depth - Suc d" using 1(5) by simp
    have "root_loop (Suc d) depth br p (root_step (drop_bit (depth - d - 1) p AND 1) c h) = Some h2"
      using 1(2) True small by (subst (asm) root_loop.simps) (simp add: c)
    then have "root_loop (Suc d) (Suc depth) (br @ b) q (root_step (drop_bit (depth - d - 1) p AND 1) c h) =
        Some (root_step (q AND 1) b h2)"
      using 1(1) [OF True _ c] 1(2-7) True by simp
    then show ?thesis
      using True 1(5) by (subst root_loop.simps) (auto simp: hash_at_append [OF 1(3) True] c bits)
  qed
qed

definition folds_to :: "bytes \<Rightarrow> proof_state \<Rightarrow> bool" where
  "folds_to h0 s \<longleftrightarrow> (case s of (h2, br, p) \<Rightarrow> \<exists>n. hashes n br \<and>
     (n \<le> 32 \<longrightarrow> root_loop 0 n br p h0 = Some h2 \<and> (\<forall>i. bit p i \<longrightarrow> i < n)))"

lemma folds_to_step:
  assumes "folds_to h0 (h2, br, p)" "length b = kHashSize" "c = 0 \<or> c = 1"
  shows "folds_to h0 (root_step c b h2, br @ b, push_bit 1 p OR c)"
proof -
  obtain n where n: "hashes n br" "n \<le> 32 \<Longrightarrow> root_loop 0 n br p h0 = Some h2"
      "n \<le> 32 \<Longrightarrow> \<forall>i. bit p i \<longrightarrow> i < n"
    using assms(1) by (auto simp: folds_to_def)
  let ?q = "push_bit 1 p OR c"
  have "root_loop 0 (Suc n) (br @ b) ?q h0 = Some (root_step c b h2) \<and> (\<forall>i. bit ?q i \<longrightarrow> i < Suc n)"
    if "Suc n \<le> 32"
  proof -
    have bits: "\<forall>i. bit p i \<longrightarrow> i < n" and root: "root_loop 0 n br p h0 = Some h2"
      using n(2,3) that by simp_all
    have push: "bit (push_bit 1 p) i \<longleftrightarrow> 1 \<le> i \<and> i < 32 \<and> bit p (i - 1)" for i
      by (simp only: bit_push_bit_iff) auto
    have "drop_bit 1 ?q = p"
    proof (rule bit_word_eqI)
      fix i assume "i < LENGTH(32)"
      then show "bit (drop_bit 1 ?q) i = bit p i"
        using assms(3) bits that by (auto simp only: bit_drop_bit_eq bit_or_iff push o_def bit_0 bit_1_iff) auto
    qed
    moreover have "?q AND 1 = c"
    proof (rule bit_word_eqI)
      fix i assume "i < LENGTH(32)"
      then show "bit (?q AND 1) i = bit c i"
        using assms(3) by (auto simp only: bit_and_iff bit_or_iff push bit_0 bit_1_iff) auto
    qed
    moreover have "\<forall>i. bit ?q i \<longrightarrow> i < Suc n"
      using assms(3) bits by (auto simp only: bit_or_iff push bit_0 bit_1_iff) auto
    ultimately show ?thesis
      using root_loop_snoc [OF root n(1) assms(2)] that by simp
  qed
  moreover have "hashes (Suc n) (br @ b)"
    using n(1) assms(2) by (simp add: hashes_def kHashSize_def)
  ultimately show ?thesis by (auto simp: folds_to_def)
qed

lemma folds_to_pair:
  assumes "folds_to h0 (h2, br, p)" "length a = kHashSize" "length b = kHashSize"
  shows "h2 = a \<Longrightarrow> folds_to h0 (khash (a @ b), br @ b, push_bit 1 p)"
    and "h2 = b \<Longrightarrow> folds_to h0 (khash (a @ b), br @ a, push_bit 1 p OR 1)"
  using folds_to_step [OF assms(1,3), of 0] folds_to_step [OF assms(1,2), of 1]
  by (simp_all add: root_step_def)

subsection \<open>The passes\<close>

text \<open>
  The followed hash stands either in the part of the buffer already written or among the pairs
  still to be read.
\<close>

definition followed :: "bytes \<Rightarrow> bytes \<Rightarrow> nat \<Rightarrow> nat \<Rightarrow> nat \<Rightarrow> bytes \<Rightarrow> bool" where
  "followed src ints i j n h2 \<longleftrightarrow>
     (\<exists>p < j. hash_at ints p = Some h2) \<or> (\<exists>p. i \<le> p \<and> p < n \<and> hash_at src p = Some h2)"

lemma next_pass_correct:
  assumes "hashes N ints" "i = 2 * j" "j \<le> cnt" "2 * cnt \<le> N"
    "followed ints ints i j (2 * cnt) h2" "folds_to h0 (h2, br, p)"
  shows "\<exists>ints' h2' br' p'. next_pass cnt i j (ints, h2, br, p) = Some (ints', h2', br', p') \<and>
    hashes N ints' \<and> followed ints' ints' 0 cnt 0 h2' \<and> folds_to h0 (h2', br', p')"
  using assms
proof (induction cnt i j "(ints, h2, br, p)" arbitrary: ints h2 br p rule: next_pass.induct)
  case (1 cnt i j ints h2 br p)
  show ?case
  proof (cases "j < cnt")
    case False
    then show ?thesis
      using 1(2-7) by (subst next_pass.simps) (auto simp: followed_def)
  next
    case True
    have ij: "i < N" "i + 1 < N" "j < N" using True 1(3,5) by simp_all
    obtain a b where ab: "hash_at ints i = Some a" "hash_at ints (i + 1) = Some b"
      "length a = kHashSize" "length b = kHashSize"
      using hash_at_Some [OF 1(2) ij(1)] hash_at_Some [OF 1(2) ij(2)] by blast
    let ?n = "khash (a @ b)"
    obtain ints' where put: "put_bytes ints (kHashSize * j) ?n = Some ints'" "hashes N ints'"
      "\<And>q. q < N \<Longrightarrow> hash_at ints' q = (if q = j then Some ?n else hash_at ints q)"
      using put_hash_at [OF 1(2) ij(3), of ?n] by auto
    let ?s = "if a = h2 then (?n, br @ b, push_bit 1 p)
              else if b = h2 then (?n, br @ a, push_bit 1 p OR 1) else (h2, br, p)"
    obtain h2' br' p' where s: "?s = (h2', br', p')" by (cases "?s") auto
    have fold: "folds_to h0 (h2', br', p')"
      using 1(7) s folds_to_pair [OF 1(7) ab(3,4)] by (auto split: if_splits)
    have "followed ints' ints' (i + 2) (Suc j) (2 * cnt) h2'"
    proof (cases "h2' = ?n")
      case True
      then have "hash_at ints' j = Some h2'" using put(3) ij(3) by simp
      then show ?thesis unfolding followed_def by blast
    next
      case False
      then have ne: "a \<noteq> h2" "b \<noteq> h2" "h2' = h2" using s by (auto split: if_splits)
      from 1(6) consider q where "q < j" "hash_at ints q = Some h2"
        | q where "i \<le> q" "q < 2 * cnt" "hash_at ints q = Some h2"
        unfolding followed_def by blast
      then show ?thesis
      proof cases
        case 1
        then have "hash_at ints' q = Some h2'" using put(3) [of q] ij(3) ne by simp
        then show ?thesis unfolding followed_def using 1(1) less_SucI by blast
      next
        case 2
        have "q \<noteq> i" "q \<noteq> i + 1" using 2(3) ab(1,2) ne by auto
        then have "i + 2 \<le> q" using 2(1) by simp
        moreover have "hash_at ints' q = Some h2'"
          using put(3) [of q] 2 ne 1(3,5) \<open>i + 2 \<le> q\<close> by simp
        ultimately show ?thesis unfolding followed_def using 2(2) by blast
      qed
    qed
    note IH = 1(1) [OF True ab(1,2) refl put(1) s put(2) _ _ 1(5) this fold]
    have "next_pass cnt i j (ints, h2, br, p) = next_pass cnt (i + 2) (Suc j) (ints', h2', br', p')"
      using True by (subst next_pass.simps) (simp add: ab(1) ab(2) [simplified] put(1) s Let_def)
    then show ?thesis
      using IH 1(3) True by simp
  qed
qed

lemma passes_correct:
  assumes "hashes N ints" "c \<le> N" "c = 2 ^ l" "followed ints ints 0 c 0 h2" "folds_to h0 (h2, br, p)"
  shows "\<exists>ints' h2' br' p'. passes c (ints, h2, br, p) = Some (ints', h2', br', p') \<and>
    hash_at ints' 0 = Some h2' \<and> folds_to h0 (h2', br', p')"
  using assms
proof (induction l arbitrary: c ints h2 br p)
  case 0
  then show ?case
    by (subst passes.simps) (auto simp: followed_def)
next
  case (Suc l)
  have c: "c = 2 * 2 ^ l" "c div 2 = 2 ^ l" "2 \<le> c" using Suc.prems(3) by simp_all
  have "followed ints ints 0 0 (2 * 2 ^ l) h2"
    using Suc.prems(4) c by (auto simp: followed_def)
  then obtain ints' h2' br' p' where step: "next_pass (2 ^ l) 0 0 (ints, h2, br, p) = Some (ints', h2', br', p')"
      "hashes N ints'" "followed ints' ints' 0 (2 ^ l) 0 h2'" "folds_to h0 (h2', br', p')"
    using next_pass_correct [OF Suc.prems(1), of 0 0 "2 ^ l" h2 h0 br p] Suc.prems c by auto
  have "2 ^ l \<le> N" using Suc.prems(2) c by simp
  from Suc.IH [OF step(2) this refl step(3,4)] show ?case
    using c by (subst passes.simps) (simp add: step(1))
qed

text \<open>No leaf is the hash of a pair of neighbouring leaves.\<close>

definition leaf_free :: "bytes \<Rightarrow> nat \<Rightarrow> bool" where
  "leaf_free h n \<longleftrightarrow> (\<forall>j < n. \<forall>i < n - 1. \<forall>a b. hash_at h i = Some a \<longrightarrow> hash_at h (i + 1) = Some b \<longrightarrow>
     hash_at h j \<noteq> Some (khash (a @ b)))"

definition fresh_state :: "bytes \<Rightarrow> nat \<Rightarrow> proof_state \<Rightarrow> bool" where
  "fresh_state h n s \<longleftrightarrow> (case s of (h2, br, p) \<Rightarrow>
     br = [] \<and> p = 0 \<or> (\<forall>j < n. hash_at h j \<noteq> Some h2))"

lemma first_pass_correct:
  assumes "hashes n h" "hashes cnt ints" "leaf_free h n" "i + 2 * (cnt - j) = n" "j \<le> cnt"
    "followed h ints i j n h2" "folds_to h0 (h2, br, p)" "fresh_state h n (h2, br, p)"
  shows "\<exists>ints' h2' br' p'. first_pass h cnt i j (ints, h2, br, p) = Some (ints', h2', br', p') \<and>
    hashes cnt ints' \<and> followed ints' ints' 0 cnt 0 h2' \<and> folds_to h0 (h2', br', p')"
  using assms
proof (induction h cnt i j "(ints, h2, br, p)" arbitrary: ints h2 br p rule: first_pass.induct)
  case (1 h cnt i j ints h2 br p)
  show ?case
  proof (cases "j < cnt")
    case False
    then show ?thesis
      using 1(2-9) by (subst first_pass.simps) (auto simp: followed_def)
  next
    case True
    have ij: "i < n" "i + 1 < n" using True 1(5) by simp_all
    obtain a b where ab: "hash_at h i = Some a" "hash_at h (i + 1) = Some b"
      "length a = kHashSize" "length b = kHashSize"
      using hash_at_Some [OF 1(2) ij(1)] hash_at_Some [OF 1(2) ij(2)] by blast
    let ?n = "khash (a @ b)"
    obtain ints' where put: "put_bytes ints (kHashSize * j) ?n = Some ints'" "hashes cnt ints'"
      "\<And>q. q < cnt \<Longrightarrow> hash_at ints' q = (if q = j then Some ?n else hash_at ints q)"
      using put_hash_at [OF 1(3) True, of ?n] by auto
    have free: "\<forall>q < n. hash_at h q \<noteq> Some ?n"
      using 1(4) ab ij unfolding leaf_free_def by (metis less_diff_conv)
    let ?s = "if a = h2 then (?n, br @ b, p) else if b = h2 then (?n, br @ a, 1) else (h2, br, p)"
    obtain h2' br' p' where s: "?s = (h2', br', p')" by (cases "?s") auto
    have start: "br = [] \<and> p = 0" if "a = h2 \<or> b = h2"
      using that ab(1,2) ij 1(9) unfolding fresh_state_def by auto
    have fold: "folds_to h0 (h2', br', p')"
      using 1(8) s folds_to_pair [OF 1(8) ab(3,4)] start by (auto split: if_splits)
    have fresh: "fresh_state h n (h2', br', p')"
      using 1(9) s free by (auto simp: fresh_state_def split: if_splits)
    have "followed h ints' (i + 2) (Suc j) n h2'"
    proof (cases "h2' = ?n")
      case True
      then have "hash_at ints' j = Some h2'" using put(3) \<open>j < cnt\<close> by simp
      then show ?thesis unfolding followed_def by blast
    next
      case False
      then have ne: "a \<noteq> h2" "b \<noteq> h2" "h2' = h2" using s by (auto split: if_splits)
      from 1(7) consider q where "q < j" "hash_at ints q = Some h2"
        | q where "i \<le> q" "q < n" "hash_at h q = Some h2"
        unfolding followed_def by blast
      then show ?thesis
      proof cases
        case 1
        then have "hash_at ints' q = Some h2'" using put(3) [of q] True ne by simp
        then show ?thesis unfolding followed_def using 1(1) less_SucI by blast
      next
        case 2
        have "q \<noteq> i" "q \<noteq> i + 1" using 2(3) ab(1,2) ne by auto
        then have "i + 2 \<le> q" using 2(1) by simp
        then show ?thesis unfolding followed_def using 2 ne by blast
      qed
    qed
    note IH = 1(1) [OF True ab(1,2) refl put(1) s 1(2) put(2) 1(4) _ _ this fold fresh]
    have "first_pass h cnt i j (ints, h2, br, p) = first_pass h cnt (i + 2) (Suc j) (ints', h2', br', p')"
      using True by (subst first_pass.simps) (simp add: ab(1) ab(2) [simplified] put(1) s Let_def)
    then show ?thesis
      using IH 1(5) True by simp
  qed
qed

subsection \<open>The tree\<close>

lemma tree_cnt_loop_bounds:
  "0 < c \<Longrightarrow> c \<le> n \<Longrightarrow> \<exists>l. tree_cnt_loop c n = 2 * (c * 2 ^ l) \<and> c * 2 ^ l \<le> n \<and> n < 2 * (c * 2 ^ l)"
proof (induction c n rule: tree_cnt_loop.induct)
  case (1 c n)
  show ?case
  proof (cases "2 * c \<le> n")
    case True
    then obtain l where "tree_cnt_loop (2 * c) n = 2 * (2 * c * 2 ^ l) \<and> 2 * c * 2 ^ l \<le> n \<and> n < 2 * (2 * c * 2 ^ l)"
      using 1 by fastforce
    then show ?thesis
      using True 1(2) by (subst tree_cnt_loop.simps) (auto intro!: exI [of _ "Suc l"] simp: mult.assoc)
  next
    case False
    then show ?thesis
      using 1(2,3) by (subst tree_cnt_loop.simps) (auto intro!: exI [of _ 0])
  qed
qed

lemma tree_cnt_bounds: "0 < n \<Longrightarrow> \<exists>l. tree_cnt n = 2 ^ l \<and> tree_cnt n \<le> n \<and> n < 2 * tree_cnt n"
  using tree_cnt_loop_bounds [of 1 n] by (auto simp: tree_cnt_def)

lemma folds_to_start: "folds_to h0 (h0, [], 0)"
  by (auto simp: folds_to_def hashes_def root_loop.simps intro!: exI [of _ 0])

lemma merkle_tree_correct:
  assumes h: "hashes n h" "index < n" and leaf: "hash_at h index = Some h0" and free: "3 \<le> n \<Longrightarrow> leaf_free h n"
  shows "\<exists>br p root. merkle_tree h index = Some (br, p, root) \<and> folds_to h0 (root, br, p)"
proof -
  have n: "length h div kHashSize = n" using h by (simp add: hashes_def kHashSize_def)
  consider "n = 1" | "n = 2" | "3 \<le> n" using h(2) by linarith
  then show ?thesis
  proof cases
    case 1
    then show ?thesis
      using leaf h(2) n folds_to_start by (simp add: merkle_tree_def Let_def)
  next
    case 2
    obtain a b where ab: "hash_at h 0 = Some a" "hash_at h 1 = Some b" "length a = kHashSize" "length b = kHashSize"
      using hash_at_Some [OF h(1), of 0] hash_at_Some [OF h(1), of 1] 2 by auto
    from h(2) 2 consider "index = 0" | "index = 1" by linarith
    then show ?thesis
      using 2 n ab leaf folds_to_pair [OF folds_to_start ab(3,4)]
      by cases (auto simp: merkle_tree_def Let_def)
  next
    case 3
    let ?c = "tree_cnt n" and ?k = "tree_cnt n * 2 - n"
    obtain l where l: "?c = 2 ^ l" "?c \<le> n" "n < 2 * ?c" using tree_cnt_bounds [of n] 3 by auto
    have k: "?k \<le> ?c" "?k + 2 * (?c - ?k) = n" using l by simp_all
    obtain leaves where leaves: "get_bytes h 0 (?k * kHashSize) = Some leaves" "leaves = take (?k * kHashSize) h"
      "length leaves = ?k * kHashSize"
      using h(1) l by (simp add: get_bytes_def hashes_def kHashSize_def)
    let ?ints = "leaves @ replicate ((?c - ?k) * kHashSize) 0"
    have ints: "put_bytes (replicate (?c * kHashSize) 0) 0 leaves = Some ?ints"
      using k(1) by (simp add: put_bytes_def leaves(3) diff_mult_distrib kHashSize_def)
    have 1: "hashes ?c ?ints"
      using k(1) by (simp add: hashes_def leaves(3) kHashSize_def)
    have 2: "followed h ?ints ?k ?k n h0"
    proof (cases "index < ?k")
      case True
      then have "hash_at ?ints index = Some h0"
        using leaf leaves(2,3) by (simp add: hash_at_def get_bytes_def kHashSize_def drop_take split: if_splits)
      then show ?thesis unfolding followed_def using True by blast
    next
      case False
      then show ?thesis unfolding followed_def using leaf h(2) by auto
    qed
    have "fresh_state h n (h0, [], 0)" by (simp add: fresh_state_def)
    from first_pass_correct [OF h(1) 1 free [OF 3] k(2,1) 2 folds_to_start this] obtain ints' h2 br p where first:
      "first_pass h ?c ?k ?k (?ints, h0, [], 0) = Some (ints', h2, br, p)" "hashes ?c ints'"
      "followed ints' ints' 0 ?c 0 h2" "folds_to h0 (h2, br, p)"
      by blast
    obtain ints2 h3 br' p' where "passes ?c (ints', h2, br, p) = Some (ints2, h3, br', p')"
      "hash_at ints2 0 = Some h3" "folds_to h0 (h3, br', p')"
      using passes_correct [OF first(2) _ l(1) first(3,4)] by auto
    then show ?thesis
      using 3 leaf leaves(1) ints first(1) by (simp add: merkle_tree_def n Let_def)
  qed
qed



end
