(* ===== verification/BlockTemplateParser.thy ===== *)
theory BlockTemplateParser
  imports BlockTemplate
begin

text \<open>
  \<open>BlockTemplate::parse\<close> and \<open>generateHashingBlob\<close>. The parser is a sequence of steps on the
  template under construction and the reader, in the order of the code; each step reads a
  field, records an offset, or refuses. The bounds test \<open>ex\<close> of the reader is a parameter.
\<close>

subsection \<open>Steps\<close>

type_synonym parser_step = "template \<times> reader \<Rightarrow> (template \<times> reader) result"

fun in_order :: "parser_step list \<Rightarrow> parser_step" where
  "in_order [] s = Inr s"
| "in_order (f # fs) s = bindR (f s) (in_order fs)"

definition rd_varint :: "(u64 \<Rightarrow> template \<Rightarrow> template) \<Rightarrow> parser_step" where
  "rd_varint put s = bindR (br_varint (snd s)) (\<lambda>(v, r). Inr (put v (fst s), r))"

definition rd_byte :: "(u8 \<Rightarrow> template \<Rightarrow> template) \<Rightarrow> parser_step" where
  "rd_byte put s = bindR (br_byte (snd s)) (\<lambda>(v, r). Inr (put v (fst s), r))"

definition rd_span :: "bounds_test \<Rightarrow> nat \<Rightarrow> (span \<Rightarrow> template \<Rightarrow> template) \<Rightarrow> parser_step" where
  "rd_span ex n put s = bindR (br_span ex (of_nat n) (snd s)) (\<lambda>(v, r). Inr (put v (fst s), r))"

definition rd_array :: "bounds_test \<Rightarrow> nat \<Rightarrow> (bytes \<Rightarrow> template \<Rightarrow> template) \<Rightarrow> parser_step" where
  "rd_array ex n put s = bindR (br_array ex n (snd s)) (\<lambda>(v, r). Inr (put v (fst s), r))"

definition rd_skip :: "bounds_test \<Rightarrow> u64 \<Rightarrow> parser_step" where
  "rd_skip ex n s = bindR (br_skip ex n (snd s)) (\<lambda>r. Inr (fst s, r))"

text \<open>\<open>ar(len); ar.skip(len)\<close>\<close>

definition rd_skip_sized :: "bounds_test \<Rightarrow> parser_step" where
  "rd_skip_sized ex s =
     bindR (br_varint (snd s)) (\<lambda>(n, r). bindR (br_skip ex n r) (\<lambda>r. Inr (fst s, r)))"

definition set_offset :: "(u32 \<Rightarrow> template \<Rightarrow> template) \<Rightarrow> parser_step" where
  "set_offset put s = Inr (put (off32 (r_index (snd s))) (fst s), snd s)"

definition check_t :: "(template \<Rightarrow> bool) \<Rightarrow> parser_step" where
  "check_t p s = require (p (fst s)) (Inr s)"

definition when_t :: "(template \<Rightarrow> bool) \<Rightarrow> parser_step \<Rightarrow> parser_step" where
  "when_t p f s = (if p (fst s) then f s else Inr s)"

subsection \<open>Header and miner transaction\<close>

definition parse_header :: "bounds_test \<Rightarrow> parser_step list" where
  "parse_header ex =
    [rd_byte (\<lambda>v t. t\<lparr>t_version := (v, snd (t_version t))\<rparr>),
     rd_byte (\<lambda>v t. t\<lparr>t_version := (fst (t_version t), v)\<rparr>),
     rd_varint (\<lambda>v t. t\<lparr>t_timestamp := v\<rparr>),
     rd_span ex kHashSize (\<lambda>v t. t\<lparr>t_prevId := v\<rparr>),
     set_offset (\<lambda>v t. t\<lparr>o_nonce := v\<rparr>),
     rd_skip ex (of_nat kNonceSize),
     when_t (\<lambda>t. t_coin t = WOWNERO \<and> 18 \<le> majorVersion t)
       (in_order
         [rd_span ex kSignatureSize (\<lambda>v t. t\<lparr>t_minerSignature := v\<rparr>),
          rd_array ex 2 (\<lambda>v t. t\<lparr>t_vote := v\<rparr>)]),
     when_t (\<lambda>t. t_coin t = ZEPHYR) (rd_array ex 120 (\<lambda>v t. t)),
     set_offset (\<lambda>v t. t\<lparr>o_miner_tx_prefix := v\<rparr>)]"

definition is_fcmp_pp :: "template \<Rightarrow> bool" where
  "is_fcmp_pp t \<longleftrightarrow> t_coin t = MONERO \<and> 17 \<le> fst (t_version t)"

definition outputs_ok :: "template \<Rightarrow> bool" where
  "outputs_ok t \<longleftrightarrow> (if t_coin t = ZEPHYR then \<not> t_numOutputs t < 2 else t_numOutputs t = 1)"

definition output_type_ok :: "template \<Rightarrow> bool" where
  "output_type_ok t \<longleftrightarrow> is_fcmp_pp t \<and> t_outputType t = 0 \<or> t_outputType t = 2 \<or> t_outputType t = 3"

text \<open>The outputs of a ZEPHYR miner transaction after the first.\<close>

definition zephyr_output :: "bounds_test \<Rightarrow> parser_step" where
  "zephyr_output ex s =
     in_order
       [rd_varint (\<lambda>v t. t),
        \<lambda>s. bindR (br_byte (snd s)) (\<lambda>(v, r). require (v = 2) (Inr (fst s, r))),
        rd_span ex kKeySize (\<lambda>v t. t),
        rd_skip_sized ex,
        rd_byte (\<lambda>v t. t)] s"

primrec zephyr_outputs :: "bounds_test \<Rightarrow> nat \<Rightarrow> parser_step" where
  "zephyr_outputs ex 0 s = Inr s"
| "zephyr_outputs ex (Suc n) s = bindR (zephyr_output ex s) (zephyr_outputs ex n)"

definition parse_miner_tx :: "bounds_test \<Rightarrow> parser_step list" where
  "parse_miner_tx ex =
    [rd_varint (\<lambda>v t. t\<lparr>t_txVersion := v\<rparr>),
     when_t (\<lambda>t. t_coin t \<noteq> TOWNFORGE) (rd_varint (\<lambda>v t. t\<lparr>t_unlockTime := v\<rparr>)),
     rd_varint (\<lambda>v t. t\<lparr>t_numInputs := v\<rparr>),
     check_t (\<lambda>t. t_numInputs t = 1),
     rd_byte (\<lambda>v t. t\<lparr>t_inputType := v\<rparr>),
     check_t (\<lambda>t. t_inputType t = 0xFF),
     rd_varint (\<lambda>v t. t\<lparr>t_height := v\<rparr>),
     rd_varint (\<lambda>v t. t\<lparr>t_numOutputs := v\<rparr>),
     check_t outputs_ok,
     rd_varint (\<lambda>v t. t\<lparr>t_amount := v\<rparr>),
     rd_byte (\<lambda>v t. t\<lparr>t_outputType := v\<rparr>),
     check_t output_type_ok,
     set_offset (\<lambda>v t. t\<lparr>o_eph_public_key := v\<rparr>),
     rd_span ex kKeySize (\<lambda>v t. t\<lparr>t_ephPublicKey := v\<rparr>),
     when_t is_fcmp_pp
       (in_order
         [rd_array ex 3 (\<lambda>v t. t\<lparr>t_carrotViewTag := v\<rparr>),
          rd_array ex 16 (\<lambda>v t. t\<lparr>t_janusAnchor := v\<rparr>)]),
     \<lambda>s. (if t_coin (fst s) = ZEPHYR then
           in_order
             [check_t (\<lambda>t. t_outputType t = 2),
              rd_skip_sized ex,
              rd_byte (\<lambda>v t. t\<lparr>t_viewTag := v\<rparr>),
              \<lambda>s. zephyr_outputs ex (unat (t_numOutputs (fst s)) - 1) s] s
         else when_t (\<lambda>t. t_outputType t = 3) (rd_byte (\<lambda>v t. t\<lparr>t_viewTag := v\<rparr>)) s),
     when_t (\<lambda>t. t_coin t = TOWNFORGE) (rd_varint (\<lambda>v t. t\<lparr>t_unlockTime := v\<rparr>)),
     rd_varint (\<lambda>v t. t\<lparr>t_extraSize := v\<rparr>),
     set_offset (\<lambda>v t. t\<lparr>o_tx_extra := v\<rparr>)]"

subsection \<open>The extra field\<close>

text \<open>
  Its reader starts at \<open>blob(TX_EXTRA_OFFSET)\<close> and has the declared size; positions of spans
  are made relative to the blob. The third component is \<open>pubkey_offset_first\<close>.
\<close>

definition extra_reader :: "template \<Rightarrow> reader" where
  "extra_reader t = new_reader (drop (unat (o_tx_extra t)) (t_blob t)) (t_extraSize t)"

definition extra_pos :: "template \<Rightarrow> u64 \<Rightarrow> u64" where
  "extra_pos t i = ucast (o_tx_extra t) + i"

type_synonym extra_state = "template \<times> reader \<times> bool"

definition extra_field ::
  "bounds_test \<Rightarrow> (u32 \<Rightarrow> template \<Rightarrow> template) \<Rightarrow> (span \<Rightarrow> template \<Rightarrow> template) \<Rightarrow>
   template \<Rightarrow> reader \<Rightarrow> bool \<Rightarrow> extra_state result" where
  "extra_field ex put_off put_span t r first =
     bindR (br_varint r) (\<lambda>(sz, r).
       let t = put_off (off32 (extra_pos t (r_index r))) t in
       bindR (br_span ex sz r) (\<lambda>((pos, n), r). Inr (put_span (extra_pos t pos, n) t, r, first)))"

definition extra_step :: "bounds_test \<Rightarrow> extra_state \<Rightarrow> extra_state result" where
  "extra_step ex s =
     (case s of (t, r, first) \<Rightarrow>
       bindR (br_varint r) (\<lambda>(tag, r).
         if tag = 0x01 then
           let t = (if first then t\<lparr>o_tx_pubkey := off32 (extra_pos t (r_index r))\<rparr> else t) in
           bindR (br_skip ex (of_nat kKeySize) r) (\<lambda>r. Inr (t, r, False))
         else if tag = 0x02 then
           extra_field ex (\<lambda>v t. t\<lparr>o_tx_extra_nonce := v\<rparr>) (\<lambda>v t. t\<lparr>t_txExtraNonce := v\<rparr>) t r first
         else if tag = 0x03 then
           extra_field ex (\<lambda>v t. t\<lparr>o_tx_extra_merge_mining_tag := v\<rparr>) (\<lambda>v t. t\<lparr>t_txMergeMiningTag := v\<rparr>)
             t r first
         else Inl Refused))"

partial_function (option) extra_loop :: "bounds_test \<Rightarrow> extra_state \<Rightarrow> template result option" where
  "extra_loop ex s =
     (if r_index (fst (snd s)) < t_extraSize (fst s)
      then (case extra_step ex s of Inl e \<Rightarrow> Some (Inl e) | Inr s' \<Rightarrow> extra_loop ex s')
      else Some (Inr (fst s)))"

subsection \<open>After the extra field\<close>

definition parse_prefix_end :: "parser_step list" where
  "parse_prefix_end =
    [when_t (\<lambda>t. t_coin t = ZEPHYR)
       (in_order [rd_varint (\<lambda>v t. t), rd_varint (\<lambda>v t. t), rd_varint (\<lambda>v t. t)]),
     set_offset (\<lambda>v t. t\<lparr>o_miner_tx_prefix_end := v\<rparr>)]"

text \<open>\<open>*blob(MINER_TX_PREFIX_END_OFFSET)\<close>, and the bytes of the prefix.\<close>

definition prefix_end_byte :: "template \<Rightarrow> u8 result" where
  "prefix_end_byte t =
     (case rd (t_blob t) (unat (o_miner_tx_prefix_end t)) of None \<Rightarrow> Inl BadAccess | Some b \<Rightarrow> Inr b)"

definition miner_tx_prefix :: "template \<Rightarrow> bytes result" where
  "miner_tx_prefix t =
     (let a = unat (o_miner_tx_prefix t); b = unat (o_miner_tx_prefix_end t) in
      if a \<le> b \<and> b - a < 2 ^ 31
      then case get_bytes (t_blob t) a (b - a) of None \<Rightarrow> Inl BadAccess | Some bs \<Rightarrow> Inr bs
      else Inl BadAccess)"

definition put_hash :: "bytes \<Rightarrow> nat \<Rightarrow> bytes \<Rightarrow> bytes result" where
  "put_hash hs i h =
     (case put_bytes hs (kHashSize * i) h of None \<Rightarrow> Inl BadAccess | Some hs \<Rightarrow> Inr hs)"

text \<open>\<open>Span h; ar(h, kHashSize); memcpy(data + i * kHashSize, h.data(), kHashSize)\<close> for \<open>n\<close> hashes from \<open>i\<close>.\<close>

primrec read_hashes :: "bounds_test \<Rightarrow> nat \<Rightarrow> nat \<Rightarrow> bytes \<times> reader \<Rightarrow> (bytes \<times> reader) result" where
  "read_hashes ex 0 i s = Inr s"
| "read_hashes ex (Suc n) i s =
     bindR (br_span ex (of_nat kHashSize) (snd s)) (\<lambda>((pos, sz), r).
       case get_bytes (r_data r) (unat pos) kHashSize of
         None \<Rightarrow> Inl BadAccess
       | Some h \<Rightarrow> bindR (put_hash (fst s) i h) (\<lambda>hs. read_hashes ex n (Suc i) (hs, r)))"

definition coinbase_tx_index :: "template \<Rightarrow> nat" where
  "coinbase_tx_index t = (if is_fcmp_pp t then 2 else 0)"

definition hashes_size :: "template \<Rightarrow> u64" where
  "hashes_size t = (of_nat (coinbase_tx_index t) + t_numHashes t + 1) * of_nat kHashSize"

definition fcmp_hashes :: "bounds_test \<Rightarrow> template \<times> reader \<Rightarrow> template result" where
  "fcmp_hashes ex s =
     bindR (in_order [rd_byte (\<lambda>v t. t\<lparr>t_FCMPTreeLayers := v\<rparr>),
                      rd_array ex kHashSize (\<lambda>v t. t\<lparr>t_FCMPTreeRoot := v\<rparr>)] s) (\<lambda>(t, r).
       case wr (t_hashes t) 0 (t_FCMPTreeLayers t) of
         None \<Rightarrow> Inl BadAccess
       | Some hs \<Rightarrow> bindR (put_hash hs 1 (t_FCMPTreeRoot t)) (\<lambda>hs. Inr (t\<lparr>t_hashes := hs\<rparr>)))"

definition parse_hashes :: "bounds_test \<Rightarrow> nat \<Rightarrow> template \<times> reader \<Rightarrow> template result" where
  "parse_hashes ex max_alloc s =
     (case s of (t, r) \<Rightarrow>
       if max_alloc < unat (hashes_size t) then Inl NoMemory
       else
         let hs = replicate (unat (hashes_size t)) 0; k = coinbase_tx_index t in
         bindR (miner_tx_prefix t) (\<lambda>prefix.
         bindR (put_hash hs k (calculateMinerTxHash prefix)) (\<lambda>hs.
         bindR (read_hashes ex (unat (t_numHashes t)) (k + 1) (hs, r)) (\<lambda>(hs, r).
         bindR (if is_fcmp_pp t then fcmp_hashes ex (t\<lparr>t_hashes := hs\<rparr>, r) else Inr (t\<lparr>t_hashes := hs\<rparr>))
           (\<lambda>t. case calculateMerkleTreeHash k t of None \<Rightarrow> Inl BadAccess | Some t \<Rightarrow> Inr t)))))"

definition parse_tail :: "bounds_test \<Rightarrow> nat \<Rightarrow> bool \<Rightarrow> template \<times> reader \<Rightarrow> template result" where
  "parse_tail ex max_alloc hashes s =
     bindR (in_order parse_prefix_end s) (\<lambda>(t, r).
     bindR (br_byte r) (\<lambda>(vin_rct_type, r).
       if t_coin t = TOWNFORGE \<and> t_height t mod 720 = 0 then Inr t
       else
         require (vin_rct_type = 0)
         (let miner_tx_end = r_index r in
          require (miner_tx_end = ucast (o_miner_tx_prefix_end t) + 1)
          (bindR (prefix_end_byte t) (\<lambda>b. require (b = 0)
            (bindR (br_varint r) (\<lambda>(n, r).
              let t = t\<lparr>t_numHashes := n\<rparr> in
              if hashes then parse_hashes ex max_alloc (t, r) else Inr t)))))))"

subsection \<open>The whole parser\<close>

definition parse_with :: "bounds_test \<Rightarrow> nat \<Rightarrow> bool \<Rightarrow> template \<Rightarrow> template result option" where
  "parse_with ex max_alloc hashes t =
     (case in_order (parse_header ex @ parse_miner_tx ex) (t, new_reader (t_blob t) (of_nat (length (t_blob t)))) of
        Inl e \<Rightarrow> Some (Inl e)
      | Inr (t, r) \<Rightarrow>
          let ar_extra = extra_reader t in
          case br_skip ex (t_extraSize t) r of
            Inl e \<Rightarrow> Some (Inl e)
          | Inr r \<Rightarrow>
              case extra_loop ex (t, ar_extra, True) of
                None \<Rightarrow> None
              | Some (Inl e) \<Rightarrow> Some (Inl e)
              | Some (Inr t) \<Rightarrow> Some (parse_tail ex max_alloc hashes (t, r)))"

definition parse :: "nat \<Rightarrow> bool \<Rightarrow> template \<Rightarrow> template result option" where
  "parse = parse_with exceeds_wrapping"

text \<open>The public overloads: a buffer, and hexadecimal text.\<close>

definition parse_buffer :: "nat \<Rightarrow> bytes \<Rightarrow> coin \<Rightarrow> bool \<Rightarrow> template \<Rightarrow> template result option" where
  "parse_buffer max_alloc blocktemplate c hashes t =
     (if length blocktemplate < kMinSize then Some (Inl Refused)
      else parse max_alloc hashes (t\<lparr>t_blob := blocktemplate, t_coin := c\<rparr>))"

definition parse_hex :: "nat \<Rightarrow> bytes \<Rightarrow> coin \<Rightarrow> bool \<Rightarrow> template \<Rightarrow> template result option" where
  "parse_hex max_alloc text c hashes t =
     (if length text < kMinSize * 2 then Some (Inl Refused)
      else case fromHexImpl (t_blob t) text of
        None \<Rightarrow> Some (Inl BadAccess)
      | Some (ok, buf) \<Rightarrow>
          if ok then parse max_alloc hashes (t\<lparr>t_blob := buf, t_coin := c\<rparr>) else Some (Inl Refused))"

definition generateHashingBlob :: "template \<Rightarrow> bytes option" where
  "generateHashingBlob t =
     do { head \<leftarrow> get_bytes (t_blob t) 0 (unat (o_miner_tx_prefix t));
          Some (head @ t_rootHash t @ put_varint (t_numHashes t + 1)) }"

end
