(* ===== verification/BlockTemplateProps.thy ===== *)
theory BlockTemplateProps
  imports BlockTemplateParser
begin

text \<open>
  Properties of the template parser. With the exact bounds test every parse ends, makes no
  access outside the blob, and records offsets inside it. The code's wrapping test gives the
  same result on every blob except those the exact test rejects as out of range; on some of
  those the code's parser does not return.
\<close>

subsection \<open>The two bounds tests\<close>

text \<open>Equal unless the exact test rejects.\<close>

definition agrees :: "'a result \<Rightarrow> 'a result \<Rightarrow> bool" where
  "agrees exact code \<longleftrightarrow> exact = Inl OutOfRange \<or> code = exact"

lemma agrees_refl [simp]: "agrees m m"
  by (simp add: agrees_def)

lemma agrees_bindR: "agrees m m' \<Longrightarrow> (\<And>x. agrees (f x) (f' x)) \<Longrightarrow> agrees (bindR m f) (bindR m' f')"
  by (cases m) (auto simp: agrees_def)

lemma agrees_require: "agrees m m' \<Longrightarrow> agrees (require b m) (require b m')"
  by (simp add: agrees_def require_def)

lemma exact_wrapping: "\<not> exceeds_exact i n s \<Longrightarrow> \<not> exceeds_wrapping i n s"
  using unat_add_index [of i n s]
  by (simp add: exceeds_exact_def exceeds_wrapping_def word_less_nat_alt)

lemma agrees_br_skip: "agrees (br_skip exceeds_exact n r) (br_skip exceeds_wrapping n r)"
  using exact_wrapping by (auto simp: br_skip_def agrees_def)

lemma agrees_br_span: "agrees (br_span exceeds_exact n r) (br_span exceeds_wrapping n r)"
  using exact_wrapping by (auto simp: br_span_def agrees_def)

lemma agrees_br_array: "agrees (br_array exceeds_exact n r) (br_array exceeds_wrapping n r)"
  using exact_wrapping by (auto simp: br_array_def agrees_def)

lemma agrees_in_order:
  "list_all2 (\<lambda>f g. \<forall>s. agrees (f s) (g s)) fs gs \<Longrightarrow> agrees (in_order fs s) (in_order gs s)"
proof (induction fs gs arbitrary: s rule: list_all2_induct)
  case (Cons f fs g gs)
  then show ?case by (simp del: split_paired_All) (blast intro: agrees_bindR)
qed simp

lemma agrees_steps:
  "agrees (rd_span exceeds_exact n put s) (rd_span exceeds_wrapping n put s)"
  "agrees (rd_array exceeds_exact k putb s) (rd_array exceeds_wrapping k putb s)"
  "agrees (rd_skip exceeds_exact v s) (rd_skip exceeds_wrapping v s)"
  "agrees (rd_skip_sized exceeds_exact s) (rd_skip_sized exceeds_wrapping s)"
  by (auto simp: rd_span_def rd_array_def rd_skip_def rd_skip_sized_def
      intro!: agrees_bindR agrees_br_span agrees_br_array agrees_br_skip)

lemma agrees_when_t: "(\<And>s. agrees (f s) (g s)) \<Longrightarrow> agrees (when_t p f s) (when_t p g s)"
  by (simp add: when_t_def)

lemma agrees_zephyr_output: "agrees (zephyr_output exceeds_exact s) (zephyr_output exceeds_wrapping s)"
  unfolding zephyr_output_def by (intro agrees_in_order) (simp add: agrees_steps)

lemma agrees_zephyr_outputs: "agrees (zephyr_outputs exceeds_exact n s) (zephyr_outputs exceeds_wrapping n s)"
  by (induction n arbitrary: s) (simp_all add: agrees_bindR agrees_zephyr_output)

lemma agrees_parse_start:
  "agrees (in_order (parse_header exceeds_exact @ parse_miner_tx exceeds_exact) s)
    (in_order (parse_header exceeds_wrapping @ parse_miner_tx exceeds_wrapping) s)"
  unfolding parse_header_def parse_miner_tx_def
  by (intro agrees_in_order) (auto simp: agrees_steps agrees_zephyr_outputs
      intro!: agrees_when_t agrees_bindR agrees_in_order)

lemma agrees_extra_step: "agrees (extra_step exceeds_exact s) (extra_step exceeds_wrapping s)"
  by (auto simp: extra_step_def extra_field_def Let_def split: prod.split
      intro!: agrees_bindR agrees_br_span agrees_br_skip)

lemma extra_loop_agrees:
  assumes "extra_loop exceeds_exact s = Some res" "res \<noteq> Inl OutOfRange"
  shows "extra_loop exceeds_wrapping s = Some res"
proof -
  let ?P = "\<lambda>ex s res. ex = exceeds_exact \<and> res \<noteq> Inl OutOfRange \<longrightarrow> extra_loop exceeds_wrapping s = Some res"
  have "?P exceeds_exact s res"
  proof (rule extra_loop.raw_induct [where P = ?P, OF _ assms(1)], intro impI, elim conjE)
    fix f ex s and res :: "template result"
    assume IH: "\<And>ex s res. f ex s = Some res \<Longrightarrow> ?P ex s res"
      and eq: "(if r_index (fst (snd s)) < t_extraSize (fst s)
        then (case extra_step ex s of Inl e \<Rightarrow> Some (Inl e) | Inr s' \<Rightarrow> f ex s')
        else Some (Inr (fst s))) = Some res"
      and ex: "ex = exceeds_exact" and res: "res \<noteq> Inl OutOfRange"
    show "extra_loop exceeds_wrapping s = Some res"
      using eq ex res agrees_extra_step [of s] IH
      by (subst extra_loop.simps) (auto simp: agrees_def split: sum.splits if_splits)
  qed
  then show ?thesis using assms(2) by simp
qed

lemma agrees_read_hashes: "agrees (read_hashes exceeds_exact n i s) (read_hashes exceeds_wrapping n i s)"
  by (induction n arbitrary: i s) (auto split: prod.split option.split intro!: agrees_bindR agrees_br_span)

lemma agrees_parse_tail:
  "agrees (parse_tail exceeds_exact m hashes s) (parse_tail exceeds_wrapping m hashes s)"
  unfolding parse_tail_def parse_hashes_def fcmp_hashes_def Let_def
  by (auto split: prod.split option.split simp: agrees_steps
      intro!: agrees_bindR agrees_require agrees_read_hashes agrees_refl)

text \<open>
  Comparing positions modulo \<open>2^64\<close> only matters for lengths that do not fit: the code's
  parser returns what the parser with the exact bounds test returns, on every template that
  test does not reject as out of range.
\<close>

lemma wrapping_parser_agrees:
  assumes "parse_with exceeds_exact m hashes t = Some res" "res \<noteq> Inl OutOfRange"
  shows "parse m hashes t = Some res"
proof -
  let ?s = "(t, new_reader (t_blob t) (of_nat (length (t_blob t))))"
  note start = agrees_parse_start [of ?s]
  show ?thesis
  proof (cases "in_order (parse_header exceeds_exact @ parse_miner_tx exceeds_exact) ?s")
    case (Inl e)
    then show ?thesis
      using start assms by (auto simp: parse_def parse_with_def agrees_def)
  next
    case (Inr tr)
    obtain t1 r1 where tr: "tr = (t1, r1)" by (cases tr)
    have code: "in_order (parse_header exceeds_wrapping @ parse_miner_tx exceeds_wrapping) ?s = Inr (t1, r1)"
      using start Inr tr by (auto simp: agrees_def)
    show ?thesis
      using assms agrees_br_skip [of "t_extraSize t1" r1]
        extra_loop_agrees [of "(t1, extra_reader t1, True)"]
        agrees_parse_tail [of m hashes]
      unfolding parse_def parse_with_def code Inr tr Let_def
      by (auto simp: agrees_def split: sum.splits option.splits)
  qed
qed

subsection \<open>Safety of the exact parser\<close>

text \<open>
  A state of the parser: the reader is inside the blob and reads it, and \<open>B\<close> holds of the
  template and the position.
\<close>

definition at :: "bytes \<Rightarrow> (template \<Rightarrow> nat \<Rightarrow> bool) \<Rightarrow> template \<times> reader \<Rightarrow> bool" where
  "at blob B s \<longleftrightarrow> reader_ok (snd s) \<and> r_data (snd s) = blob \<and> t_blob (fst s) = blob \<and>
     B (fst s) (unat (r_index (snd s)))"

definition later :: "(template \<Rightarrow> nat \<Rightarrow> bool) \<Rightarrow> bool" where
  "later B \<longleftrightarrow> (\<forall>t i j. B t i \<longrightarrow> i \<le> j \<longrightarrow> B t j)"

definition stable :: "(template \<Rightarrow> nat \<Rightarrow> bool) \<Rightarrow> ('v \<Rightarrow> template \<Rightarrow> template) \<Rightarrow> bool" where
  "stable B put \<longleftrightarrow> (\<forall>v t i. B t i \<longrightarrow> B (put v t) i) \<and> (\<forall>v t. t_blob (put v t) = t_blob t)"

definition keeps :: "(template \<times> reader \<Rightarrow> bool) \<Rightarrow> parser_step \<Rightarrow> bool" where
  "keeps Q f \<longleftrightarrow> (\<forall>s. Q s \<longrightarrow> safe (f s) Q)"

lemma keeps_in_order: "list_all (keeps Q) fs \<Longrightarrow> keeps Q (in_order fs)"
  by (induction fs) (auto simp: keeps_def simp del: split_paired_All intro: safe_bindR)

lemma at_later: "at blob B (t, r) \<Longrightarrow> later B \<Longrightarrow> reader_ok r' \<Longrightarrow> advances r r' \<Longrightarrow> at blob B (t, r')"
  by (auto simp: at_def later_def advances_def word_le_nat_alt)

lemma at_put: "at blob B (t, r) \<Longrightarrow> stable B put \<Longrightarrow> at blob B (put v t, r)"
  by (simp add: at_def stable_def)

lemma at_ok: "at blob B (t, r) \<Longrightarrow> reader_ok r"
  by (simp add: at_def)

lemma keeps_read:
  assumes "\<And>r. reader_ok r \<Longrightarrow> safe (p r) (\<lambda>(v, r'). reader_ok r' \<and> advances r r' \<and> R r v r')"
    and "later B" "stable B put"
  shows "keeps (at blob B) (\<lambda>s. bindR (p (snd s)) (\<lambda>(v, r). Inr (put v (fst s), r)))"
  unfolding keeps_def
proof (intro allI impI)
  fix s assume s: "at blob B s"
  obtain t r where tr: "s = (t, r)" by (cases s)
  then have ok: "reader_ok r" using s by (simp add: at_ok)
  show "safe (bindR (p (snd s)) (\<lambda>(v, r). Inr (put v (fst s), r))) (at blob B)"
  proof (cases "p r")
    case (Inl e)
    then show ?thesis using assms(1) [OF ok] by (simp add: tr)
  next
    case (Inr x)
    obtain v r' where x: "x = (v, r')" by (cases x)
    then have "reader_ok r'" "advances r r'" using assms(1) [OF ok] Inr by simp_all
    then have "at blob B (put v t, r')"
      using at_put [OF at_later [OF s [unfolded tr] assms(2)] assms(3)] by blast
    then show ?thesis by (simp add: tr Inr x)
  qed
qed

lemma keeps_rd_varint: "later B \<Longrightarrow> stable B put \<Longrightarrow> keeps (at blob B) (rd_varint put)"
  unfolding rd_varint_def [abs_def] by (rule keeps_read [OF br_varint_safe])

lemma keeps_rd_byte: "later B \<Longrightarrow> stable B put \<Longrightarrow> keeps (at blob B) (rd_byte put)"
  unfolding rd_byte_def [abs_def]
  by (rule keeps_read [OF br_byte_safe [THEN safe_weaken], where R = "\<lambda>_ _ _. True"]) auto

lemma keeps_rd_span: "later B \<Longrightarrow> stable B put \<Longrightarrow> keeps (at blob B) (rd_span exceeds_exact n put)"
  unfolding rd_span_def [abs_def] by (rule keeps_read [OF br_span_safe])

lemma keeps_rd_array:
  "later B \<Longrightarrow> stable B put \<Longrightarrow> n < 2 ^ 64 \<Longrightarrow> keeps (at blob B) (rd_array exceeds_exact n put)"
  unfolding rd_array_def [abs_def]
  by (rule keeps_read [OF br_array_safe])

lemma keeps_skip:
  assumes "\<And>r. reader_ok r \<Longrightarrow> safe (p r) (\<lambda>r'. reader_ok r' \<and> advances r r')" and "later B"
  shows "keeps (at blob B) (\<lambda>s. bindR (p (snd s)) (\<lambda>r. Inr (fst s, r)))"
  unfolding keeps_def
proof (intro allI impI)
  fix s assume s: "at blob B s"
  obtain t r where tr: "s = (t, r)" by (cases s)
  then have ok: "reader_ok r" using s by (simp add: at_ok)
  show "safe (bindR (p (snd s)) (\<lambda>r. Inr (fst s, r))) (at blob B)"
    using assms(1) [OF ok] at_later [OF s [unfolded tr] assms(2)] by (cases "p r") (auto simp: tr)
qed

lemma keeps_rd_skip: "later B \<Longrightarrow> keeps (at blob B) (rd_skip exceeds_exact n)"
  unfolding rd_skip_def [abs_def]
  by (rule keeps_skip) (auto intro: br_skip_safe [THEN safe_weaken])

lemma sized_skip_safe:
  assumes "reader_ok r"
  shows "safe (bindR (br_varint r) (\<lambda>(n, r). br_skip exceeds_exact n r)) (\<lambda>r'. reader_ok r' \<and> advances r r')"
proof (rule safe_bindR [OF br_varint_safe [OF assms]], clarify)
  fix n r1 assume "reader_ok r1" "advances r r1"
  then show "safe (br_skip exceeds_exact n r1) (\<lambda>r'. reader_ok r' \<and> advances r r')"
    by (auto intro: br_skip_safe [THEN safe_weaken] advances_trans)
qed

lemma bindR_assoc: "bindR (bindR m f) g = bindR m (\<lambda>x. bindR (f x) g)"
  by (cases m) auto

lemma keeps_rd_skip_sized: "later B \<Longrightarrow> keeps (at blob B) (rd_skip_sized exceeds_exact)"
proof -
  assume B: "later B"
  have "keeps (at blob B) (\<lambda>s. bindR (bindR (br_varint (snd s)) (\<lambda>(n, r). br_skip exceeds_exact n r))
      (\<lambda>r. Inr (fst s, r)))"
    by (rule keeps_skip [where p = "\<lambda>r. bindR (br_varint r) (\<lambda>(n, r). br_skip exceeds_exact n r)",
          OF sized_skip_safe], assumption, rule B)
  then show ?thesis
    by (simp add: rd_skip_sized_def [abs_def] bindR_assoc case_prod_unfold)
qed

lemma keeps_set_offset: "stable B put \<Longrightarrow> keeps (at blob B) (set_offset put)"
  by (auto simp: keeps_def set_offset_def intro: at_put)

lemma keeps_check_t: "keeps Q (check_t p)"
  by (auto simp: keeps_def check_t_def require_def)

lemma keeps_when_t: "keeps Q f \<Longrightarrow> keeps Q (when_t p f)"
  by (auto simp: keeps_def when_t_def)

lemmas keeps_steps = keeps_rd_varint keeps_rd_byte keeps_rd_span keeps_rd_array keeps_rd_skip
  keeps_rd_skip_sized keeps_set_offset keeps_check_t keeps_when_t keeps_in_order

lemma stable_id: "stable B (\<lambda>v t. t)"
  by (simp add: stable_def)

lemma keeps_zephyr_outputs:
  assumes "later B"
  shows "keeps (at blob B) (zephyr_outputs exceeds_exact n)"
proof -
  have one: "keeps (at blob B) (zephyr_output exceeds_exact)"
  proof -
    have "keeps (at blob B) (\<lambda>s. bindR (bindR (br_byte (snd s)) (\<lambda>(v, r). require (v = 2) (Inr r)))
        (\<lambda>r. Inr (fst s, r)))"
    proof (rule keeps_skip [OF _ assms])
      fix r assume "reader_ok r"
      from br_byte_safe [OF this]
      show "safe (bindR (br_byte r) (\<lambda>(v, r). require (v = 2) (Inr r))) (\<lambda>r'. reader_ok r' \<and> advances r r')"
        by (rule safe_bindR) (auto intro: safe_require)
    qed
    then have "keeps (at blob B) (\<lambda>s. bindR (br_byte (snd s)) (\<lambda>(v, r). require (v = 2) (Inr (fst s, r))))"
      by (simp add: bindR_assoc case_prod_unfold require_def if_distrib [of "\<lambda>m. bindR m _"] cong: if_cong)
    then show ?thesis
      using assms unfolding zephyr_output_def [abs_def]
      by (intro keeps_in_order) (simp add: keeps_steps stable_id)
  qed
  show ?thesis
  proof (induction n)
    case (Suc n)
    then show ?case
      using one unfolding keeps_def zephyr_outputs.simps by (blast intro: safe_bindR)
  qed (simp add: keeps_def)
qed

subsection \<open>What the exact parser records\<close>

text \<open>The offsets known so far, at a position of the reader.\<close>

definition B_prefix :: "template \<Rightarrow> nat \<Rightarrow> bool" where
  "B_prefix t i \<longleftrightarrow> unat (o_nonce t) + kNonceSize \<le> unat (o_miner_tx_prefix t) \<and> unat (o_miner_tx_prefix t) \<le> i"

definition B_key :: "template \<Rightarrow> nat \<Rightarrow> bool" where
  "B_key t i \<longleftrightarrow> B_prefix t i \<and> unat (o_eph_public_key t) + kKeySize \<le> i"

lemma later_B: "later B_prefix" "later B_key" "later (\<lambda>_ _. True)"
  by (auto simp: later_def B_prefix_def B_key_def)

lemma off32_unat: "unat i < 2 ^ 32 \<Longrightarrow> unat (off32 i) = unat i"
  by (simp add: off32_def unsigned_ucast_eq take_bit_nat_eq_self_iff)

text \<open>An offset recorded at the position, and the field of \<open>n\<close> bytes that follows it.\<close>

lemma at_index_less: "at blob B (t, r) \<Longrightarrow> unat (r_index r) \<le> length blob"
  by (auto simp: at_def reader_ok_def word_le_nat_alt)

lemma in_order_append: "in_order (fs @ gs) = (\<lambda>s. bindR (in_order fs s) (in_order gs))"
proof (induction fs)
  case (Cons f fs)
  show ?case by (rule ext) (simp add: Cons bindR_assoc)
qed (rule ext, simp)

lemma keepsD: "keeps Q f \<Longrightarrow> Q s \<Longrightarrow> safe (f s) Q"
  by (simp add: keeps_def del: split_paired_All)

lemma header_safe:
  assumes "at blob (\<lambda>_ _. True) s" "length blob < 2 ^ 32"
  shows "safe (in_order (parse_header exceeds_exact) s) (at blob B_prefix)"
proof -
  let ?T = "\<lambda>_ _. True" and ?N = "\<lambda>t i. unat (o_nonce t) + kNonceSize \<le> i"
  let ?h1 = "take 4 (parse_header exceeds_exact)"
  let ?h2 = "take 2 (drop 6 (parse_header exceeds_exact))"
  have split: "parse_header exceeds_exact = ?h1 @ [set_offset (\<lambda>v t. t\<lparr>o_nonce := v\<rparr>),
      rd_skip exceeds_exact (of_nat kNonceSize)] @ ?h2 @ [set_offset (\<lambda>v t. t\<lparr>o_miner_tx_prefix := v\<rparr>)]"
    by (simp add: parse_header_def)
  have T: "stable ?T put \<longleftrightarrow> (\<forall>v t. t_blob (put v t) = t_blob t)" for put :: "'v \<Rightarrow> template \<Rightarrow> template"
    by (simp add: stable_def)
  have h1: "keeps (at blob ?T) (in_order ?h1)"
    by (rule keeps_in_order) (simp add: parse_header_def keeps_steps later_B T)
  have N: "later ?N" by (auto simp: later_def)
  have h2: "keeps (at blob ?N) (in_order ?h2)"
    by (rule keeps_in_order) (simp add: parse_header_def keeps_steps N stable_def)
  show ?thesis
    apply (subst split)
    unfolding in_order_append
  proof (rule safe_bindR [OF keepsD [OF h1 assms(1)]])
    fix s1 assume s1: "at blob ?T s1"
    obtain t r where tr: "s1 = (t, r)" by (cases s1)
    have ok: "reader_ok r" using s1 by (simp add: tr at_ok)
    have i: "unat (r_index r) < 2 ^ 32" using at_index_less [OF s1 [unfolded tr]] assms(2) by simp
    have "safe (in_order [set_offset (\<lambda>v t. t\<lparr>o_nonce := v\<rparr>), rd_skip exceeds_exact (of_nat kNonceSize)] s1)
        (at blob ?N)"
      using br_skip_safe [OF ok, of "of_nat kNonceSize"] s1 off32_unat [OF i]
        unat_add_index [of "r_index r" 4 "r_size r"]
      by (cases "br_skip exceeds_exact (of_nat kNonceSize) r")
        (auto simp: tr set_offset_def rd_skip_def at_def advances_def kNonceSize_def br_skip_def exceeds_exact_def
          split: if_splits)
    then show "safe (bindR (in_order [set_offset (\<lambda>v t. t\<lparr>o_nonce := v\<rparr>), rd_skip exceeds_exact (of_nat kNonceSize)] s1)
       (\<lambda>s. bindR (in_order ?h2 s) (in_order [set_offset (\<lambda>v t. t\<lparr>o_miner_tx_prefix := v\<rparr>)]))) (at blob B_prefix)"
    proof (rule safe_bindR)
      fix s2 assume s2: "at blob ?N s2"
      show "safe (bindR (in_order ?h2 s2) (in_order [set_offset (\<lambda>v t. t\<lparr>o_miner_tx_prefix := v\<rparr>)])) (at blob B_prefix)"
      proof (rule safe_bindR [OF keepsD [OF h2 s2]])
        fix s3 assume s3: "at blob ?N s3"
        obtain t3 r3 where tr3: "s3 = (t3, r3)" by (cases s3)
        have "unat (r_index r3) < 2 ^ 32" using at_index_less [OF s3 [unfolded tr3]] assms(2) by simp
        then show "safe (in_order [set_offset (\<lambda>v t. t\<lparr>o_miner_tx_prefix := v\<rparr>)] s3) (at blob B_prefix)"
          using s3 by (simp add: tr3 set_offset_def at_def B_prefix_def off32_unat)
      qed
    qed
  qed
qed

lemma field_safe:
  assumes s: "at blob B s" "later B" "length blob < 2 ^ 32"
    and put: "stable B puta" "stable B putb" "\<And>v t. off (puta v t) = v"
      "\<And>v t. off (putb v t) = off t"
    and n: "n < 2 ^ 64"
  shows "safe (in_order [set_offset puta, rd_span exceeds_exact n putb] s)
    (at blob (\<lambda>t i. B t i \<and> unat (off t) + n \<le> i))"
proof -
  obtain t r where tr: "s = (t, r)" by (cases s)
  have ok: "reader_ok r" using s(1) by (simp add: tr at_ok)
  have i: "unat (r_index r) < 2 ^ 32" using at_index_less [OF s(1) [unfolded tr]] s(3) by simp
  have t': "B (putb v (puta w t)) (unat (r_index r))" "t_blob (putb v (puta w t)) = blob"
    "off (putb v (puta w t)) = w" for v w
    using s(1) put by (simp_all add: at_def tr stable_def del: split_paired_All)
  show ?thesis
  proof (cases "br_span exceeds_exact (of_nat n) r")
    case (Inl e)
    then show ?thesis
      using br_span_safe [OF ok, of "of_nat n"] by (simp add: tr set_offset_def rd_span_def)
  next
    case (Inr x)
    obtain sp r' where x: "x = (sp, r')" by (cases x)
    have r': "reader_ok r'" "advances r r'" "unat (r_index r) + unat (of_nat n :: u64) = unat (r_index r')"
      using br_span_safe [OF ok, of "of_nat n"] Inr x by simp_all
    have "unat (of_nat n :: u64) = n"
      using n by (simp add: unsigned_of_nat take_bit_nat_eq_self_iff)
    then show ?thesis
      using r' t' [of sp "off32 (r_index r)"] s(1,2) off32_unat [OF i]
      by (auto simp: tr set_offset_def rd_span_def Inr x at_def advances_def later_def)
  qed
qed

definition B_extra :: "template \<Rightarrow> nat \<Rightarrow> bool" where
  "B_extra t i \<longleftrightarrow> B_key t i \<and> unat (o_tx_extra t) = i"

lemma miner_tx_safe:
  assumes "at blob B_prefix s" "length blob < 2 ^ 32"
  shows "safe (in_order (parse_miner_tx exceeds_exact) s) (at blob B_extra)"
proof -
  let ?A = "take 12 (parse_miner_tx exceeds_exact)"
  let ?C = "take 4 (drop 14 (parse_miner_tx exceeds_exact))"
  let ?K = "[set_offset (\<lambda>v t. t\<lparr>o_eph_public_key := v\<rparr>),
      rd_span exceeds_exact kKeySize (\<lambda>v t. t\<lparr>t_ephPublicKey := v\<rparr>)]"
  let ?X = "[set_offset (\<lambda>v t. t\<lparr>o_tx_extra := v\<rparr>)]"
  have split: "parse_miner_tx exceeds_exact = ?A @ ?K @ ?C @ ?X"
    by (simp add: parse_miner_tx_def)
  have A: "keeps (at blob B_prefix) (in_order ?A)"
    by (rule keeps_in_order) (simp add: parse_miner_tx_def keeps_steps later_B stable_def B_prefix_def)
  have C: "keeps (at blob B_key) (in_order ?C)"
  proof -
    have z: "keeps (at blob B_key) (\<lambda>s. zephyr_outputs exceeds_exact (unat (t_numOutputs (fst s)) - 1) s)"
      using keeps_zephyr_outputs [OF later_B(2)] by (simp add: keeps_def)
    have "keeps (at blob B_key) (in_order
             [check_t (\<lambda>t. t_outputType t = 2),
              rd_skip_sized exceeds_exact,
              rd_byte (\<lambda>v t. t\<lparr>t_viewTag := v\<rparr>),
              \<lambda>s. zephyr_outputs exceeds_exact (unat (t_numOutputs (fst s)) - 1) s])"
      by (rule keeps_in_order) (use z in \<open>simp add: keeps_steps later_B stable_def B_key_def B_prefix_def\<close>)
    moreover have "keeps (at blob B_key) (when_t (\<lambda>t. t_outputType t = 3) (rd_byte (\<lambda>v t. t\<lparr>t_viewTag := v\<rparr>)))"
      by (simp add: keeps_steps later_B stable_def B_key_def B_prefix_def)
    ultimately have outputs: "keeps (at blob B_key) (\<lambda>s. (if t_coin (fst s) = ZEPHYR then
           in_order
             [check_t (\<lambda>t. t_outputType t = 2),
              rd_skip_sized exceeds_exact,
              rd_byte (\<lambda>v t. t\<lparr>t_viewTag := v\<rparr>),
              \<lambda>s. zephyr_outputs exceeds_exact (unat (t_numOutputs (fst s)) - 1) s] s
         else when_t (\<lambda>t. t_outputType t = 3) (rd_byte (\<lambda>v t. t\<lparr>t_viewTag := v\<rparr>)) s))"
      by (simp add: keeps_def del: in_order.simps)
    show ?thesis
      by (rule keeps_in_order)
        (use outputs in \<open>simp add: parse_miner_tx_def keeps_steps later_B stable_def B_key_def B_prefix_def
          del: in_order.simps\<close>)
  qed
  show ?thesis
    apply (subst split)
    unfolding in_order_append
  proof (rule safe_bindR [OF keepsD [OF A assms(1)]])
    fix s1 assume s1: "at blob B_prefix s1"
    have K: "safe (in_order ?K s1) (at blob B_key)"
      using field_safe [OF s1 later_B(1) assms(2), where off = o_eph_public_key and n = kKeySize
          and puta = "\<lambda>v t. t\<lparr>o_eph_public_key := v\<rparr>" and putb = "\<lambda>v t. t\<lparr>t_ephPublicKey := v\<rparr>"]
      by (simp add: stable_def B_prefix_def B_key_def [abs_def] kKeySize_def)
    show "safe (bindR (in_order ?K s1) (\<lambda>s. bindR (in_order ?C s) (in_order ?X))) (at blob B_extra)"
    proof (rule safe_bindR [OF K])
      fix s2 assume s2: "at blob B_key s2"
      show "safe (bindR (in_order ?C s2) (in_order ?X)) (at blob B_extra)"
      proof (rule safe_bindR [OF keepsD [OF C s2]])
        fix s3 assume s3: "at blob B_key s3"
        obtain t3 r3 where tr3: "s3 = (t3, r3)" by (cases s3)
        have "unat (r_index r3) < 2 ^ 32" using at_index_less [OF s3 [unfolded tr3]] assms(2) by simp
        then show "safe (in_order ?X s3) (at blob B_extra)"
          using s3 by (simp add: tr3 set_offset_def at_def B_extra_def B_key_def B_prefix_def off32_unat)
      qed
    qed
  qed
qed

end
