(* ===== verification/BlockTemplateSafety.thy ===== *)
theory BlockTemplateSafety
  imports BlockTemplateProps
begin

text \<open>
  The parser with the exact bounds test always returns, makes no access outside the blob, and
  the offsets of an accepted template lie inside the blob.
\<close>

subsection \<open>The extra field\<close>

text \<open>A field of the extra: its recorded offset is that of its span, inside \<open>[X, X + n)\<close>.\<close>

definition field_in :: "nat \<Rightarrow> nat \<Rightarrow> u32 \<Rightarrow> span \<Rightarrow> bool" where
  "field_in X n off sp \<longleftrightarrow> X \<le> unat off \<and> unat off + unat (snd sp) \<le> X + n \<and> unat (fst sp) = unat off"

definition placed :: "template \<Rightarrow> template \<Rightarrow> bool" where
  "placed t0 t \<longleftrightarrow> (let X = unat (o_tx_extra t0); n = unat (t_extraSize t0) in
     (o_tx_pubkey t = o_tx_pubkey t0 \<or>
       X \<le> unat (o_tx_pubkey t) \<and> unat (o_tx_pubkey t) + kKeySize \<le> X + n) \<and>
     (o_tx_extra_nonce t = o_tx_extra_nonce t0 \<and> t_txExtraNonce t = t_txExtraNonce t0 \<or>
       field_in X n (o_tx_extra_nonce t) (t_txExtraNonce t)) \<and>
     (o_tx_extra_merge_mining_tag t = o_tx_extra_merge_mining_tag t0 \<and> t_txMergeMiningTag t = t_txMergeMiningTag t0 \<or>
       field_in X n (o_tx_extra_merge_mining_tag t) (t_txMergeMiningTag t)))"

text \<open>The loop changes nothing else.\<close>

definition same_base :: "template \<Rightarrow> template \<Rightarrow> bool" where
  "same_base t0 t \<longleftrightarrow> t\<lparr>o_tx_pubkey := o_tx_pubkey t0, o_tx_extra_nonce := o_tx_extra_nonce t0,
     o_tx_extra_merge_mining_tag := o_tx_extra_merge_mining_tag t0, t_txExtraNonce := t_txExtraNonce t0,
     t_txMergeMiningTag := t_txMergeMiningTag t0\<rparr> = t0"

lemma same_base_fields:
  assumes "same_base t0 t"
  shows "t_blob t = t_blob t0" "t_coin t = t_coin t0" "o_nonce t = o_nonce t0"
    "o_miner_tx_prefix t = o_miner_tx_prefix t0" "o_eph_public_key t = o_eph_public_key t0"
    "o_tx_extra t = o_tx_extra t0" "t_extraSize t = t_extraSize t0"
  using assms arg_cong [OF assms [unfolded same_base_def], of t_blob]
    arg_cong [OF assms [unfolded same_base_def], of t_coin]
    arg_cong [OF assms [unfolded same_base_def], of o_nonce]
    arg_cong [OF assms [unfolded same_base_def], of o_miner_tx_prefix]
    arg_cong [OF assms [unfolded same_base_def], of o_eph_public_key]
    arg_cong [OF assms [unfolded same_base_def], of o_tx_extra]
    arg_cong [OF assms [unfolded same_base_def], of t_extraSize]
  by simp_all

definition extra_inv :: "template \<Rightarrow> extra_state \<Rightarrow> bool" where
  "extra_inv t0 s \<longleftrightarrow> (case s of (t, r, first) \<Rightarrow>
     reader_ok r \<and> r_size r = t_extraSize t0 \<and> placed t0 t \<and>
     same_base t0 t)"

lemma extra_pos_unat:
  assumes "unat (o_tx_extra t) + unat i < 2 ^ 32"
  shows "unat (extra_pos t i) = unat (o_tx_extra t) + unat i"
proof -
  have "unat (ucast (o_tx_extra t) :: u64) = unat (o_tx_extra t)"
    using unat_u32_less [of "o_tx_extra t"] by (simp add: unsigned_ucast_eq take_bit_nat_eq_self_iff)
  then show ?thesis
    using assms by (simp add: extra_pos_def unat_word_ariths)
qed

lemma extra_field_safe:
  assumes r: "reader_ok r" "r_size r = sz" and X: "unat (o_tx_extra t) + unat sz < 2 ^ 32"
    and put: "\<And>v t. o_tx_extra (put_off v t) = o_tx_extra t"
  shows "safe (extra_field exceeds_exact put_off put_span t r first)
    (\<lambda>(t', r', first'). reader_ok r' \<and> r_size r' = sz \<and> unat (r_index r) < unat (r_index r') \<and>
      (\<exists>off sp. t' = put_span sp (put_off off t) \<and> field_in (unat (o_tx_extra t)) (unat sz) off sp))"
  unfolding extra_field_def
proof (rule safe_bindR [OF br_varint_safe [OF r(1)]], clarify)
  fix n r1
  assume r1: "reader_ok r1" "advances r r1" "unat (r_index r) < unat (r_index r1)"
  then have i1: "unat (r_index r1) \<le> unat sz"
    using r by (simp add: reader_ok_def advances_def word_le_nat_alt)
  let ?off = "off32 (extra_pos t (r_index r1))"
  have off: "unat ?off = unat (o_tx_extra t) + unat (r_index r1)"
    using X i1 by (subst off32_unat) (simp_all add: extra_pos_unat)
  show "safe (let t = put_off ?off t
          in bindR (br_span exceeds_exact n r1)
              (\<lambda>((pos, n), r). Inr (put_span (extra_pos t pos, n) t, r, first)))
    (\<lambda>(t', r', first'). reader_ok r' \<and> r_size r' = sz \<and> unat (r_index r) < unat (r_index r') \<and>
      (\<exists>off sp. t' = put_span sp (put_off off t) \<and> field_in (unat (o_tx_extra t)) (unat sz) off sp))"
    unfolding Let_def
  proof (rule safe_bindR [OF br_span_safe [OF r1(1)]], clarify)
    fix r2
    assume r2: "reader_ok r2" "advances r1 r2" "unat (r_index r1) + unat n = unat (r_index r2)"
    then have "unat (r_index r2) \<le> unat sz"
      using r r1 by (simp add: reader_ok_def advances_def word_le_nat_alt)
    moreover have "extra_pos (put_off ?off t) (r_index r1) = extra_pos t (r_index r1)"
      by (simp add: extra_pos_def put)
    ultimately have "field_in (unat (o_tx_extra t)) (unat sz) ?off (extra_pos (put_off ?off t) (r_index r1), n)"
      using r2 off X i1 by (simp add: field_in_def extra_pos_unat)
    then show "safe (Inr (put_span (extra_pos (put_off ?off t) (r_index r1), n) (put_off ?off t), r2, first))
      (\<lambda>(t', r', first'). reader_ok r' \<and> r_size r' = sz \<and> unat (r_index r) < unat (r_index r') \<and>
        (\<exists>off sp. t' = put_span sp (put_off off t) \<and> field_in (unat (o_tx_extra t)) (unat sz) off sp))"
      using r r1 r2 by (auto simp: advances_def)
  qed
qed

lemma extra_step_safe:
  assumes inv: "extra_inv t0 s" and X: "unat (o_tx_extra t0) + unat (t_extraSize t0) < 2 ^ 32"
  shows "safe (extra_step exceeds_exact s)
    (\<lambda>s'. extra_inv t0 s' \<and> unat (r_index (fst (snd s))) < unat (r_index (fst (snd s'))))"
proof -
  obtain t r first where s: "s = (t, r, first)" by (cases s)
  have r: "reader_ok r" "r_size r = t_extraSize t0" and p: "placed t0 t"
    and base: "same_base t0 t"
    using inv by (simp_all add: s extra_inv_def)
  have tx: "o_tx_extra t = o_tx_extra t0" using base by (rule same_base_fields)
  have X': "unat (o_tx_extra t) + unat (t_extraSize t0) < 2 ^ 32" using X by (simp add: tx)
  show ?thesis
    unfolding s extra_step_def prod.case
  proof (rule safe_bindR [OF br_varint_safe [OF r(1)]], clarify, unfold fst_conv snd_conv)
    fix tag r1
    assume r1: "reader_ok r1" "advances r r1" "unat (r_index r) < unat (r_index r1)"
    have r1': "r_size r1 = t_extraSize t0" using r r1 by (simp add: advances_def)
    let ?P = "\<lambda>s'. extra_inv t0 s' \<and> unat (r_index r) < unat (r_index (fst (snd s')))"
    let ?t = "if first then t\<lparr>o_tx_pubkey := off32 (extra_pos t (r_index r1))\<rparr> else t"
    have key: "safe (bindR (br_skip exceeds_exact (of_nat kKeySize) r1) (\<lambda>r. Inr (?t, r, False))) ?P"
    proof (cases "br_skip exceeds_exact (of_nat kKeySize) r1")
      case (Inl e)
      then show ?thesis using br_skip_safe [OF r1(1), of "of_nat kKeySize"] by simp
    next
      case (Inr r2)
      then have le: "unat (r_index r1) + kKeySize \<le> unat (t_extraSize t0)"
        by (simp add: br_skip_def exceeds_exact_def r1' kKeySize_def split: if_splits)
      have r2: "reader_ok r2" "advances r1 r2"
        using br_skip_safe [OF r1(1), of "of_nat kKeySize"] Inr by simp_all
      have "unat (off32 (extra_pos t (r_index r1))) = unat (o_tx_extra t) + unat (r_index r1)"
        using X' le by (subst off32_unat) (simp_all add: extra_pos_unat)
      then have "placed t0 ?t"
        using p le by (auto simp: placed_def Let_def tx)
      moreover have "same_base t0 ?t"
        using base by (simp add: same_base_def)
      ultimately show ?thesis
        using r1 r2 r1' by (auto simp: Inr extra_inv_def advances_def word_le_nat_alt simp del: if_split_asm split del: if_split)
    qed
    have nonce: "safe (extra_field exceeds_exact (\<lambda>v t. t\<lparr>o_tx_extra_nonce := v\<rparr>) (\<lambda>v t. t\<lparr>t_txExtraNonce := v\<rparr>) t r1 first) ?P"
      by (rule safe_weaken [OF extra_field_safe [OF r1(1) r1' X']])
        (use p base r1(3) in \<open>auto simp: extra_inv_def placed_def Let_def tx same_base_def\<close>)
    have mm: "safe (extra_field exceeds_exact (\<lambda>v t. t\<lparr>o_tx_extra_merge_mining_tag := v\<rparr>)
        (\<lambda>v t. t\<lparr>t_txMergeMiningTag := v\<rparr>) t r1 first) ?P"
      by (rule safe_weaken [OF extra_field_safe [OF r1(1) r1' X']])
        (use p base r1(3) in \<open>auto simp: extra_inv_def placed_def Let_def tx same_base_def\<close>)
    show "safe (if tag = 1 then let t = ?t in bindR (br_skip exceeds_exact (of_nat kKeySize) r1) (\<lambda>r. Inr (t, r, False))
      else if tag = 2 then extra_field exceeds_exact (\<lambda>v t. t\<lparr>o_tx_extra_nonce := v\<rparr>) (\<lambda>v t. t\<lparr>t_txExtraNonce := v\<rparr>) t r1 first
      else if tag = 3 then extra_field exceeds_exact (\<lambda>v t. t\<lparr>o_tx_extra_merge_mining_tag := v\<rparr>)
        (\<lambda>v t. t\<lparr>t_txMergeMiningTag := v\<rparr>) t r1 first
      else Inl Refused) ?P"
      using key nonce mm by (simp add: Let_def)
  qed
qed

lemma extra_loop_safe:
  assumes "extra_inv t0 s" and X: "unat (o_tx_extra t0) + unat (t_extraSize t0) < 2 ^ 32"
  shows "\<exists>m. extra_loop exceeds_exact s = Some m \<and> safe m (\<lambda>t. placed t0 t \<and>
    same_base t0 t)"
  using assms(1)
proof (induction "unat (t_extraSize t0) - unat (r_index (fst (snd s)))" arbitrary: s rule: less_induct)
  case less
  obtain t r first where s: "s = (t, r, first)" by (cases s)
  have sz: "t_extraSize t = t_extraSize t0" using less.prems by (simp add: s extra_inv_def same_base_fields)
  show ?case
  proof (cases "r_index r < t_extraSize t0")
    case False
    then show ?thesis
      using less.prems by (subst extra_loop.simps) (auto simp: s sz extra_inv_def)
  next
    case True
    note step = extra_step_safe [OF less.prems X]
    show ?thesis
    proof (cases "extra_step exceeds_exact s")
      case (Inl e)
      then show ?thesis using step True by (subst extra_loop.simps) (simp add: s sz)
    next
      case (Inr s')
      have "\<exists>m. extra_loop exceeds_exact s' = Some m \<and> safe m (\<lambda>t. placed t0 t \<and>
        same_base t0 t)"
        by (rule less.hyps) (use step Inr True in \<open>auto simp: s word_less_nat_alt\<close>)
      then show ?thesis
        using True Inr by (subst extra_loop.simps) (simp add: s sz)
    qed
  qed
qed

subsection \<open>The whole parser\<close>

lemma safe_conj: "safe m P \<Longrightarrow> safe m Q \<Longrightarrow> safe m (\<lambda>x. P x \<and> Q x)"
  by (cases m) auto

text \<open>The offsets the extra field sets, before it is read.\<close>

definition stale :: "template \<Rightarrow> template \<Rightarrow> bool" where
  "stale t0 t \<longleftrightarrow> o_tx_pubkey t = o_tx_pubkey t0 \<and> o_tx_extra_nonce t = o_tx_extra_nonce t0 \<and>
     t_txExtraNonce t = t_txExtraNonce t0 \<and> o_tx_extra_merge_mining_tag t = o_tx_extra_merge_mining_tag t0 \<and>
     t_txMergeMiningTag t = t_txMergeMiningTag t0"

abbreviation at_stale :: "template \<Rightarrow> template \<times> reader \<Rightarrow> bool" where
  "at_stale t0 \<equiv> at (t_blob t0) (\<lambda>t i. stale t0 t)"

lemma later_const: "later (\<lambda>t i. Q t)"
  by (simp add: later_def)

lemma stale_header: "keeps (at_stale t0) (in_order (parse_header exceeds_exact))"
  by (rule keeps_in_order) (simp add: parse_header_def keeps_steps later_const stable_def stale_def)

lemma stale_miner_tx: "keeps (at_stale t0) (in_order (parse_miner_tx exceeds_exact))"
proof -
  have z: "keeps (at_stale t0) (\<lambda>s. zephyr_outputs exceeds_exact (unat (t_numOutputs (fst s)) - 1) s)"
    using keeps_zephyr_outputs [OF later_const] by (simp add: keeps_def)
  have "keeps (at_stale t0) (in_order
             [check_t (\<lambda>t. t_outputType t = 2),
              rd_skip_sized exceeds_exact,
              rd_byte (\<lambda>v t. t\<lparr>t_viewTag := v\<rparr>),
              \<lambda>s. zephyr_outputs exceeds_exact (unat (t_numOutputs (fst s)) - 1) s])"
    by (rule keeps_in_order) (use z in \<open>simp add: keeps_steps later_const stable_def stale_def\<close>)
  moreover have "keeps (at_stale t0) (when_t (\<lambda>t. t_outputType t = 3) (rd_byte (\<lambda>v t. t\<lparr>t_viewTag := v\<rparr>)))"
    by (simp add: keeps_steps later_const stable_def stale_def)
  ultimately have outputs: "keeps (at_stale t0) (\<lambda>s. (if t_coin (fst s) = ZEPHYR then
         in_order
           [check_t (\<lambda>t. t_outputType t = 2),
            rd_skip_sized exceeds_exact,
            rd_byte (\<lambda>v t. t\<lparr>t_viewTag := v\<rparr>),
            \<lambda>s. zephyr_outputs exceeds_exact (unat (t_numOutputs (fst s)) - 1) s] s
       else when_t (\<lambda>t. t_outputType t = 3) (rd_byte (\<lambda>v t. t\<lparr>t_viewTag := v\<rparr>)) s))"
    by (simp add: keeps_def del: in_order.simps)
  show ?thesis
    by (rule keeps_in_order)
      (use outputs in \<open>simp add: parse_miner_tx_def keeps_steps later_const stable_def stale_def
        del: in_order.simps\<close>)
qed

lemma start_safe:
  assumes "length (t_blob t0) < 2 ^ 32"
  shows "safe (in_order (parse_header exceeds_exact @ parse_miner_tx exceeds_exact)
      (t0, new_reader (t_blob t0) (of_nat (length (t_blob t0)))))
    (\<lambda>s. at (t_blob t0) B_extra s \<and> at_stale t0 s)"
proof -
  let ?r = "new_reader (t_blob t0) (of_nat (length (t_blob t0)))"
  have r: "reader_ok ?r"
    using assms by (simp add: reader_ok_def new_reader_def unsigned_of_nat take_bit_nat_eq_self)
  then have T: "at (t_blob t0) (\<lambda>_ _. True) (t0, ?r)" and S: "at_stale t0 (t0, ?r)"
    by (simp_all add: at_def new_reader_def stale_def)
  show ?thesis
    unfolding in_order_append
  proof (rule safe_bindR [OF safe_conj [OF header_safe [OF T assms] keepsD [OF stale_header S]]], elim conjE)
    fix s assume "at (t_blob t0) B_prefix s" and "at_stale t0 s"
    then show "safe (in_order (parse_miner_tx exceeds_exact) s) (\<lambda>s. at (t_blob t0) B_extra s \<and> at_stale t0 s)"
      by (intro safe_conj miner_tx_safe [OF _ assms] keepsD [OF stale_miner_tx])
  qed
qed

text \<open>After the extra field: the position is past it.\<close>

definition recorded :: "template \<Rightarrow> template \<Rightarrow> bool" where
  "recorded t0 t \<longleftrightarrow> B_key t (unat (o_tx_extra t)) \<and>
     (let X = unat (o_tx_extra t); n = unat (t_extraSize t) in
      (o_tx_pubkey t = o_tx_pubkey t0 \<or>
        X \<le> unat (o_tx_pubkey t) \<and> unat (o_tx_pubkey t) + kKeySize \<le> X + n) \<and>
      (o_tx_extra_nonce t = o_tx_extra_nonce t0 \<and> t_txExtraNonce t = t_txExtraNonce t0 \<or>
        field_in X n (o_tx_extra_nonce t) (t_txExtraNonce t)) \<and>
      (o_tx_extra_merge_mining_tag t = o_tx_extra_merge_mining_tag t0 \<and> t_txMergeMiningTag t = t_txMergeMiningTag t0 \<or>
        field_in X n (o_tx_extra_merge_mining_tag t) (t_txMergeMiningTag t)))"

definition B_tail :: "template \<Rightarrow> template \<Rightarrow> nat \<Rightarrow> bool" where
  "B_tail t0 t i \<longleftrightarrow> recorded t0 t \<and> unat (o_tx_extra t) + unat (t_extraSize t) \<le> i"

definition B_end :: "template \<Rightarrow> template \<Rightarrow> nat \<Rightarrow> bool" where
  "B_end t0 t i \<longleftrightarrow> recorded t0 t \<and>
     unat (o_tx_extra t) + unat (t_extraSize t) \<le> unat (o_miner_tx_prefix_end t) \<and>
     unat (o_miner_tx_prefix_end t) = i"

lemma prefix_end_safe:
  assumes "at blob (B_tail t0) s" "length blob < 2 ^ 32"
  shows "safe (in_order parse_prefix_end s) (at blob (B_end t0))"
proof -
  have 1: "keeps (at blob (B_tail t0)) (in_order (take 1 parse_prefix_end))"
    by (rule keeps_in_order, simp add: parse_prefix_end_def del: in_order.simps,
        intro keeps_when_t keeps_in_order)
      (simp add: keeps_rd_varint later_def B_tail_def stable_def)
  have split: "parse_prefix_end = take 1 parse_prefix_end @ [set_offset (\<lambda>v t. t\<lparr>o_miner_tx_prefix_end := v\<rparr>)]"
    by (simp add: parse_prefix_end_def)
  show ?thesis
    apply (subst split)
    unfolding in_order_append
  proof (rule safe_bindR [OF keepsD [OF 1 assms(1)]])
    fix s1 assume s1: "at blob (B_tail t0) s1"
    obtain t r where tr: "s1 = (t, r)" by (cases s1)
    have "unat (r_index r) < 2 ^ 32" using at_index_less [OF s1 [unfolded tr]] assms(2) by simp
    then show "safe (in_order [set_offset (\<lambda>v t. t\<lparr>o_miner_tx_prefix_end := v\<rparr>)] s1) (at blob (B_end t0))"
      using s1 by (simp add: tr set_offset_def at_def B_end_def B_tail_def recorded_def B_key_def B_prefix_def
        off32_unat)
  qed
qed

definition accepted :: "template \<Rightarrow> template \<Rightarrow> bool" where
  "accepted t0 t \<longleftrightarrow> t_blob t = t_blob t0 \<and> recorded t0 t \<and>
     unat (o_tx_extra t) + unat (t_extraSize t) \<le> unat (o_miner_tx_prefix_end t) \<and>
     unat (o_miner_tx_prefix_end t) < length (t_blob t)"

lemma tail_safe:
  assumes "at (t_blob t0) (B_tail t0) s" "length (t_blob t0) < 2 ^ 32"
  shows "safe (parse_tail exceeds_exact m False s) (accepted t0)"
  unfolding parse_tail_def
proof (rule safe_bindR [OF prefix_end_safe [OF assms]], clarify)
  fix t r assume s: "at (t_blob t0) (B_end t0) (t, r)"
  have ok: "reader_ok r" and data: "r_data r = t_blob t0" "t_blob t = t_blob t0" and B: "B_end t0 t (unat (r_index r))"
    using s by (simp_all add: at_def)
  show "safe (bindR (br_byte r) (\<lambda>(vin_rct_type, r).
       if t_coin t = TOWNFORGE \<and> t_height t mod 720 = 0 then Inr t
       else require (vin_rct_type = 0)
         (let miner_tx_end = r_index r in
          require (miner_tx_end = ucast (o_miner_tx_prefix_end t) + 1)
          (bindR (prefix_end_byte t) (\<lambda>b. require (b = 0)
            (bindR (br_varint r) (\<lambda>(n, r).
              let t = t\<lparr>t_numHashes := n\<rparr> in
              if False then parse_hashes exceeds_exact m (t, r) else Inr t))))))) (accepted t0)"
  proof (rule safe_bindR [OF br_byte_safe [OF ok]], clarify)
    fix r1 assume r1: "reader_ok r1" "advances r r1" "unat (r_index r1) = Suc (unat (r_index r))"
    have len: "unat (r_index r) < length (t_blob t0)"
      using r1 data by (simp add: reader_ok_def advances_def word_le_nat_alt)
    have acc: "accepted t0 t"
      using B len data by (simp add: accepted_def B_end_def)
    have acc': "accepted t0 (t\<lparr>t_numHashes := n\<rparr>)" for n
      using acc data by (simp add: accepted_def recorded_def B_key_def B_prefix_def)
    have byte: "safe (prefix_end_byte t) (\<lambda>_. True)"
      using acc by (auto simp: prefix_end_byte_def rd_def accepted_def)
    have rest: "safe (bindR (br_varint r1) (\<lambda>(n, r). Inr (t\<lparr>t_numHashes := n\<rparr>))) (accepted t0)"
      by (rule safe_bindR [OF br_varint_safe [OF r1(1)]]) (auto simp: acc')
    show "safe (if t_coin t = TOWNFORGE \<and> t_height t mod 720 = 0 then Inr t
       else require (r_data r ! unat (r_index r) = 0)
         (let miner_tx_end = r_index r1 in
          require (miner_tx_end = ucast (o_miner_tx_prefix_end t) + 1)
          (bindR (prefix_end_byte t) (\<lambda>b. require (b = 0)
            (bindR (br_varint r1) (\<lambda>(n, r).
              let t = t\<lparr>t_numHashes := n\<rparr> in
              if False then parse_hashes exceeds_exact m (t, r) else Inr t)))))) (accepted t0)"
      using acc rest by (simp add: Let_def safe_require safe_bindR [OF byte])
  qed
qed

lemma exact_parser_safe:
  assumes "length (t_blob t0) < 2 ^ 32"
  shows "\<exists>res. parse_with exceeds_exact m False t0 = Some res \<and> safe res (accepted t0)"
proof -
  let ?s = "(t0, new_reader (t_blob t0) (of_nat (length (t_blob t0))))"
  note start = start_safe [OF assms]
  show ?thesis
  proof (cases "in_order (parse_header exceeds_exact @ parse_miner_tx exceeds_exact) ?s")
    case (Inl e)
    then show ?thesis using start by (simp add: parse_with_def)
  next
    case (Inr tr)
    obtain t r where tr: "tr = (t, r)" by (cases tr)
    have at1: "at (t_blob t0) B_extra (t, r)" and st: "stale t0 t"
      using start by (simp_all add: Inr tr at_def)
    have ok: "reader_ok r" and data: "r_data r = t_blob t0" "t_blob t = t_blob t0"
      and B: "B_extra t (unat (r_index r))"
      using at1 by (simp_all add: at_def)
    show ?thesis
    proof (cases "br_skip exceeds_exact (t_extraSize t) r")
      case (Inl e)
      then show ?thesis
        using br_skip_safe [OF ok, of "t_extraSize t"] by (simp add: parse_with_def Inr tr Let_def \<open>in_order _ _ = _\<close>)
    next
      case skip: (Inr r1)
      have r1: "reader_ok r1" "advances r r1"
        using br_skip_safe [OF ok, of "t_extraSize t"] skip by simp_all
      have r1i: "unat (r_index r1) = unat (r_index r) + unat (t_extraSize t)"
        using skip unat_add_index [of "r_index r" "t_extraSize t" "r_size r"]
        by (auto simp: br_skip_def exceeds_exact_def split: if_splits)
      have X: "unat (o_tx_extra t) = unat (r_index r)" using B by (simp add: B_extra_def)
      have le: "unat (o_tx_extra t) + unat (t_extraSize t) \<le> length (t_blob t0)"
        using r1 r1i data by (simp add: X reader_ok_def advances_def word_le_nat_alt)
      have "extra_inv t (t, extra_reader t, True)"
        using le data by (simp add: extra_inv_def extra_reader_def new_reader_def reader_ok_def same_base_def
          placed_def)
      then obtain res where loop: "extra_loop exceeds_exact (t, extra_reader t, True) = Some res"
        "safe res (\<lambda>t'. placed t t' \<and> same_base t t')"
        using extra_loop_safe [of t] le assms by fastforce
      show ?thesis
      proof (cases res)
        case (Inl e)
        then show ?thesis
          using loop by (simp add: parse_with_def Inr tr Let_def skip \<open>in_order _ _ = _\<close>)
      next
        case ext: (Inr t2)
        have p: "placed t t2" and b: "same_base t t2" using loop(2) by (simp_all add: ext)
        have "B_tail t0 t2 (unat (r_index r1))"
          using p B st r1i X same_base_fields [OF b]
          by (simp add: B_tail_def recorded_def placed_def Let_def B_extra_def B_key_def B_prefix_def stale_def)
        then have "at (t_blob t0) (B_tail t0) (t2, r1)"
          using r1 data same_base_fields(1) [OF b] by (simp add: at_def advances_def)
        then show ?thesis
          using tail_safe [OF _ assms] loop(1)
          by (simp add: parse_with_def Inr tr Let_def skip ext \<open>in_order _ _ = _\<close>)
      qed
    qed
  qed
qed

end
