(* ===== verification/BlockTemplateExample.thy ===== *)
theory BlockTemplateExample
  imports BlockTemplateSafety
begin

text \<open>
  The statement about the parser, and two concrete templates: one that is accepted, and one on
  which the wrap-around of the bounds test sends the parser round its loop for ever.
\<close>

text \<open>Everything up to the size of the extra field, and the rest.\<close>

definition sample_start :: bytes where
  "sample_start =
    [16, 16, 1,
     170,170,170,170,170,170,170,170,170,170,170,170,170,170,170,170,
     170,170,170,170,170,170,170,170,170,170,170,170,170,170,170,170,
     0, 0, 0, 0,
     2, 60, 1, 255, 5, 1, 7, 2,
     85,85,85,85,85,85,85,85,85,85,85,85,85,85,85,85,
     85,85,85,85,85,85,85,85,85,85,85,85,85,85,85,85]"

definition sample_good :: bytes where
  "sample_good = sample_start @ [0, 0, 0]"

definition sample_endless :: bytes where
  "sample_endless = sample_start @ [11, 2, 0xF5, 255, 255, 255, 255, 255, 255, 255, 255, 1, 0, 0]"


definition sample_template :: "bytes \<Rightarrow> template" where
  "sample_template b = new_template\<lparr>t_blob := b, t_coin := MONERO\<rparr>"

definition endless_template :: template where
  "endless_template = (sample_template sample_endless)\<lparr>
     t_version := (16, 16), t_timestamp := 1, t_prevId := (3, 32), o_nonce := 35, o_miner_tx_prefix := 39,
     t_txVersion := 2, t_unlockTime := 60, t_numInputs := 1, t_inputType := 255, t_height := 5,
     t_numOutputs := 1, t_amount := 7, t_outputType := 2, o_eph_public_key := 47,
     t_ephPublicKey := (47, 32), t_extraSize := 11, o_tx_extra := 80\<rparr>"

lemma sample_endless_start:
  "in_order (parse_header exceeds_exact @ parse_miner_tx exceeds_exact)
     (sample_template sample_endless, new_reader sample_endless (of_nat (length sample_endless))) =
   Inr (endless_template, (new_reader sample_endless 93)\<lparr>r_index := 80\<rparr>)"
  by code_simp

lemma sample_endless_exact:
  "extra_step exceeds_exact (endless_template, extra_reader endless_template, True) = Inl OutOfRange"
proof -
  have tag: "br_varint (extra_reader endless_template) = Inr (2, (extra_reader endless_template)\<lparr>r_index := 1\<rparr>)"
    by code_simp
  have len: "br_varint ((extra_reader endless_template)\<lparr>r_index := 1\<rparr>) =
      Inr (0xFFFFFFFFFFFFFFF5, (extra_reader endless_template)\<lparr>r_index := 11\<rparr>)"
    by code_simp
  have "r_size (extra_reader endless_template) = 11"
    by code_simp
  then show ?thesis
    by (simp add: extra_step_def tag extra_field_def len br_span_def exceeds_exact_def)
qed

text \<open>One turn with the code's test: the position is back at zero.\<close>

definition endless_round :: template where
  "endless_round = endless_template\<lparr>o_tx_extra_nonce := 91, t_txExtraNonce := (91, 0xFFFFFFFFFFFFFFF5)\<rparr>"

lemma sample_endless_turn:
  "extra_step exceeds_wrapping (endless_template, extra_reader endless_template, True) =
     Inr (endless_round, extra_reader endless_template, True)"
  "extra_step exceeds_wrapping (endless_round, extra_reader endless_template, True) =
     Inr (endless_round, extra_reader endless_template, True)"
  by code_simp+

lemma sample_endless_index:
  "r_index (extra_reader endless_template) < t_extraSize endless_template"
  "r_index (extra_reader endless_template) < t_extraSize endless_round"
  by code_simp+

lemma sample_endless_skip:
  "br_skip exceeds_exact (t_extraSize endless_template) ((new_reader sample_endless 93)\<lparr>r_index := 80\<rparr>) =
     Inr ((new_reader sample_endless 93)\<lparr>r_index := 91\<rparr>)"
  by code_simp

lemma extra_loop_endless:
  assumes "extra_step ex s = Inr s" "r_index (fst (snd s)) < t_extraSize (fst s)"
  shows "extra_loop ex s = None"
proof (rule ccontr)
  assume "extra_loop ex s \<noteq> None"
  then obtain res where "extra_loop ex s = Some res" by blast
  then have "\<not> (ex = ex \<and> s = s)"
  proof (rule extra_loop.raw_induct [where P = "\<lambda>e x r. \<not> (e = ex \<and> x = s)", rotated], intro notI, elim conjE)
    fix f e x and r :: "template result"
    assume IH: "\<And>e x r. f e x = Some r \<Longrightarrow> \<not> (e = ex \<and> x = s)"
      and eq: "(if r_index (fst (snd x)) < t_extraSize (fst x)
        then (case extra_step e x of Inl e \<Rightarrow> Some (Inl e) | Inr s' \<Rightarrow> f e s')
        else Some (Inr (fst x))) = Some r" and "e = ex" "x = s"
    then have "f ex s = Some r" using assms by simp
    then show False using IH by blast
  qed
  then show False by simp
qed

lemma parse_endless_exact: "parse_with exceeds_exact m h (sample_template sample_endless) = Some (Inl OutOfRange)"
proof -
  have loop: "extra_loop exceeds_exact (endless_template, extra_reader endless_template, True) = Some (Inl OutOfRange)"
    by (subst extra_loop.simps) (simp add: sample_endless_exact sample_endless_index)
  have "t_blob (sample_template sample_endless) = sample_endless" by (simp add: sample_template_def)
  then show ?thesis
    by (simp add: parse_with_def sample_endless_start sample_endless_skip loop Let_def)
qed

text \<open>
  C34. The bounds test of the reader wraps: a 93-byte template whose extra field claims an extra
  nonce of \<open>2^64 - 11\<close> bytes, which the exact test rejects as out of range, sends the code's
  parser back to the start of the extra field for ever.
\<close>

theorem wrapping_parser_diverges:
  "parse_buffer max_alloc sample_endless MONERO hashes new_template = None \<and>
   parse_with exceeds_exact max_alloc hashes (new_template\<lparr>t_blob := sample_endless, t_coin := MONERO\<rparr>) =
     Some (Inl OutOfRange)"
proof -
  let ?s = "(sample_template sample_endless, new_reader sample_endless (of_nat (length sample_endless)))"
  have start: "in_order (parse_header exceeds_wrapping @ parse_miner_tx exceeds_wrapping) ?s =
      Inr (endless_template, (new_reader sample_endless 93)\<lparr>r_index := 80\<rparr>)"
    using agrees_parse_start [of ?s] by (simp add: agrees_def sample_endless_start)
  have skip: "br_skip exceeds_wrapping (t_extraSize endless_template) ((new_reader sample_endless 93)\<lparr>r_index := 80\<rparr>) =
      Inr ((new_reader sample_endless 93)\<lparr>r_index := 91\<rparr>)"
    using agrees_br_skip [of "t_extraSize endless_template" "(new_reader sample_endless 93)\<lparr>r_index := 80\<rparr>"]
    by (simp add: agrees_def sample_endless_skip)
  have "extra_loop exceeds_wrapping (endless_round, extra_reader endless_template, True) = None"
    by (rule extra_loop_endless) (simp_all add: sample_endless_turn sample_endless_index)
  then have loop: "extra_loop exceeds_wrapping (endless_template, extra_reader endless_template, True) = None"
    by (subst extra_loop.simps) (simp add: sample_endless_turn sample_endless_index)
  have blob: "t_blob (sample_template sample_endless) = sample_endless" by (simp add: sample_template_def)
  have "parse max_alloc hashes (sample_template sample_endless) = None"
    by (simp add: parse_def parse_with_def blob start skip loop Let_def)
  moreover have "\<not> length sample_endless < kMinSize"
    by (simp add: sample_endless_def sample_start_def kMinSize_def)
  ultimately show ?thesis
    using parse_endless_exact [of max_alloc hashes] by (simp add: parse_buffer_def sample_template_def)
qed

definition good_template :: template where
  "good_template = (sample_template sample_good)\<lparr>
     t_version := (16, 16), t_timestamp := 1, t_prevId := (3, 32), o_nonce := 35, o_miner_tx_prefix := 39,
     t_txVersion := 2, t_unlockTime := 60, t_numInputs := 1, t_inputType := 255, t_height := 5,
     t_numOutputs := 1, t_amount := 7, t_outputType := 2, o_eph_public_key := 47,
     t_ephPublicKey := (47, 32), o_tx_extra := 80\<rparr>"

lemma sample_good_start:
  "in_order (parse_header exceeds_exact @ parse_miner_tx exceeds_exact)
     (sample_template sample_good, new_reader sample_good (of_nat (length sample_good))) =
   Inr (good_template, (new_reader sample_good 82)\<lparr>r_index := 80\<rparr>)"
  "br_skip exceeds_exact (t_extraSize good_template) ((new_reader sample_good 82)\<lparr>r_index := 80\<rparr>) =
     Inr ((new_reader sample_good 82)\<lparr>r_index := 80\<rparr>)"
  "\<not> r_index (extra_reader good_template) < t_extraSize good_template"
  "parse_tail exceeds_exact 1000 False (good_template, (new_reader sample_good 82)\<lparr>r_index := 80\<rparr>) =
     Inr (good_template\<lparr>o_miner_tx_prefix_end := 80\<rparr>)"
  by code_simp+



end
