(* ===== verification/Strategy.thy ===== *)
theory Strategy
  imports Main
begin

text \<open>
  The interface between the pool strategies and their surroundings
  (\<^verbatim>\<open>base/kernel/interfaces/IStrategy.h\<close>, \<^verbatim>\<open>IClientListener.h\<close>, \<^verbatim>\<open>IStrategyListener.h\<close>): the calls a
  strategy receives from the program and from its clients, the calls it makes, and what the
  listener relies on. Clients are numbered as the strategy numbers them.
\<close>

subsection \<open>Calls in and out\<close>

text \<open>Jobs and results are opaque to a strategy. \<open>Resume\<close> carries the current job of every client.\<close>

datatype ('j, 'r) event =
    Connect
  | Resume "nat \<Rightarrow> 'j"
  | Stop
  | Submit 'r
  | Closed nat int
  | LoginSuccess nat
  | JobReceived nat 'j
  | ResultAccepted nat 'r

datatype ('j, 'r) action =
    DoConnect nat
  | DoDisconnect nat
  | DoSubmit nat 'r
  | OnActive nat
  | OnPause
  | OnJob nat 'j
  | OnResultAccepted nat 'r

subsection \<open>What the listener sees\<close>

text \<open>
  The listener's contract: the pool that was announced last and not paused since is the only
  one whose jobs arrive.
\<close>

fun listener :: "nat option \<Rightarrow> ('j, 'r) action \<Rightarrow> nat option option" where
  "listener a (OnActive i) = Some (Some i)"
| "listener a OnPause = Some None"
| "listener a (OnJob i j) = (if a = Some i then Some a else None)"
| "listener a (DoConnect i) = Some a"
| "listener a (DoDisconnect i) = Some a"
| "listener a (DoSubmit i r) = Some a"
| "listener a (OnResultAccepted i r) = Some a"

fun listens :: "nat option \<Rightarrow> ('j, 'r) action list \<Rightarrow> nat option option" where
  "listens a [] = Some a"
| "listens a (x # xs) = (case listener a x of None \<Rightarrow> None | Some a' \<Rightarrow> listens a' xs)"

lemma listens_append:
  "listens a (xs @ ys) = (case listens a xs of None \<Rightarrow> None | Some a' \<Rightarrow> listens a' ys)"
  by (induction xs arbitrary: a) (auto split: option.split)

subsection \<open>Strategies\<close>

text \<open>
  A strategy: how it handles an event, which pool it takes to be active, an invariant, and the
  events its clients may send in a state. Handling fails on an access outside the array of pools.
\<close>

locale strategy =
  fixes handle :: "('j, 'r) event \<Rightarrow> 's \<Rightarrow> ('s \<times> ('j, 'r) action list) option"
    and active :: "'s \<Rightarrow> nat option"
    and inv :: "'s \<Rightarrow> bool"
    and may :: "'s \<Rightarrow> ('j, 'r) event \<Rightarrow> bool"
  assumes handles: "inv s \<Longrightarrow> may s e \<Longrightarrow> \<exists>s' acts. handle e s = Some (s', acts) \<and> inv s' \<and>
    listens (active s) acts = Some (active s')"
begin

text \<open>Runs: the events handled one after the other, the actions in the order they are made.\<close>

inductive run :: "'s \<Rightarrow> ('j, 'r) event list \<Rightarrow> ('j, 'r) action list \<Rightarrow> 's \<Rightarrow> bool" where
  finished: "run s [] [] s"
| handled: "may s e \<Longrightarrow> handle e s = Some (s', acts) \<Longrightarrow> run s' es acts' s'' \<Longrightarrow>
    run s (e # es) (acts @ acts') s''"

inductive_cases run_NilE: "run s [] acts s'"
inductive_cases run_ConsE: "run s (e # es) acts s'"

lemma run_inv:
  assumes "run s es acts s'" "inv s"
  shows "inv s' \<and> listens (active s) acts = Some (active s')"
  using assms
proof (induction rule: run.induct)
  case (handled s e s' acts es acts' s'')
  then show ?case
    using handles [of s e] by (auto simp: listens_append)
qed simp

lemma run_continues:
  assumes "run s es acts s'" "inv s" "may s' e"
  shows "\<exists>s'' acts'. handle e s' = Some (s'', acts')"
  using handles [of s' e] run_inv [OF assms(1,2)] assms(3) by blast

end

end
