(* ===== verification/FailoverStrategy.thy ===== *)
theory FailoverStrategy
  imports Strategy
begin

text \<open>
  \<^verbatim>\<open>base/net/stratum/strategies/FailoverStrategy.h\<close> and \<^verbatim>\<open>.cpp\<close>, \<^verbatim>\<open>SinglePoolStrategy.h\<close> and \<^verbatim>\<open>.cpp\<close>.
  A pool is its number; settings and ticks passed on to the clients are left out, as is the
  logging in of \<open>onLogin\<close>, which only forwards.
\<close>

subsection \<open>Failover\<close>

record failover =
  fo_retries :: int
  fo_active :: int
  fo_index :: nat
  fo_pools :: nat

definition failover_new :: "int \<Rightarrow> failover" where
  "failover_new retries = \<lparr> fo_retries = retries, fo_active = -1, fo_index = 0, fo_pools = 0 \<rparr>"

definition failover_add :: "failover \<Rightarrow> failover" where
  "failover_add s = s\<lparr>fo_pools := Suc (fo_pools s)\<rparr>"

definition failover_isActive :: "failover \<Rightarrow> bool" where
  "failover_isActive s \<longleftrightarrow> 0 \<le> fo_active s"

text \<open>\<open>m_pools[i]\<close>\<close>

definition pool_at :: "failover \<Rightarrow> nat \<Rightarrow> nat option" where
  "pool_at s i = (if i < fo_pools s then Some i else None)"

definition failover_active :: "failover \<Rightarrow> nat option" where
  "failover_active s = pool_at s (nat (fo_active s))"

definition failover_client :: "failover \<Rightarrow> nat option" where
  "failover_client s = (if failover_isActive s then failover_active s else pool_at s (fo_index s))"

type_synonym ('j, 'r) effect = "(failover \<times> ('j, 'r) action list) option"

text \<open>The value returned by \<open>submit\<close> is \<open>-1\<close> when nothing is submitted.\<close>

definition failover_submit :: "'r \<Rightarrow> failover \<Rightarrow> ('j, 'r) effect" where
  "failover_submit r s =
     (if \<not> failover_isActive s then Some (s, [])
      else case failover_active s of None \<Rightarrow> None | Some c \<Rightarrow> Some (s, [DoSubmit c r]))"

definition failover_connect :: "failover \<Rightarrow> ('j, 'r) effect" where
  "failover_connect s = (case pool_at s (fo_index s) of None \<Rightarrow> None | Some c \<Rightarrow> Some (s, [DoConnect c]))"

definition failover_resume :: "(nat \<Rightarrow> 'j) \<Rightarrow> failover \<Rightarrow> ('j, 'r) effect" where
  "failover_resume jobs s =
     (if \<not> failover_isActive s then Some (s, [])
      else case failover_active s of None \<Rightarrow> None | Some c \<Rightarrow> Some (s, [OnJob c (jobs c)]))"

definition failover_stop :: "failover \<Rightarrow> ('j, 'r) effect" where
  "failover_stop s =
     Some (s\<lparr>fo_index := 0, fo_active := -1\<rparr>, map DoDisconnect [0 ..< fo_pools s] @ [OnPause])"

text \<open>The tail of \<open>onClose\<close>: the next pool, when the closed one is the last that was tried.\<close>

definition failover_next :: "nat \<Rightarrow> failover \<Rightarrow> ('j, 'r) effect" where
  "failover_next c s =
     (if fo_index s = c \<and> 1 < fo_pools s - fo_index s
      then case pool_at s (Suc (fo_index s)) of
          None \<Rightarrow> None
        | Some p \<Rightarrow> Some (s\<lparr>fo_index := Suc (fo_index s)\<rparr>, [DoConnect p])
      else Some (s, []))"

definition failover_onClose :: "nat \<Rightarrow> int \<Rightarrow> failover \<Rightarrow> ('j, 'r) effect" where
  "failover_onClose c failures s =
     (if failures = -1 then Some (s, [])
      else
        let was_active = (fo_active s = int c);
            s = (if was_active then s\<lparr>fo_active := -1\<rparr> else s);
            pause = (if was_active then [OnPause] else [])
        in if fo_index s = 0 \<and> failures < fo_retries s then Some (s, pause)
           else case failover_next c s of None \<Rightarrow> None | Some (s, acts) \<Rightarrow> Some (s, pause @ acts))"

definition failover_onJobReceived :: "nat \<Rightarrow> 'j \<Rightarrow> failover \<Rightarrow> ('j, 'r) effect" where
  "failover_onJobReceived c job s = Some (s, if fo_active s = int c then [OnJob c job] else [])"

definition failover_onLoginSuccess :: "nat \<Rightarrow> failover \<Rightarrow> ('j, 'r) effect" where
  "failover_onLoginSuccess c s =
     (let act = (if c = 0 \<or> \<not> failover_isActive s then int c else fo_active s);
          drops = map DoDisconnect (filter (\<lambda>i. act \<noteq> int i) [1 ..< fo_pools s])
      in if 0 \<le> act \<and> act \<noteq> fo_active s
         then Some (s\<lparr>fo_index := nat act, fo_active := act\<rparr>, drops @ [OnActive c])
         else Some (s, drops))"

definition failover_onResultAccepted :: "nat \<Rightarrow> 'r \<Rightarrow> failover \<Rightarrow> ('j, 'r) effect" where
  "failover_onResultAccepted c r s = Some (s, [OnResultAccepted c r])"

fun failover_handle :: "('j, 'r) event \<Rightarrow> failover \<Rightarrow> ('j, 'r) effect" where
  "failover_handle Connect s = failover_connect s"
| "failover_handle (Resume jobs) s = failover_resume jobs s"
| "failover_handle Stop s = failover_stop s"
| "failover_handle (Submit r) s = failover_submit r s"
| "failover_handle (Closed c n) s = failover_onClose c n s"
| "failover_handle (LoginSuccess c) s = failover_onLoginSuccess c s"
| "failover_handle (JobReceived c j) s = failover_onJobReceived c j s"
| "failover_handle (ResultAccepted c r) s = failover_onResultAccepted c r s"

subsection \<open>The contract\<close>

text \<open>There is a pool, the active one exists, and it is the one counted as tried last.\<close>

definition failover_inv :: "failover \<Rightarrow> bool" where
  "failover_inv s \<longleftrightarrow> fo_index s < fo_pools s \<and> (fo_active s = -1 \<or> fo_active s = int (fo_index s))"

text \<open>The events of the strategy's own clients, at any time.\<close>

fun from_client :: "('j, 'r) event \<Rightarrow> nat option" where
  "from_client (Closed c n) = Some c"
| "from_client (LoginSuccess c) = Some c"
| "from_client (JobReceived c j) = Some c"
| "from_client (ResultAccepted c r) = Some c"
| "from_client e = None"

definition failover_may :: "failover \<Rightarrow> ('j, 'r) event \<Rightarrow> bool" where
  "failover_may s e \<longleftrightarrow> (case from_client e of None \<Rightarrow> True | Some c \<Rightarrow> c < fo_pools s)"

definition failover_announced :: "failover \<Rightarrow> nat option" where
  "failover_announced s = (if failover_isActive s then Some (nat (fo_active s)) else None)"

lemma listens_disconnects: "listens a (map DoDisconnect xs @ ys) = listens a ys"
  by (induction xs) auto

lemmas failover_defs = failover_connect_def failover_resume_def failover_stop_def failover_submit_def
  failover_onClose_def failover_onLoginSuccess_def failover_onJobReceived_def failover_onResultAccepted_def
  failover_next_def failover_active_def failover_isActive_def pool_at_def

lemma failover_handles:
  assumes "failover_inv s" "failover_may s e"
  shows "\<exists>s' acts. failover_handle e s = Some (s', acts) \<and> failover_inv s' \<and>
    fo_pools s' = fo_pools s \<and> listens (failover_announced s) acts = Some (failover_announced s')"
  using assms
  by (cases e) (auto simp: failover_inv_def failover_may_def failover_announced_def failover_defs Let_def
      listens_disconnects listens_disconnects [where ys = "[]", simplified] split: if_splits)

interpretation fo: strategy failover_handle failover_announced failover_inv failover_may
  by unfold_locales (use failover_handles in blast)

subsection \<open>A single pool\<close>

record single_pool = sp_active :: bool

definition single_new :: single_pool where
  "single_new = \<lparr> sp_active = False \<rparr>"

definition single_resume :: "(nat \<Rightarrow> 'j) \<Rightarrow> single_pool \<Rightarrow> single_pool \<times> ('j, 'r) action list" where
  "single_resume jobs s = (s, if \<not> sp_active s then [] else [OnJob 0 (jobs 0)])"

definition single_onClose :: "single_pool \<Rightarrow> single_pool \<times> ('j, 'r) action list" where
  "single_onClose s = (if \<not> sp_active s then (s, []) else (s\<lparr>sp_active := False\<rparr>, [OnPause]))"

definition single_onLoginSuccess :: "nat \<Rightarrow> single_pool \<Rightarrow> single_pool \<times> ('j, 'r) action list" where
  "single_onLoginSuccess c s = (s\<lparr>sp_active := True\<rparr>, [OnActive c])"

fun single_handle ::
  "('j, 'r) event \<Rightarrow> single_pool \<Rightarrow> (single_pool \<times> ('j, 'r) action list) option" where
  "single_handle Connect s = Some (s, [DoConnect 0])"
| "single_handle (Resume jobs) s = Some (single_resume jobs s)"
| "single_handle Stop s = Some (s, [DoDisconnect 0])"
| "single_handle (Submit r) s = Some (s, [DoSubmit 0 r])"
| "single_handle (Closed c n) s = Some (single_onClose s)"
| "single_handle (LoginSuccess c) s = Some (single_onLoginSuccess c s)"
| "single_handle (JobReceived c j) s = Some (s, [OnJob c j])"
| "single_handle (ResultAccepted c r) s = Some (s, [OnResultAccepted c r])"

text \<open>
  Jobs are passed on unconditionally, so the contract rests on the client: it reports a job
  only while it is logged in.
\<close>

fun single_may :: "single_pool \<Rightarrow> ('j, 'r) event \<Rightarrow> bool" where
  "single_may s (JobReceived c j) \<longleftrightarrow> c = 0 \<and> sp_active s"
| "single_may s e \<longleftrightarrow> (case from_client e of None \<Rightarrow> True | Some c \<Rightarrow> c = 0)"

definition single_announced :: "single_pool \<Rightarrow> nat option" where
  "single_announced s = (if sp_active s then Some 0 else None)"

lemma single_handles:
  "single_may s e \<Longrightarrow> \<exists>s' acts. single_handle e s = Some (s', acts) \<and>
    listens (single_announced s) acts = Some (single_announced s')"
  by (cases e) (auto simp: single_announced_def single_resume_def single_onClose_def single_onLoginSuccess_def)

interpretation sp: strategy single_handle single_announced "\<lambda>s. True" single_may
  by unfold_locales (use single_handles in blast)

subsection \<open>Properties\<close>

text \<open>The strategy built from a list of \<open>n\<close> pools.\<close>

definition failover_of :: "int \<Rightarrow> nat \<Rightarrow> failover" where
  "failover_of retries n = (failover_add ^^ n) (failover_new retries)"

lemma failover_of_fields:
  "fo_pools (failover_of retries n) = n" "fo_active (failover_of retries n) = -1"
  "fo_index (failover_of retries n) = 0" "fo_retries (failover_of retries n) = retries"
  by (induction n) (simp_all add: failover_of_def failover_new_def failover_add_def)

lemma failover_of_inv: "0 < n \<Longrightarrow> failover_inv (failover_of retries n)"
  by (simp add: failover_inv_def failover_of_fields)

text \<open>
  C24. However the pools' connections, logins, jobs and failures and the program's calls are
  ordered, a strategy over at least one pool handles every event without leaving its array of
  pools, the active pool is the last one tried, and its listener only receives jobs of the pool
  announced as active and not paused since.
\<close>

theorem failover_contract:
  fixes e :: "('j, 'r) event" and acts :: "('j, 'r) action list"
  assumes "fo.run (failover_of retries n) es acts s" "0 < n"
  shows "listens None acts = Some (failover_announced s) \<and>
    fo_index s < fo_pools s \<and> (fo_active s = -1 \<or> fo_active s = int (fo_index s)) \<and>
    (failover_may s e \<longrightarrow> (\<exists>s' acts'. failover_handle e s = Some (s', acts')))"
proof -
  have start: "failover_announced (failover_of retries n) = None"
    by (simp add: failover_announced_def failover_isActive_def failover_of_fields)
  from fo.run_inv [OF assms(1) failover_of_inv [OF assms(2)]]
  have inv: "failover_inv s" and l: "listens None acts = Some (failover_announced s)"
    by (simp_all add: start)
  have "\<exists>s' acts'. failover_handle e s = Some (s', acts')" if "failover_may s e"
    using fo.run_continues [OF assms(1) failover_of_inv [OF assms(2)] that] by blast
  then show ?thesis using inv l by (simp add: failover_inv_def)
qed

theorem failover_contract_witness:
  "listens None [DoConnect 0, DoConnect 1, OnActive 1, OnJob 1 7, DoDisconnect 1, OnActive 0 :: (nat, unit) action] =
     Some (Some 0) \<and>
   (\<exists>s' acts. failover_handle (Closed 1 3 :: (nat, unit) event) ((failover_of 5 2)\<lparr>fo_index := 0, fo_active := 0\<rparr>) = Some (s', acts))"
proof -
  let ?s0 = "failover_of 5 2"
  let ?s1 = "?s0\<lparr>fo_index := 1\<rparr>"
  let ?s2 = "?s0\<lparr>fo_index := 1, fo_active := 1\<rparr>"
  let ?s3 = "?s0\<lparr>fo_index := 0, fo_active := 0\<rparr>"
  note simps = failover_defs failover_of_fields failover_may_def Let_def upt_rec
  have "fo.run ?s3 [] ([] :: (nat, unit) action list) ?s3" by (rule fo.run.finished)
  then have "fo.run ?s2 [LoginSuccess 0] ([DoDisconnect 1, OnActive 0] @ [] :: (nat, unit) action list) ?s3"
    by (rule fo.run.handled [rotated 2]) (simp_all add: simps)
  then have "fo.run ?s2 [JobReceived 0 8, LoginSuccess 0] ([] @ [DoDisconnect 1, OnActive 0] @ [] :: (nat, unit) action list) ?s3"
    by (rule fo.run.handled [rotated 2]) (simp_all add: simps)
  then have "fo.run ?s2 [JobReceived 1 7, JobReceived 0 8, LoginSuccess 0]
      ([OnJob 1 7] @ [] @ [DoDisconnect 1, OnActive 0] @ [] :: (nat, unit) action list) ?s3"
    by (rule fo.run.handled [rotated 2]) (simp_all add: simps)
  then have "fo.run ?s1 [LoginSuccess 1, JobReceived 1 7, JobReceived 0 8, LoginSuccess 0]
      ([OnActive 1] @ [OnJob 1 7] @ [] @ [DoDisconnect 1, OnActive 0] @ [] :: (nat, unit) action list) ?s3"
    by (rule fo.run.handled [rotated 2]) (simp_all add: simps)
  then have "fo.run ?s0 [Closed 0 5, LoginSuccess 1, JobReceived 1 7, JobReceived 0 8, LoginSuccess 0]
      ([DoConnect 1] @ [OnActive 1] @ [OnJob 1 7] @ [] @ [DoDisconnect 1, OnActive 0] @ [] :: (nat, unit) action list) ?s3"
    by (rule fo.run.handled [rotated 2]) (simp_all add: simps)
  then have "fo.run ?s0 [Connect, Closed 0 5, LoginSuccess 1, JobReceived 1 7, JobReceived 0 8, LoginSuccess 0]
      ([DoConnect 0] @ [DoConnect 1] @ [OnActive 1] @ [OnJob 1 7] @ [] @ [DoDisconnect 1, OnActive 0] @ [] :: (nat, unit) action list) ?s3"
    by (rule fo.run.handled [rotated 2]) (simp_all add: simps)
  from failover_contract [OF this, of "Closed 1 3"] show ?thesis
    by (simp add: failover_may_def failover_of_fields failover_announced_def failover_isActive_def)
qed

text \<open>The events handled in order.\<close>

fun failover_run :: "('j, 'r) event list \<Rightarrow> failover \<Rightarrow> ('j, 'r) effect" where
  "failover_run [] s = Some (s, [])"
| "failover_run (e # es) s =
     (case failover_handle e s of None \<Rightarrow> None
      | Some (s, acts) \<Rightarrow>
          (case failover_run es s of None \<Rightarrow> None | Some (s, acts') \<Rightarrow> Some (s, acts @ acts')))"

lemma failover_give_up:
  assumes "fo_active s = -1" "Suc (fo_index s) < fo_pools s" "fo_retries s \<le> f" "f \<noteq> -1"
  shows "failover_handle (Closed (fo_index s) f) s =
    Some (s\<lparr>fo_index := Suc (fo_index s)\<rparr>, [DoConnect (Suc (fo_index s))])"
  using assms by (simp add: failover_onClose_def failover_next_def pool_at_def)

text \<open>
  C39. No working pool is out of reach: when every pool from the current one up to pool \<open>k\<close> has
  failed as often as configured, each failure connects the next one, and when pool \<open>k\<close> logs in
  it is announced as active and every other backup is disconnected.
\<close>

theorem failover_reaches_pool:
  assumes "fo_active s = -1" "fo_index s \<le> k" "k < fo_pools s" "fo_retries s \<le> f" "f \<noteq> -1"
  shows "failover_run (map (\<lambda>c. Closed c f) [fo_index s ..< k] @ [LoginSuccess k] :: ('j, 'r) event list) s =
    Some (s\<lparr>fo_index := k, fo_active := int k\<rparr>,
      map DoConnect [Suc (fo_index s) ..< Suc k] @
      map DoDisconnect (filter (\<lambda>i. i \<noteq> k) [1 ..< fo_pools s]) @ [OnActive k])"
  using assms
proof (induction "k - fo_index s" arbitrary: s)
  case 0
  have "filter (\<lambda>i. int k \<noteq> int i) xs = filter (\<lambda>i. i \<noteq> k) xs" for xs
    by (rule filter_cong) auto
  then show ?case
    using 0 by (simp add: failover_onLoginSuccess_def failover_isActive_def)
next
  case (Suc d)
  let ?s = "s\<lparr>fo_index := Suc (fo_index s)\<rparr>"
  have less: "fo_index s < k" using Suc.hyps(2) by simp
  note split = upt_conv_Cons [OF less]
  have up: "[Suc (fo_index s) ..< Suc k] = Suc (fo_index s) # [Suc (Suc (fo_index s)) ..< Suc k]"
    using less by (intro upt_conv_Cons) simp
  have d: "d = k - fo_index ?s" using Suc.hyps(2) by simp
  have "failover_run (map (\<lambda>c. Closed c f) [Suc (fo_index s) ..< k] @ [LoginSuccess k] :: ('j, 'r) event list) ?s =
    Some (s\<lparr>fo_index := k, fo_active := int k\<rparr>,
      map DoConnect [Suc (Suc (fo_index s)) ..< Suc k] @
      map DoDisconnect (filter (\<lambda>i. i \<noteq> k) [1 ..< fo_pools s]) @ [OnActive k])"
    using Suc.hyps(1) [OF d] Suc.prems less by (simp del: upt_Suc failover_run.simps)
  moreover have "failover_handle (Closed (fo_index s) f :: ('j, 'r) event) s = Some (?s, [DoConnect (Suc (fo_index s))])"
    using Suc.prems less by (intro failover_give_up) auto
  ultimately show ?case
    unfolding split up by (simp del: upt_Suc failover_handle.simps)
qed

theorem failover_reaches_pool_witness:
  "failover_run ([Closed 0 6, Closed 1 6, LoginSuccess 2] :: (unit, unit) event list) (failover_of 5 3) =
     Some ((failover_of 5 3)\<lparr>fo_index := 2, fo_active := 2\<rparr>, [DoConnect 1, DoConnect 2, DoDisconnect 1, OnActive 2])"
proof -
  have "[0 ..< 2] = [0, 1 :: nat]" "[Suc 0 ..< Suc 2] = [1, 2]" "[1 ..< 3] = [1, 2 :: nat]"
    by (simp_all add: upt_rec)
  then show ?thesis
    using failover_reaches_pool [of "failover_of 5 3" 2 6] by (simp add: failover_of_fields del: failover_run.simps upt_Suc)
qed

end
