(* ===== verification/Job.thy ===== *)
theory Job
  imports Algorithm Cvt BlockTemplateParser
begin

text \<open>
  Mining jobs, \<^verbatim>\<open>base/net/stratum/Job.h\<close> and \<^verbatim>\<open>Job.cpp\<close> as the miner builds them (without the
  parts compiled for the proxy and the benchmark): the hashing blob, target and difficulty, the
  nonce's place and mask, comparison and copying. A C string is the list of its characters
  before the terminating zero; a null pointer is \<open>None\<close>. \<open>None\<close> as the result of an operation is
  undefined behaviour (an access outside a buffer, a division by zero).
\<close>

definition kMaxBlobSize :: nat where "kMaxBlobSize = 408"
definition kMaxSeedSize :: nat where "kMaxSeedSize = 32"

record job =
  j_algorithm :: u32
  j_nicehash :: bool
  j_seed :: bytes
  j_size :: nat
  j_clientId :: "bytes option"
  j_extraNonce :: "bytes option"
  j_id :: "bytes option"
  j_poolWallet :: "bytes option"
  j_backend :: u32
  j_diff :: u64
  j_height :: u64
  j_target :: u64
  j_blob :: bytes
  j_index :: u8
  j_ephPublicKey :: bytes
  j_ephSecretKey :: bytes
  j_hasMinerSignature :: bool

definition new_job :: "bool \<Rightarrow> u32 \<Rightarrow> bytes option \<Rightarrow> job" where
  "new_job nicehash algorithm clientId =
     \<lparr> j_algorithm = algorithm, j_nicehash = nicehash, j_seed = [], j_size = 0, j_clientId = clientId,
       j_extraNonce = None, j_id = None, j_poolWallet = None, j_backend = 0, j_diff = 0, j_height = 0,
       j_target = 0, j_blob = replicate kMaxBlobSize 0, j_index = 0, j_ephPublicKey = replicate 32 0,
       j_ephSecretKey = replicate 32 0, j_hasMinerSignature = False \<rparr>"

text \<open>The fixed arrays have their sizes.\<close>

definition job_wf :: "job \<Rightarrow> bool" where
  "job_wf j \<longleftrightarrow> length (j_blob j) = kMaxBlobSize \<and> j_size j \<le> kMaxBlobSize \<and>
     length (j_ephPublicKey j) = 32 \<and> length (j_ephSecretKey j) = 32"

subsection \<open>Blob and nonce\<close>

definition nonceOffset :: "job \<Rightarrow> nat" where
  "nonceOffset j = (if j_algorithm j = RX_YADA then 147 else 39)"

lemma nonceOffset_blob [simp]: "nonceOffset (j\<lparr>j_blob := b\<rparr>) = nonceOffset j"
  by (simp add: nonceOffset_def)

definition nonceSize :: nat where "nonceSize = 4"

text \<open>\<open>readUnaligned\<close> and \<open>writeUnaligned\<close> of the 32-bit word at an offset.\<close>

definition load32_at :: "bytes \<Rightarrow> nat \<Rightarrow> u32 option" where
  "load32_at m off = map_option load32 (get_bytes m off 4)"

definition store32_at :: "bytes \<Rightarrow> nat \<Rightarrow> u32 \<Rightarrow> bytes option" where
  "store32_at m off w = put_bytes m off (store32 w)"

definition nonceMask :: "job \<Rightarrow> u64" where
  "nonceMask j = (if j_nicehash j then 0xFFFFFF else 0xFFFFFFFF)"

definition job_isValid :: "job \<Rightarrow> bool" where
  "job_isValid j \<longleftrightarrow> 0 < j_size j \<and> 0 < j_diff j \<or> (\<exists>w. j_poolWallet j = Some w \<and> w \<noteq> [])"

definition setBlob :: "bytes option \<Rightarrow> job \<Rightarrow> (bool \<times> job) option" where
  "setBlob blob j =
     (case blob of None \<Rightarrow> Some (False, j)
      | Some text \<Rightarrow>
          if length text mod 2 \<noteq> 0 then Some (False, j)
          else let sz = length text div 2 in
            if sz < nonceOffset j + nonceSize \<or> kMaxBlobSize \<le> sz then Some (False, j)
            else case Cvt_fromHex_into (j_blob j) text of
                None \<Rightarrow> None
              | Some (ok, buf) \<Rightarrow>
                  let j = j\<lparr>j_blob := buf\<rparr> in
                  if \<not> ok then Some (False, j)
                  else case load32_at buf (nonceOffset j) of
                      None \<Rightarrow> None
                    | Some n \<Rightarrow> Some (True, j\<lparr>j_nicehash := j_nicehash j \<or> n \<noteq> 0, j_size := sz\<rparr>))"

definition setSeedHash :: "bytes option \<Rightarrow> job \<Rightarrow> (bool \<times> job) option" where
  "setSeedHash h j =
     (case h of None \<Rightarrow> Some (False, j)
      | Some text \<Rightarrow>
          if length text \<noteq> kMaxSeedSize * 2 then Some (False, j)
          else case Cvt_fromHex text of
              None \<Rightarrow> None
            | Some seed \<Rightarrow> Some (seed \<noteq> [], j\<lparr>j_seed := seed\<rparr>))"

definition setEphemeralKeys :: "bytes \<Rightarrow> bytes \<Rightarrow> job \<Rightarrow> job" where
  "setEphemeralKeys pub_key sec_key j =
     j\<lparr>j_hasMinerSignature := True, j_ephPublicKey := pub_key, j_ephSecretKey := sec_key\<rparr>"

definition setSigKey :: "bytes option \<Rightarrow> job \<Rightarrow> job option" where
  "setSigKey key j =
     (case key of None \<Rightarrow> Some j
      | Some text \<Rightarrow>
          if length text \<noteq> 64 * 2 then Some j
          else case Cvt_fromHex text of
              None \<Rightarrow> None
            | Some buf \<Rightarrow>
                Some (if length buf = 64 then setEphemeralKeys (take 32 buf) (drop 32 buf) j else j))"

subsection \<open>Target and difficulty\<close>

definition toDiff :: "u64 \<Rightarrow> u64" where
  "toDiff target = (if target \<noteq> 0 then 0xFFFFFFFFFFFFFFFF div target else 0)"

text \<open>
  \<open>strtoull(s, nullptr, 16)\<close> of the C library: white space, a sign, an optional \<open>0x\<close>, digits;
  saturates, and negates modulo \<open>2^64\<close>.
\<close>

definition c_isspace :: "u8 \<Rightarrow> bool" where
  "c_isspace c \<longleftrightarrow> c = 32 \<or> 9 \<le> c \<and> c \<le> 13"

definition strip_0x :: "bytes \<Rightarrow> bytes" where
  "strip_0x s =
     (case s of a # b # c # cs \<Rightarrow>
        if a = 48 \<and> (b = 120 \<or> b = 88) \<and> hex_value c \<noteq> None then c # cs else s
      | _ \<Rightarrow> s)"

definition hex_digits :: "bytes \<Rightarrow> nat" where
  "hex_digits s = foldl (\<lambda>n c. 16 * n + the (hex_value c)) 0 (takeWhile (\<lambda>c. hex_value c \<noteq> None) s)"

definition strtoull16 :: "bytes \<Rightarrow> u64" where
  "strtoull16 s =
     (let s = dropWhile c_isspace s;
          neg = (s \<noteq> [] \<and> hd s = 45);
          s = (if s \<noteq> [] \<and> (hd s = 45 \<or> hd s = 43) then tl s else s);
          n = hex_digits (strip_0x s)
      in if 2 ^ 64 \<le> n then 0xFFFFFFFFFFFFFFFF else if neg then - of_nat n else of_nat n)"

text \<open>The lambda \<open>parse\<close>: a zero compact target is a division by zero.\<close>

definition parse_target :: "bytes \<Rightarrow> u32 \<Rightarrow> u64 option" where
  "parse_target target algorithm =
     (if algorithm = RX_YADA then Some (strtoull16 target)
      else do { raw \<leftarrow> Cvt_fromHex target;
                if length raw = 4 then
                  (let t = ucast (load32 raw) :: u64 in
                   if t = 0 then None
                   else let q = 0xFFFFFFFF div t in
                     if q = 0 then None else Some (0xFFFFFFFFFFFFFFFF div q))
                else if length raw = 8 then Some (load64 raw)
                else Some 0 })"

definition setTarget :: "bytes option \<Rightarrow> job \<Rightarrow> (bool \<times> job) option" where
  "setTarget target j =
     (case target of None \<Rightarrow> Some (False, j)
      | Some text \<Rightarrow>
          if length text < 4 then Some (False, j)
          else case parse_target text (j_algorithm j) of
              None \<Rightarrow> None
            | Some t \<Rightarrow>
                if t = 0 then Some (False, j\<lparr>j_target := t\<rparr>)
                else Some (True, j\<lparr>j_target := t, j_diff := toDiff t\<rparr>))"

definition setDiff :: "u64 \<Rightarrow> job \<Rightarrow> job" where
  "setDiff diff j = j\<lparr>j_diff := diff, j_target := toDiff diff\<rparr>"

subsection \<open>Transactions, comparison, copying\<close>

text \<open>The varint at the end of the blob: shifts of 0, 7, 14 and 21.\<close>

function num_tx_loop :: "bytes \<Rightarrow> nat \<Rightarrow> nat \<Rightarrow> nat \<Rightarrow> u32 \<Rightarrow> u32 option" where
  "num_tx_loop blob sz i k acc =
     (if i < sz then
        case rd blob i of None \<Rightarrow> None
        | Some b \<Rightarrow>
            let acc = acc OR push_bit k (ucast (b AND 0x7F)) in
            if b AND 0x80 = 0 then Some acc else num_tx_loop blob sz (Suc i) (k + 7) acc
      else Some acc)"
  by pat_completeness auto
termination by (relation "measure (\<lambda>(blob, sz, i, k, acc). sz - i)") auto

declare num_tx_loop.simps [simp del]

definition getNumTransactions :: "job \<Rightarrow> u32 option" where
  "getNumTransactions j =
     (if algo_family (j_algorithm j) \<noteq> RANDOM_X then Some 0
      else let expected_tx_offset = (if j_algorithm j = RX_WOW then 141 else 75) in
        if expected_tx_offset < j_size j \<and> j_size j \<le> expected_tx_offset + 4
        then num_tx_loop (j_blob j) (j_size j) expected_tx_offset 0 0
        else Some 0)"

definition isEqualBlob :: "job \<Rightarrow> job \<Rightarrow> bool" where
  "isEqualBlob j other \<longleftrightarrow>
     j_size j = j_size other \<and> take (j_size j) (j_blob j) = take (j_size j) (j_blob other)"

definition job_isEqual :: "job \<Rightarrow> job \<Rightarrow> bool" where
  "job_isEqual j other \<longleftrightarrow> j_id j = j_id other \<and> j_clientId j = j_clientId other \<and>
     isEqualBlob j other \<and> j_target j = j_target other"

text \<open>\<open>copy\<close>: only \<open>m_size\<close> bytes of the blob are copied, the rest stays.\<close>

definition job_copy :: "job \<Rightarrow> job \<Rightarrow> job" where
  "job_copy other j =
     \<lparr> j_algorithm = j_algorithm other, j_nicehash = j_nicehash other, j_seed = j_seed other,
       j_size = j_size other, j_clientId = j_clientId other, j_extraNonce = j_extraNonce other,
       j_id = j_id other, j_poolWallet = j_poolWallet other, j_backend = j_backend other,
       j_diff = j_diff other, j_height = j_height other, j_target = j_target other,
       j_blob = take (j_size other) (j_blob other) @ drop (j_size other) (j_blob j),
       j_index = j_index other, j_ephPublicKey = j_ephPublicKey other,
       j_ephSecretKey = j_ephSecretKey other, j_hasMinerSignature = j_hasMinerSignature other \<rparr>"

text \<open>\<open>move\<close>: the new job and what is left of the old one (its strings and seed are taken).\<close>

definition job_move :: "job \<Rightarrow> job \<Rightarrow> job \<times> job" where
  "job_move other j =
     (job_copy other j,
      other\<lparr>j_clientId := None, j_id := None, j_seed := [], j_extraNonce := None, j_poolWallet := None,
        j_size := 0, j_diff := 0, j_algorithm := ALGO_INVALID\<rparr>)"

text \<open>
  The blob with the signature zeroed is hashed and signed with the job's keys; signing draws
  random numbers and is a parameter (a 64-byte signature).
\<close>

definition signature_prefix :: "job \<Rightarrow> bytes \<Rightarrow> nat \<Rightarrow> bytes option" where
  "signature_prefix j blob sz =
     do { tmp \<leftarrow> get_bytes blob 0 sz;
          let tmp = tmp @ replicate (kMaxBlobSize - sz) 0;
          tmp \<leftarrow> put_bytes tmp (nonceOffset j + nonceSize) (replicate kSignatureSize 0);
          keccak (take sz tmp) 32 }"

definition generateMinerSignature ::
  "(bytes \<Rightarrow> bytes \<Rightarrow> bytes \<Rightarrow> bytes) \<Rightarrow> job \<Rightarrow> bytes \<Rightarrow> nat \<Rightarrow> bytes option" where
  "generateMinerSignature sign j blob sz =
     map_option (\<lambda>h. sign h (j_ephPublicKey j) (j_ephSecretKey j)) (signature_prefix j blob sz)"

end
