(* ===== verification/JobProps.thy ===== *)
theory JobProps
  imports Job
begin

text \<open>
  Properties of mining jobs: what \<open>setBlob\<close> accepts, the difficulty of a compact target, copies
  are equal, and the number of transactions read from a hashing blob is the one the block
  template wrote.
\<close>

subsection \<open>Blobs\<close>

lemma setBlob_spec:
  assumes "job_wf j"
  shows "\<exists>ok j'. setBlob blob j = Some (ok, j') \<and> job_wf j' \<and> j_algorithm j' = j_algorithm j \<and>
    (if ok then \<exists>text bs. blob = Some text \<and> hex_decode text = Some bs \<and>
         nonceOffset j + nonceSize \<le> length bs \<and> length bs < kMaxBlobSize \<and>
         j_size j' = length bs \<and> take (j_size j') (j_blob j') = bs
     else j_size j' = j_size j \<and> j_nicehash j' = j_nicehash j \<and>
       (\<forall>text bs. blob = Some text \<longrightarrow> hex_decode text = Some bs \<longrightarrow>
         length bs < nonceOffset j + nonceSize \<or> kMaxBlobSize \<le> length bs))"
proof (cases "blob")
  case None
  then show ?thesis using assms by (auto simp: setBlob_def)
next
  case (Some str)
  have len: "length str = 2 * length bs" if "hex_decode str = Some bs" for bs
    using hex_decode_length [OF that] .
  consider "length str mod 2 \<noteq> 0"
    | "length str mod 2 = 0" "length str div 2 < nonceOffset j + nonceSize \<or> kMaxBlobSize \<le> length str div 2"
    | "length str mod 2 = 0" "\<not> (length str div 2 < nonceOffset j + nonceSize \<or> kMaxBlobSize \<le> length str div 2)"
    by blast
  then show ?thesis
  proof cases
    case 1
    then have "hex_decode str \<noteq> Some bs" for bs using len by fastforce
    then show ?thesis using assms 1 by (auto simp: setBlob_def Some)
  next
    case 2
    then have "length bs < nonceOffset j + nonceSize \<or> kMaxBlobSize \<le> length bs" if "hex_decode str = Some bs" for bs
      using len [OF that] by simp
    then show ?thesis using assms 2 by (auto simp: setBlob_def Some Let_def)
  next
    case 3
    obtain ok buf where into: "Cvt_fromHex_into (j_blob j) str = Some (ok, buf)"
      using Cvt_fromHex_into_total by blast
    have ne: "str \<noteq> []" using 3(2) by (auto simp: nonceSize_def)
    show ?thesis
    proof (cases ok)
      case True
      then obtain bs where bs: "hex_decode str = Some bs" "length bs \<le> length (j_blob j)"
          "buf = bs @ drop (length bs) (j_blob j)"
        using Cvt_fromHex_into_True [of "j_blob j" str buf] into by auto
      have sz: "length str div 2 = length bs" using len [OF bs(1)] by simp
      have "nonceOffset j + 4 \<le> length buf"
        using 3(2) bs sz by (simp add: nonceSize_def)
      then obtain n where n: "load32_at buf (nonceOffset j) = Some n"
        by (auto simp: load32_at_def get_bytes_def)
      let ?j = "j\<lparr>j_blob := buf, j_nicehash := j_nicehash j \<or> n \<noteq> 0, j_size := length bs\<rparr>"
      have "setBlob (Some str) j = Some (True, ?j)"
        using 3 n into True by (simp add: setBlob_def Let_def sz)
      moreover have "job_wf ?j" "take (length bs) buf = bs" "length bs < kMaxBlobSize"
        "nonceOffset j + nonceSize \<le> length bs"
        using assms 3(2) bs sz by (simp_all add: job_wf_def)
      ultimately show ?thesis
        using bs(1) by (auto simp: Some)
    next
      case False
      have no: "hex_decode str \<noteq> Some bs" if "length bs < kMaxBlobSize" for bs
        using Cvt_fromHex_into_spec [OF ne, of bs "j_blob j"] into False assms that
        by (auto simp: job_wf_def)
      have "setBlob (Some str) j = Some (False, j\<lparr>j_blob := buf\<rparr>)"
        using 3 into False by (simp add: setBlob_def Let_def)
      moreover have "job_wf (j\<lparr>j_blob := buf\<rparr>)"
        using assms Cvt_fromHex_into_length [OF into] by (simp add: job_wf_def)
      moreover have "length bs < nonceOffset j + nonceSize \<or> kMaxBlobSize \<le> length bs"
        if "hex_decode str = Some bs" for bs
        using no [of bs] that by (meson not_less)
      ultimately show ?thesis
        by (auto simp: Some)
    qed
  qed
qed

text \<open>
  C40. Whatever text a pool sends, setting the blob makes no access outside the job's arrays, and
  it succeeds exactly when the text is the hexadecimal form of a blob that holds the nonce and
  fits; then the blob is the decoded one, otherwise size and nonce mode are unchanged.
\<close>

theorem setBlob_accepts:
  assumes "job_wf j"
  shows "\<exists>ok j'. setBlob blob j = Some (ok, j') \<and> job_wf j' \<and> j_algorithm j' = j_algorithm j \<and>
    (if ok then \<exists>text bs. blob = Some text \<and> hex_decode text = Some bs \<and>
         nonceOffset j + nonceSize \<le> length bs \<and> length bs < kMaxBlobSize \<and>
         j_size j' = length bs \<and> take (j_size j') (j_blob j') = bs
     else j_size j' = j_size j \<and> j_nicehash j' = j_nicehash j \<and>
       (\<forall>text bs. blob = Some text \<longrightarrow> hex_decode text = Some bs \<longrightarrow>
         length bs < nonceOffset j + nonceSize \<or> kMaxBlobSize \<le> length bs))"
  using assms by (rule setBlob_spec)

lemma new_job_wf: "job_wf (new_job nicehash algorithm clientId)"
  by (simp add: job_wf_def new_job_def)

theorem setBlob_accepts_witness:
  "\<exists>j'. setBlob (Some (Cvt_toHex (replicate 76 7))) (new_job False RX_0 None) = Some (True, j') \<and>
     take 76 (j_blob j') = replicate 76 7"
proof -
  obtain bs :: bytes where bs: "replicate 76 7 = bs" "length bs = 76" by simp
  have "hex_decode (Cvt_toHex bs) = Some bs"
    by (rule hex_decode_toHex) (use bs(2) in auto)
  then show ?thesis
    unfolding bs(1)
    using setBlob_accepts [OF new_job_wf [of False RX_0 None], of "Some (Cvt_toHex bs)"] bs(2)
    by (auto simp: nonceOffset_def nonceSize_def new_job_def algo_ids kMaxBlobSize_def split: if_splits)
qed

subsection \<open>Targets\<close>

lemma toDiff_compact:
  assumes "0 < q" "q < 2 ^ 32"
  shows "(2 ^ 64 - 1) div ((2 ^ 64 - 1) div q) = (q :: nat)"
proof -
  let ?M = "2 ^ 64 - 1 :: nat"
  let ?m = "?M div q"
  have M: "?M = ?m * q + ?M mod q" by simp
  have r: "?M mod q < q" using assms(1) by simp
  have "2 ^ 32 \<le> ?m"
  proof -
    have "2 ^ 32 * q \<le> 2 ^ 32 * (2 ^ 32 - 1)"
      using assms(2) by (intro mult_le_mono2) simp
    also have "\<dots> \<le> ?M" by simp
    finally show ?thesis using assms(1) by (simp add: less_eq_div_iff_mult_less_eq)
  qed
  then have "?M mod q < ?m" using r assms(2) by linarith
  then have "(q * ?m + ?M mod q) div ?m = q"
    by (simp only: div_mult_self3 div_less)
  moreover have "q * ?m + ?M mod q = ?M" by simp
  ultimately show ?thesis by metis
qed

text \<open>
  A compact four-byte target \<open>t\<close> is expanded to the 64-bit target of the difficulty
  \<open>(2^32 - 1) div t\<close>, and that is the difficulty the job then has; no precision is lost.
\<close>

theorem compact_target_difficulty:
  assumes "j_algorithm j \<noteq> RX_YADA" "hex_decode text = Some raw" "length raw = 4" "load32 raw \<noteq> 0"
  shows "\<exists>j'. setTarget (Some text) j = Some (True, j') \<and>
    unat (j_target j') = (2 ^ 64 - 1) div ((2 ^ 32 - 1) div unat (load32 raw)) \<and>
    unat (j_diff j') = (2 ^ 32 - 1) div unat (load32 raw)"
proof -
  let ?t = "unat (load32 raw)" and ?q = "0xFFFFFFFF div (ucast (load32 raw) :: u64)"
  have len: "length text = 8" using hex_decode_length [OF assms(2)] assms(3) by simp
  then have raw: "Cvt_fromHex text = Some raw"
    using Cvt_fromHex_eq [of "text"] assms(2) by (cases "text") auto
  have t: "unat (ucast (load32 raw) :: u64) = ?t"
    using unat_u32_less [of "load32 raw"] by (simp add: unsigned_ucast_eq take_bit_nat_eq_self_iff)
  have q: "unat ?q = (2 ^ 32 - 1) div ?t"
    by (simp add: unat_div t)
  have pos: "0 < ?t" using assms(4) by (simp add: unat_gt_0)
  have q0: "0 < unat ?q" "unat ?q < 2 ^ 32"
    unfolding q using pos unat_u32_less [of "load32 raw"]
    by (simp_all add: div_greater_zero_iff div_le_dividend le_less_trans [OF div_le_dividend])
  let ?T = "0xFFFFFFFFFFFFFFFF div ?q"
  have T: "unat ?T = (2 ^ 64 - 1) div unat ?q" by (simp add: unat_div)
  have T0: "?T \<noteq> 0"
  proof -
    have "unat ?q \<le> 2 ^ 64 - 1" using q0(2) by simp
    then have "0 < (2 ^ 64 - 1) div unat ?q" using q0(1) by (simp add: div_greater_zero_iff)
    then show ?thesis using T by (metis less_irrefl unat_0)
  qed
  have nz: "(ucast (load32 raw) :: u64) \<noteq> 0" "?q \<noteq> 0"
    using t pos q0(1) by (metis less_irrefl unat_0)+
  have D: "unat (toDiff ?T) = unat ?q"
    using toDiff_compact [OF q0] T T0 by (simp add: toDiff_def unat_div)
  have "setTarget (Some text) j = Some (True, j\<lparr>j_target := ?T, j_diff := toDiff ?T\<rparr>)"
    using len raw assms(1,3) nz T0 by (simp add: setTarget_def parse_target_def Let_def)
  then show ?thesis using T D q by simp
qed

theorem compact_target_difficulty_witness:
  "\<exists>j'. setTarget (Some (Cvt_toHex [0xF3, 0x22, 0, 0])) (new_job False RX_0 None) = Some (True, j') \<and>
     unat (j_diff j') = 480045"
proof -
  have "hex_decode (Cvt_toHex [0xF3, 0x22, 0, 0]) = Some [0xF3, 0x22, 0, 0]"
    by (rule hex_decode_toHex) simp_all
  moreover have "load32 [0xF3, 0x22, 0, 0] = 0x22F3"
    by code_simp
  ultimately show ?thesis
    using compact_target_difficulty [of "new_job False RX_0 None" "Cvt_toHex [0xF3, 0x22, 0, 0]" "[0xF3, 0x22, 0, 0]"]
    by (auto simp: new_job_def algo_ids)
qed

text \<open>A compact target of zero divides by zero.\<close>

lemma zero_target_undefined:
  "setTarget (Some (replicate 8 48)) (new_job False RX_0 None) = None"
  by code_simp

subsection \<open>The number of transactions\<close>

lemma num_tx_loop_put:
  assumes "take (length (put_varint k)) (drop i blob) = put_varint k" "i + length (put_varint k) = sz"
    "sz \<le> length blob" "unat k < 2 ^ (28 - shift)" "shift < 28"
  shows "num_tx_loop blob sz i shift acc = Some (acc OR push_bit shift (ucast k))"
  using assms
proof (induction k arbitrary: i shift acc rule: put_varint.induct)
  case (1 k)
  have here: "blob ! i = hd (put_varint k)" "i < length blob" "i < sz"
  proof -
    have "0 < length (put_varint k)" by (rule put_varint_pos)
    then show "i < length blob" "i < sz" using 1(3,4) by linarith+
    then have "drop i blob ! 0 = blob ! i" by simp
    then show "blob ! i = hd (put_varint k)"
      using 1(2) \<open>0 < length (put_varint k)\<close> by (metis hd_conv_nth length_greater_0_conv nth_take)
  qed
  show ?case
  proof (cases "unat k < 128")
    case True
    have "blob ! i = ucast k" using here(1) by (simp add: put_varint_step(2) [OF True])
    moreover have "(ucast (ucast k AND 0x7F :: u8) :: u32) = ucast k"
    proof -
      have "(ucast (ucast k AND 0x7F :: u8) :: u32) = ucast (ucast (ucast k AND 0x7F :: u8) :: u64)"
        by (rule bit_word_eqI) (auto simp: varint_bits)
      then show ?thesis by (simp add: varint_last(1) [OF True])
    qed
    ultimately show ?thesis
      using here by (subst num_tx_loop.simps) (simp add: rd_def Let_def varint_last(2) [OF True])
  next
    case False
    then have big: "128 \<le> unat k" by simp
    let ?k = "drop_bit 7 k"
    have "(2 :: nat) ^ 7 < 2 ^ (28 - shift)" using 1(5) big by simp
    then have s: "shift + 7 < 28"
      using power_less_imp_less_exp [of "2 :: nat" 7 "28 - shift"] by simp
    have k: "unat ?k < 2 ^ (28 - (shift + 7))"
    proof -
      have "28 - shift = (28 - (shift + 7)) + 7" using s by simp
      then have "(2 :: nat) ^ (28 - shift) = 2 ^ (28 - (shift + 7)) * 2 ^ 7"
        by (simp only: power_add)
      then have "unat k < 2 ^ (28 - (shift + 7)) * 2 ^ 7" using 1(5) by simp
      then show ?thesis
        by (simp only: unat_drop_bit_eq drop_bit_eq_div [of 7 "unat k"] less_mult_imp_div_less)
    qed
    have rest: "take (length (put_varint ?k)) (drop (Suc i) blob) = put_varint ?k"
      using 1(2) here(2) by (simp add: put_varint_step(1) [OF big] Cons_nth_drop_Suc [symmetric])
    have byte: "blob ! i = (ucast k AND 0x7F) OR 0x80"
      using here(1) by (simp add: put_varint_step(1) [OF big])
    have low: "(ucast (((ucast k AND 0x7F) OR 0x80 :: u8) AND 0x7F) :: u32) = take_bit 7 (ucast k)"
      by (rule bit_word_eqI) (auto simp: varint_bits)
    have IH: "num_tx_loop blob sz (Suc i) (shift + 7) (acc OR push_bit shift (take_bit 7 (ucast k))) =
        Some ((acc OR push_bit shift (take_bit 7 (ucast k))) OR push_bit (shift + 7) (ucast ?k))"
      using 1(1) [OF _ rest _ 1(4) k s] 1(3) big
      by (simp add: put_varint_step(1) [OF big] word_le_nat_alt)
    have kbit: "\<not> bit k n" if "28 \<le> n + shift" for n
    proof -
      have "unat k < 2 ^ n"
        using 1(5) that by (meson le_diff_conv less_le_trans one_le_numeral power_increasing)
      then have "take_bit n k = k" by (metis mod_less unat_take_bit word_unat_eq_iff)
      then show ?thesis by (metis bit_take_bit_iff less_irrefl)
    qed
    have "(acc OR push_bit shift (take_bit 7 (ucast k))) OR push_bit (shift + 7) (ucast ?k) = acc OR push_bit shift (ucast k)"
    proof (rule bit_word_eqI)
      fix n assume n: "n < LENGTH(32)"
      have "n - (shift + 7) + 7 = n - shift" if "\<not> n - shift < 7"
        using that by simp
      then show "bit ((acc OR push_bit shift (take_bit 7 (ucast k))) OR push_bit (shift + 7) (ucast ?k)) n =
        bit (acc OR push_bit shift (ucast k)) n"
        by (cases "n - shift < 7") (use n in \<open>auto simp: bit_simps add.commute\<close>)
    qed
    then show ?thesis
      using here(2,3) IH varint_cont [of k] by (subst num_tx_loop.simps) (simp add: rd_def Let_def byte low)
  qed
qed

text \<open>
  The miner and the template agree on the number of transactions: a job whose blob is the
  hashing blob generated from a template reports the template's transactions and the miner's.
\<close>

theorem numTransactions_of_template:
  assumes "generateHashingBlob t = Some b" "length (t_rootHash t) = kHashSize"
    "unat (o_miner_tx_prefix t) + kHashSize = (if j_algorithm j = RX_WOW then 141 else 75)"
    "unat (t_numHashes t) + 1 < 2 ^ 28"
    "algo_family (j_algorithm j) = RANDOM_X" "j_size j = length b" "take (j_size j) (j_blob j) = b"
  shows "getNumTransactions j = Some (ucast (t_numHashes t) + 1)"
proof -
  let ?n = "t_numHashes t + 1" and ?off = "if j_algorithm j = RX_WOW then 141 else 75 :: nat"
  have n: "unat ?n = unat (t_numHashes t) + 1"
    using assms(4) by (simp add: unat_word_ariths)
  obtain head where head: "get_bytes (t_blob t) 0 (unat (o_miner_tx_prefix t)) = Some head"
    and b: "b = (head @ t_rootHash t) @ put_varint ?n"
    using assms(1) by (auto simp: generateHashingBlob_def split: bind_splits)
  have len: "length (head @ t_rootHash t) = ?off"
    using get_bytes_length [OF head] assms(2,3) by simp
  have size: "length (put_varint k) \<le> 4" if "unat k < 2 ^ 28" for k
    using put_varint_length [of 4 k] that by simp
  have "take (length (put_varint ?n)) (drop ?off (j_blob j)) = put_varint ?n"
  proof -
    have "drop ?off (take (j_size j) (j_blob j)) = put_varint ?n"
      unfolding assms(7) b using len by simp
    then have "take (j_size j - ?off) (drop ?off (j_blob j)) = put_varint ?n"
      by (simp add: drop_take)
    moreover have "j_size j - ?off = length (put_varint ?n)"
      unfolding assms(6) b using len by simp
    ultimately show ?thesis by simp
  qed
  moreover have "?off + length (put_varint ?n) = j_size j"
    unfolding assms(6) b using len by simp
  moreover have "j_size j \<le> length (j_blob j)"
    using assms(6,7) by (metis length_take min.cobounded1)
  ultimately have "num_tx_loop (j_blob j) (j_size j) ?off 0 0 = Some (0 OR push_bit 0 (ucast ?n))"
    using n assms(4) by (intro num_tx_loop_put) simp_all
  moreover have "?off < j_size j" "j_size j \<le> ?off + 4"
  proof -
    have "j_size j = ?off + length (put_varint ?n)"
      unfolding assms(6) b using len by (simp only: length_append)
    moreover have "length (put_varint ?n) \<le> 4"
      using size [of ?n] n assms(4) by simp
    ultimately show "?off < j_size j" "j_size j \<le> ?off + 4"
      using put_varint_pos [of ?n] by linarith+
  qed
  moreover have "(ucast ?n :: u32) = ucast (t_numHashes t) + 1"
    using n assms(4)
    by (simp add: word_unat_eq_iff unat_word_ariths unsigned_ucast_eq take_bit_eq_mod)
  ultimately show ?thesis
    using assms(5) by (simp add: getNumTransactions_def Let_def)
qed

theorem numTransactions_of_template_witness:
  "let t = new_template\<lparr>t_blob := replicate 43 7, o_miner_tx_prefix := 43, t_numHashes := 300\<rparr>;
       b = replicate 43 7 @ replicate 32 0 @ put_varint 301 in
   generateHashingBlob t = Some b \<and>
   getNumTransactions ((new_job False RX_0 None)\<lparr>j_size := length b, j_blob := b\<rparr>) = Some 301"
proof -
  let ?t = "new_template\<lparr>t_blob := replicate 43 7, o_miner_tx_prefix := 43, t_numHashes := 300\<rparr>"
  let ?b = "replicate 43 7 @ replicate 32 0 @ put_varint 301"
  have gen: "generateHashingBlob ?t = Some ?b"
    by (simp add: generateHashingBlob_def get_bytes_def new_template_def)
  have "getNumTransactions ((new_job False RX_0 None)\<lparr>j_size := length ?b, j_blob := ?b\<rparr>) =
      Some (ucast (t_numHashes ?t) + 1)"
    by (rule numTransactions_of_template [OF gen])
      (simp_all add: kHashSize_def new_template_def new_job_def algo_ids algo_family_def)
  then show ?thesis using gen by (simp add: Let_def)
qed

end
