(* ===== verification/Worker.thy ===== *)
theory Worker
  imports VmProps Nonce Job
begin

text \<open>
  A mining thread: \<^verbatim>\<open>backend/common/WorkerJob.h\<close> and \<^verbatim>\<open>backend/cpu/CpuWorker.cpp\<close>, for one hash
  per round (\<open>N = 1\<close>, the only instance \<open>selfTest\<close> accepts for RandomX), without the benchmark.
  The round of the inner loop is a function that composes the job, the nonce allocator, the
  miner signature and the pipelined hashing; the loops around it are a step relation whose
  steps are the single reads of the shared state, so that any change of the allocator's state by
  other threads may fall between two of them. \<open>None\<close> is an access outside an array or through a
  null pointer.
\<close>

subsection \<open>The worker's job\<close>

record worker_job =
  wj_blobs :: "bytes list"
  wj_jobs :: "job list"
  wj_rounds :: "u32 list"
  wj_nonce_mask :: "u64 list"
  wj_sequence :: u64
  wj_index :: u8

definition default_job :: job where
  "default_job = new_job False ALGO_INVALID None"

definition new_worker_job :: worker_job where
  "new_worker_job = \<lparr> wj_blobs = replicate 2 (replicate kMaxBlobSize 0), wj_jobs = replicate 2 default_job,
     wj_rounds = replicate 2 0, wj_nonce_mask = replicate 2 0, wj_sequence = 0, wj_index = 0 \<rparr>"

definition currentJob :: "worker_job \<Rightarrow> job option" where
  "currentJob w = rd (wj_jobs w) (unat (wj_index w))"

definition wj_blob :: "worker_job \<Rightarrow> bytes option" where
  "wj_blob w = rd (wj_blobs w) (unat (wj_index w))"

definition set_wj_blob :: "bytes \<Rightarrow> worker_job \<Rightarrow> worker_job option" where
  "set_wj_blob b w =
     do { bs \<leftarrow> wr (wj_blobs w) (unat (wj_index w)) b; Some (w\<lparr>wj_blobs := bs\<rparr>) }"

text \<open>
  \<open>Nonce::next(index(), nonce(), count, nonceMask())\<close> on the nonce inside the blob; the second
  word is only touched by masks of more than 32 bits.
\<close>

definition wj_next_nonce :: "u32 \<Rightarrow> worker_job \<Rightarrow> nonce_state \<Rightarrow> (bool \<times> worker_job \<times> nonce_state) option" where
  "wj_next_nonce count w ns =
     do { job \<leftarrow> currentJob w;
          blob \<leftarrow> wj_blob w;
          msk \<leftarrow> rd (wj_nonce_mask w) (unat (wj_index w));
          lo \<leftarrow> load32_at blob (nonceOffset job);
          hi \<leftarrow> load32_at blob (nonceOffset job + 4);
          (ok, n, ns) \<leftarrow> nonce_next (unat (wj_index w)) (lo, hi) count msk ns;
          blob \<leftarrow> store32_at blob (nonceOffset job) (fst n);
          blob \<leftarrow> store32_at blob (nonceOffset job + 4) (snd n);
          w \<leftarrow> set_wj_blob blob w;
          Some (ok, w, ns) }"

text \<open>Whether the nonce could be reserved is not looked at.\<close>

definition wj_save :: "job \<Rightarrow> u32 \<Rightarrow> u32 \<Rightarrow> worker_job \<Rightarrow> nonce_state \<Rightarrow> (worker_job \<times> nonce_state) option" where
  "wj_save job reserveCount backend w ns =
     do { let w = w\<lparr>wj_index := j_index job\<rparr>;
          old \<leftarrow> currentJob w;
          jobs \<leftarrow> wr (wj_jobs w) (unat (wj_index w)) ((job_copy job old)\<lparr>j_backend := backend\<rparr>);
          rounds \<leftarrow> wr (wj_rounds w) (unat (wj_index w)) 0;
          masks \<leftarrow> wr (wj_nonce_mask w) (unat (wj_index w)) (nonceMask job);
          let w = w\<lparr>wj_jobs := jobs, wj_rounds := rounds, wj_nonce_mask := masks\<rparr>;
          blob \<leftarrow> wj_blob w;
          src \<leftarrow> get_bytes (j_blob job) 0 (j_size job);
          blob \<leftarrow> put_bytes blob 0 src;
          w \<leftarrow> set_wj_blob blob w;
          (ok, w, ns) \<leftarrow> wj_next_nonce reserveCount w ns;
          Some (w, ns) }"

definition wj_add :: "job \<Rightarrow> u32 \<Rightarrow> nat \<Rightarrow> worker_job \<Rightarrow> nonce_state \<Rightarrow> (worker_job \<times> nonce_state) option" where
  "wj_add job reserveCount backend w ns =
     do { q \<leftarrow> nonce_sequence backend ns;
          let w = w\<lparr>wj_sequence := q\<rparr>;
          cur \<leftarrow> currentJob w;
          job0 \<leftarrow> rd (wj_jobs w) 0;
          if job_isEqual cur job then Some (w, ns)
          else if wj_index w = 1 \<and> j_index job = 0 \<and> job_isEqual job job0
          then Some (w\<lparr>wj_index := 0\<rparr>, ns)
          else wj_save job reserveCount (of_nat backend) w ns }"

text \<open>\<open>nonceSize()\<close> is 4, so the second word of an eight-byte nonce is never copied back.\<close>

definition wj_nextRound :: "u32 \<Rightarrow> u32 \<Rightarrow> worker_job \<Rightarrow> nonce_state \<Rightarrow> (bool \<times> worker_job \<times> nonce_state) option" where
  "wj_nextRound rounds roundSize w ns =
     do { r \<leftarrow> rd (wj_rounds w) (unat (wj_index w));
          let r = r + 1;
          let w = w\<lparr>wj_rounds := (wj_rounds w)[unat (wj_index w) := r]\<rparr>;
          if r AND (rounds - 1) = 0 then wj_next_nonce (rounds * roundSize) w ns
          else do { job \<leftarrow> currentJob w;
                    blob \<leftarrow> wj_blob w;
                    n \<leftarrow> load32_at blob (nonceOffset job);
                    blob \<leftarrow> store32_at blob (nonceOffset job) (n + roundSize);
                    w \<leftarrow> set_wj_blob blob w;
                    Some (True, w, ns) } }"

subsection \<open>A round\<close>

definition kReserveCount :: u32 where "kReserveCount = 32768"

text \<open>What the thread runs on: configuration, machine, dataset, the signing function, a new machine.\<close>

record rig =
  rig_config :: rx_config
  rig_impl :: vm_impl
  rig_dataset :: dataset_read
  rig_sign :: "bytes \<Rightarrow> bytes \<Rightarrow> bytes \<Rightarrow> bytes"
  rig_new_vm :: randomx_vm

text \<open>
  The members of \<open>CpuWorker\<close> and the locals of \<open>start\<close>; \<open>prev_job\<close> holds its first
  \<open>prev_job_size\<close> bytes.
\<close>

record worker =
  cw_algorithm :: u32
  cw_job :: worker_job
  cw_vm :: "randomx_vm option"
  cw_commitment :: bytes
  cw_hash :: bytes
  cw_count :: u64
  cw_first :: bool
  cw_tempHash :: bytes
  cw_prev_job :: bytes
  cw_signature_saved :: bytes

definition new_worker :: "u32 \<Rightarrow> worker" where
  "new_worker algorithm = \<lparr> cw_algorithm = algorithm, cw_job = new_worker_job, cw_vm = None,
     cw_commitment = replicate 32 0, cw_hash = replicate 32 0, cw_count = 0, cw_first = True,
     cw_tempHash = replicate 64 0, cw_prev_job = [], cw_signature_saved = replicate 64 0 \<rparr>"

datatype job_result =
    Found job u32 bytes "bytes option"
  | Exhausted_nonces job

text \<open>The signature of the blob as it stands, written into it behind the nonce.\<close>

definition sign_blob :: "rig \<Rightarrow> job \<Rightarrow> worker_job \<Rightarrow> worker_job option" where
  "sign_blob R job wj =
     (if j_hasMinerSignature job then
        do { blob \<leftarrow> wj_blob wj;
             sig \<leftarrow> generateMinerSignature (rig_sign R) job blob (j_size job);
             blob \<leftarrow> put_bytes blob (nonceOffset job + nonceSize) sig;
             set_wj_blob blob wj }
      else Some wj)"

definition first_hash :: "rig \<Rightarrow> job \<Rightarrow> worker \<Rightarrow> worker option" where
  "first_hash R job w =
     do { wj \<leftarrow> sign_blob R job (cw_job w);
          blob \<leftarrow> wj_blob wj;
          inp \<leftarrow> get_bytes blob 0 (j_size job);
          vm \<leftarrow> cw_vm w;
          (t, vm) \<leftarrow> randomx_calculate_hash_first (rig_config R) (rig_impl R) inp vm;
          Some (w\<lparr>cw_first := False, cw_job := wj, cw_tempHash := t, cw_vm := Some vm,
            cw_prev_job := if Tweak_V2_COMMITMENT (rig_config R) then inp else cw_prev_job w\<rparr>) }"

definition save_signature :: "job \<Rightarrow> worker \<Rightarrow> bytes option" where
  "save_signature job w =
     (if j_hasMinerSignature job then
        do { blob \<leftarrow> wj_blob (cw_job w); get_bytes blob (nonceOffset job + nonceSize) kSignatureSize }
      else Some (cw_signature_saved w))"

text \<open>The hash of the previous round's blob, its commitment when there is one, and the next input.\<close>

definition finish_hash :: "rig \<Rightarrow> job \<Rightarrow> worker \<Rightarrow> worker option" where
  "finish_hash R job w =
     do { sig \<leftarrow> save_signature job w;
          wj \<leftarrow> sign_blob R job (cw_job w);
          blob \<leftarrow> wj_blob wj;
          inp \<leftarrow> get_bytes blob 0 (j_size job);
          vm \<leftarrow> cw_vm w;
          (h, t, vm) \<leftarrow> randomx_calculate_hash_next (rig_config R) (rig_impl R) (rig_dataset R)
            (cw_tempHash w) inp vm;
          let w = w\<lparr>cw_signature_saved := sig, cw_job := wj, cw_tempHash := t, cw_vm := Some vm\<rparr>;
          if Tweak_V2_COMMITMENT (rig_config R)
          then do { c \<leftarrow> randomx_calculate_commitment (cw_prev_job w) h;
                    Some (w\<lparr>cw_commitment := h, cw_hash := c, cw_prev_job := inp\<rparr>) }
          else Some (w\<lparr>cw_hash := h\<rparr>) }"

definition submissions :: "rig \<Rightarrow> job \<Rightarrow> u32 \<Rightarrow> worker \<Rightarrow> job_result list option" where
  "submissions R job nonce w =
     do { v \<leftarrow> load64_at (cw_hash w) 24;
          Some (if v < j_target job
            then [Found job nonce (cw_hash w)
                   (if Tweak_V2_COMMITMENT (rig_config R) then Some (cw_commitment w)
                    else if j_hasMinerSignature job then Some (cw_signature_saved w)
                    else None)]
            else []) }"

text \<open>The body of the inner loop; the first component is false where it breaks.\<close>

definition worker_turn ::
  "rig \<Rightarrow> worker \<Rightarrow> nonce_state \<Rightarrow> (bool \<times> job_result list \<times> worker \<times> nonce_state) option" where
  "worker_turn R w ns =
     do { job \<leftarrow> currentJob (cw_job w);
          if algo_l3 (j_algorithm job) \<noteq> algo_l3 (cw_algorithm w) then Some (False, [], w, ns)
          else do {
            blob \<leftarrow> wj_blob (cw_job w);
            nonce \<leftarrow> load32_at blob (nonceOffset job);
            w \<leftarrow> (if cw_first w then first_hash R job w else Some w);
            (ok, wj, ns) \<leftarrow> wj_nextRound kReserveCount 1 (cw_job w) ns;
            let w = w\<lparr>cw_job := wj\<rparr>;
            if \<not> ok then Some (False, [Exhausted_nonces job], w, ns)
            else do {
              w \<leftarrow> finish_hash R job w;
              found \<leftarrow> submissions R job nonce w;
              Some (True, found, w\<lparr>cw_count := cw_count w + 1\<rparr>, ns) } } }"

subsection \<open>The thread\<close>

text \<open>Where the thread is: before which read of the shared state, or inside a round.\<close>

datatype resume_at = To_loop | To_hash

datatype pc =
    Loop_head
  | Check_pause
  | Sleeping
  | Sleeping_sequence
  | After_sleep
  | Consume resume_at
  | Add_job resume_at
  | Allocate resume_at
  | Allocate_sequence resume_at
  | Start_hash
  | Hash_loop
  | Turn
  | After_hash
  | Stopped

fun resume_pc :: "resume_at \<Rightarrow> pc" where
  "resume_pc To_loop = Loop_head"
| "resume_pc To_hash = Start_hash"

text \<open>
  One step, given the miner's job at this moment and whether the dataset is there. Hashing
  starts afresh at \<open>Start_hash\<close>.
\<close>

fun thread_step ::
  "rig \<Rightarrow> job \<Rightarrow> bool \<Rightarrow> pc \<Rightarrow> worker \<Rightarrow> nonce_state \<Rightarrow>
   (pc \<times> job_result list \<times> worker \<times> nonce_state) option" where
  "thread_step R job dataset Loop_head w ns =
     do { q \<leftarrow> nonce_sequence Backend_CPU ns; Some (if 0 < q then Check_pause else Stopped, [], w, ns) }"
| "thread_step R job dataset Check_pause w ns =
     Some (if nonce_isPaused ns then Sleeping else Start_hash, [], w, ns)"
| "thread_step R job dataset Sleeping w ns =
     Some (if nonce_isPaused ns then Sleeping_sequence else After_sleep, [], w, ns)"
| "thread_step R job dataset Sleeping_sequence w ns =
     do { q \<leftarrow> nonce_sequence Backend_CPU ns; Some (if 0 < q then Sleeping else After_sleep, [], w, ns) }"
| "thread_step R job dataset After_sleep w ns =
     do { q \<leftarrow> nonce_sequence Backend_CPU ns; Some (if q = 0 then Stopped else Consume To_hash, [], w, ns) }"
| "thread_step R job dataset (Consume k) w ns =
     do { q \<leftarrow> nonce_sequence Backend_CPU ns; Some (if q = 0 then resume_pc k else Add_job k, [], w, ns) }"
| "thread_step R job dataset (Add_job k) w ns =
     do { (wj, ns) \<leftarrow> wj_add job kReserveCount Backend_CPU (cw_job w) ns;
          Some (Allocate k, [], w\<lparr>cw_job := wj\<rparr>, ns) }"
| "thread_step R job dataset (Allocate k) w ns =
     Some (if \<not> dataset then (Allocate_sequence k, [], w, ns)
           else (resume_pc k, [], w\<lparr>cw_vm := Some (case cw_vm w of None \<Rightarrow> rig_new_vm R | Some vm \<Rightarrow> vm)\<rparr>, ns))"
| "thread_step R job dataset (Allocate_sequence k) w ns =
     do { q \<leftarrow> nonce_sequence Backend_CPU ns; Some (if q = 0 then resume_pc k else Allocate k, [], w, ns) }"
| "thread_step R job dataset Start_hash w ns =
     Some (Hash_loop, [], w\<lparr>cw_first := True, cw_tempHash := replicate 64 0, cw_prev_job := [],
       cw_signature_saved := replicate 64 0\<rparr>, ns)"
| "thread_step R job dataset Hash_loop w ns =
     do { out \<leftarrow> nonce_isOutdated Backend_CPU (wj_sequence (cw_job w)) ns;
          Some (if out then After_hash else Turn, [], w, ns) }"
| "thread_step R job dataset Turn w ns =
     do { (more, found, w, ns) \<leftarrow> worker_turn R w ns;
          Some (if more then Hash_loop else After_hash, found, w, ns) }"
| "thread_step R job dataset After_hash w ns =
     Some (if nonce_isPaused ns then Loop_head else Consume To_loop, [], w, ns)"
| "thread_step R job dataset Stopped w ns = Some (Stopped, [], w, ns)"

text \<open>
  The jobs a miner hands out: the blob holds the nonce, the index is 0 (\<^verbatim>\<open>Miner::setJob\<close>).
\<close>

definition job_ready :: "job \<Rightarrow> bool" where
  "job_ready j \<longleftrightarrow> job_wf j \<and> nonceOffset j + nonceSize \<le> j_size j \<and> j_size j < kMaxBlobSize \<and> j_index j = 0"

text \<open>A run: steps of the thread and anything the other threads do, with what was submitted.\<close>

inductive thread_run :: "rig \<Rightarrow> u32 \<Rightarrow> pc \<Rightarrow> worker \<Rightarrow> nonce_state \<Rightarrow> job_result list \<Rightarrow> bool" for R algorithm where
  Started: "nonce_wf ns \<Longrightarrow> thread_run R algorithm Loop_head (new_worker algorithm) ns []"
| Others: "thread_run R algorithm p w ns out \<Longrightarrow> nonce_wf ns' \<Longrightarrow> thread_run R algorithm p w ns' out"
| Own: "thread_run R algorithm p w ns out \<Longrightarrow> job_ready job \<Longrightarrow>
    thread_step R job dataset p w ns = Some (p', found, w', ns') \<Longrightarrow>
    thread_run R algorithm p' w' ns' (out @ found)"

end
