(* ===== verification/WorkerProps.thy ===== *)
theory WorkerProps
  imports Worker VmFunction NonceProps MerkleTree
begin

text \<open>
  What a mining thread submits: every submitted nonce is the nonce of a blob that is the job's
  apart from nonce and signature, with the submitted hash, which is below the target; and the
  nonces a thread goes through between two reservations are the reserved range.
\<close>

subsection \<open>Blobs that differ in some places\<close>

definition agree_except :: "nat set \<Rightarrow> bytes \<Rightarrow> bytes \<Rightarrow> bool" where
  "agree_except A b c \<longleftrightarrow> length b = length c \<and> (\<forall>i < length b. i \<notin> A \<longrightarrow> b ! i = c ! i)"

lemma agree_except_refl [simp]: "agree_except A b b"
  by (simp add: agree_except_def)

lemma agree_except_trans: "agree_except A a b \<Longrightarrow> agree_except A b c \<Longrightarrow> agree_except A a c"
  by (simp add: agree_except_def)

lemma agree_except_mono: "agree_except A a b \<Longrightarrow> A \<subseteq> B \<Longrightarrow> agree_except B a b"
  by (auto simp: agree_except_def)

lemma agree_except_length: "agree_except A a b \<Longrightarrow> length b = length a"
  by (simp add: agree_except_def)

lemma put_bytes_agree:
  assumes "put_bytes b off bs = Some c"
  shows "agree_except {off ..< off + length bs} b c"
  using assms by (auto simp: agree_except_def put_bytes_def nth_append split: if_splits)

lemma agree_get_bytes:
  assumes "agree_except A a b" "A \<inter> {off ..< off + n} = {}"
  shows "get_bytes b off n = get_bytes a off n"
proof -
  have "take n (drop off a) = take n (drop off b)" if "off + n \<le> length a"
  proof (rule nth_equalityI)
    fix i assume "i < length (take n (drop off a))"
    then have "off + i \<notin> A" "off + i < length a" using assms(2) that by auto
    then show "take n (drop off a) ! i = take n (drop off b) ! i"
      using assms(1) \<open>i < _\<close> that by (simp add: agree_except_def)
  qed (use assms(1) in \<open>simp add: agree_except_def\<close>)
  then show ?thesis
    using agree_except_length [OF assms(1)] by (simp add: get_bytes_def)
qed

lemma put_get_same: "put_bytes b off bs = Some c \<Longrightarrow> get_bytes c off (length bs) = Some bs"
  by (auto simp: put_bytes_def get_bytes_def split: if_splits)

lemma load32_at_store32_at: "store32_at b off w = Some c \<Longrightarrow> load32_at c off = Some w"
  using put_get_same [of b off "store32 w" c] load32_store32 [of w "[]"]
  by (simp add: store32_at_def load32_at_def)

lemma store32_at_agree: "store32_at b off w = Some c \<Longrightarrow> agree_except {off ..< off + 4} b c"
  using put_bytes_agree [of b off "store32 w" c] by (simp add: store32_at_def)

lemma store32_at_total: "off + 4 \<le> length b \<Longrightarrow> \<exists>c. store32_at b off w = Some c"
  by (simp add: store32_at_def put_bytes_def)

lemma load32_at_total: "off + 4 \<le> length b \<Longrightarrow> \<exists>w. load32_at b off = Some w"
  by (simp add: load32_at_def get_bytes_def)

lemma store32_at_load32_at: "load32_at b off = Some w \<Longrightarrow> store32_at b off w = Some b"
proof -
  assume l: "load32_at b off = Some w"
  then have off: "off + 4 \<le> length b" and w: "w = load32 (take 4 (drop off b))"
    by (auto simp: load32_at_def get_bytes_def split: if_splits)
  have "store32 w = take 4 (drop off b)"
    using le_bytes_le_word [of "take 4 (drop off b)", where 'a = 32] off
    by (simp add: w load32_def store32_def)
  moreover have "take off b @ take 4 (drop off b) @ drop (off + 4) b = b"
    by (metis add.commute append_take_drop_id drop_drop)
  ultimately show ?thesis
    using off by (simp add: store32_at_def put_bytes_def)
qed

lemma load32_at_take: "off + 4 \<le> n \<Longrightarrow> n \<le> length b \<Longrightarrow> load32_at (take n b) off = load32_at b off"
  by (simp add: load32_at_def get_bytes_def drop_take min_def)

lemma load32_at_agree:
  "agree_except A a b \<Longrightarrow> A \<inter> {off ..< off + 4} = {} \<Longrightarrow> load32_at b off = load32_at a off"
  using agree_get_bytes [of A a b off 4] by (simp add: load32_at_def)

subsection \<open>The signature\<close>

text \<open>The signature of a blob does not depend on the signature bytes in it.\<close>

lemma signature_prefix_agree:
  assumes "agree_except {off ..< off + kSignatureSize} a b" "off = nonceOffset j + nonceSize"
    "length a = sz" "sz \<le> kMaxBlobSize" "off + kSignatureSize \<le> kMaxBlobSize"
  shows "signature_prefix j b sz = signature_prefix j a sz"
proof -
  let ?p = "\<lambda>x. x @ replicate (kMaxBlobSize - sz) (0 :: u8)"
  have len: "length (?p a) = kMaxBlobSize" "length (?p b) = kMaxBlobSize" "length b = sz"
    using assms(3,4) agree_except_length [OF assms(1)] by simp_all
  have "put_bytes (?p b) off (replicate kSignatureSize 0) = put_bytes (?p a) off (replicate kSignatureSize 0)"
  proof -
    have ab: "?p a ! i = ?p b ! i" if "i < kMaxBlobSize" "i < off \<or> off + kSignatureSize \<le> i" for i
      using assms(1,3) len(3) that by (auto simp: agree_except_def nth_append)
    have "take off (?p a) = take off (?p b)"
      by (rule nth_equalityI) (use len assms(5) ab in \<open>simp_all del: take_append drop_append\<close>)
    moreover have "drop (off + kSignatureSize) (?p a) = drop (off + kSignatureSize) (?p b)"
      by (rule nth_equalityI) (use len assms(5) ab in \<open>simp_all del: take_append drop_append\<close>)
    ultimately show ?thesis using len assms(5) by (simp add: put_bytes_def)
  qed
  then show ?thesis
    using len(3) assms(2,3) by (simp add: signature_prefix_def get_bytes_def)
qed

lemma signature_prefix_total:
  assumes "sz \<le> length b" "sz \<le> kMaxBlobSize" "nonceOffset j + nonceSize + kSignatureSize \<le> kMaxBlobSize"
  shows "\<exists>h. signature_prefix j b sz = Some h"
  using assms keccak_eq_sponge [OF keccak_rates(1)]
  by (simp add: signature_prefix_def get_bytes_def put_bytes_def)

lemma signature_place: "nonceOffset j + nonceSize + kSignatureSize \<le> kMaxBlobSize"
  by (simp add: nonceOffset_def nonceSize_def kSignatureSize_def kMaxBlobSize_def)


lemma generateMinerSignature_total:
  assumes "sz \<le> length b" "sz \<le> kMaxBlobSize" "\<forall>h p k. length (sign h p k) = kSignatureSize"
  shows "\<exists>s. generateMinerSignature sign j b sz = Some s \<and> length s = kSignatureSize"
  using signature_prefix_total [OF assms(1,2) signature_place [of j]] assms(3)
  by (auto simp: generateMinerSignature_def)

subsection \<open>The worker's job\<close>

text \<open>A worker's job whose current cell is the first, written out.\<close>

definition wj_of ::
  "job \<Rightarrow> bytes \<Rightarrow> u32 \<Rightarrow> u64 \<Rightarrow> u64 \<Rightarrow> job \<times> bytes \<times> u32 \<times> u64 \<Rightarrow> worker_job" where
  "wj_of j b r m q other = (case other of (j1, b1, r1, m1) \<Rightarrow>
     \<lparr> wj_blobs = [b, b1], wj_jobs = [j, j1], wj_rounds = [r, r1], wj_nonce_mask = [m, m1],
       wj_sequence = q, wj_index = 0 \<rparr>)"

definition nonce_bytes :: "job \<Rightarrow> nat set" where
  "nonce_bytes j = {nonceOffset j ..< nonceOffset j + nonceSize}"

definition signature_bytes :: "job \<Rightarrow> nat set" where
  "signature_bytes j = {nonceOffset j + nonceSize ..< nonceOffset j + nonceSize + kSignatureSize}"

text \<open>The job's blob up to the nonce and, when the job is signed, the signature.\<close>

definition blob_of_job :: "job \<Rightarrow> bytes \<Rightarrow> bool" where
  "blob_of_job j b \<longleftrightarrow>
     agree_except (nonce_bytes j \<union> (if j_hasMinerSignature j then signature_bytes j else {}))
       (take (j_size j) (j_blob j)) b"

definition cell_ok :: "job \<Rightarrow> bytes \<Rightarrow> u64 \<Rightarrow> bool" where
  "cell_ok j b m \<longleftrightarrow> length b = kMaxBlobSize \<and> m \<le> 0xFFFFFFFF \<and> (j = default_job \<or> job_ready j) \<and>
     blob_of_job j (take (j_size j) b)"

definition wj_inv :: "worker_job \<Rightarrow> bool" where
  "wj_inv w \<longleftrightarrow> (\<exists>j b r m q other. w = wj_of j b r m q other \<and> cell_ok j b m)"

lemma wj_of_simps [simp]:
  "currentJob (wj_of j b r m q other) = Some j"
  "wj_blob (wj_of j b r m q other) = Some b"
  "set_wj_blob b' (wj_of j b r m q other) = Some (wj_of j b' r m q other)"
  "wj_sequence (wj_of j b r m q other) = q"
  "wj_index (wj_of j b r m q other) = 0"
  "rd (wj_nonce_mask (wj_of j b r m q other)) 0 = Some m"
  "rd (wj_rounds (wj_of j b r m q other)) 0 = Some r"
  "rd (wj_jobs (wj_of j b r m q other)) 0 = Some j"
  "(wj_of j b r m q other)\<lparr>wj_rounds := (wj_rounds (wj_of j b r m q other))[0 := r']\<rparr> = wj_of j b r' m q other"
  "(wj_of j b r m q other)\<lparr>wj_sequence := q'\<rparr> = wj_of j b r m q' other"
  by (simp_all add: wj_of_def currentJob_def wj_blob_def set_wj_blob_def rd_def wr_def split: prod.split)

lemma nonce_place: "nonceOffset j + 8 \<le> kMaxBlobSize"
  by (simp add: nonceOffset_def kMaxBlobSize_def)

lemma wj_next_nonce_spec:
  assumes "length b = kMaxBlobSize" "m \<le> 0xFFFFFFFF" "nonce_wf ns"
  shows "\<exists>lo hi ok n b' ns'. load32_at b (nonceOffset j) = Some lo \<and>
    nonce_next 0 (lo, hi) count m ns = Some (ok, n, ns') \<and> store32_at b (nonceOffset j) (fst n) = Some b' \<and>
    wj_next_nonce count (wj_of j b r m q other) ns = Some (ok, wj_of j b' r m q other, ns') \<and> nonce_wf ns'"
proof -
  let ?off = "nonceOffset j"
  obtain lo where lo: "load32_at b ?off = Some lo"
    using load32_at_total [of ?off b] nonce_place [of j] assms(1) by auto
  obtain hi where hi: "load32_at b (?off + 4) = Some hi"
    using load32_at_total [of "?off + 4" b] nonce_place [of j] assms(1) by auto
  obtain ok n ns' where n: "nonce_next 0 (lo, hi) count m ns = Some (ok, n, ns')"
    using nonce_next_total [OF assms(3), of 0 "(lo, hi)" count m] by (auto simp: Backend_MAX_def)
  have keep: "snd n = hi" "nonce_wf ns'"
    using nonce_next_keeps [OF n assms(2,3)] by simp_all
  obtain b' where b': "store32_at b ?off (fst n) = Some b'"
    using store32_at_total [of ?off b] nonce_place [of j] assms(1) by auto
  have "load32_at b' (?off + 4) = Some hi"
    using load32_at_agree [OF store32_at_agree [OF b'], of "?off + 4"] hi by simp
  then have "store32_at b' (?off + 4) (snd n) = Some b'"
    using store32_at_load32_at keep(1) by simp
  then have "wj_next_nonce count (wj_of j b r m q other) ns = Some (ok, wj_of j b' r m q other, ns')"
    using lo hi n b' by (simp add: wj_next_nonce_def)
  then show ?thesis using lo n b' keep(2) by blast
qed

lemma wj_nextRound_spec:
  assumes "length b = kMaxBlobSize" "m \<le> 0xFFFFFFFF" "nonce_wf ns"
  shows "\<exists>ok b' ns'. wj_nextRound kReserveCount 1 (wj_of j b r m q other) ns =
      Some (ok, wj_of j b' (r + 1) m q other, ns') \<and> nonce_wf ns' \<and> agree_except (nonce_bytes j) b b'"
proof (cases "(r + 1) AND (kReserveCount - 1) = 0")
  case True
  then show ?thesis
    using wj_next_nonce_spec [OF assms, of j "kReserveCount * 1" "r + 1" q other] store32_at_agree
    by (auto simp: wj_nextRound_def nonce_bytes_def nonceSize_def Let_def) blast
next
  case False
  obtain n where n: "load32_at b (nonceOffset j) = Some n"
    using load32_at_total [of "nonceOffset j" b] nonce_place [of j] assms(1) by auto
  obtain b' where b': "store32_at b (nonceOffset j) (n + 1) = Some b'"
    using store32_at_total [of "nonceOffset j" b] nonce_place [of j] assms(1) by auto
  show ?thesis
    using False n b' store32_at_agree [OF b'] assms(3)
    by (auto simp: wj_nextRound_def nonce_bytes_def nonceSize_def Let_def)
qed


lemma job_ready_copy:
  assumes "job_ready job" "job_wf old"
  shows "job_ready ((job_copy job old)\<lparr>j_backend := x\<rparr>)"
    "take (j_size job) (j_blob (job_copy job old)) = take (j_size job) (j_blob job)"
  using assms by (auto simp: job_ready_def job_copy_def job_wf_def nonceOffset_def min_def)

lemma cell_ok_wf: "cell_ok j b m \<Longrightarrow> job_wf j"
  by (auto simp: cell_ok_def job_ready_def default_job_def new_job_def job_wf_def)

lemma cell_ok_size: "cell_ok j b m \<Longrightarrow> j_size j \<le> kMaxBlobSize"
  using cell_ok_wf by (auto simp: job_wf_def)

lemma nonceMask_le: "nonceMask j \<le> 0xFFFFFFFF"
  by (simp add: nonceMask_def)

lemma agree_take: "agree_except A b c \<Longrightarrow> agree_except A (take n b) (take n c)"
  by (simp add: agree_except_def)

lemma blob_of_job_nonce:
  assumes "blob_of_job j (take n b)" "agree_except (nonce_bytes j) b b'"
  shows "blob_of_job j (take n b')"
  using agree_except_trans [OF assms(1) [unfolded blob_of_job_def]]
    agree_except_mono [OF agree_take [OF assms(2)]] by (auto simp: blob_of_job_def)

lemma cell_ok_nonce:
  "cell_ok j b m \<Longrightarrow> agree_except (nonce_bytes j) b b' \<Longrightarrow> cell_ok j b' m"
  by (auto simp: cell_ok_def blob_of_job_nonce dest: agree_except_length)

lemma cell_ok_signature:
  assumes "cell_ok j b m" "agree_except (signature_bytes j) b b'" "j_hasMinerSignature j"
  shows "cell_ok j b' m"
proof -
  have "blob_of_job j (take (j_size j) b')"
    using assms agree_except_trans agree_except_mono [OF agree_take [OF assms(2), of "j_size j"]]
    by (fastforce simp: cell_ok_def blob_of_job_def)
  then show ?thesis using assms(1,2) by (auto simp: cell_ok_def dest: agree_except_length)
qed

lemma wj_save_eq:
  assumes "cell_ok j b m" "job_ready job"
  shows "wj_save job count backend (wj_of j b r m q other) ns =
    do { (ok, w, ns) \<leftarrow> wj_next_nonce count (wj_of ((job_copy job j)\<lparr>j_backend := backend\<rparr>)
            (take (j_size job) (j_blob job) @ drop (j_size job) b) 0 (nonceMask job) q other) ns;
         Some (w, ns) }"
proof -
  have "j_size job \<le> length (j_blob job)" "length b = kMaxBlobSize" "j_size job < kMaxBlobSize" "j_index job = 0"
    using assms by (auto simp: job_ready_def job_wf_def cell_ok_def)
  then show ?thesis
    by (cases other) (simp add: wj_save_def wj_of_def currentJob_def wj_blob_def set_wj_blob_def rd_def
        wr_def get_bytes_def put_bytes_def Let_def)
qed

lemma wj_save_spec:
  assumes cell: "cell_ok j b m" and job: "job_ready job" and ns: "nonce_wf ns"
  shows "\<exists>b' ns'. wj_save job count backend (wj_of j b r m q other) ns =
      Some (wj_of ((job_copy job j)\<lparr>j_backend := backend\<rparr>) b' 0 (nonceMask job) q other, ns') \<and>
    nonce_wf ns' \<and> cell_ok ((job_copy job j)\<lparr>j_backend := backend\<rparr>) b' (nonceMask job)"
proof -
  let ?j = "(job_copy job j)\<lparr>j_backend := backend\<rparr>" and ?sz = "j_size job"
  let ?b = "take ?sz (j_blob job) @ drop ?sz b"
  have sz: "?sz \<le> length (j_blob job)" "?sz \<le> length b" "length (j_blob job) = kMaxBlobSize" "length b = kMaxBlobSize"
    "?sz < kMaxBlobSize"
    using job cell by (auto simp: job_ready_def job_wf_def cell_ok_def)
  have len: "length ?b = kMaxBlobSize" using sz by (simp add: min_def)
  have ready: "job_ready ?j" using job_ready_copy(1) [OF job cell_ok_wf [OF cell]] .
  have fields: "j_size ?j = ?sz" "take ?sz (j_blob ?j) = take ?sz (j_blob job)"
    using job_ready_copy(2) [OF job cell_ok_wf [OF cell]] by (simp_all add: job_copy_def)
  have cell': "cell_ok ?j ?b (nonceMask job)"
    using ready sz fields nonceMask_le by (simp add: cell_ok_def blob_of_job_def min_def)
  obtain ok n b' ns' where n: "store32_at ?b (nonceOffset ?j) n = Some b'" "nonce_wf ns'"
    "wj_next_nonce count (wj_of ?j ?b 0 (nonceMask job) q other) ns =
      Some (ok, wj_of ?j b' 0 (nonceMask job) q other, ns')"
    using wj_next_nonce_spec [OF len nonceMask_le [of job] ns, of ?j count 0 q other] by blast
  have "agree_except (nonce_bytes ?j) ?b b'"
    using store32_at_agree [OF n(1)] by (simp add: nonce_bytes_def nonceSize_def)
  moreover have "wj_save job count backend (wj_of j b r m q other) ns =
      Some (wj_of ?j b' 0 (nonceMask job) q other, ns')"
    using n(3) wj_save_eq [OF cell job] by simp
  ultimately show ?thesis using n(2) cell_ok_nonce [OF cell'] by blast
qed

lemma wj_invI: "cell_ok j b m \<Longrightarrow> wj_inv (wj_of j b r m q other)"
  unfolding wj_inv_def by blast

lemma wj_invE:
  assumes "wj_inv w"
  obtains j b r m q other where "w = wj_of j b r m q other" "cell_ok j b m"
  using assms unfolding wj_inv_def by blast

lemma wj_add_spec:
  assumes inv: "wj_inv w" and job: "job_ready job" and ns: "nonce_wf ns"
  shows "\<exists>w' ns'. wj_add job kReserveCount Backend_CPU w ns = Some (w', ns') \<and> wj_inv w' \<and> nonce_wf ns'"
proof -
  obtain j b r m q other where w: "w = wj_of j b r m q other" "cell_ok j b m"
    using inv by (rule wj_invE)
  obtain q' where q': "nonce_sequence Backend_CPU ns = Some q'"
    using ns by (auto simp: nonce_sequence_def rd_def nonce_wf_def Backend_CPU_def Backend_MAX_def length_Suc_conv)
  show ?thesis
  proof (cases "job_isEqual j job")
    case True
    then show ?thesis using w q' ns wj_invI [OF w(2)] by (simp add: wj_add_def Let_def)
  next
    case False
    then show ?thesis
      using w q' wj_save_spec [OF w(2) job ns, of kReserveCount "of_nat Backend_CPU" r q' other]
        wj_invI by (fastforce simp: wj_add_def Let_def)
  qed
qed


subsection \<open>Hashing in the round\<close>

text \<open>\<open>h\<close> is the hash of \<open>b\<close>, on whatever machine it is computed.\<close>

definition rx_hash :: "rig \<Rightarrow> bytes \<Rightarrow> bytes \<Rightarrow> bool" where
  "rx_hash R b h \<longleftrightarrow> (\<forall>vm. vm_ok (rig_config R) vm \<longrightarrow>
     (\<exists>vm'. randomx_calculate_hash (rig_config R) (rig_impl R) (rig_dataset R) b vm = Some (h, vm')))"

definition rig_ok :: "rig \<Rightarrow> bool" where
  "rig_ok R \<longleftrightarrow> rx_valid (rig_config R) \<and> im_instance (rig_impl R) \<in> set hashAndFill_instances \<and>
     vm_ok (rig_config R) (rig_new_vm R) \<and> (\<forall>h p k. length (rig_sign R h p k) = kSignatureSize)"

definition started :: "rig \<Rightarrow> bytes \<Rightarrow> bytes \<Rightarrow> randomx_vm \<Rightarrow> bool" where
  "started R b t vm \<longleftrightarrow> (\<exists>vm0. vm_ok (rig_config R) vm0 \<and>
     randomx_calculate_hash_first (rig_config R) (rig_impl R) b vm0 = Some (t, vm))"

lemma started_ok: "rig_ok R \<Longrightarrow> started R b t vm \<Longrightarrow> vm_ok (rig_config R) vm"
  by (auto simp: started_def rig_ok_def dest: calculate_hash_first_ok [of "rig_config R" _ "rig_impl R" b])

lemma start_hash:
  assumes "rig_ok R" "vm_ok (rig_config R) vm"
  shows "\<exists>t vm'. randomx_calculate_hash_first (rig_config R) (rig_impl R) b vm = Some (t, vm') \<and> started R b t vm'"
  using calculate_hash_first_ok [of "rig_config R" vm "rig_impl R" b] assms
  by (auto simp: started_def rig_ok_def succeeds_def)

context dataset_view
begin

lemma next_hash:
  assumes R: "rig_ok R" "rig_dataset R = dread m" "ready m" and s: "started R b t vm"
  shows "\<exists>h t' vm'. randomx_calculate_hash_next (rig_config R) (rig_impl R) (rig_dataset R) t b' vm =
      Some (h, t', vm') \<and> length h = 32 \<and> rx_hash R b h \<and> started R b' t' vm'"
proof -
  let ?cfg = "rig_config R" and ?I = "rig_impl R"
  have v: "rx_valid ?cfg" "im_instance ?I \<in> set hashAndFill_instances" using R(1) by (simp_all add: rig_ok_def)
  obtain vm0 where vm0: "vm_ok ?cfg vm0" "randomx_calculate_hash_first ?cfg ?I b vm0 = Some (t, vm)"
    using s by (auto simp: started_def)
  have vm: "vm_ok ?cfg vm" by (rule started_ok [OF R(1) s])
  obtain h vm1 where h: "randomx_calculate_hash ?cfg ?I (dread m) b vm0 = Some (h, vm1)" "length h = 32" "vm_ok ?cfg vm1"
    using calculate_hash_ok [OF v(1) R(3) vm0(1), of ?I b] by (auto elim!: succeedsE)
  then have plain: "all_programs ?cfg ?I (dread m) t vm \<bind> getFinalResult ?cfg ?I = Some (h, vm1)"
    using vm0(2) by (simp add: calculate_hash_first_split)
  obtain t' vm' where f: "randomx_calculate_hash_first ?cfg ?I b' vm1 = Some (t', vm')" "started R b' t' vm'"
    using start_hash [OF R(1) h(3)] by blast
  have "randomx_calculate_hash_next ?cfg ?I (rig_dataset R) t b' vm = Some (h, t', vm')"
    unfolding R(2) next_split [OF v(1) R(3) vm v(2)]
    using plain f(1) by (auto split: bind_splits)
  moreover have "rx_hash R b h"
    unfolding rx_hash_def R(2)
  proof (intro allI impI)
    fix a assume "vm_ok ?cfg a"
    from hash_of_similar [OF v(1) R(3) vm0(1) this, of ?I b] h(1)
    show "\<exists>a'. randomx_calculate_hash ?cfg ?I (dread m) b a = Some (h, a')"
      by (auto simp: both_give_def)
  qed
  ultimately show ?thesis using h(2) f(2) by blast
qed

end

text \<open>The signature in a blob is the one of the blob.\<close>

definition signed :: "rig \<Rightarrow> job \<Rightarrow> bytes \<Rightarrow> bool" where
  "signed R j b \<longleftrightarrow> (\<exists>s. get_bytes b (nonceOffset j + nonceSize) kSignatureSize = Some s \<and>
     generateMinerSignature (rig_sign R) j (take (j_size j) b) (j_size j) = Some s)"

text \<open>The machine is in the middle of the hash of \<open>b\<close>, and what is kept of \<open>b\<close> is right.\<close>

definition pending :: "rig \<Rightarrow> job \<Rightarrow> bytes \<Rightarrow> worker \<Rightarrow> bool" where
  "pending R j b w \<longleftrightarrow> (\<exists>vm. cw_vm w = Some vm \<and> started R (take (j_size j) b) (cw_tempHash w) vm) \<and>
     (Tweak_V2_COMMITMENT (rig_config R) \<longrightarrow> cw_prev_job w = take (j_size j) b) \<and>
     (j_hasMinerSignature j \<longrightarrow> signed R j b)"

lemma generateMinerSignature_take:
  "sz \<le> length b \<Longrightarrow> generateMinerSignature sign j (take sz b) sz = generateMinerSignature sign j b sz"
  by (simp add: generateMinerSignature_def signature_prefix_def get_bytes_def)

lemma sign_blob_spec:
  assumes "rig_ok R" "cell_ok j b m"
  shows "\<exists>b'. sign_blob R j (wj_of j b r m q other) = Some (wj_of j b' r m q other) \<and> cell_ok j b' m \<and>
    (j_hasMinerSignature j \<longrightarrow> signed R j b') \<and> load32_at b' (nonceOffset j) = load32_at b (nonceOffset j)"
proof (cases "j_hasMinerSignature j")
  case False
  then show ?thesis using assms(2) by (auto simp: sign_blob_def)
next
  case True
  let ?off = "nonceOffset j + nonceSize"
  have len: "length b = kMaxBlobSize" "j_size j \<le> kMaxBlobSize"
    using assms(2) cell_ok_size by (auto simp: cell_ok_def)
  obtain s where s: "generateMinerSignature (rig_sign R) j b (j_size j) = Some s" "length s = kSignatureSize"
    using generateMinerSignature_total [of "j_size j" b "rig_sign R" j] len assms(1)
    by (auto simp: rig_ok_def)
  obtain b' where b': "put_bytes b ?off s = Some b'"
    using signature_place [of j] len(1) s(2) by (simp add: put_bytes_def)
  have agree: "agree_except (signature_bytes j) b b'"
    using put_bytes_agree [OF b'] s(2) by (simp add: signature_bytes_def)
  have "signature_prefix j (take (j_size j) b') (j_size j) = signature_prefix j (take (j_size j) b) (j_size j)"
    using signature_prefix_agree [OF agree_take [OF agree [unfolded signature_bytes_def]] refl, of "j_size j"]
      signature_place [of j] len by simp
  then have "generateMinerSignature (rig_sign R) j (take (j_size j) b') (j_size j) = Some s"
    using s(1) generateMinerSignature_take [of "j_size j" b "rig_sign R" j] len
    by (simp add: generateMinerSignature_def)
  then have "signed R j b'"
    using put_get_same [OF b'] s(2) by (auto simp: signed_def)
  moreover have "load32_at b' (nonceOffset j) = load32_at b (nonceOffset j)"
    by (rule load32_at_agree [OF agree]) (auto simp: signature_bytes_def nonceSize_def)
  moreover have "sign_blob R j (wj_of j b r m q other) = Some (wj_of j b' r m q other)"
    using True s b' by (simp add: sign_blob_def)
  ultimately show ?thesis
    using cell_ok_signature [OF assms(2) agree True] by blast
qed

lemma first_hash_spec:
  assumes "rig_ok R" "cell_ok j b m" "cw_job w = wj_of j b r m q other" "cw_vm w = Some vm"
    "vm_ok (rig_config R) vm"
  shows "\<exists>b' w'. first_hash R j w = Some w' \<and> cw_job w' = wj_of j b' r m q other \<and> cell_ok j b' m \<and>
    pending R j b' w' \<and> \<not> cw_first w' \<and> cw_algorithm w' = cw_algorithm w \<and>
    load32_at b' (nonceOffset j) = load32_at b (nonceOffset j)"
proof -
  obtain b' where b': "sign_blob R j (cw_job w) = Some (wj_of j b' r m q other)" "cell_ok j b' m"
    "j_hasMinerSignature j \<longrightarrow> signed R j b'" "load32_at b' (nonceOffset j) = load32_at b (nonceOffset j)"
    using sign_blob_spec [OF assms(1,2)] assms(3) by metis
  have get: "get_bytes b' 0 (j_size j) = Some (take (j_size j) b')"
    using b'(2) cell_ok_size by (auto simp: cell_ok_def get_bytes_def)
  obtain t vm' where f: "randomx_calculate_hash_first (rig_config R) (rig_impl R) (take (j_size j) b') vm = Some (t, vm')"
    "started R (take (j_size j) b') t vm'"
    using start_hash [OF assms(1,5)] by blast
  show ?thesis
    using b' get f assms(4) by (auto simp: first_hash_def pending_def)
qed


text \<open>What a submitted result has to satisfy.\<close>

fun result_ok :: "rig \<Rightarrow> job_result \<Rightarrow> bool" where
  "result_ok R (Exhausted_nonces j) \<longleftrightarrow> True"
| "result_ok R (Found j nonce hash extra) \<longleftrightarrow> (\<exists>b h v.
     blob_of_job j b \<and> load32_at b (nonceOffset j) = Some nonce \<and> rx_hash R b h \<and>
     load64_at hash 24 = Some v \<and> v < j_target j \<and>
     (if Tweak_V2_COMMITMENT (rig_config R)
      then randomx_calculate_commitment b h = Some hash \<and> extra = Some h
      else hash = h \<and> extra = (if j_hasMinerSignature j
        then generateMinerSignature (rig_sign R) j b (j_size j) else None)))"

lemma commitment_total: "\<exists>c. randomx_calculate_commitment b h = Some c \<and> length c = 32"
  using blake2b_ok [of 32 "b @ take 32 h"] by (auto simp: randomx_calculate_commitment_def elim: succeedsE)

context dataset_view
begin

lemma finish_hash_spec:
  assumes R: "rig_ok R" "rig_dataset R = dread m" "ready m"
    and old: "pending R j b0 w" "cell_ok j b0 msk" "load32_at b0 (nonceOffset j) = Some nonce"
    and new: "cw_job w = wj_of j b r msk q other" "agree_except (nonce_bytes j) b0 b" and j: "job_ready j"
  shows "\<exists>b' w' found. finish_hash R j w = Some w' \<and> submissions R j nonce w' = Some found \<and>
    (\<forall>x \<in> set found. result_ok R x) \<and> cw_job w' = wj_of j b' r msk q other \<and> cell_ok j b' msk \<and>
    pending R j b' w' \<and> cw_first w' = cw_first w \<and> cw_algorithm w' = cw_algorithm w"
proof -
  let ?in = "take (j_size j) b0" and ?off = "nonceOffset j" and ?cfg = "rig_config R"
  obtain vm where vm: "cw_vm w = Some vm" "started R ?in (cw_tempHash w) vm"
    using old(1) by (auto simp: pending_def)
  have cell: "cell_ok j b msk" by (rule cell_ok_nonce [OF old(2) new(2)])
  have size: "?off + 4 \<le> j_size j" "j_size j \<le> length b0" "j_size j \<le> length b"
    using j old(2) cell by (auto simp: job_ready_def nonceSize_def cell_ok_def)
  obtain sig where sig: "save_signature j w = Some sig"
    "j_hasMinerSignature j \<longrightarrow> generateMinerSignature (rig_sign R) j ?in (j_size j) = Some sig"
  proof (cases "j_hasMinerSignature j")
    case True
    have "get_bytes b (?off + nonceSize) kSignatureSize = get_bytes b0 (?off + nonceSize) kSignatureSize"
      by (rule agree_get_bytes [OF new(2)]) (auto simp: nonce_bytes_def)
    then show ?thesis
      using that True old(1) new(1) by (auto simp: pending_def signed_def save_signature_def)
  qed (simp add: that save_signature_def)
  obtain b' where b': "sign_blob R j (cw_job w) = Some (wj_of j b' r msk q other)" "cell_ok j b' msk"
    "j_hasMinerSignature j \<longrightarrow> signed R j b'"
    using sign_blob_spec [OF R(1) cell] new(1) by metis
  let ?next = "take (j_size j) b'"
  have get: "get_bytes b' 0 (j_size j) = Some ?next"
    using b'(2) cell_ok_size by (auto simp: cell_ok_def get_bytes_def)
  obtain h t' vm' where h: "randomx_calculate_hash_next ?cfg (rig_impl R) (rig_dataset R) (cw_tempHash w) ?next vm =
      Some (h, t', vm')" "length h = 32" "rx_hash R ?in h" "started R ?next t' vm'"
    using next_hash [OF R vm(2)] by blast
  obtain c where c: "randomx_calculate_commitment ?in h = Some c" "length c = 32"
    using commitment_total by blast
  let ?w = "w\<lparr>cw_signature_saved := sig, cw_job := wj_of j b' r msk q other, cw_tempHash := t', cw_vm := Some vm'\<rparr>"
  let ?w' = "if Tweak_V2_COMMITMENT ?cfg then ?w\<lparr>cw_commitment := h, cw_hash := c, cw_prev_job := ?next\<rparr>
    else ?w\<lparr>cw_hash := h\<rparr>"
  have prev: "Tweak_V2_COMMITMENT ?cfg \<longrightarrow> cw_prev_job w = ?in" using old(1) by (simp add: pending_def)
  have fin: "finish_hash R j w = Some ?w'"
    using sig(1) b'(1) get vm(1) h(1) prev c(1) by (simp add: finish_hash_def Let_def)
  have len: "length (cw_hash ?w') = 32" using h(2) c(2) by simp
  obtain v where v: "load64_at (cw_hash ?w') 24 = Some v"
    using len by (simp add: load64_at_def get_bytes_def)
  let ?extra = "if Tweak_V2_COMMITMENT ?cfg then Some (cw_commitment ?w')
    else if j_hasMinerSignature j then Some (cw_signature_saved ?w') else None"
  have sub: "submissions R j nonce ?w' = Some (if v < j_target j then [Found j nonce (cw_hash ?w') ?extra] else [])"
    using v by (simp add: submissions_def)
  have blob: "blob_of_job j ?in" using old(2) by (simp add: cell_ok_def)
  have nonce: "load32_at ?in ?off = Some nonce"
    using load32_at_take [OF size(1,2)] old(3) by simp
  have res: "result_ok R (Found j nonce (cw_hash ?w') ?extra)" if "v < j_target j"
    unfolding result_ok.simps
    by (rule exI [of _ ?in], rule exI [of _ h], rule exI [of _ v])
      (use blob nonce h(3) v that c(1) sig(2) in simp)
  have found: "\<forall>x \<in> set (if v < j_target j then [Found j nonce (cw_hash ?w') ?extra] else []). result_ok R x"
  proof (cases "v < j_target j")
    case True
    then show ?thesis using res [OF True] by (simp only: if_True list.set ball_simps ball_empty insert_iff simp_thms)
  qed simp
  have pend: "pending R j b' ?w'"
    using h(4) b'(3) by (simp add: pending_def)
  have same: "cw_job ?w' = wj_of j b' r msk q other" "cw_first ?w' = cw_first w" "cw_algorithm ?w' = cw_algorithm w"
    by simp_all
  show ?thesis
    using fin sub found same b'(2) pend by blast
qed

end


subsection \<open>The thread\<close>

text \<open>
  The worker between two steps. While it hashes, the machine is in the middle of the hash of the
  blob as it stands, unless the first input has not been handed in yet.
\<close>

definition worker_inv :: "rig \<Rightarrow> u32 \<Rightarrow> bool \<Rightarrow> worker \<Rightarrow> bool" where
  "worker_inv R algorithm hashing w \<longleftrightarrow> cw_algorithm w = algorithm \<and>
     (\<forall>vm. cw_vm w = Some vm \<longrightarrow> vm_ok (rig_config R) vm) \<and>
     (\<exists>j b r m q other. cw_job w = wj_of j b r m q other \<and> cell_ok j b m \<and>
        (hashing \<and> \<not> cw_first w \<longrightarrow> pending R j b w))"

lemma worker_inv_weaken: "worker_inv R algorithm h w \<Longrightarrow> worker_inv R algorithm False w"
  unfolding worker_inv_def by blast

fun hashes_at :: "pc \<Rightarrow> bool" where
  "hashes_at p = (p = Hash_loop \<or> p = Turn)"

lemma pending_vm: "rig_ok R \<Longrightarrow> pending R j b w \<Longrightarrow> cw_vm w = Some vm \<Longrightarrow> vm_ok (rig_config R) vm"
  using started_ok by (auto simp: pending_def)

context dataset_view
begin

lemma worker_turn_spec:
  assumes R: "rig_ok R" "rig_dataset R = dread m" "ready m" and l3: "0 < algo_l3 algorithm"
    and inv: "worker_inv R algorithm True w" and ns: "nonce_wf ns" and vm: "cw_vm w \<noteq> None"
  shows "\<exists>more found w' ns'. worker_turn R w ns = Some (more, found, w', ns') \<and> nonce_wf ns' \<and>
    worker_inv R algorithm more w' \<and> (\<forall>x \<in> set found. result_ok R x)"
proof -
  obtain j b r msk q other where w: "cw_job w = wj_of j b r msk q other" "cell_ok j b msk"
      "\<not> cw_first w \<Longrightarrow> pending R j b w" and alg: "cw_algorithm w = algorithm"
    and vmok: "\<And>vm. cw_vm w = Some vm \<Longrightarrow> vm_ok (rig_config R) vm"
    using inv unfolding worker_inv_def by blast
  show ?thesis
  proof (cases "algo_l3 (j_algorithm j) = algo_l3 (cw_algorithm w)")
    case False
    then have "worker_turn R w ns = Some (False, [], w, ns)" using w(1) by (simp add: worker_turn_def)
    moreover have "worker_inv R algorithm False w" by (rule worker_inv_weaken [OF inv])
    ultimately show ?thesis using ns by auto
  next
    case True
    have "j \<noteq> default_job"
      using True l3 alg by (auto simp: default_job_def new_job_def algo_l3_def)
    then have ready: "job_ready j" using w(2) by (simp add: cell_ok_def)
    have len: "length b = kMaxBlobSize" "msk \<le> 0xFFFFFFFF" using w(2) by (simp_all add: cell_ok_def)
    obtain nonce where nonce: "load32_at b (nonceOffset j) = Some nonce"
      using load32_at_total [of "nonceOffset j" b] nonce_place [of j] len by auto
    obtain b1 w1 where w1: "(if cw_first w then first_hash R j w else Some w) = Some w1"
      "cw_job w1 = wj_of j b1 r msk q other" "cell_ok j b1 msk" "pending R j b1 w1" "\<not> cw_first w1"
      "cw_algorithm w1 = algorithm" "load32_at b1 (nonceOffset j) = Some nonce"
    proof (cases "cw_first w")
      case first: True
      obtain vm where "cw_vm w = Some vm" using vm by blast
      with first_hash_spec [OF R(1) w(2,1) this vmok [OF this]] show ?thesis
        using first nonce alg by (auto intro: that)
    qed (use w nonce alg that in auto)
    have len1: "length b1 = kMaxBlobSize" using w1(3) by (simp add: cell_ok_def)
    obtain ok b2 ns2 where round: "wj_nextRound kReserveCount 1 (cw_job w1) ns =
        Some (ok, wj_of j b2 (r + 1) msk q other, ns2)" "nonce_wf ns2" "agree_except (nonce_bytes j) b1 b2"
      using wj_nextRound_spec [OF len1 len(2) ns] w1(2) by metis
    let ?w2 = "w1\<lparr>cw_job := wj_of j b2 (r + 1) msk q other\<rparr>"
    have cell2: "cell_ok j b2 msk" by (rule cell_ok_nonce [OF w1(3) round(3)])
    have pend: "pending R j b1 ?w2" using w1(4) by (simp add: pending_def)
    note turn = worker_turn_def [of R w ns, unfolded w(1)]
    show ?thesis
    proof (cases ok)
      case False
      then have "worker_turn R w ns = Some (False, [Exhausted_nonces j], ?w2, ns2)"
        using True nonce w1(1) round(1) by (simp add: turn Let_def)
      moreover have "worker_inv R algorithm False ?w2"
        using cell2 pending_vm [OF R(1) w1(4)] w1(6) unfolding worker_inv_def by fastforce
      ultimately show ?thesis using round(2) by auto
    next
      case ok: True
      obtain b3 w3 found where w3: "finish_hash R j ?w2 = Some w3" "submissions R j nonce w3 = Some found"
        "\<forall>x \<in> set found. result_ok R x" "cw_job w3 = wj_of j b3 (r + 1) msk q other" "cell_ok j b3 msk"
        "pending R j b3 w3" "cw_first w3 = cw_first ?w2" "cw_algorithm w3 = cw_algorithm ?w2"
        using finish_hash_spec [OF R pend w1(3,7) _ round(3) ready, of "r + 1" q other] by auto
      have "worker_turn R w ns = Some (True, found, w3\<lparr>cw_count := cw_count w3 + 1\<rparr>, ns2)"
        using True nonce w1(1) round(1) ok w3(1,2) by (simp add: turn Let_def)
      moreover have "worker_inv R algorithm True (w3\<lparr>cw_count := cw_count w3 + 1\<rparr>)"
        using w3(4-8) w1(6) pending_vm [OF R(1) w3(6)] unfolding worker_inv_def pending_def by fastforce
      ultimately show ?thesis using round(2) w3(3) by blast
    qed
  qed
qed

end


lemma first_worker:
  "new_worker_job = wj_of default_job (replicate kMaxBlobSize 0) 0 0 0 (default_job, replicate kMaxBlobSize 0, 0, 0)"
  "cell_ok default_job (replicate kMaxBlobSize 0) 0"
  by (simp_all add: new_worker_job_def wj_of_def numeral_2_eq_2 cell_ok_def blob_of_job_def default_job_def new_job_def)

lemma worker_inv_startI:
  "cw_algorithm w = algorithm \<Longrightarrow> cw_vm w = None \<Longrightarrow> cw_job w = wj_of j b r m q other \<Longrightarrow> cell_ok j b m \<Longrightarrow>
   cw_first w \<Longrightarrow> worker_inv R algorithm h w"
  unfolding worker_inv_def by (intro conjI exI [of _ j] exI [of _ b] exI [of _ r] exI [of _ m] exI [of _ q] exI [of _ other]) simp_all

lemma worker_inv_vm:
  assumes "worker_inv R algorithm False w" "vm_ok (rig_config R) vm"
  shows "worker_inv R algorithm False (w\<lparr>cw_vm := Some vm\<rparr>)"
  using assms unfolding worker_inv_def by fastforce

lemma worker_inv_fresh:
  assumes "worker_inv R algorithm False w"
  shows "worker_inv R algorithm h (w\<lparr>cw_first := True, cw_tempHash := t, cw_prev_job := p, cw_signature_saved := s\<rparr>)"
  using assms unfolding worker_inv_def by fastforce

lemma worker_inv_job:
  assumes "worker_inv R algorithm False w" "wj_inv wj"
  shows "worker_inv R algorithm False (w\<lparr>cw_job := wj\<rparr>)"
  using assms unfolding worker_inv_def wj_inv_def by fastforce

lemma worker_inv_wj: "worker_inv R algorithm h w \<Longrightarrow> wj_inv (cw_job w)"
  unfolding worker_inv_def wj_inv_def by blast

lemma sequence_total: "nonce_wf ns \<Longrightarrow> \<exists>q. nonce_sequence Backend_CPU ns = Some q"
  by (auto simp: nonce_sequence_def rd_def nonce_wf_def Backend_CPU_def Backend_MAX_def length_Suc_conv)

lemma outdated_total: "nonce_wf ns \<Longrightarrow> \<exists>q. nonce_isOutdated Backend_CPU s ns = Some q"
  using sequence_total [of ns] by (auto simp: nonce_sequence_def nonce_isOutdated_def)

lemma resume_not_hashing [simp]: "resume_pc k \<noteq> Hash_loop" "resume_pc k \<noteq> Turn"
  by (cases k; simp)+

text \<open>A round without a machine either leaves the loop at once or fails.\<close>

lemma worker_turn_no_vm:
  assumes "rig_ok R" "worker_inv R algorithm True w" "cw_vm w = None" "worker_turn R w ns = Some x"
  shows "x = (False, [], w, ns)"
proof -
  obtain j b r m q other where w: "cw_job w = wj_of j b r m q other" "\<not> cw_first w \<longrightarrow> pending R j b w"
    using assms(2) unfolding worker_inv_def by blast
  have "cw_first w" using w(2) assms(3) by (auto simp: pending_def)
  moreover have "first_hash R j' w = None" for j'
    using assms(3) by (auto simp: first_hash_def split: bind_splits)
  ultimately show ?thesis
    using assms(4) w(1) by (auto simp: worker_turn_def split: if_splits bind_splits)
qed

context dataset_view
begin

lemma thread_step_spec:
  assumes R: "rig_ok R" "rig_dataset R = dread m" "ready m" and l3: "0 < algo_l3 algorithm"
    and inv: "worker_inv R algorithm (hashes_at p) w" and ns: "nonce_wf ns" and job: "job_ready job"
    and vm: "p = Turn \<Longrightarrow> cw_vm w \<noteq> None"
  shows "\<exists>p' found w' ns'. thread_step R job dataset p w ns = Some (p', found, w', ns') \<and> nonce_wf ns' \<and>
    worker_inv R algorithm (hashes_at p') w' \<and> (\<forall>x \<in> set found. result_ok R x)"
proof -
  obtain q where q: "nonce_sequence Backend_CPU ns = Some q" using sequence_total [OF ns] by blast
  have keep: "worker_inv R algorithm False w" by (rule worker_inv_weaken [OF inv])
  show ?thesis
  proof (cases p)
    case (Add_job k)
    obtain wj ns' where "wj_add job kReserveCount Backend_CPU (cw_job w) ns = Some (wj, ns')" "wj_inv wj" "nonce_wf ns'"
      using wj_add_spec [OF worker_inv_wj [OF inv] job ns] by blast
    then show ?thesis using Add_job worker_inv_job [OF keep] by simp
  next
    case (Allocate k)
    have "\<forall>vm. cw_vm w = Some vm \<longrightarrow> vm_ok (rig_config R) vm"
      using keep unfolding worker_inv_def by blast
    then have "vm_ok (rig_config R) (case cw_vm w of None \<Rightarrow> rig_new_vm R | Some vm \<Rightarrow> vm)"
      using R(1) by (simp add: rig_ok_def split: option.split)
    then show ?thesis using Allocate keep ns worker_inv_vm [OF keep] by simp
  next
    case Start_hash
    then show ?thesis using ns worker_inv_fresh [OF keep] by simp
  next
    case Hash_loop
    then show ?thesis using outdated_total [OF ns, of "wj_sequence (cw_job w)"] ns inv keep by auto
  next
    case Turn
    then show ?thesis
      using worker_turn_spec [OF R l3 _ ns vm [OF Turn]] inv by fastforce
  qed (use q keep ns in auto)
qed

lemma thread_run_inv:
  assumes R: "rig_ok R" "rig_dataset R = dread m" "ready m" and l3: "0 < algo_l3 algorithm"
    and run: "thread_run R algorithm p w ns out"
  shows "worker_inv R algorithm (hashes_at p) w \<and> nonce_wf ns \<and> (\<forall>x \<in> set out. result_ok R x)"
  using run
proof (induction rule: thread_run.induct)
  case (Started ns)
  show ?case
    using Started worker_inv_startI [OF _ _ _ first_worker(2), of "new_worker algorithm"] first_worker(1)
    by (simp add: new_worker_def)
next
  case (Own p w ns out job dataset p' found w' ns')
  show ?case
  proof (cases "p = Turn \<and> cw_vm w = None")
    case True
    then have inv: "worker_inv R algorithm True w" using Own.IH by simp
    obtain more where x: "worker_turn R w ns = Some (more, found, w', ns')" "p' = (if more then Hash_loop else After_hash)"
      using Own.hyps(3) True by (auto split: bind_splits)
    have "(more, found, w', ns') = (False, [], w, ns)"
      using worker_turn_no_vm [OF R(1) inv _ x(1)] True by simp
    then show ?thesis using Own.IH worker_inv_weaken [OF inv] x(2) by simp
  next
    case False
    then show ?thesis
      using thread_step_spec [OF R l3, of p w ns job dataset] Own by auto
  qed
qed simp

end

end
