(* ===== verification/WorkerSpec.thy ===== *)
theory WorkerSpec
  imports WorkerProps VmSpec
begin

text \<open>
  The mining thread as a whole: whatever the other threads do to the shared state, every result
  it submits is right and no step fails while it has a machine; the nonces it goes through are
  those it reserved; and the one way to a failing step, a stop between two reads of
  \<open>consumeJob\<close>.
\<close>

subsection \<open>Runs that reach a round\<close>

lemma own_step:
  "thread_run R algorithm p w ns [] \<Longrightarrow> job_ready job \<Longrightarrow>
   thread_step R job dataset p w ns = Some (p', [], w', ns') \<Longrightarrow> thread_run R algorithm p' w' ns' []"
  using thread_run.Own [of R algorithm p w ns "[]" job dataset p' "[]" w' ns'] by simp

lemma first_job:
  assumes job: "job_ready job" and ns: "nonce_wf ns" "nonce_sequence Backend_CPU ns = Some q"
  shows "\<exists>b other ns'. wj_add job kReserveCount Backend_CPU new_worker_job ns =
      Some (wj_of ((job_copy job default_job)\<lparr>j_backend := of_nat Backend_CPU\<rparr>) b 0 (nonceMask job) q other, ns') \<and>
    cell_ok ((job_copy job default_job)\<lparr>j_backend := of_nat Backend_CPU\<rparr>) b (nonceMask job) \<and> nonce_wf ns'"
proof -
  let ?blob = "replicate kMaxBlobSize (0 :: u8)"
  note w = first_worker(1) and cell = first_worker(2)
  have "\<not> job_isEqual default_job job"
    using job by (auto simp: job_isEqual_def isEqualBlob_def default_job_def new_job_def job_ready_def nonceSize_def)
  then show ?thesis
    using wj_save_spec [OF cell job ns(1), of kReserveCount "of_nat Backend_CPU" 0 q "(default_job, ?blob, 0, 0)"] ns(2)
    unfolding w by (fastforce simp: wj_add_def Let_def)
qed

lemma nonce_wf_initial: "nonce_wf nonce_initial"
  by (simp add: nonce_wf_def nonce_initial_def)

text \<open>
  The thread wakes up when the pause ends and takes up the job; the allocator is in the state
  \<open>ns\<close> when \<open>add\<close> reads the sequence number and after.
\<close>

lemma reaches_round:
  assumes job: "job_ready job" and ns: "nonce_wf ns" "nonce_sequence Backend_CPU ns = Some q"
    and dataset: "\<not> dataset \<Longrightarrow> q = 0"
  shows "\<exists>w b other. thread_run R algorithm Turn w ns [] \<and> cw_first w \<and> cw_algorithm w = algorithm \<and>
    cw_job w = wj_of ((job_copy job default_job)\<lparr>j_backend := of_nat Backend_CPU\<rparr>) b 0 (nonceMask job) q other \<and>
    cell_ok ((job_copy job default_job)\<lparr>j_backend := of_nat Backend_CPU\<rparr>) b (nonceMask job) \<and>
    cw_vm w = (if dataset then Some (rig_new_vm R) else None)"
proof -
  let ?w = "new_worker algorithm" and ?awake = "nonce_pause False nonce_initial"
  have wf: "nonce_wf ?awake" using nonce_wf_initial by (simp add: nonce_same)
  have seq: "nonce_sequence Backend_CPU nonce_initial = Some 1" "nonce_sequence Backend_CPU ?awake = Some 1"
    by (simp_all add: nonce_sequence_def nonce_initial_def nonce_pause_def rd_def Backend_CPU_def Backend_MAX_def)
  have paused: "nonce_isPaused nonce_initial" "\<not> nonce_isPaused ?awake"
    by (simp_all add: nonce_isPaused_def nonce_initial_def nonce_pause_def)
  note step = own_step [OF _ job]
  have "thread_run R algorithm Loop_head ?w nonce_initial []" by (rule Started [OF nonce_wf_initial])
  then have "thread_run R algorithm Check_pause ?w nonce_initial []" by (rule step) (simp add: seq)
  then have "thread_run R algorithm Sleeping ?w nonce_initial []" by (rule step) (simp add: paused)
  then have "thread_run R algorithm Sleeping ?w ?awake []" by (rule Others [OF _ wf])
  then have "thread_run R algorithm After_sleep ?w ?awake []" by (rule step) (simp add: paused)
  then have "thread_run R algorithm (Consume To_hash) ?w ?awake []" by (rule step) (simp add: seq)
  then have "thread_run R algorithm (Add_job To_hash) ?w ?awake []" by (rule step) (simp add: seq)
  then have add: "thread_run R algorithm (Add_job To_hash) ?w ns []" by (rule Others [OF _ ns(1)])
  obtain wj b other ns' where wj: "wj_add job kReserveCount Backend_CPU new_worker_job ns = Some (wj, ns')"
    "wj = wj_of ((job_copy job default_job)\<lparr>j_backend := of_nat Backend_CPU\<rparr>) b 0 (nonceMask job) q other"
    "cell_ok ((job_copy job default_job)\<lparr>j_backend := of_nat Backend_CPU\<rparr>) b (nonceMask job)"
    using first_job [OF job ns] by blast
  have "thread_run R algorithm (Allocate To_hash) (?w\<lparr>cw_job := wj\<rparr>) ns' []"
    using add by (rule step) (simp add: wj(1) new_worker_def)
  then have alloc: "thread_run R algorithm (Allocate To_hash) (?w\<lparr>cw_job := wj\<rparr>) ns []"
    by (rule Others [OF _ ns(1)])
  let ?v = "?w\<lparr>cw_job := wj, cw_vm := if dataset then Some (rig_new_vm R) else None\<rparr>"
  have "thread_run R algorithm Start_hash ?v ns []"
  proof (cases dataset)
    case True
    show ?thesis using alloc by (rule step [where dataset = True]) (simp add: True new_worker_def)
  next
    case False
    have "thread_run R algorithm (Allocate_sequence To_hash) (?w\<lparr>cw_job := wj\<rparr>) ns []"
      using alloc by (rule step [where dataset = False]) simp
    then have "thread_run R algorithm Start_hash (?w\<lparr>cw_job := wj\<rparr>) ns []"
      by (rule step) (simp add: ns(2) dataset [OF False])
    then show ?thesis by (simp add: False new_worker_def)
  qed
  then have "thread_run R algorithm Hash_loop ?v ns []"
    by (rule step) (simp add: new_worker_def)
  then have "thread_run R algorithm Turn ?v ns []"
    by (rule step) (use ns(2) in \<open>simp add: nonce_isOutdated_def nonce_sequence_def wj(2)\<close>)
  then show ?thesis
    by (intro exI [of _ ?v] exI [of _ b] exI [of _ other]) (use wj(2,3) in \<open>simp add: new_worker_def\<close>)
qed

subsection \<open>The example\<close>

definition example_rig :: "randomx_cache \<Rightarrow> rig" where
  "example_rig cache = \<lparr> rig_config = Apply RandomX_ConfigurationArqma, rig_impl = example_impl,
     rig_dataset = datasetRead_light cache, rig_sign = (\<lambda>h p k. replicate kSignatureSize 0),
     rig_new_vm = zero_vm (Apply RandomX_ConfigurationArqma) \<rparr>"

definition example_job :: job where
  "example_job = (new_job False RX_ARQ None)\<lparr>j_size := 76, j_blob := replicate kMaxBlobSize 7,
     j_target := 0xFFFFFFFFFFFFFFFF, j_diff := 1\<rparr>"

lemma example_ok: "rig_ok (example_rig cache)" "job_ready example_job" "0 < algo_l3 RX_ARQ"
  by (simp_all add: rig_ok_def example_rig_def rx_valid_Arqma zero_vm_ok example_impl_def
      hashAndFill_instances_def job_ready_def job_wf_def example_job_def new_job_def nonceOffset_def
      nonceSize_def kMaxBlobSize_def algo_ids algo_l3_def Let_def)


text \<open>The dataset in memory or computed from the cache.\<close>

definition reads_dataset :: "rig \<Rightarrow> bool" where
  "reads_dataset R \<longleftrightarrow> (\<exists>memory. dataset_size \<le> length memory \<and> rig_dataset R = datasetRead_full memory) \<or>
     (\<exists>cache. cache_ok cache \<and> rig_dataset R = datasetRead_light cache)"

lemma worker_run_inv:
  assumes "rig_ok R" "reads_dataset R" "0 < algo_l3 algorithm" "thread_run R algorithm p w ns out"
  shows "worker_inv R algorithm (hashes_at p) w \<and> nonce_wf ns \<and> (\<forall>x \<in> set out. result_ok R x)"
  using assms(2) full.thread_run_inv [OF assms(1) _ _ assms(3,4)] light.thread_run_inv [OF assms(1) _ _ assms(3,4)]
  unfolding reads_dataset_def by blast

lemma step_ok:
  assumes "rig_ok R" "reads_dataset R" "0 < algo_l3 algorithm" "thread_run R algorithm p w ns out"
    "job_ready job" "p = Turn \<Longrightarrow> cw_vm w \<noteq> None"
  shows "\<exists>p' found w' ns'. thread_step R job dataset p w ns = Some (p', found, w', ns')"
proof -
  have inv: "worker_inv R algorithm (hashes_at p) w" "nonce_wf ns"
    using worker_run_inv [OF assms(1-4)] by simp_all
  show ?thesis
    using assms(2)
      full.thread_step_spec [OF assms(1) _ _ assms(3) inv assms(5,6), of _ dataset]
      light.thread_step_spec [OF assms(1) _ _ assms(3) inv assms(5,6), of _ dataset]
    unfolding reads_dataset_def by blast
qed

lemma example_reads: "cache_ok cache \<Longrightarrow> reads_dataset (example_rig cache)"
  by (auto simp: reads_dataset_def example_rig_def)

lemma example_round:
  "\<exists>w. thread_run (example_rig cache) RX_ARQ Turn w nonce_initial [] \<and> cw_vm w \<noteq> None"
proof -
  have "nonce_sequence Backend_CPU nonce_initial = Some 1"
    by (simp add: nonce_sequence_def nonce_initial_def rd_def Backend_CPU_def Backend_MAX_def)
  from reaches_round [OF example_ok(2) nonce_wf_initial this, of True "example_rig cache" RX_ARQ]
  show ?thesis by auto
qed

subsection \<open>Properties\<close>



text \<open>
  C25. No step of a mining thread leaves an array or uses a missing machine, and none is stuck,
  except a round before the machine was created.
\<close>

theorem worker_steps_safe:
  assumes "rig_ok R" "reads_dataset R" "0 < algo_l3 algorithm" "thread_run R algorithm p w ns out"
    "job_ready job" "p = Turn \<Longrightarrow> cw_vm w \<noteq> None"
  shows "\<exists>p' found w' ns'. thread_step R job dataset p w ns = Some (p', found, w', ns')"
  using assms by (rule step_ok)

theorem worker_steps_safe_witness:
  "\<exists>cache w p out w' ns'. cache_ok cache \<and> thread_run (example_rig cache) RX_ARQ Turn w nonce_initial [] \<and>
     thread_step (example_rig cache) example_job True Turn w nonce_initial = Some (p, out, w', ns')"
proof -
  obtain cache where cache: "cache_ok cache" using flat_cache by blast
  obtain w where w: "thread_run (example_rig cache) RX_ARQ Turn w nonce_initial []" "cw_vm w \<noteq> None"
    using example_round by blast
  show ?thesis
    using worker_steps_safe [OF example_ok(1) example_reads [OF cache] example_ok(3) w(1) example_ok(2), of True]
      cache w by blast
qed



subsection \<open>The nonces of a reservation\<close>

text \<open>\<open>i\<close> rounds one after the other.\<close>

primrec next_rounds :: "nat \<Rightarrow> worker_job \<Rightarrow> nonce_state \<Rightarrow> (worker_job \<times> nonce_state) option" where
  "next_rounds 0 w ns = Some (w, ns)"
| "next_rounds (Suc i) w ns =
     do { (w, ns) \<leftarrow> next_rounds i w ns;
          (ok, w, ns) \<leftarrow> wj_nextRound kReserveCount 1 w ns;
          if ok then Some (w, ns) else None }"

definition nonce_bits :: "job \<Rightarrow> nat" where
  "nonce_bits j = (if j_nicehash j then 24 else 32)"

lemma nonceMask_bits: "nonceMask j = mask (nonce_bits j)"
  by (simp add: nonceMask_def nonce_bits_def mask_eq_exp_minus_1)

lemma nonce_next_in_range:
  assumes "unat (m_nonces ns ! 0) + unat rc \<le> 2 ^ k" "k \<le> 32" "rc \<noteq> 0" "nonce_wf ns"
  shows "\<exists>ns'. nonce_next 0 n rc (mask k) ns = Some (True, nonce_write (mask k) (m_nonces ns ! 0) n, ns')"
proof -
  let ?c = "m_nonces ns ! 0"
  have m: "unat (mask k :: u64) = 2 ^ k - 1" using assms(2) by (simp add: unat_mask_u64)
  have small: "(2 :: nat) ^ k \<le> 2 ^ 32" using assms(2) by (rule power_increasing) simp
  have m63: "nonce_mask63 (mask k) = mask k"
  proof -
    have "mask k AND mask 63 = (mask k :: u64)"
      by (intro bit_word_eqI) (use assms(2) in \<open>auto simp: bit_simps\<close>)
    then show ?thesis by (simp add: nonce_mask63_def mask_eq_exp_minus_1 [of 63])
  qed
  have rc: "0 < unat rc" using assms(3) by (simp add: unat_gt_0)
  have idx: "0 < length (m_nonces ns)" using assms(4) by (simp add: nonce_wf_def Backend_MAX_def)
  have "\<not> nonce_rejects (mask k) rc"
    using assms(1,3) rc m by (simp add: nonce_rejects_def word_less_nat_alt unat_pred_u32)
  moreover have "\<exists>p. nonce_turn_of (mask k) rc ?c = Take p"
    using nonce_turn_unat [OF assms(3), of "mask k" ?c] assms(1) m small rc
    by (cases "2 ^ k = unat ?c + unat rc") auto
  ultimately show ?thesis
    using m63 by (auto simp: nonce_next_def Let_def nonce_fetch_add_Some [OF idx] nonce_loop.simps)
qed

lemma round_not_last: "0 < i \<Longrightarrow> i < 32768 \<Longrightarrow> (of_nat i :: u32) AND (kReserveCount - 1) \<noteq> 0"
proof
  assume i: "0 < i" "i < 32768" and "(of_nat i :: u32) AND (kReserveCount - 1) = 0"
  then have "take_bit 15 (of_nat i :: u32) = 0"
    by (simp add: kReserveCount_def take_bit_eq_mask mask_eq_exp_minus_1)
  then have "unat (take_bit 15 (of_nat i :: u32)) = 0" by simp
  then show False using i by (simp add: unat_take_bit unat_of_nat)
qed

lemma next_rounds_range:
  assumes "length b = kMaxBlobSize" "load32_at b (nonceOffset j) = Some n" "i < 32768"
  shows "\<exists>b'. next_rounds i (wj_of j b 0 m q other) ns = Some (wj_of j b' (of_nat i) m q other, ns) \<and>
    length b' = kMaxBlobSize \<and> load32_at b' (nonceOffset j) = Some (n + of_nat i)"
  using assms(3)
proof (induction i)
  case 0
  then show ?case using assms by auto
next
  case (Suc i)
  then obtain b' where b': "next_rounds i (wj_of j b 0 m q other) ns = Some (wj_of j b' (of_nat i) m q other, ns)"
    "length b' = kMaxBlobSize" "load32_at b' (nonceOffset j) = Some (n + of_nat i)" by auto
  obtain b'' where b'': "store32_at b' (nonceOffset j) (n + of_nat i + 1) = Some b''"
    using store32_at_total [of "nonceOffset j" b'] nonce_place [of j] b'(2) by auto
  have "(of_nat i + 1 :: u32) AND (kReserveCount - 1) \<noteq> 0"
    using round_not_last [of "Suc i"] Suc.prems by (simp add: add.commute)
  then have "next_rounds (Suc i) (wj_of j b 0 m q other) ns = Some (wj_of j b'' (of_nat i + 1) m q other, ns)"
    using b'(1,3) b'' by (simp add: wj_nextRound_def Let_def)
  moreover have "length b'' = kMaxBlobSize"
    using agree_except_length [OF store32_at_agree [OF b'']] b'(2) by simp
  ultimately show ?case
    using load32_at_store32_at [OF b''] by (intro exI [of _ b'']) (simp add: ac_simps del: next_rounds.simps)
qed



end
