(* ===== verification/Limbs.thy ===== *)
theory Limbs
  imports Prelude
begin

text \<open>
  Multi-limb arithmetic in C's signed integers, as \<^verbatim>\<open>base/tools/cryptonote/crypto-ops.c\<close> uses it:
  sums of products and sequences of carries and folds over an array of limbs. A result outside
  its type is undefined behaviour, \<open>None\<close>. A sequence of steps has one interval analysis, which
  shows that nothing overflows, and one congruence, which says what it preserves; each routine
  of the field and of the scalars instantiates both with its own sequence.
\<close>

subsection \<open>Signed integers\<close>

text \<open>\<open>chk M x\<close>: the value \<open>x\<close> of an expression whose type has the maximum \<open>M\<close>.\<close>

definition chk :: "int \<Rightarrow> int \<Rightarrow> int option" where
  "chk M x = (if - M - 1 \<le> x \<and> x \<le> M then Some x else None)"

definition INT32 :: int where "INT32 = 2147483647"
definition INT64 :: int where "INT64 = 9223372036854775807"

lemma chk_Some [simp]: "- M - 1 \<le> x \<Longrightarrow> x \<le> M \<Longrightarrow> chk M x = Some x"
  by (simp add: chk_def)

lemma chk_abs: "\<bar>x\<bar> \<le> M \<Longrightarrow> chk M x = Some x"
  by (auto simp: chk_def)

lemma chk_iff: "chk M x = Some y \<longleftrightarrow> y = x \<and> - M - 1 \<le> x \<and> x \<le> M"
  by (auto simp: chk_def)

subsection \<open>Sums of products\<close>

text \<open>\<open>acc + a\<^sub>1 * b\<^sub>1 + \<dots>\<close> in 64 bits.\<close>

fun mac :: "int \<Rightarrow> (int \<times> int) list \<Rightarrow> int option" where
  "mac acc [] = Some acc"
| "mac acc ((a, b) # ps) =
     do { p \<leftarrow> chk INT64 (a * b);
          s \<leftarrow> chk INT64 (acc + p);
          mac s ps }"

definition dot :: "(int \<times> int) list \<Rightarrow> int" where
  "dot ps = (\<Sum>(a, b) \<leftarrow> ps. a * b)"

lemma dot_simps [simp]: "dot [] = 0" "dot ((a, b) # ps) = a * b + dot ps"
  by (simp_all add: dot_def)

definition within :: "(int \<times> int) list \<Rightarrow> (int \<times> int) list \<Rightarrow> bool" where
  "within ps bs \<longleftrightarrow> list_all2 (\<lambda>(a, b) (A, B). \<bar>a\<bar> \<le> A \<and> \<bar>b\<bar> \<le> B) ps bs"

lemma within_simps [simp]:
  "within [] []"
  "within ((a, b) # ps) ((A, B) # bs) \<longleftrightarrow> \<bar>a\<bar> \<le> A \<and> \<bar>b\<bar> \<le> B \<and> within ps bs"
  by (simp_all add: within_def)

lemma mac_within:
  "within ps bs \<Longrightarrow> \<bar>acc\<bar> \<le> A \<Longrightarrow> A + dot bs \<le> INT64 \<Longrightarrow>
   mac acc ps = Some (acc + dot ps) \<and> \<bar>acc + dot ps\<bar> \<le> A + dot bs \<and> 0 \<le> dot bs"
proof (induction ps arbitrary: bs acc A)
  case Nil
  then show ?case by (simp add: within_def)
next
  case (Cons p ps)
  obtain a b where p: "p = (a, b)" by (cases p)
  obtain B C cs where bs: "bs = (B, C) # cs" "\<bar>a\<bar> \<le> B" "\<bar>b\<bar> \<le> C" "within ps cs"
    using Cons.prems(1) by (auto simp: p within_def list_all2_Cons1)
  have ab: "\<bar>a * b\<bar> \<le> B * C"
    using bs(2,3) by (simp add: abs_mult mult_mono')
  have "0 \<le> dot cs"
    using bs(4) unfolding within_def by (induction rule: list_all2_induct) (auto intro!: add_nonneg_nonneg mult_nonneg_nonneg)
  then have sums: "\<bar>acc + a * b\<bar> \<le> A + B * C" "A + B * C + dot cs \<le> INT64" "B * C \<le> INT64"
    using ab Cons.prems(2,3) by (simp_all add: bs(1))
  have "mac (acc + a * b) ps = Some (acc + a * b + dot ps) \<and> \<bar>acc + a * b + dot ps\<bar> \<le> A + B * C + dot cs \<and> 0 \<le> dot cs"
    by (rule Cons.IH [OF bs(4) sums(1,2)])
  moreover have "chk INT64 (a * b) = Some (a * b)" "chk INT64 (acc + a * b) = Some (acc + a * b)"
    using ab sums \<open>0 \<le> dot cs\<close> by (auto intro!: chk_abs)
  ultimately show ?case
    using ab by (auto simp: p bs(1) add.assoc)
qed

text \<open>With the same bounds for every product.\<close>

lemma dot_replicate: "dot (replicate n (A, B)) = int n * (A * B)"
  by (induction n) (simp_all add: algebra_simps)

lemma mac_uniform:
  assumes "list_all (\<lambda>(a, b). \<bar>a\<bar> \<le> A \<and> \<bar>b\<bar> \<le> B) ps" "int (length ps) * (A * B) \<le> INT64"
  shows "mac 0 ps = Some (dot ps) \<and> \<bar>dot ps\<bar> \<le> int (length ps) * (A * B)"
proof -
  have "within ps (replicate (length ps) (A, B))"
    using assms(1) by (auto simp: within_def list_all2_conv_all_nth list_all_length split: prod.splits)
  from mac_within [OF this, of 0 0] show ?thesis
    using assms(2) by (simp add: dot_replicate)
qed

subsection \<open>Carries and folds\<close>

text \<open>
  \<open>Carry round i s j m\<close> is \<open>c = (h\<^sub>i + 2\<^sup>s\<^sup>-\<^sup>1) >> s; h\<^sub>j += c * m; h\<^sub>i -= c << s\<close>, without the rounding
  constant when \<open>round\<close> is false; \<open>Drop i s\<close> drops the carry of the top limb; \<open>Fold i j cs\<close> adds
  the multiples \<open>cs\<close> of \<open>h\<^sub>i\<close> to the limbs from \<open>j\<close> and clears \<open>h\<^sub>i\<close>. The right shift of a
  negative number is arithmetic.
\<close>

datatype limb_op =
    Carry bool nat nat nat int
  | Drop nat nat
  | Fold nat nat "int list"

fun add_multiples :: "int \<Rightarrow> int \<Rightarrow> nat \<Rightarrow> int list \<Rightarrow> int list \<Rightarrow> int list option" where
  "add_multiples M x j [] h = Some h"
| "add_multiples M x j (c # cs) h =
     do { p \<leftarrow> chk M (x * c);
          y \<leftarrow> chk M (h ! j + p);
          add_multiples M x (Suc j) cs (h[j := y]) }"

fun limb_step :: "int \<Rightarrow> limb_op \<Rightarrow> int list \<Rightarrow> int list option" where
  "limb_step M (Carry round i s j m) h =
     do { x \<leftarrow> chk M (if round then h ! i + 2 ^ (s - 1) else h ! i);
          let c = x div 2 ^ s;
          p \<leftarrow> chk M (c * m);
          y \<leftarrow> chk M (h ! j + p);
          z \<leftarrow> chk M (c * 2 ^ s);
          r \<leftarrow> chk M (h ! i - z);
          Some (h[j := y, i := r]) }"
| "limb_step M (Drop i s) h =
     do { z \<leftarrow> chk M (h ! i div 2 ^ s * 2 ^ s);
          r \<leftarrow> chk M (h ! i - z);
          Some (h[i := r]) }"
| "limb_step M (Fold i j cs) h =
     map_option (\<lambda>h. h[i := 0]) (add_multiples M (h ! i) j cs h)"

primrec limb_steps :: "int \<Rightarrow> limb_op list \<Rightarrow> int list \<Rightarrow> int list option" where
  "limb_steps M [] h = Some h"
| "limb_steps M (x # xs) h = do { h \<leftarrow> limb_step M x h; limb_steps M xs h }"

lemma limb_steps_append:
  "limb_steps M (xs @ ys) h = do { h \<leftarrow> limb_steps M xs h; limb_steps M ys h }"
  by (induction xs arbitrary: h) (simp_all split: Option.bind_split)

subsection \<open>The congruence\<close>

text \<open>The number a list of limbs stands for, limb \<open>i\<close> at the bit position \<open>e i\<close>.\<close>

definition limbs_value :: "(nat \<Rightarrow> nat) \<Rightarrow> int list \<Rightarrow> int" where
  "limbs_value e h = (\<Sum>i < length h. h ! i * 2 ^ e i)"

lemma limbs_value_update:
  assumes "i < length h"
  shows "limbs_value e (h[i := x]) = limbs_value e h + (x - h ! i) * 2 ^ e i"
proof -
  have "limbs_value e (h[i := x]) = x * 2 ^ e i + (\<Sum>k \<in> {..< length h} - {i}. h ! k * 2 ^ e k)"
    using assms by (simp add: limbs_value_def sum.remove [of "{..< length h}" i])
  moreover have "limbs_value e h = h ! i * 2 ^ e i + (\<Sum>k \<in> {..< length h} - {i}. h ! k * 2 ^ e k)"
    using assms by (simp add: limbs_value_def sum.remove [of "{..< length h}" i])
  ultimately show ?thesis by (simp add: algebra_simps)
qed

definition multiples_value :: "(nat \<Rightarrow> nat) \<Rightarrow> nat \<Rightarrow> int list \<Rightarrow> int" where
  "multiples_value e j cs = (\<Sum>k < length cs. cs ! k * 2 ^ e (j + k))"

lemma multiples_value_Cons [simp]:
  "multiples_value e j [] = 0"
  "multiples_value e j (c # cs) = c * 2 ^ e j + multiples_value e (Suc j) cs"
  by (simp_all add: multiples_value_def sum.lessThan_Suc_shift del: sum.lessThan_Suc)

text \<open>A step keeps the value modulo \<open>p\<close>; folds go down.\<close>

fun keeps_mod :: "int \<Rightarrow> (nat \<Rightarrow> nat) \<Rightarrow> nat \<Rightarrow> limb_op \<Rightarrow> bool" where
  "keeps_mod p e n (Carry round i s j m) \<longleftrightarrow>
     i < n \<and> j < n \<and> i \<noteq> j \<and> (m * 2 ^ e j - 2 ^ (e i + s)) mod p = 0"
| "keeps_mod p e n (Drop i s) \<longleftrightarrow> i < n \<and> 2 ^ (e i + s) mod p = 0"
| "keeps_mod p e n (Fold i j cs) \<longleftrightarrow>
     i < n \<and> j + length cs \<le> i \<and> (multiples_value e j cs - 2 ^ e i) mod p = 0"

lemma add_multiples_value:
  "add_multiples M x j cs h = Some h' \<Longrightarrow> j + length cs \<le> length h \<Longrightarrow>
   length h' = length h \<and> limbs_value e h' = limbs_value e h + x * multiples_value e j cs \<and>
   (\<forall>i. j + length cs \<le> i \<longrightarrow> h' ! i = h ! i)"
proof (induction M x j cs h rule: add_multiples.induct)
  case (2 M x j c cs h)
  then show ?case
    by (auto simp: chk_iff limbs_value_update algebra_simps split: bind_splits)
qed simp

lemma mod_keep: "b mod p = 0 \<Longrightarrow> (a + c * b) mod p = a mod (p :: int)"
  by (metis add.right_neutral mod_add_right_eq mod_mult_right_eq mult_zero_right mod_0)

lemma limb_step_fold:
  assumes "limb_step M (Fold i j cs) h = Some h'" "i < length h" "j + length cs \<le> i"
  shows "length h' = length h \<and> limbs_value e h' = limbs_value e h + h ! i * (multiples_value e j cs - 2 ^ e i)"
proof -
  obtain g where g: "add_multiples M (h ! i) j cs h = Some g" "h' = g[i := 0]" using assms(1) by auto
  have "length g = length h" "limbs_value e g = limbs_value e h + h ! i * multiples_value e j cs" "g ! i = h ! i"
    using add_multiples_value [OF g(1), of e] assms(2,3) by simp_all
  then show ?thesis using assms(2) by (simp add: g(2) limbs_value_update algebra_simps)
qed

lemma limb_step_mod:
  assumes "limb_step M x h = Some h'" "keeps_mod p e (length h) x"
  shows "length h' = length h \<and> limbs_value e h' mod p = limbs_value e h mod p"
proof (cases x)
  case (Carry round i s j m)
  then obtain c where h': "h' = h[j := h ! j + c * m, i := h ! i - c * 2 ^ s]"
    using assms(1) by (auto simp: chk_iff Let_def split: bind_splits)
  have len: "i < length h" "j < length h" "i \<noteq> j" and z: "(m * 2 ^ e j - 2 ^ (e i + s)) mod p = 0"
    using assms(2) by (simp_all add: Carry)
  have "limbs_value e h' = limbs_value e h + c * (m * 2 ^ e j - 2 ^ (e i + s))"
    using len by (simp add: h' limbs_value_update power_add algebra_simps)
  then show ?thesis
    using mod_keep [OF z] by (simp only: h' length_list_update)
next
  case (Fold i j cs)
  have fold: "i < length h" "j + length cs \<le> i" "(multiples_value e j cs - 2 ^ e i) mod p = 0"
    using assms(2) by (simp_all add: Fold)
  have "length h' = length h" "limbs_value e h' = limbs_value e h + h ! i * (multiples_value e j cs - 2 ^ e i)"
    using limb_step_fold [OF assms(1) [unfolded Fold] fold(1,2)] by simp_all
  then show ?thesis using mod_keep [OF fold(3)] by simp
next
  case (Drop i s)
  then have h': "h' = h[i := h ! i - h ! i div 2 ^ s * 2 ^ s]"
    using assms(1) by (auto simp: chk_iff split: bind_splits)
  have ok: "i < length h" "2 ^ (e i + s) mod p = 0" using assms(2) by (simp_all add: Drop)
  have "limbs_value e h' = limbs_value e h + - (h ! i div 2 ^ s) * 2 ^ (e i + s)"
    using ok(1) by (simp add: h' limbs_value_update power_add algebra_simps del: minus_div_mult_eq_mod)
  then show ?thesis
    using mod_keep [OF ok(2)] by (simp only: h' length_list_update)
qed

lemma limb_steps_mod:
  "limb_steps M xs h = Some h' \<Longrightarrow> list_all (keeps_mod p e (length h)) xs \<Longrightarrow>
   length h' = length h \<and> limbs_value e h' mod p = limbs_value e h mod p"
proof (induction xs arbitrary: h)
  case (Cons x xs)
  then obtain g where g: "limb_step M x h = Some g" "limb_steps M xs g = Some h'"
    by (auto split: bind_splits)
  have "length g = length h" "limbs_value e g mod p = limbs_value e h mod p"
    using limb_step_mod [OF g(1), of p e] Cons.prems(2) by simp_all
  then show ?case using Cons.IH [OF g(2)] Cons.prems(2) by simp
qed simp

subsection \<open>The interval analysis\<close>

type_synonym interval = "int \<times> int"

definition lies_in :: "int \<Rightarrow> interval \<Rightarrow> bool" where
  "lies_in x b \<longleftrightarrow> fst b \<le> x \<and> x \<le> snd b"

definition limbs_in :: "int list \<Rightarrow> interval list \<Rightarrow> bool" where
  "limbs_in h bs \<longleftrightarrow> list_all2 lies_in h bs"

definition fits :: "int \<Rightarrow> interval \<Rightarrow> bool" where
  "fits M b \<longleftrightarrow> - M - 1 \<le> fst b \<and> snd b \<le> M"

definition i_add :: "interval \<Rightarrow> interval \<Rightarrow> interval" where
  "i_add a b = (fst a + fst b, snd a + snd b)"

definition i_mult :: "interval \<Rightarrow> int \<Rightarrow> interval" where
  "i_mult a c = (if 0 \<le> c then (fst a * c, snd a * c) else (snd a * c, fst a * c))"

definition i_shift :: "interval \<Rightarrow> nat \<Rightarrow> interval" where
  "i_shift a s = (fst a div 2 ^ s, snd a div 2 ^ s)"

text \<open>What a carry leaves: the centred or the plain remainder.\<close>

definition i_rest :: "bool \<Rightarrow> nat \<Rightarrow> interval" where
  "i_rest round s = (if round then (- (2 ^ (s - 1)), 2 ^ (s - 1) - 1) else (0, 2 ^ s - 1))"

fun i_multiples :: "int \<Rightarrow> interval \<Rightarrow> nat \<Rightarrow> int list \<Rightarrow> interval list \<Rightarrow> interval list option" where
  "i_multiples M x j [] bs = Some bs"
| "i_multiples M x j (c # cs) bs =
     (let p = i_mult x c; y = i_add (bs ! j) p in
      if fits M p \<and> fits M y then i_multiples M x (Suc j) cs (bs[j := y]) else None)"

fun i_step :: "int \<Rightarrow> limb_op \<Rightarrow> interval list \<Rightarrow> interval list option" where
  "i_step M (Carry round i s j m) bs =
     (let x = (if round then i_add (bs ! i) (2 ^ (s - 1), 2 ^ (s - 1)) else bs ! i);
          c = i_shift x s; p = i_mult c m; y = i_add (bs ! j) p in
      if 0 < s \<and> i < length bs \<and> j < length bs \<and> i \<noteq> j \<and> fits M x \<and> fits M p \<and> fits M y \<and>
         fits M (i_mult c (2 ^ s)) \<and> fits M (i_rest round s)
      then Some (bs[j := y, i := i_rest round s]) else None)"
| "i_step M (Drop i s) bs =
     (if 0 < s \<and> i < length bs \<and> fits M (i_mult (i_shift (bs ! i) s) (2 ^ s)) \<and> fits M (i_rest False s)
      then Some (bs[i := i_rest False s]) else None)"
| "i_step M (Fold i j cs) bs =
     (if i < length bs \<and> j + length cs \<le> i
      then map_option (\<lambda>bs. bs[i := (0, 0)]) (i_multiples M (bs ! i) j cs bs) else None)"

primrec i_steps :: "int \<Rightarrow> limb_op list \<Rightarrow> interval list \<Rightarrow> interval list option" where
  "i_steps M [] bs = Some bs"
| "i_steps M (x # xs) bs = do { bs \<leftarrow> i_step M x bs; i_steps M xs bs }"

lemma lies_in_add: "lies_in x a \<Longrightarrow> lies_in y b \<Longrightarrow> lies_in (x + y) (i_add a b)"
  by (simp add: lies_in_def i_add_def)

lemma lies_in_mult: "lies_in x a \<Longrightarrow> lies_in (x * c) (i_mult a c)"
  by (auto simp: lies_in_def i_mult_def mult_right_mono mult_right_mono_neg)

lemma lies_in_shift: "lies_in x a \<Longrightarrow> lies_in (x div 2 ^ s) (i_shift a s)"
  by (auto simp: lies_in_def i_shift_def zdiv_mono1)

lemma lies_in_fits: "lies_in x a \<Longrightarrow> fits M a \<Longrightarrow> chk M x = Some x"
  by (auto simp: lies_in_def fits_def chk_def)

lemma lies_in_rest:
  assumes "0 < s"
  shows "lies_in (x - (if round then x + 2 ^ (s - 1) else x) div 2 ^ s * 2 ^ s) (i_rest round s)"
proof (cases round)
  case False
  then show ?thesis by (simp add: lies_in_def i_rest_def minus_div_mult_eq_mod)
next
  case True
  let ?y = "x + 2 ^ (s - 1)"
  have "x - ?y div 2 ^ s * 2 ^ s = ?y mod 2 ^ s - 2 ^ (s - 1)"
    by (simp add: minus_div_mult_eq_mod [symmetric])
  moreover have "(2 :: int) ^ s = 2 * 2 ^ (s - 1)"
    using assms by (metis Suc_diff_1 power_Suc)
  moreover have "0 \<le> ?y mod 2 ^ s" "?y mod 2 ^ s < 2 ^ s" by simp_all
  ultimately show ?thesis
    using True by (simp add: lies_in_def i_rest_def)
qed

lemma limbs_in_length: "limbs_in h bs \<Longrightarrow> length h = length bs"
  by (auto simp: limbs_in_def dest: list_all2_lengthD)

lemma limbs_in_nth: "limbs_in h bs \<Longrightarrow> i < length bs \<Longrightarrow> lies_in (h ! i) (bs ! i)"
  by (auto simp: limbs_in_def dest: list_all2_nthD2)

lemma limbs_in_update: "limbs_in h bs \<Longrightarrow> lies_in x b \<Longrightarrow> limbs_in (h[i := x]) (bs[i := b])"
  by (auto simp: limbs_in_def intro: list_all2_update_cong)

lemma i_multiples_sound:
  "limbs_in h bs \<Longrightarrow> lies_in x b \<Longrightarrow> j + length cs \<le> length bs \<Longrightarrow> i_multiples M b j cs bs = Some bs' \<Longrightarrow>
   \<exists>h'. add_multiples M x j cs h = Some h' \<and> limbs_in h' bs'"
proof (induction cs arbitrary: h bs j)
  case (Cons c cs)
  let ?y = "h ! j + x * c" and ?b = "i_add (bs ! j) (i_mult b c)"
  have y: "lies_in (x * c) (i_mult b c)" "lies_in ?y ?b"
    using Cons.prems(1-3) by (simp_all add: lies_in_mult lies_in_add limbs_in_nth)
  have "fits M (i_mult b c)" "fits M ?b" "i_multiples M b (Suc j) cs (bs[j := ?b]) = Some bs'"
    using Cons.prems(4) by (auto simp: Let_def split: if_splits)
  moreover have "\<exists>h'. add_multiples M x (Suc j) cs (h[j := ?y]) = Some h' \<and> limbs_in h' bs'"
    by (rule Cons.IH) (use Cons.prems y limbs_in_update calculation(3) in auto)
  ultimately show ?case
    using y by (simp add: lies_in_fits)
qed simp

lemma i_step_sound:
  assumes "limbs_in h bs" "i_step M x bs = Some bs'"
  shows "\<exists>h'. limb_step M x h = Some h' \<and> limbs_in h' bs'"
proof (cases x)
  case (Carry round i s j m)
  let ?x = "if round then h ! i + 2 ^ (s - 1) else h ! i"
  let ?b = "if round then i_add (bs ! i) (2 ^ (s - 1), 2 ^ (s - 1)) else bs ! i"
  let ?c = "?x div 2 ^ s" and ?rest = "h ! i - ?x div 2 ^ s * 2 ^ s"
  let ?y = "i_add (bs ! j) (i_mult (i_shift ?b s) m)"
  have ok: "0 < s" "i < length bs" "j < length bs" "i \<noteq> j" "fits M ?b" "fits M (i_mult (i_shift ?b s) m)"
      "fits M ?y" "fits M (i_mult (i_shift ?b s) (2 ^ s))" "fits M (i_rest round s)"
    and bs': "bs' = bs[j := ?y, i := i_rest round s]"
    using assms(2) by (auto simp: Carry Let_def split: if_splits)
  have lies: "lies_in (h ! i) (bs ! i)" "lies_in (h ! j) (bs ! j)"
    using limbs_in_nth [OF assms(1)] ok by auto
  have x: "lies_in ?x ?b"
    using lies by (simp add: lies_in_def i_add_def)
  have c: "lies_in ?c (i_shift ?b s)" by (rule lies_in_shift [OF x])
  have y: "lies_in (h ! j + ?c * m) ?y" by (rule lies_in_add [OF lies(2) lies_in_mult [OF c]])
  have rest: "lies_in ?rest (i_rest round s)" by (rule lies_in_rest [OF ok(1)])
  have "limb_step M (Carry round i s j m) h = Some (h[j := h ! j + ?c * m, i := ?rest])"
    unfolding limb_step.simps Let_def
    using lies_in_fits [OF x ok(5)] lies_in_fits [OF lies_in_mult [OF c] ok(6)] lies_in_fits [OF y ok(7)]
      lies_in_fits [OF lies_in_mult [OF c] ok(8)] lies_in_fits [OF rest ok(9)]
    by (simp only: Option.bind.simps)
  moreover have "limbs_in (h[j := h ! j + ?c * m, i := ?rest]) bs'"
    unfolding bs' by (intro limbs_in_update assms(1) y rest)
  ultimately show ?thesis unfolding Carry by blast
next
  case (Drop i s)
  then have ok: "0 < s" "i < length bs" "fits M (i_mult (i_shift (bs ! i) s) (2 ^ s))" "fits M (i_rest False s)"
    and bs': "bs' = bs[i := i_rest False s]"
    using assms(2) by (auto split: if_splits)
  have "lies_in (h ! i div 2 ^ s * 2 ^ s) (i_mult (i_shift (bs ! i) s) (2 ^ s))"
    by (intro lies_in_mult lies_in_shift limbs_in_nth [OF assms(1)] ok)
  moreover have rest: "lies_in (h ! i - h ! i div 2 ^ s * 2 ^ s) (i_rest False s)"
    using lies_in_rest [OF ok(1), of "h ! i" False] by simp
  ultimately have "limb_step M (Drop i s) h = Some (h[i := h ! i - h ! i div 2 ^ s * 2 ^ s])"
    using ok by (simp add: lies_in_fits del: minus_div_mult_eq_mod)
  then show ?thesis
    unfolding Drop bs' using limbs_in_update [OF assms(1) rest] by blast
next
  case (Fold i j cs)
  then obtain cs' where ok: "i < length bs" "j + length cs \<le> i" "i_multiples M (bs ! i) j cs bs = Some cs'"
    "bs' = cs'[i := (0, 0)]"
    using assms(2) by (auto split: if_splits)
  obtain g where "add_multiples M (h ! i) j cs h = Some g" "limbs_in g cs'"
    using i_multiples_sound [OF assms(1) limbs_in_nth [OF assms(1) ok(1)] _ ok(3)] ok(1,2) by auto
  then show ?thesis
    using limbs_in_update [of g cs' 0 "(0, 0)" i] by (simp add: Fold ok(4) lies_in_def)
qed

lemma i_steps_sound:
  "limbs_in h bs \<Longrightarrow> i_steps M xs bs = Some bs' \<Longrightarrow>
   \<exists>h'. limb_steps M xs h = Some h' \<and> limbs_in h' bs'"
proof (induction xs arbitrary: h bs)
  case (Cons x xs)
  then obtain cs where cs: "i_step M x bs = Some cs" "i_steps M xs cs = Some bs'"
    by (auto split: bind_splits)
  obtain g where "limb_step M x h = Some g" "limbs_in g cs"
    using i_step_sound [OF Cons.prems(1) cs(1)] by blast
  then show ?case using Cons.IH [OF _ cs(2)] by auto
qed simp

text \<open>Both at once, for a sequence whose analysis and congruence have been computed.\<close>

definition analysis_ok :: "int \<Rightarrow> limb_op list \<Rightarrow> interval list \<Rightarrow> interval list \<Rightarrow> bool" where
  "analysis_ok M xs bs cs \<longleftrightarrow> (case i_steps M xs bs of None \<Rightarrow> False
     | Some ds \<Rightarrow> list_all2 (\<lambda>d c. fst c \<le> fst d \<and> snd d \<le> snd c) ds cs)"

lemma limbs_in_weaken:
  "limbs_in h ds \<Longrightarrow> list_all2 (\<lambda>d c. fst c \<le> fst d \<and> snd d \<le> snd c) ds cs \<Longrightarrow> limbs_in h cs"
  using list_all2_trans [of lies_in "\<lambda>d c. fst c \<le> fst d \<and> snd d \<le> snd c" lies_in h ds cs]
  unfolding limbs_in_def by (force simp: lies_in_def)

lemma limb_steps_correct:
  assumes "limbs_in h bs" "analysis_ok M xs bs cs" "list_all (keeps_mod p e (length bs)) xs"
  shows "\<exists>h'. limb_steps M xs h = Some h' \<and> limbs_in h' cs \<and>
    limbs_value e h' mod p = limbs_value e h mod p"
proof -
  obtain ds where ds: "i_steps M xs bs = Some ds" "list_all2 (\<lambda>d c. fst c \<le> fst d \<and> snd d \<le> snd c) ds cs"
    using assms(2) by (auto simp: analysis_ok_def split: option.splits)
  obtain h' where "limb_steps M xs h = Some h'" "limbs_in h' ds"
    using i_steps_sound [OF assms(1) ds(1)] by blast
  then show ?thesis
    using limb_steps_mod [of M xs h h' p e] assms(3) limbs_in_length [OF assms(1)] limbs_in_weaken [OF _ ds(2)]
    by auto
qed

end
