(* ===== verification/FieldProps.thy ===== *)
theory FieldProps
  imports Field25519
begin

text \<open>
  The operations of the field compute residues modulo \<open>2\<^sup>2\<^sup>5\<^sup>5 - 19\<close> without overflow: linear
  operations, multiplication and squaring, powers, the bytes.
\<close>

subsection \<open>Values and bounds\<close>

lemma upto_10: "{..< 10 :: nat} = {0, 1, 2, 3, 4, 5, 6, 7, 8, 9}"
  by auto

lemma fe_val_10:
  "fe_val [h0, h1, h2, h3, h4, h5, h6, h7, h8, h9] = h0 + h1 * 2 ^ 26 + h2 * 2 ^ 51 + h3 * 2 ^ 77 +
    h4 * 2 ^ 102 + h5 * 2 ^ 128 + h6 * 2 ^ 153 + h7 * 2 ^ 179 + h8 * 2 ^ 204 + h9 * 2 ^ 230"
  by (simp add: fe_val_def limbs_value_def upto_10 fe_exp_def)

lemma list_10:
  assumes "length h = 10"
  obtains h0 h1 h2 h3 h4 h5 h6 h7 h8 h9 where "h = [h0, h1, h2, h3, h4, h5, h6, h7, h8, h9]"
  using assms by (auto simp: length_Suc_conv eval_nat_numeral)

lemma fe_bound_10 [simp]:
  "fe_bound a b [h0, h1, h2, h3, h4, h5, h6, h7, h8, h9] \<longleftrightarrow>
    \<bar>h0\<bar> \<le> a \<and> \<bar>h1\<bar> \<le> b \<and> \<bar>h2\<bar> \<le> a \<and> \<bar>h3\<bar> \<le> b \<and> \<bar>h4\<bar> \<le> a \<and> \<bar>h5\<bar> \<le> b \<and> \<bar>h6\<bar> \<le> a \<and>
    \<bar>h7\<bar> \<le> b \<and> \<bar>h8\<bar> \<le> a \<and> \<bar>h9\<bar> \<le> b"
  by (simp add: fe_bound_def)

lemma fe_bound_length: "fe_bound a b h \<Longrightarrow> length h = 10"
  by (auto simp: fe_bound_def dest: list_all2_lengthD)

lemma fe_boundE:
  assumes "fe_bound a b h"
  obtains h0 h1 h2 h3 h4 h5 h6 h7 h8 h9 where "h = [h0, h1, h2, h3, h4, h5, h6, h7, h8, h9]"
    "\<bar>h0\<bar> \<le> a" "\<bar>h1\<bar> \<le> b" "\<bar>h2\<bar> \<le> a" "\<bar>h3\<bar> \<le> b" "\<bar>h4\<bar> \<le> a" "\<bar>h5\<bar> \<le> b" "\<bar>h6\<bar> \<le> a"
    "\<bar>h7\<bar> \<le> b" "\<bar>h8\<bar> \<le> a" "\<bar>h9\<bar> \<le> b"
  using assms list_10 [OF fe_bound_length [OF assms]] by (metis fe_bound_10)

lemma fe_bound_mono: "fe_bound a b h \<Longrightarrow> a \<le> a' \<Longrightarrow> b \<le> b' \<Longrightarrow> fe_bound a' b' h"
  by (erule fe_boundE) auto

lemma tight_plain: "fe_tight h \<Longrightarrow> fe_plain h"
  by (auto simp: fe_tight_def fe_plain_def intro: fe_bound_mono)

lemma plain_loose: "fe_plain h \<Longrightarrow> fe_loose h"
  by (auto simp: fe_plain_def fe_loose_def intro: fe_bound_mono)

lemma tight_loose: "fe_tight h \<Longrightarrow> fe_loose h"
  by (simp add: plain_loose tight_plain)

subsection \<open>The carries\<close>

lemma narrow_small: "list_all (\<lambda>x. \<bar>x\<bar> \<le> INT32) h \<Longrightarrow> narrow h = Some h"
  by (induction h) (simp_all add: chk_abs)

lemma narrow_tight: "fe_tight h \<Longrightarrow> narrow h = Some h"
  by (rule narrow_small) (auto simp: fe_tight_def INT32_def elim!: fe_boundE)

definition row_max :: int where "row_max = 5600000000000000000"

lemma fe_carries_keep: "list_all (keeps_mod p25519 fe_exp 10) fe_carries"
  by code_simp

definition tight_intervals :: "interval list" where
  "tight_intervals = concat (replicate 5 [(- 33890959, 33890959), (- 16945479, 16945479)])"

lemma fe_carries_bounds:
  "analysis_ok INT64 fe_carries (replicate 10 (- row_max, row_max)) tight_intervals"
  by code_simp

lemma limbs_in_symmetric:
  "limbs_in h (replicate 10 (- a, a)) \<longleftrightarrow> length h = 10 \<and> list_all (\<lambda>x. \<bar>x\<bar> \<le> a) h"
  by (auto simp: limbs_in_def lies_in_def list_all2_conv_all_nth list_all_length abs_le_iff)

lemma limbs_in_tight: "limbs_in h tight_intervals \<longleftrightarrow> fe_tight h"
proof -
  have t: "tight_intervals = map (\<lambda>m. (- m, m)) [33890959, 16945479, 33890959, 16945479, 33890959, 16945479,
      33890959, 16945479, 33890959, 16945479]"
    by (simp add: tight_intervals_def eval_nat_numeral)
  have "lies_in x (- m, m) \<longleftrightarrow> \<bar>x\<bar> \<le> m" for x m by (auto simp: lies_in_def)
  then show ?thesis
    unfolding t limbs_in_def fe_tight_def fe_bound_def list_all2_map2 by simp
qed

lemma fe_reduce_correct:
  assumes "length h = 10" "list_all (\<lambda>x. \<bar>x\<bar> \<le> row_max) h"
  shows "\<exists>h'. fe_reduce h = Some h' \<and> fe_tight h' \<and> fe_val h' mod p25519 = fe_val h mod p25519"
proof -
  have "limbs_in h (replicate 10 (- row_max, row_max))" using assms by (simp add: limbs_in_symmetric)
  from limb_steps_correct [OF this fe_carries_bounds, of p25519 fe_exp] obtain h' where
    "limb_steps INT64 fe_carries h = Some h'" "fe_tight h'" "fe_val h' mod p25519 = fe_val h mod p25519"
    using fe_carries_keep by (auto simp: limbs_in_tight fe_val_def)
  then show ?thesis by (simp add: fe_reduce_def narrow_tight)
qed

subsection \<open>Multiplication and squaring\<close>

lemma mac_mul_row:
  "list_all (\<lambda>(a, b). \<bar>a\<bar> \<le> 110729625 \<and> \<bar>b\<bar> \<le> 2103862875) ps \<Longrightarrow> length ps \<le> 10 \<Longrightarrow>
   mac 0 ps = Some (dot ps) \<and> \<bar>dot ps\<bar> \<le> row_max"
  using mac_uniform [of 110729625 2103862875 ps] by (simp add: INT64_def row_max_def)

lemma mac_sq_row:
  "list_all (\<lambda>(a, b). \<bar>a\<bar> \<le> 221459250 \<and> \<bar>b\<bar> \<le> 2103862875) ps \<Longrightarrow> length ps \<le> 6 \<Longrightarrow>
   mac 0 ps = Some (dot ps) \<and> 2 * \<bar>dot ps\<bar> \<le> row_max"
  using mac_uniform [of 221459250 2103862875 ps] by (simp add: INT64_def row_max_def)

text \<open>Reducing the product of two numbers of ten limbs modulo \<open>2\<^sup>2\<^sup>5\<^sup>5 - 19\<close> gives the rows.\<close>

lemma fe_mul_identity:
  "(f0 + f1 * 2 ^ 26 + f2 * 2 ^ 51 + f3 * 2 ^ 77 + f4 * 2 ^ 102 + f5 * 2 ^ 128 + f6 * 2 ^ 153 +
      f7 * 2 ^ 179 + f8 * 2 ^ 204 + f9 * 2 ^ 230) *
    (g0 + g1 * 2 ^ 26 + g2 * 2 ^ 51 + g3 * 2 ^ 77 + g4 * 2 ^ 102 + g5 * 2 ^ 128 + g6 * 2 ^ 153 +
      g7 * 2 ^ 179 + g8 * 2 ^ 204 + g9 * 2 ^ 230) =
   (dot [(f0, g0), (2 * f1, 19 * g9), (f2, 19 * g8), (2 * f3, 19 * g7), (f4, 19 * g6),
        (2 * f5, 19 * g5), (f6, 19 * g4), (2 * f7, 19 * g3), (f8, 19 * g2), (2 * f9, 19 * g1)] +
      dot [(f0, g1), (f1, g0), (f2, 19 * g9), (f3, 19 * g8), (f4, 19 * g7), (f5, 19 * g6),
        (f6, 19 * g5), (f7, 19 * g4), (f8, 19 * g3), (f9, 19 * g2)] * 2 ^ 26 +
      dot [(f0, g2), (2 * f1, g1), (f2, g0), (2 * f3, 19 * g9), (f4, 19 * g8),
        (2 * f5, 19 * g7), (f6, 19 * g6), (2 * f7, 19 * g5), (f8, 19 * g4),
        (2 * f9, 19 * g3)] * 2 ^ 51 +
      dot [(f0, g3), (f1, g2), (f2, g1), (f3, g0), (f4, 19 * g9), (f5, 19 * g8), (f6, 19 * g7),
        (f7, 19 * g6), (f8, 19 * g5), (f9, 19 * g4)] * 2 ^ 77 +
      dot [(f0, g4), (2 * f1, g3), (f2, g2), (2 * f3, g1), (f4, g0), (2 * f5, 19 * g9),
        (f6, 19 * g8), (2 * f7, 19 * g7), (f8, 19 * g6), (2 * f9, 19 * g5)] * 2 ^ 102 +
      dot [(f0, g5), (f1, g4), (f2, g3), (f3, g2), (f4, g1), (f5, g0), (f6, 19 * g9),
        (f7, 19 * g8), (f8, 19 * g7), (f9, 19 * g6)] * 2 ^ 128 +
      dot [(f0, g6), (2 * f1, g5), (f2, g4), (2 * f3, g3), (f4, g2), (2 * f5, g1), (f6, g0),
        (2 * f7, 19 * g9), (f8, 19 * g8), (2 * f9, 19 * g7)] * 2 ^ 153 +
      dot [(f0, g7), (f1, g6), (f2, g5), (f3, g4), (f4, g3), (f5, g2), (f6, g1), (f7, g0),
        (f8, 19 * g9), (f9, 19 * g8)] * 2 ^ 179 +
      dot [(f0, g8), (2 * f1, g7), (f2, g6), (2 * f3, g5), (f4, g4), (2 * f5, g3), (f6, g2),
        (2 * f7, g1), (f8, g0), (2 * f9, 19 * g9)] * 2 ^ 204 +
      dot [(f0, g9), (f1, g8), (f2, g7), (f3, g6), (f4, g5), (f5, g4), (f6, g3), (f7, g2),
        (f8, g1), (f9, g0)] * 2 ^ 230) +
   p25519 * (
      2 ^ 1 * f1 * g9 + f2 * g8 + 2 ^ 26 * f2 * g9 + 2 ^ 1 * f3 * g7 + 2 ^ 26 * f3 * g8 +
      2 ^ 52 * f3 * g9 + f4 * g6 + 2 ^ 26 * f4 * g7 + 2 ^ 51 * f4 * g8 + 2 ^ 77 * f4 * g9 +
      2 ^ 1 * f5 * g5 + 2 ^ 26 * f5 * g6 + 2 ^ 52 * f5 * g7 + 2 ^ 77 * f5 * g8 +
      2 ^ 103 * f5 * g9 + f6 * g4 + 2 ^ 26 * f6 * g5 + 2 ^ 51 * f6 * g6 + 2 ^ 77 * f6 * g7 +
      2 ^ 102 * f6 * g8 + 2 ^ 128 * f6 * g9 + 2 ^ 1 * f7 * g3 + 2 ^ 26 * f7 * g4 +
      2 ^ 52 * f7 * g5 + 2 ^ 77 * f7 * g6 + 2 ^ 103 * f7 * g7 + 2 ^ 128 * f7 * g8 +
      2 ^ 154 * f7 * g9 + f8 * g2 + 2 ^ 26 * f8 * g3 + 2 ^ 51 * f8 * g4 + 2 ^ 77 * f8 * g5 +
      2 ^ 102 * f8 * g6 + 2 ^ 128 * f8 * g7 + 2 ^ 153 * f8 * g8 + 2 ^ 179 * f8 * g9 +
      2 ^ 1 * f9 * g1 + 2 ^ 26 * f9 * g2 + 2 ^ 52 * f9 * g3 + 2 ^ 77 * f9 * g4 +
      2 ^ 103 * f9 * g5 + 2 ^ 128 * f9 * g6 + 2 ^ 154 * f9 * g7 + 2 ^ 179 * f9 * g8 +
      2 ^ 205 * f9 * g9)"
  for f0 :: int
  unfolding dot_simps p25519_def by algebra

lemma fe_sq_identity:
  "(f0 + f1 * 2 ^ 26 + f2 * 2 ^ 51 + f3 * 2 ^ 77 + f4 * 2 ^ 102 + f5 * 2 ^ 128 + f6 * 2 ^ 153 +
      f7 * 2 ^ 179 + f8 * 2 ^ 204 + f9 * 2 ^ 230) *
    (f0 + f1 * 2 ^ 26 + f2 * 2 ^ 51 + f3 * 2 ^ 77 + f4 * 2 ^ 102 + f5 * 2 ^ 128 + f6 * 2 ^ 153 +
      f7 * 2 ^ 179 + f8 * 2 ^ 204 + f9 * 2 ^ 230) =
   (dot [(f0, f0), (2 * f1, 38 * f9), (2 * f2, 19 * f8), (2 * f3, 38 * f7), (2 * f4, 19 * f6),
        (f5, 38 * f5)] +
      dot [(2 * f0, f1), (f2, 38 * f9), (2 * f3, 19 * f8), (f4, 38 * f7), (2 * f5, 19 * f6)] * 2 ^ 26 +
      dot [(2 * f0, f2), (2 * f1, f1), (2 * f3, 38 * f9), (2 * f4, 19 * f8), (2 * f5, 38 * f7),
        (f6, 19 * f6)] * 2 ^ 51 +
      dot [(2 * f0, f3), (2 * f1, f2), (f4, 38 * f9), (2 * f5, 19 * f8), (f6, 38 * f7)] * 2 ^ 77 +
      dot [(2 * f0, f4), (2 * f1, 2 * f3), (f2, f2), (2 * f5, 38 * f9), (2 * f6, 19 * f8),
        (f7, 38 * f7)] * 2 ^ 102 +
      dot [(2 * f0, f5), (2 * f1, f4), (2 * f2, f3), (f6, 38 * f9), (2 * f7, 19 * f8)] * 2 ^ 128 +
      dot [(2 * f0, f6), (2 * f1, 2 * f5), (2 * f2, f4), (2 * f3, f3), (2 * f7, 38 * f9),
        (f8, 19 * f8)] * 2 ^ 153 +
      dot [(2 * f0, f7), (2 * f1, f6), (2 * f2, f5), (2 * f3, f4), (f8, 38 * f9)] * 2 ^ 179 +
      dot [(2 * f0, f8), (2 * f1, 2 * f7), (2 * f2, f6), (2 * f3, 2 * f5), (f4, f4),
        (f9, 38 * f9)] * 2 ^ 204 +
      dot [(2 * f0, f9), (2 * f1, f8), (2 * f2, f7), (2 * f3, f6), (2 * f4, f5)] * 2 ^ 230) +
   p25519 * (
      2 ^ 1 * f1 * f9 + f2 * f8 + 2 ^ 26 * f2 * f9 + 2 ^ 1 * f3 * f7 + 2 ^ 26 * f3 * f8 +
      2 ^ 52 * f3 * f9 + f4 * f6 + 2 ^ 26 * f4 * f7 + 2 ^ 51 * f4 * f8 + 2 ^ 77 * f4 * f9 +
      2 ^ 1 * f5 * f5 + 2 ^ 26 * f5 * f6 + 2 ^ 52 * f5 * f7 + 2 ^ 77 * f5 * f8 +
      2 ^ 103 * f5 * f9 + f6 * f4 + 2 ^ 26 * f6 * f5 + 2 ^ 51 * f6 * f6 + 2 ^ 77 * f6 * f7 +
      2 ^ 102 * f6 * f8 + 2 ^ 128 * f6 * f9 + 2 ^ 1 * f7 * f3 + 2 ^ 26 * f7 * f4 +
      2 ^ 52 * f7 * f5 + 2 ^ 77 * f7 * f6 + 2 ^ 103 * f7 * f7 + 2 ^ 128 * f7 * f8 +
      2 ^ 154 * f7 * f9 + f8 * f2 + 2 ^ 26 * f8 * f3 + 2 ^ 51 * f8 * f4 + 2 ^ 77 * f8 * f5 +
      2 ^ 102 * f8 * f6 + 2 ^ 128 * f8 * f7 + 2 ^ 153 * f8 * f8 + 2 ^ 179 * f8 * f9 +
      2 ^ 1 * f9 * f1 + 2 ^ 26 * f9 * f2 + 2 ^ 52 * f9 * f3 + 2 ^ 77 * f9 * f4 +
      2 ^ 103 * f9 * f5 + 2 ^ 128 * f9 * f6 + 2 ^ 154 * f9 * f7 + 2 ^ 179 * f9 * f8 +
      2 ^ 205 * f9 * f9)"
  for f0 :: int
  unfolding dot_simps p25519_def by algebra


lemma fe_mul_rows_10:
  assumes "fe_loose [f0, f1, f2, f3, f4, f5, f6, f7, f8, f9]" "fe_loose [g0, g1, g2, g3, g4, g5, g6, g7, g8, g9]"
  shows "\<exists>h. fe_mul_rows [f0, f1, f2, f3, f4, f5, f6, f7, f8, f9] [g0, g1, g2, g3, g4, g5, g6, g7, g8, g9] = Some h \<and> length h = 10 \<and>
    list_all (\<lambda>x. \<bar>x\<bar> \<le> row_max) h \<and> fe_val h mod p25519 = (fe_val [f0, f1, f2, f3, f4, f5, f6, f7, f8, f9] * fe_val [g0, g1, g2, g3, g4, g5, g6, g7, g8, g9]) mod p25519"
proof -
  let ?h = "[
      dot [(f0, g0), (2 * f1, 19 * g9), (f2, 19 * g8), (2 * f3, 19 * g7), (f4, 19 * g6),
          (2 * f5, 19 * g5), (f6, 19 * g4), (2 * f7, 19 * g3), (f8, 19 * g2), (2 * f9, 19 * g1)],
      dot [(f0, g1), (f1, g0), (f2, 19 * g9), (f3, 19 * g8), (f4, 19 * g7), (f5, 19 * g6),
          (f6, 19 * g5), (f7, 19 * g4), (f8, 19 * g3), (f9, 19 * g2)],
      dot [(f0, g2), (2 * f1, g1), (f2, g0), (2 * f3, 19 * g9), (f4, 19 * g8), (2 * f5, 19 * g7),
          (f6, 19 * g6), (2 * f7, 19 * g5), (f8, 19 * g4), (2 * f9, 19 * g3)],
      dot [(f0, g3), (f1, g2), (f2, g1), (f3, g0), (f4, 19 * g9), (f5, 19 * g8), (f6, 19 * g7),
          (f7, 19 * g6), (f8, 19 * g5), (f9, 19 * g4)],
      dot [(f0, g4), (2 * f1, g3), (f2, g2), (2 * f3, g1), (f4, g0), (2 * f5, 19 * g9), (f6, 19 * g8),
          (2 * f7, 19 * g7), (f8, 19 * g6), (2 * f9, 19 * g5)],
      dot [(f0, g5), (f1, g4), (f2, g3), (f3, g2), (f4, g1), (f5, g0), (f6, 19 * g9), (f7, 19 * g8),
          (f8, 19 * g7), (f9, 19 * g6)],
      dot [(f0, g6), (2 * f1, g5), (f2, g4), (2 * f3, g3), (f4, g2), (2 * f5, g1), (f6, g0),
          (2 * f7, 19 * g9), (f8, 19 * g8), (2 * f9, 19 * g7)],
      dot [(f0, g7), (f1, g6), (f2, g5), (f3, g4), (f4, g3), (f5, g2), (f6, g1), (f7, g0),
          (f8, 19 * g9), (f9, 19 * g8)],
      dot [(f0, g8), (2 * f1, g7), (f2, g6), (2 * f3, g5), (f4, g4), (2 * f5, g3), (f6, g2),
          (2 * f7, g1), (f8, g0), (2 * f9, 19 * g9)],
      dot [(f0, g9), (f1, g8), (f2, g7), (f3, g6), (f4, g5), (f5, g4), (f6, g3), (f7, g2), (f8, g1),
          (f9, g0)]]"
  note bounds = assms [unfolded fe_loose_def fe_bound_10]
  have row: "mac 0 ps = Some (dot ps)" "\<bar>dot ps\<bar> \<le> row_max"
    if "list_all (\<lambda>(a, b). \<bar>a\<bar> \<le> 110729625 \<and> \<bar>b\<bar> \<le> 2103862875) ps" "length ps \<le> 10" for ps
    using mac_mul_row [OF that] by simp_all
  have "fe_mul_rows [f0, f1, f2, f3, f4, f5, f6, f7, f8, f9] [g0, g1, g2, g3, g4, g5, g6, g7, g8, g9] = Some ?h"
    using bounds by (simp add: fe_mul_rows_def chk_abs INT32_def row abs_mult del: dot_simps mac.simps)
  moreover have "list_all (\<lambda>x. \<bar>x\<bar> \<le> row_max) ?h"
    using bounds by (simp add: row abs_mult del: dot_simps)
  moreover have "fe_val ?h mod p25519 = (fe_val [f0, f1, f2, f3, f4, f5, f6, f7, f8, f9] * fe_val [g0, g1, g2, g3, g4, g5, g6, g7, g8, g9]) mod p25519"
    unfolding fe_val_10 fe_mul_identity by (simp only: mod_mult_self2)
  ultimately show ?thesis by (intro exI [of _ ?h]) simp
qed

lemma fe_sq_rows_10:
  assumes "fe_loose [f0, f1, f2, f3, f4, f5, f6, f7, f8, f9]"
  shows "\<exists>h. fe_sq_rows [f0, f1, f2, f3, f4, f5, f6, f7, f8, f9] = Some h \<and> length h = 10 \<and>
    list_all (\<lambda>x. 2 * \<bar>x\<bar> \<le> row_max) h \<and>
    fe_val h mod p25519 = (fe_val [f0, f1, f2, f3, f4, f5, f6, f7, f8, f9] *
      fe_val [f0, f1, f2, f3, f4, f5, f6, f7, f8, f9]) mod p25519"
proof -
  let ?h = "[
      dot [(f0, f0), (2 * f1, 38 * f9), (2 * f2, 19 * f8), (2 * f3, 38 * f7), (2 * f4, 19 *
        f6), (f5, 38 * f5)],
      dot [(2 * f0, f1), (f2, 38 * f9), (2 * f3, 19 * f8), (f4, 38 * f7), (2 * f5, 19 * f6)],
      dot [(2 * f0, f2), (2 * f1, f1), (2 * f3, 38 * f9), (2 * f4, 19 * f8), (2 * f5, 38 *
        f7), (f6, 19 * f6)],
      dot [(2 * f0, f3), (2 * f1, f2), (f4, 38 * f9), (2 * f5, 19 * f8), (f6, 38 * f7)],
      dot [(2 * f0, f4), (2 * f1, 2 * f3), (f2, f2), (2 * f5, 38 * f9), (2 * f6, 19 * f8),
        (f7, 38 * f7)],
      dot [(2 * f0, f5), (2 * f1, f4), (2 * f2, f3), (f6, 38 * f9), (2 * f7, 19 * f8)],
      dot [(2 * f0, f6), (2 * f1, 2 * f5), (2 * f2, f4), (2 * f3, f3), (2 * f7, 38 * f9),
        (f8, 19 * f8)],
      dot [(2 * f0, f7), (2 * f1, f6), (2 * f2, f5), (2 * f3, f4), (f8, 38 * f9)],
      dot [(2 * f0, f8), (2 * f1, 2 * f7), (2 * f2, f6), (2 * f3, 2 * f5), (f4, f4), (f9, 38
        * f9)],
      dot [(2 * f0, f9), (2 * f1, f8), (2 * f2, f7), (2 * f3, f6), (2 * f4, f5)]]"
  note bounds = assms [unfolded fe_loose_def fe_bound_10]
  have row: "mac 0 ps = Some (dot ps)" "2 * \<bar>dot ps\<bar> \<le> row_max"
    if "list_all (\<lambda>(a, b). \<bar>a\<bar> \<le> 221459250 \<and> \<bar>b\<bar> \<le> 2103862875) ps" "length ps \<le> 6" for ps
    using mac_sq_row [OF that] by simp_all
  have "fe_sq_rows [f0, f1, f2, f3, f4, f5, f6, f7, f8, f9] = Some ?h"
    using bounds by (simp add: fe_sq_rows_def chk_abs INT32_def row abs_mult del: dot_simps mac.simps)
  moreover have "list_all (\<lambda>x. 2 * \<bar>x\<bar> \<le> row_max) ?h"
    using bounds by (simp add: row abs_mult del: dot_simps)
  moreover have "fe_val ?h mod p25519 = (fe_val [f0, f1, f2, f3, f4, f5, f6, f7, f8, f9] *
      fe_val [f0, f1, f2, f3, f4, f5, f6, f7, f8, f9]) mod p25519"
    unfolding fe_val_10 fe_sq_identity by (simp only: mod_mult_self2)
  ultimately show ?thesis by (intro exI [of _ ?h]) simp
qed

lemma fe_mul_correct:
  assumes "fe_loose f" "fe_loose g"
  shows "\<exists>h. fe_mul f g = Some h \<and> fe_tight h \<and> fe_val h mod p25519 = (fe_val f * fe_val g) mod p25519"
proof -
  have len: "length f = 10" "length g = 10" using assms by (simp_all add: fe_loose_def fe_bound_length)
  obtain f0 f1 f2 f3 f4 f5 f6 f7 f8 f9 where f: "f = [f0, f1, f2, f3, f4, f5, f6, f7, f8, f9]" by (rule list_10 [OF len(1)])
  obtain g0 g1 g2 g3 g4 g5 g6 g7 g8 g9 where g: "g = [g0, g1, g2, g3, g4, g5, g6, g7, g8, g9]" by (rule list_10 [OF len(2)])
  obtain h where h: "fe_mul_rows f g = Some h" "length h = 10" "list_all (\<lambda>x. \<bar>x\<bar> \<le> row_max) h"
    "fe_val h mod p25519 = (fe_val f * fe_val g) mod p25519"
    using fe_mul_rows_10 [OF assms [unfolded f g]] unfolding f g by blast
  show ?thesis using fe_reduce_correct [OF h(2,3)] h(1,4) by (simp add: fe_mul_def)
qed

lemma fe_sq_rows_correct:
  assumes "fe_loose f"
  shows "\<exists>h. fe_sq_rows f = Some h \<and> length h = 10 \<and> list_all (\<lambda>x. 2 * \<bar>x\<bar> \<le> row_max) h \<and>
    fe_val h mod p25519 = (fe_val f * fe_val f) mod p25519"
proof -
  have len: "length f = 10" using assms by (simp add: fe_loose_def fe_bound_length)
  obtain f0 f1 f2 f3 f4 f5 f6 f7 f8 f9 where f: "f = [f0, f1, f2, f3, f4, f5, f6, f7, f8, f9]" by (rule list_10 [OF len])
  show ?thesis using fe_sq_rows_10 [OF assms [unfolded f]] unfolding f by blast
qed

lemma fe_sq_correct:
  assumes "fe_loose f"
  shows "\<exists>h. fe_sq f = Some h \<and> fe_tight h \<and> fe_val h mod p25519 = (fe_val f * fe_val f) mod p25519"
proof -
  obtain h where h: "fe_sq_rows f = Some h" "length h = 10" "list_all (\<lambda>x. 2 * \<bar>x\<bar> \<le> row_max) h"
    "fe_val h mod p25519 = (fe_val f * fe_val f) mod p25519"
    using fe_sq_rows_correct [OF assms] by blast
  have "list_all (\<lambda>x. \<bar>x\<bar> \<le> row_max) h" using h(3) by (rule list.pred_mono_strong) (simp add: row_max_def)
  from fe_reduce_correct [OF h(2) this] show ?thesis using h(1,4) by (simp add: fe_sq_def)
qed

lemma double_rows_correct:
  "list_all (\<lambda>x. 2 * \<bar>x\<bar> \<le> row_max) h \<Longrightarrow> double_rows h = Some (map (\<lambda>x. 2 * x) h)"
  by (induction h) (simp_all add: chk_abs row_max_def INT64_def abs_mult)

lemma fe_val_double: "length h = 10 \<Longrightarrow> fe_val (map (\<lambda>x. 2 * x) h) = 2 * fe_val h"
  by (auto elim!: list_10 simp: fe_val_10)

lemma fe_sq2_correct:
  assumes "fe_loose f"
  shows "\<exists>h. fe_sq2 f = Some h \<and> fe_tight h \<and> fe_val h mod p25519 = (2 * (fe_val f * fe_val f)) mod p25519"
proof -
  obtain h where h: "fe_sq_rows f = Some h" "length h = 10" "list_all (\<lambda>x. 2 * \<bar>x\<bar> \<le> row_max) h"
    "fe_val h mod p25519 = (fe_val f * fe_val f) mod p25519"
    using fe_sq_rows_correct [OF assms] by blast
  let ?d = "map (\<lambda>x. 2 * x) h"
  have "length ?d = 10" "list_all (\<lambda>x. \<bar>x\<bar> \<le> row_max) ?d"
    using h(2,3) by (simp_all add: list.pred_map comp_def abs_mult)
  from fe_reduce_correct [OF this] obtain r where
    "fe_reduce ?d = Some r" "fe_tight r" "fe_val r mod p25519 = (2 * fe_val h) mod p25519"
    using fe_val_double [OF h(2)] by auto
  moreover have "(2 * fe_val h) mod p25519 = (2 * (fe_val f * fe_val f)) mod p25519"
    using h(4) by (metis mod_mult_right_eq)
  ultimately show ?thesis using h(1) double_rows_correct [OF h(3)] by (simp add: fe_sq2_def)
qed

end
