(* ===== verification/FieldResidue.thy ===== *)
theory FieldResidue
  imports FieldProps
begin

text \<open>
  What the operations of the field compute, as equations in the ring of residues modulo
  \<open>2\<^sup>2\<^sup>5\<^sup>5 - 19\<close>: sums, products, squares, and the powers that the addition chains of
  \<^verbatim>\<open>fe_invert\<close> and \<^verbatim>\<open>fe_divpowm1\<close> raise their argument to. The ring is a type of its own, an
  instance of the library's commutative rings, so that the library's automation applies.
\<close>

subsection \<open>The ring of residues\<close>

typedef residue = "{0 ..< p25519}"
  by (rule exI [of _ 0]) (simp add: p25519_def)

setup_lifting type_definition_residue

lemma p25519_pos [simp]: "0 < p25519"
  by (simp add: p25519_def)

instantiation residue :: comm_ring_1
begin

lift_definition zero_residue :: residue is 0
  by simp

lift_definition one_residue :: residue is 1
  by (simp add: p25519_def)

lift_definition plus_residue :: "residue \<Rightarrow> residue \<Rightarrow> residue" is "\<lambda>x y. (x + y) mod p25519"
  by simp

lift_definition minus_residue :: "residue \<Rightarrow> residue \<Rightarrow> residue" is "\<lambda>x y. (x - y) mod p25519"
  by simp

lift_definition uminus_residue :: "residue \<Rightarrow> residue" is "\<lambda>x. - x mod p25519"
  by simp

lift_definition times_residue :: "residue \<Rightarrow> residue \<Rightarrow> residue" is "\<lambda>x y. x * y mod p25519"
  by simp

instance
  by (standard; transfer)
    (simp_all add: mod_simps algebra_simps p25519_def)

end

lemma of_nat_residue: "Rep_residue (of_nat n) = int n mod p25519"
proof (induction n)
  case (Suc n)
  then show ?case by (simp add: plus_residue.rep_eq one_residue.rep_eq mod_simps)
qed (simp add: zero_residue.rep_eq)

lemma of_int_residue: "Rep_residue (of_int x) = x mod p25519"
  by (cases x rule: int_cases2) (simp_all add: of_nat_residue uminus_residue.rep_eq mod_simps)

lemma of_int_residue_eq: "(of_int x :: residue) = of_int y \<longleftrightarrow> x mod p25519 = y mod p25519"
  by (metis Rep_residue_inject of_int_residue)

definition fe_res :: "fe \<Rightarrow> residue" where "fe_res f = of_int (fe_val f)"

subsection \<open>Linear operations\<close>

lemma fe_res_0 [simp]: "fe_res fe_0 = 0" and fe_res_1 [simp]: "fe_res fe_1 = 1"
  by (simp_all add: fe_res_def fe_0_def fe_1_def fe_val_10)

lemma fe_tight_0 [simp]: "fe_tight fe_0" and fe_tight_1 [simp]: "fe_tight fe_1"
  by (simp_all add: fe_tight_def fe_0_def fe_1_def)

lemma fe_add_sums:
  assumes "fe_bound a b f" "fe_bound a' b' g" "a + a' \<le> INT32" "b + b' \<le> INT32"
  shows "succeeds (fe_add f g) (\<lambda>h. fe_bound (a + a') (b + b') h \<and> fe_res h = fe_res f + fe_res g)"
proof -
  have len: "length f = 10" "length g = 10" using assms(1,2) by (simp_all add: fe_bound_length)
  obtain f0 f1 f2 f3 f4 f5 f6 f7 f8 f9 where f: "f = [f0, f1, f2, f3, f4, f5, f6, f7, f8, f9]"
    by (rule list_10 [OF len(1)])
  obtain g0 g1 g2 g3 g4 g5 g6 g7 g8 g9 where g: "g = [g0, g1, g2, g3, g4, g5, g6, g7, g8, g9]"
    by (rule list_10 [OF len(2)])
  have sum: "\<bar>x + y\<bar> \<le> A + B" if "\<bar>x\<bar> \<le> A" "\<bar>y\<bar> \<le> B" for x y A B :: int using that by linarith
  have "chk INT32 (x + y) = Some (x + y)" if "\<bar>x\<bar> \<le> a \<and> \<bar>y\<bar> \<le> a' \<or> \<bar>x\<bar> \<le> b \<and> \<bar>y\<bar> \<le> b'" for x y
    by (rule chk_abs) (use that assms(3,4) in linarith)
  then show ?thesis
    using assms(1,2) unfolding f g
    by (simp add: fe_add_def sum fe_res_def fe_val_10 flip: of_int_add) (simp add: algebra_simps)
qed

lemma fe_neg_negates:
  assumes "fe_bound a b f" "a \<le> INT32" "b \<le> INT32"
  shows "succeeds (fe_neg f) (\<lambda>h. fe_bound a b h \<and> fe_res h = - fe_res f)"
proof -
  have len: "length f = 10" using assms(1) by (simp add: fe_bound_length)
  obtain f0 f1 f2 f3 f4 f5 f6 f7 f8 f9 where f: "f = [f0, f1, f2, f3, f4, f5, f6, f7, f8, f9]"
    by (rule list_10 [OF len(1)])
  have "chk INT32 (- x) = Some (- x)" if "\<bar>x\<bar> \<le> a \<or> \<bar>x\<bar> \<le> b" for x
    by (rule chk_abs) (use that assms(2,3) in linarith)
  then show ?thesis
    using assms(1) unfolding f
    by (simp add: fe_neg_def fe_res_def fe_val_10 flip: of_int_minus) 
qed

lemma fe_sub_subtracts:
  assumes "fe_bound a b f" "fe_bound a' b' g" "a + a' \<le> INT32" "b + b' \<le> INT32"
  shows "succeeds (fe_sub f g) (\<lambda>h. fe_bound (a + a') (b + b') h \<and> fe_res h = fe_res f - fe_res g)"
proof -
  have len: "length f = 10" "length g = 10" using assms(1,2) by (simp_all add: fe_bound_length)
  obtain f0 f1 f2 f3 f4 f5 f6 f7 f8 f9 where f: "f = [f0, f1, f2, f3, f4, f5, f6, f7, f8, f9]"
    by (rule list_10 [OF len(1)])
  obtain g0 g1 g2 g3 g4 g5 g6 g7 g8 g9 where g: "g = [g0, g1, g2, g3, g4, g5, g6, g7, g8, g9]"
    by (rule list_10 [OF len(2)])
  have diff: "\<bar>x - y\<bar> \<le> A + B" if "\<bar>x\<bar> \<le> A" "\<bar>y\<bar> \<le> B" for x y A B :: int using that by linarith
  have "chk INT32 (x - y) = Some (x - y)" if "\<bar>x\<bar> \<le> a \<and> \<bar>y\<bar> \<le> a' \<or> \<bar>x\<bar> \<le> b \<and> \<bar>y\<bar> \<le> b'" for x y
    by (rule chk_abs) (use that assms(3,4) in linarith)
  then show ?thesis
    using assms(1,2) unfolding f g
    by (simp add: fe_sub_def diff fe_res_def fe_val_10 flip: of_int_diff) (simp add: algebra_simps)
qed

lemma fe_cmov_selects:
  assumes "fe_loose f" "fe_loose g"
  shows "fe_cmov f g (of_bool b) = Some (if b then g else f)"
proof -
  have len: "length f = 10" "length g = 10" using assms by (simp_all add: fe_loose_def fe_bound_length)
  obtain f0 f1 f2 f3 f4 f5 f6 f7 f8 f9 where f: "f = [f0, f1, f2, f3, f4, f5, f6, f7, f8, f9]"
    by (rule list_10 [OF len(1)])
  obtain g0 g1 g2 g3 g4 g5 g6 g7 g8 g9 where g: "g = [g0, g1, g2, g3, g4, g5, g6, g7, g8, g9]"
    by (rule list_10 [OF len(2)])
  show ?thesis
    using assms unfolding f g
    by (simp add: fe_cmov_def fe_loose_def chk_abs INT32_def)
qed

subsection \<open>Products and powers\<close>

lemma fe_mul_multiplies:
  assumes "fe_loose f" "fe_loose g"
  shows "succeeds (fe_mul f g) (\<lambda>h. fe_tight h \<and> fe_res h = fe_res f * fe_res g)"
  using fe_mul_correct [OF assms] by (auto simp: succeeds_def fe_res_def of_int_residue_eq simp flip: of_int_mult)

lemma fe_sq_squares:
  assumes "fe_loose f"
  shows "succeeds (fe_sq f) (\<lambda>h. fe_tight h \<and> fe_res h = fe_res f * fe_res f)"
  using fe_sq_correct [OF assms] by (auto simp: succeeds_def fe_res_def of_int_residue_eq simp flip: of_int_mult)

lemma fe_sq2_doubles:
  assumes "fe_loose f"
  shows "succeeds (fe_sq2 f) (\<lambda>h. fe_tight h \<and> fe_res h = 2 * (fe_res f * fe_res f))"
proof -
  have two: "(of_int 2 :: residue) = 2" by simp
  show ?thesis using fe_sq2_correct [OF assms]
    unfolding succeeds_def fe_res_def two [symmetric] of_int_mult [symmetric] of_int_residue_eq by blast
qed

text \<open>\<open>fe_pow x n f\<close>: \<open>f\<close> holds \<open>x ^ n\<close>.\<close>

definition fe_pow :: "residue \<Rightarrow> nat \<Rightarrow> fe \<Rightarrow> bool" where
  "fe_pow x n f \<longleftrightarrow> fe_loose f \<and> fe_res f = x ^ n"

lemma fe_pow_sq: "fe_pow x n f \<Longrightarrow> succeeds (fe_sq f) (fe_pow x (2 * n))"
  by (rule succeeds_weaken [OF fe_sq_squares])
    (auto simp: fe_pow_def tight_loose mult_2 power_add)

lemma fe_pow_mul: "fe_pow x m f \<Longrightarrow> fe_pow x n g \<Longrightarrow> succeeds (fe_mul f g) (fe_pow x (m + n))"
  by (rule succeeds_weaken [OF fe_mul_multiplies])
    (auto simp: fe_pow_def tight_loose power_add)

lemma fe_pow_sq_times: "fe_pow x n f \<Longrightarrow> succeeds (fe_sq_times k f) (fe_pow x (2 ^ k * n))"
proof (induction k arbitrary: n f)
  case (Suc k)
  show ?case
    unfolding fe_sq_times.simps
    by (rule succeeds_bind [OF fe_pow_sq [OF Suc.prems]])
      (use Suc.IH [of "2 * n"] in \<open>simp add: mult.assoc mult.left_commute\<close>)
qed simp

text \<open>The result of a multiplication is tight.\<close>

lemma fe_pow_mul_tight:
  "fe_pow x m f \<Longrightarrow> fe_pow x n g \<Longrightarrow> k = m + n \<Longrightarrow> succeeds (fe_mul f g) (\<lambda>h. fe_tight h \<and> fe_res h = x ^ k)"
  by (rule succeeds_weaken [OF fe_mul_multiplies]) (auto simp: fe_pow_def power_add)

lemmas fe_pow_rules = fe_pow_sq fe_pow_mul fe_pow_sq_times

lemma fe_invert_power:
  assumes "fe_loose z"
  shows "succeeds (fe_invert z) (\<lambda>h. fe_tight h \<and> fe_res h = fe_res z ^ (2 ^ 255 - 21))"
proof -
  have "fe_pow (fe_res z) 1 z" using assms by (simp add: fe_pow_def)
  then show ?thesis
    unfolding fe_invert_def
    apply -
    apply ((rule succeeds_bind, rule fe_pow_rules, assumption, assumption?)+)
    apply (rule fe_pow_mul_tight, assumption, assumption)
    by simp
qed

lemma fe_pow22523_power:
  assumes "fe_loose z"
  shows "succeeds (fe_pow22523 z) (\<lambda>h. fe_tight h \<and> fe_res h = fe_res z ^ (2 ^ 252 - 3))"
proof -
  have "fe_pow (fe_res z) 1 z" using assms by (simp add: fe_pow_def)
  then show ?thesis
    unfolding fe_pow22523_def
    apply -
    apply ((rule succeeds_bind, rule fe_pow_rules, assumption, assumption?)+)
    apply (rule fe_pow_mul_tight, assumption, assumption)
    by simp
qed

text \<open>\<open>u v\<^sup>3 (u v\<^sup>7) ^ ((p - 5) / 8)\<close>, the candidate for the square root of \<open>u / v\<close>.\<close>

lemma fe_divpowm1_power:
  assumes "fe_loose u" "fe_loose v"
  shows "succeeds (fe_divpowm1 u v) (\<lambda>h. fe_tight h \<and>
    fe_res h = (fe_res u * fe_res v ^ 7) ^ (2 ^ 252 - 3) * fe_res v ^ 3 * fe_res u)"
proof -
  obtain k :: nat where k: "k = 2 ^ 252 - 3" by blast
  note mul = succeeds_bind [OF fe_mul_multiplies] and sq = succeeds_bind [OF fe_sq_squares]
  note pow = succeeds_bind [OF fe_pow22523_power [folded k]]
  have cube: "x ^ 3 = x * x * x" and seventh: "x ^ 7 = x * x * x * (x * x * x) * x" for x :: residue
    by (simp_all add: eval_nat_numeral mult_ac)
  show ?thesis
    unfolding fe_divpowm1_def k [symmetric]
    apply (rule sq [OF assms(2)])
    apply (rule mul, simp add: tight_loose, rule assms)
    apply (rule sq, simp add: tight_loose)
    apply (rule mul, simp add: tight_loose, rule assms)
    apply (rule mul, simp add: tight_loose, rule assms)
    apply (rule pow, simp add: tight_loose)
    apply (rule mul, simp add: tight_loose, simp add: tight_loose)
    apply (rule succeeds_weaken [OF fe_mul_multiplies], simp add: tight_loose, rule assms)
    by (simp only: cube seventh mult_ac)
qed

end
