(* ===== verification/Packing.thy ===== *)
theory Packing
  imports Limbs
begin

text \<open>
  Between bytes and limbs, as \<^verbatim>\<open>base/tools/cryptonote/crypto-ops.c\<close> converts them: the
  little-endian number of a buffer, the loads \<^verbatim>\<open>load_3\<close> and \<^verbatim>\<open>load_4\<close>, and the bytes of a list of
  limbs, each a disjunction of shifted limbs. The lemma \<open>le_int_pack\<close> covers every such table at
  once: a table that is the one computed from the widths writes the number the limbs stand for.
\<close>

subsection \<open>The number of a buffer\<close>

fun le_int :: "bytes \<Rightarrow> int" where
  "le_int [] = 0"
| "le_int (b # bs) = uint b + 256 * le_int bs"

lemma le_int_nonneg [simp]: "0 \<le> le_int bs"
  by (induction bs) simp_all

lemma uint_u8_less: "uint (b :: u8) < 256"
  using uint_lt2p [of b] by simp

lemma le_int_less: "le_int bs < 2 ^ (8 * length bs)"
proof (induction bs)
  case (Cons b bs)
  have "uint b + 256 * le_int bs < 256 * (le_int bs + 1)" using uint_u8_less [of b] by simp
  also have "\<dots> \<le> 256 * 2 ^ (8 * length bs)" using Cons by simp
  finally show ?case by (simp add: power_add)
qed simp

lemma bit_add_shift:
  fixes x y :: int
  assumes "0 \<le> x" "x < 2 ^ w"
  shows "bit (x + 2 ^ w * y) m = (if m < w then bit x m else bit y (m - w))"
proof -
  have x: "take_bit w x = x" using assms by (simp add: take_bit_int_eq_self)
  have "x AND push_bit w y = 0"
    by (rule bit_eqI) (metis bit_0_eq bit_and_iff bit_push_bit_iff bit_take_bit_iff bot_apply bot_bool_def not_le x)
  then have "x + 2 ^ w * y = x OR push_bit w y"
    by (simp add: disjunctive_add_eq_or push_bit_eq_mult mult.commute)
  then show ?thesis
    by (auto simp: bit_or_iff bit_push_bit_iff) (metis bit_take_bit_iff x)+
qed

lemma bit_le_int: "bit (le_int bs) m \<longleftrightarrow> m div 8 < length bs \<and> bit (bs ! (m div 8)) (m mod 8)"
proof (induction bs arbitrary: m)
  case (Cons b bs)
  have "bit (le_int (b # bs)) m = (if m < 8 then bit (uint b) m else bit (le_int bs) (m - 8))"
    using bit_add_shift [of "uint b" 8 "le_int bs" m] uint_u8_less [of b] by simp
  moreover have "m div 8 = Suc ((m - 8) div 8)" "m mod 8 = (m - 8) mod 8" if "\<not> m < 8"
    using that by (simp_all add: le_div_geq le_mod_geq)
  ultimately show ?case by (simp add: Cons.IH bit_uint_iff)
qed simp

lemma le_int_inject: "length bs = length cs \<Longrightarrow> le_int bs = le_int cs \<Longrightarrow> bs = cs"
proof (rule nth_equalityI)
  fix i assume eq: "length bs = length cs" "le_int bs = le_int cs" and i: "i < length bs"
  show "bs ! i = cs ! i"
  proof (rule bit_word_eqI)
    fix k assume "k < LENGTH(8)"
    then have "(8 * i + k) div 8 = i" "(8 * i + k) mod 8 = k" by simp_all
    then show "bit (bs ! i) k = bit (cs ! i) k"
      using bit_le_int [of bs "8 * i + k"] bit_le_int [of cs "8 * i + k"] eq i by simp
  qed
qed simp

lemma le_int_le_word: "8 * length bs \<le> LENGTH('a) \<Longrightarrow> uint (le_word bs :: 'a::len word) = le_int bs"
  by (rule bit_eqI) (auto simp: bit_uint_iff bit_le_word bit_le_int)

text \<open>A stretch of the buffer is a stretch of the number.\<close>

lemma le_int_slice: "le_int (take n (drop k bs)) = take_bit (8 * n) (drop_bit (8 * k) (le_int bs))"
proof (rule bit_eqI)
  fix m
  have "m < 8 * n \<longleftrightarrow> m div 8 < n" by auto
  then show "bit (le_int (take n (drop k bs))) m = bit (take_bit (8 * n) (drop_bit (8 * k) (le_int bs))) m"
    by (auto simp: bit_le_int bit_take_bit_iff bit_drop_bit_eq)
qed

lemma slice_step: "take_bit n (drop_bit k x) + 2 ^ n * drop_bit (k + n) x = drop_bit k x" for x :: int
proof -
  have "drop_bit (k + n) x = drop_bit k x div 2 ^ n"
    by (simp add: drop_bit_eq_div power_add zdiv_zmult2_eq)
  then show ?thesis by (simp add: take_bit_eq_mod)
qed

subsection \<open>Loads\<close>

text \<open>
  The result is used as an \<^verbatim>\<open>int64_t\<close>, shifted left by at most 7 bits: 40 bits at most, so that
  its arithmetic in 64 bits is that of the integers.
\<close>

definition load_3 :: "bytes \<Rightarrow> nat \<Rightarrow> int option" where
  "load_3 s k = map_option (\<lambda>b. uint (le_word b :: u64)) (get_bytes s k 3)"

definition load_4 :: "bytes \<Rightarrow> nat \<Rightarrow> int option" where
  "load_4 s k = map_option (\<lambda>b. uint (le_word b :: u64)) (get_bytes s k 4)"

lemma load_3_Some: "k + 3 \<le> length s \<Longrightarrow> load_3 s k = Some (take_bit 24 (drop_bit (8 * k) (le_int s)))"
  by (simp add: load_3_def get_bytes_def le_int_le_word le_int_slice)

lemma load_4_Some: "k + 4 \<le> length s \<Longrightarrow> load_4 s k = Some (take_bit 32 (drop_bit (8 * k) (le_int s)))"
  by (simp add: load_4_def get_bytes_def le_int_le_word le_int_slice)

subsection \<open>Limbs to bytes\<close>

text \<open>\<open>Shr i s\<close> is \<open>h\<^sub>i >> s\<close>, \<open>Shl i s\<close> is \<open>h\<^sub>i << s\<close>; a row is the disjunction stored in a byte.\<close>

datatype piece = Shr nat nat | Shl nat nat

fun piece_value :: "int list \<Rightarrow> piece \<Rightarrow> int" where
  "piece_value h (Shr i s) = drop_bit s (h ! i)"
| "piece_value h (Shl i s) = push_bit s (h ! i)"

fun row_value :: "int list \<Rightarrow> piece list \<Rightarrow> int" where
  "row_value h [] = 0"
| "row_value h (p # ps) = piece_value h p OR row_value h ps"

definition pack :: "piece list list \<Rightarrow> int list \<Rightarrow> bytes" where
  "pack rows h = map (\<lambda>r. word_of_int (row_value h r)) rows"

lemma length_pack [simp]: "length (pack rows h) = length rows"
  by (simp add: pack_def)

text \<open>The number of limbs of given widths, and the rows those widths ask for.\<close>

fun radix :: "nat list \<Rightarrow> int list \<Rightarrow> int" where
  "radix (w # ws) (x # xs) = x + 2 ^ w * radix ws xs"
| "radix ws xs = 0"

definition digits :: "nat list \<Rightarrow> int list \<Rightarrow> bool" where
  "digits ws xs \<longleftrightarrow> list_all2 (\<lambda>x w. 0 \<le> x \<and> x < 2 ^ w) xs ws"

lemma digits_simps [simp]:
  "digits [] xs \<longleftrightarrow> xs = []"
  "digits (w # ws) (x # xs) \<longleftrightarrow> 0 \<le> x \<and> x < 2 ^ w \<and> digits ws xs"
  "digits ws [] \<longleftrightarrow> ws = []"
  by (auto simp: digits_def)

definition digit_intervals :: "nat list \<Rightarrow> interval list" where
  "digit_intervals ws = map (\<lambda>w. (0, 2 ^ w - 1)) ws"

lemma limbs_in_digits: "limbs_in h (digit_intervals ws) \<longleftrightarrow> digits ws h"
  unfolding limbs_in_def digit_intervals_def digits_def list_all2_map2
  by (rule arg_cong [where f = "\<lambda>P. list_all2 P h ws"]) (auto simp: lies_in_def fun_eq_iff)

lemma radix_less: "digits ws xs \<Longrightarrow> 0 \<le> radix ws xs \<and> radix ws xs < 2 ^ sum_list ws"
proof (induction ws xs rule: radix.induct)
  case (1 w ws x xs)
  then have IH: "0 \<le> radix ws xs" "radix ws xs < 2 ^ sum_list ws" and x: "0 \<le> x" "x < 2 ^ w" by simp_all
  have "x + 2 ^ w * radix ws xs < 2 ^ w * (radix ws xs + 1)" using x by (simp add: algebra_simps)
  also have "\<dots> \<le> 2 ^ w * 2 ^ sum_list ws" using IH by (intro mult_left_mono) simp_all
  finally show ?case using IH x by (simp add: power_add)
qed simp_all

primrec pieces_at :: "nat list \<Rightarrow> nat \<Rightarrow> nat \<Rightarrow> nat \<Rightarrow> piece list" where
  "pieces_at [] e i j = []"
| "pieces_at (w # ws) e i j =
     (if e < 8 * j + 8 \<and> 8 * j < e + w
      then (if e \<le> 8 * j then Shr i (8 * j - e) else Shl i (e - 8 * j)) # pieces_at ws (e + w) (Suc i) j
      else pieces_at ws (e + w) (Suc i) j)"

definition rows_of :: "nat list \<Rightarrow> nat \<Rightarrow> piece list list" where
  "rows_of ws n = map (pieces_at ws 0 0) [0 ..< n]"

lemma bit_pieces_at:
  "digits ws (drop i h) \<Longrightarrow> k < 8 \<Longrightarrow>
   bit (row_value h (pieces_at ws e i j)) k \<longleftrightarrow> bit (push_bit e (radix ws (drop i h))) (8 * j + k)"
proof (induction ws arbitrary: e i)
  case (Cons w ws)
  then obtain x xs where drop: "drop i h = x # xs" by (cases "drop i h") auto
  then have tail: "drop (Suc i) h = xs" and x: "h ! i = x"
    by (metis drop_Suc tl_drop list.sel(3)) (metis drop nth_via_drop)
  have dig: "0 \<le> x" "x < 2 ^ w" "digits ws xs" using Cons.prems(1) by (simp_all add: drop)
  have IH: "bit (row_value h (pieces_at ws (e + w) (Suc i) j)) k \<longleftrightarrow> bit (push_bit (e + w) (radix ws xs)) (8 * j + k)"
    using Cons.IH [of "Suc i"] Cons.prems(2) dig by (simp add: tail)
  have high: "\<not> bit x m" if "w \<le> m" for m
    using dig(1,2) that by (metis bit_take_bit_iff not_le take_bit_int_eq_self)
  have split: "bit (push_bit e (x + 2 ^ w * radix ws xs)) (8 * j + k) \<longleftrightarrow>
      e \<le> 8 * j + k \<and> bit x (8 * j + k - e) \<or> bit (push_bit (e + w) (radix ws xs)) (8 * j + k)"
    using high by (auto simp: bit_push_bit_iff bit_add_shift [OF dig(1,2)])
  show ?case
    using Cons.prems(2) high unfolding drop radix.simps split
    by (auto simp: IH x bit_or_iff bit_drop_bit_eq bit_push_bit_iff algebra_simps)
qed simp

lemma le_int_pack:
  assumes "digits ws h" "rows = rows_of ws n" "sum_list ws \<le> 8 * n"
  shows "le_int (pack rows h) = radix ws h"
proof (rule bit_eqI)
  fix m
  have small: "take_bit (8 * n) (radix ws h) = radix ws h"
  proof -
    have "radix ws h < 2 ^ (8 * n)"
      using radix_less [OF assms(1)] power_increasing [OF assms(3), of "2 :: int"] by linarith
    then show ?thesis using radix_less [OF assms(1)] by (simp add: take_bit_int_eq_self)
  qed
  show "bit (le_int (pack rows h)) m = bit (radix ws h) m"
  proof (cases "m div 8 < n")
    case True
    then show ?thesis
      using bit_pieces_at [of ws 0 h "m mod 8" 0 "m div 8"] assms(1)
      by (simp add: bit_le_int pack_def rows_of_def assms(2) bit_word_of_int_iff)
  next
    case False
    then have "8 * n \<le> m" by auto
    then have "\<not> bit (radix ws h) m" using small by (metis bit_take_bit_iff not_le)
    then show ?thesis using False by (simp add: bit_le_int assms(2) rows_of_def)
  qed
qed

subsection \<open>The test for zero\<close>

text \<open>\<open>((s\<^sub>0 | s\<^sub>1 | \<dots> | s\<^sub>3\<^sub>1) - 1 >> 8) + 1\<close>.\<close>

definition nonzero_bit :: "bytes \<Rightarrow> int" where
  "nonzero_bit s = (uint (foldr (\<lambda>b c. b OR c) s 0) - 1) div 2 ^ 8 + 1"

lemma le_int_0: "le_int s = 0 \<longleftrightarrow> foldr (\<lambda>b c. b OR c) s 0 = 0"
proof (induction s)
  case (Cons b s)
  have "uint b + 256 * le_int s = 0 \<longleftrightarrow> uint b = 0 \<and> le_int s = 0"
    using add_nonneg_eq_0_iff [of "uint b" "256 * le_int s"] by simp
  then show ?case by (simp add: Cons.IH uint_0_iff or_eq_0_iff)
qed simp

lemma nonzero_bit_test: "nonzero_bit s = of_bool (le_int s \<noteq> 0)"
proof -
  let ?x = "foldr (\<lambda>b c. b OR c) s 0"
  have "(uint ?x - 1) div 256 = (if ?x = 0 then -1 else 0)"
  proof (cases "?x = 0")
    case False
    then have "0 < uint ?x" by (simp add: uint_0_iff order_less_le)
    then show ?thesis using False uint_u8_less [of ?x] by (simp add: div_pos_pos_trivial)
  qed simp
  then show ?thesis by (simp add: nonzero_bit_def le_int_0)
qed

end
