(* ===== verification/FieldBytes.thy ===== *)
theory FieldBytes
  imports FieldResidue Packing
begin

text \<open>
  Field elements as 32 bytes: \<^verbatim>\<open>fe_tobytes\<close> writes the one representative below the modulus, the
  tests for zero and for the sign read it, and \<^verbatim>\<open>fe_frombytes\<close>, written out in
  \<^verbatim>\<open>ge_frombytes_vartime\<close> and \<^verbatim>\<open>ge_fromfe_frombytes_vartime\<close>, reads it back.
\<close>

subsection \<open>Writing\<close>

text \<open>The quotient \<open>q\<close> of the value by the modulus: \<open>q = (h\<^sub>i + q) >> s\<close> along the limbs.\<close>

fun quotient_chain :: "int \<Rightarrow> (int \<times> nat) list \<Rightarrow> int option" where
  "quotient_chain q [] = Some q"
| "quotient_chain q ((x, s) # xs) = do { y \<leftarrow> chk INT32 (x + q); quotient_chain (y div 2 ^ s) xs }"

definition fe_quotient :: "fe \<Rightarrow> int option" where
  "fe_quotient h = do {
     t \<leftarrow> chk INT32 (19 * h ! 9);
     t \<leftarrow> chk INT32 (t + 2 ^ 24);
     quotient_chain (t div 2 ^ 25)
       [(h ! 0, 26), (h ! 1, 25), (h ! 2, 26), (h ! 3, 25), (h ! 4, 26), (h ! 5, 25), (h ! 6, 26),
        (h ! 7, 25), (h ! 8, 26), (h ! 9, 25)] }"

definition fe_floor_carries :: "limb_op list" where
  "fe_floor_carries =
     [Carry False 0 26 1 1, Carry False 1 25 2 1, Carry False 2 26 3 1, Carry False 3 25 4 1,
      Carry False 4 26 5 1, Carry False 5 25 6 1, Carry False 6 26 7 1, Carry False 7 25 8 1,
      Carry False 8 26 9 1, Drop 9 25]"

text \<open>
  The 32 stores. The left shifts \<open>h4 << 6\<close> and \<open>h9 << 6\<close> leave 32 bits; only the low byte of a
  disjunction is kept, so that the model shifts without a bound.
\<close>

definition fe_rows :: "piece list list" where
  "fe_rows =
     [[Shr 0 0], [Shr 0 8], [Shr 0 16], [Shr 0 24, Shl 1 2], [Shr 1 6], [Shr 1 14], [Shr 1 22, Shl 2 3],
      [Shr 2 5], [Shr 2 13], [Shr 2 21, Shl 3 5], [Shr 3 3], [Shr 3 11], [Shr 3 19, Shl 4 6], [Shr 4 2],
      [Shr 4 10], [Shr 4 18], [Shr 5 0], [Shr 5 8], [Shr 5 16], [Shr 5 24, Shl 6 1], [Shr 6 7], [Shr 6 15],
      [Shr 6 23, Shl 7 3], [Shr 7 5], [Shr 7 13], [Shr 7 21, Shl 8 4], [Shr 8 4], [Shr 8 12],
      [Shr 8 20, Shl 9 6], [Shr 9 2], [Shr 9 10], [Shr 9 18]]"

definition fe_tobytes :: "fe \<Rightarrow> bytes option" where
  "fe_tobytes h = do {
     q \<leftarrow> fe_quotient h;
     t \<leftarrow> chk INT32 (19 * q);
     h0 \<leftarrow> chk INT32 (h ! 0 + t);
     h \<leftarrow> limb_steps INT32 fe_floor_carries (h[0 := h0]);
     Some (pack fe_rows h) }"

definition fe_isnegative :: "fe \<Rightarrow> int option" where
  "fe_isnegative f = do { s \<leftarrow> fe_tobytes f; Some (uint (s ! 0 AND 1)) }"

definition fe_isnonzero :: "fe \<Rightarrow> int option" where
  "fe_isnonzero f = map_option nonzero_bit (fe_tobytes f)"

subsection \<open>Reading\<close>

text \<open>\<open>fe_load True\<close> masks the top bit, the sign of the other coordinate.\<close>

definition fe_load :: "bool \<Rightarrow> bytes \<Rightarrow> int list option" where
  "fe_load masked s = do {
     h0 \<leftarrow> load_4 s 0;
     h1 \<leftarrow> load_3 s 4;
     h2 \<leftarrow> load_3 s 7;
     h3 \<leftarrow> load_3 s 10;
     h4 \<leftarrow> load_3 s 13;
     h5 \<leftarrow> load_4 s 16;
     h6 \<leftarrow> load_3 s 20;
     h7 \<leftarrow> load_3 s 23;
     h8 \<leftarrow> load_3 s 26;
     h9 \<leftarrow> load_3 s 29;
     Some [h0, h1 * 2 ^ 6, h2 * 2 ^ 5, h3 * 2 ^ 3, h4 * 2 ^ 2, h5, h6 * 2 ^ 7, h7 * 2 ^ 5, h8 * 2 ^ 4,
       (if masked then h9 AND 8388607 else h9) * 2 ^ 2] }"

definition fe_not_canonical :: "int list \<Rightarrow> bool" where
  "fe_not_canonical h \<longleftrightarrow>
     h ! 9 = 33554428 \<and> h ! 8 = 268435440 \<and> h ! 7 = 536870880 \<and> h ! 6 = 2147483520 \<and>
     h ! 5 = 4294967295 \<and> h ! 4 = 67108860 \<and> h ! 3 = 134217720 \<and> h ! 2 = 536870880 \<and>
     h ! 1 = 1073741760 \<and> 4294967277 \<le> h ! 0"

definition fe_load_carries :: "limb_op list" where
  "fe_load_carries =
     [Carry True 9 25 0 19, Carry True 1 25 2 1, Carry True 3 25 4 1, Carry True 5 25 6 1, Carry True 7 25 8 1,
      Carry True 0 26 1 1, Carry True 2 26 3 1, Carry True 4 26 5 1, Carry True 6 26 7 1, Carry True 8 26 9 1]"

definition fe_normal :: "int list \<Rightarrow> fe option" where
  "fe_normal h = do { h \<leftarrow> limb_steps INT64 fe_load_carries h; narrow h }"

subsection \<open>The quotient\<close>

lemma floor_add: "(x + a div 2 ^ k) div 2 ^ s = (x * 2 ^ k + a) div 2 ^ (k + s)" for x a :: int
proof -
  have "(x * 2 ^ k + a) div 2 ^ (k + s) = (x * 2 ^ k + a) div 2 ^ k div 2 ^ s"
    by (simp add: power_add zdiv_zmult2_eq)
  then show ?thesis by simp
qed

abbreviation fe_widths :: "nat list" where
  "fe_widths \<equiv> [26, 25, 26, 25, 26, 25, 26, 25, 26, 25]"

lemma quotient_chain_floor:
  "list_all2 (\<lambda>w x. w \<in> {25, 26} \<and> \<bar>x\<bar> \<le> 73819750) ws xs \<Longrightarrow> \<bar>q\<bar> \<le> 2 ^ 30 \<Longrightarrow>
   quotient_chain q (zip xs ws) = Some ((radix ws xs + q) div 2 ^ sum_list ws)"
proof (induction ws xs arbitrary: q rule: list_all2_induct)
  case (Cons w ws x xs)
  then have w: "w = 25 \<or> w = 26" and x: "\<bar>x + q\<bar> \<le> 2 ^ 31" by auto
  have "\<bar>(x + q) div 2 ^ w\<bar> \<le> 2 ^ 30" using w x by auto
  moreover have "chk INT32 (x + q) = Some (x + q)" using Cons by (intro chk_abs) (auto simp: INT32_def)
  ultimately show ?case
    using Cons.IH [of "(x + q) div 2 ^ w"] by (simp add: floor_add algebra_simps)
qed simp

lemma fe_val_radix: "length h = 10 \<Longrightarrow> radix fe_widths h = fe_val h"
  by (erule list_10) (simp add: fe_val_10)

lemma fe_quotient_floor:
  assumes "fe_plain h"
  shows "fe_quotient h = Some ((fe_val h + (19 * h ! 9 + 2 ^ 24) div 2 ^ 25) div 2 ^ 255)"
proof -
  have len: "length h = 10" using assms by (simp add: fe_plain_def fe_bound_length)
  obtain h0 h1 h2 h3 h4 h5 h6 h7 h8 h9 where h: "h = [h0, h1, h2, h3, h4, h5, h6, h7, h8, h9]"
    by (rule list_10 [OF len])
  have b: "list_all2 (\<lambda>w x. w \<in> {25, 26} \<and> \<bar>x\<bar> \<le> 73819750) fe_widths h" "\<bar>h9\<bar> \<le> 36909875"
    using assms by (auto simp: h fe_plain_def)
  from b(2) have t: "\<bar>(19 * h9 + 2 ^ 24) div 2 ^ 25\<bar> \<le> 2 ^ 30" "\<bar>19 * h9\<bar> \<le> INT32" "\<bar>19 * h9 + 2 ^ 24\<bar> \<le> INT32"
    by (simp_all add: INT32_def)
  show ?thesis
    using quotient_chain_floor [OF b(1) t(1)] t(2,3)
    by (simp add: fe_quotient_def chk_abs fe_val_radix [OF len]) (simp add: h)
qed

lemma fe_plain_top:
  assumes "fe_plain h"
  shows "\<bar>fe_val h - h ! 9 * 2 ^ 230\<bar> < 2 ^ 231" "\<bar>h ! 9\<bar> \<le> 36909875"
proof -
  have len: "length h = 10" using assms by (simp add: fe_plain_def fe_bound_length)
  obtain h0 h1 h2 h3 h4 h5 h6 h7 h8 h9 where h: "h = [h0, h1, h2, h3, h4, h5, h6, h7, h8, h9]"
    by (rule list_10 [OF len])
  show "\<bar>fe_val h - h ! 9 * 2 ^ 230\<bar> < 2 ^ 231" "\<bar>h ! 9\<bar> \<le> 36909875"
    using assms unfolding h fe_plain_def fe_bound_10 fe_val_10
    by (simp_all add: abs_le_iff abs_less_iff del: abs_le_iff [symmetric])
qed

lemma fe_quotient_small:
  assumes "fe_plain h"
  shows "\<bar>19 * (fe_val h div p25519)\<bar> \<le> 57"
proof -
  obtain q r where q: "q = fe_val h div p25519" and V: "fe_val h = p25519 * q + r" "0 \<le> r" "r < p25519"
    by (rule that [of "fe_val h div p25519" "fe_val h mod p25519"]) simp_all
  have "p25519 * -3 < p25519 * (q + 1)" "p25519 * q < p25519 * 2"
    using fe_plain_top [OF assms] V unfolding p25519_def
    by (simp_all add: algebra_simps abs_less_iff abs_le_iff)
  then have "-3 < q + 1" "q < 2" by (simp_all only: mult_less_cancel_left_pos [OF p25519_pos])
  then show ?thesis unfolding q [symmetric] by linarith
qed

text \<open>
  The quotient is exact. The file's own argument has the value within the modulus, which its
  precondition does not give: the quotient reaches -2.
\<close>

lemma quotient_exact:
  fixes V L t :: int
  assumes "V = t * 2 ^ 230 + L" "\<bar>L\<bar> < 2 ^ 231" "\<bar>t\<bar> \<le> 36909875"
  shows "(V + (19 * t + 2 ^ 24) div 2 ^ 25) div 2 ^ 255 = V div p25519"
proof -
  obtain q r where q: "q = V div p25519" and V: "V = p25519 * q + r" and r: "0 \<le> r" "r < p25519"
    by (rule that [of "V div p25519" "V mod p25519"]) simp_all
  obtain u where u: "u = (19 * t + 2 ^ 24) div 2 ^ 25" and u': "2 ^ 25 * u \<le> 19 * t + 2 ^ 24"
    "19 * t + 2 ^ 24 < 2 ^ 25 * (u + 1)"
    by (rule that [of "(19 * t + 2 ^ 24) div 2 ^ 25"]) simp_all
  have bounds: "L < 2 ^ 231" "- (2 ^ 231) < L" "t \<le> 36909875" "- 36909875 \<le> t"
    using assms(2,3) by (simp_all add: abs_less_iff abs_le_iff)
  have "p25519 * -3 < p25519 * (q + 1)" "p25519 * q < p25519 * 2"
    using assms(1) V r bounds unfolding p25519_def by (simp_all add: algebra_simps)
  then have "-3 < q + 1" "q < 2" by (simp_all only: mult_less_cancel_left_pos [OF p25519_pos])
  then have "q \<in> {-3, -2, -1, 0, 1}" by auto
  then have "0 \<le> r - 19 * q + u \<and> r - 19 * q + u < 2 ^ 255"
    using assms(1) V r bounds u' unfolding p25519_def
    by (elim insertE emptyE; hypsubst; intro conjI; simp; linarith)
  moreover have "V + u = 2 ^ 255 * q + (r - 19 * q + u)" using V by (simp add: p25519_def)
  ultimately show ?thesis
    unfolding u [symmetric] q [symmetric]
    by (metis add.commute add_0 div_mult_self2 div_pos_pos_trivial mult.commute power_not_zero zero_neq_numeral)
qed

subsection \<open>The bytes of an element\<close>

definition plain_intervals :: "interval list" where
  "plain_intervals = concat (replicate 5 [(- 73819900, 73819900), (- 36909900, 36909900)])"

lemma length_plain_intervals [simp]: "length plain_intervals = 10"
  by (simp add: plain_intervals_def eval_nat_numeral)

lemma plain_intervals_10: "limbs_in h plain_intervals \<longleftrightarrow> fe_bound 73819900 36909900 h"
proof -
  have t: "plain_intervals = map (\<lambda>m. (- m, m)) [73819900, 36909900, 73819900, 36909900, 73819900, 36909900,
      73819900, 36909900, 73819900, 36909900]"
    by (simp add: plain_intervals_def eval_nat_numeral)
  have "lies_in x (- m, m) \<longleftrightarrow> \<bar>x\<bar> \<le> m" for x m by (auto simp: lies_in_def)
  then show ?thesis unfolding t limbs_in_def fe_bound_def list_all2_map2 by simp
qed

lemma fe_floor_carries_keep: "list_all (keeps_mod (2 ^ 255) fe_exp 10) fe_floor_carries"
  by code_simp

lemma fe_floor_carries_bounds:
  "analysis_ok INT32 fe_floor_carries plain_intervals (digit_intervals fe_widths)"
  by code_simp

lemma fe_rows_of: "fe_rows = rows_of fe_widths 32"
  by code_simp

lemma fe_tobytes_writes:
  assumes "fe_plain h"
  shows "succeeds (fe_tobytes h) (\<lambda>s. length s = 32 \<and> le_int s = fe_val h mod p25519)"
proof -
  let ?q = "fe_val h div p25519" and ?g = "h[0 := h ! 0 + 19 * (fe_val h div p25519)]"
  have len: "length h = 10" using assms by (simp add: fe_plain_def fe_bound_length)
  have top: "fe_val h = h ! 9 * 2 ^ 230 + (fe_val h - h ! 9 * 2 ^ 230)" by simp
  have q: "fe_quotient h = Some ?q"
    using fe_quotient_floor [OF assms] quotient_exact [OF top fe_plain_top [OF assms]] by simp
  have small: "\<bar>19 * ?q\<bar> \<le> 57" by (rule fe_quotient_small [OF assms])
  have nudge: "\<bar>y + x\<bar> \<le> 73819900" if "\<bar>y\<bar> \<le> 73819750" "\<bar>x\<bar> \<le> 57" for x y :: int
    using that by linarith
  have "fe_bound 73819900 36909900 (h[0 := h ! 0 + x])" if "\<bar>x\<bar> \<le> 57" for x
    using assms that by (auto simp: fe_plain_def nudge elim!: fe_boundE)
  then have bound: "\<bar>h ! 0\<bar> \<le> 73819750" "fe_bound 73819900 36909900 ?g"
    using assms small by (auto simp: fe_plain_def elim!: fe_boundE)
  have val: "fe_val ?g = fe_val h mod p25519 + ?q * 2 ^ 255"
  proof -
    have "fe_val ?g = fe_val h + 19 * ?q" using len by (simp add: fe_val_def limbs_value_update fe_exp_def)
    also have "fe_val h = p25519 * ?q + fe_val h mod p25519" by simp
    finally show ?thesis unfolding p25519_def by (simp add: algebra_simps)
  qed
  have "limbs_in ?g plain_intervals" using bound by (simp add: plain_intervals_10)
  from limb_steps_correct [OF this fe_floor_carries_bounds, of "2 ^ 255" fe_exp] obtain g where
    g: "limb_steps INT32 fe_floor_carries ?g = Some g" "digits fe_widths g" "fe_val g mod 2 ^ 255 = fe_val ?g mod 2 ^ 255"
    using fe_floor_carries_keep by (auto simp: limbs_in_digits fe_val_def)
  have "length g = 10" using g(2) by (auto simp: digits_def dest: list_all2_lengthD)
  then have "fe_val g = fe_val g mod 2 ^ 255"
    using radix_less [OF g(2)] by (simp add: fe_val_radix)
  also have "\<dots> = fe_val h mod p25519 mod 2 ^ 255" unfolding g(3) val by simp
  also have "\<dots> = fe_val h mod p25519"
    using pos_mod_bound [of p25519 "fe_val h"] by (intro mod_pos_pos_trivial) (simp_all add: p25519_def)
  finally have "le_int (pack fe_rows g) = fe_val h mod p25519"
    using le_int_pack [OF g(2) fe_rows_of] fe_val_radix [OF \<open>length g = 10\<close>] by simp
  moreover have "fe_tobytes h = Some (pack fe_rows g)"
    using q small bound(1) g(1) by (simp add: fe_tobytes_def chk_abs INT32_def)
  ultimately show ?thesis by (simp add: fe_rows_def)
qed

lemma fe_tobytes_inject:
  assumes "fe_plain f" "fe_plain g"
  shows "fe_tobytes f = fe_tobytes g \<longleftrightarrow> fe_res f = fe_res g"
proof -
  obtain s t where s: "fe_tobytes f = Some s" "length s = 32" "le_int s = fe_val f mod p25519"
    and t: "fe_tobytes g = Some t" "length t = 32" "le_int t = fe_val g mod p25519"
    using fe_tobytes_writes assms by (blast elim: succeedsE)
  show ?thesis using s t le_int_inject [of s t] by (auto simp: fe_res_def of_int_residue_eq)
qed

lemma le_int_parity: "0 < length s \<Longrightarrow> uint (s ! 0 AND 1) = le_int s mod 2"
proof (cases s)
  case (Cons b bs)
  have "(uint b + 256 * le_int bs) mod 2 = uint b mod 2" by presburger
  then show ?thesis by (simp add: Cons and_one_eq uint_mod_distrib)
qed simp

lemma fe_isnegative_parity: "fe_plain f \<Longrightarrow> fe_isnegative f = Some (fe_val f mod p25519 mod 2)"
  using fe_tobytes_writes [of f] by (auto simp: succeeds_def fe_isnegative_def le_int_parity)

lemma fe_res_zero: "fe_val f mod p25519 = 0 \<longleftrightarrow> fe_res f = 0"
  using of_int_residue_eq [of "fe_val f" 0] by (simp add: fe_res_def)

lemma fe_isnonzero_test: "fe_plain f \<Longrightarrow> fe_isnonzero f = Some (of_bool (fe_res f \<noteq> 0))"
  using fe_tobytes_writes [of f] by (auto simp: succeeds_def fe_isnonzero_def nonzero_bit_test fe_res_zero)

subsection \<open>The element of a buffer\<close>

lemma and_23: "x AND 8388607 = take_bit 23 x" for x :: int
proof -
  have "mask 23 = (8388607 :: int)" by (simp add: mask_eq_exp_minus_1)
  then show ?thesis by (metis take_bit_eq_mask)
qed

definition load_intervals :: "bool \<Rightarrow> interval list" where
  "load_intervals masked = map (\<lambda>b. (0, b)) [4294967295, 1073741760, 536870880, 134217720, 67108860,
     4294967295, 2147483520, 536870880, 268435440, if masked then 33554428 else 67108860]"

lemma length_load_intervals [simp]: "length (load_intervals masked) = 10"
  by (simp add: load_intervals_def)

lemma fe_load_value:
  assumes "length s = 32"
  shows "succeeds (fe_load masked s) (\<lambda>h. length h = 10 \<and> limbs_in h (load_intervals masked) \<and>
    fe_val h = (if masked then take_bit 255 (le_int s) else le_int s))"
proof -
  let ?N = "le_int s"
  note steps = slice_step [of 32 0 ?N] slice_step [of 24 32 ?N] slice_step [of 24 56 ?N] slice_step [of 24 80 ?N]
    slice_step [of 24 104 ?N] slice_step [of 32 128 ?N] slice_step [of 24 160 ?N] slice_step [of 24 184 ?N]
    slice_step [of 24 208 ?N]
  have low: "take_bit 32 ?N + take_bit 24 (drop_bit 32 ?N) * 2 ^ 32 + take_bit 24 (drop_bit 56 ?N) * 2 ^ 56 +
      take_bit 24 (drop_bit 80 ?N) * 2 ^ 80 + take_bit 24 (drop_bit 104 ?N) * 2 ^ 104 +
      take_bit 32 (drop_bit 128 ?N) * 2 ^ 128 + take_bit 24 (drop_bit 160 ?N) * 2 ^ 160 +
      take_bit 24 (drop_bit 184 ?N) * 2 ^ 184 + take_bit 24 (drop_bit 208 ?N) * 2 ^ 208 +
      drop_bit 232 ?N * 2 ^ 232 = ?N"
    using steps by simp
  have "drop_bit 256 ?N = 0" using le_int_less [of s] assms by (simp add: drop_bit_eq_div)
  then have top: "take_bit 24 (drop_bit 232 ?N) = drop_bit 232 ?N" using slice_step [of 24 232 ?N] by simp
  have masked: "take_bit 23 (drop_bit 232 ?N) * 2 ^ 232 + drop_bit 255 ?N * 2 ^ 255 = drop_bit 232 ?N * 2 ^ 232"
    "take_bit 255 ?N + drop_bit 255 ?N * 2 ^ 255 = ?N"
    using slice_step [of 23 232 ?N] slice_step [of 255 0 ?N] by simp_all
  have range: "0 \<le> take_bit n x \<and> take_bit n x \<le> 2 ^ n - 1" for n and x :: int
    using take_bit_nonnegative [of n x] take_bit_int_less_exp [of n x] by simp
  have limbs: "limbs_in [take_bit 32 ?N, take_bit 24 (drop_bit 32 ?N) * 2 ^ 6, take_bit 24 (drop_bit 56 ?N) * 2 ^ 5,
      take_bit 24 (drop_bit 80 ?N) * 2 ^ 3, take_bit 24 (drop_bit 104 ?N) * 2 ^ 2, take_bit 32 (drop_bit 128 ?N),
      take_bit 24 (drop_bit 160 ?N) * 2 ^ 7, take_bit 24 (drop_bit 184 ?N) * 2 ^ 5,
      take_bit 24 (drop_bit 208 ?N) * 2 ^ 4, take_bit (if masked then 23 else 24) (drop_bit 232 ?N) * 2 ^ 2] (load_intervals masked)"
    using range [of 32 ?N] range [of 24 "drop_bit 32 ?N"] range [of 24 "drop_bit 56 ?N"] range [of 24 "drop_bit 80 ?N"]
      range [of 24 "drop_bit 104 ?N"] range [of 32 "drop_bit 128 ?N"] range [of 24 "drop_bit 160 ?N"]
      range [of 24 "drop_bit 184 ?N"] range [of 24 "drop_bit 208 ?N"] range [of 24 "drop_bit 232 ?N"]
      range [of 23 "drop_bit 232 ?N"]
    by (auto simp: limbs_in_def load_intervals_def lies_in_def)
  show ?thesis
    using low top masked limbs assms
    by (cases masked) (simp_all add: fe_load_def load_3_Some load_4_Some fe_val_10 and_23)
qed

lemma fe_load_carries_keep: "list_all (keeps_mod p25519 fe_exp 10) fe_load_carries"
  by code_simp

lemma fe_load_carries_bounds: "analysis_ok INT64 fe_load_carries (load_intervals masked) tight_intervals"
  by (cases masked; simp only:; code_simp)

lemma fe_normal_keeps:
  assumes "limbs_in h (load_intervals masked)"
  shows "succeeds (fe_normal h) (\<lambda>g. fe_tight g \<and> fe_res g = fe_res h)"
proof -
  from limb_steps_correct [OF assms fe_load_carries_bounds, of p25519 fe_exp] obtain g where
    "limb_steps INT64 fe_load_carries h = Some g" "fe_tight g" "fe_val g mod p25519 = fe_val h mod p25519"
    using fe_load_carries_keep by (auto simp: limbs_in_tight fe_val_def)
  then show ?thesis by (simp add: fe_normal_def narrow_tight fe_res_def of_int_residue_eq)
qed

text \<open>The test refuses exactly the numbers from the modulus on.\<close>

lemma fe_not_canonical_iff:
  assumes "length s = 32" "fe_load True s = Some h"
  shows "fe_not_canonical h \<longleftrightarrow> p25519 \<le> take_bit 255 (le_int s)"
proof -
  have len: "length h = 10" and bounds: "limbs_in h (load_intervals True)"
    and val: "fe_val h = take_bit 255 (le_int s)"
    using fe_load_value [OF assms(1), of True] assms(2) by (auto simp: succeeds_def)
  obtain h0 h1 h2 h3 h4 h5 h6 h7 h8 h9 where h: "h = [h0, h1, h2, h3, h4, h5, h6, h7, h8, h9]"
    by (rule list_10 [OF len])
  have b: "0 \<le> h0" "h0 \<le> 4294967295" "h1 \<le> 1073741760" "h2 \<le> 536870880" "h3 \<le> 134217720" "h4 \<le> 67108860"
    "h5 \<le> 4294967295" "h6 \<le> 2147483520" "h7 \<le> 536870880" "h8 \<le> 268435440" "h9 \<le> 33554428"
    using bounds by (simp_all add: h limbs_in_def load_intervals_def lies_in_def)
  show ?thesis
  proof
    assume "fe_not_canonical h"
    then show "p25519 \<le> take_bit 255 (le_int s)"
      unfolding val [symmetric] by (simp add: h fe_not_canonical_def fe_val_10 p25519_def)
  next
    assume "p25519 \<le> take_bit 255 (le_int s)"
    then have large: "57896044618658097711785492504343953926634992332820282019728792003956564819949 \<le>
      h0 + h1 * 2 ^ 26 + h2 * 2 ^ 51 + h3 * 2 ^ 77 + h4 * 2 ^ 102 + h5 * 2 ^ 128 + h6 * 2 ^ 153 + h7 * 2 ^ 179 +
      h8 * 2 ^ 204 + h9 * 2 ^ 230"
      unfolding val [symmetric] by (simp add: h fe_val_10 p25519_def)
    have "33554428 \<le> h9" using large b by simp
    moreover have "268435440 \<le> h8" using large b by simp
    moreover have "536870880 \<le> h7" using large b by simp
    moreover have "2147483520 \<le> h6" using large b by simp
    moreover have "4294967295 \<le> h5" using large b by simp
    moreover have "67108860 \<le> h4" using large b by simp
    moreover have "134217720 \<le> h3" using large b by simp
    moreover have "536870880 \<le> h2" using large b by simp
    moreover have "1073741760 \<le> h1" using large b by simp
    moreover have "4294967277 \<le> h0" using large b by simp
    ultimately show "fe_not_canonical h"
      using b by (simp add: h fe_not_canonical_def)
  qed
qed

end
