(* ===== verification/Point25519.thy ===== *)
theory Point25519
  imports FieldBytes
begin

text \<open>
  The points of the signature curve in \<^verbatim>\<open>base/tools/cryptonote/crypto-ops.c\<close>: the four
  representations, addition and doubling, encoding and decoding, and the recoding of scalars
  into signed digits. A function that writes through a pointer returns what it writes; \<open>None\<close>
  is an overflow of a signed integer or a failed assertion.
\<close>

subsection \<open>Representations\<close>

record ge_p2 =
  X2 :: fe
  Y2 :: fe
  Z2 :: fe

record ge_p3 =
  X3 :: fe
  Y3 :: fe
  Z3 :: fe
  T3 :: fe

record ge_p1p1 =
  X1 :: fe
  Y1 :: fe
  Z1 :: fe
  T1 :: fe

record ge_precomp =
  yplusx :: fe
  yminusx :: fe
  xy2d :: fe

record ge_cached =
  YplusX :: fe
  YminusX :: fe
  Zc :: fe
  T2d :: fe

subsection \<open>Constants\<close>

definition fe_d :: fe where
  "fe_d = [-10913610, 13857413, -15372611, 6949391, 114729, -8787816, -6275908, -3247719, -18696448, -12055116]"

definition fe_sqrtm1 :: fe where
  "fe_sqrtm1 = [-32595792, -7943725, 9377950, 3500415, 12389472, -272473, -25146209, -2005654, 326686, 11406482]"

definition fe_d2 :: fe where
  "fe_d2 = [-21827239, -5839606, -30745221, 13898782, 229458, 15978800, -12551817, -6495438, 29715968, 9444199]"

definition ge_p3_identity :: ge_p3 where
  "ge_p3_identity = \<lparr> X3 = fe_0, Y3 = fe_1, Z3 = fe_1, T3 = fe_0 \<rparr>"

subsection \<open>Conversions\<close>

definition ge_p1p1_to_p2 :: "ge_p1p1 \<Rightarrow> ge_p2 option" where
  "ge_p1p1_to_p2 p = do {
     x \<leftarrow> fe_mul (X1 p) (T1 p);
     y \<leftarrow> fe_mul (Y1 p) (Z1 p);
     z \<leftarrow> fe_mul (Z1 p) (T1 p);
     Some \<lparr> X2 = x, Y2 = y, Z2 = z \<rparr> }"

definition ge_p1p1_to_p3 :: "ge_p1p1 \<Rightarrow> ge_p3 option" where
  "ge_p1p1_to_p3 p = do {
     x \<leftarrow> fe_mul (X1 p) (T1 p);
     y \<leftarrow> fe_mul (Y1 p) (Z1 p);
     z \<leftarrow> fe_mul (Z1 p) (T1 p);
     t \<leftarrow> fe_mul (X1 p) (Y1 p);
     Some \<lparr> X3 = x, Y3 = y, Z3 = z, T3 = t \<rparr> }"

definition ge_p2_0 :: ge_p2 where
  "ge_p2_0 = \<lparr> X2 = fe_0, Y2 = fe_1, Z2 = fe_1 \<rparr>"

definition ge_p3_0 :: ge_p3 where
  "ge_p3_0 = \<lparr> X3 = fe_0, Y3 = fe_1, Z3 = fe_1, T3 = fe_0 \<rparr>"

definition ge_precomp_0 :: ge_precomp where
  "ge_precomp_0 = \<lparr> yplusx = fe_1, yminusx = fe_1, xy2d = fe_0 \<rparr>"

definition ge_cached_0 :: ge_cached where
  "ge_cached_0 = \<lparr> YplusX = fe_1, YminusX = fe_1, Zc = fe_1, T2d = fe_0 \<rparr>"

definition ge_p3_to_p2 :: "ge_p3 \<Rightarrow> ge_p2" where
  "ge_p3_to_p2 p = \<lparr> X2 = fe_copy (X3 p), Y2 = fe_copy (Y3 p), Z2 = fe_copy (Z3 p) \<rparr>"

definition ge_p3_to_cached :: "ge_p3 \<Rightarrow> ge_cached option" where
  "ge_p3_to_cached p = do {
     yp \<leftarrow> fe_add (Y3 p) (X3 p);
     ym \<leftarrow> fe_sub (Y3 p) (X3 p);
     let z = fe_copy (Z3 p);
     t \<leftarrow> fe_mul (T3 p) fe_d2;
     Some \<lparr> YplusX = yp, YminusX = ym, Zc = z, T2d = t \<rparr> }"

subsection \<open>Addition and doubling\<close>

definition ge_add :: "ge_p3 \<Rightarrow> ge_cached \<Rightarrow> ge_p1p1 option" where
  "ge_add p q = do {
     x \<leftarrow> fe_add (Y3 p) (X3 p);
     y \<leftarrow> fe_sub (Y3 p) (X3 p);
     z \<leftarrow> fe_mul x (YplusX q);
     y \<leftarrow> fe_mul y (YminusX q);
     t \<leftarrow> fe_mul (T2d q) (T3 p);
     x \<leftarrow> fe_mul (Z3 p) (Zc q);
     t0 \<leftarrow> fe_add x x;
     x \<leftarrow> fe_sub z y;
     y \<leftarrow> fe_add z y;
     z \<leftarrow> fe_add t0 t;
     t \<leftarrow> fe_sub t0 t;
     Some \<lparr> X1 = x, Y1 = y, Z1 = z, T1 = t \<rparr> }"

definition ge_sub :: "ge_p3 \<Rightarrow> ge_cached \<Rightarrow> ge_p1p1 option" where
  "ge_sub p q = do {
     x \<leftarrow> fe_add (Y3 p) (X3 p);
     y \<leftarrow> fe_sub (Y3 p) (X3 p);
     z \<leftarrow> fe_mul x (YminusX q);
     y \<leftarrow> fe_mul y (YplusX q);
     t \<leftarrow> fe_mul (T2d q) (T3 p);
     x \<leftarrow> fe_mul (Z3 p) (Zc q);
     t0 \<leftarrow> fe_add x x;
     x \<leftarrow> fe_sub z y;
     y \<leftarrow> fe_add z y;
     z \<leftarrow> fe_sub t0 t;
     t \<leftarrow> fe_add t0 t;
     Some \<lparr> X1 = x, Y1 = y, Z1 = z, T1 = t \<rparr> }"

definition ge_madd :: "ge_p3 \<Rightarrow> ge_precomp \<Rightarrow> ge_p1p1 option" where
  "ge_madd p q = do {
     x \<leftarrow> fe_add (Y3 p) (X3 p);
     y \<leftarrow> fe_sub (Y3 p) (X3 p);
     z \<leftarrow> fe_mul x (yplusx q);
     y \<leftarrow> fe_mul y (yminusx q);
     t \<leftarrow> fe_mul (xy2d q) (T3 p);
     t0 \<leftarrow> fe_add (Z3 p) (Z3 p);
     x \<leftarrow> fe_sub z y;
     y \<leftarrow> fe_add z y;
     z \<leftarrow> fe_add t0 t;
     t \<leftarrow> fe_sub t0 t;
     Some \<lparr> X1 = x, Y1 = y, Z1 = z, T1 = t \<rparr> }"

definition ge_msub :: "ge_p3 \<Rightarrow> ge_precomp \<Rightarrow> ge_p1p1 option" where
  "ge_msub p q = do {
     x \<leftarrow> fe_add (Y3 p) (X3 p);
     y \<leftarrow> fe_sub (Y3 p) (X3 p);
     z \<leftarrow> fe_mul x (yminusx q);
     y \<leftarrow> fe_mul y (yplusx q);
     t \<leftarrow> fe_mul (xy2d q) (T3 p);
     t0 \<leftarrow> fe_add (Z3 p) (Z3 p);
     x \<leftarrow> fe_sub z y;
     y \<leftarrow> fe_add z y;
     z \<leftarrow> fe_sub t0 t;
     t \<leftarrow> fe_add t0 t;
     Some \<lparr> X1 = x, Y1 = y, Z1 = z, T1 = t \<rparr> }"

definition ge_p2_dbl :: "ge_p2 \<Rightarrow> ge_p1p1 option" where
  "ge_p2_dbl p = do {
     x \<leftarrow> fe_sq (X2 p);
     z \<leftarrow> fe_sq (Y2 p);
     t \<leftarrow> fe_sq2 (Z2 p);
     y \<leftarrow> fe_add (X2 p) (Y2 p);
     t0 \<leftarrow> fe_sq y;
     y \<leftarrow> fe_add z x;
     z \<leftarrow> fe_sub z x;
     x \<leftarrow> fe_sub t0 y;
     t \<leftarrow> fe_sub t z;
     Some \<lparr> X1 = x, Y1 = y, Z1 = z, T1 = t \<rparr> }"

definition ge_p3_dbl :: "ge_p3 \<Rightarrow> ge_p1p1 option" where
  "ge_p3_dbl p = ge_p2_dbl (ge_p3_to_p2 p)"

definition ge_mul8 :: "ge_p2 \<Rightarrow> ge_p1p1 option" where
  "ge_mul8 t = do {
     r \<leftarrow> ge_p2_dbl t;
     u \<leftarrow> ge_p1p1_to_p2 r;
     r \<leftarrow> ge_p2_dbl u;
     u \<leftarrow> ge_p1p1_to_p2 r;
     ge_p2_dbl u }"

subsection \<open>Encoding and decoding\<close>

text \<open>The bytes of \<open>y\<close> with the sign of \<open>x\<close> in the top bit.\<close>

definition encode_point :: "fe \<Rightarrow> fe \<Rightarrow> fe \<Rightarrow> bytes option" where
  "encode_point x y z = do {
     recip \<leftarrow> fe_invert z;
     x \<leftarrow> fe_mul x recip;
     y \<leftarrow> fe_mul y recip;
     s \<leftarrow> fe_tobytes y;
     n \<leftarrow> fe_isnegative x;
     Some (s[31 := s ! 31 XOR word_of_int (push_bit 7 n)]) }"

definition ge_p3_tobytes :: "ge_p3 \<Rightarrow> bytes option" where
  "ge_p3_tobytes h = encode_point (X3 h) (Y3 h) (Z3 h)"

definition ge_tobytes :: "ge_p2 \<Rightarrow> bytes option" where
  "ge_tobytes h = encode_point (X2 h) (Y2 h) (Z2 h)"

text \<open>
  A square root of \<open>u / v\<close>, if there is one: the candidate or its product with \<open>\<surd>-1\<close>. The outer
  option is an overflow, the inner one the return value -1.
\<close>

definition fe_root :: "fe \<Rightarrow> fe \<Rightarrow> fe option option" where
  "fe_root u v = do {
     x \<leftarrow> fe_divpowm1 u v;
     vxx \<leftarrow> fe_sq x;
     vxx \<leftarrow> fe_mul vxx v;
     check \<leftarrow> fe_sub vxx u;
     nz \<leftarrow> fe_isnonzero check;
     if nz = 0 then Some (Some x)
     else do {
       check \<leftarrow> fe_add vxx u;
       nz \<leftarrow> fe_isnonzero check;
       if nz \<noteq> 0 then Some None
       else do { x \<leftarrow> fe_mul x fe_sqrtm1; Some (Some x) } } }"

text \<open>The root with the wanted parity; zero has no negative.\<close>

definition fe_with_sign :: "fe \<Rightarrow> int \<Rightarrow> fe option option" where
  "fe_with_sign x sign = do {
     n \<leftarrow> fe_isnegative x;
     if n = sign then Some (Some x)
     else do {
       nz \<leftarrow> fe_isnonzero x;
       if nz = 0 then Some None
       else do { x \<leftarrow> fe_neg x; Some (Some x) } } }"

definition ge_frombytes_vartime :: "bytes \<Rightarrow> ge_p3 option option" where
  "ge_frombytes_vartime s = do {
     h \<leftarrow> fe_load True s;
     if fe_not_canonical h then Some None
     else do {
       y \<leftarrow> fe_normal h;
       let z = fe_1;
       u \<leftarrow> fe_sq y;
       v \<leftarrow> fe_mul u fe_d;
       u \<leftarrow> fe_sub u z;
       v \<leftarrow> fe_add v z;
       root \<leftarrow> fe_root u v;
       case root of None \<Rightarrow> Some None
       | Some x \<Rightarrow> do {
           top \<leftarrow> rd s 31;
           signed \<leftarrow> fe_with_sign x (uint (drop_bit 7 top));
           case signed of None \<Rightarrow> Some None
           | Some x \<Rightarrow> do {
               t \<leftarrow> fe_mul x y;
               Some (Some \<lparr> X3 = x, Y3 = y, Z3 = z, T3 = t \<rparr>) } } } }"

text \<open>\<open>X\<close> and \<open>T\<close> zero and \<open>Y = Z\<close>, limb by limb.\<close>

definition ge_p3_is_point_at_infinity :: "ge_p3 \<Rightarrow> int" where
  "ge_p3_is_point_at_infinity p =
     (if list_all (\<lambda>n. X3 p ! n OR T3 p ! n = 0 \<and> Y3 p ! n = Z3 p ! n) [0 ..< 10] then 1 else 0)"

end
