(* ===== verification/Octal.thy ===== *)
theory Octal
  imports Main
begin

text \<open>
  Arithmetic on large numbers in the kernel. A number is written with octal digits, least significant digit
  first; sums and products are computed digit by digit, by equations for every pair of digits. The
  library's binary numerals are turned into this form three bits at a time. Nothing here is about the
  program; the theories that check its tables and the primality of its modulus evaluate large products.
\<close>

subsection \<open>Digits\<close>

datatype octal = Oz | O0 octal | O1 octal | O2 octal | O3 octal | O4 octal | O5 octal | O6 octal | O7 octal

primrec val :: "octal \<Rightarrow> int" where
  "val Oz = 0"
| "val (O0 n) = 8 * val n"
| "val (O1 n) = 8 * val n + 1"
| "val (O2 n) = 8 * val n + 2"
| "val (O3 n) = 8 * val n + 3"
| "val (O4 n) = 8 * val n + 4"
| "val (O5 n) = 8 * val n + 5"
| "val (O6 n) = 8 * val n + 6"
| "val (O7 n) = 8 * val n + 7"

primrec lsd :: "octal \<Rightarrow> nat" where
  "lsd Oz = 0"
| "lsd (O0 n) = 0"
| "lsd (O1 n) = 1"
| "lsd (O2 n) = 2"
| "lsd (O3 n) = 3"
| "lsd (O4 n) = 4"
| "lsd (O5 n) = 5"
| "lsd (O6 n) = 6"
| "lsd (O7 n) = 7"

primrec rest :: "octal \<Rightarrow> octal" where
  "rest Oz = Oz"
| "rest (O0 n) = n"
| "rest (O1 n) = n"
| "rest (O2 n) = n"
| "rest (O3 n) = n"
| "rest (O4 n) = n"
| "rest (O5 n) = n"
| "rest (O6 n) = n"
| "rest (O7 n) = n"

definition digit :: "nat \<Rightarrow> octal \<Rightarrow> octal" where
  "digit d n = (if d = 0 then O0 n else if d = 1 then O1 n else if d = 2 then O2 n else if d = 3 then O3 n
     else if d = 4 then O4 n else if d = 5 then O5 n else if d = 6 then O6 n else O7 n)"

lemma val_digit: "d < 8 \<Longrightarrow> val (digit d n) = 8 * val n + int d"
  by (auto simp: digit_def)

lemma val_split: "val n = 8 * val (rest n) + int (lsd n)"
  by (cases n) simp_all

lemma lsd_less: "lsd n < 8"
  by (cases n) simp_all

lemma rest_size: "n \<noteq> Oz \<Longrightarrow> size (rest n) < size n"
  by (cases n) simp_all

lemma val_nonneg: "0 \<le> val n"
  by (induction n) simp_all

subsection \<open>Sums\<close>

function add :: "nat \<Rightarrow> octal \<Rightarrow> octal \<Rightarrow> octal" where
  "add c m n =
     (if m = Oz \<and> n = Oz then if c = 0 then Oz else O1 Oz
      else let s = lsd m + lsd n + c in
        digit (if s < 8 then s else s - 8) (add (if s < 8 then 0 else 1) (rest m) (rest n)))"
  by pat_completeness auto
termination
proof (relation "measure (\<lambda>(c, m, n). size m + size n)")
  show "((if s < 8 then 0 else 1, rest m, rest n), c, m, n) \<in> measure (\<lambda>(c, m, n). size m + size n)"
    if "\<not> (m = Oz \<and> n = Oz)" for m n s c
    using that rest_size [of m] rest_size [of n] by (cases "m = Oz"; cases "n = Oz") simp_all
qed simp

declare add.simps [simp del]

lemma val_add: "c < 2 \<Longrightarrow> val (add c m n) = val m + val n + int c"
proof (induction c m n rule: add.induct)
  case (1 c m n)
  show ?case
  proof (cases "m = Oz \<and> n = Oz")
    case True
    then show ?thesis using 1(2) by (subst add.simps) auto
  next
    case False
    obtain d k :: nat where dk: "(lsd m + lsd n + c < 8 \<and> d = lsd m + lsd n + c \<and> k = 0) \<or>
        (\<not> lsd m + lsd n + c < 8 \<and> d = lsd m + lsd n + c - 8 \<and> k = 1)" by metis
    have sum: "d < 8" "int d + 8 * int k = int (lsd m) + int (lsd n) + int c" "k < 2"
      using dk lsd_less [of m] lsd_less [of n] 1(2) by auto
    have "add c m n = digit d (add k (rest m) (rest n))"
      using False dk by (subst add.simps) (auto simp: Let_def)
    moreover have "val (add k (rest m) (rest n)) = val (rest m) + val (rest n) + int k"
      using 1(1) [OF False refl] dk by auto
    ultimately have "val (add c m n) = 8 * (val (rest m) + val (rest n) + int k) + int d"
      using sum(1) by (simp add: val_digit)
    then show ?thesis using val_split [of m] val_split [of n] sum(2) by (simp add: algebra_simps)
  qed
qed

text \<open>The equations that are used for evaluation: one for each pair of digits and each carry.\<close>

lemma add_0_digits:
  "add 0 (O0 m) (O0 n) = O0 (add 0 m n)" "add 0 (O0 m) (O1 n) = O1 (add 0 m n)" "add 0 (O0 m) (O2 n) = O2 (add 0 m n)" "add 0 (O0 m) (O3 n) = O3 (add 0 m n)"
  "add 0 (O0 m) (O4 n) = O4 (add 0 m n)" "add 0 (O0 m) (O5 n) = O5 (add 0 m n)" "add 0 (O0 m) (O6 n) = O6 (add 0 m n)" "add 0 (O0 m) (O7 n) = O7 (add 0 m n)"
  "add 0 (O1 m) (O0 n) = O1 (add 0 m n)" "add 0 (O1 m) (O1 n) = O2 (add 0 m n)" "add 0 (O1 m) (O2 n) = O3 (add 0 m n)" "add 0 (O1 m) (O3 n) = O4 (add 0 m n)"
  "add 0 (O1 m) (O4 n) = O5 (add 0 m n)" "add 0 (O1 m) (O5 n) = O6 (add 0 m n)" "add 0 (O1 m) (O6 n) = O7 (add 0 m n)" "add 0 (O1 m) (O7 n) = O0 (add 1 m n)"
  "add 0 (O2 m) (O0 n) = O2 (add 0 m n)" "add 0 (O2 m) (O1 n) = O3 (add 0 m n)" "add 0 (O2 m) (O2 n) = O4 (add 0 m n)" "add 0 (O2 m) (O3 n) = O5 (add 0 m n)"
  "add 0 (O2 m) (O4 n) = O6 (add 0 m n)" "add 0 (O2 m) (O5 n) = O7 (add 0 m n)" "add 0 (O2 m) (O6 n) = O0 (add 1 m n)" "add 0 (O2 m) (O7 n) = O1 (add 1 m n)"
  "add 0 (O3 m) (O0 n) = O3 (add 0 m n)" "add 0 (O3 m) (O1 n) = O4 (add 0 m n)" "add 0 (O3 m) (O2 n) = O5 (add 0 m n)" "add 0 (O3 m) (O3 n) = O6 (add 0 m n)"
  "add 0 (O3 m) (O4 n) = O7 (add 0 m n)" "add 0 (O3 m) (O5 n) = O0 (add 1 m n)" "add 0 (O3 m) (O6 n) = O1 (add 1 m n)" "add 0 (O3 m) (O7 n) = O2 (add 1 m n)"
  "add 0 (O4 m) (O0 n) = O4 (add 0 m n)" "add 0 (O4 m) (O1 n) = O5 (add 0 m n)" "add 0 (O4 m) (O2 n) = O6 (add 0 m n)" "add 0 (O4 m) (O3 n) = O7 (add 0 m n)"
  "add 0 (O4 m) (O4 n) = O0 (add 1 m n)" "add 0 (O4 m) (O5 n) = O1 (add 1 m n)" "add 0 (O4 m) (O6 n) = O2 (add 1 m n)" "add 0 (O4 m) (O7 n) = O3 (add 1 m n)"
  "add 0 (O5 m) (O0 n) = O5 (add 0 m n)" "add 0 (O5 m) (O1 n) = O6 (add 0 m n)" "add 0 (O5 m) (O2 n) = O7 (add 0 m n)" "add 0 (O5 m) (O3 n) = O0 (add 1 m n)"
  "add 0 (O5 m) (O4 n) = O1 (add 1 m n)" "add 0 (O5 m) (O5 n) = O2 (add 1 m n)" "add 0 (O5 m) (O6 n) = O3 (add 1 m n)" "add 0 (O5 m) (O7 n) = O4 (add 1 m n)"
  "add 0 (O6 m) (O0 n) = O6 (add 0 m n)" "add 0 (O6 m) (O1 n) = O7 (add 0 m n)" "add 0 (O6 m) (O2 n) = O0 (add 1 m n)" "add 0 (O6 m) (O3 n) = O1 (add 1 m n)"
  "add 0 (O6 m) (O4 n) = O2 (add 1 m n)" "add 0 (O6 m) (O5 n) = O3 (add 1 m n)" "add 0 (O6 m) (O6 n) = O4 (add 1 m n)" "add 0 (O6 m) (O7 n) = O5 (add 1 m n)"
  "add 0 (O7 m) (O0 n) = O7 (add 0 m n)" "add 0 (O7 m) (O1 n) = O0 (add 1 m n)" "add 0 (O7 m) (O2 n) = O1 (add 1 m n)" "add 0 (O7 m) (O3 n) = O2 (add 1 m n)"
  "add 0 (O7 m) (O4 n) = O3 (add 1 m n)" "add 0 (O7 m) (O5 n) = O4 (add 1 m n)" "add 0 (O7 m) (O6 n) = O5 (add 1 m n)" "add 0 (O7 m) (O7 n) = O6 (add 1 m n)"
  by (subst add.simps, simp add: digit_def)+

lemma add_1_digits:
  "add 1 (O0 m) (O0 n) = O1 (add 0 m n)" "add 1 (O0 m) (O1 n) = O2 (add 0 m n)" "add 1 (O0 m) (O2 n) = O3 (add 0 m n)" "add 1 (O0 m) (O3 n) = O4 (add 0 m n)"
  "add 1 (O0 m) (O4 n) = O5 (add 0 m n)" "add 1 (O0 m) (O5 n) = O6 (add 0 m n)" "add 1 (O0 m) (O6 n) = O7 (add 0 m n)" "add 1 (O0 m) (O7 n) = O0 (add 1 m n)"
  "add 1 (O1 m) (O0 n) = O2 (add 0 m n)" "add 1 (O1 m) (O1 n) = O3 (add 0 m n)" "add 1 (O1 m) (O2 n) = O4 (add 0 m n)" "add 1 (O1 m) (O3 n) = O5 (add 0 m n)"
  "add 1 (O1 m) (O4 n) = O6 (add 0 m n)" "add 1 (O1 m) (O5 n) = O7 (add 0 m n)" "add 1 (O1 m) (O6 n) = O0 (add 1 m n)" "add 1 (O1 m) (O7 n) = O1 (add 1 m n)"
  "add 1 (O2 m) (O0 n) = O3 (add 0 m n)" "add 1 (O2 m) (O1 n) = O4 (add 0 m n)" "add 1 (O2 m) (O2 n) = O5 (add 0 m n)" "add 1 (O2 m) (O3 n) = O6 (add 0 m n)"
  "add 1 (O2 m) (O4 n) = O7 (add 0 m n)" "add 1 (O2 m) (O5 n) = O0 (add 1 m n)" "add 1 (O2 m) (O6 n) = O1 (add 1 m n)" "add 1 (O2 m) (O7 n) = O2 (add 1 m n)"
  "add 1 (O3 m) (O0 n) = O4 (add 0 m n)" "add 1 (O3 m) (O1 n) = O5 (add 0 m n)" "add 1 (O3 m) (O2 n) = O6 (add 0 m n)" "add 1 (O3 m) (O3 n) = O7 (add 0 m n)"
  "add 1 (O3 m) (O4 n) = O0 (add 1 m n)" "add 1 (O3 m) (O5 n) = O1 (add 1 m n)" "add 1 (O3 m) (O6 n) = O2 (add 1 m n)" "add 1 (O3 m) (O7 n) = O3 (add 1 m n)"
  "add 1 (O4 m) (O0 n) = O5 (add 0 m n)" "add 1 (O4 m) (O1 n) = O6 (add 0 m n)" "add 1 (O4 m) (O2 n) = O7 (add 0 m n)" "add 1 (O4 m) (O3 n) = O0 (add 1 m n)"
  "add 1 (O4 m) (O4 n) = O1 (add 1 m n)" "add 1 (O4 m) (O5 n) = O2 (add 1 m n)" "add 1 (O4 m) (O6 n) = O3 (add 1 m n)" "add 1 (O4 m) (O7 n) = O4 (add 1 m n)"
  "add 1 (O5 m) (O0 n) = O6 (add 0 m n)" "add 1 (O5 m) (O1 n) = O7 (add 0 m n)" "add 1 (O5 m) (O2 n) = O0 (add 1 m n)" "add 1 (O5 m) (O3 n) = O1 (add 1 m n)"
  "add 1 (O5 m) (O4 n) = O2 (add 1 m n)" "add 1 (O5 m) (O5 n) = O3 (add 1 m n)" "add 1 (O5 m) (O6 n) = O4 (add 1 m n)" "add 1 (O5 m) (O7 n) = O5 (add 1 m n)"
  "add 1 (O6 m) (O0 n) = O7 (add 0 m n)" "add 1 (O6 m) (O1 n) = O0 (add 1 m n)" "add 1 (O6 m) (O2 n) = O1 (add 1 m n)" "add 1 (O6 m) (O3 n) = O2 (add 1 m n)"
  "add 1 (O6 m) (O4 n) = O3 (add 1 m n)" "add 1 (O6 m) (O5 n) = O4 (add 1 m n)" "add 1 (O6 m) (O6 n) = O5 (add 1 m n)" "add 1 (O6 m) (O7 n) = O6 (add 1 m n)"
  "add 1 (O7 m) (O0 n) = O0 (add 1 m n)" "add 1 (O7 m) (O1 n) = O1 (add 1 m n)" "add 1 (O7 m) (O2 n) = O2 (add 1 m n)" "add 1 (O7 m) (O3 n) = O3 (add 1 m n)"
  "add 1 (O7 m) (O4 n) = O4 (add 1 m n)" "add 1 (O7 m) (O5 n) = O5 (add 1 m n)" "add 1 (O7 m) (O6 n) = O6 (add 1 m n)" "add 1 (O7 m) (O7 n) = O7 (add 1 m n)"
  by (subst add.simps, simp add: digit_def)+

lemma add_0_end: "add 0 Oz n = n" "add 0 n Oz = n"
proof -
  show "add 0 Oz n = n" by (induction n) (subst add.simps, simp add: digit_def)+
  show "add 0 n Oz = n" by (induction n) (subst add.simps, simp add: digit_def)+
qed

lemma add_1_end:
  "add 1 Oz Oz = O1 Oz"
  "add 1 Oz (O0 n) = O1 n" "add 1 (O0 n) Oz = O1 n"
  "add 1 Oz (O1 n) = O2 n" "add 1 (O1 n) Oz = O2 n"
  "add 1 Oz (O2 n) = O3 n" "add 1 (O2 n) Oz = O3 n"
  "add 1 Oz (O3 n) = O4 n" "add 1 (O3 n) Oz = O4 n"
  "add 1 Oz (O4 n) = O5 n" "add 1 (O4 n) Oz = O5 n"
  "add 1 Oz (O5 n) = O6 n" "add 1 (O5 n) Oz = O6 n"
  "add 1 Oz (O6 n) = O7 n" "add 1 (O6 n) Oz = O7 n"
  "add 1 Oz (O7 n) = O0 (add 1 Oz n)" "add 1 (O7 n) Oz = O0 (add 1 n Oz)"
  by (subst add.simps, simp add: digit_def add_0_end)+

lemmas add_digits = add_0_digits add_1_digits add_0_end add_1_end

subsection \<open>Products\<close>

text \<open>One factor comes with its multiples up to the seventh, which are computed once.\<close>

primrec times_digits :: "octal \<Rightarrow> octal \<Rightarrow> octal \<Rightarrow> octal \<Rightarrow> octal \<Rightarrow> octal \<Rightarrow> octal \<Rightarrow> octal \<Rightarrow> octal" where
  "times_digits Oz a1 a2 a3 a4 a5 a6 a7 = Oz"
| "times_digits (O0 n) a1 a2 a3 a4 a5 a6 a7 = O0 (times_digits n a1 a2 a3 a4 a5 a6 a7)"
| "times_digits (O1 n) a1 a2 a3 a4 a5 a6 a7 = add 0 a1 (O0 (times_digits n a1 a2 a3 a4 a5 a6 a7))"
| "times_digits (O2 n) a1 a2 a3 a4 a5 a6 a7 = add 0 a2 (O0 (times_digits n a1 a2 a3 a4 a5 a6 a7))"
| "times_digits (O3 n) a1 a2 a3 a4 a5 a6 a7 = add 0 a3 (O0 (times_digits n a1 a2 a3 a4 a5 a6 a7))"
| "times_digits (O4 n) a1 a2 a3 a4 a5 a6 a7 = add 0 a4 (O0 (times_digits n a1 a2 a3 a4 a5 a6 a7))"
| "times_digits (O5 n) a1 a2 a3 a4 a5 a6 a7 = add 0 a5 (O0 (times_digits n a1 a2 a3 a4 a5 a6 a7))"
| "times_digits (O6 n) a1 a2 a3 a4 a5 a6 a7 = add 0 a6 (O0 (times_digits n a1 a2 a3 a4 a5 a6 a7))"
| "times_digits (O7 n) a1 a2 a3 a4 a5 a6 a7 = add 0 a7 (O0 (times_digits n a1 a2 a3 a4 a5 a6 a7))"

definition times_4 :: "octal \<Rightarrow> octal \<Rightarrow> octal \<Rightarrow> octal \<Rightarrow> octal \<Rightarrow> octal" where
  "times_4 n a1 a2 a3 a4 = times_digits n a1 a2 a3 a4 (add 0 a2 a3) (add 0 a3 a3) (add 0 a3 a4)"

definition times_2 :: "octal \<Rightarrow> octal \<Rightarrow> octal \<Rightarrow> octal" where
  "times_2 n a1 a2 = times_4 n a1 a2 (add 0 a1 a2) (add 0 a2 a2)"

definition times :: "octal \<Rightarrow> octal \<Rightarrow> octal" where
  "times a n = times_2 n a (add 0 a a)"

lemma val_times_digits:
  "val a2 = 2 * val a1 \<Longrightarrow> val a3 = 3 * val a1 \<Longrightarrow> val a4 = 4 * val a1 \<Longrightarrow> val a5 = 5 * val a1 \<Longrightarrow>
   val a6 = 6 * val a1 \<Longrightarrow> val a7 = 7 * val a1 \<Longrightarrow> val (times_digits n a1 a2 a3 a4 a5 a6 a7) = val a1 * val n"
  by (induction n) (simp_all add: val_add algebra_simps)

lemma val_times: "val (times a n) = val a * val n"
  unfolding times_def times_2_def times_4_def by (rule val_times_digits) (simp_all add: val_add)

lemmas times_rules = times_digits.simps times_4_def times_2_def times_def

subsection \<open>Cutting at a length\<close>

primrec low :: "nat \<Rightarrow> octal \<Rightarrow> octal" where
  "low 0 n = Oz"
| "low (Suc k) n = digit (lsd n) (low k (rest n))"

primrec high :: "nat \<Rightarrow> octal \<Rightarrow> octal" where
  "high 0 n = n"
| "high (Suc k) n = high k (rest n)"

text \<open>The complement of the lower digits.\<close>

primrec complement :: "nat \<Rightarrow> octal \<Rightarrow> octal" where
  "complement 0 n = Oz"
| "complement (Suc k) n = digit (7 - lsd n) (complement k (rest n))"

lemma val_low_high: "val n = val (low k n) + 8 ^ k * val (high k n)"
proof (induction k arbitrary: n)
  case (Suc k)
  have "val n = 8 * val (rest n) + int (lsd n)" by (rule val_split)
  then show ?case using Suc.IH [of "rest n"] by (simp add: val_digit lsd_less algebra_simps)
qed simp

lemma val_complement: "val (complement k n) = 8 ^ k - 1 - val (low k n)"
proof (induction k arbitrary: n)
  case (Suc k)
  have "8 * val (complement k (rest n)) = 8 * (8 ^ k - 1 - val (low k (rest n)))" by (simp only: Suc.IH)
  then show ?case using lsd_less [of n] by (simp add: val_digit algebra_simps of_nat_diff)
qed simp

lemma low_digits:
  "low 0 n = Oz" "low (Suc k) Oz = O0 (low k Oz)"

  "low (Suc k) (O0 n) = O0 (low k n)"
  "low (Suc k) (O1 n) = O1 (low k n)"
  "low (Suc k) (O2 n) = O2 (low k n)"
  "low (Suc k) (O3 n) = O3 (low k n)"
  "low (Suc k) (O4 n) = O4 (low k n)"
  "low (Suc k) (O5 n) = O5 (low k n)"
  "low (Suc k) (O6 n) = O6 (low k n)"
  "low (Suc k) (O7 n) = O7 (low k n)"
  by (simp_all add: digit_def)

lemma high_Oz: "high k Oz = Oz"
  by (induction k) simp_all

lemma high_digits:
  "high 0 n = n" "high k Oz = Oz"

  "high (Suc k) (O0 n) = high k n"
  "high (Suc k) (O1 n) = high k n"
  "high (Suc k) (O2 n) = high k n"
  "high (Suc k) (O3 n) = high k n"
  "high (Suc k) (O4 n) = high k n"
  "high (Suc k) (O5 n) = high k n"
  "high (Suc k) (O6 n) = high k n"
  "high (Suc k) (O7 n) = high k n"
  by (simp_all add: high_Oz)

lemma complement_digits:
  "complement 0 n = Oz" "complement (Suc k) Oz = O7 (complement k Oz)"

  "complement (Suc k) (O0 n) = O7 (complement k n)"
  "complement (Suc k) (O1 n) = O6 (complement k n)"
  "complement (Suc k) (O2 n) = O5 (complement k n)"
  "complement (Suc k) (O3 n) = O4 (complement k n)"
  "complement (Suc k) (O4 n) = O3 (complement k n)"
  "complement (Suc k) (O5 n) = O2 (complement k n)"
  "complement (Suc k) (O6 n) = O1 (complement k n)"
  "complement (Suc k) (O7 n) = O0 (complement k n)"
  by (simp_all add: digit_def)

subsection \<open>Literals\<close>

fun of_num :: "num \<Rightarrow> octal" where
  "of_num Num.One = O1 Oz"
| "of_num (Num.Bit0 Num.One) = O2 Oz"
| "of_num (Num.Bit1 Num.One) = O3 Oz"
| "of_num (Num.Bit0 (Num.Bit0 Num.One)) = O4 Oz"
| "of_num (Num.Bit1 (Num.Bit0 Num.One)) = O5 Oz"
| "of_num (Num.Bit0 (Num.Bit1 Num.One)) = O6 Oz"
| "of_num (Num.Bit1 (Num.Bit1 Num.One)) = O7 Oz"
| "of_num (Num.Bit0 (Num.Bit0 (Num.Bit0 n))) = O0 (of_num n)"
| "of_num (Num.Bit1 (Num.Bit0 (Num.Bit0 n))) = O1 (of_num n)"
| "of_num (Num.Bit0 (Num.Bit1 (Num.Bit0 n))) = O2 (of_num n)"
| "of_num (Num.Bit1 (Num.Bit1 (Num.Bit0 n))) = O3 (of_num n)"
| "of_num (Num.Bit0 (Num.Bit0 (Num.Bit1 n))) = O4 (of_num n)"
| "of_num (Num.Bit1 (Num.Bit0 (Num.Bit1 n))) = O5 (of_num n)"
| "of_num (Num.Bit0 (Num.Bit1 (Num.Bit1 n))) = O6 (of_num n)"
| "of_num (Num.Bit1 (Num.Bit1 (Num.Bit1 n))) = O7 (of_num n)"

lemma val_of_num: "val (of_num n) = numeral n"
proof -
  note bits = numeral_Bit0 numeral_Bit1 numeral_One
  show ?thesis
  proof (induction n rule: of_num.induct)
    case (8 n)
    then show ?case by (simp only: of_num.simps val.simps bits distrib_right mult_1_left, linarith?)
  next
    case (9 n)
    then show ?case by (simp only: of_num.simps val.simps bits distrib_right mult_1_left, linarith?)
  next
    case (10 n)
    then show ?case by (simp only: of_num.simps val.simps bits distrib_right mult_1_left, linarith?)
  next
    case (11 n)
    then show ?case by (simp only: of_num.simps val.simps bits distrib_right mult_1_left, linarith?)
  next
    case (12 n)
    then show ?case by (simp only: of_num.simps val.simps bits distrib_right mult_1_left, linarith?)
  next
    case (13 n)
    then show ?case by (simp only: of_num.simps val.simps bits distrib_right mult_1_left, linarith?)
  next
    case (14 n)
    then show ?case by (simp only: of_num.simps val.simps bits distrib_right mult_1_left, linarith?)
  next
    case (15 n)
    then show ?case by (simp only: of_num.simps val.simps bits distrib_right mult_1_left, linarith?)
  qed simp_all
qed

text \<open>Equality of values.\<close>

definition same :: "octal \<Rightarrow> octal \<Rightarrow> bool" where
  "same m n \<longleftrightarrow> val m = val n"

lemma same_digits:
  "same Oz Oz" "same (O0 m) Oz \<longleftrightarrow> same m Oz" "same Oz (O0 m) \<longleftrightarrow> same Oz m" "same (O0 m) (O0 n) \<longleftrightarrow> same m n"
  "same (O1 m) (O1 n) \<longleftrightarrow> same m n" "same (O2 m) (O2 n) \<longleftrightarrow> same m n" "same (O3 m) (O3 n) \<longleftrightarrow> same m n" "same (O4 m) (O4 n) \<longleftrightarrow> same m n"
  "same (O5 m) (O5 n) \<longleftrightarrow> same m n" "same (O6 m) (O6 n) \<longleftrightarrow> same m n" "same (O7 m) (O7 n) \<longleftrightarrow> same m n"
  by (simp_all add: same_def)


lemmas octal_eval = add_digits times_rules same_digits of_num.simps

lemmas cut_digits = low_digits high_digits complement_digits

text \<open>Equations between natural expressions of integers are evaluated by these rules.\<close>

lemma numeral_val: "numeral n = val (of_num n)"
  by (simp only: val_of_num)

lemma one_val: "1 = val (O1 Oz)" and zero_val: "0 = val Oz"
  by simp_all

lemma val_arith: "val m + val n = val (add 0 m n)" "val m * val n = val (times m n)" "(val m = val n) = same m n"
  by (simp_all add: val_add val_times same_def)

lemmas octal_int = numeral_val one_val zero_val val_arith octal_eval

end
