(* ===== verification/Primality.thy ===== *)
theory Primality
  imports Octal Complex_Main
begin

text \<open>
  Primality of large numbers by Pocklington's criterion: if \<open>n - 1\<close> has prime factors whose product exceeds
  the square root of \<open>n\<close>, and a power of some \<open>a\<close> shows that each of them divides \<open>r - 1\<close> for every
  prime divisor \<open>r\<close> of \<open>n\<close>, then \<open>n\<close> is prime. The powers are computed by squarings whose quotients and
  remainders are listed.
\<close>

subsection \<open>Prime numbers\<close>

definition is_prime :: "int \<Rightarrow> bool" where
  "is_prime p \<longleftrightarrow> 1 < p \<and> (\<forall>d. 0 < d \<longrightarrow> d dvd p \<longrightarrow> d = 1 \<or> d = p)"

lemma is_prime_coprime:
  assumes "is_prime p" "\<not> p dvd a"
  shows "coprime p a"
proof -
  have "gcd p a = 1 \<or> gcd p a = p" using assms(1) by (auto simp: is_prime_def)
  then show ?thesis using assms(2) by (metis coprime_iff_gcd_eq_1 gcd_dvd2)
qed

lemma is_prime_dvd_mult: "is_prime p \<Longrightarrow> p dvd a * b \<Longrightarrow> p dvd a \<or> p dvd b"
  using is_prime_coprime coprime_dvd_mult_right_iff by blast

lemma is_prime_dvd_power: "is_prime p \<Longrightarrow> p dvd a ^ n \<Longrightarrow> p dvd a"
proof (induction n)
  case 0
  then show ?case by (auto simp: is_prime_def dest: zdvd_imp_le)
next
  case (Suc n)
  then show ?case using is_prime_dvd_mult [of p a "a ^ n"] by auto
qed

lemma prime_divisor:
  assumes "1 < (n :: int)"
  shows "\<exists>p. is_prime p \<and> p dvd n"
proof -
  have "\<exists>p. is_prime p \<and> p dvd int k" if "1 < k" for k :: nat
    using that
  proof (induction k rule: less_induct)
    case (less k)
    show ?case
    proof (cases "is_prime (int k)")
      case False
      then obtain d where d: "0 < d" "d dvd int k" "d \<noteq> 1" "d \<noteq> int k"
        using less.prems by (auto simp: is_prime_def)
      then have "d \<le> int k" using less.prems by (intro zdvd_imp_le) simp_all
      then have "nat d < k" "1 < nat d" using d by simp_all
      then obtain p where "is_prime p" "p dvd int (nat d)" using less.IH [of "nat d"] by blast
      then show ?thesis using d dvd_trans by (metis int_nat_eq less_le)
    next
      case True
      then show ?thesis by (intro exI [of _ "int k"]) simp
    qed
  qed
  from this [of "nat n"] assms show ?thesis by simp
qed

text \<open>A number is prime when no prime divisor is as small as its square root.\<close>

lemma is_prime_by_divisors:
  assumes "1 < n" "\<And>r. is_prime r \<Longrightarrow> r dvd n \<Longrightarrow> n < r * r"
  shows "is_prime n"
proof -
  have "d = 1 \<or> d = n" if d: "0 < d" "d dvd n" for d
  proof (rule ccontr)
    assume ne: "\<not> (d = 1 \<or> d = n)"
    obtain e where e: "n = d * e" using d(2) by (elim dvdE)
    have "0 < e" using e d(1) assms(1) zero_less_mult_pos [of d e] by simp
    then have gt: "1 < d" "1 < e" using ne d(1) e by auto
    obtain p q where pq: "is_prime p" "p dvd d" "is_prime q" "q dvd e" using prime_divisor gt by blast
    then have "n < p * p" "n < q * q" using assms(2) e by auto
    moreover have "p \<le> d" "q \<le> e" "0 < p" "0 < q" using pq gt by (auto simp: is_prime_def intro: zdvd_imp_le)
    ultimately have "d * e < d * p" "d * e < q * e"
      using e by (metis mult_le_mono1 mult_right_mono mult_left_mono less_le_trans order_less_imp_le mult.commute)+
    then have "e < p" "d < q" using gt by simp_all
    then show False using \<open>p \<le> d\<close> \<open>q \<le> e\<close> by simp
  qed
  then show ?thesis using assms(1) by (simp add: is_prime_def)
qed

subsection \<open>Fermat's theorem\<close>

lemma prime_dvd_choose:
  assumes "is_prime (int p)" "0 < k" "k < p"
  shows "int p dvd int (p choose k)"
proof -
  have "int k * int (p choose k) = int p * int ((p - 1) choose (k - 1))"
    using times_binomial_minus1_eq [OF assms(2), of p] by (simp flip: of_nat_mult)
  then have "int p dvd int k * int (p choose k)" by simp
  then have "int p dvd int k \<or> int p dvd int (p choose k)" by (rule is_prime_dvd_mult [OF assms(1)])
  moreover have "\<not> int p dvd int k" using assms(2,3) by (auto dest: zdvd_imp_le)
  ultimately show ?thesis by blast
qed

lemma fermat_nat:
  assumes "is_prime (int p)"
  shows "int p dvd int a ^ p - int a"
proof (induction a)
  case 0
  have "0 < p" using assms by (cases p) (auto simp: is_prime_def)
  then show ?case by (simp add: zero_power)
next
  case (Suc a)
  have p: "0 < p" using assms by (cases p) (auto simp: is_prime_def)
  have "(int a + 1) ^ p = (\<Sum>k\<le>p. int (p choose k) * int a ^ k)"
    using binomial_ring [of "int a" 1 p] by simp
  also have "{..p} = insert 0 (insert p {0<..<p})" by auto
  also have "(\<Sum>k\<in>insert 0 (insert p {0<..<p}). int (p choose k) * int a ^ k) =
      1 + int a ^ p + (\<Sum>k\<in>{0<..<p}. int (p choose k) * int a ^ k)"
    using p by simp
  finally have "(int a + 1) ^ p = 1 + int a ^ p + (\<Sum>k\<in>{0<..<p}. int (p choose k) * int a ^ k)" .
  then have "int (Suc a) ^ p - int (Suc a) =
      (int a ^ p - int a) + (\<Sum>k\<in>{0<..<p}. int (p choose k) * int a ^ k)"
    by (simp add: add.commute [of 1])
  moreover have "int p dvd (\<Sum>k\<in>{0<..<p}. int (p choose k) * int a ^ k)"
    by (intro dvd_sum dvd_mult2 prime_dvd_choose [OF assms]) auto
  ultimately show ?case using Suc dvd_add by metis
qed

lemma fermat:
  assumes "is_prime p" "\<not> p dvd a"
  shows "p dvd a ^ nat (p - 1) - 1"
proof -
  define b where "b = nat (a mod p)"
  have p: "1 < p" using assms(1) by (simp add: is_prime_def)
  have b: "int b = a mod p" using p by (simp add: b_def)
  have "p dvd int b ^ nat p - int b" using fermat_nat [of "nat p" b] assms(1) p by simp
  moreover have "nat p = Suc (nat (p - 1))" using p by simp
  ultimately have "p dvd int b * (int b ^ nat (p - 1) - 1)" by (simp add: right_diff_distrib)
  moreover have "\<not> p dvd int b" using assms(2) by (simp add: b dvd_mod_iff)
  ultimately have "p dvd int b ^ nat (p - 1) - 1" using is_prime_dvd_mult [OF assms(1)] by blast
  then have "(int b ^ nat (p - 1)) mod p = 1 mod p" by (simp add: mod_eq_dvd_iff)
  then have "a ^ nat (p - 1) mod p = 1 mod p" by (simp add: b power_mod)
  then show ?thesis by (simp add: mod_eq_dvd_iff)
qed

subsection \<open>Pocklington's criterion\<close>

lemma power_dvd_mono: "(r :: int) dvd b ^ m - 1 \<Longrightarrow> r dvd b ^ (m * k) - 1"
proof -
  assume "r dvd b ^ m - 1"
  then have "(b ^ m) mod r = 1 mod r" by (simp add: mod_eq_dvd_iff)
  then have "((b ^ m) ^ k) mod r = 1 mod r" by (metis power_mod power_one)
  then show ?thesis by (simp add: mod_eq_dvd_iff power_mult)
qed

lemma power_dvd_gcd:
  assumes "coprime r b" "(r :: int) dvd b ^ m - 1" "r dvd b ^ n - 1" "0 < m"
  shows "r dvd b ^ gcd m n - 1"
proof -
  obtain x y where xy: "m * x = n * y + gcd m n" using bezout_nat [of m n] assms(4) by auto
  have "r dvd b ^ (m * x) - 1" "r dvd b ^ (n * y) - 1" using power_dvd_mono assms(2,3) by blast+
  then have "r dvd b ^ (n * y + gcd m n) - 1" "r dvd b ^ (n * y) - 1" by (simp_all add: xy)
  then have "r dvd (b ^ (n * y + gcd m n) - 1) - (b ^ (n * y) - 1)" by (rule dvd_diff)
  moreover have "(b ^ (n * y + gcd m n) - 1) - (b ^ (n * y) - 1) = b ^ (n * y) * (b ^ gcd m n - 1)"
    by (simp add: power_add algebra_simps)
  ultimately have "r dvd b ^ (n * y) * (b ^ gcd m n - 1)" by simp
  moreover have "coprime r (b ^ (n * y))" using assms(1) by simp
  ultimately show ?thesis by (simp add: coprime_dvd_mult_right_iff)
qed

text \<open>\<open>factor_divides n q\<close>: the prime \<open>q\<close> divides \<open>r - 1\<close> for every prime divisor \<open>r\<close> of \<open>n\<close>.\<close>

definition factor_divides :: "int \<Rightarrow> int \<Rightarrow> bool" where
  "factor_divides n q \<longleftrightarrow> is_prime q \<and> (\<forall>r. is_prime r \<longrightarrow> r dvd n \<longrightarrow> q dvd r - 1)"

lemma pocklington_factor:
  assumes "is_prime q" "n dvd b ^ nat q - 1" "n dvd (b - 1) * c - 1"
  shows "factor_divides n q"
  unfolding factor_divides_def
proof (intro conjI allI impI assms(1))
  fix r assume r: "is_prime r" "r dvd n"
  have q: "1 < q" and r1: "1 < r" using assms(1) r(1) by (simp_all add: is_prime_def)
  have bq: "r dvd b ^ nat q - 1" and bc: "r dvd (b - 1) * c - 1" using r(2) assms(2,3) dvd_trans by blast+
  have unit: "\<not> r dvd 1" using r1 by (auto dest: zdvd_imp_le)
  have nb: "\<not> r dvd b - 1"
  proof
    assume "r dvd b - 1"
    then have "r dvd (b - 1) * c" by simp
    then have "r dvd (b - 1) * c - ((b - 1) * c - 1)" using bc by (rule dvd_diff)
    then show False using unit by simp
  qed
  have rb: "\<not> r dvd b"
  proof
    assume "r dvd b"
    moreover have "0 < nat q" using q by simp
    ultimately have "r dvd b ^ nat q" by (metis dvd_power dvd_trans)
    then have "r dvd b ^ nat q - (b ^ nat q - 1)" using bq by (rule dvd_diff)
    then show False using unit by simp
  qed
  let ?g = "gcd (nat q) (nat (r - 1))"
  have "r dvd b ^ ?g - 1"
    by (rule power_dvd_gcd [OF is_prime_coprime [OF r(1) rb] bq fermat [OF r(1) rb]]) (use q in simp)
  moreover have "int ?g = 1 \<or> int ?g = q"
  proof -
    have "int ?g dvd q" using q by (metis gcd_dvd1 int_dvd_int_iff int_nat_eq less_le order_trans zero_le_one)
    moreover have "0 < int ?g" using q by simp
    ultimately show ?thesis using assms(1) unfolding is_prime_def by metis
  qed
  ultimately have "int ?g = q" using nb by auto
  then have "nat q dvd nat (r - 1)" by (metis gcd_dvd2 nat_int)
  then show "q dvd r - 1" using q r1 by (simp add: nat_dvd_iff)
qed

lemma pocklington:
  assumes "1 < n" "list_all (factor_divides n) qs" "distinct qs" "n \<le> prod_list qs * prod_list qs"
  shows "is_prime n"
proof (rule is_prime_by_divisors [OF assms(1)])
  fix r assume r: "is_prime r" "r dvd n"
  have "prod_list qs dvd r - 1" using assms(2,3)
  proof (induction qs)
    case (Cons q qs)
    have q: "is_prime q" "q dvd r - 1" using Cons.prems r by (auto simp: factor_divides_def)
    have "coprime q (prod_list qs)"
    proof (rule is_prime_coprime [OF q(1)])
      have "\<not> q dvd prod_list xs" if "\<forall>x \<in> set xs. is_prime x \<and> x \<noteq> q" for xs
        using that
      proof (induction xs)
        case Nil
        then show ?case using q(1) by (auto simp: is_prime_def dest: zdvd_imp_le)
      next
        case (Cons x xs)
        then have "\<not> q dvd x" using q(1) by (metis is_prime_def less_irrefl list.set_intros(1) order_less_trans zero_less_one)
        then show ?case using Cons is_prime_dvd_mult [OF q(1), of x "prod_list xs"] by auto
      qed
      then show "\<not> q dvd prod_list qs" using Cons.prems by (auto simp: factor_divides_def list_all_iff)
    qed
    then show ?case using Cons q(2) by (simp add: divides_mult)
  qed simp
  then have "prod_list qs \<le> r - 1" using r(1) by (intro zdvd_imp_le) (auto simp: is_prime_def)
  moreover have "0 \<le> prod_list qs" using assms(2)
    by (induction qs) (auto simp: factor_divides_def is_prime_def)
  ultimately have "prod_list qs * prod_list qs \<le> (r - 1) * (r - 1)" by (intro mult_mono) simp_all
  moreover have "(r - 1) * (r - 1) < r * r" using r(1) by (intro mult_strict_mono) (auto simp: is_prime_def)
  ultimately show "n < r * r" using assms(4) by linarith
qed

subsection \<open>Powers by certificates\<close>

text \<open>
  A step squares the number at hand or multiplies it by the base; it comes with the quotient and the
  remainder of the product.
\<close>

primrec chain_ok :: "int \<Rightarrow> int \<Rightarrow> int \<Rightarrow> (bool \<times> int \<times> int) list \<Rightarrow> int \<Rightarrow> bool" where
  "chain_ok n g x [] y \<longleftrightarrow> x = y"
| "chain_ok n g x (c # cs) y \<longleftrightarrow> (case c of (s, q, z) \<Rightarrow> x * (if s then x else g) = q * n + z \<and> chain_ok n g z cs y)"

primrec chain_exp :: "nat \<Rightarrow> (bool \<times> int \<times> int) list \<Rightarrow> nat" where
  "chain_exp k [] = k"
| "chain_exp k (c # cs) = chain_exp (case c of (s, q, z) \<Rightarrow> if s then k + k else Suc k) cs"

lemma chain_divides:
  assumes "chain_ok n g x cs y" "n dvd g ^ k - x"
  shows "n dvd g ^ chain_exp k cs - y"
  using assms
proof (induction cs arbitrary: k x)
  case (Cons c cs)
  obtain s q z where c: "c = (s, q, z)" by (cases c)
  let ?f = "if s then x else g" and ?e = "if s then k + k else Suc k"
  have step: "x * ?f = q * n + z" "chain_ok n g z cs y" using Cons.prems(1) by (simp_all add: c)
  have "(x * ?f) mod n = z mod n" unfolding step(1) by simp
  moreover have "(g ^ ?e) mod n = (x * ?f) mod n"
  proof -
    have "(g ^ k) mod n = x mod n" using Cons.prems(2) by (simp add: mod_eq_dvd_iff)
    then have "(g ^ k * g ^ k) mod n = (x * x) mod n" "(g ^ k * g) mod n = (x * g) mod n" by (metis mod_mult_cong)+
    then show ?thesis by (simp add: power_add mult.commute)
  qed
  ultimately have "n dvd g ^ ?e - z" unfolding mod_eq_dvd_iff [symmetric] by (rule trans [rotated])
  from Cons.IH [OF step(2) this] show ?case by (simp add: c)
qed simp

lemma inverse_step:
  assumes "(n :: int) dvd b - h" "(h - 1) * c = k * n + 1"
  shows "n dvd (b - 1) * c - 1"
proof -
  have "(b - 1) * c - 1 = (b - h) * c + k * n" using assms(2) by (simp add: algebra_simps)
  then show ?thesis using assms(1) by simp
qed

text \<open>The criterion for two factors \<open>u\<close> and \<open>v\<close>, with \<open>g ^ (u * v)\<close> congruent to 1.\<close>

lemma pocklington_two:
  assumes "is_prime u" "is_prime v" "u \<noteq> v" "1 < n" "n \<le> u * v * (u * v)"
    and "chain_ok n g g us h" "chain_exp 1 us = nat u" "chain_ok n g g vs k" "chain_exp 1 vs = nat v"
    and "chain_ok n h h ws 1" "chain_exp 1 ws = nat v"
    and "h * c = i * n + (c + 1)" "k * e = j * n + (e + 1)"
  shows "is_prime n"
proof -
  have gu: "n dvd g ^ nat u - h" and gv: "n dvd g ^ nat v - k" and hv: "n dvd h ^ nat v - 1"
    using chain_divides [OF assms(6), of 1] chain_divides [OF assms(8), of 1] chain_divides [OF assms(10), of 1] assms(7,9,11)
    by simp_all
  have hc: "(h - 1) * c = i * n + 1" "(k - 1) * e = j * n + 1" using assms(12,13) by (simp_all add: algebra_simps)
  have "((g ^ nat u) ^ nat v) mod n = (h ^ nat v) mod n" using gu by (metis mod_eq_dvd_iff power_mod)
  then have uv: "n dvd (g ^ nat u) ^ nat v - 1" using hv by (metis mod_eq_dvd_iff)
  then have vu: "n dvd (g ^ nat v) ^ nat u - 1" by (metis power_mult mult.commute)
  have "factor_divides n v" by (rule pocklington_factor [OF assms(2) uv inverse_step [OF gu hc(1)]])
  moreover have "factor_divides n u" by (rule pocklington_factor [OF assms(1) vu inverse_step [OF gv hc(2)]])
  ultimately show ?thesis using assms(3,4,5) by (intro pocklington [of n "[u, v]"]) simp_all
qed

lemma chain_steps:
  "chain_ok n g x ((True, q, z) # cs) y \<longleftrightarrow> x * x = q * n + z \<and> chain_ok n g z cs y"
  "chain_ok n g x ((False, q, z) # cs) y \<longleftrightarrow> x * g = q * n + z \<and> chain_ok n g z cs y"
  by simp_all

lemma exp_steps:
  "chain_exp k ((True, q, z) # cs) = chain_exp (k + k) cs"
  "chain_exp k ((False, q, z) # cs) = chain_exp (k + 1) cs"
  by simp_all

lemmas chain_eval = chain_ok.simps(1) chain_steps octal_int simp_thms

subsection \<open>Trial division\<close>

lemma is_prime_by_trial:
  assumes "1 < n" "n < (k + 1) * (k + 1)" "0 \<le> k" "list_all (\<lambda>d. n mod d \<noteq> 0) [2..k]"
  shows "is_prime n"
proof (rule is_prime_by_divisors [OF assms(1)])
  fix r assume r: "is_prime r" "r dvd n"
  have "k < r"
  proof (rule ccontr)
    assume "\<not> k < r"
    then have "r \<in> set [2..k]" using r(1) by (simp add: is_prime_def)
    then show False using assms(4) r(2) by (auto simp: list_all_iff dvd_eq_mod_eq_0)
  qed
  then have "(k + 1) * (k + 1) \<le> r * r" using assms(3) by (intro mult_mono) simp_all
  then show "n < r * r" using assms(2) by simp
qed

end
