(* ===== verification/PrimeCertificates.thy ===== *)
theory PrimeCertificates
  imports Primality
begin

text \<open>
  The certificates for the prime \<open>q\<close> of 236 bits that divides \<open>2\<^sup>2\<^sup>5\<^sup>5 - 20\<close>, down to primes that are small
  enough for trial division. Each list holds the quotients and remainders of the steps of a power.
\<close>

lemma prime_127: "is_prime 127"
  by (rule is_prime_by_trial [of _ 11]) (simp_all add: upto.simps)

lemma prime_353: "is_prime 353"
  by (rule is_prime_by_trial [of _ 18]) (simp_all add: upto.simps)

lemma prime_75707: "is_prime 75707"
  by (rule is_prime_by_trial [of _ 275]) (simp_all add: upto.simps)

lemma prime_991: "is_prime 991"
  by (rule is_prime_by_trial [of _ 31]) (simp_all add: upto.simps)

lemma prime_103: "is_prime 103"
  by (rule is_prime_by_trial [of _ 10]) (simp_all add: upto.simps)

definition cert_24_u :: "(bool \<times> int \<times> int) list" where
  "cert_24_u = [(True, 3019280, 5187769), (False, 3078486, 4706055), (True, 2582996, 2420557), (False, 1436388, 5002725), (True, 2918925, 6258600),
    (False, 3713930, 8251510), (True, 7941026, 4199642), (True, 2057000, 1347164), (False, 799423, 7265249), (True, 6156172, 5533125),
    (False, 3283425, 755100), (True, 66499, 4739633), (False, 2812557, 697020), (True, 56663, 782221), (False, 464179, 5619530),
    (True, 3683068, 2540856), (False, 1507775, 4321357)]"

definition cert_24_v :: "(bool \<times> int \<times> int) list" where
  "cert_24_v = [(True, 3019280, 5187769), (False, 3078486, 4706055), (True, 2582996, 2420557), (True, 683345, 5275364), (True, 3245746, 7444278),
    (False, 4417527, 102075), (True, 1215, 1734030), (False, 1028994, 8025708), (True, 7512361, 6543251), (False, 3882846, 3435729)]"

definition cert_24_w :: "(bool \<times> int \<times> int) list" where
  "cert_24_w = [(True, 2177960, 7612769), (False, 3836830, 1889143), (True, 416235, 7025194), (True, 5756074, 6703794), (True, 5241445, 7452251),
    (False, 3755929, 2240050), (True, 585228, 1295176), (False, 652767, 6797821), (True, 5389509, 3377344), (False, 1702179, 1)]"

lemma cert_24_u_ok: "chain_ok 8574133 5087997 5087997 cert_24_u 4321357" "chain_exp 1 cert_24_u = nat 991"
proof -
  show "chain_ok 8574133 5087997 5087997 cert_24_u 4321357" by (simp only: cert_24_u_def chain_eval)
  show "chain_exp 1 cert_24_u = nat 991" by (simp del: chain_exp.simps(2) One_nat_def add: cert_24_u_def exp_steps)
qed

lemma cert_24_v_ok: "chain_ok 8574133 5087997 5087997 cert_24_v 3435729" "chain_exp 1 cert_24_v = nat 103"
proof -
  show "chain_ok 8574133 5087997 5087997 cert_24_v 3435729" by (simp only: cert_24_v_def chain_eval)
  show "chain_exp 1 cert_24_v = nat 103" by (simp del: chain_exp.simps(2) One_nat_def add: cert_24_v_def exp_steps)
qed

lemma cert_24_w_ok: "chain_ok 8574133 4321357 4321357 cert_24_w 1" "chain_exp 1 cert_24_w = nat 103"
proof -
  show "chain_ok 8574133 4321357 4321357 cert_24_w 1" by (simp only: cert_24_w_def chain_eval)
  show "chain_exp 1 cert_24_w = nat 103" by (simp del: chain_exp.simps(2) One_nat_def add: cert_24_w_def exp_steps)
qed

lemma prime_8574133: "is_prime 8574133"
  by (rule pocklington_two [where c = 3531099 and i = 1779671 and e = 1014251 and j = 406419, OF prime_991 prime_103 _ _ _ cert_24_u_ok cert_24_v_ok cert_24_w_ok])
    (simp, simp, simp, (simp only: octal_int)+)

definition cert_51_u :: "(bool \<times> int \<times> int) list" where
  "cert_51_u = [(True, 65483710742709, 832250889688402), (True, 360841095049850, 584493238178054), (True, 177978047697117, 571985354164645),
    (True, 170442255758494, 1444112759561103), (True, 1086449805246546, 1581455946706011), (True, 1302931708151749, 700965187633634),
    (False, 129469305574962, 889934097584452), (True, 412594229657409, 11679562663237), (True, 71065794889, 1018461401663862),
    (False, 188111325290580, 445904429394354), (True, 103583606713124, 837936503099704), (False, 154768109866438, 1272112763336854),
    (True, 843060372216743, 57765243444407), (True, 1738363809053, 658229261816210), (False, 121575916949824, 1040861767340058),
    (True, 564408530128393, 248279946781505), (True, 32113729371105, 442041708381910), (False, 81645756492672, 361656944149934),
    (True, 68139834226151, 1697752144365143), (True, 1501606125650118, 1320232554822415), (True, 908047006454729, 416022935079998),
    (False, 76840050630612, 424432282866970), (True, 93847838601207, 340682015357959), (True, 60465252576424, 1353419433170169),
    (False, 249978568487462, 193120948018747), (True, 19429705827679, 1707159281836932), (False, 315314841057128, 15481152033820),
    (True, 124857319569, 376785174327253), (True, 73959687547323, 1450502486240560), (False, 267909951794175, 356568042515195),
    (True, 66235724277474, 652744371211363), (True, 221969716247403, 680725718991280), (False, 125731045820326, 576774792492622)]"

definition cert_51_v :: "(bool \<times> int \<times> int) list" where
  "cert_51_v = [(True, 65483710742709, 832250889688402), (False, 153717968670962, 394952769698868), (True, 81263922900583, 876397875298595),
    (False, 161871982124147, 1897791769521854), (True, 1876309915202121, 711372616672993), (False, 131391573091692, 408748103863745),
    (True, 87040015156283, 1201013608943096), (False, 221828987629001, 1111174628372789), (True, 643238586587509, 399005989895154),
    (False, 73696995718674, 1742197895816436), (True, 1581256871039299, 1737115104342959), (False, 320847725722734, 1059928654987441)]"

definition cert_51_w :: "(bool \<times> int \<times> int) list" where
  "cert_51_w = [(True, 173308554161386, 1019916170301366), (False, 306463110284087, 1357890764181271), (True, 960587928800259, 417520001603824),
    (False, 125455877672296, 759458092768680), (True, 300479663698404, 1148669127116148), (False, 345150634565688, 78454425872112),
    (True, 3206582020358, 1792084137619390), (False, 538483156457196, 1320549840644032), (True, 908483512977205, 52170289479609),
    (False, 15676062056764, 1693956375729866), (True, 1494899165728531, 1870566401542803), (False, 562065407042555, 1)]"

lemma cert_51_u_ok: "chain_ok 1919519569386763 354538099852037 354538099852037 cert_51_u 576774792492622" "chain_exp 1 cert_51_u = nat 8574133"
proof -
  show "chain_ok 1919519569386763 354538099852037 354538099852037 cert_51_u 576774792492622" by (simp only: cert_51_u_def chain_eval)
  show "chain_exp 1 cert_51_u = nat 8574133" by (simp del: chain_exp.simps(2) One_nat_def add: cert_51_u_def exp_steps)
qed

lemma cert_51_v_ok: "chain_ok 1919519569386763 354538099852037 354538099852037 cert_51_v 1059928654987441" "chain_exp 1 cert_51_v = nat 127"
proof -
  show "chain_ok 1919519569386763 354538099852037 354538099852037 cert_51_v 1059928654987441" by (simp only: cert_51_v_def chain_eval)
  show "chain_exp 1 cert_51_v = nat 127" by (simp del: chain_exp.simps(2) One_nat_def add: cert_51_v_def exp_steps)
qed

lemma cert_51_w_ok: "chain_ok 1919519569386763 576774792492622 576774792492622 cert_51_w 1" "chain_exp 1 cert_51_w = nat 127"
proof -
  show "chain_ok 1919519569386763 576774792492622 576774792492622 cert_51_w 1" by (simp only: cert_51_w_def chain_eval)
  show "chain_exp 1 cert_51_w = nat 127" by (simp del: chain_exp.simps(2) One_nat_def add: cert_51_w_def exp_steps)
qed

lemma prime_51_bits: "is_prime 1919519569386763"
  by (rule pocklington_two [where c = 1870148777187772 and i = 561939919808897 and e = 1290547218147893 and j = 712619969572013, OF prime_8574133 prime_127 _ _ _ cert_51_u_ok cert_51_v_ok cert_51_w_ok])
    (simp, simp, simp, (simp only: octal_int)+)

definition cert_116_u :: "(bool \<times> int \<times> int) list" where
  "cert_116_u = [(True, 58842250582577660957808674959263795, 60973631106531813743421451017572206),
    (False, 53847983340804058800347793890922021, 45604285053648261875512277268407885),
    (True, 27566193260799120198874168234572465, 50068673951520194986259417732868760),
    (True, 33227500425692895239709379527680956, 4337789562883539325578006257507844),
    (False, 3830856320660294510026167555816104, 50273777962074646227367589239171540),
    (True, 33500287856121564718249384069288246, 8896501882598657822065007423542554),
    (False, 7856817389284286943787601010337071, 15058779310421052230839307396196183),
    (True, 3005695843056614408798069223310651, 50902355837566371248120959656474038),
    (True, 34343239504047278475359608932159069, 24983126338721770373634158005995175),
    (False, 22063487879510236306205653306859280, 21206465016499809198870454271623145),
    (True, 5960765738996842509900349398755380, 6202912001351687102258748508311645),
    (True, 509984214234388568663219653978768, 17028375236775190050253468926060857),
    (True, 3843367530206586859383942845989378, 15470770569668504529149688153490671),
    (True, 3172410543641803288244086781995507, 37423074385011596365115043286581134),
    (False, 33049648667387653573578381939394604, 36597652248397880940068522922093830),
    (True, 17753007872828846028305527217341166, 40238790938514315852709778328370934),
    (False, 35536308151395294750355420663605406, 56768041506129477082188052435653228),
    (True, 42714302213638494446885433130241126, 49429781339157748043787453992814058),
    (False, 43653198830164785657904205183640860, 66103074926524087235086584251440698),
    (True, 57917368002672703301378141076431754, 29652059197322042318966322931436250),
    (True, 11654005274549840315002594380601415, 69268547466122524310181890984769085),
    (True, 63597150140557214488257978921252224, 44825965448192150949460911295169801),
    (False, 39587405192785570091189974579481118, 61928342718598538830799556066487033),
    (True, 50832844096056554294805158564645367, 3671376661627657560970441398116122),
    (True, 178658374811427607911067797220977, 14993746645617526374666413587188307),
    (False, 13241511206357500550664868382121834, 18171856469046327366069911872111523),
    (True, 4376874449808655580297838594907539, 45131946214640679911769912237744790),
    (True, 26998125833172310471767545206709496, 22478196301407532567700365265293804),
    (False, 19851295027103138394613052065447908, 66357501344179587652335920020936496),
    (True, 58364066340595528314735362658300380, 73128614271982049812970129697833636),
    (False, 64582481502105171701194287398778424, 27832508396208390584307150674991012),
    (True, 10267629542353421294331777892958017, 48261685971658439059322273063724527),
    (False, 42621612245142870281384971719998493, 25990277726156143913691912785912884),
    (True, 8953386529388507915872260489149338, 43453535861827086460256161866545718),
    (False, 38375363787970894897048008316661343, 6408482652426712271518395304238475),
    (True, 544347107344650029095293954027446, 63727792598763440690993343602997379),
    (False, 56280281359802723576452327528594978, 43880187285858509775319092988088251),
    (True, 25521279184298438336629115592594871, 4914197936492829775611103174203330),
    (True, 320089025156895178526393904833417, 35671269266480089215372158908233883),
    (False, 31502567230262702214181806243828764, 39313021332772284395418790288712169),
    (True, 20485111749409297922287802944089841, 3695756185116853886195615027097920),
    (True, 181038990040417890693125162772337, 49627710045154262869109525597516463),
    (True, 32644796500979449692632660404359959, 50355638368196189109552950922127210),
    (True, 33609473198928563722047436329839374, 27388368674642722537158925919909526),
    (True, 9942550920765499542772274344601414, 40165850579703050837032338576116062),
    (False, 35471891924989508096901716920881511, 16295263218532394017060548782396251),
    (True, 3519559028990619803787455643276467, 42968424405943247006687024865916934),
    (True, 24471711909953285496171467412388200, 26596488834623593572607275260212156),
    (True, 9375924606438985601313574159946523, 72596253512179641393673650228131413),
    (False, 64112334771380667273068461981315892, 13459677255577878814514728999795671),
    (True, 2401235668431479151440349606284176, 33930689819860176517471292020651265),
    (True, 15259871322161733945086437567815535, 8640933213891722723583704798616690),
    (False, 7631115603689164813401890003453432, 40628844565743388276941015952547158),
    (True, 21879351062967507041606997578724785, 60449763446876567282838081186084179),
    (True, 48434487063893540707759175614720721, 62721965894855574312164216076862520),
    (True, 52144056936439875185132715180166864, 56299329544525547719858412344596336),
    (False, 49719941299137883512032637908754259, 59168048075147610565130011970494877),
    (True, 46402350272517750860006803485921268, 48107021549684232997858195560757461),
    (False, 42485022590455403931470689781114579, 54510785750526513722665980241153432),
    (True, 39384957200658474052683731592372158, 24107541129599994151673132936768066),
    (False, 21290227424152624337535068942657066, 23033530551958373777540634061687700),
    (True, 7032123928200938099022897906086421, 44496020952077669198809798285322779),
    (True, 26242659495394373807616204861039562, 67647708173723407680892406176025679),
    (False, 59742098291928826245762295056783788, 73337036978360131513817144051464741),
    (True, 71287307507100075582670983059000424, 55847300131312415667071686708521457),
    (True, 41339941566489123423730415445072236, 67355150229881840304542464966637813),
    (True, 60132202542692727066618230387573765, 70839062353057714763705976946877204),
    (True, 66513699125609054793123719089409518, 270678303702138036624810740281698),
    (True, 971118853518548801508961449886, 3589687208429000366549537472900518),
    (False, 3170180510661357189084675385487937, 8559037515425802415212303778575481),
    (True, 970991332609015759282308953103638, 44932121827981816205087289201135323),
    (True, 26759583456799816701018512665086148, 9795836227070185855079846628437781),
    (False, 8651051551168209758188679927346166, 6942965338043500895586851295484565),
    (True, 638933247366764501850946718990557, 63588236440211916305474133949555068),
    (False, 56157034350162451906801603687616430, 58781699294900834553279248901967638)]"

definition cert_116_v :: "(bool \<times> int \<times> int) list" where
  "cert_116_v = [(True, 58842250582577660957808674959263795, 60973631106531813743421451017572206),
    (True, 49277607181293684658487278668732724, 39607168091454777770804222563258512),
    (True, 20792804794218124477549759331620377, 51604196954263350367256927995804167),
    (False, 45573502635159066496802492453984183, 50843870540617124712555148515184834),
    (True, 34264366114740736728228295148725288, 64597264808622180594641885021819868),
    (True, 55308738385377501861322062076548826, 50106339438264755936439796620263798),
    (True, 33277511765172175967067827271593117, 27803281147466825453243249579210087),
    (False, 24554066944655073710512652985116739, 52884110093195122422113101375949398),
    (True, 37069428853136772941826026957658442, 23381007617430368596574869872262362),
    (False, 20648599826289998966560573845388838, 13427640974044182161962747618570624),
    (True, 2389818587429137053995243632048662, 19979701448885031629159158094803114),
    (False, 17644785315377870751376766917454034, 18040216959682981514531834359797380),
    (True, 4313690737251073339501606674079175, 742333738416014723833602285245225),
    (False, 655581339902524250477991182396204, 42377223134056996222579939403698571),
    (True, 23802933520765040364646328364950969, 24081685570597280423252386097499872),
    (True, 7686688053259589239514655201897544, 20257218357401899707609562450067640),
    (False, 17889870372564286312661520823606471, 45447008564120962948550074386230369),
    (True, 27376384864078846357046242122275821, 11008439936680460298444586882599540),
    (False, 9721945036911367082064396588131744, 59214428378215496415693211056671596),
    (True, 46475125990091661216466832333406167, 64115053776119601629705589125559449),
    (False, 56622285485986063393655880029815992, 22213263291537986980793735220654607),
    (True, 6540187841599358255157601886123663, 19361349691339019220359976951438386),
    (True, 4968631075716634272112202820643200, 26027735963512622613244521694281796),
    (False, 22986019810979142759375176031209601, 6768562213048916914812057029298395),
    (True, 607237164292971100644138481534254, 41636819794125282490800472723182571),
    (False, 36770957181815892367486581571323762, 56747016255153332959347766392083459)]"

definition cert_116_w :: "(bool \<times> int \<times> int) list" where
  "cert_116_w = [(True, 45798343158407497127110698474487382, 19272071963980053171874812410858062),
    (True, 4922914699937485409093593917388130, 10857113732875552884559949348183714),
    (True, 1562407330492874243672395367803483, 7180311986003558752272689605931913),
    (False, 5594366890784051144258406127307009, 37861386965902158392126361241741285),
    (True, 19000215729530029768929209346235067, 67447059549274550976172462060274558),
    (True, 60296421032894417933556479848271721, 22845150612647514685709838606502843),
    (True, 6917569713853648614867514817242422, 50300322934055334232951453357294627),
    (False, 39190283342360239958493722273490157, 13032174792409769475902886973017269),
    (True, 2251123314352267030480506031871003, 18752211293460830458117913067952958),
    (False, 14610333115554965468130289858081024, 56396309446115810308722588662736980),
    (True, 42156724831270544294755543110527998, 66131227549421057938388246022322002),
    (False, 51524550823215985355971974326648900, 43606569418259492473421754424002376),
    (True, 25203992194771766636310515096247228, 12428057539099380742770140350623748),
    (False, 9683021259943095362232876689344398, 41247452127839348557193559971532426),
    (True, 22550685474687461188533698279991918, 60273352786765568393059048004767158),
    (True, 48152206643333589497237093668566556, 72706974890276615416134207861201608),
    (False, 56647885753167783215514198391044019, 17935781077466366980090080633886685),
    (True, 4263890881591438292096267642235410, 27434947299785004144237968965485815),
    (False, 21375277442470514930759641923292021, 16430842475225517589341425812002149),
    (True, 3578369285089823813784694148513567, 38621930114808191067137262418363034),
    (False, 30091345266560862173574969199297830, 36588309395503799027174081950811862),
    (True, 17743944855969348485054655524703778, 46635804452740277961578082113988866),
    (True, 28827331252394096672055531469096956, 26757882659194604799849055947320200),
    (False, 20847758858929449262312963289540681, 28334687151944976347191379370218119),
    (True, 10641487448721832804665174764400243, 61798734469355732564127319592351518), (False, 48148993342020981095484227794596083, 1)]"

lemma cert_116_u_ok: "chain_ok 75445702479781427272750846543864801 66628784550627212900504873757094751 66628784550627212900504873757094751 cert_116_u 58781699294900834553279248901967638" "chain_exp 1 cert_116_u = nat 1919519569386763"
proof -
  show "chain_ok 75445702479781427272750846543864801 66628784550627212900504873757094751 66628784550627212900504873757094751 cert_116_u 58781699294900834553279248901967638" by (simp only: cert_116_u_def chain_eval)
  show "chain_exp 1 cert_116_u = nat 1919519569386763" by (simp del: chain_exp.simps(2) One_nat_def add: cert_116_u_def exp_steps)
qed

lemma cert_116_v_ok: "chain_ok 75445702479781427272750846543864801 66628784550627212900504873757094751 66628784550627212900504873757094751 cert_116_v 56747016255153332959347766392083459" "chain_exp 1 cert_116_v = nat 75707"
proof -
  show "chain_ok 75445702479781427272750846543864801 66628784550627212900504873757094751 66628784550627212900504873757094751 cert_116_v 56747016255153332959347766392083459" by (simp only: cert_116_v_def chain_eval)
  show "chain_exp 1 cert_116_v = nat 75707" by (simp del: chain_exp.simps(2) One_nat_def add: cert_116_v_def exp_steps)
qed

lemma cert_116_w_ok: "chain_ok 75445702479781427272750846543864801 58781699294900834553279248901967638 58781699294900834553279248901967638 cert_116_w 1" "chain_exp 1 cert_116_w = nat 75707"
proof -
  show "chain_ok 75445702479781427272750846543864801 58781699294900834553279248901967638 58781699294900834553279248901967638 cert_116_w 1" by (simp only: cert_116_w_def chain_eval)
  show "chain_exp 1 cert_116_w = nat 75707" by (simp del: chain_exp.simps(2) One_nat_def add: cert_116_w_def exp_steps)
qed

lemma prime_116_bits: "is_prime 75445702479781427272750846543864801"
  by (rule pocklington_two [where c = 8986369574106813140303762220009459 and i = 7001513097443202581781503170404782 and e = 74602835786463724888147869570305675 and j = 56113048138023733339996598108928949, OF prime_51_bits prime_75707 _ _ _ cert_116_u_ok cert_116_v_ok cert_116_w_ok])
    (simp, simp, simp, (simp only: octal_int)+)

definition cert_236_u :: "(bool \<times> int \<times> int) list" where
  "cert_236_u = [(True, 8908868135619785355635835561760554916581680583022386454541910646600728, 39805173220187874696401317813642875672975797766237747125448661259497948),
    (False, 13805882413512255194642145080879652063773023491081789781688006780700132, 42802524982156923537190678224181680890110687793942621749364640586828700),
    (True, 24738055068437573470930350890481228183249891307046756258937194156139932, 35503116105469619394502264969601678532511514794482432687221107219891676),
    (False, 12313772472589010903707103112480395173613355786819305177458746685794262, 14615455901931249626027327061807197776430247580289784320399772805924854),
    (True, 2884373566949150479498426913170197455376795218438733909078238953481542, 7803327779411096992618564766516790117950169608006040895056729094882722),
    (True, 822217039625591968633181167611391282194924933089520897998446971542889, 39482965455687707356804891129261446497048713286886196030701100856468961),
    (False, 13694129037015104431113089271916369697772896124089900864563218858806950, 22980553465620611887053436407798709411909963912879492565244532999671668),
    (True, 7130955745493624510086305896735356460818663409008416182264440069038828, 26764570123308492947842159073123610887683361491146017365679823670165228),
    (True, 9672691082518409701161493130510988119769149304058287012895583910408193, 35357338818885429579406167127828051549979571903580865388568917772440933),
    (True, 16880523607394723514468743935356333886434205354150673650698794343037643, 41489968054771055384336128602586001724313078999777134057758752218148288),
    (True, 23244112781958384863016228822454812013564773636871793266267736378736476, 6846977928588077928437911730777671317140537476261284201824698737507212),
    (True, 633030490809562215491801616172115940996301127686007828567089089984484, 68859705089969179574147452758875576545806825338394759787662699475525956),
    (False, 23883051236644230325708462403863000735519821878228870266645393073044304, 46115001120317968514622057777387620847635644080306158696370898968663400),
    (True, 28715158655076790984216817848632843281325038092169198107135386705302376, 33824071024571649221323628964782481779168018637594926259833486478464968),
    (False, 11731418545232979197969089707462261677075522775429158539386592104088313, 16556641210801531284758173211462809843065396846084942343636602867091293),
    (True, 3701444553801492613514456234611247804991836742745152933850313678007563, 33068554089934021130350675391443724845911728276784352079278271370132208),
    (False, 11469377782256616327243274413000975780120761743223800241617862954299300, 70978857235909610032690202582308211327066926916355005374310649101533204),
    (True, 68027541964978704356225545800457142324316261800152738582898677038709050, 9440216209841233344193874217786372702956910262898213098809924628397266),
    (False, 3274210470841540014348621584550358539054808757035663158502802099173945, 27394851636389312739511355980834368109491126127325993846089254523356793),
    (True, 10133621491648794890309591774842942251438161139665640222612543551995827, 8831782145127876566688330166508519656935784685895902026684322979849760),
    (False, 3063183398874227945359050210951865087070490120464374308472261956447251, 47400224027183183087866351218423040155775825851815717266303078846862223),
    (True, 30338042938474885030901134236051630506116807570233398229316997445898249, 67866612168168471032109751989820249291412395788472225005358004164129886),
    (True, 62192657333188860192755474763953335797959269628881737915900412213687470, 197015616645936412203825901336160161040855965974552380801623544037706),
    (True, 524116796371358039980106775898442810770105584504695717625798937451, 16027585393134998072580016956851160602148924099786230309708465126134379),
    (True, 3468669902444050573147376634960176487636819564640006334636041148215443, 39011344506776491563975854658721328528606281551937965564132312861688840),
    (True, 20549847803135942902371770110444598492561289686039039127362961650747412, 21333973479478007955407304047584399358448183515425052332130876984562916),
    (False, 7399398255131424987385518983859091791839679080828071906868895571558433, 49807372505766935346710129214915359053818221649120239008663476056420877),
    (True, 33497626588516087999032332267991691014051115429770301277415374821561399, 17705993827318472509249254972803819829850628087677644695957790483600236),
    (True, 4233186379276495178488524217481302782582637344188877123968548890849118, 48265097467131695316333984402834003408199024635416046281456220586985670),
    (False, 16740091962970820231612703777380280754845642948836111723777327906969488, 7795415714129221753238566613556411137524920094496473718896485424165844),
    (True, 820550536043041237996342293321063672532242979205373104921952240109178, 13837662894036470273708244353273739604513394039403680884136224104687890),
    (True, 2585545982056962236327416344510204709024225564865190476493413096832122, 73611662846767375378052692460385803101657410355601355865798732576437446),
    (False, 25531203090209351217695723554133035296572824030566858816290411295225127, 60216204915615026262428074563027763445390270754846241438933746485405559),
    (True, 48961367019934720050504104392348686916328658312888887153439430795722642, 56846121510893939614439341322103327151340366264677390204128715221386187),
    (True, 43634344005854264567384107483385442924698488823016102355790034726146085, 16724751504460827526864688363855774230459444327766121854520119420999874),
    (True, 3776992484224247396380682756343516384408777233627691970924719817504065, 69507862660427159488295948212107435109852215871654254486568615039728921),
    (False, 24107855865772997127573331105555964017165672241731615150702138176654484, 13088480981758417636569295141224301034095798921463202702947820821204810),
    (True, 2313157826647526307129999177112046209924290333940809508745553378622252, 26022302115055942816559189223040055676180976962478913277522595983073536),
    (True, 9143620705681927495327308213887791854485796413798644054607440975261063, 54556630371116364108807181177911846893568469674485985003158942358339155),
    (True, 40190355770521638452236108679637150837489685942679542628691526010445028, 10732706426046171222771031347875479996962645570730874150053296110953629),
    (True, 1555411384874624045908033019418865425970279636203565902345537711971241, 50844713391205721612836161169622250811975770757422784739100425094414054),
    (False, 17634796626678390256029860177765530811772409162061570710352455638939628, 54078694546819794366167268315964195585958764163068801552537449153018656),
    (True, 39489276016546541621887894086357821002120110628061737800249569177608723, 45757906707857822284382462215844513986702198240640902206570508885114575),
    (False, 15870506981659282333518053009658482022800022406121927341912342295458903, 63637937726332383863155795428980239861079669040920823654356189829718829),
    (True, 54683835440170952696212252586748526730951258913238152149878950344091687, 15808995394070210480256580544064178944288142769354019830077691934391132),
    (False, 5483134824686488855298425774246653960058620001034244730279566664865037, 26971238654822912305355593927627144448426019583059678264345212545232057),
    (True, 9822647451706256434180585675853971071015587069703513888409053270467294, 72662442464843906883624029707316194455460278406237085776455509110655591),
    (True, 71292978187621787621793537481775073510280960996536908006982721756037021, 52478593810315809572113936223224503023507309655084680020622338672841234),
    (False, 18201485805976666643293745242478716189744827904377557166085739916657533, 37791883638816947007332804183319514166873653040813247184848396741835661),
    (True, 19285186831708783179572920346963767950741089110350635110325250950456541, 44923060138503137389535303777751950400702588144536373077320100729284234),
    (False, 15580951814895446219460286788317849135907670663815913094347421933101525, 22103098362438101790221908753561671092015281711129325873739193519088917),
    (True, 6596796482030321035138760103422150228473481429686915843656590222659984, 64243283343926735367558504064108258727687979052072891058223161469067401),
    (False, 22281908203187482449708551419123256061857694482730143749322603704918448, 73658358355385262610673264867732325430738402268648228267221942556155702),
    (True, 73260662868047951632448465876851281468291567344228717438927281104599310, 25718351486598565978920165894767122469542461887120907609028727490138634),
    (False, 8920060076846515298425766832041945704186930242972977281828551047170322, 31253234300272235841064009307822193211179319151582329600765255180097238),
    (True, 13189146999199137436240279400685183941270088191180689238310666981641944, 38332508197732309057170829967910097471748064968748580533076618749025436),
    (True, 19840894487089994304603452603871814109591468704367373303883794604285478, 15029726517724862630111835333493319848446282504469186743161106213541550),
    (False, 5212856024093872929458058354226480545046857070179993944353632179091238, 73975697226244114367443585752899115601993409385279554080681683549446034),
    (True, 73893273658532077920708698759632768764525821332830503247537565232283416, 35536756313643424398340955494249353910493471286527302580234490571830844),
    (False, 12325440120807611814126833293035990476652709692729084056499526581548760, 7926894064966246954422626043407975304375983100896050451975635459465952),
    (True, 848462948250032565632500576418368588388810412660803819600553406461075, 64359905704222748209754981244204895900465013009132343692439214071571279),
    (False, 22322357081129217839581889885775900965172529823574621338296972557379830, 33898716734542869225241031708002579540654039956039982146655270181679992),
    (True, 15516482964536072385361147491850148466332390709157748939874014406515143, 51026116396652417229735604956705268150864127585999083966749719813265363),
    (True, 35156999587973596929750256616663133356976204546890728536795309639399855, 57000769291919022788178473188482815033131557261657801686194015099153284),
    (True, 43872078193456648151130210179967762896594541411409533845335097142527532, 11929319724891006132703031285767690944096676372060251492673446966633132),
    (True, 1921578496804641685642428922133960980417175054846430095692110117237955, 15948064440604951559623556809994736281766927429775931747986400570604239),
    (True, 3434335639723877554732079945091988135569959847981589236918155179982177, 18563475823230583156164957006787826671581370931722018958154573922754582),
    (True, 4653131933984062795082312161119256118070541841478993437280287919071129, 66917245601381253185899045430363471779672946733129312144682092554620721),
    (True, 60464836966106818511104654348987771981451815722292950894860983444546240, 66682622880695804888765036605716902578592626800703505606271413277520161),
    (False, 23127959911717298423877691398985517723391028512412948100107248863373094, 42196241543750705315662263333972691556766463701996598509139192685324660),
    (True, 24042205917774005707803127471974008256634101389994550806925657748129582, 8823312839353818086169089772398780082165984458403045990524563164704726),
    (True, 1051211561670283989109330868392842374307011803148843693825816517960320, 36275822774284276448298667654961386825841091503844211635512153187924836),
    (False, 12581775260839195070050290712524841109912377115305453205002216640862315, 781485706744204359580478223030715060883455197123402072792142029128863),
    (True, 8246484587076347791610634162422801928496018142424892048600510756348, 45062762422006258467563212456622035120138551956954435789733295853345133),
    (True, 27419680845327196253283715511981953789749332924544497163537921082421724, 38565657705559748973912113509167536374965673525826049623308120976124021),
    (False, 13375973332347873205542224623480511705741253648992942775404937769699917, 40168881028550398905512442615312459169169512439988694815626397031470879),
    (True, 21787441845412068021373625538523775692879130841259464286279132817907919, 54066879937560203491677947129252830415364019403318128735978176764090108),
    (False, 18752361225873793533222747024292170425424329218467850597367295323483610, 50800324469166578327408836597575340198266890236241805743510544628084234),
    (True, 34846546668523013200608505610082414620900289051543503569769385584285775, 10959051641681076010145002530366244690645375988596905784540538668831),
    (True, 1621708227266301075140856764088478573700112420188461280333967418, 39471052786416216084241941344883042597470030357591481133482464488338435),
    (False, 13689997289860444191749008335382453109449632150843200721450890407557450, 32206825851867462610068104838304346658187601017692525645800648450311380),
    (True, 14006274161629274604072279259679711050335377162173753653668182648988674, 8911420451550998415760888679253933826359324267241652859999199979617082),
    (True, 1072310707133842393638538230955041305509989547269921392620859682036743, 39107945496367901856038867545723084880746207642129114295329055024248823),
    (True, 20651746032137682892861776602426907619069238396099420588147295186298314, 29128800427782049938160894408757271449356638536890080056351291261554531),
    (True, 11457027965630331000511869693831435591958757767718960976249499085362332, 62141835741794676627090522386963344340690602581381032645072802742114837),
    (True, 52142869870559915351230927581245072700553875965691030265221857184695711, 39237797021467349081078523622722890691480403040679886943626390140786692),
    (False, 13609095703392163727385562079526891720952978822936686829834548336754647, 1726328714113806619170551301773578147740420215340467050291455913995067),
    (True, 40241463022284257326846569901900811414488537014661356269677972025071, 12965016416459217786684062709775608926708329040864976290592279815455092),
    (True, 2269723295727763949437766429023261736073745895320333952518084677398479, 47843997973856630260129866148912613211759716660472745058251132019448011),
    (False, 16594039336685635503029611440242158723214916298520601967601289478379517, 27685584806882067757443994909078009692414384929531344362858805818317299),
    (True, 10349852876776945403482215381758027644571936055592739828733642765373049, 26972575795398275385309293683277342054877196749302153586558257866639958),
    (False, 9355070703019987949910531451238906359632163937009589199474976469805959, 59479009039630122910145743591142546838591911551758519827348207811927991),
    (True, 47769887846361021373057175951417208353167359059841056609000450620423062, 51401343709907673371008282413651463757538638086574316156536771256498847),
    (False, 17827856274611225618187607836200067303364890784349627333575760205918132, 14168464937297124940319346047097870384240814318808446129030613133630062),
    (True, 2710643307101520080495494303340112588826678446784352485359078263168815, 43257180419054635502418370654269372069345219188284060820954856868908639),
    (False, 15003164113921531198432359630538463497490793873972380331092043076415852, 61869051967266302578045550308843070534787505246900806448158159536595718),
    (True, 51686091928131678860448741940416976539556501685084405654287000747516346, 13805911593408946520434956176862547433602408492389518002856770136969702),
    (True, 2573694231770470159116912717560857071793462346377107086049245249380628, 56759253664945032145051206238519510933742644426242872690978075152219208),
    (True, 43501088640033052399532824237861737655137607035387176063112683163416294, 32296556021014032728338435859676901347288893550676314263875770849608606),
    (False, 11201620762232835985163496093982859352990571371388844976031483118763506, 62784877854570805295374356928437411302255730885030680627635703384827886),
    (True, 53227599502684360459035848439965283696646537178332738174886782271759823, 73877005832956130360735332818981764124421839971939824502308712475249535),
    (True, 73696242313487324508437568305369435013879317397744425592198836868103412, 32078872510034300683721969666082605205980797407905313634227873339841541),
    (True, 13895205184483038434510772456851356006440427776273084011111636727260504, 19640936609914496456838492911179685577944239708454817078708018776617553),
    (False, 6812191466364575249289977937500582120720741276930261995541816590408656, 27355142571315642709529032935091319351964019751824461474516625955996422),
    (True, 10104265246033905320341790450722870055122639570324753704793956874057443, 22849550148326140342736805013308426509580273659505465350965402554081283),
    (False, 7925055389269156048894429114331151541224082251354232279621110843078297, 6903798137239972281401397674507456690335045934127030327997897902277775),
    (True, 643580596413748623336775000418865767840609798577104082876110717065621, 55321585922323806921266674584192249656982415452185411864417472335292378),
    (True, 41325300139405709829284804439841681608454971776382943562139823040976883, 43122530800328704547337766759797654065330597063135494412797530656642003),
    (False, 14956462726821131422869580741549585246111479668547634616777654758013807, 13578406663693035271473120134152884170742291526167690476563538598973565),
    (True, 2489570308568351855854591728340646125509757964048247089089805232439343, 1767251726565775986919310699007786135292699202748444418719751747705124),
    (False, 612947201537852224758681424834290878444151656292059866073832709531054, 49337582134593987995822659025088881250284611748219063722708115205491934),
    (True, 32868697759128589020818257048810414175636951464167024869924955232507499, 8533794484817918068028293111118961477222365402771986816054812259098763),
    (False, 2959830435776696611823016937857555467535983456739026242280118020886551, 31499087808538344709381989672375367032521285361778731128076193854959637),
    (True, 13397467966895307272182352570309293873265203771962923436977241587726702, 54011025002407918552967747149392034474390331254095618722457662444373055),
    (False, 18732988702039738013799278467300480833862761537505514201563419642265657, 9849212022006924553258499020087747085153337414098511342240728730719191),
    (True, 1309874676624412144283553284151471442223657046818659022511823688549120, 71462381456489006943441496262270231910805780061791003438909203400842641),
    (True, 68957537253493464381695485797523569537814689913857575043030259719712435, 8446481859186627091481705245218965172833680405261311674317024846776336),
    (True, 963337530912371073953917856718319123416882836481159856947889675928060, 72284799931139302251843776583201538756043654313967963413173182362434476),
    (True, 70553853628005623851428459890349044460855468919706645907978811512223495, 31651199559082018910167709457876700912621069261559100322347100588384611),
    (True, 13527175401147246201551695744868218759837010655427024081120361165083830, 15818442962846713618859456395042483305975466961885996221012937408387511),
    (False, 5486411585294977335446151361743444762804409109604914556137348312208629, 58441501293835822333403519826280096318191638000963777340380808247533715),
    (True, 46117897630221269260027438279492539790279673494331935546357125126442277, 19115101766023360465646632572437935453243575249392897572548103146375986),
    (False, 6629812809612322780058625756588251350254463235489557027332279486152541, 29739061146888231006730992861051040436367689144623177664402574372017581),
    (True, 11942115874334429244033248638786609223933596698668676592275637810909029, 24429578726893499344253102810927861344311353215779407690947817142742258),
    (False, 8473066790828053994226694943588888295555425822465496320768369476848593, 63002094978780844767145073395788874250752431471983507233269816306226353),
    (True, 53596540144023032646866085491572711285067073546594592770790608035695620, 27888460527428023957626267190656043244582985061948661907009352904953269),
    (True, 10502092906273291229163550284656359657540521239509265860349119924836882, 68418346631086460386336576423810281189350616001823133365063449678854387),
    (True, 63207981708061964389918049675970404438726757610174643083750147917161220, 40351202010264434852856366140709673810526925757662944394974049189119229),
    (False, 13995265065573322564202018434088032972741658479422462331506581235431156, 55462230047350316247137488102646509600059300326311406464429109956169410),
    (True, 41535689943442961056042017365674794036284450769443004232690100315383650, 42811743127423823531585158630306164900155995437727457669809832025777550),
    (False, 14848670253617728929073440410418731033997747441871437544490806445308168, 22856939481111420228283157320464115885642047729128509851333995504258524),
    (True, 7054446268232552790555110859821253627899869966555231810498674915984984, 36201909574147917167978865404390610175450117009242278172511717397718088),
    (False, 12556139473645297314290118514427815270253329385336247008116911202045191, 975474746408587919235241917630776661753064856994568737415147656917507),
    (True, 12848689507497770424434271561781377767758614882378672980376733283962, 21438267224828973234986836802618761923942579222858213369270628019461515),
    (True, 6205919433444590803308721596636083275714441935668651631273486555348328, 36409607229374279970273615865345232359331979429520459048131347121641729),
    (True, 17900236174811815679710832915230527355632069265231203214087501560068508, 71353713459433612159516027569637836383022847369071561925603362927252685),
    (False, 24748064085518823686308281360359680889665376199365490392383318060149323, 3807816196893075015422251961647470883635210293839563557271453701304069),
    (True, 195784689561462047082744531554771061451994996508051612452551841419082, 69527482577461516518860173554206202456356613986516101597372200712969387),
    (True, 65273933237033234484881795051962205397791659537122607653142458714714730, 10340038222190118380009378236064309511841045694926293594593383124695659),
    (False, 3586301485415450345684960237484354486478757239490773775160471683533062, 73963687121976033656825274437578502336854856229004893497915185913929008),
    (True, 73869282160954435249238442391714808378844070623980394283551229072778674, 6735658735415408594732670035659661457753934591029385551664717708446746),
    (True, 612614008979862364909912761243796339862068297949369931579629231217442, 38711975392776241626659989917900991106583769860158930518981558005488622),
    (False, 13426721630152126009454967860687113770729867200503086442235536089088968, 5427462772823755554846812978774875287919247759005353181258267172023260),
    (True, 397759425504420011841010400719721301395962130067926043016562316254466, 43032752198632488611069156811515313729805107212408988147634867255786938),
    (False, 14925324241091872260391429257011821549293362305181059687344526726520484, 6551832778087105005839965145676372252403373001439859999461460098003056),
    (True, 579632037665189099100676911021428000190627783692483761238976884214165, 24062846312816968056614408823131648242741491418530635247796571776991481),
    (True, 7818451881430156926281288898569565508273019597072275975368911713155690, 49916089283681594012191244145001348383483528126922297903053876519762531),
    (False, 17312715997512110347615499874944519550597823381992675023704975053212213, 25750265679257667255512296476700576758563754890685731949048490897509787),
    (True, 8953445648855349432454977854077690654867458241106190401086533605785847, 45258474518163689465292210391818964036920403272337627506296081487042140),
    (False, 15697285726062706362152362335144400107537137927238366041253529279034918, 18186090025996518795189365466940014515526868970139684008464777792162694),
    (True, 4465863517770737120919392413630705127742368880515981751625612955656145, 48945224641715898986804213341660464758441468594296788127861402565914121),
    (True, 32347999321549093448092528577443997627248890941679907053368043134231274, 71303910472274486575327216527911419617551096534394705922417094370277123),
    (True, 68652043588985120156545853560713487346015897008787120448455775319168545, 72266432305838869545709678167536752615093808989561018611834257095986814),
    (False, 25064628191404356667386044646871505748533217082338934873385919913784283, 18640839054008484880616825824606266081379682670048673902741976281949451),
    (True, 4691996576966678049583647904272162820564334309674845646280465627396745, 66584739412078148898204053822944513660727147130071166298038860247053686),
    (True, 59865440428392259837493358323921566409504756373822529364185123592616088, 67525416605209221011993544085914442252118700061434637812232245441474780),
    (True, 61568889113932107347639572498936710394914622819563215911906359531190895, 20648146927548949030872931701505688059182903195167633859707346851606635),
    (True, 5756903330644333950536723770854899942275459167517528580477110504047073, 32141593846981839390406985814275265592241581202875791194022504558508014),
    (False, 11147874241864833781368844764450646918908260305004981574019488326176280, 34339185471425933873015059149428317164833786575951261897809691089393772),
    (True, 15922334813820548595118490711241727707672300379547140327357439693814626, 24901895743698352790839813212822148471166360320063463850872063205682202),
    (False, 8636883517860950988081136068740852704469421157527701837051314654871673, 61518093599277639365327160103703485008413369384707309285212443060709865),
    (True, 51101366080166751999636207937741260139559467332383471657748904609387573, 50531989978023935325328453210676046941184031653944328813573495176969514),
    (False, 17526332768313611300872357149470097994665843071330139659703329253795692, 5830212561099232690122609078539445185373232921156529759053082660244088),
    (True, 458981890777580165312237050352615426766059729261197250159307766674850, 58014356379165479565683591667856375001640925907674961144549037015862794),
    (False, 20121489687680673045075494002588779460611413226579793633758581678707610, 18800850742055141245650043152697582855096144497559731652880274026863102),
    (True, 4772893857180858595041512595755727245221956632013875062830608907192454, 52074005305945910046105847959004436155438868063022872946213047675146626),
    (False, 18061159791408370829999860683582668805270361854287299092053677567318445, 12908696020468720420317789987726848532954769265753315336879186661618973),
    (True, 2250046643045713204307098135692400015772840444034529349494842611395171, 18747684543434469228505066862697561580183117404804802116429179606014632),
    (True, 4745937861198174983095388860137087127119145126952011836814591594339652, 68058976916763245143316019560374839150594087773410962298618921042351060),
    (True, 62545721373045485262402437672854469285998174831778023368177817403928372, 22214956701133756098500036878949395999322567481322174259270898785610196),
    (True, 6663734959624097350420385483685894090076367048059965042470725861535580, 70020695665428660585292606760870089643503448878819752308363490229187356),
    (True, 66203296576652473769146651001086397443901280692112864691468442649629462, 32314849419625042063194025027506115246761341091687027233972832571268702),
    (False, 11207965578490010691720387104959295958617726938982817304037553207363600, 8562916886866218785688304546164188478888058893729309188831496247839076)]"

definition cert_236_v :: "(bool \<times> int \<times> int) list" where
  "cert_236_v = [(True, 8908868135619785355635835561760554916581680583022386454541910646600728, 39805173220187874696401317813642875672975797766237747125448661259497948),
    (True, 21394680706256391653772738587981889740256835741396897810390838937260990, 41919722916794544073952672727016175638148539896285403230481669723892774),
    (False, 14539285187754519973835762576431992967317854429353096549016226021804324, 47546898665670693803377198027300730356825012248466174764494501495986744),
    (True, 30526088725465375567708089242622356097570712153968773082607677235312927, 60217645783163779881569467848506550176760270566605932335873812441716747),
    (False, 20885670621306427089579025835068966905661895056100513109106005194861246, 8460434230463527439331504536420141219874235045250110808283688165465864),
    (True, 966522749157942967561712988976652524282342557212726590828093275951844, 31629568520921214875502618052685466098344295851729552370902660857983988),
    (True, 13508692255812283189457464848542721074899110681650959719292644752769394, 5283518146828171197579713557152266917938979731105972603994788232583786),
    (True, 376940827733328312781916256936884734008616669940870750866702116324930, 29011571627927371194786068417831479654441514416083442221603786307182286),
    (True, 11364995957461186655673396592087087969113192286024685136242924934061587, 51546170415019595584366323743398354277047353535533896060302696100746387),
    (True, 35877286075606686361035767978452768578899685388794657599296841205999601, 21252872610536662166414779070177904938952696673150251872700665633575662),
    (False, 7371269522867297349425841017487787929422473748271725562159849478889028, 69490809710348678725736597923071784769591275419387514694139338586948360)]"

definition cert_236_w :: "(bool \<times> int \<times> int) list" where
  "cert_236_w = [(True, 990079869685274089067819496795799193426049271434876125113348038497139, 16153155050223087298160014462763671619986142323395781531433756842368703),
    (True, 3523234067486837190167727816620328707138147160225995919857807195680933, 60055822405248186172869033486944061572578872641868090995712606312075978),
    (False, 6943902598427620566040507888544225490013296520125495564525126341218717, 25171928313862840063030770210551396004168855366508115988049527562160009),
    (True, 8555782696598372221507375289885155425853886992120632874908843432422649, 67043480898810553178122350013405189278981078737451252877709827464877438),
    (False, 7751844576858213551866358427525485044944268855197018995478577627578812, 53380830016128662912109928654360594796415752176364461903178265429104804),
    (True, 38476664613835196748834781468705115678974470112494513702026977008765452, 44834681646896416774739443742377987341720075798897526609092454803933452),
    (True, 27142819198696964090932012945428575420921880469737623229143591720974848, 67130183245633195639869939918442703710504314834311865919213873480129168),
    (True, 60850260036196156930366811057474256033212425607645421547079812641604177, 38818018837063819385421431524313588415600254480646167217742265151203685),
    (True, 20346677712519600861533358236967420646558390703252951092134017590391550, 1249425937017005171791187917337941369870552391118378404367688045443375),
    (True, 21078893406841075082597818872810546538805489190137209929913121615514, 34808237619171251653030847322035817003262187288191562497744212195359427),
    (False, 4024672412600698598173501434647204766160835522747065800799027201499393, 1)]"

lemma cert_236_u_ok: "chain_ok 74058212732561358302231226437062788676166966415465897661863160754340907 25686082838651505011370039260590883329232637451457271664974363710626838 25686082838651505011370039260590883329232637451457271664974363710626838 cert_236_u 8562916886866218785688304546164188478888058893729309188831496247839076" "chain_exp 1 cert_236_u = nat 75445702479781427272750846543864801"
proof -
  show "chain_ok 74058212732561358302231226437062788676166966415465897661863160754340907 25686082838651505011370039260590883329232637451457271664974363710626838 25686082838651505011370039260590883329232637451457271664974363710626838 cert_236_u 8562916886866218785688304546164188478888058893729309188831496247839076" by (simp only: cert_236_u_def chain_eval)
  show "chain_exp 1 cert_236_u = nat 75445702479781427272750846543864801" by (simp del: chain_exp.simps(2) One_nat_def add: cert_236_u_def exp_steps)
qed

lemma cert_236_v_ok: "chain_ok 74058212732561358302231226437062788676166966415465897661863160754340907 25686082838651505011370039260590883329232637451457271664974363710626838 25686082838651505011370039260590883329232637451457271664974363710626838 cert_236_v 69490809710348678725736597923071784769591275419387514694139338586948360" "chain_exp 1 cert_236_v = nat 353"
proof -
  show "chain_ok 74058212732561358302231226437062788676166966415465897661863160754340907 25686082838651505011370039260590883329232637451457271664974363710626838 25686082838651505011370039260590883329232637451457271664974363710626838 cert_236_v 69490809710348678725736597923071784769591275419387514694139338586948360" by (simp only: cert_236_v_def chain_eval)
  show "chain_exp 1 cert_236_v = nat 353" by (simp del: chain_exp.simps(2) One_nat_def add: cert_236_v_def exp_steps)
qed

lemma cert_236_w_ok: "chain_ok 74058212732561358302231226437062788676166966415465897661863160754340907 8562916886866218785688304546164188478888058893729309188831496247839076 8562916886866218785688304546164188478888058893729309188831496247839076 cert_236_w 1" "chain_exp 1 cert_236_w = nat 353"
proof -
  show "chain_ok 74058212732561358302231226437062788676166966415465897661863160754340907 8562916886866218785688304546164188478888058893729309188831496247839076 8562916886866218785688304546164188478888058893729309188831496247839076 cert_236_w 1" by (simp only: cert_236_w_def chain_eval)
  show "chain_exp 1 cert_236_w = nat 353" by (simp del: chain_exp.simps(2) One_nat_def add: cert_236_w_def exp_steps)
qed

lemma prime_236_bits: "is_prime 74058212732561358302231226437062788676166966415465897661863160754340907"
  by (rule pocklington_two [where c = 37940283535957283147790493383286696582099159842122763948555891970476459 and i = 4386812516739286907093083275457056104889941688880599415971985667035232 and e = 70463328703800545008217672123162676565183935400628861884889913886334520 and j = 66117633491858138461393741777649859022484251587227054915412604379442197, OF prime_116_bits prime_353 _ _ _ cert_236_u_ok cert_236_v_ok cert_236_w_ok])
    (simp, simp, simp, (simp only: octal_int)+)

end
