(* ===== verification/FieldPrime.thy ===== *)
theory FieldPrime
  imports FieldResidue PrimeCertificates
begin

text \<open>
  The residues modulo \<open>2\<^sup>2\<^sup>5\<^sup>5 - 19\<close> are a field: the modulus is prime, by Pocklington's criterion with its
  prime divisor of 236 bits. Equations between residues are evaluated in octal digits, of which 255 bits
  are exactly 85.
\<close>

subsection \<open>Evaluation of residues\<close>

definition oct_res :: "octal \<Rightarrow> residue" where
  "oct_res n = of_int (val n)"

definition digits_255 :: nat where "digits_255 = 85"

lemma digits_255_unary: "digits_255 = Suc (Suc (Suc (Suc (Suc (Suc (Suc (Suc (Suc (Suc (Suc (Suc (Suc (Suc (Suc (Suc (Suc (Suc (Suc (Suc (Suc (Suc (Suc (Suc (Suc (Suc (Suc (Suc
    (Suc (Suc (Suc (Suc (Suc (Suc (Suc (Suc (Suc (Suc (Suc (Suc (Suc (Suc (Suc (Suc (Suc (Suc (Suc (Suc (Suc (Suc (Suc (Suc (Suc (Suc (Suc (Suc
    (Suc (Suc (Suc (Suc (Suc (Suc (Suc (Suc (Suc (Suc (Suc (Suc (Suc (Suc (Suc (Suc (Suc (Suc (Suc (Suc (Suc (Suc (Suc (Suc (Suc (Suc (Suc (Suc
    (Suc 0))))))))))))))))))))))))))))))))))))))))))))))))))))))))))))))))))))))))))))))))))))"
  by (simp add: digits_255_def)

lemma weight_255: "of_int (8 ^ digits_255) = (19 :: residue)"
proof -
  have "(of_int (8 ^ digits_255) :: residue) = of_int 19"
    by (rule of_int_residue_eq [THEN iffD2]) (simp add: digits_255_def p25519_def)
  then show ?thesis by simp
qed

definition times_19 :: "octal \<Rightarrow> octal \<Rightarrow> octal" where
  "times_19 n n2 = add 0 (O0 n2) (add 0 n2 n)"

definition reduce :: "octal \<Rightarrow> octal" where
  "reduce n = add 0 (low digits_255 n) (times_19 (high digits_255 n) (add 0 (high digits_255 n) (high digits_255 n)))"

lemma oct_res_reduce: "oct_res (reduce n) = oct_res n"
proof -
  have "oct_res n = of_int (val (low digits_255 n)) + of_int (8 ^ digits_255) * of_int (val (high digits_255 n))"
    unfolding oct_res_def using val_low_high [of n digits_255] by (metis of_int_add of_int_mult)
  then show ?thesis
    unfolding weight_255 by (simp add: oct_res_def reduce_def times_19_def val_add)
qed

text \<open>\<open>8\<^sup>8\<^sup>3 - 1\<close>, from which the modulus and the constants of the negation are made.\<close>

definition sevens :: octal where "sevens = complement 83 Oz"

lemma sevens_digits: "sevens = O7 (O7 (O7 (O7 (O7 (O7 (O7 (O7 (O7 (O7 (O7 (O7 (O7 (O7 (O7 (O7 (O7 (O7 (O7 (O7 (O7 (O7 (O7 (O7 (O7 (O7 (O7 (O7 (O7 (O7 (O7 (O7 (O7 (O7 (O7
    (O7 (O7 (O7 (O7 (O7 (O7 (O7 (O7 (O7 (O7 (O7 (O7 (O7 (O7 (O7 (O7 (O7 (O7 (O7 (O7 (O7 (O7 (O7 (O7 (O7 (O7 (O7 (O7 (O7 (O7 (O7 (O7 (O7 (O7 (O7
    (O7 (O7 (O7 (O7 (O7 (O7 (O7 (O7 (O7 (O7 (O7 (O7 (O7 Oz))))))))))))))))))))))))))))))))))))))))))))))))))))))))))))))))))))))))))))))))))"
  by (simp add: sevens_def eval_nat_numeral digit_def)

lemma val_sevens: "val sevens = 8 ^ 83 - 1"
proof -
  have "val (low k Oz) = 0" for k using val_low_high [of Oz k] by (simp add: high_Oz)
  then show ?thesis by (simp only: sevens_def val_complement diff_zero)
qed

definition modulus :: octal where "modulus = O5 (O5 sevens)"
definition minus_18 :: octal where "minus_18 = O3 (O3 sevens)"
definition minus_19 :: octal where "minus_19 = O2 (O3 sevens)"

lemma oct_res_constants: "oct_res modulus = 0" "oct_res minus_18 = - 18" "oct_res minus_19 = - 19"
proof -
  have "(of_int (val modulus) :: residue) = of_int 0" "(of_int (val minus_18) :: residue) = of_int (- 18)"
    "(of_int (val minus_19) :: residue) = of_int (- 19)"
    unfolding of_int_residue_eq by (simp_all add: modulus_def minus_18_def minus_19_def val_sevens p25519_def)
  then show "oct_res modulus = 0" "oct_res minus_18 = - 18" "oct_res minus_19 = - 19" by (simp_all add: oct_res_def)
qed

definition negate :: "octal \<Rightarrow> octal" where
  "negate n = add 0 (add 0 (complement digits_255 n) minus_18) (times (high digits_255 n) minus_19)"

lemma oct_res_negate: "oct_res (negate n) = - oct_res n"
proof -
  let ?l = "of_int (val (low digits_255 n)) :: residue" and ?h = "of_int (val (high digits_255 n)) :: residue"
  have n: "oct_res n = ?l + 19 * ?h"
    unfolding oct_res_def weight_255 [symmetric] using val_low_high [of n digits_255] by (metis of_int_add of_int_mult)
  have c: "(of_int (val (complement digits_255 n)) :: residue) = 18 - ?l"
    unfolding val_complement using weight_255 by (simp add: algebra_simps)
  have "oct_res (negate n) = of_int (val (complement digits_255 n)) + oct_res minus_18 + ?h * oct_res minus_19"
    by (simp add: oct_res_def negate_def val_add val_times)
  then show ?thesis unfolding n c oct_res_constants by (simp add: algebra_simps)
qed

definition square :: "residue \<Rightarrow> residue" where "square x = x * x"

definition is_zero :: "octal \<Rightarrow> bool" where "is_zero n \<longleftrightarrow> oct_res n = 0"

lemma is_zero_test: "same n Oz \<Longrightarrow> is_zero n = True" "same n modulus \<Longrightarrow> is_zero n = True"
  using oct_res_constants(1) by (simp_all add: is_zero_def same_def oct_res_def)

lemma oct_res_literals: "numeral n = oct_res (of_num n)" "1 = oct_res (O1 Oz)" "0 = oct_res Oz"
  by (simp_all add: oct_res_def val_of_num)

lemma oct_res_arith:
  "oct_res a + oct_res b = oct_res (add 0 a b)"
  "oct_res a * oct_res b = oct_res (reduce (reduce (times a b)))"
  "- oct_res a = oct_res (reduce (negate a))"
  "oct_res a - oct_res b = oct_res (reduce (add 0 a (negate b)))"
  "square (oct_res a) = oct_res (reduce (reduce (times a a)))"
  "(oct_res a = oct_res b) = is_zero (reduce (reduce (add 0 a (negate b))))"
proof -
  have sum: "oct_res (add 0 a b) = oct_res a + oct_res b" for a b by (simp add: oct_res_def val_add)
  have product: "oct_res (times a b) = oct_res a * oct_res b" for a b by (simp add: oct_res_def val_times)
  show "oct_res a + oct_res b = oct_res (add 0 a b)" "oct_res a * oct_res b = oct_res (reduce (reduce (times a b)))"
    "- oct_res a = oct_res (reduce (negate a))" "oct_res a - oct_res b = oct_res (reduce (add 0 a (negate b)))"
    "square (oct_res a) = oct_res (reduce (reduce (times a a)))"
    "(oct_res a = oct_res b) = is_zero (reduce (reduce (add 0 a (negate b))))"
    by (simp_all add: oct_res_reduce oct_res_negate sum product square_def is_zero_def)
qed

lemma residue_power:
  "x ^ numeral Num.One = (x :: residue)"
  "x ^ numeral (Num.Bit0 n) = square (x ^ numeral n)"
  "x ^ numeral (Num.Bit1 n) = x * square (x ^ numeral n)"
proof -
  show "x ^ numeral Num.One = x" by (simp only: numeral_One power_one_right)
  show "x ^ numeral (Num.Bit0 n) = square (x ^ numeral n)" by (simp only: numeral_Bit0 power_add square_def)
  show "x ^ numeral (Num.Bit1 n) = x * square (x ^ numeral n)"
    by (simp only: numeral_Bit1 power_add square_def power_one_right mult.commute)
qed

lemmas residue_eval = oct_res_literals oct_res_arith residue_power is_zero_test reduce_def times_19_def negate_def
  modulus_def minus_18_def minus_19_def sevens_digits   digits_255_unary low_digits high_digits complement_digits octal_eval of_int_numeral of_int_neg_numeral of_int_1 of_int_0 simp_thms

subsection \<open>The modulus is prime\<close>

lemma two_power_order: "(2 :: residue) ^ 57896044618658097711785492504343953926634992332820282019728792003956564819948 = 1"
  by (simp only: residue_eval)

lemma two_power_cofactor: "((2 :: residue) ^ 781764 - 1) * 55540832096118778044507775605005710249233119951144946814680141076505643269084 = 1"
  by (simp only: residue_eval)

lemma p25519_dvd: "p25519 dvd a \<longleftrightarrow> (of_int a :: residue) = 0"
  using of_int_residue_eq [of a 0] by (simp add: dvd_eq_mod_eq_0)

text \<open>The prime divisor of \<open>p - 1\<close>; its cofactor stays folded, so that its power of two is not multiplied out.\<close>

definition q236 :: int where "q236 = 74058212732561358302231226437062788676166966415465897661863160754340907"

definition cofactor :: nat where "cofactor = 781764"

lemma p25519_prime: "is_prime p25519"
proof (rule pocklington [of _ "[q236]"])
  have "cofactor * nat q236 = 57896044618658097711785492504343953926634992332820282019728792003956564819948" by (simp add: cofactor_def q236_def)
  then have "(2 :: residue) ^ (cofactor * nat q236) = 1" by (simp only: two_power_order)
  then have "p25519 dvd (2 ^ cofactor) ^ nat q236 - 1"
    unfolding p25519_dvd by (simp add: power_mult)
  moreover have "p25519 dvd (2 ^ cofactor - 1) * 55540832096118778044507775605005710249233119951144946814680141076505643269084 - 1"
    using two_power_cofactor unfolding p25519_dvd cofactor_def [symmetric] by simp
  ultimately have "factor_divides p25519 q236" by (rule pocklington_factor [OF prime_236_bits [folded q236_def]])
  then show "list_all (factor_divides p25519) [q236]" by simp
qed (simp_all add: p25519_def q236_def)

subsection \<open>The field\<close>

lemma of_int_Rep_residue: "of_int (Rep_residue x) = x"
  by (metis Rep_residue Rep_residue_inject atLeastLessThan_iff mod_pos_pos_trivial of_int_residue)

definition order_minus_1 :: nat where "order_minus_1 = nat (p25519 - 1)"

lemma residue_fermat:
  assumes "x \<noteq> 0"
  shows "x ^ order_minus_1 = (1 :: residue)"
proof -
  have "\<not> p25519 dvd Rep_residue x" using assms by (simp add: p25519_dvd of_int_Rep_residue)
  from fermat [OF p25519_prime this] have "of_int (Rep_residue x) ^ order_minus_1 - (1 :: residue) = 0"
    unfolding p25519_dvd order_minus_1_def by simp
  then show ?thesis by (simp add: of_int_Rep_residue)
qed

lemma order_minus_1: "order_minus_1 = Suc (2 ^ 255 - 21)"
  by (simp add: order_minus_1_def p25519_def)

instantiation residue :: field
begin

definition inverse_residue :: "residue \<Rightarrow> residue" where
  "inverse_residue x = x ^ (2 ^ 255 - 21)"

definition divide_residue :: "residue \<Rightarrow> residue \<Rightarrow> residue" where
  "divide_residue x y = x * inverse y"

instance
proof
  fix x y :: residue
  obtain k :: nat where k: "k = 2 ^ 255 - 21" by blast
  show "x \<noteq> 0 \<Longrightarrow> inverse x * x = 1"
    using residue_fermat [of x] unfolding order_minus_1 inverse_residue_def k [symmetric] by (simp add: mult.commute)
  show "x div y = x * inverse y" by (simp add: divide_residue_def)
  have "0 < k" by (simp add: k)
  then show "inverse (0 :: residue) = 0" unfolding inverse_residue_def k [symmetric] by (simp add: zero_power)
qed

end

lemma two_nonzero: "(2 :: residue) \<noteq> 0"
proof
  assume "(2 :: residue) = 0"
  then have "(of_int 2 :: residue) = of_int 0" by simp
  then show False unfolding of_int_residue_eq by (simp add: p25519_def)
qed

text \<open>A square has the power \<open>(p - 1) / 2\<close> equal to 1.\<close>

lemma square_power:
  assumes "x \<noteq> (0 :: residue)" "x = y * y" "order_minus_1 = 2 * k"
  shows "x ^ k = 1"
proof -
  have "y \<noteq> 0" using assms(1,2) by auto
  have "x ^ k = y ^ order_minus_1" unfolding assms(2,3) by (simp add: power_mult power2_eq_square)
  then show ?thesis using residue_fermat [OF \<open>y \<noteq> 0\<close>] by simp
qed

text \<open>
  The constant of the curve is \<open>- 121665 / 121666\<close>. It is not a square, because \<open>- 1\<close> is one and
  \<open>121665 * 121666\<close> is not.
\<close>

lemma nonsquare_power: "(14802493890 :: residue) ^ 28948022309329048855892746252171976963317496166410141009864396001978282409974 = - 1"
  by (simp only: residue_eval)

lemma minus_one_square: "square 19681161376707505956807079304988542015446066515923890162744021073123829784752 = (- 1 :: residue)"
  by (simp only: residue_eval)

lemma curve_constant_nonsquare:
  assumes "d * 121666 = (- 121665 :: residue)"
  shows "d \<noteq> x * x"
proof
  assume d: "d = x * x"
  obtain i :: residue where i: "i * i = - 1" using minus_one_square unfolding square_def by blast
  have "d * 121666 * 121666 = - 121665 * 121666" unfolding assms ..
  then have e: "(14802493890 :: residue) = (i * (x * 121666)) * (i * (x * 121666))"
  proof -
    have "(i * (x * 121666)) * (i * (x * 121666)) = (i * i) * (d * 121666 * 121666)" unfolding d by (simp only: mult_ac)
    also have "\<dots> = 121665 * 121666" unfolding i assms by simp
    also have "\<dots> = 14802493890" by simp
    finally show ?thesis by (rule sym)
  qed
  have "(14802493890 :: residue) ^ 28948022309329048855892746252171976963317496166410141009864396001978282409974 \<noteq> 1"
  proof
    assume "(14802493890 :: residue) ^ 28948022309329048855892746252171976963317496166410141009864396001978282409974 = 1"
    then have "(- 1 :: residue) = 1" by (simp only: nonsquare_power)
    then have "(of_int (- 1) :: residue) = of_int 1" by simp
    then show False unfolding of_int_residue_eq by (simp add: p25519_def)
  qed
  moreover have "(14802493890 :: residue) \<noteq> 0"
  proof
    assume "(14802493890 :: residue) = 0"
    then have "(of_int 14802493890 :: residue) = of_int 0" by simp
    then show False unfolding of_int_residue_eq by (simp add: p25519_def)
  qed
  moreover have "order_minus_1 = 2 * 28948022309329048855892746252171976963317496166410141009864396001978282409974" by (simp add: order_minus_1_def p25519_def)
  ultimately show False using square_power [OF _ e] by blast
qed

end
