(* ===== verification/PointProps.thy ===== *)
theory PointProps
  imports Point25519 FieldPrime
begin

text \<open>
  The point operations against the formulas of a twisted Edwards curve over the residues: which
  formula each operation computes, that none overflows, and that addition and doubling stay on the
  curve. The addition has no exceptions: its denominators never vanish, because the residues are a
  field in which \<open>- 1\<close> is a square and the constant of the curve is not.
\<close>

subsection \<open>The curve over the residues\<close>

text \<open>Extended coordinates \<open>(x, y, z, t)\<close> with \<open>x y = z t\<close>, completed points before the conversion.\<close>

type_synonym point = "residue \<times> residue \<times> residue \<times> residue"

definition edwards_d :: residue where "edwards_d = fe_res fe_d"

definition on_curve :: "point \<Rightarrow> bool" where
  "on_curve = (\<lambda>(x, y, z, t). z \<noteq> 0 \<and> y * y - x * x = z * z + edwards_d * (t * t) \<and> x * y = z * t)"

definition extended :: "point \<Rightarrow> point" where
  "extended = (\<lambda>(x, y, z, t). (x * t, y * z, z * t, x * y))"

definition add_formula :: "point \<Rightarrow> point \<Rightarrow> point" where
  "add_formula = (\<lambda>(x1, y1, z1, t1) (x2, y2, z2, t2).
     let a = (y1 + x1) * (y2 + x2);
         b = (y1 - x1) * (y2 - x2);
         c = 2 * edwards_d * t1 * t2;
         e = 2 * z1 * z2
     in (a - b, a + b, e + c, e - c))"

definition neg_formula :: "point \<Rightarrow> point" where
  "neg_formula = (\<lambda>(x, y, z, t). (- x, y, z, - t))"

definition dbl_formula :: "point \<Rightarrow> point" where
  "dbl_formula = (\<lambda>(x, y, z, t).
     let s = y * y + x * x;
         m = y * y - x * x
     in ((x + y) * (x + y) - s, s, m, 2 * (z * z) - m))"

definition zero_point :: point where "zero_point = (0, 1, 1, 0)"

lemma on_curve_zero: "on_curve zero_point"
  by (simp add: zero_point_def on_curve_def)

lemma on_curve_neg: "on_curve P \<Longrightarrow> on_curve (neg_formula P)"
  by (cases P) (auto simp: on_curve_def neg_formula_def)

lemma quadruple: "(2 * a) * (2 * b) = 4 * (a * b)" for a b :: "'a::comm_ring_1"
proof -
  have "(2 * a) * (2 * b) = (2 * 2) * (a * b)" by (simp only: mult_ac)
  then show ?thesis by simp
qed

lemma dbl_on_curve:
  fixes x y z t d :: "'a::comm_ring_1"
  assumes "y * y - x * x = z * z + d * (t * t)" "x * y = z * t"
  defines "S \<equiv> y * y + x * x" and "D \<equiv> y * y - x * x" and "m \<equiv> x * y" and "W \<equiv> 2 * (z * z) - (y * y - x * x)"
  shows "(S * D) * (S * D) - (2 * m * W) * (2 * m * W) = (D * W) * (D * W) + d * ((2 * m * S) * (2 * m * S))"
proof -
  have S: "S * S = D * D + 4 * (m * m)" unfolding S_def D_def m_def by (simp add: algebra_simps)
  have D: "D * D = W * W + 4 * (d * (m * m))"
    unfolding D_def W_def m_def assms(1) assms(2) by (simp add: algebra_simps)
  have "(S * D) * (S * D) = S * S * (D * D)" by (simp add: mult_ac)
  also have "\<dots> = S * S * (W * W) + 4 * (d * (m * m)) * (S * S)" unfolding D by (simp add: algebra_simps)
  also have "S * S * (W * W) = D * D * (W * W) + 4 * (m * m) * (W * W)"
    unfolding S by (simp add: algebra_simps)
  finally show ?thesis by (simp add: quadruple mult.assoc mult.left_commute mult.commute)
qed

lemma add_on_curve:
  fixes x1 y1 z1 t1 x2 y2 z2 t2 d :: "'a::comm_ring_1"
  assumes P: "y1 * y1 - x1 * x1 = z1 * z1 + d * (t1 * t1)" "x1 * y1 = z1 * t1"
    and Q: "y2 * y2 - x2 * x2 = z2 * z2 + d * (t2 * t2)" "x2 * y2 = z2 * t2"
  defines "E \<equiv> x1 * y2 + x2 * y1" and "H \<equiv> y1 * y2 + x1 * x2"
    and "G \<equiv> z1 * z2 + d * (t1 * t2)" and "F \<equiv> z1 * z2 - d * (t1 * t2)"
  shows "(H * G) * (H * G) - (E * F) * (E * F) = (G * F) * (G * F) + d * ((E * H) * (E * H))"
proof -
  let ?V = "z1 * t2 + z2 * t1" and ?K = "y1 * y2 - x1 * x2" and ?u = "(z1 * z2) * (t1 * t2)"
  have "H * H - E * E = (y1 * y1 - x1 * x1) * (y2 * y2 - x2 * x2)"
    unfolding H_def E_def by (simp add: algebra_simps)
  also have "\<dots> = F * F + d * (?V * ?V)" unfolding P(1) Q(1) F_def by (simp add: algebra_simps)
  finally have HE: "H * H = E * E + F * F + d * (?V * ?V)" by (simp add: algebra_simps)
  have "E * ?K = (x1 * y1) * (y2 * y2 - x2 * x2) + (x2 * y2) * (y1 * y1 - x1 * x1)"
    unfolding E_def by (simp add: algebra_simps)
  also have "\<dots> = ?V * G" unfolding P Q G_def by (simp add: algebra_simps)
  finally have EK: "E * ?K = ?V * G" .
  have "H * H = ?K * ?K + 4 * ((x1 * y1) * (x2 * y2))" unfolding H_def by (simp add: algebra_simps)
  then have HK: "H * H = ?K * ?K + 4 * ?u" unfolding P(2) Q(2) by (simp add: mult_ac)
  have GF: "G * G = F * F + 4 * (d * ?u)" unfolding G_def F_def by (simp add: algebra_simps)
  have "(E * H) * (E * H) = E * E * (H * H)" by (simp add: mult_ac)
  also have "\<dots> = (E * ?K) * (E * ?K) + 4 * ?u * (E * E)" unfolding HK by (simp add: algebra_simps)
  also have "\<dots> = (?V * ?V) * (G * G) + 4 * ?u * (E * E)" unfolding EK by (simp add: mult_ac)
  finally have EH: "(E * H) * (E * H) = (?V * ?V) * (G * G) + 4 * ?u * (E * E)" .
  have "(H * G) * (H * G) = H * H * (G * G)" by (simp add: mult_ac)
  also have "\<dots> = E * E * (G * G) + F * F * (G * G) + d * (?V * ?V) * (G * G)" unfolding HE by (simp add: algebra_simps)
  also have "E * E * (G * G) = E * E * (F * F) + 4 * (d * ?u) * (E * E)" unfolding GF by (simp add: algebra_simps)
  finally show ?thesis unfolding EH by (simp add: algebra_simps)
qed

text \<open>No denominator of a sum vanishes.\<close>

lemma edwards_d_ratio: "edwards_d * 121666 = - 121665"
proof -
  have "edwards_d * 121666 = of_int (fe_val fe_d * 121666)" by (simp add: edwards_d_def fe_res_def)
  also have "\<dots> = of_int (- 121665)" by (rule of_int_residue_eq [THEN iffD2]) (simp add: fe_d_def fe_val_10 p25519_def)
  finally show ?thesis by simp
qed

lemma sum_square_relation:
  fixes x1 y1 z1 t1 x2 y2 z2 t2 d e i :: "'a::comm_ring_1"
  assumes P: "y1 * y1 - x1 * x1 = z1 * z1 + d * (t1 * t1)" "x1 * y1 = z1 * t1"
    and Q: "y2 * y2 - x2 * x2 = z2 * z2 + d * (t2 * t2)" "x2 * y2 = z2 * t2"
    and "i * i = - 1" "e * e = 1" "z1 * z2 = e * (d * (t1 * t2))"
  shows "(i * x1 + e * y1) * (i * x1 + e * y1) * (z2 * z2) = d * (t1 * t1) * ((i * x2 + y2) * (i * x2 + y2))"
proof -
  have "(i * x1 + e * y1) * (i * x1 + e * y1) = (i * i) * (x1 * x1) + (e * e) * (y1 * y1) + 2 * i * e * (x1 * y1)"
    by (simp add: algebra_simps)
  also have "\<dots> = z1 * z1 + d * (t1 * t1) + 2 * i * e * (z1 * t1)"
    unfolding assms(5,6) P(2) using P(1) by (simp add: algebra_simps)
  finally have l: "(i * x1 + e * y1) * (i * x1 + e * y1) * (z2 * z2) =
      (z1 * z2) * (z1 * z2) + d * (t1 * t1) * (z2 * z2) + 2 * i * e * (z1 * z2) * (t1 * z2)"
    by (simp add: algebra_simps)
  have "(i * x2 + y2) * (i * x2 + y2) = (i * i) * (x2 * x2) + y2 * y2 + 2 * i * (x2 * y2)"
    by (simp add: algebra_simps)
  also have "\<dots> = z2 * z2 + d * (t2 * t2) + 2 * i * (z2 * t2)"
    unfolding assms(5) Q(2) using Q(1) by (simp add: algebra_simps)
  finally have r: "d * (t1 * t1) * ((i * x2 + y2) * (i * x2 + y2)) =
      d * (t1 * t1) * (z2 * z2) + (d * (t1 * t2)) * (d * (t1 * t2)) + 2 * i * d * (t1 * t1) * (z2 * t2)"
    by (simp add: algebra_simps)
  have "(z1 * z2) * (z1 * z2) = (e * e) * ((d * (t1 * t2)) * (d * (t1 * t2)))" unfolding assms(7) by (simp add: mult_ac)
  moreover have "2 * i * e * (z1 * z2) * (t1 * z2) = (e * e) * (2 * i * d * (t1 * t1) * (z2 * t2))"
    unfolding assms(7) by (simp add: mult_ac)
  ultimately show ?thesis unfolding l r assms(6) by simp
qed

lemma no_exception:
  fixes x1 y1 z1 t1 x2 y2 z2 t2 d e i :: residue
  assumes P: "y1 * y1 - x1 * x1 = z1 * z1 + d * (t1 * t1)" "x1 * y1 = z1 * t1" "z1 \<noteq> 0"
    and Q: "y2 * y2 - x2 * x2 = z2 * z2 + d * (t2 * t2)" "x2 * y2 = z2 * t2" "z2 \<noteq> 0"
    and "i * i = - 1" "e * e = 1" "\<And>s. d \<noteq> s * s"
  shows "z1 * z2 \<noteq> e * (d * (t1 * t2))"
proof
  assume eq: "z1 * z2 = e * (d * (t1 * t2))"
  have t: "t1 \<noteq> 0" "t2 \<noteq> 0" and z: "z1 * z2 \<noteq> 0" using P(3) Q(3) eq by auto
  have square: "u = 0" if "(v * v) * (z2 * z2) = d * (t1 * t1) * (u * u)" for u v
  proof (rule ccontr)
    assume "u \<noteq> 0"
    then have "d = (v * z2 / (t1 * u)) * (v * z2 / (t1 * u))" using that t(1) by (simp add: field_simps)
    then show False using assms(9) by blast
  qed
  have "i * x2 + y2 = 0"
    by (rule square [OF sum_square_relation [OF P(1,2) Q(1,2) assms(7,8) eq]])
  moreover have "i * - x2 + y2 = 0"
  proof (rule square)
    show "(i * x1 + - e * y1) * (i * x1 + - e * y1) * (z2 * z2) = d * (t1 * t1) * ((i * - x2 + y2) * (i * - x2 + y2))"
      using sum_square_relation [of y1 x1 z1 d t1 y2 "- x2" z2 "- t2" i "- e"] P Q assms(7,8) eq by simp
  qed
  ultimately have "2 * y2 = 0" by (simp add: algebra_simps)
  then have "y2 = 0" using two_nonzero by simp
  then have "z2 * t2 = 0" using Q(2) by simp
  then show False using Q(3) t(2) by simp
qed

lemma denominators_nonzero:
  assumes "on_curve (x1, y1, z1, t1)" "on_curve (x2, y2, z2, t2)"
  shows "z1 * z2 + edwards_d * (t1 * t2) \<noteq> 0 \<and> z1 * z2 - edwards_d * (t1 * t2) \<noteq> 0"
proof -
  obtain i :: residue where i: "i * i = - 1" using minus_one_square unfolding square_def by blast
  have "z1 * z2 \<noteq> e * (edwards_d * (t1 * t2))" if "e * e = 1" for e
    using assms curve_constant_nonsquare [OF edwards_d_ratio] i that unfolding on_curve_def
    by (intro no_exception [of y1 x1 z1 edwards_d t1 y2 x2 z2 t2 i e]) simp_all
  from this [of 1] this [of "- 1"] show ?thesis by (auto simp: add_eq_0_iff)
qed

lemma on_curve_dbl: "on_curve P \<Longrightarrow> on_curve (extended (dbl_formula P))"
proof -
  assume P: "on_curve P"
  obtain x y z t where xyzt: "P = (x, y, z, t)" by (cases P)
  let ?S = "y * y + x * x" and ?D = "y * y - x * x" and ?W = "2 * (z * z) - (y * y - x * x)"
  have "(x + y) * (x + y) - ?S = 2 * (x * y)" by (simp add: algebra_simps)
  then have ext: "extended (dbl_formula P) = (2 * (x * y) * ?W, ?S * ?D, ?D * ?W, 2 * (x * y) * ?S)"
    unfolding xyzt dbl_formula_def extended_def Let_def prod.case by simp
  have "(?S * ?D) * (?S * ?D) - (2 * (x * y) * ?W) * (2 * (x * y) * ?W) =
      (?D * ?W) * (?D * ?W) + edwards_d * ((2 * (x * y) * ?S) * (2 * (x * y) * ?S))"
    by (rule dbl_on_curve [of y x z edwards_d t]) (use P in \<open>simp_all add: xyzt on_curve_def\<close>)
  moreover have "?D * ?W \<noteq> 0"
  proof -
    have "?D = z * z + edwards_d * (t * t)" "?W = z * z - edwards_d * (t * t)" using P by (simp_all add: xyzt on_curve_def)
    then show ?thesis using denominators_nonzero [of x y z t x y z t] P by (simp add: xyzt)
  qed
  ultimately show ?thesis unfolding ext on_curve_def prod.case by (simp only: mult_ac simp_thms)
qed

lemma on_curve_scale:
  fixes k x y z t d :: "'a::comm_ring_1"
  assumes "y * y - x * x = z * z + d * (t * t)"
  shows "(k * y) * (k * y) - (k * x) * (k * x) = (k * z) * (k * z) + d * ((k * t) * (k * t))"
proof -
  have "(k * y) * (k * y) - (k * x) * (k * x) = k * k * (y * y - x * x)" by (simp add: algebra_simps)
  then show ?thesis unfolding assms by (simp add: algebra_simps)
qed

lemma on_curve_add: "on_curve P \<Longrightarrow> on_curve Q \<Longrightarrow> on_curve (extended (add_formula P Q))"
proof -
  assume on: "on_curve P" "on_curve Q"
  obtain x1 y1 z1 t1 x2 y2 z2 t2 where PQ: "P = (x1, y1, z1, t1)" "Q = (x2, y2, z2, t2)" by (cases P, cases Q)
  let ?E = "x1 * y2 + x2 * y1" and ?H = "y1 * y2 + x1 * x2"
    and ?G = "z1 * z2 + edwards_d * (t1 * t2)" and ?F = "z1 * z2 - edwards_d * (t1 * t2)"
  have "add_formula P Q = (2 * ?E, 2 * ?H, 2 * ?G, 2 * ?F)"
    unfolding PQ add_formula_def Let_def prod.case by (simp only: prod.inject, intro conjI) (simp_all add: algebra_simps)
  then have ext: "extended (add_formula P Q) = (4 * (?E * ?F), 4 * (?H * ?G), 4 * (?G * ?F), 4 * (?E * ?H))"
    by (simp only: extended_def prod.case quadruple)
  have "(?H * ?G) * (?H * ?G) - (?E * ?F) * (?E * ?F) = (?G * ?F) * (?G * ?F) + edwards_d * ((?E * ?H) * (?E * ?H))"
    using on unfolding PQ on_curve_def by (intro add_on_curve) simp_all
  moreover have "4 * (?G * ?F) \<noteq> 0"
  proof -
    have "(4 :: residue) = 2 * 2" by simp
    then have "(4 :: residue) \<noteq> 0" using two_nonzero by (metis mult_eq_0_iff)
    then show ?thesis using denominators_nonzero [of x1 y1 z1 t1 x2 y2 z2 t2] on by (simp add: PQ)
  qed
  ultimately show ?thesis
    using on_curve_scale [of "?H * ?G" "?E * ?F" "?G * ?F" edwards_d "?E * ?H" 4]
    unfolding ext on_curve_def by (simp only: prod.case) (simp add: mult_ac)
qed

subsection \<open>What the operations compute\<close>

definition p3_point :: "ge_p3 \<Rightarrow> point" where
  "p3_point p = (fe_res (X3 p), fe_res (Y3 p), fe_res (Z3 p), fe_res (T3 p))"

definition p1p1_point :: "ge_p1p1 \<Rightarrow> point" where
  "p1p1_point p = (fe_res (X1 p), fe_res (Y1 p), fe_res (Z1 p), fe_res (T1 p))"

definition p2_point :: "ge_p2 \<Rightarrow> residue \<times> residue \<times> residue" where
  "p2_point p = (fe_res (X2 p), fe_res (Y2 p), fe_res (Z2 p))"

definition plane :: "point \<Rightarrow> residue \<times> residue \<times> residue" where
  "plane = (\<lambda>(x, y, z, t). (x, y, z))"

text \<open>The bounds of the coordinates in each representation.\<close>

definition p3_ok :: "ge_p3 \<Rightarrow> bool" where
  "p3_ok p \<longleftrightarrow> fe_tight (X3 p) \<and> fe_tight (Y3 p) \<and> fe_tight (Z3 p) \<and> fe_tight (T3 p)"

definition p2_ok :: "ge_p2 \<Rightarrow> bool" where
  "p2_ok p \<longleftrightarrow> fe_tight (X2 p) \<and> fe_tight (Y2 p) \<and> fe_tight (Z2 p)"

definition p1p1_ok :: "ge_p1p1 \<Rightarrow> bool" where
  "p1p1_ok p \<longleftrightarrow> fe_loose (X1 p) \<and> fe_loose (Y1 p) \<and> fe_loose (Z1 p) \<and> fe_loose (T1 p)"

text \<open>A cached point and a precomputed point stand for a point in extended coordinates.\<close>

definition cached_point :: "ge_cached \<Rightarrow> point \<Rightarrow> bool" where
  "cached_point q = (\<lambda>(x, y, z, t). fe_loose (YplusX q) \<and> fe_loose (YminusX q) \<and> fe_tight (Zc q) \<and> fe_tight (T2d q) \<and>
     fe_res (YplusX q) = y + x \<and> fe_res (YminusX q) = y - x \<and> fe_res (Zc q) = z \<and>
     fe_res (T2d q) = 2 * edwards_d * t)"

definition precomp_point :: "ge_precomp \<Rightarrow> point \<Rightarrow> bool" where
  "precomp_point q = (\<lambda>(x, y, z, t). fe_loose (yplusx q) \<and> fe_loose (yminusx q) \<and> fe_loose (xy2d q) \<and>
     fe_res (yplusx q) = y + x \<and> fe_res (yminusx q) = y - x \<and> z = 1 \<and> fe_res (xy2d q) = 2 * edwards_d * t)"

lemma tight_bound: "fe_tight f \<Longrightarrow> fe_bound 33890959 16945479 f"
  by (simp add: fe_tight_def)

lemma loose_bound: "fe_bound a b f \<Longrightarrow> a \<le> 110729625 \<Longrightarrow> b \<le> 55364812 \<Longrightarrow> fe_loose f"
  unfolding fe_loose_def by (rule fe_bound_mono)

text \<open>Sums and differences of tight elements, the shapes in which the point operations use them.\<close>

lemma fe_add_tight:
  "fe_tight f \<Longrightarrow> fe_tight g \<Longrightarrow>
   succeeds (fe_add f g) (\<lambda>h. fe_bound 67781918 33890958 h \<and> fe_loose h \<and> fe_res h = fe_res f + fe_res g)"
  by (rule succeeds_weaken [OF fe_add_sums [OF tight_bound tight_bound]])
    (auto simp: INT32_def intro: loose_bound)

lemma fe_sub_tight:
  "fe_tight f \<Longrightarrow> fe_tight g \<Longrightarrow>
   succeeds (fe_sub f g) (\<lambda>h. fe_bound 67781918 33890958 h \<and> fe_loose h \<and> fe_res h = fe_res f - fe_res g)"
  by (rule succeeds_weaken [OF fe_sub_subtracts [OF tight_bound tight_bound]])
    (auto simp: INT32_def intro: loose_bound)

lemma fe_add_double:
  "fe_bound 67781918 33890958 f \<Longrightarrow> fe_tight g \<Longrightarrow>
   succeeds (fe_add f g) (\<lambda>h. fe_loose h \<and> fe_res h = fe_res f + fe_res g)"
  by (rule succeeds_weaken [OF fe_add_sums [OF _ tight_bound]])
    (auto simp: INT32_def intro: loose_bound)

lemma fe_sub_double:
  "fe_bound 67781918 33890958 f \<Longrightarrow> fe_tight g \<Longrightarrow>
   succeeds (fe_sub f g) (\<lambda>h. fe_loose h \<and> fe_res h = fe_res f - fe_res g)"
  by (rule succeeds_weaken [OF fe_sub_subtracts [OF _ tight_bound]])
    (auto simp: INT32_def intro: loose_bound)

lemma fe_sub_double':
  "fe_tight f \<Longrightarrow> fe_bound 67781918 33890958 g \<Longrightarrow>
   succeeds (fe_sub f g) (\<lambda>h. fe_loose h \<and> fe_res h = fe_res f - fe_res g)"
  by (rule succeeds_weaken [OF fe_sub_subtracts [OF tight_bound]])
    (auto simp: INT32_def intro: loose_bound)

lemmas fe_steps = succeeds_bind [OF fe_add_tight] succeeds_bind [OF fe_sub_tight]
  succeeds_bind [OF fe_mul_multiplies] succeeds_bind [OF fe_sq_squares] succeeds_bind [OF fe_sq2_doubles]

lemmas fe_double_steps = succeeds_bind [OF fe_add_double] succeeds_bind [OF fe_sub_double]
  succeeds_bind [OF fe_sub_double']

lemma ge_p1p1_to_p3_extends:
  assumes "p1p1_ok p"
  shows "succeeds (ge_p1p1_to_p3 p) (\<lambda>r. p3_ok r \<and> p3_point r = extended (p1p1_point p))"
  unfolding ge_p1p1_to_p3_def using assms
  by (intro fe_steps) (simp_all add: p1p1_ok_def p3_ok_def p3_point_def p1p1_point_def extended_def)

lemma ge_p1p1_to_p2_extends:
  assumes "p1p1_ok p"
  shows "succeeds (ge_p1p1_to_p2 p) (\<lambda>r. p2_ok r \<and> p2_point r = plane (extended (p1p1_point p)))"
  unfolding ge_p1p1_to_p2_def using assms
  by (intro fe_steps) (simp_all add: p1p1_ok_def p2_ok_def p2_point_def p1p1_point_def extended_def plane_def)

lemma ge_add_adds:
  assumes "p3_ok p" "cached_point q Q"
  shows "succeeds (ge_add p q) (\<lambda>r. p1p1_ok r \<and> p1p1_point r = add_formula (p3_point p) Q)"
proof -
  obtain x2 y2 z2 t2 where Q: "Q = (x2, y2, z2, t2)" by (cases Q)
  show ?thesis
    unfolding ge_add_def using assms
    by (intro fe_steps fe_double_steps)
      (simp_all add: p1p1_ok_def p3_ok_def p3_point_def p1p1_point_def cached_point_def tight_loose
        add_formula_def Let_def Q)
qed

lemma ge_sub_subtracts:
  assumes "p3_ok p" "cached_point q Q"
  shows "succeeds (ge_sub p q) (\<lambda>r. p1p1_ok r \<and> p1p1_point r = add_formula (p3_point p) (neg_formula Q))"
proof -
  obtain x2 y2 z2 t2 where Q: "Q = (x2, y2, z2, t2)" by (cases Q)
  show ?thesis
    unfolding ge_sub_def using assms
    by (intro fe_steps fe_double_steps)
      (simp_all add: p1p1_ok_def p3_ok_def p3_point_def p1p1_point_def cached_point_def tight_loose
        add_formula_def neg_formula_def Let_def Q)
qed

lemma ge_madd_adds:
  assumes "p3_ok p" "precomp_point q Q"
  shows "succeeds (ge_madd p q) (\<lambda>r. p1p1_ok r \<and> p1p1_point r = add_formula (p3_point p) Q)"
proof -
  obtain x2 y2 z2 t2 where Q: "Q = (x2, y2, z2, t2)" by (cases Q)
  show ?thesis
    unfolding ge_madd_def using assms
    by (intro fe_steps fe_double_steps)
      (simp_all add: p1p1_ok_def p3_ok_def p3_point_def p1p1_point_def precomp_point_def tight_loose
        add_formula_def Let_def Q)
qed

lemma ge_msub_subtracts:
  assumes "p3_ok p" "precomp_point q Q"
  shows "succeeds (ge_msub p q) (\<lambda>r. p1p1_ok r \<and> p1p1_point r = add_formula (p3_point p) (neg_formula Q))"
proof -
  obtain x2 y2 z2 t2 where Q: "Q = (x2, y2, z2, t2)" by (cases Q)
  show ?thesis
    unfolding ge_msub_def using assms
    by (intro fe_steps fe_double_steps)
      (simp_all add: p1p1_ok_def p3_ok_def p3_point_def p1p1_point_def precomp_point_def tight_loose
        add_formula_def neg_formula_def Let_def Q)
qed

lemma ge_p2_dbl_doubles:
  assumes "p2_ok p" "p2_point p = plane P"
  shows "succeeds (ge_p2_dbl p) (\<lambda>r. p1p1_ok r \<and> p1p1_point r = dbl_formula P)"
proof -
  obtain x y z t where P: "P = (x, y, z, t)" by (cases P)
  show ?thesis
    unfolding ge_p2_dbl_def using assms
    by (intro fe_steps fe_double_steps)
      (simp_all add: p1p1_ok_def p2_ok_def p2_point_def p1p1_point_def tight_loose plane_def
        dbl_formula_def Let_def P)
qed

lemma p3_to_p2: "p3_ok p \<Longrightarrow> p2_ok (ge_p3_to_p2 p)" "p2_point (ge_p3_to_p2 p) = plane (p3_point p)"
  by (simp_all add: p3_ok_def p2_ok_def ge_p3_to_p2_def fe_copy_def p2_point_def p3_point_def plane_def)

lemma ge_p3_dbl_doubles:
  "p3_ok p \<Longrightarrow> succeeds (ge_p3_dbl p) (\<lambda>r. p1p1_ok r \<and> p1p1_point r = dbl_formula (p3_point p))"
  unfolding ge_p3_dbl_def by (rule ge_p2_dbl_doubles) (simp_all add: p3_to_p2)

lemma fe_d_tight: "fe_tight fe_d" "fe_tight fe_d2" "fe_tight fe_sqrtm1"
  by (simp_all add: fe_tight_def fe_d_def fe_d2_def fe_sqrtm1_def)

lemma fe_d2_twice: "fe_res fe_d2 = 2 * edwards_d"
proof -
  have "fe_val fe_d2 mod p25519 = (2 * fe_val fe_d) mod p25519"
    by (simp add: fe_d_def fe_d2_def fe_val_10 p25519_def)
  then have "fe_res fe_d2 = of_int (2 * fe_val fe_d)" by (simp only: fe_res_def of_int_residue_eq)
  then show ?thesis by (simp add: edwards_d_def fe_res_def)
qed

lemma ge_p3_to_cached_caches:
  assumes "p3_ok p"
  shows "succeeds (ge_p3_to_cached p) (\<lambda>q. cached_point q (p3_point p))"
  unfolding ge_p3_to_cached_def Let_def using assms
  by (intro fe_steps)
    (simp_all add: p3_ok_def p3_point_def cached_point_def tight_loose fe_d_tight fe_d2_twice fe_copy_def mult_ac)

lemma p2_0_ok: "p2_ok ge_p2_0" "p2_point ge_p2_0 = plane zero_point"
  by (simp_all add: p2_ok_def ge_p2_0_def p2_point_def plane_def zero_point_def)

lemma p3_0_ok: "p3_ok ge_p3_0" "p3_point ge_p3_0 = zero_point"
  by (simp_all add: p3_ok_def ge_p3_0_def p3_point_def zero_point_def)

text \<open>Three doublings.\<close>

definition double_point :: "point \<Rightarrow> point" where
  "double_point P = extended (dbl_formula P)"

lemma ge_mul8_doubles:
  assumes "p2_ok p" "p2_point p = plane P"
  shows "succeeds (ge_mul8 p) (\<lambda>r. p1p1_ok r \<and> extended (p1p1_point r) = double_point (double_point (double_point P)))"
  unfolding ge_mul8_def double_point_def
  apply (rule succeeds_bind [OF ge_p2_dbl_doubles [OF assms]])
  apply (rule succeeds_bind [OF ge_p1p1_to_p2_extends], blast)
  apply (rule succeeds_bind [OF ge_p2_dbl_doubles], blast, force)
  apply (rule succeeds_bind [OF ge_p1p1_to_p2_extends], blast)
  apply (rule succeeds_weaken [OF ge_p2_dbl_doubles], blast, force)
  by simp

end
