(* ===== verification/PointCodec.thy ===== *)
theory PointCodec
  imports PointProps
begin

text \<open>
  Encoding and decoding of points: the 32 bytes of a point, the points that decoding accepts,
  and that encoding a decoded point gives back the bytes.
\<close>

subsection \<open>The sign bit\<close>

lemma le_int_update:
  "i < length s \<Longrightarrow> le_int (s[i := b]) = le_int s + (uint b - uint (s ! i)) * 256 ^ i"
proof (induction s arbitrary: i)
  case (Cons a s)
  show ?case
  proof (cases i)
    case (Suc j)
    then have "le_int (s[j := b]) = le_int s + (uint b - uint (s ! j)) * 256 ^ j" using Cons by simp
    then show ?thesis by (simp only: Suc list_update_code nth_Cons_Suc le_int.simps power_Suc) (simp add: algebra_simps)
  qed (simp add: algebra_simps)
qed simp

lemma uint_xor_128: "\<not> bit b 7 \<Longrightarrow> uint (b XOR 128 :: u8) = uint b + 128"
proof -
  assume "\<not> bit b 7"
  then have "\<not> bit (uint b) 7" by (simp add: bit_uint_iff)
  then have "uint b AND 2 ^ 7 = 0"
    by (intro bit_eqI) (auto simp: bit_and_iff bit_exp_iff simp del: power_numeral power_numeral_even power_numeral_odd)
  then have "uint b AND 128 = 0" by simp
  then have "uint b XOR 128 = uint b + 128"
    by (simp add: disjunctive_add_eq_xor)
  then show ?thesis by (simp add: uint_xor)
qed

lemma set_sign_bit:
  assumes "length s = 32" "le_int s < 2 ^ 255" "n = 0 \<or> n = 1"
  shows "le_int (s[31 := s ! 31 XOR word_of_int (push_bit 7 n)]) = le_int s + 2 ^ 255 * n"
proof -
  have "take_bit 255 (le_int s) = le_int s" using assms(2) by (simp add: take_bit_int_eq_self)
  then have "\<not> bit (le_int s) 255" by (metis bit_take_bit_iff less_irrefl)
  then have "\<not> bit (s ! 31) 7" using assms(1) by (simp add: bit_le_int)
  then show ?thesis using assms(1,3) by (auto simp: le_int_update uint_xor_128)
qed

subsection \<open>Canonical representatives\<close>

definition canonical :: "residue \<Rightarrow> int" where "canonical r = Rep_residue r"

lemma canonical_fe_res: "canonical (fe_res f) = fe_val f mod p25519"
  by (simp add: canonical_def fe_res_def of_int_residue)

lemma canonical_range: "0 \<le> canonical r" "canonical r < p25519"
  using Rep_residue [of r] by (simp_all add: canonical_def)

lemma canonical_less: "canonical r < 2 ^ 255"
  using canonical_range(2) [of r] by (simp add: p25519_def)

lemma canonical_inject: "canonical r = canonical s \<longleftrightarrow> r = s"
  by (simp add: canonical_def Rep_residue_inject)

lemma canonical_0: "canonical r = 0 \<longleftrightarrow> r = 0"
  using canonical_inject [of r 0] by (simp add: canonical_def zero_residue.rep_eq)

lemma canonical_neg: "r \<noteq> 0 \<Longrightarrow> canonical (- r) = p25519 - canonical r"
proof -
  assume "r \<noteq> 0"
  then have "0 < canonical r" using canonical_0 [of r] canonical_range(1) [of r] by simp
  have "canonical (- r) = - canonical r mod p25519" by (simp add: canonical_def uminus_residue.rep_eq)
  also have "- canonical r mod p25519 = (p25519 - canonical r) mod p25519" by (metis diff_0 mod_self minus_mod_self1)
  also have "\<dots> = p25519 - canonical r" using \<open>0 < canonical r\<close> canonical_range [of r] by (intro mod_pos_pos_trivial) simp_all
  finally show ?thesis .
qed

lemma canonical_neg_parity: "r \<noteq> 0 \<Longrightarrow> canonical (- r) mod 2 = 1 - canonical r mod 2"
proof -
  have "(57896044618658097711785492504343953926634992332820282019728792003956564819949 - x) mod 2 = 1 - x mod 2"
    for x :: int by presburger
  then show "r \<noteq> 0 \<Longrightarrow> ?thesis" by (simp add: canonical_neg p25519_def)
qed

lemma fe_isnegative_canonical: "fe_plain f \<Longrightarrow> fe_isnegative f = Some (canonical (fe_res f) mod 2)"
  by (simp add: fe_isnegative_parity canonical_fe_res)

subsection \<open>Encoding\<close>

definition inverse_power :: "residue \<Rightarrow> residue" where "inverse_power z = z ^ (2 ^ 255 - 21)"

lemma inverse_power_1: "inverse_power 1 = 1"
  by (simp add: inverse_power_def)

text \<open>The canonical \<open>y / z\<close>, with the parity of \<open>x / z\<close> in the top bit.\<close>

lemma encode_point_writes:
  assumes "fe_tight x" "fe_tight y" "fe_tight z"
  shows "succeeds (encode_point x y z) (\<lambda>s. length s = 32 \<and>
    le_int s = canonical (fe_res y * inverse_power (fe_res z)) +
      2 ^ 255 * (canonical (fe_res x * inverse_power (fe_res z)) mod 2))"
proof -
  note inv = succeeds_bind [OF fe_invert_power [folded inverse_power_def]]
  show ?thesis
    unfolding encode_point_def
    apply (rule inv, simp add: tight_loose assms)
    apply (rule succeeds_bind [OF fe_mul_multiplies], simp add: tight_loose assms, simp add: tight_loose)
    apply (rule succeeds_bind [OF fe_mul_multiplies], simp add: tight_loose assms, simp add: tight_loose)
    apply (rule succeeds_bind [OF fe_tobytes_writes], simp add: tight_plain)
    apply (simp add: fe_isnegative_canonical tight_plain)
    apply (subst set_sign_bit)
    using canonical_less by (auto simp: canonical_fe_res [symmetric])
qed

subsection \<open>Decoding\<close>

lemma sqrtm1_squared: "fe_res fe_sqrtm1 * fe_res fe_sqrtm1 = - 1"
proof -
  have "(fe_val fe_sqrtm1 * fe_val fe_sqrtm1) mod p25519 = - 1 mod p25519"
    by (simp add: fe_sqrtm1_def fe_val_10 p25519_def)
  then have "(of_int (fe_val fe_sqrtm1 * fe_val fe_sqrtm1) :: residue) = of_int (- 1)"
    by (simp only: of_int_residue_eq)
  then show ?thesis by (simp add: fe_res_def)
qed

text \<open>Bounds of the differences that decoding tests for zero.\<close>

lemma plain_bound: "fe_bound a b f \<Longrightarrow> a \<le> 73819750 \<Longrightarrow> b \<le> 36909875 \<Longrightarrow> fe_plain f"
  unfolding fe_plain_def by (rule fe_bound_mono)

lemma fe_root_squares:
  assumes "fe_bound 33890960 16945480 u" "fe_loose v"
  shows "succeeds (fe_root u v) (\<lambda>r. case r of None \<Rightarrow> True | Some x \<Rightarrow> fe_tight x \<and> fe_res x * fe_res x * fe_res v = fe_res u)"
proof -
  have u: "fe_loose u" using assms(1) by (rule loose_bound) simp_all
  have sub: "succeeds (fe_sub f u) (\<lambda>h. fe_plain h \<and> fe_res h = fe_res f - fe_res u)" if "fe_tight f" for f
    by (rule succeeds_weaken [OF fe_sub_subtracts [OF tight_bound [OF that] assms(1)]])
      (auto simp: INT32_def intro: plain_bound)
  have add: "succeeds (fe_add f u) (\<lambda>h. fe_plain h \<and> fe_res h = fe_res f + fe_res u)" if "fe_tight f" for f
    by (rule succeeds_weaken [OF fe_add_sums [OF tight_bound [OF that] assms(1)]])
      (auto simp: INT32_def intro: plain_bound)
  have root: "(x * i) * (x * i) * v = u" if "x * x * v + u = 0" "i * i = - 1" for x i v u :: residue
  proof -
    have "(x * i) * (x * i) * v = i * i * (x * x * v)" by (simp add: mult_ac)
    also have "\<dots> = u" unfolding that(2) using that(1) by (simp add: add_eq_0_iff)
    finally show ?thesis .
  qed
  have other: "succeeds (Some (Some f)) (\<lambda>r. case r of None \<Rightarrow> True | Some x \<Rightarrow> fe_tight x \<and> fe_res x * fe_res x * fe_res v = fe_res u)"
    if "fe_tight f \<and> fe_res f = x * fe_res fe_sqrtm1" "x * x * fe_res v + fe_res u = 0" for f x
    using that root [OF that(2) sqrtm1_squared] by (simp only: succeeds_def option.case simp_thms option.inject)
  show ?thesis
    unfolding fe_root_def
    apply (rule succeeds_bind [OF fe_divpowm1_power [OF u assms(2)]])
    apply (rule fe_steps, simp add: tight_loose)
    apply (rule fe_steps, simp add: tight_loose, rule assms)
    apply (rule succeeds_bind [OF sub], simp)
    apply (simp add: fe_isnonzero_test)
    apply (intro impI)
    apply (rule succeeds_bind [OF add], simp)
    apply (simp add: fe_isnonzero_test)
    apply (intro impI)
    apply (rule fe_steps, simp add: tight_loose, simp add: fe_d_tight tight_loose)
    by (rule other, assumption, simp only: mult_ac)
qed

lemma fe_with_sign_parity:
  assumes "fe_tight x" "sign = 0 \<or> sign = 1"
  shows "succeeds (fe_with_sign x sign) (\<lambda>r. case r of None \<Rightarrow> fe_res x = 0 \<and> sign = 1
    | Some x' \<Rightarrow> fe_tight x' \<and> canonical (fe_res x') mod 2 = sign \<and> (fe_res x' = fe_res x \<or> fe_res x' = - fe_res x))"
proof -
  have plain: "fe_plain x" using assms(1) by (rule tight_plain)
  have neg: "succeeds (fe_neg x) (\<lambda>h. fe_tight h \<and> fe_res h = - fe_res x)"
    by (rule succeeds_weaken [OF fe_neg_negates [OF tight_bound [OF assms(1)]]])
      (auto simp: INT32_def fe_tight_def)
  have parity: "canonical (fe_res x) mod 2 = 0 \<or> canonical (fe_res x) mod 2 = 1" by auto
  show ?thesis
  proof (cases "canonical (fe_res x) mod 2 = sign")
    case True
    then show ?thesis using assms(1) by (simp add: fe_with_sign_def fe_isnegative_canonical [OF plain])
  next
    case False
    show ?thesis
    proof (cases "fe_res x = 0")
      case True
      then have "canonical (fe_res x) = 0" by (simp add: canonical_0)
      then show ?thesis
        using True False assms(2)
        by (simp add: fe_with_sign_def fe_isnegative_canonical [OF plain] fe_isnonzero_test [OF plain])
    next
      case nonzero: False
      have "succeeds (do { y \<leftarrow> fe_neg x; Some (Some y) }) (\<lambda>r. case r of None \<Rightarrow> fe_res x = 0 \<and> sign = 1
          | Some x' \<Rightarrow> fe_tight x' \<and> canonical (fe_res x') mod 2 = sign \<and>
              (fe_res x' = fe_res x \<or> fe_res x' = - fe_res x))"
        by (rule succeeds_bind [OF neg])
          (use nonzero False parity assms(2) in \<open>auto simp: canonical_neg_parity\<close>)
      then show ?thesis
        using False nonzero
        by (simp add: fe_with_sign_def fe_isnegative_canonical [OF plain] fe_isnonzero_test [OF plain])
    qed
  qed
qed

text \<open>The curve equation in the form that decoding solves.\<close>

lemma decoded_on_curve:
  assumes "x * x * (y * y * edwards_d + 1) = y * y - 1"
  shows "on_curve (x, y, 1, x * y)"
proof -
  have "y * y - x * x = 1 + edwards_d * (x * y * (x * y)) + ((y * y - 1) - x * x * (y * y * edwards_d + 1))"
    by (simp add: algebra_simps)
  then show ?thesis using assms by (simp add: on_curve_def)
qed

text \<open>What the point of a buffer is.\<close>

definition decodes_to :: "bytes \<Rightarrow> ge_p3 \<Rightarrow> bool" where
  "decodes_to s p \<longleftrightarrow> p3_ok p \<and> on_curve (p3_point p) \<and> fe_res (Z3 p) = 1 \<and>
     canonical (fe_res (Y3 p)) = take_bit 255 (le_int s) \<and>
     canonical (fe_res (X3 p)) mod 2 = of_bool (bit (le_int s) 255)"

lemma drop_7_u8: "uint (drop_bit 7 (b :: u8)) = of_bool (bit b 7)"
proof -
  have "drop_bit 7 b = of_bool (bit b 7)"
  proof (rule bit_word_eqI)
    fix n
    show "bit (drop_bit 7 b) n = bit (of_bool (bit b 7) :: u8) n"
      by (cases n) (auto simp: bit_drop_bit_eq bit_1_iff dest: bit_imp_le_length)
  qed
  then show ?thesis by simp
qed

lemma succeeds_option:
  "(r = None \<Longrightarrow> succeeds a P) \<Longrightarrow> (\<And>x. r = Some x \<Longrightarrow> succeeds (f x) P) \<Longrightarrow>
   succeeds (case r of None \<Rightarrow> a | Some x \<Rightarrow> f x) P"
  by (cases r) simp_all

lemma refuses_not_canonical:
  assumes "length s = 32" "p25519 \<le> take_bit 255 (le_int s)"
  shows "ge_frombytes_vartime s = Some None"
  using fe_load_value [OF assms(1), of True] fe_not_canonical_iff [OF assms(1)] assms(2)
  by (auto simp: succeeds_def ge_frombytes_vartime_def)

lemma ge_frombytes_decodes:
  assumes "length s = 32"
  shows "succeeds (ge_frombytes_vartime s) (\<lambda>r. case r of None \<Rightarrow> True | Some p \<Rightarrow> decodes_to s p)"
proof -
  let ?post = "\<lambda>r. case r of None \<Rightarrow> True | Some p \<Rightarrow> decodes_to s p"
  obtain h where h: "fe_load True s = Some h" "limbs_in h (load_intervals True)" "fe_val h = take_bit 255 (le_int s)"
    using fe_load_value [OF assms, of True] by (auto elim: succeedsE)
  have top: "rd s 31 = Some (s ! 31)" "uint (drop_bit 7 (s ! 31)) = of_bool (bit (le_int s) 255)"
    using assms by (simp_all add: rd_def drop_7_u8 bit_le_int)
  have one: "fe_bound 1 1 fe_1" by (simp add: fe_1_def)
  have sub1: "succeeds (fe_sub f fe_1) (\<lambda>h. fe_bound 33890960 16945480 h \<and> fe_res h = fe_res f - 1)" if "fe_tight f" for f
    by (rule succeeds_weaken [OF fe_sub_subtracts [OF tight_bound [OF that] one]]) (auto simp: INT32_def)
  have add1: "succeeds (fe_add f fe_1) (\<lambda>h. fe_loose h \<and> fe_res h = fe_res f + 1)" if "fe_tight f" for f
    by (rule succeeds_weaken [OF fe_add_sums [OF tight_bound [OF that] one]]) (auto simp: INT32_def intro: loose_bound)
  show ?thesis
  proof (cases "fe_not_canonical h")
    case True
    then show ?thesis by (simp add: ge_frombytes_vartime_def h(1))
  next
    case False
    then have small: "fe_val h < p25519" using fe_not_canonical_iff [OF assms h(1)] h(3) by simp
    have y: "canonical (fe_res g) = take_bit 255 (le_int s)" if "fe_res g = fe_res h" for g
      using small h(3) by (simp add: that canonical_fe_res)
    have final: "succeeds (do { t \<leftarrow> fe_mul x y; Some (Some \<lparr> X3 = x, Y3 = y, Z3 = fe_1, T3 = t \<rparr>) }) ?post"
      if "fe_tight x" "fe_tight y" "fe_res y = fe_res h" "canonical (fe_res x) mod 2 = of_bool (bit (le_int s) 255)"
        "on_curve (fe_res x, fe_res y, 1, fe_res x * fe_res y)" for x y
      by (rule succeeds_bind [OF fe_mul_multiplies])
        (use that y [OF that(3)] in \<open>simp_all add: tight_loose decodes_to_def p3_ok_def p3_point_def\<close>)
    have curve: "on_curve (x', y, 1, x' * y)"
      if "x * x * (y * y * edwards_d + 1) = y * y - 1" "x' = x \<or> x' = - x" for x x' y
      by (rule decoded_on_curve) (use that in auto)
    have signed: "succeeds (fe_with_sign x (of_bool b)) (\<lambda>r. case r of None \<Rightarrow> True
      | Some x' \<Rightarrow> fe_tight x' \<and> canonical (fe_res x') mod 2 = of_bool b \<and> (fe_res x' = fe_res x \<or> fe_res x' = - fe_res x))"
      if "fe_tight x" for x b
      by (rule succeeds_weaken [OF fe_with_sign_parity [OF that]]) (auto split: option.splits)
    show ?thesis
      unfolding ge_frombytes_vartime_def h(1) top Let_def
      apply (simp add: False)
      apply (rule succeeds_bind [OF fe_normal_keeps [OF h(2)]])
      apply (rule fe_steps, simp add: tight_loose)
      apply (rule fe_steps, simp add: tight_loose, simp add: fe_d_tight tight_loose)
      apply (rule succeeds_bind [OF sub1], simp)
      apply (rule succeeds_bind [OF add1], simp)
      apply (rule succeeds_bind [OF fe_root_squares], simp, simp)
      apply (rule succeeds_option, simp)
      apply (simp only: top Option.bind.bind_lunit)
      apply (rule succeeds_bind [OF signed], simp)
      apply (rule succeeds_option, simp)
      apply (rule final, simp, simp, simp, simp)
      apply (rule curve [rotated])
      apply (simp only: option.case, elim conjE, assumption)
      by (simp add: edwards_d_def)
  qed
qed

lemma length_encoding: "p3_ok p \<Longrightarrow> succeeds (ge_p3_tobytes p) (\<lambda>s. length s = 32)"
  using encode_point_writes [of "X3 p" "Y3 p" "Z3 p"]
  by (auto simp: succeeds_def ge_p3_tobytes_def p3_ok_def)

lemma encode_decoded:
  assumes "length s = 32" "decodes_to s p"
  shows "ge_p3_tobytes p = Some s"
proof -
  note p = assms(2) [unfolded decodes_to_def p3_ok_def]
  obtain t where t: "ge_p3_tobytes p = Some t" "length t = 32"
    "le_int t = canonical (fe_res (Y3 p)) + 2 ^ 255 * (canonical (fe_res (X3 p)) mod 2)"
    using encode_point_writes [of "X3 p" "Y3 p" "Z3 p"] p
    by (auto simp: succeeds_def ge_p3_tobytes_def inverse_power_1)
  have "drop_bit 256 (le_int s) = 0" using le_int_less [of s] assms(1) by (simp add: drop_bit_eq_div)
  then have "drop_bit 255 (le_int s) = take_bit 1 (drop_bit 255 (le_int s))"
    using slice_step [of 1 255 "le_int s"] by simp
  also have "\<dots> = of_bool (bit (le_int s) 255)"
    by (simp add: take_bit_Suc drop_bit_eq_div bit_iff_odd mod_2_eq_odd)
  finally have "le_int s = take_bit 255 (le_int s) + 2 ^ 255 * of_bool (bit (le_int s) 255)"
    using slice_step [of 255 0 "le_int s"] by simp
  then have "le_int t = le_int s" using t(3) p by simp
  then have "t = s" using le_int_inject [of t s] t(2) assms(1) by simp
  with t(1) show ?thesis by simp
qed

end
