(* ===== verification/Scalar25519.thy ===== *)
theory Scalar25519
  imports Packing
begin

text \<open>
  Scalars modulo the order of the signature curve's base point, in
  \<^verbatim>\<open>base/tools/cryptonote/crypto-ops.c\<close>: 32 bytes are read into twelve limbs of 21 bits, combined,
  folded below the order and written back. All routines end in the same sequence of carries and
  folds; the longer ones lead up to it with sequences of their own.
\<close>

subsection \<open>Limbs\<close>

definition l25519 :: int where
  "l25519 = 2 ^ 252 + 27742317777372353535851937790883648493"

definition sc_exp :: "nat \<Rightarrow> nat" where "sc_exp i = 21 * i"

text \<open>\<open>2097151 & (load_n(s + k) >> r)\<close>, and the last limb without the mask.\<close>

fun sc_load_raw :: "bytes \<Rightarrow> nat \<times> nat \<times> nat \<Rightarrow> int option" where
  "sc_load_raw s (n, k, r) =
     do { x \<leftarrow> (if n = 3 then load_3 s k else load_4 s k);
          Some (drop_bit r x) }"

definition sc_load_limb :: "bytes \<Rightarrow> nat \<times> nat \<times> nat \<Rightarrow> int option" where
  "sc_load_limb s a = map_option (\<lambda>x. 2097151 AND x) (sc_load_raw s a)"

primrec sc_load :: "bytes \<Rightarrow> (nat \<times> nat \<times> nat) list \<Rightarrow> nat \<times> nat \<times> nat \<Rightarrow> int list option" where
  "sc_load s [] a = do { x \<leftarrow> sc_load_raw s a; Some [x] }"
| "sc_load s (b # bs) a = do { x \<leftarrow> sc_load_limb s b; xs \<leftarrow> sc_load s bs a; Some (x # xs) }"

definition sc_limbs :: "bytes \<Rightarrow> int list option" where
  "sc_limbs s = sc_load s
     [(3, 0, 0), (4, 2, 5), (3, 5, 2), (4, 7, 7), (4, 10, 4), (3, 13, 1), (4, 15, 6), (3, 18, 3), (3, 21, 0),
      (4, 23, 5), (3, 26, 2)] (4, 28, 7)"

definition sc_limbs_64 :: "bytes \<Rightarrow> int list option" where
  "sc_limbs_64 s = sc_load s
     [(3, 0, 0), (4, 2, 5), (3, 5, 2), (4, 7, 7), (4, 10, 4), (3, 13, 1), (4, 15, 6), (3, 18, 3), (3, 21, 0),
      (4, 23, 5), (3, 26, 2), (4, 28, 7), (4, 31, 4), (3, 34, 1), (4, 36, 6), (3, 39, 3), (3, 42, 0),
      (4, 44, 5), (3, 47, 2), (4, 49, 7), (4, 52, 4), (3, 55, 1), (4, 57, 6)] (4, 60, 3)"

definition sc_rows :: "piece list list" where
  "sc_rows =
     [[Shr 0 0], [Shr 0 8], [Shr 0 16, Shl 1 5], [Shr 1 3], [Shr 1 11], [Shr 1 19, Shl 2 2], [Shr 2 6],
      [Shr 2 14, Shl 3 7], [Shr 3 1], [Shr 3 9], [Shr 3 17, Shl 4 4], [Shr 4 4], [Shr 4 12],
      [Shr 4 20, Shl 5 1], [Shr 5 7], [Shr 5 15, Shl 6 6], [Shr 6 2], [Shr 6 10], [Shr 6 18, Shl 7 3],
      [Shr 7 5], [Shr 7 13], [Shr 8 0], [Shr 8 8], [Shr 8 16, Shl 9 5], [Shr 9 3], [Shr 9 11],
      [Shr 9 19, Shl 10 2], [Shr 10 6], [Shr 10 14, Shl 11 7], [Shr 11 1], [Shr 11 9], [Shr 11 17]]"

subsection \<open>Carries and folds\<close>

text \<open>
  \<open>2\<^sup>2\<^sup>5\<^sup>2\<close> is congruent to six limbs. The code does not clear the limbs it has folded for the last
  time; it does not read them again either.
\<close>

definition sc_fold :: "nat \<Rightarrow> limb_op" where
  "sc_fold i = Fold i (i - 12) [666643, 470296, 654183, -997805, 136657, -683901]"

definition sc_round :: "nat \<Rightarrow> limb_op" where "sc_round i = Carry True i 21 (Suc i) 1"
definition sc_floor :: "nat \<Rightarrow> limb_op" where "sc_floor i = Carry False i 21 (Suc i) 1"

definition sc_center :: "limb_op list" where
  "sc_center = map sc_round [0, 2, 4, 6, 8, 10] @ map sc_round [1, 3, 5, 7, 9, 11]"

definition sc_floors :: "limb_op list" where
  "sc_floors = map sc_floor [0, 1, 2, 3, 4, 5, 6, 7, 8, 9, 10, 11]"

definition sc_last_floors :: "limb_op list" where
  "sc_last_floors = map sc_floor [0, 1, 2, 3, 4, 5, 6, 7, 8, 9, 10]"

definition sc_final :: "limb_op list" where
  "sc_final = sc_center @ [sc_fold 12] @ sc_floors @ [sc_fold 12] @ sc_last_floors"

definition sc_high :: "limb_op list" where
  "sc_high =
     map sc_fold [23, 22, 21, 20, 19, 18] @
     map sc_round [6, 8, 10, 12, 14, 16] @ map sc_round [7, 9, 11, 13, 15] @
     map sc_fold [17, 16, 15, 14, 13, 12]"

definition sc_product_carries :: "limb_op list" where
  "sc_product_carries =
     map sc_round [0, 2, 4, 6, 8, 10, 12, 14, 16, 18, 20, 22] @
     map sc_round [1, 3, 5, 7, 9, 11, 13, 15, 17, 19, 21]"

definition sc_store :: "limb_op list \<Rightarrow> int list \<Rightarrow> bytes option" where
  "sc_store ops h = map_option (pack sc_rows) (limb_steps INT64 ops h)"

subsection \<open>The routines\<close>

definition sc_0 :: bytes where "sc_0 = replicate 32 0"

definition sc_reduce32 :: "bytes \<Rightarrow> bytes option" where
  "sc_reduce32 s = do { a \<leftarrow> sc_limbs s; sc_store sc_final (a @ [0]) }"

definition sc_reduce :: "bytes \<Rightarrow> bytes option" where
  "sc_reduce s = do { a \<leftarrow> sc_limbs_64 s; sc_store (sc_high @ sc_final) a }"

fun sc_map2 :: "(int \<Rightarrow> int \<Rightarrow> int) \<Rightarrow> int list \<Rightarrow> int list \<Rightarrow> int list option" where
  "sc_map2 f (x # xs) (y # ys) = do { z \<leftarrow> chk INT64 (f x y); zs \<leftarrow> sc_map2 f xs ys; Some (z # zs) }"
| "sc_map2 f xs ys = Some []"

definition sc_add :: "bytes \<Rightarrow> bytes \<Rightarrow> bytes option" where
  "sc_add a b = do {
     a \<leftarrow> sc_limbs a;
     b \<leftarrow> sc_limbs b;
     s \<leftarrow> sc_map2 (\<lambda>x y. x + y) a b;
     sc_store sc_final (s @ [0]) }"

definition sc_sub :: "bytes \<Rightarrow> bytes \<Rightarrow> bytes option" where
  "sc_sub a b = do {
     a \<leftarrow> sc_limbs a;
     b \<leftarrow> sc_limbs b;
     s \<leftarrow> sc_map2 (\<lambda>x y. x - y) a b;
     sc_store sc_final (s @ [0]) }"

text \<open>The products of limbs whose indices add up to \<open>k\<close>.\<close>

definition sc_pairs :: "int list \<Rightarrow> int list \<Rightarrow> nat \<Rightarrow> (int \<times> int) list" where
  "sc_pairs a b k = map (\<lambda>i. (a ! i, b ! (k - i))) [k - 11 ..< Suc (min k 11)]"

primrec sc_products :: "int list \<Rightarrow> int list \<Rightarrow> nat list \<Rightarrow> int list option" where
  "sc_products a b [] = Some []"
| "sc_products a b (k # ks) =
     do { p \<leftarrow> mac 0 (sc_pairs a b k); ps \<leftarrow> sc_products a b ks; Some (p # ps) }"

definition sc_mul :: "bytes \<Rightarrow> bytes \<Rightarrow> bytes option" where
  "sc_mul a b = do {
     a \<leftarrow> sc_limbs a;
     b \<leftarrow> sc_limbs b;
     s \<leftarrow> sc_products a b [0 ..< 23];
     sc_store (sc_product_carries @ sc_high @ sc_final) (s @ [0]) }"

text \<open>From limb 12 on there is no \<open>c\<close> to add to or subtract from.\<close>

definition sc_muladd :: "bytes \<Rightarrow> bytes \<Rightarrow> bytes \<Rightarrow> bytes option" where
  "sc_muladd a b c = do {
     a \<leftarrow> sc_limbs a;
     b \<leftarrow> sc_limbs b;
     c \<leftarrow> sc_limbs c;
     p \<leftarrow> sc_products a b [0 ..< 23];
     s \<leftarrow> sc_map2 (\<lambda>x y. x + y) (c @ replicate 11 0) p;
     sc_store (sc_product_carries @ sc_high @ sc_final) (s @ [0]) }"

definition sc_mulsub :: "bytes \<Rightarrow> bytes \<Rightarrow> bytes \<Rightarrow> bytes option" where
  "sc_mulsub a b c = do {
     a \<leftarrow> sc_limbs a;
     b \<leftarrow> sc_limbs b;
     c \<leftarrow> sc_limbs c;
     p \<leftarrow> sc_products a b [0 ..< 23];
     s \<leftarrow> sc_map2 (\<lambda>x y. x - y) (c @ replicate 11 0) p;
     sc_store (sc_product_carries @ sc_high @ sc_final) (s @ [0]) }"

subsection \<open>Tests\<close>

definition signum :: "int \<Rightarrow> int" where
  "signum a = (if a > 0 then 1 else if a < 0 then -1 else 0)"

text \<open>\<open>signum(c\<^sub>0 - s\<^sub>0) + (signum(c\<^sub>1 - s\<^sub>1) << 1) + \<dots>\<close>\<close>

fun signum_sum :: "(int \<times> int) list \<Rightarrow> int" where
  "signum_sum [] = 0"
| "signum_sum ((c, s) # ps) = signum (c - s) + 2 * signum_sum ps"

definition sc_check :: "bytes \<Rightarrow> int option" where
  "sc_check s = do {
     s0 \<leftarrow> load_4 s 0;
     s1 \<leftarrow> load_4 s 4;
     s2 \<leftarrow> load_4 s 8;
     s3 \<leftarrow> load_4 s 12;
     s4 \<leftarrow> load_4 s 16;
     s5 \<leftarrow> load_4 s 20;
     s6 \<leftarrow> load_4 s 24;
     s7 \<leftarrow> load_4 s 28;
     Some (signum_sum [(1559614444, s0), (1477600026, s1), (2734136534, s2), (350157278, s3), (0, s4), (0, s5),
       (0, s6), (268435456, s7)] div 2 ^ 8) }"

definition sc_isnonzero :: "bytes \<Rightarrow> int" where
  "sc_isnonzero s = nonzero_bit s"

end
