(* ===== verification/ScalarProps.thy ===== *)
theory ScalarProps
  imports Scalar25519
begin

text \<open>
  The scalar routines compute residues modulo the order, in the one representative below it, for
  every input and without overflow.
\<close>

subsection \<open>Values\<close>

definition sc_value :: "int list \<Rightarrow> int" where "sc_value = limbs_value sc_exp"

lemma sc_value_simps [simp]:
  "sc_value [] = 0"
  "sc_value (x # xs) = x + 2 ^ 21 * sc_value xs"
proof -
  have "(\<Sum>i < length xs. xs ! i * 2 ^ (21 * Suc i)) = 2 ^ 21 * (\<Sum>i < length xs. xs ! i * 2 ^ (21 * i))"
    unfolding sum_distrib_left by (rule sum.cong) (simp_all add: power_add)
  then show "sc_value (x # xs) = x + 2 ^ 21 * sc_value xs"
    by (simp add: sc_value_def limbs_value_def sc_exp_def sum.lessThan_Suc_shift del: sum.lessThan_Suc)
qed (simp add: sc_value_def limbs_value_def)

lemma sc_value_append: "sc_value (xs @ ys) = sc_value xs + 2 ^ (21 * length xs) * sc_value ys"
  by (induction xs) (simp_all add: power_add algebra_simps)

lemma sc_value_zeros [simp]: "sc_value (replicate n 0) = 0"
  by (induction n) simp_all

lemma sc_value_radix: "length h = Suc n \<Longrightarrow> radix (replicate n 21 @ [w]) h = sc_value h"
proof (induction n arbitrary: h)
  case 0
  then show ?case by (auto simp: length_Suc_conv)
next
  case (Suc n)
  then obtain x xs where "h = x # xs" "length xs = Suc n" by (auto simp: length_Suc_conv)
  then show ?case using Suc.IH [of xs] by simp
qed

lemma sc_value_digits: "digits (replicate n 21) h \<Longrightarrow> 0 \<le> sc_value h \<and> sc_value h < 2 ^ (21 * n)"
proof (induction n arbitrary: h)
  case (Suc n)
  then obtain x xs where h: "h = x # xs" by (cases h) auto
  with Suc have IH: "0 \<le> sc_value xs" "sc_value xs < 2 ^ (21 * n)" and x: "0 \<le> x" "x < 2 ^ 21" by auto
  have "x + 2 ^ 21 * sc_value xs < 2 ^ 21 * (sc_value xs + 1)" using x by simp
  also have "\<dots> \<le> 2 ^ 21 * 2 ^ (21 * n)" using IH(2) by (intro mult_left_mono) simp_all
  finally show ?case using IH(1) x by (simp add: h power_add)
qed simp

subsection \<open>Loading\<close>

text \<open>Cutting a number into pieces of given widths.\<close>

primrec slices :: "nat list \<Rightarrow> int \<Rightarrow> int list" where
  "slices [] x = []"
| "slices (w # ws) x = take_bit w x # slices ws (drop_bit w x)"

lemma digits_slices: "digits ws (slices ws x)"
  by (induction ws arbitrary: x) simp_all

lemma radix_slices: "radix ws (slices ws x) = take_bit (sum_list ws) x"
proof (induction ws arbitrary: x)
  case (Cons w ws)
  have "take_bit (w + k) x = take_bit w x + 2 ^ w * take_bit k (drop_bit w x)" for k
  proof -
    have "take_bit (w + k) x = x mod (2 ^ w * 2 ^ k)" by (simp add: take_bit_eq_mod power_add)
    also have "\<dots> = 2 ^ w * (x div 2 ^ w mod 2 ^ k) + x mod 2 ^ w" by (rule zmod_zmult2_eq) simp
    finally show ?thesis by (simp add: take_bit_eq_mod drop_bit_eq_div)
  qed
  then show ?case by (simp add: Cons.IH)
qed simp

fun sc_table_ok :: "nat \<Rightarrow> nat \<Rightarrow> (nat \<times> nat \<times> nat) list \<Rightarrow> nat \<times> nat \<times> nat \<Rightarrow> bool" where
  "sc_table_ok len e [] (n, k, r) \<longleftrightarrow> (n = 3 \<or> n = 4) \<and> 8 * k + r = e \<and> r \<le> 8 * n \<and> k + n = len"
| "sc_table_ok len e ((n, k, r) # bs) a \<longleftrightarrow>
     (n = 3 \<or> n = 4) \<and> 8 * k + r = e \<and> r + 21 \<le> 8 * n \<and> k + n \<le> len \<and> sc_table_ok len (e + 21) bs a"

lemma and_21: "2097151 AND x = take_bit 21 x" for x :: int
proof -
  have "mask 21 = (2097151 :: int)" by (simp add: mask_eq_exp_minus_1)
  then show ?thesis by (metis and.commute take_bit_eq_mask)
qed

lemma sc_load_raw_slice:
  "n = 3 \<or> n = 4 \<Longrightarrow> k + n \<le> length s \<Longrightarrow> r \<le> 8 * n \<Longrightarrow>
   sc_load_raw s (n, k, r) = Some (take_bit (8 * n - r) (drop_bit (8 * k + r) (le_int s)))"
  by (auto simp: load_3_Some load_4_Some drop_bit_take_bit drop_bit_drop_bit add.commute)

lemma sc_load_slices:
  "sc_table_ok (length s) e bs a \<Longrightarrow>
   sc_load s bs a = Some (slices (replicate (length bs) 21 @ [8 * length s - (e + 21 * length bs)]) (drop_bit e (le_int s)))"
proof (induction bs arbitrary: e)
  case Nil
  obtain n k r where a: "a = (n, k, r)" by (cases a)
  have ok: "n = 3 \<or> n = 4" "8 * k + r = e" "r \<le> 8 * n" "k + n = length s" using Nil by (simp_all add: a)
  have "8 * n - r = 8 * length s - e" using ok by auto
  then show ?case using sc_load_raw_slice [of n k s r] ok by (simp add: a del: sc_load_raw.simps)
next
  case (Cons b bs)
  obtain n k r where b: "b = (n, k, r)" by (cases b)
  have ok: "n = 3 \<or> n = 4" "8 * k + r = e" "r + 21 \<le> 8 * n" "k + n \<le> length s" "sc_table_ok (length s) (e + 21) bs a"
    using Cons.prems by (simp_all add: b)
  have "21 \<le> 8 * n - r" using ok(3) by simp
  then have "sc_load_limb s b = Some (take_bit 21 (drop_bit e (le_int s)))"
    using sc_load_raw_slice [of n k s r] ok(1-4)
    by (simp add: b sc_load_limb_def and_21 take_bit_take_bit min_def del: sc_load_raw.simps)
  then show ?case using Cons.IH [OF ok(5)] by (simp add: drop_bit_drop_bit algebra_simps)
qed

lemma sc_load_value:
  assumes "sc_table_ok (length s) 0 bs a" "21 * length bs \<le> 8 * length s"
  shows "succeeds (sc_load s bs a) (\<lambda>h. digits (replicate (length bs) 21 @ [8 * length s - 21 * length bs]) h \<and>
    sc_value h = le_int s)"
proof -
  let ?ws = "replicate (length bs) 21 @ [8 * length s - 21 * length bs]"
  let ?h = "slices ?ws (le_int s)"
  have len: "length ?h = Suc (length bs)" using digits_slices [of ?ws "le_int s"]
    by (auto simp: digits_def dest: list_all2_lengthD)
  have "sc_value ?h = take_bit (sum_list ?ws) (le_int s)"
    using sc_value_radix [OF len] radix_slices [of ?ws "le_int s"] by simp
  also have "sum_list ?ws = 8 * length s" using assms(2) by (simp add: sum_list_replicate)
  finally have "sc_value ?h = le_int s" using le_int_less [of s] by (simp add: take_bit_int_eq_self)
  then show ?thesis using sc_load_slices [OF assms(1)] digits_slices [of ?ws] by simp
qed

lemma sc_limbs_value:
  assumes "length s = 32"
  shows "succeeds (sc_limbs s) (\<lambda>h. digits (replicate 11 21 @ [25]) h \<and> sc_value h = le_int s)"
  unfolding sc_limbs_def
  by (rule succeeds_weaken [OF sc_load_value]) (use assms in \<open>simp_all add: eval_nat_numeral\<close>)

lemma sc_limbs_64_value:
  assumes "length s = 64"
  shows "succeeds (sc_limbs_64 s) (\<lambda>h. digits (replicate 23 21 @ [29]) h \<and> sc_value h = le_int s)"
  unfolding sc_limbs_64_def
  by (rule succeeds_weaken [OF sc_load_value]) (use assms in \<open>simp_all add: eval_nat_numeral\<close>)

subsection \<open>Carrying and folding\<close>

lemma l25519_pos [simp]: "0 < l25519"
  by (simp add: l25519_def)

text \<open>Before the last fold: twelve digits, and a carry of 0 or -1 to fold.\<close>

definition sc_mid :: "nat \<Rightarrow> interval list" where
  "sc_mid k = digit_intervals (replicate 12 21) @ (-1, 0) # replicate k (0, 0)"

definition sc_end :: "nat \<Rightarrow> interval list" where
  "sc_end k = digit_intervals (replicate 11 21) @ (- (2 ^ 21), 2 ^ 22) # (0, 0) # replicate k (0, 0)"

lemma sc_last_bounds:
  "analysis_ok INT64 (sc_fold 12 # sc_last_floors) (sc_mid 0) (sc_end 0)"
  "analysis_ok INT64 (sc_fold 12 # sc_last_floors) (sc_mid 11) (sc_end 11)"
  by code_simp+

lemma sc_last_keep:
  "list_all (keeps_mod l25519 sc_exp 13) (sc_fold 12 # sc_last_floors)"
  "list_all (keeps_mod l25519 sc_exp 24) (sc_fold 12 # sc_last_floors)"
  by code_simp+

lemma sc_floors_exact:
  "list_all (keeps_mod 0 sc_exp 13) sc_last_floors" "list_all (keeps_mod 0 sc_exp 24) sc_last_floors"
  by code_simp+

lemma sc_rows_of: "sc_rows = rows_of (replicate 11 21 @ [25]) 32"
  by code_simp

lemma sc_fold_value: "multiples_value sc_exp 0 [666643, 470296, 654183, -997805, 136657, -683901] - 2 ^ sc_exp 12 = - l25519"
  by (simp add: multiples_value_Cons sc_exp_def l25519_def)

lemma limbs_in_zeros: "limbs_in h (replicate k (0, 0)) \<Longrightarrow> h = replicate k 0"
  by (rule replicate_eqI) (auto simp: limbs_in_def list_all2_conv_all_nth lies_in_def in_set_conv_nth)

lemma sc_mid_value:
  assumes "limbs_in g (sc_mid k)"
  shows "0 \<le> sc_value g - g ! 12 * l25519 \<and> sc_value g - g ! 12 * l25519 < l25519"
proof -
  obtain ds x zs where g: "g = ds @ x # zs" and len: "length ds = 12" and ds: "digits (replicate 12 21) ds"
    and x: "-1 \<le> x" "x \<le> 0" and zs: "limbs_in zs (replicate k (0, 0))"
    using assms limbs_in_digits [of _ "replicate 12 21"]
    by (auto simp: sc_mid_def limbs_in_def list_all2_append2 list_all2_Cons2 lies_in_def digit_intervals_def)
  have "sc_value g = sc_value ds + 2 ^ 252 * x"
    using limbs_in_zeros [OF zs] by (simp add: g sc_value_append len)
  moreover have "g ! 12 = x" using len by (simp add: g nth_append)
  moreover have "x = -1 \<or> x = 0" using x by auto
  moreover have "0 \<le> sc_value ds" "sc_value ds < 2 ^ 252" using sc_value_digits [OF ds] by simp_all
  ultimately show ?thesis by (auto simp: l25519_def)
qed

lemma sc_end_bytes:
  assumes "limbs_in f (sc_end k)" "0 \<le> sc_value f"
  shows "le_int (pack sc_rows f) = sc_value f"
proof -
  obtain ds y zs where f: "f = ds @ y # 0 # zs" and len: "length ds = 11" and ds: "digits (replicate 11 21) ds"
    and y: "y \<le> 2 ^ 22" and zs: "limbs_in zs (replicate k (0, 0))"
    using assms(1) limbs_in_digits [of _ "replicate 11 21"]
    by (auto simp: sc_end_def limbs_in_def list_all2_append2 list_all2_Cons2 lies_in_def digit_intervals_def)
  have val: "sc_value f = sc_value (ds @ [y])" using limbs_in_zeros [OF zs] by (simp add: f sc_value_append)
  also have "\<dots> = sc_value ds + 2 ^ 231 * y" by (simp add: sc_value_append len)
  finally have "0 \<le> y" using sc_value_digits [OF ds] assms(2) by simp
  then have dig: "digits (replicate 11 21 @ [25]) (ds @ [y])"
    using ds y len by (simp add: digits_def list_all2_append)
  have "pack sc_rows f = pack sc_rows (ds @ [y])"
    using len by (simp add: pack_def sc_rows_def f nth_append)
  then show ?thesis
    using le_int_pack [OF dig sc_rows_of] val sc_value_radix [of "ds @ [y]" 11 25] len by (simp add: sum_list_replicate)
qed

definition sc_first :: "limb_op list" where
  "sc_first = sc_center @ [sc_fold 12] @ sc_floors"

lemma sc_final_split: "sc_final = sc_first @ sc_fold 12 # sc_last_floors"
  by (simp add: sc_final_def sc_first_def)

lemma length_sc_mid: "length (sc_mid k) = 13 + k"
  by (simp add: sc_mid_def digit_intervals_def)

lemma sc_store_value:
  assumes h: "limbs_in h bs" "length bs = 13 + k" and k: "k = 0 \<or> k = 11"
    and ops: "analysis_ok INT64 ops bs (sc_mid k)" "list_all (keeps_mod l25519 sc_exp (13 + k)) ops"
  shows "succeeds (sc_store (ops @ sc_fold 12 # sc_last_floors) h)
    (\<lambda>s. length s = 32 \<and> le_int s = sc_value h mod l25519)"
proof -
  let ?last = "sc_fold 12 # sc_last_floors"
  have keep: "list_all (keeps_mod l25519 sc_exp (length (sc_mid k))) ?last" "list_all (keeps_mod 0 sc_exp (13 + k)) sc_last_floors"
    "analysis_ok INT64 ?last (sc_mid k) (sc_end k)"
    using k sc_last_keep sc_floors_exact sc_last_bounds by (auto simp: length_sc_mid)
  obtain g where g: "limb_steps INT64 ops h = Some g" "limbs_in g (sc_mid k)" "sc_value g mod l25519 = sc_value h mod l25519"
    using limb_steps_correct [OF h(1) ops(1), of l25519 sc_exp] ops(2) h(2) by (auto simp: sc_value_def)
  obtain f where f: "limb_steps INT64 ?last g = Some f" "limbs_in f (sc_end k)" "sc_value f mod l25519 = sc_value g mod l25519"
    using limb_steps_correct [OF g(2) keep(3,1)] by (auto simp: sc_value_def)
  obtain g' where g': "limb_step INT64 (sc_fold 12) g = Some g'" "limb_steps INT64 sc_last_floors g' = Some f"
    using f(1) by (auto split: bind_splits)
  have len: "length g = 13 + k" using limbs_in_length [OF g(2)] by (simp add: length_sc_mid)
  have fold: "length g' = length g" "sc_value g' = sc_value g - g ! 12 * l25519"
    using limb_step_fold [OF g'(1) [unfolded sc_fold_def diff_self_eq_0], of sc_exp] len
    by (simp_all only: sc_value_def sc_fold_value) (simp_all del: multiples_value_Cons)
  have "sc_value f = sc_value g'"
    using limb_steps_mod [OF g'(2), of 0 sc_exp] keep(2) fold(1) len by (simp add: sc_value_def)
  with fold(2) sc_mid_value [OF g(2)] have range: "0 \<le> sc_value f" "sc_value f < l25519" by simp_all
  have "le_int (pack sc_rows f) = sc_value f mod l25519"
    using sc_end_bytes [OF f(2) range(1)] range by simp
  then show ?thesis
    using g(1,3) f(1,3) by (simp add: sc_store_def limb_steps_append sc_rows_def del: limb_steps.simps)
qed

subsection \<open>The routines\<close>

lemma digits_snoc_0: "digits ws h \<Longrightarrow> digits (ws @ [0]) (h @ [0])"
  unfolding digits_def by (rule list_all2_appendI) simp_all

lemma sc_reduce32_keep: "list_all (keeps_mod l25519 sc_exp 13) sc_first"
  by code_simp

lemma sc_reduce32_bounds:
  "analysis_ok INT64 sc_first (digit_intervals (replicate 11 21 @ [25, 0])) (sc_mid 0)"
  by code_simp

lemma sc_reduce32_reduces:
  assumes "length s = 32"
  shows "succeeds (sc_reduce32 s) (\<lambda>r. length r = 32 \<and> le_int r = le_int s mod l25519)"
proof -
  have "succeeds (sc_store sc_final (h @ [0])) (\<lambda>r. length r = 32 \<and> le_int r = le_int s mod l25519)"
    if h: "digits (replicate 11 21 @ [25]) h" "sc_value h = le_int s" for h
  proof -
    have "limbs_in (h @ [0]) (digit_intervals (replicate 11 21 @ [25, 0]))"
      using digits_snoc_0 [OF h(1)] by (simp add: limbs_in_digits)
    from sc_store_value [OF this, of 0] show ?thesis
      using sc_reduce32_keep sc_reduce32_bounds h(2)
      by (simp add: sc_final_split sc_value_append digit_intervals_def)
  qed
  then show ?thesis
    unfolding sc_reduce32_def by (intro succeeds_bind [OF sc_limbs_value [OF assms]]) simp
qed

text \<open>The long sequences.\<close>

definition wide :: "interval list" where
  "wide = replicate 23 (- (2 ^ 54), 2 ^ 54) @ [(0, 0)]"

lemma sc_reduce_keep: "list_all (keeps_mod l25519 sc_exp 24) (sc_high @ sc_first)"
  by code_simp

lemma sc_reduce_bounds:
  "analysis_ok INT64 (sc_high @ sc_first) (digit_intervals (replicate 23 21 @ [29])) (sc_mid 11)"
  by code_simp

lemma sc_product_keep: "list_all (keeps_mod l25519 sc_exp 24) (sc_product_carries @ sc_high @ sc_first)"
  by code_simp

lemma sc_product_bounds: "analysis_ok INT64 (sc_product_carries @ sc_high @ sc_first) wide (sc_mid 11)"
  by code_simp

lemma sc_reduce_reduces:
  assumes "length s = 64"
  shows "succeeds (sc_reduce s) (\<lambda>r. length r = 32 \<and> le_int r = le_int s mod l25519)"
proof -
  have "succeeds (sc_store (sc_high @ sc_final) h) (\<lambda>r. length r = 32 \<and> le_int r = le_int s mod l25519)"
    if h: "digits (replicate 23 21 @ [29]) h" "sc_value h = le_int s" for h
    using sc_store_value [OF h(1) [folded limbs_in_digits] _ _ sc_reduce_bounds] sc_reduce_keep h(2)
    by (simp add: sc_final_split digit_intervals_def)
  then show ?thesis
    unfolding sc_reduce_def by (intro succeeds_bind [OF sc_limbs_64_value [OF assms]]) simp
qed

lemma sc_wide_store:
  assumes "limbs_in s (replicate 23 (- (2 ^ 54), 2 ^ 54))"
  shows "succeeds (sc_store (sc_product_carries @ sc_high @ sc_final) (s @ [0]))
    (\<lambda>r. length r = 32 \<and> le_int r = sc_value s mod l25519)"
proof -
  have "limbs_in (s @ [0]) wide"
    using assms unfolding limbs_in_def wide_def by (rule list_all2_appendI) (simp add: lies_in_def)
  from sc_store_value [OF this _ _ sc_product_bounds] show ?thesis
    using sc_product_keep by (simp add: sc_final_split sc_value_append wide_def)
qed

text \<open>Sums and differences limb by limb.\<close>

lemma sc_map2_add:
  "limbs_in xs as \<Longrightarrow> limbs_in ys bs \<Longrightarrow> length as = length bs \<Longrightarrow> list_all (fits INT64) (map2 i_add as bs) \<Longrightarrow>
   \<exists>zs. sc_map2 (\<lambda>x y. x + y) xs ys = Some zs \<and> limbs_in zs (map2 i_add as bs) \<and>
     sc_value zs = sc_value xs + sc_value ys"
  unfolding limbs_in_def
proof (induction xs as arbitrary: ys bs rule: list_all2_induct)
  case (Cons x xs a as)
  then obtain y ys' b bs' where y: "ys = y # ys'" "bs = b # bs'" "lies_in y b" "list_all2 lies_in ys' bs'"
    by (cases bs) (auto simp: list_all2_Cons2)
  have sum: "lies_in (x + y) (i_add a b)" "fits INT64 (i_add a b)"
    using Cons.hyps(1) y Cons.prems(3) by (simp_all add: lies_in_def i_add_def)
  then have "chk INT64 (x + y) = Some (x + y)" by (auto simp: fits_def lies_in_def)
  then show ?case
    using Cons.IH [OF y(4)] Cons.prems(2,3) sum by (auto simp: y algebra_simps)
qed simp

definition i_sub :: "interval \<Rightarrow> interval \<Rightarrow> interval" where
  "i_sub a b = (fst a - snd b, snd a - fst b)"

lemma sc_map2_sub:
  "limbs_in xs as \<Longrightarrow> limbs_in ys bs \<Longrightarrow> length as = length bs \<Longrightarrow> list_all (fits INT64) (map2 i_sub as bs) \<Longrightarrow>
   \<exists>zs. sc_map2 (\<lambda>x y. x - y) xs ys = Some zs \<and> limbs_in zs (map2 i_sub as bs) \<and>
     sc_value zs = sc_value xs - sc_value ys"
  unfolding limbs_in_def
proof (induction xs as arbitrary: ys bs rule: list_all2_induct)
  case (Cons x xs a as)
  then obtain y ys' b bs' where y: "ys = y # ys'" "bs = b # bs'" "lies_in y b" "list_all2 lies_in ys' bs'"
    by (cases bs) (auto simp: list_all2_Cons2)
  have diff: "lies_in (x - y) (i_sub a b)" "fits INT64 (i_sub a b)"
    using Cons.hyps(1) y Cons.prems(3) by (simp_all add: lies_in_def i_sub_def)
  then have "chk INT64 (x - y) = Some (x - y)" by (auto simp: fits_def lies_in_def)
  then show ?case
    using Cons.IH [OF y(4)] Cons.prems(2,3) diff by (auto simp: y algebra_simps)
qed simp

abbreviation scalar_widths :: "nat list" where
  "scalar_widths \<equiv> replicate 11 21 @ [25]"

lemma sc_add_bounds:
  "list_all (fits INT64) (map2 i_add (digit_intervals scalar_widths) (digit_intervals scalar_widths))"
  "analysis_ok INT64 sc_first (map2 i_add (digit_intervals scalar_widths) (digit_intervals scalar_widths) @ [(0, 0)]) (sc_mid 0)"
  by code_simp+

lemma sc_sub_bounds:
  "list_all (fits INT64) (map2 i_sub (digit_intervals scalar_widths) (digit_intervals scalar_widths))"
  "analysis_ok INT64 sc_first (map2 i_sub (digit_intervals scalar_widths) (digit_intervals scalar_widths) @ [(0, 0)]) (sc_mid 0)"
  by code_simp+

lemma sc_short_store:
  assumes "limbs_in s bs" "length bs = 12" "analysis_ok INT64 sc_first (bs @ [(0, 0)]) (sc_mid 0)"
  shows "succeeds (sc_store sc_final (s @ [0])) (\<lambda>r. length r = 32 \<and> le_int r = sc_value s mod l25519)"
proof -
  have "limbs_in (s @ [0]) (bs @ [(0, 0)])"
    using assms(1) unfolding limbs_in_def by (rule list_all2_appendI) (simp add: lies_in_def)
  from sc_store_value [OF this, of 0] show ?thesis
    using assms(2,3) sc_reduce32_keep by (simp add: sc_final_split sc_value_append)
qed

lemma sc_add_adds:
  assumes "length a = 32" "length b = 32"
  shows "succeeds (sc_add a b) (\<lambda>r. length r = 32 \<and> le_int r = (le_int a + le_int b) mod l25519)"
proof -
  let ?i = "digit_intervals scalar_widths"
  have main: "succeeds (do { s \<leftarrow> sc_map2 (\<lambda>x y. x + y) x y; sc_store sc_final (s @ [0]) })
      (\<lambda>r. length r = 32 \<and> le_int r = (sc_value x + sc_value y) mod l25519)"
    if xy: "digits scalar_widths x" "digits scalar_widths y" for x y
  proof -
    obtain z where z: "sc_map2 (\<lambda>x y. x + y) x y = Some z" "limbs_in z (map2 i_add ?i ?i)" "sc_value z = sc_value x + sc_value y"
      using sc_map2_add [OF xy [folded limbs_in_digits] refl sc_add_bounds(1)] by blast
    then show ?thesis using sc_short_store [OF z(2) _ sc_add_bounds(2)] by (simp add: digit_intervals_def)
  qed
  show ?thesis
    unfolding sc_add_def
    apply (rule succeeds_bind [OF sc_limbs_value [OF assms(1)]])
    apply (rule succeeds_bind [OF sc_limbs_value [OF assms(2)]])
    by (elim conjE) (drule (1) main, simp)
qed

lemma sc_sub_subtracts:
  assumes "length a = 32" "length b = 32"
  shows "succeeds (sc_sub a b) (\<lambda>r. length r = 32 \<and> le_int r = (le_int a - le_int b) mod l25519)"
proof -
  let ?i = "digit_intervals scalar_widths"
  have main: "succeeds (do { s \<leftarrow> sc_map2 (\<lambda>x y. x - y) x y; sc_store sc_final (s @ [0]) })
      (\<lambda>r. length r = 32 \<and> le_int r = (sc_value x - sc_value y) mod l25519)"
    if xy: "digits scalar_widths x" "digits scalar_widths y" for x y
  proof -
    obtain z where z: "sc_map2 (\<lambda>x y. x - y) x y = Some z" "limbs_in z (map2 i_sub ?i ?i)" "sc_value z = sc_value x - sc_value y"
      using sc_map2_sub [OF xy [folded limbs_in_digits] refl sc_sub_bounds(1)] by blast
    then show ?thesis using sc_short_store [OF z(2) _ sc_sub_bounds(2)] by (simp add: digit_intervals_def)
  qed
  show ?thesis
    unfolding sc_sub_def
    apply (rule succeeds_bind [OF sc_limbs_value [OF assms(1)]])
    apply (rule succeeds_bind [OF sc_limbs_value [OF assms(2)]])
    by (elim conjE) (drule (1) main, simp)
qed

subsection \<open>Products\<close>

lemma convolution:
  fixes f :: "nat \<Rightarrow> nat \<Rightarrow> int"
  shows "(\<Sum>k < 23. \<Sum>i \<in> {k - 11 ..< Suc (min k 11)}. f i (k - i)) = (\<Sum>i < 12. \<Sum>j < 12. f i j)"
  unfolding sum.Sigma [OF finite_lessThan ballI [OF finite_atLeastLessThan]]
    sum.Sigma [OF finite_lessThan ballI [OF finite_lessThan]]
  by (rule sum.reindex_bij_witness [of _ "\<lambda>(i, j). (i + j, i)" "\<lambda>(k, i). (i, k - i)"])
    (auto simp: less_Suc_eq_le)

lemma sc_value_nth: "sc_value h = (\<Sum>i < length h. h ! i * 2 ^ (21 * i))"
  by (simp add: sc_value_def limbs_value_def sc_exp_def)

lemma dot_sc_pairs: "dot (sc_pairs a b k) = (\<Sum>i \<in> {k - 11 ..< Suc (min k 11)}. a ! i * b ! (k - i))"
  by (simp add: dot_def sc_pairs_def comp_def interv_sum_list_conv_sum_set_nat del: upt_Suc)

lemma sc_products_value:
  assumes "length a = 12" "length b = 12"
  shows "sc_value (map (\<lambda>k. dot (sc_pairs a b k)) [0 ..< 23]) = sc_value a * sc_value b"
proof -
  have "sc_value (map (\<lambda>k. dot (sc_pairs a b k)) [0 ..< 23]) =
      (\<Sum>k < 23. \<Sum>i \<in> {k - 11 ..< Suc (min k 11)}. (a ! i * 2 ^ (21 * i)) * (b ! (k - i) * 2 ^ (21 * (k - i))))"
  proof -
    have "a ! i * b ! (k - i) * 2 ^ (21 * k) = (a ! i * 2 ^ (21 * i)) * (b ! (k - i) * 2 ^ (21 * (k - i)))"
      if "i \<in> {k - 11 ..< Suc (min k 11)}" for k i
    proof -
      have "21 * k = 21 * i + 21 * (k - i)" using that by auto
      then show ?thesis by (simp add: power_add)
    qed
    then have "(\<Sum>i \<in> {k - 11 ..< Suc (min k 11)}. a ! i * b ! (k - i)) * 2 ^ (21 * k) =
        (\<Sum>i \<in> {k - 11 ..< Suc (min k 11)}. (a ! i * 2 ^ (21 * i)) * (b ! (k - i) * 2 ^ (21 * (k - i))))" for k
      unfolding sum_distrib_right by (intro sum.cong) simp_all
    moreover have "sc_value (map (\<lambda>k. dot (sc_pairs a b k)) [0 ..< 23]) = (\<Sum>k < 23. dot (sc_pairs a b k) * 2 ^ (21 * k))"
      by (simp add: sc_value_nth)
    ultimately show ?thesis by (simp only: dot_sc_pairs)
  qed
  also have "\<dots> = (\<Sum>i < 12. \<Sum>j < 12. (a ! i * 2 ^ (21 * i)) * (b ! j * 2 ^ (21 * j)))"
    by (rule convolution)
  also have "\<dots> = sc_value a * sc_value b"
    using assms by (simp add: sc_value_nth sum_product)
  finally show ?thesis .
qed

lemma sc_pairs_mac:
  assumes "length a = 12" "length b = 12" "list_all (\<lambda>x. \<bar>x\<bar> \<le> 2 ^ 25) a" "list_all (\<lambda>x. \<bar>x\<bar> \<le> 2 ^ 25) b" "k < 23"
  shows "mac 0 (sc_pairs a b k) = Some (dot (sc_pairs a b k)) \<and> \<bar>dot (sc_pairs a b k)\<bar> \<le> 12 * 2 ^ 50"
proof -
  have len: "length (sc_pairs a b k) \<le> 12" by (simp add: sc_pairs_def del: upt_Suc)
  have "list_all (\<lambda>(x, y). \<bar>x\<bar> \<le> 2 ^ 25 \<and> \<bar>y\<bar> \<le> 2 ^ 25) (sc_pairs a b k)"
  proof -
    have "\<forall>i < 12. \<bar>a ! i\<bar> \<le> 2 ^ 25" "\<forall>i < 12. \<bar>b ! i\<bar> \<le> 2 ^ 25" using assms(1-4) by (simp_all add: list_all_length)
    then show ?thesis by (auto simp: sc_pairs_def list_all_iff less_Suc_eq_le simp del: upt_Suc)
  qed
  from mac_uniform [OF this] len show ?thesis by (simp add: INT64_def)
qed

lemma sc_products_Some:
  assumes "\<And>k. k \<in> set ks \<Longrightarrow> mac 0 (sc_pairs a b k) = Some (dot (sc_pairs a b k))"
  shows "sc_products a b ks = Some (map (\<lambda>k. dot (sc_pairs a b k)) ks)"
  using assms by (induction ks) simp_all

definition product_intervals :: "interval list" where
  "product_intervals = replicate 23 (- 12 * 2 ^ 50, 12 * 2 ^ 50)"

lemma scalar_digits_small: "digits scalar_widths x \<Longrightarrow> length x = 12 \<and> list_all (\<lambda>x. \<bar>x\<bar> \<le> 2 ^ 25) x"
proof -
  assume d: "digits scalar_widths x"
  then have len: "length x = 12" by (auto simp: digits_def dest: list_all2_lengthD)
  have "\<bar>x ! i\<bar> \<le> 2 ^ 25" if "i < 12" for i
  proof -
    have "0 \<le> x ! i \<and> x ! i < 2 ^ (scalar_widths ! i)"
      using d that len by (simp add: digits_def list_all2_conv_all_nth)
    moreover have "scalar_widths ! i \<le> 25" using that by (simp add: nth_append)
    ultimately show ?thesis using power_increasing [of "scalar_widths ! i" 25 "2 :: int"] by linarith
  qed
  then show ?thesis using len by (simp add: list_all_length)
qed

lemma sc_products_correct:
  assumes "digits scalar_widths a" "digits scalar_widths b"
  shows "\<exists>p. sc_products a b [0 ..< 23] = Some p \<and> limbs_in p product_intervals \<and> sc_value p = sc_value a * sc_value b"
proof -
  let ?p = "map (\<lambda>k. dot (sc_pairs a b k)) [0 ..< 23]"
  note a = scalar_digits_small [OF assms(1)] and b = scalar_digits_small [OF assms(2)]
  have row: "mac 0 (sc_pairs a b k) = Some (dot (sc_pairs a b k))" "- (12 * 2 ^ 50) \<le> dot (sc_pairs a b k)"
    "dot (sc_pairs a b k) \<le> 12 * 2 ^ 50" if "k < 23" for k
    using sc_pairs_mac [of a b k] a b that by (simp_all add: abs_le_iff)
  then have "sc_products a b [0 ..< 23] = Some ?p" by (intro sc_products_Some) simp
  moreover have "limbs_in ?p product_intervals"
    using row by (auto simp: limbs_in_def product_intervals_def list_all2_conv_all_nth lies_in_def)
  ultimately show ?thesis using sc_products_value a b by blast
qed

lemma sc_mul_bounds: "list_all2 (\<lambda>d c. fst c \<le> fst d \<and> snd d \<le> snd c) product_intervals (replicate 23 (- (2 ^ 54), 2 ^ 54))"
  by code_simp

lemma sc_mul_multiplies:
  assumes "length a = 32" "length b = 32"
  shows "succeeds (sc_mul a b) (\<lambda>r. length r = 32 \<and> le_int r = (le_int a * le_int b) mod l25519)"
proof -
  have main: "succeeds (do { s \<leftarrow> sc_products x y [0 ..< 23]; sc_store (sc_product_carries @ sc_high @ sc_final) (s @ [0]) })
      (\<lambda>r. length r = 32 \<and> le_int r = (sc_value x * sc_value y) mod l25519)"
    if xy: "digits scalar_widths x" "digits scalar_widths y" for x y
  proof -
    obtain p where p: "sc_products x y [0 ..< 23] = Some p" "limbs_in p product_intervals" "sc_value p = sc_value x * sc_value y"
      using sc_products_correct [OF xy] by blast
    then show ?thesis using sc_wide_store [OF limbs_in_weaken [OF p(2) sc_mul_bounds]] by simp
  qed
  show ?thesis
    unfolding sc_mul_def
    apply (rule succeeds_bind [OF sc_limbs_value [OF assms(1)]])
    apply (rule succeeds_bind [OF sc_limbs_value [OF assms(2)]])
    by (elim conjE) (drule (1) main, simp)
qed

definition padded :: "interval list" where
  "padded = digit_intervals scalar_widths @ replicate 11 (0, 0)"

lemma sc_muladd_bounds:
  "list_all (fits INT64) (map2 i_add padded product_intervals)" "length padded = length product_intervals"
  "list_all2 (\<lambda>d c. fst c \<le> fst d \<and> snd d \<le> snd c) (map2 i_add padded product_intervals) (replicate 23 (- (2 ^ 54), 2 ^ 54))"
  by code_simp+

lemma sc_mulsub_bounds:
  "list_all (fits INT64) (map2 i_sub padded product_intervals)"
  "list_all2 (\<lambda>d c. fst c \<le> fst d \<and> snd d \<le> snd c) (map2 i_sub padded product_intervals) (replicate 23 (- (2 ^ 54), 2 ^ 54))"
  by code_simp+

lemma limbs_in_padded: "digits scalar_widths c \<Longrightarrow> limbs_in (c @ replicate 11 0) padded"
  unfolding padded_def limbs_in_def
  by (rule list_all2_appendI, simp only: limbs_in_digits [unfolded limbs_in_def])
    (simp add: list_all2_conv_all_nth lies_in_def)

lemma sc_muladd_computes:
  assumes "length a = 32" "length b = 32" "length c = 32"
  shows "succeeds (sc_muladd a b c) (\<lambda>r. length r = 32 \<and> le_int r = (le_int a * le_int b + le_int c) mod l25519)"
proof -
  have main: "succeeds (do { p \<leftarrow> sc_products x y [0 ..< 23]; s \<leftarrow> sc_map2 (\<lambda>x y. x + y) (z @ replicate 11 0) p;
        sc_store (sc_product_carries @ sc_high @ sc_final) (s @ [0]) })
      (\<lambda>r. length r = 32 \<and> le_int r = (sc_value x * sc_value y + sc_value z) mod l25519)"
    if xyz: "digits scalar_widths x" "digits scalar_widths y" "digits scalar_widths z" for x y z
  proof -
    obtain p where p: "sc_products x y [0 ..< 23] = Some p" "limbs_in p product_intervals" "sc_value p = sc_value x * sc_value y"
      using sc_products_correct [OF xyz(1,2)] by blast
    obtain s where s: "sc_map2 (\<lambda>x y. x + y) (z @ replicate 11 0) p = Some s" "limbs_in s (map2 i_add padded product_intervals)"
      "sc_value s = sc_value (z @ replicate 11 0) + sc_value p"
      using sc_map2_add [OF limbs_in_padded [OF xyz(3)] p(2) sc_muladd_bounds(2,1)] by blast
    then show ?thesis using sc_wide_store [OF limbs_in_weaken [OF s(2) sc_muladd_bounds(3)]] p
      by (simp add: sc_value_append add.commute)
  qed
  show ?thesis
    unfolding sc_muladd_def
    apply (rule succeeds_bind [OF sc_limbs_value [OF assms(1)]])
    apply (rule succeeds_bind [OF sc_limbs_value [OF assms(2)]])
    apply (rule succeeds_bind [OF sc_limbs_value [OF assms(3)]])
    by (elim conjE) (drule (2) main, simp)
qed

lemma sc_mulsub_computes:
  assumes "length a = 32" "length b = 32" "length c = 32"
  shows "succeeds (sc_mulsub a b c) (\<lambda>r. length r = 32 \<and> le_int r = (le_int c - le_int a * le_int b) mod l25519)"
proof -
  have main: "succeeds (do { p \<leftarrow> sc_products x y [0 ..< 23]; s \<leftarrow> sc_map2 (\<lambda>x y. x - y) (z @ replicate 11 0) p;
        sc_store (sc_product_carries @ sc_high @ sc_final) (s @ [0]) })
      (\<lambda>r. length r = 32 \<and> le_int r = (sc_value z - sc_value x * sc_value y) mod l25519)"
    if xyz: "digits scalar_widths x" "digits scalar_widths y" "digits scalar_widths z" for x y z
  proof -
    obtain p where p: "sc_products x y [0 ..< 23] = Some p" "limbs_in p product_intervals" "sc_value p = sc_value x * sc_value y"
      using sc_products_correct [OF xyz(1,2)] by blast
    obtain s where s: "sc_map2 (\<lambda>x y. x - y) (z @ replicate 11 0) p = Some s" "limbs_in s (map2 i_sub padded product_intervals)"
      "sc_value s = sc_value (z @ replicate 11 0) - sc_value p"
      using sc_map2_sub [OF limbs_in_padded [OF xyz(3)] p(2) sc_muladd_bounds(2) sc_mulsub_bounds(1)] by blast
    then show ?thesis using sc_wide_store [OF limbs_in_weaken [OF s(2) sc_mulsub_bounds(2)]] p
      by (simp add: sc_value_append)
  qed
  show ?thesis
    unfolding sc_mulsub_def
    apply (rule succeeds_bind [OF sc_limbs_value [OF assms(1)]])
    apply (rule succeeds_bind [OF sc_limbs_value [OF assms(2)]])
    apply (rule succeeds_bind [OF sc_limbs_value [OF assms(3)]])
    by (elim conjE) (drule (2) main, simp)
qed

subsection \<open>Tests\<close>

lemma signum_sgn: "signum a = sgn a"
  by (simp add: signum_def sgn_if)

text \<open>The weighted sum of the signs has the sign of the difference: the highest difference decides.\<close>

definition differences :: "(int \<times> int) list \<Rightarrow> int" where
  "differences ps = foldr (\<lambda>(c, s) r. c - s + 2 ^ 32 * r) ps 0"

lemma signum_sum_sign:
  "list_all (\<lambda>(c, s). 0 \<le> c \<and> c < 2 ^ 32 \<and> 0 \<le> s \<and> s < 2 ^ 32) ps \<Longrightarrow> sgn (signum_sum ps) = sgn (differences ps)"
proof (induction ps)
  case (Cons p ps)
  obtain c s where p: "p = (c, s)" by (cases p)
  have b: "\<bar>c - s\<bar> < 2 ^ 32" using Cons.prems by (auto simp: p)
  have IH: "sgn (signum_sum ps) = sgn (differences ps)" using Cons by simp
  have "sgn (sgn d + 2 * x) = sgn (d + 2 ^ 32 * y)" if "\<bar>d\<bar> < 2 ^ 32" "sgn x = sgn y" for d x y :: int
    using that by (auto simp: sgn_if split: if_splits)
  then show ?case using b IH by (simp add: p signum_sgn differences_def)
qed (simp add: differences_def)

lemma signum_sum_bound: "\<bar>signum_sum ps\<bar> < 2 ^ length ps"
proof (induction ps)
  case (Cons p ps)
  then show ?case by (cases p) (auto simp: signum_def)
qed simp

lemma order_differences:
  "differences [(1559614444, s0), (1477600026, s1), (2734136534, s2), (350157278, s3), (0, s4), (0, s5), (0, s6), (268435456, s7)] =
   l25519 - 1 - (s0 + s1 * 2 ^ 32 + s2 * 2 ^ 64 + s3 * 2 ^ 96 + s4 * 2 ^ 128 + s5 * 2 ^ 160 + s6 * 2 ^ 192 + s7 * 2 ^ 224)"
  by (simp add: differences_def l25519_def)

lemma sc_check_test:
  assumes "length s = 32"
  shows "sc_check s = Some (if le_int s < l25519 then 0 else -1)"
proof -
  let ?N = "le_int s" and ?w = "\<lambda>k. take_bit 32 (drop_bit k (le_int s))"
  let ?ps = "[(1559614444, ?w 0), (1477600026, ?w 32), (2734136534, ?w 64), (350157278, ?w 96), (0, ?w 128), (0, ?w 160),
    (0, ?w 192), (268435456, ?w 224)]"
  have "drop_bit 256 ?N = 0" using le_int_less [of s] assms by (simp add: drop_bit_eq_div)
  then have N: "?w 0 + ?w 32 * 2 ^ 32 + ?w 64 * 2 ^ 64 + ?w 96 * 2 ^ 96 + ?w 128 * 2 ^ 128 + ?w 160 * 2 ^ 160 +
      ?w 192 * 2 ^ 192 + ?w 224 * 2 ^ 224 = ?N"
    using slice_step [of 32 0 ?N] slice_step [of 32 32 ?N] slice_step [of 32 64 ?N] slice_step [of 32 96 ?N]
      slice_step [of 32 128 ?N] slice_step [of 32 160 ?N] slice_step [of 32 192 ?N] slice_step [of 32 224 ?N] by simp
  have range: "0 \<le> ?w k \<and> ?w k < 2 ^ 32" for k
    using take_bit_nonnegative [of 32] take_bit_int_less_exp [of 32] by simp
  then have "sgn (signum_sum ?ps) = sgn (differences ?ps)"
    using range [of 0] by (intro signum_sum_sign) simp
  also have "differences ?ps = l25519 - 1 - ?N" unfolding order_differences N ..
  finally have sign: "sgn (signum_sum ?ps) = sgn (l25519 - 1 - ?N)" .
  have "\<bar>signum_sum ?ps\<bar> < 256" using signum_sum_bound [of ?ps] by simp
  then have "signum_sum ?ps div 256 = (if signum_sum ?ps < 0 then -1 else 0)" by auto
  also have "signum_sum ?ps < 0 \<longleftrightarrow> \<not> ?N < l25519" using sign by (auto simp: sgn_if split: if_splits)
  finally show ?thesis
    using assms by (simp add: sc_check_def load_4_Some del: signum_sum.simps)
qed

lemma sc_isnonzero_test: "sc_isnonzero s = of_bool (le_int s \<noteq> 0)"
  by (simp add: sc_isnonzero_def nonzero_bit_test)

end
