(* ===== verification/CurveSpec.thy ===== *)
theory CurveSpec
  imports PointCodec ScalarProps
begin

text \<open>
  The properties of the signature curve's arithmetic: multiplication and inversion in the field,
  canonical bytes, addition on the curve, decoding, and the scalars.
\<close>

subsection \<open>The field\<close>

text \<open>
  The product of two elements within 1.65 times the width of their limbs has limbs within 1.01
  times the width, so that sums of products can be multiplied again, and is the product of the
  residues; no sum, product or carry overflows on the way.
\<close>

theorem fe_mul_in_field:
  assumes "fe_loose f" "fe_loose g"
  shows "succeeds (fe_mul f g) (\<lambda>h. fe_tight h \<and> fe_val h mod p25519 = (fe_val f * fe_val g) mod p25519)"
  using fe_mul_correct [OF assms] by (simp add: succeeds_def)

lemma fe_mul_in_field_witness:
  "succeeds (fe_mul fe_sqrtm1 fe_sqrtm1)
    (\<lambda>h. fe_tight h \<and> fe_val h mod p25519 = (fe_val fe_sqrtm1 * fe_val fe_sqrtm1) mod p25519)"
  by (rule fe_mul_in_field) (simp_all add: fe_d_tight tight_loose)

text \<open>
  The addition chain of the inversion raises its argument to the power \<open>p - 2\<close>, and the one of the
  square root gives \<open>u v\<^sup>3 (u v\<^sup>7) ^ ((p - 5) / 8)\<close>.
\<close>

theorem fe_addition_chains:
  assumes "fe_loose u" "fe_loose v"
  shows "succeeds (fe_invert u) (\<lambda>h. fe_tight h \<and> fe_res h = fe_res u ^ (nat p25519 - 2)) \<and>
    succeeds (fe_divpowm1 u v) (\<lambda>h. fe_tight h \<and>
      fe_res h = (fe_res u * fe_res v ^ 7) ^ ((nat p25519 - 5) div 8) * fe_res v ^ 3 * fe_res u)"
proof -
  have "nat p25519 - 2 = 2 ^ 255 - 21" "(nat p25519 - 5) div 8 = 2 ^ 252 - 3" by (simp_all add: p25519_def)
  then show ?thesis using fe_invert_power [OF assms(1)] fe_divpowm1_power [OF assms] by (simp only: simp_thms)
qed

lemma fe_addition_chains_witness:
  "succeeds (fe_invert fe_d) (\<lambda>h. fe_tight h \<and> fe_res h = fe_res fe_d ^ (nat p25519 - 2)) \<and>
    succeeds (fe_divpowm1 fe_d fe_d2) (\<lambda>h. fe_tight h \<and>
      fe_res h = (fe_res fe_d * fe_res fe_d2 ^ 7) ^ ((nat p25519 - 5) div 8) * fe_res fe_d2 ^ 3 * fe_res fe_d)"
  by (rule fe_addition_chains) (simp_all add: fe_d_tight tight_loose)

text \<open>
  The bytes of an element are those of the representative between 0 and the modulus, for every
  element within the precondition of the file, also for the negative ones and those beyond the
  modulus.
\<close>

theorem fe_tobytes_canonical:
  assumes "fe_plain h"
  shows "succeeds (fe_tobytes h) (\<lambda>s. length s = 32 \<and> le_int s = fe_val h mod p25519)"
  by (rule fe_tobytes_writes [OF assms])

lemma fe_tobytes_canonical_witness:
  "succeeds (fe_tobytes [-73819750, 0, 0, 0, 0, 0, 0, 0, 0, -36909875]) (\<lambda>s. length s = 32 \<and>
    le_int s = fe_val [-73819750, 0, 0, 0, 0, 0, 0, 0, 0, -36909875] mod p25519)"
  by (rule fe_tobytes_canonical) (simp add: fe_plain_def)

subsection \<open>The curve\<close>

text \<open>
  C20. Addition, subtraction and doubling of points on the curve give points on the curve, whatever
  the points: the formulas have no exceptions, and no intermediate result overflows.
\<close>

theorem curve_operations_closed:
  assumes "p3_ok p" "p3_ok q" "on_curve (p3_point p)" "on_curve (p3_point q)"
  shows "succeeds (do { c \<leftarrow> ge_p3_to_cached q; t \<leftarrow> ge_add p c; ge_p1p1_to_p3 t })
      (\<lambda>r. p3_ok r \<and> on_curve (p3_point r)) \<and>
    succeeds (do { c \<leftarrow> ge_p3_to_cached q; t \<leftarrow> ge_sub p c; ge_p1p1_to_p3 t })
      (\<lambda>r. p3_ok r \<and> on_curve (p3_point r)) \<and>
    succeeds (do { t \<leftarrow> ge_p3_dbl p; ge_p1p1_to_p3 t }) (\<lambda>r. p3_ok r \<and> on_curve (p3_point r))"
proof (intro conjI)
  show "succeeds (do { c \<leftarrow> ge_p3_to_cached q; t \<leftarrow> ge_add p c; ge_p1p1_to_p3 t })
      (\<lambda>r. p3_ok r \<and> on_curve (p3_point r))"
    using assms on_curve_add [OF assms(3,4)]
    by (intro succeeds_bind [OF ge_p3_to_cached_caches] succeeds_bind [OF ge_add_adds]
        succeeds_weaken [OF ge_p1p1_to_p3_extends]) auto
  show "succeeds (do { c \<leftarrow> ge_p3_to_cached q; t \<leftarrow> ge_sub p c; ge_p1p1_to_p3 t })
      (\<lambda>r. p3_ok r \<and> on_curve (p3_point r))"
    using assms on_curve_add [OF assms(3) on_curve_neg [OF assms(4)]]
    by (intro succeeds_bind [OF ge_p3_to_cached_caches] succeeds_bind [OF ge_sub_subtracts]
        succeeds_weaken [OF ge_p1p1_to_p3_extends]) auto
  show "succeeds (do { t \<leftarrow> ge_p3_dbl p; ge_p1p1_to_p3 t }) (\<lambda>r. p3_ok r \<and> on_curve (p3_point r))"
    using assms on_curve_dbl [OF assms(3)]
    by (intro succeeds_bind [OF ge_p3_dbl_doubles] succeeds_weaken [OF ge_p1p1_to_p3_extends]) auto
qed

lemma curve_operations_closed_witness:
  "succeeds (do { c \<leftarrow> ge_p3_to_cached ge_p3_0; t \<leftarrow> ge_add ge_p3_0 c; ge_p1p1_to_p3 t })
      (\<lambda>r. p3_ok r \<and> on_curve (p3_point r)) \<and>
    succeeds (do { c \<leftarrow> ge_p3_to_cached ge_p3_0; t \<leftarrow> ge_sub ge_p3_0 c; ge_p1p1_to_p3 t })
      (\<lambda>r. p3_ok r \<and> on_curve (p3_point r)) \<and>
    succeeds (do { t \<leftarrow> ge_p3_dbl ge_p3_0; ge_p1p1_to_p3 t }) (\<lambda>r. p3_ok r \<and> on_curve (p3_point r))"
  by (rule curve_operations_closed) (simp_all add: p3_0_ok on_curve_zero)

text \<open>
  C23. Decoding is total. A buffer that it accepts is the only encoding of its point: the number below
  the sign bit is less than the modulus, the point lies on the curve, and encoding it gives the
  same 32 bytes.
\<close>

theorem decoding_inverts:
  assumes "length s = 32"
  shows "\<exists>r. ge_frombytes_vartime s = Some r \<and>
    (\<forall>p. r = Some p \<longrightarrow> on_curve (p3_point p) \<and> take_bit 255 (le_int s) < p25519 \<and> ge_p3_tobytes p = Some s)"
proof -
  obtain r where r: "ge_frombytes_vartime s = Some r" "case r of None \<Rightarrow> True | Some p \<Rightarrow> decodes_to s p"
    using ge_frombytes_decodes [OF assms] by (rule succeedsE)
  have "on_curve (p3_point p) \<and> take_bit 255 (le_int s) < p25519 \<and> ge_p3_tobytes p = Some s" if "r = Some p" for p
  proof -
    have d: "decodes_to s p" using r(2) that by simp
    then have "take_bit 255 (le_int s) < p25519" using canonical_range(2) by (metis decodes_to_def)
    then show ?thesis using encode_decoded [OF assms d] d by (simp add: decodes_to_def)
  qed
  then show ?thesis using r(1) by blast
qed

text \<open>The neutral element is accepted.\<close>

lemma fe_root_zero:
  assumes "fe_bound 33890960 16945480 u" "fe_loose v" "fe_res u = 0"
  shows "succeeds (fe_root u v) (\<lambda>r. \<exists>x. r = Some x \<and> fe_tight x \<and> fe_res x = 0)"
proof -
  have u: "fe_loose u" using assms(1) by (rule loose_bound) simp_all
  have sub: "succeeds (fe_sub f u) (\<lambda>h. fe_plain h \<and> fe_res h = fe_res f)" if "fe_tight f" for f
    by (rule succeeds_weaken [OF fe_sub_subtracts [OF tight_bound [OF that] assms(1)]])
      (auto simp: INT32_def assms(3) intro: plain_bound)
  show ?thesis
    unfolding fe_root_def
    apply (rule succeeds_bind [OF fe_divpowm1_power [OF u assms(2)]])
    apply (rule fe_steps, simp add: tight_loose)
    apply (rule fe_steps, simp add: tight_loose, rule assms)
    apply (rule succeeds_bind [OF sub], simp)
    by (simp add: fe_isnonzero_test assms(3))
qed

lemma decode_identity: "\<exists>p. ge_frombytes_vartime (1 # replicate 31 0) = Some (Some p)"
proof -
  let ?s = "1 # replicate 31 0 :: bytes"
  have N: "le_int ?s = 1" by code_simp
  obtain h where h: "fe_load True ?s = Some h" "limbs_in h (load_intervals True)" "fe_val h = 1"
    using fe_load_value [of ?s True] N by (auto elim!: succeedsE)
  have ok: "\<not> fe_not_canonical h" using fe_not_canonical_iff [of ?s h] h(1) N by (simp add: p25519_def)
  have one: "fe_bound 1 1 fe_1" by (simp add: fe_1_def)
  have "fe_res h = 1" by (simp add: fe_res_def h(3))
  have sub1: "succeeds (fe_sub f fe_1) (\<lambda>h. fe_bound 33890960 16945480 h \<and> fe_res h = fe_res f - 1)" if "fe_tight f" for f
    by (rule succeeds_weaken [OF fe_sub_subtracts [OF tight_bound [OF that] one]]) (auto simp: INT32_def)
  have add1: "succeeds (fe_add f fe_1) (\<lambda>h. fe_loose h \<and> fe_res h = fe_res f + 1)" if "fe_tight f" for f
    by (rule succeeds_weaken [OF fe_add_sums [OF tight_bound [OF that] one]]) (auto simp: INT32_def intro: loose_bound)
  have sign: "fe_with_sign x 0 = Some (Some x)" if "fe_tight x" "fe_res x = 0" for x
    using that canonical_0 [of 0] by (simp add: fe_with_sign_def fe_isnegative_canonical tight_plain)
  have top: "rd ?s 31 = Some 0" by (simp add: rd_def)
  have "succeeds (ge_frombytes_vartime ?s) (\<lambda>r. r \<noteq> None)"
    unfolding ge_frombytes_vartime_def h(1) top Let_def
    apply (simp add: ok)
    apply (rule succeeds_bind [OF fe_normal_keeps [OF h(2)]])
    apply (rule fe_steps, simp add: tight_loose)
    apply (rule fe_steps, simp add: tight_loose, simp add: fe_d_tight tight_loose)
    apply (rule succeeds_bind [OF sub1], simp)
    apply (rule succeeds_bind [OF add1], simp)
    apply (rule succeeds_bind [OF fe_root_zero], simp, simp, simp add: \<open>fe_res h = 1\<close>)
    apply (elim exE conjE)
    apply (simp add: top sign)
    by (rule fe_steps) (simp_all add: tight_loose)
  then show ?thesis by (auto simp: succeeds_def)
qed

lemma decoding_inverts_witness:
  "\<exists>p. ge_frombytes_vartime (1 # replicate 31 0) = Some (Some p) \<and> on_curve (p3_point p) \<and>
    ge_p3_tobytes p = Some (1 # replicate 31 0)"
  using decoding_inverts [of "1 # replicate 31 0"] decode_identity by auto

subsection \<open>Scalars\<close>

text \<open>
  C21. The scalar routines are exact: for all 32-byte arguments, canonical or not, the result is the
  residue between 0 and the order, and no intermediate result overflows 64 bits.
\<close>

theorem scalar_arithmetic_exact:
  assumes "length a = 32" "length b = 32" "length c = 32" "length w = 64"
  shows "succeeds (sc_add a b) (\<lambda>r. length r = 32 \<and> le_int r = (le_int a + le_int b) mod l25519) \<and>
    succeeds (sc_sub a b) (\<lambda>r. length r = 32 \<and> le_int r = (le_int a - le_int b) mod l25519) \<and>
    succeeds (sc_mul a b) (\<lambda>r. length r = 32 \<and> le_int r = (le_int a * le_int b) mod l25519) \<and>
    succeeds (sc_muladd a b c) (\<lambda>r. length r = 32 \<and> le_int r = (le_int a * le_int b + le_int c) mod l25519) \<and>
    succeeds (sc_mulsub a b c) (\<lambda>r. length r = 32 \<and> le_int r = (le_int c - le_int a * le_int b) mod l25519) \<and>
    succeeds (sc_reduce32 a) (\<lambda>r. length r = 32 \<and> le_int r = le_int a mod l25519) \<and>
    succeeds (sc_reduce w) (\<lambda>r. length r = 32 \<and> le_int r = le_int w mod l25519)"
  using assms by (intro conjI sc_add_adds sc_sub_subtracts sc_mul_multiplies sc_muladd_computes
    sc_mulsub_computes sc_reduce32_reduces sc_reduce_reduces)

lemma scalar_arithmetic_exact_witness:
  "succeeds (sc_mulsub (replicate 32 255) (replicate 32 255) (replicate 32 0))
    (\<lambda>r. length r = 32 \<and> le_int r = (le_int (replicate 32 0) - le_int (replicate 32 255) * le_int (replicate 32 255)) mod l25519)"
  using scalar_arithmetic_exact [of "replicate 32 255" "replicate 32 255" "replicate 32 0" "replicate 64 0"] by simp

text \<open>
  The test of a scalar accepts exactly the numbers below the order.
\<close>

theorem sc_check_rejects:
  assumes "length s = 32"
  shows "sc_check s = Some (if le_int s < l25519 then 0 else -1)"
  by (rule sc_check_test [OF assms])

lemma sc_check_rejects_witness: "sc_check (replicate 32 255) = Some (-1) \<and> sc_check (replicate 32 0) = Some 0"
proof -
  have "\<not> le_int (replicate 32 255) < l25519" "le_int (replicate 32 0) < l25519" by code_simp+
  then show ?thesis
    using sc_check_rejects [of "replicate 32 255"] sc_check_rejects [of "replicate 32 0"]
    by (simp only: length_replicate if_False if_True simp_thms)
qed

end
