(* ===== verification/ScalarMult.thy ===== *)
theory ScalarMult
  imports CurveTables
begin

text \<open>
  Multiples of points in \<^verbatim>\<open>base/tools/cryptonote/crypto-ops.c\<close>: the recodings of a scalar into
  signed digits, the tables of small multiples, the loops with a fixed pattern of operations for
  secret scalars and the sliding windows for public ones.
\<close>

subsection \<open>Sliding windows\<close>

definition scalar_bits :: "bytes \<Rightarrow> int list" where
  "scalar_bits a = map (\<lambda>i. uint (1 AND drop_bit (i AND 7) (a ! drop_bit 3 i))) [0 ..< 256]"

text \<open>\<open>for (k = i + b; k < 256; ++k)\<close>, over the list of the values of \<open>k\<close>.\<close>

primrec slide_carry :: "nat list \<Rightarrow> int list \<Rightarrow> int list" where
  "slide_carry [] r = r"
| "slide_carry (k # ks) r = (if r ! k = 0 then r[k := 1] else slide_carry ks (r[k := 0]))"

text \<open>\<open>for (b = 1; b <= 6 && i + b < 256; ++b)\<close>\<close>

primrec slide_inner :: "nat \<Rightarrow> nat list \<Rightarrow> int list \<Rightarrow> int list" where
  "slide_inner i [] r = r"
| "slide_inner i (b # bs) r =
     (if \<not> i + b < 256 then r
      else if r ! (i + b) = 0 then slide_inner i bs r
      else let v = r ! (i + b) * 2 ^ b in
        if r ! i + v \<le> 15 then slide_inner i bs (r[i := r ! i + v, i + b := 0])
        else if r ! i - v \<ge> -15 then slide_inner i bs (slide_carry [i + b ..< 256] (r[i := r ! i - v]))
        else r)"

definition slide_step :: "nat \<Rightarrow> int list \<Rightarrow> int list" where
  "slide_step i r = (if r ! i \<noteq> 0 then slide_inner i [1 ..< 7] r else r)"

definition slide :: "bytes \<Rightarrow> int list" where
  "slide a = fold slide_step [0 ..< 256] (scalar_bits a)"

subsection \<open>Variable-time loops\<close>

text \<open>The table \<open>A, 3A, \<dots>, 15A\<close>.\<close>

primrec odd_multiples :: "nat \<Rightarrow> ge_p3 \<Rightarrow> ge_cached \<Rightarrow> ge_cached list option" where
  "odd_multiples 0 s2 q = Some [q]"
| "odd_multiples (Suc n) s2 q = do {
     t \<leftarrow> ge_add s2 q;
     u \<leftarrow> ge_p1p1_to_p3 t;
     q' \<leftarrow> ge_p3_to_cached u;
     qs \<leftarrow> odd_multiples n s2 q';
     Some (q # qs) }"

definition ge_dsm_precomp :: "ge_p3 \<Rightarrow> ge_cached list option" where
  "ge_dsm_precomp s = do {
     q \<leftarrow> ge_p3_to_cached s;
     t \<leftarrow> ge_p3_dbl s;
     s2 \<leftarrow> ge_p1p1_to_p3 t;
     odd_multiples 7 s2 q }"

text \<open>A summand: a point with its table, or the base point with the fixed table.\<close>

datatype summand =
    Point "int list" "ge_cached list"
  | Base "int list"

primrec summand_digits :: "summand \<Rightarrow> int list" where
  "summand_digits (Point ds tab) = ds"
| "summand_digits (Base ds) = ds"

text \<open>\<open>if (aslide[i] > 0) { \<dots> } else if (aslide[i] < 0) { \<dots> }\<close>\<close>

fun add_digit :: "nat \<Rightarrow> summand \<Rightarrow> ge_p1p1 \<Rightarrow> ge_p1p1 option" where
  "add_digit i (Point ds tab) t =
     (if ds ! i > 0 then do { u \<leftarrow> ge_p1p1_to_p3 t; q \<leftarrow> rd tab (nat (ds ! i div 2)); ge_add u q }
      else if ds ! i < 0 then do { u \<leftarrow> ge_p1p1_to_p3 t; q \<leftarrow> rd tab (nat (- ds ! i div 2)); ge_sub u q }
      else Some t)"
| "add_digit i (Base ds) t =
     (if ds ! i > 0 then do { u \<leftarrow> ge_p1p1_to_p3 t; q \<leftarrow> rd ge_Bi (nat (ds ! i div 2)); ge_madd u q }
      else if ds ! i < 0 then do { u \<leftarrow> ge_p1p1_to_p3 t; q \<leftarrow> rd ge_Bi (nat (- ds ! i div 2)); ge_msub u q }
      else Some t)"

primrec add_digits :: "nat \<Rightarrow> summand list \<Rightarrow> ge_p1p1 \<Rightarrow> ge_p1p1 option" where
  "add_digits i [] t = Some t"
| "add_digits i (s # ss) t = do { t \<leftarrow> add_digit i s t; add_digits i ss t }"

definition vartime_turn :: "summand list \<Rightarrow> nat \<Rightarrow> ge_p2 \<Rightarrow> ge_p1p1 option" where
  "vartime_turn ss i r = do { t \<leftarrow> ge_p2_dbl r; add_digits i ss t }"

text \<open>The indices from the highest non-zero digit down.\<close>

definition vartime_indices :: "summand list \<Rightarrow> nat list" where
  "vartime_indices ss = dropWhile (\<lambda>i. list_all (\<lambda>s. summand_digits s ! i = 0) ss) (rev [0 ..< 256])"

primrec vartime_loop :: "summand list \<Rightarrow> nat list \<Rightarrow> ge_p2 \<Rightarrow> ge_p2 option" where
  "vartime_loop ss [] r = Some r"
| "vartime_loop ss (i # is) r = do { t \<leftarrow> vartime_turn ss i r; r \<leftarrow> ge_p1p1_to_p2 t; vartime_loop ss is r }"

definition vartime :: "summand list \<Rightarrow> ge_p2 option" where
  "vartime ss = vartime_loop ss (vartime_indices ss) ge_p2_0"

text \<open>
  The variants that end in extended coordinates write their result in the turn of index 0 only:
  with no turn at all it stays unset, \<open>None\<close>.
\<close>

fun vartime_loop_p3 :: "summand list \<Rightarrow> nat list \<Rightarrow> ge_p2 \<Rightarrow> ge_p3 option" where
  "vartime_loop_p3 ss [] r = None"
| "vartime_loop_p3 ss (i # is) r = do {
     t \<leftarrow> vartime_turn ss i r;
     if i = 0 then ge_p1p1_to_p3 t
     else do { r \<leftarrow> ge_p1p1_to_p2 t; vartime_loop_p3 ss is r } }"

definition vartime_p3 :: "summand list \<Rightarrow> ge_p3 option" where
  "vartime_p3 ss = vartime_loop_p3 ss (vartime_indices ss) ge_p2_0"

definition ge_double_scalarmult_base_vartime :: "bytes \<Rightarrow> ge_p3 \<Rightarrow> bytes \<Rightarrow> ge_p2 option" where
  "ge_double_scalarmult_base_vartime a A b = do {
     Ai \<leftarrow> ge_dsm_precomp A;
     vartime [Point (slide a) Ai, Base (slide b)] }"

definition ge_triple_scalarmult_base_vartime ::
  "bytes \<Rightarrow> bytes \<Rightarrow> ge_cached list \<Rightarrow> bytes \<Rightarrow> ge_cached list \<Rightarrow> ge_p2 option" where
  "ge_triple_scalarmult_base_vartime a b Bi c Ci =
     vartime [Base (slide a), Point (slide b) Bi, Point (slide c) Ci]"

definition ge_double_scalarmult_base_vartime_p3 :: "bytes \<Rightarrow> ge_p3 \<Rightarrow> bytes \<Rightarrow> ge_p3 option" where
  "ge_double_scalarmult_base_vartime_p3 a A b = do {
     Ai \<leftarrow> ge_dsm_precomp A;
     vartime_p3 [Point (slide a) Ai, Base (slide b)] }"

definition ge_double_scalarmult_precomp_vartime2 ::
  "bytes \<Rightarrow> ge_cached list \<Rightarrow> bytes \<Rightarrow> ge_cached list \<Rightarrow> ge_p2 option" where
  "ge_double_scalarmult_precomp_vartime2 a Ai b Bi = vartime [Point (slide a) Ai, Point (slide b) Bi]"

definition ge_triple_scalarmult_precomp_vartime ::
  "bytes \<Rightarrow> ge_cached list \<Rightarrow> bytes \<Rightarrow> ge_cached list \<Rightarrow> bytes \<Rightarrow> ge_cached list \<Rightarrow> ge_p2 option" where
  "ge_triple_scalarmult_precomp_vartime a Ai b Bi c Ci =
     vartime [Point (slide a) Ai, Point (slide b) Bi, Point (slide c) Ci]"

definition ge_double_scalarmult_precomp_vartime2_p3 ::
  "bytes \<Rightarrow> ge_cached list \<Rightarrow> bytes \<Rightarrow> ge_cached list \<Rightarrow> ge_p3 option" where
  "ge_double_scalarmult_precomp_vartime2_p3 a Ai b Bi = vartime_p3 [Point (slide a) Ai, Point (slide b) Bi]"

definition ge_double_scalarmult_precomp_vartime :: "bytes \<Rightarrow> ge_p3 \<Rightarrow> bytes \<Rightarrow> ge_cached list \<Rightarrow> ge_p2 option" where
  "ge_double_scalarmult_precomp_vartime a A b Bi = do {
     Ai \<leftarrow> ge_dsm_precomp A;
     ge_double_scalarmult_precomp_vartime2 a Ai b Bi }"

subsection \<open>Selecting without branches\<close>

text \<open>Signed characters are integers; \<^verbatim>\<open>equal\<close> and \<^verbatim>\<open>negative\<close> convert them to unsigned words.\<close>

definition equal_char :: "int \<Rightarrow> int \<Rightarrow> int" where
  "equal_char b c =
     (let x = (word_of_int b :: u8) XOR word_of_int c;
          y = (ucast x :: u32) - 1
      in uint (drop_bit 31 y))"

definition negative :: "int \<Rightarrow> int" where
  "negative b = uint (drop_bit 63 (word_of_int b :: u64))"

definition babs :: "int \<Rightarrow> int" where
  "babs b = uint (word_of_int (b - push_bit 1 (- negative b AND b)) :: u8)"

definition ge_precomp_cmov :: "ge_precomp \<Rightarrow> ge_precomp \<Rightarrow> int \<Rightarrow> ge_precomp option" where
  "ge_precomp_cmov t u b = do {
     yp \<leftarrow> fe_cmov (yplusx t) (yplusx u) b;
     ym \<leftarrow> fe_cmov (yminusx t) (yminusx u) b;
     xy \<leftarrow> fe_cmov (xy2d t) (xy2d u) b;
     Some \<lparr> yplusx = yp, yminusx = ym, xy2d = xy \<rparr> }"

definition ge_cached_cmov :: "ge_cached \<Rightarrow> ge_cached \<Rightarrow> int \<Rightarrow> ge_cached option" where
  "ge_cached_cmov t u b = do {
     yp \<leftarrow> fe_cmov (YplusX t) (YplusX u) b;
     ym \<leftarrow> fe_cmov (YminusX t) (YminusX u) b;
     z \<leftarrow> fe_cmov (Zc t) (Zc u) b;
     t2 \<leftarrow> fe_cmov (T2d t) (T2d u) b;
     Some \<lparr> YplusX = yp, YminusX = ym, Zc = z, T2d = t2 \<rparr> }"

text \<open>The eight conditional moves, entry \<open>k\<close> where \<open>babs\<close> is \<open>k + 1\<close>.\<close>

primrec cmov_precomps :: "int \<Rightarrow> int \<Rightarrow> ge_precomp list \<Rightarrow> ge_precomp \<Rightarrow> ge_precomp option" where
  "cmov_precomps n k [] t = Some t"
| "cmov_precomps n k (q # qs) t = do { t \<leftarrow> ge_precomp_cmov t q (equal_char n k); cmov_precomps n (k + 1) qs t }"

primrec cmov_cacheds :: "int \<Rightarrow> int \<Rightarrow> ge_cached list \<Rightarrow> ge_cached \<Rightarrow> ge_cached option" where
  "cmov_cacheds n k [] t = Some t"
| "cmov_cacheds n k (q # qs) t = do { t \<leftarrow> ge_cached_cmov t q (equal_char n k); cmov_cacheds n (k + 1) qs t }"

definition select :: "nat \<Rightarrow> int \<Rightarrow> ge_precomp option" where
  "select pos b = do {
     row \<leftarrow> rd ge_base pos;
     t \<leftarrow> cmov_precomps (babs b) 1 row ge_precomp_0;
     xy \<leftarrow> fe_neg (xy2d t);
     ge_precomp_cmov t \<lparr> yplusx = fe_copy (yminusx t), yminusx = fe_copy (yplusx t), xy2d = xy \<rparr> (negative b) }"

definition select_cached :: "ge_cached list \<Rightarrow> int \<Rightarrow> ge_cached option" where
  "select_cached Ai b = do {
     cur \<leftarrow> cmov_cacheds (babs b) 1 Ai ge_cached_0;
     t2 \<leftarrow> fe_neg (T2d cur);
     ge_cached_cmov cur
       \<lparr> YplusX = fe_copy (YminusX cur), YminusX = fe_copy (YplusX cur), Zc = fe_copy (Zc cur), T2d = t2 \<rparr>
       (negative b) }"

subsection \<open>Multiples of a point\<close>

text \<open>The signed digits in radix 16, with the carry between bytes.\<close>

fun radix16 :: "bytes \<Rightarrow> int \<Rightarrow> int list \<times> int" where
  "radix16 [] c = ([], c)"
| "radix16 (b # bs) c =
     (let carry = c + uint b;
          carry2 = (carry + 8) div 2 ^ 4;
          e0 = carry - carry2 * 2 ^ 4;
          carry = (carry2 + 8) div 2 ^ 4;
          e1 = carry2 - carry * 2 ^ 4;
          (es, c) = radix16 bs carry
      in (e0 # e1 # es, c))"

definition signed_digits :: "bytes \<Rightarrow> int list" where
  "signed_digits a =
     (let (es, carry) = radix16 (take 31 a) 0;
          carry = carry + uint (a ! 31);
          carry2 = (carry + 8) div 2 ^ 4
      in es @ [carry - carry2 * 2 ^ 4, carry2])"

text \<open>\<open>1 * A, 2 * A, \<dots>, 8 * A\<close>\<close>

primrec small_multiples :: "nat \<Rightarrow> ge_p3 \<Rightarrow> ge_cached \<Rightarrow> ge_cached list option" where
  "small_multiples 0 A q = Some [q]"
| "small_multiples (Suc n) A q = do {
     t \<leftarrow> ge_add A q;
     u \<leftarrow> ge_p1p1_to_p3 t;
     q' \<leftarrow> ge_p3_to_cached u;
     qs \<leftarrow> small_multiples n A q';
     Some (q # qs) }"

definition four_doublings :: "ge_p2 \<Rightarrow> ge_p3 option" where
  "four_doublings r = do {
     t \<leftarrow> ge_p2_dbl r;
     r \<leftarrow> ge_p1p1_to_p2 t;
     t \<leftarrow> ge_p2_dbl r;
     r \<leftarrow> ge_p1p1_to_p2 t;
     t \<leftarrow> ge_p2_dbl r;
     r \<leftarrow> ge_p1p1_to_p2 t;
     t \<leftarrow> ge_p2_dbl r;
     ge_p1p1_to_p3 t }"

definition scalarmult_turn :: "ge_cached list \<Rightarrow> int \<Rightarrow> ge_p2 \<Rightarrow> ge_p1p1 option" where
  "scalarmult_turn Ai b r = do {
     u \<leftarrow> four_doublings r;
     cur \<leftarrow> select_cached Ai b;
     ge_add u cur }"

text \<open>The digits from the highest down.\<close>

primrec scalarmult_loop :: "ge_cached list \<Rightarrow> int list \<Rightarrow> ge_p2 \<Rightarrow> ge_p2 option" where
  "scalarmult_loop Ai [] r = Some r"
| "scalarmult_loop Ai (b # bs) r = do { t \<leftarrow> scalarmult_turn Ai b r; r \<leftarrow> ge_p1p1_to_p2 t; scalarmult_loop Ai bs r }"

definition ge_scalarmult :: "bytes \<Rightarrow> ge_p3 \<Rightarrow> ge_p2 option" where
  "ge_scalarmult a A = do {
     q \<leftarrow> ge_p3_to_cached A;
     Ai \<leftarrow> small_multiples 7 A q;
     scalarmult_loop Ai (rev (signed_digits a)) ge_p2_0 }"

definition ge_scalarmult_p3 :: "bytes \<Rightarrow> ge_p3 \<Rightarrow> ge_p3 option" where
  "ge_scalarmult_p3 a A = do {
     q \<leftarrow> ge_p3_to_cached A;
     Ai \<leftarrow> small_multiples 7 A q;
     let e = signed_digits a;
     r \<leftarrow> scalarmult_loop Ai (rev (tl e)) ge_p2_0;
     t \<leftarrow> scalarmult_turn Ai (hd e) r;
     ge_p1p1_to_p3 t }"

subsection \<open>Multiples of the base point\<close>

definition nibbles :: "bytes \<Rightarrow> int list" where
  "nibbles a = concat (map (\<lambda>b. [uint (b AND 15), uint (drop_bit 4 b AND 15)]) a)"

text \<open>The loop over the first 63 digits; the last takes the remaining carry.\<close>

fun center_digits :: "int \<Rightarrow> int list \<Rightarrow> int list" where
  "center_digits carry [] = []"
| "center_digits carry [e] = [e + carry]"
| "center_digits carry (e # es) =
     (let e = e + carry;
          carry = (e + 8) div 2 ^ 4
      in (e - carry * 2 ^ 4) # center_digits carry es)"

primrec add_selected :: "int list \<Rightarrow> nat list \<Rightarrow> ge_p3 \<Rightarrow> ge_p3 option" where
  "add_selected e [] h = Some h"
| "add_selected e (i # is) h = do {
     t \<leftarrow> select (i div 2) (e ! i);
     r \<leftarrow> ge_madd h t;
     h \<leftarrow> ge_p1p1_to_p3 r;
     add_selected e is h }"

definition ge_scalarmult_base :: "bytes \<Rightarrow> ge_p3 option" where
  "ge_scalarmult_base a = do {
     let e = center_digits 0 (nibbles a);
     h \<leftarrow> add_selected e (map (\<lambda>k. 2 * k + 1) [0 ..< 32]) ge_p3_0;
     r \<leftarrow> ge_p3_dbl h;
     s \<leftarrow> ge_p1p1_to_p2 r;
     r \<leftarrow> ge_p2_dbl s;
     s \<leftarrow> ge_p1p1_to_p2 r;
     r \<leftarrow> ge_p2_dbl s;
     s \<leftarrow> ge_p1p1_to_p2 r;
     r \<leftarrow> ge_p2_dbl s;
     h \<leftarrow> ge_p1p1_to_p3 r;
     add_selected e (map (\<lambda>k. 2 * k) [0 ..< 32]) h }"

end
