(* ===== verification/Signatures.thy ===== *)
theory Signatures
  imports ScalarMult Scalar25519 Keccak BlobReader
begin

text \<open>
  Signatures and key derivation, \<^verbatim>\<open>base/tools/cryptonote/Signatures.cpp\<close>: Schnorr signatures of a
  block by the miner's key, and the derivation of the keys of a wallet. \<open>None\<close> is an access or an
  overflow that C does not define. Random bytes are taken from a list.
\<close>

subsection \<open>Scalars from hashes\<close>

definition hash_to_scalar :: "bytes \<Rightarrow> bytes option" where
  "hash_to_scalar data = do { res \<leftarrow> keccak data 32; sc_reduce32 res }"

definition random_scalar :: "bytes \<Rightarrow> bytes option" where
  "random_scalar random = sc_reduce32 random"

text \<open>The index is written in the variable-length form of hashing blobs; the buffer has room for ten bytes.\<close>

definition derivation_to_scalar :: "bytes \<Rightarrow> u64 \<Rightarrow> bytes option" where
  "derivation_to_scalar derivation output_index =
     (if length (put_varint output_index) \<le> 10 then hash_to_scalar (derivation @ put_varint output_index) else None)"

subsection \<open>Signatures\<close>

text \<open>
  The loop of \<open>generate_signature\<close>, on the two halves of the signature buffer. \<^verbatim>\<open>continue\<close> in a
  \<^verbatim>\<open>do \<dots> while\<close> jumps to the test, which then looks at the second half as it was before. The inner
  option is \<open>None\<close> when the random bytes are used up.
\<close>

fun signature_loop :: "bytes \<Rightarrow> bytes \<Rightarrow> bytes \<Rightarrow> bytes list \<Rightarrow> bytes \<Rightarrow> (bytes \<times> bytes) option option" where
  "signature_loop prefix_hash pub sec [] r = Some None"
| "signature_loop prefix_hash pub sec (random # randoms) r = do {
     k \<leftarrow> random_scalar random;
     tmp3 \<leftarrow> ge_scalarmult_base k;
     comm \<leftarrow> ge_p3_tobytes tmp3;
     c \<leftarrow> hash_to_scalar (prefix_hash @ pub @ comm);
     r \<leftarrow> (if sc_isnonzero c = 0 then Some r else sc_mulsub c sec k);
     if sc_isnonzero r = 0 then signature_loop prefix_hash pub sec randoms r
     else Some (Some (c, r)) }"

definition generate_signature :: "bytes list \<Rightarrow> bytes \<Rightarrow> bytes \<Rightarrow> bytes \<Rightarrow> bytes \<Rightarrow> bytes option option" where
  "generate_signature randoms prefix_hash pub sec sig_bytes = do {
     s \<leftarrow> signature_loop prefix_hash pub sec randoms (drop 32 sig_bytes);
     Some (map_option (\<lambda>(c, r). c @ r) s) }"

definition infinity :: bytes where "infinity = 1 # replicate 31 0"

definition check_signature :: "bytes \<Rightarrow> bytes \<Rightarrow> bytes \<Rightarrow> bool option" where
  "check_signature prefix_hash pub sig_bytes = do {
     point \<leftarrow> ge_frombytes_vartime pub;
     case point of
       None \<Rightarrow> Some False
     | Some tmp3 \<Rightarrow> do {
         let sig_c = take 32 sig_bytes;
         let sig_r = drop 32 sig_bytes;
         check_c \<leftarrow> sc_check sig_c;
         check_r \<leftarrow> sc_check sig_r;
         if check_c \<noteq> 0 \<or> check_r \<noteq> 0 \<or> sc_isnonzero sig_c = 0 then Some False
         else do {
           tmp2 \<leftarrow> ge_double_scalarmult_base_vartime sig_c tmp3 sig_r;
           comm \<leftarrow> ge_tobytes tmp2;
           if comm = infinity then Some False
           else do {
             c \<leftarrow> hash_to_scalar (prefix_hash @ pub @ comm);
             c \<leftarrow> sc_sub c sig_c;
             Some (sc_isnonzero c = 0) } } } }"

subsection \<open>Key derivation\<close>

text \<open>\<^verbatim>\<open>view_tag\<close> without its terminator, as bytes.\<close>

definition view_tag_salt :: bytes where
  "view_tag_salt = [0x76, 0x69, 0x65, 0x77, 0x5f, 0x74, 0x61, 0x67]"

text \<open>The derivation and its view tag; the inner option is the return value false.\<close>

definition generate_key_derivation :: "bytes \<Rightarrow> bytes \<Rightarrow> (bytes \<times> u8) option option" where
  "generate_key_derivation key1 key2 = do {
     p \<leftarrow> ge_frombytes_vartime key1;
     case p of
       None \<Rightarrow> Some None
     | Some point \<Rightarrow> do {
         point2 \<leftarrow> ge_scalarmult key2 point;
         point3 \<leftarrow> ge_mul8 point2;
         point2 \<leftarrow> ge_p1p1_to_p2 point3;
         derivation \<leftarrow> ge_tobytes point2;
         view_tag_full \<leftarrow> keccak (view_tag_salt @ derivation @ [0]) 32;
         tag \<leftarrow> rd view_tag_full 0;
         Some (Some (derivation, tag)) } }"

definition derive_secret_key :: "bytes \<Rightarrow> u64 \<Rightarrow> bytes \<Rightarrow> bytes option" where
  "derive_secret_key derivation output_index base = do {
     scalar \<leftarrow> derivation_to_scalar derivation output_index;
     sc_add base scalar }"

definition derive_public_key :: "bytes \<Rightarrow> u64 \<Rightarrow> bytes \<Rightarrow> bytes option option" where
  "derive_public_key derivation output_index base = do {
     p \<leftarrow> ge_frombytes_vartime base;
     case p of
       None \<Rightarrow> Some None
     | Some point1 \<Rightarrow> do {
         scalar \<leftarrow> derivation_to_scalar derivation output_index;
         point2 \<leftarrow> ge_scalarmult_base scalar;
         point3 \<leftarrow> ge_p3_to_cached point2;
         point4 \<leftarrow> ge_add point1 point3;
         point5 \<leftarrow> ge_p1p1_to_p2 point4;
         derived_key \<leftarrow> ge_tobytes point5;
         Some (Some derived_key) } }"

definition derive_view_secret_key :: "bytes \<Rightarrow> bytes option" where
  "derive_view_secret_key spend_secret_key = do {
     view_secret_key \<leftarrow> keccak spend_secret_key 32;
     sc_reduce32 view_secret_key }"

definition generate_keys :: "bytes \<Rightarrow> (bytes \<times> bytes) option" where
  "generate_keys random = do {
     sec \<leftarrow> random_scalar random;
     point \<leftarrow> ge_scalarmult_base sec;
     pub \<leftarrow> ge_p3_tobytes point;
     Some (pub, sec) }"

definition secret_key_to_public_key :: "bytes \<Rightarrow> bytes option option" where
  "secret_key_to_public_key sec = do {
     check \<leftarrow> sc_check sec;
     if check \<noteq> 0 then Some None
     else do {
       point \<leftarrow> ge_scalarmult_base sec;
       pub \<leftarrow> ge_p3_tobytes point;
       Some (Some pub) } }"

end
