(* ===== verification/Recoding.thy ===== *)
theory Recoding
  imports ScalarMult
begin

text \<open>
  The recodings of a scalar into signed digits are exact: sliding windows with odd digits of at
  most 15, and the digits in radix 16.
\<close>

subsection \<open>Sums of digits\<close>

definition window_value :: "int list \<Rightarrow> int" where "window_value = limbs_value (\<lambda>i. i)"

definition low_value :: "nat \<Rightarrow> int list \<Rightarrow> int" where
  "low_value i r = (\<Sum>k < i. r ! k * 2 ^ k)"

lemma window_value_low: "length r = n \<Longrightarrow> window_value r = low_value n r"
  by (simp add: window_value_def limbs_value_def low_value_def)

lemma low_value_Suc: "low_value (Suc i) r = low_value i r + r ! i * 2 ^ i"
  by (simp add: low_value_def)

lemma low_value_same: "(\<And>k. k < i \<Longrightarrow> r' ! k = r ! k) \<Longrightarrow> low_value i r' = low_value i r"
  by (simp add: low_value_def)

lemma window_value_update:
  "i < length r \<Longrightarrow> window_value (r[i := x]) = window_value r + (x - r ! i) * 2 ^ i"
  by (simp add: window_value_def limbs_value_update)

lemma low_value_split: "i \<le> n \<Longrightarrow> low_value n r = low_value i r + (\<Sum>k \<in> {i ..< n}. r ! k * 2 ^ k)"
  by (simp add: low_value_def lessThan_atLeast0 sum.atLeastLessThan_concat)

subsection \<open>The bits of a scalar\<close>

lemma scalar_bit: "uint (1 AND drop_bit k (b :: u8)) = of_bool (bit b k)"
proof -
  have "1 AND drop_bit k b = of_bool (bit b k)"
    by (rule bit_word_eqI) (auto simp: bit_and_iff bit_drop_bit_eq bit_1_iff)
  then show ?thesis by simp
qed

lemma scalar_bits_value:
  assumes "length a = 32"
  shows "window_value (scalar_bits a) = le_int a"
proof -
  have nth: "scalar_bits a ! i = of_bool (bit (le_int a) i)" if "i < 256" for i
  proof -
    have "i AND 7 = i mod 8" using take_bit_eq_mask [of 3 i] by (simp add: take_bit_eq_mod mask_eq_exp_minus_1)
    moreover have "drop_bit 3 i = i div 8" by (simp add: drop_bit_eq_div)
    ultimately show ?thesis using that assms by (simp add: scalar_bits_def scalar_bit bit_le_int)
  qed
  have "window_value (scalar_bits a) = (\<Sum>i < 256. of_bool (bit (le_int a) i) * 2 ^ i)"
    using nth by (simp add: window_value_def limbs_value_def scalar_bits_def)
  also have "\<dots> = take_bit 256 (le_int a)"
    by (simp add: take_bit_sum push_bit_eq_mult lessThan_atLeast0)
  finally show ?thesis using le_int_less [of a] assms by (simp add: take_bit_int_eq_self)
qed

lemma scalar_bits_range: "i < 256 \<Longrightarrow> scalar_bits a ! i = 0 \<or> scalar_bits a ! i = 1"
  by (simp add: scalar_bits_def scalar_bit)

subsection \<open>Sliding windows\<close>

definition bits_from :: "nat \<Rightarrow> int list \<Rightarrow> bool" where
  "bits_from i r \<longleftrightarrow> (\<forall>k. i \<le> k \<and> k < length r \<longrightarrow> r ! k = 0 \<or> r ! k = 1)"

definition zeros :: "nat \<Rightarrow> nat \<Rightarrow> int list \<Rightarrow> bool" where
  "zeros i j r \<longleftrightarrow> (\<forall>k. i \<le> k \<and> k < j \<and> k < length r \<longrightarrow> r ! k = 0)"

definition same_below :: "nat \<Rightarrow> int list \<Rightarrow> int list \<Rightarrow> bool" where
  "same_below i r r' \<longleftrightarrow> length r' = length r \<and> (\<forall>k < i. r' ! k = r ! k)"

text \<open>Adding a bit at \<open>k\<close>; the carry can only be lost from a run of ones up to the top.\<close>

lemma slide_carry_adds:
  assumes "k \<le> length r" "bits_from k r"
  shows "same_below k r (slide_carry [k ..< length r] r) \<and> bits_from k (slide_carry [k ..< length r] r) \<and>
    (k < length r \<and> r ! k = 1 \<longrightarrow> slide_carry [k ..< length r] r ! k = 0) \<and>
    (window_value (slide_carry [k ..< length r] r) = window_value r + 2 ^ k \<or>
     (\<forall>j. k \<le> j \<and> j < length r \<longrightarrow> r ! j = 1))"
  using assms
proof (induction "length r - k" arbitrary: k r)
  case 0
  then show ?case by (auto simp: same_below_def)
next
  case (Suc n)
  then have k: "k < length r" by simp
  then have upt: "[k ..< length r] = k # [Suc k ..< length r]" by (rule upt_conv_Cons)
  have bit: "r ! k = 0 \<or> r ! k = 1" using Suc.prems(2) k by (simp add: bits_from_def)
  show ?case
  proof (cases "r ! k = 0")
    case True
    then show ?thesis using k Suc.prems(2)
      by (auto simp: upt same_below_def bits_from_def window_value_update nth_list_update)
  next
    case False
    then have one: "r ! k = 1" using bit by simp
    let ?r = "r[k := 0]" and ?r' = "slide_carry [Suc k ..< length r] (r[k := 0])"
    have "bits_from (Suc k) ?r" using Suc.prems(2) by (auto simp: bits_from_def nth_list_update)
    then have IH: "same_below (Suc k) ?r ?r'" "bits_from (Suc k) ?r'"
      "window_value ?r' = window_value ?r + 2 ^ Suc k \<or> (\<forall>j. Suc k \<le> j \<and> j < length r \<longrightarrow> ?r ! j = 1)"
      using Suc.hyps(1) [of ?r "Suc k"] Suc.hyps(2) k by simp_all
    have "?r' ! k = 0" using IH(1) k by (simp add: same_below_def)
    moreover have "bits_from k ?r'"
      using IH(2) \<open>?r' ! k = 0\<close> unfolding bits_from_def by (metis Suc_leI le_neq_implies_less)
    moreover have "same_below k r ?r'" using IH(1) by (auto simp: same_below_def)
    moreover have "window_value ?r' = window_value r + 2 ^ k \<or> (\<forall>j. k \<le> j \<and> j < length r \<longrightarrow> r ! j = 1)"
      using IH(3)
    proof
      assume "window_value ?r' = window_value ?r + 2 ^ Suc k"
      then show ?thesis using k one by (simp add: window_value_update)
    next
      assume *: "\<forall>j. Suc k \<le> j \<and> j < length r \<longrightarrow> ?r ! j = 1"
      have "r ! j = 1" if "k \<le> j" "j < length r" for j
        using * that one by (cases "j = k") (auto simp: nth_list_update)
      then show ?thesis by blast
    qed
    ultimately show ?thesis by (simp add: upt False)
  qed
qed

text \<open>
  The state within a window at \<open>i\<close>: the digit collected so far is odd and below \<open>m\<close>, the places up
  to \<open>j\<close> have been emptied, the higher ones still hold bits, and the value is unchanged.
\<close>

definition window :: "nat \<Rightarrow> nat \<Rightarrow> int \<Rightarrow> int list \<Rightarrow> int list \<Rightarrow> bool" where
  "window i j m r r' \<longleftrightarrow> same_below i r r' \<and> bits_from (Suc i) r' \<and> zeros (Suc i) j r' \<and>
     odd (r' ! i) \<and> \<bar>r' ! i\<bar> < m \<and> window_value r' = window_value r"

lemma window_next:
  assumes "window i (i + b) m r r'" "r' ! (i + b) = 0" "m \<le> m'"
  shows "window i (i + Suc b) m' r r'"
  using assms unfolding window_def zeros_def by (auto simp: less_Suc_eq le_less)

lemma window_add:
  assumes w: "window i (i + b) m r r'" and b: "0 < b" "i + b < length r" and bit: "r' ! (i + b) = 1"
    and m: "m \<le> 2 ^ b" "0 < r' ! i"
  shows "window i (i + Suc b) (2 * 2 ^ b) r (r'[i := r' ! i + 2 ^ b, i + b := 0])" "0 < r'[i := r' ! i + 2 ^ b, i + b := 0] ! i"
proof -
  have len: "length r' = length r" using w by (simp add: window_def same_below_def)
  have "window_value (r'[i := r' ! i + 2 ^ b, i + b := 0]) = window_value r'"
    using b bit len by (simp add: window_value_update power_add)
  moreover have "odd (r' ! i + 2 ^ b)" using w b(1) by (simp add: window_def)
  moreover have "\<bar>r' ! i + 2 ^ b\<bar> < 2 * 2 ^ b" using w m by (simp add: window_def)
  ultimately show "window i (i + Suc b) (2 * 2 ^ b) r (r'[i := r' ! i + 2 ^ b, i + b := 0])"
    using w b len unfolding window_def same_below_def bits_from_def zeros_def
    by (auto simp: nth_list_update less_Suc_eq)
  show "0 < r'[i := r' ! i + 2 ^ b, i + b := 0] ! i" using m b len add_pos_pos [of "r' ! i" "2 ^ b"] by (simp add: nth_list_update)
qed

lemma window_borrow:
  assumes w: "window i (i + 4) 16 r r'" and i: "i + 4 < length r" and bit: "r' ! (i + 4) = 1" and pos: "0 < r' ! i"
    and small: "\<not> (\<forall>j. i + 4 \<le> j \<and> j < length r \<longrightarrow> r' ! j = 1)"
  shows "window i (i + 5) 16 r (slide_carry [i + 4 ..< length r] (r'[i := r' ! i - 16]))"
proof -
  let ?q = "r'[i := r' ! i - 16]" and ?r = "slide_carry [i + 4 ..< length r] (r'[i := r' ! i - 16])"
  have len: "length ?q = length r" using w by (simp add: window_def same_below_def)
  have "bits_from (i + 4) ?q" using w by (auto simp: window_def bits_from_def nth_list_update)
  then have carry: "same_below (i + 4) ?q ?r" "bits_from (i + 4) ?r" "?r ! (i + 4) = 0"
    "window_value ?r = window_value ?q + 2 ^ (i + 4)"
    using slide_carry_adds [of "i + 4" ?q] i bit small len by (auto simp: nth_list_update)
  have low: "?r ! k = ?q ! k" if "k < i + 4" for k using carry(1) that by (simp add: same_below_def)
  have "window_value ?q = window_value r' - 16 * 2 ^ i" using i len by (simp add: window_value_update)
  then have "window_value ?r = window_value r" using carry(4) w by (simp add: window_def power_add)
  moreover have "?r ! i = r' ! i - 16" using low [of i] i len by simp
  moreover have "odd (r' ! i - 16)" "\<bar>r' ! i - 16\<bar> < 16" using w pos by (auto simp: window_def)
  moreover have "zeros (Suc i) (i + 5) ?r" unfolding zeros_def
  proof (intro allI impI)
    fix k assume k: "Suc i \<le> k \<and> k < i + 5 \<and> k < length ?r"
    show "?r ! k = 0"
    proof (cases "k = i + 4")
      case True then show ?thesis using carry(3) by simp
    next
      case False
      then have "k < i + 4" "k \<noteq> i" using k by auto
      then show ?thesis using low [of k] w k len carry(1) by (simp add: window_def zeros_def same_below_def)
    qed
  qed
  moreover have "bits_from (Suc i) ?r" unfolding bits_from_def
  proof (intro allI impI)
    fix k assume k: "Suc i \<le> k \<and> k < length ?r"
    show "?r ! k = 0 \<or> ?r ! k = 1"
      using \<open>zeros (Suc i) (i + 5) ?r\<close> carry(2) k
      by (cases "k < i + 5") (auto simp: zeros_def bits_from_def)
  qed
  moreover have "same_below i r ?r"
    using low carry(1) w len by (simp add: window_def same_below_def nth_list_update)
  ultimately show ?thesis by (simp add: window_def)
qed

text \<open>The last two rounds of the inner loop never change anything.\<close>

lemma slide_inner_idle:
  assumes "window i (i + 5) 16 r r'" "length r = 256"
  shows "slide_inner i [5, 6] r' = r'"
proof -
  have d: "\<bar>r' ! i\<bar> < 16" and len: "length r' = 256" using assms by (simp_all add: window_def same_below_def)
  have bit: "r' ! k = 0 \<or> r' ! k = 1" if "i < k" "k < 256" for k
    using assms(1) that len by (simp add: window_def bits_from_def)
  have idle: "slide_inner i (b # bs) r' = (if i + b < 256 \<and> r' ! (i + b) = 0 then slide_inner i bs r' else r')"
    if "b = 5 \<or> b = 6" for b bs
    using bit [of "i + b"] d that by (auto simp: Let_def)
  show ?thesis by (simp only: idle [of 5] idle [of 6] simp_thms) (auto simp: idle)
qed

text \<open>One round of the inner loop, for the windows of two to four bits.\<close>

lemma slide_inner_grow:
  assumes w: "window i (i + b) (2 ^ b) r r'" and len: "length r = 256" and b: "0 < b" "b < 4" and pos: "0 < r' ! i"
  shows "\<exists>r''. window i (i + Suc b) (2 ^ Suc b) r r'' \<and> 0 < r'' ! i \<and> slide_inner i (b # bs) r' = (if i + b < 256 then slide_inner i bs r'' else r'')"
proof (cases "i + b < 256")
  case False
  then have "zeros (Suc i) (i + Suc b) r'" using w len by (auto simp: window_def zeros_def same_below_def)
  then have "window i (i + Suc b) (2 ^ Suc b) r r'" using w by (auto simp: window_def)
  then show ?thesis using False pos by auto
next
  case True
  have "r' ! (i + b) = 0 \<or> r' ! (i + b) = 1"
    using w True b(1) len by (auto simp: window_def bits_from_def same_below_def)
  then show ?thesis
  proof
    assume "r' ! (i + b) = 0"
    then show ?thesis using window_next [OF w, of "2 ^ Suc b"] True pos by auto
  next
    assume one: "r' ! (i + b) = 1"
    have "r' ! i < 2 ^ b" using w by (auto simp: window_def)
    moreover have "(2::int) ^ b \<le> 8" using power_increasing [of b 3 "2::int"] b(2) by simp
    ultimately have "r' ! i + 2 ^ b \<le> 15" by linarith
    then show ?thesis using window_add [OF w b(1) _ one order_refl pos] True one len by (auto simp: Let_def)
  qed
qed

lemma sum_powers_between: "i \<le> n \<Longrightarrow> (\<Sum>k \<in> {i ..< n}. (2::int) ^ k) = 2 ^ n - 2 ^ i"
  by (induction n rule: nat_induct_at_least) (simp_all add: sum.atLeast_Suc_lessThan)

text \<open>The value of a window that carries beyond the top would need the highest bit of the scalar.\<close>

lemma window_no_overflow:
  assumes w: "window i (i + 4) 16 r r'" and len: "length r = 256" and i: "i + 4 < 256" and pos: "0 < r' ! i"
    and low: "\<bar>low_value i r\<bar> < 2 ^ i" and v: "window_value r < 2 ^ 255"
  shows "\<not> (\<forall>j. i + 4 \<le> j \<and> j < length r \<longrightarrow> r' ! j = 1)"
proof
  assume ones: "\<forall>j. i + 4 \<le> j \<and> j < length r \<longrightarrow> r' ! j = 1"
  have len': "length r' = 256" using w len by (simp add: window_def same_below_def)
  have z: "r' ! k = 0" if "i < k" "k < i + 4" for k
    using w that i len' by (simp add: window_def zeros_def)
  have "window_value r' = low_value (i + 4) r' + (\<Sum>k \<in> {i + 4 ..< 256}. r' ! k * 2 ^ k)"
    using window_value_low [OF len'] low_value_split [of "i + 4" 256 r'] i by simp
  also have "(\<Sum>k \<in> {i + 4 ..< 256}. r' ! k * 2 ^ k) = (\<Sum>k \<in> {i + 4 ..< 256}. 2 ^ k)"
    using ones len by (intro sum.cong) auto
  also have "\<dots> = 2 ^ 256 - 2 ^ (i + 4)" using i by (simp add: sum_powers_between)
  also have "low_value (i + 4) r' = low_value i r' + r' ! i * 2 ^ i"
    using z [of "i + 1"] z [of "i + 2"] z [of "i + 3"] by (simp add: low_value_Suc numeral_eq_Suc)
  also have "low_value i r' = low_value i r"
    using w by (intro low_value_same) (simp add: window_def same_below_def)
  finally have "window_value r = low_value i r + r' ! i * 2 ^ i + (2 ^ 256 - 2 ^ (i + 4))"
    using w by (simp add: window_def)
  moreover have "2 ^ i \<le> r' ! i * 2 ^ i" using pos mult_right_mono [of 1 "r' ! i" "2 ^ i"] by simp
  moreover have "(2::int) ^ (i + 4) \<le> 2 ^ 255" using i by (intro power_increasing) auto
  moreover have "- (2 ^ i) < low_value i r" using low by (simp add: abs_less_iff)
  moreover have "(2::int) ^ 256 = 2 ^ 255 + 2 ^ 255" by simp
  ultimately show False using v by linarith
qed

lemma window_small: "window i j m r r' \<Longrightarrow> m \<le> m' \<Longrightarrow> window i j m' r r'"
  by (auto simp: window_def)

lemma slide_step_window:
  assumes len: "length r = 256" and i: "i < 256" and bits: "bits_from i r" and one: "r ! i \<noteq> 0"
    and low: "\<bar>low_value i r\<bar> < 2 ^ i" and v: "window_value r < 2 ^ 255"
  shows "window i (i + 5) 16 r (slide_step i r)"
proof -
  have "r ! i = 1" using bits i len one by (auto simp: bits_from_def)
  then have w1: "window i (i + 1) (2 ^ 1) r r" "0 < r ! i"
    using bits by (auto simp: window_def same_below_def bits_from_def zeros_def)
  obtain r2 where r2: "window i (i + 2) (2 ^ 2) r r2" "0 < r2 ! i"
    "slide_inner i [1, 2, 3, 4, 5, 6] r = (if i + 1 < 256 then slide_inner i [2, 3, 4, 5, 6] r2 else r2)"
    using slide_inner_grow [OF w1(1) len _ _ w1(2), of "[2, 3, 4, 5, 6]"] by (auto simp: numeral_eq_Suc)
  obtain r3 where r3: "window i (i + 3) (2 ^ 3) r r3" "0 < r3 ! i"
    "slide_inner i [2, 3, 4, 5, 6] r2 = (if i + 2 < 256 then slide_inner i [3, 4, 5, 6] r3 else r3)"
    using slide_inner_grow [OF r2(1) len _ _ r2(2), of "[3, 4, 5, 6]"] by (auto simp: numeral_eq_Suc)
  obtain r4 where r4: "window i (i + 4) 16 r r4" "0 < r4 ! i"
    "slide_inner i [3, 4, 5, 6] r3 = (if i + 3 < 256 then slide_inner i [4, 5, 6] r4 else r4)"
    using slide_inner_grow [OF r3(1) len _ _ r3(2), of "[4, 5, 6]"] by (auto simp: numeral_eq_Suc)
  have len4: "length r4 = 256" using r4(1) len by (simp add: window_def same_below_def)
  have out: "window i (i + 5) 16 r q" if "window i (i + b) m r q" "b \<le> 5" "m \<le> 16" "256 \<le> i + b" for b m q
    using that len by (auto simp: window_def zeros_def same_below_def)
  have four: "window i (i + 5) 16 r (slide_inner i [4, 5, 6] r4)"
  proof (cases "i + 4 < 256")
    case False
    then show ?thesis using out [OF r4(1)] by simp
  next
    case True
    then have "r4 ! (i + 4) = 0 \<or> r4 ! (i + 4) = 1" using r4(1) len4 by (auto simp: window_def bits_from_def)
    then show ?thesis
    proof
      assume "r4 ! (i + 4) = 0"
      then have "window i (i + 5) 16 r r4" using window_next [OF r4(1)] by simp
      then show ?thesis using slide_inner_idle [OF _ len] True \<open>r4 ! (i + 4) = 0\<close> by simp
    next
      assume one: "r4 ! (i + 4) = 1"
      have "\<not> (\<forall>j. i + 4 \<le> j \<and> j < length r \<longrightarrow> r4 ! j = 1)"
        by (rule window_no_overflow [OF r4(1) len True r4(2) low v])
      then have "window i (i + 5) 16 r (slide_carry [i + 4 ..< length r] (r4[i := r4 ! i - 16]))"
        using window_borrow [OF r4(1) _ one r4(2)] True len by simp
      then show ?thesis using slide_inner_idle [OF _ len] True one r4(2) len by (simp add: Let_def)
    qed
  qed
  have upt: "[1 ..< 7] = [1, 2, 3, 4, 5, 6 :: nat]" by code_simp
  have step: "slide_step i r = slide_inner i [1, 2, 3, 4, 5, 6] r" unfolding slide_step_def upt using one by (rule if_P)
  show ?thesis
  proof (cases "i + 1 < 256 \<and> i + 2 < 256 \<and> i + 3 < 256")
    case True
    then show ?thesis using four by (simp only: step r2(3) r3(3) r4(3) if_True simp_thms)
  next
    case False
    then consider "256 \<le> i + 1" | "i + 1 < 256" "256 \<le> i + 2" | "i + 2 < 256" "256 \<le> i + 3" by linarith
    then show ?thesis
    proof cases
      case 1 then show ?thesis using out [OF r2(1)] unfolding step r2(3) by simp
    next
      case 2 then show ?thesis using out [OF r3(1)] unfolding step r2(3) r3(3) by simp
    next
      case 3 then show ?thesis using out [OF r4(1)] unfolding step r2(3) r3(3) r4(3) by simp
    qed
  qed
qed

definition slid :: "int \<Rightarrow> nat \<Rightarrow> int list \<Rightarrow> bool" where
  "slid v i r \<longleftrightarrow> length r = 256 \<and> bits_from i r \<and> window_value r = v \<and>
     (\<exists>s. zeros i (i + s) r \<and> \<bar>low_value i r\<bar> < 2 ^ (i + s)) \<and>
     (\<forall>k < i. r ! k = 0 \<or> odd (r ! k) \<and> \<bar>r ! k\<bar> < 16)"

lemma slid_step:
  assumes s: "slid v i r" and i: "i < 256" and v: "v < 2 ^ 255"
  shows "slid v (Suc i) (slide_step i r)"
proof -
  obtain s where s: "zeros i (i + s) r" "\<bar>low_value i r\<bar> < 2 ^ (i + s)" and r: "length r = 256" "bits_from i r"
    "window_value r = v" "\<And>k. k < i \<Longrightarrow> r ! k = 0 \<or> odd (r ! k) \<and> \<bar>r ! k\<bar> < 16"
    using assms(1) by (auto simp: slid_def)
  show ?thesis
  proof (cases "r ! i = 0")
    case True
    have "zeros (Suc i) (Suc i + (s - 1)) r" using s(1) by (auto simp: zeros_def)
    moreover have "\<bar>low_value (Suc i) r\<bar> < 2 ^ (Suc i + (s - 1))"
      using s(2) True power_increasing [of "i + s" "Suc i + (s - 1)" "2::int"]
      by (simp add: low_value_Suc) linarith
    moreover have "bits_from (Suc i) r" using r(2) by (auto simp: bits_from_def)
    ultimately show ?thesis using r True by (auto simp: slid_def slide_step_def less_Suc_eq)
  next
    case False
    then have "s = 0" using s(1) i r(1) by (cases s) (auto simp: zeros_def)
    then have low: "\<bar>low_value i r\<bar> < 2 ^ i" using s(2) by simp
    let ?r = "slide_step i r"
    have w: "window i (i + 5) 16 r ?r" using slide_step_window [OF r(1) i r(2) False low] r(3) v by simp
    have below: "?r ! k = r ! k" if "k < i" for k using w that by (simp add: window_def same_below_def)
    have "\<bar>low_value i ?r + ?r ! i * 2 ^ i\<bar> < 2 ^ i + 15 * 2 ^ i"
    proof -
      have "\<bar>?r ! i\<bar> \<le> 15" using w by (simp add: window_def)
      then have "\<bar>?r ! i * 2 ^ i\<bar> \<le> 15 * 2 ^ i" by (simp add: abs_mult)
      moreover have "low_value i ?r = low_value i r" using below by (intro low_value_same) simp
      ultimately show ?thesis using low by linarith
    qed
    then have "\<bar>low_value (Suc i) ?r\<bar> < 2 ^ (Suc i + 4)"
      using zero_less_power [of "2::int" i] by (simp add: low_value_Suc power_add)
    moreover have "zeros (Suc i) (Suc i + 4) ?r" using w by (simp add: window_def add.commute)
    ultimately have "\<exists>s. zeros (Suc i) (Suc i + s) ?r \<and> \<bar>low_value (Suc i) ?r\<bar> < 2 ^ (Suc i + s)" by blast
    then show ?thesis using w r below by (simp add: slid_def window_def same_below_def less_Suc_eq)
  qed
qed

lemma slide_exact_lemma:
  assumes "length a = 32" "le_int a < 2 ^ 255"
  shows "slid (le_int a) 256 (slide a)"
proof -
  have "slid (le_int a) n (fold slide_step [0 ..< n] (scalar_bits a))" if "n \<le> 256" for n
    using that
  proof (induction n)
    case 0
    have "length (scalar_bits a) = 256" by (simp add: scalar_bits_def)
    then show ?case using scalar_bits_value [OF assms(1)] scalar_bits_range
      by (auto simp: slid_def bits_from_def low_value_def intro!: exI [of _ 0]) (auto simp: zeros_def)
  next
    case (Suc n)
    then show ?case using slid_step [OF _ _ assms(2)] by simp
  qed
  then show ?thesis by (simp add: slide_def)
qed

subsection \<open>Digits in radix 16\<close>

primrec radix16_value :: "int list \<Rightarrow> int" where
  "radix16_value [] = 0"
| "radix16_value (d # ds) = d + 16 * radix16_value ds"

lemma radix16_value_append: "radix16_value (ds @ es) = radix16_value ds + 16 ^ length ds * radix16_value es"
  by (induction ds) (simp_all add: algebra_simps)

lemma le_int_append: "le_int (as @ bs) = le_int as + 256 ^ length as * le_int bs"
  by (induction as) (simp_all add: algebra_simps)

lemma centered_digit: "-8 \<le> x - (x + 8) div 16 * 16" "x - (x + 8) div 16 * 16 \<le> 7" for x :: int
  by linarith+

lemma carry_range: "0 \<le> x \<Longrightarrow> x \<le> 16 * n \<Longrightarrow> 0 \<le> (x + 8) div 16 \<and> (x + 8) div 16 \<le> n" for x n :: int
  by linarith

lemma radix16_byte:
  "v + p * c' = l + z \<Longrightarrow> (x - y * 16) + 16 * ((y - z * 16) + 16 * v) + 256 * p * c' = 256 * l + x" for x y z v l p c' :: int
  by algebra

lemma radix16_exact:
  assumes "0 \<le> c" "c \<le> 1"
  shows "case radix16 bs c of (es, c') \<Rightarrow> length es = 2 * length bs \<and> set es \<subseteq> {-8 .. 7} \<and> 0 \<le> c' \<and> c' \<le> 1 \<and>
    radix16_value es + 256 ^ length bs * c' = le_int bs + c"
  using assms
proof (induction bs c rule: radix16.induct)
  case (2 b bs c)
  let ?x = "c + uint b" and ?y = "(c + uint b + 8) div 16"
  let ?z = "(?y + 8) div 16"
  have "0 \<le> ?x" "?x \<le> 16 * 16" using uint_u8_less [of b] "2.prems" by simp_all
  from carry_range [OF this] have y: "0 \<le> ?y" "?y \<le> 16" by blast+
  then have z: "0 \<le> ?z" "?z \<le> 1" using carry_range [of ?y 1] by simp_all
  obtain es c' where r: "radix16 bs ?z = (es, c')" by fastforce
  have "length es = 2 * length bs \<and> set es \<subseteq> {-8 .. 7} \<and> 0 \<le> c' \<and> c' \<le> 1 \<and>
      radix16_value es + 256 ^ length bs * c' = le_int bs + ?z"
    using "2.IH" [of ?x ?y "?x - ?y * 16" ?z "?y - ?z * 16"] z r by simp
  then have es: "length es = 2 * length bs" "set es \<subseteq> {-8 .. 7}" "0 \<le> c'" "c' \<le> 1"
    "radix16_value es + 256 ^ length bs * c' = le_int bs + ?z" by blast+
  have "radix16 (b # bs) c = ((?x - ?y * 16) # (?y - ?z * 16) # es, c')"
    by (simp add: r Let_def)
  moreover have "set ((?x - ?y * 16) # (?y - ?z * 16) # es) \<subseteq> {-8 .. 7}"
    unfolding set_simps using centered_digit [of ?x] centered_digit [of ?y] es(2) by (intro insert_subsetI) simp_all
  moreover have "radix16_value ((?x - ?y * 16) # (?y - ?z * 16) # es) + 256 ^ length (b # bs) * c' = le_int (b # bs) + c"
    using radix16_byte [OF es(5), of ?x ?y] by (simp only: radix16_value.simps le_int.simps list.size power_Suc power_add) simp
  ultimately show ?case using es(1,3,4) by simp
qed simp

lemma signed_digits_exact:
  assumes "length a = 32" "a ! 31 \<le> 127"
  shows "length (signed_digits a) = 64" "set (signed_digits a) \<subseteq> {-8 .. 8}" "radix16_value (signed_digits a) = le_int a"
proof -
  obtain es c where e: "radix16 (take 31 a) 0 = (es, c)" by fastforce
  have low: "length es = 62" "set es \<subseteq> {-8 .. 7}" "0 \<le> c" "c \<le> 1"
    "radix16_value es + 256 ^ 31 * c = le_int (take 31 a)"
    using radix16_exact [of 0 "take 31 a"] assms(1) by (simp_all add: e)
  have split: "a = take 31 a @ [a ! 31]" using take_Suc_conv_app_nth [of 31 a] assms(1) by simp
  let ?x = "c + uint (a ! 31)" and ?y = "(c + uint (a ! 31) + 8) div 16"
  have "uint (a ! 31) \<le> 127" using assms(2) by (simp add: word_le_def)
  then have y: "0 \<le> ?y" "?y \<le> 8" using carry_range [of ?x 8] low by simp_all
  have digits: "signed_digits a = es @ [?x - ?y * 16, ?y]" by (simp add: signed_digits_def e Let_def)
  show "length (signed_digits a) = 64" using low(1) by (simp add: digits)
  show "set (signed_digits a) \<subseteq> {-8 .. 8}"
    using low(2) y centered_digit [of ?x] by (auto simp: digits)
  have "le_int a = le_int (take 31 a) + 256 ^ 31 * uint (a ! 31)"
    using le_int_append [of "take 31 a" "[a ! 31]"] split assms(1) by simp
  moreover have "(256::int) ^ 31 = 16 ^ 62" by simp
  ultimately show "radix16_value (signed_digits a) = le_int a"
    using low(1,5) by (simp add: digits radix16_value_append algebra_simps)
qed

lemma center_digits_exact:
  assumes "set es \<subseteq> {0 .. 15}" "es \<noteq> []" "last es \<le> 7" "0 \<le> c" "c \<le> 1"
  shows "length (center_digits c es) = length es \<and> set (center_digits c es) \<subseteq> {-8 .. 8} \<and>
    radix16_value (center_digits c es) = radix16_value es + c"
  using assms
proof (induction c es rule: center_digits.induct)
  case (3 c e e' es)
  let ?y = "(e + c + 8) div 16"
  have "0 \<le> ?y" "?y \<le> 1" using carry_range [of "e + c" 1] 3 by auto
  then show ?case using 3 centered_digit [of "e + c"] by (auto simp: Let_def algebra_simps)
qed auto

lemma nibbles_exact:
  "length (nibbles a) = 2 * length a" "set (nibbles a) \<subseteq> {0 .. 15}" "radix16_value (nibbles a) = le_int a"
  "a \<noteq> [] \<Longrightarrow> last a \<le> 127 \<Longrightarrow> last (nibbles a) \<le> 7"
proof -
  have low: "uint (b AND 15 :: u8) = uint b mod 16" for b :: u8
    using take_bit_eq_mask [of 4 b] unsigned_take_bit_eq [of 4 b, where ?'a = int]
    by (simp add: mask_eq_exp_minus_1 take_bit_eq_mod)
  have high: "uint (drop_bit 4 b AND 15 :: u8) = uint b div 16" for b :: u8
  proof -
    have "uint b div 16 < 16" using uint_u8_less [of b] by simp
    then show ?thesis
      using low [of "drop_bit 4 b"] pos_imp_zdiv_nonneg_iff [of 16 "uint b"] by (simp add: unsigned_drop_bit_eq drop_bit_eq_div uint_div)
  qed
  show "length (nibbles a) = 2 * length a" by (induction a) (simp_all add: nibbles_def)
  show "set (nibbles a) \<subseteq> {0 .. 15}"
  proof -
    have "uint (b AND 15 :: u8) \<in> {0 .. 15}" for b using low [of b] by simp
    then show ?thesis by (induction a) (simp_all add: nibbles_def)
  qed
  show "radix16_value (nibbles a) = le_int a"
  proof (induction a)
    case (Cons b a)
    have "uint b mod 16 + 16 * (uint b div 16) = uint b" by simp
    then have b: "uint (b AND 15) + 16 * uint (drop_bit 4 b AND 15) = uint b" by (simp only: low [of b] high)
    have "x + 16 * (y + 16 * v) = u + 256 * v" if "x + 16 * y = u" for x y u v :: int using that by simp
    from this [OF b] have "uint (b AND 15) + 16 * (uint (drop_bit 4 b AND 15) + 16 * le_int a) = uint b + 256 * le_int a" .
    moreover have "radix16_value (nibbles (b # a)) = uint (b AND 15) + 16 * (uint (drop_bit 4 b AND 15) + 16 * radix16_value (nibbles a))"
      by (simp only: nibbles_def list.map concat.simps append.simps radix16_value.simps)
    ultimately show ?case by (simp only: Cons le_int.simps)
  qed (simp add: nibbles_def)
  show "last (nibbles a) \<le> 7" if "a \<noteq> []" "last a \<le> 127"
  proof -
    have "uint (last a) div 16 \<le> 7" using that(2) by (simp add: word_le_def)
    then show ?thesis using that(1) by (induction a) (auto simp: nibbles_def high)
  qed
qed

end
