(* ===== verification/ScalarMultProps.thy ===== *)
theory ScalarMultProps
  imports PointCodec Recoding
begin

text \<open>
  What the loops over the digits of scalars compute. \<open>combination Ps c Q\<close> says that \<open>Q\<close> is reached
  from the points \<open>Ps\<close> by additions, doublings and negations in which \<open>Ps ! j\<close> counts \<open>c j\<close> times,
  up to a common factor of the coordinates, so that \<open>Q\<close> is the linear combination in every group in which the formulas compute.
\<close>

subsection \<open>Combinations of points\<close>

definition add_points :: "point \<Rightarrow> point \<Rightarrow> point" where
  "add_points P Q = extended (add_formula P Q)"

definition scale_point :: "residue \<Rightarrow> point \<Rightarrow> point" where
  "scale_point k = (\<lambda>(x, y, z, t). (k * x, k * y, k * z, k * t))"

inductive combination :: "point list \<Rightarrow> (nat \<Rightarrow> int) \<Rightarrow> point \<Rightarrow> bool" for Ps where
  zero: "combination Ps (\<lambda>j. 0) zero_point"
| base: "i < length Ps \<Longrightarrow> combination Ps (\<lambda>j. if j = i then 1 else 0) (Ps ! i)"
| add: "combination Ps c P \<Longrightarrow> combination Ps d Q \<Longrightarrow> combination Ps (\<lambda>j. c j + d j) (add_points P Q)"
| dbl: "combination Ps c P \<Longrightarrow> combination Ps (\<lambda>j. 2 * c j) (double_point P)"
| neg: "combination Ps c P \<Longrightarrow> combination Ps (\<lambda>j. - c j) (neg_formula P)"
| scale: "combination Ps c P \<Longrightarrow> k * l = 1 \<Longrightarrow> combination Ps c (scale_point k P)"

lemma on_curve_scale_point: "on_curve P \<Longrightarrow> k * l = 1 \<Longrightarrow> on_curve (scale_point k P)"
proof -
  assume P: "on_curve P" and unit: "k * l = 1"
  obtain x y z t where xyzt: "P = (x, y, z, t)" by (cases P)
  have curve: "y * y - x * x = z * z + edwards_d * (t * t)" and prod: "x * y = z * t" and z: "k * z \<noteq> 0"
    using P unit by (auto simp: xyzt on_curve_def)
  have "(k * x) * (k * y) = k * k * (x * y)" "(k * z) * (k * t) = k * k * (z * t)" by (simp_all only: mult_ac)
  then show ?thesis using on_curve_scale [OF curve, of k] prod z
    by (simp only: xyzt on_curve_def scale_point_def prod.case simp_thms)
qed

lemma combination_on_curve:
  assumes "combination Ps c Q" "\<And>P. P \<in> set Ps \<Longrightarrow> on_curve P"
  shows "on_curve Q"
  using assms
  by (induction rule: combination.induct)
    (simp_all add: on_curve_zero on_curve_scale_point on_curve_add on_curve_dbl on_curve_neg add_points_def double_point_def)

lemma combination_cong: "combination Ps c Q \<Longrightarrow> (\<And>j. c j = d j) \<Longrightarrow> combination Ps d Q"
  by (subgoal_tac "c = d") auto

text \<open>The coefficients given by a list.\<close>

definition coeffs :: "int list \<Rightarrow> nat \<Rightarrow> int" where
  "coeffs ns j = (if j < length ns then ns ! j else 0)"

text \<open>The entries of a table of cached multiples.\<close>

definition cached_multiple :: "point list \<Rightarrow> int \<Rightarrow> (nat \<Rightarrow> int) \<Rightarrow> ge_cached \<Rightarrow> bool" where
  "cached_multiple Ps m c q \<longleftrightarrow> (\<exists>Q. cached_point q Q \<and> combination Ps (\<lambda>j. m * c j) Q)"

definition p3_combination :: "point list \<Rightarrow> (nat \<Rightarrow> int) \<Rightarrow> ge_p3 \<Rightarrow> bool" where
  "p3_combination Ps c p \<longleftrightarrow> p3_ok p \<and> combination Ps c (p3_point p)"

definition p1p1_combination :: "point list \<Rightarrow> (nat \<Rightarrow> int) \<Rightarrow> ge_p1p1 \<Rightarrow> bool" where
  "p1p1_combination Ps c t \<longleftrightarrow> p1p1_ok t \<and> combination Ps c (extended (p1p1_point t))"

definition p2_combination :: "point list \<Rightarrow> (nat \<Rightarrow> int) \<Rightarrow> ge_p2 \<Rightarrow> bool" where
  "p2_combination Ps c r \<longleftrightarrow> p2_ok r \<and> (\<exists>Q. p2_point r = plane Q \<and> combination Ps c Q)"

lemma combine_cong:
  assumes "\<And>j. c j = d j"
  shows "p3_combination Ps c p \<Longrightarrow> p3_combination Ps d p" "p1p1_combination Ps c t \<Longrightarrow> p1p1_combination Ps d t"
    "p2_combination Ps c r \<Longrightarrow> p2_combination Ps d r"
  using combination_cong [of Ps c _ d] assms unfolding p3_combination_def p1p1_combination_def p2_combination_def
  by blast+

lemma combine_to_p3:
  "p1p1_combination Ps c t \<Longrightarrow> succeeds (ge_p1p1_to_p3 t) (p3_combination Ps c)"
  by (rule succeeds_weaken [OF ge_p1p1_to_p3_extends])
    (simp_all add: p1p1_combination_def p3_combination_def)

lemma combine_to_p2:
  "p1p1_combination Ps c t \<Longrightarrow> succeeds (ge_p1p1_to_p2 t) (p2_combination Ps c)"
  by (rule succeeds_weaken [OF ge_p1p1_to_p2_extends])
    (auto simp: p1p1_combination_def p2_combination_def simp del: split_paired_Ex)

lemma combine_cached:
  "p3_combination Ps c p \<Longrightarrow> succeeds (ge_p3_to_cached p) (cached_multiple Ps 1 c)"
  by (rule succeeds_weaken [OF ge_p3_to_cached_caches])
    (auto simp: p3_combination_def cached_multiple_def simp del: split_paired_Ex)

lemma combine_add:
  "p3_combination Ps c p \<Longrightarrow> cached_multiple Ps m d q \<Longrightarrow>
    succeeds (ge_add p q) (p1p1_combination Ps (\<lambda>j. c j + m * d j))"
  unfolding cached_multiple_def p3_combination_def
  by (elim exE conjE, rule succeeds_weaken [OF ge_add_adds])
    (auto simp: p1p1_combination_def dest: combination.add simp flip: add_points_def)

lemma combine_sub:
  "p3_combination Ps c p \<Longrightarrow> cached_multiple Ps m d q \<Longrightarrow>
    succeeds (ge_sub p q) (p1p1_combination Ps (\<lambda>j. c j - m * d j))"
  unfolding cached_multiple_def p3_combination_def
proof (elim exE conjE)
  fix Q assume "p3_ok p" "combination Ps c (p3_point p)" "cached_point q Q" "combination Ps (\<lambda>j. m * d j) Q"
  then show "succeeds (ge_sub p q) (p1p1_combination Ps (\<lambda>j. c j - m * d j))"
    using combination.add [OF _ combination.neg]
    by (intro succeeds_weaken [OF ge_sub_subtracts]) (fastforce simp: p1p1_combination_def simp flip: add_points_def)+
qed

lemma combine_dbl:
  "p2_combination Ps c r \<Longrightarrow> succeeds (ge_p2_dbl r) (p1p1_combination Ps (\<lambda>j. 2 * c j))"
  unfolding p2_combination_def
  by (elim exE conjE, rule succeeds_weaken [OF ge_p2_dbl_doubles])
    (auto simp: p1p1_combination_def dest: combination.dbl simp flip: double_point_def)

lemma combine_dbl_p3:
  "p3_combination Ps c p \<Longrightarrow> succeeds (ge_p3_dbl p) (p1p1_combination Ps (\<lambda>j. 2 * c j))"
  unfolding p3_combination_def
  by (elim conjE, rule succeeds_weaken [OF ge_p3_dbl_doubles])
    (auto simp: p1p1_combination_def dest: combination.dbl simp flip: double_point_def)

lemma combine_zero: "p2_combination Ps (\<lambda>j. 0) ge_p2_0"
  using combination.zero p2_0_ok by (auto simp: p2_combination_def simp del: split_paired_Ex)

lemmas combine_steps = succeeds_bind [OF combine_to_p3] succeeds_bind [OF combine_to_p2]
  succeeds_bind [OF combine_dbl] succeeds_bind [OF combine_dbl_p3]

subsection \<open>Tables of multiples\<close>

text \<open>A table whose entry \<open>k\<close> is \<open>m + k n\<close> times the combination \<open>c\<close>.\<close>

definition multiples :: "point list \<Rightarrow> int \<Rightarrow> int \<Rightarrow> (nat \<Rightarrow> int) \<Rightarrow> ge_cached list \<Rightarrow> bool" where
  "multiples Ps m n c tab \<longleftrightarrow> (\<forall>k < length tab. cached_multiple Ps (m + int k * n) c (tab ! k))"

lemma multiples_Cons:
  "multiples Ps m n c (q # qs) \<longleftrightarrow> cached_multiple Ps m c q \<and> multiples Ps (m + n) n c qs"
  unfolding multiples_def by (auto simp: less_Suc_eq_0_disj algebra_simps)

lemma odd_multiples_table:
  assumes "p3_combination Ps (\<lambda>j. n * c j) s2" "cached_multiple Ps m c q"
  shows "succeeds (odd_multiples k s2 q) (\<lambda>tab. length tab = Suc k \<and> multiples Ps m n c tab)"
  using assms(2)
proof (induction k arbitrary: q m)
  case 0
  then show ?case by (simp add: multiples_def)
next
  case (Suc k)
  have cached: "cached_multiple Ps (m + n) c q'" if "cached_multiple Ps 1 (\<lambda>j. n * c j + m * c j) q'" for q'
    using that by (simp add: cached_multiple_def algebra_simps)
  show ?case
    unfolding odd_multiples.simps
    apply (rule succeeds_bind [OF combine_add [OF assms(1) Suc.prems]])
    apply (rule combine_steps, assumption)
    apply (rule succeeds_bind [OF combine_cached], assumption)
    apply (rule succeeds_bind [OF Suc.IH [OF cached]], assumption)
    using Suc.prems by (simp add: multiples_Cons)
qed

lemma small_multiples_odd: "small_multiples n A q = odd_multiples n A q"
  by (induction n arbitrary: q) simp_all

lemma ge_dsm_precomp_table:
  assumes "p3_combination Ps c A"
  shows "succeeds (ge_dsm_precomp A) (\<lambda>tab. length tab = 8 \<and> multiples Ps 1 2 c tab)"
  unfolding ge_dsm_precomp_def
  apply (rule succeeds_bind [OF combine_cached [OF assms]])
  apply (rule combine_steps, rule assms)
  apply (rule combine_steps, assumption)
  by (rule succeeds_weaken [OF odd_multiples_table [where n = 2 and m = 1]]) simp_all

lemma small_multiples_table:
  assumes "p3_combination Ps c A" "cached_multiple Ps 1 c q"
  shows "succeeds (small_multiples 7 A q) (\<lambda>tab. length tab = 8 \<and> multiples Ps 1 1 c tab)"
  unfolding small_multiples_odd
  by (rule succeeds_weaken [OF odd_multiples_table [where n = 1 and m = 1]]) (use assms in simp_all)

subsection \<open>Selecting a signed multiple\<close>

lemma equal_char_small: "0 \<le> n \<Longrightarrow> n \<le> 8 \<Longrightarrow> 0 \<le> k \<Longrightarrow> k \<le> 8 \<Longrightarrow> equal_char n k = of_bool (n = k)"
proof -
  have "\<forall>n \<in> set [0 .. 8]. \<forall>k \<in> set [0 .. 8]. equal_char n k = of_bool (n = k)" by code_simp
  moreover have "n \<in> set [0 .. 8]" if "0 \<le> n" "n \<le> 8" for n :: int using that by (simp only: set_upto atLeastAtMost_iff)
  ultimately show "0 \<le> n \<Longrightarrow> n \<le> 8 \<Longrightarrow> 0 \<le> k \<Longrightarrow> k \<le> 8 \<Longrightarrow> equal_char n k = of_bool (n = k)" by blast
qed

lemma sign_small: "-8 \<le> b \<Longrightarrow> b \<le> 8 \<Longrightarrow> negative b = of_bool (b < 0) \<and> babs b = \<bar>b\<bar>"
proof -
  have "\<forall>b \<in> set [-8 .. 8]. negative b = of_bool (b < 0) \<and> babs b = \<bar>b\<bar>" by code_simp
  moreover have "b \<in> set [-8 .. 8]" if "-8 \<le> b" "b \<le> 8" using that by (simp only: set_upto atLeastAtMost_iff)
  ultimately show "-8 \<le> b \<Longrightarrow> b \<le> 8 \<Longrightarrow> negative b = of_bool (b < 0) \<and> babs b = \<bar>b\<bar>" by blast
qed

definition cached_ok :: "ge_cached \<Rightarrow> bool" where
  "cached_ok q \<longleftrightarrow> fe_loose (YplusX q) \<and> fe_loose (YminusX q) \<and> fe_loose (Zc q) \<and> fe_loose (T2d q)"

lemma cached_point_ok: "cached_point q Q \<Longrightarrow> cached_ok q"
  by (cases Q) (simp add: cached_point_def cached_ok_def tight_loose)

lemma cached_multiple_ok: "cached_multiple Ps m c q \<Longrightarrow> cached_ok q"
  by (auto simp: cached_multiple_def dest: cached_point_ok)

lemma ge_cached_cmov_selects:
  "cached_ok t \<Longrightarrow> cached_ok u \<Longrightarrow> ge_cached_cmov t u (of_bool b) = Some (if b then u else t)"
  unfolding ge_cached_cmov_def by (simp add: fe_cmov_selects cached_ok_def)

lemma cmov_cacheds_selects:
  assumes "cached_ok t" "list_all cached_ok tab" "0 \<le> n" "n \<le> 8" "0 \<le> k" "k + int (length tab) \<le> 9"
  shows "cmov_cacheds n k tab t = Some (if k \<le> n \<and> n < k + int (length tab) then tab ! nat (n - k) else t)"
  using assms
proof (induction tab arbitrary: k t)
  case (Cons q tab)
  have eq: "equal_char n k = of_bool (n = k)" using Cons.prems by (intro equal_char_small) simp_all
  have "cmov_cacheds n (k + 1) tab (if n = k then q else t) =
      Some (if k + 1 \<le> n \<and> n < k + 1 + int (length tab) then tab ! nat (n - (k + 1)) else if n = k then q else t)"
    using Cons.prems by (intro Cons.IH) simp_all
  moreover have "(q # tab) ! nat (n - k) = tab ! nat (n - (k + 1))" if "k < n"
    using that nth_Cons_Suc [of q tab "nat (n - (k + 1))"] by (simp add: Suc_nat_eq_nat_zadd1)
  ultimately show ?case using Cons.prems by (auto simp: eq ge_cached_cmov_selects)
qed auto

lemma cached_zero: "cached_point ge_cached_0 zero_point"
  by (simp add: cached_point_def ge_cached_0_def zero_point_def tight_loose)

lemma select_cached_multiple:
  assumes tab: "length tab = 8" "multiples Ps 1 1 c tab" and b: "-8 \<le> b" "b \<le> 8"
  shows "succeeds (select_cached tab b) (cached_multiple Ps b c)"
proof -
  have entry: "cached_multiple Ps (int k + 1) c (tab ! k)" if "k < 8" for k
    using tab that by (simp add: multiples_def add.commute)
  have ok: "list_all cached_ok tab" using entry tab(1) by (auto simp: list_all_length intro: cached_multiple_ok)
  have zero: "cached_multiple Ps 0 c ge_cached_0"
    using cached_zero combination.zero by (auto simp: cached_multiple_def simp del: split_paired_Ex)
  let ?q = "if b = 0 then ge_cached_0 else tab ! nat (\<bar>b\<bar> - 1)"
  have q: "cached_multiple Ps \<bar>b\<bar> c ?q" using zero entry [of "nat (\<bar>b\<bar> - 1)"] b by auto
  have cmov: "cmov_cacheds (babs b) 1 tab ge_cached_0 = Some ?q"
    using cmov_cacheds_selects [of ge_cached_0 tab "\<bar>b\<bar>" 1] tab(1) ok b sign_small [OF b] cached_multiple_ok [OF zero]
    by auto
  obtain Q where Q: "cached_point ?q Q" "combination Ps (\<lambda>j. \<bar>b\<bar> * c j) Q"
    using q by (auto simp: cached_multiple_def)
  obtain x y z t where xyzt: "Q = (x, y, z, t)" by (cases Q)
  have "fe_bound 33890959 16945479 (T2d ?q)" using Q(1) by (simp add: xyzt cached_point_def fe_tight_def)
  from fe_neg_negates [OF this] obtain n where n: "fe_neg (T2d ?q) = Some n" "fe_tight n" "fe_res n = - fe_res (T2d ?q)"
    by (auto simp: succeeds_def INT32_def fe_tight_def)
  let ?m = "\<lparr> YplusX = fe_copy (YminusX ?q), YminusX = fe_copy (YplusX ?q), Zc = fe_copy (Zc ?q), T2d = n \<rparr>"
  have m: "cached_point ?m (neg_formula Q)"
    using Q(1) n by (simp add: xyzt cached_point_def neg_formula_def fe_copy_def)
  have "select_cached tab b = ge_cached_cmov ?q ?m (of_bool (b < 0))"
    using sign_small [OF b] cmov n(1) by (simp add: select_cached_def del: split_paired_Ex if_image_distrib)
  then have sel: "select_cached tab b = Some (if b < 0 then ?m else ?q)"
    using ge_cached_cmov_selects [OF cached_point_ok [OF Q(1)] cached_point_ok [OF m]] by simp
  have neg: "combination Ps (\<lambda>j. b * c j) (neg_formula Q)" if "b < 0"
    using combination.neg [OF Q(2)] that by simp
  have pos: "combination Ps (\<lambda>j. b * c j) Q" if "\<not> b < 0" using Q(2) that by simp
  have "cached_multiple Ps b c (if b < 0 then ?m else ?q)"
  proof (cases "b < 0")
    case True
    show ?thesis using m neg [OF True] unfolding cached_multiple_def if_P [OF True] by blast
  next
    case False
    show ?thesis using Q(1) pos [OF False] unfolding cached_multiple_def if_not_P [OF False] by blast
  qed
  then show ?thesis by (simp only: succeeds_Some sel)
qed

subsection \<open>The fixed pattern of operations\<close>

lemma four_doublings_combination:
  assumes "p2_combination Ps c r"
  shows "succeeds (four_doublings r) (p3_combination Ps (\<lambda>j. 16 * c j))"
  unfolding four_doublings_def
  apply (rule combine_steps, rule assms, rule combine_steps, assumption)
  apply (rule combine_steps, assumption, rule combine_steps, assumption)
  apply (rule combine_steps, assumption, rule combine_steps, assumption)
  apply (rule combine_steps, assumption)
  by (rule succeeds_weaken [OF combine_to_p3], assumption) simp

lemma scalarmult_turn_combination:
  assumes r: "p2_combination Ps (\<lambda>j. n * c j) r" and tab: "length tab = 8" "multiples Ps 1 1 c tab"
    and b: "-8 \<le> b" "b \<le> 8"
  shows "succeeds (scalarmult_turn tab b r) (p1p1_combination Ps (\<lambda>j. (b + 16 * n) * c j))"
  unfolding scalarmult_turn_def
  apply (rule succeeds_bind [OF four_doublings_combination [OF r]])
  apply (rule succeeds_bind [OF select_cached_multiple [OF tab b]])
  by (rule succeeds_weaken [OF combine_add], assumption+, erule combine_cong(2) [rotated])
    (simp add: algebra_simps)

lemma scalarmult_loop_combination:
  assumes tab: "length tab = 8" "multiples Ps 1 1 c tab"
  shows "set ds \<subseteq> {-8 .. 8} \<Longrightarrow> p2_combination Ps (\<lambda>j. radix16_value es * c j) r \<Longrightarrow>
    succeeds (scalarmult_loop tab (rev ds) r) (p2_combination Ps (\<lambda>j. radix16_value (ds @ es) * c j))"
proof (induction ds arbitrary: es r rule: rev_induct)
  case (snoc d ds)
  have "succeeds (scalarmult_turn tab d r) (p1p1_combination Ps (\<lambda>j. radix16_value (d # es) * c j))"
    using scalarmult_turn_combination [OF snoc.prems(2) tab] snoc.prems(1) by simp
  then show ?case
    using snoc.prems(1) snoc.IH [of "d # es"]
    by (simp only: rev_append rev.simps append.simps scalarmult_loop.simps)
      (auto intro!: succeeds_bind [OF _ succeeds_bind [OF combine_to_p2]])
qed simp

lemma scalarmult_start: "p2_combination Ps (\<lambda>j. radix16_value [] * c j) ge_p2_0"
  using combine_zero by simp

lemma ge_scalarmult_combination:
  assumes A: "p3_combination Ps c A" and a: "length a = 32" "a ! 31 \<le> 127"
  shows "succeeds (ge_scalarmult a A) (p2_combination Ps (\<lambda>j. le_int a * c j))"
proof -
  note digits = signed_digits_exact [OF a]
  show ?thesis
    unfolding ge_scalarmult_def
    apply (rule succeeds_bind [OF combine_cached [OF A]])
    apply (rule succeeds_bind [OF small_multiples_table [OF A]], assumption)
    apply (elim conjE)
    using scalarmult_loop_combination [OF _ _ digits(2) scalarmult_start] digits(3) by simp
qed

lemma ge_scalarmult_p3_combination:
  assumes A: "p3_combination Ps c A" and a: "length a = 32" "a ! 31 \<le> 127"
  shows "succeeds (ge_scalarmult_p3 a A) (p3_combination Ps (\<lambda>j. le_int a * c j))"
proof -
  note digits = signed_digits_exact [OF a]
  obtain e es where e: "signed_digits a = e # es" using digits(1) by (cases "signed_digits a") simp_all
  have "set es \<subseteq> {-8 .. 8}" "-8 \<le> e" "e \<le> 8" using digits(2) by (simp_all add: e)
  then show ?thesis
    unfolding ge_scalarmult_p3_def e Let_def list.sel
    apply (intro succeeds_bind [OF combine_cached [OF A]])
    apply (rule succeeds_bind [OF small_multiples_table [OF A]], assumption)
    apply (elim conjE)
    apply (rule succeeds_bind [OF scalarmult_loop_combination [OF _ _ _ scalarmult_start]], assumption+)
    apply (rule succeeds_bind [OF scalarmult_turn_combination], assumption+)
    apply (rule succeeds_weaken [OF combine_to_p3], assumption)
    using digits(3) by (simp add: e)
qed

subsection \<open>Sliding windows\<close>

primrec radix2_value :: "int list \<Rightarrow> int" where
  "radix2_value [] = 0"
| "radix2_value (d # ds) = d + 2 * radix2_value ds"

lemma radix2_window: "radix2_value ds = window_value ds"
proof (induction ds)
  case (Cons d ds)
  have "window_value (d # ds) = d + 2 * window_value ds"
    by (simp add: window_value_def limbs_value_def sum.lessThan_Suc_shift sum_distrib_left mult_ac del: sum.lessThan_Suc)
  then show ?case using Cons by simp
qed (simp add: window_value_def limbs_value_def)

definition high_value :: "nat \<Rightarrow> int list \<Rightarrow> int" where
  "high_value i ds = radix2_value (drop i ds)"

lemma high_value_step: "i < length ds \<Longrightarrow> high_value i ds = ds ! i + 2 * high_value (Suc i) ds"
  by (simp add: high_value_def Cons_nth_drop_Suc [symmetric])

lemma high_value_zero: "(\<And>k. i \<le> k \<Longrightarrow> k < length ds \<Longrightarrow> ds ! k = 0) \<Longrightarrow> high_value i ds = 0"
proof (induction "length ds - i" arbitrary: i)
  case 0 then show ?case by (simp add: high_value_def)
next
  case (Suc n)
  then have "high_value (Suc i) ds = 0" by simp
  then show ?case using Suc high_value_step [of i ds] by simp
qed

definition window_digits :: "int list \<Rightarrow> bool" where
  "window_digits ds \<longleftrightarrow> length ds = 256 \<and> (\<forall>k < 256. ds ! k = 0 \<or> odd (ds ! k) \<and> \<bar>ds ! k\<bar> < 16)"

text \<open>A summand with the combination \<open>c\<close> that its table holds the odd multiples of.\<close>

definition precomp_multiple :: "point list \<Rightarrow> int \<Rightarrow> (nat \<Rightarrow> int) \<Rightarrow> ge_precomp \<Rightarrow> bool" where
  "precomp_multiple Ps m c q \<longleftrightarrow> (\<exists>Q. precomp_point q Q \<and> combination Ps (\<lambda>j. m * c j) Q)"

definition base_multiples :: "point list \<Rightarrow> (nat \<Rightarrow> int) \<Rightarrow> bool" where
  "base_multiples Ps c \<longleftrightarrow> (\<forall>k < 8. precomp_multiple Ps (1 + 2 * int k) c (ge_Bi ! k))"

fun summand_ok :: "point list \<Rightarrow> (nat \<Rightarrow> int) \<Rightarrow> summand \<Rightarrow> bool" where
  "summand_ok Ps c (Point ds tab) \<longleftrightarrow> window_digits ds \<and> length tab = 8 \<and> multiples Ps 1 2 c tab"
| "summand_ok Ps c (Base ds) \<longleftrightarrow> window_digits ds \<and> base_multiples Ps c"

lemma combine_madd:
  "p3_combination Ps c p \<Longrightarrow> precomp_multiple Ps m d q \<Longrightarrow>
    succeeds (ge_madd p q) (p1p1_combination Ps (\<lambda>j. c j + m * d j))"
  unfolding precomp_multiple_def p3_combination_def
  by (elim exE conjE, rule succeeds_weaken [OF ge_madd_adds])
    (auto simp: p1p1_combination_def dest: combination.add simp flip: add_points_def)

lemma combine_msub:
  "p3_combination Ps c p \<Longrightarrow> precomp_multiple Ps m d q \<Longrightarrow>
    succeeds (ge_msub p q) (p1p1_combination Ps (\<lambda>j. c j - m * d j))"
  unfolding precomp_multiple_def p3_combination_def
proof (elim exE conjE)
  fix Q assume "p3_ok p" "combination Ps c (p3_point p)" "precomp_point q Q" "combination Ps (\<lambda>j. m * d j) Q"
  then show "succeeds (ge_msub p q) (p1p1_combination Ps (\<lambda>j. c j - m * d j))"
    using combination.add [OF _ combination.neg]
    by (intro succeeds_weaken [OF ge_msub_subtracts]) (fastforce simp: p1p1_combination_def simp flip: add_points_def)+
qed

text \<open>The table index of an odd digit.\<close>

lemma odd_index:
  fixes d :: int
  assumes "odd d" "0 < d" "d < 16"
  shows "nat (d div 2) < 8" "1 + 2 * int (nat (d div 2)) = d"
  using assms by (auto elim!: oddE)

lemma ge_Bi_length: "length ge_Bi = 8"
  by (simp add: ge_Bi_def)

lemma add_digit_combination:
  assumes t: "p1p1_combination Ps e t" and s: "summand_ok Ps c s" and i: "i < 256"
  shows "succeeds (add_digit i s t) (p1p1_combination Ps (\<lambda>j. e j + summand_digits s ! i * c j))"
proof -
  let ?d = "summand_digits s ! i"
  have digit: "?d = 0 \<or> odd ?d \<and> \<bar>?d\<bar> < 16" using s i by (cases s) (simp_all add: window_digits_def)
  have read: "rd tab (nat (x div 2)) = Some (tab ! nat (x div 2))" if "0 < x" "x < 16" "length tab = 8" for tab :: "'z list" and x
    using that by (simp add: rd_def)
  consider "?d = 0" | "odd ?d" "0 < ?d" "?d < 16" | "odd (- ?d)" "0 < - ?d" "- ?d < 16" using digit by force
  then show ?thesis
  proof cases
    case 1
    then show ?thesis using t by (cases s) simp_all
  next
    case 2
    note ix = odd_index [OF 2]
    show ?thesis
    proof (cases s)
      case (Point ds tab)
      then have "cached_multiple Ps ?d c (tab ! nat (?d div 2))"
        using s ix by (auto simp: multiples_def mult.commute)
      then show ?thesis using 2 s Point
        by (simp add: read) (rule succeeds_bind [OF combine_to_p3 [OF t]], rule combine_add)
    next
      case (Base ds)
      then have "precomp_multiple Ps ?d c (ge_Bi ! nat (?d div 2))"
        using s ix by (auto simp: base_multiples_def)
      then show ?thesis using 2 Base
        by (simp add: read ge_Bi_length) (rule succeeds_bind [OF combine_to_p3 [OF t]], rule combine_madd)
    qed
  next
    case 3
    note ix = odd_index [OF 3]
    have minus: "(\<lambda>j. e j - - ?d * c j) = (\<lambda>j. e j + ?d * c j)" by simp
    show ?thesis
    proof (cases s)
      case (Point ds tab)
      then have "cached_multiple Ps (- ?d) c (tab ! nat (- ?d div 2))"
        using s ix by (auto simp: multiples_def mult.commute)
      note sub = combine_sub [OF _ this, unfolded minus]
      show ?thesis using 3 s Point sub
        by (simp add: read) (rule succeeds_bind [OF combine_to_p3 [OF t]], simp)
    next
      case (Base ds)
      then have "precomp_multiple Ps (- ?d) c (ge_Bi ! nat (- ?d div 2))"
        using s ix by (auto simp: base_multiples_def)
      note sub = combine_msub [OF _ this, unfolded minus]
      show ?thesis using 3 Base sub
        by (simp add: read ge_Bi_length) (rule succeeds_bind [OF combine_to_p3 [OF t]], simp)
    qed
  qed
qed

text \<open>The combination that the digits from index \<open>i\<close> on amount to.\<close>

definition partial :: "nat \<Rightarrow> (nat \<Rightarrow> int) list \<Rightarrow> summand list \<Rightarrow> nat \<Rightarrow> int" where
  "partial i cs ss j = (\<Sum>(c, s) \<leftarrow> zip cs ss. high_value i (summand_digits s) * c j)"

lemma add_digits_combination:
  assumes "list_all2 (summand_ok Ps) cs ss" "i < 256" "p1p1_combination Ps e t"
  shows "succeeds (add_digits i ss t)
    (p1p1_combination Ps (\<lambda>j. e j + (\<Sum>(c, s) \<leftarrow> zip cs ss. summand_digits s ! i * c j)))"
  using assms(1,3)
proof (induction cs ss arbitrary: e t rule: list_all2_induct)
  case (Cons c cs s ss)
  show ?case
    by (simp only: add_digits.simps, rule succeeds_bind [OF add_digit_combination [OF Cons.prems Cons.hyps(1) assms(2)]])
      (erule succeeds_weaken [OF Cons.IH], simp add: add.assoc)
qed simp

lemma summand_digits_ok: "summand_ok Ps c s \<Longrightarrow> window_digits (summand_digits s)"
  by (cases s) simp_all

lemma partial_step:
  assumes "list_all2 (summand_ok Ps) cs ss" "i < 256"
  shows "partial i cs ss j = 2 * partial (Suc i) cs ss j + (\<Sum>(c, s) \<leftarrow> zip cs ss. summand_digits s ! i * c j)"
  using assms(1)
proof (induction cs ss rule: list_all2_induct)
  case (Cons c cs s ss)
  have "high_value i (summand_digits s) = summand_digits s ! i + 2 * high_value (Suc i) (summand_digits s)"
    using summand_digits_ok [OF Cons.hyps(1)] assms(2) by (simp add: high_value_step window_digits_def)
  then show ?case using Cons.IH by (simp add: partial_def algebra_simps)
qed (simp add: partial_def)

lemma vartime_turn_combination:
  assumes "list_all2 (summand_ok Ps) cs ss" "i < 256" "p2_combination Ps (partial (Suc i) cs ss) r"
  shows "succeeds (vartime_turn ss i r) (p1p1_combination Ps (partial i cs ss))"
  unfolding vartime_turn_def
  apply (rule succeeds_bind [OF combine_dbl [OF assms(3)]])
  apply (rule succeeds_weaken [OF add_digits_combination [OF assms(1,2)]], assumption)
  by (erule combine_cong(2) [rotated]) (simp add: partial_step [OF assms(1,2)])

lemma vartime_loop_combination:
  assumes "list_all2 (summand_ok Ps) cs ss"
  shows "n \<le> 256 \<Longrightarrow> p2_combination Ps (partial n cs ss) r \<Longrightarrow>
    succeeds (vartime_loop ss (rev [0 ..< n]) r) (p2_combination Ps (partial 0 cs ss))"
proof (induction n arbitrary: r)
  case (Suc n)
  show ?case
    using Suc.prems
    by (simp, intro succeeds_bind [OF vartime_turn_combination [OF assms] succeeds_bind [OF combine_to_p2 Suc.IH]]) simp_all
qed simp

lemma vartime_loop_p3_combination:
  assumes "list_all2 (summand_ok Ps) cs ss"
  shows "n < 256 \<Longrightarrow> p2_combination Ps (partial (Suc n) cs ss) r \<Longrightarrow>
    succeeds (vartime_loop_p3 ss (rev [0 ..< Suc n]) r) (p3_combination Ps (partial 0 cs ss))"
proof (induction n arbitrary: r)
  case 0
  show ?case
    using 0 by (simp, intro succeeds_bind [OF vartime_turn_combination [OF assms] combine_to_p3]) simp_all
next
  case (Suc n)
  show ?case
    using Suc.prems Suc.IH
    by (simp, intro succeeds_bind [OF vartime_turn_combination [OF assms] succeeds_bind [OF combine_to_p2]]) simp_all
qed

lemma dropWhile_rev_upt:
  "\<exists>m \<le> n. dropWhile P (rev [0 ..< n]) = rev [0 ..< m] \<and> (\<forall>i. m \<le> i \<and> i < n \<longrightarrow> P i) \<and> (0 < m \<longrightarrow> \<not> P (m - 1))"
proof (induction n)
  case (Suc n)
  then show ?case
    by (cases "P n") (auto simp: less_Suc_eq intro: le_SucI)
qed simp

lemma vartime_indices_top:
  assumes "list_all2 (summand_ok Ps) cs ss"
  obtains m where "m \<le> 256" "vartime_indices ss = rev [0 ..< m]" "partial m cs ss = (\<lambda>j. 0)"
proof -
  let ?P = "\<lambda>i. list_all (\<lambda>s. summand_digits s ! i = 0) ss"
  from dropWhile_rev_upt [of 256 ?P]
  obtain m where m: "m \<le> 256" "dropWhile ?P (rev [0 ..< 256]) = rev [0 ..< m]" "\<forall>i. m \<le> i \<and> i < 256 \<longrightarrow> ?P i"
    by (elim exE conjE)
  have "high_value m (summand_digits s) = 0" if "s \<in> set ss" for s
  proof (rule high_value_zero)
    obtain c where "summand_ok Ps c s" using assms \<open>s \<in> set ss\<close> by (auto simp: list_all2_conv_all_nth in_set_conv_nth)
    then have "length (summand_digits s) = 256" using summand_digits_ok by (auto simp: window_digits_def)
    then show "summand_digits s ! k = 0" if "m \<le> k" "k < length (summand_digits s)" for k
      using m(3) that \<open>s \<in> set ss\<close> by (auto simp: list_all_iff)
  qed
  then have "(case x of (c, s) \<Rightarrow> high_value m (summand_digits s) * c j) = 0" if "x \<in> set (zip cs ss)" for x j
    using that by (cases x) (simp add: set_zip_rightD)
  then have zero: "map (\<lambda>(c, s). high_value m (summand_digits s) * c j) (zip cs ss) = map (\<lambda>x. 0) (zip cs ss)" for j
    by (intro map_cong) auto
  have "partial m cs ss j = 0" for j unfolding partial_def zero by simp
  then have "partial m cs ss = (\<lambda>j. 0)" by (rule ext)
  then show thesis using m(1,2) by (intro that [of m]) (simp_all only: vartime_indices_def)
qed

lemma vartime_combination:
  assumes "list_all2 (summand_ok Ps) cs ss"
  shows "succeeds (vartime ss) (p2_combination Ps (partial 0 cs ss))"
proof -
  obtain m where m: "m \<le> 256" "vartime_indices ss = rev [0 ..< m]" "partial m cs ss = (\<lambda>j. 0)"
    using assms by (rule vartime_indices_top)
  show ?thesis unfolding vartime_def m(2)
    using vartime_loop_combination [OF assms m(1), of ge_p2_0] m(3) combine_zero by simp
qed

text \<open>The loops with a result in extended coordinates return nothing exactly when all digits are zero.\<close>

lemma vartime_p3_combination:
  assumes "list_all2 (summand_ok Ps) cs ss"
  shows "case vartime_p3 ss of None \<Rightarrow> partial 0 cs ss = (\<lambda>j. 0) | Some r \<Rightarrow> p3_combination Ps (partial 0 cs ss) r"
proof -
  obtain m where m: "m \<le> 256" "vartime_indices ss = rev [0 ..< m]" "partial m cs ss = (\<lambda>j. 0)"
    using assms by (rule vartime_indices_top)
  show ?thesis
  proof (cases m)
    case 0
    then show ?thesis using m by (simp add: vartime_p3_def)
  next
    case (Suc n)
    then have "succeeds (vartime_p3 ss) (p3_combination Ps (partial 0 cs ss))"
      unfolding vartime_p3_def m(2)
      using vartime_loop_p3_combination [OF assms, of n ge_p2_0] m combine_zero by simp
    then show ?thesis by (auto simp: succeeds_def)
  qed
qed

lemma slide_window_digits:
  assumes "length a = 32" "le_int a < 2 ^ 255"
  shows "window_digits (slide a)" "high_value 0 (slide a) = le_int a"
  using slide_exact_lemma [OF assms] by (simp_all add: slid_def window_digits_def high_value_def radix2_window)

end
