(* ===== verification/BasePoint.thy ===== *)
theory BasePoint
  imports ScalarMultProps
begin

text \<open>
  The table \<^verbatim>\<open>ge_Bi\<close> of \<^verbatim>\<open>crypto-ops-data.c\<close> holds the odd multiples \<open>B, 3B, \<dots>, 15B\<close> of the base
  point. Each entry is reached from the one before by an addition of \<open>2B\<close>; the quotients and inverses
  of the computation modulo the prime are given, so that only products of integers are evaluated.
\<close>

subsection \<open>Affine additions with their quotients\<close>

definition affine :: "int \<Rightarrow> int \<Rightarrow> int \<Rightarrow> point" where
  "affine x y t = (of_int x, of_int y, 1, of_int t)"

lemma of_int_quotient: "a + 19 * q = q * 2 ^ 255 + r \<Longrightarrow> (of_int a :: residue) = of_int r"
proof -
  assume "a + 19 * q = q * 2 ^ 255 + r"
  then have "a = q * p25519 + r" by (simp add: p25519_def)
  then show ?thesis by (intro of_int_residue_eq [THEN iffD2]) simp
qed

lemma residue_product: "x * y + 19 * q = q * 2 ^ 255 + r \<Longrightarrow> of_int x * of_int y = (of_int r :: residue)"
  using of_int_quotient by (metis of_int_mult)

definition edwards_d_int :: int where
  "edwards_d_int = 37095705934669439343138083508754565189542113879843219016388785533085940283555"

lemma edwards_d_of_int: "edwards_d = of_int edwards_d_int"
  unfolding edwards_d_def fe_res_def
  by (rule of_int_residue_eq [THEN iffD2]) (simp add: fe_d_def fe_val_10 p25519_def edwards_d_int_def)

lemma affine_add:
  assumes "x1 * y2 + 19 * qa = qa * 2 ^ 255 + a" "x2 * y1 + 19 * qb = qb * 2 ^ 255 + b" "y1 * y2 + 19 * qc = qc * 2 ^ 255 + c"
    "x1 * x2 + 19 * qe = qe * 2 ^ 255 + e" "t1 * t2 + 19 * qf = qf * 2 ^ 255 + f" "edwards_d_int * f + 19 * qg = qg * 2 ^ 255 + g"
    "x3 * (1 + g) + 19 * qx = qx * 2 ^ 255 + (a + b)" "y3 * (1 - g) + 19 * qy = qy * 2 ^ 255 + (c + e)" "x3 * y3 + 19 * qt = qt * 2 ^ 255 + t3"
    "(1 + g) * (1 - g) + 19 * qh = qh * 2 ^ 255 + h" "4 * h * l + 19 * ql = ql * 2 ^ 255 + 1"
  shows "\<exists>k m. k * m = 1 \<and> scale_point k (add_points (affine x1 y1 t1) (affine x2 y2 t2)) = affine x3 y3 t3"
proof -
  note product = assms(1-10) [THEN residue_product]
  let ?r = "of_int :: int \<Rightarrow> residue"
  let ?E = "?r a + ?r b" and ?H = "?r c + ?r e" and ?G = "1 + ?r g" and ?F = "1 - ?r g"
  have E: "?E = ?r x3 * ?G" and H: "?H = ?r y3 * ?F" using product(7,8) by simp_all
  have GF: "?G * ?F = ?r h" using product(10) by simp
  have "add_formula (affine x1 y1 t1) (affine x2 y2 t2) = (2 * ?E, 2 * ?H, 2 * ?G, 2 * ?F)"
    unfolding affine_def add_formula_def Let_def prod.case edwards_d_of_int
      product(1-6) [symmetric] by (simp only: prod.inject, intro conjI) (simp_all add: algebra_simps)
  then have ext: "add_points (affine x1 y1 t1) (affine x2 y2 t2) = (4 * (?E * ?F), 4 * (?H * ?G), 4 * (?G * ?F), 4 * (?E * ?H))"
    by (simp only: add_points_def extended_def prod.case quadruple)
  have l: "4 * ?r h * ?r l = 1" using of_int_quotient [OF assms(11)] by simp
  have "?E * ?F = ?r x3 * ?r h" "?H * ?G = ?r y3 * ?r h" "?E * ?H = ?r x3 * ?r y3 * ?r h"
    unfolding E H GF [symmetric] by (simp_all add: mult_ac)
  then have "scale_point (?r l) (add_points (affine x1 y1 t1) (affine x2 y2 t2)) =
      (4 * ?r h * ?r l * ?r x3, 4 * ?r h * ?r l * ?r y3, 4 * ?r h * ?r l, 4 * ?r h * ?r l * (?r x3 * ?r y3))"
    unfolding ext GF scale_point_def by (simp add: mult_ac)
  then have "scale_point (?r l) (add_points (affine x1 y1 t1) (affine x2 y2 t2)) = affine x3 y3 t3"
    unfolding l product(9) affine_def by simp
  moreover have "?r l * (4 * ?r h) = 1" using l by (simp add: mult_ac)
  ultimately show ?thesis by blast
qed

lemma combination_scaled:
  assumes "combination Ps c P" "combination Ps e Q" "\<exists>k m. k * m = 1 \<and> scale_point k (add_points P Q) = R"
    "\<And>j. c j + e j = f j"
  shows "combination Ps f R"
  using combination_cong [OF combination.scale [OF combination.add [OF assms(1,2)]] assms(4)] assms(3) by metis

subsection \<open>The base point\<close>

definition base_point :: point where
  "base_point = affine 15112221349535400772501151409588531511454012693041857206046113283949847762202 46316835694926478169428394003475163141307993866256225615783033603165251855960
    46827403850823179245072216630277197565144205554125654976674165829533817101731"

definition base_2 :: point where
  "base_2 = affine 24727413235106541002554574571675588834622768167397638456726423682521233608206 15549675580280190176352668710449542251549572066445060580507079593062643049417
    16552979481334663544878610556091376071931149008662153799327195285289362371585"

definition base_3 :: point where
  "base_3 = affine 46896733464454938657123544595386787789046198280132665686241321779790909858396 8324843778533443976490377120369201138301417226297555316741202210403726505172
    19133203167024340156157901305709655404499344800967978305064989153409356768282"

definition base_5 :: point where
  "base_5 = affine 33467004535436536005251147249499675200073690106659565782908757308821616914995 43097193783671926753355113395909008640284023746042808659097434958891230611693
    52631435118507418230927645098360784166288333741771923328027903523704223039952"

definition base_7 :: point where
  "base_7 = affine 9199134265559022971505535402808359556995554859516252602543778295037484220679 22512087849695599276028560866629687720820254811233262850576678203618951717560
    7969306344939599448108779620249142998159244560978835759187616138611789393179"

definition base_9 :: point where
  "base_9 = affine 24193060302538010417230488029838514081720802923509845138863968807030823940444 57551756252899625001155759838357770487605224608455116862194664796369308545472
    41812410146810177838232618347187858057822209473536282119740688245908349056101"

definition base_11 :: point where
  "base_11 = affine 9451145793506787353375160377761530931587019091193333050860601958827395183563 20609402718286069808115703540855311742885093522056241285814584245966805874451
    41115672721981046446137450827132502570366877864937539642265045489017153122004"

definition base_13 :: point where
  "base_13 = affine 7442235066513780790779899786332475485840754593728627195931759107337804079085 8529785864514984411577036536286432879603480171865651918962709025066066124672
    29471055441072170259805152731682457644447474860555123755684575143128358334291"

definition base_15 :: point where
  "base_15 = affine 35771902585589234259498423420223840099331465042459337605611172842168536632769 8502034780705657720897159939055122322178084209392286764802307224484658961631
    42609173769455554086108030252596314253679554082059705507322920389417832202025"

lemma base_2_step:
  "\<exists>k m. k * m = 1 \<and> scale_point k (add_points base_point base_point) = base_2"
  unfolding base_point_def base_2_def
  by (rule affine_add [where qa = "12089777079628320618000921127670825209163210154433485764836890627159878209761" and
    qb = "12089777079628320618000921127670825209163210154433485764836890627159878209761" and
    qc = "37053468555941182535542715202780130513046395093004980492626426882532201484768" and
    qe = "3944643120641682540557488748386534817562863454810087094083181913524639656337" and
    qf = "37874880155481576743800675453736195947824682036213940185119870298671986566951" and
    qg = "19641635784112395346641967481223427603076292420967697888635760513231183455066" and
    qx = "4640816599768074523567265725477282336817799778256961706557227807567430185400" and
    qy = "-2918347821822279244224534467951863095252877302676643115518800860268071522766" and
    qt = "6641269818655623607039518867122167455242689595721592842383860057608506014033" and
    qh = "-2039296307065478988614624248964730464238146484391342193583774272023152012965" and
    ql = "2075538598203652661741287424930695123187892767969232245580929198356825913851" and
    a = "46827403850823179245072216630277197565144205554125654976674165829533817101731" and
    b = "46827403850823179245072216630277197565144205554125654976674165829533817101731" and
    c = "37053468555941182535542715202780130513046395093004980492626426882532201484768" and
    e = "26187595835145689230469591415084376402084551887632582719101735842039498021991" and
    f = "30655112042971184558329056706696549839726511367961720624960021019854854290862" and
    g = "10865872720795493305073123787695754110961843205372397773524691040492703462776" and
    h = "10165075093246554225462147012749345725666169878716553273091115824860921012610" and
    l = "2955351391579511739856629296862366800576255065796768573002911034137943620940"])
    (simp_all add: edwards_d_int_def)

lemma base_3_step:
  "\<exists>k m. k * m = 1 \<and> scale_point k (add_points base_point base_2) = base_3"
  unfolding base_point_def base_2_def base_3_def
  by (rule affine_add [where qa = "4058828903260336638441629767586659936765045930565394027822050546482170651037" and
    qb = "19781930588085232802043659657340471067698214533918110765381138946016986886565" and
    qc = "12439740464224152141082134968359633801239657653156048464405663674450114439533" and
    qe = "6454433021663346227697405437452792583555821297117287786816762890575823932726" and
    qf = "13388359433056098230768921232161803557933687620554246315848680033564797844628" and
    qg = "2155565383258724699621487326096273367412687650293044625345827486478075842728" and
    qx = "10502586251765189032171361699000264158397174470481734387195668932726726272872" and
    qy = "-1864359910755556230756376877239954303300786756820140253993326411207065582785" and
    qt = "6743258237874379575953832327795487793144750025096763998866812939822304010670" and
    qh = "-2903729929408087935038567625910921819776567374563082902512270640065788966347" and
    ql = "163284673892533853817311692036458317531014542865276317280831373713314927631" and
    a = "13126712882185592515966480322145082837337984803310424588837528844346735599121" and
    b = "8202721664353613259686561156471680282371216067354054361435380545225673922575" and
    c = "47177367235419010768153430470966006157220653052848217676242938876824053331503" and
    e = "25225440941862457257645256542063839045928653454434489306237645082571845078638" and
    f = "3364236006921377708987850388260268045919210514534713198477653094347271829663" and
    g = "12965896712281167460188844285041720407456251414812089957574419241826119111093" and
    h = "449866727041981856910711739926099867055731189810398506275864610260399601655" and
    l = "5253520763463223842771672453551955637466233318232013949326939331052043464911"])
    (simp_all add: edwards_d_int_def)

lemma base_5_step:
  "\<exists>k m. k * m = 1 \<and> scale_point k (add_points base_3 base_2) = base_5"
  unfolding base_3_def base_2_def base_5_def
  by (rule affine_add [where qa = "12595488965616416182922704002854948819576652801996203478281349169312834022151" and
    qb = "3555542586464750783337632493767112762966824865931789411913667956340557955757" and
    qc = "2235880203308253119519222121890932670933772483120078552391370436872692883322" and
    qe = "20029605051439257545288017948402983388317488377638599063002798194777807630559" and
    qf = "5470348130378064101724975097196448602947468179203870971996966324488324477845" and
    qg = "27148693094007366111345366357935517749014715109041703713943420964163043468362" and
    qx = "22539961670141264825032842176044456866530163614812222023405499037387995969462" and
    qy = "-29025875170454503863744136436304667593184035664383105375875854408921235177771" and
    qt = "24912478724978669719436288467669755371092766181383718252439230274986184940067" and
    qh = "-26261622579063927992284069547159108486734620750575892989495967551044733771786" and
    ql = "182197648212765740980147494165354324003440628323545912730606626191952096097067" and
    a = "602908742339240341536640380461451911154253155441419426466220108100307664833" and
    b = "582786104115941000919880068531871989407619856981034189227416437305667645039" and
    c = "44797614286132229630946778029717472893086876719631224265665813444759707094146" and
    e = "48340943397957672063845076961079850094226192239642303261637243939815458376085" and
    f = "42371533499781928103430765740550095599405096895089063229563725931958961537065" and
    g = "38992872074211770242716245714054993943552099849601362769832305884147734512537" and
    h = "56969871640618157216351776467614662684444828410929998765656833000569735982546" and
    l = "46289919858359011041694921818524829520485349795484510981142216886154209477226"])
    (simp_all add: edwards_d_int_def)

lemma base_7_step:
  "\<exists>k m. k * m = 1 \<and> scale_point k (add_points base_5 base_2) = base_7"
  unfolding base_5_def base_2_def base_7_def
  by (rule affine_add [where qa = "8988542595569555859239843147979517026661389361515839134943450038638834146414" and
    qb = "18406820828289956878233830320698829198805645589198795314522853283631733303679" and
    qc = "11575011491209865433133808471897716672703133499734705597028430690659308629457" and
    qe = "14293764908116530862448180713109370502117189820835074215820232183375730470090" and
    qf = "15047782129646330461943821500031213609696782546018060526164304035680346592612" and
    qg = "9833195695355790751508348975109235895354174384303978101396976577935051672477" and
    qx = "4243784108740710510242939549308612702871047059302194843568174405205316247964" and
    qy = "-10385373005022375857829404006604739990702519416690008831408371873121523661392" and
    qt = "3576957978588238476811314794424929515154206407324990029083190680237458175489" and
    qh = "-12321442182402616809824168657535627322426738439271531474439223571499129716696" and
    ql = "10455589702931006060665387143990081451543965144532753801203922511700053101979" and
    a = "35574208535938585016753657924778903423101502729571728532864869933093859295029" and
    b = "25985786973093286810932943446657016631202930920936822653462650956893310060387" and
    c = "27213516076568098771156700155333099061231010900289323149495096076870574395288" and
    e = "6340004638261182900895289219772987200849098283612958019611071795932256623560" and
    f = "15346874318147105863293115084415884734066589450846357509903977324495490947132" and
    g = "26708851835273599236554348871529033123123434212128029177396509941486770170587" and
    h = "17262882178896212162794042847437688948201518589751401351154317842207539243936" and
    l = "8766457444390391598165698832227141672724427434618420503679684536499173623863"])
    (simp_all add: edwards_d_int_def)

lemma base_9_step:
  "\<exists>k m. k * m = 1 \<and> scale_point k (add_points base_7 base_2) = base_9"
  unfolding base_7_def base_2_def base_9_def
  by (rule affine_add [where qa = "2470696476608410401219596600526779650750606393192254298252175211115664465435" and
    qb = "9614917611574591753387283334667001936821282631565135586347163022776670103131" and
    qc = "6046279413442381593574959747587532512666219343760505271703330394674977379850" and
    qe = "3928952243421470271284563548988221211934248508304978769883102841983841268533" and
    qf = "2278493553007643268480464331519221614844585898988572388041281032238696137069" and
    qg = "35988879285016098650482474679385003568221542663143350483833672257718875497697" and
    qx = "3029078965273756902325320361646637691001190148679231843459172364002971415427" and
    qy = "-7205736359940062271378719512897081319050319411114903533222979770658030175171" and
    qt = "24049192284452839026368981968108426564614361617599417040661616562485502377383" and
    qh = "-907587422439677489967346815410582802370814060053417890987509090947442088747" and
    ql = "51847034670143338884018634096325099341645418797179843342399527180720936021291" and
    a = "7903858799663833258247318609670337030961030817366105904000074453024221331328" and
    b = "10728057269996190800334709755180040831310557421504659846845742154823534137041" and
    c = "30902426918875499502853874846454069254968873582337309167482348478985076034870" and
    e = "9325763809085646680044095575923854707602173682939668350085181842640224927057" and
    f = "56168597102055912493228154247220266103922034630928085176911135512893652829234" and
    g = "7248842797640218075432952744241253730385792372876792704258571421819384289417" and
    h = "15180455529236064393458179700143706147426528137985782240921980827976515814015" and
    l = "49434258195129247801908445864616893757578530677001491935485285240717740778636"])
    (simp_all add: edwards_d_int_def)

lemma base_11_step:
  "\<exists>k m. k * m = 1 \<and> scale_point k (add_points base_9 base_2) = base_11"
  unfolding base_9_def base_2_def base_11_def
  by (rule affine_add [where qa = "6497753714895156183426776061385273589038528872990799025281355686306256751706" and
    qb = "24580367599291107975464295823530923982331601260248293077395576212825209057357" and
    qc = "15457206873153973002413809275534372347319238052505611109330133136220891334036" and
    qe = "10332861311391167468301009556494463863360341253977303113715794824777279599539" and
    qf = "11954529394608235174927010928405425812832858533996480078606237590916112391007" and
    qg = "19730660678769798722284829952681584207168013573816118436099772376841932285234" and
    qx = "1285946124766018085003618760799179595963271003006021652004374776816155926758" and
    qy = "-2804165985623696191138716239871310793058600792671999609849798677377275595094" and
    qt = "3364348481672345450490071950188201941897672407967167034662012885099961841041" and
    qh = "-1071829033781008705002314337789704788830706277413509192612957764938120184380" and
    ql = "30510082022241835467413963935193546643239883788021058294747146135875349478711" and
    a = "8078571937620755874121805575597237123138436325390059854316978749644668338154" and
    b = "15033415932910455299069107315338159419033648965175576943892286947697464528439" and
    c = "30669764113903190525019673621186452561310012811730212691302466949682132105660" and
    e = "39471529557189836860058826487841429781340761288845943468618747970698615279953" and
    f = "30794055059241951527746855506676385403749644531741541474523954922722731491442" and
    g = "7877478122048862755598430610344988161480765250477852441251648244542214503244" and
    h = "50403191745426670031876246366789260782256531760930919984037537837839695673085" and
    l = "8761414748297695613190229792215462225924320387189285982557018955975916623511"])
    (simp_all add: edwards_d_int_def)

lemma base_13_step:
  "\<exists>k m. k * m = 1 \<and> scale_point k (add_points base_11 base_2) = base_13"
  unfolding base_11_def base_2_def base_13_def
  by (rule affine_add [where qa = "2538381540897164523391224791129331686734216948523810456808032494881222395130" and
    qb = "8802280378572768304918854912879854999105343754644677365191279931331548827817" and
    qc = "5535257689597256053294773264299714481693146139969948684309505484495364087787" and
    qe = "4036586421759911061921598706944881940732696592131598501888848002958458712825" and
    qf = "11755326143798285875510970362806574346135435682334176165805948451710396282966" and
    qg = "7947399026226355776547404239562243699219446800947339387578929642897220054704" and
    qx = "5064852525528067700587028409505865751592360905533385245891769993233475910549" and
    qy = "-5804990986174238405323029107441839482691466531557658185355143233028219383317" and
    qt = "1096459557623892196493299667445616164183037679408002196057053966527443213121" and
    qh = "-26814872516326354576387819301025087683575679392942917811641902422698978011881" and
    ql = "7301143123767778110442212753237850778628380357904213299738353653179448968651" and
    a = "36523668441405715672473826926471761011558150252149087728229935787769810684401" and
    b = "37245272903891405555736527680150836965662117890080473877893541671781151623573" and
    c = "40530214640583553323417811076674281727125935410020683054938954657707605882204" and
    e = "14980201344168139239096952090747236809489943918441111821135166819811770972053" and
    f = "12403671989286842433575992357264831529847132505728420164571586863353642167606" and
    g = "39401460070013387312891163651564801670953213707982218393283189671500785029234" and
    h = "15001543551839353776597248501814379512136242185557467587797250671360513187314" and
    l = "7044396908227478550166647091253423105669841372393664672953260122540843013550"])
    (simp_all add: edwards_d_int_def)

lemma base_15_step:
  "\<exists>k m. k * m = 1 \<and> scale_point k (add_points base_13 base_2) = base_15"
  unfolding base_13_def base_2_def base_15_def
  by (rule affine_add [where qa = "1998829827472875268259475595472811190667410813111047914927360052310034370818" and
    qb = "3643073395913124174636218580846988619163556579821658540308036582542384536424" and
    qc = "2290923392713489987586226983216406500706998834692637638154562739667878077161" and
    qe = "3178580213805842815851282036490783082207594897576336962237670237303692305432" and
    qf = "8426029432969765370693147803366391503171803432599203356700679263558645268155" and
    qg = "21989387719728672478274349498328709831001507480990493697829770488113908602053" and
    qx = "28308596128207231145721318538685982025362652538757453936639265933113812594893" and
    qy = "-6728204302220312255003807672134891790266411611788884637598582490664149176811" and
    qt = "5253104282994168183921517903901539759328624563151459270604398721148228361486" and
    qh = "-36257802624671903096781707329360002470021416043377264240201742702317492671722" and
    ql = "119265276030062163525686362793177304956622680878746299676859702990412877570611" and
    a = "12076267221312838434655434941383930905171250078755816855725262741864161295163" and
    b = "40269207660870616202746618967582616719806907604068180537336667979428605936056" and
    c = "19825164067779614078206114249232182759535213208898892830988794012221484831435" and
    e = "38919509364173204966524514906699328588686310710353568878912568345721734308542" and
    f = "34319297624379560845894772703016622542474881780285926576103609213095591097140" and
    g = "45816845794232749498991608072953932466942116014606495453164585144074912777403" and
    h = "36136687343347858911717287242080115603441518735999794722217595442650466357770" and
    l = "47769927531584756100479759898192538281950314299694923183908444981728912671323"])
    (simp_all add: edwards_d_int_def)

lemma combination_2B: "combination Ps c base_point \<Longrightarrow> combination Ps (\<lambda>j. 2 * c j) base_2"
  by (rule combination_scaled [OF _ _ base_2_step, of _ c c]) simp_all

lemma combination_next_odd:
  assumes "combination Ps c base_point" "combination Ps (\<lambda>j. m * c j) P"
    "\<exists>k l. k * l = 1 \<and> scale_point k (add_points P base_2) = Q"
  shows "combination Ps (\<lambda>j. (m + 2) * c j) Q"
  by (rule combination_scaled [OF assms(2) combination_2B [OF assms(1)] assms(3)]) (simp add: algebra_simps)

lemma base_odd_combinations:
  assumes B: "combination Ps c base_point"
  shows "combination Ps (\<lambda>j. 3 * c j) base_3" "combination Ps (\<lambda>j. 5 * c j) base_5"
    "combination Ps (\<lambda>j. 7 * c j) base_7" "combination Ps (\<lambda>j. 9 * c j) base_9"
    "combination Ps (\<lambda>j. 11 * c j) base_11" "combination Ps (\<lambda>j. 13 * c j) base_13"
    "combination Ps (\<lambda>j. 15 * c j) base_15"
proof -
  note step = combination_next_odd [OF B]
  show c3: "combination Ps (\<lambda>j. 3 * c j) base_3" using step [of 1, OF _ base_3_step] B by simp
  show c5: "combination Ps (\<lambda>j. 5 * c j) base_5" using step [OF c3 base_5_step] by simp
  show c7: "combination Ps (\<lambda>j. 7 * c j) base_7" using step [OF c5 base_7_step] by simp
  show c9: "combination Ps (\<lambda>j. 9 * c j) base_9" using step [OF c7 base_9_step] by simp
  show c11: "combination Ps (\<lambda>j. 11 * c j) base_11" using step [OF c9 base_11_step] by simp
  show c13: "combination Ps (\<lambda>j. 13 * c j) base_13" using step [OF c11 base_13_step] by simp
  show "combination Ps (\<lambda>j. 15 * c j) base_15" using step [OF c13 base_15_step] by simp
qed

subsection \<open>The entries of the table\<close>

lemma precomp_affine:
  assumes "fe_loose a" "fe_loose b" "fe_loose c" "fe_val a mod p25519 = (y + x) mod p25519"
    "fe_val b mod p25519 = (y - x) mod p25519" "2 * edwards_d_int * t + 19 * q = q * 2 ^ 255 + fe_val c"
  shows "precomp_point \<lparr> yplusx = a, yminusx = b, xy2d = c \<rparr> (affine x y t)"
proof -
  have "fe_res a = of_int (y + x)" "fe_res b = of_int (y - x)" using assms(4,5) by (simp_all only: fe_res_def of_int_residue_eq)
  moreover have "fe_res c = of_int (2 * edwards_d_int * t)" using of_int_quotient [OF assms(6)] by (simp only: fe_res_def)
  ultimately have "fe_res a = of_int (y + x)" "fe_res b = of_int (y - x)" "fe_res c = of_int (2 * edwards_d_int * t)" by simp_all
  then show ?thesis using assms(1-3) by (simp add: precomp_point_def affine_def edwards_d_of_int)
qed

lemma ge_Bi_at:
  "ge_Bi ! 0 = \<lparr> yplusx = [25967493, -14356035, 29566456, 3660896, -12694345, 4014787, 27544626, -11754271, -6079156, 2047605],
    yminusx = [-12545711, 934262, -2722910, 3049990, -727428, 9406986, 12720692, 5043384, 19500929, -15469378],
    xy2d = [-8738181, 4489570, 9688441, -14785194, 10184609, -12363380, 29287919, 11864899, -24514362, -4438546] \<rparr>"
  "ge_Bi ! 1 = \<lparr> yplusx = [15636291, -9688557, 24204773, -7912398, 616977, -16685262, 27787600, -14772189, 28944400, -1550024],
    yminusx = [16568933, 4717097, -11556148, -1102322, 15682896, -11807043, 16354577, -11775962, 7689662, 11199574],
    xy2d = [30464156, -5976125, -11779434, -15670865, 23220365, 15915852, 7512774, 10017326, -17749093, -9920357] \<rparr>"
  "ge_Bi ! 2 = \<lparr> yplusx = [10861363, 11473154, 27284546, 1981175, -30064349, 12577861, 32867885, 14515107, -15438304, 10819380],
    yminusx = [4708026, 6336745, 20377586, 9066809, -11272109, 6594696, -25653668, 12483688, -12668491, 5581306],
    xy2d = [19563160, 16186464, -29386857, 4097519, 10237984, -4348115, 28542350, 13850243, -23678021, -15815942] \<rparr>"
  "ge_Bi ! 3 = \<lparr> yplusx = [5153746, 9909285, 1723747, -2777874, 30523605, 5516873, 19480852, 5230134, -23952439, -15175766],
    yminusx = [-30269007, -3463509, 7665486, 10083793, 28475525, 1649722, 20654025, 16520125, 30598449, 7715701],
    xy2d = [28881845, 14381568, 9657904, 3680757, -20181635, 7843316, -31400660, 1370708, 29794553, -1409300] \<rparr>"
  "ge_Bi ! 4 = \<lparr> yplusx = [-22518993, -6692182, 14201702, -8745502, -23510406, 8844726, 18474211, -1361450, -13062696, 13821877],
    yminusx = [-6455177, -7839871, 3374702, -4740862, -27098617, -10571707, 31655028, -7212327, 18853322, -14220951],
    xy2d = [4566830, -12963868, -28974889, -12240689, -7602672, -2830569, -8514358, -10431137, 2207753, -3209784] \<rparr>"
  "ge_Bi ! 5 = \<lparr> yplusx = [-25154831, -4185821, 29681144, 7868801, -6854661, -9423865, -12437364, -663000, -31111463, -16132436],
    yminusx = [25576264, -2703214, 7349804, -11814844, 16472782, 9300885, 3844789, 15725684, 171356, 6466918],
    xy2d = [23103977, 13316479, 9739013, -16149481, 817875, -15038942, 8965339, -14088058, -30714912, 16193877] \<rparr>"
  "ge_Bi ! 6 = \<lparr> yplusx = [-33521811, 3180713, -2394130, 14003687, -16903474, -16270840, 17238398, 4729455, -18074513, 9256800],
    yminusx = [-25182317, -4174131, 32336398, 5036987, -21236817, 11360617, 22616405, 9761698, -19827198, 630305],
    xy2d = [-13720693, 2639453, -24237460, -7406481, 9494427, -5774029, -6554551, -15960994, -2449256, -14291300] \<rparr>"
  "ge_Bi ! 7 = \<lparr> yplusx = [-3151181, -5046075, 9282714, 6866145, -31907062, -863023, -18940575, 15033784, 25105118, -7894876],
    yminusx = [-24326370, 15950226, -31801215, -14592823, -11662737, -5090925, 1573892, -2625887, 2198790, -15804619],
    xy2d = [-3099351, 10324967, -2241613, 7453183, -5446979, -2735503, -13812022, -16236442, -32461234, -12290683] \<rparr>"
  by (simp_all add: ge_Bi_def precomp_def)

lemma ge_Bi_0: "precomp_point (ge_Bi ! 0) base_point"
  by (simp only: ge_Bi_at base_point_def, rule precomp_affine [where q = "60007401693010716848578972718972579622751081550669298468045873082723336218259"])
    (simp_all add: fe_loose_def fe_val_10 p25519_def edwards_d_int_def)

lemma ge_Bi_1: "precomp_point (ge_Bi ! 1) base_3"
  by (simp only: ge_Bi_at base_3_def, rule precomp_affine [where q = "24518416860674016354171078136646165519664432527730980697505321609225690116736"])
    (simp_all add: fe_loose_def fe_val_10 p25519_def edwards_d_int_def)

lemma ge_Bi_2: "precomp_point (ge_Bi ! 2) base_5"
  by (simp only: ge_Bi_at base_5_def, rule precomp_affine [where q = "67445030241205362027057100153579717089129371506252038910400855114664124851304"])
    (simp_all add: fe_loose_def fe_val_10 p25519_def edwards_d_int_def)

lemma ge_Bi_3: "precomp_point (ge_Bi ! 3) base_7"
  by (simp only: ge_Bi_at base_7_def, rule precomp_affine [where q = "10212339949036977873478538216042640383040519286425215616646731479385893218241"])
    (simp_all add: fe_loose_def fe_val_10 p25519_def edwards_d_int_def)

lemma ge_Bi_4: "precomp_point (ge_Bi ! 4) base_9"
  by (simp only: ge_Bi_at base_9_def, rule precomp_affine [where q = "53580892492472628563105941894284836764544414043521129529110603656071299305776"])
    (simp_all add: fe_loose_def fe_val_10 p25519_def edwards_d_int_def)

lemma ge_Bi_5: "precomp_point (ge_Bi ! 5) base_11"
  by (simp only: ge_Bi_at base_11_def, rule precomp_affine [where q = "52688051995496399580961730955716703727794946229204640619610599856925224329323"])
    (simp_all add: fe_loose_def fe_val_10 p25519_def edwards_d_int_def)

lemma ge_Bi_6: "precomp_point (ge_Bi ! 6) base_13"
  by (simp only: ge_Bi_at base_13_def, rule precomp_affine [where q = "37765951488645653388836826742036493115133281323534507132220851433967931450851"])
    (simp_all add: fe_loose_def fe_val_10 p25519_def edwards_d_int_def)

lemma ge_Bi_7: "precomp_point (ge_Bi ! 7) base_15"
  by (simp only: ge_Bi_at base_15_def, rule precomp_affine [where q = "54601912468527077717399298051076647175802436810069606016855296614618169567649"])
    (simp_all add: fe_loose_def fe_val_10 p25519_def edwards_d_int_def)

lemma affine_on_curve:
  assumes "x * y + 19 * qa = qa * 2 ^ 255 + t" "y * y + 19 * qb = qb * 2 ^ 255 + b" "x * x + 19 * qc = qc * 2 ^ 255 + c"
    "t * t + 19 * qe = qe * 2 ^ 255 + e" "edwards_d_int * e + 19 * qf = qf * 2 ^ 255 + f" "b - c + 19 * q = q * 2 ^ 255 + (1 + f)"
  shows "on_curve (affine x y t)"
proof -
  note product = assms(1-5) [THEN residue_product]
  have "of_int b - of_int c = (1 + of_int f :: residue)" using of_int_quotient [OF assms(6)] by simp
  then show ?thesis by (simp add: on_curve_def affine_def edwards_d_of_int product)
qed

lemma base_point_on_curve: "on_curve base_point"
  unfolding base_point_def
  by (rule affine_on_curve [where qa = "12089777079628320618000921127670825209163210154433485764836890627159878209761" and
    qb = "37053468555941182535542715202780130513046395093004980492626426882532201484768" and
    b = "37053468555941182535542715202780130513046395093004980492626426882532201484768" and
    qc = "3944643120641682540557488748386534817562863454810087094083181913524639656337" and
    c = "26187595835145689230469591415084376402084551887632582719101735842039498021991" and
    qe = "37874880155481576743800675453736195947824682036213940185119870298671986566951" and
    e = "30655112042971184558329056706696549839726511367961720624960021019854854290862" and
    qf = "19641635784112395346641967481223427603076292420967697888635760513231183455066" and
    f = "10865872720795493305073123787695754110961843205372397773524691040492703462776" and q = "0"])
    (simp_all add: edwards_d_int_def)

lemma base_multiples_base_point:
  assumes "i < length Ps" "Ps ! i = base_point"
  shows "base_multiples Ps (\<lambda>j. if j = i then 1 else 0)"
proof -
  let ?c = "\<lambda>j. if j = i then 1 else 0 :: int"
  have B: "combination Ps ?c base_point" using combination.base [OF assms(1)] assms(2) by simp
  note points = base_odd_combinations [OF B]
  have "precomp_multiple Ps 1 ?c (ge_Bi ! 0)" using ge_Bi_0 B by (auto simp: precomp_multiple_def simp del: split_paired_Ex)
  moreover have "precomp_multiple Ps 3 ?c (ge_Bi ! 1)" "precomp_multiple Ps 5 ?c (ge_Bi ! 2)" "precomp_multiple Ps 7 ?c (ge_Bi ! 3)"
    "precomp_multiple Ps 9 ?c (ge_Bi ! 4)" "precomp_multiple Ps 11 ?c (ge_Bi ! 5)" "precomp_multiple Ps 13 ?c (ge_Bi ! 6)"
    "precomp_multiple Ps 15 ?c (ge_Bi ! 7)"
    unfolding precomp_multiple_def using ge_Bi_1 ge_Bi_2 ge_Bi_3 ge_Bi_4 ge_Bi_5 ge_Bi_6 ge_Bi_7 points by blast+
  ultimately show ?thesis by (simp only: base_multiples_def) (simp add: numeral_eq_Suc less_Suc_eq all_conj_distrib)
qed

end
