(* ===== verification/ScalarMultSpec.thy ===== *)
theory ScalarMultSpec
  imports BasePoint
begin

text \<open>
  The properties of the scalar multiplications: the recoding into sliding windows is exact, and the
  routines compute the linear combinations of points that their names promise.
\<close>

text \<open>
  C22. The sliding windows of a number below \<open>2\<^sup>2\<^sup>5\<^sup>5\<close> are 256 digits that are zero or odd and below 16,
  and the sum of the digits times the powers of two is the number.
\<close>

theorem slide_exact:
  assumes "length a = 32" "le_int a < 2 ^ 255"
  shows "length (slide a) = 256 \<and> (\<Sum>k < 256. slide a ! k * 2 ^ k) = le_int a \<and>
    (\<forall>k < 256. slide a ! k = 0 \<or> odd (slide a ! k) \<and> \<bar>slide a ! k\<bar> < 16)"
  using slide_exact_lemma [OF assms] by (auto simp: slid_def window_value_low low_value_def)

lemma slide_exact_witness:
  "(\<Sum>k < 256. slide (replicate 31 255 @ [127]) ! k * 2 ^ k) = 2 ^ 255 - 1"
proof -
  have "le_int (replicate 31 255 @ [127 :: u8]) = 2 ^ 255 - 1" by code_simp
  then show ?thesis using slide_exact [of "replicate 31 255 @ [127]"] by simp
qed

text \<open>A result: the linear combination of \<open>Ps\<close> with the coefficients \<open>ns\<close>, on the curve.\<close>

definition p2_result :: "point list \<Rightarrow> int list \<Rightarrow> ge_p2 \<Rightarrow> bool" where
  "p2_result Ps ns r \<longleftrightarrow> p2_ok r \<and> (\<exists>Q. p2_point r = plane Q \<and> on_curve Q \<and> combination Ps (coeffs ns) Q)"

definition p3_result :: "point list \<Rightarrow> int list \<Rightarrow> ge_p3 \<Rightarrow> bool" where
  "p3_result Ps ns r \<longleftrightarrow> p3_ok r \<and> on_curve (p3_point r) \<and> combination Ps (coeffs ns) (p3_point r)"

lemma combination_results:
  assumes "\<And>j. c j = coeffs ns j" "\<And>P. P \<in> set Ps \<Longrightarrow> on_curve P"
  shows "p2_combination Ps c r \<Longrightarrow> p2_result Ps ns r" "p3_combination Ps c p \<Longrightarrow> p3_result Ps ns p"
proof -
  have "c = coeffs ns" using assms(1) by (rule ext)
  then show "p2_combination Ps c r \<Longrightarrow> p2_result Ps ns r" "p3_combination Ps c p \<Longrightarrow> p3_result Ps ns p"
    using combination_on_curve [OF _ assms(2)]
    unfolding p2_combination_def p2_result_def p3_combination_def p3_result_def by blast+
qed

abbreviation unit_coeff :: "nat \<Rightarrow> nat \<Rightarrow> int" where
  "unit_coeff i \<equiv> (\<lambda>j. if j = i then 1 else 0)"

lemma p3_start:
  "p3_ok A \<Longrightarrow> i < length Ps \<Longrightarrow> Ps ! i = p3_point A \<Longrightarrow> p3_combination Ps (unit_coeff i) A"
  using combination.base [of i Ps] by (simp add: p3_combination_def)

lemma dsm_bind:
  assumes "p3_ok A" "i < length Ps" "Ps ! i = p3_point A"
    "\<And>tab. length tab = 8 \<Longrightarrow> multiples Ps 1 2 (unit_coeff i) tab \<Longrightarrow> succeeds (f tab) Q"
  shows "succeeds (do { tab \<leftarrow> ge_dsm_precomp A; f tab }) Q"
  by (rule succeeds_bind [OF ge_dsm_precomp_table [OF p3_start [OF assms(1-3)]]]) (use assms(4) in blast)

lemma vartime_result:
  assumes "list_all2 (summand_ok Ps) cs ss" "\<And>j. partial 0 cs ss j = coeffs ns j" "\<And>P. P \<in> set Ps \<Longrightarrow> on_curve P"
  shows "succeeds (vartime ss) (p2_result Ps ns)"
  by (rule succeeds_weaken [OF vartime_combination [OF assms(1)]]) (rule combination_results [OF assms(2,3)])

lemma coeffs_1: "n * (if j = 0 then 1 else 0) = coeffs [n] j"
  by (simp add: coeffs_def)

lemma coeffs_2: "a * (if j = 0 then 1 else 0) + b * (if j = 1 then 1 else 0) = coeffs [a, b] j"
  by (auto simp: coeffs_def less_Suc_eq numeral_eq_Suc)

lemma coeffs_3:
  "a * (if j = 0 then 1 else 0) + (b * (if j = 1 then 1 else 0) + c * (if j = 2 then 1 else 0)) = coeffs [a, b, c] j"
  by (auto simp: coeffs_def less_Suc_eq numeral_eq_Suc)

lemma scalarmult_results:
  assumes "p3_ok A" "on_curve (p3_point A)" "length a = 32" "a ! 31 \<le> 127"
  shows "succeeds (ge_scalarmult a A) (p2_result [p3_point A] [le_int a])"
    "succeeds (ge_scalarmult_p3 a A) (p3_result [p3_point A] [le_int a])"
proof -
  have A: "p3_combination [p3_point A] (unit_coeff 0) A" using assms(1) by (rule p3_start) simp_all
  have curve: "on_curve P" if "P \<in> set [p3_point A]" for P using that assms(2) by simp
  show "succeeds (ge_scalarmult a A) (p2_result [p3_point A] [le_int a])"
    by (rule succeeds_weaken [OF ge_scalarmult_combination [OF A assms(3,4)] combination_results(1) [OF coeffs_1 curve]])
  show "succeeds (ge_scalarmult_p3 a A) (p3_result [p3_point A] [le_int a])"
    by (rule succeeds_weaken [OF ge_scalarmult_p3_combination [OF A assms(3,4)] combination_results(2) [OF coeffs_1 curve]])
qed

lemma base_vartime_result:
  assumes "p3_ok A" "on_curve (p3_point A)" "length a = 32" "le_int a < 2 ^ 255" "length b = 32" "le_int b < 2 ^ 255"
  shows "succeeds (ge_double_scalarmult_base_vartime a A b) (p2_result [p3_point A, base_point] [le_int a, le_int b])"
    (is "succeeds _ (p2_result ?AB _)")
  unfolding ge_double_scalarmult_base_vartime_def
proof (rule dsm_bind [of A 0 ?AB, OF assms(1)])
  fix Ai assume "length Ai = 8" "multiples ?AB 1 2 (unit_coeff 0) Ai"
  then show "succeeds (vartime [Point (slide a) Ai, Base (slide b)]) (p2_result ?AB [le_int a, le_int b])"
    using slide_window_digits [OF assms(3,4)] slide_window_digits [OF assms(5,6)] base_multiples_base_point [of 1 ?AB]
      coeffs_2 [of "le_int a" _ "le_int b"] assms(2) base_point_on_curve
    by (intro vartime_result [where cs = "[unit_coeff 0, unit_coeff 1]"]) (auto simp: partial_def)
qed simp_all

text \<open>
  C14. The multiplication with a fixed pattern of operations gives the multiple of the point, on the curve: a
  combination of doublings, additions and negations in which the point counts as often as the scalar
  says. It holds for both result representations, every point of the curve and every 255-bit scalar,
  and nothing overflows.
\<close>

theorem scalar_multiplication:
  assumes "p3_ok A" "on_curve (p3_point A)" "length a = 32" "a ! 31 \<le> 127"
  shows "succeeds (ge_scalarmult a A) (p2_result [p3_point A] [le_int a]) \<and>
    succeeds (ge_scalarmult_p3 a A) (p3_result [p3_point A] [le_int a])"
  using scalarmult_results [OF assms] by blast

lemma scalar_multiplication_witness:
  "succeeds (ge_scalarmult_p3 (5 # replicate 31 0) ge_p3_0) (p3_result [zero_point] [5])"
proof -
  have "le_int (5 # replicate 31 0) = 5" by code_simp
  then show ?thesis
    using scalar_multiplication [of ge_p3_0 "5 # replicate 31 0"] by (simp add: p3_0_ok on_curve_zero)
qed

text \<open>
  C15. The variable-time routines return \<open>a A + b B\<close> for the base point \<open>B\<close>, \<open>a A + b B\<close> for two points,
  and \<open>a A + b B + c C\<close> for three points with their tables, on the curve.
\<close>

theorem vartime_multiplications:
  assumes "p3_ok A" "on_curve (p3_point A)" "p3_ok B" "on_curve (p3_point B)" "p3_ok C" "on_curve (p3_point C)"
    and "length a = 32" "le_int a < 2 ^ 255" "length b = 32" "le_int b < 2 ^ 255" "length c = 32" "le_int c < 2 ^ 255"
  shows "succeeds (ge_double_scalarmult_base_vartime a A b) (p2_result [p3_point A, base_point] [le_int a, le_int b]) \<and>
    succeeds (do { Bi \<leftarrow> ge_dsm_precomp B; ge_double_scalarmult_precomp_vartime a A b Bi })
      (p2_result [p3_point A, p3_point B] [le_int a, le_int b]) \<and>
    succeeds (do { Ai \<leftarrow> ge_dsm_precomp A; Bi \<leftarrow> ge_dsm_precomp B; Ci \<leftarrow> ge_dsm_precomp C;
        ge_triple_scalarmult_precomp_vartime a Ai b Bi c Ci })
      (p2_result [p3_point A, p3_point B, p3_point C] [le_int a, le_int b, le_int c])"
proof (intro conjI)
  note slides = slide_window_digits [OF assms(7,8)] slide_window_digits [OF assms(9,10)] slide_window_digits [OF assms(11,12)]
  note coeffs = coeffs_2 [of "le_int a" _ "le_int b"] coeffs_3 [of "le_int a" _ "le_int b" "le_int c"]
  let ?P2 = "[p3_point A, p3_point B]" and ?P3 = "[p3_point A, p3_point B, p3_point C]"
  show "succeeds (ge_double_scalarmult_base_vartime a A b) (p2_result [p3_point A, base_point] [le_int a, le_int b])"
    using assms by (intro base_vartime_result)
  show "succeeds (do { Bi \<leftarrow> ge_dsm_precomp B; ge_double_scalarmult_precomp_vartime a A b Bi })
      (p2_result ?P2 [le_int a, le_int b])"
    unfolding ge_double_scalarmult_precomp_vartime_def ge_double_scalarmult_precomp_vartime2_def
  proof (rule dsm_bind [of B 1 ?P2, OF assms(3)], simp, simp, rule dsm_bind [of A 0 ?P2, OF assms(1)], simp, simp)
    fix Bi Ai assume "length Bi = 8" "multiples ?P2 1 2 (unit_coeff 1) Bi" "length Ai = 8" "multiples ?P2 1 2 (unit_coeff 0) Ai"
    then show "succeeds (vartime [Point (slide a) Ai, Point (slide b) Bi]) (p2_result ?P2 [le_int a, le_int b])"
      using slides coeffs assms(2,4)
      by (intro vartime_result [where cs = "[unit_coeff 0, unit_coeff 1]"]) (auto simp: partial_def)
  qed
  show "succeeds (do { Ai \<leftarrow> ge_dsm_precomp A; Bi \<leftarrow> ge_dsm_precomp B; Ci \<leftarrow> ge_dsm_precomp C;
        ge_triple_scalarmult_precomp_vartime a Ai b Bi c Ci }) (p2_result ?P3 [le_int a, le_int b, le_int c])"
    unfolding ge_triple_scalarmult_precomp_vartime_def
  proof (rule dsm_bind [of A 0 ?P3, OF assms(1)], simp, simp, rule dsm_bind [of B 1 ?P3, OF assms(3)], simp, simp,
      rule dsm_bind [of C 2 ?P3, OF assms(5)], simp, simp)
    fix Ai Bi Ci assume "length Ai = 8" "multiples ?P3 1 2 (unit_coeff 0) Ai" "length Bi = 8" "multiples ?P3 1 2 (unit_coeff 1) Bi"
      "length Ci = 8" "multiples ?P3 1 2 (unit_coeff 2) Ci"
    then show "succeeds (vartime [Point (slide a) Ai, Point (slide b) Bi, Point (slide c) Ci])
        (p2_result ?P3 [le_int a, le_int b, le_int c])"
      using slides coeffs assms(2,4,6)
      by (intro vartime_result [where cs = "[unit_coeff 0, unit_coeff 1, unit_coeff 2]"]) (auto simp: partial_def)
  qed
qed

lemma vartime_multiplications_witness:
  "succeeds (ge_double_scalarmult_base_vartime (replicate 32 0) ge_p3_0 (7 # replicate 31 0)) (p2_result [zero_point, base_point] [0, 7])"
proof -
  have "le_int (7 # replicate 31 0) = 7" "le_int (replicate 32 0) = 0" by code_simp+
  then show ?thesis
    using vartime_multiplications [of ge_p3_0 ge_p3_0 ge_p3_0 "replicate 32 0" "7 # replicate 31 0" "replicate 32 0"]
    by (simp add: p3_0_ok on_curve_zero)
qed

end
