(* ===== verification/BaseMult.thy ===== *)
theory BaseMult
  imports BasePoint
begin

text \<open>
  The multiplication of the base point by table look-ups is total: every selected entry has limbs
  that the mixed addition accepts. That the entries of the large table are the multiples they stand
  for is not proved.
\<close>

definition precomp_ok :: "ge_precomp \<Rightarrow> bool" where
  "precomp_ok q \<longleftrightarrow> fe_loose (yplusx q) \<and> fe_loose (yminusx q) \<and> fe_loose (xy2d q)"

text \<open>Every triple of elements is the precomputed form of some coordinates, as 2 and the curve's constant are units.\<close>

lemma unit_two: "\<exists>k :: residue. k * 2 = 1"
proof -
  have "of_int (2 ^ 254 - 9) * of_int 2 = (of_int 1 :: residue)"
    by (rule residue_product [where q = 1]) simp
  then have "(of_int (2 ^ 254 - 9) :: residue) * 2 = 1" by (simp only: of_int_1 of_int_numeral)
  then show ?thesis by blast
qed

lemma unit_2d: "\<exists>k :: residue. 2 * edwards_d * k = 1"
proof -
  have "of_int (2 * edwards_d_int * 43549684094568965012858857662598492841029503910925194177450539249793226832920) = (of_int 1 :: residue)"
    by (rule of_int_quotient [where q = 55807137961174422888521234347933942258682869123274760608603172410001660246251]) (simp add: edwards_d_int_def)
  then have "2 * edwards_d * of_int 43549684094568965012858857662598492841029503910925194177450539249793226832920 = 1" unfolding edwards_d_of_int by simp
  then show ?thesis by blast
qed

lemma precomp_ok_point:
  assumes "precomp_ok q"
  shows "\<exists>Q. precomp_point q Q"
proof -
  obtain h k where h: "h * 2 = (1 :: residue)" and k: "2 * edwards_d * k = 1" using unit_two unit_2d by blast
  let ?a = "fe_res (yplusx q)" and ?b = "fe_res (yminusx q)" and ?c = "fe_res (xy2d q)"
  have "h * (?a + ?b) + h * (?a - ?b) = h * 2 * ?a" "h * (?a + ?b) - h * (?a - ?b) = h * 2 * ?b"
    by (simp_all add: algebra_simps)
  moreover have "2 * edwards_d * (k * ?c) = ?c" using k by (simp add: mult.assoc [symmetric])
  ultimately have "precomp_point q (h * (?a - ?b), h * (?a + ?b), 1, k * ?c)"
    using assms h by (simp add: precomp_point_def precomp_ok_def)
  then show ?thesis by blast
qed

lemma ge_madd_total:
  assumes "p3_ok p" "precomp_ok q"
  shows "succeeds (ge_madd p q) p1p1_ok"
proof -
  obtain Q where "precomp_point q Q" using precomp_ok_point [OF assms(2)] by blast
  from ge_madd_adds [OF assms(1) this] show ?thesis by (rule succeeds_weaken) blast
qed

subsection \<open>Selection\<close>

lemma equal_char_bool: "equal_char b c = of_bool (equal_char b c = 1)"
proof -
  have "uint (drop_bit 31 (x :: u32)) < 2" for x
    using take_bit_int_less_exp [of 32 "uint x"] unfolding unsigned_drop_bit_eq by (simp add: drop_bit_eq_div) 
  moreover have "0 \<le> uint (drop_bit 31 (x :: u32))" for x by simp
  ultimately have "equal_char b c < 2" "0 \<le> equal_char b c" unfolding equal_char_def Let_def by blast+
  then have "equal_char b c = 0 \<or> equal_char b c = 1" by linarith
  then show ?thesis by auto
qed

lemma negative_bool: "negative b = of_bool (negative b = 1)"
proof -
  have "uint (drop_bit 63 (word_of_int b :: u64)) < 2"
    using take_bit_int_less_exp [of 64 "uint (word_of_int b :: u64)"]
    unfolding unsigned_drop_bit_eq by (simp add: drop_bit_eq_div) 
  moreover have "0 \<le> uint (drop_bit 63 (word_of_int b :: u64))" by simp
  ultimately have "negative b = 0 \<or> negative b = 1" unfolding negative_def by linarith
  then show ?thesis by auto
qed

lemma ge_precomp_cmov_total:
  assumes "precomp_ok t" "precomp_ok u" "b = of_bool c"
  shows "ge_precomp_cmov t u b = Some (if c then u else t)"
  using assms unfolding ge_precomp_cmov_def by (simp add: fe_cmov_selects precomp_ok_def)

lemma cmov_precomps_total:
  "list_all precomp_ok row \<Longrightarrow> precomp_ok t \<Longrightarrow> succeeds (cmov_precomps n k row t) precomp_ok"
proof (induction row arbitrary: k t)
  case (Cons q row)
  then show ?case
    using ge_precomp_cmov_total [OF _ _ equal_char_bool, of t q n k] by (cases "equal_char n k = 1") simp_all
qed simp

lemma precomp_small_ok: "precomp_small q \<Longrightarrow> precomp_ok q"
  by (auto simp: precomp_small_def precomp_ok_def intro: tight_loose)

lemma select_total:
  assumes "pos < 32"
  shows "succeeds (select pos b) precomp_ok"
proof -
  have row: "rd ge_base pos = Some (ge_base ! pos)" "list_all precomp_ok (ge_base ! pos)"
    using ge_base_small assms by (auto simp: rd_def list_all_length intro: precomp_small_ok)
  have neg: "succeeds (fe_neg f) fe_loose" if "fe_loose f" for f
    using that unfolding fe_loose_def by (intro succeeds_weaken [OF fe_neg_negates]) (auto simp: INT32_def)
  have zero: "precomp_ok ge_precomp_0" by (simp add: precomp_ok_def ge_precomp_0_def tight_loose)
  show ?thesis
    unfolding select_def row(1) bind.bind_lunit
    apply (rule succeeds_bind [OF cmov_precomps_total [OF row(2) zero]])
    apply (rule succeeds_bind [OF neg], simp add: precomp_ok_def)
    apply (subst ge_precomp_cmov_total [OF _ _ negative_bool])
    by (auto simp: precomp_ok_def fe_copy_def)
qed

lemma add_selected_total:
  "\<forall>i \<in> set ixs. i < 64 \<Longrightarrow> p3_ok h \<Longrightarrow> succeeds (add_selected e ixs h) p3_ok"
proof (induction ixs arbitrary: h)
  case (Cons i ixs)
  have to_p3: "p1p1_ok t \<Longrightarrow> succeeds (ge_p1p1_to_p3 t) p3_ok" for t
    by (rule succeeds_weaken [OF ge_p1p1_to_p3_extends]) blast+
  show ?case
    using Cons.prems Cons.IH
    by (auto intro!: succeeds_bind [OF select_total] succeeds_bind [OF ge_madd_total] succeeds_bind [OF to_p3])
qed simp

lemma ge_scalarmult_base_total: "succeeds (ge_scalarmult_base a) p3_ok"
proof -
  have to_p3: "p1p1_ok t \<Longrightarrow> succeeds (ge_p1p1_to_p3 t) p3_ok" for t
    by (rule succeeds_weaken [OF ge_p1p1_to_p3_extends]) blast+
  have to_p2: "p1p1_ok t \<Longrightarrow> succeeds (ge_p1p1_to_p2 t) p2_ok" for t
    by (rule succeeds_weaken [OF ge_p1p1_to_p2_extends]) blast+
  have dbl: "p2_ok r \<Longrightarrow> succeeds (ge_p2_dbl r) p1p1_ok" for r
    by (rule succeeds_weaken [OF ge_p2_dbl_doubles [where P = "(fe_res (X2 r), fe_res (Y2 r), fe_res (Z2 r), 0)"]])
      (simp_all add: p2_point_def plane_def)
  have dbl3: "p3_ok p \<Longrightarrow> succeeds (ge_p3_dbl p) p1p1_ok" for p
    by (rule succeeds_weaken [OF ge_p3_dbl_doubles]) blast+
  show ?thesis
    unfolding ge_scalarmult_base_def Let_def
    by (intro succeeds_bind [OF add_selected_total [OF _ p3_0_ok(1)]] succeeds_bind [OF dbl3] succeeds_bind [OF to_p2]
      succeeds_bind [OF dbl] succeeds_bind [OF to_p3] add_selected_total) auto
qed

end
