(* ===== verification/SignatureProps.thy ===== *)
theory SignatureProps
  imports Signatures ScalarMultSpec BaseMult KeccakProps ScalarProps
begin

text \<open>
  Signatures and derived keys: every operation is total on inputs of the right sizes, what a
  generated signature satisfies, what an accepted signature guarantees, and which points the derived
  keys encode.
\<close>

subsection \<open>Scalars\<close>

lemma put_varint_fit: "length (put_varint x) \<le> 10"
  by (rule put_varint_length) (use unat_u64_less [of x] in simp_all)

text \<open>The scalar a hash stands for.\<close>

definition hash_scalar :: "bytes \<Rightarrow> int" where
  "hash_scalar data = le_int (sponge 136 data 32) mod l25519"

lemma hash_scalar_range: "0 \<le> hash_scalar data" "hash_scalar data < l25519"
  by (simp_all add: hash_scalar_def l25519_def)

lemma keccak_32: "keccak data 32 = Some (sponge 136 data 32)" "length (sponge 136 data 32) = 32"
  using keccak_eq_sponge [OF keccak_rates(1), of data] by (simp_all add: length_sponge)

lemma hash_to_scalar_value:
  "succeeds (hash_to_scalar data) (\<lambda>r. length r = 32 \<and> le_int r = hash_scalar data)"
  unfolding hash_to_scalar_def keccak_32 hash_scalar_def
  using sc_reduce32_reduces [OF keccak_32(2)] by simp

lemma derivation_to_scalar_value:
  "succeeds (derivation_to_scalar d i) (\<lambda>r. length r = 32 \<and> le_int r = hash_scalar (d @ put_varint i))"
  unfolding derivation_to_scalar_def using put_varint_fit hash_to_scalar_value by simp

lemma l25519_range: "0 < l25519" "l25519 < 2 ^ 253"
  by (simp_all add: l25519_def)

subsection \<open>Encodings\<close>

text \<open>The bytes of a point in any of its coordinates.\<close>

definition encodes :: "bytes \<Rightarrow> residue \<times> residue \<times> residue \<Rightarrow> bool" where
  "encodes s = (\<lambda>(x, y, z). length s = 32 \<and>
     le_int s = canonical (y * inverse_power z) + 2 ^ 255 * (canonical (x * inverse_power z) mod 2))"

lemma ge_tobytes_encodes: "p2_ok r \<Longrightarrow> succeeds (ge_tobytes r) (\<lambda>s. encodes s (p2_point r))"
  using encode_point_writes [of "X2 r" "Y2 r" "Z2 r"]
  by (simp add: ge_tobytes_def p2_ok_def encodes_def p2_point_def)

lemma ge_p3_tobytes_encodes: "p3_ok p \<Longrightarrow> succeeds (ge_p3_tobytes p) (\<lambda>s. encodes s (plane (p3_point p)))"
  using encode_point_writes [of "X3 p" "Y3 p" "Z3 p"]
  by (simp add: ge_p3_tobytes_def p3_ok_def encodes_def p3_point_def plane_def)

text \<open>An encoded linear combination.\<close>

definition encodes_combination :: "bytes \<Rightarrow> point list \<Rightarrow> int list \<Rightarrow> bool" where
  "encodes_combination s Ps ns \<longleftrightarrow> (\<exists>Q. on_curve Q \<and> combination Ps (coeffs ns) Q \<and> encodes s (plane Q))"

lemma ge_tobytes_combination:
  "p2_result Ps ns r \<Longrightarrow> succeeds (ge_tobytes r) (\<lambda>s. length s = 32 \<and> encodes_combination s Ps ns)"
  unfolding p2_result_def encodes_combination_def
  by (elim conjE exE, rule succeeds_weaken [OF ge_tobytes_encodes])
    (auto simp: encodes_def simp del: split_paired_Ex split: prod.splits)

lemma ge_tobytes_total: "p2_ok r \<Longrightarrow> succeeds (ge_tobytes r) (\<lambda>s. length s = 32)"
  by (rule succeeds_weaken [OF ge_tobytes_encodes]) (auto simp: encodes_def split: prod.splits)

lemma decoded_ok: "decodes_to s p \<Longrightarrow> p3_ok p \<and> on_curve (p3_point p)"
  by (simp add: decodes_to_def)

subsection \<open>Signing\<close>

text \<open>A nonce \<open>k\<close> and its point, as the loop makes them from 32 random bytes.\<close>

definition commitment :: "bytes \<Rightarrow> bytes option" where
  "commitment random = do { k \<leftarrow> random_scalar random; tmp3 \<leftarrow> ge_scalarmult_base k; ge_p3_tobytes tmp3 }"

text \<open>What the halves of a signature satisfy; \<open>c = 0\<close> is the case in which the loop tests a half it did not write.\<close>

definition signature_of :: "bytes \<Rightarrow> bytes \<Rightarrow> bytes \<Rightarrow> bytes list \<Rightarrow> bytes \<Rightarrow> bytes \<Rightarrow> bool" where
  "signature_of prefix_hash pub sec randoms c r \<longleftrightarrow> length c = 32 \<and> length r = 32 \<and> le_int r \<noteq> 0 \<and>
     (\<exists>random \<in> set randoms. \<exists>comm. commitment random = Some comm \<and> le_int c = hash_scalar (prefix_hash @ pub @ comm) \<and>
        (le_int c \<noteq> 0 \<longrightarrow> le_int r = (le_int random - le_int c * le_int sec) mod l25519))"

lemma signature_loop_total:
  assumes "length sec = 32"
  shows "\<forall>x \<in> set randoms. length x = 32 \<Longrightarrow> length r = 32 \<Longrightarrow>
    succeeds (signature_loop prefix_hash pub sec randoms r)
      (\<lambda>out. \<forall>c r'. out = Some (c, r') \<longrightarrow> signature_of prefix_hash pub sec randoms c r')"
proof (induction randoms arbitrary: r)
  case (Cons random randoms)
  obtain k where k: "random_scalar random = Some k" "length k = 32" "le_int k = le_int random mod l25519"
    using sc_reduce32_reduces [of random] Cons.prems by (auto simp: random_scalar_def elim: succeedsE)
  obtain p where p: "ge_scalarmult_base k = Some p" "p3_ok p" using ge_scalarmult_base_total [of k] by (auto elim: succeedsE)
  obtain comm where comm: "ge_p3_tobytes p = Some comm" using length_encoding [OF p(2)] by (auto elim: succeedsE)
  obtain c where c: "hash_to_scalar (prefix_hash @ pub @ comm) = Some c" "length c = 32" "le_int c = hash_scalar (prefix_hash @ pub @ comm)"
    using hash_to_scalar_value by (auto elim: succeedsE)
  have commit: "commitment random = Some comm" by (simp add: commitment_def k p comm)
  have r: "succeeds (if sc_isnonzero c = 0 then Some r else sc_mulsub c sec k)
      (\<lambda>r'. length r' = 32 \<and> (le_int c \<noteq> 0 \<longrightarrow> le_int r' = (le_int random - le_int c * le_int sec) mod l25519))"
    using sc_mulsub_computes [OF c(2) assms k(2)] Cons.prems(2)
    by (auto simp: sc_isnonzero_test succeeds_def k(3) mod_diff_left_eq)
  have later: "signature_of prefix_hash pub sec (random # randoms) c' r'" if "signature_of prefix_hash pub sec randoms c' r'" for c' r'
    using that by (auto simp: signature_of_def)
  show ?case
    unfolding signature_loop.simps k(1) p(1) comm c(1) bind.bind_lunit
  proof (rule succeeds_bind [OF r])
    fix r' assume r': "length r' = 32 \<and> (le_int c \<noteq> 0 \<longrightarrow> le_int r' = (le_int random - le_int c * le_int sec) mod l25519)"
    have "succeeds (signature_loop prefix_hash pub sec randoms r')
        (\<lambda>out. \<forall>c r'. out = Some (c, r') \<longrightarrow> signature_of prefix_hash pub sec (random # randoms) c r')"
      by (rule succeeds_weaken [OF Cons.IH]) (use Cons.prems(1) r' later in auto)
    moreover have "signature_of prefix_hash pub sec (random # randoms) c r'" if "le_int r' \<noteq> 0"
      using r' that commit c(2,3) by (auto simp: signature_of_def)
    ultimately show "succeeds (if sc_isnonzero r' = 0 then signature_loop prefix_hash pub sec randoms r' else Some (Some (c, r')))
        (\<lambda>out. \<forall>c r'. out = Some (c, r') \<longrightarrow> signature_of prefix_hash pub sec (random # randoms) c r')"
      by (simp add: sc_isnonzero_test)
  qed
qed simp



subsection \<open>Checking\<close>

lemma ge_frombytes_cases:
  assumes "length s = 32"
  obtains "ge_frombytes_vartime s = Some None"
  | p where "ge_frombytes_vartime s = Some (Some p)" "decodes_to s p" "p3_ok p" "on_curve (p3_point p)"
proof -
  obtain r where r: "ge_frombytes_vartime s = Some r" "case r of None \<Rightarrow> True | Some p \<Rightarrow> decodes_to s p"
    using ge_frombytes_decodes [OF assms] by (rule succeedsE)
  show thesis
  proof (cases r)
    case None
    with r(1) that(1) show thesis by simp
  next
    case (Some p)
    with r that(2) [of p] decoded_ok [of s p] show thesis by simp
  qed
qed

text \<open>What an accepted signature guarantees.\<close>

definition valid_signature :: "bytes \<Rightarrow> bytes \<Rightarrow> bytes \<Rightarrow> bytes \<Rightarrow> bool" where
  "valid_signature prefix_hash pub c r \<longleftrightarrow> (\<exists>A comm. ge_frombytes_vartime pub = Some (Some A) \<and> on_curve (p3_point A) \<and>
     le_int c \<noteq> 0 \<and> le_int c < l25519 \<and> le_int r < l25519 \<and>
     encodes_combination comm [p3_point A, base_point] [le_int c, le_int r] \<and> comm \<noteq> infinity \<and>
     hash_scalar (prefix_hash @ pub @ comm) = le_int c)"

lemma equal_residues:
  assumes "0 \<le> a" "a < l25519" "0 \<le> b" "b < l25519" "(a - b) mod l25519 = 0"
  shows "a = b"
proof -
  have "a mod l25519 = b mod l25519" using assms(5) by (simp add: mod_eq_dvd_iff dvd_eq_mod_eq_0)
  then show ?thesis using assms(1-4) by simp
qed

text \<open>
  C13. Checking a signature is total, and an accepted one is valid: the public key is a point of the curve
  in canonical form, both halves are canonical scalars, the first one not zero, and the first half is
  the hash of the message, the key and a combination \<open>c A + r B\<close> other than the neutral element.
\<close>

theorem checked_signature:
  assumes "length pub = 32" "length sig = 64"
  shows "\<exists>ok. check_signature prefix_hash pub sig = Some ok \<and>
    (ok \<longrightarrow> valid_signature prefix_hash pub (take 32 sig) (drop 32 sig))"
  using assms(1)
proof (cases rule: ge_frombytes_cases)
  case 1
  then have "check_signature prefix_hash pub sig = Some False" by (simp add: check_signature_def)
  then show ?thesis by blast
next
  case (2 A)
  let ?c = "take 32 sig" and ?r = "drop 32 sig"
  have len: "length ?c = 32" "length ?r = 32" using assms(2) by simp_all
  note test = sc_check_test [OF len(1)] sc_check_test [OF len(2)] sc_isnonzero_test
  show ?thesis
  proof (cases "le_int ?c < l25519 \<and> le_int ?r < l25519 \<and> le_int ?c \<noteq> 0")
    case False
    then have "check_signature prefix_hash pub sig = Some False"
      by (simp add: check_signature_def 2(1) test Let_def)
    then show ?thesis by blast
  next
    case True
    then have small: "le_int ?c < 2 ^ 255" "le_int ?r < 2 ^ 255" by (simp_all add: l25519_def)
    obtain tmp2 where tmp2: "ge_double_scalarmult_base_vartime ?c A ?r = Some tmp2"
        "p2_result [p3_point A, base_point] [le_int ?c, le_int ?r] tmp2"
      using base_vartime_result [OF 2(3,4) len(1) small(1) len(2) small(2)] by (rule succeedsE)
    obtain comm where comm: "ge_tobytes tmp2 = Some comm" "encodes_combination comm [p3_point A, base_point] [le_int ?c, le_int ?r]"
      using ge_tobytes_combination [OF tmp2(2)] by (auto elim: succeedsE)
    obtain h where h: "hash_to_scalar (prefix_hash @ pub @ comm) = Some h" "length h = 32" "le_int h = hash_scalar (prefix_hash @ pub @ comm)"
      using hash_to_scalar_value by (auto elim: succeedsE)
    obtain d where d: "sc_sub h ?c = Some d" "le_int d = (le_int h - le_int ?c) mod l25519"
      using sc_sub_subtracts [OF h(2) len(1)] by (auto elim: succeedsE)
    have "check_signature prefix_hash pub sig = Some (comm \<noteq> infinity \<and> le_int d = 0)"
      using True by (simp add: check_signature_def 2(1) test tmp2(1) comm(1) h(1) d(1))
    moreover have "valid_signature prefix_hash pub ?c ?r" if "comm \<noteq> infinity" "le_int d = 0"
    proof -
      have "(le_int h - le_int ?c) mod l25519 = 0" unfolding d(2) [symmetric] by (rule that(2))
      note equal_residues [OF _ _ _ _ this]
      moreover have "0 \<le> le_int h" "le_int h < l25519" unfolding h(3) by (rule hash_scalar_range)+
      moreover have "0 \<le> le_int ?c" "le_int ?c < l25519" using True by simp_all
      ultimately have "le_int h = le_int ?c" by blast
      then have "hash_scalar (prefix_hash @ pub @ comm) = le_int ?c" by (simp only: h(3))
      moreover have "le_int ?c < l25519" "le_int ?r < l25519" "le_int ?c \<noteq> 0" using True by blast+
      ultimately show ?thesis using 2(1,4) comm(2) that(1) unfolding valid_signature_def by (intro exI conjI)
    qed
    ultimately show ?thesis by blast
  qed
qed

lemma checked_signature_witness:
  "\<exists>ok. check_signature (replicate 32 0) (1 # replicate 31 0) (replicate 64 1) = Some ok \<and>
    (ok \<longrightarrow> valid_signature (replicate 32 0) (1 # replicate 31 0)
      (take 32 (replicate 64 1)) (drop 32 (replicate 64 1)))"
  by (rule checked_signature) simp_all

subsection \<open>Derived keys\<close>

lemma mul8_result:
  assumes "p2_result Ps ns r"
  shows "succeeds (do { t \<leftarrow> ge_mul8 r; ge_p1p1_to_p2 t }) (p2_result Ps (map ((*) 8) ns))"
proof -
  obtain Q where Q: "p2_ok r" "p2_point r = plane Q" "on_curve Q" "combination Ps (coeffs ns) Q"
    using assms by (auto simp: p2_result_def)
  let ?Q = "double_point (double_point (double_point Q))"
  have "combination Ps (\<lambda>j. 2 * (2 * (2 * coeffs ns j))) ?Q" by (intro combination.dbl Q(4))
  then have "combination Ps (coeffs (map ((*) 8) ns)) ?Q"
    by (rule combination_cong) (simp add: coeffs_def)
  moreover have "on_curve ?Q" using Q(3) on_curve_dbl by (simp add: double_point_def)
  ultimately show ?thesis
    by (intro succeeds_bind [OF ge_mul8_doubles [OF Q(1,2)]] succeeds_weaken [OF ge_p1p1_to_p2_extends])
      (auto simp: p2_result_def simp del: split_paired_Ex)
qed



text \<open>
  A secret key has a public key exactly when it is a canonical scalar, and key generation always
  returns such a key with its public key.
\<close>

theorem generated_keys:
  assumes "length sec = 32" "length random = 32"
  shows "(\<exists>pub. secret_key_to_public_key sec = Some pub \<and> (pub = None \<longleftrightarrow> \<not> le_int sec < l25519)) \<and>
    (\<exists>pub sec'. generate_keys random = Some (pub, sec') \<and> length pub = 32 \<and> le_int sec' = le_int random mod l25519 \<and>
      secret_key_to_public_key sec' = Some (Some pub))"
proof -
  have public: "\<exists>p pub. ge_scalarmult_base s = Some p \<and> ge_p3_tobytes p = Some pub \<and> length pub = 32" for s
    using ge_scalarmult_base_total [of s] length_encoding by (auto simp: succeeds_def)
  obtain s where s: "sc_reduce32 random = Some s" "length s = 32" "le_int s = le_int random mod l25519"
    using sc_reduce32_reduces [OF assms(2)] by (auto elim: succeedsE)
  have "le_int s < l25519" using s(3) l25519_range by simp
  then show ?thesis
    using public [of sec] public [of s] s sc_check_test [OF assms(1)] sc_check_test [OF s(2)]
    by (auto simp: secret_key_to_public_key_def generate_keys_def random_scalar_def)
qed

lemma generated_keys_witness:
  "\<exists>pub sec'. generate_keys (replicate 32 255) = Some (pub, sec') \<and> le_int sec' = le_int (replicate 32 255) mod l25519 \<and>
      secret_key_to_public_key sec' = Some (Some pub)"
  using generated_keys [of "replicate 32 0" "replicate 32 255"] by (simp only: length_replicate) blast

text \<open>\<open>derive_public_key\<close> is total as well.\<close>

lemma derive_public_key_total:
  assumes "length base = 32"
  shows "succeeds (derive_public_key d i base) (\<lambda>out. out = None \<longleftrightarrow> ge_frombytes_vartime base = Some None)"
  using assms
proof (cases rule: ge_frombytes_cases)
  case 1
  then show ?thesis by (simp add: derive_public_key_def)
next
  case (2 A)
  obtain s where s: "derivation_to_scalar d i = Some s" using derivation_to_scalar_value [of d i] by (auto elim: succeedsE)
  obtain p where p: "ge_scalarmult_base s = Some p" "p3_ok p" using ge_scalarmult_base_total [of s] by (auto elim: succeedsE)
  show ?thesis
    unfolding derive_public_key_def 2(1) s p(1) bind.bind_lunit option.case
    apply (rule succeeds_bind [OF ge_p3_to_cached_caches [OF p(2)]])
    apply (rule succeeds_bind [OF ge_add_adds [OF 2(3)]], assumption)
    apply (rule succeeds_bind [OF ge_p1p1_to_p2_extends], blast)
    by (rule succeeds_bind [OF ge_tobytes_total]) simp_all
qed

end
