(* ===== verification/HashToPoint.thy ===== *)
theory HashToPoint
  imports PointCodec
begin

text \<open>
  \<^verbatim>\<open>ge_fromfe_frombytes_vartime\<close> of \<^verbatim>\<open>base/tools/cryptonote/crypto-ops.c\<close>, which maps 32 bytes to a point of
  the curve, as compiled without assertions.
\<close>

definition fe_ma2 :: fe where "fe_ma2 = [-12721188, -3529, 0, 0, 0, 0, 0, 0, 0, 0]"

definition fe_ma :: fe where "fe_ma = [-486662, 0, 0, 0, 0, 0, 0, 0, 0, 0]"

definition fe_fffb1 :: fe where
  "fe_fffb1 = [-31702527, -2466483, -26106795, -12203692, -12169197, -321052, 14850977, -10296299, -16929438, -407568]"

definition fe_fffb2 :: fe where
  "fe_fffb2 = [8166131, -6741800, -17040804, 3154616, 21461005, 1466302, -30876704, -6368709, 10503587, -13363080]"

definition fe_fffb3 :: fe where
  "fe_fffb3 = [-13620103, 14639558, 4532995, 7679154, 16815101, -15883539, -22863840, -14813421, 13716513, -6477756]"

definition fe_fffb4 :: fe where
  "fe_fffb4 = [-21786234, -12173074, 21573800, 4524538, -4645904, 16204591, 8012863, -8444712, 3212926, 6885324]"

definition ge_p3_H :: ge_p3 where
  "ge_p3_H = \<lparr>
     X3 = [7329926, -15101362, 31411471, 7614783, 27996851, -3197071, -11157635, -6878293, 466949, -7986503],
     Y3 = [5858699, 5096796, 21321203, -7536921, -5553480, -11439507, -5627669, 15045946, 19977121, 5275251],
     Z3 = [1, 0, 0, 0, 0, 0, 0, 0, 0, 0],
     T3 = [23443568, -5110398, -8776029, -4345135, 6889568, -14710814, 7474843, 3279062, 14550766, -7453428] \<rparr>"

text \<open>
  The two tests on the candidate root and the factor it is corrected by, with the value of \<open>z\<close> and the
  sign for the label \<^verbatim>\<open>setsign\<close>; the inner branch with \<open>sqrt(-1)\<close> is the code at the label \<^verbatim>\<open>negative\<close>.
\<close>

definition root_times_u :: "fe \<Rightarrow> fe \<Rightarrow> fe \<Rightarrow> (fe \<times> fe \<times> int) option" where
  "root_times_u rX u v = do { rX \<leftarrow> fe_mul rX u; z \<leftarrow> fe_mul (fe_copy fe_ma) v; Some (rX, z, 0) }"

definition root_correction :: "fe \<Rightarrow> fe \<Rightarrow> fe \<Rightarrow> fe \<Rightarrow> fe \<Rightarrow> (fe \<times> fe \<times> int) option" where
  "root_correction rX x w u v = do {
     y \<leftarrow> fe_sub w x;
     nz \<leftarrow> fe_isnonzero y;
     if nz \<noteq> 0 then do {
       y \<leftarrow> fe_add w x;
       nz \<leftarrow> fe_isnonzero y;
       if nz \<noteq> 0 then do {
         x \<leftarrow> fe_mul x fe_sqrtm1;
         y \<leftarrow> fe_sub w x;
         nz \<leftarrow> fe_isnonzero y;
         rX \<leftarrow> (if nz \<noteq> 0 then fe_mul rX fe_fffb3 else fe_mul rX fe_fffb4);
         Some (rX, fe_copy fe_ma, 1) }
       else do { rX \<leftarrow> fe_mul rX fe_fffb1; root_times_u rX u v } }
     else do { rX \<leftarrow> fe_mul rX fe_fffb2; root_times_u rX u v } }"

definition ge_fromfe_frombytes_vartime :: "bytes \<Rightarrow> ge_p2 option" where
  "ge_fromfe_frombytes_vartime s = do {
     h \<leftarrow> fe_load False s;
     u \<leftarrow> fe_normal h;
     v \<leftarrow> fe_sq2 u;
     let w = fe_1;
     w \<leftarrow> fe_add v w;
     x \<leftarrow> fe_sq w;
     y \<leftarrow> fe_mul fe_ma2 v;
     x \<leftarrow> fe_add x y;
     rX \<leftarrow> fe_divpowm1 w x;
     y \<leftarrow> fe_sq rX;
     x \<leftarrow> fe_mul y x;
     (rX, z, sign) \<leftarrow> root_correction rX x w u v;
     n \<leftarrow> fe_isnegative rX;
     rX \<leftarrow> (if n \<noteq> sign then fe_neg rX else Some rX);
     rZ \<leftarrow> fe_add z w;
     rY \<leftarrow> fe_sub z w;
     rX \<leftarrow> fe_mul rX rZ;
     Some \<lparr> X2 = rX, Y2 = rY, Z2 = rZ \<rparr> }"

subsection \<open>The constants\<close>

lemma fe_ma_tight: "fe_tight fe_ma" "fe_tight fe_ma2" "fe_tight fe_fffb1" "fe_tight fe_fffb2" "fe_tight fe_fffb3" "fe_tight fe_fffb4"
  by (simp_all add: fe_tight_def fe_ma_def fe_ma2_def fe_fffb1_def fe_fffb2_def fe_fffb3_def fe_fffb4_def)

lemma tight_plus_one:
  assumes "fe_tight v"
  shows "succeeds (fe_add v fe_1) (\<lambda>w. fe_bound 33890960 16945480 w \<and> fe_res w = fe_res v + 1)"
proof -
  have one: "fe_bound 1 1 fe_1" by (simp add: fe_1_def)
  show ?thesis
    by (rule succeeds_weaken [OF fe_add_sums [OF tight_bound [OF assms] one]]) (auto simp: INT32_def)
qed

lemma fe_sub_w:
  "fe_bound 33890960 16945480 w \<Longrightarrow> fe_tight x \<Longrightarrow> succeeds (fe_sub w x) (\<lambda>y. fe_plain y \<and> fe_res y = fe_res w - fe_res x)"
  by (rule succeeds_weaken [OF fe_sub_subtracts [OF _ tight_bound]]) (auto simp: INT32_def intro: plain_bound)

lemma fe_add_w:
  "fe_bound 33890960 16945480 w \<Longrightarrow> fe_tight x \<Longrightarrow> succeeds (fe_add w x) (\<lambda>y. fe_plain y \<and> fe_res y = fe_res w + fe_res x)"
  by (rule succeeds_weaken [OF fe_add_sums [OF _ tight_bound]]) (auto simp: INT32_def intro: plain_bound)

subsection \<open>Totality\<close>

text \<open>Every buffer is mapped to coordinates that can be encoded and multiplied.\<close>

lemma root_times_u_total:
  assumes "fe_tight rX" "fe_tight u" "fe_tight v"
  shows "succeeds (root_times_u rX u v) (\<lambda>(rX, z, sign). fe_tight rX \<and> fe_tight z)"
  unfolding root_times_u_def fe_copy_def
  by (intro fe_steps) (simp_all add: assms tight_loose fe_ma_tight)

lemma root_correction_total:
  assumes "fe_tight rX" "fe_tight x" "fe_bound 33890960 16945480 w" "fe_tight u" "fe_tight v"
  shows "succeeds (root_correction rX x w u v) (\<lambda>(rX, z, sign). fe_tight rX \<and> fe_tight z)"
proof -
  have test: "fe_plain y \<Longrightarrow> fe_isnonzero y = Some (of_bool (fe_res y \<noteq> 0))" for y by (rule fe_isnonzero_test)
  have mul: "succeeds (do { rX \<leftarrow> fe_mul rX c; root_times_u rX u v }) (\<lambda>(rX, z, sign). fe_tight rX \<and> fe_tight z)"
    if "fe_tight c" for c
    by (rule succeeds_bind [OF fe_mul_multiplies]) (use assms that root_times_u_total in \<open>simp_all add: tight_loose\<close>)
  have neg: "succeeds (do { rX \<leftarrow> fe_mul rX c; Some (rX, fe_copy fe_ma, 1 :: int) }) (\<lambda>(rX, z, sign). fe_tight rX \<and> fe_tight z)"
    if "fe_tight c" for c
    by (rule succeeds_bind [OF fe_mul_multiplies]) (use assms that in \<open>simp_all add: tight_loose fe_copy_def fe_ma_tight\<close>)
  have negative: "succeeds (do { x \<leftarrow> fe_mul x fe_sqrtm1; y \<leftarrow> fe_sub w x; nz \<leftarrow> fe_isnonzero y;
      rX \<leftarrow> (if nz \<noteq> 0 then fe_mul rX fe_fffb3 else fe_mul rX fe_fffb4); Some (rX, fe_copy fe_ma, 1 :: int) })
      (\<lambda>(rX, z, sign). fe_tight rX \<and> fe_tight z)"
    apply (rule succeeds_bind [OF fe_mul_multiplies], simp add: assms tight_loose, simp add: fe_d_tight tight_loose)
    apply (rule succeeds_bind [OF fe_sub_w [OF assms(3)]], simp)
    using neg [OF fe_ma_tight(5)] neg [OF fe_ma_tight(6)] by (simp add: test)
  show ?thesis
    unfolding root_correction_def
    apply (rule succeeds_bind [OF fe_sub_w [OF assms(3,2)]])
    apply (simp add: test mul fe_ma_tight)
    apply (intro conjI impI succeeds_bind [OF fe_add_w [OF assms(3,2)]])
    using negative mul [OF fe_ma_tight(3)] mul [OF fe_ma_tight(4)] by (simp_all add: test)
qed

lemma ge_fromfe_frombytes_vartime_total:
  assumes "length s = 32"
  shows "succeeds (ge_fromfe_frombytes_vartime s) (\<lambda>r. fe_tight (X2 r) \<and> fe_loose (Y2 r) \<and> fe_loose (Z2 r))"
proof -
  obtain h where h: "fe_load False s = Some h" "limbs_in h (load_intervals False)"
    using fe_load_value [OF assms, of False] by (auto elim: succeedsE)
  have neg: "succeeds (if b then fe_neg f else Some f) fe_tight" if "fe_tight f" for b f
    using that unfolding fe_tight_def
    by (cases b) (auto intro!: succeeds_weaken [OF fe_neg_negates] simp: INT32_def)
  have add: "succeeds (fe_add z w) fe_loose" if "fe_tight z" "fe_bound 33890960 16945480 w" for z w
    by (rule succeeds_weaken [OF fe_add_sums [OF tight_bound [OF that(1)] that(2)]]) (auto simp: INT32_def intro: loose_bound)
  have sub: "succeeds (fe_sub z w) fe_loose" if "fe_tight z" "fe_bound 33890960 16945480 w" for z w
    by (rule succeeds_weaken [OF fe_sub_subtracts [OF tight_bound [OF that(1)] that(2)]]) (auto simp: INT32_def intro: loose_bound)
  have loose: "fe_bound 33890960 16945480 w \<Longrightarrow> fe_loose w" for w by (erule loose_bound) simp_all
  show ?thesis
    unfolding ge_fromfe_frombytes_vartime_def h(1) bind.bind_lunit Let_def
    apply (rule succeeds_bind [OF fe_normal_keeps [OF h(2)]])
    apply (rule succeeds_bind [OF fe_sq2_doubles], simp add: tight_loose)
    apply (rule succeeds_bind [OF tight_plus_one], simp)
    apply (rule succeeds_bind [OF fe_sq_squares], simp add: loose)
    apply (rule succeeds_bind [OF fe_mul_multiplies], simp add: tight_loose fe_ma_tight, simp add: tight_loose)
    apply (rule succeeds_bind [OF fe_add_tight], simp, simp)
    apply (rule succeeds_bind [OF fe_divpowm1_power], simp add: loose, simp)
    apply (rule succeeds_bind [OF fe_sq_squares], simp add: tight_loose)
    apply (rule succeeds_bind [OF fe_mul_multiplies], simp add: tight_loose, simp)
    apply (rule succeeds_bind [OF root_correction_total], simp, simp, simp, simp, simp)
    apply (simp only: case_prod_beta, elim conjE)
    apply (subst fe_isnegative_canonical, simp add: tight_plain, simp only: bind.bind_lunit)
    apply (rule succeeds_bind [OF neg], assumption)
    apply (rule succeeds_bind [OF add], simp, simp)
    apply (rule succeeds_bind [OF sub], simp, simp)
    by (rule succeeds_bind [OF fe_mul_multiplies]) (simp_all add: tight_loose)
qed

end
