(* ===== verification/LineReader.thy ===== *)
theory LineReader
  imports Prelude
begin

text \<open>
  \<^verbatim>\<open>base/net/tools/LineReader.h\<close> and \<^verbatim>\<open>LineReader.cpp\<close>: the lines of the JSON-RPC stream of a pool,
  collected from the pieces in which the network delivers it. A line that arrives in one piece is
  handed on from the piece itself, any other is put together in a buffer of fixed size.
\<close>

subsection \<open>The reader\<close>

definition CHUNK_SIZE :: nat where "CHUNK_SIZE = 64 * 1024"

record line_reader =
  m_buf :: "bytes option"
  m_pos :: nat

definition new_line_reader :: line_reader where
  "new_line_reader = \<lparr> m_buf = None, m_pos = 0 \<rparr>"

definition lr_reset :: "line_reader \<Rightarrow> line_reader" where
  "lr_reset r = (if m_buf r \<noteq> None then \<lparr> m_buf = None, m_pos = 0 \<rparr> else r)"

text \<open>
  \<open>fresh\<close> is what \<^verbatim>\<open>NetBuffer::allocate\<close> returns, memory of the size of a chunk with arbitrary
  contents. \<open>None\<close> is a copy outside the buffer.
\<close>

definition lr_add :: "bytes \<Rightarrow> bytes \<Rightarrow> line_reader \<Rightarrow> line_reader option" where
  "lr_add fresh data r =
     (if length data + m_pos r > CHUNK_SIZE then Some r
      else do {
        let r = (case m_buf r of None \<Rightarrow> \<lparr> m_buf = Some fresh, m_pos = 0 \<rparr> | Some b \<Rightarrow> r);
        b \<leftarrow> m_buf r;
        b \<leftarrow> put_bytes b (m_pos r) data;
        Some \<lparr> m_buf = Some b, m_pos = m_pos r + length data \<rparr> })"

definition memchr :: "u8 \<Rightarrow> bytes \<Rightarrow> nat option" where
  "memchr c s = (if c \<in> set s then Some (length (takeWhile (\<lambda>x. x \<noteq> c) s)) else None)"

lemma memchr_less: "memchr c s = Some i \<Longrightarrow> i < length s"
proof -
  have "c \<in> set s \<Longrightarrow> length (takeWhile (\<lambda>x. x \<noteq> c) s) < length s" by (induction s) auto
  then show "memchr c s = Some i \<Longrightarrow> i < length s" by (auto simp: memchr_def split: if_splits)
qed

text \<open>\<open>m_listener->onLine(m_buf, m_pos - 1)\<close>: the line that the listener sees.\<close>

definition buffered_line :: "line_reader \<Rightarrow> bytes option" where
  "buffered_line r = do { b \<leftarrow> m_buf r; get_bytes b 0 (m_pos r - 1) }"

text \<open>One turn of the loop: the line that ends with the new-line at \<open>i\<close>, now a zero byte.\<close>

definition lr_line :: "bytes \<Rightarrow> bytes \<Rightarrow> nat \<Rightarrow> line_reader \<Rightarrow> (bytes list \<times> line_reader) option" where
  "lr_line fresh data i r =
     (let start = take i data @ [0]; len = i + 1 in
      if m_pos r \<noteq> 0 then do {
        r \<leftarrow> lr_add fresh start r;
        line \<leftarrow> buffered_line r;
        Some ([line], r\<lparr> m_pos := 0 \<rparr>) }
      else if len > 1 then Some ([take (len - 1) start], r)
      else Some ([], r))"

function lr_getline :: "bytes \<Rightarrow> bytes \<Rightarrow> line_reader \<Rightarrow> (bytes list \<times> line_reader) option" where
  "lr_getline fresh data r =
     (case memchr 10 data of
        Some i \<Rightarrow> do {
          (ls, r) \<leftarrow> lr_line fresh data i r;
          (ls', r) \<leftarrow> lr_getline fresh (drop (i + 1) data) r;
          Some (ls @ ls', r) }
      | None \<Rightarrow>
          if data = [] then Some ([], lr_reset r)
          else do { r \<leftarrow> lr_add fresh data r; Some ([], r) })"
  by pat_completeness auto
termination
  by (relation "measure (\<lambda>(f, d, r). length d)") (auto dest: memchr_less)

declare lr_getline.simps [simp del]

definition lr_parse :: "bytes \<Rightarrow> bytes \<Rightarrow> line_reader \<Rightarrow> (bytes list \<times> line_reader) option" where
  "lr_parse fresh data r = (if data = [] then Some ([], r) else lr_getline fresh data r)"

text \<open>A sequence of pieces.\<close>

primrec lr_run :: "bytes \<Rightarrow> bytes list \<Rightarrow> line_reader \<Rightarrow> (bytes list \<times> line_reader) option" where
  "lr_run fresh [] r = Some ([], r)"
| "lr_run fresh (d # ds) r = do {
     (ls, r) \<leftarrow> lr_parse fresh d r;
     (ls', r) \<leftarrow> lr_run fresh ds r;
     Some (ls @ ls', r) }"

subsection \<open>The specification: lines of a stream\<close>

text \<open>The non-empty lines of a stream after the text \<open>p\<close> of an unfinished line, and the text left over.\<close>

primrec feed :: "bytes \<Rightarrow> bytes \<Rightarrow> bytes list \<times> bytes" where
  "feed p [] = ([], p)"
| "feed p (c # s) =
     (if c = 10 then (case feed [] s of (ls, q) \<Rightarrow> (if p = [] then ls else p # ls, q))
      else feed (p @ [c]) s)"

text \<open>No line is longer than the buffer.\<close>

primrec short_lines :: "bytes \<Rightarrow> bytes \<Rightarrow> bool" where
  "short_lines p [] = (length p \<le> CHUNK_SIZE)"
| "short_lines p (c # s) =
     (if c = 10 then length p < CHUNK_SIZE \<and> short_lines [] s else short_lines (p @ [c]) s)"

lemma feed_append:
  "feed p (s @ t) = (case feed p s of (ls, q) \<Rightarrow> case feed q t of (ls', q') \<Rightarrow> (ls @ ls', q'))"
  by (induction s arbitrary: p) (auto split: prod.splits)

lemma short_lines_append: "short_lines p (s @ t) \<Longrightarrow> short_lines (snd (feed p s)) t"
  by (induction s arbitrary: p) (auto simp: case_prod_beta split: if_splits)

lemma short_lines_prefix: "short_lines p (s @ t) \<Longrightarrow> short_lines p s"
proof (induction s arbitrary: p)
  case Nil
  have "short_lines p t \<Longrightarrow> length p \<le> CHUNK_SIZE"
  proof (induction t arbitrary: p)
    case (Cons c t)
    then show ?case using Cons.IH [of "p @ [c]"] by (auto split: if_splits)
  qed simp
  then show ?case using Nil by simp
qed (auto split: if_splits)

lemma feed_plain: "10 \<notin> set s \<Longrightarrow> feed p s = ([], p @ s)"
  by (induction s arbitrary: p) auto

lemma short_plain: "10 \<notin> set s \<Longrightarrow> short_lines p s \<longleftrightarrow> length p + length s \<le> CHUNK_SIZE"
  by (induction s arbitrary: p) auto

subsection \<open>The reader implements it\<close>

definition lr_ok :: "line_reader \<Rightarrow> bool" where
  "lr_ok r \<longleftrightarrow> (case m_buf r of None \<Rightarrow> m_pos r = 0 | Some b \<Rightarrow> length b = CHUNK_SIZE \<and> m_pos r \<le> CHUNK_SIZE)"

definition pending :: "line_reader \<Rightarrow> bytes" where
  "pending r = (case m_buf r of None \<Rightarrow> [] | Some b \<Rightarrow> take (m_pos r) b)"

lemma pending_length: "lr_ok r \<Longrightarrow> length (pending r) = m_pos r"
  by (auto simp: lr_ok_def pending_def split: option.splits)

lemma lr_add_appends:
  assumes "lr_ok r" "length fresh = CHUNK_SIZE" "length data + m_pos r \<le> CHUNK_SIZE"
  shows "\<exists>r'. lr_add fresh data r = Some r' \<and> lr_ok r' \<and> m_buf r' \<noteq> None \<and> pending r' = pending r @ data"
  using assms
  by (auto simp: lr_add_def lr_ok_def pending_def put_bytes_def split: option.splits)

lemma lr_add_too_long: "length data + m_pos r > CHUNK_SIZE \<Longrightarrow> lr_add fresh data r = Some r"
  by (simp add: lr_add_def)

lemma memchr_split:
  assumes "memchr 10 data = Some i"
  shows "10 \<notin> set (take i data)" "data = take i data @ 10 # drop (i + 1) data"
proof -
  have i: "i = length (takeWhile (\<lambda>x. x \<noteq> 10) data)" and mem: "10 \<in> set data"
    using assms by (auto simp: memchr_def split: if_splits)
  have take: "take i data = takeWhile (\<lambda>x. x \<noteq> 10) data" by (simp add: i takeWhile_eq_take [symmetric])
  show "10 \<notin> set (take i data)" unfolding take by (auto dest: set_takeWhileD)
  have "i < length data" using memchr_less [OF assms] .
  moreover have "data ! i = 10" using nth_length_takeWhile [of "\<lambda>x. x \<noteq> 10" data] \<open>i < length data\<close> i by auto
  ultimately show "data = take i data @ 10 # drop (i + 1) data" using id_take_nth_drop [of i data] by simp
qed

lemma lr_getline_feeds:
  "lr_ok r \<Longrightarrow> length fresh = CHUNK_SIZE \<Longrightarrow> short_lines (pending r) data \<Longrightarrow> data = [] \<longrightarrow> m_pos r = 0 \<Longrightarrow>
    \<exists>ls r'. lr_getline fresh data r = Some (ls, r') \<and> lr_ok r' \<and> feed (pending r) data = (ls, pending r')"
proof (induction "length data" arbitrary: data r rule: less_induct)
  case less
  show ?case
  proof (cases "memchr 10 data")
    case None
    then have plain: "10 \<notin> set data" by (auto simp: memchr_def split: if_splits)
    show ?thesis
    proof (cases "data = []")
      case True
      have "lr_ok (lr_reset r)" "pending (lr_reset r) = []" "pending r = []"
        using less.prems(1,4) True by (auto simp: lr_reset_def lr_ok_def pending_def split: option.splits)
      moreover have "lr_getline fresh [] r = Some ([], lr_reset r)" using None True by (subst lr_getline.simps) simp
      ultimately show ?thesis using True by simp
    next
      case False
      have "length data + m_pos r \<le> CHUNK_SIZE"
        using less.prems(1,3) plain pending_length [of r] by (simp add: short_plain)
      then show ?thesis
        using lr_add_appends [OF less.prems(1,2)] None False feed_plain [OF plain]
        by (fastforce simp: lr_getline.simps [of fresh data])
    qed
  next
    case (Some i)
    note split = memchr_split [OF Some]
    let ?s = "take i data" and ?t = "drop (i + 1) data"
    have len: "length ?s = i" "length ?t < length data" using memchr_less [OF Some] by auto
    have short: "length (pending r) + i < CHUNK_SIZE" "short_lines [] ?t"
    proof -
      have s: "short_lines (pending r) (?s @ 10 # ?t)" using less.prems(3) split(2) by simp
      from short_lines_append [OF s] show "length (pending r) + i < CHUNK_SIZE" "short_lines [] ?t"
        using len by (simp_all add: feed_plain [OF split(1)])
    qed
    have fed: "feed (pending r) data = (case feed [] ?t of (ls, q) \<Rightarrow> (if pending r @ ?s = [] then ls else (pending r @ ?s) # ls, q))"
      by (subst split(2), subst feed_append) (simp add: feed_plain [OF split(1)] split: prod.splits)
    have "\<exists>r'. lr_line fresh data i r = Some (if pending r @ ?s = [] then [] else [pending r @ ?s], r') \<and> lr_ok r' \<and> m_pos r' = 0"
    proof (cases "m_pos r = 0")
      case True
      then have "pending r = []" using pending_length [OF less.prems(1)] by simp
      moreover have "take i data = [] \<longleftrightarrow> i = 0" using len(1) by (metis length_0_conv)
      ultimately show ?thesis using True less.prems(1) len(1) by (simp add: lr_line_def)
    next
      case False
      then have "pending r \<noteq> []" using pending_length [OF less.prems(1)] by auto
      obtain q where q: "lr_add fresh (?s @ [0]) r = Some q" "lr_ok q" "m_buf q \<noteq> None" "pending q = pending r @ ?s @ [0]"
        using lr_add_appends [OF less.prems(1,2), of "?s @ [0]"] short(1) len(1) pending_length [OF less.prems(1)] by auto
      then obtain b where b: "m_buf q = Some b" "length b = CHUNK_SIZE" "m_pos q \<le> CHUNK_SIZE" "take (m_pos q) b = pending r @ ?s @ [0]"
        by (auto simp: lr_ok_def pending_def)
      then have pos: "m_pos q = length (pending r @ ?s) + 1" using pending_length [OF q(2)] q(4) by simp
      have "take (m_pos q - 1) b = take (m_pos q - 1) (take (m_pos q) b)" by simp
      also have "\<dots> = pending r @ ?s" by (subst b(4)) (simp add: pos len(1) del: length_take)
      finally have "take (m_pos q - 1) b = pending r @ ?s" .
      moreover have "0 + (m_pos q - 1) \<le> length b" using b(2,3) by simp
      ultimately have "buffered_line q = Some (pending r @ ?s)"
        by (simp only: buffered_line_def get_bytes_def b(1) bind.bind_lunit if_True drop_0)
      moreover have "lr_ok (q\<lparr> m_pos := 0 \<rparr>)" using b by (simp add: lr_ok_def)
      ultimately show ?thesis using False q(1) \<open>pending r \<noteq> []\<close> by (simp add: lr_line_def)
    qed
    then obtain r' where r': "lr_line fresh data i r = Some (if pending r @ ?s = [] then [] else [pending r @ ?s], r')" "lr_ok r'" "m_pos r' = 0"
      by blast
    then have "pending r' = []" using pending_length [OF r'(2)] by simp
    then show ?thesis
      using less.hyps [OF len(2) r'(2) less.prems(2)] short(2) r' fed Some
      by (fastforce simp: lr_getline.simps [of fresh data] split: prod.splits)
  qed
qed

lemma lr_run_feeds:
  "lr_ok r \<Longrightarrow> length fresh = CHUNK_SIZE \<Longrightarrow> short_lines (pending r) (concat ds) \<Longrightarrow>
    \<exists>ls r'. lr_run fresh ds r = Some (ls, r') \<and> lr_ok r' \<and> feed (pending r) (concat ds) = (ls, pending r')"
proof (induction ds arbitrary: r)
  case (Cons d ds)
  have "\<exists>ls r'. lr_parse fresh d r = Some (ls, r') \<and> lr_ok r' \<and> feed (pending r) d = (ls, pending r')"
    using lr_getline_feeds [OF Cons.prems(1,2), of d] short_lines_prefix [of "pending r" d "concat ds"] Cons.prems
    by (cases "d = []") (simp_all add: lr_parse_def)
  then obtain ls r' where r': "lr_parse fresh d r = Some (ls, r')" "lr_ok r'" "feed (pending r) d = (ls, pending r')" by blast
  have "short_lines (pending r') (concat ds)"
    using short_lines_append [of "pending r" d "concat ds"] Cons.prems(3) r'(3) by simp
  then obtain ls' q where "lr_run fresh ds r' = Some (ls', q)" "lr_ok q" "feed (pending r') (concat ds) = (ls', pending q)"
    using Cons.IH [OF r'(2) Cons.prems(2)] by blast
  then show ?case using r' by (simp add: feed_append)
qed simp

subsection \<open>Properties\<close>

text \<open>
  C19. However the network cuts the stream into pieces, the reader hands on exactly the non-empty lines
  of the stream and keeps the unfinished one, without leaving its buffer, as long as no line is longer
  than the buffer.
\<close>

theorem line_reader_refines_stream:
  assumes "length fresh = CHUNK_SIZE" "short_lines [] (concat pieces)"
  shows "\<exists>r. lr_run fresh pieces new_line_reader = Some (fst (feed [] (concat pieces)), r) \<and>
    pending r = snd (feed [] (concat pieces))"
  using lr_run_feeds [of new_line_reader fresh pieces] assms
  by (auto simp: new_line_reader_def lr_ok_def pending_def)

lemma line_reader_refines_stream_witness:
  "\<exists>r. lr_run (replicate CHUNK_SIZE 0) [[65, 66], [67, 10, 10, 68], [69, 10, 70]] new_line_reader =
      Some ([[65, 66, 67], [68, 69]], r) \<and> pending r = [70]"
proof -
  have "short_lines [] (concat [[65, 66], [67, 10, 10, 68], [69, 10, 70]])" by (simp add: CHUNK_SIZE_def)
  from line_reader_refines_stream [OF _ this, of "replicate CHUNK_SIZE 0"] show ?thesis by simp
qed

text \<open>
  A line that does not fit is not dropped: when its last piece exceeds the buffer, the listener gets
  what was collected of it before, without its last byte.
\<close>

theorem overlong_line_truncated:
  assumes "lr_ok r" "m_pos r \<noteq> 0" "memchr 10 data = Some i" "CHUNK_SIZE < m_pos r + i + 1"
  shows "lr_line fresh data i r = Some ([butlast (pending r)], r\<lparr> m_pos := 0 \<rparr>)"
proof -
  have "length (take i data) = i" using memchr_less [OF assms(3)] by simp
  then have add: "lr_add fresh (take i data @ [0]) r = Some r" using assms(4) by (intro lr_add_too_long) simp
  obtain b where b: "m_buf r = Some b" "length b = CHUNK_SIZE" "m_pos r \<le> CHUNK_SIZE"
    using assms(1,2) by (auto simp: lr_ok_def split: option.splits)
  then have "buffered_line r = Some (butlast (pending r))"
    by (simp add: buffered_line_def get_bytes_def pending_def butlast_take)
  then show ?thesis using assms(2) add by (simp add: lr_line_def)
qed

lemma overlong_line_truncated_witness:
  "lr_line [] (replicate CHUNK_SIZE 65 @ [10]) CHUNK_SIZE \<lparr> m_buf = Some (replicate CHUNK_SIZE 66), m_pos = 2 \<rparr> =
     Some ([[66]], \<lparr> m_buf = Some (replicate CHUNK_SIZE 66), m_pos = 0 \<rparr>)"
proof -
  let ?r = "\<lparr> m_buf = Some (replicate CHUNK_SIZE 66), m_pos = 2 \<rparr> :: line_reader"
  have "takeWhile (\<lambda>x. x \<noteq> 10) (replicate CHUNK_SIZE 65 @ [10 :: u8]) = replicate CHUNK_SIZE 65"
    by (subst takeWhile_append2) simp_all
  then have "memchr 10 (replicate CHUNK_SIZE 65 @ [10]) = Some CHUNK_SIZE" by (simp add: memchr_def)
  moreover have "2 \<le> CHUNK_SIZE" by (simp add: CHUNK_SIZE_def)
  moreover from this have "lr_ok ?r" by (simp add: lr_ok_def)
  moreover have "pending ?r = [66, 66]"
    using \<open>2 \<le> CHUNK_SIZE\<close> by (simp add: pending_def take_replicate min_absorb1) (simp add: numeral_2_eq_2)
  ultimately show ?thesis using overlong_line_truncated [of ?r _ CHUNK_SIZE] by simp
qed

end
