(* ===== verification/WalletAddress.thy ===== *)
theory WalletAddress
  imports BlockTemplate
begin

text \<open>
  Wallet addresses, \<^verbatim>\<open>base/tools/cryptonote/WalletAddress.h\<close> and \<^verbatim>\<open>WalletAddress.cpp\<close>: the Base58 text of
  a tag, two public keys and a checksum. The outer option of a result is \<open>None\<close> where C reads outside
  an array or shifts too far, the inner one the return value false.
\<close>

subsection \<open>Networks and tags\<close>

datatype net = MAINNET | TESTNET | STAGENET

datatype address_type = PUBLIC | INTEGRATED | SUBADDRESS

record tag_info =
  ti_coin :: coin
  ti_net :: net
  ti_type :: address_type
  ti_rpcPort :: u16
  ti_zmqPort :: u16

definition tag_info :: "coin \<Rightarrow> net \<Rightarrow> address_type \<Rightarrow> u16 \<Rightarrow> u16 \<Rightarrow> tag_info" where
  "tag_info c n t rpc zmq = \<lparr> ti_coin = c, ti_net = n, ti_type = t, ti_rpcPort = rpc, ti_zmqPort = zmq \<rparr>"

definition tags :: "(u64 \<times> tag_info) list" where
  "tags = [
    (0x12, tag_info MONERO MAINNET PUBLIC 18081 18082),
    (0x13, tag_info MONERO MAINNET INTEGRATED 18081 18082),
    (0x2a, tag_info MONERO MAINNET SUBADDRESS 18081 18082),
    (0x35, tag_info MONERO TESTNET PUBLIC 28081 28082),
    (0x36, tag_info MONERO TESTNET INTEGRATED 28081 28082),
    (0x3f, tag_info MONERO TESTNET SUBADDRESS 28081 28082),
    (0x18, tag_info MONERO STAGENET PUBLIC 38081 38082),
    (0x19, tag_info MONERO STAGENET INTEGRATED 38081 38082),
    (0x24, tag_info MONERO STAGENET SUBADDRESS 38081 38082),
    (0x2cca, tag_info ARQMA MAINNET PUBLIC 19994 19995),
    (0x116bc7, tag_info ARQMA MAINNET INTEGRATED 19994 19995),
    (0x6847, tag_info ARQMA MAINNET SUBADDRESS 19994 19995),
    (0x53ca, tag_info ARQMA TESTNET PUBLIC 29994 29995),
    (0x504a, tag_info ARQMA TESTNET INTEGRATED 29994 29995),
    (0x524a, tag_info ARQMA TESTNET SUBADDRESS 29994 29995),
    (0x39ca, tag_info ARQMA STAGENET PUBLIC 39994 39995),
    (0x1742ca, tag_info ARQMA STAGENET INTEGRATED 39994 39995),
    (0x1d84ca, tag_info ARQMA STAGENET SUBADDRESS 39994 39995),
    (0x1032, tag_info WOWNERO MAINNET PUBLIC 34568 34569),
    (0x1a9a, tag_info WOWNERO MAINNET INTEGRATED 34568 34569),
    (0x2fb0, tag_info WOWNERO MAINNET SUBADDRESS 34568 34569),
    (0x5a, tag_info GRAFT MAINNET PUBLIC 18981 18982),
    (0x5b, tag_info GRAFT MAINNET INTEGRATED 18981 18982),
    (0x66, tag_info GRAFT MAINNET SUBADDRESS 18981 18982),
    (0x54, tag_info GRAFT TESTNET PUBLIC 28881 28882),
    (0x55, tag_info GRAFT TESTNET INTEGRATED 28881 28882),
    (0x70, tag_info GRAFT TESTNET SUBADDRESS 28881 28882),
    (0x424200, tag_info TOWNFORGE MAINNET PUBLIC 18881 18882),
    (0x424201, tag_info TOWNFORGE MAINNET SUBADDRESS 18881 18882),
    (0x424210, tag_info TOWNFORGE TESTNET PUBLIC 28881 28882),
    (0x424211, tag_info TOWNFORGE TESTNET SUBADDRESS 28881 28882),
    (0x424220, tag_info TOWNFORGE STAGENET PUBLIC 38881 38882),
    (0x424221, tag_info TOWNFORGE STAGENET SUBADDRESS 38881 38882)]"

definition tagInfo :: "u64 \<Rightarrow> tag_info" where
  "tagInfo tag = (case map_of tags tag of None \<Rightarrow> tag_info COIN_INVALID MAINNET PUBLIC 0 0 | Some i \<Rightarrow> i)"

record wallet_address =
  wa_data :: bytes
  wa_tag :: u64
  wa_checksum :: bytes
  wa_spendKey :: bytes
  wa_viewKey :: bytes

definition new_wallet_address :: wallet_address where
  "new_wallet_address = \<lparr> wa_data = [], wa_tag = 0, wa_checksum = replicate 4 0,
     wa_spendKey = replicate 32 0, wa_viewKey = replicate 32 0 \<rparr>"

definition wa_kMinSize :: nat where "wa_kMinSize = 95"
definition wa_kMaxSize :: nat where "wa_kMaxSize = 256"
definition wa_kMinDataSize :: nat where "wa_kMinDataSize = 69"

definition wa_isValid :: "wallet_address \<Rightarrow> bool" where
  "wa_isValid w \<longleftrightarrow> 0 < wa_tag w \<and> wa_kMinSize \<le> length (wa_data w)"

text \<open>
  The prefix of a Townforge address: the tag that replaces the one in the data, and the address
  without the prefix.
\<close>

definition tf_prefix :: "bytes \<Rightarrow> (u64 \<times> bytes) option" where
  "tf_prefix address =
     (if 4 \<le> length address \<and> take 2 address = [0x54, 0x46] then do {
        net \<leftarrow> (if address ! 2 = 0x31 then Some 0 else if address ! 2 = 0x32 then Some 1 else None);
        kind \<leftarrow> (if address ! 3 = 0x4D then Some 0 else if address ! 3 = 0x54 then Some 0x10
                 else if address ! 3 = 0x53 then Some 0x20 else None);
        Some (0x424200 OR net OR kind, drop 4 address) }
      else Some (0, address))"

subsection \<open>Base58\<close>

definition block_sizes :: "nat list" where "block_sizes = [0, 2, 3, 5, 6, 7, 9, 10, 11]"

text \<open>\<^verbatim>\<open>123456789ABCDEFGHJKLMNPQRSTUVWXYZabcdefghijkmnopqrstuvwxyz\<close>\<close>

definition alphabet :: bytes where
  "alphabet = [0x31, 0x32, 0x33, 0x34, 0x35, 0x36, 0x37, 0x38, 0x39, 0x41, 0x42, 0x43, 0x44, 0x45, 0x46,
    0x47, 0x48, 0x4a, 0x4b, 0x4c, 0x4d, 0x4e, 0x50, 0x51, 0x52, 0x53, 0x54, 0x55, 0x56, 0x57,
    0x58, 0x59, 0x5a, 0x61, 0x62, 0x63, 0x64, 0x65, 0x66, 0x67, 0x68, 0x69, 0x6a, 0x6b, 0x6d,
    0x6e, 0x6f, 0x70, 0x71, 0x72, 0x73, 0x74, 0x75, 0x76, 0x77, 0x78, 0x79, 0x7a]"

text \<open>
  \<open>reverse_alphabet[(int) c]\<close>. Characters are signed, so that the index of one from 128 on is
  negative, before the array.
\<close>

definition reverse_alphabet :: "u8 \<Rightarrow> int option" where
  "reverse_alphabet c =
     (if 128 \<le> c then None
      else Some (if c \<in> set alphabet then int (length (takeWhile (\<lambda>x. x \<noteq> c) alphabet)) else -1))"

definition umul128 :: "u64 \<Rightarrow> u64 \<Rightarrow> u64 \<times> u64" where
  "umul128 a b = (a * b, of_nat (unat a * unat b div 2 ^ 64))"

text \<open>The inner loop, over the characters of a block from the last to the first.\<close>

fun block_loop :: "bytes \<Rightarrow> u64 \<Rightarrow> u64 \<Rightarrow> u64 option option" where
  "block_loop [] num order = Some (Some num)"
| "block_loop (c # cs) num order = do {
     digit \<leftarrow> reverse_alphabet c;
     if digit < 0 then Some None
     else let (lo, hi) = umul128 order (of_int digit);
              tmp = num + lo
          in if tmp < num \<or> hi \<noteq> 0 then Some None
             else block_loop cs tmp (order * of_nat (length alphabet)) }"

text \<open>A block of \<open>chars\<close> characters that stands for \<open>n\<close> bytes, the highest first.\<close>

definition decode_block :: "nat \<Rightarrow> nat \<Rightarrow> bytes \<Rightarrow> bytes option option" where
  "decode_block chars n address_data = do {
     num \<leftarrow> block_loop (rev (take chars address_data)) 0 1;
     Some (map_option (\<lambda>num. rev (take n (store64 num))) num) }"

primrec decode_blocks :: "nat \<Rightarrow> nat \<Rightarrow> nat \<Rightarrow> bytes \<Rightarrow> bytes option option" where
  "decode_blocks 0 last_size last_index address_data = decode_block last_size last_index address_data"
| "decode_blocks (Suc full) last_size last_index address_data = do {
     block \<leftarrow> decode_block 11 8 address_data;
     case block of
       None \<Rightarrow> Some None
     | Some bs \<Rightarrow> do {
         rest \<leftarrow> decode_blocks full last_size last_index (drop 11 address_data);
         Some (map_option (\<lambda>rs. bs @ rs) rest) } }"

text \<open>\<open>last_block_size_index\<close>\<close>

definition size_index :: "nat \<Rightarrow> nat option" where
  "size_index n = List.find (\<lambda>i. block_sizes ! i = n) [0 ..< length block_sizes]"

definition base58_decode :: "bytes \<Rightarrow> bytes option option" where
  "base58_decode address =
     (let num_full_blocks = length address div 11; last_block_size = length address mod 11 in
      case size_index last_block_size of
        None \<Rightarrow> Some None
      | Some last_index \<Rightarrow>
          if num_full_blocks * 8 + last_index < wa_kMinDataSize then Some None
          else decode_blocks num_full_blocks last_block_size last_index address)"

subsection \<open>Addresses\<close>

text \<open>
  \<open>ar(m_tag) && ar(m_publicSpendKey) && \<dots>\<close>: the fields are written as far as the reading gets. The
  reader returns false where the model has an error, except where C's behaviour is undefined.
\<close>

definition undefined_read :: "read_error \<Rightarrow> bool" where
  "undefined_read e \<longleftrightarrow> e = BadAccess \<or> e = BadShift"

definition field_of :: "('a \<times> reader) result \<Rightarrow> wallet_address \<Rightarrow>
    ('a \<Rightarrow> reader \<Rightarrow> (bool \<times> wallet_address) option) \<Rightarrow> (bool \<times> wallet_address) option" where
  "field_of m w f = (case m of Inl e \<Rightarrow> if undefined_read e then None else Some (False, w) | Inr (x, r) \<Rightarrow> f x r)"

definition read_fields :: "bytes \<Rightarrow> wallet_address \<Rightarrow> (bool \<times> wallet_address) option" where
  "read_fields data w =
     field_of (br_varint (new_reader data (of_nat (length data)))) w (\<lambda>tag ar.
       let w = w\<lparr> wa_tag := tag \<rparr> in
       field_of (br_array exceeds_wrapping 32 ar) w (\<lambda>key ar.
         let w = w\<lparr> wa_spendKey := key \<rparr> in
         field_of (br_array exceeds_wrapping 32 ar) w (\<lambda>key ar.
           let w = w\<lparr> wa_viewKey := key \<rparr> in
           case br_skip exceeds_wrapping (br_remaining ar - 4) ar of
             Inl e \<Rightarrow> Some (False, w)
           | Inr ar \<Rightarrow> field_of (br_array exceeds_wrapping 4 ar) w (\<lambda>sum ar.
               Some (True, w\<lparr> wa_checksum := sum \<rparr>)))))"

definition wa_decode :: "bytes \<Rightarrow> wallet_address \<Rightarrow> (bool \<times> wallet_address) option" where
  "wa_decode address w =
     (case tf_prefix address of
        None \<Rightarrow> Some (False, w)
      | Some (tf_tag, address) \<Rightarrow>
          if length address < wa_kMinSize \<or> wa_kMaxSize < length address then Some (False, w)
          else do {
            decoded \<leftarrow> base58_decode address;
            case decoded of
              None \<Rightarrow> Some (False, w)
            | Some data \<Rightarrow> do {
                (ok, w) \<leftarrow> read_fields data w;
                if \<not> ok then Some (False, w\<lparr> wa_tag := 0 \<rparr>)
                else do {
                  md \<leftarrow> keccak_state (take (length data - 4) data);
                  if wa_checksum w = take 4 md
                  then Some (True, w\<lparr> wa_data := address, wa_tag := (if tf_tag \<noteq> 0 then tf_tag else wa_tag w) \<rparr>)
                  else Some (False, w\<lparr> wa_tag := 0 \<rparr>) } } })"

end
