(* ===== verification/WalletAddressProps.thy ===== *)
theory WalletAddressProps
  imports WalletAddress Packing KeccakProps
begin

text \<open>
  Base58 text is decoded to the bytes it stands for, an address with the right checksum is accepted
  with its fields, and two ways in which the decoder is too lenient.
\<close>

subsection \<open>The encoder\<close>

primrec base58_value :: "nat list \<Rightarrow> nat" where
  "base58_value [] = 0"
| "base58_value (d # ds) = d + 58 * base58_value ds"

text \<open>The lowest \<open>m\<close> digits of a number, the lowest first.\<close>

primrec base58_digits :: "nat \<Rightarrow> nat \<Rightarrow> nat list" where
  "base58_digits 0 n = []"
| "base58_digits (Suc m) n = (n mod 58) # base58_digits m (n div 58)"

definition encode_block :: "bytes \<Rightarrow> bytes" where
  "encode_block bs = rev (map ((!) alphabet) (base58_digits (block_sizes ! length bs) (nat (le_int (rev bs)))))"

function base58_encode :: "bytes \<Rightarrow> bytes" where
  "base58_encode data =
     (if 8 \<le> length data then encode_block (take 8 data) @ base58_encode (drop 8 data) else encode_block data)"
  by pat_completeness auto
termination by (relation "measure length") auto

declare base58_encode.simps [simp del]

lemma base58_digits_length [simp]: "length (base58_digits m n) = m"
  by (induction m arbitrary: n) simp_all

lemma base58_digits_less: "d \<in> set (base58_digits m n) \<Longrightarrow> d < 58"
  by (induction m arbitrary: n) auto

lemma base58_digits_value: "n < 58 ^ m \<Longrightarrow> base58_value (base58_digits m n) = n"
proof (induction m arbitrary: n)
  case (Suc m)
  then have "n div 58 < 58 ^ m" by (simp add: less_mult_imp_div_less mult.commute)
  then show ?case using Suc.IH by simp
qed simp

lemma block_sizes_fit: "n \<le> 8 \<Longrightarrow> (2 :: nat) ^ (8 * n) \<le> 58 ^ (block_sizes ! n) \<and> block_sizes ! n \<le> 11"
proof -
  assume "n \<le> 8"
  then have "n = 0 \<or> n = 1 \<or> n = 2 \<or> n = 3 \<or> n = 4 \<or> n = 5 \<or> n = 6 \<or> n = 7 \<or> n = 8" by linarith
  then show ?thesis by (elim disjE) (simp_all add: block_sizes_def)
qed

lemma reverse_alphabet_digit: "d < 58 \<Longrightarrow> reverse_alphabet (alphabet ! d) = Some (int d)"
proof -
  have "list_all (\<lambda>d. reverse_alphabet (alphabet ! d) = Some (int d)) [0 ..< 58]" by code_simp
  then show "d < 58 \<Longrightarrow> ?thesis" by (simp add: list_all_iff)
qed

lemma alphabet_length: "length alphabet = 58"
  by (simp add: alphabet_def)

lemma unat_of_nat_u64: "n < 2 ^ 64 \<Longrightarrow> unat (of_nat n :: u64) = n"
  by (simp add: unsigned_of_nat take_bit_nat_eq_self)

lemma block_loop_value:
  "\<forall>d \<in> set ds. d < 58 \<Longrightarrow> length ds + k \<le> 11 \<Longrightarrow> a + 58 ^ k * base58_value ds < 2 ^ 64 \<Longrightarrow>
    block_loop (map ((!) alphabet) ds) (of_nat a) (of_nat (58 ^ k)) = Some (Some (of_nat (a + 58 ^ k * base58_value ds)))"
proof (induction ds arbitrary: a k)
  case (Cons d ds)
  have "k \<le> 10" using Cons.prems(2) by simp
  then have k: "(58 :: nat) ^ k < 2 ^ 64" using power_increasing [of k 10 "58 :: nat"] by simp
  let ?p = "58 ^ k * d"
  have sum: "a + 58 ^ k * base58_value (d # ds) = (a + ?p) + 58 ^ Suc k * base58_value ds" by (simp add: algebra_simps)
  then have small: "a + ?p < 2 ^ 64" using Cons.prems(3) by linarith
  then have p: "?p < 2 ^ 64" "a < 2 ^ 64" by linarith+
  have d: "unat (of_int (int d) :: u64) = d" using Cons.prems(1) unat_of_nat_u64 [of d] by simp
  have lo: "(of_nat (58 ^ k) :: u64) * of_int (int d) = of_nat ?p" by simp
  have hi: "(of_nat (unat (of_nat (58 ^ k) :: u64) * unat (of_int (int d) :: u64) div 2 ^ 64) :: u64) = 0"
    using p(1) unat_of_nat_u64 [OF k] d by simp
  have tmp: "(of_nat a :: u64) + of_nat ?p = of_nat (a + ?p)" by simp
  have order: "(of_nat (58 ^ k) :: u64) * of_nat 58 = of_nat (58 ^ Suc k)" by (simp only: of_nat_mult [symmetric] power_Suc2)
  have less: "((of_nat (a + ?p) :: u64) < of_nat a) = False"
    by (simp only: word_less_nat_alt unat_of_nat_u64 [OF small] unat_of_nat_u64 [OF p(2)]) simp
  have sign: "(int d < 0) = False" by simp
  have "d < 58" using Cons.prems(1) by simp
  note digit = reverse_alphabet_digit [OF this]
  have "block_loop (map ((!) alphabet) (d # ds)) (of_nat a) (of_nat (58 ^ k)) =
      block_loop (map ((!) alphabet) ds) (of_nat (a + ?p)) (of_nat (58 ^ Suc k))"
    by (simp only: list.map block_loop.simps digit bind.bind_lunit umul128_def Let_def prod.case lo tmp hi less sign
        alphabet_length order if_False simp_thms)
  also have "\<dots> = Some (Some (of_nat (a + 58 ^ k * base58_value (d # ds))))"
    unfolding sum by (rule Cons.IH) (use Cons.prems sum in simp_all)
  finally show ?case .
qed simp

lemma le_int_store64: "le_int (store64 w) = uint w"
proof -
  have "uint (le_word (store64 w) :: u64) = le_int (store64 w)" by (rule le_int_le_word) simp
  moreover have "le_word (store64 w) = w" using load64_store64' [of w] by (simp add: load64_def)
  ultimately show ?thesis by simp
qed

lemma encode_block_length: "length (encode_block bs) = block_sizes ! length bs"
  by (simp add: encode_block_def)

lemma decode_encode_block:
  assumes "length bs \<le> 8"
  shows "decode_block (block_sizes ! length bs) (length bs) (encode_block bs @ rest) = Some (Some bs)"
proof -
  let ?n = "length bs" and ?N = "nat (le_int (rev bs))"
  have N: "le_int (rev bs) < 2 ^ (8 * ?n)" using le_int_less [of "rev bs"] by simp
  then have "int ?N < int (2 ^ (8 * ?n))" by simp
  then have N': "?N < 2 ^ (8 * ?n)" by (simp only: of_nat_less_iff)
  also have "\<dots> \<le> 2 ^ 64" using assms by (intro power_increasing) simp_all
  finally have N64: "?N < 2 ^ 64" .
  have fit: "?N < 58 ^ (block_sizes ! ?n)" "block_sizes ! ?n \<le> 11" using block_sizes_fit [OF assms] less_le_trans [OF N'] by blast+
  have "rev (take (block_sizes ! ?n) (encode_block bs @ rest)) = map ((!) alphabet) (base58_digits (block_sizes ! ?n) ?N)"
    by (simp add: encode_block_length) (simp add: encode_block_def)
  moreover have "block_loop (map ((!) alphabet) (base58_digits (block_sizes ! ?n) ?N)) 0 1 = Some (Some (of_nat ?N))"
    using block_loop_value [of "base58_digits (block_sizes ! ?n) ?N" 0 0] fit N64 base58_digits_less
    by (simp add: base58_digits_value)
  moreover have "take ?n (store64 (of_nat ?N)) = rev bs"
  proof (rule le_int_inject)
    show "length (take ?n (store64 (of_nat ?N))) = length (rev bs)" using assms by simp
    have "uint (of_nat ?N :: u64) = le_int (rev bs)" using unat_of_nat_u64 [OF N64] by (metis int_nat_eq le_int_nonneg uint_nat)
    then show "le_int (take ?n (store64 (of_nat ?N))) = le_int (rev bs)"
      using le_int_slice [of ?n 0 "store64 (of_nat ?N)"] N by (simp add: le_int_store64 take_bit_int_eq_self)
  qed
  ultimately show ?thesis by (simp add: decode_block_def)
qed

lemma block_sizes_8: "block_sizes ! 8 = 11" "n < 8 \<Longrightarrow> block_sizes ! n < 11" "n < 8 \<Longrightarrow> size_index (block_sizes ! n) = Some n"
proof -
  have "list_all (\<lambda>n. block_sizes ! n < 11 \<and> size_index (block_sizes ! n) = Some n) [0 ..< 8]" by code_simp
  then show "n < 8 \<Longrightarrow> block_sizes ! n < 11" "n < 8 \<Longrightarrow> size_index (block_sizes ! n) = Some n" by (simp_all add: list_all_iff)
  show "block_sizes ! 8 = 11" by code_simp
qed

lemma base58_encode_length: "length (base58_encode data) = 11 * (length data div 8) + block_sizes ! (length data mod 8)"
proof (induction data rule: base58_encode.induct)
  case (1 data)
  show ?case
  proof (cases "8 \<le> length data")
    case True
    then have "length data div 8 = Suc ((length data - 8) div 8)" "(length data - 8) mod 8 = length data mod 8"
      by (simp_all add: le_div_geq le_mod_geq)
    then show ?thesis using True 1 block_sizes_8(1)
      by (subst base58_encode.simps) (simp add: encode_block_length)
  qed (subst base58_encode.simps, simp add: encode_block_length)
qed

lemma decode_blocks_encode:
  "decode_blocks (length data div 8) (block_sizes ! (length data mod 8)) (length data mod 8) (base58_encode data) = Some (Some data)"
proof (induction data rule: base58_encode.induct)
  case (1 data)
  show ?case
  proof (cases "8 \<le> length data")
    case True
    then have n: "length data div 8 = Suc ((length data - 8) div 8)" "(length data - 8) mod 8 = length data mod 8"
      by (simp_all add: le_div_geq le_mod_geq)
    have block: "decode_block 11 8 (encode_block (take 8 data) @ rest) = Some (Some (take 8 data))" for rest
      using decode_encode_block [of "take 8 data" rest] True block_sizes_8(1) by simp
    have "drop 11 (encode_block (take 8 data) @ rest) = rest" for rest
      using True by (simp add: encode_block_length block_sizes_8(1))
    then show ?thesis using 1 [OF True] True n
      by (subst base58_encode.simps) (simp add: block n)
  next
    case False
    then show ?thesis using decode_encode_block [of data "[]"]
      by (subst base58_encode.simps) simp
  qed
qed

lemma base58_decode_encode:
  assumes "wa_kMinDataSize \<le> length data"
  shows "base58_decode (base58_encode data) = Some (Some data)"
proof -
  have r: "block_sizes ! (length data mod 8) < 11" "size_index (block_sizes ! (length data mod 8)) = Some (length data mod 8)"
    using block_sizes_8(2,3) [of "length data mod 8"] by simp_all
  have "length (base58_encode data) div 11 = length data div 8" "length (base58_encode data) mod 11 = block_sizes ! (length data mod 8)"
    using r(1) by (simp_all add: base58_encode_length)
  then show ?thesis using assms decode_blocks_encode [of data] r(2)
    by (simp add: base58_decode_def)
qed

subsection \<open>The fields\<close>

lemma next_bytes_append:
  assumes "next_bytes r (xs @ ys)"
  shows "next_bytes r xs" "next_bytes (r\<lparr>r_index := r_index r + of_nat (length xs)\<rparr>) ys"
    "unat (r_index r + of_nat (length xs)) = unat (r_index r) + length xs"
proof -
  let ?i = "unat (r_index r)" and ?d = "r_data r"
  have b: "?i + length xs + length ys \<le> unat (r_size r)" "unat (r_size r) \<le> length ?d"
    and t: "take (length xs + length ys) (drop ?i ?d) = xs @ ys"
    using assms by (simp_all add: next_bytes_def)
  then have "xs = take (length xs) (take (length xs + length ys) (drop ?i ?d))" by simp
  then have xs: "take (length xs) (drop ?i ?d) = xs" by simp
  have "take (length ys) (drop (length xs) (drop ?i ?d)) = drop (length xs) (take (length xs + length ys) (drop ?i ?d))"
    by (simp only: drop_take) simp
  then have ys: "take (length ys) (drop (?i + length xs) ?d) = ys" unfolding t by (simp add: add.commute)
  have "unat (of_nat (length xs) :: u64) = length xs"
    using b unat_u64_less [of "r_size r"] by (intro unat_of_nat_u64) simp
  then show i: "unat (r_index r + of_nat (length xs)) = ?i + length xs"
    using unat_add_index [of "r_index r" "of_nat (length xs)" "r_size r"] b by simp
  show "next_bytes r xs" using b xs by (simp add: next_bytes_def)
  show "next_bytes (r\<lparr>r_index := r_index r + of_nat (length xs)\<rparr>) ys"
    using b ys by (simp add: next_bytes_def i)
qed

lemma br_array_next:
  assumes "next_bytes r bs"
  shows "br_array exceeds_wrapping (length bs) r = Inr (bs, r\<lparr>r_index := r_index r + of_nat (length bs)\<rparr>)"
proof -
  have i: "unat (r_index r + of_nat (length bs)) = unat (r_index r) + length bs"
    using next_bytes_append(3) [of r bs "[]"] assms by simp
  then show ?thesis
    using assms by (simp add: br_array_def exceeds_wrapping_def word_less_nat_alt next_bytes_def get_bytes_def)
qed

text \<open>The checksum is read from the end of the data, however little is left of it.\<close>

lemma read_checksum:
  assumes "r_size r = of_nat (length data)" "r_data r = data" "4 \<le> length data" "length data < 2 ^ 64"
  shows "\<exists>ar. br_skip exceeds_wrapping (br_remaining r - 4) r = Inr ar \<and>
    br_array exceeds_wrapping 4 ar = Inr (drop (length data - 4) data, ar\<lparr>r_index := r_index ar + 4\<rparr>)"
proof -
  let ?n = "of_nat (length data) :: u64"
  have n: "unat ?n = length data" using assms(4) by (rule unat_of_nat_u64)
  have at: "r_index r + (br_remaining r - 4) = ?n - 4" by (simp add: br_remaining_def assms(1))
  have end4: "unat (?n - 4) = length data - 4"
    using assms(3) n by (simp add: unat_sub_if')
  have "\<not> ?n < ?n - 4" using n end4 by (simp add: word_less_nat_alt)
  then have skip: "br_skip exceeds_wrapping (br_remaining r - 4) r = Inr (r\<lparr>r_index := ?n - 4\<rparr>)"
    by (simp add: br_skip_def exceeds_wrapping_def at assms(1))
  have "?n - 4 + 4 = ?n" by simp
  then have "br_array exceeds_wrapping 4 (r\<lparr>r_index := ?n - 4\<rparr>) =
      Inr (drop (length data - 4) data, r\<lparr>r_index := ?n\<rparr>)"
    using assms(3) by (simp add: br_array_def exceeds_wrapping_def assms(1,2) get_bytes_def end4)
  then show ?thesis using skip by simp
qed

lemma read_fields_value:
  assumes data: "data = put_varint tag @ spend @ view @ rest" and len: "length spend = 32" "length view = 32" "length data < 2 ^ 64"
  shows "read_fields data w = Some (True, w\<lparr> wa_tag := tag, wa_spendKey := spend, wa_viewKey := view,
    wa_checksum := drop (length data - 4) data \<rparr>)"
proof -
  let ?r0 = "new_reader data (of_nat (length data))"
  let ?r1 = "?r0\<lparr>r_index := r_index ?r0 + of_nat (length (put_varint tag))\<rparr>"
  let ?r2 = "?r1\<lparr>r_index := r_index ?r1 + of_nat (length spend)\<rparr>"
  let ?r3 = "?r2\<lparr>r_index := r_index ?r2 + of_nat (length view)\<rparr>"
  have n0: "next_bytes ?r0 (put_varint tag @ spend @ view @ rest)"
    using len(3) unat_of_nat_u64 [of "length data"] by (simp add: next_bytes_def new_reader_def data [symmetric])
  note n1 = next_bytes_append(2) [OF n0]
  note n2 = next_bytes_append(2) [OF n1]
  have tag: "br_varint ?r0 = Inr (tag, ?r1)" by (rule br_varint_next [OF next_bytes_append(1) [OF n0]])
  have spend: "br_array exceeds_wrapping 32 ?r1 = Inr (spend, ?r2)" using br_array_next [OF next_bytes_append(1) [OF n1]] len(1) by simp
  have view: "br_array exceeds_wrapping 32 ?r2 = Inr (view, ?r3)" using br_array_next [OF next_bytes_append(1) [OF n2]] len(2) by simp
  have "4 \<le> length data" using len by (simp add: data)
  then obtain ar where ar: "br_skip exceeds_wrapping (br_remaining ?r3 - 4) ?r3 = Inr ar"
    "br_array exceeds_wrapping 4 ar = Inr (drop (length data - 4) data, ar\<lparr>r_index := r_index ar + 4\<rparr>)"
    using read_checksum [of ?r3 data] len(3) by (auto simp: new_reader_def)
  show ?thesis
    unfolding read_fields_def tag field_of_def sum.case prod.case Let_def spend view ar by simp
qed

lemma wa_decode_value:
  assumes data: "data = put_varint tag @ spend @ view @ rest" and len: "length spend = 32" "length view = 32"
    and size: "69 \<le> length data" "length (base58_encode data) \<le> 256" and tf: "take 2 (base58_encode data) \<noteq> [0x54, 0x46]"
    and sum: "drop (length data - 4) data = take 4 (sponge 136 (take (length data - 4) data) 200)"
  shows "wa_decode (base58_encode data) w = Some (True, w\<lparr> wa_data := base58_encode data, wa_tag := tag,
    wa_spendKey := spend, wa_viewKey := view, wa_checksum := drop (length data - 4) data \<rparr>)"
proof -
  have prefix: "tf_prefix (base58_encode data) = Some (0, base58_encode data)" using tf by (simp add: tf_prefix_def)
  have long: "wa_kMinSize \<le> length (base58_encode data)"
  proof (cases "72 \<le> length data")
    case True
    then have "9 \<le> length data div 8" by simp
    then show ?thesis by (simp add: base58_encode_length wa_kMinSize_def)
  next
    case False
    then have "length data = 69 \<or> length data = 70 \<or> length data = 71" using size(1) by linarith
    then show ?thesis by (elim disjE) (simp_all add: base58_encode_length wa_kMinSize_def block_sizes_def)
  qed
  have "length data div 8 \<le> 23" using size(2) by (simp add: base58_encode_length)
  then have small: "length data < 2 ^ 64" by simp
  have "wa_decode (base58_encode data) w = (do {
      (ok, w) \<leftarrow> read_fields data w;
      if \<not> ok then Some (False, w\<lparr> wa_tag := 0 \<rparr>)
      else do {
        md \<leftarrow> keccak_state (take (length data - 4) data);
        if wa_checksum w = take 4 md
        then Some (True, w\<lparr> wa_data := base58_encode data, wa_tag := (if (0 :: u64) \<noteq> 0 then 0 else wa_tag w) \<rparr>)
        else Some (False, w\<lparr> wa_tag := 0 \<rparr>) } })"
    using long size base58_decode_encode [of data]
    by (simp add: wa_decode_def prefix wa_kMaxSize_def wa_kMinDataSize_def)
  also have "\<dots> = Some (True, w\<lparr> wa_data := base58_encode data, wa_tag := tag,
      wa_spendKey := spend, wa_viewKey := view, wa_checksum := drop (length data - 4) data \<rparr>)"
    unfolding read_fields_value [OF data len small] keccak_state_def keccak_eq_sponge [OF keccak_rates(2)]
    using keccak_eq_sponge [OF keccak_rates(2), of "take (length data - 4) data"] sum by simp
  finally show ?thesis .
qed

text \<open>The first character of an address.\<close>

lemma base58_digits_nth: "k < m \<Longrightarrow> base58_digits m n ! k = n div 58 ^ k mod 58"
proof (induction m arbitrary: n k)
  case (Suc m)
  then show ?case by (cases k) (simp_all add: div_mult2_eq)
qed simp

lemma base58_first:
  assumes "8 \<le> length data" "take 8 data = bs"
  shows "base58_encode data ! 0 = alphabet ! (nat (le_int (rev bs)) div 58 ^ 10 mod 58)" "base58_encode data \<noteq> []"
proof -
  have len: "length bs = 8" using assms by auto
  have "base58_encode data = encode_block bs @ base58_encode (drop 8 data)" using assms by (subst base58_encode.simps) simp
  moreover have "encode_block bs ! 0 = alphabet ! (nat (le_int (rev bs)) div 58 ^ 10 mod 58)"
    by (simp add: encode_block_def len block_sizes_8(1) rev_nth base58_digits_nth)
  moreover have "length (encode_block bs) = 11" by (simp add: encode_block_length len block_sizes_8(1))
  ultimately show "base58_encode data ! 0 = alphabet ! (nat (le_int (rev bs)) div 58 ^ 10 mod 58)" "base58_encode data \<noteq> []"
    by (auto simp: nth_append)
qed

lemma not_tf: "xs ! 0 \<noteq> 0x54 \<Longrightarrow> xs \<noteq> [] \<Longrightarrow> take 2 xs \<noteq> [0x54, 0x46]"
  by (cases xs) auto

subsection \<open>Properties\<close>

text \<open>
  C18. An address made of a tag, two keys and the checksum of both is accepted, with exactly this tag and
  these keys, whatever the tag and the text between keys and checksum, unless its text happens to
  start with the mark of another coin.
\<close>

theorem wallet_roundtrip:
  assumes "length spend = 32" "length view = 32"
    and "body = put_varint tag @ spend @ view @ extra"
    and "data = body @ take 4 (sponge 136 body 200)"
    and "length (base58_encode data) \<le> 256" "take 2 (base58_encode data) \<noteq> [0x54, 0x46]"
  shows "\<exists>w'. wa_decode (base58_encode data) w = Some (True, w') \<and>
    wa_tag w' = tag \<and> wa_spendKey w' = spend \<and> wa_viewKey w' = view"
proof -
  let ?rest = "extra @ take 4 (sponge 136 body 200)"
  have sum: "length (take 4 (sponge 136 body 200)) = 4" by (simp add: length_sponge)
  have "data = put_varint tag @ spend @ view @ ?rest" using assms(3,4) by simp
  moreover have "69 \<le> length data"
  proof -
    have "length data = length (put_varint tag) + 68 + length extra" using assms(1-4) sum by simp
    then show ?thesis using put_varint_pos [of tag] by linarith
  qed
  moreover have "length data - 4 = length body" using assms(4) sum by simp
  ultimately show ?thesis
    using wa_decode_value [of data tag spend view ?rest w] assms by simp
qed

lemma wallet_roundtrip_witness:
  "\<exists>body w'. wa_decode (base58_encode (body @ take 4 (sponge 136 body 200))) new_wallet_address = Some (True, w') \<and>
    wa_tag w' = 0x12 \<and> wa_spendKey w' = replicate 32 5 \<and> wa_viewKey w' = replicate 32 6"
proof -
  have tag: "put_varint 0x12 = [0x12]" by (simp add: put_varint_step)
  let ?body = "put_varint 0x12 @ replicate 32 5 @ replicate 32 6 @ []"
  let ?data = "?body @ take 4 (sponge 136 ?body 200)"
  have len: "length ?data = 69" by (simp add: tag length_sponge)
  have size: "length (base58_encode ?data) \<le> 256" by (simp only: base58_encode_length len) (simp add: block_sizes_def)
  have "replicate 32 (5 :: u8) = replicate 7 5 @ replicate 25 5" by (simp flip: replicate_add)
  then have "take 8 ?data = 0x12 # replicate 7 5" by (simp only: tag append.simps append_assoc) (simp add: numeral_eq_Suc)
  then have first: "base58_encode ?data ! 0 = alphabet ! (nat (le_int (rev (0x12 # replicate 7 5))) div 58 ^ 10 mod 58)" "base58_encode ?data \<noteq> []"
    using len by (intro base58_first; simp)+
  have "le_int (rev (0x12 # replicate 7 5)) = 1298449586683446533" by code_simp
  then have "base58_encode ?data ! 0 \<noteq> 0x54" unfolding first(1) by (simp add: alphabet_def)
  from wallet_roundtrip [OF _ _ refl refl size not_tf [OF this first(2)], of new_wallet_address]
  show ?thesis by (intro exI [of _ ?body]) simp
qed

text \<open>
  C30. The decoder does not ask for room behind the keys: with a tag of three bytes an address that is
  two bytes short is accepted, and the last two bytes of its view key are the first of its checksum.
\<close>

theorem short_address_accepted:
  assumes "length (put_varint tag) = 3" "length spend = 32" "length view = 30"
    and "body = put_varint tag @ spend @ view" "checksum = take 4 (sponge 136 body 200)"
    and "take 2 (base58_encode (body @ checksum)) \<noteq> [0x54, 0x46]"
  shows "\<exists>w'. wa_decode (base58_encode (body @ checksum)) w = Some (True, w') \<and>
    wa_viewKey w' = view @ take 2 checksum \<and> wa_checksum w' = checksum"
proof -
  have sum: "length checksum = 4" using assms(5) by (simp add: length_sponge)
  have data: "body @ checksum = put_varint tag @ spend @ (view @ take 2 checksum) @ drop 2 checksum" using assms(4) by simp
  have size: "length (body @ checksum) = 69" using assms(1-4) sum by simp
  have "length (base58_encode (body @ checksum)) \<le> 256" by (simp only: base58_encode_length size) (simp add: block_sizes_def)
  then show ?thesis
    using wa_decode_value [OF data assms(2), of w] assms(3,5,6) sum size by simp
qed

lemma short_address_accepted_witness:
  "\<exists>body checksum w'. length body = 65 \<and> wa_decode (base58_encode (body @ checksum)) new_wallet_address = Some (True, w') \<and>
    wa_viewKey w' = replicate 30 6 @ take 2 checksum"
proof -
  have tag: "put_varint 0x116bc7 = [0xC7, 0xD7, 0x45]" by (simp add: put_varint_step)
  let ?body = "put_varint 0x116bc7 @ replicate 32 5 @ replicate 30 6"
  let ?data = "?body @ take 4 (sponge 136 ?body 200)"
  have len: "length ?data = 69" by (simp add: tag length_sponge)
  have "replicate 32 (5 :: u8) = replicate 5 5 @ replicate 27 5" by (simp flip: replicate_add)
  then have "take 8 ?data = [0xC7, 0xD7, 0x45] @ replicate 5 5" by (simp only: tag append.simps append_assoc) (simp add: numeral_eq_Suc)
  then have first: "base58_encode ?data ! 0 = alphabet ! (nat (le_int (rev ([0xC7, 0xD7, 0x45] @ replicate 5 5))) div 58 ^ 10 mod 58)"
      "base58_encode ?data \<noteq> []"
    using len by (intro base58_first; simp)+
  have "le_int (rev ([0xC7, 0xD7, 0x45] @ replicate 5 5)) = 14400054221401818373" by code_simp
  then have "base58_encode ?data ! 0 \<noteq> 0x54" unfolding first(1) by (simp add: alphabet_def)
  from short_address_accepted [OF _ _ _ refl refl not_tf [OF this first(2)], of new_wallet_address]
  show ?thesis by (intro exI [of _ ?body] exI [of _ "take 4 (sponge 136 ?body 200)"]) (auto simp: tag)
qed

end
