(* ===== verification/RxDataset.thy ===== *)
theory RxDataset
  imports Dataset
begin

text \<open>
  The dataset as the miner owns it, \<^verbatim>\<open>crypto/rx/RxCache.cpp\<close> and \<^verbatim>\<open>crypto/rx/RxDataset.cpp\<close>: a cache that
  remembers its seed, the initialisation by several threads, the copies to other memory nodes and the
  scratchpads taken from the memory behind the dataset. A null pointer is \<open>None\<close>; \<open>None\<close> as a result
  is an access that C does not define or a superscalar generator that does not return. The memory and
  the processor features that the operating system reports are arguments.
\<close>

subsection \<open>The cache\<close>

record rx_cache =
  rc_seed :: bytes
  rc_cache :: "randomx_cache option"

text \<open>The constructors; \<open>created\<close> is what \<^verbatim>\<open>randomx_create_cache\<close> returns, its memory not yet set.\<close>

definition RxCache_new :: "randomx_cache option \<Rightarrow> rx_cache" where
  "RxCache_new created = \<lparr> rc_seed = [], rc_cache = created \<rparr>"

text \<open>
  The cache is set through its function pointer \<^verbatim>\<open>initialize\<close>, which is \<open>initCache\<close> with the configuration of the
  moment, or its variant that also compiles the superscalar programs.
\<close>

definition RxCache_init ::
  "(bytes \<Rightarrow> randomx_cache option) \<Rightarrow> bytes \<Rightarrow> rx_cache \<Rightarrow> (bool \<times> rx_cache) option" where
  "RxCache_init initialise seed c =
     (if rc_seed c = seed then Some (False, c)
      else let c = c\<lparr> rc_seed := seed \<rparr> in
        if rc_cache c \<noteq> None then do {
          cache \<leftarrow> initialise (rc_seed c);
          Some (True, c\<lparr> rc_cache := Some cache \<rparr>) }
        else Some (False, c))"

subsection \<open>The dataset\<close>

record rx_dataset =
  rd_dataset :: "bytes option"
  rd_cache :: "rx_cache option"
  rd_scratchpadLimit :: u64
  rd_scratchpadOffset :: u64

definition MAX_DATASET_THREADS :: nat where "MAX_DATASET_THREADS = 256"

definition RANDOMX_DATASET_MAX_SIZE :: nat where "RANDOMX_DATASET_MAX_SIZE = 2181038080"
definition RANDOMX_CACHE_MAX_SIZE :: nat where "RANDOMX_CACHE_MAX_SIZE = 268435456"

definition optimalThreadCount :: "nat \<Rightarrow> nat \<Rightarrow> nat" where
  "optimalThreadCount hardware_concurrency maxAllowed = min (max 1 hardware_concurrency) maxAllowed"

definition alignDown :: "u32 \<Rightarrow> u32 \<Rightarrow> u32" where
  "alignDown count align = count - count mod align"

text \<open>The calls of \<open>randomx_init_dataset\<close> that \<open>init_dataset_slice\<close> makes, start and number of items.\<close>

definition slice_calls :: "bool \<Rightarrow> u32 \<Rightarrow> u32 \<Rightarrow> (u32 \<times> u32) list" where
  "slice_calls hasAVX2 startItem itemCount =
     (if itemCount = 0 then []
      else let aligned = alignDown itemCount 5 in
        if hasAVX2 \<and> aligned \<noteq> itemCount then
          (if 5 \<le> itemCount
           then (if 0 < aligned then [(startItem, aligned)] else []) @ [(startItem + itemCount - 5, 5)]
           else [(startItem, itemCount)])
        else [(startItem, itemCount)])"

primrec init_calls :: "randomx_cache \<Rightarrow> (u32 \<times> u32) list \<Rightarrow> bytes \<Rightarrow> bytes option" where
  "init_calls cache [] memory = Some memory"
| "init_calls cache (c # cs) memory = do {
     memory \<leftarrow> randomx_init_dataset memory cache (unat (fst c)) (unat (snd c));
     init_calls cache cs memory }"

definition init_dataset_slice :: "bool \<Rightarrow> randomx_cache \<Rightarrow> u32 \<Rightarrow> u32 \<Rightarrow> bytes \<Rightarrow> bytes option" where
  "init_dataset_slice hasAVX2 cache startItem itemCount memory =
     init_calls cache (slice_calls hasAVX2 startItem itemCount) memory"

text \<open>The slices of the threads, in 64-bit arithmetic.\<close>

definition dataset_slices :: "nat \<Rightarrow> (u32 \<times> u32) list" where
  "dataset_slices safeThreads =
     map (\<lambda>i. let datasetItemCount = of_nat randomx_dataset_item_count :: u64;
                  a64 = datasetItemCount * of_nat i div of_nat safeThreads;
                  b64 = datasetItemCount * (of_nat i + 1) div of_nat safeThreads
              in (ucast a64, ucast (b64 - a64)))
       [0 ..< safeThreads]"

subsection \<open>Threads\<close>

text \<open>
  Threads that write side by side: each has its list of writes, and \<open>schedule\<close> names the thread that
  makes the next one. The threads are waited for, so that those the schedule leaves with writes to do
  end one after the other.
\<close>

primrec run_all :: "('w \<Rightarrow> 'm \<Rightarrow> 'm option) \<Rightarrow> 'w list \<Rightarrow> 'm \<Rightarrow> 'm option" where
  "run_all step [] m = Some m"
| "run_all step (w # ws) m = do { m \<leftarrow> step w m; run_all step ws m }"

primrec run_threads :: "('w \<Rightarrow> 'm \<Rightarrow> 'm option) \<Rightarrow> nat list \<Rightarrow> 'w list list \<Rightarrow> 'm \<Rightarrow> 'm option" where
  "run_threads step [] threads m = run_all step (concat threads) m"
| "run_threads step (t # schedule) threads m =
     (if t < length threads \<and> threads ! t \<noteq> []
      then do { m \<leftarrow> step (hd (threads ! t)) m;
                run_threads step schedule (threads[t := tl (threads ! t)]) m }
      else run_threads step schedule threads m)"

text \<open>The items a thread writes with its calls, and the write of one item.\<close>

definition slice_items :: "bool \<Rightarrow> u32 \<times> u32 \<Rightarrow> nat list" where
  "slice_items hasAVX2 s =
     concat (map (\<lambda>(a, n). [unat a ..< unat a + unat n]) (slice_calls hasAVX2 (fst s) (snd s)))"

definition write_item :: "randomx_cache \<Rightarrow> nat \<Rightarrow> bytes \<Rightarrow> bytes option" where
  "write_item cache i memory = do {
     line \<leftarrow> initDatasetItem cache (of_nat i);
     put_bytes memory (i * CacheLineSize) line }"

text \<open>The rest of \<open>init\<close> once the cache is set: one thread does all the items itself, without a latch.\<close>

definition fill_dataset :: "bool \<Rightarrow> nat list \<Rightarrow> nat \<Rightarrow> randomx_cache \<Rightarrow> bytes \<Rightarrow> bytes option" where
  "fill_dataset hasAVX2 schedule numThreads cache memory =
     (let safeThreads = min (max numThreads 1) MAX_DATASET_THREADS in
      if safeThreads \<le> 1
      then init_dataset_slice hasAVX2 cache 0 (of_nat randomx_dataset_item_count) memory
      else run_threads (write_item cache) schedule
             (map (slice_items hasAVX2) (dataset_slices safeThreads)) memory)"

definition RxDataset_init ::
  "(bytes \<Rightarrow> randomx_cache option) \<Rightarrow> bool \<Rightarrow> nat list \<Rightarrow> bytes \<Rightarrow> nat \<Rightarrow> rx_dataset \<Rightarrow>
    (bool \<times> rx_dataset) option" where
  "RxDataset_init initialise hasAVX2 schedule seed numThreads d =
     (case rd_cache d of
        None \<Rightarrow> Some (False, d)
      | Some c \<Rightarrow>
          if rc_cache c = None then Some (False, d)
          else do {
            (_, c) \<leftarrow> RxCache_init initialise seed c;
            let d = d\<lparr> rd_cache := Some c \<rparr>;
            case rd_dataset d of
              None \<Rightarrow> Some (True, d)
            | Some memory \<Rightarrow> do {
                cache \<leftarrow> rc_cache c;
                memory \<leftarrow> fill_dataset hasAVX2 schedule numThreads cache memory;
                Some (True, d\<lparr> rd_dataset := Some memory \<rparr>) } })"

subsection \<open>Copies and scratchpads\<close>

text \<open>The chunks that \<open>parallelCopy\<close> gives to its threads, as offset and length.\<close>

definition copy_chunks :: "nat \<Rightarrow> nat \<Rightarrow> (nat \<times> nat) list" where
  "copy_chunks numThreads n =
     (let chunkSize = (n + numThreads - 1) div numThreads in
      map (\<lambda>i. (i * chunkSize, min chunkSize (n - i * chunkSize)))
        (filter (\<lambda>i. i * chunkSize < n) [0 ..< numThreads]))"

definition copy_byte :: "bytes \<Rightarrow> nat \<Rightarrow> bytes \<Rightarrow> bytes option" where
  "copy_byte src i dst = do { b \<leftarrow> rd src i; wr dst i b }"

definition parallelCopy :: "nat \<Rightarrow> nat list \<Rightarrow> bytes \<Rightarrow> bytes \<Rightarrow> nat \<Rightarrow> bytes option" where
  "parallelCopy hardware_concurrency schedule dst src n =
     (let numThreads = optimalThreadCount hardware_concurrency 8 in
      if n = 0 then Some dst
      else if numThreads \<le> 1 then do { bs \<leftarrow> get_bytes src 0 n; put_bytes dst 0 bs }
      else run_threads (copy_byte src) schedule
             (map (\<lambda>(off, len). [off ..< off + len]) (copy_chunks numThreads n)) dst)"

definition setRaw :: "nat \<Rightarrow> nat list \<Rightarrow> bytes option \<Rightarrow> rx_dataset \<Rightarrow> rx_dataset option" where
  "setRaw hardware_concurrency schedule raw d =
     (case (rd_dataset d, raw) of
        (Some dst, Some src) \<Rightarrow> do {
          m \<leftarrow> parallelCopy hardware_concurrency schedule dst src RANDOMX_DATASET_MAX_SIZE;
          Some (d\<lparr> rd_dataset := Some m \<rparr>) }
      | _ \<Rightarrow> Some d)"

text \<open>The offset of a scratchpad behind the dataset, in the memory that holds both.\<close>

definition tryAllocateScrathpad :: "rx_dataset \<Rightarrow> u64 option \<times> rx_dataset" where
  "tryAllocateScrathpad d =
     (if rd_dataset d = None then (None, d)
      else let offset = rd_scratchpadOffset d; scratch = of_nat RANDOMX_SCRATCHPAD_L3_MAX_SIZE;
               d = d\<lparr> rd_scratchpadOffset := offset + scratch \<rparr>
           in if rd_scratchpadLimit d < scratch \<or> offset > rd_scratchpadLimit d - scratch then (None, d)
              else (Some offset, d))"

subsection \<open>Allocation\<close>

datatype rx_mode = AutoMode | FastMode | LightMode

text \<open>What the operating system gives: the memory of the node and the cache created in memory of its own.\<close>

record rx_memory =
  vm_raw :: "bytes option"
  vm_isOneGbPages :: bool
  vm_capacity :: u64
  vm_total :: nat
  vm_cache :: "randomx_cache option"

definition RxDataset_allocate :: "rx_memory \<Rightarrow> rx_mode \<Rightarrow> rx_dataset \<Rightarrow> rx_dataset" where
  "RxDataset_allocate vm mode d =
     (if mode = LightMode then d
      else if mode = AutoMode \<and> vm_total vm < RANDOMX_DATASET_MAX_SIZE + RANDOMX_CACHE_MAX_SIZE then d
      else let d = (if vm_isOneGbPages vm
                    then d\<lparr> rd_scratchpadOffset := of_nat (RANDOMX_DATASET_MAX_SIZE + RANDOMX_CACHE_MAX_SIZE),
                            rd_scratchpadLimit := vm_capacity vm \<rparr>
                    else d)
           in d\<lparr> rd_dataset := vm_raw vm \<rparr>)"

text \<open>The constructor; in a memory of 1 GB pages the cache lies behind the dataset.\<close>

definition RxDataset_new :: "rx_memory \<Rightarrow> bool \<Rightarrow> rx_mode \<Rightarrow> rx_dataset" where
  "RxDataset_new vm cache mode =
     (let d = RxDataset_allocate vm mode \<lparr> rd_dataset = None, rd_cache = None,
                rd_scratchpadLimit = 0, rd_scratchpadOffset = 0 \<rparr>;
          isOneGbPages = (mode \<noteq> LightMode \<and>
            \<not> (mode = AutoMode \<and> vm_total vm < RANDOMX_DATASET_MAX_SIZE + RANDOMX_CACHE_MAX_SIZE) \<and> vm_isOneGbPages vm)
      in if isOneGbPages \<or> cache then d\<lparr> rd_cache := Some (RxCache_new (vm_cache vm)) \<rparr> else d)"

end
