(* ===== verification/RxQueue.thy ===== *)
theory RxQueue
  imports RxDataset Job
begin

text \<open>
  Which dataset is ready for which job: \<^verbatim>\<open>crypto/rx/RxSeed.h\<close>, \<^verbatim>\<open>RxAlgo.cpp\<close>, \<^verbatim>\<open>RxBasicStorage.cpp\<close> and
  \<^verbatim>\<open>RxQueue.cpp\<close>, for one dataset on all memory nodes. The thread that initialises datasets moves by
  turns: under the lock of the queue, or one of the two parts of an initialisation, which are not under the
  lock and read the global configuration \<^verbatim>\<open>RandomX_CurrentConfig\<close>, passed and returned here.
\<close>

subsection \<open>Algorithms and seeds\<close>

definition RxAlgo_base :: "u32 \<Rightarrow> rx_config" where
  "RxAlgo_base algorithm =
     (if algorithm = RX_V2 then RandomX_ConfigurationMoneroV2
      else if algorithm = RX_WOW then RandomX_ConfigurationWownero
      else if algorithm = RX_ARQ then RandomX_ConfigurationArqma
      else if algorithm = RX_GRAFT then RandomX_ConfigurationGraft
      else if algorithm = RX_SFX then RandomX_ConfigurationSafex
      else if algorithm = RX_YADA then RandomX_ConfigurationYada
      else RandomX_ConfigurationBase)"

text \<open>The configuration after \<^verbatim>\<open>RxAlgo::apply\<close>.\<close>

definition RxAlgo_apply :: "u32 \<Rightarrow> rx_config" where
  "RxAlgo_apply algorithm = Apply (RxAlgo_base algorithm)"

record rx_seed =
  seed_algorithm :: u32
  seed_data :: bytes

definition seed_of_job :: "job \<Rightarrow> rx_seed" where
  "seed_of_job job = \<lparr> seed_algorithm = j_algorithm job, seed_data = j_seed job \<rparr>"

definition isEqualSeedAlgo :: "u32 \<Rightarrow> u32 \<Rightarrow> bool" where
  "isEqualSeedAlgo algorithm other \<longleftrightarrow> algorithm = other \<or>
     algorithm = RX_0 \<and> other = RX_V2 \<or> algorithm = RX_V2 \<and> other = RX_0"

definition seed_isEqual :: "rx_seed \<Rightarrow> rx_seed \<Rightarrow> bool" where
  "seed_isEqual s other \<longleftrightarrow>
     isEqualSeedAlgo (seed_algorithm s) (seed_algorithm other) \<and> seed_data s = seed_data other"

subsection \<open>The storage\<close>

record rx_storage =
  bs_ready :: bool
  bs_isAllocated :: bool
  bs_dataset :: "rx_dataset option"
  bs_seed :: rx_seed

definition new_storage :: rx_storage where
  "new_storage = \<lparr> bs_ready = False, bs_isAllocated = False, bs_dataset = None,
     bs_seed = \<lparr> seed_algorithm = ALGO_INVALID, seed_data = [] \<rparr> \<rparr>"

text \<open>What a turn finds outside: how caches are set, the processor, the schedule of the threads, the memory.\<close>

record rx_host =
  h_initialise :: "rx_config \<Rightarrow> bytes \<Rightarrow> randomx_cache option"
  h_hasAVX2 :: bool
  h_schedule :: "nat list"
  h_memory :: rx_memory

definition storage_setSeed :: "rx_seed \<Rightarrow> rx_storage \<Rightarrow> rx_config \<Rightarrow> rx_storage \<times> rx_config" where
  "storage_setSeed seed st cfg =
     (st\<lparr> bs_ready := False, bs_seed := seed \<rparr>,
      if seed_algorithm (bs_seed st) \<noteq> seed_algorithm seed then RxAlgo_apply (seed_algorithm seed) else cfg)"

definition createDataset :: "rx_host \<Rightarrow> rx_mode \<Rightarrow> rx_storage \<Rightarrow> (bool \<times> rx_storage) option" where
  "createDataset host mode st =
     (let d = RxDataset_new (h_memory host) True mode in do {
        c \<leftarrow> rd_cache d;
        Some (if rc_cache c = None then (False, st\<lparr> bs_dataset := None, bs_isAllocated := False \<rparr>)
              else (True, st\<lparr> bs_dataset := Some d, bs_isAllocated := True \<rparr>)) })"

definition storage_initDataset :: "rx_host \<Rightarrow> rx_config \<Rightarrow> nat \<Rightarrow> rx_storage \<Rightarrow> rx_storage option" where
  "storage_initDataset host cfg threads st = do {
     d \<leftarrow> bs_dataset st;
     (ready, d) \<leftarrow> RxDataset_init (h_initialise host cfg) (h_hasAVX2 host) (h_schedule host)
                     (seed_data (bs_seed st)) threads d;
     Some (st\<lparr> bs_dataset := Some d, bs_ready := ready \<rparr>) }"

text \<open>\<open>init\<close> after \<open>setSeed\<close>.\<close>

definition storage_fill :: "rx_host \<Rightarrow> rx_config \<Rightarrow> nat \<Rightarrow> rx_mode \<Rightarrow> rx_storage \<Rightarrow> rx_storage option" where
  "storage_fill host cfg threads mode st = do {
     (ok, st) \<leftarrow> (if bs_dataset st = None then createDataset host mode st else Some (True, st));
     if ok then storage_initDataset host cfg threads st else Some st }"

definition storage_dataset :: "job \<Rightarrow> rx_storage \<Rightarrow> rx_dataset option" where
  "storage_dataset job st =
     (if bs_ready st \<and> seed_isEqual (bs_seed st) (seed_of_job job) then bs_dataset st else None)"

subsection \<open>The queue\<close>

record rx_item =
  it_seed :: rx_seed
  it_threads :: nat
  it_mode :: rx_mode

datatype queue_state = STATE_IDLE | STATE_PENDING | STATE_SHUTDOWN

text \<open>Where the thread is: waiting, with an item taken, with its seed set, with its dataset done, ended.\<close>

datatype rx_thread = Waiting | Taken rx_item | Seeded rx_item | Filled rx_item | Ended

record rx_queue =
  q_storage :: "rx_storage option"
  q_seed :: rx_seed
  q_state :: queue_state
  q_pending :: "rx_item option"
  q_notified :: bool
  q_thread :: rx_thread

definition new_queue :: rx_queue where
  "new_queue = \<lparr> q_storage = None, q_seed = \<lparr> seed_algorithm = ALGO_INVALID, seed_data = [] \<rparr>,
     q_state = STATE_IDLE, q_pending = None, q_notified = False, q_thread = Waiting \<rparr>"

definition queue_isReady :: "rx_seed \<Rightarrow> rx_queue \<Rightarrow> bool" where
  "queue_isReady seed q \<longleftrightarrow>
     (case q_storage q of None \<Rightarrow> False
      | Some st \<Rightarrow> bs_isAllocated st \<and> q_state q = STATE_IDLE \<and> seed_isEqual (q_seed q) seed)"

definition queue_dataset :: "job \<Rightarrow> rx_queue \<Rightarrow> rx_dataset option" where
  "queue_dataset job q =
     (if queue_isReady (seed_of_job job) q then do { st \<leftarrow> q_storage q; storage_dataset job st } else None)"

definition queue_enqueue :: "rx_item \<Rightarrow> rx_queue \<Rightarrow> rx_queue" where
  "queue_enqueue item q =
     (let q = (if q_storage q = None then q\<lparr> q_storage := Some new_storage \<rparr> else q) in
      if q_state q = STATE_PENDING \<and> seed_isEqual (q_seed q) (it_seed item) then q
      else q\<lparr> q_pending := Some item, q_seed := it_seed item, q_state := STATE_PENDING \<rparr>)"

definition queue_shutdown :: "rx_queue \<Rightarrow> rx_queue" where
  "queue_shutdown q = q\<lparr> q_state := STATE_SHUTDOWN \<rparr>"

text \<open>\<open>backgroundInit\<close>. A waiting thread that is not woken stays where it is.\<close>

definition background_turn :: "rx_host \<Rightarrow> rx_queue \<times> rx_config \<Rightarrow> (rx_queue \<times> rx_config) option" where
  "background_turn host = (\<lambda>(q, cfg).
     case q_thread q of
       Waiting \<Rightarrow>
         (case q_state q of
            STATE_IDLE \<Rightarrow> Some (q, cfg)
          | STATE_SHUTDOWN \<Rightarrow> Some (q\<lparr> q_thread := Ended \<rparr>, cfg)
          | STATE_PENDING \<Rightarrow> do {
              item \<leftarrow> q_pending q;
              Some (q\<lparr> q_thread := Taken item, q_pending := None \<rparr>, cfg) })
     | Taken item \<Rightarrow> do {
         st \<leftarrow> q_storage q;
         let (st, cfg) = storage_setSeed (it_seed item) st cfg;
         Some (q\<lparr> q_storage := Some st, q_thread := Seeded item \<rparr>, cfg) }
     | Seeded item \<Rightarrow> do {
         st \<leftarrow> q_storage q;
         st \<leftarrow> storage_fill host cfg (it_threads item) (it_mode item) st;
         Some (q\<lparr> q_storage := Some st, q_thread := Filled item \<rparr>, cfg) }
     | Filled item \<Rightarrow>
         Some (if q_state q = STATE_SHUTDOWN \<or> q_pending q \<noteq> None then q\<lparr> q_thread := Waiting \<rparr>
               else q\<lparr> q_seed := it_seed item, q_state := STATE_IDLE, q_notified := True, q_thread := Waiting \<rparr>, cfg)
     | Ended \<Rightarrow> Some (q, cfg))"

text \<open>
  \<open>onReady\<close>: the notification is taken (notifications that were not yet taken are one), and whether the
  listener is called.
\<close>

definition queue_onReady :: "rx_queue \<Rightarrow> bool \<times> rx_queue" where
  "queue_onReady q = (q_state q = STATE_IDLE, q\<lparr> q_notified := False \<rparr>)"

end
