(* ===== verification/Miner.thy ===== *)
theory Miner
  imports RxQueue Nonce
begin

text \<open>
  What starts, pauses and stops the threads: \<^verbatim>\<open>core/Miner.cpp\<close>, \<^verbatim>\<open>crypto/rx/Rx.cpp\<close> and, as far as it acts on
  the others, \<^verbatim>\<open>backend/cpu/CpuBackend.cpp\<close> with \<^verbatim>\<open>backend/common/Workers.cpp\<close>. The main thread handles one call
  at a time; between its accesses to the queue and to the configuration the thread of the queue may
  move. Timer, logs, hash rates and the HTTP interface are left out. \<open>None\<close> is undefined behaviour or the
  initialisation of a cache that does not return.
\<close>

subsection \<open>The state\<close>

text \<open>
  The settings: whether mining on the processor is enabled, the threads and whether there is a profile for
  an algorithm, the number of threads and the mode for the dataset. Launch data are only compared.
\<close>

record 'l cpu_settings =
  cs_isEnabled :: bool
  cs_get :: "u32 \<Rightarrow> 'l list"
  cs_hasProfile :: "u32 \<Rightarrow> bool"
  cs_rxThreads :: nat
  cs_mode :: rx_mode

text \<open>
  Where the main thread is: between calls, in \<open>setJob\<close> after the first part (with the new job), before
  \<open>enqueue\<close> (with \<open>same_job_index\<close>), before the threads are resumed, in the destructor.
\<close>

datatype main_pc = Idle | InitRX job | EnqueueRX bool | ResumeJob | Destroying

record 'l miner =
  mi_algorithm :: u32
  mi_active :: bool
  mi_enabled :: bool
  mi_reset :: bool
  mi_job :: job
  mi_userJobId :: "bytes option"
  mi_threads :: "'l list"
  mi_nonce :: nonce_state
  mi_queue :: rx_queue
  mi_config :: rx_config
  mi_pc :: main_pc

definition miner_initial :: "'l miner" where
  "miner_initial = \<lparr> mi_algorithm = ALGO_INVALID, mi_active = False, mi_enabled = True, mi_reset = True,
     mi_job = new_job False ALGO_INVALID None, mi_userJobId = None, mi_threads = [], mi_nonce = nonce_initial,
     mi_queue = new_queue, mi_config = RandomX_ConfigurationBase, mi_pc = Idle \<rparr>"

subsection \<open>The backend\<close>

text \<open>\<open>CpuBackend::stop\<close> with \<open>Workers::stop\<close>, which waits for the threads to end.\<close>

definition backend_stop :: "'l miner \<Rightarrow> 'l miner option" where
  "backend_stop m =
     (if mi_threads m = [] then Some m
      else do {
        ns \<leftarrow> nonce_stop_backend Backend_CPU (mi_nonce m);
        ns \<leftarrow> nonce_touch_backend Backend_CPU ns;
        Some (m\<lparr> mi_nonce := ns, mi_threads := [] \<rparr>) })"

definition backend_setJob :: "'l cpu_settings \<Rightarrow> job \<Rightarrow> 'l miner \<Rightarrow> 'l miner option" where
  "backend_setJob cs job m =
     (if \<not> cs_isEnabled cs then backend_stop m
      else let threads = cs_get cs (j_algorithm job) in
        if mi_threads m \<noteq> [] \<and> mi_threads m = threads then Some m
        else if \<not> cs_hasProfile cs (j_algorithm job) \<or> threads = [] then backend_stop m
        else do {
          m \<leftarrow> backend_stop m;
          ns \<leftarrow> nonce_touch_backend Backend_CPU (mi_nonce m);
          Some (m\<lparr> mi_threads := threads, mi_nonce := ns \<rparr>) })"

subsection \<open>The miner\<close>

definition mi_isReady :: "job \<Rightarrow> 'l miner \<Rightarrow> bool" where
  "mi_isReady job m \<longleftrightarrow> queue_isReady (seed_of_job job) (mi_queue m)"

definition mi_pause :: "bool \<Rightarrow> 'l miner \<Rightarrow> 'l miner" where
  "mi_pause p m = m\<lparr> mi_nonce := nonce_pause p (mi_nonce m) \<rparr>"

definition mi_touch :: "'l miner \<Rightarrow> 'l miner" where
  "mi_touch m = m\<lparr> mi_nonce := nonce_touch (mi_nonce m) \<rparr>"

definition handleJobChange :: "'l cpu_settings \<Rightarrow> 'l miner \<Rightarrow> 'l miner option" where
  "handleJobChange cs m = do {
     let m = (if mi_enabled m then m else mi_pause True m);
     m \<leftarrow> (if mi_reset m
          then do { ns \<leftarrow> nonce_reset (unat (j_index (mi_job m))) (mi_nonce m); Some (m\<lparr> mi_nonce := ns \<rparr>) }
          else Some m);
     m \<leftarrow> backend_setJob cs (mi_job m) m;
     let m = mi_touch m;
     Some (if mi_active m \<and> mi_enabled m then mi_pause False m else m) }"

definition miner_stop :: "'l miner \<Rightarrow> 'l miner option" where
  "miner_stop m = backend_stop (m\<lparr> mi_nonce := nonce_stop (mi_nonce m) \<rparr>)"

definition miner_pause :: "'l miner \<Rightarrow> 'l miner" where
  "miner_pause m = mi_touch (mi_pause True (m\<lparr> mi_active := False \<rparr>))"

text \<open>\<open>battery\<close>: the settings ask for a pause on battery power, and there is no other.\<close>

definition setEnabled :: "bool \<Rightarrow> bool \<Rightarrow> 'l miner \<Rightarrow> 'l miner" where
  "setEnabled battery enabled m =
     (if mi_enabled m = enabled then m
      else if battery \<and> enabled then m
      else let m = m\<lparr> mi_enabled := enabled \<rparr> in
        if \<not> mi_active m then m else mi_touch (mi_pause (\<not> enabled) m))"

text \<open>\<open>setJob\<close>, in three parts.\<close>

definition setJob_begin :: "job \<Rightarrow> 'l miner \<Rightarrow> 'l miner option" where
  "setJob_begin job m = do {
     m \<leftarrow> (if algo_family (j_algorithm job) = RANDOM_X
          then if mi_algorithm m \<noteq> j_algorithm job
               then do { m \<leftarrow> miner_stop m; Some (m\<lparr> mi_config := RxAlgo_apply (j_algorithm job) \<rparr>) }
               else if \<not> mi_isReady job m then Some (mi_touch (mi_pause True m))
               else Some m
          else Some m);
     Some (m\<lparr> mi_algorithm := j_algorithm job, mi_pc := InitRX job \<rparr>) }"

definition setJob_init :: "job \<Rightarrow> 'l miner \<Rightarrow> 'l miner" where
  "setJob_init job m =
     (let same_job_index = (j_index (mi_job m) = 0);
          reset = (mi_userJobId m \<noteq> j_id job \<and> \<not> isEqualBlob (mi_job m) job);
          m = m\<lparr> mi_reset := reset, mi_job := (job_copy job (mi_job m))\<lparr> j_index := 0 \<rparr>, mi_userJobId := j_id job \<rparr>
      in if algo_family (j_algorithm job) \<noteq> RANDOM_X \<or> mi_isReady (mi_job m) m
         then m\<lparr> mi_pc := ResumeJob \<rparr> else m\<lparr> mi_pc := EnqueueRX same_job_index \<rparr>)"

definition setJob_enqueue :: "'l cpu_settings \<Rightarrow> bool \<Rightarrow> 'l miner \<Rightarrow> 'l miner" where
  "setJob_enqueue cs same_job_index m =
     (let item = \<lparr> it_seed = seed_of_job (mi_job m), it_threads = cs_rxThreads cs, it_mode = cs_mode cs \<rparr> in
      m\<lparr> mi_queue := queue_enqueue item (mi_queue m), mi_reset := mi_reset m \<or> same_job_index,
         mi_active := True, mi_pc := Idle \<rparr>)"

definition onDatasetReady :: "'l cpu_settings \<Rightarrow> 'l miner \<Rightarrow> 'l miner option" where
  "onDatasetReady cs m = (if mi_isReady (mi_job m) m then handleJobChange cs m else Some m)"

subsection \<open>Events\<close>

text \<open>\<open>Async\<close> is the notification of the queue, \<open>Background\<close> a turn of its thread.\<close>

datatype miner_event =
    SetJob job
  | Continue
  | Async
  | SetEnabled bool bool
  | PauseMiner
  | StopMiner
  | Destroy
  | Background rx_host

definition miner_may :: "'l miner \<Rightarrow> miner_event \<Rightarrow> bool" where
  "miner_may m e =
     (case e of Background host \<Rightarrow> True
      | Continue \<Rightarrow> mi_pc m \<noteq> Idle \<and> mi_pc m \<noteq> Destroying
      | Async \<Rightarrow> mi_pc m = Idle \<and> q_notified (mi_queue m)
      | _ \<Rightarrow> mi_pc m = Idle)"

definition miner_continue :: "'l cpu_settings \<Rightarrow> 'l miner \<Rightarrow> 'l miner option" where
  "miner_continue cs m =
     (case mi_pc m of
        InitRX job \<Rightarrow> Some (setJob_init job m)
      | EnqueueRX same \<Rightarrow> Some (setJob_enqueue cs same m)
      | ResumeJob \<Rightarrow> handleJobChange cs (m\<lparr> mi_active := True, mi_pc := Idle \<rparr>)
      | _ \<Rightarrow> Some m)"

definition miner_event :: "'l cpu_settings \<Rightarrow> miner_event \<Rightarrow> 'l miner \<Rightarrow> 'l miner option" where
  "miner_event cs e m =
     (case e of
        SetJob job \<Rightarrow> setJob_begin job m
      | Continue \<Rightarrow> miner_continue cs m
      | Async \<Rightarrow>
          (case queue_onReady (mi_queue m) of (ready, q) \<Rightarrow>
             let m = m\<lparr> mi_queue := q \<rparr> in if ready then onDatasetReady cs m else Some m)
      | SetEnabled battery enabled \<Rightarrow> Some (setEnabled battery enabled m)
      | PauseMiner \<Rightarrow> Some (miner_pause m)
      | StopMiner \<Rightarrow> miner_stop m
      | Destroy \<Rightarrow> Some (m\<lparr> mi_queue := queue_shutdown (mi_queue m), mi_pc := Destroying \<rparr>)
      | Background host \<Rightarrow> do {
          (q, cfg) \<leftarrow> background_turn host (mi_queue m, mi_config m);
          Some (m\<lparr> mi_queue := q, mi_config := cfg \<rparr>) })"

primrec miner_run :: "'l cpu_settings \<Rightarrow> miner_event list \<Rightarrow> 'l miner \<Rightarrow> 'l miner option" where
  "miner_run cs [] m = Some m"
| "miner_run cs (e # es) m =
     (if miner_may m e then do { m \<leftarrow> miner_event cs e m; miner_run cs es m } else None)"

end
