(* ===== verification/RxDatasetProps.thy ===== *)
theory RxDatasetProps
  imports RxDataset VmSpec
begin

text \<open>
  Initialising the dataset with any number of threads under any schedule fills it as one thread
  would, copies to other nodes are exact under any schedule, and scratchpads never overlap.
\<close>

subsection \<open>Threads that do their work\<close>

text \<open>
  If every write succeeds, establishes its own fact and keeps the facts of the others, then all facts
  hold once the threads have ended.
\<close>

lemma run_all_done:
  assumes "\<And>w m. w \<in> W \<Longrightarrow> I m \<Longrightarrow> succeeds (step w m) (\<lambda>m'. I m' \<and> D w m' \<and> (\<forall>v. D v m \<longrightarrow> D v m'))"
    and "set ws \<subseteq> W" "I m"
  shows "succeeds (run_all step ws m) (\<lambda>m'. I m' \<and> (\<forall>v. v \<in> set ws \<or> D v m \<longrightarrow> D v m'))"
  using assms(2,3)
proof (induction ws arbitrary: m)
  case (Cons w ws)
  have "succeeds (step w m) (\<lambda>m'. I m' \<and> D w m' \<and> (\<forall>v. D v m \<longrightarrow> D v m'))"
    using Cons.prems by (intro assms(1)) auto
  then show ?case
    unfolding run_all.simps
    by (rule succeeds_bind) (rule succeeds_weaken [OF Cons.IH], use Cons.prems in auto)
qed simp

lemma concat_update_tl:
  assumes "t < length threads" "threads ! t = w # rest"
  shows "set (concat threads) = insert w (set (concat (threads[t := rest])))"
proof -
  have "threads = take t threads @ (w # rest) # drop (Suc t) threads"
    using assms by (metis id_take_nth_drop)
  moreover have "threads[t := rest] = take t threads @ rest # drop (Suc t) threads"
    using assms(1) by (simp add: upd_conv_take_nth_drop)
  ultimately show ?thesis by (metis (no_types, lifting) Un_insert_right concat.simps(2) concat_append list.set(2) set_append Un_insert_left)
qed

lemma run_threads_done:
  assumes step: "\<And>w m. w \<in> W \<Longrightarrow> I m \<Longrightarrow> succeeds (step w m) (\<lambda>m'. I m' \<and> D w m' \<and> (\<forall>v. D v m \<longrightarrow> D v m'))"
    and "set (concat threads) \<subseteq> W" "I m"
  shows "succeeds (run_threads step schedule threads m)
    (\<lambda>m'. I m' \<and> (\<forall>v. v \<in> set (concat threads) \<or> D v m \<longrightarrow> D v m'))"
  using assms(2,3)
proof (induction schedule arbitrary: threads m)
  case Nil
  then show ?case unfolding run_threads.simps by (intro run_all_done [where W = W]) (simp_all add: step)
next
  case (Cons t schedule)
  show ?case
  proof (cases "t < length threads \<and> threads ! t \<noteq> []")
    case True
    then obtain w rest where w: "threads ! t = w # rest" by (cases "threads ! t") auto
    note parts = concat_update_tl [OF conjunct1 [OF True] w]
    have wrote: "succeeds (step w m) (\<lambda>m'. I m' \<and> D w m' \<and> (\<forall>v. D v m \<longrightarrow> D v m'))"
      using Cons.prems parts by (intro step) auto
    have turn: "run_threads step (t # schedule) threads m =
        do { m \<leftarrow> step w m; run_threads step schedule (threads[t := rest]) m }"
      using True w by simp
    show ?thesis
      unfolding turn by (rule succeeds_bind [OF wrote]) (rule succeeds_weaken [OF Cons.IH], use Cons.prems parts in auto)
  next
    case False
    then have "run_threads step (t # schedule) threads m = run_threads step schedule threads m" by auto
    then show ?thesis using Cons by simp
  qed
qed

subsection \<open>Writing items\<close>

text \<open>What is kept while items are written, and what the write of an item establishes.\<close>

definition items_in :: "bytes \<Rightarrow> bytes \<Rightarrow> bool" where
  "items_in memory m \<longleftrightarrow> length m = length memory \<and> drop dataset_size m = drop dataset_size memory"

definition item_at :: "randomx_cache \<Rightarrow> nat \<Rightarrow> bytes \<Rightarrow> bool" where
  "item_at cache i m \<longleftrightarrow> get_bytes m (64 * i) 64 = initDatasetItem cache (of_nat i)"

lemma put_bytes_drop:
  assumes "put_bytes m off bs = Some m'" "off + length bs \<le> n"
  shows "drop n m' = drop n m"
  using assms by (auto simp: put_bytes_def split: if_splits)

lemma item_count_eq: "randomx_dataset_item_count = 34078719"
  by (simp add: randomx_dataset_item_count_def rx_const_defs)

lemma write_item_writes:
  assumes "cache_ok cache" "dataset_size \<le> length memory" "i < randomx_dataset_item_count" "items_in memory m"
  shows "succeeds (write_item cache i m)
    (\<lambda>m'. items_in memory m' \<and> item_at cache i m' \<and> (\<forall>j. item_at cache j m \<longrightarrow> item_at cache j m'))"
proof -
  obtain line where line: "initDatasetItem cache (of_nat i) = Some line" "length line = 64"
    using initDatasetItem_ok [OF assms(1)] by (blast elim: succeedsE)
  have room: "64 * i + 64 \<le> dataset_size"
    using assms(3) by (simp add: dataset_size_eq item_count_eq)
  obtain m' where m': "put_bytes m (64 * i) line = Some m'"
    using room assms(2,4) line(2) by (simp add: put_bytes_Some items_in_def)
  have at: "item_at cache i m'"
    using get_put_same [OF m'] line by (simp add: item_at_def)
  have "item_at cache j m'" if "item_at cache j m" for j
  proof (cases "j = i")
    case False
    then have "64 * j + 64 \<le> 64 * i \<or> 64 * i + length line \<le> 64 * j" using line(2) by linarith
    then show ?thesis using get_put_disjoint [OF m'] that by (simp add: item_at_def)
  qed (use at in simp)
  moreover have "items_in memory m'"
    using put_bytes_length [OF m'] put_bytes_drop [OF m'] line(2) room assms(4) by (simp add: items_in_def)
  ultimately show ?thesis using at line(1) m' by (simp add: write_item_def rx_const_defs mult.commute)
qed

lemma run_all_append: "run_all step (xs @ ys) m = do { m \<leftarrow> run_all step xs m; run_all step ys m }"
  by (induction xs arbitrary: m) simp_all

text \<open>A call of \<open>randomx_init_dataset\<close> writes the items of its range one after the other.\<close>

lemma initDataset_from_items:
  "a \<le> b \<Longrightarrow> off = 64 * unat a \<Longrightarrow>
    initDataset_from cache m off a b = run_all (write_item cache) [unat a ..< unat b] m"
proof (induction cache m off a b rule: initDataset_from.induct)
  case (1 cache m off a b)
  have cls: "CacheLineSize = 64" by (simp add: rx_const_defs)
  have of_nat: "of_nat (unat a) = (ucast a :: u64)" by simp
  show ?case
  proof (cases "a < b")
    case False
    then have "a = b" using "1.prems" by simp
    then show ?thesis by (subst initDataset_from.simps) simp
  next
    case True
    have less: "unat a < unat b" using True by (simp add: word_less_nat_alt)
    have next_le: "a + 1 \<le> b" using True unat_next [OF True] by (simp add: word_le_nat_alt word_less_nat_alt)
    have off: "off + CacheLineSize = 64 * unat (a + 1)" using "1.prems"(2) unat_next [OF True] by (simp add: cls)
    have upt: "[unat a ..< unat b] = unat a # [unat (a + 1) ..< unat b]"
      using less unat_next [OF True] by (simp add: upt_conv_Cons)
    show ?thesis
    proof (cases "initDatasetItem cache (ucast a)")
      case None
      then show ?thesis
        using True by (subst initDataset_from.simps) (simp add: upt write_item_def [of cache "unat a"])
    next
      case line: (Some line)
      show ?thesis
      proof (cases "put_bytes m off line")
        case None
        then show ?thesis
          using True line "1.prems"(2)
          by (subst initDataset_from.simps) (simp add: upt write_item_def [of cache "unat a"] cls mult.commute)
      next
        case (Some m')
        from "1.IH" [OF True line Some next_le off] show ?thesis
          using True line Some "1.prems"(2)
          by (subst initDataset_from.simps) (simp add: upt write_item_def [of cache "unat a"] cls mult.commute)
      qed
    qed
  qed
qed

lemma randomx_init_dataset_items:
  assumes "a < randomx_dataset_item_count" "a + n \<le> randomx_dataset_item_count"
  shows "randomx_init_dataset m cache a n = run_all (write_item cache) [a ..< a + n] m"
proof -
  have word: "unat (of_nat k :: u32) = k" if "k \<le> randomx_dataset_item_count" for k
    using that by (simp add: item_count_eq unsigned_of_nat take_bit_eq_mod)
  have "(of_nat a :: u32) \<le> of_nat (a + n)"
    using assms word [of a] word [of "a + n"] by (simp add: word_le_nat_alt)
  then show ?thesis
    using assms initDataset_from_items [of "of_nat a" "of_nat (a + n)" "64 * a" cache m]
      word [of a] word [of "a + n"]
    by (simp add: randomx_init_dataset_def initDataset_def rx_const_defs mult.commute)
qed

lemma init_calls_items:
  assumes "\<forall>(a, n) \<in> set cs. unat a < randomx_dataset_item_count \<and> unat a + unat n \<le> randomx_dataset_item_count"
  shows "init_calls cache cs m = run_all (write_item cache) (concat (map (\<lambda>(a, n). [unat a ..< unat a + unat n]) cs)) m"
  using assms
proof (induction cs arbitrary: m)
  case (Cons c cs)
  then show ?case
    by (cases c) (simp add: randomx_init_dataset_items run_all_append)
qed simp

subsection \<open>The slices cover the dataset\<close>

lemma alignDown_le: "unat (alignDown c a) \<le> unat c"
proof -
  have "c mod a \<le> c" by (simp add: word_le_nat_alt unat_mod)
  then have "unat (c - c mod a) = unat c - unat (c mod a)" by (simp add: unat_sub word_le_nat_alt)
  then show ?thesis by (simp add: alignDown_def)
qed

lemma alignDown_remainder:
  assumes "0 < unat a"
  shows "unat c < unat (alignDown c a) + unat a"
proof -
  have le: "c mod a \<le> c" by (simp add: word_le_nat_alt unat_mod)
  have "unat (c mod a) < unat a" using assms by (simp add: unat_mod)
  moreover have "unat (alignDown c a) = unat c - unat (c mod a)" using le by (simp add: alignDown_def unat_sub)
  moreover have "unat (c mod a) \<le> unat c" using le by (simp add: word_le_nat_alt)
  ultimately show ?thesis by linarith
qed

lemma slice_calls_cover:
  assumes "unat a + unat n < 2 ^ 32"
  shows "(\<Union>(b, k) \<in> set (slice_calls avx2 a n). {unat b ..< unat b + unat k}) = {unat a ..< unat a + unat n}"
    and "(b, k) \<in> set (slice_calls avx2 a n) \<Longrightarrow> unat a \<le> unat b \<and> unat b < unat a + unat n \<and> unat b + unat k \<le> unat a + unat n"
proof -
  let ?al = "alignDown n 5"
  have pos: "0 < unat n" if "n \<noteq> 0" using that by (simp add: unat_gt_0)
  have last: "unat (a + n - 5) = unat a + unat n - 5" if "5 \<le> n"
  proof -
    have five: "5 \<le> unat n" using that by (simp add: word_le_nat_alt)
    have sum: "unat (a + n) = unat a + unat n" using assms by (simp add: unat_word_ariths)
    then have "5 \<le> a + n" using five by (simp add: word_le_nat_alt)
    then show ?thesis using sum by (simp add: unat_sub)
  qed
  have al: "unat ?al \<le> unat n" "unat n < unat ?al + 5" using alignDown_le [of n 5] alignDown_remainder [of 5 n] by simp_all
  have "(\<Union>(b, k) \<in> set (slice_calls avx2 a n). {unat b ..< unat b + unat k}) = {unat a ..< unat a + unat n} \<and>
    (\<forall>(b, k) \<in> set (slice_calls avx2 a n). unat a \<le> unat b \<and> unat b < unat a + unat n \<and> unat b + unat k \<le> unat a + unat n)"
  proof (cases "n = 0")
    case True
    then show ?thesis by (simp add: slice_calls_def)
  next
    case nz: False
    show ?thesis
    proof (cases "avx2 \<and> ?al \<noteq> n \<and> 5 \<le> n")
      case True
      then have five: "5 \<le> unat n" by (simp add: word_le_nat_alt)
      then have "0 < unat ?al" using al by linarith
      then have "0 < ?al" by (simp add: unat_gt_0 word_gt_0)
      moreover have "{unat a ..< unat a + unat ?al} \<union> {unat a + unat n - 5 ..< unat a + unat n} = {unat a ..< unat a + unat n}"
        using al five by auto
      ultimately show ?thesis
        using True nz al five last by (auto simp: slice_calls_def Let_def)
    next
      case False
      then show ?thesis using nz pos by (auto simp: slice_calls_def Let_def)
    qed
  qed
  then show "(\<Union>(b, k) \<in> set (slice_calls avx2 a n). {unat b ..< unat b + unat k}) = {unat a ..< unat a + unat n}"
    "(b, k) \<in> set (slice_calls avx2 a n) \<Longrightarrow> unat a \<le> unat b \<and> unat b < unat a + unat n \<and> unat b + unat k \<le> unat a + unat n"
    by blast+
qed

lemma slice_items_set:
  assumes "unat (fst s) + unat (snd s) < 2 ^ 32"
  shows "set (slice_items avx2 s) = {unat (fst s) ..< unat (fst s) + unat (snd s)}"
  using slice_calls_cover(1) [OF assms] by (auto simp: slice_items_def split_beta)

text \<open>The bounds of the slices: \<open>count * i div n\<close>, without overflow for up to 256 threads.\<close>

definition slice_bound :: "nat \<Rightarrow> nat \<Rightarrow> nat" where
  "slice_bound n i = randomx_dataset_item_count * i div n"

lemma slice_bound_mono: "slice_bound n i \<le> slice_bound n (Suc i)"
  by (simp add: slice_bound_def div_le_mono)

lemma slice_bound_le: "i \<le> n \<Longrightarrow> slice_bound n i \<le> randomx_dataset_item_count"
  by (cases "n = 0") (simp_all add: slice_bound_def div_le_mono mult_le_mono2 order.trans [OF div_le_mono [of _ "randomx_dataset_item_count * n"]])

lemma unat_slice_bound:
  assumes "i \<le> 256" "0 < n" "n \<le> 256"
  shows "unat ((of_nat randomx_dataset_item_count * of_nat i div of_nat n) :: u64) = slice_bound n i"
proof -
  have "randomx_dataset_item_count * i \<le> 34078719 * 256"
    using assms(1) by (simp add: item_count_eq)
  then have "randomx_dataset_item_count * i < 2 ^ 64" by simp
  then have "unat (of_nat randomx_dataset_item_count * of_nat i :: u64) = randomx_dataset_item_count * i"
    unfolding of_nat_mult [symmetric] by (simp add: unsigned_of_nat take_bit_eq_mod del: of_nat_mult)
  moreover have "unat (of_nat n :: u64) = n" using assms(3) by (simp add: unsigned_of_nat take_bit_eq_mod)
  ultimately show ?thesis by (simp add: unat_div slice_bound_def)
qed

lemma dataset_slices_nth:
  assumes "i < n" "n \<le> 256"
  shows "unat (fst (dataset_slices n ! i)) = slice_bound n i"
    and "unat (snd (dataset_slices n ! i)) = slice_bound n (Suc i) - slice_bound n i"
proof -
  let ?c = "of_nat randomx_dataset_item_count :: u64"
  have a: "unat (?c * of_nat i div of_nat n) = slice_bound n i"
    using assms by (intro unat_slice_bound) auto
  have b: "unat (?c * (of_nat i + 1) div of_nat n) = slice_bound n (Suc i)"
    using unat_slice_bound [of "Suc i" n] assms by (simp add: add.commute)
  have small: "slice_bound n i < 2 ^ 32" "slice_bound n (Suc i) - slice_bound n i < 2 ^ 32"
    using slice_bound_le [of i n] slice_bound_le [of "Suc i" n] assms(1) by (simp_all add: item_count_eq)
  have "unat (?c * (of_nat i + 1) div of_nat n - ?c * of_nat i div of_nat n) = slice_bound n (Suc i) - slice_bound n i"
    using a b slice_bound_mono [of n i] by (simp add: unat_sub word_le_nat_alt)
  then show "unat (fst (dataset_slices n ! i)) = slice_bound n i"
    "unat (snd (dataset_slices n ! i)) = slice_bound n (Suc i) - slice_bound n i"
    using a small assms(1)
    by (simp_all add: dataset_slices_def Let_def unsigned_ucast_eq take_bit_eq_mod)
qed

lemma bounds_cover: "(\<Union>i < k. {slice_bound n i ..< slice_bound n (Suc i)}) = {slice_bound n 0 ..< slice_bound n k}"
proof (induction k)
  case (Suc k)
  have "slice_bound n 0 \<le> slice_bound n k"
    by (simp add: slice_bound_def)
  then show ?case
    using Suc slice_bound_mono [of n k] by (auto simp: lessThan_Suc)
qed simp

lemma slices_cover:
  assumes "0 < n" "n \<le> 256"
  shows "set (concat (map (slice_items avx2) (dataset_slices n))) = {0 ..< randomx_dataset_item_count}"
proof -
  have items: "set (slice_items avx2 (dataset_slices n ! i)) = {slice_bound n i ..< slice_bound n (Suc i)}" if "i < n" for i
  proof -
    note nth = dataset_slices_nth [OF that assms(2)]
    have "slice_bound n (Suc i) < 2 ^ 32" using slice_bound_le [of "Suc i" n] that by (simp add: item_count_eq)
    then show ?thesis
      using slice_items_set [of "dataset_slices n ! i" avx2] nth slice_bound_mono [of n i] by simp
  qed
  have len: "length (dataset_slices n) = n" by (simp add: dataset_slices_def)
  have "set (concat (map (slice_items avx2) (dataset_slices n))) = (\<Union>i < n. set (slice_items avx2 (dataset_slices n ! i)))"
  proof -
    have "set (dataset_slices n) = (\<lambda>i. dataset_slices n ! i) ` {..<n}" using len by (auto simp: set_conv_nth)
    then show ?thesis by simp
  qed
  also have "\<dots> = (\<Union>i < n. {slice_bound n i ..< slice_bound n (Suc i)})" using items by simp
  also have "\<dots> = {0 ..< randomx_dataset_item_count}"
    using assms(1) by (simp add: bounds_cover) (simp add: slice_bound_def)
  finally show ?thesis .
qed

subsection \<open>Initialisation\<close>

lemma dataset_of_items:
  assumes "items_in memory m" "dataset_size \<le> length memory"
    and "\<forall>i < randomx_dataset_item_count. item_at cache i m"
  shows "dataset_of cache m"
  using assms by (simp add: dataset_of_def items_in_def item_at_def)

lemma single_thread_fills:
  assumes "cache_ok cache" "dataset_size \<le> length memory"
  shows "succeeds (init_dataset_slice avx2 cache 0 (of_nat randomx_dataset_item_count) memory)
    (\<lambda>m. items_in memory m \<and> (\<forall>i < randomx_dataset_item_count. item_at cache i m))"
proof -
  let ?n = "of_nat randomx_dataset_item_count :: u32"
  let ?cs = "slice_calls avx2 0 ?n"
  have n: "unat ?n = randomx_dataset_item_count" by (simp add: item_count_eq)
  have small: "unat (0 :: u32) + unat ?n < 2 ^ 32" by (simp add: n) (simp add: item_count_eq)
  note cover = slice_calls_cover(1) [OF small, of avx2] slice_calls_cover(2) [OF small, of _ _ avx2]
  have "init_calls cache ?cs memory = run_all (write_item cache) (concat (map (\<lambda>(a, n). [unat a ..< unat a + unat n]) ?cs)) memory"
    using cover(2) n by (intro init_calls_items) (auto simp: split_beta)
  moreover have "set (concat (map (\<lambda>(a, n). [unat a ..< unat a + unat n]) ?cs)) = {..< randomx_dataset_item_count}"
    using cover(1) n by (auto simp: split_beta lessThan_atLeast0)
  ultimately show ?thesis
    unfolding init_dataset_slice_def
    by (auto intro!: succeeds_weaken [OF run_all_done [of "{..< randomx_dataset_item_count}" "items_in memory" "write_item cache" "item_at cache"]]
        write_item_writes [OF assms] simp: items_in_def)
qed

lemma threads_fill:
  assumes "cache_ok cache" "dataset_size \<le> length memory" "0 < n" "n \<le> 256"
  shows "succeeds (run_threads (write_item cache) schedule (map (slice_items avx2) (dataset_slices n)) memory)
    (\<lambda>m. items_in memory m \<and> (\<forall>i < randomx_dataset_item_count. item_at cache i m))"
proof -
  have "succeeds (run_threads (write_item cache) schedule (map (slice_items avx2) (dataset_slices n)) memory)
    (\<lambda>m. items_in memory m \<and> (\<forall>i. i \<in> set (concat (map (slice_items avx2) (dataset_slices n))) \<or> item_at cache i memory \<longrightarrow> item_at cache i m))"
    using slices_cover [OF assms(3,4), of avx2]
    by (intro run_threads_done [where W = "{..< randomx_dataset_item_count}"] write_item_writes [OF assms(1,2)])
      (auto simp: items_in_def)
  then show ?thesis
    by (rule succeeds_weaken) (auto simp only: slices_cover [OF assms(3,4)], auto)
qed

lemma fill_dataset_fills:
  assumes "cache_ok cache" "dataset_size \<le> length memory"
  shows "succeeds (fill_dataset avx2 schedule numThreads cache memory)
    (\<lambda>m. items_in memory m \<and> (\<forall>i < randomx_dataset_item_count. item_at cache i m))"
proof -
  let ?n = "min (max numThreads 1) MAX_DATASET_THREADS"
  have n: "0 < ?n" "?n \<le> 256" by (simp_all add: MAX_DATASET_THREADS_def)
  show ?thesis
    using single_thread_fills [OF assms] threads_fill [OF assms n]
    unfolding fill_dataset_def Let_def
    by (cases "?n \<le> 1") (simp_all only: if_True if_False simp_thms)
qed

lemma RxDataset_init_fills:
  assumes "rd_cache d = Some c" "rc_cache c \<noteq> None" "rc_seed c \<noteq> seed"
    and "rd_dataset d = Some memory" "dataset_size \<le> length memory"
    and "initialise seed = Some cache" "cache_ok cache"
  shows "\<exists>m. RxDataset_init initialise avx2 schedule seed numThreads d =
      Some (True, d\<lparr> rd_cache := Some \<lparr> rc_seed = seed, rc_cache = Some cache \<rparr>, rd_dataset := Some m \<rparr>) \<and>
    dataset_of cache m \<and> length m = length memory \<and> drop dataset_size m = drop dataset_size memory"
proof -
  obtain m where m: "fill_dataset avx2 schedule numThreads cache memory = Some m"
    "items_in memory m" "\<forall>i < randomx_dataset_item_count. item_at cache i m"
    using fill_dataset_fills [OF assms(7,5), of avx2 schedule numThreads] by (auto elim: succeedsE)
  have "RxDataset_init initialise avx2 schedule seed numThreads d =
      Some (True, d\<lparr> rd_cache := Some \<lparr> rc_seed = seed, rc_cache = Some cache \<rparr>, rd_dataset := Some m \<rparr>)"
    using assms(1-4,6) m(1) by (cases c) (simp add: RxDataset_init_def RxCache_init_def)
  then show ?thesis
    using m(2) dataset_of_items [OF m(2) assms(5) m(3)] by (intro exI [of _ m]) (simp add: items_in_def)
qed

text \<open>
  C36. However many threads initialise the dataset, with or without the vector unit, and in whatever order
  their writes are made, the dataset holds every item of the cache of the new seed, and nothing behind
  it is touched. It is what the full machine needs to agree with the light one.
\<close>

theorem threads_fill_dataset:
  assumes "rd_cache d = Some c" "rc_cache c \<noteq> None" "rc_seed c \<noteq> seed"
    and "rd_dataset d = Some memory" "dataset_size \<le> length memory"
    and "initCache cfg fill seed = Some cache" "\<And>ctx n. length (fill ctx n) = n"
  shows "\<exists>m d'. RxDataset_init (initCache cfg fill) avx2 schedule seed numThreads d = Some (True, d') \<and>
    rd_dataset d' = Some m \<and> dataset_of cache m \<and> length m = length memory \<and>
    drop dataset_size m = drop dataset_size memory \<and>
    rd_cache d' = Some \<lparr> rc_seed = seed, rc_cache = Some cache \<rparr>"
  using RxDataset_init_fills [where initialise = "initCache cfg fill", OF assms(1-6) initCache_ok [OF assms(6,7)], of avx2 schedule numThreads] by fastforce

theorem threads_fill_dataset_witness:
  "\<exists>cache m d'. initCache flat_config zero_fill [1] = Some cache \<and> dataset_of cache m \<and>
    RxDataset_init (initCache flat_config zero_fill) True [3, 1, 1] [1] 4
      \<lparr> rd_dataset = Some (replicate 2181038080 0), rd_cache = Some (RxCache_new (Some cache)),
        rd_scratchpadLimit = 0, rd_scratchpadOffset = 0 \<rparr> = Some (True, d') \<and> rd_dataset d' = Some m"
proof -
  obtain cache where c: "initCache flat_config zero_fill [1] = Some cache" using flat_initCache by blast
  have "\<exists>m d'. RxDataset_init (initCache flat_config zero_fill) True [3, 1, 1] [1] 4
      \<lparr> rd_dataset = Some (replicate 2181038080 0), rd_cache = Some (RxCache_new (Some cache)),
        rd_scratchpadLimit = 0, rd_scratchpadOffset = 0 \<rparr> = Some (True, d') \<and>
    rd_dataset d' = Some m \<and> dataset_of cache m \<and> length m = length (replicate 2181038080 (0 :: u8)) \<and>
    drop dataset_size m = drop dataset_size (replicate 2181038080 0) \<and>
    rd_cache d' = Some \<lparr> rc_seed = [1], rc_cache = Some cache \<rparr>"
    
    by (rule threads_fill_dataset [where c = "RxCache_new (Some cache)", OF _ _ _ _ _ c]) (simp_all add: RxCache_new_def dataset_size_eq zero_fill_def)
  then show ?thesis using c by blast
qed

subsection \<open>Copies\<close>

lemma chunk_bounds:
  assumes "0 < t" "(n :: nat) \<le> t * s"
  shows "(\<Union>i \<in> {i. i < t \<and> i * s < n}. {i * s ..< i * s + min s (n - i * s)}) = {..< n}"
proof (intro equalityI subsetI)
  fix x assume "x \<in> {..< n}"
  then have x: "x < n" by simp
  have s: "0 < s" using x assms(2) by (cases "s = 0") auto
  have "x div s < t" using x assms(2) by (simp add: less_mult_imp_div_less mult.commute)
  moreover have "x div s * s \<le> x" "x < x div s * s + s"
    using s dividend_less_div_times [of s x] by simp_all
  moreover have "x div s * s < n" using x by (rule le_less_trans [OF div_times_less_eq_dividend])
  ultimately show "x \<in> (\<Union>i \<in> {i. i < t \<and> i * s < n}. {i * s ..< i * s + min s (n - i * s)})"
    using x by (intro UN_I [of "x div s"]) auto
qed auto

lemma copy_chunks_cover:
  assumes "0 < t" "0 < n"
  shows "set (concat (map (\<lambda>(off, len). [off ..< off + len]) (copy_chunks t n))) = {..< n}"
proof -
  have "n \<le> t * ((n + t - 1) div t)"
  proof -
    have "t * ((n + t - 1) div t) + (n + t - 1) mod t = n + t - 1" by simp
    moreover have "(n + t - 1) mod t < t" using assms(1) by simp
    ultimately show ?thesis using assms(1) by linarith
  qed
  from chunk_bounds [OF assms(1) this] show ?thesis
    by (auto simp: copy_chunks_def Let_def)
qed

lemma copy_byte_copies:
  assumes "i < n" "n \<le> length src" "n \<le> length dst" "length m = length dst \<and> drop n m = drop n dst"
  shows "succeeds (copy_byte src i m)
    (\<lambda>m'. (length m' = length dst \<and> drop n m' = drop n dst) \<and> m' ! i = src ! i \<and> (\<forall>j. m ! j = src ! j \<longrightarrow> m' ! j = src ! j))"
  using assms by (auto simp: copy_byte_def rd_Some wr_Some nth_list_update)

text \<open>Copying with threads under any schedule is the copy of the memory, and touches nothing behind it.\<close>

theorem parallelCopy_copies:
  assumes "n \<le> length src" "n \<le> length dst"
  shows "parallelCopy hw schedule dst src n = Some (take n src @ drop n dst)"
proof -
  let ?t = "optimalThreadCount hw 8"
  consider "n = 0" | "0 < n" "?t \<le> 1" | "0 < n" "1 < ?t" by linarith
  then show ?thesis
  proof cases
    case 2
    then show ?thesis using assms
      by (simp add: parallelCopy_def Let_def get_bytes_Some put_bytes_Some)
  next
    case 3
    have "succeeds (run_threads (copy_byte src) schedule (map (\<lambda>(off, len). [off ..< off + len]) (copy_chunks ?t n)) dst)
      (\<lambda>m. (length m = length dst \<and> drop n m = drop n dst) \<and>
        (\<forall>i. i \<in> set (concat (map (\<lambda>(off, len). [off ..< off + len]) (copy_chunks ?t n))) \<or> dst ! i = src ! i \<longrightarrow> m ! i = src ! i))"
      using copy_chunks_cover [of ?t n] 3 assms
      by (intro run_threads_done [where W = "{..< n}"] copy_byte_copies) auto
    then have "succeeds (run_threads (copy_byte src) schedule (map (\<lambda>(off, len). [off ..< off + len]) (copy_chunks ?t n)) dst)
      (\<lambda>m. m = take n src @ drop n dst)"
    proof (rule succeeds_weaken)
      fix m assume m: "(length m = length dst \<and> drop n m = drop n dst) \<and>
        (\<forall>i. i \<in> set (concat (map (\<lambda>(off, len). [off ..< off + len]) (copy_chunks ?t n))) \<or> dst ! i = src ! i \<longrightarrow> m ! i = src ! i)"
      have "0 < ?t" using 3 by simp
      note cover = copy_chunks_cover [OF this 3(1)]
      have "\<forall>i < n. m ! i = src ! i" using m unfolding cover by simp
      then have "take n m = take n src" using m assms by (intro nth_equalityI) auto
      then show "m = take n src @ drop n dst" using m append_take_drop_id [of n m] by metis
    qed
    then show ?thesis using 3 by (auto simp: parallelCopy_def Let_def elim: succeedsE)
  qed (simp add: parallelCopy_def)
qed

subsection \<open>Scratchpads\<close>

text \<open>The results of a number of calls, whichever threads make them: the counter is advanced atomically.\<close>

primrec scratchpads :: "nat \<Rightarrow> rx_dataset \<Rightarrow> u64 option list" where
  "scratchpads 0 d = []"
| "scratchpads (Suc k) d = (case tryAllocateScrathpad d of (p, d) \<Rightarrow> p # scratchpads k d)"

text \<open>
  The scratchpads handed out lie behind the dataset and the cache, inside the memory, and apart from each
  other, as long as the counter does not wrap around.
\<close>

lemma scratchpads_apart:
  "unat (rd_scratchpadOffset d) + 2097152 * k < 2 ^ 64 \<Longrightarrow> i < k \<Longrightarrow> scratchpads k d ! i = Some off \<Longrightarrow>
    unat off = unat (rd_scratchpadOffset d) + 2097152 * i \<and> unat off + 2097152 \<le> unat (rd_scratchpadLimit d)"
proof (induction k arbitrary: d i)
  case (Suc k)
  have scratch: "(of_nat RANDOMX_SCRATCHPAD_L3_MAX_SIZE :: u64) = 2097152" by (simp add: rx_const_defs)
  have next_off: "unat (rd_scratchpadOffset d + 2097152) = unat (rd_scratchpadOffset d) + 2097152"
    using Suc.prems(1) by (simp add: unat_word_ariths)
  show ?case
  proof (cases i)
    case 0
    then show ?thesis
      using Suc.prems(3)
      by (auto simp: tryAllocateScrathpad_def scratch Let_def word_less_nat_alt word_le_nat_alt unat_sub split: if_splits)
  next
    case (Suc j)
    let ?d = "snd (tryAllocateScrathpad d)"
    show ?thesis
    proof (cases "rd_dataset d")
      case None
      then have "tryAllocateScrathpad d = (None, d)" by (simp add: tryAllocateScrathpad_def)
      then have "scratchpads n d ! j \<noteq> Some off" if "j < n" for n j
        using that None by (induction n arbitrary: j) (auto simp: nth_Cons split: nat.splits)
      then show ?thesis using Suc.prems Suc \<open>tryAllocateScrathpad d = (None, d)\<close> by simp
    next
      case (Some m)
      then have d': "rd_scratchpadOffset ?d = rd_scratchpadOffset d + 2097152" "rd_scratchpadLimit ?d = rd_scratchpadLimit d"
        by (simp_all add: tryAllocateScrathpad_def scratch Let_def)
      have "scratchpads k ?d ! j = Some off" using Suc.prems(3) Suc by (simp split: prod.splits)
      then have "unat off = unat (rd_scratchpadOffset ?d) + 2097152 * j \<and> unat off + 2097152 \<le> unat (rd_scratchpadLimit ?d)"
        using Suc.prems(1,2) Suc d'(1) next_off by (intro Suc.IH) auto
      then show ?thesis using d' next_off Suc by simp
    qed
  qed
qed simp

end
