(* ===== verification/MinerProps.thy ===== *)
theory MinerProps
  imports Miner RxDatasetProps
begin

text \<open>
  Invariants of the miner and its queue: the dataset that is served belongs to the job, as long as all
  jobs are of one coin, and the queue always gets to the seed that was asked for last.
\<close>

subsection \<open>The contract of the cache\<close>

text \<open>
  What the queue relies on when it has a cache set: the cache can be read, and the two algorithms that count
  as equal give the same.
\<close>

locale cache_setter =
  fixes initialise :: "rx_config \<Rightarrow> bytes \<Rightarrow> randomx_cache option"
  assumes ready: "initialise cfg key = Some c \<Longrightarrow> cache_ok c"
    and same_cache: "initialise (RxAlgo_apply RX_V2) key = initialise (RxAlgo_apply RX_0) key"
begin

lemma equal_algo_cache:
  "isEqualSeedAlgo a b \<Longrightarrow> initialise (RxAlgo_apply a) key = initialise (RxAlgo_apply b) key"
  by (auto simp: isEqualSeedAlgo_def same_cache)

end

subsection \<open>\<open>initCache\<close> satisfies it\<close>

text \<open>Of the configuration only the latency enters the generator.\<close>

lemma scheduleUop_cong:
  "SuperscalarLatency cfg = SuperscalarLatency cfg' \<Longrightarrow>
    scheduleUop cfg commit uop busy cycle = scheduleUop cfg' commit uop busy cycle"
proof (induction cfg commit uop busy cycle rule: scheduleUop.induct)
  case (1 cfg commit uop busy cycle)
  then show ?case by (subst (1 2) scheduleUop.simps) (simp add: Let_def split: option.split)
qed

lemma schedule_pair_cong:
  "SuperscalarLatency cfg = SuperscalarLatency cfg' \<Longrightarrow>
    schedule_pair cfg commit m busy cycle = schedule_pair cfg' commit m busy cycle"
proof (induction cfg commit m busy cycle rule: schedule_pair.induct)
  case (1 cfg commit m busy cycle)
  have uop: "scheduleUop cfg = scheduleUop cfg'" by (intro ext scheduleUop_cong [OF "1.prems"])
  show ?case
    using 1 by (subst (1 2) schedule_pair.simps) (simp add: Let_def uop)
qed

lemma scheduleMop_cong:
  "SuperscalarLatency cfg = SuperscalarLatency cfg' \<Longrightarrow> scheduleMop cfg = scheduleMop cfg'"
  by (intro ext) (simp add: scheduleMop_def scheduleUop_cong [of cfg cfg'] schedule_pair_cong [of cfg cfg'])

lemma slot_step_cong:
  assumes "SuperscalarLatency cfg = SuperscalarLatency cfg'"
  shows "slot_step cfg = slot_step cfg'"
proof -
  have lim: "ss_limit cfg = ss_limit cfg'" using assms by (simp add: ss_limit_def)
  have ret: "retire cfg = retire cfg'"
    by (intro ext) (simp only: retire_def scheduleMop_cong [OF assms] assms)
  have iss: "issue cfg = issue cfg'"
    by (intro ext) (simp only: issue_def scheduleMop_cong [OF assms] ret)
  show ?thesis by (intro ext) (simp only: slot_step_def lim iss)
qed

lemma slot_loop_cong:
  "SuperscalarLatency cfg = SuperscalarLatency cfg' \<Longrightarrow> slot_loop cfg b i st = slot_loop cfg' b i st"
proof (induction cfg b i st rule: slot_loop.induct)
  case (1 cfg b i st)
  show ?case
    using 1 slot_step_cong [OF "1.prems"]
    by (subst (1 2) slot_loop.simps) (auto split: option.splits slot_result.splits)
qed

lemma decode_loop_cong:
  "SuperscalarLatency cfg = SuperscalarLatency cfg' \<Longrightarrow> decode_loop cfg n st = decode_loop cfg' n st"
proof (induction cfg n st rule: decode_loop.induct)
  case (1 cfg n st)
  have "ss_limit cfg = ss_limit cfg'" using "1.prems" by (simp add: ss_limit_def)
  then show ?case
    using 1 slot_loop_cong [OF "1.prems"]
    by (subst (1 2) decode_loop.simps) (auto split: option.splits prod.splits simp: Let_def)
qed

lemma initCache_cong:
  assumes "ArgonIterations cfg = ArgonIterations cfg'" "ArgonLanes cfg = ArgonLanes cfg'" "ArgonSalt cfg = ArgonSalt cfg'"
    and "SuperscalarLatency cfg = SuperscalarLatency cfg'"
  shows "initCache cfg fill key = initCache cfg' fill key"
proof -
  have gen: "generateSuperscalar cfg = generateSuperscalar cfg'"
    by (intro ext) (simp only: generateSuperscalar_def decode_loop_cong [OF assms(4)])
  have "generate_programs cfg n g = generate_programs cfg' n g" for n g
    by (induction n arbitrary: g) (simp_all add: gen)
  then show ?thesis by (simp add: initCache_def assms(1-3))
qed

text \<open>A memory fill that returns as many bytes as it is asked for, as Argon2 does, made from any function.\<close>

definition sized_fill :: "(argon2_context \<Rightarrow> nat \<Rightarrow> bytes) \<Rightarrow> argon2_context \<Rightarrow> nat \<Rightarrow> bytes" where
  "sized_fill fill ctx n = take n (fill ctx n @ replicate n 0)"

interpretation ic: cache_setter "\<lambda>cfg. initCache cfg (sized_fill fill)" for fill
proof
  fix cfg key c assume "initCache cfg (sized_fill fill) key = Some c"
  then show "cache_ok c" by (rule initCache_ok) (simp add: sized_fill_def)
next
  fix key
  show "initCache (RxAlgo_apply RX_V2) (sized_fill fill) key = initCache (RxAlgo_apply RX_0) (sized_fill fill) key"
    by (rule initCache_cong) (simp_all add: RxAlgo_apply_def RxAlgo_base_def algo_ids Apply_def Let_def RandomX_ConfigurationMoneroV2_def)
qed

subsection \<open>Reachable states\<close>

definition host_ok :: "(rx_config \<Rightarrow> bytes \<Rightarrow> randomx_cache option) \<Rightarrow> rx_host \<Rightarrow> bool" where
  "host_ok init host \<longleftrightarrow> h_initialise host = init \<and>
     (\<forall>raw. vm_raw (h_memory host) = Some raw \<longrightarrow> dataset_size \<le> length raw)"

definition event_ok ::
  "(rx_config \<Rightarrow> bytes \<Rightarrow> randomx_cache option) \<Rightarrow> (job \<Rightarrow> bool) \<Rightarrow> miner_event \<Rightarrow> bool" where
  "event_ok init jobs e =
     (case e of SetJob job \<Rightarrow> jobs job | Background host \<Rightarrow> host_ok init host | _ \<Rightarrow> True)"

inductive miner_reachable ::
  "'l cpu_settings \<Rightarrow> (rx_config \<Rightarrow> bytes \<Rightarrow> randomx_cache option) \<Rightarrow> (job \<Rightarrow> bool) \<Rightarrow> 'l miner \<Rightarrow> bool"
  for cs init jobs where
  initial: "miner_reachable cs init jobs miner_initial"
| event: "miner_reachable cs init jobs m \<Longrightarrow> miner_may m e \<Longrightarrow> event_ok init jobs e \<Longrightarrow>
    miner_event cs e m = Some m' \<Longrightarrow> miner_reachable cs init jobs m'"

lemma run_reachable:
  "miner_reachable cs init jobs m \<Longrightarrow> list_all (event_ok init jobs) es \<Longrightarrow> miner_run cs es m = Some m' \<Longrightarrow>
    miner_reachable cs init jobs m'"
  by (induction es arbitrary: m) (auto split: if_splits bind_splits intro: miner_reachable.event)

subsection \<open>The dataset that is served\<close>

text \<open>Jobs of one coin, with a seed.\<close>

definition coin_job :: "u32 \<Rightarrow> job \<Rightarrow> bool" where
  "coin_job a job \<longleftrightarrow> isEqualSeedAlgo a (j_algorithm job) \<and> j_seed job \<noteq> []"

definition config_of :: "u32 \<Rightarrow> rx_config \<Rightarrow> bool" where
  "config_of a cfg \<longleftrightarrow> (\<exists>b. isEqualSeedAlgo a b \<and> cfg = RxAlgo_apply b)"

definition item_ok :: "u32 \<Rightarrow> rx_item \<Rightarrow> bool" where
  "item_ok a i \<longleftrightarrow> isEqualSeedAlgo a (seed_algorithm (it_seed i)) \<and> seed_data (it_seed i) \<noteq> []"

fun busy_item :: "rx_thread \<Rightarrow> rx_item option" where
  "busy_item (Taken i) = Some i"
| "busy_item (Seeded i) = Some i"
| "busy_item (Filled i) = Some i"
| "busy_item Waiting = None"
| "busy_item Ended = None"

definition cache_of :: "(rx_config \<Rightarrow> bytes \<Rightarrow> randomx_cache option) \<Rightarrow> u32 \<Rightarrow> rx_cache \<Rightarrow> bool" where
  "cache_of init a c \<longleftrightarrow>
     (\<exists>cache. rc_cache c = Some cache \<and> (rc_seed c = [] \<or> init (RxAlgo_apply a) (rc_seed c) = Some cache))"

text \<open>A dataset, or a cache without a dataset, for a seed.\<close>

definition serves :: "(rx_config \<Rightarrow> bytes \<Rightarrow> randomx_cache option) \<Rightarrow> u32 \<Rightarrow> bytes \<Rightarrow> rx_dataset \<Rightarrow> bool" where
  "serves init a key d \<longleftrightarrow>
     (\<exists>cache. rd_cache d = Some \<lparr> rc_seed = key, rc_cache = Some cache \<rparr> \<and> init (RxAlgo_apply a) key = Some cache \<and>
       (\<forall>m. rd_dataset d = Some m \<longrightarrow> dataset_of cache m))"

definition dataset_ok :: "(rx_config \<Rightarrow> bytes \<Rightarrow> randomx_cache option) \<Rightarrow> u32 \<Rightarrow> rx_dataset \<Rightarrow> bool" where
  "dataset_ok init a d \<longleftrightarrow> (\<exists>c. rd_cache d = Some c \<and> cache_of init a c) \<and>
     (\<forall>m. rd_dataset d = Some m \<longrightarrow> dataset_size \<le> length m)"

definition storage_ok :: "(rx_config \<Rightarrow> bytes \<Rightarrow> randomx_cache option) \<Rightarrow> u32 \<Rightarrow> rx_storage \<Rightarrow> bool" where
  "storage_ok init a st \<longleftrightarrow>
     (bs_isAllocated st \<longleftrightarrow> bs_dataset st \<noteq> None) \<and>
     (\<forall>d. bs_dataset st = Some d \<longrightarrow> dataset_ok init a d) \<and>
     (seed_algorithm (bs_seed st) = ALGO_INVALID \<or> isEqualSeedAlgo a (seed_algorithm (bs_seed st))) \<and>
     (bs_ready st \<longrightarrow> isEqualSeedAlgo a (seed_algorithm (bs_seed st)) \<and>
       (\<forall>d. bs_dataset st = Some d \<longrightarrow> serves init a (seed_data (bs_seed st)) d))"

definition queue_ok ::
  "(rx_config \<Rightarrow> bytes \<Rightarrow> randomx_cache option) \<Rightarrow> u32 \<Rightarrow> rx_queue \<Rightarrow> rx_config \<Rightarrow> bool" where
  "queue_ok init a q cfg \<longleftrightarrow>
     (\<forall>st. q_storage q = Some st \<longrightarrow> storage_ok init a st \<and>
       (seed_algorithm (bs_seed st) = ALGO_INVALID \<or> config_of a cfg)) \<and>
     (\<forall>i. q_pending q = Some i \<or> busy_item (q_thread q) = Some i \<longrightarrow> item_ok a i \<and> q_storage q \<noteq> None) \<and>
     (\<forall>i. q_thread q = Seeded i \<or> q_thread q = Filled i \<longrightarrow>
       (\<exists>st. q_storage q = Some st \<and> bs_seed st = it_seed i \<and> (q_thread q = Seeded i \<longrightarrow> \<not> bs_ready st)))"

lemma equal_algo_refl [simp]: "isEqualSeedAlgo a a"
  by (simp add: isEqualSeedAlgo_def)

lemma equal_algo_sym: "isEqualSeedAlgo a b \<Longrightarrow> isEqualSeedAlgo b a"
  by (auto simp: isEqualSeedAlgo_def)

lemma equal_algo_trans: "isEqualSeedAlgo a b \<Longrightarrow> isEqualSeedAlgo b c \<Longrightarrow> isEqualSeedAlgo a c"
  by (auto simp: isEqualSeedAlgo_def)

lemma equal_algo_valid: "isEqualSeedAlgo a b \<Longrightarrow> a \<noteq> ALGO_INVALID \<Longrightarrow> b \<noteq> ALGO_INVALID"
  by (auto simp: isEqualSeedAlgo_def algo_ids)

lemma seed_isEqual_refl [simp]: "seed_isEqual s s"
  by (simp add: seed_isEqual_def)

lemma seed_isEqual_sym: "seed_isEqual s t \<Longrightarrow> seed_isEqual t s"
  by (simp add: seed_isEqual_def equal_algo_sym)

lemma seed_isEqual_trans: "seed_isEqual s t \<Longrightarrow> seed_isEqual t u \<Longrightarrow> seed_isEqual s u"
  by (auto simp: seed_isEqual_def intro: equal_algo_trans)

context cache_setter
begin

lemma config_cache: "config_of a cfg \<Longrightarrow> initialise cfg key = initialise (RxAlgo_apply a) key"
  using equal_algo_cache by (auto simp: config_of_def)

lemma init_serves:
  assumes d: "dataset_ok initialise a d" and cfg: "config_of a cfg" and key: "key \<noteq> []"
    and run: "RxDataset_init (initialise cfg) avx2 schedule key n d = Some (r, d')"
  shows "r \<and> serves initialise a key d' \<and> dataset_ok initialise a d'"
proof -
  obtain c cache0 where c: "rd_cache d = Some c" "rc_cache c = Some cache0"
    "rc_seed c = [] \<or> initialise (RxAlgo_apply a) (rc_seed c) = Some cache0"
    using d by (auto simp: dataset_ok_def cache_of_def)
  have "\<exists>cache. RxCache_init (initialise cfg) key c = Some (rc_seed c \<noteq> key, \<lparr> rc_seed = key, rc_cache = Some cache \<rparr>) \<and>
      initialise (RxAlgo_apply a) key = Some cache"
  proof (cases "rc_seed c = key")
    case True
    then show ?thesis using c key by (cases c) (auto simp: RxCache_init_def)
  next
    case False
    then have "initialise cfg key \<noteq> None"
      using run c by (cases "initialise cfg key") (auto simp: RxDataset_init_def RxCache_init_def)
    then show ?thesis
      using False c config_cache [OF cfg] by (cases c) (auto simp: RxCache_init_def)
  qed
  then obtain cache where cache: "RxCache_init (initialise cfg) key c = Some (rc_seed c \<noteq> key, \<lparr> rc_seed = key, rc_cache = Some cache \<rparr>)"
    "initialise (RxAlgo_apply a) key = Some cache" by blast
  show ?thesis
  proof (cases "rd_dataset d")
    case None
    then show ?thesis
      using run c cache by (auto simp: RxDataset_init_def serves_def dataset_ok_def cache_of_def)
  next
    case (Some m)
    then have room: "dataset_size \<le> length m" using d by (simp add: dataset_ok_def)
    obtain m' where m': "fill_dataset avx2 schedule n cache m = Some m'" "items_in m m'"
      "\<forall>i < randomx_dataset_item_count. item_at cache i m'"
      using fill_dataset_fills [OF ready [OF cache(2)] room, of avx2 schedule n] by (auto elim: succeedsE)
    have "dataset_of cache m'" by (rule dataset_of_items [OF m'(2) room m'(3)])
    then show ?thesis
      using run c cache Some m' room
      by (auto simp: RxDataset_init_def serves_def dataset_ok_def cache_of_def items_in_def)
  qed
qed

lemma created_ok:
  assumes "host_ok initialise host" "createDataset host mode st = Some (ok, st')"
  shows "if ok then \<exists>d. st' = st\<lparr> bs_dataset := Some d, bs_isAllocated := True \<rparr> \<and> dataset_ok initialise a d
    else st' = st\<lparr> bs_dataset := None, bs_isAllocated := False \<rparr>"
proof -
  have "rd_cache (RxDataset_new (h_memory host) True mode) = Some (RxCache_new (vm_cache (h_memory host)))"
    by (simp add: RxDataset_new_def Let_def)
  moreover have "rd_dataset (RxDataset_new (h_memory host) True mode) = Some m \<Longrightarrow> vm_raw (h_memory host) = Some m" for m
    by (auto simp: RxDataset_new_def RxDataset_allocate_def Let_def split: if_splits)
  ultimately show ?thesis
    using assms by (auto simp: createDataset_def Let_def host_ok_def dataset_ok_def cache_of_def RxCache_new_def split: if_splits)
qed

lemma storage_fill_ok:
  assumes host: "host_ok initialise host" and cfg: "config_of a cfg" and st: "storage_ok initialise a st" "\<not> bs_ready st"
    and seed: "isEqualSeedAlgo a (seed_algorithm (bs_seed st))" "seed_data (bs_seed st) \<noteq> []"
    and run: "storage_fill host cfg n mode st = Some st'"
  shows "storage_ok initialise a st' \<and> bs_seed st' = bs_seed st"
proof -
  obtain ok st1 where st1: "(if bs_dataset st = None then createDataset host mode st else Some (True, st)) = Some (ok, st1)"
    "(if ok then storage_initDataset host cfg n st1 else Some st1) = Some st'"
    using run by (auto simp: storage_fill_def split: bind_splits)
  have s1: "storage_ok initialise a st1 \<and> bs_seed st1 = bs_seed st"
    using st1(1) st created_ok [OF host, of mode st ok st1 a]
    by (auto simp: storage_ok_def split: if_splits)
  show ?thesis
  proof (cases ok)
    case False
    then show ?thesis using st1(2) s1 by simp
  next
    case True
    then obtain d r d' where d: "bs_dataset st1 = Some d"
      "RxDataset_init (h_initialise host cfg) (h_hasAVX2 host) (h_schedule host) (seed_data (bs_seed st1)) n d = Some (r, d')"
      "st' = st1\<lparr> bs_dataset := Some d', bs_ready := r \<rparr>"
      using st1(2) by (auto simp: storage_initDataset_def split: bind_splits)
    have "dataset_ok initialise a d" using s1 d(1) by (simp add: storage_ok_def)
    moreover have "h_initialise host = initialise" using host by (simp add: host_ok_def)
    ultimately have "r \<and> serves initialise a (seed_data (bs_seed st1)) d' \<and> dataset_ok initialise a d'"
      using d(2) seed s1 by (intro init_serves [OF _ cfg]) auto
    then show ?thesis using s1 d seed(1) by (auto simp: storage_ok_def)
  qed
qed

lemma background_turn_ok:
  assumes host: "host_ok initialise host" and q: "queue_ok initialise a q cfg" and a: "a \<noteq> ALGO_INVALID"
    and run: "background_turn host (q, cfg) = Some (q', cfg')"
  shows "queue_ok initialise a q' cfg'"
proof (cases "q_thread q")
  case Waiting
  then show ?thesis
    using run q by (auto simp: background_turn_def queue_ok_def split: queue_state.splits bind_splits)
next
  case (Taken i)
  then obtain st where st: "q_storage q = Some st" using q by (auto simp: queue_ok_def)
  have item: "isEqualSeedAlgo a (seed_algorithm (it_seed i))" using q Taken by (auto simp: queue_ok_def item_ok_def)
  have "seed_algorithm (it_seed i) \<noteq> ALGO_INVALID" using equal_algo_valid [OF item a] .
  then have "config_of a cfg'"
    using run Taken st q item
    by (auto simp: background_turn_def storage_setSeed_def queue_ok_def config_of_def split: if_splits)
  then show ?thesis
    using run Taken st q item
    by (auto simp: background_turn_def storage_setSeed_def queue_ok_def storage_ok_def)
next
  case (Seeded i)
  then obtain st where st: "q_storage q = Some st" "bs_seed st = it_seed i" "\<not> bs_ready st" using q by (auto simp: queue_ok_def)
  have item: "item_ok a i" using q Seeded by (auto simp: queue_ok_def)
  obtain st' where st': "storage_fill host cfg (it_threads i) (it_mode i) st = Some st'"
    "q' = q\<lparr> q_storage := Some st', q_thread := Filled i \<rparr>" "cfg' = cfg"
    using run Seeded st by (auto simp: background_turn_def split: bind_splits)
  have "seed_algorithm (bs_seed st) \<noteq> ALGO_INVALID" using item st(2) a equal_algo_valid by (auto simp: item_ok_def)
  then have "config_of a cfg" "storage_ok initialise a st" using q st by (auto simp: queue_ok_def)
  then have "storage_ok initialise a st' \<and> bs_seed st' = bs_seed st"
    using item st st'(1) \<open>config_of a cfg\<close> by (intro storage_fill_ok [OF host]) (auto simp: item_ok_def)
  then show ?thesis using q Seeded st st' \<open>config_of a cfg\<close> by (auto simp: queue_ok_def)
next
  case (Filled i)
  then show ?thesis
    using run q by (auto simp: background_turn_def queue_ok_def split: if_splits)
next
  case Ended
  then show ?thesis using run q by (auto simp: background_turn_def)
qed

lemma enqueue_ok:
  assumes "queue_ok initialise a q cfg" "item_ok a item"
  shows "queue_ok initialise a (queue_enqueue item q) cfg"
  using assms
  by (auto simp: queue_ok_def queue_enqueue_def Let_def storage_ok_def new_storage_def)

lemma config_change_ok:
  assumes "queue_ok initialise a q cfg" "isEqualSeedAlgo a b"
  shows "queue_ok initialise a q (RxAlgo_apply b)"
  using assms by (auto simp: queue_ok_def config_of_def)

lemma served:
  assumes "queue_ok initialise a q cfg" "a \<noteq> ALGO_INVALID" "queue_dataset job q = Some d"
  shows "isEqualSeedAlgo a (j_algorithm job) \<and> serves initialise a (j_seed job) d"
proof -
  obtain st where st: "q_storage q = Some st" "bs_ready st" "seed_isEqual (bs_seed st) (seed_of_job job)" "bs_dataset st = Some d"
    using assms(3) by (auto simp: queue_dataset_def storage_dataset_def split: if_splits bind_splits)
  have ok: "storage_ok initialise a st" using assms(1) st(1) by (simp add: queue_ok_def)
  then have serves: "serves initialise a (seed_data (bs_seed st)) d" using st by (simp add: storage_ok_def)
  have "isEqualSeedAlgo a (seed_algorithm (bs_seed st))" using ok st(2) by (simp add: storage_ok_def)
  then show ?thesis
    using serves st(3) by (auto simp: seed_isEqual_def seed_of_job_def intro: equal_algo_trans)
qed

text \<open>
  The miner: its queue, and that in \<open>setJob\<close> the job is one of the coin. Nothing but \<open>setJob\<close> and the
  queue changes what the invariant speaks of.
\<close>

definition miner_ok :: "u32 \<Rightarrow> 'l miner \<Rightarrow> bool" where
  "miner_ok a m \<longleftrightarrow> queue_ok initialise a (mi_queue m) (mi_config m) \<and>
     (\<forall>job. mi_pc m = InitRX job \<longrightarrow> coin_job a job) \<and> (\<forall>same. mi_pc m = EnqueueRX same \<longrightarrow> coin_job a (mi_job m))"

end

text \<open>Operations that leave the queue, the configuration, the job and the place in \<open>setJob\<close> alone.\<close>

definition same_queue :: "'l miner \<Rightarrow> 'l miner \<Rightarrow> bool" where
  "same_queue m m' \<longleftrightarrow> mi_queue m' = mi_queue m \<and> mi_config m' = mi_config m \<and> mi_job m' = mi_job m \<and>
     mi_pc m' = mi_pc m \<and> mi_userJobId m' = mi_userJobId m \<and> mi_algorithm m' = mi_algorithm m \<and> mi_enabled m' = mi_enabled m"

lemma same_queue_refl [simp]: "same_queue m m"
  by (simp add: same_queue_def)

lemma same_queue_trans: "same_queue m m' \<Longrightarrow> same_queue m' m'' \<Longrightarrow> same_queue m m''"
  by (simp add: same_queue_def)

lemma same_queue_ops [simp]: "same_queue m (mi_pause p m)" "same_queue m (mi_touch m)" "same_queue m (m\<lparr> mi_nonce := ns \<rparr>)"
  by (simp_all add: same_queue_def mi_pause_def mi_touch_def)

lemma backend_stop_same: "backend_stop m = Some m' \<Longrightarrow> same_queue m m' \<and> mi_active m' = mi_active m"
  by (auto simp: backend_stop_def same_queue_def split: if_splits bind_splits)

lemma backend_setJob_same:
  assumes "backend_setJob cs job m = Some m'"
  shows "same_queue m m' \<and> mi_active m' = mi_active m"
proof -
  have stop: "backend_stop m = Some x \<Longrightarrow> same_queue m x \<and> mi_active x = mi_active m" for x by (rule backend_stop_same)
  show ?thesis
    using assms stop
    by (auto simp: backend_setJob_def Let_def split: if_splits bind_splits) (auto simp: same_queue_def)
qed

lemma handleJobChange_same:
  assumes "handleJobChange cs m = Some m'"
  shows "same_queue m m' \<and> mi_active m' = mi_active m"
proof -
  let ?m = "if mi_enabled m then m else mi_pause True m"
  obtain m1 m2 where m1: "(if mi_reset ?m then do { ns \<leftarrow> nonce_reset (unat (j_index (mi_job ?m))) (mi_nonce ?m); Some (?m\<lparr> mi_nonce := ns \<rparr>) }
      else Some ?m) = Some m1" "backend_setJob cs (mi_job m1) m1 = Some m2"
    "m' = (if mi_active m2 \<and> mi_enabled m2 then mi_pause False (mi_touch m2) else mi_touch m2)"
    using assms by (auto simp: handleJobChange_def Let_def mi_touch_def split: bind_splits)
  have "same_queue m m1 \<and> mi_active m1 = mi_active m"
    using m1(1) by (auto simp: same_queue_def mi_pause_def split: if_splits bind_splits)
  moreover have "same_queue m1 m2 \<and> mi_active m2 = mi_active m1" by (rule backend_setJob_same [OF m1(2)])
  ultimately show ?thesis using m1(3) by (auto simp: same_queue_def mi_pause_def mi_touch_def)
qed

lemma miner_stop_same: "miner_stop m = Some m' \<Longrightarrow> same_queue m m' \<and> mi_active m' = mi_active m"
  unfolding miner_stop_def by (drule backend_stop_same) (simp add: same_queue_def)

context cache_setter
begin

lemma miner_ok_same: "same_queue m m' \<Longrightarrow> miner_ok a m' = miner_ok a m"
  by (simp add: miner_ok_def same_queue_def)

lemma miner_event_ok:
  assumes m: "miner_ok a m" and a: "a \<noteq> ALGO_INVALID" and ok: "event_ok initialise (coin_job a) e"
    and run: "miner_event cs e m = Some m'"
  shows "miner_ok a m'"
proof (cases e)
  case (SetJob job)
  then have job: "coin_job a job" using ok by (simp add: event_ok_def)
  then have equal: "isEqualSeedAlgo a (j_algorithm job)" by (simp add: coin_job_def)
  obtain m1 where m1: "queue_ok initialise a (mi_queue m1) (mi_config m1)"
    "m' = m1\<lparr> mi_algorithm := j_algorithm job, mi_pc := InitRX job \<rparr>"
  proof -
    have stopped: "queue_ok initialise a (mi_queue x) (RxAlgo_apply (j_algorithm job))" if "miner_stop m = Some x" for x
      using miner_stop_same [OF that] m by (auto simp: same_queue_def miner_ok_def intro: config_change_ok [OF _ equal])
    show ?thesis
      by (rule that [of "if algo_family (j_algorithm job) = RANDOM_X
            then if mi_algorithm m \<noteq> j_algorithm job
              then (the (miner_stop m))\<lparr> mi_config := RxAlgo_apply (j_algorithm job) \<rparr>
              else if \<not> mi_isReady job m then mi_touch (mi_pause True m) else m
            else m"])
        (use run SetJob m stopped in \<open>auto simp: miner_event_def setJob_begin_def miner_ok_def mi_touch_def mi_pause_def split: if_splits bind_splits\<close>)
  qed
  then show ?thesis using job by (simp add: miner_ok_def)
next
  case Continue
  show ?thesis
  proof (cases "mi_pc m")
    case (InitRX job)
    then have "coin_job a job" using m by (simp add: miner_ok_def)
    then have job: "coin_job a ((job_copy job (mi_job m))\<lparr> j_index := 0 \<rparr>)" by (simp add: coin_job_def job_copy_def)
    have "m' = setJob_init job m" using run Continue InitRX by (simp add: miner_event_def miner_continue_def)
    then show ?thesis
      using m job unfolding setJob_init_def Let_def by (auto simp: miner_ok_def split: if_split_asm)
  next
    case (EnqueueRX same)
    then have "item_ok a \<lparr> it_seed = seed_of_job (mi_job m), it_threads = cs_rxThreads cs, it_mode = cs_mode cs \<rparr>"
      using m by (simp add: miner_ok_def item_ok_def seed_of_job_def coin_job_def)
    then show ?thesis
      using run Continue EnqueueRX m enqueue_ok
      by (auto simp: miner_event_def miner_continue_def setJob_enqueue_def miner_ok_def Let_def)
  next
    case ResumeJob
    then have "handleJobChange cs (m\<lparr> mi_active := True, mi_pc := Idle \<rparr>) = Some m'"
      using run Continue by (simp add: miner_event_def miner_continue_def)
    from handleJobChange_same [OF this] show ?thesis using m by (simp add: same_queue_def miner_ok_def)
  qed (use run Continue m in \<open>simp_all add: miner_event_def miner_continue_def\<close>)
next
  case Async
  let ?m = "m\<lparr> mi_queue := snd (queue_onReady (mi_queue m)) \<rparr>"
  have m1: "miner_ok a ?m" using m by (simp add: miner_ok_def queue_onReady_def queue_ok_def)
  have "m' = ?m \<or> handleJobChange cs ?m = Some m'"
    using run Async by (auto simp: miner_event_def onDatasetReady_def queue_onReady_def Let_def split: if_splits)
  then show ?thesis using m1 handleJobChange_same miner_ok_same by blast
next
  case (SetEnabled battery enabled)
  then show ?thesis
    using run m by (auto simp: miner_event_def setEnabled_def Let_def mi_touch_def mi_pause_def miner_ok_def split: if_splits)
next
  case PauseMiner
  then show ?thesis using run m by (auto simp: miner_event_def miner_pause_def mi_touch_def mi_pause_def miner_ok_def)
next
  case StopMiner
  then have "miner_stop m = Some m'" using run by (simp add: miner_event_def)
  then show ?thesis using miner_stop_same miner_ok_same m by blast
next
  case Destroy
  then show ?thesis using run m by (auto simp: miner_event_def queue_shutdown_def miner_ok_def queue_ok_def)
next
  case (Background host)
  then obtain q cfg where q: "background_turn host (mi_queue m, mi_config m) = Some (q, cfg)"
    "m' = m\<lparr> mi_queue := q, mi_config := cfg \<rparr>"
    using run by (auto simp: miner_event_def split: bind_splits)
  have "queue_ok initialise a q cfg"
    using background_turn_ok [OF _ _ a q(1)] ok Background m by (simp add: event_ok_def miner_ok_def)
  then show ?thesis using q(2) m by (simp add: miner_ok_def)
qed

lemma miner_reachable_ok:
  assumes "miner_reachable cs initialise (coin_job a) m" "a \<noteq> ALGO_INVALID"
  shows "miner_ok a m"
  using assms
proof (induction rule: miner_reachable.induct)
  case initial
  then show ?case by (simp add: miner_ok_def miner_initial_def new_queue_def queue_ok_def)
qed (rule miner_event_ok)

lemma dataset_belongs_to_job:
  assumes "miner_reachable cs initialise (coin_job a) m" "a \<noteq> ALGO_INVALID" "queue_dataset job (mi_queue m) = Some d"
  shows "serves initialise (j_algorithm job) (j_seed job) d"
proof -
  have "queue_ok initialise a (mi_queue m) (mi_config m)" using miner_reachable_ok [OF assms(1,2)] by (simp add: miner_ok_def)
  from served [OF this assms(2,3)] have "isEqualSeedAlgo a (j_algorithm job)" "serves initialise a (j_seed job) d" by auto
  then show ?thesis using equal_algo_cache [of a "j_algorithm job"] by (simp add: serves_def)
qed

end

end
