(* ===== verification/MinerProgress.thy ===== *)
theory MinerProgress
  imports MinerProps
begin

text \<open>
  The queue always gets to the seed that was asked for last, and no call of the miner fails.
\<close>

subsection \<open>Progress of the queue\<close>

text \<open>
  While the queue is pending, the item that waits, or else the item worked on, has the seed asked for
  last; an idle queue has no item.
\<close>

definition queue_live :: "rx_queue \<Rightarrow> bool" where
  "queue_live q \<longleftrightarrow>
     (q_state q = STATE_PENDING \<longrightarrow>
        (case q_pending q of Some i \<Rightarrow> it_seed i = q_seed q
         | None \<Rightarrow> \<exists>i. busy_item (q_thread q) = Some i \<and> it_seed i = q_seed q)) \<and>
     (q_state q = STATE_IDLE \<longrightarrow> q_pending q = None \<and> q_thread q = Waiting) \<and>
     (q_thread q = Ended \<longrightarrow> q_state q = STATE_SHUTDOWN)"

lemma new_queue_live: "queue_live new_queue"
  by (simp add: queue_live_def new_queue_def)

lemma enqueue_live: "queue_live q \<Longrightarrow> q_state q \<noteq> STATE_SHUTDOWN \<Longrightarrow> queue_live (queue_enqueue item q)"
  by (auto simp: queue_live_def queue_enqueue_def Let_def split: option.splits)

lemma enqueue_seed: "seed_isEqual (q_seed (queue_enqueue item q)) (it_seed item)"
  by (simp add: queue_enqueue_def Let_def)

text \<open>Every turn keeps this, the seed, and the shutdown.\<close>

lemma background_turn_live:
  assumes "queue_live q" "background_turn host (q, cfg) = Some (q', cfg')"
  shows "queue_live q' \<and> q_seed q' = q_seed q \<and> (q_state q' = STATE_SHUTDOWN \<longleftrightarrow> q_state q = STATE_SHUTDOWN)"
proof (cases "q_thread q")
  case Waiting
  then show ?thesis
    using assms by (cases "q_state q") (auto simp: background_turn_def queue_live_def split: bind_splits option.splits)
next
  case (Filled i)
  then show ?thesis
    using assms by (cases "q_state q") (auto simp: background_turn_def queue_live_def split: if_splits option.splits)
qed (use assms in \<open>auto simp: background_turn_def queue_live_def split: bind_splits prod.splits option.splits\<close>)

text \<open>A storage that is filled for its seed.\<close>

definition filled :: "rx_storage \<Rightarrow> bool" where
  "filled st \<longleftrightarrow> bs_ready st \<and> bs_isAllocated st \<and> bs_dataset st \<noteq> None"

definition host_good :: "(rx_config \<Rightarrow> bytes \<Rightarrow> randomx_cache option) \<Rightarrow> rx_host \<Rightarrow> bool" where
  "host_good init host \<longleftrightarrow> host_ok init host \<and> vm_cache (h_memory host) \<noteq> None"

context cache_setter
begin

lemma init_returns:
  assumes d: "dataset_ok initialise a d" and returns: "\<exists>c. initialise cfg key = Some c" and key: "key \<noteq> []"
  shows "\<exists>d'. RxDataset_init (initialise cfg) avx2 schedule key n d = Some (True, d')"
proof -
  obtain c cache0 where c: "rd_cache d = Some c" "rc_cache c = Some cache0"
    "rc_seed c = [] \<or> initialise (RxAlgo_apply a) (rc_seed c) = Some cache0"
    using d by (auto simp: dataset_ok_def cache_of_def)
  obtain b c' cache where cache: "RxCache_init (initialise cfg) key c = Some (b, c')" "rc_cache c' = Some cache" "cache_ok cache"
  proof (cases "rc_seed c = key")
    case True
    then show ?thesis using that [of False c cache0] c key ready by (auto simp: RxCache_init_def)
  next
    case False
    obtain cache where "initialise cfg key = Some cache" using returns by blast
    then show ?thesis
      using that [of True "\<lparr> rc_seed = key, rc_cache = Some cache \<rparr>" cache] False c ready
      by (cases c) (auto simp: RxCache_init_def)
  qed
  show ?thesis
  proof (cases "rd_dataset d")
    case None
    then show ?thesis using c cache by (simp add: RxDataset_init_def)
  next
    case (Some m)
    then have "dataset_size \<le> length m" using d by (simp add: dataset_ok_def)
    then obtain m' where "fill_dataset avx2 schedule n cache m = Some m'"
      using fill_dataset_fills [OF cache(3), of m avx2 schedule n] by (auto elim: succeedsE)
    then show ?thesis using Some c cache by (simp add: RxDataset_init_def)
  qed
qed

lemma storage_fill_returns:
  assumes host: "host_ok initialise host" and st: "storage_ok initialise a st" and seed: "seed_data (bs_seed st) \<noteq> []"
    and returns: "\<And>key. \<exists>c. initialise cfg key = Some c"
  shows "\<exists>st'. storage_fill host cfg n mode st = Some st' \<and> bs_seed st' = bs_seed st \<and>
    (vm_cache (h_memory host) \<noteq> None \<or> bs_dataset st \<noteq> None \<longrightarrow> filled st')"
proof -
  obtain ok st1 where st1: "(if bs_dataset st = None then createDataset host mode st else Some (True, st)) = Some (ok, st1)"
    by (cases "bs_dataset st"; cases "vm_cache (h_memory host)")
      (auto simp: createDataset_def RxDataset_new_def RxCache_new_def Let_def)
  have ok: "vm_cache (h_memory host) \<noteq> None \<or> bs_dataset st \<noteq> None \<longrightarrow> ok"
    using st1 by (auto simp: createDataset_def RxDataset_new_def RxCache_new_def Let_def split: if_splits)
  have s1: "bs_seed st1 = bs_seed st \<and> (ok \<longrightarrow> bs_isAllocated st1 \<and> (\<exists>d. bs_dataset st1 = Some d \<and> dataset_ok initialise a d))"
    using st1 st created_ok [OF host, of mode st ok st1 a]
    by (auto simp: storage_ok_def split: if_splits)
  show ?thesis
  proof (cases ok)
    case False
    then show ?thesis using st1 s1 ok by (auto simp: storage_fill_def)
  next
    case True
    then obtain d where d: "bs_dataset st1 = Some d" "dataset_ok initialise a d" using s1 by blast
    have init: "h_initialise host = initialise" using host by (simp add: host_ok_def)
    obtain d' where "RxDataset_init (initialise cfg) (h_hasAVX2 host) (h_schedule host) (seed_data (bs_seed st)) n d = Some (True, d')"
      using init_returns [OF d(2) returns seed, of "h_hasAVX2 host" "h_schedule host" n] by blast
    then show ?thesis
      using True st1 s1 d init by (simp add: storage_fill_def storage_initDataset_def filled_def)
  qed
qed

lemma background_turn_returns:
  assumes host: "host_ok initialise host" and q: "queue_ok initialise a q cfg" and live: "queue_live q"
    and returns: "\<And>cfg key. \<exists>c. initialise cfg key = Some c"
  shows "\<exists>q' cfg'. background_turn host (q, cfg) = Some (q', cfg')"
proof (cases "q_thread q")
  case Waiting
  then show ?thesis
    using live by (cases "q_state q") (auto simp: background_turn_def queue_live_def split: option.splits)
next
  case (Taken i)
  then show ?thesis using q by (auto simp: background_turn_def queue_ok_def split: prod.splits)
next
  case (Seeded i)
  then obtain st where st: "q_storage q = Some st" "bs_seed st = it_seed i" using q by (auto simp: queue_ok_def)
  moreover have "storage_ok initialise a st" "seed_data (bs_seed st) \<noteq> []"
    using q st Seeded by (auto simp: queue_ok_def item_ok_def)
  ultimately obtain st' where "storage_fill host cfg (it_threads i) (it_mode i) st = Some st'"
    using storage_fill_returns [OF host _ _ returns, of a st cfg "it_threads i" "it_mode i"] by blast
  then show ?thesis using Seeded st by (simp add: background_turn_def)
qed (auto simp: background_turn_def)

end

text \<open>The turns that are left until the queue is idle, and what it then is.\<close>

fun thread_rank :: "rx_thread \<Rightarrow> nat" where
  "thread_rank (Taken i) = 3"
| "thread_rank (Seeded i) = 2"
| "thread_rank (Filled i) = 1"
| "thread_rank Waiting = 0"
| "thread_rank Ended = 0"

definition queue_rank :: "rx_queue \<Rightarrow> nat" where
  "queue_rank q = (if q_pending q = None then 0 else 4) + thread_rank (q_thread q)"

definition settled :: "rx_queue \<Rightarrow> bool" where
  "settled q \<longleftrightarrow> q_state q = STATE_IDLE \<and> q_notified q \<and>
     (\<exists>st. q_storage q = Some st \<and> filled st \<and> bs_seed st = q_seed q)"

text \<open>The item worked on is not one whose memory could not be had.\<close>

definition hopeful :: "rx_queue \<Rightarrow> bool" where
  "hopeful q \<longleftrightarrow> q_pending q \<noteq> None \<or>
     (\<forall>i st. q_thread q = Filled i \<and> q_storage q = Some st \<longrightarrow> filled st)"

primrec turns :: "rx_host \<Rightarrow> nat \<Rightarrow> rx_queue \<times> rx_config \<Rightarrow> (rx_queue \<times> rx_config) option" where
  "turns host 0 s = Some s"
| "turns host (Suc n) s = do { s \<leftarrow> background_turn host s; turns host n s }"

lemma thread_rank_le: "thread_rank t \<le> 3"
  by (cases t) simp_all

context cache_setter
begin

lemma turn_progresses:
  assumes host: "host_good initialise host" and q: "queue_ok initialise a q cfg" and live: "queue_live q"
    and pending: "q_state q = STATE_PENDING" and hope: "hopeful q"
    and returns: "\<And>cfg key. \<exists>c. initialise cfg key = Some c"
  shows "\<exists>q' cfg'. background_turn host (q, cfg) = Some (q', cfg') \<and>
    (settled q' \<or> q_state q' = STATE_PENDING \<and> hopeful q' \<and> queue_rank q' < queue_rank q)"
proof (cases "q_thread q")
  case Waiting
  then obtain i where "q_pending q = Some i" using live pending by (auto simp: queue_live_def split: option.splits)
  then show ?thesis using Waiting pending by (simp add: background_turn_def hopeful_def queue_rank_def)
next
  case (Taken i)
  then obtain st where "q_storage q = Some st" using q by (auto simp: queue_ok_def)
  then show ?thesis using Taken pending by (simp add: background_turn_def hopeful_def queue_rank_def storage_setSeed_def)
next
  case (Seeded i)
  then obtain st where st: "q_storage q = Some st" "bs_seed st = it_seed i" using q by (auto simp: queue_ok_def)
  moreover have "storage_ok initialise a st" "seed_data (bs_seed st) \<noteq> []"
    using q st Seeded by (auto simp: queue_ok_def item_ok_def)
  ultimately obtain st' where "storage_fill host cfg (it_threads i) (it_mode i) st = Some st'" "filled st'"
    using storage_fill_returns [OF _ _ _ returns, of host a st cfg "it_threads i" "it_mode i"] host
    by (auto simp: host_good_def)
  then show ?thesis using Seeded st pending by (simp add: background_turn_def hopeful_def queue_rank_def)
next
  case (Filled i)
  then obtain st where "q_storage q = Some st" "bs_seed st = it_seed i" using q by (auto simp: queue_ok_def)
  then show ?thesis
    using Filled pending hope by (auto simp: background_turn_def settled_def hopeful_def queue_rank_def)
next
  case Ended
  then show ?thesis using live pending by (simp add: queue_live_def)
qed

lemma queue_settles:
  assumes "host_good initialise host" "a \<noteq> ALGO_INVALID" "\<And>cfg key. \<exists>c. initialise cfg key = Some c"
    and "queue_ok initialise a q cfg" "queue_live q" "q_state q = STATE_PENDING" "hopeful q"
  shows "\<exists>n q' cfg'. n \<le> queue_rank q \<and> turns host n (q, cfg) = Some (q', cfg') \<and> settled q' \<and> q_seed q' = q_seed q"
  using assms(4-)
proof (induction "queue_rank q" arbitrary: q cfg rule: less_induct)
  case less
  obtain q' cfg' where step: "background_turn host (q, cfg) = Some (q', cfg')"
    "settled q' \<or> q_state q' = STATE_PENDING \<and> hopeful q' \<and> queue_rank q' < queue_rank q"
    using turn_progresses [OF assms(1) less.prems assms(3)] by blast
  have live: "queue_live q'" "q_seed q' = q_seed q" using background_turn_live [OF less.prems(2) step(1)] by simp_all
  have pos: "0 < queue_rank q"
    using less.prems(2,3) by (cases "q_thread q") (auto simp: queue_live_def queue_rank_def split: option.splits)
  show ?case
  proof (cases "settled q'")
    case True
    then show ?thesis using step(1) live(2) pos by (intro exI [of _ 1]) simp
  next
    case False
    then have less': "queue_rank q' < queue_rank q" "q_state q' = STATE_PENDING" "hopeful q'" using step(2) by simp_all
    have "queue_ok initialise a q' cfg'"
      using background_turn_ok [OF _ less.prems(1) assms(2) step(1)] assms(1) by (simp add: host_good_def)
    from less.hyps [OF less'(1) this live(1) less'(2,3)] obtain n r cfg'' where
      "n \<le> queue_rank q'" "turns host n (q', cfg') = Some (r, cfg'')" "settled r" "q_seed r = q_seed q'" by blast
    then show ?thesis using step(1) live(2) less'(1) by (intro exI [of _ "Suc n"]) auto
  qed
qed

end

subsection \<open>The miner\<close>

lemma run_background:
  "miner_run cs (replicate n (Background host)) m =
    map_option (\<lambda>(q, cfg). m\<lparr> mi_queue := q, mi_config := cfg \<rparr>) (turns host n (mi_queue m, mi_config m))"
proof (induction n arbitrary: m)
  case (Suc n)
  then show ?case
    by (cases "background_turn host (mi_queue m, mi_config m)")
      (auto simp: miner_may_def miner_event_def split: prod.splits)
qed simp

lemma run_append: "miner_run cs (es @ es') m = do { m \<leftarrow> miner_run cs es m; miner_run cs es' m }"
  by (induction es arbitrary: m) auto

text \<open>What the calls of the main thread keep: the allocator's arrays, the index of the job, and that the queue is asked for the job.\<close>

definition asked :: "'l miner \<Rightarrow> bool" where
  "asked m \<longleftrightarrow> seed_isEqual (q_seed (mi_queue m)) (seed_of_job (mi_job m))"

definition main_ok :: "'l miner \<Rightarrow> bool" where
  "main_ok m \<longleftrightarrow> nonce_wf (mi_nonce m) \<and> j_index (mi_job m) = 0 \<and> queue_live (mi_queue m) \<and>
     (q_state (mi_queue m) = STATE_SHUTDOWN \<longrightarrow> mi_pc m = Destroying) \<and>
     (mi_pc m = ResumeJob \<or> mi_pc m = Idle \<and> mi_active m \<longrightarrow> asked m)"

lemma nonce_wf_ops:
  assumes "nonce_wf ns"
  shows "nonce_wf (nonce_pause p ns)" "nonce_wf (nonce_touch ns)" "nonce_wf (nonce_stop ns)"
    "\<exists>ns'. nonce_reset 0 ns = Some ns' \<and> nonce_wf ns'"
    "\<exists>ns'. nonce_stop_backend Backend_CPU ns = Some ns' \<and> nonce_wf ns'"
    "\<exists>ns'. nonce_touch_backend Backend_CPU ns = Some ns' \<and> nonce_wf ns'"
  using assms
  by (simp_all add: nonce_wf_def nonce_pause_def nonce_touch_def nonce_stop_def nonce_reset_def nonce_stop_backend_def
      nonce_touch_backend_def Backend_CPU_def Backend_MAX_def wr_Some rd_Some)

lemma backend_stop_returns:
  assumes "nonce_wf (mi_nonce m)"
  shows "\<exists>m'. backend_stop m = Some m' \<and> nonce_wf (mi_nonce m')"
proof -
  obtain ns where ns: "nonce_stop_backend Backend_CPU (mi_nonce m) = Some ns" "nonce_wf ns"
    using nonce_wf_ops(5) [OF assms] by blast
  obtain ns' where "nonce_touch_backend Backend_CPU ns = Some ns'" "nonce_wf ns'" using nonce_wf_ops(6) [OF ns(2)] by blast
  then show ?thesis using ns assms by (simp add: backend_stop_def)
qed

lemma backend_setJob_returns:
  assumes "nonce_wf (mi_nonce m)"
  shows "\<exists>m'. backend_setJob cs job m = Some m' \<and> nonce_wf (mi_nonce m')"
proof -
  obtain m1 where m1: "backend_stop m = Some m1" "nonce_wf (mi_nonce m1)" using backend_stop_returns [OF assms] by blast
  obtain ns where "nonce_touch_backend Backend_CPU (mi_nonce m1) = Some ns" "nonce_wf ns"
    using nonce_wf_ops(6) [OF m1(2)] by blast
  then show ?thesis using m1 assms by (simp add: backend_setJob_def Let_def)
qed

lemma handleJobChange_returns:
  assumes wf: "nonce_wf (mi_nonce m)" and index: "j_index (mi_job m) = 0"
  shows "\<exists>m'. handleJobChange cs m = Some m' \<and> nonce_wf (mi_nonce m') \<and>
    (mi_active m \<and> mi_enabled m \<longrightarrow> \<not> m_paused (mi_nonce m'))"
proof -
  let ?m = "if mi_enabled m then m else mi_pause True m"
  have m: "nonce_wf (mi_nonce ?m)" "mi_reset ?m = mi_reset m" "j_index (mi_job ?m) = 0"
    using nonce_wf_ops(1) [OF wf] wf index by (simp_all add: mi_pause_def)
  obtain ns where ns: "nonce_reset 0 (mi_nonce ?m) = Some ns" "nonce_wf ns" using nonce_wf_ops(4) [OF m(1)] by blast
  let ?m1 = "if mi_reset m then ?m\<lparr> mi_nonce := ns \<rparr> else ?m"
  have "nonce_wf (mi_nonce ?m1)" using ns(2) m(1) by simp
  then obtain m2 where m2: "backend_setJob cs (mi_job ?m1) ?m1 = Some m2" "nonce_wf (mi_nonce m2)"
    using backend_setJob_returns by blast
  have same: "mi_active m2 = mi_active m" "mi_enabled m2 = mi_enabled m"
    using backend_setJob_same [OF m2(1)] by (auto simp: same_queue_def mi_pause_def split: if_splits)
  have "handleJobChange cs m = Some (if mi_active m2 \<and> mi_enabled m2 then mi_pause False (mi_touch m2) else mi_touch m2)"
    using ns(1) m m2(1) index
    by (cases "mi_enabled m"; cases "mi_reset m") (simp_all add: handleJobChange_def Let_def mi_touch_def mi_pause_def)
  then show ?thesis
    using m2(2) same nonce_wf_ops by (auto simp: mi_pause_def mi_touch_def nonce_pause_def nonce_wf_def nonce_touch_def)
qed

text \<open>Jobs of one coin, whose algorithm is one of RandomX.\<close>

definition rx_coin :: "u32 \<Rightarrow> bool" where
  "rx_coin a \<longleftrightarrow> (\<forall>b. isEqualSeedAlgo a b \<longrightarrow> algo_family b = RANDOM_X)"

lemma rx_coin_valid: "rx_coin a \<Longrightarrow> a \<noteq> ALGO_INVALID"
  by (auto simp: rx_coin_def isEqualSeedAlgo_def algo_family_def algo_ids)

lemma rx_coin_RX_0: "rx_coin RX_0"
  by (auto simp: rx_coin_def isEqualSeedAlgo_def algo_family_def algo_ids)

lemma asked_same: "same_queue m m' \<Longrightarrow> asked m' = asked m"
  by (simp add: same_queue_def asked_def)

context cache_setter
begin

lemma main_event_ok:
  assumes ok: "miner_ok a m" "main_ok m" and a: "rx_coin a" and may: "miner_may m e"
    and e: "event_ok initialise (coin_job a) e" and returns: "\<And>cfg key. \<exists>c. initialise cfg key = Some c"
  shows "\<exists>m'. miner_event cs e m = Some m' \<and> main_ok m'"
proof (cases e)
  case (SetJob job)
  have wf: "nonce_wf (mi_nonce m)" using ok(2) by (simp add: main_ok_def)
  have idle: "mi_pc m = Idle" using may SetJob by (simp add: miner_may_def)
  have "nonce_wf (mi_nonce (m\<lparr> mi_nonce := nonce_stop (mi_nonce m) \<rparr>))" using nonce_wf_ops(3) [OF wf] by simp
  then obtain m1 where m1: "miner_stop m = Some m1" "nonce_wf (mi_nonce m1)"
    using backend_stop_returns unfolding miner_stop_def by blast
  note same = miner_stop_same [OF m1(1)]
  show ?thesis
    using ok(2) m1 same idle nonce_wf_ops [OF wf] SetJob
    by (auto simp: miner_event_def setJob_begin_def main_ok_def same_queue_def mi_touch_def mi_pause_def
        nonce_wf_def nonce_touch_def nonce_pause_def)
next
  case Continue
  show ?thesis
  proof (cases "mi_pc m")
    case (InitRX job)
    then have fam: "algo_family (j_algorithm job) = RANDOM_X"
      using ok(1) a by (simp add: miner_ok_def coin_job_def rx_coin_def)
    have "main_ok (setJob_init job m)"
    proof (cases "mi_isReady ((job_copy job (mi_job m))\<lparr> j_index := 0 \<rparr>) m")
      case True
      then have "seed_isEqual (q_seed (mi_queue m)) (seed_of_job ((job_copy job (mi_job m))\<lparr> j_index := 0 \<rparr>))"
        by (simp add: mi_isReady_def queue_isReady_def split: option.splits)
      then show ?thesis
        using True ok(2) InitRX by (auto simp: setJob_init_def Let_def main_ok_def asked_def mi_isReady_def)
    next
      case False
      then show ?thesis
        using fam ok(2) InitRX by (auto simp: setJob_init_def Let_def main_ok_def asked_def mi_isReady_def)
    qed
    then show ?thesis using Continue InitRX by (simp add: miner_event_def miner_continue_def)
  next
    case (EnqueueRX same)
    let ?item = "\<lparr> it_seed = seed_of_job (mi_job m), it_threads = cs_rxThreads cs, it_mode = cs_mode cs \<rparr>"
    have "queue_live (queue_enqueue ?item (mi_queue m))"
      using ok(2) EnqueueRX by (intro enqueue_live) (auto simp: main_ok_def)
    moreover have "q_state (queue_enqueue ?item (mi_queue m)) \<noteq> STATE_SHUTDOWN"
      using ok(2) EnqueueRX by (auto simp: main_ok_def queue_enqueue_def Let_def)
    ultimately have "main_ok (setJob_enqueue cs same m)"
      using ok(2) enqueue_seed [of ?item "mi_queue m"] by (simp add: setJob_enqueue_def Let_def main_ok_def asked_def)
    then show ?thesis using Continue EnqueueRX by (simp add: miner_event_def miner_continue_def)
  next
    case ResumeJob
    let ?m = "m\<lparr> mi_active := True, mi_pc := Idle \<rparr>"
    obtain m' where m': "handleJobChange cs ?m = Some m'" "nonce_wf (mi_nonce m')"
      using handleJobChange_returns [of ?m cs] ok(2) by (auto simp: main_ok_def)
    have "same_queue ?m m'" using handleJobChange_same [OF m'(1)] by simp
    then have "main_ok m'" using m'(2) ok(2) ResumeJob by (auto simp: main_ok_def same_queue_def asked_def)
    then show ?thesis using m'(1) Continue ResumeJob by (simp add: miner_event_def miner_continue_def)
  qed (use Continue may in \<open>simp_all add: miner_may_def\<close>)
next
  case Async
  let ?m = "m\<lparr> mi_queue := snd (queue_onReady (mi_queue m)) \<rparr>"
  have m1: "main_ok ?m" using ok(2) by (auto simp: main_ok_def queue_onReady_def queue_live_def asked_def split: option.splits)
  obtain m' where m': "handleJobChange cs ?m = Some m'" "nonce_wf (mi_nonce m')"
    using handleJobChange_returns [of ?m cs] m1 by (auto simp: main_ok_def)
  have same: "same_queue ?m m' \<and> mi_active m' = mi_active ?m" by (rule handleJobChange_same [OF m'(1)])
  have "main_ok m'" using m'(2) m1 same by (auto simp: main_ok_def same_queue_def asked_def)
  then show ?thesis
    using m1 m'(1) Async by (auto simp: miner_event_def onDatasetReady_def queue_onReady_def Let_def)
next
  case (SetEnabled battery enabled)
  then show ?thesis
    using ok(2) nonce_wf_ops
    by (auto simp: miner_event_def setEnabled_def Let_def mi_touch_def mi_pause_def main_ok_def asked_def)
next
  case PauseMiner
  then show ?thesis
    using ok(2) nonce_wf_ops by (auto simp: miner_event_def miner_pause_def mi_touch_def mi_pause_def main_ok_def asked_def)
next
  case StopMiner
  have "nonce_wf (mi_nonce (m\<lparr> mi_nonce := nonce_stop (mi_nonce m) \<rparr>))" using nonce_wf_ops(3) ok(2) by (simp add: main_ok_def)
  then obtain m1 where m1: "miner_stop m = Some m1" "nonce_wf (mi_nonce m1)"
    using backend_stop_returns unfolding miner_stop_def by blast
  then have "main_ok m1" using miner_stop_same [OF m1(1)] ok(2) by (auto simp: main_ok_def same_queue_def asked_def)
  then show ?thesis using m1 StopMiner by (simp add: miner_event_def)
next
  case Destroy
  then show ?thesis
    using ok(2) may by (auto simp: miner_event_def miner_may_def queue_shutdown_def main_ok_def queue_live_def asked_def)
next
  case (Background host)
  have q: "queue_ok initialise a (mi_queue m) (mi_config m)" "queue_live (mi_queue m)"
    using ok by (simp_all add: miner_ok_def main_ok_def)
  have "host_ok initialise host" using e Background by (simp add: event_ok_def)
  then obtain q' cfg' where turn: "background_turn host (mi_queue m, mi_config m) = Some (q', cfg')"
    using background_turn_returns [OF _ q returns] by blast
  show ?thesis
    using background_turn_live [OF q(2) turn] turn ok(2) Background
    by (auto simp: miner_event_def main_ok_def asked_def)
qed

lemma reachable_main_ok:
  assumes "miner_reachable cs initialise (coin_job a) m" "rx_coin a" "\<And>cfg key. \<exists>c. initialise cfg key = Some c"
  shows "miner_ok a m \<and> main_ok m"
  using assms
proof (induction rule: miner_reachable.induct)
  case initial
  then show ?case
    by (simp add: miner_ok_def main_ok_def miner_initial_def new_queue_live queue_ok_def)
      (simp add: new_queue_def nonce_wf_def nonce_initial_def new_job_def)
next
  case (event m e m')
  then have m: "miner_ok a m" "main_ok m" by simp_all
  obtain m1 where "miner_event cs e m = Some m1" "main_ok m1"
    using main_event_ok [OF m event.prems(1) event.hyps(2,3) event.prems(2)] by blast
  then show ?case
    using event.hyps miner_event_ok [OF m(1) rx_coin_valid [OF event.prems(1)]] by simp
qed

lemma job_served:
  assumes m: "miner_reachable cs initialise (coin_job a) m" and a: "rx_coin a"
    and returns: "\<And>cfg key. \<exists>c. initialise cfg key = Some c"
    and main: "mi_pc m = Idle" "mi_active m" "mi_enabled m"
    and queue: "q_state (mi_queue m) = STATE_PENDING" "hopeful (mi_queue m)" and host: "host_good initialise host"
  shows "\<exists>n m'. n \<le> 7 \<and> miner_run cs (replicate n (Background host) @ [Async]) m = Some m' \<and> mi_job m' = mi_job m \<and>
    queue_dataset (mi_job m') (mi_queue m') \<noteq> None \<and> \<not> m_paused (mi_nonce m')"
proof -
  have ok: "miner_ok a m" "main_ok m" using reachable_main_ok [OF m a returns] by simp_all
  have q: "queue_ok initialise a (mi_queue m) (mi_config m)" "queue_live (mi_queue m)"
    using ok by (simp_all add: miner_ok_def main_ok_def)
  obtain n q' cfg' where n: "n \<le> queue_rank (mi_queue m)" "turns host n (mi_queue m, mi_config m) = Some (q', cfg')"
    "settled q'" "q_seed q' = q_seed (mi_queue m)"
    using queue_settles [OF host rx_coin_valid [OF a] returns q queue] by blast
  have "queue_rank (mi_queue m) \<le> 7" using thread_rank_le [of "q_thread (mi_queue m)"] by (simp add: queue_rank_def)
  then have n7: "n \<le> 7" using n(1) by simp
  let ?m = "m\<lparr> mi_queue := q', mi_config := cfg' \<rparr>"
  let ?m1 = "?m\<lparr> mi_queue := snd (queue_onReady q') \<rparr>"
  have run: "miner_run cs (replicate n (Background host)) m = Some ?m" using n(2) by (simp add: run_background)
  obtain st where st: "q_storage q' = Some st" "filled st" "bs_seed st = q_seed q'" "q_state q' = STATE_IDLE" "q_notified q'"
    using n(3) by (auto simp: settled_def)
  have seed: "seed_isEqual (q_seed q') (seed_of_job (mi_job m))"
    using ok(2) main n(4) by (simp add: main_ok_def asked_def)
  have isready: "mi_isReady (mi_job m) ?m1"
    using st seed by (simp add: mi_isReady_def queue_isReady_def queue_onReady_def filled_def)
  obtain m' where m': "handleJobChange cs ?m1 = Some m'" "\<not> m_paused (mi_nonce m')"
    using handleJobChange_returns [of ?m1 cs] ok(2) main by (auto simp: main_ok_def)
  have same: "same_queue ?m1 m'" using handleJobChange_same [OF m'(1)] by simp
  have "miner_run cs [Async] ?m = Some m'"
    using main st isready m'(1)
    by (simp add: miner_may_def miner_event_def queue_onReady_def onDatasetReady_def Let_def)
  moreover have "mi_job m' = mi_job m" "queue_dataset (mi_job m') (mi_queue m') \<noteq> None"
    using same isready st seed
    by (auto simp: same_queue_def mi_isReady_def queue_dataset_def storage_dataset_def queue_onReady_def filled_def)
  ultimately show ?thesis using n7 run m'(2) by (intro exI [of _ n] exI [of _ m']) (simp add: run_append)
qed

end

end
