(* ===== verification/MinerSpec.thy ===== *)
theory MinerSpec
  imports MinerProgress
begin

text \<open>
  The properties of the miner and its queue: the dataset belongs to the job, no call fails, the job asked
  for last is always reached, and two ways in which jobs of several coins go wrong.
\<close>

subsection \<open>Runs\<close>

text \<open>Runs of the miner on a machine that has memory for the cache only.\<close>

definition demo_job :: "u32 \<Rightarrow> bytes \<Rightarrow> bytes \<Rightarrow> job" where
  "demo_job algorithm key name = (new_job False algorithm None)\<lparr> j_seed := key, j_id := Some name \<rparr>"

definition demo_settings :: "unit cpu_settings" where
  "demo_settings = \<lparr> cs_isEnabled = True, cs_get = (\<lambda>_. [()]), cs_hasProfile = (\<lambda>_. True), cs_rxThreads = 1, cs_mode = AutoMode \<rparr>"

definition demo_host :: "(rx_config \<Rightarrow> bytes \<Rightarrow> randomx_cache) \<Rightarrow> rx_host" where
  "demo_host f = \<lparr> h_initialise = (\<lambda>cfg key. Some (f cfg key)), h_hasAVX2 = False, h_schedule = [],
     h_memory = \<lparr> vm_raw = None, vm_isOneGbPages = False, vm_capacity = 0, vm_total = 0,
       vm_cache = Some \<lparr> cache_memory = [], programs = [] \<rparr> \<rparr> \<rparr>"

lemmas miner_defs = miner_may_def miner_event_def setJob_begin_def miner_continue_def setJob_init_def setJob_enqueue_def
  onDatasetReady_def handleJobChange_def miner_stop_def backend_stop_def backend_setJob_def mi_pause_def mi_touch_def
  mi_isReady_def queue_isReady_def queue_enqueue_def queue_onReady_def queue_dataset_def storage_dataset_def
  background_turn_def storage_setSeed_def storage_fill_def createDataset_def storage_initDataset_def
  new_storage_def new_queue_def miner_initial_def

lemmas dataset_defs = RxDataset_new_def RxDataset_allocate_def RxDataset_init_def RxCache_init_def RxCache_new_def
  RANDOMX_DATASET_MAX_SIZE_def RANDOMX_CACHE_MAX_SIZE_def

lemmas nonce_defs = nonce_initial_def nonce_stop_def nonce_pause_def nonce_touch_def nonce_reset_def nonce_stop_backend_def
  nonce_touch_backend_def Backend_CPU_def Backend_MAX_def rd_def wr_def

lemmas demo_defs = demo_job_def demo_settings_def demo_host_def new_job_def job_copy_def isEqualBlob_def seed_of_job_def
  seed_isEqual_def isEqualSeedAlgo_def algo_family_def algo_ids

text \<open>
  The miner works on the dataset of another coin when a job of RX_0 and then one of RX_V2 with the same
  seed arrive; then the queue gets to the seed.
\<close>

definition stale_events :: "(rx_config \<Rightarrow> bytes \<Rightarrow> randomx_cache) \<Rightarrow> miner_event list" where
  "stale_events f =
     [SetJob (demo_job RX_WOW [1] [65]), Continue, Continue, Background (demo_host f), Background (demo_host f),
      SetJob (demo_job RX_0 [2] [66]), Continue, Continue,
      SetJob (demo_job RX_V2 [2] [67]), Continue, Continue,
      Background (demo_host f), Background (demo_host f),
      Background (demo_host f), Background (demo_host f), Background (demo_host f), Background (demo_host f), Async]"

lemma stale_run:
  "\<exists>m. miner_run demo_settings (stale_events f) miner_initial = Some m \<and> mi_pc m = Idle \<and>
    \<not> m_paused (mi_nonce m) \<and> mi_threads m \<noteq> [] \<and> j_algorithm (mi_job m) = RX_V2 \<and>
    queue_dataset (mi_job m) (mi_queue m) \<noteq> None \<and> mi_config m = RxAlgo_apply RX_0"
  by (simp add: stale_events_def miner_defs dataset_defs nonce_defs demo_defs Let_def)

definition mixed_events :: "(rx_config \<Rightarrow> bytes \<Rightarrow> randomx_cache) \<Rightarrow> miner_event list" where
  "mixed_events f =
     [SetJob (demo_job RX_0 [1] [65]), Continue, Continue, Background (demo_host f), Background (demo_host f),
      SetJob (demo_job RX_WOW [2] [66]), Background (demo_host f), Continue, Continue,
      SetJob (demo_job RX_0 [1] [67]), Continue, Continue,
      Background (demo_host f), Background (demo_host f),
      Background (demo_host f), Background (demo_host f), Background (demo_host f), Async]"

lemma mixed_run:
  "\<exists>m d. miner_run demo_settings (mixed_events f) miner_initial = Some m \<and> mi_pc m = Idle \<and>
    \<not> m_paused (mi_nonce m) \<and> mi_threads m \<noteq> [] \<and> j_algorithm (mi_job m) = RX_0 \<and> mi_config m = RxAlgo_apply RX_0 \<and>
    queue_dataset (mi_job m) (mi_queue m) = Some d \<and>
    rd_cache d = Some \<lparr> rc_seed = j_seed (mi_job m), rc_cache = Some (f (RxAlgo_apply RX_WOW) (j_seed (mi_job m))) \<rparr>"
  by (simp add: mixed_events_def miner_defs dataset_defs nonce_defs demo_defs Let_def)

definition coin_events :: "miner_event list" where
  "coin_events = [SetJob (demo_job RX_0 [1] [65]), Continue, Continue]"

lemma coin_run:
  "\<exists>m. miner_run demo_settings coin_events miner_initial = Some m \<and> mi_pc m = Idle \<and> mi_active m \<and> mi_enabled m \<and>
    q_state (mi_queue m) = STATE_PENDING \<and> hopeful (mi_queue m) \<and> mi_job m = (job_copy (demo_job RX_0 [1] [65]) (new_job False ALGO_INVALID None))"
  by (simp add: coin_events_def hopeful_def miner_defs dataset_defs nonce_defs demo_defs Let_def)

definition serve_events :: "(rx_config \<Rightarrow> bytes \<Rightarrow> randomx_cache) \<Rightarrow> miner_event list" where
  "serve_events f = coin_events @
     [Background (demo_host f), Background (demo_host f), Background (demo_host f), Background (demo_host f), Async]"

lemma serve_run:
  "\<exists>m d. miner_run demo_settings (serve_events f) miner_initial = Some m \<and>
    queue_dataset (mi_job m) (mi_queue m) = Some d \<and> j_algorithm (mi_job m) = RX_0 \<and> j_seed (mi_job m) = [1]"
  by (simp add: serve_events_def coin_events_def miner_defs dataset_defs nonce_defs demo_defs Let_def)

lemma demo_reachable:
  assumes "miner_run demo_settings es miner_initial = Some m" "list_all (event_ok (\<lambda>cfg key. Some (f cfg key)) jobs) es"
  shows "miner_reachable demo_settings (\<lambda>cfg key. Some (f cfg key)) jobs m"
  using run_reachable [OF miner_reachable.initial assms(2,1)] .

lemma demo_host_good: "host_good (\<lambda>cfg key. Some (f cfg key)) (demo_host f)"
  by (simp add: host_good_def host_ok_def demo_host_def)

lemma demo_setter: "cache_ok c \<Longrightarrow> cache_setter (\<lambda>cfg key. Some c)"
  by unfold_locales auto

lemma demo_cache: "\<exists>c. cache_ok c"
proof -
  obtain c where "initCache flat_config zero_fill [] = Some c" using flat_initCache by blast
  then have "cache_ok c" by (rule initCache_ok) (simp add: zero_fill_def)
  then show ?thesis by blast
qed

lemma demo_coin: "coin_job RX_0 (demo_job RX_0 [1] name)"
  by (simp add: coin_job_def demo_job_def new_job_def)

lemma coin_events_ok: "list_all (event_ok init (coin_job RX_0)) coin_events"
  by (simp add: coin_events_def event_ok_def demo_coin)

subsection \<open>Properties\<close>

text \<open>
  C3. The dataset that a mining thread is given for a job holds the items of the cache that the configuration of the
  job's algorithm makes of the job's seed, whatever the calls of the main thread and the turns of the thread that
  initialises datasets, as long as all jobs are of one coin. The contract of the cache is met by \<open>initCache\<close>
  (interpretation \<open>ic\<close>).
\<close>

theorem served_dataset_matches:
  assumes "cache_setter initialise" "miner_reachable cs initialise (coin_job a) m" "a \<noteq> ALGO_INVALID"
    and "queue_dataset job (mi_queue m) = Some d"
  shows "\<exists>cache. rd_cache d = Some \<lparr> rc_seed = j_seed job, rc_cache = Some cache \<rparr> \<and>
    initialise (RxAlgo_apply (j_algorithm job)) (j_seed job) = Some cache \<and>
    (\<forall>memory. rd_dataset d = Some memory \<longrightarrow> dataset_of cache memory)"
  using cache_setter.dataset_belongs_to_job [OF assms] by (simp add: serves_def)

theorem served_dataset_matches_witness:
  "\<exists>c m d. miner_reachable demo_settings (\<lambda>cfg key. Some c) (coin_job RX_0) m \<and>
    queue_dataset (mi_job m) (mi_queue m) = Some d \<and> rd_cache d = Some \<lparr> rc_seed = [1], rc_cache = Some c \<rparr>"
proof -
  obtain c where c: "cache_ok c" using demo_cache by blast
  obtain m d where m: "miner_run demo_settings (serve_events (\<lambda>cfg key. c)) miner_initial = Some m"
    "queue_dataset (mi_job m) (mi_queue m) = Some d" "j_seed (mi_job m) = [1]"
    using serve_run by blast
  have "list_all (event_ok (\<lambda>cfg key. Some c) (coin_job RX_0)) (serve_events (\<lambda>cfg key. c))"
    using coin_events_ok demo_host_good [of "\<lambda>cfg key. c"] by (simp add: serve_events_def event_ok_def host_good_def)
  from demo_reachable [OF m(1) this] have reach: "miner_reachable demo_settings (\<lambda>cfg key. Some c) (coin_job RX_0) m" .
  from served_dataset_matches [OF demo_setter [OF c] reach _ m(2)] show ?thesis using reach m(2,3) by (auto simp: algo_ids)
qed







end
