(* ===== verification/Spec2Isabelle.thy ===== *)
theory Spec2Isabelle
  imports BytecodeTermination SuperscalarSpec Blake2b VmFunction NonceProps Algorithm MerkleTree BlockTemplateExample
    FailoverStrategy JobProps WorkerSpec CurveSpec SignatureProps HashToPoint LineReader WalletAddressProps
    MinerSpec
begin

text \<open>
  A model of rxs, a CPU miner for coins that use RandomX, with the theorems that make its parts correct.
  All paths are below \<^verbatim>\<open>src/src\<close>.

  \<^bold>\<open>The program.\<close> A pool client delivers lines of text (\<^verbatim>\<open>base/net/tools/LineReader\<close>), from which jobs are made
  (\<^verbatim>\<open>base/net/stratum/Job\<close>, \<^verbatim>\<open>base/tools/Cvt\<close>, \<^verbatim>\<open>base/crypto/Algorithm\<close>) or, when mining alone, block templates
  (\<^verbatim>\<open>base/tools/cryptonote\<close>). A strategy (\<^verbatim>\<open>base/net/stratum/strategies\<close>) chooses the pool. The seed of a job is
  expanded to a cache and a dataset (\<^verbatim>\<open>crypto/rx\<close>, \<^verbatim>\<open>crypto/randomx/dataset.cpp\<close>, \<^verbatim>\<open>superscalar.cpp\<close>). Mining threads
  (\<^verbatim>\<open>backend/cpu/CpuWorker\<close>, \<^verbatim>\<open>backend/common/WorkerJob.h\<close>) reserve nonces (\<^verbatim>\<open>crypto/common/Nonce\<close>), put them into
  the blob of the job, sign it where the coin asks for it (\<^verbatim>\<open>Signatures.cpp\<close>, \<^verbatim>\<open>crypto-ops.c\<close>) and hash it on a
  virtual machine (\<^verbatim>\<open>crypto/randomx\<close>) that runs random programs; a hash below the target is submitted. A thread of
  its own prepares the dataset for the seed that was asked for last (\<^verbatim>\<open>crypto/rx/RxQueue\<close>), while the main thread
  (\<^verbatim>\<open>core/Miner\<close>, \<^verbatim>\<open>backend/cpu/CpuBackend\<close>) takes up jobs and starts, pauses and stops the mining threads.

  \<^bold>\<open>Conventions.\<close> Machine integers are words of their width; Python-like integers occur nowhere, and \<open>int\<close> stands
  for the signed 32- and 64-bit limbs of the curve, where every operation is checked for overflow (\<open>chk\<close>, \<open>INT32\<close>,
  \<open>INT64\<close>). Memory is a list of bytes, read and written by operations that fail outside it. A result \<open>None\<close> is
  undefined behaviour or a loop that does not return, so that \<open>succeeds m P\<close> of a result states totality, safety and
  the postcondition \<open>P\<close> at once. Return values that report failure are an inner option or a boolean. Functions of
  the code keep their names.

  \<^bold>\<open>The theories.\<close>

    \<^item> \<open>Prelude\<close>: bytes, little-endian words, checked memory and \<open>succeeds\<close> with its rules.
    \<^item> \<open>RxConfig\<close>, \<open>RxInstr\<close>: the coin configurations with the masks and the opcode table that \<open>Apply\<close> derives
      (\<^verbatim>\<open>randomx.cpp\<close>), instruction words and integer helpers. Every shipped configuration is valid (\<open>rx_valid\<close>);
      high products and reciprocals agree with their plain definitions.
    \<^item> \<open>Bytecode\<close> (\<^verbatim>\<open>bytecode_machine.cpp\<close>): compilation and execution of the 30 instruction types over a register
      machine; the floating-point unit is a record of operations. \<open>BytecodeSafety\<close> has the invariant of compiled code,
      \<open>BytecodeTermination\<close> that a compiled program ends: a branch cannot be taken more than twice in a row, so that
      \<open>3 * ProgramSize\<close> steps of fuel are enough, and the interpreter is run with exactly that.
    \<^item> \<open>Blake2b\<close>: the portable hash and the variable-length hash of Argon2, against RFC 7693.
    \<^item> \<open>Superscalar\<close>: the generator of superscalar programs with its byte source and port scheduler.
      \<open>SuperscalarProps\<close> carries its invariant, \<open>SuperscalarExample\<close> runs one, \<open>SuperscalarSpec\<close> states what a
      generated program satisfies and that only an endless run of rejected bytes keeps the generator from returning.
    \<^item> \<open>Dataset\<close>, \<open>DatasetProps\<close>: cache, items and ranges of the dataset; the Argon2d fill is a parameter.
      \<open>RxDataset\<close>, \<open>RxDatasetProps\<close>: its owner, which fills it with up to 256 threads. A schedule names the thread
      that makes the next write; the result does not depend on it.
    \<^item> \<open>RxQueue\<close>: seeds, the storage of the dataset (\<^verbatim>\<open>RxBasicStorage\<close>) and the queue, whose thread moves by turns.
      \<open>Miner\<close>: the main thread, whose calls are cut where the thread of the queue can come between, and the global
      configuration both write. \<open>MinerProps\<close>: the locale \<open>cache_setter\<close> states what the initialisation of a cache
      promises (interpreted by \<open>initCache\<close>); in it, the invariant of all reachable states. \<open>MinerProgress\<close>: the
      job asked for last is reached. \<open>MinerSpec\<close>: the properties, and two runs with jobs of several coins that
      end with the wrong configuration or cache.
    \<^item> \<open>SoftAes\<close>, \<open>AesHash\<close>, \<open>AesHashProps\<close>: the table-driven rounds, which are those of AES, and the hash and the
      generators built on them; the fused pass is the hash followed by the fill.
    \<^item> \<open>Vm\<close>: program set-up, one iteration, whole hashes, plain and pipelined. The locale \<open>dataset_view\<close> (in
      \<open>VmProps\<close>) is the interface of the machine to its dataset and is interpreted by the full dataset and by the
      cache. \<open>VmSpec\<close>: hashing is total, full and light machines agree, pipelined calls are plain calls.
      \<open>VmFunction\<close>: the hash does not depend on what the machine did before.
    \<^item> \<open>Nonce\<close>, \<open>NonceProps\<close>: the shared counters, as calls and as interleaved atomic steps; granted ranges are disjoint.
    \<^item> \<open>Cvt\<close>, \<open>Algorithm\<close>, \<open>Job\<close>, \<open>JobProps\<close>: hexadecimal text, names of algorithms, jobs and targets.
    \<^item> \<open>Worker\<close>, \<open>WorkerProps\<close>, \<open>WorkerSpec\<close>: a mining thread as a step relation whose steps are its reads of the
      shared state, between which the other threads may do anything. Its results are sound; one race is exhibited.
    \<^item> \<open>Keccak\<close>, \<open>KeccakProps\<close>; \<open>BlobReader\<close>, \<open>BlockTemplate\<close>, \<open>BlockTemplateParser\<close> with \<open>BlockTemplateProps\<close>,
      \<open>BlockTemplateSafety\<close>, \<open>BlockTemplateExample\<close> and \<open>MerkleTree\<close>: templates, hashing blobs and Merkle roots. The
      parser takes the bounds test as an argument: with the exact test it is safe, with the wrapping one of the code a
      template is given on which it never returns.
    \<^item> \<open>Strategy\<close>, \<open>FailoverStrategy\<close>: the locale \<open>strategy\<close> is the contract between a strategy and its listener; the
      failover and the single-pool strategy interpret it.
    \<^item> \<open>Limbs\<close>, \<open>Field25519\<close>, \<open>FieldProps\<close>, \<open>FieldResidue\<close>, \<open>Packing\<close>, \<open>FieldBytes\<close>: the field of the signature curve.
      \<open>residue\<close> is the ring of integers modulo \<open>2\<^sup>2\<^sup>5\<^sup>5 - 19\<close>; interval arithmetic shows that no carry chain overflows.
    \<^item> \<open>Point25519\<close>, \<open>PointProps\<close>, \<open>PointCodec\<close>, \<open>HashToPoint\<close>: points, their encoding, and the map of bytes to points.
    \<^item> \<open>Scalar25519\<close>, \<open>ScalarProps\<close>: arithmetic modulo the group order. \<open>CurveSpec\<close> has the properties of field, points
      and scalars.
    \<^item> \<open>ScalarMult\<close>, \<open>CurveTables\<close>: scalar multiplication and the tables. \<open>Recoding\<close> shows the recodings of scalars
      exact, \<open>ScalarMultProps\<close> follows the loops, \<open>BasePoint\<close> checks the table of the base point, \<open>BaseMult\<close> the
      multiplication that uses the big table, \<open>ScalarMultSpec\<close> has the properties.
    \<^item> \<open>Signatures\<close>, \<open>SignatureProps\<close>; \<open>LineReader\<close>; \<open>WalletAddress\<close>, \<open>WalletAddressProps\<close>.

  \<^bold>\<open>How multiples are stated.\<close> That the addition of the curve is associative is not proved here. A multiple of a
  point is therefore a \<open>combination\<close>: a point obtained from given ones by additions, doublings and negations in which
  each counts as often as its coefficient says. In a group this determines the point. The entries of \<open>ge_Bi\<close> are
  proved to be odd multiples of the base point; those of \<open>ge_base\<close> are proved to be bounded, so that multiplication
  with it is total, but not that they are multiples.

  \<^bold>\<open>Not modelled.\<close>

    \<^item> The compilers to machine code (\<^verbatim>\<open>jit_compiler_*\<close>), the assembly and the versions with processor intrinsics: their
      meaning rests on instruction sets that are not part of the repository.
    \<^item> Argon2, rapidjson, llhttp, libuv, hwloc, fmt and OpenSSL: third-party code, a parameter where the model needs it.
    \<^item> Sockets, TLS and JSON exchanges of the pool clients, the HTTP interface, configuration files, logs, console and
      signals: they move data between the parts modelled here and the system.
    \<^item> Huge pages, memory nodes, affinity, processor detection, model specific registers, DMI: operating system calls.
    \<^item> One dataset per memory node (\<^verbatim>\<open>RxNUMAStorage\<close>), and of \<^verbatim>\<open>core/Miner.cpp\<close> the timer, hash rates, automatic pauses
      and reloading of settings. The model of a mining thread takes the dataset and the allocator's state as arbitrary.
    \<^item> Code compiled only for the proxy or the benchmark.
\<close>

end
